(* ===== verification/Prelude.thy ===== *)
theory Prelude
  imports Complex_Main "HOL-Library.Sublist"
begin

text \<open>
  Shared vocabulary of the development.

  A Go string is a sequence of bytes; here it is a \<^typ>\<open>string\<close>, whose \<^typ>\<open>char\<close>s are
  bytes, so \<open>length\<close> is Go's \<open>len\<close>. The functions of the standard library's package
  \<open>strings\<close> that the program calls are defined below under the prefix \<open>go_\<close>
  (argument order as in Go), each with the lemmas that the components use.

  \<open>go_to_lower\<close> lowers the ASCII letters and leaves every other byte alone: it is the
  library's function on ASCII text. \<open>go_trim_space\<close> and \<open>go_fields\<close> know every code point
  of \<open>unicode.IsSpace\<close> by its UTF-8 bytes.
\<close>

named_theorems go_defs \<open>definitions of the Go string functions that simply unfold\<close>
named_theorems go_len \<open>length facts that drive terminations\<close>

type_synonym gotime = int \<comment> \<open>\<open>time.Time\<close>: nanoseconds; 0 is the zero \<open>Time\<close>\<close>
type_synonym duration = int \<comment> \<open>\<open>time.Duration\<close>: nanoseconds\<close>

subsection \<open>64-bit signed integers\<close>

text \<open>Two's complement wrap-around of Go's \<open>int64\<close> (and \<open>int\<close>, \<open>time.Duration\<close>).\<close>

definition wrap64 :: "int \<Rightarrow> int" where
  "wrap64 x = (x + 2 ^ 63) mod 2 ^ 64 - 2 ^ 63"

definition int64_ok :: "int \<Rightarrow> bool" where
  "int64_ok x \<longleftrightarrow> - (2 ^ 63) \<le> x \<and> x < 2 ^ 63"

lemma wrap64_id [simp]: "int64_ok x \<Longrightarrow> wrap64 x = x"
  by (simp add: wrap64_def int64_ok_def)

lemma int64_ok_wrap64 [simp]: "int64_ok (wrap64 x)"
  unfolding int64_ok_def wrap64_def
  using pos_mod_bound [of "2 ^ 64" "x + 2 ^ 63"] pos_mod_sign [of "2 ^ 64" "x + 2 ^ 63"]
  by simp

text \<open>Go's integer division truncates towards zero.\<close>

definition go_quot :: "int \<Rightarrow> int \<Rightarrow> int" where
  "go_quot a b = sgn a * sgn b * (\<bar>a\<bar> div \<bar>b\<bar>)"

lemma go_quot_nonneg: "0 \<le> a \<Longrightarrow> 0 < b \<Longrightarrow> go_quot a b = a div b"
  by (cases "a = 0") (auto simp: go_quot_def)

text \<open>\<open>t.Sub(u)\<close> saturates at the ends of \<open>time.Duration\<close>.\<close>

definition time_sub :: "gotime \<Rightarrow> gotime \<Rightarrow> duration" where
  "time_sub t u = max (- (2 ^ 63)) (min (2 ^ 63 - 1) (t - u))"

lemma time_sub_pos_iff [simp]: "0 < time_sub t u \<longleftrightarrow> u < t"
  by (auto simp: time_sub_def min_def max_def)

lemma time_sub_nonneg_iff [simp]: "0 \<le> time_sub t u \<longleftrightarrow> u \<le> t"
  by (auto simp: time_sub_def min_def max_def)

subsection \<open>Characters\<close>

abbreviation LF :: char where "LF \<equiv> CHR 0x0A"
abbreviation CR :: char where "CR \<equiv> CHR 0x0D"
abbreviation TAB :: char where "TAB \<equiv> CHR 0x09"
abbreviation SP :: char where "SP \<equiv> CHR 0x20"

definition is_digit :: "char \<Rightarrow> bool" where
  "is_digit c \<longleftrightarrow> 48 \<le> (of_char c :: nat) \<and> (of_char c :: nat) \<le> 57"

text \<open>\<open>utf8.RuneStart\<close>: not a continuation byte \<open>10xxxxxx\<close>.\<close>

definition rune_start :: "char \<Rightarrow> bool" where
  "rune_start c \<longleftrightarrow> \<not> (128 \<le> (of_char c :: nat) \<and> (of_char c :: nat) < 192)"

definition lower_char :: "char \<Rightarrow> char" where
  "lower_char c = (if 65 \<le> (of_char c :: nat) \<and> (of_char c :: nat) \<le> 90
                   then char_of ((of_char c :: nat) + 32) else c)"

definition go_to_lower :: "string \<Rightarrow> string" where
  "go_to_lower s = map lower_char s"

lemma lower_char_idem [simp]: "lower_char (lower_char c) = lower_char c"
  by (auto simp: lower_char_def)

lemma go_to_lower_idem [simp]: "go_to_lower (go_to_lower s) = go_to_lower s"
  by (simp add: go_to_lower_def)

lemma length_go_to_lower [simp]: "length (go_to_lower s) = length s"
  by (simp add: go_to_lower_def)

subsection \<open>Prefixes, suffixes, searching\<close>

definition has_prefix :: "'a list \<Rightarrow> 'a list \<Rightarrow> bool" where
  "has_prefix s p \<longleftrightarrow> take (length p) s = p"

definition has_suffix :: "'a list \<Rightarrow> 'a list \<Rightarrow> bool" where
  "has_suffix s p \<longleftrightarrow> has_prefix (rev s) (rev p)"

definition trim_prefix :: "'a list \<Rightarrow> 'a list \<Rightarrow> 'a list" where
  "trim_prefix s p = (if has_prefix s p then drop (length p) s else s)"

definition trim_suffix :: "'a list \<Rightarrow> 'a list \<Rightarrow> 'a list" where
  "trim_suffix s p = (if has_suffix s p then take (length s - length p) s else s)"

lemma has_prefix_iff: "has_prefix s p \<longleftrightarrow> (\<exists>r. s = p @ r)"
  unfolding has_prefix_def by (metis append_eq_conv_conj append_take_drop_id)

lemma has_prefix_Nil [simp]: "has_prefix s []"
  by (simp add: has_prefix_def)

lemma has_prefix_append [simp]: "has_prefix (p @ r) p"
  by (simp add: has_prefix_def)

lemma has_suffix_iff: "has_suffix s p \<longleftrightarrow> (\<exists>r. s = r @ p)"
  unfolding has_suffix_def has_prefix_iff by (metis rev_append rev_rev_ident)

lemma has_prefix_Cons [simp]:
  "has_prefix [] (a # p) = False"
  "has_prefix (b # s) (a # p) = (a = b \<and> has_prefix s p)"
  by (auto simp: has_prefix_def)

text \<open>\<open>strings.Index\<close>: the least offset at which \<open>sub\<close> occurs, \<open>None\<close> for \<open>-1\<close>.\<close>

fun go_index :: "'a list \<Rightarrow> 'a list \<Rightarrow> nat option" where
  "go_index [] sub = (if sub = [] then Some 0 else None)"
| "go_index (c # cs) sub =
     (if has_prefix (c # cs) sub then Some 0 else map_option Suc (go_index cs sub))"

definition go_contains :: "'a list \<Rightarrow> 'a list \<Rightarrow> bool" where
  "go_contains s sub \<longleftrightarrow> go_index s sub \<noteq> None"

text \<open>\<open>strings.LastIndex\<close>.\<close>

fun go_last_index :: "'a list \<Rightarrow> 'a list \<Rightarrow> nat option" where
  "go_last_index [] sub = (if sub = [] then Some 0 else None)"
| "go_last_index (c # cs) sub =
     (case go_last_index cs sub of
        Some i \<Rightarrow> Some (Suc i)
      | None \<Rightarrow> if has_prefix (c # cs) sub then Some 0 else None)"

text \<open>\<open>strings.Cut\<close>: before, after, found.\<close>

definition go_cut :: "'a list \<Rightarrow> 'a list \<Rightarrow> 'a list \<times> 'a list \<times> bool" where
  "go_cut s sep = (case go_index s sep of
     None \<Rightarrow> (s, [], False)
   | Some i \<Rightarrow> (take i s, drop (i + length sep) s, True))"

lemma go_index_Some_prefix:
  "go_index s sub = Some i \<Longrightarrow> i \<le> length s \<and> has_prefix (drop i s) sub"
proof (induction s arbitrary: i)
  case Nil
  then show ?case by (auto split: if_splits)
next
  case (Cons c cs)
  then show ?case by (fastforce split: if_splits)
qed

lemma go_index_Some_split:
  assumes "go_index s sub = Some i"
  shows "s = take i s @ sub @ drop (i + length sub) s"
proof -
  from go_index_Some_prefix [OF assms] obtain r where r: "drop i s = sub @ r"
    by (auto simp: has_prefix_iff)
  then have "r = drop (length sub) (drop i s)" by simp
  with r show ?thesis by (metis append_take_drop_id drop_drop add.commute)
qed

lemma go_index_bound [go_len]:
  assumes "go_index s sub = Some i"
  shows "i + length sub \<le> length s"
proof -
  have "length s = length (take i s @ sub @ drop (i + length sub) s)"
    using go_index_Some_split [OF assms] by simp
  moreover have "length (take i s) = i"
    using go_index_Some_prefix [OF assms] by simp
  ultimately show ?thesis by simp
qed

lemma go_index_least: "go_index s sub = Some i \<Longrightarrow> j < i \<Longrightarrow> \<not> has_prefix (drop j s) sub"
proof (induction s arbitrary: i j)
  case Nil
  then show ?case by (auto split: if_splits)
next
  case (Cons c cs)
  then show ?case by (cases j) (auto split: if_splits)
qed

lemma go_index_None: "go_index s sub = None \<longleftrightarrow> (\<forall>j. \<not> has_prefix (drop j s) sub)"
proof (induction s)
  case Nil
  then show ?case by (auto simp: has_prefix_def)
next
  case (Cons c cs)
  show ?case
  proof
    assume n: "go_index (c # cs) sub = None"
    with Cons.IH have "\<not> has_prefix (c # cs) sub" "\<forall>j. \<not> has_prefix (drop j cs) sub"
      by (auto split: if_splits)
    then show "\<forall>j. \<not> has_prefix (drop j (c # cs)) sub"
      by (metis drop0 drop_Suc_Cons not0_implies_Suc)
  next
    assume a: "\<forall>j. \<not> has_prefix (drop j (c # cs)) sub"
    then have "\<not> has_prefix (c # cs) sub" by (metis drop0)
    moreover from a have "\<forall>j. \<not> has_prefix (drop j cs) sub" by (metis drop_Suc_Cons)
    ultimately show "go_index (c # cs) sub = None" using Cons.IH by simp
  qed
qed

lemma go_contains_iff: "go_contains s sub \<longleftrightarrow> (\<exists>xs ys. s = xs @ sub @ ys)"
proof
  assume "go_contains s sub"
  then show "\<exists>xs ys. s = xs @ sub @ ys"
    unfolding go_contains_def using go_index_Some_split by blast
next
  assume "\<exists>xs ys. s = xs @ sub @ ys"
  then obtain xs ys where s: "s = xs @ sub @ ys" by blast
  then have "has_prefix (drop (length xs) s) sub" by simp
  then show "go_contains s sub" unfolding go_contains_def go_index_None by blast
qed

lemma go_contains_iff_sublist: "go_contains s sub \<longleftrightarrow> sublist sub s"
  by (auto simp: go_contains_iff sublist_def)

lemma go_cut_found:
  "go_cut s sep = (b, a, True) \<Longrightarrow> s = b @ sep @ a"
  by (auto simp: go_cut_def dest: go_index_Some_split split: option.splits)

lemma go_cut_not_found: "go_cut s sep = (b, a, False) \<Longrightarrow> b = s \<and> a = [] \<and> \<not> go_contains s sep"
  by (auto simp: go_cut_def go_contains_def split: option.splits)

lemma go_cut_length [go_len]:
  "go_cut s sep = (b, a, True) \<Longrightarrow> length s = length b + length sep + length a"
  by (auto dest!: go_cut_found)

text \<open>The text before a first occurrence holds no occurrence of its own.\<close>

lemma go_contains_take_index:
  assumes "go_index s sub = Some i" "sub \<noteq> []"
  shows "\<not> go_contains (take i s) sub"
proof
  assume "go_contains (take i s) sub"
  then obtain xs ys where x: "take i s = xs @ sub @ ys" by (auto simp: go_contains_iff)
  then have "length (xs @ sub @ ys) \<le> i" by (metis length_take min.cobounded2)
  with assms(2) have "length xs < i" by (cases sub) auto
  moreover have "has_prefix (drop (length xs) s) sub"
  proof -
    have "s = xs @ sub @ ys @ drop i s" using x by (metis append.assoc append_take_drop_id)
    then show ?thesis by (metis append_eq_conv_conj has_prefix_append)
  qed
  ultimately show False using go_index_least [OF assms(1)] by blast
qed

lemma diff_less_of_drop: "sub \<noteq> [] \<Longrightarrow> i + length sub \<le> n \<Longrightarrow> n - (i + length sub) < n"
  by (cases sub) auto

subsection \<open>Replacing\<close>

text \<open>\<open>strings.ReplaceAll\<close> for a non-empty \<open>old\<close>, the only way the program calls it.\<close>

function go_replace_all :: "string \<Rightarrow> string \<Rightarrow> string \<Rightarrow> string" where
  "go_replace_all s old new =
     (if old = [] then s
      else case go_index s old of
        None \<Rightarrow> s
      | Some i \<Rightarrow> take i s @ new @ go_replace_all (drop (i + length old) s) old new)"
  by pat_completeness auto
termination
  by (relation "measure (\<lambda>(s, old, new). length s)")
    (auto dest!: go_index_bound simp: diff_less_of_drop)

declare go_replace_all.simps [simp del]

lemma go_replace_all_absent: "\<not> go_contains s old \<Longrightarrow> go_replace_all s old new = s"
  by (subst go_replace_all.simps) (auto simp: go_contains_def)

subsection \<open>White space\<close>

text \<open>
  \<open>space_width s\<close> is the number of bytes of the white-space code point \<open>s\<close> begins
  with, 0 when it begins with none. The table is \<open>unicode.IsSpace\<close> in UTF-8.
\<close>

definition ascii_spaces :: "char list" where
  "ascii_spaces = [CHR 0x09, CHR 0x0A, CHR 0x0B, CHR 0x0C, CHR 0x0D, CHR 0x20]"

definition wide_spaces :: "string list" where
  "wide_spaces =
     [[CHR 0xC2, CHR 0x85], [CHR 0xC2, CHR 0xA0], [CHR 0xE1, CHR 0x9A, CHR 0x80],
      [CHR 0xE2, CHR 0x80, CHR 0x80], [CHR 0xE2, CHR 0x80, CHR 0x81], [CHR 0xE2, CHR 0x80, CHR 0x82],
      [CHR 0xE2, CHR 0x80, CHR 0x83], [CHR 0xE2, CHR 0x80, CHR 0x84], [CHR 0xE2, CHR 0x80, CHR 0x85],
      [CHR 0xE2, CHR 0x80, CHR 0x86], [CHR 0xE2, CHR 0x80, CHR 0x87], [CHR 0xE2, CHR 0x80, CHR 0x88],
      [CHR 0xE2, CHR 0x80, CHR 0x89], [CHR 0xE2, CHR 0x80, CHR 0x8A], [CHR 0xE2, CHR 0x80, CHR 0xA8],
      [CHR 0xE2, CHR 0x80, CHR 0xA9], [CHR 0xE2, CHR 0x80, CHR 0xAF], [CHR 0xE2, CHR 0x81, CHR 0x9F],
      [CHR 0xE3, CHR 0x80, CHR 0x80]]"

definition space_seqs :: "string list" where
  "space_seqs = map (\<lambda>c. [c]) ascii_spaces @ wide_spaces"

definition space_width :: "string \<Rightarrow> nat" where
  "space_width s = (case find (has_prefix s) space_seqs of None \<Rightarrow> 0 | Some w \<Rightarrow> length w)"

text \<open>The width of the white-space code point \<open>s\<close> ends with.\<close>

definition space_width_end :: "string \<Rightarrow> nat" where
  "space_width_end s = (case find (has_suffix s) space_seqs of None \<Rightarrow> 0 | Some w \<Rightarrow> length w)"

lemma space_seqs_nonempty: "w \<in> set space_seqs \<Longrightarrow> w \<noteq> []"
  by (auto simp: space_seqs_def wide_spaces_def)

lemma space_width_le: "space_width s \<le> length s"
  by (auto simp: space_width_def find_Some_iff has_prefix_iff split: option.splits)

lemma space_width_end_le: "space_width_end s \<le> length s"
  by (auto simp: space_width_end_def find_Some_iff has_suffix_iff split: option.splits)

function trim_left :: "string \<Rightarrow> string" where
  "trim_left s = (if space_width s = 0 then s else trim_left (drop (space_width s) s))"
  by pat_completeness auto
termination
  apply (relation "measure length")
  subgoal by simp
  subgoal for s using space_width_le [of s] by simp
  done

function trim_right :: "string \<Rightarrow> string" where
  "trim_right s =
     (if space_width_end s = 0 then s else trim_right (take (length s - space_width_end s) s))"
  by pat_completeness auto
termination
  apply (relation "measure length")
  subgoal by simp
  subgoal for s using space_width_end_le [of s] by (simp add: min_def)
  done

declare trim_left.simps [simp del] trim_right.simps [simp del]

text \<open>\<open>strings.TrimSpace\<close>.\<close>

definition go_trim_space :: "string \<Rightarrow> string" where
  "go_trim_space s = trim_right (trim_left s)"

lemma space_width_Nil [simp]: "space_width [] = 0"
  using space_width_le [of "[]"] by simp

lemma space_width_trim_left [simp]: "space_width (trim_left s) = 0"
  by (induction s rule: trim_left.induct) (subst trim_left.simps, simp)

lemma space_width_end_trim_right [simp]: "space_width_end (trim_right s) = 0"
  by (induction s rule: trim_right.induct) (subst trim_right.simps, simp)

lemma trim_right_prefix: "\<exists>r. s = trim_right s @ r"
proof (induction s rule: trim_right.induct)
  case (1 s)
  show ?case
  proof (cases "space_width_end s = 0")
    case True
    then show ?thesis by (simp add: trim_right.simps)
  next
    case False
    let ?t = "take (length s - space_width_end s) s"
    from False 1 obtain r where "?t = trim_right ?t @ r" by blast
    moreover have "trim_right s = trim_right ?t" using False by (simp add: trim_right.simps [of s])
    moreover have "s = ?t @ drop (length s - space_width_end s) s" by simp
    ultimately have "s = trim_right s @ r @ drop (length s - space_width_end s) s"
      by (metis append.assoc)
    then show ?thesis by blast
  qed
qed

lemma space_width_0_iff: "space_width s = 0 \<longleftrightarrow> (\<forall>w\<in>set space_seqs. \<not> has_prefix s w)"
proof (cases "find (has_prefix s) space_seqs")
  case None
  then have "\<forall>w\<in>set space_seqs. \<not> has_prefix s w" by (simp add: find_None_iff Ball_def)
  with None show ?thesis by (simp add: space_width_def)
next
  case (Some w)
  then have "w \<in> set space_seqs \<and> has_prefix s w" by (auto simp: find_Some_iff)
  moreover from this have "w \<noteq> []" using space_seqs_nonempty by blast
  ultimately show ?thesis using Some by (auto simp: space_width_def)
qed

lemma space_width_append_0: "space_width (s @ t) = 0 \<Longrightarrow> space_width s = 0"
  by (auto simp: space_width_0_iff has_prefix_iff)

lemma space_width_go_trim_space [simp]: "space_width (go_trim_space s) = 0"
proof -
  obtain r where "trim_left s = go_trim_space s @ r"
    unfolding go_trim_space_def using trim_right_prefix by blast
  then show ?thesis by (metis space_width_append_0 space_width_trim_left)
qed

lemma space_width_end_go_trim_space [simp]: "space_width_end (go_trim_space s) = 0"
  by (simp add: go_trim_space_def)

lemma go_trim_space_fix: "space_width s = 0 \<Longrightarrow> space_width_end s = 0 \<Longrightarrow> go_trim_space s = s"
  by (simp add: go_trim_space_def trim_left.simps trim_right.simps)

lemma go_trim_space_idem [simp]: "go_trim_space (go_trim_space s) = go_trim_space s"
  by (simp add: go_trim_space_fix)

lemma trim_left_suffix: "\<exists>l. s = l @ trim_left s"
proof (induction s rule: trim_left.induct)
  case (1 s)
  show ?case
  proof (cases "space_width s = 0")
    case True
    then show ?thesis by (simp add: trim_left.simps)
  next
    case False
    with 1 obtain l where "drop (space_width s) s = l @ trim_left (drop (space_width s) s)" by blast
    moreover have "trim_left s = trim_left (drop (space_width s) s)"
      using False by (simp add: trim_left.simps [of s])
    ultimately have "s = (take (space_width s) s @ l) @ trim_left s"
      by (metis append.assoc append_take_drop_id)
    then show ?thesis by blast
  qed
qed

lemma go_trim_space_sublist: "\<exists>l r. s = l @ go_trim_space s @ r"
  unfolding go_trim_space_def by (metis trim_left_suffix trim_right_prefix)

lemma length_go_trim_space [go_len]: "length (go_trim_space s) \<le> length s"
proof -
  obtain l where l: "s = l @ trim_left s" using trim_left_suffix by blast
  obtain r where r: "trim_left s = trim_right (trim_left s) @ r" using trim_right_prefix by blast
  have "length (trim_right (trim_left s)) \<le> length (trim_left s)" by (subst (2) r) simp
  also have "\<dots> \<le> length s" by (subst (2) l) simp
  finally show ?thesis by (simp add: go_trim_space_def)
qed

text \<open>\<open>strings.Fields\<close>: the maximal runs of non-space bytes.\<close>

function fields_from :: "string \<Rightarrow> string \<Rightarrow> string list" where
  "fields_from cur s =
     (if s = [] then (if cur = [] then [] else [cur])
      else if space_width s > 0
        then (if cur = [] then [] else [cur]) @ fields_from [] (drop (space_width s) s)
      else fields_from (cur @ [hd s]) (tl s))"
  by pat_completeness auto
termination
  by (relation "measure (\<lambda>(cur, s). length s)") (auto simp: neq_Nil_conv)

declare fields_from.simps [simp del]

definition go_fields :: "string \<Rightarrow> string list" where
  "go_fields s = fields_from [] s"

lemma fields_from_nonempty: "f \<in> set (fields_from cur s) \<Longrightarrow> f \<noteq> []"
proof (induction cur s rule: fields_from.induct)
  case (1 cur s)
  from "1.prems" show ?case
    by (subst (asm) fields_from.simps) (auto split: if_splits dest: "1.IH")
qed

subsection \<open>Splitting and joining\<close>

text \<open>\<open>strings.Split\<close> on a non-empty separator, and \<open>strings.Join\<close>.\<close>

function go_split :: "string \<Rightarrow> string \<Rightarrow> string list" where
  "go_split s sep =
     (if sep = [] then [s]
      else case go_index s sep of
        None \<Rightarrow> [s]
      | Some i \<Rightarrow> take i s # go_split (drop (i + length sep) s) sep)"
  by pat_completeness auto
termination
  by (relation "measure (\<lambda>(s, sep). length s)")
    (auto dest!: go_index_bound simp: diff_less_of_drop)

declare go_split.simps [simp del]

fun go_join :: "string list \<Rightarrow> string \<Rightarrow> string" where
  "go_join [] sep = []"
| "go_join [x] sep = x"
| "go_join (x # y # xs) sep = x @ sep @ go_join (y # xs) sep"

lemma go_split_nonempty [simp]: "go_split s sep \<noteq> []"
  by (subst go_split.simps) (simp split: option.split)

lemma go_join_Cons: "ys \<noteq> [] \<Longrightarrow> go_join (x # ys) sep = x @ sep @ go_join ys sep"
  by (cases ys) auto

lemma go_join_split: "go_join (go_split s sep) sep = s"
proof (induction s sep rule: go_split.induct)
  case (1 s sep)
  show ?case
  proof (cases "sep = [] \<or> go_index s sep = None")
    case True
    then show ?thesis by (subst go_split.simps) auto
  next
    case False
    then obtain i where i: "sep \<noteq> []" "go_index s sep = Some i" by auto
    with 1 have "go_join (go_split (drop (i + length sep) s) sep) sep = drop (i + length sep) s"
      by blast
    with i show ?thesis
      by (subst go_split.simps) (simp add: go_join_Cons flip: go_index_Some_split)
  qed
qed

subsection \<open>Lists, options and maps\<close>

text \<open>Reading a Go map yields the zero value where the key is absent.\<close>

definition map_get :: "('k \<Rightarrow> 'v option) \<Rightarrow> 'k \<Rightarrow> 'v \<Rightarrow> 'v" where
  "map_get m k z = (case m k of None \<Rightarrow> z | Some v \<Rightarrow> v)"

lemma map_get_upd [simp]:
  "map_get (m(k \<mapsto> v)) k' z = (if k' = k then v else map_get m k' z)"
  by (simp add: map_get_def)

lemma map_get_empty [simp]: "map_get Map.empty k z = z"
  by (simp add: map_get_def)

text \<open>Incrementing a counter held in a Go map (\<open>m[k]++\<close>).\<close>

definition map_incr :: "('k \<Rightarrow> int option) \<Rightarrow> 'k \<Rightarrow> ('k \<Rightarrow> int option)" where
  "map_incr m k = m(k \<mapsto> map_get m k 0 + 1)"

lemma map_get_incr [simp]:
  "map_get (map_incr m k) k' 0 = map_get m k' 0 + (if k' = k then 1 else 0)"
  by (simp add: map_incr_def)

text \<open>The last element of a list that satisfies a predicate (a backward loop).\<close>

definition find_last :: "('a \<Rightarrow> bool) \<Rightarrow> 'a list \<Rightarrow> 'a option" where
  "find_last P xs = find P (rev xs)"

lemma find_last_Some: "find_last P xs = Some x \<Longrightarrow> P x \<and> x \<in> set xs"
  by (auto simp: find_last_def find_Some_iff) (metis length_rev nth_mem set_rev)

lemma find_last_None: "find_last P xs = None \<longleftrightarrow> (\<forall>x\<in>set xs. \<not> P x)"
  by (simp add: find_last_def find_None_iff Ball_def)

lemma find_last_snoc [simp]:
  "find_last P (xs @ [x]) = (if P x then Some x else find_last P xs)"
  by (simp add: find_last_def)

text \<open>Updates of one element of a list that stands for a heap of objects.\<close>

definition upd_at :: "'a list \<Rightarrow> nat \<Rightarrow> ('a \<Rightarrow> 'a) \<Rightarrow> 'a list" where
  "upd_at xs i f = (if i < length xs then xs[i := f (xs ! i)] else xs)"

lemma length_upd_at [simp]: "length (upd_at xs i f) = length xs"
  by (simp add: upd_at_def)

lemma nth_upd_at [simp]:
  "j < length xs \<Longrightarrow> upd_at xs i f ! j = (if j = i then f (xs ! j) else xs ! j)"
  by (auto simp: upd_at_def)

lemma upd_at_append [simp]: "i < length xs \<Longrightarrow> upd_at (xs @ ys) i f = upd_at xs i f @ ys"
  by (simp add: upd_at_def list_update_append nth_append)

lemma map_upd_at: "(\<And>x. g (f x) = g x) \<Longrightarrow> map g (upd_at xs i f) = map g xs"
  by (rule nth_equalityI) auto

end
