(* ===== verification/SseReader.thy ===== *)
theory SseReader
  imports Prelude
begin

text \<open>
  Package \<open>pkg/sse\<close>: the tee reader that parses server-sent events from a byte stream
  while it copies the lines it scans to a second writer.

  \<open>bufio.Scanner\<close> with \<open>ScanLines\<close> is modelled by \<open>scan\<close>: the next line of the
  remaining bytes without its line feed and without one carriage return before it, the
  error \<open>ErrTooLong\<close> for a line that does not fit the buffer, and at the end of the bytes
  the source's own read error, if it has one. The destination is a writer
  \<open>w :: 'w \<Rightarrow> string \<Rightarrow> 'w \<times> string option\<close>, which may fail. A reader is not used again
  after it has returned an error.
\<close>

record sse_event =
  ev_type :: string
  ev_data :: string
  ev_id :: string

definition empty_event :: sse_event where
  "empty_event = \<lparr>ev_type = [], ev_data = [], ev_id = []\<rparr>"

record 'w tee_reader =
  tr_rest :: string
  tr_src_err :: "string option"
  tr_dest :: 'w
  tr_current :: sse_event
  tr_has_data :: bool

datatype next_result = NextEvent sse_event | NextEnd | NextErr string

subsection \<open>The line scanner\<close>

definition drop_cr :: "string \<Rightarrow> string" where
  "drop_cr l = trim_suffix l [CR]"

datatype scan_result = ScanLine string string | ScanEnd | ScanTooLong

definition scan :: "nat \<Rightarrow> string \<Rightarrow> scan_result" where
  "scan mx s =
     (case go_index s [LF] of
        Some i \<Rightarrow> if mx \<le> i then ScanTooLong else ScanLine (drop_cr (take i s)) (drop (Suc i) s)
      | None \<Rightarrow> if s = [] then ScanEnd
                else if mx \<le> length s then ScanTooLong else ScanLine (drop_cr s) [])"

lemma scan_decreases [go_len]: "scan mx s = ScanLine l s' \<Longrightarrow> length s' < length s"
  by (auto simp: scan_def split: option.splits if_splits dest!: go_index_bound)

subsection \<open>The reader\<close>

definition new_tee_reader :: "string \<Rightarrow> string option \<Rightarrow> 'w \<Rightarrow> 'w tee_reader" where
  "new_tee_reader src err dest =
     \<lparr>tr_rest = src, tr_src_err = err, tr_dest = dest, tr_current = empty_event, tr_has_data = False\<rparr>"

definition reset :: "'w tee_reader \<Rightarrow> 'w tee_reader" where
  "reset r = r\<lparr>tr_current := empty_event, tr_has_data := False\<rparr>"

text \<open>
  \<open>parse_line\<close> on the pair of the event being built and \<open>hasData\<close>.
\<close>

definition parse_line :: "string \<Rightarrow> sse_event \<times> bool \<Rightarrow> sse_event \<times> bool" where
  "parse_line line st =
     (let (cur, has) = st;
          (before, after, ok) = go_cut line '':'';
          field = (if ok then before else line);
          val = (if ok then trim_prefix after '' '' else [])
      in if field = ''data''
           then (cur\<lparr>ev_data := (if has \<and> ev_data cur \<noteq> [] then ev_data cur @ [LF] else ev_data cur) @ val\<rparr>, True)
         else if field = ''event'' then (cur\<lparr>ev_type := val\<rparr>, True)
         else if field = ''id'' then (cur\<lparr>ev_id := val\<rparr>, True)
         else (cur, has))"

definition reader_parse_line :: "string \<Rightarrow> 'w tee_reader \<Rightarrow> 'w tee_reader" where
  "reader_parse_line line r =
     (let (cur, has) = parse_line line (tr_current r, tr_has_data r)
      in r\<lparr>tr_current := cur, tr_has_data := has\<rparr>)"

lemma tr_rest_simps [simp]:
  "tr_rest (reset r) = tr_rest r"
  "tr_rest (reader_parse_line l r) = tr_rest r"
  "tr_dest (reader_parse_line l r) = tr_dest r"
  "tr_src_err (reader_parse_line l r) = tr_src_err r"
  "tr_current (reset r) = empty_event" "tr_has_data (reset r) = False"
  "tr_dest (reset r) = tr_dest r" "tr_src_err (reset r) = tr_src_err r"
  by (auto simp: reset_def reader_parse_line_def split: prod.splits)

function tee_next ::
  "('w \<Rightarrow> string \<Rightarrow> 'w \<times> string option) \<Rightarrow> nat \<Rightarrow> 'w tee_reader \<Rightarrow> 'w tee_reader \<times> next_result"
where
  "tee_next w mx r =
     (case scan mx (tr_rest r) of
        ScanTooLong \<Rightarrow> (r, NextErr ''bufio.Scanner: token too long'')
      | ScanEnd \<Rightarrow>
          (case tr_src_err r of
             Some e \<Rightarrow> (r, NextErr e)
           | None \<Rightarrow> if tr_has_data r then (reset r, NextEvent (tr_current r)) else (r, NextEnd))
      | ScanLine raw rest \<Rightarrow>
          (case w (tr_dest r) (raw @ [LF]) of
             (d, Some e) \<Rightarrow> (r\<lparr>tr_rest := rest, tr_dest := d\<rparr>, NextErr e)
           | (d, None) \<Rightarrow>
               let r1 = r\<lparr>tr_rest := rest, tr_dest := d\<rparr>
               in if raw = []
                    then if tr_has_data r1 then (reset r1, NextEvent (tr_current r1))
                         else tee_next w mx r1
                  else if has_prefix raw '':'' then tee_next w mx r1
                  else tee_next w mx (reader_parse_line raw r1)))"
  by pat_completeness auto
termination
  by (relation "measure (\<lambda>(w, mx, r). length (tr_rest r))") (auto dest!: scan_decreases)

declare tee_next.simps [simp del]

text \<open>
  What still has to be read: every event returned makes it smaller, so a loop over
  \<open>Next\<close> ends.
\<close>

definition reader_measure :: "'w tee_reader \<Rightarrow> nat" where
  "reader_measure r = length (tr_rest r) + (if tr_has_data r then 1 else 0)"

lemma tee_next_event_decreases:
  "tee_next w mx r = (r', NextEvent e) \<Longrightarrow> reader_measure r' < reader_measure r"
proof (induction w mx r rule: tee_next.induct)
  case (1 w mx r)
  show ?case
  proof (cases "scan mx (tr_rest r)")
    case (ScanLine raw rest)
    note dec = scan_decreases [OF ScanLine]
    obtain d e' where w: "w (tr_dest r) (raw @ [LF]) = (d, e')" by force
    show ?thesis
    proof (cases e')
      case (Some x)
      with "1.prems" ScanLine w show ?thesis by (subst (asm) tee_next.simps) simp
    next
      case None
      let ?r1 = "r\<lparr>tr_rest := rest, tr_dest := d\<rparr>"
      consider "raw = []" "tr_has_data r" | "raw = []" "\<not> tr_has_data r"
        | "raw \<noteq> []" "has_prefix raw '':''" | "raw \<noteq> []" "\<not> has_prefix raw '':''" by blast
      then show ?thesis
      proof cases
        case 1
        with "1.prems" ScanLine w None dec show ?thesis
          by (subst (asm) tee_next.simps) (auto simp: reader_measure_def)
      next
        case 2
        with "1.prems" ScanLine w None have "tee_next w mx ?r1 = (r', NextEvent e)"
          by (subst (asm) tee_next.simps) simp
        with "1.IH"(1) [OF ScanLine w [symmetric] None] 2 dec show ?thesis
          by (fastforce simp: reader_measure_def)
      next
        case 3
        with "1.prems" ScanLine w None have "tee_next w mx ?r1 = (r', NextEvent e)"
          by (subst (asm) tee_next.simps) simp
        with "1.IH"(2) [OF ScanLine w [symmetric] None] 3 dec show ?thesis
          by (fastforce simp: reader_measure_def)
      next
        case 4
        with "1.prems" ScanLine w None
        have "tee_next w mx (reader_parse_line raw ?r1) = (r', NextEvent e)"
          by (subst (asm) tee_next.simps) simp
        with "1.IH"(3) [OF ScanLine w [symmetric] None] 4
        have "reader_measure r' < reader_measure (reader_parse_line raw ?r1)" by simp
        with dec show ?thesis by (auto simp: reader_measure_def split: if_splits)
      qed
    qed
  qed (use "1.prems" in \<open>subst (asm) tee_next.simps,
        auto simp: reader_measure_def split: option.splits if_splits\<close>)+
qed

text \<open>The loop of a caller that reads events until the end or an error.\<close>

function tee_run ::
  "('w \<Rightarrow> string \<Rightarrow> 'w \<times> string option) \<Rightarrow> nat \<Rightarrow> 'w tee_reader
     \<Rightarrow> sse_event list \<times> 'w tee_reader \<times> string option"
where
  "tee_run w mx r =
     (case tee_next w mx r of
        (r', NextEvent e) \<Rightarrow> (let (es, r'', err) = tee_run w mx r' in (e # es, r'', err))
      | (r', NextEnd) \<Rightarrow> ([], r', None)
      | (r', NextErr e) \<Rightarrow> ([], r', Some e))"
  by pat_completeness auto
termination
  by (relation "measure (\<lambda>(w, mx, r). reader_measure r)")
    (auto dest!: sym [of "tee_next _ _ _"] tee_next_event_decreases sym [of "(_, _)"])

declare tee_run.simps [simp del]

subsection \<open>The reader as a function of its lines\<close>

text \<open>
  The abstract view: the scanner cuts the bytes into lines, and the events are a fold of
  the lines. \<open>tee_run\<close> computes exactly this, whatever the writer does with its copy as
  long as it does not fail.
\<close>

function scan_all :: "nat \<Rightarrow> string \<Rightarrow> string list \<times> bool" where
  "scan_all mx s = (case scan mx s of
      ScanLine l s' \<Rightarrow> (let (ls, long) = scan_all mx s' in (l # ls, long))
    | ScanEnd \<Rightarrow> ([], False)
    | ScanTooLong \<Rightarrow> ([], True))"
  by pat_completeness auto
termination
  by (relation "measure (\<lambda>(mx, s). length s)") (auto dest!: scan_decreases)

declare scan_all.simps [simp del]

fun sse_fold :: "string list \<Rightarrow> sse_event \<times> bool \<Rightarrow> sse_event list" where
  "sse_fold [] (cur, has) = (if has then [cur] else [])"
| "sse_fold (l # ls) (cur, has) =
     (if l = [] then (if has then cur # sse_fold ls (empty_event, False) else sse_fold ls (cur, has))
      else if has_prefix l '':'' then sse_fold ls (cur, has)
      else sse_fold ls (parse_line l (cur, has)))"

definition copy_all :: "('w \<Rightarrow> string \<Rightarrow> 'w \<times> string option) \<Rightarrow> string list \<Rightarrow> 'w \<Rightarrow> 'w" where
  "copy_all w ls d = fold (\<lambda>l d. fst (w d (l @ [LF]))) ls d"

definition never_fails :: "('w \<Rightarrow> string \<Rightarrow> 'w \<times> string option) \<Rightarrow> bool" where
  "never_fails w \<longleftrightarrow> (\<forall>d s. snd (w d s) = None)"

text \<open>Writers the program hands the reader: \<open>io.Discard\<close>, and a sink that keeps the bytes.\<close>

definition discard_write :: "unit \<Rightarrow> string \<Rightarrow> unit \<times> string option" where
  "discard_write d s = ((), None)"

definition buffer_write :: "string \<Rightarrow> string \<Rightarrow> string \<times> string option" where
  "buffer_write d s = (d @ s, None)"

lemma never_fails_discard [simp]: "never_fails discard_write"
  by (simp add: never_fails_def discard_write_def)

lemma never_fails_buffer [simp]: "never_fails buffer_write"
  by (simp add: never_fails_def buffer_write_def)

lemma copy_all_buffer: "copy_all buffer_write ls d = d @ concat (map (\<lambda>l. l @ [LF]) ls)"
  by (induction ls arbitrary: d) (auto simp: copy_all_def buffer_write_def)

lemma tee_run_next_skip:
  assumes "tee_next w mx r = tee_next w mx r'"
  shows "tee_run w mx r = tee_run w mx r'"
  by (subst (1 2) tee_run.simps) (simp only: assms)

lemma scan_all_NilD: "scan_all mx s = ([], False) \<Longrightarrow> scan mx s = ScanEnd"
  by (cases "scan mx s") (simp_all add: scan_all.simps [of mx s] split: prod.splits)

lemma scan_all_ConsD:
  "scan_all mx s = (l # ls, b) \<Longrightarrow> \<exists>s'. scan mx s = ScanLine l s' \<and> scan_all mx s' = (ls, b)"
  by (cases "scan mx s") (auto simp: scan_all.simps [of mx s] split: prod.splits)

lemma tee_run_lines:
  assumes "never_fails w" "tr_src_err r = None" "scan_all mx (tr_rest r) = (ls, False)"
  shows "\<exists>r'. tee_run w mx r = (sse_fold ls (tr_current r, tr_has_data r), r', None)
              \<and> tr_dest r' = copy_all w ls (tr_dest r)"
  using assms
proof (induction ls arbitrary: r)
  case Nil
  then have sc: "scan mx (tr_rest r) = ScanEnd" by (simp add: scan_all_NilD)
  have fin: "tee_run w mx r' = ([], r', None)"
    if "scan mx (tr_rest r') = ScanEnd" "tr_src_err r' = None" "\<not> tr_has_data r'"
    for r' :: "'a tee_reader"
  proof -
    have "tee_next w mx r' = (r', NextEnd)" using that by (simp add: tee_next.simps [of w mx r'])
    then show ?thesis by (subst tee_run.simps) simp
  qed
  show ?case
  proof (cases "tr_has_data r")
    case True
    with sc Nil.prems(2) have "tee_next w mx r = (reset r, NextEvent (tr_current r))"
      by (simp add: tee_next.simps [of w mx r])
    moreover have "tee_run w mx (reset r) = ([], reset r, None)"
      using fin [of "reset r"] sc Nil.prems(2) by simp
    ultimately have "tee_run w mx r = ([tr_current r], reset r, None)"
      by (subst tee_run.simps) simp
    with True show ?thesis by (simp add: copy_all_def)
  next
    case False
    with fin [OF sc Nil.prems(2)] show ?thesis by (simp add: copy_all_def)
  qed
next
  case (Cons l ls)
  then obtain rest where sc: "scan mx (tr_rest r) = ScanLine l rest"
      and rest: "scan_all mx rest = (ls, False)"
    using scan_all_ConsD by blast
  obtain d where w: "w (tr_dest r) (l @ [LF]) = (d, None)"
    using Cons.prems(1) unfolding never_fails_def by (metis prod.collapse)
  have copy: "copy_all w (l # ls) (tr_dest r) = copy_all w ls d"
    using w by (simp add: copy_all_def)
  let ?r1 = "r\<lparr>tr_rest := rest, tr_dest := d\<rparr>"
  have err: "tr_src_err ?r1 = None" using Cons.prems(2) by simp
  consider (ev) "l = []" "tr_has_data r" | (blank) "l = []" "\<not> tr_has_data r"
    | (comment) "l \<noteq> []" "has_prefix l '':''" | (field) "l \<noteq> []" "\<not> has_prefix l '':''" by blast
  then show ?case
  proof cases
    case ev
    with sc w have "tee_next w mx r = (reset ?r1, NextEvent (tr_current r))"
      by (simp add: tee_next.simps [of w mx r])
    then have step: "tee_run w mx r
        = (let (es, r'', err) = tee_run w mx (reset ?r1) in (tr_current r # es, r'', err))"
      by (subst tee_run.simps) simp
    have "\<exists>r'. tee_run w mx (reset ?r1) = (sse_fold ls (empty_event, False), r', None)
        \<and> tr_dest r' = copy_all w ls d"
      using Cons.IH [of "reset ?r1"] Cons.prems(1) err rest by simp
    then show ?thesis using step ev copy by auto
  next
    case blank
    with sc w have "tee_next w mx r = tee_next w mx ?r1" by (simp add: tee_next.simps [of w mx r])
    then have "tee_run w mx r = tee_run w mx ?r1" by (rule tee_run_next_skip)
    then show ?thesis using Cons.IH [of ?r1] Cons.prems(1) err rest blank copy by simp
  next
    case comment
    with sc w have "tee_next w mx r = tee_next w mx ?r1" by (simp add: tee_next.simps [of w mx r])
    then have "tee_run w mx r = tee_run w mx ?r1" by (rule tee_run_next_skip)
    then show ?thesis using Cons.IH [of ?r1] Cons.prems(1) err rest comment copy by simp
  next
    case field
    let ?r2 = "reader_parse_line l ?r1"
    from field sc w have "tee_next w mx r = tee_next w mx ?r2"
      by (simp add: tee_next.simps [of w mx r])
    then have "tee_run w mx r = tee_run w mx ?r2" by (rule tee_run_next_skip)
    moreover have "(tr_current ?r2, tr_has_data ?r2) = parse_line l (tr_current r, tr_has_data r)"
      by (auto simp: reader_parse_line_def split: prod.splits)
    ultimately show ?thesis using Cons.IH [of ?r2] Cons.prems(1) err rest field copy by simp
  qed
qed

lemma scan_line: "LF \<notin> set l \<Longrightarrow> length l < mx \<Longrightarrow> scan mx (l @ LF # s) = ScanLine (drop_cr l) s"
proof -
  assume a: "LF \<notin> set l" "length l < mx"
  have "go_index (l @ LF # s) [LF] = Some (length l)"
    using a(1) by (induction l) (auto simp: has_prefix_def)
  with a(2) show ?thesis by (simp add: scan_def)
qed

text \<open>Lines without carriage returns come back from the text they make.\<close>

definition plain_line :: "nat \<Rightarrow> string \<Rightarrow> bool" where
  "plain_line mx l \<longleftrightarrow> LF \<notin> set l \<and> CR \<notin> set l \<and> length l < mx"

lemma drop_cr_plain: "CR \<notin> set l \<Longrightarrow> drop_cr l = l"
  by (auto simp: drop_cr_def trim_suffix_def has_suffix_iff)

lemma scan_all_lines:
  "\<forall>l\<in>set ls. plain_line mx l \<Longrightarrow> scan_all mx (concat (map (\<lambda>l. l @ [LF]) ls)) = (ls, False)"
proof (induction ls)
  case Nil
  then show ?case by (simp add: scan_all.simps scan_def)
next
  case (Cons l ls)
  then have "scan mx (l @ LF # concat (map (\<lambda>l. l @ [LF]) ls))
      = ScanLine l (concat (map (\<lambda>l. l @ [LF]) ls))"
    by (simp add: plain_line_def scan_line drop_cr_plain)
  with Cons show ?case by (subst scan_all.simps) simp
qed

subsection \<open>Writing events\<close>

text \<open>The wire form a server gives an event, one \<open>data:\<close> line per line of its data.\<close>

definition data_line :: "string \<Rightarrow> string" where "data_line v = ''data: '' @ v"
definition type_line :: "string \<Rightarrow> string" where "type_line v = ''event: '' @ v"
definition id_line :: "string \<Rightarrow> string" where "id_line v = ''id: '' @ v"

definition event_lines :: "sse_event \<Rightarrow> string list" where
  "event_lines e =
     (if ev_type e = [] then [] else [type_line (ev_type e)])
     @ (if ev_id e = [] then [] else [id_line (ev_id e)])
     @ map data_line (go_split (ev_data e) [LF]) @ [[]]"

definition render_events :: "sse_event list \<Rightarrow> string" where
  "render_events es = concat (map (\<lambda>l. l @ [LF]) (concat (map event_lines es)))"

definition wf_event :: "nat \<Rightarrow> sse_event \<Rightarrow> bool" where
  "wf_event mx e \<longleftrightarrow> (\<forall>l\<in>set (event_lines e). plain_line mx l) \<and> \<not> has_prefix (ev_data e) [LF]"

lemma parse_line_fields:
  "parse_line (type_line v) (c, h) = (c\<lparr>ev_type := v\<rparr>, True)"
  "parse_line (id_line v) (c, h) = (c\<lparr>ev_id := v\<rparr>, True)"
  "parse_line (data_line v) (c, h) =
     (c\<lparr>ev_data := (if h \<and> ev_data c \<noteq> [] then ev_data c @ [LF] else ev_data c) @ v\<rparr>, True)"
  by (simp_all add: parse_line_def go_cut_def trim_prefix_def has_prefix_def
      data_line_def type_line_def id_line_def)

lemma sse_fold_field [simp]:
  "sse_fold (type_line v # ls) (c, h) = sse_fold ls (c\<lparr>ev_type := v\<rparr>, True)"
  "sse_fold (id_line v # ls) (c, h) = sse_fold ls (c\<lparr>ev_id := v\<rparr>, True)"
  "sse_fold (data_line v # ls) (c, h) = sse_fold ls
     (c\<lparr>ev_data := (if h \<and> ev_data c \<noteq> [] then ev_data c @ [LF] else ev_data c) @ v\<rparr>, True)"
  by (simp_all add: parse_line_fields) (simp_all add: data_line_def type_line_def id_line_def)

lemma sse_fold_data_more:
  "ev_data c \<noteq> [] \<Longrightarrow> sse_fold (map data_line ds @ ls) (c, True)
     = sse_fold ls (c\<lparr>ev_data := ev_data c @ concat (map (\<lambda>l. LF # l) ds)\<rparr>, True)"
  by (induction ds arbitrary: c) (simp_all del: sse_fold.simps(2))

lemma go_join_LF: "go_join (d # ds) [LF] = d @ concat (map (\<lambda>l. LF # l) ds)"
  by (induction ds arbitrary: d) (auto simp: go_join_Cons)

lemma sse_fold_data:
  assumes "ev_data c = []" "ds \<noteq> []" "\<not> has_prefix (go_join ds [LF]) [LF]"
  shows "sse_fold (map data_line ds @ ls) (c, h) = sse_fold ls (c\<lparr>ev_data := go_join ds [LF]\<rparr>, True)"
proof -
  obtain d ds' where ds: "ds = d # ds'" using assms(2) by (cases ds) auto
  have first: "sse_fold (map data_line ds @ ls) (c, h)
      = sse_fold (map data_line ds' @ ls) (c\<lparr>ev_data := d\<rparr>, True)"
    using assms(1) by (simp add: ds del: sse_fold.simps(2))
  show ?thesis
  proof (cases "d = []")
    case True
    with assms(3) ds have "ds' = []" by (cases ds') (auto simp: go_join_LF)
    with first True ds show ?thesis by simp
  next
    case False
    then show ?thesis unfolding first by (simp add: sse_fold_data_more ds go_join_LF)
  qed
qed

lemma sse_fold_event:
  assumes "wf_event mx e"
  shows "sse_fold (event_lines e @ ls) (empty_event, False) = e # sse_fold ls (empty_event, False)"
proof -
  let ?d = "map data_line (go_split (ev_data e) [LF])"
  let ?c = "empty_event\<lparr>ev_type := ev_type e, ev_id := ev_id e\<rparr>"
  have nod: "\<not> has_prefix (go_join (go_split (ev_data e) [LF]) [LF]) [LF]"
    using assms by (simp add: wf_event_def go_join_split)
  have "\<exists>h. sse_fold (event_lines e @ ls) (empty_event, False) = sse_fold (?d @ [] # ls) (?c, h)"
    by (cases "ev_type e = []"; cases "ev_id e = []")
      (auto simp: event_lines_def empty_event_def simp del: sse_fold.simps(2))
  then obtain h where "sse_fold (event_lines e @ ls) (empty_event, False) = sse_fold (?d @ [] # ls) (?c, h)" ..
  also have "\<dots> = sse_fold ([] # ls) (?c\<lparr>ev_data := ev_data e\<rparr>, True)"
    using sse_fold_data [of ?c "go_split (ev_data e) [LF]" "[] # ls" h] nod
    by (simp add: go_join_split empty_event_def)
  also have "?c\<lparr>ev_data := ev_data e\<rparr> = e"
    by (simp add: empty_event_def)
  finally show ?thesis by simp
qed

lemma sse_fold_events:
  "\<forall>e\<in>set es. wf_event mx e \<Longrightarrow> sse_fold (concat (map event_lines es)) (empty_event, False) = es"
proof (induction es)
  case Nil
  then show ?case by simp
next
  case (Cons e es)
  then have "wf_event mx e" by simp
  from sse_fold_event [OF this] Cons show ?case by simp
qed

lemma scan_all_render:
  assumes "\<forall>e\<in>set es. wf_event mx e"
  shows "scan_all mx (render_events es) = (concat (map event_lines es), False)"
  using assms unfolding render_events_def
  by (intro scan_all_lines) (auto simp: wf_event_def)

lemma scan_line_append:
  assumes "scan mx s = ScanLine l s'" "CR \<notin> set s" "s = [] \<or> last s = LF"
  shows "s = l @ LF # s' \<and> (s' = [] \<or> last s' = LF)"
proof (cases "go_index s [LF]")
  case None
  then have "LF \<notin> set s"
    by (metis go_contains_def go_contains_iff split_list append_Cons append_Nil)
  moreover have "s \<noteq> []" using assms(1) None by (auto simp: scan_def)
  ultimately show ?thesis using assms(3) last_in_set by metis
next
  case (Some i)
  then have l: "l = drop_cr (take i s)" and s': "s' = drop (Suc i) s"
    using assms(1) by (auto simp: scan_def split: if_splits)
  have "CR \<notin> set (take i s)" using assms(2) in_set_takeD by fastforce
  then have "l = take i s" using l drop_cr_plain by simp
  moreover have split: "s = take i s @ [LF] @ drop (Suc i) s" using go_index_Some_split [OF Some] by simp
  ultimately have eq: "s = l @ LF # s'" using s' by simp
  moreover from eq have "s' = [] \<or> last s' = LF" using assms(3) by (cases "s' = []") simp_all
  ultimately show ?thesis by blast
qed

lemma scan_all_concat:
  "scan_all mx s = (ls, False) \<Longrightarrow> CR \<notin> set s \<Longrightarrow> s = [] \<or> last s = LF
   \<Longrightarrow> concat (map (\<lambda>l. l @ [LF]) ls) = s"
proof (induction ls arbitrary: s)
  case Nil
  then have "scan mx s = ScanEnd" by (simp add: scan_all_NilD)
  then show ?case by (auto simp: scan_def split: option.splits if_splits)
next
  case (Cons l ls)
  then obtain s' where "scan mx s = ScanLine l s'" and r: "scan_all mx s' = (ls, False)"
    using scan_all_ConsD by blast
  with scan_line_append Cons.prems have s: "s = l @ LF # s'" "s' = [] \<or> last s' = LF" by blast+
  with Cons.IH [OF r] Cons.prems(2) show ?case by simp
qed

subsection \<open>Properties\<close>

definition max_line :: nat where
  "max_line = 1024 * 1024" \<comment> \<open>the scanner's buffer limit in \<open>NewTeeReader\<close>\<close>

text \<open>C9: Reading a stream of well-formed server-sent events returns exactly the events that
  were written, in order, with multi-line data rejoined, then the end of the stream without
  error, and the sink has received the bytes of the stream.\<close>

theorem sse_roundtrip:
  assumes "\<forall>e\<in>set es. wf_event max_line e"
  shows "\<exists>r. tee_run buffer_write max_line (new_tee_reader (render_events es) None []) = (es, r, None)
             \<and> tr_dest r = render_events es"
proof -
  let ?r = "new_tee_reader (render_events es) None ([] :: string)"
  have "scan_all max_line (tr_rest ?r) = (concat (map event_lines es), False)"
    using scan_all_render [OF assms] by (simp add: new_tee_reader_def)
  from tee_run_lines [OF never_fails_buffer _ this] sse_fold_events [OF assms] show ?thesis
    by (simp add: new_tee_reader_def copy_all_buffer render_events_def)
qed

definition sample_events :: "sse_event list" where
  "sample_events = [\<lparr>ev_type = ''delta'', ev_data = ''a'' @ [LF] @ ''b'', ev_id = ''7''\<rparr>,
                    \<lparr>ev_type = [], ev_data = [], ev_id = []\<rparr>]"

theorem sse_roundtrip_witness:
  "\<exists>r. tee_run buffer_write max_line (new_tee_reader (render_events sample_events) None [])
         = (sample_events, r, None) \<and> tr_dest r = render_events sample_events"
proof (rule sse_roundtrip)
  show "\<forall>e\<in>set sample_events. wf_event max_line e"
    by (simp add: sample_events_def wf_event_def event_lines_def plain_line_def max_line_def
        go_split.simps data_line_def type_line_def id_line_def has_prefix_def)
qed

text \<open>The copy is verbatim when the stream uses bare line feeds and ends with one, and every
  line fits the scanner's buffer: the sink receives exactly the source's bytes, whatever
  the events are.\<close>

theorem sse_tee_verbatim:
  assumes "CR \<notin> set src" "src = [] \<or> last src = LF" "\<not> snd (scan_all max_line src)"
  shows "\<exists>es r. tee_run buffer_write max_line (new_tee_reader src None []) = (es, r, None)
                \<and> tr_dest r = src"
proof -
  obtain ls where ls: "scan_all max_line src = (ls, False)" using assms(3) by (cases "scan_all max_line src") auto
  let ?r = "new_tee_reader src None ([] :: string)"
  have "scan_all max_line (tr_rest ?r) = (ls, False)" using ls by (simp add: new_tee_reader_def)
  from tee_run_lines [OF never_fails_buffer _ this] scan_all_concat [OF ls assms(1,2)] show ?thesis
    by (simp add: new_tee_reader_def copy_all_buffer) blast
qed

definition sample_stream :: string where
  "sample_stream = ''data: hi'' @ [LF, LF]"

theorem sse_tee_verbatim_witness:
  "\<exists>es r. tee_run buffer_write max_line (new_tee_reader sample_stream None []) = (es, r, None)
          \<and> tr_dest r = sample_stream"
  by (rule sse_tee_verbatim)
    (simp_all add: sample_stream_def scan_all.simps scan_def max_line_def)

text \<open>With CRLF line ends the copy is not verbatim: the scanner drops the carriage returns,
  so the client of the stream data: a, CRLF, CRLF receives bare line feeds.\<close>

theorem sse_crlf_rewritten:
  "\<exists>r. tee_run buffer_write max_line (new_tee_reader (''data: a'' @ [CR, LF, CR, LF]) None [])
         = ([\<lparr>ev_type = [], ev_data = ''a'', ev_id = []\<rparr>], r, None)
       \<and> tr_dest r = ''data: a'' @ [LF, LF]"
proof -
  let ?src = "''data: a'' @ [CR, LF, CR, LF]"
  let ?r = "new_tee_reader ?src None ([] :: string)"
  have "scan_all max_line (tr_rest ?r) = ([''data: a'', []], False)"
    by (simp add: new_tee_reader_def scan_all.simps scan_def max_line_def drop_cr_def
        trim_suffix_def has_suffix_def)
  from tee_run_lines [OF never_fails_buffer _ this] show ?thesis
    by (simp add: new_tee_reader_def copy_all_buffer parse_line_def go_cut_def trim_prefix_def
        empty_event_def has_prefix_def)
qed

text \<open>A leading empty data line is lost: two data lines of which the first is empty are joined
  without the line feed that separates them.\<close>

theorem sse_leading_empty_data_lost:
  "\<exists>r. tee_run discard_write max_line (new_tee_reader (''data:'' @ [LF] @ ''data: x'' @ [LF, LF]) None ())
         = ([\<lparr>ev_type = [], ev_data = ''x'', ev_id = []\<rparr>], r, None)"
proof -
  let ?r = "new_tee_reader (''data:'' @ [LF] @ ''data: x'' @ [LF, LF]) None ()"
  have "scan_all max_line (tr_rest ?r) = ([''data:'', ''data: x'', []], False)"
    by (simp add: new_tee_reader_def scan_all.simps scan_def max_line_def drop_cr_def
        trim_suffix_def has_suffix_def)
  from tee_run_lines [OF never_fails_discard _ this] show ?thesis
    by (simp add: new_tee_reader_def parse_line_def go_cut_def trim_prefix_def
        empty_event_def has_prefix_def)
qed

end
