(* ===== verification/LlmTypes.thy ===== *)
theory LlmTypes
  imports Prelude
begin

text \<open>
  The provider-agnostic data of package \<open>pkg/llm\<close>: content blocks, messages, requests,
  responses and token usage, with the clones of \<open>pkg/llm/clone.go\<close>.

  \<open>jval\<close> is a decoded JSON value (Go's \<open>any\<close>); a \<open>map[string]any\<close> is an association
  list, read by \<open>map_of\<close>. JSON numbers are rationals. Token counts, Go \<open>int\<close>s, are
  integers. A nil slice and an empty slice of raw JSON are not told apart.
\<close>

datatype jval =
    JNull
  | JBool bool
  | JNum rat
  | JStr string
  | JArr "jval list"
  | JObj "(string \<times> jval) list"

type_synonym jobj = "(string \<times> jval) list"

text \<open>A type assertion \<open>v, _ := m[k].(string)\<close>: the zero value where it fails.\<close>

definition jget_string :: "jobj \<Rightarrow> string \<Rightarrow> string" where
  "jget_string m k = (case map_of m k of Some (JStr s) \<Rightarrow> s | _ \<Rightarrow> [])"

record content_block =
  cb_type :: string
  cb_text :: string
  image_url :: string
  image_base64 :: string
  media_type :: string
  tool_use_id :: string
  tool_name :: string
  tool_input :: jobj
  tool_result_id :: string
  tool_output :: string
  is_error :: bool
  thinking :: string
  thinking_signature :: string
  raw_content :: string

definition empty_block :: content_block where
  "empty_block = \<lparr>cb_type = [], cb_text = [], image_url = [], image_base64 = [], media_type = [],
     tool_use_id = [], tool_name = [], tool_input = [], tool_result_id = [], tool_output = [],
     is_error = False, thinking = [], thinking_signature = [], raw_content = []\<rparr>"

record message =
  msg_role :: string
  msg_content :: "content_block list"

record usage =
  prompt_tokens :: int
  completion_tokens :: int
  total_tokens :: int
  cache_creation_input_tokens :: int
  cache_read_input_tokens :: int
  total_duration_ns :: int
  prompt_duration_ns :: int

definition zero_usage :: usage where
  "zero_usage = \<lparr>prompt_tokens = 0, completion_tokens = 0, total_tokens = 0,
     cache_creation_input_tokens = 0, cache_read_input_tokens = 0,
     total_duration_ns = 0, prompt_duration_ns = 0\<rparr>"

record request_params =
  rp_system :: string
  rp_max_tokens :: "int option"
  rp_temperature :: "rat option"
  rp_stream :: "bool option"
  rp_tool_count :: "int option"

record chat_request =
  rq_model :: string
  rq_messages :: "message list"
  rq_stream :: "bool option"
  rq_system :: string
  rq_max_tokens :: "int option"
  rq_temperature :: "rat option"
  rq_tools :: "string list"
  rq_extra :: jobj

record chat_response =
  rs_model :: string
  rs_message :: message
  rs_done :: bool
  rs_stop_reason :: string
  rs_usage :: "usage option"
  rs_extra :: jobj

text \<open>\<open>(*ChatRequest).Params\<close>.\<close>

definition req_params :: "chat_request option \<Rightarrow> request_params option" where
  "req_params r = (case r of
     None \<Rightarrow> None
   | Some q \<Rightarrow> Some \<lparr>rp_system = rq_system q, rp_max_tokens = rq_max_tokens q,
       rp_temperature = rq_temperature q, rp_stream = rq_stream q,
       rp_tool_count = Some (int (length (rq_tools q)))\<rparr>)"

text \<open>\<open>(*Message).GetText\<close>.\<close>

definition get_text :: "message \<Rightarrow> string" where
  "get_text m = concat (map cb_text (filter (\<lambda>b. cb_type b = ''text'') (msg_content m)))"

text \<open>\<open>NewTextMessage\<close>.\<close>

definition new_text_message :: "string \<Rightarrow> string \<Rightarrow> message" where
  "new_text_message role txt =
     \<lparr>msg_role = role, msg_content = [empty_block\<lparr>cb_type := ''text'', cb_text := txt\<rparr>]\<rparr>"

subsection \<open>Deep copies\<close>

text \<open>
  \<open>cloneAnyMap\<close> and \<open>cloneAnyValue\<close> rebuild a decoded value; \<open>strings.Clone\<close> and
  \<open>bytes.Clone\<close> copy bytes, so on values they are the identity.
\<close>

fun clone_any_value :: "jval \<Rightarrow> jval" where
  "clone_any_value (JStr s) = JStr s"
| "clone_any_value (JObj m) = JObj (map (\<lambda>(k, v). (k, clone_any_value v)) m)"
| "clone_any_value (JArr xs) = JArr (map clone_any_value xs)"
| "clone_any_value v = v"

definition clone_any_map :: "jobj \<Rightarrow> jobj" where
  "clone_any_map m = map (\<lambda>(k, v). (k, clone_any_value v)) m"

definition block_clone :: "content_block \<Rightarrow> content_block" where
  "block_clone b = b\<lparr>tool_input := clone_any_map (tool_input b)\<rparr>"

lemma clone_any_value_id [simp]: "clone_any_value v = v"
proof (induction v)
  case (JObj m)
  then show ?case by (auto intro!: map_idI)
next
  case (JArr xs)
  then show ?case by (auto intro!: map_idI)
qed auto

lemma clone_any_map_id [simp]: "clone_any_map m = m"
  by (simp add: clone_any_map_def)

lemma block_clone_id [simp]: "block_clone b = b"
  by (simp add: block_clone_def)

end
