(* ===== verification/Projection.thy ===== *)
theory Projection
  imports LlmTypes
begin

text \<open>
  \<open>pkg/merkle/projection.go\<close>: the projection of content blocks that the chain hash is
  computed over, and the projection of text for human-facing previews. The two regular
  expressions of \<open>normalizeWhitespace\<close> and the one of \<open>PreviewText\<close> are written as
  the scanners they denote.
\<close>

definition harness_tags :: "string list" where
  "harness_tags =
     [''system-reminder'', ''command-name'', ''command-message'', ''command-args'',
      ''local-command-stdout'', ''local-command-stderr'', ''local-command-caveat'',
      ''session'', ''conversation'', ''new-diagnostics'', ''task-notification'', ''status'',
      ''summary'', ''transcript'', ''event'', ''tool-use-id'', ''output-file'', ''task-id'',
      ''environment_context'']"

definition open_tag :: "string \<Rightarrow> string" where
  "open_tag tag = ''<'' @ tag @ ''>''"

definition close_tag :: "string \<Rightarrow> string" where
  "close_tag tag = ''</'' @ tag @ ''>''"

lemma tags_nonempty [simp]: "open_tag t \<noteq> []" "close_tag t \<noteq> []"
  by (simp_all add: open_tag_def close_tag_def)

subsection \<open>Tagged spans\<close>

function strip_tagged_span :: "string \<Rightarrow> string \<Rightarrow> string" where
  "strip_tagged_span text tag =
     (case go_index text (open_tag tag) of
        None \<Rightarrow> text
      | Some start \<Rightarrow>
          (case go_cut (drop start text) (close_tag tag) of
             (_, after, ok) \<Rightarrow>
               if ok then strip_tagged_span (take start text @ after) tag else take start text))"
  by pat_completeness auto
termination
proof (relation "measure (\<lambda>(text, tag). length text)", goal_cases)
  case (2 t tag start x y after ok)
  then have "go_cut (drop start t) (close_tag tag) = (x, after, True)" by (metis (full_types))
  from go_cut_length [OF this] go_index_bound [OF 2(1)] show ?case
    by (simp add: close_tag_def)
qed simp

declare strip_tagged_span.simps [simp del]

definition strip_harness_tags :: "string \<Rightarrow> string" where
  "strip_harness_tags text = fold (\<lambda>tag t. strip_tagged_span t tag) harness_tags text"

function unwrap_tagged_span :: "string \<Rightarrow> string \<Rightarrow> string" where
  "unwrap_tagged_span text tag =
     (case go_index text (open_tag tag) of
        None \<Rightarrow> text
      | Some start \<Rightarrow>
          (let rest = drop (start + length (open_tag tag)) text
           in case go_cut rest (close_tag tag) of
                (inner, after, ok) \<Rightarrow>
                  if ok then take start text @ inner @ unwrap_tagged_span after tag
                  else take start text @ rest))"
  by pat_completeness auto
termination
  by (relation "measure (\<lambda>(text, tag). length text)")
    (auto simp: close_tag_def dest!: go_index_bound go_cut_length [OF sym])

declare unwrap_tagged_span.simps [simp del]

subsection \<open>White space\<close>

definition is_blank :: "char \<Rightarrow> bool" where
  "is_blank c \<longleftrightarrow> c = SP \<or> c = TAB"

text \<open>\<open>[ \t]+\n\<close> replaced by \<open>\n\<close>: a blank goes when only blanks separate it from a line feed.\<close>

fun strip_trailing_line_space :: "string \<Rightarrow> string" where
  "strip_trailing_line_space [] = []"
| "strip_trailing_line_space (c # cs) =
     (if is_blank c \<and> has_prefix (dropWhile is_blank cs) [LF]
      then strip_trailing_line_space cs else c # strip_trailing_line_space cs)"

text \<open>\<open>\n{2,}\<close> replaced by \<open>\n\<close>.\<close>

fun collapse_newlines :: "string \<Rightarrow> string" where
  "collapse_newlines [] = []"
| "collapse_newlines (c # cs) =
     (if c = LF \<and> has_prefix cs [LF] then collapse_newlines cs else c # collapse_newlines cs)"

definition normalize_whitespace :: "string \<Rightarrow> string" where
  "normalize_whitespace text =
     go_trim_space (collapse_newlines (strip_trailing_line_space (go_replace_all text [CR, LF] [LF])))"

definition normalize_for_embed :: "string \<Rightarrow> string" where
  "normalize_for_embed text = normalize_whitespace (strip_harness_tags text)"

subsection \<open>Previews\<close>

definition preview_wrapper_tags :: "string list" where
  "preview_wrapper_tags = [''session'', ''conversation'', ''command-args'']"

definition is_link_space :: "char \<Rightarrow> bool" where
  "is_link_space c \<longleftrightarrow> c = SP \<or> c = TAB \<or> c = CR \<or> c = LF"

text \<open>
  The text after a leading plugin link, when there is one:
  optional space, \<open>[@name](plugin://target)\<close>, optional space.
\<close>

definition plugin_rest :: "string \<Rightarrow> string option" where
  "plugin_rest text =
     (let t = dropWhile is_link_space text
      in if \<not> has_prefix t ''[@'' then None
         else let t2 = drop 2 t;
                  name = takeWhile (\<lambda>c. c \<noteq> CHR '']'' \<and> c \<noteq> CR \<and> c \<noteq> LF) t2;
                  t3 = drop (length name) t2
              in if name = [] \<or> \<not> has_prefix t3 ''](plugin://'' then None
                 else let t4 = drop 11 t3;
                          target = takeWhile (\<lambda>c. c \<noteq> CHR '')'' \<and> c \<noteq> CR \<and> c \<noteq> LF) t4;
                          t5 = drop (length target) t4
                      in if target = [] \<or> \<not> has_prefix t5 '')'' then None
                         else Some (dropWhile is_link_space (drop 1 t5)))"

lemma plugin_rest_shorter: "plugin_rest text = Some r \<Longrightarrow> length r < length text"
proof -
  assume a: "plugin_rest text = Some r"
  let ?t = "dropWhile is_link_space text"
  have p: "has_prefix ?t ''[@''" using a by (auto simp: plugin_rest_def Let_def split: if_splits)
  have r: "length r \<le> length ?t - 2"
    using a by (auto simp: plugin_rest_def Let_def split: if_splits
        intro!: order_trans [OF length_dropWhile_le])
  from p have "2 \<le> length ?t" by (auto simp: has_prefix_iff)
  moreover have "length ?t \<le> length text" by (rule length_dropWhile_le)
  ultimately show ?thesis using r by simp
qed

function strip_plugin_links :: "string \<Rightarrow> string" where
  "strip_plugin_links text =
     (case plugin_rest text of None \<Rightarrow> text | Some r \<Rightarrow> strip_plugin_links r)"
  by pat_completeness auto
termination
  by (relation "measure length") (auto dest: plugin_rest_shorter)

declare strip_plugin_links.simps [simp del]

definition preview_text :: "string \<Rightarrow> string" where
  "preview_text text =
     normalize_whitespace (strip_plugin_links
       (fold (\<lambda>tag t. if tag \<in> set preview_wrapper_tags then unwrap_tagged_span t tag
                      else strip_tagged_span t tag) harness_tags text))"

subsection \<open>Content blocks\<close>

definition is_zero_value :: "jval \<Rightarrow> bool" where
  "is_zero_value v = (case v of
      JNull \<Rightarrow> True
    | JBool b \<Rightarrow> \<not> b
    | JStr s \<Rightarrow> s = []
    | JNum x \<Rightarrow> x = 0
    | JArr xs \<Rightarrow> xs = []
    | JObj m \<Rightarrow> False)"

text \<open>\<open>prune_value\<close> is what \<open>pruneZeroValues\<close> keeps of one entry's value, if anything.\<close>

fun prune_value :: "jval \<Rightarrow> jval option" where
  "prune_value (JObj m) =
     (let p = concat (map (\<lambda>(k, v). case prune_value v of None \<Rightarrow> [] | Some v' \<Rightarrow> [(k, v')]) m)
      in if p = [] then None else Some (JObj p))"
| "prune_value v = (if is_zero_value v then None else Some v)"

definition prune_zero_values :: "jobj \<Rightarrow> jobj" where
  "prune_zero_values m =
     concat (map (\<lambda>(k, v). case prune_value v of None \<Rightarrow> [] | Some v' \<Rightarrow> [(k, v')]) m)"

text \<open>One iteration of the loop of \<open>ProjectContent\<close>; \<open>None\<close> is its \<open>continue\<close>.\<close>

definition project_block :: "content_block \<Rightarrow> content_block option" where
  "project_block b =
     (let projected = normalize_whitespace (strip_harness_tags (cb_text b))
      in if cb_text b \<noteq> [] \<and> projected = [] then None
         else
           let b1 = (if cb_text b \<noteq> [] then b\<lparr>cb_text := projected\<rparr> else b);
               b2 = (if tool_input b1 \<noteq> [] then b1\<lparr>tool_input := prune_zero_values (tool_input b1)\<rparr> else b1);
               b3 = (if thinking_signature b2 \<noteq> [] then b2\<lparr>thinking_signature := []\<rparr> else b2);
               b4 = (if tool_output b3 \<noteq> []
                     then b3\<lparr>tool_output := normalize_whitespace (strip_harness_tags (tool_output b3))\<rparr>
                     else b3)
           in Some b4)"

definition project_content :: "content_block list \<Rightarrow> content_block list" where
  "project_content blocks = List.map_filter project_block blocks"

subsection \<open>Stripping spans\<close>

text \<open>What is left has no opening marker of the tag; text without one is untouched.\<close>

lemma strip_tagged_span_no_open: "\<not> go_contains (strip_tagged_span t tag) (open_tag tag)"
proof (induction t tag rule: strip_tagged_span.induct)
  case (1 t tag)
  show ?case
  proof (cases "go_index t (open_tag tag)")
    case None
    then show ?thesis by (simp add: strip_tagged_span.simps go_contains_def)
  next
    case (Some i)
    obtain b a ok where c: "go_cut (drop i t) (close_tag tag) = (b, a, ok)" by (metis prod_cases3)
    show ?thesis
    proof (cases ok)
      case True
      from 1 [OF Some c [symmetric] refl True] c Some True show ?thesis
        by (simp add: strip_tagged_span.simps [of t])
    next
      case False
      with c Some have "strip_tagged_span t tag = take i t" by (simp add: strip_tagged_span.simps [of t])
      then show ?thesis using go_contains_take_index [OF Some] by simp
    qed
  qed
qed

lemma strip_tagged_span_id: "\<not> go_contains t (open_tag tag) \<Longrightarrow> strip_tagged_span t tag = t"
  by (simp add: strip_tagged_span.simps go_contains_def)

lemma unwrap_tagged_span_id: "\<not> go_contains t (open_tag tag) \<Longrightarrow> unwrap_tagged_span t tag = t"
  by (simp add: unwrap_tagged_span.simps go_contains_def)

lemma no_angle_no_open: "CHR ''<'' \<notin> set t \<Longrightarrow> \<not> go_contains t (open_tag tag)"
  by (auto simp: go_contains_iff open_tag_def)

lemma go_index_at:
  assumes "CHR ''<'' \<notin> set pre" "sub = CHR ''<'' # sub'"
  shows "go_index (pre @ sub @ post) sub = Some (length pre)"
  using assms(1) by (induction pre) (auto simp: assms(2))

lemma has_prefix_append_same: "has_prefix (p @ s) (p @ q) = has_prefix s q"
  by (auto simp: has_prefix_iff)

text \<open>One harness span between texts that hold no markup goes, whole.\<close>

definition plain_tag :: "string \<Rightarrow> bool" where
  "plain_tag tag \<longleftrightarrow> CHR ''<'' \<notin> set tag \<and> \<not> has_prefix tag ''/''"

lemma go_index_open: "CHR ''<'' \<notin> set pre \<Longrightarrow> go_index (pre @ open_tag tag @ post) (open_tag tag) = Some (length pre)"
  using go_index_at [of pre "open_tag tag" "tag @ ''>''" post] by (simp add: open_tag_def)

lemma go_index_close:
  assumes "plain_tag tag" "CHR ''<'' \<notin> set body"
  shows "go_index (open_tag tag @ body @ close_tag tag @ post) (close_tag tag)
         = Some (length (open_tag tag @ body))"
proof -
  have "\<not> has_prefix (open_tag tag @ body @ close_tag tag @ post) (close_tag tag)"
    using assms(1) by (cases tag) (auto simp: open_tag_def close_tag_def plain_tag_def)
  moreover have "go_index ((tag @ ''>'' @ body) @ close_tag tag @ post) (close_tag tag)
      = Some (length (tag @ ''>'' @ body))"
    using assms go_index_at [of "tag @ ''>'' @ body" "close_tag tag" "''/'' @ tag @ ''>''" post]
    by (simp add: close_tag_def plain_tag_def)
  ultimately show ?thesis by (simp add: open_tag_def)
qed

lemma strip_one_span:
  assumes "plain_tag tag" "CHR ''<'' \<notin> set pre" "CHR ''<'' \<notin> set body" "CHR ''<'' \<notin> set post"
  shows "strip_tagged_span (pre @ open_tag tag @ body @ close_tag tag @ post) tag = pre @ post"
proof -
  let ?t = "pre @ open_tag tag @ body @ close_tag tag @ post"
  have i: "go_index ?t (open_tag tag) = Some (length pre)" using go_index_open [OF assms(2)] .
  have c: "go_cut (drop (length pre) ?t) (close_tag tag) = (open_tag tag @ body, post, True)"
    using go_index_close [OF assms(1,3)] by (simp add: go_cut_def)
  have "\<not> go_contains (pre @ post) (open_tag tag)" using assms by (simp add: no_angle_no_open)
  with i c show ?thesis
    by (simp add: strip_tagged_span.simps [of ?t] strip_tagged_span_id)
qed

text \<open>A span of one tag holds no opening marker of another.\<close>

lemma go_contains_open_other:
  assumes "plain_tag tag" "plain_tag tag'" "tag \<noteq> tag'" "CHR ''>'' \<notin> set tag" "CHR ''>'' \<notin> set tag'"
    "CHR ''<'' \<notin> set pre" "CHR ''<'' \<notin> set body" "CHR ''<'' \<notin> set post"
  shows "\<not> go_contains (pre @ open_tag tag @ body @ close_tag tag @ post) (open_tag tag')"
proof
  have first: "\<not> has_prefix (open_tag tag @ r) (open_tag tag')" for r
  proof
    assume "has_prefix (open_tag tag @ r) (open_tag tag')"
    then obtain q where "tag @ CHR ''>'' # r = tag' @ CHR ''>'' # q"
      by (auto simp: open_tag_def has_prefix_iff)
    then have "takeWhile (\<lambda>c. c \<noteq> CHR ''>'') (tag @ CHR ''>'' # r)
        = takeWhile (\<lambda>c. c \<noteq> CHR ''>'') (tag' @ CHR ''>'' # q)" by simp
    moreover have "takeWhile (\<lambda>c. c \<noteq> CHR ''>'') (u @ CHR ''>'' # v) = u" if "CHR ''>'' \<notin> set u" for u v
      using that by (induction u) auto
    ultimately show False using assms(3-5) by metis
  qed
  have idx: "go_index (u @ v) (CHR ''<'' # w) = None \<longleftrightarrow> go_index v (CHR ''<'' # w) = None"
    if "CHR ''<'' \<notin> set u" for u v w :: string
    using that by (induction u) auto
  have none: "go_index u (CHR ''<'' # w) = None" if "CHR ''<'' \<notin> set u" for u w :: string
    using that by (induction u) auto
  assume "go_contains (pre @ open_tag tag @ body @ close_tag tag @ post) (open_tag tag')"
  then have "go_index (open_tag tag @ body @ close_tag tag @ post) (open_tag tag') \<noteq> None"
    using idx [OF assms(6)] by (simp add: go_contains_def open_tag_def [of tag'])
  then have "go_index (tag @ ''>'' @ body @ close_tag tag @ post) (open_tag tag') \<noteq> None"
    using first [of "body @ close_tag tag @ post"] by (auto simp: open_tag_def [of tag] split: if_splits)
  moreover have "CHR ''<'' \<notin> set (tag @ ''>'' @ body)" using assms(1,7) by (simp add: plain_tag_def)
  ultimately have "go_index (close_tag tag @ post) (open_tag tag') \<noteq> None"
    using idx [of "tag @ ''>'' @ body" "close_tag tag @ post" "tag' @ ''>''"]
    by (simp add: open_tag_def [of tag'] del: not_None_eq)
  moreover have "\<not> has_prefix (close_tag tag @ post) (open_tag tag')"
    using assms(2) by (cases tag') (auto simp: open_tag_def close_tag_def plain_tag_def)
  ultimately have "go_index (''/'' @ tag @ ''>'' @ post) (open_tag tag') \<noteq> None"
    by (auto simp: close_tag_def split: if_splits)
  moreover have "CHR ''<'' \<notin> set (''/'' @ tag @ ''>'' @ post)" using assms(1,8) by (simp add: plain_tag_def)
  ultimately show False using none by (simp add: open_tag_def)
qed

lemma harness_tags_plain:
  "tag \<in> set harness_tags \<Longrightarrow> plain_tag tag \<and> CHR ''>'' \<notin> set tag"
  by (auto simp: harness_tags_def plain_tag_def)

lemma fold_strip_no_markup:
  "CHR ''<'' \<notin> set t \<Longrightarrow> fold (\<lambda>tag t. strip_tagged_span t tag) tags t = t"
  by (induction tags) (simp_all add: strip_tagged_span_id no_angle_no_open)

lemma fold_strip_one_span:
  assumes "set tags \<subseteq> set harness_tags" "tag \<in> set tags"
    "CHR ''<'' \<notin> set pre" "CHR ''<'' \<notin> set body" "CHR ''<'' \<notin> set post"
  shows "fold (\<lambda>tag t. strip_tagged_span t tag) tags (pre @ open_tag tag @ body @ close_tag tag @ post)
         = pre @ post"
  using assms(1,2)
proof (induction tags)
  case Nil
  then show ?case by simp
next
  case (Cons u us)
  have "plain_tag tag" "plain_tag u" "CHR ''>'' \<notin> set tag" "CHR ''>'' \<notin> set u"
    using Cons.prems harness_tags_plain by auto
  show ?case
  proof (cases "u = tag")
    case True
    then show ?thesis
      using strip_one_span [OF \<open>plain_tag tag\<close> assms(3-5)] assms(3,5) by (simp add: fold_strip_no_markup)
  next
    case False
    with go_contains_open_other [OF \<open>plain_tag tag\<close> \<open>plain_tag u\<close> _ _ _ assms(3-5)]
      \<open>CHR ''>'' \<notin> set tag\<close> \<open>CHR ''>'' \<notin> set u\<close>
    have "strip_tagged_span (pre @ open_tag tag @ body @ close_tag tag @ post) u
        = pre @ open_tag tag @ body @ close_tag tag @ post"
      by (intro strip_tagged_span_id) auto
    with Cons False show ?thesis by simp
  qed
qed

lemma strip_harness_one_span:
  assumes "tag \<in> set harness_tags"
    "CHR ''<'' \<notin> set pre" "CHR ''<'' \<notin> set body" "CHR ''<'' \<notin> set post"
  shows "strip_harness_tags (pre @ open_tag tag @ body @ close_tag tag @ post) = pre @ post"
  unfolding strip_harness_tags_def using fold_strip_one_span [OF subset_refl assms] .

subsection \<open>Normalised white space\<close>

definition no_trailing_blank :: "char \<Rightarrow> char \<Rightarrow> bool" where
  "no_trailing_blank a b \<longleftrightarrow> \<not> (is_blank a \<and> b = LF)"

definition no_blank_line :: "char \<Rightarrow> char \<Rightarrow> bool" where
  "no_blank_line a b \<longleftrightarrow> \<not> (a = LF \<and> b = LF)"

lemma is_blank_LF: "\<not> is_blank LF"
  by (simp add: is_blank_def)

lemma hd_strip_trailing:
  "has_prefix (strip_trailing_line_space cs) [LF] \<longleftrightarrow> has_prefix (dropWhile is_blank cs) [LF]"
  by (induction cs) (auto simp: is_blank_LF)

lemma strip_trailing_clean: "successively no_trailing_blank (strip_trailing_line_space s)"
proof (induction s)
  case Nil
  then show ?case by simp
next
  case (Cons c cs)
  show ?case
  proof (cases "is_blank c \<and> has_prefix (dropWhile is_blank cs) [LF]")
    case True
    with Cons show ?thesis by simp
  next
    case False
    with Cons show ?thesis
      using hd_strip_trailing [of cs]
      by (cases "strip_trailing_line_space cs") (auto simp: no_trailing_blank_def)
  qed
qed

lemma strip_trailing_fix: "successively no_trailing_blank s \<Longrightarrow> strip_trailing_line_space s = s"
proof (induction s)
  case Nil
  then show ?case by simp
next
  case (Cons c cs)
  have "is_blank c \<Longrightarrow> \<not> has_prefix (dropWhile is_blank cs) [LF]"
    using Cons.prems
    by (induction cs arbitrary: c) (auto simp: no_trailing_blank_def)
  moreover have "successively no_trailing_blank cs" using Cons.prems by (cases cs) auto
  ultimately show ?case using Cons.IH by auto
qed

lemma hd_collapse: "cs \<noteq> [] \<Longrightarrow> collapse_newlines cs \<noteq> [] \<and> hd (collapse_newlines cs) = hd cs"
proof (induction cs)
  case (Cons c cs)
  then show ?case by (cases cs) auto
qed simp

lemma collapse_clean: "successively no_blank_line (collapse_newlines s)"
proof (induction s)
  case (Cons c cs)
  then show ?case
    using hd_collapse [of cs]
    by (cases cs; cases "collapse_newlines cs") (auto simp: no_blank_line_def has_prefix_def)
qed simp

lemma collapse_keeps_clean:
  "successively no_trailing_blank s \<Longrightarrow> successively no_trailing_blank (collapse_newlines s)"
proof (induction s)
  case (Cons c cs)
  then have "successively no_trailing_blank (collapse_newlines cs)" by (cases cs) auto
  then show ?case using Cons.prems hd_collapse [of cs]
    by (cases cs; cases "collapse_newlines cs") auto
qed simp

lemma collapse_fix: "successively no_blank_line s \<Longrightarrow> collapse_newlines s = s"
proof (induction s)
  case (Cons c cs)
  then show ?case by (cases cs) (auto simp: no_blank_line_def)
qed simp

lemma successively_part: "successively R (l @ s @ r) \<Longrightarrow> successively R s"
  by (auto simp: successively_append_iff)

lemma set_strip_trailing: "set (strip_trailing_line_space s) \<subseteq> set s"
  by (induction s) auto

lemma set_collapse: "set (collapse_newlines s) \<subseteq> set s"
  by (induction s) auto

lemma set_go_trim_space: "set (go_trim_space s) \<subseteq> set s"
proof -
  obtain l r where "s = l @ go_trim_space s @ r" using go_trim_space_sublist by blast
  then have "set s = set l \<union> set (go_trim_space s) \<union> set r" by (metis set_append sup_assoc)
  then show ?thesis by blast
qed

lemma no_crlf_absent: "CR \<notin> set s \<Longrightarrow> go_replace_all s [CR, LF] [LF] = s"
  by (rule go_replace_all_absent) (auto simp: go_contains_iff)

lemma normalize_whitespace_shape:
  assumes "CR \<notin> set s"
  shows "successively no_trailing_blank (normalize_whitespace s)"
    and "successively no_blank_line (normalize_whitespace s)"
    and "CR \<notin> set (normalize_whitespace s)"
proof -
  let ?m = "collapse_newlines (strip_trailing_line_space s)"
  have n: "normalize_whitespace s = go_trim_space ?m"
    by (simp add: normalize_whitespace_def no_crlf_absent assms)
  obtain l r where lr: "?m = l @ go_trim_space ?m @ r" using go_trim_space_sublist by blast
  have "successively no_trailing_blank ?m" "successively no_blank_line ?m"
    by (simp_all add: collapse_keeps_clean strip_trailing_clean collapse_clean)
  then show "successively no_trailing_blank (normalize_whitespace s)"
    "successively no_blank_line (normalize_whitespace s)"
    unfolding n by (metis lr successively_part)+
  show "CR \<notin> set (normalize_whitespace s)"
    unfolding n using assms set_go_trim_space set_collapse set_strip_trailing by blast
qed

subsection \<open>Pruned inputs\<close>

text \<open>No zero value is left at any depth of nested objects.\<close>

fun zero_free :: "jval \<Rightarrow> bool" where
  "zero_free (JObj m) \<longleftrightarrow> m \<noteq> [] \<and> (\<forall>kv\<in>set m. zero_free (snd kv))"
| "zero_free v \<longleftrightarrow> \<not> is_zero_value v"

lemma prune_value_JObj:
  "prune_value (JObj m) = (if prune_zero_values m = [] then None else Some (JObj (prune_zero_values m)))"
  by (simp add: prune_zero_values_def Let_def)

lemma in_prune_zero_values:
  "kv \<in> set (prune_zero_values m) \<longleftrightarrow> (\<exists>v. (fst kv, v) \<in> set m \<and> prune_value v = Some (snd kv))"
  by (cases kv) (force simp: prune_zero_values_def split: option.splits)

lemma prune_value_zero_free: "prune_value v = Some v' \<Longrightarrow> zero_free v'"
proof (induction v arbitrary: v')
  case (JObj m)
  then have ne: "prune_zero_values m \<noteq> []" and v': "v' = JObj (prune_zero_values m)"
    by (auto simp: prune_value_JObj simp del: prune_value.simps split: if_splits)
  have "zero_free (snd kv)" if "kv \<in> set (prune_zero_values m)" for kv
  proof -
    from that obtain v where v: "(fst kv, v) \<in> set m" "prune_value v = Some (snd kv)"
      by (auto simp: in_prune_zero_values)
    show ?thesis by (rule JObj.IH [OF v(1) _ v(2)]) simp
  qed
  with ne v' show ?case by simp
qed (auto split: if_splits)

lemma zero_free_prune_value: "zero_free v \<Longrightarrow> prune_value v = Some v"
proof (induction v)
  case (JObj m)
  have "(case prune_value v of None \<Rightarrow> [] | Some v' \<Rightarrow> [(k, v')]) = [(k, v)]"
    if "(k, v) \<in> set m" for k v
    using JObj.IH [of "(k, v)" v] JObj.prems that by auto
  then have "prune_zero_values m = concat (map (\<lambda>kv. [kv]) m)"
    unfolding prune_zero_values_def by (intro arg_cong [where f = concat] map_cong) auto
  with JObj.prems show ?case by (simp add: prune_value_JObj del: prune_value.simps)
qed simp_all

lemma prune_zero_values_fix: "\<forall>kv\<in>set m. zero_free (snd kv) \<Longrightarrow> prune_zero_values m = m"
proof -
  assume a: "\<forall>kv\<in>set m. zero_free (snd kv)"
  have "prune_zero_values m = concat (map (\<lambda>kv. [kv]) m)"
    unfolding prune_zero_values_def using a
    by (intro arg_cong [where f = concat] map_cong) (auto simp: zero_free_prune_value)
  then show ?thesis by simp
qed

lemma prune_zero_values_zero_free: "kv \<in> set (prune_zero_values m) \<Longrightarrow> zero_free (snd kv)"
  by (auto simp: in_prune_zero_values intro: prune_value_zero_free)

subsection \<open>Properties\<close>

text \<open>A harness span inside a block's text, and its thinking signature, are invisible to the
  projection: the block projects as if neither were there, provided text is left.\<close>

theorem harness_span_invisible:
  assumes "tag \<in> set harness_tags" "pre @ post \<noteq> []"
    "CHR ''<'' \<notin> set pre" "CHR ''<'' \<notin> set body" "CHR ''<'' \<notin> set post"
  shows "project_block (b\<lparr>cb_text := pre @ open_tag tag @ body @ close_tag tag @ post,
                          thinking_signature := sig\<rparr>)
         = project_block (b\<lparr>cb_text := pre @ post, thinking_signature := []\<rparr>)"
proof -
  have "strip_harness_tags (pre @ post) = pre @ post"
    using assms(3,5) by (simp add: strip_harness_tags_def fold_strip_no_markup)
  with strip_harness_one_span [OF assms(1,3-5)] assms(2) show ?thesis
    by (simp add: project_block_def Let_def)
qed

theorem harness_span_invisible_witness:
  "project_block (empty_block\<lparr>cb_text := ''hi '' @ open_tag ''system-reminder'' @ ''tick''
        @ close_tag ''system-reminder'' @ ''there'', thinking_signature := ''s''\<rparr>)
   = project_block (empty_block\<lparr>cb_text := ''hi '' @ ''there'', thinking_signature := []\<rparr>)"
  by (rule harness_span_invisible) (simp_all add: harness_tags_def)

text \<open>On text without carriage returns, white-space normalisation is idempotent.\<close>

theorem normalize_whitespace_idem:
  assumes "CR \<notin> set s"
  shows "normalize_whitespace (normalize_whitespace s) = normalize_whitespace s"
proof -
  let ?n = "normalize_whitespace s"
  note shape = normalize_whitespace_shape [OF assms]
  have trimmed: "go_trim_space ?n = ?n" by (simp add: normalize_whitespace_def)
  show ?thesis
    unfolding normalize_whitespace_def [of ?n]
    using shape by (simp add: no_crlf_absent strip_trailing_fix collapse_fix trimmed)
qed

theorem normalize_whitespace_idem_witness:
  "normalize_whitespace (normalize_whitespace (''a '' @ [LF, LF] @ ''b''))
   = normalize_whitespace (''a '' @ [LF, LF] @ ''b'')"
  by (rule normalize_whitespace_idem) simp

text \<open>With carriage returns it is not: a doubled one survives the first pass and goes in the second.\<close>

lemma normalize_whitespace_crcrlf:
  "normalize_whitespace (''a'' @ [CR, CR, LF] @ ''b'') = ''a'' @ [CR, LF] @ ''b''"
  "normalize_whitespace (''a'' @ [CR, LF] @ ''b'') = ''a'' @ [LF] @ ''b''"
  by code_simp+

text \<open>Pruning a tool input leaves no zero value at any object depth, and pruning the result
  again changes nothing.\<close>

theorem prune_zero_values_complete:
  "list_all (\<lambda>kv. zero_free (snd kv)) (prune_zero_values m)
   \<and> prune_zero_values (prune_zero_values m) = prune_zero_values m"
  using prune_zero_values_zero_free [of _ m] prune_zero_values_fix [of "prune_zero_values m"]
  unfolding list_all_iff by blast

text \<open>One pass over the tags does not remove every harness span: stripping the span of a
  later tag can leave a complete span of an earlier one behind.\<close>

theorem strip_harness_tags_residue:
  "strip_harness_tags (''<sys<session></session>tem-reminder>tick</system-reminder>'')
   = ''<system-reminder>tick</system-reminder>''"
  by code_simp

end
