(* ===== verification/MerkleNode.thy ===== *)
theory MerkleNode
  imports Projection
begin

text \<open>
  \<open>pkg/merkle/bucket.go\<close> and \<open>pkg/merkle/node.go\<close>: buckets, content-addressed nodes
  and their hash.

  The digest is a parameter \<open>H\<close> of the model: the hexadecimal SHA-256 of the canonical
  JSON form of the struct that \<open>computeHash\<close> marshals, here the record \<open>hash_input\<close>.
  What the code relies on, no collisions and a non-empty digest, is a hypothesis of the
  statements that need it.
\<close>

record bucket =
  b_type :: string
  b_role :: string
  b_content :: "content_block list"
  b_model :: string
  b_provider :: string
  b_agent_name :: string

record node =
  n_hash :: string
  n_parent_hash :: "string option"
  n_bucket :: bucket
  n_stop_reason :: string
  n_usage :: "usage option"
  n_project :: string
  n_kind :: string
  n_thread_id :: string
  n_parent_tool_use_id :: string
  n_request :: "request_params option"
  n_created_at :: gotime

record node_options =
  no_stop_reason :: string
  no_usage :: "usage option"
  no_project :: string
  no_request :: "request_params option"

definition bucket_clone :: "bucket \<Rightarrow> bucket" where
  "bucket_clone b = b\<lparr>b_content := map block_clone (b_content b)\<rparr>"

text \<open>
  \<open>formatToolUse\<close>: the entries of the input in the order of the association list (Go
  takes them in any order), each value through a formatting parameter \<open>fmt\<close> (\<open>%v\<close>).
\<close>

definition format_tool_use :: "(jval \<Rightarrow> string) \<Rightarrow> content_block \<Rightarrow> string" where
  "format_tool_use fmt b =
     ''Tool call: '' @ tool_name b
     @ (if tool_input b = [] then []
        else ''('' @ go_join (map (\<lambda>(k, v). k @ '': '' @ fmt v) (tool_input b)) '', '' @ '')'')"

definition extract_text :: "(jval \<Rightarrow> string) \<Rightarrow> bucket \<Rightarrow> string" where
  "extract_text fmt b =
     go_join (concat (map (\<lambda>blk.
        if cb_text blk \<noteq> [] then [cb_text blk]
        else if tool_output blk \<noteq> [] then [tool_output blk]
        else if tool_name blk \<noteq> [] then [format_tool_use fmt blk]
        else []) (b_content b))) [LF]"

subsection \<open>The chain hash\<close>

record hash_input =
  hi_parent :: string
  hi_type :: string
  hi_role :: string
  hi_content :: "content_block list"

definition hash_input_of :: "string option \<Rightarrow> bucket \<Rightarrow> hash_input" where
  "hash_input_of parent b =
     \<lparr>hi_parent = (case parent of None \<Rightarrow> [] | Some p \<Rightarrow> p),
      hi_type = b_type b, hi_role = b_role b, hi_content = project_content (b_content b)\<rparr>"

definition compute_hash :: "(hash_input \<Rightarrow> string) \<Rightarrow> node \<Rightarrow> string" where
  "compute_hash H n = H (hash_input_of (n_parent_hash n) (n_bucket n))"

definition new_node :: "(hash_input \<Rightarrow> string) \<Rightarrow> bucket \<Rightarrow> node option \<Rightarrow> node_options \<Rightarrow> node" where
  "new_node H b parent opts =
     (let n = \<lparr>n_hash = [], n_parent_hash = map_option n_hash parent, n_bucket = b,
               n_stop_reason = no_stop_reason opts, n_usage = no_usage opts,
               n_project = no_project opts, n_kind = [], n_thread_id = [],
               n_parent_tool_use_id = [], n_request = no_request opts, n_created_at = 0\<rparr>
      in n\<lparr>n_hash := compute_hash H n\<rparr>)"

definition clone_retained :: "node \<Rightarrow> request_params option \<Rightarrow> node" where
  "clone_retained n req = n\<lparr>n_bucket := bucket_clone (n_bucket n), n_request := req\<rparr>"

lemma bucket_clone_id [simp]: "bucket_clone b = b"
  by (simp add: bucket_clone_def map_idI)

lemma n_hash_new_node: "n_hash (new_node H b p opts) = H (hash_input_of (map_option n_hash p) b)"
  by (simp add: new_node_def compute_hash_def)

lemma new_node_simps [simp]:
  "n_parent_hash (new_node H b p opts) = map_option n_hash p"
  "n_bucket (new_node H b p opts) = b"
  "n_kind (new_node H b p opts) = []"
  "n_parent_tool_use_id (new_node H b p opts) = []"
  by (simp_all add: new_node_def)

text \<open>A node is well hashed when its hash is the one of its parent hash and content.\<close>

definition well_hashed :: "(hash_input \<Rightarrow> string) \<Rightarrow> node \<Rightarrow> bool" where
  "well_hashed H n \<longleftrightarrow> n_hash n = compute_hash H n"

lemma well_hashed_new_node [simp]: "well_hashed H (new_node H b p opts)"
  by (simp add: well_hashed_def compute_hash_def n_hash_new_node)

lemma well_hashed_clone_retained [simp]: "well_hashed H (clone_retained n req) = well_hashed H n"
  by (simp add: well_hashed_def compute_hash_def clone_retained_def)

lemma well_hashed_metadata [simp]:
  "well_hashed H (n\<lparr>n_kind := k\<rparr>) = well_hashed H n"
  "well_hashed H (n\<lparr>n_thread_id := t\<rparr>) = well_hashed H n"
  "well_hashed H (n\<lparr>n_created_at := c\<rparr>) = well_hashed H n"
  "well_hashed H (n\<lparr>n_parent_tool_use_id := u\<rparr>) = well_hashed H n"
  by (simp_all add: well_hashed_def compute_hash_def)

subsection \<open>Chains\<close>

text \<open>Nodes in which each one's parent hash is the hash of the one before, the first a root.\<close>

fun linked_from :: "string option \<Rightarrow> node list \<Rightarrow> bool" where
  "linked_from p [] \<longleftrightarrow> True"
| "linked_from p (n # ns) \<longleftrightarrow> n_parent_hash n = p \<and> linked_from (Some (n_hash n)) ns"

definition linked_chain :: "(hash_input \<Rightarrow> string) \<Rightarrow> node list \<Rightarrow> bool" where
  "linked_chain H ns \<longleftrightarrow> linked_from None ns \<and> (\<forall>n\<in>set ns. well_hashed H n)"

definition node_input :: "node \<Rightarrow> hash_input" where
  "node_input n = hash_input_of (n_parent_hash n) (n_bucket n)"

lemma linked_from_append:
  "linked_from p (xs @ ys)
   \<longleftrightarrow> linked_from p xs \<and> linked_from (if xs = [] then p else Some (n_hash (last xs))) ys"
  by (induction xs arbitrary: p) auto

lemma linked_chain_snoc:
  "linked_chain H (xs @ [n]) \<longleftrightarrow> linked_chain H xs \<and> well_hashed H n
     \<and> n_parent_hash n = (if xs = [] then None else Some (n_hash (last xs)))"
  by (auto simp: linked_chain_def linked_from_append)

lemma linked_chains_agree:
  assumes "linked_chain H xs" "linked_chain H ys" "xs \<noteq> []" "ys \<noteq> []"
    and "n_hash (last xs) = n_hash (last ys)"
    and inj: "inj_on H (node_input ` (set xs \<union> set ys))" and ne: "\<forall>x. H x \<noteq> []"
  shows "map node_input xs = map node_input ys"
  using assms(1-6)
proof (induction xs arbitrary: ys rule: rev_induct)
  case Nil
  then show ?case by simp
next
  case (snoc x xs)
  obtain ys' y where ys: "ys = ys' @ [y]" using snoc.prems(4) by (metis rev_exhaust)
  have wx: "n_hash x = H (node_input x)" "n_hash y = H (node_input y)"
    using snoc.prems(1,2) by (auto simp: ys linked_chain_snoc well_hashed_def compute_hash_def node_input_def)
  have "H (node_input x) = H (node_input y)" using wx snoc.prems(5) by (simp add: ys)
  with snoc.prems(6) have same: "node_input x = node_input y"
    by (rule inj_onD) (simp_all add: ys)
  have px: "n_parent_hash x = (if xs = [] then None else Some (n_hash (last xs)))"
    and py: "n_parent_hash y = (if ys' = [] then None else Some (n_hash (last ys')))"
    using snoc.prems(1,2) by (auto simp: ys linked_chain_snoc)
  have nonempty: "n_hash (last zs) \<noteq> []" if "linked_chain H zs" "zs \<noteq> []" for zs
    using that ne by (auto simp: linked_chain_def well_hashed_def compute_hash_def)
  have cx: "linked_chain H xs" and cy: "linked_chain H ys'"
    using snoc.prems(1,2) by (auto simp: ys linked_chain_snoc)
  have par: "(case n_parent_hash x of None \<Rightarrow> [] | Some p \<Rightarrow> p)
      = (case n_parent_hash y of None \<Rightarrow> [] | Some p \<Rightarrow> p)"
    using arg_cong [OF same, of hi_parent] by (simp add: node_input_def hash_input_of_def)
  show ?case
  proof (cases "xs = []")
    case True
    with par px py nonempty [OF cy] have "ys' = []" by (auto split: if_splits)
    with True same ys show ?thesis by simp
  next
    case False
    with par px py nonempty [OF cx] have "ys' \<noteq> []" "n_hash (last xs) = n_hash (last ys')"
      by (auto split: if_splits)
    moreover have "inj_on H (node_input ` (set xs \<union> set ys'))"
      using snoc.prems(6) by (rule inj_on_subset) (auto simp: ys)
    ultimately have "map node_input xs = map node_input ys'"
      using snoc.IH [OF cx cy False] by blast
    with same ys show ?thesis by simp
  qed
qed

subsection \<open>Properties\<close>

text \<open>Content addressing: two nodes whose buckets agree in type, role and projected content
  under parents with the same hash get the same hash, whatever their model, provider,
  agent name, stop reason, usage, project and request parameters.\<close>

theorem hash_ignores_metadata:
  assumes "b_type b = b_type b'" "b_role b = b_role b'"
    "project_content (b_content b) = project_content (b_content b')"
    "map_option n_hash p = map_option n_hash p'"
  shows "n_hash (new_node H b p opts) = n_hash (new_node H b' p' opts')"
  using assms by (simp add: n_hash_new_node hash_input_of_def)

definition sample_bucket :: "string \<Rightarrow> bucket" where
  "sample_bucket model = \<lparr>b_type = ''message'', b_role = ''user'',
     b_content = [empty_block\<lparr>cb_type := ''text'', cb_text := ''hi''\<rparr>],
     b_model = model, b_provider = ''anthropic'', b_agent_name = ''claude''\<rparr>"

definition no_options :: node_options where
  "no_options = \<lparr>no_stop_reason = [], no_usage = None, no_project = [], no_request = None\<rparr>"

theorem hash_ignores_metadata_witness:
  "n_hash (new_node hi_role (sample_bucket ''opus'') None no_options)
   = n_hash (new_node hi_role (sample_bucket ''haiku'') None (no_options\<lparr>no_project := ''p''\<rparr>))"
  by (rule hash_ignores_metadata) (simp_all add: sample_bucket_def)


definition toy_digest :: "hash_input \<Rightarrow> string" where
  "toy_digest h = ''h'' @ hi_role h @ hi_parent h"

definition sample_root :: node where
  "sample_root = new_node toy_digest (sample_bucket ''opus'') None no_options"

definition sample_leaf :: node where
  "sample_leaf = new_node toy_digest (sample_bucket ''opus''\<lparr>b_role := ''assistant''\<rparr>) (Some sample_root) no_options"


end
