(* ===== verification/Classify.thy ===== *)
theory Classify
  imports LlmTypes
begin

text \<open>
  \<open>pkg/derive/classify.go\<close>, \<open>verdict.go\<close> and \<open>fold.go\<close>: the kind of a captured call
  from its request and response, injected-context messages, the security monitor's verdict
  and the folded session title.

  \<open>json.Unmarshal\<close> into \<open>any\<close> and into the title struct are the parameters \<open>dec\<close> and
  \<open>dec_title\<close>, \<open>None\<close> for an error.
\<close>

subsection \<open>Kinds\<close>

definition kind_main :: string where "kind_main = ''main''"
definition kind_unknown :: string where "kind_unknown = ''unknown''"
definition kind_check_stage1 :: string where "kind_check_stage1 = ''offshoot:permission-check:stage1''"
definition kind_check_stage2 :: string where "kind_check_stage2 = ''offshoot:permission-check:stage2''"
definition kind_title_gen :: string where "kind_title_gen = ''offshoot:title-gen''"
definition kind_plan_name_gen :: string where "kind_plan_name_gen = ''offshoot:plan-name-gen''"
definition kind_suggestion :: string where "kind_suggestion = ''offshoot:suggestion''"
definition kind_web_summary :: string where "kind_web_summary = ''offshoot:web-summary''"
definition kind_probe :: string where "kind_probe = ''offshoot:probe''"
definition kind_compaction :: string where "kind_compaction = ''offshoot:compaction''"
definition kind_injected_mcp :: string where "kind_injected_mcp = ''injected:mcp-instructions''"
definition kind_injected_skills :: string where "kind_injected_skills = ''injected:skills-list''"
definition kind_injected_mode :: string where "kind_injected_mode = ''injected:mode-banner''"
definition kind_injected_claude_md :: string where "kind_injected_claude_md = ''injected:claude-md''"
definition kind_injected_system_insert :: string where
  "kind_injected_system_insert = ''injected:system-insert''"

lemmas kind_defs =
  kind_main_def kind_unknown_def kind_check_stage1_def kind_check_stage2_def kind_title_gen_def
  kind_plan_name_gen_def kind_suggestion_def kind_web_summary_def kind_probe_def
  kind_compaction_def kind_injected_mcp_def kind_injected_skills_def kind_injected_mode_def
  kind_injected_claude_md_def kind_injected_system_insert_def

text \<open>\<open>strings.HasPrefix(kind, "injected:")\<close>, the test of the emit stage.\<close>

definition is_injected :: "string \<Rightarrow> bool" where
  "is_injected k \<longleftrightarrow> has_prefix k ''injected:''"

subsection \<open>Texts of messages\<close>

definition message_text :: "message \<Rightarrow> string" where
  "message_text m = concat (map (\<lambda>b. if cb_text b \<noteq> [] then cb_text b @ [LF] else []) (msg_content m))"

definition first_text :: "chat_request option \<Rightarrow> string" where
  "first_text r = (case r of
      None \<Rightarrow> []
    | Some q \<Rightarrow> (case rq_messages q of [] \<Rightarrow> [] | m # _ \<Rightarrow> message_text m))"

definition last_text :: "chat_request option \<Rightarrow> string" where
  "last_text r = (case r of
      None \<Rightarrow> []
    | Some q \<Rightarrow> if rq_messages q = [] then [] else message_text (last (rq_messages q)))"

definition response_text :: "chat_response option \<Rightarrow> string" where
  "response_text r = (case r of None \<Rightarrow> [] | Some p \<Rightarrow> message_text (rs_message p))"

subsection \<open>Classifying a call\<close>

definition compaction_summary_header :: string where
  "compaction_summary_header = ''Primary Request and Intent''"

definition compaction_summary_sections :: "string list" where
  "compaction_summary_sections =
     [''Key Technical Concepts'', ''Files and Code Sections'', ''Pending Tasks'', ''Current Work'',
      ''Errors and fixes'', ''Problem Solving'', ''All user messages'', ''Optional Next Step'']"

definition is_compaction_summary :: "string \<Rightarrow> bool" where
  "is_compaction_summary resp \<longleftrightarrow>
     go_contains resp compaction_summary_header
     \<and> (\<exists>h\<in>set compaction_summary_sections. go_contains resp h)"

definition responses_tool_routing_enabled :: "(string \<Rightarrow> jval option) \<Rightarrow> chat_request \<Rightarrow> bool" where
  "responses_tool_routing_enabled dec q =
     (if map_of (rq_extra q) ''endpoint'' \<noteq> Some (JStr ''responses'') then False
      else case map_of (rq_extra q) ''tool_choice'' of
        Some (JStr raw) \<Rightarrow>
          (case dec raw of
             Some (JStr c) \<Rightarrow> c \<noteq> [] \<and> c \<noteq> ''none''
           | Some (JObj m) \<Rightarrow> m \<noteq> []
           | _ \<Rightarrow> False)
      | _ \<Rightarrow> False)"

definition is_streaming :: "chat_request \<Rightarrow> bool" where
  "is_streaming q \<longleftrightarrow> rq_stream q = Some True"

definition is_security_monitor :: "chat_request \<Rightarrow> bool" where
  "is_security_monitor q \<longleftrightarrow> go_contains (go_to_lower (rq_system q)) ''you are a security monitor''"

definition classify_call ::
  "(string \<Rightarrow> jval option) \<Rightarrow> chat_request option \<Rightarrow> chat_response option \<Rightarrow> string"
where
  "classify_call dec req resp = (case req of
     None \<Rightarrow> kind_unknown
   | Some q \<Rightarrow>
      (let system = go_to_lower (rq_system q);
           tool_count = length (rq_tools q);
           r = go_trim_space (response_text resp);
           first = go_trim_space (first_text req);
           lt = go_to_lower (last_text req)
       in if is_security_monitor q then
            (if (case rq_max_tokens q of Some n \<Rightarrow> n \<le> 64 | None \<Rightarrow> False) then kind_check_stage1
             else if go_contains lt ''err on the side of blocking'' then kind_check_stage1
             else kind_check_stage2)
          else if rq_max_tokens q = Some 1 \<and> tool_count = 0 then kind_probe
          else if has_prefix (go_trim_space (last_text req)) ''[SUGGESTION MODE'' then kind_suggestion
          else if tool_count = 0 \<and> go_contains system ''{\"title\"'' then kind_title_gen
          else if tool_count = 0
                  \<and> (go_contains system ''<conversation>''
                     \<or> has_prefix (go_trim_space (first_text req)) ''<conversation>'')
            then kind_plan_name_gen
          else if has_prefix r ''{\"title\"'' then kind_title_gen
          else if has_prefix r ''{\"name\"'' then kind_plan_name_gen
          else if has_prefix first ''Web page content:'' \<or> has_prefix first ''Perform a web search''
            then kind_web_summary
          else if go_contains lt ''summary of the conversation so far''
                  \<or> go_contains lt ''context checkpoint compaction''
                  \<or> go_contains lt ''create a handoff summary for another llm''
                  \<or> is_compaction_summary (response_text resp)
            then kind_compaction
          else if is_streaming q \<and> 0 < tool_count then kind_main
          else if is_streaming q \<and> responses_tool_routing_enabled dec q then kind_main
          else kind_unknown))"

subsection \<open>Injected context\<close>

text \<open>The text of a message that holds nothing but text, the loop with its early return.\<close>

fun plain_text :: "content_block list \<Rightarrow> string option" where
  "plain_text [] = Some []"
| "plain_text (b # bs) =
     (if cb_type b = ''text'' \<or> cb_type b = [] then map_option ((@) (cb_text b)) (plain_text bs) else None)"

definition classify_injected :: "message \<Rightarrow> string" where
  "classify_injected m =
     (if msg_role m \<noteq> ''user'' \<and> msg_role m \<noteq> ''system'' then []
      else case plain_text (msg_content m) of
        None \<Rightarrow> []
      | Some txt \<Rightarrow>
         (let t = go_trim_space txt
          in if has_prefix t ''# MCP Server Instructions'' then kind_injected_mcp
             else if has_prefix t ''The following skills are available'' then kind_injected_skills
             else if has_prefix t ''Plan mode is active'' \<or> has_prefix t ''Exited Plan Mode''
                  \<or> has_prefix t ''## Exited Plan Mode'' \<or> has_prefix t ''## Exit Plan Mode''
                  \<or> has_prefix t ''## Plan Mode'' \<or> has_prefix t ''[SYSTEM NOTIFICATION''
               then kind_injected_mode
             else if has_prefix t ''<user_claude_md>'' then kind_injected_claude_md
             else []))"

subsection \<open>Verdicts\<close>

record verdict =
  v_disposition :: string
  v_stage :: int
  v_reasoned :: bool

text \<open>
  \<open>(?i)p\<close> at the head of a text: the rest after a case-insensitive match. Unicode folding
  adds the long s (bytes C5 BF) to \<open>s\<close> and the Kelvin sign (E2 84 AA) to \<open>k\<close>.
\<close>

fun fold_prefix :: "string \<Rightarrow> string \<Rightarrow> string option" where
  "fold_prefix [] t = Some t"
| "fold_prefix (p # ps) t =
     (if t \<noteq> [] \<and> lower_char (hd t) = p then fold_prefix ps (tl t)
      else if p = CHR ''s'' \<and> has_prefix t [CHR 0xC5, CHR 0xBF] then fold_prefix ps (drop 2 t)
      else if p = CHR ''k'' \<and> has_prefix t [CHR 0xE2, CHR 0x84, CHR 0xAA] then fold_prefix ps (drop 3 t)
      else None)"

definition is_regex_space :: "char \<Rightarrow> bool" where
  "is_regex_space c \<longleftrightarrow> c \<in> {CHR 0x09, CHR 0x0A, CHR 0x0C, CHR 0x0D, CHR 0x20}"

text \<open>The first match of \<open><block>\s*(yes|no)\<close>: \<open>Some True\<close> for yes, \<open>Some False\<close> for no.\<close>

fun find_block_verdict :: "string \<Rightarrow> bool option" where
  "find_block_verdict [] = None"
| "find_block_verdict (c # cs) =
     (case fold_prefix ''<block>'' (c # cs) of
        None \<Rightarrow> find_block_verdict cs
      | Some t \<Rightarrow>
         (let u = dropWhile is_regex_space t
          in if fold_prefix ''yes'' u \<noteq> None then Some True
             else if fold_prefix ''no'' u \<noteq> None then Some False
             else find_block_verdict cs))"

definition classify_verdict :: "string \<Rightarrow> content_block list \<Rightarrow> verdict option" where
  "classify_verdict call_kind blocks =
     (if \<not> has_prefix call_kind ''offshoot:permission-check'' then None
      else let txt = concat (map cb_text blocks)
        in case find_block_verdict txt of
             None \<Rightarrow> None
           | Some yes \<Rightarrow> Some \<lparr>v_disposition = (if yes then ''BLOCK'' else ''ALLOW''),
               v_stage = (if has_suffix call_kind ''stage2'' then 2 else 1),
               v_reasoned = go_contains txt ''<thinking>''\<rparr>)"

subsection \<open>Titles and cuts on rune boundaries\<close>

text \<open>The loop \<open>for cut > 0 && !utf8.RuneStart(s[cut])\<close>.\<close>

fun back_to_rune :: "string \<Rightarrow> nat \<Rightarrow> nat" where
  "back_to_rune s 0 = 0"
| "back_to_rune s (Suc n) = (if rune_start (s ! Suc n) then Suc n else back_to_rune s n)"

definition cut_on_rune :: "string \<Rightarrow> nat \<Rightarrow> string" where
  "cut_on_rune s mx = (if length s \<le> mx then s else take (back_to_rune s mx) s)"

definition max_folded_title_len :: nat where
  "max_folded_title_len = 255"

definition session_title :: "(string \<Rightarrow> string option) \<Rightarrow> string \<Rightarrow> chat_response option \<Rightarrow> string" where
  "session_title dec_title kind resp =
     (if kind \<noteq> kind_title_gen \<or> resp = None then []
      else let txt = go_trim_space (response_text resp)
        in case (go_index txt ''{'', go_last_index txt ''}'') of
             (Some start, Some stop) \<Rightarrow>
               if stop \<le> start then []
               else (case dec_title (take (Suc stop - start) (drop start txt)) of
                       None \<Rightarrow> []
                     | Some t \<Rightarrow> cut_on_rune (go_trim_space t) max_folded_title_len)
           | _ \<Rightarrow> [])"

text \<open>Facts about kinds for the components that switch on them.\<close>

lemma classify_injected_prefix: "classify_injected m = [] \<or> is_injected (classify_injected m)"
  by (auto simp: classify_injected_def Let_def is_injected_def kind_defs split: option.split)

lemma classify_call_range:
  "classify_call dec req resp \<in> {kind_main, kind_unknown, kind_check_stage1, kind_check_stage2,
     kind_title_gen, kind_plan_name_gen, kind_suggestion, kind_web_summary, kind_probe, kind_compaction}"
  by (auto simp: classify_call_def Let_def split: option.split)

lemma classify_call_not_injected: "\<not> is_injected (classify_call dec req resp)"
  using classify_call_range [of dec req resp] by (auto simp: is_injected_def kind_defs)

lemma back_to_rune_le: "back_to_rune s n \<le> n"
  by (induction n) auto

lemma back_to_rune_start: "back_to_rune s n = 0 \<or> rune_start (s ! back_to_rune s n)"
  by (induction n) auto

lemma back_to_rune_skips: "back_to_rune s n < j \<Longrightarrow> j \<le> n \<Longrightarrow> \<not> rune_start (s ! j)"
  by (induction n) (auto simp: le_Suc_eq split: if_splits)

subsection \<open>Properties\<close>

text \<open>A call is classified as the conversation spine only when it streams and either offers
  tools or declares tool routing on the responses endpoint, and is neither a security
  check nor a compaction by its instruction or its summary.\<close>

theorem classify_main_only_if:
  assumes "classify_call dec (Some q) resp = kind_main"
  shows "is_streaming q \<and> (0 < length (rq_tools q) \<or> responses_tool_routing_enabled dec q)
         \<and> \<not> is_security_monitor q \<and> \<not> is_compaction_summary (response_text resp)"
  using assms unfolding classify_call_def length_greater_0_conv
  by (simp add: Let_def kind_defs split: if_splits)

definition sample_main :: chat_request where
  "sample_main = \<lparr>rq_model = ''opus'', rq_messages = [new_text_message ''user'' ''fix the bug''],
     rq_stream = Some True, rq_system = ''You are an agent'', rq_max_tokens = Some 32000,
     rq_temperature = None, rq_tools = [''{}''], rq_extra = []\<rparr>"

theorem classify_main_only_if_witness:
  "is_streaming sample_main \<and> (0 < length (rq_tools sample_main) \<or> responses_tool_routing_enabled (\<lambda>_. None) sample_main)
   \<and> \<not> is_security_monitor sample_main \<and> \<not> is_compaction_summary (response_text None)"
proof (rule classify_main_only_if)
  show "classify_call (\<lambda>_. None) (Some sample_main) None = kind_main" by code_simp
qed

text \<open>Security checks come first: a call with the monitor's system prompt is classified as one
  of the two check stages, and as stage 1 exactly when it has at most 64 tokens or
  carries the blocking instruction, whatever its tools, text and response.\<close>

theorem classify_security_check:
  assumes "is_security_monitor q"
  shows "classify_call dec (Some q) resp =
    (if (\<exists>n. rq_max_tokens q = Some n \<and> n \<le> 64)
        \<or> go_contains (go_to_lower (last_text (Some q))) ''err on the side of blocking''
     then kind_check_stage1 else kind_check_stage2)"
  using assms by (auto simp: classify_call_def Let_def split: option.splits)

theorem classify_security_check_witness:
  "classify_call (\<lambda>_. None) (Some (sample_main\<lparr>rq_system := ''You are a Security monitor.''\<rparr>)) None =
    (if (\<exists>n. rq_max_tokens (sample_main\<lparr>rq_system := ''You are a Security monitor.''\<rparr>) = Some n \<and> n \<le> 64)
        \<or> go_contains (go_to_lower (last_text (Some (sample_main\<lparr>rq_system := ''You are a Security monitor.''\<rparr>))))
            ''err on the side of blocking''
     then kind_check_stage1 else kind_check_stage2)"
  by (rule classify_security_check) code_simp

text \<open>The classifier is total on its taxonomy: every call gets one of its ten kinds and never an
  injected one, while the kind of an injected message, when there is one, always carries
  the prefix by which the emit stage recognises it.\<close>

theorem classify_kinds_disjoint:
  "classify_call dec req resp \<in> {kind_main, kind_unknown, kind_check_stage1, kind_check_stage2,
      kind_title_gen, kind_plan_name_gen, kind_suggestion, kind_web_summary, kind_probe, kind_compaction}
   \<and> \<not> is_injected (classify_call dec req resp)
   \<and> (classify_injected m = [] \<or> is_injected (classify_injected m))"
  using classify_call_range [of dec req resp] classify_call_not_injected [of dec req resp]
    classify_injected_prefix [of m] by blast

text \<open>A cut preview or title is a prefix of the text of at most the limit's length, and what was
  cut off begins at a rune boundary, so that no multi-byte rune is split; at most the
  continuation bytes before the limit are given up.\<close>

theorem cut_on_rune_boundary:
  "\<exists>rest. s = cut_on_rune s mx @ rest \<and> length (cut_on_rune s mx) \<le> mx
     \<and> (rest = [] \<or> cut_on_rune s mx = [] \<or> rune_start (hd rest))
     \<and> (\<forall>j. length (cut_on_rune s mx) < j \<and> j \<le> mx \<and> mx < length s \<longrightarrow> \<not> rune_start (s ! j))"
proof (cases "length s \<le> mx")
  case True
  then show ?thesis by (simp add: cut_on_rune_def)
next
  case False
  let ?k = "back_to_rune s mx"
  have k: "?k \<le> mx" "?k < length s" using back_to_rune_le [of s mx] False by simp_all
  have c: "cut_on_rune s mx = take ?k s" using False by (simp add: cut_on_rune_def)
  have "hd (drop ?k s) = s ! ?k" using k(2) by (simp add: hd_drop_conv_nth)
  moreover have "take ?k s = [] \<or> rune_start (s ! ?k)" using back_to_rune_start [of s mx] by auto
  ultimately have "s = take ?k s @ drop ?k s \<and> length (take ?k s) \<le> mx
     \<and> (drop ?k s = [] \<or> take ?k s = [] \<or> rune_start (hd (drop ?k s)))
     \<and> (\<forall>j. length (take ?k s) < j \<and> j \<le> mx \<and> mx < length s \<longrightarrow> \<not> rune_start (s ! j))"
    using k back_to_rune_skips by auto
  then show ?thesis unfolding c by blast
qed

theorem cut_on_rune_boundary_witness:
  "\<exists>rest. [CHR ''a'', CHR 0xC3, CHR 0xA9] = cut_on_rune [CHR ''a'', CHR 0xC3, CHR 0xA9] 2 @ rest
     \<and> length (cut_on_rune [CHR ''a'', CHR 0xC3, CHR 0xA9] 2) \<le> 2
     \<and> (rest = [] \<or> cut_on_rune [CHR ''a'', CHR 0xC3, CHR 0xA9] 2 = [] \<or> rune_start (hd rest))
     \<and> (\<forall>j. length (cut_on_rune [CHR ''a'', CHR 0xC3, CHR 0xA9] 2) < j \<and> j \<le> 2
            \<and> 2 < length [CHR ''a'', CHR 0xC3, CHR 0xA9] \<longrightarrow> \<not> rune_start ([CHR ''a'', CHR 0xC3, CHR 0xA9] ! j))"
  by (rule cut_on_rune_boundary)

end
