(* ===== verification/TurnChain.thy ===== *)
theory TurnChain
  imports MerkleNode Classify
begin

text \<open>
  \<open>pkg/derive/chain.go\<close>, the chain of nodes of one captured call, with the normalisation
  of OpenAI custom-tool items from \<open>pkg/llm/provider/openai/responses.go\<close> that it
  applies to responses.

  The code outside the model is gathered in the record \<open>externs\<close>: the digest of
  \<open>MerkleNode\<close>, the JSON decoders (\<open>None\<close> for a decode error), the request parsers of
  the provider packages, \<open>time.Parse\<close>, and the rounding of float arithmetic.
\<close>

record responses_item =
  ri_call_id :: string
  ri_name :: string
  ri_input :: string
  ri_output :: string

record raw_meta_fields =
  rm_captured_at :: string
  rm_ts_request :: string
  rm_elapsed_seconds :: rat
  rm_thread_id :: string

definition empty_meta :: raw_meta_fields where
  "empty_meta = \<lparr>rm_captured_at = [], rm_ts_request = [], rm_elapsed_seconds = 0, rm_thread_id = []\<rparr>"

record codex_envelope =
  ce_source :: string \<comment> \<open>\<open>harness_metadata.source\<close>, raw\<close>

record codex_spawn_source =
  sp_agent_path :: string
  sp_agent_nickname :: string

record externs =
  ext_hash :: "hash_input \<Rightarrow> string"
  ext_json :: "string \<Rightarrow> jval option"
  ext_title :: "string \<Rightarrow> string option"
  ext_item :: "string \<Rightarrow> responses_item option"
  ext_text :: "string \<Rightarrow> string option"
  ext_parts :: "string \<Rightarrow> string list option"
  ext_parse_request :: "string \<Rightarrow> string \<Rightarrow> string + chat_request"
  ext_response :: "string \<Rightarrow> string + chat_response"
  ext_meta :: "string \<Rightarrow> raw_meta_fields \<times> bool" \<comment> \<open>what was decoded, and no error\<close>
  ext_time :: "string \<Rightarrow> gotime option"
  ext_round :: "rat \<Rightarrow> rat"
  ext_envelope :: "string \<Rightarrow> codex_envelope option"
  ext_spawn :: "string \<Rightarrow> codex_spawn_source option"

subsection \<open>Custom-tool items\<close>

definition custom_tool_call_block :: "responses_item \<Rightarrow> content_block" where
  "custom_tool_call_block item =
     empty_block\<lparr>cb_type := ''tool_use'', tool_use_id := ri_call_id item, tool_name := ri_name item,
       tool_input := (if ri_input item \<noteq> [] then [(''input'', JStr (ri_input item))] else [])\<rparr>"

definition custom_tool_output_text :: "externs \<Rightarrow> string \<Rightarrow> string" where
  "custom_tool_output_text ext raw =
     (if raw = [] then []
      else case ext_text ext raw of
        Some s \<Rightarrow> s
      | None \<Rightarrow> (case ext_parts ext raw of Some ps \<Rightarrow> concat ps | None \<Rightarrow> raw))"

definition custom_tool_call_output_block :: "externs \<Rightarrow> responses_item \<Rightarrow> content_block" where
  "custom_tool_call_output_block ext item =
     empty_block\<lparr>cb_type := ''tool_result'', tool_result_id := ri_call_id item,
       tool_output := custom_tool_output_text ext (ri_output item)\<rparr>"

definition normalize_responses_block :: "externs \<Rightarrow> content_block \<Rightarrow> content_block" where
  "normalize_responses_block ext b =
     (if (cb_type b \<noteq> ''custom_tool_call'' \<and> cb_type b \<noteq> ''custom_tool_call_output'')
         \<or> raw_content b = [] then b
      else case ext_item ext (raw_content b) of
        None \<Rightarrow> b
      | Some item \<Rightarrow>
          if ri_call_id item = [] then b
          else if cb_type b = ''custom_tool_call'' then custom_tool_call_block item
          else custom_tool_call_output_block ext item)"

definition normalize_responses_content :: "externs \<Rightarrow> content_block list \<Rightarrow> content_block list" where
  "normalize_responses_content ext blocks = map (normalize_responses_block ext) blocks"

subsection \<open>The chain of a call\<close>

record call_context =
  cc_provider :: string
  cc_agent_name :: string
  cc_thread_id :: string
  cc_project :: string

record chain_options =
  co_kind :: string
  co_classify_injected :: bool
  co_request :: "request_params option"
  co_message_kinds :: "string list"
  co_captured_at :: "gotime list"

definition message_bucket :: "call_context \<Rightarrow> string \<Rightarrow> message \<Rightarrow> bucket" where
  "message_bucket call model m =
     \<lparr>b_type = ''message'', b_role = msg_role m, b_content = msg_content m, b_model = model,
      b_provider = cc_provider call, b_agent_name = cc_agent_name call\<rparr>"

text \<open>The node of message \<open>i\<close> and whether it is a side branch.\<close>

definition message_node ::
  "externs \<Rightarrow> call_context \<Rightarrow> string \<Rightarrow> chain_options \<Rightarrow> nat \<Rightarrow> node option \<Rightarrow> message \<Rightarrow> node \<times> bool"
where
  "message_node ext call model opts i parent m =
     (let node0 = new_node (ext_hash ext) (message_bucket call model m) parent
            \<lparr>no_stop_reason = [], no_usage = None, no_project = cc_project call, no_request = co_request opts\<rparr>;
          node1 = node0\<lparr>n_thread_id := cc_thread_id call\<rparr>;
          node2 = (if i < length (co_captured_at opts)
                   then node1\<lparr>n_created_at := co_captured_at opts ! i\<rparr> else node1);
          injected = (if co_classify_injected opts then classify_injected m else [])
      in if injected \<noteq> [] then (node2\<lparr>n_kind := injected\<rparr>, True)
         else (node2\<lparr>n_kind := (if i < length (co_message_kinds opts) \<and> co_message_kinds opts ! i \<noteq> []
                               then co_message_kinds opts ! i else co_kind opts)\<rparr>, False))"

fun chain_messages ::
  "externs \<Rightarrow> call_context \<Rightarrow> string \<Rightarrow> chain_options \<Rightarrow> nat \<Rightarrow> node option \<Rightarrow> message list
     \<Rightarrow> node list \<times> node option"
where
  "chain_messages ext call model opts i parent [] = ([], parent)"
| "chain_messages ext call model opts i parent (m # ms) =
     (let (node, side) = message_node ext call model opts i parent m;
          (rest, final) = chain_messages ext call model opts (Suc i)
                            (if side then parent else Some node) ms
      in (node # rest, final))"

definition turn_chain ::
  "externs \<Rightarrow> call_context \<Rightarrow> chat_request option \<Rightarrow> chat_response option \<Rightarrow> chain_options \<Rightarrow> node list"
where
  "turn_chain ext call req resp opts =
     (case (req, resp) of
        (Some q, Some p) \<Rightarrow>
          (let (nodes, parent) = chain_messages ext call (rq_model q) opts 0 None (rq_messages q);
               content0 = msg_content (rs_message p);
               content = (if cc_provider call = ''openai'' then normalize_responses_content ext content0
                          else content0);
               b = \<lparr>b_type = ''message'', b_role = msg_role (rs_message p), b_content = content,
                    b_model = rs_model p, b_provider = cc_provider call,
                    b_agent_name = cc_agent_name call\<rparr>;
               node0 = new_node (ext_hash ext) b parent
                 \<lparr>no_stop_reason = rs_stop_reason p, no_usage = rs_usage p,
                  no_project = cc_project call, no_request = co_request opts\<rparr>;
               node1 = node0\<lparr>n_kind := co_kind opts, n_thread_id := cc_thread_id call\<rparr>;
               node2 = (if length (rq_messages q) < length (co_captured_at opts)
                        then node1\<lparr>n_created_at := co_captured_at opts ! length (rq_messages q)\<rparr>
                        else node1)
           in nodes @ [node2])
      | _ \<Rightarrow> [])"

definition wire_opts :: "externs \<Rightarrow> chat_request option \<Rightarrow> chat_response option \<Rightarrow> chain_options" where
  "wire_opts ext req resp =
     \<lparr>co_kind = classify_call (ext_json ext) req resp, co_classify_injected = True,
      co_request = req_params req, co_message_kinds = [], co_captured_at = []\<rparr>"

text \<open>\<open>TurnChain\<close>.\<close>

definition turn_chain_wire ::
  "externs \<Rightarrow> call_context \<Rightarrow> chat_request option \<Rightarrow> chat_response option \<Rightarrow> node list"
where
  "turn_chain_wire ext call req resp = turn_chain ext call req resp (wire_opts ext req resp)"

subsection \<open>Shape of a chain\<close>

text \<open>The spine: the nodes that are not side branches, in order.\<close>

definition side_node :: "node \<Rightarrow> bool" where
  "side_node n \<longleftrightarrow> is_injected (n_kind n)"

definition wire_options :: "chain_options \<Rightarrow> bool" where
  "wire_options opts \<longleftrightarrow> co_classify_injected opts \<and> co_message_kinds opts = []
     \<and> co_captured_at opts = [] \<and> \<not> is_injected (co_kind opts)"

lemma message_node_simps:
  "n_hash (fst (message_node ext call model opts i parent m))
     = ext_hash ext (hash_input_of (map_option n_hash parent) (message_bucket call model m))"
  "n_parent_hash (fst (message_node ext call model opts i parent m)) = map_option n_hash parent"
  "n_bucket (fst (message_node ext call model opts i parent m)) = message_bucket call model m"
  "well_hashed (ext_hash ext) (fst (message_node ext call model opts i parent m))"
  by (auto simp: message_node_def Let_def n_hash_new_node)

lemma snd_message_node:
  "snd (message_node ext call model opts i parent m)
   \<longleftrightarrow> co_classify_injected opts \<and> classify_injected m \<noteq> []"
  by (simp add: message_node_def Let_def)

lemma side_message_node:
  assumes "wire_options opts"
  shows "side_node (fst (message_node ext call model opts i parent m)) \<longleftrightarrow> classify_injected m \<noteq> []"
  using assms classify_injected_prefix [of m]
  by (auto simp: message_node_def Let_def side_node_def wire_options_def)

abbreviation spine :: "node list \<Rightarrow> node list" where
  "spine \<equiv> filter (\<lambda>n. \<not> side_node n)"

abbreviation conversation :: "message list \<Rightarrow> message list" where
  "conversation \<equiv> filter (\<lambda>m. classify_injected m = [])"

lemma chain_messages_length: "length (fst (chain_messages ext call model opts i parent ms)) = length ms"
  by (induction ms arbitrary: i parent) (simp_all add: split_def Let_def)

lemma chain_messages_well_hashed:
  "\<forall>n\<in>set (fst (chain_messages ext call model opts i parent ms)). well_hashed (ext_hash ext) n"
  by (induction ms arbitrary: i parent) (auto simp: split_def Let_def message_node_simps)

text \<open>
  The spine of the messages and the parent they leave, in terms of the hashes alone:
  side branches, models, indices and option records do not enter.
\<close>

lemma chain_messages_spine:
  assumes "wire_options opts" "wire_options opts'" "map_option n_hash parent = map_option n_hash parent'"
  shows "map n_hash (spine (fst (chain_messages ext call model opts i parent ms)))
         = map n_hash (fst (chain_messages ext call' model' opts' j parent' (conversation ms)))
       \<and> map_option n_hash (snd (chain_messages ext call model opts i parent ms))
         = map_option n_hash (snd (chain_messages ext call' model' opts' j parent' (conversation ms)))"
  using assms(3)
proof (induction ms arbitrary: i j parent parent')
  case Nil
  then show ?case by simp
next
  case (Cons m ms)
  let ?n = "fst (message_node ext call model opts i parent m)"
  have snd: "snd (message_node ext call model opts i parent m) \<longleftrightarrow> classify_injected m \<noteq> []"
    and side: "side_node ?n \<longleftrightarrow> classify_injected m \<noteq> []"
    using assms(1) by (simp_all add: snd_message_node side_message_node wire_options_def)
  show ?case
  proof (cases "classify_injected m = []")
    case True
    let ?n' = "fst (message_node ext call' model' opts' j parent' m)"
    have "n_hash ?n = n_hash ?n'"
      using Cons.prems by (simp add: message_node_simps hash_input_of_def message_bucket_def)
    moreover from this have "map_option n_hash (Some ?n) = map_option n_hash (Some ?n')" by simp
    note Cons.IH [OF this, of "Suc i" "Suc j"]
    ultimately show ?thesis
      using True snd side assms(2) by (simp add: split_def Let_def snd_message_node)
  next
    case False
    with Cons.IH [OF Cons.prems, of "Suc i" j] snd side show ?thesis
      by (simp add: split_def Let_def)
  qed
qed

lemma chain_messages_linked:
  assumes "wire_options opts"
  shows "linked_from (map_option n_hash parent) (spine (fst (chain_messages ext call model opts i parent ms)))
       \<and> map_option n_hash (snd (chain_messages ext call model opts i parent ms))
         = (if spine (fst (chain_messages ext call model opts i parent ms)) = [] then map_option n_hash parent
            else Some (n_hash (last (spine (fst (chain_messages ext call model opts i parent ms))))))"
proof (induction ms arbitrary: i parent)
  case Nil
  then show ?case by simp
next
  case (Cons m ms)
  let ?n = "fst (message_node ext call model opts i parent m)"
  have snd: "snd (message_node ext call model opts i parent m) \<longleftrightarrow> classify_injected m \<noteq> []"
    and side: "side_node ?n \<longleftrightarrow> classify_injected m \<noteq> []"
    using assms by (simp_all add: snd_message_node side_message_node wire_options_def)
  show ?case
    using Cons.IH [where i = "Suc i" and parent = "Some ?n"] Cons.IH [where i = "Suc i" and parent = parent]
      snd side
    by (auto simp: split_def Let_def message_node_simps)
qed

lemma turn_chain_Some:
  "\<exists>leaf. turn_chain ext call (Some q) (Some p) opts
      = fst (chain_messages ext call (rq_model q) opts 0 None (rq_messages q)) @ [leaf]
    \<and> n_parent_hash leaf = map_option n_hash (snd (chain_messages ext call (rq_model q) opts 0 None (rq_messages q)))
    \<and> well_hashed (ext_hash ext) leaf \<and> n_kind leaf = co_kind opts
    \<and> n_bucket leaf = message_bucket call (rs_model p) (rs_message p)
         \<lparr>b_content := (if cc_provider call = ''openai''
             then normalize_responses_content ext (msg_content (rs_message p)) else msg_content (rs_message p))\<rparr>
    \<and> n_stop_reason leaf = rs_stop_reason p \<and> n_usage leaf = rs_usage p"
  by (auto simp: turn_chain_def split_def Let_def message_bucket_def new_node_def compute_hash_def
      well_hashed_def hash_input_of_def)

lemma n_hash_leaf: "well_hashed H n \<Longrightarrow> n_hash n = H (hash_input_of (n_parent_hash n) (n_bucket n))"
  by (simp add: well_hashed_def compute_hash_def)

lemma wire_options_wire [simp]: "wire_options (wire_opts ext req resp)"
  by (simp add: wire_options_def wire_opts_def classify_call_not_injected)

lemma co_kind_wire [simp]: "co_kind (wire_opts ext req resp) = classify_call (ext_json ext) req resp"
  by (simp add: wire_opts_def)

definition wire_messages ::
  "externs \<Rightarrow> call_context \<Rightarrow> chat_request \<Rightarrow> chat_response \<Rightarrow> node list \<times> node option"
where
  "wire_messages ext call q p =
     chain_messages ext call (rq_model q) (wire_opts ext (Some q) (Some p)) 0 None (rq_messages q)"

lemma turn_chain_wire_leaf:
  "\<exists>leaf. turn_chain_wire ext call (Some q) (Some p) = fst (wire_messages ext call q p) @ [leaf]
    \<and> n_parent_hash leaf = map_option n_hash (snd (wire_messages ext call q p))
    \<and> well_hashed (ext_hash ext) leaf \<and> n_kind leaf = classify_call (ext_json ext) (Some q) (Some p)
    \<and> n_hash leaf = ext_hash ext (hash_input_of (map_option n_hash (snd (wire_messages ext call q p)))
         (message_bucket call (rs_model p) (rs_message p)
           \<lparr>b_content := (if cc_provider call = ''openai''
             then normalize_responses_content ext (msg_content (rs_message p)) else msg_content (rs_message p))\<rparr>))"
  using turn_chain_Some [of ext call q p "wire_opts ext (Some q) (Some p)"]
  by (auto simp: turn_chain_wire_def wire_messages_def n_hash_leaf)

lemma turn_chain_wire_nonempty [simp]: "turn_chain_wire ext call (Some q) (Some p) \<noteq> []"
  using turn_chain_wire_leaf [of ext call q p] by auto

lemma turn_chain_wire_kind:
  "n_kind (last (turn_chain_wire ext call (Some q) (Some p))) = classify_call (ext_json ext) (Some q) (Some p)"
  using turn_chain_wire_leaf [of ext call q p] by auto

lemma spine_snoc_leaf:
  "n_kind leaf = classify_call dec req resp \<Longrightarrow> spine (ns @ [leaf]) = spine ns @ [leaf]"
  by (simp add: side_node_def classify_call_not_injected)

subsection \<open>Sample inputs\<close>

definition sample_call :: call_context where
  "sample_call = \<lparr>cc_provider = ''anthropic'', cc_agent_name = ''claude'', cc_thread_id = [], cc_project = []\<rparr>"

definition sample_response :: "string \<Rightarrow> chat_response" where
  "sample_response txt = \<lparr>rs_model = ''opus'', rs_message = new_text_message ''assistant'' txt, rs_done = True,
     rs_stop_reason = ''end_turn'', rs_usage = None, rs_extra = []\<rparr>"

definition sample_externs :: externs where
  "sample_externs = \<lparr>ext_hash = toy_digest, ext_json = (\<lambda>_. None), ext_title = (\<lambda>_. None),
     ext_item = (\<lambda>_. None), ext_text = (\<lambda>_. None), ext_parts = (\<lambda>_. None),
     ext_parse_request = (\<lambda>_ _. Inl ''unsupported''), ext_response = (\<lambda>_. Inl ''bad''),
     ext_meta = (\<lambda>_. (empty_meta, False)), ext_time = (\<lambda>_. None), ext_round = (\<lambda>x. x),
     ext_envelope = (\<lambda>_. None), ext_spawn = (\<lambda>_. None)\<rparr>"

definition drifted_main :: chat_request where
  "drifted_main = sample_main\<lparr>rq_messages :=
     new_text_message ''user'' ''# MCP Server Instructions'' # rq_messages sample_main, rq_model := ''haiku''\<rparr>"

subsection \<open>Properties\<close>

text \<open>C8: The chain of a wire call has one node per request message and one for the response; its
  nodes without the injected side branches form a linked, well-hashed chain from a root
  to the response node, which carries the call's kind.\<close>

theorem turn_chain_shape:
  "let c = turn_chain_wire ext call (Some q) (Some p)
   in length c = Suc (length (rq_messages q))
      \<and> linked_chain (ext_hash ext) (spine c)
      \<and> last (spine c) = last c
      \<and> n_kind (last c) = classify_call (ext_json ext) (Some q) (Some p)
      \<and> list_all (well_hashed (ext_hash ext)) c"
proof -
  let ?ns = "fst (wire_messages ext call q p)"
  obtain leaf where c: "turn_chain_wire ext call (Some q) (Some p) = ?ns @ [leaf]"
    and par: "n_parent_hash leaf = map_option n_hash (snd (wire_messages ext call q p))"
    and wl: "well_hashed (ext_hash ext) leaf"
    and k: "n_kind leaf = classify_call (ext_json ext) (Some q) (Some p)"
    using turn_chain_wire_leaf by blast
  have wh: "\<forall>n\<in>set ?ns. well_hashed (ext_hash ext) n"
    unfolding wire_messages_def by (rule chain_messages_well_hashed)
  have len: "length ?ns = length (rq_messages q)"
    unfolding wire_messages_def by (rule chain_messages_length)
  have "linked_from None (spine ?ns)
      \<and> n_parent_hash leaf = (if spine ?ns = [] then None else Some (n_hash (last (spine ?ns))))"
    using chain_messages_linked [OF wire_options_wire, where parent = None] par
    unfolding wire_messages_def by simp
  with wl wh have "linked_chain (ext_hash ext) (spine ?ns @ [leaf])"
    by (simp add: linked_from_append linked_chain_def)
  moreover have "\<not> side_node leaf" using k by (simp add: side_node_def classify_call_not_injected)
  ultimately show ?thesis using wl wh len k by (simp add: c Let_def list_all_iff)
qed

text \<open>Injected context never forks the spine: two calls of the same harness whose requests agree
  once injected messages are removed, with the same response message, have the same spine
  hashes, whatever injected blocks, models, parameters and stop reasons each carries.\<close>

theorem injected_drift_invisible:
  assumes "conversation (rq_messages q) = conversation (rq_messages q')"
    "rs_message p = rs_message p'"
  shows "map n_hash (spine (turn_chain_wire ext call (Some q) (Some p)))
         = map n_hash (spine (turn_chain_wire ext call (Some q') (Some p')))"
proof -
  note sp = chain_messages_spine [OF wire_options_wire wire_options_wire refl,
      where ext = ext and call = call and call' = call and i = 0 and j = 0]
  have eq: "map n_hash (spine (fst (wire_messages ext call q p))) = map n_hash (spine (fst (wire_messages ext call q' p')))"
    "map_option n_hash (snd (wire_messages ext call q p)) = map_option n_hash (snd (wire_messages ext call q' p'))"
    unfolding wire_messages_def using sp [where ms = "rq_messages q"] sp [where ms = "rq_messages q'"] assms(1)
    by metis+
  obtain l where l: "turn_chain_wire ext call (Some q) (Some p) = fst (wire_messages ext call q p) @ [l]"
      "n_kind l = classify_call (ext_json ext) (Some q) (Some p)"
      "n_hash l = ext_hash ext (hash_input_of (map_option n_hash (snd (wire_messages ext call q p)))
         (message_bucket call (rs_model p) (rs_message p)
           \<lparr>b_content := (if cc_provider call = ''openai''
             then normalize_responses_content ext (msg_content (rs_message p)) else msg_content (rs_message p))\<rparr>))"
    using turn_chain_wire_leaf by blast
  obtain l' where l': "turn_chain_wire ext call (Some q') (Some p') = fst (wire_messages ext call q' p') @ [l']"
      "n_kind l' = classify_call (ext_json ext) (Some q') (Some p')"
      "n_hash l' = ext_hash ext (hash_input_of (map_option n_hash (snd (wire_messages ext call q' p')))
         (message_bucket call (rs_model p') (rs_message p')
           \<lparr>b_content := (if cc_provider call = ''openai''
             then normalize_responses_content ext (msg_content (rs_message p')) else msg_content (rs_message p'))\<rparr>))"
    using turn_chain_wire_leaf by blast
  have "n_hash l = n_hash l'"
    unfolding l(3) l'(3) eq(2) by (simp add: hash_input_of_def message_bucket_def assms(2))
  with eq(1) show ?thesis
    unfolding l(1) l'(1) spine_snoc_leaf [OF l(2)] spine_snoc_leaf [OF l'(2)] by simp
qed

theorem injected_drift_invisible_witness:
  "map n_hash (spine (turn_chain_wire sample_externs sample_call (Some sample_main) (Some (sample_response ''ok''))))
   = map n_hash (spine (turn_chain_wire sample_externs sample_call (Some drifted_main) (Some (sample_response ''ok''))))"
proof (rule injected_drift_invisible)
  show "conversation (rq_messages sample_main) = conversation (rq_messages drifted_main)" by code_simp
qed simp

end
