(* ===== verification/ActionText.thy ===== *)
theory ActionText
  imports Classify
begin

text \<open>
  The text half of \<open>pkg/derive/attach.go\<close>: rendering a tool use as the action line the
  security monitor sees, extracting the judged action of a check request, and deciding
  whether an action and a tool use match.
\<close>

definition normalize_action :: "string \<Rightarrow> string" where
  "normalize_action s =
     (let s1 = go_to_lower s;
          s2 = trim_prefix (go_trim_space s1) ''$ '';
          s3 = filter (\<lambda>c. c \<noteq> CHR ''$'' \<and> c \<noteq> CHR 0x22) s2
      in go_join (go_fields s3) '' '')"

definition render_keys :: "string list" where
  "render_keys = [''command'', ''query'', ''file_path'', ''path'', ''pattern'', ''url'', ''prompt'',
     ''skill'', ''message'', ''subject'']"

definition render_tool_use :: "string \<Rightarrow> jobj \<Rightarrow> string" where
  "render_tool_use name input =
     (let detail = (case find (\<lambda>k. jget_string input k \<noteq> []) render_keys of
                      None \<Rightarrow> [] | Some k \<Rightarrow> jget_string input k)
      in normalize_action (name @ '' '' @ detail))"

definition tool_heads :: "string list" where
  "tool_heads = [''bash'', ''read'', ''write'', ''edit'', ''multiedit'', ''notebookedit'', ''glob'',
     ''grep'', ''websearch'', ''webfetch'', ''task'', ''taskcreate'', ''taskupdate'', ''taskget'',
     ''skill'', ''croncreate'', ''cronlist'', ''crondelete'', ''monitor'', ''enterplanmode'',
     ''exitplanmode'', ''askuserquestion'', ''pushnotification'']"

definition strip_tool_head :: "string \<Rightarrow> string" where
  "strip_tool_head s =
     (case go_fields s of
        [] \<Rightarrow> s
      | head # rest \<Rightarrow>
          if head \<in> set tool_heads \<or> has_prefix head ''mcp__'' then go_join rest '' '' else s)"

definition truncate_action :: "string \<Rightarrow> string" where
  "truncate_action s =
     (if 120 < length s then take 120 s @ [CHR 0xE2, CHR 0x80, CHR 0xA6] else s)"

subsection \<open>The tool-header pattern\<close>

text \<open>
  \<open>toolHeadPattern\<close>, an anchored alternation followed by a word boundary. After a
  listed name the boundary means that no word character follows; after \<open>mcp__\S+\<close> it
  may lie at any length of the run of non-space characters.
\<close>

definition is_word_char :: "char \<Rightarrow> bool" where
  "is_word_char c \<longleftrightarrow> is_digit c \<or> c = CHR ''_''
     \<or> (65 \<le> (of_char c :: nat) \<and> (of_char c :: nat) \<le> 90)
     \<or> (97 \<le> (of_char c :: nat) \<and> (of_char c :: nat) \<le> 122)"

definition word_boundary_at :: "string \<Rightarrow> nat \<Rightarrow> bool" where
  "word_boundary_at s i \<longleftrightarrow>
     (0 < i \<and> i \<le> length s \<and> is_word_char (s ! (i - 1)))
     \<noteq> (i < length s \<and> is_word_char (s ! i))"

definition head_names :: "string list" where
  "head_names = [''Bash'', ''Read'', ''Write'', ''Edit'', ''MultiEdit'', ''NotebookEdit'', ''Glob'',
     ''Grep'', ''WebSearch'', ''WebFetch'', ''Task'', ''TaskCreate'', ''TaskUpdate'', ''TaskGet'',
     ''Skill'', ''CronCreate'', ''CronList'', ''CronDelete'', ''Monitor'', ''EnterPlanMode'',
     ''ExitPlanMode'', ''AskUserQuestion'', ''PushNotification'']"

definition tool_head_match :: "string \<Rightarrow> bool" where
  "tool_head_match line \<longleftrightarrow>
     (\<exists>h\<in>set head_names. has_prefix line h \<and> word_boundary_at line (length h))
     \<or> (has_prefix line ''mcp__''
        \<and> (\<exists>n\<in>set [1..<Suc (length (takeWhile (\<lambda>c. \<not> is_regex_space c) (drop 5 line)))].
              word_boundary_at line (5 + n)))"

subsection \<open>The judged action\<close>

text \<open>The loop \<open>for i := len(blocks)-1; i > 0; i--\<close>: the block before the last closing tag.\<close>

fun action_before_close :: "string list \<Rightarrow> string option" where
  "action_before_close [] = None"
| "action_before_close [t] = None"
| "action_before_close (t # u # ts) =
     (case action_before_close (u # ts) of
        Some a \<Rightarrow> Some a
      | None \<Rightarrow> if go_trim_space u = ''</transcript>'' then Some (normalize_action t) else None)"

text \<open>The body of the last block that opens a transcript.\<close>

fun transcript_body :: "string list \<Rightarrow> string \<Rightarrow> string" where
  "transcript_body [] body = body"
| "transcript_body (t # ts) body =
     transcript_body ts
       (case go_index t ''<transcript>'' of
          None \<Rightarrow> body
        | Some i \<Rightarrow>
            (let rest = drop (i + 12) t
             in case go_index rest ''</transcript>'' of None \<Rightarrow> rest | Some j \<Rightarrow> take j rest))"

definition judged_action :: "chat_request option \<Rightarrow> string" where
  "judged_action req = (case req of
     None \<Rightarrow> []
   | Some q \<Rightarrow>
      if rq_messages q = [] then []
      else
        (let texts = map cb_text (concat (map msg_content (rq_messages q)))
         in case action_before_close texts of
              Some a \<Rightarrow> a
            | None \<Rightarrow>
               (let lines = map go_trim_space (go_split (transcript_body texts []) [LF])
                in case find tool_head_match (take 10 (rev lines)) of
                     Some l \<Rightarrow> normalize_action l
                   | None \<Rightarrow>
                      (case find (\<lambda>l. l \<noteq> []) (rev lines) of
                         Some l \<Rightarrow> normalize_action l
                       | None \<Rightarrow> []))))"

subsection \<open>Matching an action against tool uses\<close>

record tool_use_ref =
  tu_id :: string
  tu_name :: string
  tu_thread_id :: string
  tu_rendered :: string
  tu_web_tool :: bool
  tu_at_turn :: nat
  tu_consumed :: bool

definition body_match :: "string \<Rightarrow> string \<Rightarrow> bool" where
  "body_match action_body ref_body \<longleftrightarrow>
     6 \<le> length action_body \<and> 6 \<le> length ref_body
     \<and> (go_contains ref_body (take 22 action_body) \<or> go_contains action_body (take 22 ref_body))"

definition ref_matches :: "string \<Rightarrow> string \<Rightarrow> bool \<Rightarrow> tool_use_ref \<Rightarrow> bool" where
  "ref_matches action thread_id same_thread_only ref \<longleftrightarrow>
     (let norm = normalize_action action
      in \<not> tu_consumed ref
         \<and> (same_thread_only \<longrightarrow> tu_thread_id ref = thread_id)
         \<and> (if has_prefix norm ''mcp__''
            then (let name = go_to_lower (tu_name ref)
                  in has_prefix name ''mcp__'' \<and> has_prefix norm name)
            else body_match (strip_tool_head norm) (strip_tool_head (tu_rendered ref))))"

text \<open>The first candidate that matches, by its position in the registry.\<close>

fun find_index :: "('a \<Rightarrow> bool) \<Rightarrow> 'a list \<Rightarrow> nat option" where
  "find_index P [] = None"
| "find_index P (x # xs) = (if P x then Some 0 else map_option Suc (find_index P xs))"

definition match_tool_use ::
  "tool_use_ref list \<Rightarrow> string \<Rightarrow> string \<Rightarrow> bool \<Rightarrow> nat option"
where
  "match_tool_use candidates action thread_id same_thread_only =
     find_index (ref_matches action thread_id same_thread_only) candidates"

lemma find_index_Some:
  "find_index P xs = Some i \<Longrightarrow> i < length xs \<and> P (xs ! i) \<and> (\<forall>j<i. \<not> P (xs ! j))"
proof (induction xs arbitrary: i)
  case (Cons x xs)
  show ?case
  proof (cases "P x")
    case True
    with Cons.prems show ?thesis by auto
  next
    case False
    with Cons.prems obtain k where k: "i = Suc k" "find_index P xs = Some k" by auto
    from Cons.IH [OF k(2)] False k(1) show ?thesis
      by (auto simp: less_Suc_eq_0_disj)
  qed
qed simp

lemma find_index_None: "find_index P xs = None \<longleftrightarrow> (\<forall>x\<in>set xs. \<not> P x)"
  by (induction xs) auto


end
