(* ===== verification/Deriver.thy ===== *)
theory Deriver
  imports TurnChain ActionText
begin

text \<open>
  \<open>pkg/derive/deriver.go\<close> and \<open>rederive.go\<close>: the streaming deriver that folds raw turns
  into a node set deduplicated by hash.

  The list \<open>ds_nodes\<close> is the heap of retained nodes: a \<open>*DerivedNode\<close> is its index, so
  \<open>byHash\<close>, the chains of span sources and the nodes of attach turns hold indices and an
  update of a node is seen through all of them. Likewise an attach turn points to its
  span source by its index in \<open>ds_sources\<close>.
\<close>

record session_key =
  harness_id :: string
  harness_session_id :: string

record derived_node =
  dn_node :: node
  dn_session :: session_key
  dn_captured_at :: gotime

record span_source =
  ss_raw_turn_id :: int
  ss_request_id :: string
  ss_captured_at :: gotime
  ss_kind :: string
  ss_thread_id :: string
  ss_session :: session_key
  ss_source :: string
  ss_chain :: "nat list"
  ss_new :: "bool list"
  ss_anchor :: string
  ss_turn_identity :: string

record codex_thread_meta =
  ctm_agent_path :: string
  ctm_nickname :: string

record spawn_label =
  sl_subagent_type :: string
  sl_description :: string

datatype rederive_error =
    UnsupportedProvider string
  | ParseRequestError string
  | DecodeResponseError string
  | EmptyChain

record rederive_report =
  rr_raw_turns :: int
  rr_parsed_turns :: int
  rr_raw_only_turns :: int
  rr_parse_failures :: "(int \<times> string \<times> rederive_error) list"
  rr_nodes :: int
  rr_call_kinds :: "string \<Rightarrow> int option"
  rr_node_kinds :: "string \<Rightarrow> int option"
  rr_judged_actions :: int
  rr_attached_verdicts :: int
  rr_unattached_actions :: "string list"
  rr_web_summary_attached :: int
  rr_plans_attached :: int

record derived_set =
  ds_nodes :: "derived_node list"
  ds_sessions :: "session_key list"
  ds_session_titles :: "session_key \<Rightarrow> string option"
  ds_sources :: "span_source list"
  ds_codex_threads :: "session_key \<Rightarrow> (string \<Rightarrow> codex_thread_meta option) option"
  ds_spawn_labels :: "string \<Rightarrow> spawn_label option"
  ds_report :: rederive_report

record attach_turn =
  at_kind :: string
  at_index :: nat
  at_thread_id :: string
  at_judged_action :: string
  at_nodes :: "nat list"
  at_source :: nat

record deriver =
  dv_project :: string
  dv_by_hash :: "string \<Rightarrow> nat option"
  dv_set :: derived_set
  dv_sessions :: "session_key set"
  dv_turns :: "attach_turn list"
  dv_tool_uses :: "tool_use_ref list"
  dv_tool_seen :: "string set"
  dv_wire_main_calls :: "session_key \<Rightarrow> int option"
  dv_title_priority :: "session_key \<Rightarrow> int option"

record raw_turn_record =
  rt_id :: int
  rt_source :: string
  rt_provider :: string
  rt_agent_name :: string
  rt_harness_id :: string
  rt_harness_session_id :: string
  rt_request_id :: string
  rt_raw_request :: string
  rt_response :: string
  rt_meta :: string
  rt_session_envelope :: string
  rt_received_at :: gotime

definition source_wire :: string where "source_wire = ''wire''"
definition source_transcript :: string where "source_transcript = ''transcript''"

definition max_reported_missing :: nat where
  "max_reported_missing = 20"

subsection \<open>What a raw row says\<close>

definition thread_id_from_meta :: "externs \<Rightarrow> string \<Rightarrow> string" where
  "thread_id_from_meta ext meta =
     (if meta = [] \<or> \<not> snd (ext_meta ext meta) then [] else rm_thread_id (fst (ext_meta ext meta)))"

definition max_derive_elapsed_seconds :: rat where
  "max_derive_elapsed_seconds = 7 * 24 * 60 * 60"

definition captured_at :: "externs \<Rightarrow> raw_turn_record \<Rightarrow> gotime" where
  "captured_at ext rec =
     (let m = (if rt_meta rec \<noteq> [] then fst (ext_meta ext (rt_meta rec)) else empty_meta);
          cap = (if rm_captured_at m \<noteq> []
                 then (case ext_time ext (rm_captured_at m) of Some ts \<Rightarrow> ts | None \<Rightarrow> 0) else 0);
          e = rm_elapsed_seconds m;
          req = (if rm_ts_request m \<noteq> [] then ext_time ext (rm_ts_request m) else None)
      in if cap \<noteq> 0 \<and> 0 < e \<and> e \<le> max_derive_elapsed_seconds
           then cap + (- \<lfloor>ext_round ext (e * 1000000000)\<rfloor>)
         else case req of
             Some ts \<Rightarrow> ts
           | None \<Rightarrow> if cap \<noteq> 0 then cap else rt_received_at rec)"

definition codex_thread_meta_from_envelope :: "externs \<Rightarrow> string \<Rightarrow> codex_thread_meta option" where
  "codex_thread_meta_from_envelope ext envelope =
     (if envelope = [] then None
      else case ext_envelope ext envelope of
        None \<Rightarrow> None
      | Some env \<Rightarrow>
          if ce_source env = [] then None
          else let raw = (case ext_text ext (ce_source env) of Some s \<Rightarrow> s | None \<Rightarrow> ce_source env)
            in case ext_spawn ext raw of
                 None \<Rightarrow> None
               | Some sp \<Rightarrow>
                   if sp_agent_path sp = [] then None
                   else Some \<lparr>ctm_agent_path = sp_agent_path sp, ctm_nickname = sp_agent_nickname sp\<rparr>)"

definition supported_providers :: "string list" where
  "supported_providers = [''anthropic'', ''openai'', ''ollama'']"

datatype rederive_result = RawOnly | RederiveFailed rederive_error | Rederived "node list"

definition rederive_chain :: "externs \<Rightarrow> raw_turn_record \<Rightarrow> string \<Rightarrow> rederive_result" where
  "rederive_chain ext rec project =
     (if rt_provider rec \<notin> set supported_providers
      then RederiveFailed (UnsupportedProvider (rt_provider rec))
      else case ext_parse_request ext (rt_provider rec) (rt_raw_request rec) of
        Inl e \<Rightarrow> RederiveFailed (ParseRequestError e)
      | Inr req \<Rightarrow>
          if rt_response rec = [] then RawOnly
          else case ext_response ext (rt_response rec) of
            Inl e \<Rightarrow> RederiveFailed (DecodeResponseError e)
          | Inr resp \<Rightarrow>
              if msg_role (rs_message resp) = [] \<or> msg_content (rs_message resp) = [] then RawOnly
              else let chain = turn_chain_wire ext
                         \<lparr>cc_provider = rt_provider rec, cc_agent_name = rt_agent_name rec,
                          cc_thread_id = thread_id_from_meta ext (rt_meta rec), cc_project = project\<rparr>
                         (Some req) (Some resp)
                in if chain = [] then RederiveFailed EmptyChain else Rederived chain)"

subsection \<open>The deriver's operations\<close>

definition empty_report :: rederive_report where
  "empty_report = \<lparr>rr_raw_turns = 0, rr_parsed_turns = 0, rr_raw_only_turns = 0, rr_parse_failures = [],
     rr_nodes = 0, rr_call_kinds = Map.empty, rr_node_kinds = Map.empty, rr_judged_actions = 0,
     rr_attached_verdicts = 0, rr_unattached_actions = [], rr_web_summary_attached = 0,
     rr_plans_attached = 0\<rparr>"

definition new_deriver :: "string \<Rightarrow> deriver" where
  "new_deriver project =
     \<lparr>dv_project = project, dv_by_hash = Map.empty,
      dv_set = \<lparr>ds_nodes = [], ds_sessions = [], ds_session_titles = Map.empty, ds_sources = [],
                ds_codex_threads = Map.empty, ds_spawn_labels = Map.empty, ds_report = empty_report\<rparr>,
      dv_sessions = {}, dv_turns = [], dv_tool_uses = [], dv_tool_seen = {},
      dv_wire_main_calls = Map.empty, dv_title_priority = Map.empty\<rparr>"

abbreviation upd_report :: "(rederive_report \<Rightarrow> rederive_report) \<Rightarrow> deriver \<Rightarrow> deriver" where
  "upd_report f dv \<equiv> dv\<lparr>dv_set := dv_set dv\<lparr>ds_report := f (ds_report (dv_set dv))\<rparr>\<rparr>"

definition title_priority_transcript :: int where "title_priority_transcript = 1"
definition title_priority_wire :: int where "title_priority_wire = 2"

definition set_session_title :: "session_key \<Rightarrow> string \<Rightarrow> int \<Rightarrow> deriver \<Rightarrow> deriver" where
  "set_session_title key title priority dv =
     (if title = [] \<or> priority < map_get (dv_title_priority dv) key 0 then dv
      else dv\<lparr>dv_set := dv_set dv\<lparr>ds_session_titles := (ds_session_titles (dv_set dv))(key \<mapsto> title)\<rparr>,
              dv_title_priority := (dv_title_priority dv)(key \<mapsto> priority)\<rparr>)"

record chain_turn =
  ct_chain :: "node list"
  ct_session :: session_key
  ct_raw_turn_id :: int
  ct_request_id :: string
  ct_turn_identity :: string
  ct_captured_at :: gotime
  ct_thread_id :: string
  ct_source :: string
  ct_anchor :: string
  ct_wire :: bool
  ct_judged_action :: string
  ct_title :: string
  ct_codex_thread :: "codex_thread_meta option"

definition is_web_tool :: "string \<Rightarrow> bool" where
  "is_web_tool name \<longleftrightarrow> name \<in> {''WebFetch'', ''WebSearch'', ''web_search'', ''web_fetch''}"

text \<open>One block of the tool-use registry: the first capture of an id wins.\<close>

definition register_tool :: "chain_turn \<Rightarrow> nat \<Rightarrow> content_block \<Rightarrow> deriver \<Rightarrow> deriver" where
  "register_tool ct idx b dv =
     (if (cb_type b \<noteq> ''tool_use'' \<and> cb_type b \<noteq> ''server_tool_use'') \<or> tool_use_id b = []
         \<or> tool_use_id b \<in> dv_tool_seen dv then dv
      else dv\<lparr>dv_tool_seen := insert (tool_use_id b) (dv_tool_seen dv),
              dv_tool_uses := dv_tool_uses dv @
                [\<lparr>tu_id = tool_use_id b, tu_name = tool_name b, tu_thread_id = ct_thread_id ct,
                  tu_rendered = render_tool_use (tool_name b) (tool_input b),
                  tu_web_tool = is_web_tool (tool_name b), tu_at_turn = idx, tu_consumed = False\<rparr>]\<rparr>)"

text \<open>The retained node for a chain position: found by hash, or appended.\<close>

definition retain_node :: "chain_turn \<Rightarrow> node \<Rightarrow> deriver \<Rightarrow> deriver \<times> nat \<times> bool" where
  "retain_node ct node dv =
     (let cap = (if n_created_at node \<noteq> 0 then n_created_at node else ct_captured_at ct)
      in case dv_by_hash dv (n_hash node) of
           Some r \<Rightarrow> (dv, r, False)
         | None \<Rightarrow>
             (let node' = (clone_retained node (n_request node))\<lparr>n_created_at := cap\<rparr>;
                  s = dv_set dv;
                  r = length (ds_nodes s);
                  s' = s\<lparr>ds_nodes := ds_nodes s @ [\<lparr>dn_node = node', dn_session = ct_session ct, dn_captured_at = cap\<rparr>],
                         ds_report := (ds_report s)\<lparr>rr_node_kinds := map_incr (rr_node_kinds (ds_report s)) (n_kind node)\<rparr>\<rparr>
              in (dv\<lparr>dv_by_hash := (dv_by_hash dv)(n_hash node \<mapsto> r), dv_set := s'\<rparr>, r, True)))"

text \<open>One iteration of the loop over the chain; the accumulators are \<open>source.Chain\<close>
  (equally \<open>turn.nodes\<close>) and \<open>source.New\<close>.\<close>

definition add_node ::
  "chain_turn \<Rightarrow> nat \<Rightarrow> node \<Rightarrow> deriver \<times> nat list \<times> bool list \<Rightarrow> deriver \<times> nat list \<times> bool list"
where
  "add_node ct idx node st =
     (let (dv, refs, news) = st;
          (dv1, r, new) = retain_node ct node dv;
          dv2 = fold (register_tool ct idx) (b_content (n_bucket node)) dv1
      in (dv2, refs @ [r], news @ [new]))"

text \<open>The bookkeeping before the loop: main-call and kind counts, session coverage, title,
  Codex thread metadata (the first capture wins).\<close>

definition note_call :: "chain_turn \<Rightarrow> deriver \<Rightarrow> deriver" where
  "note_call ct dv =
     (let kind = n_kind (last (ct_chain ct));
          dv1 = (if ct_wire ct \<and> kind = kind_main
                 then dv\<lparr>dv_wire_main_calls := map_incr (dv_wire_main_calls dv) (ct_session ct)\<rparr> else dv);
          dv2 = upd_report (\<lambda>r. r\<lparr>rr_call_kinds := map_incr (rr_call_kinds r) kind\<rparr>) dv1;
          dv3 = (if ct_session ct \<notin> dv_sessions dv2 \<and> harness_session_id (ct_session ct) \<noteq> []
                 then dv2\<lparr>dv_sessions := insert (ct_session ct) (dv_sessions dv2),
                          dv_set := dv_set dv2\<lparr>ds_sessions := ds_sessions (dv_set dv2) @ [ct_session ct]\<rparr>\<rparr>
                 else dv2);
          dv4 = (if ct_title ct \<noteq> [] then set_session_title (ct_session ct) (ct_title ct) title_priority_wire dv3
                 else dv3)
      in case ct_codex_thread ct of
           None \<Rightarrow> dv4
         | Some m \<Rightarrow>
             (let by = (case ds_codex_threads (dv_set dv4) (ct_session ct) of None \<Rightarrow> Map.empty | Some b \<Rightarrow> b);
                  by' = (if by (ct_thread_id ct) = None then by(ct_thread_id ct \<mapsto> m) else by)
              in dv4\<lparr>dv_set := dv_set dv4\<lparr>ds_codex_threads :=
                       (ds_codex_threads (dv_set dv4))(ct_session ct \<mapsto> by')\<rparr>\<rparr>))"

definition add_chain_turn :: "chain_turn \<Rightarrow> deriver \<Rightarrow> deriver" where
  "add_chain_turn ct dv =
     (if ct_chain ct = [] then dv
      else
        let kind = n_kind (last (ct_chain ct));
            idx = length (dv_turns dv);
            (dv1, refs, news) = fold (add_node ct idx) (ct_chain ct) (note_call ct dv, [], []);
            source = \<lparr>ss_raw_turn_id = ct_raw_turn_id ct, ss_request_id = ct_request_id ct,
              ss_captured_at = ct_captured_at ct, ss_kind = kind, ss_thread_id = ct_thread_id ct,
              ss_session = ct_session ct, ss_source = ct_source ct, ss_chain = refs, ss_new = news,
              ss_anchor = ct_anchor ct, ss_turn_identity = ct_turn_identity ct\<rparr>;
            turn = \<lparr>at_kind = kind, at_index = idx, at_thread_id = ct_thread_id ct,
              at_judged_action = ct_judged_action ct, at_nodes = refs,
              at_source = length (ds_sources (dv_set dv1))\<rparr>
        in dv1\<lparr>dv_turns := dv_turns dv1 @ [turn],
               dv_set := dv_set dv1\<lparr>ds_sources := ds_sources (dv_set dv1) @ [source]\<rparr>\<rparr>)"

text \<open>The turn that \<open>AddTurn\<close> passes on for a re-derived chain.\<close>

definition wire_chain_turn :: "externs \<Rightarrow> raw_turn_record \<Rightarrow> node list \<Rightarrow> chain_turn" where
  "wire_chain_turn ext rec chain =
     (let kind = n_kind (last chain);
          title = (if kind = kind_title_gen
                   then (case ext_response ext (rt_response rec) of
                           Inr resp \<Rightarrow> session_title (ext_title ext) kind (Some resp) | Inl _ \<Rightarrow> [])
                   else []);
          action = (if kind = kind_check_stage1 \<or> kind = kind_check_stage2
                    then (case ext_parse_request ext (rt_provider rec) (rt_raw_request rec) of
                            Inr req \<Rightarrow> judged_action (Some req) | Inl _ \<Rightarrow> [])
                    else []);
          tid = thread_id_from_meta ext (rt_meta rec);
          codex = (if rt_harness_id rec = ''codex'' \<and> tid \<noteq> []
                   then codex_thread_meta_from_envelope ext (rt_session_envelope rec) else None)
      in \<lparr>ct_chain = chain,
          ct_session = \<lparr>harness_id = rt_harness_id rec, harness_session_id = rt_harness_session_id rec\<rparr>,
          ct_raw_turn_id = rt_id rec, ct_request_id = rt_request_id rec, ct_turn_identity = [],
          ct_captured_at = captured_at ext rec, ct_thread_id = tid, ct_source = rt_source rec,
          ct_anchor = [], ct_wire = (rt_source rec \<noteq> source_transcript),
          ct_judged_action = action, ct_title = title, ct_codex_thread = codex\<rparr>)"

definition add_turn :: "externs \<Rightarrow> raw_turn_record \<Rightarrow> deriver \<Rightarrow> deriver" where
  "add_turn ext rec dv =
     (let dv0 = upd_report (\<lambda>r. r\<lparr>rr_raw_turns := rr_raw_turns r + 1\<rparr>) dv
      in case rederive_chain ext rec (dv_project dv) of
           RawOnly \<Rightarrow> upd_report (\<lambda>r. r\<lparr>rr_raw_only_turns := rr_raw_only_turns r + 1\<rparr>) dv0
         | RederiveFailed e \<Rightarrow>
             upd_report (\<lambda>r. if length (rr_parse_failures r) < max_reported_missing
               then r\<lparr>rr_parse_failures := rr_parse_failures r @ [(rt_id rec, rt_request_id rec, e)]\<rparr> else r) dv0
         | Rederived chain \<Rightarrow>
             add_chain_turn (wire_chain_turn ext rec chain)
               (upd_report (\<lambda>r. r\<lparr>rr_parsed_turns := rr_parsed_turns r + 1\<rparr>) dv0))"

definition probe_turn :: "externs \<Rightarrow> raw_turn_record option \<Rightarrow> deriver \<Rightarrow> deriver" where
  "probe_turn ext orec dv = (case orec of
      None \<Rightarrow> dv
    | Some rec \<Rightarrow>
        if rt_source rec = source_transcript then dv
        else case rederive_chain ext rec (dv_project dv) of
          Rederived chain \<Rightarrow>
            if n_kind (last chain) \<noteq> kind_main then dv
            else dv\<lparr>dv_wire_main_calls := map_incr (dv_wire_main_calls dv)
                    \<lparr>harness_id = rt_harness_id rec, harness_session_id = rt_harness_session_id rec\<rparr>\<rparr>
        | _ \<Rightarrow> dv)"

record transcript_turn =
  tt_chain :: "node list"
  tt_session :: session_key
  tt_raw_turn_id :: int
  tt_request_id :: string
  tt_turn_identity :: string
  tt_captured_at :: gotime
  tt_thread_id :: string
  tt_anchor :: string

definition add_transcript_turn :: "transcript_turn \<Rightarrow> deriver \<Rightarrow> deriver" where
  "add_transcript_turn t dv =
     (if tt_chain t = [] then dv
      else add_chain_turn
        \<lparr>ct_chain = tt_chain t, ct_session = tt_session t, ct_raw_turn_id = tt_raw_turn_id t,
         ct_request_id = tt_request_id t, ct_turn_identity = tt_turn_identity t,
         ct_captured_at = tt_captured_at t, ct_thread_id = tt_thread_id t,
         ct_source = source_transcript, ct_anchor = tt_anchor t, ct_wire = False,
         ct_judged_action = [], ct_title = [], ct_codex_thread = None\<rparr> dv)"

subsection \<open>The deriver's invariant\<close>

abbreviation nodes_of :: "deriver \<Rightarrow> derived_node list" where
  "nodes_of dv \<equiv> ds_nodes (dv_set dv)"

abbreviation sources_of :: "deriver \<Rightarrow> span_source list" where
  "sources_of dv \<equiv> ds_sources (dv_set dv)"

definition hash_at :: "derived_node list \<Rightarrow> nat \<Rightarrow> string" where
  "hash_at ns r = n_hash (dn_node (ns ! r))"

definition node_hashes :: "derived_node list \<Rightarrow> string list" where
  "node_hashes ns = map (\<lambda>d. n_hash (dn_node d)) ns"

definition hashes_of :: "derived_node list \<Rightarrow> string set" where
  "hashes_of ns = (\<lambda>d. n_hash (dn_node d)) ` set ns"

text \<open>The index finds exactly the retained nodes, each under its own hash.\<close>

definition index_ok :: "deriver \<Rightarrow> bool" where
  "index_ok dv \<longleftrightarrow>
     (\<forall>h r. dv_by_hash dv h = Some r \<longleftrightarrow> r < length (nodes_of dv) \<and> hash_at (nodes_of dv) r = h)"

definition tools_ok :: "deriver \<Rightarrow> bool" where
  "tools_ok dv \<longleftrightarrow> distinct (map tu_id (dv_tool_uses dv))
     \<and> set (map tu_id (dv_tool_uses dv)) = dv_tool_seen dv
     \<and> (\<forall>u\<in>set (dv_tool_uses dv). \<not> tu_consumed u)"

definition sources_ok :: "deriver \<Rightarrow> bool" where
  "sources_ok dv \<longleftrightarrow>
     (\<forall>s\<in>set (sources_of dv). ss_chain s \<noteq> [] \<and> length (ss_new s) = length (ss_chain s)
        \<and> (\<forall>r\<in>set (ss_chain s). r < length (nodes_of dv)))
     \<and> sum_list (map (\<lambda>s. length (filter id (ss_new s))) (sources_of dv)) = length (nodes_of dv)"

definition turns_ok :: "deriver \<Rightarrow> bool" where
  "turns_ok dv \<longleftrightarrow> length (dv_turns dv) = length (sources_of dv)
     \<and> (\<forall>i<length (dv_turns dv). at_index (dv_turns dv ! i) = i \<and> at_source (dv_turns dv ! i) = i
          \<and> at_nodes (dv_turns dv ! i) = ss_chain (sources_of dv ! i)
          \<and> at_kind (dv_turns dv ! i) = ss_kind (sources_of dv ! i))"

definition sessions_ok :: "deriver \<Rightarrow> bool" where
  "sessions_ok dv \<longleftrightarrow> distinct (ds_sessions (dv_set dv)) \<and> set (ds_sessions (dv_set dv)) = dv_sessions dv"

definition dv_inv :: "deriver \<Rightarrow> bool" where
  "dv_inv dv \<longleftrightarrow> index_ok dv \<and> tools_ok dv \<and> sources_ok dv \<and> turns_ok dv \<and> sessions_ok dv"

lemmas dv_ok_defs = index_ok_def tools_ok_def sources_ok_def turns_ok_def sessions_ok_def

lemma index_ok_distinct:
  assumes "index_ok dv"
  shows "distinct (map (\<lambda>d. n_hash (dn_node d)) (nodes_of dv))"
  unfolding distinct_conv_nth
proof (intro allI impI)
  fix i j
  assume "i < length (map (\<lambda>d. n_hash (dn_node d)) (nodes_of dv))"
    "j < length (map (\<lambda>d. n_hash (dn_node d)) (nodes_of dv))" "i \<noteq> j"
  then have i: "i < length (nodes_of dv)" and j: "j < length (nodes_of dv)" and ne: "i \<noteq> j" by simp_all
  have "dv_by_hash dv (hash_at (nodes_of dv) i) = Some i" "dv_by_hash dv (hash_at (nodes_of dv) j) = Some j"
    using assms i j by (auto simp: index_ok_def)
  with ne have "hash_at (nodes_of dv) i \<noteq> hash_at (nodes_of dv) j" by auto
  with i j show "map (\<lambda>d. n_hash (dn_node d)) (nodes_of dv) ! i \<noteq> map (\<lambda>d. n_hash (dn_node d)) (nodes_of dv) ! j"
    by (simp add: hash_at_def)
qed

lemma in_hashes_of: "h \<in> hashes_of ns \<longleftrightarrow> (\<exists>r<length ns. hash_at ns r = h)"
  unfolding hashes_of_def hash_at_def set_conv_nth by auto

lemma index_ok_None: "index_ok dv \<Longrightarrow> dv_by_hash dv h = None \<longleftrightarrow> h \<notin> hashes_of (nodes_of dv)"
  unfolding index_ok_def in_hashes_of by (metis option.exhaust option.distinct(1))

lemma hash_at_append: "hash_at (ns @ ms) r = (if r < length ns then hash_at ns r else hash_at ms (r - length ns))"
  by (simp add: hash_at_def nth_append)

lemma hashes_of_append: "hashes_of (ns @ ms) = hashes_of ns \<union> hashes_of ms"
  by (simp add: hashes_of_def image_Un)

subsection \<open>Frames\<close>

lemma register_tool_frame [simp]:
  "dv_set (register_tool ct idx b dv) = dv_set dv"
  "dv_by_hash (register_tool ct idx b dv) = dv_by_hash dv"
  "dv_turns (register_tool ct idx b dv) = dv_turns dv"
  "dv_sessions (register_tool ct idx b dv) = dv_sessions dv"
  by (simp_all add: register_tool_def)

lemma fold_register_frame [simp]:
  "dv_set (fold (register_tool ct idx) bs dv) = dv_set dv"
  "dv_by_hash (fold (register_tool ct idx) bs dv) = dv_by_hash dv"
  "dv_turns (fold (register_tool ct idx) bs dv) = dv_turns dv"
  "dv_sessions (fold (register_tool ct idx) bs dv) = dv_sessions dv"
  by (induction bs arbitrary: dv) simp_all

lemma register_tool_tools: "tools_ok dv \<Longrightarrow> tools_ok (register_tool ct idx b dv)"
  by (auto simp: tools_ok_def register_tool_def)

lemma fold_register_tools: "tools_ok dv \<Longrightarrow> tools_ok (fold (register_tool ct idx) bs dv)"
  by (induction bs arbitrary: dv) (simp_all add: register_tool_tools)

lemma fold_register_index: "index_ok (fold (register_tool ct idx) bs dv) = index_ok dv"
  by (simp add: index_ok_def)

lemma note_call_frame [simp]:
  "nodes_of (note_call ct dv) = nodes_of dv"
  "sources_of (note_call ct dv) = sources_of dv"
  "dv_by_hash (note_call ct dv) = dv_by_hash dv"
  "dv_turns (note_call ct dv) = dv_turns dv"
  "dv_tool_uses (note_call ct dv) = dv_tool_uses dv"
  "dv_tool_seen (note_call ct dv) = dv_tool_seen dv"
  by (simp_all add: note_call_def Let_def set_session_title_def split: option.split)

lemma note_call_sessions: "sessions_ok dv \<Longrightarrow> sessions_ok (note_call ct dv)"
  by (auto simp: sessions_ok_def note_call_def Let_def set_session_title_def split: option.split)

text \<open>The flags a chain of hashes earns when each is compared with what was seen before it.\<close>

fun fresh_flags :: "string set \<Rightarrow> string list \<Rightarrow> bool list" where
  "fresh_flags S [] = []"
| "fresh_flags S (h # hs) = (h \<notin> S) # fresh_flags (insert h S) hs"

text \<open>The nodes of a hash sequence are its first occurrences, in order.\<close>

fun first_occurrences :: "string set \<Rightarrow> string list \<Rightarrow> string list" where
  "first_occurrences S [] = []"
| "first_occurrences S (h # hs) =
     (if h \<in> S then first_occurrences S hs else h # first_occurrences (insert h S) hs)"

lemma first_occurrences_append:
  "first_occurrences S (hs @ ks) = first_occurrences S hs @ first_occurrences (S \<union> set hs) ks"
  by (induction hs arbitrary: S) (auto simp: insert_absorb)

text \<open>What the loop over a chain with hashes \<open>hs\<close> does to the node set: it only appends,
  one node for each hash not seen before, and refers every position to the node of its hash.\<close>

definition extends :: "deriver \<Rightarrow> string list \<Rightarrow> nat list \<Rightarrow> bool list \<Rightarrow> deriver \<Rightarrow> bool" where
  "extends dv hs refs news dv' \<longleftrightarrow> index_ok dv'
     \<and> take (length (nodes_of dv)) (nodes_of dv') = nodes_of dv
     \<and> length (nodes_of dv') = length (nodes_of dv) + length (filter id news)
     \<and> node_hashes (nodes_of dv') = node_hashes (nodes_of dv) @ first_occurrences (hashes_of (nodes_of dv)) hs
     \<and> map (hash_at (nodes_of dv')) refs = hs \<and> (\<forall>r\<in>set refs. r < length (nodes_of dv'))
     \<and> hashes_of (nodes_of dv') = hashes_of (nodes_of dv) \<union> set hs
     \<and> news = fresh_flags (hashes_of (nodes_of dv)) hs
     \<and> sources_of dv' = sources_of dv \<and> dv_turns dv' = dv_turns dv \<and> dv_sessions dv' = dv_sessions dv
     \<and> ds_sessions (dv_set dv') = ds_sessions (dv_set dv)"

lemma fresh_flags_append:
  "fresh_flags S (hs @ ks) = fresh_flags S hs @ fresh_flags (S \<union> set hs) ks"
  by (induction hs arbitrary: S) (simp_all add: insert_commute)

lemma length_fresh_flags [simp]: "length (fresh_flags S hs) = length hs"
  by (induction hs arbitrary: S) simp_all

lemma fresh_flags_seen: "set hs \<subseteq> S \<Longrightarrow> fresh_flags S hs = replicate (length hs) False"
  by (induction hs arbitrary: S) (auto simp: insert_absorb)

lemma extends_refl: "index_ok dv \<Longrightarrow> extends dv [] [] [] dv"
  by (simp add: extends_def)

lemma hash_at_prefix:
  assumes "take (length ns) ns' = ns" and "r < length ns"
  shows "hash_at ns' r = hash_at ns r"
  using assms by (metis hash_at_def nth_take)

lemma extends_trans:
  assumes 1: "extends dv hs refs news dv1" and 2: "extends dv1 ks refs' news' dv2"
  shows "extends dv (hs @ ks) (refs @ refs') (news @ news') dv2"
proof -
  have len1: "length (nodes_of dv) \<le> length (nodes_of dv1)" and len2: "length (nodes_of dv1) \<le> length (nodes_of dv2)"
    using 1 2 by (simp_all add: extends_def)
  have t2: "take (length (nodes_of dv1)) (nodes_of dv2) = nodes_of dv1" using 2 unfolding extends_def by blast
  have r1: "\<forall>r\<in>set refs. r < length (nodes_of dv1)" using 1 unfolding extends_def by blast
  have "take (length (nodes_of dv)) (nodes_of dv2) = take (length (nodes_of dv)) (nodes_of dv1)"
    using t2 len1 by (metis min.absorb1 take_take)
  moreover have "map (hash_at (nodes_of dv2)) refs = map (hash_at (nodes_of dv1)) refs"
    using r1 hash_at_prefix [OF t2] by simp
  moreover have "\<forall>r\<in>set refs. r < length (nodes_of dv2)" using r1 len2 by auto
  moreover have "length (nodes_of dv2) = length (nodes_of dv) + length (filter id (news @ news'))"
    using 1 2 by (simp add: extends_def)
  moreover have "index_ok dv2" "map (hash_at (nodes_of dv1)) refs = hs" "map (hash_at (nodes_of dv2)) refs' = ks"
      "take (length (nodes_of dv)) (nodes_of dv1) = nodes_of dv" "\<forall>r\<in>set refs'. r < length (nodes_of dv2)"
      "hashes_of (nodes_of dv2) = hashes_of (nodes_of dv) \<union> set (hs @ ks)"
      "node_hashes (nodes_of dv2) = node_hashes (nodes_of dv) @ first_occurrences (hashes_of (nodes_of dv)) (hs @ ks)"
      "news @ news' = fresh_flags (hashes_of (nodes_of dv)) (hs @ ks)"
      "sources_of dv2 = sources_of dv" "dv_turns dv2 = dv_turns dv" "dv_sessions dv2 = dv_sessions dv"
      "ds_sessions (dv_set dv2) = ds_sessions (dv_set dv)"
    using 1 2 by (auto simp: extends_def fresh_flags_append first_occurrences_append)
  ultimately show ?thesis unfolding extends_def by (auto simp only: map_append set_append ball_Un)
qed

lemma index_ok_insert:
  assumes ok: "index_ok dv" and none: "dv_by_hash dv (n_hash (dn_node d)) = None"
    and ix: "dv_by_hash dv' = (dv_by_hash dv)(n_hash (dn_node d) \<mapsto> length (nodes_of dv))"
    and ns: "nodes_of dv' = nodes_of dv @ [d]"
  shows "index_ok dv'"
  unfolding index_ok_def
proof (intro allI)
  fix h r
  have notin: "n_hash (dn_node d) \<notin> hashes_of (nodes_of dv)" using index_ok_None [OF ok] none by simp
  show "(dv_by_hash dv' h = Some r) = (r < length (nodes_of dv') \<and> hash_at (nodes_of dv') r = h)"
  proof (cases "r < length (nodes_of dv)")
    case True
    then have "hash_at (nodes_of dv) r \<noteq> n_hash (dn_node d)" using notin by (auto simp: in_hashes_of)
    with True ok show ?thesis unfolding index_ok_def ix ns by (auto simp: hash_at_append)
  next
    case False
    then have "dv_by_hash dv h \<noteq> Some r" using ok by (simp add: index_ok_def)
    with False show ?thesis unfolding ix ns by (auto simp: hash_at_append hash_at_def less_Suc_eq)
  qed
qed

lemma retain_node_extends:
  assumes ok: "index_ok dv" and r: "retain_node ct node dv = (dv', r, new)"
  shows "extends dv [n_hash node] [r] [new] dv'"
proof (cases "dv_by_hash dv (n_hash node)")
  case None
  have notin: "n_hash node \<notin> hashes_of (nodes_of dv)" using index_ok_None [OF ok] None by simp
  define d where "d = \<lparr>dn_node = (clone_retained node (n_request node))
      \<lparr>n_created_at := (if n_created_at node \<noteq> 0 then n_created_at node else ct_captured_at ct)\<rparr>,
      dn_session = ct_session ct,
      dn_captured_at = (if n_created_at node \<noteq> 0 then n_created_at node else ct_captured_at ct)\<rparr>"
  have h: "n_hash (dn_node d) = n_hash node" by (simp add: d_def clone_retained_def)
  have eqs: "r = length (nodes_of dv)" "new" "nodes_of dv' = nodes_of dv @ [d]"
      "dv_by_hash dv' = (dv_by_hash dv)(n_hash (dn_node d) \<mapsto> length (nodes_of dv))"
      "sources_of dv' = sources_of dv" "dv_turns dv' = dv_turns dv" "dv_sessions dv' = dv_sessions dv"
      "ds_sessions (dv_set dv') = ds_sessions (dv_set dv)"
    using r None h by (auto simp: retain_node_def Let_def d_def)
  have "index_ok dv'" using index_ok_insert [OF ok _ eqs(4) eqs(3)] None h by simp
  then show ?thesis using eqs h notin
    by (simp add: extends_def hash_at_append hashes_of_append node_hashes_def) (simp add: hash_at_def hashes_of_def)
next
  case (Some q)
  then have q: "q < length (nodes_of dv)" "hash_at (nodes_of dv) q = n_hash node" using ok by (simp_all add: index_ok_def)
  then have "n_hash node \<in> hashes_of (nodes_of dv)" by (auto simp: in_hashes_of)
  with q Some ok r show ?thesis by (auto simp: retain_node_def extends_def)
qed


lemma fold_register_extends:
  "extends dv hs refs news (fold (register_tool ct idx) bs dv1) = extends dv hs refs news dv1"
  by (simp only: extends_def fold_register_frame fold_register_index)

lemma add_node_extends:
  assumes "index_ok dv" and "add_node ct idx node (dv, refs, news) = (dv', refs', news')"
  shows "\<exists>r new. refs' = refs @ [r] \<and> news' = news @ [new] \<and> extends dv [n_hash node] [r] [new] dv'"
proof -
  obtain dv1 r new where r: "retain_node ct node dv = (dv1, r, new)" by (cases "retain_node ct node dv") auto
  have "extends dv [n_hash node] [r] [new] dv1" by (rule retain_node_extends [OF assms(1) r])
  then have "extends dv [n_hash node] [r] [new] (fold (register_tool ct idx) (b_content (n_bucket node)) dv1)"
    by (simp only: fold_register_extends)
  then show ?thesis using assms(2) r by (auto simp: add_node_def)
qed

lemma fold_add_node_extends:
  "index_ok dv \<Longrightarrow> fold (add_node ct idx) chain (dv, refs0, news0) = (dv', refs', news') \<Longrightarrow>
   \<exists>refs news. refs' = refs0 @ refs \<and> news' = news0 @ news \<and> extends dv (map n_hash chain) refs news dv'"
proof (induction chain arbitrary: dv refs0 news0)
  case Nil
  then show ?case by (auto intro: extends_refl)
next
  case (Cons node chain)
  obtain dv1 refs1 news1 where a: "add_node ct idx node (dv, refs0, news0) = (dv1, refs1, news1)"
    by (cases "add_node ct idx node (dv, refs0, news0)") auto
  from add_node_extends [OF Cons.prems(1) a] obtain r new where
    1: "refs1 = refs0 @ [r]" "news1 = news0 @ [new]" "extends dv [n_hash node] [r] [new] dv1" by blast
  from 1(3) have "index_ok dv1" by (simp add: extends_def)
  with Cons.IH [of dv1 refs1 news1] Cons.prems(2) a obtain refs news where
    2: "refs' = refs1 @ refs" "news' = news1 @ news" "extends dv1 (map n_hash chain) refs news dv'" by auto
  from extends_trans [OF 1(3) 2(3)] 1 2 show ?case
    by (intro exI [where x = "r # refs"] exI [where x = "new # news"]) simp
qed

lemma add_node_tools:
  "tools_ok (fst st) \<Longrightarrow> tools_ok (fst (add_node ct idx node st))"
proof -
  assume ok: "tools_ok (fst st)"
  obtain dv refs news where st: "st = (dv, refs, news)" by (rule prod_cases3)
  obtain dv1 r new where r: "retain_node ct node dv = (dv1, r, new)" by (rule prod_cases3)
  then have "tools_ok dv1 = tools_ok dv"
    by (auto simp: retain_node_def tools_ok_def Let_def split: option.splits)
  with ok st r show ?thesis by (simp add: add_node_def fold_register_tools)
qed

lemma fold_add_node_tools:
  "tools_ok (fst st) \<Longrightarrow> tools_ok (fst (fold (add_node ct idx) chain st))"
  by (induction chain arbitrary: st) (simp_all add: add_node_tools)

lemma note_call_index: "index_ok (note_call ct dv) = index_ok dv"
  by (simp add: index_ok_def)

lemma note_call_tools: "tools_ok (note_call ct dv) = tools_ok dv"
  by (simp add: tools_ok_def)

text \<open>What one turn does: the source it records carries the exact flags of the dedup and
  references to nodes with the chain's hashes, and the node set grows by the new ones only.\<close>

lemma add_chain_turn_spec:
  assumes ok: "index_ok dv" and ne: "ct_chain ct \<noteq> []"
  obtains refs news dv1 s where
    "extends (note_call ct dv) (map n_hash (ct_chain ct)) refs news dv1"
    "fold (add_node ct (length (dv_turns dv))) (ct_chain ct) (note_call ct dv, [], []) = (dv1, refs, news)"
    "s = \<lparr>ss_raw_turn_id = ct_raw_turn_id ct, ss_request_id = ct_request_id ct,
              ss_captured_at = ct_captured_at ct, ss_kind = n_kind (last (ct_chain ct)), ss_thread_id = ct_thread_id ct,
              ss_session = ct_session ct, ss_source = ct_source ct, ss_chain = refs, ss_new = news,
              ss_anchor = ct_anchor ct, ss_turn_identity = ct_turn_identity ct\<rparr>"
    "sources_of (add_chain_turn ct dv) = sources_of dv @ [s]"
    "nodes_of (add_chain_turn ct dv) = nodes_of dv1"
    "dv_by_hash (add_chain_turn ct dv) = dv_by_hash dv1"
    "dv_sessions (add_chain_turn ct dv) = dv_sessions (note_call ct dv)"
    "ds_sessions (dv_set (add_chain_turn ct dv)) = ds_sessions (dv_set (note_call ct dv))"
    "dv_tool_uses (add_chain_turn ct dv) = dv_tool_uses dv1"
    "dv_tool_seen (add_chain_turn ct dv) = dv_tool_seen dv1"
    "dv_turns (add_chain_turn ct dv) = dv_turns dv @
       [\<lparr>at_kind = n_kind (last (ct_chain ct)), at_index = length (dv_turns dv), at_thread_id = ct_thread_id ct,
         at_judged_action = ct_judged_action ct, at_nodes = refs, at_source = length (sources_of dv)\<rparr>]"
proof -
  obtain dv1 refs news where f:
    "fold (add_node ct (length (dv_turns dv))) (ct_chain ct) (note_call ct dv, [], []) = (dv1, refs, news)"
    by (metis prod_cases3)
  have e: "extends (note_call ct dv) (map n_hash (ct_chain ct)) refs news dv1"
    using fold_add_node_extends [OF _ f] ok by (simp add: note_call_index)
  then have fr: "sources_of dv1 = sources_of dv" "dv_turns dv1 = dv_turns dv"
      "dv_sessions dv1 = dv_sessions (note_call ct dv)"
      "ds_sessions (dv_set dv1) = ds_sessions (dv_set (note_call ct dv))"
    by (simp_all add: extends_def)
  show ?thesis by (rule that [OF e f refl]) (simp_all add: add_chain_turn_def Let_def ne f fr)
qed

lemma dv_inv_report [simp]: "dv_inv (dv\<lparr>dv_set := (dv_set dv)\<lparr>ds_report := r\<rparr>\<rparr>) = dv_inv dv"
  by (simp add: dv_inv_def dv_ok_defs)

lemma add_chain_turn_inv:
  assumes inv: "dv_inv dv"
  shows "dv_inv (add_chain_turn ct dv)"
proof (cases "ct_chain ct = []")
  case True
  then show ?thesis using inv by (simp add: add_chain_turn_def)
next
  case False
  have ok: "index_ok dv" using inv by (simp add: dv_inv_def)
  let ?dv' = "add_chain_turn ct dv"
  from add_chain_turn_spec [OF ok False] obtain refs news dv1 s where
    e: "extends (note_call ct dv) (map n_hash (ct_chain ct)) refs news dv1" and
    f: "fold (add_node ct (length (dv_turns dv))) (ct_chain ct) (note_call ct dv, [], []) = (dv1, refs, news)" and
    s: "s = \<lparr>ss_raw_turn_id = ct_raw_turn_id ct, ss_request_id = ct_request_id ct,
              ss_captured_at = ct_captured_at ct, ss_kind = n_kind (last (ct_chain ct)), ss_thread_id = ct_thread_id ct,
              ss_session = ct_session ct, ss_source = ct_source ct, ss_chain = refs, ss_new = news,
              ss_anchor = ct_anchor ct, ss_turn_identity = ct_turn_identity ct\<rparr>" and
    srcs: "sources_of ?dv' = sources_of dv @ [s]" and nodes: "nodes_of ?dv' = nodes_of dv1" and
    ix: "dv_by_hash ?dv' = dv_by_hash dv1" and
    ses: "dv_sessions ?dv' = dv_sessions (note_call ct dv)"
         "ds_sessions (dv_set ?dv') = ds_sessions (dv_set (note_call ct dv))" and
    tu: "dv_tool_uses ?dv' = dv_tool_uses dv1" "dv_tool_seen ?dv' = dv_tool_seen dv1" and
    tn: "dv_turns ?dv' = dv_turns dv @
       [\<lparr>at_kind = n_kind (last (ct_chain ct)), at_index = length (dv_turns dv), at_thread_id = ct_thread_id ct,
         at_judged_action = ct_judged_action ct, at_nodes = refs, at_source = length (sources_of dv)\<rparr>]"
    by metis
  have "index_ok ?dv'" using e by (simp add: extends_def index_ok_def ix nodes)
  moreover have "tools_ok ?dv'"
    using fold_add_node_tools [of "(note_call ct dv, [], [])" ct "length (dv_turns dv)" "ct_chain ct"] inv
    by (simp add: f note_call_tools dv_inv_def) (simp add: tools_ok_def tu)
  moreover have "sources_ok ?dv'"
  proof -
    have "length (nodes_of dv) \<le> length (nodes_of dv1)" "refs \<noteq> []" "length news = length refs"
        "\<forall>r\<in>set refs. r < length (nodes_of dv1)"
        "length (nodes_of dv1) = length (nodes_of dv) + length (filter id news)"
      using e False by (auto simp: extends_def dest: arg_cong [where f = length])
    with inv show ?thesis unfolding dv_inv_def sources_ok_def srcs nodes s by fastforce
  qed
  moreover have "turns_ok ?dv'"
    using inv unfolding dv_inv_def turns_ok_def srcs tn s by (auto simp: nth_append less_Suc_eq)
  moreover have "sessions_ok ?dv'"
    using note_call_sessions [of dv ct] inv by (simp add: dv_inv_def sessions_ok_def ses)
  ultimately show ?thesis by (simp add: dv_inv_def)
qed

lemma new_deriver_inv: "dv_inv (new_deriver project)"
  by (simp add: dv_inv_def dv_ok_defs new_deriver_def)

lemma add_turn_inv: "dv_inv dv \<Longrightarrow> dv_inv (add_turn ext rec dv)"
  unfolding add_turn_def Let_def
  by (cases "rederive_chain ext rec (dv_project dv)") (simp_all add: add_chain_turn_inv)

lemma probe_turn_frame [simp]:
  "dv_set (probe_turn ext orec dv) = dv_set dv" "dv_inv (probe_turn ext orec dv) = dv_inv dv"
  by (simp_all add: probe_turn_def dv_inv_def dv_ok_defs split: option.split rederive_result.split)

lemma add_transcript_turn_inv: "dv_inv dv \<Longrightarrow> dv_inv (add_transcript_turn t dv)"
  by (simp add: add_transcript_turn_def add_chain_turn_inv)


subsection \<open>Runs\<close>

text \<open>A derive pass feeds the deriver wire and transcript turns in order; a probe only counts a
  wire call that an earlier pass folded.\<close>

datatype derive_input = Wire raw_turn_record | Transcript transcript_turn | Probe "raw_turn_record option"

fun derive_step :: "externs \<Rightarrow> derive_input \<Rightarrow> deriver \<Rightarrow> deriver" where
  "derive_step ext (Wire rec) dv = add_turn ext rec dv"
| "derive_step ext (Transcript t) dv = add_transcript_turn t dv"
| "derive_step ext (Probe orec) dv = probe_turn ext orec dv"

definition derive_all :: "externs \<Rightarrow> string \<Rightarrow> derive_input list \<Rightarrow> deriver" where
  "derive_all ext project ins = fold (derive_step ext) ins (new_deriver project)"

lemma derive_step_inv: "dv_inv dv \<Longrightarrow> dv_inv (derive_step ext i dv)"
  by (cases i) (simp_all add: add_turn_inv add_transcript_turn_inv)

lemma fold_derive_inv: "dv_inv dv \<Longrightarrow> dv_inv (fold (derive_step ext) ins dv)"
  by (induction ins arbitrary: dv) (simp_all add: derive_step_inv)

lemma derive_all_inv: "dv_inv (derive_all ext project ins)"
  by (simp add: derive_all_def fold_derive_inv new_deriver_inv)

text \<open>Folding turns leaves the counters of the attach passes alone.\<close>

abbreviation attach_count :: "rederive_report \<Rightarrow> int" where
  "attach_count r \<equiv> rr_attached_verdicts r + rr_web_summary_attached r + rr_plans_attached r"

lemma note_call_count [simp]:
  "attach_count (ds_report (dv_set (note_call ct dv))) = attach_count (ds_report (dv_set dv))"
  by (simp add: note_call_def Let_def set_session_title_def split: option.split)

lemma fold_add_node_count:
  "attach_count (ds_report (dv_set (fst (fold (add_node ct idx) chain st)))) = attach_count (ds_report (dv_set (fst st)))"
  by (induction chain arbitrary: st)
     (simp_all add: add_node_def retain_node_def Let_def split: prod.split option.split)

lemma add_chain_turn_count [simp]:
  "attach_count (ds_report (dv_set (add_chain_turn ct dv))) = attach_count (ds_report (dv_set dv))"
  using fold_add_node_count [of ct "length (dv_turns dv)" "ct_chain ct" "(note_call ct dv, [], [])"]
  by (auto simp: add_chain_turn_def Let_def split: prod.split)

lemma derive_step_count [simp]:
  "attach_count (ds_report (dv_set (derive_step ext i dv))) = attach_count (ds_report (dv_set dv))"
  by (cases i)
     (simp_all add: add_turn_def add_transcript_turn_def Let_def split: rederive_result.split)

lemma derive_all_count: "attach_count (ds_report (dv_set (derive_all ext project ins))) = 0"
proof -
  have "attach_count (ds_report (dv_set (fold (derive_step ext) ins dv))) = attach_count (ds_report (dv_set dv))" for dv
    by (induction ins arbitrary: dv) simp_all
  from this [of "new_deriver project"] show ?thesis
    unfolding derive_all_def by (simp add: new_deriver_def empty_report_def)
qed

text \<open>Everything a run does to nodes and sources goes through \<open>add_chain_turn\<close>: the chains of an
  input, given the project, are those that \<open>chain_of\<close> returns.\<close>

definition chain_of :: "externs \<Rightarrow> string \<Rightarrow> derive_input \<Rightarrow> node list" where
  "chain_of ext project i = (case i of
      Wire rec \<Rightarrow> (case rederive_chain ext rec project of Rederived c \<Rightarrow> c | _ \<Rightarrow> [])
    | Transcript t \<Rightarrow> tt_chain t
    | Probe _ \<Rightarrow> [])"

lemma note_call_project [simp]: "dv_project (note_call ct dv) = dv_project dv"
  by (simp add: note_call_def Let_def set_session_title_def split: option.split)

lemma register_tool_project [simp]: "dv_project (fold (register_tool ct idx) bs dv) = dv_project dv"
  by (induction bs arbitrary: dv) (simp_all add: register_tool_def)

lemma fold_add_node_project:
  "dv_project (fst (fold (add_node ct idx) chain st)) = dv_project (fst st)"
  by (induction chain arbitrary: st)
     (simp_all add: add_node_def retain_node_def Let_def split: prod.split option.split)

lemma add_chain_turn_project [simp]: "dv_project (add_chain_turn ct dv) = dv_project dv"
  using fold_add_node_project [of ct "length (dv_turns dv)" "ct_chain ct" "(note_call ct dv, [], [])"]
  by (auto simp: add_chain_turn_def Let_def split: prod.split)

lemma add_chain_turn_empty: "ct_chain ct = [] \<Longrightarrow> add_chain_turn ct dv = dv"
  by (simp add: add_chain_turn_def)

lemma ct_chain_wire [simp]: "ct_chain (wire_chain_turn ext rec chain) = chain"
  by (simp add: wire_chain_turn_def Let_def)

text \<open>The abstract state of a run: the hash of every position of every source, the flags those
  positions carry, and the hashes of the nodes.\<close>

definition positions_of :: "deriver \<Rightarrow> string list" where
  "positions_of dv = concat (map (\<lambda>s. map (hash_at (nodes_of dv)) (ss_chain s)) (sources_of dv))"

definition flags_of :: "deriver \<Rightarrow> bool list" where
  "flags_of dv = concat (map ss_new (sources_of dv))"

definition dedup_ok :: "deriver \<Rightarrow> bool" where
  "dedup_ok dv \<longleftrightarrow> flags_of dv = fresh_flags {} (positions_of dv)
     \<and> node_hashes (nodes_of dv) = first_occurrences {} (positions_of dv)"

lemma set_first_occurrences: "set (first_occurrences S hs) = set hs - S"
  by (induction hs arbitrary: S) auto

lemma dedup_hashes: "dedup_ok dv \<Longrightarrow> hashes_of (nodes_of dv) = set (positions_of dv)"
  unfolding dedup_ok_def hashes_of_def
  by (metis Diff_empty list.set_map node_hashes_def set_first_occurrences)


lemma positions_of_append:
  assumes "take (length (nodes_of dv)) (nodes_of dv') = nodes_of dv" and "sources_ok dv"
    and "sources_of dv' = sources_of dv @ [s]"
  shows "positions_of dv' = positions_of dv @ map (hash_at (nodes_of dv')) (ss_chain s)"
proof -
  have "map (\<lambda>s. map (hash_at (nodes_of dv')) (ss_chain s)) (sources_of dv)
      = map (\<lambda>s. map (hash_at (nodes_of dv)) (ss_chain s)) (sources_of dv)"
    using assms(2) hash_at_prefix [OF assms(1)] by (auto simp: sources_ok_def)
  then have "concat (map (\<lambda>s. map (hash_at (nodes_of dv')) (ss_chain s)) (sources_of dv)) = positions_of dv"
    unfolding positions_of_def by (rule arg_cong)
  with assms(3) show ?thesis by (simp add: positions_of_def [of dv'])
qed

lemma add_chain_turn_grows:
  assumes inv: "dv_inv dv"
  shows "take (length (nodes_of dv)) (nodes_of (add_chain_turn ct dv)) = nodes_of dv
    \<and> take (length (sources_of dv)) (sources_of (add_chain_turn ct dv)) = sources_of dv
    \<and> positions_of (add_chain_turn ct dv) = positions_of dv @ map n_hash (ct_chain ct)
    \<and> flags_of (add_chain_turn ct dv) = flags_of dv @ fresh_flags (hashes_of (nodes_of dv)) (map n_hash (ct_chain ct))
    \<and> node_hashes (nodes_of (add_chain_turn ct dv)) = node_hashes (nodes_of dv) @
        first_occurrences (hashes_of (nodes_of dv)) (map n_hash (ct_chain ct))"
proof (cases "ct_chain ct = []")
  case True
  then show ?thesis by (simp add: add_chain_turn_def)
next
  case False
  have ok: "index_ok dv" and so: "sources_ok dv" using inv by (simp_all add: dv_inv_def)
  from add_chain_turn_spec [OF ok False] obtain refs news dv1 s where
    e: "extends (note_call ct dv) (map n_hash (ct_chain ct)) refs news dv1" and
    s: "ss_chain s = refs" "ss_new s = news" and
    srcs: "sources_of (add_chain_turn ct dv) = sources_of dv @ [s]" and
    nodes: "nodes_of (add_chain_turn ct dv) = nodes_of dv1"
    by (metis span_source.select_convs(8,9))
  have t: "take (length (nodes_of dv)) (nodes_of (add_chain_turn ct dv)) = nodes_of dv"
    using e by (simp add: extends_def nodes)
  from e show ?thesis
    using positions_of_append [OF t so srcs] t srcs s by (simp add: extends_def nodes flags_of_def)
qed

text \<open>A deriver with the same nodes and sources is the same for these purposes.\<close>

lemma same_set_views:
  assumes "nodes_of dv' = nodes_of dv" and "sources_of dv' = sources_of dv"
  shows "positions_of dv' = positions_of dv" "flags_of dv' = flags_of dv"
  using assms by (simp_all add: positions_of_def flags_of_def)

lemma derive_step_cases:
  obtains (same) "nodes_of (derive_step ext i dv) = nodes_of dv" "sources_of (derive_step ext i dv) = sources_of dv"
      "chain_of ext (dv_project dv) i = []"
  | (turn) ct r where "derive_step ext i dv = add_chain_turn ct (dv\<lparr>dv_set := (dv_set dv)\<lparr>ds_report := r\<rparr>\<rparr>)"
      "ct_chain ct = chain_of ext (dv_project dv) i"
proof (cases i)
  case (Wire rec)
  show ?thesis
  proof (cases "rederive_chain ext rec (dv_project dv)")
    case (Rederived chain)
    then show ?thesis using Wire turn [of "wire_chain_turn ext rec chain"
        "(ds_report (dv_set dv))\<lparr>rr_raw_turns := rr_raw_turns (ds_report (dv_set dv)) + 1,
            rr_parsed_turns := rr_parsed_turns (ds_report (dv_set dv)) + 1\<rparr>"]
      by (simp add: add_turn_def chain_of_def Let_def)
  qed (use Wire same in \<open>auto simp: add_turn_def chain_of_def Let_def\<close>)
next
  case (Transcript t)
  show ?thesis
  proof (cases "tt_chain t = []")
    case True
    then show ?thesis using Transcript same by (simp add: add_transcript_turn_def chain_of_def)
  next
    case False
    have "dv\<lparr>dv_set := (dv_set dv)\<lparr>ds_report := ds_report (dv_set dv)\<rparr>\<rparr> = dv" by simp
    with False Transcript turn [where r = "ds_report (dv_set dv)"] show ?thesis
      by (simp add: add_transcript_turn_def chain_of_def)
  qed
next
  case (Probe x)
  then show ?thesis using same by (simp add: chain_of_def)
qed

lemma derive_step_grows:
  assumes inv: "dv_inv dv"
  shows "take (length (nodes_of dv)) (nodes_of (derive_step ext i dv)) = nodes_of dv
    \<and> take (length (sources_of dv)) (sources_of (derive_step ext i dv)) = sources_of dv
    \<and> positions_of (derive_step ext i dv) = positions_of dv @ map n_hash (chain_of ext (dv_project dv) i)
    \<and> flags_of (derive_step ext i dv) =
        flags_of dv @ fresh_flags (hashes_of (nodes_of dv)) (map n_hash (chain_of ext (dv_project dv) i))
    \<and> node_hashes (nodes_of (derive_step ext i dv)) = node_hashes (nodes_of dv) @
        first_occurrences (hashes_of (nodes_of dv)) (map n_hash (chain_of ext (dv_project dv) i))"
proof (cases rule: derive_step_cases [of ext i dv])
  case same
  then show ?thesis by (simp add: same_set_views [OF same(1,2)])
next
  case (turn ct r)
  define dvr where "dvr = dv\<lparr>dv_set := (dv_set dv)\<lparr>ds_report := r\<rparr>\<rparr>"
  have n: "nodes_of dvr = nodes_of dv" and s: "sources_of dvr = sources_of dv" and i: "dv_inv dvr"
    using inv by (simp_all add: dvr_def)
  have step: "derive_step ext i dv = add_chain_turn ct dvr" using turn(1) by (simp add: dvr_def)
  show ?thesis using add_chain_turn_grows [OF i, of ct]
    by (simp only: step turn(2) n s same_set_views [OF n s])
qed

lemma derive_step_project [simp]: "dv_project (derive_step ext i dv) = dv_project dv"
  by (cases i)
     (simp_all add: add_turn_def add_transcript_turn_def probe_turn_def Let_def
       split: rederive_result.split option.split)

lemma fold_derive_project [simp]: "dv_project (fold (derive_step ext) ins dv) = dv_project dv"
  by (induction ins arbitrary: dv) simp_all

lemma derive_all_project [simp]: "dv_project (derive_all ext project ins) = project"
  by (simp add: derive_all_def) (simp add: new_deriver_def)

lemma derive_all_snoc: "derive_all ext project (ins @ [i]) = derive_step ext i (derive_all ext project ins)"
  by (simp add: derive_all_def)

text \<open>A whole run, seen abstractly: its positions are the hashes of the inputs' chains in order.\<close>

definition input_hashes :: "externs \<Rightarrow> string \<Rightarrow> derive_input list \<Rightarrow> string list" where
  "input_hashes ext project ins = concat (map (\<lambda>i. map n_hash (chain_of ext project i)) ins)"

lemma derive_all_views:
  "positions_of (derive_all ext project ins) = input_hashes ext project ins
   \<and> dedup_ok (derive_all ext project ins)"
proof (induction ins rule: rev_induct)
  case Nil
  show ?case
    by (simp add: derive_all_def new_deriver_def positions_of_def dedup_ok_def flags_of_def
        node_hashes_def input_hashes_def)
next
  case (snoc i ins)
  have "hashes_of (nodes_of (derive_all ext project ins)) = set (input_hashes ext project ins)"
    using snoc dedup_hashes by simp
  then show ?case
    using snoc derive_step_grows [where dv = "derive_all ext project ins" and ext = ext and i = i, OF derive_all_inv]
    by (simp add: derive_all_snoc dedup_ok_def fresh_flags_append first_occurrences_append input_hashes_def)
qed


subsection \<open>Properties\<close>

text \<open>C4: the derived node set is the dedup of the wire. For every sequence of captured turns,
  transcript turns and probes, the hashes of the retained nodes are the first occurrences, in
  order, of the hashes of the turns' chains, with no hash twice; each source refers, position by
  position, to nodes with the hashes of its chain; and the new flags mark exactly the positions
  that introduced a node.\<close>

theorem derive_dedup:
  "node_hashes (nodes_of (derive_all ext project ins)) = first_occurrences {} (input_hashes ext project ins)
   \<and> distinct (node_hashes (nodes_of (derive_all ext project ins)))
   \<and> positions_of (derive_all ext project ins) = input_hashes ext project ins
   \<and> flags_of (derive_all ext project ins) = fresh_flags {} (input_hashes ext project ins)"
  using derive_all_views [of ext project ins] index_ok_distinct [of "derive_all ext project ins"]
    derive_all_inv [of ext project ins]
  by (simp add: dedup_ok_def node_hashes_def dv_inv_def)

text \<open>The deriver is incremental and the first capture wins. Folding more inputs after a run
  leaves every retained node and every span source of that run in place, unchanged, at the same
  index.\<close>

theorem derive_append_only:
  "take (length (nodes_of (derive_all ext project ins))) (nodes_of (derive_all ext project (ins @ later)))
     = nodes_of (derive_all ext project ins)
   \<and> take (length (sources_of (derive_all ext project ins))) (sources_of (derive_all ext project (ins @ later)))
     = sources_of (derive_all ext project ins)"
proof (induction later rule: rev_induct)
  case Nil
  then show ?case by simp
next
  case (snoc i later)
  let ?d = "derive_all ext project (ins @ later)"
  have g: "take (length (nodes_of ?d)) (nodes_of (derive_step ext i ?d)) = nodes_of ?d"
      "take (length (sources_of ?d)) (sources_of (derive_step ext i ?d)) = sources_of ?d"
    using derive_step_grows [OF derive_all_inv] by blast+
  have le: "length (nodes_of (derive_all ext project ins)) \<le> length (nodes_of ?d)"
      "length (sources_of (derive_all ext project ins)) \<le> length (sources_of ?d)"
    using snoc by (metis length_take min.cobounded1)+
  have "derive_all ext project (ins @ later @ [i]) = derive_step ext i ?d"
    using derive_all_snoc [of ext project "ins @ later" i] by simp
  with snoc g le show ?case by (metis min.absorb1 take_take)
qed

text \<open>Replaying a captured turn adds nothing. If a raw turn was folded before, folding it
  again retains no further node, and none of the positions it adds is flagged new.\<close>

theorem derive_replay:
  assumes "Wire rec \<in> set ins"
  shows "nodes_of (derive_all ext project (ins @ [Wire rec])) = nodes_of (derive_all ext project ins)
    \<and> flags_of (derive_all ext project (ins @ [Wire rec])) = flags_of (derive_all ext project ins)
        @ replicate (length (chain_of ext project (Wire rec))) False"
proof -
  let ?d = "derive_all ext project ins" and ?hs = "map n_hash (chain_of ext project (Wire rec))"
  let ?e = "derive_all ext project (ins @ [Wire rec])"
  have "set ?hs \<subseteq> set (input_hashes ext project ins)" using assms by (auto simp: input_hashes_def)
  then have sub: "set ?hs \<subseteq> hashes_of (nodes_of ?d)" using derive_all_views dedup_hashes by metis
  have g: "take (length (nodes_of ?d)) (nodes_of ?e) = nodes_of ?d"
    "flags_of ?e = flags_of ?d @ fresh_flags (hashes_of (nodes_of ?d)) ?hs"
    "node_hashes (nodes_of ?e) = node_hashes (nodes_of ?d) @ first_occurrences (hashes_of (nodes_of ?d)) ?hs"
    using derive_step_grows [where dv = "derive_all ext project ins" and ext = ext and i = "Wire rec", OF derive_all_inv]
    by (simp_all add: derive_all_snoc)
  have "first_occurrences (hashes_of (nodes_of ?d)) ?hs = []"
    using set_first_occurrences [of "hashes_of (nodes_of ?d)" ?hs] sub by (metis Diff_eq_empty_iff set_empty)
  then have "length (nodes_of ?e) = length (nodes_of ?d)"
    using g(3) by (metis append_Nil2 length_map node_hashes_def)
  with g fresh_flags_seen [OF sub] show ?thesis by simp
qed

definition replay_externs :: externs where
  "replay_externs = sample_externs\<lparr>ext_parse_request := (\<lambda>_ _. Inr sample_main),
     ext_response := (\<lambda>_. Inr (sample_response ''ok''))\<rparr>"

definition sample_raw :: raw_turn_record where
  "sample_raw = \<lparr>rt_id = 1, rt_source = source_wire, rt_provider = ''anthropic'', rt_agent_name = ''claude'',
     rt_harness_id = ''claude-code'', rt_harness_session_id = ''s'', rt_request_id = ''r'', rt_raw_request = ''q'',
     rt_response = ''a'', rt_meta = [], rt_session_envelope = [], rt_received_at = 7\<rparr>"

lemma derive_replay_witness:
  "chain_of replay_externs ''p'' (Wire sample_raw) \<noteq> []
   \<and> nodes_of (derive_all replay_externs ''p'' ([Wire sample_raw] @ [Wire sample_raw]))
      = nodes_of (derive_all replay_externs ''p'' [Wire sample_raw])"
proof
  show "chain_of replay_externs ''p'' (Wire sample_raw) \<noteq> []" by code_simp
  show "nodes_of (derive_all replay_externs ''p'' ([Wire sample_raw] @ [Wire sample_raw]))
      = nodes_of (derive_all replay_externs ''p'' [Wire sample_raw])"
    using derive_replay [of sample_raw "[Wire sample_raw]" replay_externs "''p''"] by simp
qed

end
