(* ===== verification/AttachPass.thy ===== *)
theory AttachPass
  imports Deriver "HOL-Library.Multiset"
begin

text \<open>
  The cross-call attach passes of \<open>pkg/derive/attach.go\<close> and \<open>Deriver.Finish\<close>: permission
  checks, web summaries and plan names are linked to the tool use they are about by stamping
  its id on the call's span source and on the call's own nodes. The candidates are the tool-use
  registry of the deriver; a candidate is consumed by its first attachment.
\<close>

record attach_state =
  as_set :: derived_set
  as_cands :: "tool_use_ref list"

abbreviation consume :: "nat \<Rightarrow> tool_use_ref list \<Rightarrow> tool_use_ref list" where
  "consume i cs \<equiv> upd_at cs i (\<lambda>u. u\<lparr>tu_consumed := True\<rparr>)"

text \<open>The stamp: the anchor of the turn's source, and the parent of those of the turn's nodes
  that carry the turn's own kind.\<close>

definition stamp_node :: "string \<Rightarrow> string \<Rightarrow> derived_node \<Rightarrow> derived_node" where
  "stamp_node kind tid d =
     (if n_kind (dn_node d) = kind then d\<lparr>dn_node := (dn_node d)\<lparr>n_parent_tool_use_id := tid\<rparr>\<rparr> else d)"

definition stamp_turn :: "string \<Rightarrow> attach_turn \<Rightarrow> derived_set \<Rightarrow> derived_set" where
  "stamp_turn tid t s =
     s\<lparr>ds_sources := upd_at (ds_sources s) (at_source t) (\<lambda>src. src\<lparr>ss_anchor := tid\<rparr>),
       ds_nodes := fold (\<lambda>r ns. upd_at ns r (stamp_node (at_kind t) tid)) (at_nodes t) (ds_nodes s)\<rparr>"

abbreviation set_report :: "(rederive_report \<Rightarrow> rederive_report) \<Rightarrow> derived_set \<Rightarrow> derived_set" where
  "set_report f s \<equiv> s\<lparr>ds_report := f (ds_report s)\<rparr>"

subsection \<open>Permission checks\<close>

record check_group =
  cg_action :: string
  cg_thread_id :: string
  cg_turns :: "attach_turn list"

text \<open>The groups in order of their first check. The code keeps them in a map by action as well;
  the first group of that list that fits is the first fitting one with that action here.\<close>

definition group_fits :: "attach_turn \<Rightarrow> check_group \<Rightarrow> bool" where
  "group_fits t g \<longleftrightarrow> cg_action g = at_judged_action t
     \<and> (at_thread_id t = [] \<or> cg_thread_id g = [] \<or> cg_thread_id g = at_thread_id t)"

definition group_check :: "attach_turn \<Rightarrow> check_group list \<Rightarrow> check_group list" where
  "group_check t gs =
     (if at_kind t \<noteq> kind_check_stage1 \<and> at_kind t \<noteq> kind_check_stage2 then gs
      else if at_judged_action t = [] then gs
      else
        let (gs', i) = (case find_index (group_fits t) gs of
              Some i \<Rightarrow> (gs, i)
            | None \<Rightarrow> (gs @ [\<lparr>cg_action = at_judged_action t, cg_thread_id = at_thread_id t, cg_turns = []\<rparr>],
                       length gs))
        in upd_at gs' i (\<lambda>g. g\<lparr>cg_turns := cg_turns g @ [t],
             cg_thread_id := (if cg_thread_id g = [] then at_thread_id t else cg_thread_id g)\<rparr>))"

definition group_checks :: "attach_turn list \<Rightarrow> check_group list" where
  "group_checks turns = fold group_check turns []"

definition attach_group :: "check_group \<Rightarrow> attach_state \<Rightarrow> attach_state" where
  "attach_group g st =
     (let ref = (case match_tool_use (as_cands st) (cg_action g) (cg_thread_id g) True of
                   Some i \<Rightarrow> Some i
                 | None \<Rightarrow> match_tool_use (as_cands st) (cg_action g) (cg_thread_id g) False)
      in case ref of
           None \<Rightarrow> st\<lparr>as_set := set_report (\<lambda>r.
               if length (rr_unattached_actions r) < max_reported_missing
               then r\<lparr>rr_unattached_actions := rr_unattached_actions r @
                      [''thread='' @ cg_thread_id g @ '' action='' @ truncate_action (cg_action g)]\<rparr>
               else r) (as_set st)\<rparr>
         | Some i \<Rightarrow>
             st\<lparr>as_cands := consume i (as_cands st),
                as_set := fold (stamp_turn (tu_id (as_cands st ! i))) (cg_turns g)
                  (set_report (\<lambda>r. r\<lparr>rr_attached_verdicts := rr_attached_verdicts r + 1\<rparr>) (as_set st))\<rparr>)"

definition attach_verdicts :: "attach_turn list \<Rightarrow> attach_state \<Rightarrow> attach_state" where
  "attach_verdicts turns st =
     (let order = group_checks turns
      in fold attach_group order
           (st\<lparr>as_set := set_report (\<lambda>r. r\<lparr>rr_judged_actions := int (length order)\<rparr>) (as_set st)\<rparr>))"

subsection \<open>Web summaries and plan names\<close>

text \<open>The candidate loop: the latest eligible candidate, the last one among equals.\<close>

definition latest_candidate :: "(tool_use_ref \<Rightarrow> bool) \<Rightarrow> tool_use_ref list \<Rightarrow> nat option" where
  "latest_candidate eligible cs =
     fold (\<lambda>i best. if \<not> eligible (cs ! i) then best
            else case best of None \<Rightarrow> Some i
              | Some b \<Rightarrow> if tu_at_turn (cs ! b) \<le> tu_at_turn (cs ! i) then Some i else Some b)
       [0..<length cs] None"

definition attach_web_summary :: "attach_turn \<Rightarrow> attach_state \<Rightarrow> attach_state" where
  "attach_web_summary t st =
     (if at_kind t \<noteq> kind_web_summary then st
      else case latest_candidate (\<lambda>u. tu_web_tool u \<and> \<not> tu_consumed u \<and> tu_at_turn u \<le> at_index t) (as_cands st) of
        None \<Rightarrow> st
      | Some i \<Rightarrow>
          st\<lparr>as_cands := consume i (as_cands st),
             as_set := stamp_turn (tu_id (as_cands st ! i)) t
               (set_report (\<lambda>r. r\<lparr>rr_web_summary_attached := rr_web_summary_attached r + 1\<rparr>) (as_set st))\<rparr>)"

definition is_exit_plan_mode :: "string \<Rightarrow> bool" where
  "is_exit_plan_mode name \<longleftrightarrow> map lower_char name = ''exitplanmode''"

definition attach_plan :: "attach_turn \<Rightarrow> attach_state \<Rightarrow> attach_state" where
  "attach_plan t st =
     (if at_kind t \<noteq> kind_plan_name_gen then st
      else case latest_candidate (\<lambda>u. \<not> tu_consumed u \<and> tu_at_turn u \<le> at_index t \<and> is_exit_plan_mode (tu_name u))
             (as_cands st) of
        None \<Rightarrow> st
      | Some i \<Rightarrow>
          st\<lparr>as_cands := consume i (as_cands st),
             as_set := stamp_turn (tu_id (as_cands st ! i)) t
               (set_report (\<lambda>r. r\<lparr>rr_plans_attached := rr_plans_attached r + 1\<rparr>) (as_set st))\<rparr>)"

definition attach_web_summaries :: "attach_turn list \<Rightarrow> attach_state \<Rightarrow> attach_state" where
  "attach_web_summaries turns st = fold attach_web_summary turns st"

definition attach_plans :: "attach_turn list \<Rightarrow> attach_state \<Rightarrow> attach_state" where
  "attach_plans turns st = fold attach_plan turns st"

definition run_attach :: "attach_turn list \<Rightarrow> attach_state \<Rightarrow> attach_state" where
  "run_attach turns st = attach_plans turns (attach_web_summaries turns (attach_verdicts turns st))"

definition finish_deriver :: "deriver \<Rightarrow> derived_set" where
  "finish_deriver dv =
     (let s = as_set (run_attach (dv_turns dv) \<lparr>as_set = dv_set dv, as_cands = dv_tool_uses dv\<rparr>)
      in set_report (\<lambda>r. r\<lparr>rr_nodes := int (length (ds_nodes s))\<rparr>) s)"

subsection \<open>What a pass may do\<close>

definition forget_link :: "derived_node \<Rightarrow> derived_node" where
  "forget_link d = d\<lparr>dn_node := (dn_node d)\<lparr>n_parent_tool_use_id := []\<rparr>\<rparr>"

definition forget_anchor :: "span_source \<Rightarrow> span_source" where
  "forget_anchor s = s\<lparr>ss_anchor := []\<rparr>"

definition forget_use :: "tool_use_ref \<Rightarrow> tool_use_ref" where
  "forget_use u = u\<lparr>tu_consumed := False\<rparr>"

abbreviation node_link :: "derived_node \<Rightarrow> string" where
  "node_link d \<equiv> n_parent_tool_use_id (dn_node d)"

definition taken_ids :: "attach_state \<Rightarrow> string set" where
  "taken_ids st = tu_id ` {u \<in> set (as_cands st). tu_consumed u}"

definition attachments :: "attach_state \<Rightarrow> int" where
  "attachments st = (let r = ds_report (as_set st)
     in rr_attached_verdicts r + rr_web_summary_attached r + rr_plans_attached r)"

definition untaken :: "attach_state \<Rightarrow> int" where
  "untaken st = int (length (filter (\<lambda>u. \<not> tu_consumed u) (as_cands st)))"

definition attach_ok :: "attach_turn set \<Rightarrow> attach_state \<Rightarrow> attach_state \<Rightarrow> bool" where
  "attach_ok T st st' \<longleftrightarrow>
     map forget_link (ds_nodes (as_set st')) = map forget_link (ds_nodes (as_set st))
   \<and> map forget_anchor (ds_sources (as_set st')) = map forget_anchor (ds_sources (as_set st))
   \<and> map forget_use (as_cands st') = map forget_use (as_cands st)
   \<and> taken_ids st \<subseteq> taken_ids st'
   \<and> attachments st' + untaken st' = attachments st + untaken st
   \<and> (\<forall>i<length (ds_nodes (as_set st)). node_link (ds_nodes (as_set st') ! i) = node_link (ds_nodes (as_set st) ! i)
        \<or> node_link (ds_nodes (as_set st') ! i) \<in> taken_ids st'
          \<and> n_kind (dn_node (ds_nodes (as_set st) ! i)) \<in> at_kind ` T)
   \<and> (\<forall>i<length (ds_sources (as_set st)). ss_anchor (ds_sources (as_set st') ! i) = ss_anchor (ds_sources (as_set st) ! i)
        \<or> ss_anchor (ds_sources (as_set st') ! i) \<in> taken_ids st' \<and> i \<in> at_source ` T)"

lemma attach_ok_refl: "attach_ok T st st"
  by (simp add: attach_ok_def)

lemma attach_ok_mono: "attach_ok T st st' \<Longrightarrow> T \<subseteq> T' \<Longrightarrow> attach_ok T' st st'"
  unfolding attach_ok_def by (blast intro: subsetD [OF image_mono])

lemma forget_link_kind: "map forget_link ns' = map forget_link ns \<Longrightarrow> length ns' = length ns \<and>
    (\<forall>i<length ns. n_kind (dn_node (ns' ! i)) = n_kind (dn_node (ns ! i)))"
proof
  assume a: "map forget_link ns' = map forget_link ns"
  then show l: "length ns' = length ns" by (rule map_eq_imp_length_eq)
  show "\<forall>i<length ns. n_kind (dn_node (ns' ! i)) = n_kind (dn_node (ns ! i))"
  proof (intro allI impI)
    fix i assume "i < length ns"
    with a l have "forget_link (ns' ! i) = forget_link (ns ! i)" by (metis nth_map)
    then have "n_kind (dn_node (forget_link (ns' ! i))) = n_kind (dn_node (forget_link (ns ! i)))" by simp
    then show "n_kind (dn_node (ns' ! i)) = n_kind (dn_node (ns ! i))" by (simp add: forget_link_def)
  qed
qed

lemma attach_ok_trans:
  assumes 1: "attach_ok T st st1" and 2: "attach_ok T st1 st2"
  shows "attach_ok T st st2"
proof -
  have n1: "length (ds_nodes (as_set st1)) = length (ds_nodes (as_set st))"
      "\<forall>i<length (ds_nodes (as_set st)). n_kind (dn_node (ds_nodes (as_set st1) ! i)) = n_kind (dn_node (ds_nodes (as_set st) ! i))"
    using 1 forget_link_kind unfolding attach_ok_def by blast+
  have s1: "length (ds_sources (as_set st1)) = length (ds_sources (as_set st))"
    using 1 unfolding attach_ok_def by (meson map_eq_imp_length_eq)
  have ids: "taken_ids st1 \<subseteq> taken_ids st2" "taken_ids st \<subseteq> taken_ids st1"
    using 1 2 unfolding attach_ok_def by blast+
  have "\<forall>i<length (ds_nodes (as_set st)). node_link (ds_nodes (as_set st2) ! i) = node_link (ds_nodes (as_set st) ! i)
        \<or> node_link (ds_nodes (as_set st2) ! i) \<in> taken_ids st2
          \<and> n_kind (dn_node (ds_nodes (as_set st) ! i)) \<in> at_kind ` T"
  proof (intro allI impI)
    fix i assume i: "i < length (ds_nodes (as_set st))"
    then have "node_link (ds_nodes (as_set st1) ! i) = node_link (ds_nodes (as_set st) ! i)
        \<or> node_link (ds_nodes (as_set st1) ! i) \<in> taken_ids st1
          \<and> n_kind (dn_node (ds_nodes (as_set st) ! i)) \<in> at_kind ` T" using 1 by (simp add: attach_ok_def)
    moreover have "node_link (ds_nodes (as_set st2) ! i) = node_link (ds_nodes (as_set st1) ! i)
        \<or> node_link (ds_nodes (as_set st2) ! i) \<in> taken_ids st2
          \<and> n_kind (dn_node (ds_nodes (as_set st1) ! i)) \<in> at_kind ` T" using 2 i n1(1) by (simp add: attach_ok_def)
    ultimately show "node_link (ds_nodes (as_set st2) ! i) = node_link (ds_nodes (as_set st) ! i)
        \<or> node_link (ds_nodes (as_set st2) ! i) \<in> taken_ids st2
          \<and> n_kind (dn_node (ds_nodes (as_set st) ! i)) \<in> at_kind ` T" using n1(2) i ids(1) by auto
  qed
  moreover have "\<forall>i<length (ds_sources (as_set st)). ss_anchor (ds_sources (as_set st2) ! i) = ss_anchor (ds_sources (as_set st) ! i)
        \<or> ss_anchor (ds_sources (as_set st2) ! i) \<in> taken_ids st2 \<and> i \<in> at_source ` T"
  proof (intro allI impI)
    fix i assume i: "i < length (ds_sources (as_set st))"
    have "ss_anchor (ds_sources (as_set st1) ! i) = ss_anchor (ds_sources (as_set st) ! i)
        \<or> ss_anchor (ds_sources (as_set st1) ! i) \<in> taken_ids st1 \<and> i \<in> at_source ` T"
      using 1 i unfolding attach_ok_def by blast
    moreover have "ss_anchor (ds_sources (as_set st2) ! i) = ss_anchor (ds_sources (as_set st1) ! i)
        \<or> ss_anchor (ds_sources (as_set st2) ! i) \<in> taken_ids st2 \<and> i \<in> at_source ` T"
      using 2 i s1 unfolding attach_ok_def by auto
    ultimately show "ss_anchor (ds_sources (as_set st2) ! i) = ss_anchor (ds_sources (as_set st) ! i)
        \<or> ss_anchor (ds_sources (as_set st2) ! i) \<in> taken_ids st2 \<and> i \<in> at_source ` T" using ids(1) by auto
  qed
  moreover have "map forget_link (ds_nodes (as_set st2)) = map forget_link (ds_nodes (as_set st))"
      "map forget_anchor (ds_sources (as_set st2)) = map forget_anchor (ds_sources (as_set st))"
      "map forget_use (as_cands st2) = map forget_use (as_cands st)"
      "attachments st2 + untaken st2 = attachments st + untaken st"
    using 1 2 by (simp_all add: attach_ok_def)
  ultimately show ?thesis using ids unfolding attach_ok_def by blast
qed

text \<open>The contract the three passes share: one step attaches the turns it touches or leaves
  everything as it is, and then a whole pass keeps the same promise.\<close>

locale attach_pass =
  fixes step :: "'t \<Rightarrow> attach_state \<Rightarrow> attach_state"
    and touches :: "'t \<Rightarrow> attach_turn set"
  assumes step_ok: "attach_ok (touches t) st (step t st)"
begin

lemma pass_ok: "(\<Union>t\<in>set ts. touches t) \<subseteq> T \<Longrightarrow> attach_ok T st (fold step ts st)"
proof (induction ts arbitrary: st)
  case Nil
  show ?case by (simp add: attach_ok_refl)
next
  case (Cons t ts)
  have "attach_ok T st (step t st)" using Cons.prems by (intro attach_ok_mono [OF step_ok]) auto
  with Cons show ?case by (auto intro: attach_ok_trans)
qed

end

subsection \<open>Stamping\<close>

text \<open>Stamping a list of turns touches the link of nodes of their kinds and the anchor of
  their sources only.\<close>

definition stamp_ok :: "string \<Rightarrow> attach_turn set \<Rightarrow> derived_set \<Rightarrow> derived_set \<Rightarrow> bool" where
  "stamp_ok tid T s s' \<longleftrightarrow>
     map forget_link (ds_nodes s') = map forget_link (ds_nodes s)
   \<and> map forget_anchor (ds_sources s') = map forget_anchor (ds_sources s)
   \<and> ds_report s' = ds_report s
   \<and> (\<forall>i<length (ds_nodes s). node_link (ds_nodes s' ! i) = node_link (ds_nodes s ! i)
        \<or> node_link (ds_nodes s' ! i) = tid \<and> n_kind (dn_node (ds_nodes s ! i)) \<in> at_kind ` T)
   \<and> (\<forall>i<length (ds_sources s). ss_anchor (ds_sources s' ! i) = ss_anchor (ds_sources s ! i)
        \<or> ss_anchor (ds_sources s' ! i) = tid \<and> i \<in> at_source ` T)"

lemma stamp_nodes:
  "map forget_link (fold (\<lambda>r ns. upd_at ns r (stamp_node kind tid)) rs ns) = map forget_link ns
   \<and> (\<forall>i<length ns. node_link (fold (\<lambda>r ns. upd_at ns r (stamp_node kind tid)) rs ns ! i) = node_link (ns ! i)
       \<or> node_link (fold (\<lambda>r ns. upd_at ns r (stamp_node kind tid)) rs ns ! i) = tid \<and> n_kind (dn_node (ns ! i)) = kind)"
proof (induction rs arbitrary: ns)
  case (Cons r rs)
  have "map forget_link (upd_at ns r (stamp_node kind tid)) = map forget_link ns"
    by (rule map_upd_at) (simp add: stamp_node_def forget_link_def)
  moreover have "\<forall>i<length ns. n_kind (dn_node (upd_at ns r (stamp_node kind tid) ! i)) = n_kind (dn_node (ns ! i))
      \<and> (node_link (upd_at ns r (stamp_node kind tid) ! i) = node_link (ns ! i)
         \<or> node_link (upd_at ns r (stamp_node kind tid) ! i) = tid \<and> n_kind (dn_node (ns ! i)) = kind)"
    by (simp add: stamp_node_def)
  ultimately show ?case using Cons.IH [of "upd_at ns r (stamp_node kind tid)"] by (auto simp del: nth_upd_at) metis+
qed simp

lemma stamp_turn_ok: "stamp_ok tid {t} s (stamp_turn tid t s)"
proof -
  have "map forget_anchor (upd_at (ds_sources s) (at_source t) (\<lambda>src. src\<lparr>ss_anchor := tid\<rparr>)) = map forget_anchor (ds_sources s)"
    by (rule map_upd_at) (simp add: forget_anchor_def)
  with stamp_nodes [where kind = "at_kind t" and tid = tid and rs = "at_nodes t" and ns = "ds_nodes s"] show ?thesis
    by (simp add: stamp_ok_def stamp_turn_def)
qed

lemma stamp_ok_refl: "stamp_ok tid T s s"
  by (simp add: stamp_ok_def)

lemma stamp_ok_cons:
  assumes 1: "stamp_ok tid {t} s s1" and 2: "stamp_ok tid T s1 s2"
  shows "stamp_ok tid (insert t T) s s2"
proof -
  have n1: "length (ds_nodes s1) = length (ds_nodes s)"
      "\<forall>i<length (ds_nodes s). n_kind (dn_node (ds_nodes s1 ! i)) = n_kind (dn_node (ds_nodes s ! i))"
    using 1 forget_link_kind unfolding stamp_ok_def by blast+
  have s1: "length (ds_sources s1) = length (ds_sources s)"
    using 1 unfolding stamp_ok_def by (meson map_eq_imp_length_eq)
  from 1 2 show ?thesis unfolding stamp_ok_def using n1 s1 by (auto simp: image_iff) metis+
qed

lemma fold_stamp_ok: "stamp_ok tid (set ts) s (fold (stamp_turn tid) ts s)"
proof (induction ts arbitrary: s)
  case Nil
  show ?case by (simp add: stamp_ok_refl)
next
  case (Cons t ts)
  then show ?case using stamp_ok_cons [OF stamp_turn_ok Cons.IH] by simp
qed

subsection \<open>The passes keep the contract\<close>

lemma untaken_consume:
  "i < length cs \<Longrightarrow> \<not> tu_consumed (cs ! i) \<Longrightarrow>
   int (length (filter (\<lambda>u. \<not> tu_consumed u) (consume i cs))) = int (length (filter (\<lambda>u. \<not> tu_consumed u) cs)) - 1"
proof (induction cs arbitrary: i)
  case (Cons c cs)
  show ?case
  proof (cases i)
    case 0
    then show ?thesis using Cons.prems by (simp add: upd_at_def)
  next
    case (Suc k)
    have "consume (Suc k) (c # cs) = c # consume k cs" by (simp add: upd_at_def)
    with Suc Cons.prems Cons.IH [of k] show ?thesis by simp
  qed
qed simp

lemma taken_ids_nth:
  "x \<in> taken_ids st \<longleftrightarrow> (\<exists>j<length (as_cands st). tu_consumed (as_cands st ! j) \<and> tu_id (as_cands st ! j) = x)"
  unfolding taken_ids_def set_conv_nth by auto

lemma taken_consume:
  assumes i: "i < length (as_cands st)" and c: "as_cands st' = consume i (as_cands st)"
  shows "taken_ids st' = insert (tu_id (as_cands st ! i)) (taken_ids st)"
proof (rule set_eqI)
  fix x
  show "x \<in> taken_ids st' \<longleftrightarrow> x \<in> insert (tu_id (as_cands st ! i)) (taken_ids st)"
    unfolding insert_iff taken_ids_nth c using i by (auto split: if_splits)
qed

lemma attach_consume:
  assumes i: "i < length (as_cands st)" "\<not> tu_consumed (as_cands st ! i)"
    and st': "st' = st\<lparr>as_cands := consume i (as_cands st), as_set := s'\<rparr>"
    and s': "stamp_ok (tu_id (as_cands st ! i)) T ((as_set st)\<lparr>ds_report := r\<rparr>) s'"
    and r: "rr_attached_verdicts r + rr_web_summary_attached r + rr_plans_attached r
              = attachments st + 1"
  shows "attach_ok T st st'"
proof -
  have ids: "taken_ids st' = insert (tu_id (as_cands st ! i)) (taken_ids st)"
    by (rule taken_consume [OF i(1)]) (simp add: st')
  have "map forget_use (consume i (as_cands st)) = map forget_use (as_cands st)"
    by (rule map_upd_at) (simp add: forget_use_def)
  moreover have "attachments st' + untaken st' = attachments st + untaken st"
    using s' untaken_consume [OF i] r
    by (simp add: st' attachments_def untaken_def stamp_ok_def Let_def)
  ultimately show ?thesis using s' ids unfolding attach_ok_def stamp_ok_def st' by auto
qed

lemma match_tool_use_Some:
  "match_tool_use cs a th same = Some i \<Longrightarrow> i < length cs \<and> \<not> tu_consumed (cs ! i)"
  unfolding match_tool_use_def using find_index_Some [of "ref_matches a th same" cs i]
  by (simp add: ref_matches_def Let_def)

text \<open>The candidate loop returns the latest eligible candidate.\<close>

lemma latest_candidate_spec:
  "case latest_candidate P cs of
     None \<Rightarrow> \<forall>j<length cs. \<not> P (cs ! j)
   | Some i \<Rightarrow> i < length cs \<and> P (cs ! i)
       \<and> (\<forall>j<length cs. P (cs ! j) \<longrightarrow> tu_at_turn (cs ! j) \<le> tu_at_turn (cs ! i)
            \<and> (tu_at_turn (cs ! j) = tu_at_turn (cs ! i) \<longrightarrow> j \<le> i))"
proof -
  let ?step = "\<lambda>i best. if \<not> P (cs ! i) then best
            else case best of None \<Rightarrow> Some i
              | Some b \<Rightarrow> if tu_at_turn (cs ! b) \<le> tu_at_turn (cs ! i) then Some i else Some b"
  have "n \<le> length cs \<Longrightarrow> (case fold ?step [0..<n] None of
     None \<Rightarrow> \<forall>j<n. \<not> P (cs ! j)
   | Some i \<Rightarrow> i < n \<and> P (cs ! i)
       \<and> (\<forall>j<n. P (cs ! j) \<longrightarrow> tu_at_turn (cs ! j) \<le> tu_at_turn (cs ! i)
            \<and> (tu_at_turn (cs ! j) = tu_at_turn (cs ! i) \<longrightarrow> j \<le> i)))" for n
  proof (induction n)
    case (Suc n)
    then have IH: "case fold ?step [0..<n] None of
     None \<Rightarrow> \<forall>j<n. \<not> P (cs ! j)
   | Some i \<Rightarrow> i < n \<and> P (cs ! i)
       \<and> (\<forall>j<n. P (cs ! j) \<longrightarrow> tu_at_turn (cs ! j) \<le> tu_at_turn (cs ! i)
            \<and> (tu_at_turn (cs ! j) = tu_at_turn (cs ! i) \<longrightarrow> j \<le> i))" by simp
    show ?case
    proof (cases "fold ?step [0..<n] None")
      case None
      with IH show ?thesis by (simp add: less_Suc_eq)
    next
      case (Some b)
      with IH show ?thesis by (auto simp: less_Suc_eq)
    qed
  qed simp
  from this [OF order_refl] show ?thesis unfolding latest_candidate_def .
qed

lemma latest_candidate_Some:
  "latest_candidate P cs = Some i \<Longrightarrow> i < length cs \<and> P (cs ! i)"
  using latest_candidate_spec [where P = P and cs = cs] by simp

lemma attach_group_ok: "attach_ok (set (cg_turns g)) st (attach_group g st)"
proof -
  let ?ref = "case match_tool_use (as_cands st) (cg_action g) (cg_thread_id g) True of
                   Some i \<Rightarrow> Some i
                 | None \<Rightarrow> match_tool_use (as_cands st) (cg_action g) (cg_thread_id g) False"
  show ?thesis
  proof (cases ?ref)
    case None
    then show ?thesis
      by (simp add: attach_group_def Let_def attach_ok_def taken_ids_def attachments_def untaken_def)
  next
    case (Some i)
    then have i: "i < length (as_cands st)" "\<not> tu_consumed (as_cands st ! i)"
      using match_tool_use_Some by (auto split: option.splits)
    show ?thesis
      by (rule attach_consume [OF i _ fold_stamp_ok [where s = "(as_set st)\<lparr>ds_report := (ds_report (as_set st))\<lparr>rr_attached_verdicts := rr_attached_verdicts (ds_report (as_set st)) + 1\<rparr>\<rparr>" and ts = "cg_turns g" and tid = "tu_id (as_cands st ! i)"]])
         (simp_all add: attach_group_def Let_def Some attachments_def)
  qed
qed

lemma attach_web_summary_ok:
  "attach_ok (if at_kind t = kind_web_summary then {t} else {}) st (attach_web_summary t st)"
proof (cases "at_kind t = kind_web_summary")
  case True
  show ?thesis
  proof (cases "latest_candidate (\<lambda>u. tu_web_tool u \<and> \<not> tu_consumed u \<and> tu_at_turn u \<le> at_index t) (as_cands st)")
    case None
    with True show ?thesis by (simp add: attach_web_summary_def attach_ok_refl)
  next
    case (Some i)
    from latest_candidate_Some [OF Some] have i: "i < length (as_cands st)" "\<not> tu_consumed (as_cands st ! i)" by simp_all
    have "attach_ok {t} st (attach_web_summary t st)"
      by (rule attach_consume [OF i _ stamp_turn_ok [where s = "(as_set st)\<lparr>ds_report := (ds_report (as_set st))\<lparr>rr_web_summary_attached := rr_web_summary_attached (ds_report (as_set st)) + 1\<rparr>\<rparr>" and t = t and tid = "tu_id (as_cands st ! i)"]])
         (simp_all add: attach_web_summary_def Some True attachments_def Let_def)
    with True show ?thesis by simp
  qed
qed (simp add: attach_web_summary_def attach_ok_refl)

lemma attach_plan_ok:
  "attach_ok (if at_kind t = kind_plan_name_gen then {t} else {}) st (attach_plan t st)"
proof (cases "at_kind t = kind_plan_name_gen")
  case True
  show ?thesis
  proof (cases "latest_candidate (\<lambda>u. \<not> tu_consumed u \<and> tu_at_turn u \<le> at_index t \<and> is_exit_plan_mode (tu_name u)) (as_cands st)")
    case None
    with True show ?thesis by (simp add: attach_plan_def attach_ok_refl)
  next
    case (Some i)
    from latest_candidate_Some [OF Some] have i: "i < length (as_cands st)" "\<not> tu_consumed (as_cands st ! i)" by simp_all
    have "attach_ok {t} st (attach_plan t st)"
      by (rule attach_consume [OF i _ stamp_turn_ok [where s = "(as_set st)\<lparr>ds_report := (ds_report (as_set st))\<lparr>rr_plans_attached := rr_plans_attached (ds_report (as_set st)) + 1\<rparr>\<rparr>" and t = t and tid = "tu_id (as_cands st ! i)"]])
         (simp_all add: attach_plan_def Some True attachments_def Let_def)
    with True show ?thesis by simp
  qed
qed (simp add: attach_plan_def attach_ok_refl)

interpretation verdict_pass: attach_pass attach_group "\<lambda>g. set (cg_turns g)"
  by unfold_locales (rule attach_group_ok)

interpretation web_pass: attach_pass attach_web_summary "\<lambda>t. if at_kind t = kind_web_summary then {t} else {}"
  by unfold_locales (rule attach_web_summary_ok)

interpretation plan_pass: attach_pass attach_plan "\<lambda>t. if at_kind t = kind_plan_name_gen then {t} else {}"
  by unfold_locales (rule attach_plan_ok)

subsection \<open>Grouping\<close>

definition is_judged_check :: "attach_turn \<Rightarrow> bool" where
  "is_judged_check t \<longleftrightarrow> (at_kind t = kind_check_stage1 \<or> at_kind t = kind_check_stage2) \<and> at_judged_action t \<noteq> []"

definition group_ok :: "check_group \<Rightarrow> bool" where
  "group_ok g \<longleftrightarrow> cg_turns g \<noteq> [] \<and> (\<forall>t\<in>set (cg_turns g). is_judged_check t \<and> at_judged_action t = cg_action g
     \<and> (at_thread_id t = [] \<or> at_thread_id t = cg_thread_id g))"

lemma mset_concat_upd_at:
  "i < length xs \<Longrightarrow> f (g (xs ! i)) = f (xs ! i) @ [a] \<Longrightarrow>
   mset (concat (map f (upd_at xs i g))) = add_mset a (mset (concat (map f xs)))"
proof (induction xs arbitrary: i)
  case (Cons x xs)
  show ?case
  proof (cases i)
    case 0
    then show ?thesis using Cons.prems by (simp add: upd_at_def)
  next
    case (Suc k)
    have "upd_at (x # xs) (Suc k) g = x # upd_at xs k g" by (simp add: upd_at_def)
    with Suc Cons show ?thesis by simp
  qed
qed simp

lemma group_check_skip: "\<not> is_judged_check t \<Longrightarrow> group_check t gs = gs"
  by (auto simp: is_judged_check_def group_check_def)

lemma group_check_step:
  assumes ok: "\<forall>g\<in>set gs. group_ok g" and t: "is_judged_check t"
  shows "(\<forall>g\<in>set (group_check t gs). group_ok g)
    \<and> mset (concat (map cg_turns (group_check t gs))) = add_mset t (mset (concat (map cg_turns gs)))"
proof -
  let ?f = "\<lambda>g. g\<lparr>cg_turns := cg_turns g @ [t],
             cg_thread_id := (if cg_thread_id g = [] then at_thread_id t else cg_thread_id g)\<rparr>"
  have cond: "\<not> (at_kind t \<noteq> kind_check_stage1 \<and> at_kind t \<noteq> kind_check_stage2)" "at_judged_action t \<noteq> []"
    using t by (auto simp: is_judged_check_def)
  show ?thesis
  proof (cases "find_index (group_fits t) gs")
    case None
    let ?g = "\<lparr>cg_action = at_judged_action t, cg_thread_id = at_thread_id t, cg_turns = []\<rparr>"
    have "group_check t gs = upd_at (gs @ [?g]) (length gs) ?f" using cond None by (auto simp: group_check_def)
    also have "\<dots> = gs @ [?f ?g]" by (simp add: upd_at_def)
    finally show ?thesis using ok t by (simp add: group_ok_def)
  next
    case (Some i)
    have i: "i < length gs" "group_fits t (gs ! i)" using find_index_Some [OF Some] by simp_all
    have eq: "group_check t gs = upd_at gs i ?f" using cond Some by (auto simp: group_check_def)
    have "group_ok (?f (gs ! i))"
      using ok i t by (auto simp: group_ok_def group_fits_def dest!: bspec [OF _ nth_mem [OF i(1)]])
    moreover have "set (upd_at gs i ?f) \<subseteq> insert (?f (gs ! i)) (set gs)"
      using i(1) by (simp add: upd_at_def set_update_subset_insert)
    ultimately have "\<forall>g\<in>set (upd_at gs i ?f). group_ok g" using ok by blast
    with mset_concat_upd_at [OF i(1), of cg_turns ?f t] show ?thesis by (simp add: eq)
  qed
qed

lemma group_checks_spec:
  "(\<forall>g\<in>set (group_checks turns). group_ok g)
   \<and> mset (concat (map cg_turns (group_checks turns))) = mset (filter is_judged_check turns)"
proof -
  have "\<forall>g\<in>set gs. group_ok g \<Longrightarrow> (\<forall>g\<in>set (fold group_check turns gs). group_ok g)
     \<and> mset (concat (map cg_turns (fold group_check turns gs)))
        = mset (concat (map cg_turns gs)) + mset (filter is_judged_check turns)" for gs
  proof (induction turns arbitrary: gs)
    case (Cons t turns)
    show ?case
    proof (cases "is_judged_check t")
      case True
      with Cons.IH [of "group_check t gs"] group_check_step [OF Cons.prems True] show ?thesis by simp
    next
      case False
      with Cons.IH [OF Cons.prems] show ?thesis by (simp add: group_check_skip)
    qed
  qed simp
  from this [of "[]"] show ?thesis by (simp add: group_checks_def)
qed

text \<open>The turns the passes may touch.\<close>

definition attach_kinds :: "string set" where
  "attach_kinds = {kind_check_stage1, kind_check_stage2, kind_web_summary, kind_plan_name_gen}"

definition side_turns :: "attach_turn list \<Rightarrow> attach_turn set" where
  "side_turns turns = {t \<in> set turns. at_kind t \<in> attach_kinds}"

lemma group_turns_side: "g \<in> set (group_checks turns) \<Longrightarrow> set (cg_turns g) \<subseteq> side_turns turns"
proof
  fix t assume g: "g \<in> set (group_checks turns)" and t: "t \<in> set (cg_turns g)"
  then have "t \<in> set (concat (map cg_turns (group_checks turns)))" by auto
  also have "\<dots> = set (filter is_judged_check turns)"
    using group_checks_spec [of turns] by (metis set_mset_mset)
  finally show "t \<in> side_turns turns" by (auto simp: side_turns_def attach_kinds_def is_judged_check_def)
qed

lemma run_attach_ok: "attach_ok (side_turns turns) st (run_attach turns st)"
proof -
  define st0 where "st0 = st\<lparr>as_set := set_report (\<lambda>r. r\<lparr>rr_judged_actions := int (length (group_checks turns))\<rparr>) (as_set st)\<rparr>"
  have 0: "attach_ok (side_turns turns) st st0"
    by (simp add: st0_def attach_ok_def taken_ids_def attachments_def untaken_def Let_def)
  have 1: "attach_ok (side_turns turns) st0 (attach_verdicts turns st)"
    unfolding attach_verdicts_def Let_def st0_def [symmetric]
    by (rule verdict_pass.pass_ok) (use group_turns_side in blast)
  have 2: "attach_ok (side_turns turns) (attach_verdicts turns st) (attach_web_summaries turns (attach_verdicts turns st))"
    unfolding attach_web_summaries_def
    by (rule web_pass.pass_ok) (auto simp: side_turns_def attach_kinds_def split: if_splits)
  have 3: "attach_ok (side_turns turns) (attach_web_summaries turns (attach_verdicts turns st)) (run_attach turns st)"
    unfolding run_attach_def attach_plans_def
    by (rule plan_pass.pass_ok) (auto simp: side_turns_def attach_kinds_def split: if_splits)
  from attach_ok_trans [OF attach_ok_trans [OF attach_ok_trans [OF 0 1] 2] 3] show ?thesis .
qed

subsection \<open>Properties\<close>

definition finish_state :: "deriver \<Rightarrow> attach_state" where
  "finish_state dv = run_attach (dv_turns dv) \<lparr>as_set = dv_set dv, as_cands = dv_tool_uses dv\<rparr>"

lemma finish_views:
  "ds_nodes (finish_deriver dv) = ds_nodes (as_set (finish_state dv))"
  "ds_sources (finish_deriver dv) = ds_sources (as_set (finish_state dv))"
  "attach_count (ds_report (finish_deriver dv)) = attachments (finish_state dv)"
  by (simp_all add: finish_deriver_def finish_state_def Let_def attachments_def)

lemma finish_ok:
  "attach_ok (side_turns (dv_turns dv)) \<lparr>as_set = dv_set dv, as_cands = dv_tool_uses dv\<rparr> (finish_state dv)"
  unfolding finish_state_def by (rule run_attach_ok)

lemma forget_use_ids: "map forget_use cs' = map forget_use cs \<Longrightarrow> map tu_id cs' = map tu_id cs"
proof -
  assume "map forget_use cs' = map forget_use cs"
  then have "map (\<lambda>u. tu_id (forget_use u)) cs' = map (\<lambda>u. tu_id (forget_use u)) cs"
    by (metis (no_types, lifting) list.map_comp comp_apply map_eq_conv)
  then show ?thesis by (simp add: forget_use_def)
qed

lemma card_taken:
  assumes "distinct (map tu_id (as_cands st))"
  shows "int (card (taken_ids st)) + untaken st = int (length (as_cands st))"
proof -
  have "distinct (map tu_id (filter tu_consumed (as_cands st)))"
    using assms by (simp add: distinct_map_filter)
  then have "card (taken_ids st) = length (filter tu_consumed (as_cands st))"
    using distinct_card [of "map tu_id (filter tu_consumed (as_cands st))"] by (simp add: taken_ids_def)
  then show ?thesis using sum_length_filter_compl [of tu_consumed "as_cands st"] by (simp add: untaken_def)
qed

text \<open>attachments are one to one. After Finish the three attachment counters together
  are the number of distinct tool-use ids taken, all of them ids of the deriver's registry: no
  tool use is claimed by two checks, summaries or plans.\<close>

theorem attach_one_to_one:
  "attach_count (ds_report (finish_deriver (derive_all ext project ins)))
     = int (card (taken_ids (finish_state (derive_all ext project ins))))
   \<and> taken_ids (finish_state (derive_all ext project ins)) \<subseteq> dv_tool_seen (derive_all ext project ins)"
proof -
  let ?d = "derive_all ext project ins"
  let ?s = "\<lparr>as_set = dv_set ?d, as_cands = dv_tool_uses ?d\<rparr>" and ?s' = "finish_state ?d"
  have tools: "tools_ok ?d" using derive_all_inv [of ext project ins] by (simp add: dv_inv_def)
  have ids: "map tu_id (as_cands ?s') = map tu_id (dv_tool_uses ?d)"
    using finish_ok [of ?d] by (intro forget_use_ids) (simp add: attach_ok_def)
  then have len: "length (as_cands ?s') = length (dv_tool_uses ?d)" by (rule map_eq_imp_length_eq)
  have "untaken ?s = int (length (dv_tool_uses ?d))"
    using tools by (simp add: untaken_def tools_ok_def)
  moreover have "attachments ?s = 0"
    using derive_all_count [of ext project ins] by (simp add: attachments_def Let_def)
  moreover have "attachments ?s' + untaken ?s' = attachments ?s + untaken ?s"
    using finish_ok [of ?d] unfolding attach_ok_def by blast
  moreover have "int (card (taken_ids ?s')) + untaken ?s' = int (length (as_cands ?s'))"
    using tools ids by (intro card_taken) (simp add: tools_ok_def)
  ultimately have "attachments ?s' = int (card (taken_ids ?s'))" using len by simp
  moreover have "taken_ids ?s' \<subseteq> set (map tu_id (as_cands ?s'))" by (auto simp: taken_ids_def)
  ultimately show ?thesis using tools ids by (simp add: finish_views(3) tools_ok_def)
qed

definition relinked :: "string set \<Rightarrow> derived_node \<Rightarrow> derived_node \<Rightarrow> bool" where
  "relinked ids d' d \<longleftrightarrow> forget_link d' = forget_link d
     \<and> (node_link d' = node_link d \<or> n_kind (dn_node d) \<in> attach_kinds \<and> node_link d' \<in> ids)"

definition reanchored :: "string set \<Rightarrow> span_source \<Rightarrow> span_source \<Rightarrow> bool" where
  "reanchored ids s' s \<longleftrightarrow> forget_anchor s' = forget_anchor s
     \<and> (ss_anchor s' = ss_anchor s \<or> ss_kind s \<in> attach_kinds \<and> ss_anchor s' \<in> ids)"

lemma finish_relinks:
  "list_all2 (relinked (taken_ids (finish_state dv))) (ds_nodes (finish_deriver dv)) (nodes_of dv)"
proof -
  let ?ns' = "ds_nodes (finish_deriver dv)" and ?ns = "nodes_of dv"
  have kinds: "at_kind ` side_turns (dv_turns dv) \<subseteq> attach_kinds" by (auto simp: side_turns_def)
  have m: "map forget_link ?ns' = map forget_link ?ns"
    and a: "\<forall>i<length ?ns. node_link (?ns' ! i) = node_link (?ns ! i)
        \<or> node_link (?ns' ! i) \<in> taken_ids (finish_state dv)
          \<and> n_kind (dn_node (?ns ! i)) \<in> at_kind ` side_turns (dv_turns dv)"
    using finish_ok [of dv] unfolding attach_ok_def finish_views attach_state.simps by blast+
  have l: "length ?ns' = length ?ns" using m by (rule map_eq_imp_length_eq)
  show ?thesis
  proof (rule list_all2_all_nthI [OF l])
    fix i assume "i < length ?ns'"
    then have i: "i < length ?ns" by (simp add: l)
    then have "forget_link (?ns' ! i) = forget_link (?ns ! i)" using m l by (metis nth_map)
    with a [rule_format, OF i] kinds show "relinked (taken_ids (finish_state dv)) (?ns' ! i) (?ns ! i)"
      unfolding relinked_def by blast
  qed
qed

lemma finish_reanchors:
  assumes turns: "turns_ok dv"
  shows "list_all2 (reanchored (taken_ids (finish_state dv))) (ds_sources (finish_deriver dv)) (sources_of dv)"
proof -
  let ?ss' = "ds_sources (finish_deriver dv)" and ?ss = "sources_of dv"
  have src: "ss_kind (?ss ! i) \<in> attach_kinds" if "i \<in> at_source ` side_turns (dv_turns dv)" for i
  proof -
    from that obtain t where t: "t \<in> set (dv_turns dv)" "at_kind t \<in> attach_kinds" "i = at_source t"
      by (auto simp: side_turns_def)
    then obtain j where "j < length (dv_turns dv)" "dv_turns dv ! j = t" by (auto simp: in_set_conv_nth)
    with turns t show ?thesis by (auto simp: turns_ok_def)
  qed
  have m: "map forget_anchor ?ss' = map forget_anchor ?ss"
    and a: "\<forall>i<length ?ss. ss_anchor (?ss' ! i) = ss_anchor (?ss ! i)
        \<or> ss_anchor (?ss' ! i) \<in> taken_ids (finish_state dv) \<and> i \<in> at_source ` side_turns (dv_turns dv)"
    using finish_ok [of dv] unfolding attach_ok_def finish_views attach_state.simps by blast+
  have l: "length ?ss' = length ?ss" using m by (rule map_eq_imp_length_eq)
  show ?thesis
  proof (rule list_all2_all_nthI [OF l])
    fix i assume "i < length ?ss'"
    then have i: "i < length ?ss" by (simp add: l)
    then have "forget_anchor (?ss' ! i) = forget_anchor (?ss ! i)" using m l by (metis nth_map)
    with a [rule_format, OF i] src [of i] show "reanchored (taken_ids (finish_state dv)) (?ss' ! i) (?ss ! i)"
      unfolding reanchored_def by blast
  qed
qed

text \<open>attaching only links side calls, and only to tool uses. Finish keeps every retained
  node but for its parent tool use, and every span source but for its anchor; a changed link is
  on a node of a permission check, web summary or plan-name call, a changed anchor on a source of
  such a call, and both name a registered tool use that the attachment took.\<close>

theorem attach_side_calls_only:
  "list_all2 (relinked (taken_ids (finish_state (derive_all ext project ins))))
     (ds_nodes (finish_deriver (derive_all ext project ins))) (nodes_of (derive_all ext project ins))
   \<and> list_all2 (reanchored (taken_ids (finish_state (derive_all ext project ins))))
     (ds_sources (finish_deriver (derive_all ext project ins))) (sources_of (derive_all ext project ins))"
  using finish_relinks finish_reanchors derive_all_inv unfolding dv_inv_def by blast

text \<open>the check groups partition the judged checks. Every stage-1 or stage-2 call with a
  judged action lands in exactly one group, and a group holds only checks of its own action whose
  thread, when they carry one, is the group's.\<close>

theorem check_groups_partition:
  "mset (concat (map cg_turns (group_checks turns))) = mset (filter is_judged_check turns)
   \<and> list_all group_ok (group_checks turns)"
  using group_checks_spec [of turns] by (simp add: list_all_iff)

end
