(* ===== verification/SessionFolds.thy ===== *)
theory SessionFolds
  imports MerkleNode Projection
begin

text \<open>
  \<open>pkg/sessions\<close>: content-block statistics, the session status, model pricing and costs, token
  counts, and the identity of a session (\<open>ingest_envelope.go\<close>).

  A \<open>float64\<close> is a rational; every arithmetic operation and every literal goes through the
  parameter \<open>rnd\<close>, the rounding of IEEE doubles. Token counts are \<open>int64\<close>.
\<close>

subsection \<open>Content blocks\<close>

definition block_type_tool_use :: string where "block_type_tool_use = ''tool_use''"
definition block_type_tool_result :: string where "block_type_tool_result = ''tool_result''"

definition session_text :: "content_block list \<Rightarrow> string" where
  "session_text blocks = go_join (concat (map (\<lambda>b.
     if cb_text b \<noteq> [] then [cb_text b]
     else if tool_output b \<noteq> [] then [tool_output b]
     else if tool_name b \<noteq> [] then [''tool call: '' @ tool_name b]
     else []) blocks)) [LF]"

definition extract_tool_calls :: "content_block list \<Rightarrow> string list" where
  "extract_tool_calls blocks = map tool_name
     (filter (\<lambda>b. cb_type b = block_type_tool_use \<and> tool_name b \<noteq> []) blocks)"

definition count_tool_calls :: "content_block list \<Rightarrow> int" where
  "count_tool_calls blocks = int (length (filter (\<lambda>b. cb_type b = block_type_tool_use) blocks))"

definition blocks_have_tool_error :: "content_block list \<Rightarrow> bool" where
  "blocks_have_tool_error blocks \<longleftrightarrow>
     list_ex (\<lambda>b. cb_type b = block_type_tool_result \<and> is_error b) blocks"

definition count_tool_results :: "content_block list \<Rightarrow> int" where
  "count_tool_results blocks = int (length (filter (\<lambda>b. cb_type b = block_type_tool_result) blocks))"

definition count_tool_result_errors :: "content_block list \<Rightarrow> int" where
  "count_tool_result_errors blocks =
     int (length (filter (\<lambda>b. cb_type b = block_type_tool_result \<and> is_error b) blocks))"

definition git_command_patterns :: "string list" where
  "git_command_patterns = [''git commit'', ''git push'']"

definition block_has_git_activity :: "content_block \<Rightarrow> bool" where
  "block_has_git_activity b \<longleftrightarrow>
     cb_type b = block_type_tool_use \<and> tool_name b = ''Bash''
     \<and> (let cmd = jget_string (tool_input b) ''command''
        in cmd \<noteq> [] \<and> list_ex (go_contains (go_to_lower cmd)) git_command_patterns)"

definition blocks_have_git_activity :: "content_block list \<Rightarrow> bool" where
  "blocks_have_git_activity blocks \<longleftrightarrow> list_ex block_has_git_activity blocks"

function strip_tagged_section :: "string \<Rightarrow> string \<Rightarrow> string" where
  "strip_tagged_section text tag =
     (case go_index text (open_tag tag) of
        None \<Rightarrow> go_trim_space text
      | Some start \<Rightarrow>
          (case go_index (drop start text) (close_tag tag) of
             None \<Rightarrow> go_trim_space (go_trim_space (take start text))
           | Some e \<Rightarrow> strip_tagged_section
               (go_trim_space (take start text @ drop (start + e + length (close_tag tag)) text)) tag))"
  by pat_completeness auto
termination
proof (relation "measure (\<lambda>(text, tag). length text)", goal_cases)
  case (2 t tag start e)
  have "start + e + length (close_tag tag) \<le> length t"
    using go_index_bound [OF 2(1)] go_index_bound [OF 2(2)] by (simp add: open_tag_def)
  then have "length (take start t @ drop (start + e + length (close_tag tag)) t) < length t"
    by (simp add: close_tag_def)
  from le_less_trans [OF length_go_trim_space this] show ?case by simp
qed simp

declare strip_tagged_section.simps [simp del]

subsection \<open>Session status\<close>

definition status_completed :: string where "status_completed = ''completed''"
definition status_failed :: string where "status_failed = ''failed''"
definition status_abandoned :: string where "status_abandoned = ''abandoned''"
definition status_unknown :: string where "status_unknown = ''unknown''"

lemmas status_defs = status_completed_def status_failed_def status_abandoned_def status_unknown_def

definition failing_stop :: "string \<Rightarrow> bool" where
  "failing_stop reason \<longleftrightarrow> reason = ''length'' \<or> reason = ''max_tokens'' \<or> reason = ''content_filter''
     \<or> go_contains reason ''error''"

definition terminal_stops :: "string list" where
  "terminal_stops = [''stop'', ''end_turn'', ''end-turn'', ''eos'', ''tool_use'', ''tool_use_response'']"

text \<open>The leaf enters by its role, content and stop reason.\<close>

definition determine_status ::
  "(string \<times> content_block list \<times> string) option \<Rightarrow> bool \<Rightarrow> int \<Rightarrow> int \<Rightarrow> string"
where
  "determine_status leaf has_git_activity tool_result_count tool_error_count = (case leaf of
      None \<Rightarrow> status_unknown
    | Some (leaf_role, content, stop) \<Rightarrow>
        (let role = go_to_lower leaf_role;
             reason = go_to_lower (go_trim_space stop)
         in if role \<noteq> ''assistant'' \<and> blocks_have_tool_error content then status_failed
            else if role = ''assistant'' \<and> failing_stop reason then status_failed
            else if has_git_activity then status_completed
            else if 0 < tool_result_count \<and> tool_result_count < tool_error_count * 2 then status_failed
            else if role = ''assistant'' then
              (if reason \<in> set terminal_stops then status_completed else status_unknown)
            else status_abandoned))"

subsection \<open>Pricing\<close>

record pricing =
  pr_input :: rat
  pr_output :: rat
  pr_cache_read :: rat
  pr_cache_write :: rat

type_synonym pricing_table = "(string \<times> pricing) list"

definition entry :: "string \<Rightarrow> rat \<Rightarrow> rat \<Rightarrow> rat \<Rightarrow> rat \<Rightarrow> string \<times> pricing" where
  "entry k i out r w = (k, \<lparr>pr_input = i, pr_output = out, pr_cache_read = r, pr_cache_write = w\<rparr>)"

text \<open>The decimal literals of the table; \<open>default_pricing\<close> rounds them to doubles.\<close>

definition pricing_literals :: pricing_table where
  "pricing_literals =
     [entry ''claude-opus-5'' (5) (25) (5 / 10) (625 / 100),
      entry ''claude-fable-5'' (10) (50) (1) (125 / 10),
      entry ''claude-opus-4.8'' (5) (25) (5 / 10) (625 / 100),
      entry ''claude-opus-4.7'' (5) (25) (5 / 10) (625 / 100),
      entry ''claude-opus-4.6'' (5) (25) (5 / 10) (625 / 100),
      entry ''claude-opus-4.5'' (5) (25) (5 / 10) (625 / 100),
      entry ''claude-opus-4.1'' (15) (75) (15 / 10) (1875 / 100),
      entry ''claude-opus-4'' (15) (75) (15 / 10) (1875 / 100),
      entry ''claude-sonnet-5'' (3) (15) (3 / 10) (375 / 100),
      entry ''claude-sonnet-4.6'' (3) (15) (3 / 10) (375 / 100),
      entry ''claude-sonnet-4.5'' (3) (15) (3 / 10) (375 / 100),
      entry ''claude-sonnet-4'' (3) (15) (3 / 10) (375 / 100),
      entry ''claude-sonnet-3.7'' (3) (15) (3 / 10) (375 / 100),
      entry ''claude-haiku-4.5'' (1) (5) (1 / 10) (125 / 100),
      entry ''claude-haiku-4.6'' (1) (5) (1 / 10) (125 / 100),
      entry ''claude-3.5-sonnet'' (3) (15) (3 / 10) (375 / 100),
      entry ''claude-3.5-haiku'' (8 / 10) (4) (8 / 100) (1),
      entry ''claude-3-opus'' (15) (75) (15 / 10) (1875 / 100),
      entry ''claude-3-haiku'' (25 / 100) (125 / 100) (3 / 100) (3 / 10),
      entry ''gpt-4o'' (25 / 10) (10) (125 / 100) (25 / 10),
      entry ''gpt-4o-mini'' (15 / 100) (6 / 10) (75 / 1000) (15 / 100),
      entry ''gpt-4.1'' (2) (8) (5 / 10) (2),
      entry ''gpt-4.1-mini'' (4 / 10) (16 / 10) (1 / 10) (4 / 10),
      entry ''gpt-4.1-nano'' (1 / 10) (4 / 10) (25 / 1000) (1 / 10),
      entry ''o3'' (2) (8) (5 / 10) (2),
      entry ''o3-mini'' (11 / 10) (44 / 10) (55 / 100) (11 / 10),
      entry ''o4-mini'' (11 / 10) (44 / 10) (275 / 1000) (11 / 10),
      entry ''gpt-5.6-sol'' (5) (30) (5 / 10) (625 / 100),
      entry ''gpt-5.6-terra'' (25 / 10) (15) (25 / 100) (3125 / 1000),
      entry ''gpt-5.6-luna'' (1) (6) (1 / 10) (125 / 100),
      entry ''gpt-5.5'' (5) (30) (5 / 10) (5),
      entry ''gpt-5.4'' (25 / 10) (15) (25 / 100) (25 / 10),
      entry ''gpt-5.3-codex'' (175 / 100) (14) (175 / 1000) (175 / 100),
      entry ''gpt-5.2-codex'' (175 / 100) (14) (175 / 1000) (175 / 100),
      entry ''gpt-5.1-codex'' (125 / 100) (10) (125 / 1000) (125 / 100),
      entry ''gpt-5-codex'' (125 / 100) (10) (125 / 1000) (125 / 100),
      entry ''codex-mini-latest'' (15 / 10) (6) (375 / 1000) (15 / 10),
      entry ''o1'' (15) (60) (75 / 10) (15),
      entry ''deepseek-r1'' (55 / 100) (219 / 100) (14 / 100) (0)]"

definition round_pricing :: "(rat \<Rightarrow> rat) \<Rightarrow> pricing \<Rightarrow> pricing" where
  "round_pricing rnd p = \<lparr>pr_input = rnd (pr_input p), pr_output = rnd (pr_output p),
     pr_cache_read = rnd (pr_cache_read p), pr_cache_write = rnd (pr_cache_write p)\<rparr>"

definition default_pricing :: "(rat \<Rightarrow> rat) \<Rightarrow> pricing_table" where
  "default_pricing rnd = map (\<lambda>(k, p). (k, round_pricing rnd p)) pricing_literals"

datatype pricing_error = ReadPricingFile string | ParsePricingFile string

text \<open>\<open>os.ReadFile\<close> and the decoding of the overrides are parameters; an override replaces the
  entry of its model.\<close>

definition load_pricing ::
  "(rat \<Rightarrow> rat) \<Rightarrow> (string \<Rightarrow> string + string) \<Rightarrow> (string \<Rightarrow> string + pricing_table) \<Rightarrow> string
   \<Rightarrow> pricing_error + pricing_table"
where
  "load_pricing rnd read_file parse path =
     (if path = [] then Inr (default_pricing rnd)
      else case read_file path of
        Inl e \<Rightarrow> Inl (ReadPricingFile e)
      | Inr bytes \<Rightarrow> (case parse bytes of
          Inl e \<Rightarrow> Inl (ParsePricingFile e)
        | Inr overrides \<Rightarrow> Inr (overrides @ default_pricing rnd)))"

definition is_digits :: "string \<Rightarrow> bool" where
  "is_digits s \<longleftrightarrow> list_all is_digit s"

definition strip_openai_date_suffix :: "string \<Rightarrow> string" where
  "strip_openai_date_suffix model =
     (if length model < 12 then model
      else let suffix = drop (length model - 11) model; date = tl suffix
        in if hd suffix \<noteq> CHR ''-'' then model
           else if length date = 10 \<and> is_digits (take 4 date) \<and> date ! 4 = CHR ''-''
                   \<and> is_digits (take 2 (drop 5 date)) \<and> date ! 7 = CHR ''-'' \<and> is_digits (take 2 (drop 8 date))
           then take (length model - 11) model
           else model)"

definition version_rewrites :: "(string \<times> string) list" where
  "version_rewrites = [(''-5-6'', ''-5.6''), (''-5-5'', ''-5.5''), (''-5-4'', ''-5.4''), (''-5-3'', ''-5.3''),
     (''-5-2'', ''-5.2''), (''-5-1'', ''-5.1''), (''-4-8'', ''-4.8''), (''-4-7'', ''-4.7''), (''-4-6'', ''-4.6''),
     (''-4-5'', ''-4.5''), (''-4-1'', ''-4.1''), (''-3-7'', ''-3.7''), (''-3-5'', ''-3.5'')]"

definition strip_date_suffix :: "string \<Rightarrow> string" where
  "strip_date_suffix s = (case go_last_index s ''-'' of
      None \<Rightarrow> s
    | Some idx \<Rightarrow> (let suffix = drop (idx + 1) s
        in if length suffix = 8 \<and> is_digits suffix then take idx s else s))"

definition normalize_model :: "string \<Rightarrow> string" where
  "normalize_model model =
     (let n0 = go_to_lower (go_trim_space model)
      in if n0 = [] then n0
         else let n1 = trim_suffix n0 ''[1m]'';
                  n2 = strip_date_suffix n1;
                  n3 = strip_openai_date_suffix n2
           in fold (\<lambda>(old, new) s. go_replace_all s old new) version_rewrites n3)"

definition pricing_for_model :: "pricing_table \<Rightarrow> string \<Rightarrow> pricing option" where
  "pricing_for_model pricing model = (case map_of pricing (normalize_model model) of
      Some p \<Rightarrow> Some p
    | None \<Rightarrow> map_of pricing model)"

text \<open>Costs: input, output, total. A product or quotient of doubles is rounded.\<close>

definition token_cost :: "(rat \<Rightarrow> rat) \<Rightarrow> int \<Rightarrow> rat \<Rightarrow> rat" where
  "token_cost rnd tokens rate = rnd (rnd (rnd (of_int tokens) / 1000000) * rate)"

definition cost_for_tokens :: "(rat \<Rightarrow> rat) \<Rightarrow> pricing \<Rightarrow> int \<Rightarrow> int \<Rightarrow> rat \<times> rat \<times> rat" where
  "cost_for_tokens rnd p input_tokens output_tokens =
     (let input_cost = token_cost rnd input_tokens (pr_input p);
          output_cost = token_cost rnd output_tokens (pr_output p)
      in (input_cost, output_cost, rnd (input_cost + output_cost)))"

definition cost_for_tokens_with_cache ::
  "(rat \<Rightarrow> rat) \<Rightarrow> pricing \<Rightarrow> int \<Rightarrow> int \<Rightarrow> int \<Rightarrow> int \<Rightarrow> rat \<times> rat \<times> rat"
where
  "cost_for_tokens_with_cache rnd p input_tokens output_tokens cache_creation cache_read =
     (if cache_creation = 0 \<and> cache_read = 0 then cost_for_tokens rnd p input_tokens output_tokens
      else
        let base_input = max (wrap64 (wrap64 (input_tokens - cache_creation) - cache_read)) 0;
            c1 = token_cost rnd base_input (pr_input p);
            c2 = rnd (c1 + token_cost rnd cache_creation (pr_cache_write p));
            input_cost = rnd (c2 + token_cost rnd cache_read (pr_cache_read p));
            output_cost = token_cost rnd output_tokens (pr_output p)
        in (input_cost, output_cost, rnd (input_cost + output_cost)))"

record model_cost =
  mc_model :: string
  mc_input_tokens :: int
  mc_output_tokens :: int
  mc_input_cost :: rat
  mc_output_cost :: rat
  mc_total_cost :: rat
  mc_session_count :: int

definition zero_model_cost :: model_cost where
  "zero_model_cost = \<lparr>mc_model = [], mc_input_tokens = 0, mc_output_tokens = 0, mc_input_cost = 0,
     mc_output_cost = 0, mc_total_cost = 0, mc_session_count = 0\<rparr>"

definition add_model_cost :: "(rat \<Rightarrow> rat) \<Rightarrow> string \<Rightarrow> model_cost \<Rightarrow> model_cost \<Rightarrow> model_cost" where
  "add_model_cost rnd model cost current =
     \<lparr>mc_model = model,
      mc_input_tokens = wrap64 (mc_input_tokens current + mc_input_tokens cost),
      mc_output_tokens = wrap64 (mc_output_tokens current + mc_output_tokens cost),
      mc_input_cost = rnd (mc_input_cost current + mc_input_cost cost),
      mc_output_cost = rnd (mc_output_cost current + mc_output_cost cost),
      mc_total_cost = rnd (mc_total_cost current + mc_total_cost cost),
      mc_session_count = wrap64 (mc_session_count current + mc_session_count cost)\<rparr>"

definition copy_model_costs :: "(string \<Rightarrow> model_cost option) option \<Rightarrow> (string \<Rightarrow> model_cost option)" where
  "copy_model_costs costs = (case costs of None \<Rightarrow> Map.empty | Some m \<Rightarrow> m)"

text \<open>The iterations of the loop over the map touch different keys, so the result is read off
  key by key. A nil target stays nil.\<close>

definition merge_model_costs ::
  "(rat \<Rightarrow> rat) \<Rightarrow> (string \<Rightarrow> model_cost option) option \<Rightarrow> (string \<Rightarrow> model_cost option)
   \<Rightarrow> (string \<Rightarrow> model_cost option) option"
where
  "merge_model_costs rnd target costs = map_option (\<lambda>t m. case costs m of
      None \<Rightarrow> t m
    | Some c \<Rightarrow> Some (add_model_cost rnd m c (case t m of None \<Rightarrow> zero_model_cost | Some cur \<Rightarrow> cur))) target"

subsection \<open>Token counts\<close>

record node_tokens =
  nt_input :: int
  nt_output :: int
  nt_total :: int
  nt_cache_creation :: int
  nt_cache_read :: int

definition tokens_for_node :: "node option \<Rightarrow> node_tokens" where
  "tokens_for_node n = (case n of
      None \<Rightarrow> \<lparr>nt_input = 0, nt_output = 0, nt_total = 0, nt_cache_creation = 0, nt_cache_read = 0\<rparr>
    | Some nd \<Rightarrow> (case n_usage nd of
        None \<Rightarrow> \<lparr>nt_input = 0, nt_output = 0, nt_total = 0, nt_cache_creation = 0, nt_cache_read = 0\<rparr>
      | Some u \<Rightarrow>
          \<lparr>nt_input = prompt_tokens u, nt_output = completion_tokens u,
           nt_total = (if 0 < total_tokens u then total_tokens u
                       else wrap64 (prompt_tokens u + completion_tokens u)),
           nt_cache_creation = cache_creation_input_tokens u, nt_cache_read = cache_read_input_tokens u\<rparr>))"

subsection \<open>Session identity\<close>

definition harness_id_unknown :: string where "harness_id_unknown = ''unknown''"

record ingest_envelope =
  en_org_id :: string
  en_auth_subject :: string
  en_harness_id :: string
  en_harness_session_id :: string
  en_harness_version :: string
  en_cwd :: string
  en_name :: string
  en_parent_harness_session_id :: "string option"
  en_harness_metadata :: string

definition empty_envelope :: ingest_envelope where
  "empty_envelope = \<lparr>en_org_id = [], en_auth_subject = [], en_harness_id = [], en_harness_session_id = [],
     en_harness_version = [], en_cwd = [], en_name = [], en_parent_harness_session_id = None,
     en_harness_metadata = []\<rparr>"

definition harness_id_or_unknown :: "ingest_envelope option \<Rightarrow> string" where
  "harness_id_or_unknown e = (case e of
      None \<Rightarrow> harness_id_unknown
    | Some en \<Rightarrow> if en_harness_id en = [] then harness_id_unknown else en_harness_id en)"

datatype envelope_error = BadOrgId | EmptyParentId | MetadataNotObject | MissingRootHash

text \<open>\<open>uuid.Parse\<close> and decoding into a JSON object are parameters that say whether they
  succeed.\<close>

definition validate_envelope ::
  "(string \<Rightarrow> bool) \<Rightarrow> (string \<Rightarrow> bool) \<Rightarrow> ingest_envelope option \<Rightarrow> envelope_error option"
where
  "validate_envelope is_uuid decodes_to_map e = (case e of
      None \<Rightarrow> None
    | Some en \<Rightarrow>
        if en_org_id en \<noteq> [] \<and> \<not> is_uuid (en_org_id en) then Some BadOrgId
        else if en_parent_harness_session_id en = Some [] then Some EmptyParentId
        else if en_harness_metadata en \<noteq> [] \<and> \<not> decodes_to_map (en_harness_metadata en)
          then Some MetadataNotObject
        else None)"

definition needs_synthetic_harness_session_id :: "ingest_envelope option \<Rightarrow> bool" where
  "needs_synthetic_harness_session_id e = (case e of
      None \<Rightarrow> True
    | Some en \<Rightarrow> harness_id_or_unknown e = harness_id_unknown \<or> en_harness_session_id en = [])"

definition synthetic_harness_session_id_prefix_len :: nat where
  "synthetic_harness_session_id_prefix_len = 16"

definition synthetic_harness_session_id :: "string \<Rightarrow> string" where
  "synthetic_harness_session_id root_hash =
     (if root_hash = [] then []
      else if synthetic_harness_session_id_prefix_len < length root_hash
      then take synthetic_harness_session_id_prefix_len root_hash
      else root_hash)"

definition resolve_harness_session_id ::
  "ingest_envelope option \<Rightarrow> string \<Rightarrow> envelope_error + (ingest_envelope \<times> string)"
where
  "resolve_harness_session_id envelope root_hash =
     (case (envelope, needs_synthetic_harness_session_id envelope) of
        (Some en, False) \<Rightarrow> Inr (en, en_harness_session_id en)
      | _ \<Rightarrow>
          (let prefix = synthetic_harness_session_id root_hash
           in if prefix = [] then Inl MissingRootHash
              else let out = (case envelope of None \<Rightarrow> empty_envelope | Some en \<Rightarrow> en);
                       out1 = (if en_harness_id out = [] then out\<lparr>en_harness_id := harness_id_unknown\<rparr> else out)
                in Inr (out1\<lparr>en_harness_session_id := prefix\<rparr>, prefix)))"

subsection \<open>Model names\<close>

definition model_char :: "char \<Rightarrow> bool" where
  "model_char c \<longleftrightarrow> 33 \<le> (of_char c :: nat) \<and> (of_char c :: nat) \<le> 126
     \<and> \<not> (65 \<le> (of_char c :: nat) \<and> (of_char c :: nat) \<le> 90) \<and> c \<noteq> CHR '']''"

definition plain_model :: "string \<Rightarrow> bool" where
  "plain_model s \<longleftrightarrow> s \<noteq> [] \<and> list_all model_char s"

lemma model_char_not_space: "model_char c \<Longrightarrow> w \<in> set space_seqs \<Longrightarrow> c \<notin> set w"
  by (auto simp: model_char_def space_seqs_def ascii_spaces_def wide_spaces_def)

lemma plain_model_trim:
  assumes "plain_model s"
  shows "go_trim_space s = s"
proof (rule go_trim_space_fix)
  have no: "\<not> has_prefix s w" "\<not> has_suffix s w" if "w \<in> set space_seqs" for w
  proof -
    from that have "w \<noteq> []" by (rule space_seqs_nonempty)
    then obtain c where c: "c \<in> set w" by (meson list.set_sel(1))
    have "c \<notin> set s"
      using c that assms model_char_not_space by (auto simp: plain_model_def list_all_iff)
    with c show "\<not> has_prefix s w" "\<not> has_suffix s w" by (auto simp: has_prefix_iff has_suffix_iff)
  qed
  then show "space_width s = 0" by (simp add: space_width_0_iff)
  have "find (has_suffix s) space_seqs = None" using no(2) by (auto simp: find_None_iff)
  then show "space_width_end s = 0" by (simp add: space_width_end_def)
qed

lemma plain_model_lower: "plain_model s \<Longrightarrow> go_to_lower s = s"
  unfolding plain_model_def go_to_lower_def
  by (intro map_idI) (auto simp: list_all_iff model_char_def lower_char_def)

lemma plain_model_suffix: "plain_model s \<Longrightarrow> trim_suffix s ''[1m]'' = s"
  by (auto simp: trim_suffix_def has_suffix_iff plain_model_def model_char_def)

lemma go_last_index_absent: "CHR ''-'' \<notin> set ds \<Longrightarrow> go_last_index ds ''-'' = None"
  by (induction ds) auto

lemma go_last_index_last: "CHR ''-'' \<notin> set ds \<Longrightarrow> go_last_index (k @ CHR ''-'' # ds) ''-'' = Some (length k)"
  by (induction k) (auto simp: go_last_index_absent)

lemma digits_model: "is_digits ds \<Longrightarrow> list_all model_char ds"
  by (auto simp: is_digits_def is_digit_def model_char_def list_all_iff)

lemma digits_no_dash: "is_digits ds \<Longrightarrow> CHR ''-'' \<notin> set ds"
  by (auto simp: is_digits_def is_digit_def list_all_iff)

text \<open>Normalizing a plain name: only the date suffixes and the version rewrites remain.\<close>

definition rewrite_versions :: "string \<Rightarrow> string" where
  "rewrite_versions s = fold (\<lambda>(old, new) s. go_replace_all s old new) version_rewrites s"

lemma normalize_plain:
  "plain_model s \<Longrightarrow> normalize_model s = rewrite_versions (strip_openai_date_suffix (strip_date_suffix s))"
  by (simp add: normalize_model_def Let_def plain_model_trim plain_model_lower plain_model_suffix
      rewrite_versions_def) (simp add: plain_model_def)

lemma normalize_dated:
  assumes s: "plain_model s" and nodate: "strip_date_suffix s = s" and ds: "is_digits ds" "length ds = 8"
  shows "normalize_model (s @ ''-'' @ ds) = normalize_model s"
proof -
  have "plain_model (s @ ''-'' @ ds)" using s ds digits_model by (auto simp: plain_model_def model_char_def)
  moreover have "strip_date_suffix (s @ ''-'' @ ds) = s"
    using ds digits_no_dash by (simp add: strip_date_suffix_def go_last_index_last Let_def)
  ultimately show ?thesis using s nodate by (simp add: normalize_plain)
qed

lemma normalize_long_context:
  assumes s: "plain_model s"
  shows "normalize_model (s @ ''[1m]'') = normalize_model s"
proof -
  have ne: "s \<noteq> []" and nosp: "space_width s = 0"
    using s plain_model_trim [OF s] space_width_go_trim_space [of s] by (simp_all add: plain_model_def)
  have "space_width (s @ ''[1m]'') = 0"
  proof -
    have "\<not> has_prefix (s @ ''[1m]'') w" if "w \<in> set space_seqs" for w
    proof -
      from that have "w \<noteq> []" by (rule space_seqs_nonempty)
      moreover have "hd s \<notin> set w" using that ne s model_char_not_space
        by (auto simp: plain_model_def list_all_iff)
      ultimately show ?thesis using ne by (auto simp: has_prefix_iff neq_Nil_conv)
    qed
    then show ?thesis by (simp add: space_width_0_iff)
  qed
  moreover have "space_width_end (s @ ''[1m]'') = 0"
  proof -
    have "\<not> has_suffix (s @ ''[1m]'') w" if "w \<in> set space_seqs" for w
    proof
      assume "has_suffix (s @ ''[1m]'') w"
      moreover from that have "w \<noteq> []" by (rule space_seqs_nonempty)
      ultimately have "CHR '']'' \<in> set w" unfolding has_suffix_iff
        by (metis append_is_Nil_conv last.simps last_appendR last_in_set list.distinct(1))
      with that show False by (auto simp: space_seqs_def ascii_spaces_def wide_spaces_def)
    qed
    then have "find (has_suffix (s @ ''[1m]'')) space_seqs = None" by (auto simp: find_None_iff)
    then show ?thesis by (simp add: space_width_end_def)
  qed
  ultimately have "go_trim_space (s @ ''[1m]'') = s @ ''[1m]''" by (rule go_trim_space_fix)
  moreover have "go_to_lower (s @ ''[1m]'') = s @ ''[1m]''"
    using plain_model_lower [OF s] by (simp add: go_to_lower_def lower_char_def)
  moreover have "trim_suffix (s @ ''[1m]'') ''[1m]'' = s" by (simp add: trim_suffix_def has_suffix_iff)
  ultimately show ?thesis
    by (simp add: normalize_model_def [of "s @ ''[1m]''"] Let_def normalize_plain [OF s] rewrite_versions_def)
qed

subsection \<open>Properties\<close>

lemma pricing_keys_plain:
  "list_all (\<lambda>(k, p). plain_model k \<and> strip_date_suffix k = k \<and> normalize_model k = k) pricing_literals"
  by code_simp

lemma pricing_keys_distinct: "distinct (map fst pricing_literals)"
  by code_simp

lemma pricing_lookup: "(k, p) \<in> set pricing_literals \<Longrightarrow> map_of (default_pricing rnd) k = Some (round_pricing rnd p)"
  by (rule map_of_is_SomeI)
     (use pricing_keys_distinct in \<open>force simp: default_pricing_def comp_def case_prod_beta\<close>)+

text \<open>the price of a model does not depend on how its name is dated. For every model of the
  table, the bare name, the name with an eight-digit date suffix and the name with the 1M-context
  marker all find that model's price.\<close>

theorem dated_models_price_alike:
  assumes "(k, p) \<in> set pricing_literals" and "is_digits ds" and "length ds = 8"
  shows "pricing_for_model (default_pricing rnd) k = Some (round_pricing rnd p)
    \<and> pricing_for_model (default_pricing rnd) (k @ ''-'' @ ds) = Some (round_pricing rnd p)
    \<and> pricing_for_model (default_pricing rnd) (k @ ''[1m]'') = Some (round_pricing rnd p)"
proof -
  have k: "plain_model k" "strip_date_suffix k = k" "normalize_model k = k"
    using assms(1) pricing_keys_plain by (auto simp: list_all_iff)
  have "normalize_model (k @ ''-'' @ ds) = k" using normalize_dated [OF k(1,2) assms(2,3)] k(3) by (rule trans)
  moreover have "normalize_model (k @ ''[1m]'') = k" using normalize_long_context [OF k(1)] k(3) by (rule trans)
  ultimately show ?thesis using pricing_lookup [OF assms(1), of rnd] k(3)
    by (simp only: pricing_for_model_def option.case simp_thms)
qed

definition sample_date :: string where "sample_date = ''20251101''"

lemma dated_models_price_alike_witness:
  "pricing_for_model (default_pricing (\<lambda>x. x)) (''claude-opus-4.5'' @ ''-'' @ sample_date)
     = Some (round_pricing (\<lambda>x. x) (snd (entry ''claude-opus-4.5'' 5 25 (1 / 2) (25 / 4))))"
proof -
  have "entry ''claude-opus-4.5'' 5 25 (1 / 2) (25 / 4) \<in> set pricing_literals"
    by (simp add: pricing_literals_def)
  moreover have "is_digits sample_date" "length sample_date = 8" by code_simp+
  ultimately show ?thesis
    using dated_models_price_alike [of "''claude-opus-4.5''" "snd (entry ''claude-opus-4.5'' 5 25 (1 / 2) (25 / 4))" sample_date "\<lambda>x. x"]
    by (simp add: entry_def)
qed

text \<open>costs are bounded by their parts. Under a rounding that is monotone, idempotent and keeps
  0, non-negative token counts within int64 and non-negative prices give a non-negative input and
  output cost, and the total is at least each of them, with or without cache tokens.\<close>

theorem cost_bounds:
  assumes mono: "\<And>x y. x \<le> y \<Longrightarrow> rnd x \<le> rnd y" and idem: "\<And>x. rnd (rnd x) = rnd x" and zero: "rnd 0 = 0"
    and rates: "0 \<le> pr_input p" "0 \<le> pr_output p" "0 \<le> pr_cache_read p" "0 \<le> pr_cache_write p"
    and counts: "0 \<le> out" "0 \<le> cc" "0 \<le> cr" "0 \<le> inp"
    and cost: "cost_for_tokens_with_cache rnd p inp out cc cr = (ic, oc, tot)"
  shows "0 \<le> ic \<and> 0 \<le> oc \<and> ic \<le> tot \<and> oc \<le> tot"
proof -
  have pos: "0 \<le> rnd x" if "0 \<le> x" for x using mono [OF that] zero by simp
  have tc: "0 \<le> token_cost rnd n r" if "0 \<le> n" "0 \<le> r" for n r
    unfolding token_cost_def using that by (intro pos mult_nonneg_nonneg divide_nonneg_nonneg) simp_all
  have key: "0 \<le> i \<and> 0 \<le> j \<and> i \<le> rnd (i + j) \<and> j \<le> rnd (i + j)"
    if "0 \<le> i" "0 \<le> j" "rnd i = i" "rnd j = j" for i j
    using mono [of i "i + j"] mono [of j "i + j"] that by simp
  have fixed: "rnd (token_cost rnd n r) = token_cost rnd n r" for n r by (simp add: token_cost_def idem)
  show ?thesis
  proof (cases "cc = 0 \<and> cr = 0")
    case True
    then have "ic = token_cost rnd inp (pr_input p)" "oc = token_cost rnd out (pr_output p)"
        "tot = rnd (ic + oc)"
      using cost by (auto simp: cost_for_tokens_with_cache_def cost_for_tokens_def Let_def)
    then show ?thesis using key tc fixed counts rates by simp
  next
    case False
    then have ic: "ic = rnd (rnd (token_cost rnd (max (wrap64 (wrap64 (inp - cc) - cr)) 0) (pr_input p)
          + token_cost rnd cc (pr_cache_write p)) + token_cost rnd cr (pr_cache_read p))"
      and oc: "oc = token_cost rnd out (pr_output p)" and tot: "tot = rnd (ic + oc)"
      using cost by (auto simp: cost_for_tokens_with_cache_def Let_def)
    have "0 \<le> ic" unfolding ic
      using counts rates by (intro pos add_nonneg_nonneg tc) simp_all
    moreover have "rnd ic = ic" by (simp add: ic idem)
    ultimately show ?thesis using key tc fixed counts rates oc tot by simp
  qed
qed

lemma cost_bounds_witness:
  "case cost_for_tokens_with_cache (\<lambda>x. x) (snd (hd pricing_literals)) 1000 10 200 300 of
     (ic, oc, tot) \<Rightarrow> 0 \<le> ic \<and> 0 \<le> oc \<and> ic \<le> tot \<and> oc \<le> tot"
proof -
  obtain ic oc tot where c: "cost_for_tokens_with_cache (\<lambda>x. x) (snd (hd pricing_literals)) 1000 10 200 300
      = (ic, oc, tot)" by (rule prod_cases3)
  have "0 \<le> ic \<and> 0 \<le> oc \<and> ic \<le> tot \<and> oc \<le> tot"
    by (rule cost_bounds [OF _ _ _ _ _ _ _ _ _ _ _ c]) (simp_all add: pricing_literals_def entry_def)
  with c show ?thesis by simp
qed

text \<open>every turn gets one session identity. Resolution fails only when a synthetic id is needed
  and there is no root hash; otherwise the id is not empty and is the one of the returned
  envelope, which keeps the caller's organisation, subject, parent and metadata and has a harness
  id; a usable envelope is returned as it is, and a synthetic id is a function of the first 16
  characters of the root hash alone.\<close>

theorem resolve_identity:
  "case resolve_harness_session_id env root_hash of
     Inl e \<Rightarrow> e = MissingRootHash \<and> root_hash = [] \<and> needs_synthetic_harness_session_id env
   | Inr (en, sid) \<Rightarrow> sid \<noteq> [] \<and> en_harness_session_id en = sid \<and> en_harness_id en \<noteq> []
       \<and> harness_id_or_unknown (Some en) = harness_id_or_unknown env
       \<and> (if needs_synthetic_harness_session_id env
          then sid = take 16 root_hash
            \<and> en_org_id en = (case env of None \<Rightarrow> [] | Some e \<Rightarrow> en_org_id e)
            \<and> en_auth_subject en = (case env of None \<Rightarrow> [] | Some e \<Rightarrow> en_auth_subject e)
            \<and> en_parent_harness_session_id en = (case env of None \<Rightarrow> None | Some e \<Rightarrow> en_parent_harness_session_id e)
            \<and> en_harness_metadata en = (case env of None \<Rightarrow> [] | Some e \<Rightarrow> en_harness_metadata e)
          else env = Some en)"
proof (cases "needs_synthetic_harness_session_id env")
  case True
  have syn: "synthetic_harness_session_id root_hash = take 16 root_hash"
    by (simp add: synthetic_harness_session_id_def synthetic_harness_session_id_prefix_len_def)
  have unk: "harness_id_unknown \<noteq> []" by (simp add: harness_id_unknown_def)
  show ?thesis
  proof (cases env)
    case None
    with True syn unk show ?thesis
      by (simp add: resolve_harness_session_id_def Let_def empty_envelope_def harness_id_or_unknown_def)
  next
    case (Some e)
    with True syn unk show ?thesis
      by (simp add: resolve_harness_session_id_def Let_def harness_id_or_unknown_def)
  qed
next
  case False
  then obtain e where e: "env = Some e"
    by (cases env) (auto simp: needs_synthetic_harness_session_id_def)
  have "en_harness_id e \<noteq> []" "en_harness_session_id e \<noteq> []"
    using False e by (auto simp: needs_synthetic_harness_session_id_def harness_id_or_unknown_def)
  with False e show ?thesis by (simp add: resolve_harness_session_id_def)
qed

end
