(* ===== verification/SpanReads.thy ===== *)
theory SpanReads
  imports AttachPass SessionFolds "HOL-Library.Product_Lexorder" "HOL-Library.List_Lexorder" "HOL-Library.Char_ord"
begin

text \<open>
  The functions of the span emitter that read a call without changing the emitter's state
  (\<open>pkg/derive/spans.go\<close>): identities, the fresh prompt and input of a call, previews, tool
  names; and the folds over a session's tool spans (\<open>tasks.go\<close>, \<open>status.go\<close>).

  A source refers to retained nodes by index; the functions take the node heap \<open>ns\<close>.
\<close>

definition span_kind_agent :: string where "span_kind_agent = ''agent''"
definition span_kind_llm :: string where "span_kind_llm = ''llm''"
definition span_kind_tool :: string where "span_kind_tool = ''tool''"
definition span_kind_event :: string where "span_kind_event = ''event''"

lemmas span_kind_defs = span_kind_agent_def span_kind_llm_def span_kind_tool_def span_kind_event_def

record span =
  sp_id :: string
  sp_parent :: string
  sp_kind :: string
  sp_name :: string
  sp_status :: string
  sp_started_at :: gotime
  sp_duration_ns :: int
  sp_seq :: int
  sp_input :: "content_block list"
  sp_output :: "content_block list"
  sp_call_kind :: string
  sp_thread_id :: string
  sp_model :: string
  sp_stop_reason :: string
  sp_usage :: "usage option"
  sp_verdict :: "verdict option"
  sp_raw_turn_id :: int
  sp_node_hash :: string

definition empty_span :: span where
  "empty_span = \<lparr>sp_id = [], sp_parent = [], sp_kind = [], sp_name = [], sp_status = [], sp_started_at = 0,
     sp_duration_ns = 0, sp_seq = 0, sp_input = [], sp_output = [], sp_call_kind = [], sp_thread_id = [],
     sp_model = [], sp_stop_reason = [], sp_usage = None, sp_verdict = None, sp_raw_turn_id = 0,
     sp_node_hash = []\<rparr>"

subsection \<open>Decimal rendering\<close>

fun dec_nat :: "nat \<Rightarrow> string" where
  "dec_nat n = (if n < 10 then [char_of (48 + n)] else dec_nat (n div 10) @ [char_of (48 + n mod 10)])"

declare dec_nat.simps [simp del]

definition dec_int :: "int \<Rightarrow> string" where
  "dec_int i = (if i < 0 then CHR ''-'' # dec_nat (nat (- i)) else dec_nat (nat i))"

subsection \<open>Identities\<close>

abbreviation chain_at :: "derived_node list \<Rightarrow> span_source \<Rightarrow> derived_node list" where
  "chain_at ns src \<equiv> map ((!) ns) (ss_chain src)"

text \<open>The response leaf \<open>src.Chain[len(src.Chain)-1].Node\<close>.\<close>

definition response_node :: "derived_node list \<Rightarrow> span_source \<Rightarrow> node" where
  "response_node ns src = dn_node (ns ! last (ss_chain src))"

definition span_call_kind :: "span_source \<Rightarrow> string" where
  "span_call_kind src = (if ss_kind src = kind_compaction \<and> ss_thread_id src \<noteq> [] then kind_main else ss_kind src)"

definition call_identity :: "derived_node list \<Rightarrow> span_source \<Rightarrow> string" where
  "call_identity ns src =
     (if ss_request_id src \<noteq> [] then ss_request_id src
      else take 16 (n_hash (response_node ns src)) @ ''_'' @ dec_int (ss_raw_turn_id src))"

definition trace_identity :: "derived_node list \<Rightarrow> span_source \<Rightarrow> string" where
  "trace_identity ns src =
     (if ss_turn_identity src \<noteq> [] then ss_turn_identity src else call_identity ns src)"

text \<open>\<open>tx\<close> is the truncated SHA-256, in hex, of the JSON of the identity's fields: version, harness,
  session, domain, whether it is the main thread, agent id, local id.\<close>

record span_identity =
  si_version :: int
  si_harness_id :: string
  si_harness_session_id :: string
  si_domain :: string
  si_main :: bool
  si_agent_id :: string
  si_local :: string

definition transcript_span_identity ::
  "(span_identity \<Rightarrow> string) \<Rightarrow> span_source \<Rightarrow> string \<Rightarrow> string \<Rightarrow> string \<Rightarrow> string"
where
  "transcript_span_identity tx src domain loc wire_identity =
     (if ss_source src \<noteq> source_transcript then wire_identity
      else ''tx'' @ domain @ ''_'' @ tx
        \<lparr>si_version = 1, si_harness_id = harness_id (ss_session src),
         si_harness_session_id = harness_session_id (ss_session src), si_domain = domain,
         si_main = (ss_thread_id src = []), si_agent_id = ss_thread_id src, si_local = loc\<rparr>)"

definition tool_key :: "session_key \<Rightarrow> string \<Rightarrow> string" where
  "tool_key s use_id = harness_id s @ ''|'' @ harness_session_id s @ ''|'' @ use_id"

definition tool_id :: "span \<Rightarrow> string" where
  "tool_id ts = sp_id ts"

text \<open>The spawning tool use of a thread: the call's own anchor, else the link of its first root node
  that has one.\<close>

definition thread_anchor :: "derived_node list \<Rightarrow> span_source \<Rightarrow> string" where
  "thread_anchor ns src =
     (if ss_anchor src \<noteq> [] then ss_anchor src
      else case find (\<lambda>d. n_parent_hash (dn_node d) = None \<and> n_parent_tool_use_id (dn_node d) \<noteq> [])
             (chain_at ns src) of
        None \<Rightarrow> []
      | Some d \<Rightarrow> n_parent_tool_use_id (dn_node d))"

subsection \<open>What a call contributes\<close>

text \<open>The request part of a chain: index, node and its new flag.\<close>

definition request_nodes :: "derived_node list \<Rightarrow> span_source \<Rightarrow> (nat \<times> derived_node \<times> bool) list" where
  "request_nodes ns src =
     (let reqs = butlast (chain_at ns src) in zip [0..<length reqs] (zip reqs (ss_new src)))"

abbreviation dn_role :: "derived_node \<Rightarrow> string" where
  "dn_role d \<equiv> b_role (n_bucket (dn_node d))"

abbreviation dn_content :: "derived_node \<Rightarrow> content_block list" where
  "dn_content d \<equiv> b_content (n_bucket (dn_node d))"

definition last_fresh_assistant_idx :: "derived_node list \<Rightarrow> span_source \<Rightarrow> int" where
  "last_fresh_assistant_idx ns src =
     fold (\<lambda>(i, d, new) l. if new \<and> dn_role d = ''assistant'' then int i else l) (request_nodes ns src) (-1)"

definition is_tool_result :: "content_block \<Rightarrow> bool" where
  "is_tool_result b \<longleftrightarrow> cb_type b = ''tool_result''"

text \<open>A genuine prompt: a user node, not injected, with no tool result.\<close>

definition user_node :: "derived_node \<Rightarrow> bool" where
  "user_node d \<longleftrightarrow> dn_role d = ''user'' \<and> \<not> is_injected (n_kind (dn_node d))"

definition genuine_prompt :: "derived_node \<Rightarrow> bool" where
  "genuine_prompt d \<longleftrightarrow> user_node d \<and> list_all (\<lambda>b. \<not> is_tool_result b) (dn_content d)"

definition fresh_genuine_prompt :: "derived_node list \<Rightarrow> span_source \<Rightarrow> derived_node option" where
  "fresh_genuine_prompt ns src =
     (let boundary = last_fresh_assistant_idx ns src
      in fold (\<lambda>(i, d, new) p. if \<not> new \<or> int i \<le> boundary then p
                 else if genuine_prompt d then Some d else p) (request_nodes ns src) None)"

definition fresh_input :: "derived_node list \<Rightarrow> span_source \<Rightarrow> content_block list" where
  "fresh_input ns src =
     (let boundary = last_fresh_assistant_idx ns src
      in concat (map (\<lambda>(i, d, new). if \<not> new \<or> int i \<le> boundary \<or> \<not> user_node d then []
                        else filter (\<lambda>b. \<not> is_tool_result b) (dn_content d)) (request_nodes ns src)))"

definition transcript_genuine_prompt :: "derived_node list \<Rightarrow> span_source \<Rightarrow> derived_node option" where
  "transcript_genuine_prompt ns src =
     fold (\<lambda>d p. if dn_role d = ''assistant'' then None else if genuine_prompt d then Some d else p)
       (butlast (chain_at ns src)) None"

definition conversation_input :: "derived_node list \<Rightarrow> span_source \<Rightarrow> content_block list" where
  "conversation_input ns src =
     (let input = fresh_input ns src
      in if input \<noteq> [] \<or> ss_source src \<noteq> source_transcript \<or> ss_turn_identity src = [] then input
         else case transcript_genuine_prompt ns src of
           None \<Rightarrow> []
         | Some d \<Rightarrow> filter (\<lambda>b. \<not> is_tool_result b) (dn_content d))"

subsection \<open>Previews\<close>

definition max_preview_text :: nat where "max_preview_text = 280"

definition truncate_preview :: "string \<Rightarrow> string" where
  "truncate_preview text = cut_on_rune text max_preview_text"

text \<open>The builder loops: text blocks joined by newlines until the limit is reached.\<close>

fun build_preview :: "(string \<Rightarrow> string) \<Rightarrow> content_block list \<Rightarrow> string \<Rightarrow> string" where
  "build_preview f [] sb = sb"
| "build_preview f (b # bs) sb =
     (if cb_type b \<noteq> ''text'' \<or> cb_text b = [] then build_preview f bs sb
      else let prose = f (cb_text b)
        in if prose = [] then build_preview f bs sb
           else let sb' = sb @ (if sb = [] then [] else [LF]) @ prose
             in if max_preview_text \<le> length sb' then sb' else build_preview f bs sb')"

definition prompt_text :: "node \<Rightarrow> string" where
  "prompt_text nd = truncate_preview (build_preview preview_text (b_content (n_bucket nd)) [])"

definition join_text_blocks :: "content_block list \<Rightarrow> string" where
  "join_text_blocks blocks = truncate_preview (build_preview (\<lambda>t. t) blocks [])"

subsection \<open>Tool spans\<close>

definition has_shell_command_input :: "jobj \<Rightarrow> bool" where
  "has_shell_command_input input \<longleftrightarrow> list_ex (\<lambda>key. case map_of input key of
       Some (JStr s) \<Rightarrow> go_trim_space s \<noteq> []
     | Some (JArr xs) \<Rightarrow> xs \<noteq> []
     | _ \<Rightarrow> False) [''command'', ''cmd'']"

definition display_tool_name :: "string \<Rightarrow> jobj \<Rightarrow> string" where
  "display_tool_name name input =
     (if go_to_lower (go_trim_space name) \<in> {''exec'', ''exec_command'', ''shell'', ''shell_command''}
         \<and> has_shell_command_input input then ''Bash''
      else if name = [] then ''tool''
      else name)"

definition tool_spawn_agent :: string where "tool_spawn_agent = ''spawn_agent''"

definition obj_set :: "jobj \<Rightarrow> string \<Rightarrow> jval \<Rightarrow> jobj" where
  "obj_set m k v = (k, v) # filter (\<lambda>e. fst e \<noteq> k) m"

definition spawn_tool_input ::
  "(string \<Rightarrow> spawn_label option) \<Rightarrow> session_key \<Rightarrow> content_block \<Rightarrow> content_block"
where
  "spawn_tool_input labels session b =
     (if tool_name b \<noteq> tool_spawn_agent then b
      else let label = (case labels (tool_key session (tool_use_id b)) of
                          None \<Rightarrow> \<lparr>sl_subagent_type = [], sl_description = []\<rparr> | Some l \<Rightarrow> l);
               task_name = jget_string (tool_input b) ''task_name'';
               label1 = (if sl_subagent_type label = [] then label\<lparr>sl_subagent_type := task_name\<rparr> else label);
               label2 = (if sl_description label1 = [] then label1\<lparr>sl_description := task_name\<rparr> else label1)
        in if sl_subagent_type label2 = [] \<and> sl_description label2 = [] then b
           else b\<lparr>tool_input := obj_set (obj_set (tool_input b) ''subagent_type'' (JStr (sl_subagent_type label2)))
                   ''description'' (JStr (sl_description label2))\<rparr>)"

subsection \<open>The llm span of a call\<close>

definition llm_span :: "derived_node list \<Rightarrow> span_source \<Rightarrow> string \<Rightarrow> content_block list \<Rightarrow> span" where
  "llm_span ns src parent_id input =
     (let resp = response_node ns src;
          model = b_model (n_bucket resp)
      in empty_span\<lparr>sp_id := ''llm_'' @ call_identity ns src, sp_parent := parent_id, sp_kind := span_kind_llm,
           sp_name := (if model = [] then ''llm'' else model), sp_status := ''ok'',
           sp_started_at := ss_captured_at src,
           sp_duration_ns := (case n_usage resp of None \<Rightarrow> 0 | Some u \<Rightarrow> total_duration_ns u),
           sp_input := input, sp_output := b_content (n_bucket resp), sp_call_kind := span_call_kind src,
           sp_thread_id := ss_thread_id src, sp_model := model, sp_stop_reason := n_stop_reason resp,
           sp_usage := n_usage resp, sp_verdict := classify_verdict (span_call_kind src) (b_content (n_bucket resp)),
           sp_raw_turn_id := ss_raw_turn_id src, sp_node_hash := n_hash resp\<rparr>)"

definition event_span ::
  "(span_identity \<Rightarrow> string) \<Rightarrow> span_source \<Rightarrow> string \<Rightarrow> string \<Rightarrow> string \<Rightarrow> gotime \<Rightarrow> content_block list \<Rightarrow> span"
where
  "event_span tx src parent_id kind hash captured content =
     empty_span\<lparr>sp_id := transcript_span_identity tx src ''event'' hash (''evt_'' @ take 16 hash),
       sp_parent := parent_id, sp_kind := span_kind_event, sp_name := kind, sp_status := ''ok'',
       sp_started_at := captured, sp_call_kind := kind, sp_input := content, sp_node_hash := hash\<rparr>"

subsection \<open>The task fold\<close>

record task =
  tk_id :: string
  tk_subject :: string
  tk_description :: string
  tk_status :: string
  tk_updates :: int

text \<open>The first match of \<open>#(\d+)\<close>.\<close>

fun task_created_id :: "string \<Rightarrow> string option" where
  "task_created_id [] = None"
| "task_created_id (c # cs) =
     (if c = CHR ''#'' \<and> takeWhile is_digit cs \<noteq> [] then Some (takeWhile is_digit cs) else task_created_id cs)"

text \<open>\<open>byID\<close> maps a task id to the task's position in \<open>order\<close>.\<close>

definition fold_task_block ::
  "(string \<Rightarrow> string option) \<Rightarrow> content_block \<Rightarrow> (string \<Rightarrow> nat option) \<times> task list
   \<Rightarrow> (string \<Rightarrow> nat option) \<times> task list"
where
  "fold_task_block result_text b st =
     (let (by_id, order) = st
      in if tool_name b = ''TaskCreate'' then
           (let tid = (case task_created_id (map_get result_text (tool_use_id b) []) of None \<Rightarrow> [] | Some i \<Rightarrow> i);
                t = \<lparr>tk_id = tid, tk_subject = jget_string (tool_input b) ''subject'',
                     tk_description = jget_string (tool_input b) ''description'',
                     tk_status = ''pending'', tk_updates = 0\<rparr>
            in if tid = [] then (by_id, order @ [t])
               else if by_id tid \<noteq> None then (by_id, order)
               else (by_id(tid \<mapsto> length order), order @ [t]))
         else if tool_name b = ''TaskUpdate'' then
           (let id0 = jget_string (tool_input b) ''taskId'';
                tid = (if id0 \<noteq> [] then id0
                       else case map_of (tool_input b) ''taskId'' of
                         Some (JNum f) \<Rightarrow> dec_int (if 0 \<le> f then \<lfloor>f\<rfloor> else \<lceil>f\<rceil>) | _ \<Rightarrow> [])
            in case by_id tid of
                 None \<Rightarrow> (by_id, order)
               | Some i \<Rightarrow>
                   (let status = jget_string (tool_input b) ''status'';
                        subject = jget_string (tool_input b) ''subject''
                    in (by_id, upd_at order i (\<lambda>t. t\<lparr>tk_updates := tk_updates t + 1,
                          tk_status := (if status \<noteq> [] then status else tk_status t),
                          tk_subject := (if subject \<noteq> [] then subject else tk_subject t)\<rparr>))))
         else (by_id, order))"

definition fold_task_blocks :: "content_block list \<Rightarrow> (string \<Rightarrow> string option) \<Rightarrow> task list" where
  "fold_task_blocks uses result_text =
     filter (\<lambda>t. tk_status t \<noteq> ''deleted'') (snd (fold (fold_task_block result_text) uses (Map.empty, [])))"

definition fold_session_tasks :: "span list \<Rightarrow> task list" where
  "fold_session_tasks spans =
     (let tools = sort_key (\<lambda>s. (sp_started_at s, sp_seq s)) (filter (\<lambda>s. sp_kind s = span_kind_tool) spans);
          uses = concat (map (\<lambda>s. take 1 (sp_input s)) tools);
          result_text = fold (\<lambda>s m. if sp_output s \<noteq> [] \<and> m (sp_id s) = None
                                    then m(sp_id s \<mapsto> tool_output (hd (sp_output s))) else m) tools Map.empty
      in fold_task_blocks uses result_text)"

subsection \<open>The status fold\<close>

record session_status =
  st_derived_status :: string
  st_has_git_activity :: bool
  st_tool_result_count :: int
  st_tool_error_count :: int

definition fold_session_status :: "span list \<Rightarrow> span option \<Rightarrow> session_status" where
  "fold_session_status tools closing =
     (let results = int (length (filter (\<lambda>s. sp_output s \<noteq> []) tools));
          errors = int (length (filter (\<lambda>s. sp_status s = ''error'') tools));
          git = list_ex (\<lambda>s. blocks_have_git_activity (sp_input s)) tools;
          leaf = map_option (\<lambda>s. (''assistant'', sp_output s, sp_stop_reason s)) closing
      in \<lparr>st_derived_status = determine_status leaf git results errors, st_has_git_activity = git,
          st_tool_result_count = results, st_tool_error_count = errors\<rparr>)"

end
