(* ===== verification/SpanEmit.thy ===== *)
theory SpanEmit
  imports SpanReads
begin

text \<open>
  The span emitter of \<open>pkg/derive/spans.go\<close>. The emitter's state is a heap of spans, a heap of
  turns (traces) and the maps of the walk: a \<open>*Span\<close> is an index into \<open>em_spans\<close>, a
  \<open>*SpanTurn\<close> an index into \<open>em_turns\<close>, which is also the order of \<open>set.Turns\<close>.

  \<open>em_nil\<close> records that a nil pointer was dereferenced, which ends the real program.
\<close>

definition link_emits :: string where "link_emits = ''emits''"
definition link_feeds :: string where "link_feeds = ''feeds''"
definition link_rejoin :: string where "link_rejoin = ''rejoin''"
definition link_verdict :: string where "link_verdict = ''verdict''"
definition link_compaction_seam :: string where "link_compaction_seam = ''compaction-seam''"

record span_link =
  ln_from_trace :: string
  ln_from_span :: string
  ln_from_io :: string
  ln_to_trace :: string
  ln_to_span :: string
  ln_to_io :: string
  ln_kind :: string

record span_turn =
  tn_trace_id :: string
  tn_session :: session_key
  tn_user_prompt :: string
  tn_response_preview :: string
  tn_synthetic :: string
  tn_source :: string
  tn_started_at :: gotime
  tn_ended_at :: gotime
  tn_total_input_tokens :: int
  tn_total_output_tokens :: int
  tn_main_input_tokens :: int
  tn_main_output_tokens :: int
  tn_cache_read_tokens :: int
  tn_cache_creation_tokens :: int
  tn_total_cost :: rat
  tn_tool_calls :: int
  tn_spans :: "nat list"
  tn_links :: "span_link list"

record span_report =
  rp_traces :: int
  rp_spans :: int
  rp_span_kinds :: "string \<Rightarrow> int option"
  rp_call_kinds :: "string \<Rightarrow> int option"
  rp_link_kinds :: "string \<Rightarrow> int option"
  rp_synthetic :: int
  rp_orphan_shadow :: int

record emitter =
  em_spans :: "span list"
  em_turns :: "span_turn list"
  em_links :: "span_link list"
  em_report :: span_report
  em_cur :: "session_key \<Rightarrow> nat option"
  em_timeline :: "session_key \<Rightarrow> nat list"
  em_tool_spans :: "string \<Rightarrow> nat option"
  em_tool_turn :: "string \<Rightarrow> nat option"
  em_agent_span :: "string \<Rightarrow> nat option"
  em_agent_turn :: "string \<Rightarrow> nat option"
  em_seam :: "session_key \<Rightarrow> (nat \<times> nat) option"
  em_spawn_labels :: "string \<Rightarrow> spawn_label option"
  em_nil :: bool

definition new_emitter :: "(string \<Rightarrow> spawn_label option) \<Rightarrow> emitter" where
  "new_emitter labels =
     \<lparr>em_spans = [], em_turns = [], em_links = [],
      em_report = \<lparr>rp_traces = 0, rp_spans = 0, rp_span_kinds = Map.empty, rp_call_kinds = Map.empty,
        rp_link_kinds = Map.empty, rp_synthetic = 0, rp_orphan_shadow = 0\<rparr>,
      em_cur = Map.empty, em_timeline = (\<lambda>_. []), em_tool_spans = Map.empty, em_tool_turn = Map.empty,
      em_agent_span = Map.empty, em_agent_turn = Map.empty, em_seam = Map.empty,
      em_spawn_labels = labels, em_nil = False\<rparr>"

abbreviation trace_id_at :: "emitter \<Rightarrow> nat \<Rightarrow> string" where
  "trace_id_at em t \<equiv> tn_trace_id (em_turns em ! t)"

abbreviation span_id_at :: "emitter \<Rightarrow> nat \<Rightarrow> string" where
  "span_id_at em i \<equiv> sp_id (em_spans em ! i)"

text \<open>\<open>turn.Spans[0]\<close>.\<close>

abbreviation root_at :: "emitter \<Rightarrow> nat \<Rightarrow> nat" where
  "root_at em t \<equiv> hd (tn_spans (em_turns em ! t))"

text \<open>A pointer read from a map: nil when the key is absent.\<close>

definition deref :: "nat option \<Rightarrow> emitter \<Rightarrow> emitter \<times> nat" where
  "deref p em = (case p of Some i \<Rightarrow> (em, i) | None \<Rightarrow> (em\<lparr>em_nil := True\<rparr>, 0))"

subsection \<open>Adding spans and links\<close>

definition add_span :: "nat \<Rightarrow> span \<Rightarrow> emitter \<Rightarrow> emitter" where
  "add_span t s em =
     (let r = em_report em;
          fin = sp_started_at s + sp_duration_ns s
      in em\<lparr>em_spans := em_spans em @ [s],
            em_turns := upd_at (em_turns em) t (\<lambda>tn. tn\<lparr>tn_spans := tn_spans tn @ [length (em_spans em)],
              tn_ended_at := (if tn_ended_at tn < fin then fin else tn_ended_at tn)\<rparr>),
            em_report := r\<lparr>rp_spans := rp_spans r + 1, rp_span_kinds := map_incr (rp_span_kinds r) (sp_kind s),
              rp_call_kinds := (if sp_call_kind s \<noteq> [] then map_incr (rp_call_kinds r) (sp_call_kind s)
                                else rp_call_kinds r)\<rparr>\<rparr>)"

definition add_link :: "nat \<Rightarrow> span_link \<Rightarrow> emitter \<Rightarrow> emitter" where
  "add_link host l em =
     (let r = em_report em;
          em1 = em\<lparr>em_report := r\<lparr>rp_link_kinds := map_incr (rp_link_kinds r) (ln_kind l)\<rparr>\<rparr>
      in if ln_from_trace l = ln_to_trace l
         then em1\<lparr>em_turns := upd_at (em_turns em1) host (\<lambda>tn. tn\<lparr>tn_links := tn_links tn @ [l]\<rparr>)\<rparr>
         else em1\<lparr>em_links := em_links em1 @ [l]\<rparr>)"

subsection \<open>Traces\<close>

definition new_turn :: "derived_node list \<Rightarrow> span_source \<Rightarrow> derived_node option \<Rightarrow> span_turn" where
  "new_turn ns src prompt =
     \<lparr>tn_trace_id = ''trc_'' @ trace_identity ns src, tn_session = ss_session src,
      tn_user_prompt = (case prompt of None \<Rightarrow> [] | Some d \<Rightarrow> prompt_text (dn_node d)),
      tn_response_preview = [], tn_synthetic = [], tn_source = ss_source src,
      tn_started_at = ss_captured_at src, tn_ended_at = ss_captured_at src,
      tn_total_input_tokens = 0, tn_total_output_tokens = 0, tn_main_input_tokens = 0, tn_main_output_tokens = 0,
      tn_cache_read_tokens = 0, tn_cache_creation_tokens = 0, tn_total_cost = 0, tn_tool_calls = 0,
      tn_spans = [], tn_links = []\<rparr>"

definition root_span :: "derived_node list \<Rightarrow> span_source \<Rightarrow> span" where
  "root_span ns src = empty_span\<lparr>sp_id := ''agent_main_'' @ trace_identity ns src, sp_kind := span_kind_agent,
     sp_name := ''main'', sp_status := ''ok'', sp_started_at := ss_captured_at src\<rparr>"

text \<open>\<open>openTrace\<close>: the new turn's index is the number of turns before the call.\<close>

definition open_trace :: "derived_node list \<Rightarrow> span_source \<Rightarrow> derived_node option \<Rightarrow> emitter \<Rightarrow> emitter" where
  "open_trace ns src prompt em =
     (let t = length (em_turns em);
          em1 = add_span t (root_span ns src) (em\<lparr>em_turns := em_turns em @ [new_turn ns src prompt]\<rparr>);
          em2 = em1\<lparr>em_cur := (em_cur em1)(ss_session src \<mapsto> t),
                    em_timeline := (em_timeline em1)(ss_session src := em_timeline em1 (ss_session src) @ [t])\<rparr>
      in case em_seam em2 (ss_session src) of
           None \<Rightarrow> em2
         | Some (st, sp) \<Rightarrow>
             (let em3 = em2\<lparr>em_turns := upd_at (em_turns em2) t (\<lambda>tn. tn\<lparr>tn_synthetic := ''post-compaction''\<rparr>),
                    em_report := (em_report em2)\<lparr>rp_synthetic := rp_synthetic (em_report em2) + 1\<rparr>\<rparr>;
                  em4 = add_link t \<lparr>ln_from_trace = trace_id_at em3 st, ln_from_span = span_id_at em3 sp,
                    ln_from_io = ''output'', ln_to_trace = trace_id_at em3 t,
                    ln_to_span = ''llm_'' @ call_identity ns src, ln_to_io = ''input'',
                    ln_kind = link_compaction_seam\<rparr> em3
              in em4\<lparr>em_seam := (em_seam em4)(ss_session src := None)\<rparr>))"

definition ensure_trace :: "derived_node list \<Rightarrow> span_source \<Rightarrow> emitter \<Rightarrow> emitter \<times> nat" where
  "ensure_trace ns src em = (case em_cur em (ss_session src) of
      Some t \<Rightarrow> (em, t)
    | None \<Rightarrow>
        (let t = length (em_turns em); em1 = open_trace ns src None em
         in (em1\<lparr>em_turns := upd_at (em_turns em1) t (\<lambda>tn. tn\<lparr>tn_synthetic := ''shadow-opener''\<rparr>),
                 em_report := (em_report em1)\<lparr>rp_synthetic := rp_synthetic (em_report em1) + 1\<rparr>\<rparr>, t)))"

fun live_turn :: "emitter \<Rightarrow> gotime \<Rightarrow> nat \<Rightarrow> nat list \<Rightarrow> nat" where
  "live_turn em c live [] = live"
| "live_turn em c live (t # ts) =
     (if c < tn_started_at (em_turns em ! t) then live else live_turn em c t ts)"

definition trace_at :: "derived_node list \<Rightarrow> span_source \<Rightarrow> emitter \<Rightarrow> emitter \<times> nat" where
  "trace_at ns src em = (case em_timeline em (ss_session src) of
      [] \<Rightarrow> ensure_trace ns src em
    | t # ts \<Rightarrow> (em, live_turn em (ss_captured_at src) t ts))"

subsection \<open>The body of a conversation call\<close>

definition fill_tool_result ::
  "session_key \<Rightarrow> content_block \<Rightarrow> gotime \<Rightarrow> emitter \<Rightarrow> emitter \<times> nat option"
where
  "fill_tool_result session b captured em =
     (let rid = (if tool_result_id b = [] then tool_use_id b else tool_result_id b)
      in case em_tool_spans em (tool_key session rid) of
           None \<Rightarrow> (em, None)
         | Some i \<Rightarrow>
             if sp_output (em_spans em ! i) \<noteq> [] then (em, None)
             else (em\<lparr>em_spans := upd_at (em_spans em) i (\<lambda>ts. ts\<lparr>sp_output := [b],
                      sp_status := (if is_error b then ''error'' else sp_status ts),
                      sp_duration_ns := (let d = time_sub captured (sp_started_at ts)
                                         in if 0 < d then d else sp_duration_ns ts)\<rparr>)\<rparr>, Some i))"

text \<open>One request node: an event span for injected or system context after the resume boundary,
  and the tool results of a user or tool node.\<close>

definition fill_results ::
  "session_key \<Rightarrow> gotime \<Rightarrow> content_block list \<Rightarrow> emitter \<times> nat list \<Rightarrow> emitter \<times> nat list"
where
  "fill_results session captured blocks st =
     fold (\<lambda>b (em, feeds). if \<not> is_tool_result b then (em, feeds)
        else case fill_tool_result session b captured em of
            (em1, None) \<Rightarrow> (em1, feeds)
          | (em1, Some i) \<Rightarrow> (em1, feeds @ [i])) blocks st"

definition emit_request_node ::
  "(span_identity \<Rightarrow> string) \<Rightarrow> derived_node list \<Rightarrow> span_source \<Rightarrow> nat \<Rightarrow> nat
   \<Rightarrow> nat \<times> derived_node \<times> bool \<Rightarrow> emitter \<times> nat list \<Rightarrow> emitter \<times> nat list"
where
  "emit_request_node tx ns src t parent e st =
     (let (i, d, new) = e; (em, feeds) = st; nd = dn_node d;
          boundary = last_fresh_assistant_idx ns src;
          event = (\<lambda>kind. event_span tx src (span_id_at em parent) kind (n_hash nd) (dn_captured_at d) (dn_content d))
      in if \<not> new then st
         else if is_injected (n_kind nd) then
           (if boundary < int i then (add_span t (event (n_kind nd)) em, feeds) else st)
         else if dn_role d = ''system'' then
           (if boundary < int i then (add_span t (event kind_injected_system_insert) em, feeds) else st)
         else if dn_role d \<noteq> ''user'' \<and> dn_role d \<noteq> ''tool'' then st
         else fill_results (ss_session src) (dn_captured_at d) (dn_content d) (em, feeds))"

definition feed_link :: "span_source \<Rightarrow> nat \<Rightarrow> nat \<Rightarrow> nat \<Rightarrow> emitter \<Rightarrow> emitter" where
  "feed_link src t llm ts em =
     (let (em1, ft) = deref (em_tool_turn em (tool_key (ss_session src) (tool_id (em_spans em ! ts)))) em
      in add_link t \<lparr>ln_from_trace = trace_id_at em1 ft, ln_from_span = span_id_at em1 ts, ln_from_io = ''output'',
           ln_to_trace = trace_id_at em1 t, ln_to_span = span_id_at em1 llm, ln_to_io = ''input'',
           ln_kind = link_feeds\<rparr> em1)"

text \<open>One block of the response: a tool use opens its tool span, once per session and id.\<close>

definition emit_tool_use :: "span_source \<Rightarrow> nat \<Rightarrow> nat \<Rightarrow> nat \<Rightarrow> content_block \<Rightarrow> emitter \<Rightarrow> emitter" where
  "emit_tool_use src t parent llm b em =
     (if (cb_type b \<noteq> ''tool_use'' \<and> cb_type b \<noteq> ''server_tool_use'') \<or> tool_use_id b = [] then em
      else let tk = tool_key (ss_session src) (tool_use_id b)
        in case em_tool_spans em tk of
             Some ex \<Rightarrow>
               (let (em1, et) = deref (em_tool_turn em tk) em
                in add_link t \<lparr>ln_from_trace = trace_id_at em1 t, ln_from_span = span_id_at em1 llm,
                     ln_from_io = ''output'', ln_to_trace = trace_id_at em1 et, ln_to_span = span_id_at em1 ex,
                     ln_to_io = ''input'', ln_kind = link_emits\<rparr> em1)
           | None \<Rightarrow>
               (let ts = empty_span\<lparr>sp_id := tool_use_id b, sp_parent := span_id_at em parent,
                      sp_kind := span_kind_tool, sp_name := display_tool_name (tool_name b) (tool_input b),
                      sp_status := ''ok'', sp_started_at := ss_captured_at src, sp_thread_id := ss_thread_id src,
                      sp_input := [spawn_tool_input (em_spawn_labels em) (ss_session src) b]\<rparr>;
                    i = length (em_spans em);
                    em1 = add_span t ts em;
                    em2 = em1\<lparr>em_tool_spans := (em_tool_spans em1)(tk \<mapsto> i),
                      em_tool_turn := (em_tool_turn em1)(tk \<mapsto> t, tool_key (ss_session src) (sp_id ts) \<mapsto> t)\<rparr>
                in add_link t \<lparr>ln_from_trace = trace_id_at em2 t, ln_from_span = span_id_at em2 llm,
                     ln_from_io = ''output'', ln_to_trace = trace_id_at em2 t, ln_to_span = sp_id ts,
                     ln_to_io = ''input'', ln_kind = link_emits\<rparr> em2))"

definition emit_conversation ::
  "(span_identity \<Rightarrow> string) \<Rightarrow> derived_node list \<Rightarrow> span_source \<Rightarrow> nat \<Rightarrow> nat \<Rightarrow> emitter \<Rightarrow> emitter"
where
  "emit_conversation tx ns src t parent em =
     (let (em1, feeds) = fold (emit_request_node tx ns src t parent) (request_nodes ns src) (em, []);
          llm = length (em_spans em1);
          em2 = add_span t (llm_span ns src (span_id_at em1 parent) (conversation_input ns src)) em1;
          em3 = fold (feed_link src t llm) feeds em2
      in fold (emit_tool_use src t parent llm) (b_content (n_bucket (response_node ns src))) em3)"

subsection \<open>The four kinds of calls\<close>

definition main_call ::
  "(span_identity \<Rightarrow> string) \<Rightarrow> derived_node list \<Rightarrow> span_source \<Rightarrow> emitter \<Rightarrow> emitter"
where
  "main_call tx ns src em =
     (let prompt0 = fresh_genuine_prompt ns src;
          prompt = (if prompt0 = None \<and> ss_source src = source_transcript \<and> ss_turn_identity src \<noteq> []
                    then transcript_genuine_prompt ns src else prompt0);
          (em1, t) = (case (em_cur em (ss_session src), prompt) of
              (Some t, None) \<Rightarrow> (em, t)
            | _ \<Rightarrow> (open_trace ns src prompt em, length (em_turns em)))
      in emit_conversation tx ns src t (root_at em1 t) em1)"

definition thread_key :: "span_source \<Rightarrow> string" where
  "thread_key src = tool_key (ss_session src) (ss_thread_id src)"

text \<open>\<open>threadCall\<close>'s first half: the turn and parent of the thread's agent span, under its spawning
  tool span or under the root of the open trace; then the agent span itself.\<close>

definition agent_host ::
  "derived_node list \<Rightarrow> span_source \<Rightarrow> string \<Rightarrow> emitter \<Rightarrow> emitter \<times> nat \<times> string"
where
  "agent_host ns src agent_id em =
     (let task_id = tool_key (ss_session src) (thread_anchor ns src)
      in case em_tool_spans em task_id of
           Some task \<Rightarrow>
             (let (em1, t) = deref (em_tool_turn em task_id) em;
                  em2 = add_link t \<lparr>ln_from_trace = trace_id_at em1 t, ln_from_span = agent_id,
                    ln_from_io = ''output'', ln_to_trace = trace_id_at em1 t, ln_to_span = span_id_at em1 task,
                    ln_to_io = ''output'', ln_kind = link_rejoin\<rparr> em1
              in (em2, t, span_id_at em2 task))
         | None \<Rightarrow> (let (em1, t) = ensure_trace ns src em in (em1, t, span_id_at em1 (root_at em1 t))))"

definition agent_span :: "(span_identity \<Rightarrow> string) \<Rightarrow> span_source \<Rightarrow> span" where
  "agent_span tx src = empty_span\<lparr>sp_id := transcript_span_identity tx src ''agent'' (ss_thread_id src) (''agent_'' @ ss_thread_id src),
     sp_kind := span_kind_agent, sp_name := ''subagent'', sp_status := ''ok'',
     sp_started_at := ss_captured_at src, sp_thread_id := ss_thread_id src\<rparr>"

definition open_agent ::
  "(span_identity \<Rightarrow> string) \<Rightarrow> derived_node list \<Rightarrow> span_source \<Rightarrow> emitter \<Rightarrow> emitter \<times> nat \<times> nat"
where
  "open_agent tx ns src em =
     (let agent = agent_span tx src;
          (em1, t, parent) = agent_host ns src (sp_id agent) em;
          i = length (em_spans em1);
          em2 = add_span t (agent\<lparr>sp_parent := parent\<rparr>) em1
      in (em2\<lparr>em_agent_span := (em_agent_span em2)(thread_key src \<mapsto> i),
              em_agent_turn := (em_agent_turn em2)(thread_key src \<mapsto> t)\<rparr>, i, t))"

definition find_agent ::
  "(span_identity \<Rightarrow> string) \<Rightarrow> derived_node list \<Rightarrow> span_source \<Rightarrow> emitter \<Rightarrow> emitter \<times> nat \<times> nat"
where
  "find_agent tx ns src em = (case em_agent_span em (thread_key src) of
      Some i \<Rightarrow> (let (em1, t) = deref (em_agent_turn em (thread_key src)) em in (em1, i, t))
    | None \<Rightarrow> open_agent tx ns src em)"

definition thread_call ::
  "(span_identity \<Rightarrow> string) \<Rightarrow> derived_node list \<Rightarrow> span_source \<Rightarrow> emitter \<Rightarrow> emitter"
where
  "thread_call tx ns src em =
     (let (em1, agent, t) = find_agent tx ns src em;
          em2 = emit_conversation tx ns src t agent em1;
          fin = ss_captured_at src
      in if sp_started_at (em_spans em2 ! agent) < fin
         then em2\<lparr>em_spans := upd_at (em_spans em2) agent
                (\<lambda>s. s\<lparr>sp_duration_ns := time_sub fin (sp_started_at s)\<rparr>)\<rparr>
         else em2)"

definition compaction_call :: "derived_node list \<Rightarrow> span_source \<Rightarrow> emitter \<Rightarrow> emitter" where
  "compaction_call ns src em =
     (let (em1, t) = ensure_trace ns src em;
          i = length (em_spans em1);
          em2 = add_span t (llm_span ns src (span_id_at em1 (root_at em1 t)) []) em1
      in em2\<lparr>em_seam := (em_seam em2)(ss_session src \<mapsto> (t, i))\<rparr>)"

definition shadow_call :: "derived_node list \<Rightarrow> span_source \<Rightarrow> emitter \<Rightarrow> emitter" where
  "shadow_call ns src em =
     (let anchor = tool_key (ss_session src) (ss_anchor src)
      in case em_tool_spans em anchor of
           Some tool \<Rightarrow>
             (let (em1, t) = deref (em_tool_turn em anchor) em;
                  span = llm_span ns src (span_id_at em1 tool) (fresh_input ns src);
                  em2 = add_span t span em1
              in add_link t \<lparr>ln_from_trace = trace_id_at em2 t, ln_from_span = sp_id span, ln_from_io = ''output'',
                   ln_to_trace = trace_id_at em2 t, ln_to_span = span_id_at em2 tool, ln_to_io = ''verdict'',
                   ln_kind = link_verdict\<rparr> em2)
         | None \<Rightarrow>
             (let (em1, t) = trace_at ns src em;
                  em2 = em1\<lparr>em_report := (em_report em1)\<lparr>rp_orphan_shadow := rp_orphan_shadow (em_report em1) + 1\<rparr>\<rparr>
              in add_span t (llm_span ns src (span_id_at em2 (root_at em2 t)) (fresh_input ns src)) em2))"

subsection \<open>The thread phase\<close>

definition thread_ready :: "derived_node list \<Rightarrow> emitter \<Rightarrow> span_source \<Rightarrow> bool" where
  "thread_ready ns em src \<longleftrightarrow> em_agent_span em (thread_key src) \<noteq> None
     \<or> (thread_anchor ns src \<noteq> [] \<and> em_tool_spans em (tool_key (ss_session src) (thread_anchor ns src)) \<noteq> None)"

text \<open>One pass in capture order: the emitter, the calls still blocked, and whether a call was
  emitted.\<close>

fun thread_pass ::
  "(span_identity \<Rightarrow> string) \<Rightarrow> derived_node list \<Rightarrow> span_source list \<Rightarrow> emitter \<Rightarrow> emitter \<times> span_source list \<times> bool"
where
  "thread_pass tx ns [] em = (em, [], False)"
| "thread_pass tx ns (src # pending) em =
     (if thread_ready ns em src
      then (let (em', blocked, _) = thread_pass tx ns pending (thread_call tx ns src em) in (em', blocked, True))
      else (let (em', blocked, progressed) = thread_pass tx ns pending em in (em', src # blocked, progressed)))"

lemma thread_pass_shrinks:
  "thread_pass tx ns pending em = (em', blocked, progressed) \<Longrightarrow>
   length blocked \<le> length pending \<and> (progressed \<longrightarrow> length blocked < length pending)
   \<and> (\<not> progressed \<longrightarrow> em' = em \<and> blocked = pending)"
  by (induction pending arbitrary: em em' blocked progressed)
     (auto split: if_splits prod.splits simp: Let_def, fastforce+)

function thread_calls ::
  "(span_identity \<Rightarrow> string) \<Rightarrow> derived_node list \<Rightarrow> span_source list \<Rightarrow> emitter \<Rightarrow> emitter"
where
  "thread_calls tx ns pending em =
     (if pending = [] then em
      else case thread_pass tx ns pending em of (em1, blocked, progressed) \<Rightarrow>
        if progressed then thread_calls tx ns blocked em1
        else fold (thread_call tx ns) pending em1)"
  by pat_completeness auto
termination
  by (relation "measure (\<lambda>(tx, ns, pending, em). length pending)") (auto dest: sym [THEN thread_pass_shrinks])

declare thread_calls.simps [simp del]

subsection \<open>Finishing\<close>

record model_usage =
  mu_model :: string
  mu_calls :: int
  mu_input_tokens :: int
  mu_output_tokens :: int
  mu_cost_usd :: rat

text \<open>The per-session accumulators of \<open>finish\<close>; an absent session reads as the empty value.\<close>

record finish_folds =
  ff_models :: "session_key \<Rightarrow> (string \<times> model_usage) list"
  ff_kinds :: "session_key \<Rightarrow> string \<Rightarrow> int option"
  ff_tools :: "session_key \<Rightarrow> nat list"

record span_set =
  so_spans :: "span list"
  so_turns :: "span_turn list"
  so_links :: "span_link list"
  so_model_usage :: "session_key \<Rightarrow> model_usage list option"
  so_tasks :: "session_key \<Rightarrow> task list option"
  so_kind_counts :: "session_key \<Rightarrow> (string \<Rightarrow> int option) option"
  so_status :: "session_key \<Rightarrow> session_status option"
  so_report :: span_report

text \<open>\<open>sort.SliceStable\<close> on \<open>turn.Spans[1:]\<close>: the root stays first.\<close>

definition sorted_spans :: "span list \<Rightarrow> nat list \<Rightarrow> nat list" where
  "sorted_spans spans is = (case is of [] \<Rightarrow> []
     | r # rest \<Rightarrow> r # sort_key (\<lambda>i. sp_started_at (spans ! i)) rest)"

definition number_spans :: "nat list \<Rightarrow> span list \<Rightarrow> span list" where
  "number_spans is spans =
     fold (\<lambda>(k, i) sps. upd_at sps i (\<lambda>s. s\<lparr>sp_seq := int k\<rparr>)) (zip [0..<length is] is) spans"

definition add_usage ::
  "model_usage \<Rightarrow> (rat \<Rightarrow> rat) \<Rightarrow> usage \<Rightarrow> rat \<Rightarrow> model_usage"
where
  "add_usage mu rnd u cost =
     mu\<lparr>mu_calls := wrap64 (mu_calls mu + 1), mu_input_tokens := wrap64 (mu_input_tokens mu + prompt_tokens u),
        mu_output_tokens := wrap64 (mu_output_tokens mu + completion_tokens u),
        mu_cost_usd := rnd (mu_cost_usd mu + cost)\<rparr>"

fun upd_model ::
  "string \<Rightarrow> (rat \<Rightarrow> rat) \<Rightarrow> usage \<Rightarrow> rat \<Rightarrow> (string \<times> model_usage) list \<Rightarrow> (string \<times> model_usage) list"
where
  "upd_model m rnd u cost [] =
     [(m, add_usage \<lparr>mu_model = m, mu_calls = 0, mu_input_tokens = 0, mu_output_tokens = 0, mu_cost_usd = 0\<rparr> rnd u cost)]"
| "upd_model m rnd u cost ((k, mu) # rest) =
     (if k = m then (k, add_usage mu rnd u cost) # rest else (k, mu) # upd_model m rnd u cost rest)"

text \<open>The loop over a turn's spans; a span comes with its index.\<close>

definition account_span ::
  "(rat \<Rightarrow> rat) \<Rightarrow> pricing_table \<Rightarrow> nat \<times> span \<Rightarrow> span_turn \<times> finish_folds \<Rightarrow> span_turn \<times> finish_folds"
where
  "account_span rnd pricing e st =
     (let (i, s) = e; (tn0, ff0) = st;
          fin = sp_started_at s + sp_duration_ns s;
          key = tn_session tn0;
          tn1 = tn0\<lparr>tn_ended_at := (if tn_ended_at tn0 < fin then fin else tn_ended_at tn0)\<rparr>;
          ff1 = (if sp_call_kind s \<noteq> []
                 then ff0\<lparr>ff_kinds := (ff_kinds ff0)(key := map_incr (ff_kinds ff0 key) (sp_call_kind s))\<rparr> else ff0);
          tn2 = (if sp_kind s = span_kind_tool then tn1\<lparr>tn_tool_calls := tn_tool_calls tn1 + 1\<rparr> else tn1);
          ff2 = (if sp_kind s = span_kind_tool
                 then ff1\<lparr>ff_tools := (ff_tools ff1)(key := ff_tools ff1 key @ [i])\<rparr> else ff1)
      in case sp_usage s of
           None \<Rightarrow> (tn2, ff2)
         | Some u \<Rightarrow>
             if sp_kind s \<noteq> span_kind_llm then (tn2, ff2)
             else
               let tn3 = tn2\<lparr>tn_total_input_tokens := wrap64 (tn_total_input_tokens tn2 + prompt_tokens u),
                     tn_total_output_tokens := wrap64 (tn_total_output_tokens tn2 + completion_tokens u),
                     tn_cache_read_tokens := wrap64 (tn_cache_read_tokens tn2 + cache_read_input_tokens u),
                     tn_cache_creation_tokens := wrap64 (tn_cache_creation_tokens tn2 + cache_creation_input_tokens u)\<rparr>;
                   tn4 = (if sp_call_kind s = kind_main
                     then tn3\<lparr>tn_main_input_tokens := wrap64 (tn_main_input_tokens tn3 + prompt_tokens u),
                              tn_main_output_tokens := wrap64 (tn_main_output_tokens tn3 + completion_tokens u)\<rparr>
                     else tn3);
                   price = pricing_for_model pricing (sp_model s);
                   cost = (case price of None \<Rightarrow> 0 | Some p \<Rightarrow>
                     snd (snd (cost_for_tokens_with_cache rnd p (prompt_tokens u) (completion_tokens u)
                       (cache_creation_input_tokens u) (cache_read_input_tokens u))));
                   tn5 = (if price = None then tn4 else tn4\<lparr>tn_total_cost := rnd (tn_total_cost tn4 + cost)\<rparr>);
                   ff3 = (if sp_model s = [] then ff2
                     else ff2\<lparr>ff_models := (ff_models ff2)(key := upd_model (sp_model s) rnd u cost (ff_models ff2 key))\<rparr>)
               in (tn5, ff3))"

definition response_preview :: "span list \<Rightarrow> nat list \<Rightarrow> string" where
  "response_preview spans is =
     (case find (\<lambda>i. let s = spans ! i in sp_kind s = span_kind_llm \<and> sp_call_kind s = kind_main
                 \<and> sp_thread_id s = [] \<and> join_text_blocks (sp_output s) \<noteq> []) (rev is) of
        None \<Rightarrow> [] | Some i \<Rightarrow> join_text_blocks (sp_output (spans ! i)))"

definition finish_turn ::
  "(rat \<Rightarrow> rat) \<Rightarrow> pricing_table \<Rightarrow> span_turn \<Rightarrow> span list \<times> span_turn list \<times> finish_folds
   \<Rightarrow> span list \<times> span_turn list \<times> finish_folds"
where
  "finish_turn rnd pricing tn0 st =
     (let (spans0, done, ff0) = st;
          order = sorted_spans spans0 (tn_spans tn0);
          spans1 = number_spans order spans0;
          (tn1, ff1) = fold (account_span rnd pricing) (map (\<lambda>i. (i, spans1 ! i)) order)
                         (tn0\<lparr>tn_spans := order\<rparr>, ff0);
          root = hd order;
          spans2 = (if sp_kind (spans1 ! root) = span_kind_agent
            then upd_at spans1 root (\<lambda>s. s\<lparr>sp_duration_ns := time_sub (tn_ended_at tn1) (tn_started_at tn1)\<rparr>)
            else spans1)
      in (spans2, done @ [tn1\<lparr>tn_response_preview := response_preview spans2 order\<rparr>], ff1))"

definition terminal_main_span :: "span list \<Rightarrow> span_turn list \<Rightarrow> nat list \<Rightarrow> span option" where
  "terminal_main_span spans turns timeline =
     map_option ((!) spans)
       (find (\<lambda>i. sp_kind (spans ! i) = span_kind_llm \<and> sp_call_kind (spans ! i) = kind_main
               \<and> sp_thread_id (spans ! i) = [])
          (concat (map (\<lambda>t. rev (tn_spans (turns ! t))) (rev timeline))))"

text \<open>Ordered by cost descending, then by model name.\<close>

definition rank_models :: "(string \<times> model_usage) list \<Rightarrow> model_usage list" where
  "rank_models fold_entries = sort_key (\<lambda>mu. (- mu_cost_usd mu, mu_model mu)) (map snd fold_entries)"

definition fold_model_usage ::
  "(session_key \<Rightarrow> (string \<times> model_usage) list) \<Rightarrow> session_key \<Rightarrow> model_usage list option"
where
  "fold_model_usage models key = (if models key = [] then None else Some (rank_models (models key)))"

definition empty_folds :: finish_folds where
  "empty_folds = \<lparr>ff_models = (\<lambda>_. []), ff_kinds = (\<lambda>_. Map.empty), ff_tools = (\<lambda>_. [])\<rparr>"

definition finish_emit :: "(rat \<Rightarrow> rat) \<Rightarrow> emitter \<Rightarrow> span_set" where
  "finish_emit rnd em =
     (let (spans, turns, ff) = fold (finish_turn rnd (default_pricing rnd)) (em_turns em) (em_spans em, [], empty_folds);
          covered = set (map tn_session turns);
          tools = (\<lambda>key. map ((!) spans) (ff_tools ff key))
      in \<lparr>so_spans = spans, so_turns = turns, so_links = em_links em,
          so_model_usage = fold_model_usage (ff_models ff),
          so_tasks = (\<lambda>key. if key \<in> covered then Some (fold_session_tasks (tools key)) else None),
          so_kind_counts = (\<lambda>key. if key \<in> covered then Some (ff_kinds ff key) else None),
          so_status = (\<lambda>key. if key \<in> covered
             then Some (fold_session_status (tools key) (terminal_main_span spans turns (em_timeline em key))) else None),
          so_report = (em_report em)\<lparr>rp_traces := int (length (em_turns em))\<rparr>\<rparr>)"

subsection \<open>The whole pass\<close>

text \<open>How \<open>EmitSpans\<close> routes a source: to the spine pass, the thread phase or the shadow phase.\<close>

datatype route = SpineMain | SpineCompaction | ThreadPhase | ShadowPhase

definition route_of :: "span_source \<Rightarrow> route" where
  "route_of src =
     (if ss_kind src = kind_compaction \<and> ss_thread_id src \<noteq> [] then ThreadPhase
      else if ss_kind src = kind_main \<and> ss_thread_id src = [] then SpineMain
      else if ss_kind src = kind_main then ThreadPhase
      else if ss_kind src = kind_compaction then SpineCompaction
      else ShadowPhase)"

definition spine_step ::
  "(span_identity \<Rightarrow> string) \<Rightarrow> derived_node list \<Rightarrow> span_source \<Rightarrow> emitter \<Rightarrow> emitter"
where
  "spine_step tx ns src em = (case route_of src of
      SpineMain \<Rightarrow> main_call tx ns src em
    | SpineCompaction \<Rightarrow> compaction_call ns src em
    | _ \<Rightarrow> em)"

definition walk_spans :: "(span_identity \<Rightarrow> string) \<Rightarrow> derived_set \<Rightarrow> emitter" where
  "walk_spans tx ds =
     (let ns = ds_nodes ds;
          sources = filter (\<lambda>src. ss_chain src \<noteq> []) (ds_sources ds);
          em1 = fold (spine_step tx ns) sources (new_emitter (ds_spawn_labels ds));
          em2 = thread_calls tx ns (filter (\<lambda>src. route_of src = ThreadPhase) sources) em1
      in fold (shadow_call ns) (filter (\<lambda>src. route_of src = ShadowPhase) sources) em2)"

definition emit_spans :: "(span_identity \<Rightarrow> string) \<Rightarrow> (rat \<Rightarrow> rat) \<Rightarrow> derived_set \<Rightarrow> span_set" where
  "emit_spans tx rnd ds = finish_emit rnd (walk_spans tx ds)"

end
