(* ===== verification/SpanWalk.thy ===== *)
theory SpanWalk
  imports SpanEmit
begin

text \<open>
  The invariant of the span walk (\<open>SpanEmit\<close>): where spans live, how traces, maps, parents,
  links and the report fit together. Every operation of the emitter is a step that keeps it, and
  the steps of the phases compose to the whole walk.
\<close>

subsection \<open>The emitter's invariant\<close>

text \<open>Placement: every span of the heap is in the span list of exactly one turn, once, and no turn
  is empty.\<close>

definition inv_place :: "emitter \<Rightarrow> bool" where
  "inv_place em \<longleftrightarrow> mset (concat (map tn_spans (em_turns em))) = mset [0..<length (em_spans em)]
     \<and> (\<forall>t<length (em_turns em). tn_spans (em_turns em ! t) \<noteq> [])"

text \<open>A session's timeline is its turns in order of opening, and the open trace is the last one.\<close>

definition inv_trace :: "emitter \<Rightarrow> bool" where
  "inv_trace em \<longleftrightarrow>
     (\<forall>s. em_timeline em s = filter (\<lambda>t. tn_session (em_turns em ! t) = s) [0..<length (em_turns em)])
   \<and> (\<forall>s. em_cur em s = (if em_timeline em s = [] then None else Some (last (em_timeline em s))))"

definition in_turn :: "emitter \<Rightarrow> nat \<Rightarrow> nat \<Rightarrow> bool" where
  "in_turn em t i \<longleftrightarrow> t < length (em_turns em) \<and> i < length (em_spans em) \<and> i \<in> set (tn_spans (em_turns em ! t))"

definition inv_maps :: "emitter \<Rightarrow> bool" where
  "inv_maps em \<longleftrightarrow>
     (\<forall>k i. em_tool_spans em k = Some i \<longrightarrow> (\<exists>t. em_tool_turn em k = Some t \<and> in_turn em t i))
   \<and> (\<forall>k i. em_agent_span em k = Some i \<longrightarrow> (\<exists>t. em_agent_turn em k = Some t \<and> in_turn em t i))
   \<and> (\<forall>s t i. em_seam em s = Some (t, i) \<longrightarrow> in_turn em t i \<and> em_cur em s \<noteq> None)"

text \<open>Containment: the parent of a span that is not the root of its turn is a span of the turn.\<close>

definition turn_ids :: "emitter \<Rightarrow> nat \<Rightarrow> string set" where
  "turn_ids em t = (\<lambda>i. sp_id (em_spans em ! i)) ` set (tn_spans (em_turns em ! t))"

definition inv_parent :: "emitter \<Rightarrow> bool" where
  "inv_parent em \<longleftrightarrow> (\<forall>t<length (em_turns em).
     sp_parent (em_spans em ! root_at em t) = []
   \<and> sp_kind (em_spans em ! root_at em t) = span_kind_agent
   \<and> (\<forall>i\<in>set (tl (tn_spans (em_turns em ! t))). sp_parent (em_spans em ! i) \<in> turn_ids em t))"

definition inv_links :: "emitter \<Rightarrow> bool" where
  "inv_links em \<longleftrightarrow>
     (\<forall>t<length (em_turns em). \<forall>l\<in>set (tn_links (em_turns em ! t)).
        ln_from_trace l = trace_id_at em t \<and> ln_to_trace l = trace_id_at em t)
   \<and> (\<forall>l\<in>set (em_links em). ln_from_trace l \<noteq> ln_to_trace l)"

definition inv_report :: "emitter \<Rightarrow> bool" where
  "inv_report em \<longleftrightarrow> rp_spans (em_report em) = int (length (em_spans em))
   \<and> (\<forall>k. map_get (rp_span_kinds (em_report em)) k 0 = int (length (filter (\<lambda>s. sp_kind s = k) (em_spans em))))
   \<and> (\<forall>k. map_get (rp_link_kinds (em_report em)) k 0
        = int (length (filter (\<lambda>l. ln_kind l = k) (em_links em @ concat (map tn_links (em_turns em))))))
   \<and> rp_synthetic (em_report em) = int (length (filter (\<lambda>tn. tn_synthetic tn \<noteq> []) (em_turns em)))"

text \<open>When harness and session ids hold no separator, keys name one session and one id, and no nil
  pointer is dereferenced. \<open>pf\<close> says whether that is assumed.\<close>

definition pipe_free :: "session_key \<Rightarrow> bool" where
  "pipe_free s \<longleftrightarrow> CHR ''|'' \<notin> set (harness_id s) \<and> CHR ''|'' \<notin> set (harness_session_id s)"

definition inv_keys :: "bool \<Rightarrow> emitter \<Rightarrow> bool" where
  "inv_keys pf em \<longleftrightarrow> pf \<longrightarrow> \<not> em_nil em
     \<and> (\<forall>k i. em_tool_spans em k = Some i \<longrightarrow> (\<exists>s. pipe_free s \<and> k = tool_key s (sp_id (em_spans em ! i))))"

definition em_inv :: "bool \<Rightarrow> emitter \<Rightarrow> bool" where
  "em_inv pf em \<longleftrightarrow> inv_place em \<and> inv_trace em \<and> inv_maps em \<and> inv_parent em \<and> inv_links em
     \<and> inv_report em \<and> inv_keys pf em"

lemmas em_inv_defs = em_inv_def inv_place_def inv_trace_def inv_maps_def inv_parent_def inv_links_def
  inv_report_def inv_keys_def

lemma split_at_pipe:
  assumes "as @ CHR ''|'' # xs = bs @ CHR ''|'' # ys" "CHR ''|'' \<notin> set as" "CHR ''|'' \<notin> set bs"
  shows "as = bs \<and> xs = ys"
proof -
  have tw: "takeWhile (\<lambda>c. c \<noteq> CHR ''|'') (cs @ CHR ''|'' # zs) = cs" if "CHR ''|'' \<notin> set cs" for cs zs
    using that by (induction cs) auto
  have "as = bs" using tw [OF assms(2), of xs] tw [OF assms(3), of ys] assms(1) by simp
  with assms(1) show ?thesis by simp
qed

lemma tool_key_inject:
  assumes "pipe_free s" "pipe_free s'" "tool_key s x = tool_key s' y"
  shows "s = s' \<and> x = y"
proof -
  have "harness_id s = harness_id s' \<and> harness_session_id s @ CHR ''|'' # x = harness_session_id s' @ CHR ''|'' # y"
    using assms by (intro split_at_pipe) (simp_all add: tool_key_def pipe_free_def)
  moreover from this have "harness_session_id s = harness_session_id s' \<and> x = y"
    using assms by (intro split_at_pipe) (simp_all add: pipe_free_def)
  ultimately show ?thesis by simp
qed

subsection \<open>Steps\<close>

text \<open>What every operation promises: it keeps the invariant, it only adds turns, spans, and keys,
  and it appends the given ids to the ids of the llm spans.\<close>

definition llm_ids :: "emitter \<Rightarrow> string list" where
  "llm_ids em = map sp_id (filter (\<lambda>s. sp_kind s = span_kind_llm) (em_spans em))"

definition em_ext :: "emitter \<Rightarrow> emitter \<Rightarrow> bool" where
  "em_ext em em' \<longleftrightarrow> length (em_turns em) \<le> length (em_turns em') \<and> length (em_spans em) \<le> length (em_spans em')
   \<and> (\<forall>t i. in_turn em t i \<longrightarrow> in_turn em' t i)
   \<and> (\<forall>i<length (em_spans em). sp_id (em_spans em' ! i) = sp_id (em_spans em ! i))
   \<and> (\<forall>k. em_tool_turn em k \<noteq> None \<longrightarrow> em_tool_turn em' k \<noteq> None)
   \<and> (\<forall>s. em_cur em s \<noteq> None \<longrightarrow> em_cur em' s \<noteq> None)"

definition em_step :: "bool \<Rightarrow> string list \<Rightarrow> emitter \<Rightarrow> emitter \<Rightarrow> bool" where
  "em_step pf ids em em' \<longleftrightarrow> (em_inv pf em \<longrightarrow> em_inv pf em' \<and> em_ext em em' \<and> llm_ids em' = llm_ids em @ ids)"

lemma em_step_refl: "em_step pf [] em em"
  by (simp add: em_step_def em_ext_def)

lemma em_step_trans:
  "em_step pf ids em em1 \<Longrightarrow> em_step pf ids' em1 em2 \<Longrightarrow> em_step pf (ids @ ids') em em2"
  unfolding em_step_def em_ext_def by auto

lemma em_stepD:
  assumes "em_step pf ids em em'" and "em_inv pf em"
  shows "em_inv pf em'" "em_ext em em'" "llm_ids em' = llm_ids em @ ids"
  using assms by (simp_all add: em_step_def)

lemma place_bound:
  assumes "inv_place em" "u < length (em_turns em)" "i \<in> set (tn_spans (em_turns em ! u))"
  shows "i < length (em_spans em)"
proof -
  have "i \<in> set (concat (map tn_spans (em_turns em)))" using assms(2,3) by (auto intro: nth_mem)
  also have "\<dots> = set [0..<length (em_spans em)]" using assms(1) unfolding inv_place_def by (metis set_mset_mset)
  finally show ?thesis by simp
qed

lemma in_turn_root:
  assumes "inv_place em" "t < length (em_turns em)"
  shows "in_turn em t (root_at em t)"
  using assms place_bound [OF assms] by (simp add: in_turn_def inv_place_def)

lemma in_turn_id: "in_turn em t i \<Longrightarrow> span_id_at em i \<in> turn_ids em t"
  by (simp add: in_turn_def turn_ids_def)

lemma add_span_views:
  "em_spans (add_span t s em) = em_spans em @ [s]"
  "em_links (add_span t s em) = em_links em"
  "em_cur (add_span t s em) = em_cur em"
  "em_timeline (add_span t s em) = em_timeline em"
  "em_tool_spans (add_span t s em) = em_tool_spans em"
  "em_tool_turn (add_span t s em) = em_tool_turn em"
  "em_agent_span (add_span t s em) = em_agent_span em"
  "em_agent_turn (add_span t s em) = em_agent_turn em"
  "em_seam (add_span t s em) = em_seam em"
  "em_nil (add_span t s em) = em_nil em"
  "length (em_turns (add_span t s em)) = length (em_turns em)"
  "map tn_session (em_turns (add_span t s em)) = map tn_session (em_turns em)"
  "map tn_trace_id (em_turns (add_span t s em)) = map tn_trace_id (em_turns em)"
  "map tn_links (em_turns (add_span t s em)) = map tn_links (em_turns em)"
  "map tn_synthetic (em_turns (add_span t s em)) = map tn_synthetic (em_turns em)"
  "u < length (em_turns em) \<Longrightarrow> tn_spans (em_turns (add_span t s em) ! u) =
     (if u = t then tn_spans (em_turns em ! u) @ [length (em_spans em)] else tn_spans (em_turns em ! u))"
  by (simp_all add: add_span_def Let_def map_upd_at)

lemma map_eq_nth: "map f xs = map f ys \<Longrightarrow> i < length ys \<Longrightarrow> f (xs ! i) = f (ys ! i)"
  by (metis length_map nth_map)

lemma filter_map_eq: "map f xs = map f ys \<Longrightarrow> length (filter (\<lambda>x. P (f x)) xs) = length (filter (\<lambda>x. P (f x)) ys)"
proof -
  assume "map f xs = map f ys"
  then have "length (filter P (map f xs)) = length (filter P (map f ys))" by simp
  then show ?thesis by (simp add: filter_map comp_def)
qed

text \<open>Invariants that survive a change of the turns, given what it keeps of them.\<close>

lemma inv_trace_cong:
  assumes "inv_trace em" "length (em_turns em') = length (em_turns em)"
    and "map tn_session (em_turns em') = map tn_session (em_turns em)"
    and "em_timeline em' = em_timeline em" "em_cur em' = em_cur em"
  shows "inv_trace em'"
proof -
  have "filter (\<lambda>t. tn_session (em_turns em' ! t) = s) [0..<length (em_turns em)]
      = filter (\<lambda>t. tn_session (em_turns em ! t) = s) [0..<length (em_turns em)]" for s
    using map_eq_nth [OF assms(3)] by (intro filter_cong) auto
  then show ?thesis using assms unfolding inv_trace_def by simp
qed

lemma inv_links_cong:
  assumes "inv_links em" "map tn_links (em_turns em') = map tn_links (em_turns em)"
    and "map tn_trace_id (em_turns em') = map tn_trace_id (em_turns em)" "em_links em' = em_links em"
  shows "inv_links em'"
proof -
  have "length (em_turns em') = length (em_turns em)" using assms(2) by (rule map_eq_imp_length_eq)
  then show ?thesis using assms map_eq_nth [OF assms(2)] map_eq_nth [OF assms(3)]
    unfolding inv_links_def by simp
qed

lemma inv_maps_cong:
  assumes "inv_maps em" "\<And>t i. in_turn em t i \<Longrightarrow> in_turn em' t i"
    and "em_tool_spans em' = em_tool_spans em" "em_tool_turn em' = em_tool_turn em"
    and "em_agent_span em' = em_agent_span em" "em_agent_turn em' = em_agent_turn em"
    and "em_seam em' = em_seam em" "\<And>s. em_cur em s \<noteq> None \<Longrightarrow> em_cur em' s \<noteq> None"
  shows "inv_maps em'"
  using assms unfolding inv_maps_def by (metis (no_types, lifting))

lemma inv_keys_cong:
  assumes keys: "inv_keys pf em" and maps: "inv_maps em"
    and same: "em_tool_spans em' = em_tool_spans em" "em_nil em' = em_nil em"
    and ids: "\<And>i. i < length (em_spans em) \<Longrightarrow> sp_id (em_spans em' ! i) = sp_id (em_spans em ! i)"
  shows "inv_keys pf em'"
proof -
  have "sp_id (em_spans em' ! i) = sp_id (em_spans em ! i)" if "em_tool_spans em k = Some i" for k i
    using maps that ids unfolding inv_maps_def in_turn_def by blast
  with keys same show ?thesis unfolding inv_keys_def by simp
qed

lemma add_span_parent:
  assumes inv: "inv_parent em" and pl: "inv_place em" and t: "t < length (em_turns em)"
    and p: "sp_parent s \<in> turn_ids em t"
  shows "inv_parent (add_span t s em)"
  unfolding inv_parent_def
proof (intro allI impI)
  let ?em = "add_span t s em"
  fix u assume "u < length (em_turns ?em)"
  then have u: "u < length (em_turns em)" by (simp add: add_span_views)
  have ne: "tn_spans (em_turns em ! u) \<noteq> []" using pl u by (simp add: inv_place_def)
  have old: "em_spans ?em ! i = em_spans em ! i" if "i \<in> set (tn_spans (em_turns em ! u))" for i
    using place_bound [OF pl u that] by (simp add: add_span_views nth_append)
  have root: "root_at ?em u = root_at em u" using ne u by (simp add: add_span_views) (auto simp: hd_append)
  have ids: "turn_ids em u \<subseteq> turn_ids ?em u"
    using old u by (auto simp: turn_ids_def add_span_views)
  have pn: "u = t \<Longrightarrow> sp_parent s \<in> turn_ids ?em u" using p ids by auto
  have new: "sp_parent (em_spans ?em ! length (em_spans em)) = sp_parent s" by (simp add: add_span_views)
  have "\<forall>i\<in>set (tl (tn_spans (em_turns em ! u))). sp_parent (em_spans ?em ! i) \<in> turn_ids ?em u"
    using inv u ids old list.set_sel(2) [OF ne] unfolding inv_parent_def by (metis (no_types, lifting) subsetD)
  then have "\<forall>i\<in>set (tl (tn_spans (em_turns ?em ! u))). sp_parent (em_spans ?em ! i) \<in> turn_ids ?em u"
    using ne new pn u by (auto simp: add_span_views split: if_splits)
  then show "sp_parent (em_spans ?em ! root_at ?em u) = [] \<and> sp_kind (em_spans ?em ! root_at ?em u) = span_kind_agent
     \<and> (\<forall>i\<in>set (tl (tn_spans (em_turns ?em ! u))). sp_parent (em_spans ?em ! i) \<in> turn_ids ?em u)"
    using inv u old [of "root_at em u"] ne unfolding inv_parent_def root by simp
qed

lemma add_span_report:
  assumes "inv_report em"
  shows "inv_report (add_span t s em)"
proof -
  have r: "rp_spans (em_report (add_span t s em)) = rp_spans (em_report em) + 1"
    "rp_span_kinds (em_report (add_span t s em)) = map_incr (rp_span_kinds (em_report em)) (sp_kind s)"
    "rp_link_kinds (em_report (add_span t s em)) = rp_link_kinds (em_report em)"
    "rp_synthetic (em_report (add_span t s em)) = rp_synthetic (em_report em)"
    by (simp_all add: add_span_def Let_def)
  have "concat (map tn_links (em_turns (add_span t s em))) = concat (map tn_links (em_turns em))"
    by (simp add: add_span_views)
  moreover have "length (filter (\<lambda>tn. tn_synthetic tn \<noteq> []) (em_turns (add_span t s em)))
      = length (filter (\<lambda>tn. tn_synthetic tn \<noteq> []) (em_turns em))"
    by (rule filter_map_eq) (rule add_span_views)
  ultimately show ?thesis using assms unfolding inv_report_def r by (simp add: add_span_views)
qed

lemma add_span_in_turn:
  "in_turn em u i \<Longrightarrow> in_turn (add_span t s em) u i"
  "t < length (em_turns em) \<Longrightarrow> in_turn (add_span t s em) t (length (em_spans em))"
  by (auto simp: in_turn_def add_span_views)

lemma add_span_place:
  assumes "inv_place em" "t < length (em_turns em)"
  shows "inv_place (add_span t s em)"
proof -
  have "mset (concat (map tn_spans (em_turns (add_span t s em)))) =
      add_mset (length (em_spans em)) (mset (concat (map tn_spans (em_turns em))))"
    unfolding add_span_def Let_def by (simp add: mset_concat_upd_at [OF assms(2)])
  with assms show ?thesis by (auto simp: inv_place_def add_span_views)
qed

lemma add_span_step:
  assumes t: "t < length (em_turns em)" and p: "sp_parent s \<in> turn_ids em t"
  shows "em_step pf (if sp_kind s = span_kind_llm then [sp_id s] else []) em (add_span t s em)"
proof -
  let ?em = "add_span t s em"
  have "em_inv pf ?em" if inv: "em_inv pf em"
  proof -
    have "inv_trace ?em" by (rule inv_trace_cong [of em]) (use inv in \<open>simp_all add: em_inv_def add_span_views\<close>)
    moreover have "inv_maps ?em"
      by (rule inv_maps_cong [of em]) (use inv add_span_in_turn in \<open>simp_all add: em_inv_def add_span_views\<close>)
    moreover have "inv_links ?em"
      by (rule inv_links_cong [of em]) (use inv in \<open>simp_all add: em_inv_def add_span_views\<close>)
    moreover have "inv_keys pf ?em"
      by (rule inv_keys_cong [of pf em]) (use inv in \<open>simp_all add: em_inv_def add_span_views nth_append\<close>)
    ultimately show ?thesis
      using inv add_span_place [OF _ t] add_span_parent [OF _ _ t p] add_span_report by (simp add: em_inv_def)
  qed
  moreover have "em_ext em ?em"
    using add_span_in_turn by (auto simp: em_ext_def add_span_views nth_append)
  ultimately show ?thesis by (simp add: em_step_def llm_ids_def add_span_views)
qed

subsection \<open>Links, results and keys\<close>

lemma add_link_views:
  "em_spans (add_link h l em) = em_spans em"
  "em_cur (add_link h l em) = em_cur em"
  "em_timeline (add_link h l em) = em_timeline em"
  "em_tool_spans (add_link h l em) = em_tool_spans em"
  "em_tool_turn (add_link h l em) = em_tool_turn em"
  "em_agent_span (add_link h l em) = em_agent_span em"
  "em_agent_turn (add_link h l em) = em_agent_turn em"
  "em_seam (add_link h l em) = em_seam em"
  "em_nil (add_link h l em) = em_nil em"
  "length (em_turns (add_link h l em)) = length (em_turns em)"
  "map tn_session (em_turns (add_link h l em)) = map tn_session (em_turns em)"
  "map tn_trace_id (em_turns (add_link h l em)) = map tn_trace_id (em_turns em)"
  "map tn_spans (em_turns (add_link h l em)) = map tn_spans (em_turns em)"
  "map tn_synthetic (em_turns (add_link h l em)) = map tn_synthetic (em_turns em)"
  by (simp_all add: add_link_def Let_def map_upd_at)

text \<open>A change that keeps span lists and the spans' ids, kinds and parents.\<close>

definition same_shape :: "emitter \<Rightarrow> emitter \<Rightarrow> bool" where
  "same_shape em em' \<longleftrightarrow> map tn_spans (em_turns em') = map tn_spans (em_turns em)
     \<and> map tn_session (em_turns em') = map tn_session (em_turns em)
     \<and> map (\<lambda>s. (sp_id s, sp_kind s, sp_parent s)) (em_spans em') = map (\<lambda>s. (sp_id s, sp_kind s, sp_parent s)) (em_spans em)
     \<and> em_timeline em' = em_timeline em \<and> em_cur em' = em_cur em"

lemma same_shape_lengths:
  assumes "same_shape em em'"
  shows "length (em_turns em') = length (em_turns em)" "length (em_spans em') = length (em_spans em)"
  using assms unfolding same_shape_def by (blast intro: map_eq_imp_length_eq)+

lemma same_shape_at:
  assumes "same_shape em em'"
  shows "i < length (em_spans em) \<Longrightarrow> sp_id (em_spans em' ! i) = sp_id (em_spans em ! i)
      \<and> sp_kind (em_spans em' ! i) = sp_kind (em_spans em ! i) \<and> sp_parent (em_spans em' ! i) = sp_parent (em_spans em ! i)"
    and "t < length (em_turns em) \<Longrightarrow> tn_spans (em_turns em' ! t) = tn_spans (em_turns em ! t)"
    and "in_turn em' t i = in_turn em t i"
proof -
  have s: "map (\<lambda>s. (sp_id s, sp_kind s, sp_parent s)) (em_spans em') = map (\<lambda>s. (sp_id s, sp_kind s, sp_parent s)) (em_spans em)"
    and t: "map tn_spans (em_turns em') = map tn_spans (em_turns em)"
    using assms by (simp_all add: same_shape_def)
  show "i < length (em_spans em) \<Longrightarrow> sp_id (em_spans em' ! i) = sp_id (em_spans em ! i)
      \<and> sp_kind (em_spans em' ! i) = sp_kind (em_spans em ! i) \<and> sp_parent (em_spans em' ! i) = sp_parent (em_spans em ! i)"
    using map_eq_nth [OF s] by simp
  show tt: "t < length (em_turns em) \<Longrightarrow> tn_spans (em_turns em' ! t) = tn_spans (em_turns em ! t)" for t
    using map_eq_nth [OF t] by simp
  show "in_turn em' t i = in_turn em t i"
    using tt same_shape_lengths [OF assms] by (auto simp: in_turn_def)
qed

lemma same_shape_kinds:
  assumes "same_shape em em'"
  shows "length (filter (\<lambda>s. sp_kind s = k) (em_spans em')) = length (filter (\<lambda>s. sp_kind s = k) (em_spans em))"
    and "llm_ids em' = llm_ids em"
proof -
  have s: "map (\<lambda>s. (sp_id s, sp_kind s, sp_parent s)) (em_spans em') = map (\<lambda>s. (sp_id s, sp_kind s, sp_parent s)) (em_spans em)"
    using assms by (simp add: same_shape_def)
  show "length (filter (\<lambda>s. sp_kind s = k) (em_spans em')) = length (filter (\<lambda>s. sp_kind s = k) (em_spans em))"
    using filter_map_eq [OF s, of "\<lambda>(_, kind, _). kind = k"] by simp
  have "map fst (filter (\<lambda>(_, kind, _). kind = span_kind_llm) (map (\<lambda>s. (sp_id s, sp_kind s, sp_parent s)) (em_spans em')))
      = map fst (filter (\<lambda>(_, kind, _). kind = span_kind_llm) (map (\<lambda>s. (sp_id s, sp_kind s, sp_parent s)) (em_spans em)))"
    by (simp only: s)
  then show "llm_ids em' = llm_ids em" by (simp add: llm_ids_def filter_map comp_def)
qed

lemma same_shape_inv:
  assumes sh: "same_shape em em'" and inv: "em_inv pf em"
  shows "inv_place em'" "inv_trace em'" "inv_parent em'"
proof -
  note len = same_shape_lengths [OF sh] and at = same_shape_at [OF sh]
  have pl: "inv_place em" using inv by (simp add: em_inv_def)
  show "inv_place em'" using pl sh len at(2) unfolding inv_place_def same_shape_def by simp
  show "inv_trace em'" by (rule inv_trace_cong [of em]) (use inv sh len in \<open>simp_all add: em_inv_def same_shape_def\<close>)
  have ids: "turn_ids em' t = turn_ids em t" if "t < length (em_turns em)" for t
    unfolding turn_ids_def at(2) [OF that] using at(1) place_bound [OF pl that] by (intro image_cong) auto
  have p: "sp_parent (em_spans em' ! i) = sp_parent (em_spans em ! i) \<and> sp_kind (em_spans em' ! i) = sp_kind (em_spans em ! i)"
    if "t < length (em_turns em)" "i \<in> set (tn_spans (em_turns em ! t))" for t i
    using at(1) place_bound [OF pl that] by simp
  show "inv_parent em'" unfolding inv_parent_def len
  proof (intro allI impI)
    fix t assume t: "t < length (em_turns em)"
    have ne: "tn_spans (em_turns em ! t) \<noteq> []" using pl t by (simp add: inv_place_def)
    then have "root_at em t \<in> set (tn_spans (em_turns em ! t))"
      "set (tl (tn_spans (em_turns em ! t))) \<subseteq> set (tn_spans (em_turns em ! t))"
      by (auto intro: list.set_sel(2))
    then show "sp_parent (em_spans em' ! root_at em' t) = [] \<and> sp_kind (em_spans em' ! root_at em' t) = span_kind_agent
        \<and> (\<forall>i\<in>set (tl (tn_spans (em_turns em' ! t))). sp_parent (em_spans em' ! i) \<in> turn_ids em' t)"
      using inv t p [OF t] unfolding em_inv_def inv_parent_def at(2) [OF t] ids [OF t] by (metis (no_types, lifting) subsetD)
  qed
qed

lemma same_shape_ext:
  assumes sh: "same_shape em em'"
    and tools: "\<And>k. em_tool_turn em k \<noteq> None \<Longrightarrow> em_tool_turn em' k \<noteq> None"
  shows "em_ext em em'"
  using same_shape_lengths [OF sh] same_shape_at [OF sh] sh tools by (simp add: em_ext_def same_shape_def)

lemma add_link_report:
  assumes inv: "inv_report em" and h: "h < length (em_turns em)"
  shows "inv_report (add_link h l em)"
proof -
  let ?em = "add_link h l em"
  have r: "rp_spans (em_report ?em) = rp_spans (em_report em)" "rp_span_kinds (em_report ?em) = rp_span_kinds (em_report em)"
    "rp_link_kinds (em_report ?em) = map_incr (rp_link_kinds (em_report em)) (ln_kind l)"
    "rp_synthetic (em_report ?em) = rp_synthetic (em_report em)"
    by (simp_all add: add_link_def Let_def)
  have "mset (em_links ?em @ concat (map tn_links (em_turns ?em)))
      = add_mset l (mset (em_links em @ concat (map tn_links (em_turns em))))"
    using mset_concat_upd_at [OF h, of tn_links "\<lambda>tn. tn\<lparr>tn_links := tn_links tn @ [l]\<rparr>" l]
    by (simp add: add_link_def Let_def)
  then have "filter_mset (\<lambda>x. ln_kind x = k) (mset (em_links ?em @ concat (map tn_links (em_turns ?em))))
      = filter_mset (\<lambda>x. ln_kind x = k) (add_mset l (mset (em_links em @ concat (map tn_links (em_turns em)))))" for k
    by (rule arg_cong)
  then have "size (filter_mset (\<lambda>x. ln_kind x = k) (mset (em_links ?em @ concat (map tn_links (em_turns ?em)))))
      = size (filter_mset (\<lambda>x. ln_kind x = k) (mset (em_links em @ concat (map tn_links (em_turns em))))) + (if ln_kind l = k then 1 else 0)" for k
    by (simp only: filter_mset_add_mset) simp
  then have "length (filter (\<lambda>x. ln_kind x = k) (em_links ?em @ concat (map tn_links (em_turns ?em))))
      = length (filter (\<lambda>x. ln_kind x = k) (em_links em @ concat (map tn_links (em_turns em)))) + (if ln_kind l = k then 1 else 0)" for k
    by (metis mset_filter size_mset)
  moreover have "length (filter (\<lambda>tn. tn_synthetic tn \<noteq> []) (em_turns ?em))
      = length (filter (\<lambda>tn. tn_synthetic tn \<noteq> []) (em_turns em))"
    by (rule filter_map_eq) (rule add_link_views)
  ultimately show ?thesis using inv unfolding inv_report_def r add_link_views(1) by simp
qed

lemma add_link_shape: "same_shape em (add_link h l em)"
  by (simp add: same_shape_def add_link_views)

lemma add_link_links:
  assumes inv: "inv_links em" and l: "ln_from_trace l = ln_to_trace l \<Longrightarrow> ln_to_trace l = trace_id_at em h"
  shows "inv_links (add_link h l em)"
proof (cases "ln_from_trace l = ln_to_trace l")
  case True
  with l have "ln_from_trace l = trace_id_at em h \<and> ln_to_trace l = trace_id_at em h" by simp
  with inv True show ?thesis by (auto simp: inv_links_def add_link_def Let_def)
next
  case False
  with inv show ?thesis by (auto simp: inv_links_def add_link_def Let_def)
qed

lemma add_link_step:
  assumes h: "h < length (em_turns em)"
    and l: "ln_from_trace l = ln_to_trace l \<Longrightarrow> ln_to_trace l = trace_id_at em h"
  shows "em_step pf [] em (add_link h l em)"
proof -
  have sh: "same_shape em (add_link h l em)" by (rule add_link_shape)
  have "em_inv pf (add_link h l em)" if inv: "em_inv pf em"
  proof -
    have "inv_maps (add_link h l em)"
      by (rule inv_maps_cong [of em]) (use inv same_shape_at(3) [OF sh] in \<open>simp_all add: em_inv_def add_link_views\<close>)
    moreover have "inv_keys pf (add_link h l em)" using inv by (simp add: em_inv_def inv_keys_def add_link_views)
    ultimately show ?thesis
      using inv same_shape_inv [OF sh inv] add_link_links [OF _ l] add_link_report [OF _ h]
      by (simp add: em_inv_def)
  qed
  moreover have "em_ext em (add_link h l em)"
    by (rule same_shape_ext [OF sh]) (simp add: add_link_views)
  ultimately show ?thesis using same_shape_kinds [OF sh] by (simp add: em_step_def)
qed

text \<open>Updating a span in place, when it keeps its id, kind and parent.\<close>

lemma upd_span_step:
  assumes f: "\<And>s. sp_id (f s) = sp_id s \<and> sp_kind (f s) = sp_kind s \<and> sp_parent (f s) = sp_parent s"
  shows "em_step pf [] em (em\<lparr>em_spans := upd_at (em_spans em) i f\<rparr>)"
proof -
  let ?em = "em\<lparr>em_spans := upd_at (em_spans em) i f\<rparr>"
  have sh: "same_shape em ?em" using f by (simp add: same_shape_def map_upd_at)
  have "em_inv pf ?em" if inv: "em_inv pf em"
  proof -
    have "inv_maps ?em"
      by (rule inv_maps_cong [of em]) (use inv same_shape_at(3) [OF sh] in \<open>simp_all add: em_inv_def\<close>)
    moreover have "inv_links ?em" by (rule inv_links_cong [of em]) (use inv in \<open>simp_all add: em_inv_def\<close>)
    moreover have "inv_report ?em"
      using inv same_shape_kinds(1) [OF sh] same_shape_lengths [OF sh] unfolding em_inv_def inv_report_def by simp
    moreover have "inv_keys pf ?em"
      by (rule inv_keys_cong [of pf em]) (use inv same_shape_at(1) [OF sh] in \<open>simp_all add: em_inv_def\<close>)
    ultimately show ?thesis using inv same_shape_inv [OF sh inv] by (simp add: em_inv_def)
  qed
  moreover have "em_ext em ?em" by (rule same_shape_ext [OF sh]) simp
  ultimately show ?thesis using same_shape_kinds [OF sh] by (simp add: em_step_def)
qed

text \<open>Changing the maps only.\<close>

lemma upd_maps_step:
  assumes same: "em_spans em' = em_spans em" "em_turns em' = em_turns em" "em_links em' = em_links em"
      "em_cur em' = em_cur em" "em_timeline em' = em_timeline em"
      "rp_spans (em_report em') = rp_spans (em_report em)" "rp_span_kinds (em_report em') = rp_span_kinds (em_report em)"
      "rp_link_kinds (em_report em') = rp_link_kinds (em_report em)" "rp_synthetic (em_report em') = rp_synthetic (em_report em)"
    and tools: "\<And>k. em_tool_turn em k \<noteq> None \<Longrightarrow> em_tool_turn em' k \<noteq> None"
    and maps: "em_inv pf em \<Longrightarrow> inv_maps em'" and keys: "em_inv pf em \<Longrightarrow> inv_keys pf em'"
  shows "em_step pf [] em em'"
proof -
  have sh: "same_shape em em'" using same by (simp add: same_shape_def)
  have "em_inv pf em'" if inv: "em_inv pf em"
  proof -
    have "inv_links em'" using inv unfolding em_inv_def inv_links_def same(1-3) by blast
    moreover have "inv_report em'" using inv unfolding em_inv_def inv_report_def same by blast
    ultimately show ?thesis using same_shape_inv [OF sh inv] maps [OF inv] keys [OF inv] unfolding em_inv_def by blast
  qed
  moreover have "em_ext em em'" by (rule same_shape_ext [OF sh]) (use tools in blast)
  ultimately show ?thesis using same_shape_kinds [OF sh] by (simp add: em_step_def)
qed

lemma deref_Some [simp]: "deref (Some i) em = (em, i)"
  by (simp add: deref_def)

lemma fill_tool_result_step:
  assumes "fill_tool_result s b c em = (em', r)"
  shows "em_step pf [] em em'"
    and "em_tool_spans em' = em_tool_spans em \<and> em_tool_turn em' = em_tool_turn em"
    and "em_turns em' = em_turns em"
    and "r = Some i \<Longrightarrow> \<exists>rid. em_tool_spans em (tool_key s rid) = Some i"
proof -
  let ?rid = "if tool_result_id b = [] then tool_use_id b else tool_result_id b"
  have "em_step pf [] em em' \<and> (em_tool_spans em' = em_tool_spans em \<and> em_tool_turn em' = em_tool_turn em)
      \<and> em_turns em' = em_turns em
      \<and> (r = Some i \<longrightarrow> em_tool_spans em (tool_key s ?rid) = Some i)"
  proof (cases "em_tool_spans em (tool_key s ?rid)")
    case None
    with assms show ?thesis by (simp add: fill_tool_result_def em_step_refl)
  next
    case (Some j)
    show ?thesis
    proof (cases "sp_output (em_spans em ! j) \<noteq> []")
      case True
      with assms Some show ?thesis by (simp add: fill_tool_result_def em_step_refl)
    next
      case False
      let ?f = "\<lambda>ts. ts\<lparr>sp_output := [b], sp_status := (if is_error b then ''error'' else sp_status ts),
                      sp_duration_ns := (let d = time_sub c (sp_started_at ts)
                                         in if 0 < d then d else sp_duration_ns ts)\<rparr>"
      have e: "em' = em\<lparr>em_spans := upd_at (em_spans em) j ?f\<rparr>" "r = Some j"
        using assms Some False by (simp_all add: fill_tool_result_def Let_def)
      have "em_step pf [] em (em\<lparr>em_spans := upd_at (em_spans em) j ?f\<rparr>)" by (rule upd_span_step) simp
      with e Some show ?thesis by simp
    qed
  qed
  then show "em_step pf [] em em'" "em_tool_spans em' = em_tool_spans em \<and> em_tool_turn em' = em_tool_turn em"
    "em_turns em' = em_turns em"
    "r = Some i \<Longrightarrow> \<exists>rid. em_tool_spans em (tool_key s rid) = Some i"
    by blast+
qed

subsection \<open>Opening traces\<close>

definition opened_turn :: "derived_node list \<Rightarrow> span_source \<Rightarrow> derived_node option \<Rightarrow> nat \<Rightarrow> span_turn" where
  "opened_turn ns src prompt i = (new_turn ns src prompt)\<lparr>tn_spans := [i]\<rparr>"

definition opened :: "derived_node list \<Rightarrow> span_source \<Rightarrow> derived_node option \<Rightarrow> emitter \<Rightarrow> emitter" where
  "opened ns src prompt em = em
     \<lparr>em_spans := em_spans em @ [root_span ns src],
      em_turns := em_turns em @ [opened_turn ns src prompt (length (em_spans em))],
      em_report := (em_report em)\<lparr>rp_spans := rp_spans (em_report em) + 1,
        rp_span_kinds := map_incr (rp_span_kinds (em_report em)) span_kind_agent\<rparr>,
      em_cur := (em_cur em)(ss_session src \<mapsto> length (em_turns em)),
      em_timeline := (em_timeline em)(ss_session src := em_timeline em (ss_session src) @ [length (em_turns em)])\<rparr>"

lemma root_span_simps [simp]:
  "sp_kind (root_span ns src) = span_kind_agent" "sp_parent (root_span ns src) = []"
  "sp_call_kind (root_span ns src) = []" "sp_duration_ns (root_span ns src) = 0"
  "sp_started_at (root_span ns src) = ss_captured_at src"
  by (simp_all add: root_span_def empty_span_def)

lemma opened_turn_simps [simp]:
  "tn_spans (opened_turn ns src p i) = [i]" "tn_session (opened_turn ns src p i) = ss_session src"
  "tn_links (opened_turn ns src p i) = []" "tn_synthetic (opened_turn ns src p i) = []"
  by (simp_all add: opened_turn_def new_turn_def)

lemma open_trace_opened:
  "open_trace ns src prompt em =
     (case em_seam em (ss_session src) of
        None \<Rightarrow> opened ns src prompt em
      | Some (st, sp) \<Rightarrow>
          (let t = length (em_turns em);
               em2 = opened ns src prompt em;
               em3 = em2\<lparr>em_turns := upd_at (em_turns em2) t (\<lambda>tn. tn\<lparr>tn_synthetic := ''post-compaction''\<rparr>),
                    em_report := (em_report em2)\<lparr>rp_synthetic := rp_synthetic (em_report em2) + 1\<rparr>\<rparr>;
               em4 = add_link t \<lparr>ln_from_trace = trace_id_at em3 st, ln_from_span = span_id_at em3 sp,
                    ln_from_io = ''output'', ln_to_trace = trace_id_at em3 t,
                    ln_to_span = ''llm_'' @ call_identity ns src, ln_to_io = ''input'',
                    ln_kind = link_compaction_seam\<rparr> em3
           in em4\<lparr>em_seam := (em_seam em4)(ss_session src := None)\<rparr>))"
proof -
  have "(add_span (length (em_turns em)) (root_span ns src) (em\<lparr>em_turns := em_turns em @ [new_turn ns src prompt]\<rparr>))
      \<lparr>em_cur := (em_cur em)(ss_session src \<mapsto> length (em_turns em)),
       em_timeline := (em_timeline em)(ss_session src := em_timeline em (ss_session src) @ [length (em_turns em)])\<rparr>
      = opened ns src prompt em"
    by (simp add: add_span_def opened_def opened_turn_def upd_at_def Let_def) (simp add: new_turn_def)
  then show ?thesis
    by (simp add: open_trace_def Let_def add_span_views opened_def split: option.split prod.split)
qed

lemma opened_in_turn: "in_turn em u i \<Longrightarrow> in_turn (opened ns src p em) u i"
  by (auto simp: in_turn_def opened_def nth_append)

lemma opened_step: "em_step pf [] em (opened ns src p em)"
proof -
  let ?em = "opened ns src p em"
  have "em_inv pf ?em" if inv: "em_inv pf em"
  proof -
    have pl: "inv_place em" using inv by (simp add: em_inv_def)
    have pl': "inv_place ?em" using pl by (auto simp: inv_place_def opened_def nth_append)
    have tr: "inv_trace ?em"
    proof -
      have "filter (\<lambda>t. tn_session (em_turns ?em ! t) = s) [0..<length (em_turns em)]
          = filter (\<lambda>t. tn_session (em_turns em ! t) = s) [0..<length (em_turns em)]" for s
        by (intro filter_cong) (auto simp: opened_def nth_append)
      then show ?thesis using inv unfolding em_inv_def inv_trace_def by (auto simp: opened_def)
    qed
    have mp: "inv_maps ?em"
    proof (rule inv_maps_cong [of em])
      show "inv_maps em" using inv by (simp add: em_inv_def)
      show "in_turn em u i \<Longrightarrow> in_turn ?em u i" for u i by (rule opened_in_turn)
    qed (simp_all add: opened_def)
    have pa: "inv_parent ?em" unfolding inv_parent_def
    proof (intro allI impI)
      fix u assume u: "u < length (em_turns ?em)"
      show "sp_parent (em_spans ?em ! root_at ?em u) = [] \<and> sp_kind (em_spans ?em ! root_at ?em u) = span_kind_agent
        \<and> (\<forall>i\<in>set (tl (tn_spans (em_turns ?em ! u))). sp_parent (em_spans ?em ! i) \<in> turn_ids ?em u)"
      proof (cases "u < length (em_turns em)")
        case True
        have old: "em_spans ?em ! i = em_spans em ! i" if "i \<in> set (tn_spans (em_turns em ! u))" for i
          using place_bound [OF pl True that] by (simp add: opened_def nth_append)
        have tn: "em_turns ?em ! u = em_turns em ! u" using True by (simp add: opened_def nth_append)
        have ne: "tn_spans (em_turns em ! u) \<noteq> []" using pl True by (simp add: inv_place_def)
        have ids: "turn_ids ?em u = turn_ids em u" using old by (auto simp: turn_ids_def tn)
        have "set (tl (tn_spans (em_turns em ! u))) \<subseteq> set (tn_spans (em_turns em ! u))"
          using ne by (auto intro: list.set_sel(2))
        with inv True old ne show ?thesis unfolding em_inv_def inv_parent_def tn ids
          by (metis (no_types, lifting) hd_in_set subsetD)
      next
        case False
        with u have "em_turns ?em ! u = opened_turn ns src p (length (em_spans em))"
          by (simp add: opened_def nth_append)
        then show ?thesis by (simp add: opened_def)
      qed
    qed
    have lk: "inv_links ?em" using inv by (auto simp: em_inv_def inv_links_def opened_def nth_append)
    have rp: "inv_report ?em" using inv by (simp add: em_inv_def inv_report_def opened_def)
    have "inv_keys pf ?em"
      by (rule inv_keys_cong [of pf em]) (use inv in \<open>simp_all add: em_inv_def opened_def nth_append\<close>)
    with pl' tr mp pa lk rp show ?thesis by (simp add: em_inv_def)
  qed
  moreover have "em_ext em ?em"
    using opened_in_turn by (auto simp: em_ext_def opened_def nth_append)
  ultimately show ?thesis by (simp add: em_step_def llm_ids_def opened_def span_kind_defs)
qed

lemma count_upd_at:
  "i < length xs \<Longrightarrow> \<not> P (xs ! i) \<Longrightarrow> P (f (xs ! i)) \<Longrightarrow>
   length (filter P (upd_at xs i f)) = Suc (length (filter P xs))"
proof (induction xs arbitrary: i)
  case (Cons x xs)
  show ?case
  proof (cases i)
    case 0
    then show ?thesis using Cons.prems by (simp add: upd_at_def)
  next
    case (Suc k)
    have "upd_at (x # xs) (Suc k) f = x # upd_at xs k f" by (simp add: upd_at_def)
    with Suc Cons show ?thesis by simp
  qed
qed simp

lemma mark_synthetic_step:
  assumes t: "t < length (em_turns em)" "tn_synthetic (em_turns em ! t) = []" and x: "x \<noteq> []"
  shows "em_step pf [] em (em\<lparr>em_turns := upd_at (em_turns em) t (\<lambda>tn. tn\<lparr>tn_synthetic := x\<rparr>),
     em_report := (em_report em)\<lparr>rp_synthetic := rp_synthetic (em_report em) + 1\<rparr>\<rparr>)"
proof -
  let ?em = "em\<lparr>em_turns := upd_at (em_turns em) t (\<lambda>tn. tn\<lparr>tn_synthetic := x\<rparr>),
     em_report := (em_report em)\<lparr>rp_synthetic := rp_synthetic (em_report em) + 1\<rparr>\<rparr>"
  have sh: "same_shape em ?em" by (simp add: same_shape_def map_upd_at)
  have "em_inv pf ?em" if inv: "em_inv pf em"
  proof -
    have "inv_maps ?em"
      by (rule inv_maps_cong [of em]) (use inv same_shape_at(3) [OF sh] in \<open>simp_all add: em_inv_def\<close>)
    moreover have "inv_links ?em"
      by (rule inv_links_cong [of em]) (use inv in \<open>simp_all add: em_inv_def map_upd_at\<close>)
    moreover have "inv_report ?em"
    proof -
      have "length (filter (\<lambda>tn. tn_synthetic tn \<noteq> []) (upd_at (em_turns em) t (\<lambda>tn. tn\<lparr>tn_synthetic := x\<rparr>)))
          = Suc (length (filter (\<lambda>tn. tn_synthetic tn \<noteq> []) (em_turns em)))"
        by (rule count_upd_at) (use t x in simp_all)
      with inv show ?thesis by (simp add: em_inv_def inv_report_def map_upd_at)
    qed
    moreover have "inv_keys pf ?em" using inv by (simp add: em_inv_def inv_keys_def)
    ultimately show ?thesis using same_shape_inv [OF sh inv] by (simp add: em_inv_def)
  qed
  moreover have "em_ext em ?em" by (rule same_shape_ext [OF sh]) simp
  ultimately show ?thesis using same_shape_kinds [OF sh] by (simp add: em_step_def)
qed

lemma open_trace_step:
  "em_step pf [] em (open_trace ns src p em)"
  "length (em_turns (open_trace ns src p em)) = Suc (length (em_turns em))"
  "em_seam em (ss_session src) = None \<Longrightarrow> tn_synthetic (em_turns (open_trace ns src p em) ! length (em_turns em)) = []"
proof -
  let ?t = "length (em_turns em)" and ?e2 = "opened ns src p em"
  have len: "length (em_turns ?e2) = Suc ?t" and syn: "tn_synthetic (em_turns ?e2 ! ?t) = []"
    by (simp_all add: opened_def)
  have "em_step pf [] em (open_trace ns src p em) \<and> length (em_turns (open_trace ns src p em)) = Suc ?t"
  proof (cases "em_seam em (ss_session src)")
    case None
    then show ?thesis by (simp add: open_trace_opened opened_step len)
  next
    case (Some q)
    obtain st sp where q: "q = (st, sp)" by fastforce
    define e3 where "e3 = ?e2\<lparr>em_turns := upd_at (em_turns ?e2) ?t (\<lambda>tn. tn\<lparr>tn_synthetic := ''post-compaction''\<rparr>),
                    em_report := (em_report ?e2)\<lparr>rp_synthetic := rp_synthetic (em_report ?e2) + 1\<rparr>\<rparr>"
    define l where "l = \<lparr>ln_from_trace = trace_id_at e3 st, ln_from_span = span_id_at e3 sp,
                    ln_from_io = ''output'', ln_to_trace = trace_id_at e3 ?t,
                    ln_to_span = ''llm_'' @ call_identity ns src, ln_to_io = ''input'',
                    ln_kind = link_compaction_seam\<rparr>"
    define e4 where "e4 = add_link ?t l e3"
    have o: "open_trace ns src p em = e4\<lparr>em_seam := (em_seam e4)(ss_session src := None)\<rparr>"
      using Some by (simp add: open_trace_opened q Let_def e3_def e4_def l_def)
    have len3: "length (em_turns e3) = Suc ?t" by (simp add: e3_def len)
    have 3: "em_step pf [] ?e2 e3" unfolding e3_def by (rule mark_synthetic_step) (use len syn in simp_all)
    have 4: "em_step pf [] e3 e4" unfolding e4_def by (rule add_link_step) (simp_all add: len3 l_def)
    have 5: "em_step pf [] e4 (e4\<lparr>em_seam := (em_seam e4)(ss_session src := None)\<rparr>)"
      by (rule upd_maps_step) (auto simp: em_inv_def inv_maps_def inv_keys_def in_turn_def)
    from em_step_trans [OF em_step_trans [OF em_step_trans [OF opened_step 3] 4] 5] show ?thesis
      by (simp add: o) (simp add: e4_def add_link_views len3)
  qed
  then show "em_step pf [] em (open_trace ns src p em)" "length (em_turns (open_trace ns src p em)) = Suc ?t" by simp_all
  show "em_seam em (ss_session src) = None \<Longrightarrow> tn_synthetic (em_turns (open_trace ns src p em) ! ?t) = []"
    by (simp add: open_trace_opened syn)
qed

lemma ensure_trace_step:
  assumes inv: "em_inv pf em" and e: "ensure_trace ns src em = (em', t)"
  shows "em_step pf [] em em' \<and> t < length (em_turns em')"
proof (cases "em_cur em (ss_session src)")
  case (Some u)
  have "em_timeline em (ss_session src) \<noteq> []" "u = last (em_timeline em (ss_session src))"
    using inv Some unfolding em_inv_def inv_trace_def by (auto split: if_splits)
  then have "u \<in> set (em_timeline em (ss_session src))" by simp
  then have "u < length (em_turns em)" using inv unfolding em_inv_def inv_trace_def by auto
  with e Some show ?thesis by (auto simp: ensure_trace_def em_step_refl)
next
  case None
  then have seam: "em_seam em (ss_session src) = None"
    using inv unfolding em_inv_def inv_maps_def by (metis (no_types, lifting) not_None_eq surj_pair)
  let ?t = "length (em_turns em)" and ?e1 = "open_trace ns src None em"
  have e': "em' = ?e1\<lparr>em_turns := upd_at (em_turns ?e1) ?t (\<lambda>tn. tn\<lparr>tn_synthetic := ''shadow-opener''\<rparr>),
                 em_report := (em_report ?e1)\<lparr>rp_synthetic := rp_synthetic (em_report ?e1) + 1\<rparr>\<rparr>" "t = ?t"
    using e None by (auto simp: ensure_trace_def Let_def)
  have "em_step pf [] ?e1 em'" unfolding e'
    by (rule mark_synthetic_step) (use open_trace_step(2,3) seam in simp_all)
  from em_step_trans [OF open_trace_step(1) this] show ?thesis by (simp add: e' open_trace_step(2))
qed

subsection \<open>The conversation body\<close>

text \<open>A fold of operations is a step when each operation is one wherever a condition holds that
  extensions keep.\<close>

lemma fold_em_step:
  assumes step: "\<And>x em. x \<in> set xs \<Longrightarrow> em_inv pf em \<Longrightarrow> Q em \<Longrightarrow> em_step pf [] em (f x em)"
    and ext: "\<And>em em'. Q em \<Longrightarrow> em_ext em em' \<Longrightarrow> Q em'" and q: "Q em"
  shows "em_step pf [] em (fold f xs em)"
  using step q
proof (induction xs arbitrary: em)
  case Nil
  show ?case by (simp add: em_step_refl)
next
  case (Cons x xs)
  show ?case
  proof (cases "em_inv pf em")
    case True
    have 1: "em_step pf [] em (f x em)" using Cons.prems True by simp
    have "Q (f x em)" using ext [OF Cons.prems(2)] em_stepD(2) [OF 1 True] by blast
    then have "em_step pf [] (f x em) (fold f xs (f x em))" using Cons by simp
    from em_step_trans [OF 1 this] show ?thesis by simp
  qed (simp add: em_step_def)
qed

definition src_ok :: "bool \<Rightarrow> span_source \<Rightarrow> bool" where
  "src_ok pf src \<longleftrightarrow> (pf \<longrightarrow> pipe_free (ss_session src))"

definition feeds_ok :: "bool \<Rightarrow> session_key \<Rightarrow> nat list \<Rightarrow> emitter \<Rightarrow> bool" where
  "feeds_ok pf s feeds em \<longleftrightarrow> (\<forall>ts\<in>set feeds. ts < length (em_spans em)
     \<and> (pf \<longrightarrow> em_tool_turn em (tool_key s (sp_id (em_spans em ! ts))) \<noteq> None))"

lemma feeds_ok_ext:
  assumes "feeds_ok pf s feeds em" and "em_ext em em'"
  shows "feeds_ok pf s feeds em'"
  unfolding feeds_ok_def
proof
  fix ts assume "ts \<in> set feeds"
  with assms(1) have "ts < length (em_spans em)"
    "pf \<longrightarrow> em_tool_turn em (tool_key s (sp_id (em_spans em ! ts))) \<noteq> None" by (simp_all add: feeds_ok_def)
  with assms(2) show "ts < length (em_spans em') \<and> (pf \<longrightarrow> em_tool_turn em' (tool_key s (sp_id (em_spans em' ! ts))) \<noteq> None)"
    unfolding em_ext_def by auto
qed

lemma tool_span_keyed:
  assumes inv: "em_inv pf em" and s: "pf \<longrightarrow> pipe_free s" and k: "em_tool_spans em (tool_key s rid) = Some i"
  shows "feeds_ok pf s [i] em"
proof -
  have m: "\<exists>t. em_tool_turn em (tool_key s rid) = Some t \<and> in_turn em t i"
    using inv k by (simp add: em_inv_def inv_maps_def)
  have "tool_key s rid = tool_key s (sp_id (em_spans em ! i))" if pf
  proof -
    obtain s' where "pipe_free s'" "tool_key s rid = tool_key s' (sp_id (em_spans em ! i))"
      using inv k \<open>pf\<close> unfolding em_inv_def inv_keys_def by blast
    moreover from this have "s = s'" using s \<open>pf\<close> tool_key_inject by blast
    ultimately show ?thesis by simp
  qed
  with m show ?thesis by (auto simp: feeds_ok_def in_turn_def)
qed

lemma feeds_ok_append: "feeds_ok pf s (xs @ ys) em \<longleftrightarrow> feeds_ok pf s xs em \<and> feeds_ok pf s ys em"
  by (auto simp: feeds_ok_def)

lemma fill_results_step:
  assumes "fill_results s c blocks (em, feeds) = (em', feeds')" and "pf \<longrightarrow> pipe_free s"
    and "feeds_ok pf s feeds em" and "em_inv pf em"
  shows "em_step pf [] em em' \<and> feeds_ok pf s feeds' em' \<and> em_turns em' = em_turns em"
  using assms(1,3,4)
proof (induction blocks arbitrary: em feeds)
  case Nil
  then show ?case by (simp add: fill_results_def em_step_refl)
next
  case (Cons b blocks)
  show ?case
  proof (cases "is_tool_result b")
    case False
    with Cons show ?thesis by (simp add: fill_results_def)
  next
    case True
    obtain em1 r where r: "fill_tool_result s b c em = (em1, r)" by fastforce
    note f = fill_tool_result_step [OF r]
    have inv1: "em_inv pf em1" and ext: "em_ext em em1" using em_stepD [OF f(1) Cons.prems(3)] by simp_all
    define feeds1 where "feeds1 = (case r of None \<Rightarrow> feeds | Some i \<Rightarrow> feeds @ [i])"
    have fd: "feeds_ok pf s feeds1 em1"
    proof (cases r)
      case None
      then show ?thesis using feeds_ok_ext [OF Cons.prems(2) ext] by (simp add: feeds1_def)
    next
      case (Some i)
      from f(4) [OF Some] obtain rid where "em_tool_spans em (tool_key s rid) = Some i" by blast
      then have "em_tool_spans em1 (tool_key s rid) = Some i" using f(2) by simp
      from tool_span_keyed [OF inv1 assms(2) this] feeds_ok_ext [OF Cons.prems(2) ext] Some
      show ?thesis by (simp add: feeds1_def feeds_ok_append)
    qed
    have "fill_results s c blocks (em1, feeds1) = (em', feeds')"
      using Cons.prems(1) True r by (cases r) (simp_all add: fill_results_def feeds1_def)
    from Cons.IH [OF this fd inv1] em_step_trans [OF f(1), of pf "[]" em'] f(3) show ?thesis by simp
  qed
qed

lemma event_span_step:
  assumes "in_turn em t parent"
  shows "em_step pf [] em (add_span t (event_span tx src (span_id_at em parent) k h c bs) em)"
proof -
  let ?s = "event_span tx src (span_id_at em parent) k h c bs"
  have s: "sp_kind ?s \<noteq> span_kind_llm" "sp_parent ?s = span_id_at em parent"
    by (simp_all add: event_span_def empty_span_def span_kind_defs)
  with assms add_span_step [of t em ?s pf] show ?thesis by (simp add: in_turn_id) (simp add: in_turn_def)
qed

lemma emit_request_node_step:
  assumes e: "emit_request_node tx ns src t parent e (em, feeds) = (em', feeds')"
    and src: "src_ok pf src" and inv: "em_inv pf em" and t: "in_turn em t parent"
    and fd: "feeds_ok pf (ss_session src) feeds em"
  shows "em_step pf [] em em' \<and> feeds_ok pf (ss_session src) feeds' em'"
proof -
  obtain i d new where ed: "e = (i, d, new)" by (rule prod_cases3)
  have ev: "em_step pf [] em (add_span t (event_span tx src (span_id_at em parent) k h c bs) em)
      \<and> feeds_ok pf (ss_session src) feeds (add_span t (event_span tx src (span_id_at em parent) k h c bs) em)" for k h c bs
    using event_span_step [OF t, of pf tx src k h c bs] em_stepD(2) [OF _ inv] feeds_ok_ext [OF fd] by blast
  show ?thesis
  proof (cases "new \<and> \<not> is_injected (n_kind (dn_node d)) \<and> dn_role d \<noteq> ''system'' \<and> (dn_role d = ''user'' \<or> dn_role d = ''tool'')")
    case True
    then have "fill_results (ss_session src) (dn_captured_at d) (dn_content d) (em, feeds) = (em', feeds')"
      using e by (auto simp: emit_request_node_def ed Let_def)
    from fill_results_step [OF this _ fd inv] src show ?thesis by (simp add: src_ok_def)
  next
    case False
    then have "(em', feeds') = (em, feeds) \<or> (\<exists>k h c bs. em' = add_span t (event_span tx src (span_id_at em parent) k h c bs) em \<and> feeds' = feeds)"
      using e by (auto simp: emit_request_node_def ed Let_def split: if_splits)
    then show ?thesis using ev fd em_step_refl by auto
  qed
qed

lemma in_turn_ext: "em_ext em em' \<Longrightarrow> in_turn em t i \<Longrightarrow> in_turn em' t i"
  by (simp add: em_ext_def)

lemma emit_request_nodes_step:
  assumes "fold (emit_request_node tx ns src t parent) es (em, feeds) = (em', feeds')"
    and "src_ok pf src" and "em_inv pf em" and "in_turn em t parent"
    and "feeds_ok pf (ss_session src) feeds em"
  shows "em_step pf [] em em' \<and> feeds_ok pf (ss_session src) feeds' em'"
  using assms(1,3,4,5)
proof (induction es arbitrary: em feeds)
  case Nil
  then show ?case by (simp add: em_step_refl)
next
  case (Cons e es)
  obtain em1 feeds1 where 1: "emit_request_node tx ns src t parent e (em, feeds) = (em1, feeds1)" by fastforce
  from emit_request_node_step [OF 1 assms(2) Cons.prems(2,3,4)]
  have s: "em_step pf [] em em1" "feeds_ok pf (ss_session src) feeds1 em1" by simp_all
  from em_stepD [OF s(1) Cons.prems(2)] have "em_inv pf em1" "in_turn em1 t parent"
    using in_turn_ext Cons.prems(3) by blast+
  with Cons.IH [of em1 feeds1] Cons.prems(1) 1 s(2) em_step_trans [OF s(1), of "[]" em'] show ?case by simp
qed

lemma tool_turn_of:
  "em_inv pf em \<Longrightarrow> em_tool_spans em k = Some i \<Longrightarrow> \<exists>t. em_tool_turn em k = Some t \<and> in_turn em t i"
  by (simp add: em_inv_def inv_maps_def)

lemma agent_turn_of:
  "em_inv pf em \<Longrightarrow> em_agent_span em k = Some i \<Longrightarrow> \<exists>t. em_agent_turn em k = Some t \<and> in_turn em t i"
  by (simp add: em_inv_def inv_maps_def)

lemma deref_step:
  assumes "deref p em = (em1, t)" and "pf \<longrightarrow> p \<noteq> None"
  shows "em_step pf [] em em1" "em_turns em1 = em_turns em" "em_spans em1 = em_spans em"
    "em_tool_spans em1 = em_tool_spans em" "em_tool_turn em1 = em_tool_turn em"
proof -
  have "em_step pf [] em (em\<lparr>em_nil := True\<rparr>)" if "\<not> pf"
    by (rule upd_maps_step) (use that in \<open>simp_all add: em_inv_def inv_maps_def in_turn_def inv_keys_def\<close>)
  with assms show "em_step pf [] em em1" by (auto simp: deref_def em_step_refl split: option.splits)
  show "em_turns em1 = em_turns em" "em_spans em1 = em_spans em"
    "em_tool_spans em1 = em_tool_spans em" "em_tool_turn em1 = em_tool_turn em"
    using assms(1) by (auto simp: deref_def split: option.splits)
qed

lemma feed_link_step:
  assumes "feeds_ok pf (ss_session src) [ts] em" and "t < length (em_turns em)"
  shows "em_step pf [] em (feed_link src t llm ts em)"
proof -
  obtain em1 ft where d: "deref (em_tool_turn em (tool_key (ss_session src) (tool_id (em_spans em ! ts)))) em = (em1, ft)"
    by fastforce
  have p: "pf \<longrightarrow> em_tool_turn em (tool_key (ss_session src) (tool_id (em_spans em ! ts))) \<noteq> None"
    using assms(1) by (simp add: feeds_ok_def tool_id_def)
  note ds = deref_step [OF d p]
  have "em_step pf [] em1 (feed_link src t llm ts em)"
    unfolding feed_link_def d Let_def prod.case by (rule add_link_step) (use assms ds in simp_all)
  from em_step_trans [OF ds(1) this] show ?thesis by simp
qed

lemma emit_tool_use_step:
  assumes inv: "em_inv pf em" and src: "src_ok pf src" and p: "in_turn em t parent"
  shows "em_step pf [] em (emit_tool_use src t parent llm b em)"
proof -
  define tk where "tk = tool_key (ss_session src) (tool_use_id b)"
  have t: "t < length (em_turns em)" using p by (simp add: in_turn_def)
  show ?thesis
  proof (cases "(cb_type b \<noteq> ''tool_use'' \<and> cb_type b \<noteq> ''server_tool_use'') \<or> tool_use_id b = []")
    case True
    then show ?thesis by (simp add: emit_tool_use_def em_step_refl)
  next
    case relevant: False
    show ?thesis
    proof (cases "em_tool_spans em tk")
      case (Some ex)
      then have nn: "pf \<longrightarrow> em_tool_turn em tk \<noteq> None" using tool_turn_of [OF inv] by fastforce
      obtain em1 et where d: "deref (em_tool_turn em tk) em = (em1, et)" by fastforce
      note ds = deref_step [OF d nn]
      define l where "l = \<lparr>ln_from_trace = trace_id_at em1 t, ln_from_span = span_id_at em1 llm,
                     ln_from_io = ''output'', ln_to_trace = trace_id_at em1 et, ln_to_span = span_id_at em1 ex,
                     ln_to_io = ''input'', ln_kind = link_emits\<rparr>"
      have "emit_tool_use src t parent llm b em = add_link t l em1"
        using relevant Some d by (auto simp: emit_tool_use_def tk_def l_def Let_def)
      moreover have "em_step pf [] em1 (add_link t l em1)"
        by (rule add_link_step) (use t ds in \<open>simp_all add: l_def\<close>)
      ultimately show ?thesis using em_step_trans [OF ds(1)] by force
    next
      case None
      define ts where "ts = empty_span\<lparr>sp_id := tool_use_id b, sp_parent := span_id_at em parent,
                      sp_kind := span_kind_tool, sp_name := display_tool_name (tool_name b) (tool_input b),
                      sp_status := ''ok'', sp_started_at := ss_captured_at src, sp_thread_id := ss_thread_id src,
                      sp_input := [spawn_tool_input (em_spawn_labels em) (ss_session src) b]\<rparr>"
      define em1 where "em1 = add_span t ts em"
      define em2 where "em2 = em1\<lparr>em_tool_spans := (em_tool_spans em1)(tk \<mapsto> length (em_spans em)),
                      em_tool_turn := (em_tool_turn em1)(tk \<mapsto> t)\<rparr>"
      define l where "l = \<lparr>ln_from_trace = trace_id_at em2 t, ln_from_span = span_id_at em2 llm,
                     ln_from_io = ''output'', ln_to_trace = trace_id_at em2 t, ln_to_span = sp_id ts,
                     ln_to_io = ''input'', ln_kind = link_emits\<rparr>"
      have ts: "sp_id ts = tool_use_id b" "sp_kind ts = span_kind_tool" "sp_parent ts = span_id_at em parent"
        by (simp_all add: ts_def)
      have eq: "emit_tool_use src t parent llm b em = add_link t l em2"
        using relevant None by (auto simp: emit_tool_use_def tk_def [symmetric] Let_def ts_def [symmetric] em1_def
            [symmetric] l_def em2_def ts(1))
      have 1: "em_step pf [] em em1"
        using add_span_step [OF t, of ts pf] in_turn_id [OF p] ts by (simp add: em1_def span_kind_defs)
      have new: "in_turn em1 t (length (em_spans em))" unfolding em1_def by (rule add_span_in_turn(2) [OF t])
      have 2: "em_step pf [] em1 em2"
      proof (rule upd_maps_step)
        show "inv_maps em2" if "em_inv pf em1" using that new by (auto simp: em_inv_def inv_maps_def em2_def in_turn_def)
        have "sp_id (em_spans em1 ! length (em_spans em)) = tool_use_id b" by (simp add: em1_def add_span_views ts(1))
        then show "inv_keys pf em2" if "em_inv pf em1"
          using that src by (auto simp: em_inv_def inv_keys_def em2_def tk_def src_ok_def)
      qed (simp_all add: em2_def)
      have "t < length (em_turns em2)" using t by (simp add: em2_def em1_def add_span_views)
      then have 3: "em_step pf [] em2 (add_link t l em2)" by (rule add_link_step) (simp add: l_def)
      from em_step_trans [OF em_step_trans [OF 1 2] 3] show ?thesis by (simp add: eq)
    qed
  qed
qed

lemma llm_span_simps [simp]:
  "sp_id (llm_span ns src p i) = ''llm_'' @ call_identity ns src" "sp_kind (llm_span ns src p i) = span_kind_llm"
  "sp_parent (llm_span ns src p i) = p"
  by (simp_all add: llm_span_def Let_def)

text \<open>The id of the llm span a source becomes.\<close>

definition call_span_id :: "derived_node list \<Rightarrow> span_source \<Rightarrow> string" where
  "call_span_id ns src = ''llm_'' @ call_identity ns src"

lemma add_llm_step:
  assumes "in_turn em t parent"
  shows "em_step pf [call_span_id ns src] em (add_span t (llm_span ns src (span_id_at em parent) i) em)"
  using assms add_span_step [of t em "llm_span ns src (span_id_at em parent) i" pf] in_turn_id [OF assms]
  by (simp add: call_span_id_def in_turn_def)

lemma emit_conversation_step:
  assumes inv: "em_inv pf em" and src: "src_ok pf src" and p: "in_turn em t parent"
  shows "em_step pf [call_span_id ns src] em (emit_conversation tx ns src t parent em)"
proof -
  obtain em1 feeds where f1: "fold (emit_request_node tx ns src t parent) (request_nodes ns src) (em, []) = (em1, feeds)"
    by fastforce
  have "feeds_ok pf (ss_session src) [] em" by (simp add: feeds_ok_def)
  from emit_request_nodes_step [OF f1 src inv p this]
  have 1: "em_step pf [] em em1" and fd1: "feeds_ok pf (ss_session src) feeds em1" by simp_all
  from em_stepD [OF 1 inv] have inv1: "em_inv pf em1" and p1: "in_turn em1 t parent" using p in_turn_ext by blast+
  define llm where "llm = length (em_spans em1)"
  define em2 where "em2 = add_span t (llm_span ns src (span_id_at em1 parent) (conversation_input ns src)) em1"
  have 2: "em_step pf [call_span_id ns src] em1 em2" unfolding em2_def by (rule add_llm_step [OF p1])
  from em_stepD [OF 2 inv1] have inv2: "em_inv pf em2" and ext2: "em_ext em1 em2" by simp_all
  have p2: "in_turn em2 t parent" and fd2: "feeds_ok pf (ss_session src) feeds em2"
    using ext2 p1 in_turn_ext feeds_ok_ext [OF fd1] by blast+
  define em3 where "em3 = fold (feed_link src t llm) feeds em2"
  have 3: "em_step pf [] em2 em3" unfolding em3_def
  proof (rule fold_em_step [where Q = "\<lambda>em. in_turn em t parent \<and> feeds_ok pf (ss_session src) feeds em"])
    fix ts em assume "ts \<in> set feeds" "in_turn em t parent \<and> feeds_ok pf (ss_session src) feeds em"
    then show "em_step pf [] em (feed_link src t llm ts em)"
      by (intro feed_link_step) (auto simp: feeds_ok_def in_turn_def)
  qed (use p2 fd2 in_turn_ext feeds_ok_ext in blast)+
  from em_stepD [OF 3 inv2] have inv3: "em_inv pf em3" and p3: "in_turn em3 t parent" using p2 in_turn_ext by blast+
  have "em_step pf [] em3 (fold (emit_tool_use src t parent llm) (b_content (n_bucket (response_node ns src))) em3)"
  proof (rule fold_em_step [where Q = "\<lambda>em. in_turn em t parent"])
    show "em_step pf [] em (emit_tool_use src t parent llm x em)" if "em_inv pf em" "in_turn em t parent" for x em
      by (rule emit_tool_use_step [OF that(1) src that(2)])
  qed (use p3 in_turn_ext in blast)+
  from em_step_trans [OF em_step_trans [OF em_step_trans [OF 1 2] 3] this] show ?thesis
    by (simp add: emit_conversation_def f1 Let_def em2_def em3_def llm_def)
qed

subsection \<open>The calls\<close>

lemma cur_turn_of:
  assumes "em_inv pf em" and "em_cur em s = Some u"
  shows "u < length (em_turns em)"
proof -
  have "em_timeline em s \<noteq> []" "u = last (em_timeline em s)"
    using assms unfolding em_inv_def inv_trace_def by (auto split: if_splits)
  then have "u \<in> set (em_timeline em s)" by simp
  then show ?thesis using assms(1) unfolding em_inv_def inv_trace_def by auto
qed

lemma root_in_turn: "em_inv pf em \<Longrightarrow> t < length (em_turns em) \<Longrightarrow> in_turn em t (root_at em t)"
  by (rule in_turn_root) (simp_all add: em_inv_def)

lemma main_call_step:
  assumes inv: "em_inv pf em" and src: "src_ok pf src"
  shows "em_step pf [call_span_id ns src] em (main_call tx ns src em)"
proof -
  define prompt where "prompt = (if fresh_genuine_prompt ns src = None \<and> ss_source src = source_transcript \<and> ss_turn_identity src \<noteq> []
                    then transcript_genuine_prompt ns src else fresh_genuine_prompt ns src)"
  obtain em1 t where c: "(case (em_cur em (ss_session src), prompt) of
              (Some t, None) \<Rightarrow> (em, t)
            | _ \<Rightarrow> (open_trace ns src prompt em, length (em_turns em))) = (em1, t)" by fastforce
  then have 1: "em_step pf [] em em1 \<and> t < length (em_turns em1)"
    using cur_turn_of [OF inv] open_trace_step(1) [of pf em ns src prompt] open_trace_step(2) [where em = em and ns = ns and src = src and p = prompt]
    by (auto split: option.splits simp: em_step_refl)
  then have inv1: "em_inv pf em1" using inv by (blast dest: em_stepD)
  from emit_conversation_step [OF inv1 src root_in_turn [OF inv1]] 1
  have "em_step pf [call_span_id ns src] em1 (emit_conversation tx ns src t (root_at em1 t) em1)" by blast
  from em_step_trans [of pf "[]" em em1, OF _ this] 1 show ?thesis
    unfolding main_call_def Let_def prompt_def [symmetric] c by simp
qed

lemma compaction_call_step:
  assumes inv: "em_inv pf em"
  shows "em_step pf [call_span_id ns src] em (compaction_call ns src em)"
proof -
  obtain em1 t where e: "ensure_trace ns src em = (em1, t)" by fastforce
  from ensure_trace_step [OF inv e] have 1: "em_step pf [] em em1" and t: "t < length (em_turns em1)" by simp_all
  from 1 inv have inv1: "em_inv pf em1" by (blast dest: em_stepD)
  note r = root_in_turn [OF inv1 t]
  define em2 where "em2 = add_span t (llm_span ns src (span_id_at em1 (root_at em1 t)) []) em1"
  have 2: "em_step pf [call_span_id ns src] em1 em2" unfolding em2_def by (rule add_llm_step [OF r])
  have new: "in_turn em2 t (length (em_spans em1))" unfolding em2_def by (rule add_span_in_turn(2) [OF t])
  have cur: "em_cur em1 (ss_session src) \<noteq> None"
  proof (cases "em_cur em (ss_session src)")
    case None
    have "em_cur (open_trace ns src None em) (ss_session src) \<noteq> None"
      by (simp add: open_trace_opened Let_def add_link_views opened_def split: option.split prod.split)
    with None e show ?thesis by (auto simp: ensure_trace_def Let_def)
  next
    case (Some u)
    with e show ?thesis by (simp add: ensure_trace_def)
  qed
  have cur2: "em_cur em2 = em_cur em1" by (simp add: em2_def add_span_views)
  have it: "in_turn (em2\<lparr>em_seam := x\<rparr>) u i = in_turn em2 u i" for x u i by (simp add: in_turn_def)
  have 3: "em_step pf [] em2 (em2\<lparr>em_seam := (em_seam em2)(ss_session src \<mapsto> (t, length (em_spans em1)))\<rparr>)"
  proof (rule upd_maps_step)
    show "inv_maps (em2\<lparr>em_seam := (em_seam em2)(ss_session src \<mapsto> (t, length (em_spans em1)))\<rparr>)" if "em_inv pf em2"
      using that new cur unfolding em_inv_def inv_maps_def it by (auto simp: cur2)
    show "inv_keys pf (em2\<lparr>em_seam := (em_seam em2)(ss_session src \<mapsto> (t, length (em_spans em1)))\<rparr>)" if "em_inv pf em2"
      using that by (simp add: em_inv_def inv_keys_def)
  qed simp_all
  from em_step_trans [OF em_step_trans [OF 1 2] 3] show ?thesis
    by (simp add: compaction_call_def e em2_def Let_def)
qed

lemma live_turn_in: "live_turn em c l ts \<in> insert l (set ts)"
  by (induction ts arbitrary: l) auto

lemma trace_at_step:
  assumes inv: "em_inv pf em" and e: "trace_at ns src em = (em', t)"
  shows "em_step pf [] em em' \<and> t < length (em_turns em')"
proof (cases "em_timeline em (ss_session src)")
  case Nil
  with e ensure_trace_step [OF inv, of ns src em' t] show ?thesis by (simp add: trace_at_def)
next
  case (Cons u us)
  then have "t \<in> set (em_timeline em (ss_session src))" "em' = em"
    using e live_turn_in [of em "ss_captured_at src" u us] by (auto simp: trace_at_def)
  moreover have "set (em_timeline em (ss_session src)) \<subseteq> {..<length (em_turns em)}"
    using inv unfolding em_inv_def inv_trace_def by auto
  ultimately show ?thesis using em_step_refl by blast
qed

lemma shadow_call_step:
  assumes inv: "em_inv pf em"
  shows "em_step pf [call_span_id ns src] em (shadow_call ns src em)"
proof (cases "em_tool_spans em (tool_key (ss_session src) (ss_anchor src))")
  case (Some tool)
  let ?k = "tool_key (ss_session src) (ss_anchor src)"
  from tool_turn_of [OF inv Some] obtain t where t: "em_tool_turn em ?k = Some t" "in_turn em t tool" by blast
  define s where "s = llm_span ns src (span_id_at em tool) (fresh_input ns src)"
  have 1: "em_step pf [call_span_id ns src] em (add_span t s em)" unfolding s_def by (rule add_llm_step [OF t(2)])
  have "t < length (em_turns (add_span t s em))" using t(2) by (simp add: in_turn_def add_span_views)
  from em_step_trans [OF 1 add_link_step [OF this]] show ?thesis
    using Some t(1) by (simp add: shadow_call_def Let_def s_def [symmetric])
next
  case None
  obtain em1 t where e: "trace_at ns src em = (em1, t)" by fastforce
  from trace_at_step [OF inv e] have 1: "em_step pf [] em em1" and t: "t < length (em_turns em1)" by simp_all
  define em2 where "em2 = em1\<lparr>em_report := (em_report em1)\<lparr>rp_orphan_shadow := rp_orphan_shadow (em_report em1) + 1\<rparr>\<rparr>"
  have 2: "em_step pf [] em1 em2" unfolding em2_def
    by (rule upd_maps_step) (simp_all add: em_inv_def inv_maps_def in_turn_def inv_keys_def)
  from em_step_trans [OF 1 2] inv have inv2: "em_inv pf em2" by (auto dest: em_stepD)
  have "t < length (em_turns em2)" using t by (simp add: em2_def)
  note r = root_in_turn [OF inv2 this]
  from em_step_trans [OF em_step_trans [OF 1 2] add_llm_step [OF r]] show ?thesis
    using None e by (simp add: shadow_call_def em2_def Let_def)
qed

lemma agent_maps_step:
  assumes "in_turn em t i"
  shows "em_step pf [] em (em\<lparr>em_agent_span := (em_agent_span em)(k \<mapsto> i), em_agent_turn := (em_agent_turn em)(k \<mapsto> t)\<rparr>)"
proof -
  let ?em = "em\<lparr>em_agent_span := (em_agent_span em)(k \<mapsto> i), em_agent_turn := (em_agent_turn em)(k \<mapsto> t)\<rparr>"
  have it: "in_turn ?em u j = in_turn em u j" for u j by (simp add: in_turn_def)
  show ?thesis
  proof (rule upd_maps_step)
    show "inv_maps ?em" if "em_inv pf em" using that assms unfolding em_inv_def inv_maps_def it by auto
    show "inv_keys pf ?em" if "em_inv pf em" using that by (simp add: em_inv_def inv_keys_def)
  qed simp_all
qed

text \<open>The place of a thread's agent span: under its spawning tool span, else under the root of the
  session's open trace.\<close>

lemma agent_host_step:
  assumes inv: "em_inv pf em" and e: "agent_host ns src aid em = (em', t, parent)"
  shows "em_step pf [] em em' \<and> t < length (em_turns em') \<and> parent \<in> turn_ids em' t"
proof (cases "em_tool_spans em (tool_key (ss_session src) (thread_anchor ns src))")
  case (Some task)
  let ?k = "tool_key (ss_session src) (thread_anchor ns src)"
  from tool_turn_of [OF inv Some] obtain u where u: "em_tool_turn em ?k = Some u" "in_turn em u task" by blast
  define l where "l = \<lparr>ln_from_trace = trace_id_at em u, ln_from_span = aid,
                       ln_from_io = ''output'', ln_to_trace = trace_id_at em u, ln_to_span = span_id_at em task,
                       ln_to_io = ''output'', ln_kind = link_rejoin\<rparr>"
  have e': "em' = add_link u l em" "t = u" "parent = span_id_at em' task"
    using e Some u(1) by (auto simp: agent_host_def l_def Let_def)
  have ulen: "u < length (em_turns em)" using u(2) by (simp add: in_turn_def)
  have 1: "em_step pf [] em em'" unfolding e' by (rule add_link_step [OF ulen]) (simp add: l_def)
  have "in_turn em' u task" using em_stepD(2) [OF 1 inv] u(2) by (rule in_turn_ext)
  then show ?thesis using 1 in_turn_id by (simp add: e'(2,3)) (simp add: in_turn_def)
next
  case None
  obtain em1 u where en: "ensure_trace ns src em = (em1, u)" by fastforce
  then have e': "em' = em1" "t = u" "parent = span_id_at em1 (root_at em1 u)"
    using e None by (auto simp: agent_host_def Let_def)
  from ensure_trace_step [OF inv en] have 1: "em_step pf [] em em1" and u: "u < length (em_turns em1)" by simp_all
  from in_turn_id [OF root_in_turn [OF em_stepD(1) [OF 1 inv] u]] 1 u show ?thesis by (simp add: e')
qed

lemma open_agent_step:
  assumes inv: "em_inv pf em" and e: "open_agent tx ns src em = (em', i, t)"
  shows "em_step pf [] em em' \<and> in_turn em' t i"
proof -
  define agent where "agent = agent_span tx src"
  obtain em1 u parent where c: "agent_host ns src (sp_id agent) em = (em1, u, parent)" by (rule prod_cases3)
  from agent_host_step [OF inv c] have 1: "em_step pf [] em em1" and u: "u < length (em_turns em1)"
    and p: "parent \<in> turn_ids em1 u" by simp_all
  define em2 where "em2 = add_span u (agent\<lparr>sp_parent := parent\<rparr>) em1"
  have 2: "em_step pf [] em1 em2"
    using add_span_step [OF u, of "agent\<lparr>sp_parent := parent\<rparr>" pf] p
    by (simp add: em2_def agent_def agent_span_def span_kind_defs)
  have new: "in_turn em2 u (length (em_spans em1))" unfolding em2_def by (rule add_span_in_turn(2) [OF u])
  have e': "em' = em2\<lparr>em_agent_span := (em_agent_span em2)(thread_key src \<mapsto> length (em_spans em1)),
        em_agent_turn := (em_agent_turn em2)(thread_key src \<mapsto> u)\<rparr>" "i = length (em_spans em1)" "t = u"
    using e c unfolding open_agent_def Let_def agent_def [symmetric] by (auto simp: em2_def)
  from em_step_trans [OF em_step_trans [OF 1 2] agent_maps_step [OF new]] new show ?thesis
    by (simp add: e') (simp add: in_turn_def)
qed

lemma find_agent_step:
  assumes inv: "em_inv pf em" and c: "find_agent tx ns src em = (em1, agent, t)"
  shows "em_step pf [] em em1 \<and> in_turn em1 t agent"
proof (cases "em_agent_span em (thread_key src)")
  case None
  with c open_agent_step [OF inv, of tx ns src em1 agent t] show ?thesis by (simp add: find_agent_def)
next
  case (Some i)
  from agent_turn_of [OF inv Some] obtain u where "em_agent_turn em (thread_key src) = Some u" "in_turn em u i" by blast
  with c Some show ?thesis by (auto simp: find_agent_def em_step_refl)
qed

lemma thread_call_step:
  assumes inv: "em_inv pf em" and src: "src_ok pf src"
  shows "em_step pf [call_span_id ns src] em (thread_call tx ns src em)"
proof -
  obtain em1 agent t where c: "find_agent tx ns src em = (em1, agent, t)" by (rule prod_cases3)
  from find_agent_step [OF inv c] have 1: "em_step pf [] em em1" "in_turn em1 t agent" by simp_all
  define em2 where "em2 = emit_conversation tx ns src t agent em1"
  have 2: "em_step pf [call_span_id ns src] em1 em2"
    unfolding em2_def by (rule emit_conversation_step [OF em_stepD(1) [OF 1(1) inv] src 1(2)])
  have 3: "em_step pf [] em2 (em2\<lparr>em_spans := upd_at (em_spans em2) agent
                (\<lambda>s. s\<lparr>sp_duration_ns := time_sub (ss_captured_at src) (sp_started_at s)\<rparr>)\<rparr>)"
    by (rule upd_span_step) simp
  have 12: "em_step pf [call_span_id ns src] em em2" using em_step_trans [OF 1(1) 2] by simp
  from em_step_trans [OF 12 3] 12 show ?thesis
    by (simp add: thread_call_def c Let_def em2_def [symmetric])
qed

subsection \<open>The phases\<close>

text \<open>The ids of the llm spans come in the order in which the calls are emitted.\<close>

lemma fold_call_step:
  assumes step: "\<And>x em. x \<in> set xs \<Longrightarrow> em_inv pf em \<Longrightarrow> em_step pf (g x) em (f x em)"
  shows "em_step pf (concat (map g xs)) em (fold f xs em)"
  using step
proof (induction xs arbitrary: em)
  case Nil
  show ?case by (simp add: em_step_refl)
next
  case (Cons x xs)
  show ?case
  proof (cases "em_inv pf em")
    case True
    from em_step_trans [OF Cons.prems [OF list.set_intros(1) True] Cons.IH [of "f x em"]] Cons.prems
    show ?thesis by simp
  qed (simp add: em_step_def)
qed

lemma thread_pass_step:
  assumes "thread_pass tx ns pending em = (em', blocked, progressed)" and "\<forall>src\<in>set pending. src_ok pf src"
    and "em_inv pf em"
  shows "\<exists>emitted. em_step pf (map (call_span_id ns) emitted) em em' \<and> mset pending = mset emitted + mset blocked"
  using assms
proof (induction pending arbitrary: em em' blocked progressed)
  case Nil
  then show ?case by (intro exI [where x = "[]"]) (simp add: em_step_refl)
next
  case (Cons src pending)
  show ?case
  proof (cases "thread_ready ns em src")
    case True
    have 1: "em_step pf [call_span_id ns src] em (thread_call tx ns src em)"
      using Cons.prems by (intro thread_call_step) simp_all
    obtain p where r: "thread_pass tx ns pending (thread_call tx ns src em) = (em', blocked, p)"
      using Cons.prems(1) True by (auto simp: Let_def split: prod.splits)
    from Cons.IH [OF r] Cons.prems em_stepD(1) [OF 1 Cons.prems(3)] obtain emitted where
      "em_step pf (map (call_span_id ns) emitted) (thread_call tx ns src em) em'" "mset pending = mset emitted + mset blocked"
      by auto
    with em_step_trans [OF 1] show ?thesis by (intro exI [where x = "src # emitted"]) simp
  next
    case False
    obtain bl p where r: "thread_pass tx ns pending em = (em', bl, p)" "blocked = src # bl"
      using Cons.prems(1) False by (auto simp: Let_def split: prod.splits)
    from Cons.IH [OF r(1)] Cons.prems obtain emitted where
      "em_step pf (map (call_span_id ns) emitted) em em'" "mset pending = mset emitted + mset bl" by auto
    with r(2) show ?thesis by (intro exI [where x = emitted]) simp
  qed
qed

text \<open>The fixed point emits every pending call exactly once.\<close>

lemma thread_calls_step:
  "em_inv pf em \<Longrightarrow> \<forall>src\<in>set pending. src_ok pf src \<Longrightarrow>
   \<exists>emitted. em_step pf (map (call_span_id ns) emitted) em (thread_calls tx ns pending em) \<and> mset emitted = mset pending"
proof (induction "length pending" arbitrary: pending em rule: less_induct)
  case less
  show ?case
  proof (cases "pending = []")
    case True
    then show ?thesis by (intro exI [where x = "[]"]) (simp add: thread_calls.simps em_step_refl)
  next
    case False
    obtain em1 blocked progressed where p: "thread_pass tx ns pending em = (em1, blocked, progressed)"
      by (rule prod_cases3)
    from thread_pass_step [OF p less.prems(2,1)] obtain emitted where
      1: "em_step pf (map (call_span_id ns) emitted) em em1" and m: "mset pending = mset emitted + mset blocked" by blast
    show ?thesis
    proof (cases progressed)
      case True
      have inv1: "em_inv pf em1" using em_stepD(1) [OF 1 less.prems(1)] .
      have "set blocked \<subseteq> set pending" using m by (metis mset_subset_eq_add_right set_mset_mono set_mset_mset)
      then have ok: "\<forall>src\<in>set blocked. src_ok pf src" using less.prems(2) by blast
      have "length blocked < length pending" using thread_pass_shrinks [OF p] True by simp
      from less.hyps [OF this inv1 ok] obtain later where
        2: "em_step pf (map (call_span_id ns) later) em1 (thread_calls tx ns blocked em1)" "mset later = mset blocked" by blast
      have "thread_calls tx ns pending em = thread_calls tx ns blocked em1"
        using False p True by (simp add: thread_calls.simps [of tx ns pending])
      with em_step_trans [OF 1 2(1)] m 2(2) show ?thesis
        by (intro exI [where x = "emitted @ later"]) simp
    next
      case False
      then have same: "em1 = em" using thread_pass_shrinks [OF p] by simp
      have "thread_calls tx ns pending em = fold (thread_call tx ns) pending em"
        using \<open>pending \<noteq> []\<close> p False same by (simp add: thread_calls.simps [of tx ns pending])
      moreover have "em_step pf (concat (map (\<lambda>src. [call_span_id ns src]) pending)) em (fold (thread_call tx ns) pending em)"
        by (rule fold_call_step) (use less.prems(2) thread_call_step in blast)
      ultimately show ?thesis by (intro exI [where x = pending]) simp
    qed
  qed
qed

lemma new_emitter_inv: "em_inv pf (new_emitter labels)"
  by (simp add: em_inv_defs new_emitter_def)

definition call_sources :: "derived_set \<Rightarrow> span_source list" where
  "call_sources ds = filter (\<lambda>src. ss_chain src \<noteq> []) (ds_sources ds)"

lemma spine_step_step:
  assumes inv: "em_inv pf em" and src: "src_ok pf src"
  shows "em_step pf (if route_of src \<in> {SpineMain, SpineCompaction} then [call_span_id ns src] else [])
    em (spine_step tx ns src em)"
  using main_call_step [OF inv src] compaction_call_step [OF inv]
  by (cases "route_of src") (simp_all add: spine_step_def em_step_refl)

lemma routes_partition:
  "mset (map f cs) = mset (concat (map (\<lambda>src. if route_of src \<in> {SpineMain, SpineCompaction} then [f src] else []) cs)
     @ map f (filter (\<lambda>src. route_of src = ThreadPhase) cs) @ map f (filter (\<lambda>src. route_of src = ShadowPhase) cs))"
proof (induction cs)
  case (Cons c cs)
  then show ?case by (cases "route_of c") simp_all
qed simp

text \<open>The whole walk: it keeps the invariant from the empty emitter, and its llm spans carry the ids
  of the calls, each once.\<close>

lemma walk_spans_inv:
  assumes src: "\<forall>src\<in>set (ds_sources ds). src_ok pf src"
  shows "em_inv pf (walk_spans tx ds)
    \<and> mset (llm_ids (walk_spans tx ds)) = mset (map (call_span_id (ds_nodes ds)) (call_sources ds))"
proof -
  let ?ns = "ds_nodes ds" and ?cs = "call_sources ds"
  let ?id = "call_span_id ?ns"
  have ok: "\<forall>src\<in>set ?cs. src_ok pf src" using src by (auto simp: call_sources_def)
  define em0 where "em0 = new_emitter (ds_spawn_labels ds)"
  have inv0: "em_inv pf em0" and ids0: "llm_ids em0 = []" by (simp_all add: em0_def new_emitter_inv llm_ids_def) (simp add: new_emitter_def)
  define em1 where "em1 = fold (spine_step tx ?ns) ?cs em0"
  define spine where "spine = concat (map (\<lambda>src. if route_of src \<in> {SpineMain, SpineCompaction} then [?id src] else []) ?cs)"
  have 1: "em_step pf spine em0 em1" unfolding em1_def spine_def
    by (rule fold_call_step) (use ok spine_step_step in blast)
  note inv1 = em_stepD(1) [OF 1 inv0] and ids1 = em_stepD(3) [OF 1 inv0]
  define threads where "threads = filter (\<lambda>src. route_of src = ThreadPhase) ?cs"
  define em2 where "em2 = thread_calls tx ?ns threads em1"
  from thread_calls_step [OF inv1, where pending = threads and tx = tx and ns = ?ns] obtain emitted where
    2: "em_step pf (map ?id emitted) em1 em2" and m2: "mset emitted = mset threads"
    using ok by (auto simp: threads_def em2_def)
  note inv2 = em_stepD(1) [OF 2 inv1] and ids2 = em_stepD(3) [OF 2 inv1]
  define shadows where "shadows = filter (\<lambda>src. route_of src = ShadowPhase) ?cs"
  have 3: "em_step pf (concat (map (\<lambda>src. [?id src]) shadows)) em2 (fold (shadow_call ?ns) shadows em2)"
    by (rule fold_call_step) (rule shadow_call_step)
  have w: "walk_spans tx ds = fold (shadow_call ?ns) shadows em2"
    by (simp add: walk_spans_def Let_def em0_def em1_def em2_def threads_def shadows_def call_sources_def)
  have "mset (map ?id ?cs) = mset (spine @ map ?id threads @ map ?id shadows)"
    unfolding spine_def threads_def shadows_def by (rule routes_partition)
  moreover have "mset (map ?id emitted) = mset (map ?id threads)" using m2 by simp
  ultimately show ?thesis using em_stepD(1,3) [OF 3 inv2] ids0 ids1 ids2 by (simp add: w)
qed

end
