(* ===== verification/SpanFinish.thy ===== *)
theory SpanFinish
  imports SpanWalk
begin

text \<open>
  What \<open>finish\<close> does to the walk's result, and the properties of the emitted span set.
\<close>

subsection \<open>What finishing keeps\<close>

text \<open>Finishing changes sequence numbers and durations of spans only.\<close>

definition span_core :: "span \<Rightarrow> span" where
  "span_core s = s\<lparr>sp_seq := 0, sp_duration_ns := 0\<rparr>"

lemma span_core_eq:
  "span_core s = span_core s' \<Longrightarrow> sp_id s = sp_id s' \<and> sp_kind s = sp_kind s' \<and> sp_parent s = sp_parent s'
     \<and> sp_started_at s = sp_started_at s' \<and> sp_output s = sp_output s' \<and> sp_call_kind s = sp_call_kind s'"
  by (cases s; cases s') (simp add: span_core_def)

lemma number_spans_core: "map span_core (number_spans is spans) = map span_core spans"
proof -
  have "map span_core (fold (\<lambda>(k, i) sps. upd_at sps i (\<lambda>s. s\<lparr>sp_seq := int k\<rparr>)) ps sps) = map span_core sps" for ps sps
  proof (induction ps arbitrary: sps)
    case (Cons p ps)
    have "map span_core (upd_at sps (snd p) (\<lambda>s. s\<lparr>sp_seq := int (fst p)\<rparr>)) = map span_core sps"
      by (rule map_upd_at) (simp add: span_core_def)
    then show ?case using Cons.IH by (simp add: case_prod_beta)
  qed simp
  then show ?thesis by (simp add: number_spans_def)
qed

lemma number_fold_other:
  "j \<notin> snd ` set ps \<Longrightarrow>
   fold (\<lambda>(k, i) sps. upd_at sps i (\<lambda>s. s\<lparr>sp_seq := int k\<rparr>)) ps sps ! j = sps ! j"
proof (induction ps arbitrary: sps)
  case (Cons p ps)
  then have "upd_at sps (snd p) (\<lambda>s. s\<lparr>sp_seq := int (fst p)\<rparr>) ! j = sps ! j"
    by (auto simp: upd_at_def)
  with Cons show ?case by (simp add: case_prod_beta)
qed simp

lemma number_spans_other: "j \<notin> set is \<Longrightarrow> number_spans is spans ! j = spans ! j"
  unfolding number_spans_def by (rule number_fold_other) (auto dest: set_zip_rightD)

lemma length_number_spans [simp]: "length (number_spans is spans) = length spans"
  using number_spans_core by (rule map_eq_imp_length_eq)

lemma number_spans_nth:
  assumes "distinct is" "k < length is" "is ! k < length spans"
  shows "sp_seq (number_spans is spans ! (is ! k)) = int k"
proof -
  have "number_spans (xs @ ys) sps ! j = fold (\<lambda>(k, i) sps. upd_at sps i (\<lambda>s. s\<lparr>sp_seq := int k\<rparr>))
      (zip [length xs..<length (xs @ ys)] ys) (number_spans xs sps) ! j" for xs ys sps j
    unfolding number_spans_def by (simp add: zip_append1 upt_add_eq_append [of 0] fold_append)
  note split = this
  define pre where "pre = take k is"
  define post where "post = drop (Suc k) is"
  have eq: "is = (pre @ [is ! k]) @ post" using assms(2) by (simp add: pre_def post_def id_take_nth_drop)
  have nin: "is ! k \<notin> set post" using assms(1) eq by (metis distinct_append disjoint_iff in_set_conv_decomp)
  have "number_spans is spans ! (is ! k) = number_spans (pre @ [is ! k]) spans ! (is ! k)"
    using nin by (subst eq, subst split, subst number_fold_other) (auto dest: set_zip_rightD)
  also have "sp_seq \<dots> = int (length pre)"
    using assms(3) by (subst split) (simp add: upt_rec)
  finally show ?thesis using assms(2) by (simp add: pre_def)
qed

lemma sorted_spans_mset: "mset (sorted_spans spans is) = mset is"
  by (cases "is") (simp_all add: sorted_spans_def)

lemma insort_key_same: "f x = g x \<Longrightarrow> \<forall>y\<in>set ys. f y = g y \<Longrightarrow> insort_key f x ys = insort_key g x ys"
  by (induction ys) auto

lemma sort_key_same: "\<forall>x\<in>set xs. f x = g x \<Longrightarrow> sort_key f xs = sort_key g xs"
proof (induction xs)
  case (Cons x xs)
  have "sort_key f xs = sort_key g xs" using Cons by simp
  moreover have "insort_key f x (sort_key g xs) = insort_key g x (sort_key g xs)"
    by (rule insort_key_same) (use Cons.prems in simp_all)
  ultimately show ?case by simp
qed simp

lemma sorted_spans_core:
  assumes "map span_core sps = map span_core spans" and "\<forall>i\<in>set is. i < length spans"
  shows "sorted_spans sps is = sorted_spans spans is"
proof (cases "is")
  case (Cons r rest)
  have "sp_started_at (sps ! i) = sp_started_at (spans ! i)" if "i \<in> set rest" for i
  proof -
    have "i < length spans" using assms(2) that Cons by simp
    from span_core_eq [OF map_eq_nth [OF assms(1) this]] show ?thesis by simp
  qed
  then have "sort_key (\<lambda>i. sp_started_at (sps ! i)) rest = sort_key (\<lambda>i. sp_started_at (spans ! i)) rest"
    by (intro sort_key_same ballI)
  with Cons show ?thesis by (simp add: sorted_spans_def)
qed (simp add: sorted_spans_def)

text \<open>The accounting loop leaves a turn's identity, spans and links alone.\<close>

definition turn_frame :: "span_turn \<Rightarrow> string \<times> session_key \<times> string \<times> string \<times> nat list \<times> span_link list" where
  "turn_frame tn = (tn_trace_id tn, tn_session tn, tn_user_prompt tn, tn_synthetic tn, tn_spans tn, tn_links tn)"

lemma account_span_frame: "turn_frame (fst (account_span rnd pr e st)) = turn_frame (fst st)"
  by (simp add: account_span_def turn_frame_def Let_def split: prod.split option.split)

lemma fold_account_frame: "turn_frame (fst (fold (account_span rnd pr) es st)) = turn_frame (fst st)"
  by (induction es arbitrary: st) (simp_all add: account_span_frame)

text \<open>What a finished turn is to the turn of the walk.\<close>

definition finished_turn :: "span list \<Rightarrow> span list \<Rightarrow> span_turn \<Rightarrow> span_turn \<Rightarrow> bool" where
  "finished_turn spans spans' tn' tn \<longleftrightarrow>
     turn_frame tn' = turn_frame (tn\<lparr>tn_spans := sorted_spans spans (tn_spans tn)\<rparr>)
     \<and> (\<forall>k<length (tn_spans tn'). sp_seq (spans' ! (tn_spans tn' ! k)) = int k)"

lemma finish_turn_views:
  assumes f: "finish_turn rnd pr tn (spans, ts, ff) = (spans', ts', ff')"
    and d: "distinct (tn_spans tn)" and b: "\<forall>i\<in>set (tn_spans tn). i < length spans" and ne: "tn_spans tn \<noteq> []"
  shows "map span_core spans' = map span_core spans"
    and "\<And>j. j \<notin> set (tn_spans tn) \<Longrightarrow> spans' ! j = spans ! j"
    and "\<exists>tn'. ts' = ts @ [tn'] \<and> finished_turn spans spans' tn' tn"
proof -
  define order where "order = sorted_spans spans (tn_spans tn)"
  have set: "set order = set (tn_spans tn)" unfolding order_def by (metis set_mset_mset sorted_spans_mset)
  have ne': "order \<noteq> []" using set ne by auto
  have dist: "distinct order" unfolding order_def using d sorted_spans_mset by (metis mset_eq_imp_distinct_iff)
  define spans1 where "spans1 = number_spans order spans"
  obtain tn1 ff1 where a: "fold (account_span rnd pr) (map (\<lambda>i. (i, spans1 ! i)) order) (tn\<lparr>tn_spans := order\<rparr>, ff) = (tn1, ff1)"
    by fastforce
  define g where "g = (\<lambda>s::span. s\<lparr>sp_duration_ns := time_sub (tn_ended_at tn1) (tn_started_at tn1)\<rparr>)"
  define spans2 where "spans2 = (if sp_kind (spans1 ! hd order) = span_kind_agent then upd_at spans1 (hd order) g else spans1)"
  have "finish_turn rnd pr tn (spans, ts, ff) = (spans2, ts @ [tn1\<lparr>tn_response_preview := response_preview spans2 order\<rparr>], ff1)"
    by (simp add: finish_turn_def Let_def order_def [symmetric] spans1_def [symmetric] a g_def spans2_def)
  with f have e: "spans' = (if sp_kind (spans1 ! hd order) = span_kind_agent then upd_at spans1 (hd order) g else spans1)"
    "ts' = ts @ [tn1\<lparr>tn_response_preview := response_preview spans' order\<rparr>]"
    by (auto simp: spans2_def)
  have c1: "map span_core spans1 = map span_core spans" unfolding spans1_def by (rule number_spans_core)
  have "map span_core (upd_at spans1 (hd order) g) = map span_core spans1"
    by (rule map_upd_at) (simp add: g_def span_core_def)
  then show core: "map span_core spans' = map span_core spans" using c1 by (simp add: e(1))
  have hd: "hd order \<in> set (tn_spans tn)" using set ne' hd_in_set by blast
  show "spans' ! j = spans ! j" if "j \<notin> set (tn_spans tn)" for j
  proof -
    have "j \<noteq> hd order" using that hd by auto
    moreover have "spans1 ! j = spans ! j" unfolding spans1_def by (rule number_spans_other) (use that set in simp)
    ultimately show ?thesis by (auto simp: e(1) upd_at_def)
  qed
  have fr: "turn_frame tn1 = turn_frame (tn\<lparr>tn_spans := order\<rparr>)"
    using fold_account_frame [of rnd pr "map (\<lambda>i. (i, spans1 ! i)) order" "(tn\<lparr>tn_spans := order\<rparr>, ff)"] a by simp
  have seq: "sp_seq (spans' ! (order ! k)) = int k" if "k < length order" for k
  proof -
    have "order ! k < length spans" using that set b by (metis nth_mem)
    then have "sp_seq (spans1 ! (order ! k)) = int k" unfolding spans1_def by (rule number_spans_nth [OF dist that])
    then show ?thesis by (auto simp: e(1) upd_at_def g_def nth_list_update)
  qed
  have "tn_spans tn1 = order" using fr by (simp add: turn_frame_def)
  then show "\<exists>tn'. ts' = ts @ [tn'] \<and> finished_turn spans spans' tn' tn"
    using e(2) fr seq by (auto simp: finished_turn_def turn_frame_def order_def)
qed

lemma finish_fold:
  assumes "fold (finish_turn rnd pr) turns (spans, ts, ff) = (spans', ts', ff')"
    and "distinct (concat (map tn_spans turns))" and "\<forall>i\<in>set (concat (map tn_spans turns)). i < length spans"
    and "\<forall>tn\<in>set turns. tn_spans tn \<noteq> []"
  shows "map span_core spans' = map span_core spans
    \<and> (\<forall>j. j \<notin> set (concat (map tn_spans turns)) \<longrightarrow> spans' ! j = spans ! j)
    \<and> (\<exists>fin. ts' = ts @ fin \<and> list_all2 (finished_turn spans spans') fin turns)"
  using assms
proof (induction turns arbitrary: spans ts ff)
  case Nil
  then show ?case by simp
next
  case (Cons tn turns)
  obtain spans1 ts1 ff1 where f: "finish_turn rnd pr tn (spans, ts, ff) = (spans1, ts1, ff1)" by (rule prod_cases3)
  note v = finish_turn_views [OF f]
  have d: "distinct (tn_spans tn)" "\<forall>i\<in>set (tn_spans tn). i < length spans" "tn_spans tn \<noteq> []"
    "set (tn_spans tn) \<inter> set (concat (map tn_spans turns)) = {}" using Cons.prems by auto
  obtain tn' where tn': "ts1 = ts @ [tn']" "finished_turn spans spans1 tn' tn" using v(3) [OF d(1-3)] by blast
  have core1: "map span_core spans1 = map span_core spans" by (rule v(1) [OF d(1-3)])
  then have len: "length spans1 = length spans" by (rule map_eq_imp_length_eq)
  from Cons.IH [of spans1 ts1 ff1] Cons.prems f len obtain fin where
    core: "map span_core spans' = map span_core spans1" and
    other: "\<forall>j. j \<notin> set (concat (map tn_spans turns)) \<longrightarrow> spans' ! j = spans1 ! j" and
    fin: "ts' = ts1 @ fin" "list_all2 (finished_turn spans1 spans') fin turns" by auto
  have same: "sorted_spans spans1 (tn_spans u) = sorted_spans spans (tn_spans u)" if "u \<in> set turns" for u
    using core1 Cons.prems(3) that by (intro sorted_spans_core) auto
  have "list_all2 (finished_turn spans spans') fin turns"
    by (rule list.rel_mono_strong [OF fin(2)]) (simp add: finished_turn_def same)
  moreover have "finished_turn spans spans' tn' tn"
  proof -
    have fr: "turn_frame tn' = turn_frame (tn\<lparr>tn_spans := sorted_spans spans (tn_spans tn)\<rparr>)"
      and sq: "\<forall>k<length (tn_spans tn'). sp_seq (spans1 ! (tn_spans tn' ! k)) = int k"
      using tn'(2) by (simp_all add: finished_turn_def)
    have "set (tn_spans tn') = set (tn_spans tn)"
      using fr sorted_spans_mset [of spans "tn_spans tn"] by (simp add: turn_frame_def) (metis set_mset_mset)
    then have "spans' ! (tn_spans tn' ! k) = spans1 ! (tn_spans tn' ! k)" if "k < length (tn_spans tn')" for k
      using other d(4) that nth_mem by blast
    with fr sq show ?thesis by (simp add: finished_turn_def)
  qed
  moreover have "\<forall>j. j \<notin> set (concat (map tn_spans (tn # turns))) \<longrightarrow> spans' ! j = spans ! j"
    using other v(2) [OF d(1-3)] by simp
  ultimately show ?case using core core1 fin(1) tn'(1) by simp
qed

subsection \<open>The emitted set\<close>

lemma emit_spans_facts:
  fixes tx rnd ds
  defines "w \<equiv> walk_spans tx ds" and "so \<equiv> emit_spans tx rnd ds"
  shows "em_inv False w" and "map span_core (so_spans so) = map span_core (em_spans w)"
    and "list_all2 (finished_turn (em_spans w) (so_spans so)) (so_turns so) (em_turns w)"
    and "so_links so = em_links w" and "so_report so = (em_report w)\<lparr>rp_traces := int (length (em_turns w))\<rparr>"
proof -
  show inv: "em_inv False w" using walk_spans_inv [of ds False tx] by (simp add: w_def src_ok_def)
  then have pl: "inv_place w" by (simp add: em_inv_def)
  then have m: "mset (concat (map tn_spans (em_turns w))) = mset [0..<length (em_spans w)]" by (simp add: inv_place_def)
  have d: "distinct (concat (map tn_spans (em_turns w)))" using mset_eq_imp_distinct_iff [OF m] by simp
  have b: "\<forall>i\<in>set (concat (map tn_spans (em_turns w))). i < length (em_spans w)"
    using mset_eq_setD [OF m] by auto
  have ne: "\<forall>tn\<in>set (em_turns w). tn_spans tn \<noteq> []" using pl by (auto simp: inv_place_def in_set_conv_nth)
  obtain spans turns ff where f: "fold (finish_turn rnd (default_pricing rnd)) (em_turns w) (em_spans w, [], empty_folds) = (spans, turns, ff)"
    by (rule prod_cases3)
  have so: "so_spans so = spans" "so_turns so = turns" "so_links so = em_links w"
      "so_report so = (em_report w)\<lparr>rp_traces := int (length (em_turns w))\<rparr>"
    unfolding so_def emit_spans_def w_def [symmetric] finish_emit_def f by (simp_all add: Let_def)
  from finish_fold [OF f d b ne] show "map span_core (so_spans so) = map span_core (em_spans w)"
    "list_all2 (finished_turn (em_spans w) (so_spans so)) (so_turns so) (em_turns w)"
    by (auto simp: so)
  show "so_links so = em_links w" "so_report so = (em_report w)\<lparr>rp_traces := int (length (em_turns w))\<rparr>" by (rule so)+
qed

lemma core_kinds:
  assumes "map span_core sps = map span_core spans"
  shows "length (filter (\<lambda>s. sp_kind s = k) sps) = length (filter (\<lambda>s. sp_kind s = k) spans)"
    and "map sp_id (filter (\<lambda>s. sp_kind s = k) sps) = map sp_id (filter (\<lambda>s. sp_kind s = k) spans)"
proof -
  have "map sp_id (filter (\<lambda>s. sp_kind s = k) (map span_core sps)) = map sp_id (filter (\<lambda>s. sp_kind s = k) (map span_core spans))"
    by (simp only: assms)
  then show ids: "map sp_id (filter (\<lambda>s. sp_kind s = k) sps) = map sp_id (filter (\<lambda>s. sp_kind s = k) spans)"
    by (simp add: filter_map comp_def span_core_def)
  then show "length (filter (\<lambda>s. sp_kind s = k) sps) = length (filter (\<lambda>s. sp_kind s = k) spans)"
    by (rule map_eq_imp_length_eq)
qed

lemma finished_frame:
  assumes "list_all2 (finished_turn spans spans') ts' ts"
  shows "map tn_trace_id ts' = map tn_trace_id ts" "map tn_links ts' = map tn_links ts"
    "map tn_synthetic ts' = map tn_synthetic ts"
    "mset (concat (map tn_spans ts')) = mset (concat (map tn_spans ts))"
  using assms
  by (induction rule: list_all2_induct) (simp_all add: finished_turn_def turn_frame_def sorted_spans_mset)

text \<open>A finished trace: the root agent span first, without a parent; every other span under a span of
  the trace; spans after the root in order of start; sequence numbers are positions.\<close>

definition trace_tree :: "span list \<Rightarrow> span_turn \<Rightarrow> bool" where
  "trace_tree spans tn = (case tn_spans tn of [] \<Rightarrow> False
     | r # rest \<Rightarrow>
         sp_kind (spans ! r) = span_kind_agent \<and> sp_parent (spans ! r) = []
         \<and> list_all (\<lambda>i. sp_parent (spans ! i) \<in> (\<lambda>j. sp_id (spans ! j)) ` set (tn_spans tn)) rest
         \<and> sorted (map (\<lambda>i. sp_started_at (spans ! i)) rest)
         \<and> map (\<lambda>i. sp_seq (spans ! i)) (tn_spans tn) = map int [0..<length (tn_spans tn)])"

lemma finished_trace_tree:
  assumes fin: "finished_turn spans spans' tn' tn" and core: "map span_core spans' = map span_core spans"
    and b: "\<forall>i\<in>set (tn_spans tn). i < length spans" and ne: "tn_spans tn \<noteq> []"
    and root: "sp_parent (spans ! hd (tn_spans tn)) = []" "sp_kind (spans ! hd (tn_spans tn)) = span_kind_agent"
    and par: "\<forall>i\<in>set (tl (tn_spans tn)). sp_parent (spans ! i) \<in> (\<lambda>i. sp_id (spans ! i)) ` set (tn_spans tn)"
  shows "trace_tree spans' tn'"
proof -
  obtain r rest where tn: "tn_spans tn = r # rest" using ne by (cases "tn_spans tn") auto
  define rest' where "rest' = sort_key (\<lambda>i. sp_started_at (spans ! i)) rest"
  have tn': "tn_spans tn' = r # rest'" using fin by (simp add: finished_turn_def turn_frame_def sorted_spans_def tn rest'_def)
  have set: "set rest' = set rest" by (simp add: rest'_def)
  have view: "sp_id (spans' ! i) = sp_id (spans ! i)" "sp_parent (spans' ! i) = sp_parent (spans ! i)"
      "sp_kind (spans' ! i) = sp_kind (spans ! i)" "sp_started_at (spans' ! i) = sp_started_at (spans ! i)"
    if "i \<in> set (tn_spans tn)" for i
    using span_core_eq [OF map_eq_nth [OF core]] b that by simp_all
  have "(\<lambda>j. sp_id (spans' ! j)) ` set (tn_spans tn') = (\<lambda>j. sp_id (spans ! j)) ` set (tn_spans tn)"
    using view(1) set by (auto simp: tn tn')
  then have "list_all (\<lambda>i. sp_parent (spans' ! i) \<in> (\<lambda>j. sp_id (spans' ! j)) ` set (tn_spans tn')) rest'"
    using par view(2) set by (simp add: list_all_iff tn)
  moreover have "sorted (map (\<lambda>i. sp_started_at (spans' ! i)) rest')"
  proof -
    have eq: "map (\<lambda>i. sp_started_at (spans' ! i)) rest' = map (\<lambda>i. sp_started_at (spans ! i)) rest'"
      using view(4) set by (simp add: tn)
    show ?thesis unfolding eq unfolding rest'_def by (rule sorted_sort_key)
  qed
  moreover have "map (\<lambda>i. sp_seq (spans' ! i)) (tn_spans tn') = map int [0..<length (tn_spans tn')]"
    using fin by (intro nth_equalityI) (simp_all add: finished_turn_def)
  ultimately show ?thesis using root view [of r] by (simp add: trace_tree_def tn' tn)
qed

subsection \<open>Properties\<close>

text \<open>C5: every captured call is one llm span. The ids of the emitted llm spans are, as a multiset,
  the ids of the calls of the derived set: no call is dropped, whatever its route, and none is
  emitted twice, however the thread phase iterates.\<close>

theorem emit_calls_once:
  "mset (map sp_id (filter (\<lambda>s. sp_kind s = span_kind_llm) (so_spans (emit_spans tx rnd ds))))
     = mset (map (call_span_id (ds_nodes ds)) (call_sources ds))"
proof -
  have "map sp_id (filter (\<lambda>s. sp_kind s = span_kind_llm) (so_spans (emit_spans tx rnd ds))) = llm_ids (walk_spans tx ds)"
    using core_kinds(2) [OF emit_spans_facts(2)] by (simp add: llm_ids_def)
  then show ?thesis using walk_spans_inv [of ds False tx] by (simp add: src_ok_def)
qed

text \<open>C6: the traces partition the spans into trees. Every span is in exactly one trace; each trace
  starts with its agent root, contains the parent of every other span, lists the spans after the
  root in order of start, and numbers them by position.\<close>

theorem emit_traces_are_trees:
  "mset (concat (map tn_spans (so_turns (emit_spans tx rnd ds)))) = mset [0..<length (so_spans (emit_spans tx rnd ds))]
   \<and> list_all (trace_tree (so_spans (emit_spans tx rnd ds))) (so_turns (emit_spans tx rnd ds))"
proof -
  let ?w = "walk_spans tx ds" and ?so = "emit_spans tx rnd ds"
  note f = emit_spans_facts(1) [where tx = tx and ds = ds]
    emit_spans_facts(2-5) [where tx = tx and ds = ds and rnd = rnd]
  have pl: "inv_place ?w" and pa: "inv_parent ?w" using f(1) by (simp_all add: em_inv_def)
  have len: "length (so_spans ?so) = length (em_spans ?w)" using f(2) by (rule map_eq_imp_length_eq)
  have "trace_tree (so_spans ?so) (so_turns ?so ! t)" if "t < length (so_turns ?so)" for t
  proof (rule finished_trace_tree [OF _ f(2)])
    show "finished_turn (em_spans ?w) (so_spans ?so) (so_turns ?so ! t) (em_turns ?w ! t)"
      using f(3) that by (rule list_all2_nthD)
    have t: "t < length (em_turns ?w)" using that list_all2_lengthD [OF f(3)] by simp
    then show "\<forall>i\<in>set (tn_spans (em_turns ?w ! t)). i < length (em_spans ?w)" using place_bound [OF pl] by blast
    show "tn_spans (em_turns ?w ! t) \<noteq> []" using pl t by (simp add: inv_place_def)
    show "sp_parent (em_spans ?w ! root_at ?w t) = []" "sp_kind (em_spans ?w ! root_at ?w t) = span_kind_agent"
      "\<forall>i\<in>set (tl (tn_spans (em_turns ?w ! t))). sp_parent (em_spans ?w ! i)
         \<in> (\<lambda>i. sp_id (em_spans ?w ! i)) ` set (tn_spans (em_turns ?w ! t))"
      using pa t unfolding inv_parent_def turn_ids_def by blast+
  qed
  then have "list_all (trace_tree (so_spans ?so)) (so_turns ?so)" by (simp add: list_all_length)
  moreover have "mset (concat (map tn_spans (so_turns ?so))) = mset [0..<length (so_spans ?so)]"
    using finished_frame(4) [OF f(3)] pl len by (simp add: inv_place_def)
  ultimately show ?thesis by simp
qed

text \<open>links live where their ends are. A link listed on a trace has both ends in that trace, and
  the links of the set itself join different traces.\<close>

theorem emit_links_placed:
  "list_all (\<lambda>tn. list_all (\<lambda>l. ln_from_trace l = tn_trace_id tn \<and> ln_to_trace l = tn_trace_id tn) (tn_links tn))
     (so_turns (emit_spans tx rnd ds))
   \<and> list_all (\<lambda>l. ln_from_trace l \<noteq> ln_to_trace l) (so_links (emit_spans tx rnd ds))"
proof -
  let ?w = "walk_spans tx ds" and ?so = "emit_spans tx rnd ds"
  note f = emit_spans_facts(1) [where tx = tx and ds = ds]
    emit_spans_facts(2-5) [where tx = tx and ds = ds and rnd = rnd]
  have lk: "inv_links ?w" using f(1) by (simp add: em_inv_def)
  have "list_all (\<lambda>l. ln_from_trace l = tn_trace_id (so_turns ?so ! t) \<and> ln_to_trace l = tn_trace_id (so_turns ?so ! t))
      (tn_links (so_turns ?so ! t))" if "t < length (so_turns ?so)" for t
  proof -
    have t: "t < length (em_turns ?w)" using that list_all2_lengthD [OF f(3)] by simp
    then show ?thesis using lk map_eq_nth [OF finished_frame(1) [OF f(3)] t] map_eq_nth [OF finished_frame(2) [OF f(3)] t]
      unfolding inv_links_def list_all_iff by auto
  qed
  then show ?thesis using lk f(4) unfolding inv_links_def by (simp add: list_all_length)
qed

text \<open>The report counts what was emitted: traces, spans, spans by kind, links by kind, and
  synthetic traces, each of them marked once.\<close>

theorem emit_report_exact:
  "rp_traces (so_report (emit_spans tx rnd ds)) = int (length (so_turns (emit_spans tx rnd ds)))
   \<and> rp_spans (so_report (emit_spans tx rnd ds)) = int (length (so_spans (emit_spans tx rnd ds)))
   \<and> map_get (rp_span_kinds (so_report (emit_spans tx rnd ds))) k 0
       = int (length (filter (\<lambda>s. sp_kind s = k) (so_spans (emit_spans tx rnd ds))))
   \<and> map_get (rp_link_kinds (so_report (emit_spans tx rnd ds))) k 0
       = int (length (filter (\<lambda>l. ln_kind l = k) (so_links (emit_spans tx rnd ds) @
           concat (map tn_links (so_turns (emit_spans tx rnd ds))))))
   \<and> rp_synthetic (so_report (emit_spans tx rnd ds))
       = int (length (filter (\<lambda>tn. tn_synthetic tn \<noteq> []) (so_turns (emit_spans tx rnd ds))))"
proof -
  let ?w = "walk_spans tx ds" and ?so = "emit_spans tx rnd ds"
  note f = emit_spans_facts(1) [where tx = tx and ds = ds]
    emit_spans_facts(2-5) [where tx = tx and ds = ds and rnd = rnd]
  have rp: "inv_report ?w" using f(1) by (simp add: em_inv_def)
  have len: "length (so_spans ?so) = length (em_spans ?w)" "length (so_turns ?so) = length (em_turns ?w)"
    using map_eq_imp_length_eq [OF f(2)] list_all2_lengthD [OF f(3)] .
  have syn: "length (filter (\<lambda>tn. tn_synthetic tn \<noteq> []) (so_turns ?so)) = length (filter (\<lambda>tn. tn_synthetic tn \<noteq> []) (em_turns ?w))"
    by (rule filter_map_eq [OF finished_frame(3) [OF f(3)]])
  have kinds: "length (filter (\<lambda>s. sp_kind s = k) (so_spans ?so)) = length (filter (\<lambda>s. sp_kind s = k) (em_spans ?w))"
    by (rule core_kinds(1) [OF f(2)])
  show ?thesis using rp unfolding inv_report_def f(4,5) finished_frame(2) [OF f(3)] len syn kinds by simp
qed

text \<open>Emission dereferences no nil pointer. If no harness or session id of a source contains the
  key separator, every lookup of the walk that follows a pointer finds one.\<close>

theorem emit_no_nil:
  assumes "list_all (\<lambda>src. pipe_free (ss_session src)) (ds_sources ds)"
  shows "\<not> em_nil (walk_spans tx ds)"
  using walk_spans_inv [of ds True tx] assms
  by (simp add: src_ok_def list_all_iff em_inv_def inv_keys_def)

definition sample_set :: derived_set where
  "sample_set = finish_deriver (derive_all replay_externs ''p'' [Wire sample_raw])"

lemma emit_no_nil_witness:
  "call_sources sample_set \<noteq> [] \<and> \<not> em_nil (walk_spans (\<lambda>_. ''0'') sample_set)"
proof
  show "call_sources sample_set \<noteq> []" by code_simp
  have "list_all (\<lambda>src. pipe_free (ss_session src)) (ds_sources sample_set)" by code_simp
  then show "\<not> em_nil (walk_spans (\<lambda>_. ''0'') sample_set)"
    using emit_no_nil [of sample_set "\<lambda>_. ''0''"] by blast
qed

text \<open>A loop that overwrites its accumulator keeps the last match.\<close>

lemma fold_last_match:
  "fold (\<lambda>x a. if P x then f x else a) xs a = (case find P (rev xs) of None \<Rightarrow> a | Some x \<Rightarrow> f x)"
  by (induction xs arbitrary: a rule: rev_induct) (simp_all split: option.split)

lemma find_rev_last:
  "find P (rev xs) = Some x \<Longrightarrow> sorted_wrt (\<lambda>a b. fst a < (fst b :: nat)) xs \<Longrightarrow>
   x \<in> set xs \<and> P x \<and> (\<forall>y\<in>set xs. P y \<longrightarrow> fst y \<le> fst x)"
proof (induction xs rule: rev_induct)
  case (snoc y xs)
  show ?case
  proof (cases "P y")
    case True
    with snoc.prems show ?thesis by (fastforce simp: sorted_wrt_append)
  next
    case False
    with snoc show ?thesis by (auto simp: sorted_wrt_append)
  qed
qed simp

lemma request_nodes_sorted: "sorted_wrt (\<lambda>a b. fst a < fst b) (request_nodes ns src)"
proof -
  have "sorted_wrt (\<lambda>a b. fst a < fst b) (zip [0..<n] ys)" for n and ys :: "(derived_node \<times> bool) list"
    by (simp add: sorted_wrt_iff_nth_less)
  then show ?thesis by (simp add: request_nodes_def Let_def)
qed

definition fresh_reply :: "nat \<times> derived_node \<times> bool \<Rightarrow> bool" where
  "fresh_reply e \<longleftrightarrow> (case e of (i, d, new) \<Rightarrow> new \<and> dn_role d = ''assistant'')"

definition fresh_prompt_at :: "int \<Rightarrow> nat \<times> derived_node \<times> bool \<Rightarrow> bool" where
  "fresh_prompt_at b e \<longleftrightarrow> (case e of (i, d, new) \<Rightarrow> new \<and> b < int i \<and> genuine_prompt d)"

lemma last_fresh_assistant_find:
  "last_fresh_assistant_idx ns src = (case find fresh_reply (rev (request_nodes ns src)) of None \<Rightarrow> -1 | Some e \<Rightarrow> int (fst e))"
proof -
  have "(\<lambda>(i, d, new) l. if new \<and> dn_role d = ''assistant'' then int i else l)
      = (\<lambda>e l. if fresh_reply e then int (fst e) else l)"
    by (auto simp: fresh_reply_def fun_eq_iff)
  then show ?thesis unfolding last_fresh_assistant_idx_def by (simp only: fold_last_match)
qed

lemma fresh_genuine_prompt_find:
  "fresh_genuine_prompt ns src =
     map_option (\<lambda>e. fst (snd e)) (find (fresh_prompt_at (last_fresh_assistant_idx ns src)) (rev (request_nodes ns src)))"
proof -
  have "(\<lambda>(i, d, new) p. if \<not> new \<or> int i \<le> b then p else if genuine_prompt d then Some d else p)
      = (\<lambda>e p. if fresh_prompt_at b e then Some (fst (snd e)) else p)" for b
    by (auto simp: fresh_prompt_at_def fun_eq_iff)
  then show ?thesis unfolding fresh_genuine_prompt_def Let_def
    by (simp only: fold_last_match) (simp split: option.split)
qed

text \<open>a resumed conversation does not reopen old turns. The prompt that opens a trace is a node
  this call captured first, a human prompt, that comes after every freshly captured assistant
  reply of the request and is the last such prompt.\<close>

theorem prompt_after_replies:
  assumes "fresh_genuine_prompt ns src = Some d"
  shows "\<exists>i. (i, d, True) \<in> set (request_nodes ns src) \<and> genuine_prompt d
    \<and> (\<forall>(j, e, new)\<in>set (request_nodes ns src). new \<longrightarrow>
         (dn_role e = ''assistant'' \<longrightarrow> j < i) \<and> (genuine_prompt e \<longrightarrow> j \<le> i))"
proof -
  let ?b = "last_fresh_assistant_idx ns src" and ?rs = "request_nodes ns src"
  from assms obtain x where x: "find (fresh_prompt_at ?b) (rev ?rs) = Some x" "d = fst (snd x)"
    by (auto simp: fresh_genuine_prompt_find)
  note l = find_rev_last [OF x(1) request_nodes_sorted]
  obtain i where xi: "x = (i, d, True)" "?b < int i" "genuine_prompt d"
    using l x(2) by (cases x) (auto simp: fresh_prompt_at_def)
  have reply: "int j \<le> ?b" if "(j, e, True) \<in> set ?rs" "dn_role e = ''assistant''" for j e
  proof (cases "find fresh_reply (rev ?rs)")
    case None
    with that show ?thesis by (auto simp: find_None_iff fresh_reply_def)
  next
    case (Some y)
    have "fresh_reply (j, e, True)" using that by (simp add: fresh_reply_def)
    with find_rev_last [OF Some request_nodes_sorted] that(1) have "j \<le> fst y" by fastforce
    with Some show ?thesis by (simp add: last_fresh_assistant_find)
  qed
  have "j \<le> i" if "(j, e, True) \<in> set ?rs" "genuine_prompt e" for j e
  proof (cases "int j \<le> ?b")
    case False
    then have "fresh_prompt_at ?b (j, e, True)" using that by (simp add: fresh_prompt_at_def)
    with l that(1) xi(1) show ?thesis by fastforce
  qed (use xi(2) in simp)
  with reply xi l show ?thesis by (intro exI [where x = i]) fastforce
qed

text \<open>A resumed call: a replayed prompt and its replayed reply under fresh hashes, then the new
  prompt.\<close>

definition text_node :: "string \<Rightarrow> string \<Rightarrow> derived_node" where
  "text_node role txt =
     \<lparr>dn_node = new_node toy_digest (sample_bucket []\<lparr>b_role := role, b_content := [empty_block\<lparr>cb_type := ''text'', cb_text := txt\<rparr>]\<rparr>)
        None no_options,
      dn_session = \<lparr>harness_id = ''claude'', harness_session_id = ''s''\<rparr>, dn_captured_at = 5\<rparr>"

definition resumed_nodes :: "derived_node list" where
  "resumed_nodes = [text_node ''user'' ''old'', text_node ''assistant'' ''answer'', text_node ''user'' ''new'',
     text_node ''assistant'' ''reply'']"

definition resumed_source :: span_source where
  "resumed_source = \<lparr>ss_raw_turn_id = 1, ss_request_id = ''r'', ss_captured_at = 5, ss_kind = kind_main,
     ss_thread_id = [], ss_session = \<lparr>harness_id = ''claude'', harness_session_id = ''s''\<rparr>, ss_source = source_wire,
     ss_chain = [0, 1, 2, 3], ss_new = [True, True, True, True], ss_anchor = [], ss_turn_identity = []\<rparr>"

lemma prompt_after_replies_witness:
  "\<exists>i. (i, text_node ''user'' ''new'', True) \<in> set (request_nodes resumed_nodes resumed_source)
     \<and> (\<forall>(j, e, new)\<in>set (request_nodes resumed_nodes resumed_source). new \<longrightarrow> dn_role e = ''assistant'' \<longrightarrow> j < i)"
proof -
  have "fresh_genuine_prompt resumed_nodes resumed_source = Some (text_node ''user'' ''new'')" by code_simp
  from prompt_after_replies [OF this] show ?thesis by fast
qed

text \<open>a session's folded status never says abandoned, because its leaf is the closing response of
  the spine; it is unknown without one, and with one it is failed exactly when that response
  stopped on a failure, or nothing was shipped and more than half of the results were errors.\<close>

theorem session_status_cases:
  "st_derived_status (fold_session_status tools closing) =
     (case closing of
        None \<Rightarrow> status_unknown
      | Some s \<Rightarrow>
          (let reason = go_to_lower (go_trim_space (sp_stop_reason s));
               results = length (filter (\<lambda>s. sp_output s \<noteq> []) tools);
               errors = length (filter (\<lambda>s. sp_status s = ''error'') tools);
               shipped = list_ex (\<lambda>s. blocks_have_git_activity (sp_input s)) tools
           in if failing_stop reason \<or> (\<not> shipped \<and> 0 < results \<and> results < 2 * errors) then status_failed
              else if shipped \<or> reason \<in> set terminal_stops then status_completed
              else status_unknown))"
proof (cases closing)
  case None
  then show ?thesis by (simp add: fold_session_status_def determine_status_def)
next
  case (Some s)
  have "go_to_lower ''assistant'' = ''assistant''" by code_simp
  with Some show ?thesis
    by (simp add: fold_session_status_def determine_status_def Let_def)
qed

end
