(* ===== verification/DeriveQueue.thy ===== *)
theory DeriveQueue
  imports Prelude "HOL-Library.Word"
begin

text \<open>
  The dirty-session queue (\<open>pkg/storage/derive_queue.go\<close>,
  \<open>pkg/storage/postgres/derive_queue.go\<close> and the statements of
  \<open>queries/derive_queue.sql\<close> that its methods run) and the advisory-lock keys.

  A table is the list of its rows, in the order they were inserted; the primary key is the
  harness triple. \<open>CURRENT_TIMESTAMP\<close> is an argument. The driver-not-open and transport errors
  of the methods belong to the store interface of the worker (theory DeriveWorker); here are
  the effects of the statements. \<open>ORDER BY dirtied_at\<close> leaves the order of ties open; the model
  sorts stably. The interface that the worker's argument needs is the locale \<open>dirty_queue\<close>.
\<close>

unbundle bit_operations_syntax

subsection \<open>Organisation ids and lock keys\<close>

text \<open>\<open>pgtype.UUID\<close>; \<open>uuid.Parse\<close> and \<open>UUID.String\<close> are the parameters \<open>parse\<close> and \<open>render\<close>.\<close>

record pg_uuid =
  uuid_bytes :: string
  uuid_valid :: bool

definition nil_org_id :: pg_uuid where
  "nil_org_id = \<lparr>uuid_bytes = replicate 16 (CHR 0x00), uuid_valid = True\<rparr>"

definition org_id_from_string :: "(string \<Rightarrow> string option) \<Rightarrow> string \<Rightarrow> string + pg_uuid" where
  "org_id_from_string parse org =
     (if org = [] then Inr nil_org_id
      else case parse org of
             None \<Rightarrow> Inl (''parse org_id '' @ org)
           | Some b \<Rightarrow> Inr \<lparr>uuid_bytes = b, uuid_valid = True\<rparr>)"

definition uuid_string :: "(string \<Rightarrow> string) \<Rightarrow> pg_uuid \<Rightarrow> string" where
  "uuid_string render u = (if \<not> uuid_valid u then [] else render (uuid_bytes u))"

definition nil_uuid_text :: string where
  "nil_uuid_text = ''00000000-0000-0000-0000-000000000000''"

definition org_key_for_lookup :: "string \<Rightarrow> string" where
  "org_key_for_lookup org = (if org = nil_uuid_text then [] else org)"

definition org_display_key :: "string \<Rightarrow> string" where
  "org_display_key org = (if org = [] \<or> org = nil_uuid_text then ''default'' else org)"

text \<open>FNV-1a over 64-bit words, as \<open>hash/fnv\<close> computes it; the key is its bit pattern read as a
  signed number.\<close>

definition fnv64a :: "string \<Rightarrow> 64 word" where
  "fnv64a s = fold (\<lambda>c h. (h XOR word_of_nat (of_char c)) * 1099511628211) s 14695981039346656037"

definition lock_bytes :: "string \<Rightarrow> string \<Rightarrow> string \<Rightarrow> string" where
  "lock_bytes org h s = org @ [CHR 0x00] @ h @ [CHR 0x00] @ s"

definition derive_lock_key_raw :: "string \<Rightarrow> string \<Rightarrow> string \<Rightarrow> int" where
  "derive_lock_key_raw org h s = sint (fnv64a (lock_bytes org h s))"

definition derive_lock_key ::
  "(string \<Rightarrow> string option) \<Rightarrow> (string \<Rightarrow> string) \<Rightarrow> string \<Rightarrow> string \<Rightarrow> string \<Rightarrow> int"
where
  "derive_lock_key parse render org h s =
     derive_lock_key_raw
       (case org_id_from_string parse (org_key_for_lookup org) of
          Inl _ \<Rightarrow> org
        | Inr canon \<Rightarrow> uuid_string render canon) h s"

lemma derive_lock_key_default_tenant:
  "derive_lock_key parse render nil_uuid_text h s = derive_lock_key parse render [] h s"
  by (simp add: derive_lock_key_def org_key_for_lookup_def nil_uuid_text_def org_id_from_string_def)

lemma split_at_nul:
  "CHR 0x00 \<notin> set a \<Longrightarrow> CHR 0x00 \<notin> set b \<Longrightarrow> a @ CHR 0x00 # x = b @ CHR 0x00 # y \<Longrightarrow> a = b \<and> x = y"
  by (induction a arbitrary: b) (auto simp: Cons_eq_append_conv append_eq_Cons_conv)

lemma lock_bytes_inject:
  assumes "CHR 0x00 \<notin> set org" "CHR 0x00 \<notin> set h" "CHR 0x00 \<notin> set org'" "CHR 0x00 \<notin> set h'"
    and "lock_bytes org h s = lock_bytes org' h' s'"
  shows "org = org' \<and> h = h' \<and> s = s'"
proof -
  have eq: "org @ CHR 0x00 # (h @ CHR 0x00 # s) = org' @ CHR 0x00 # (h' @ CHR 0x00 # s')"
    using assms(5) by (simp add: lock_bytes_def)
  from split_at_nul [OF assms(1,3) eq] have "org = org'" and rest: "h @ CHR 0x00 # s = h' @ CHR 0x00 # s'" by simp_all
  with split_at_nul [OF assms(2,4) rest] show ?thesis by simp
qed

subsection \<open>The table\<close>

record derive_queue_entry =
  dq_org_id :: string
  dq_harness_id :: string
  dq_harness_session_id :: string
  dq_dirtied_at :: gotime
  dq_first_dirtied_at :: gotime

datatype harness_key = HKey (hk_org: string) (hk_harness: string) (hk_session: string)

definition dq_key :: "derive_queue_entry \<Rightarrow> harness_key" where
  "dq_key e = HKey (dq_org_id e) (dq_harness_id e) (dq_harness_session_id e)"

definition new_queue_row :: "gotime \<Rightarrow> harness_key \<Rightarrow> derive_queue_entry" where
  "new_queue_row now k = \<lparr>dq_org_id = hk_org k, dq_harness_id = hk_harness k, dq_harness_session_id = hk_session k,
     dq_dirtied_at = now, dq_first_dirtied_at = now\<rparr>"

record derive_queue_stats =
  qs_depth :: int
  qs_oldest_dirtied_at :: gotime

definition get_derive_dirty :: "harness_key \<Rightarrow> derive_queue_entry list \<Rightarrow> derive_queue_entry option" where
  "get_derive_dirty k q = find (\<lambda>e. dq_key e = k) q"

definition mark_derive_dirty :: "gotime \<Rightarrow> harness_key \<Rightarrow> derive_queue_entry list \<Rightarrow> derive_queue_entry list" where
  "mark_derive_dirty now k q =
     (if get_derive_dirty k q = None then q @ [new_queue_row now k]
      else map (\<lambda>e. if dq_key e = k then e\<lparr>dq_dirtied_at := now\<rparr> else e) q)"

definition list_derive_dirty ::
  "gotime \<Rightarrow> gotime \<Rightarrow> int \<Rightarrow> derive_queue_entry list \<Rightarrow> derive_queue_entry list"
where
  "list_derive_dirty dirtied_before first_dirtied_before limit q =
     take (nat limit) (sort_key dq_dirtied_at
       (filter (\<lambda>e. dq_dirtied_at e \<le> dirtied_before \<or> dq_first_dirtied_at e \<le> first_dirtied_before) q))"

definition clear_derive_dirty :: "derive_queue_entry \<Rightarrow> derive_queue_entry list \<Rightarrow> bool \<times> derive_queue_entry list" where
  "clear_derive_dirty e q =
     (let hit = (\<lambda>r. dq_key r = dq_key e \<and> dq_dirtied_at r = dq_dirtied_at e)
      in (list_ex hit q, filter (\<lambda>r. \<not> hit r) q))"

text \<open>The sweep inserts the sessions of the raw layer that are active and not queued yet; the
  argument lists the distinct keyed sessions that the statement's selection yields.\<close>

definition sweep_derive_dirty ::
  "gotime \<Rightarrow> harness_key list \<Rightarrow> derive_queue_entry list \<Rightarrow> int \<times> derive_queue_entry list"
where
  "sweep_derive_dirty now active q =
     (let fresh = filter (\<lambda>k. get_derive_dirty k q = None) (remdups active)
      in (int (length fresh), q @ map (new_queue_row now) fresh))"

definition queue_stats :: "derive_queue_entry list \<Rightarrow> derive_queue_stats" where
  "queue_stats q = \<lparr>qs_depth = int (length q),
     qs_oldest_dirtied_at = (case q of [] \<Rightarrow> 0 | _ \<Rightarrow> Min (set (map dq_dirtied_at q)))\<rparr>"

subsection \<open>The primary key\<close>

definition queue_ok :: "derive_queue_entry list \<Rightarrow> bool" where
  "queue_ok q \<longleftrightarrow> distinct (map dq_key q)"

lemma dq_key_new_row [simp]: "dq_key (new_queue_row now k) = k"
  by (simp add: dq_key_def new_queue_row_def)

lemma dq_key_bump [simp]: "dq_key (e\<lparr>dq_dirtied_at := t\<rparr>) = dq_key e"
  by (simp add: dq_key_def)

lemma get_derive_dirty_None: "get_derive_dirty k q = None \<longleftrightarrow> k \<notin> dq_key ` set q"
  by (auto simp: get_derive_dirty_def find_None_iff)

lemma get_derive_dirty_Some: "queue_ok q \<Longrightarrow> get_derive_dirty k q = Some e \<longleftrightarrow> e \<in> set q \<and> dq_key e = k"
proof (induction q)
  case (Cons r q)
  then show ?case by (cases "dq_key r = k") (auto simp: get_derive_dirty_def queue_ok_def rev_image_eqI)
qed (simp add: get_derive_dirty_def)

lemma get_derive_dirtyD: "get_derive_dirty k q = Some e \<Longrightarrow> e \<in> set q \<and> dq_key e = k"
  by (auto simp: get_derive_dirty_def find_Some_iff)

lemma bump_keys: "map dq_key (map (\<lambda>e. if dq_key e = k then e\<lparr>dq_dirtied_at := now\<rparr> else e) q) = map dq_key q"
  by (induction q) auto

lemma queue_ok_mark: "queue_ok q \<Longrightarrow> queue_ok (mark_derive_dirty now k q)"
  unfolding mark_derive_dirty_def queue_ok_def
  by (simp add: get_derive_dirty_None bump_keys image_iff del: map_map)

lemma queue_ok_clear: "queue_ok q \<Longrightarrow> queue_ok (snd (clear_derive_dirty e q))"
  by (simp add: clear_derive_dirty_def queue_ok_def distinct_map_filter)

lemma queue_ok_sweep: "queue_ok q \<Longrightarrow> queue_ok (snd (sweep_derive_dirty now ks q))"
  by (auto simp: sweep_derive_dirty_def queue_ok_def Let_def get_derive_dirty_None distinct_map inj_on_def
      dest: arg_cong [where f = dq_key])

subsection \<open>The interface\<close>

text \<open>What the worker's clients rely on: a lookup after each statement.\<close>

locale dirty_queue =
  fixes ok :: "'q \<Rightarrow> bool"
    and lookup :: "'k \<Rightarrow> 'q \<Rightarrow> 'e option"
    and stamp :: "'e \<Rightarrow> int"
    and key_of :: "'e \<Rightarrow> 'k"
    and mark :: "int \<Rightarrow> 'k \<Rightarrow> 'q \<Rightarrow> 'q"
    and clear :: "'e \<Rightarrow> 'q \<Rightarrow> bool \<times> 'q"
    and sweep :: "int \<Rightarrow> 'k list \<Rightarrow> 'q \<Rightarrow> int \<times> 'q"
  assumes lookup_key: "lookup k q = Some e \<Longrightarrow> key_of e = k"
    and mark_self: "ok q \<Longrightarrow> \<exists>e. lookup k (mark t k q) = Some e \<and> stamp e = t"
    and mark_other: "ok q \<Longrightarrow> k' \<noteq> k \<Longrightarrow> lookup k' (mark t k q) = lookup k' q"
    and clear_self: "ok q \<Longrightarrow> lookup (key_of e) (snd (clear e q)) =
          (case lookup (key_of e) q of None \<Rightarrow> None | Some r \<Rightarrow> if stamp r = stamp e then None else Some r)"
    and clear_result: "ok q \<Longrightarrow> fst (clear e q) \<longleftrightarrow> (\<exists>r. lookup (key_of e) q = Some r \<and> stamp r = stamp e)"
    and clear_other: "ok q \<Longrightarrow> k \<noteq> key_of e \<Longrightarrow> lookup k (snd (clear e q)) = lookup k q"
    and sweep_queued: "ok q \<Longrightarrow> lookup k q = Some e \<Longrightarrow> lookup k (snd (sweep t ks q)) = Some e"
    and sweep_new: "ok q \<Longrightarrow> lookup k q = None \<Longrightarrow> lookup k (snd (sweep t ks q)) =
          (if k \<in> set ks then lookup k (mark t k q) else None)"
    and ok_mark: "ok q \<Longrightarrow> ok (mark t k q)"
    and ok_clear: "ok q \<Longrightarrow> ok (snd (clear e q))"
    and ok_sweep: "ok q \<Longrightarrow> ok (snd (sweep t ks q))"
begin

lemma stale_clear:
  assumes "ok q" "lookup (key_of e) q = Some r" "stamp r \<noteq> stamp e"
  shows "\<not> fst (clear e q) \<and> lookup (key_of e) (snd (clear e q)) = Some r"
  using assms by (simp add: clear_self clear_result)

lemma marked_survives_clear:
  assumes "ok q" "t \<noteq> stamp e"
  shows "\<not> fst (clear e (mark t (key_of e) q)) \<and> lookup (key_of e) (snd (clear e (mark t (key_of e) q))) \<noteq> None"
proof -
  obtain r where r: "lookup (key_of e) (mark t (key_of e) q) = Some r" "stamp r = t"
    using mark_self [OF assms(1)] by blast
  with stale_clear [OF ok_mark [OF assms(1)] r(1)] assms(2) show ?thesis by simp
qed

lemma mark_stays: "ok q \<Longrightarrow> lookup k q \<noteq> None \<Longrightarrow> lookup k (mark t k' q) \<noteq> None"
  using mark_self [of q k' t] mark_other [of q k k' t] by (cases "k = k'") auto

lemma lookup_mark_cases:
  assumes "ok q" "lookup k (mark t k' q) = Some e"
  shows "(k = k' \<and> stamp e = t) \<or> (k \<noteq> k' \<and> lookup k q = Some e)"
  using assms mark_self [of q k' t] mark_other [of q k k' t] by (cases "k = k'") auto

lemma lookup_clear_cases:
  assumes "ok q" "lookup k (snd (clear e q)) = Some r"
  shows "lookup k q = Some r"
  using assms clear_self [of q e] clear_other [of q k e]
  by (cases "k = key_of e") (auto split: option.splits if_splits)

lemma lookup_clear_gone:
  assumes "ok q" "lookup k q = Some r" "lookup k (snd (clear e q)) = None"
  shows "k = key_of e \<and> stamp r = stamp e"
  using assms clear_self [of q e] clear_other [of q k e]
  by (cases "k = key_of e") (auto split: option.splits if_splits)

lemma lookup_sweep_cases:
  assumes "ok q" "lookup k (snd (sweep t ks q)) = Some e"
  shows "lookup k q = Some e \<or> (lookup k q = None \<and> stamp e = t)"
proof (cases "lookup k q")
  case None
  with assms show ?thesis using sweep_new [OF assms(1) None, of t ks] mark_self [OF assms(1), of k t]
    by (auto split: if_splits)
next
  case (Some r)
  with assms show ?thesis using sweep_queued by fastforce
qed

end

lemma get_map_bump:
  "get_derive_dirty k' (map (\<lambda>e. if dq_key e = k then e\<lparr>dq_dirtied_at := now\<rparr> else e) q) =
   (case get_derive_dirty k' q of None \<Rightarrow> None
    | Some e \<Rightarrow> Some (if k' = k then e\<lparr>dq_dirtied_at := now\<rparr> else e))"
  by (induction q) (auto simp: get_derive_dirty_def)

lemma get_append_row:
  "get_derive_dirty k (q @ r) = (case get_derive_dirty k q of None \<Rightarrow> get_derive_dirty k r | Some e \<Rightarrow> Some e)"
  by (induction q) (auto simp: get_derive_dirty_def)

lemma get_mark:
  "get_derive_dirty k' (mark_derive_dirty now k q) =
     (if k' \<noteq> k then get_derive_dirty k' q
      else case get_derive_dirty k q of None \<Rightarrow> Some (new_queue_row now k)
           | Some e \<Rightarrow> Some (e\<lparr>dq_dirtied_at := now\<rparr>))"
  unfolding mark_derive_dirty_def
  by (auto simp: get_map_bump get_append_row split: option.split) (auto simp: get_derive_dirty_def)

lemma get_new_rows:
  "get_derive_dirty k (map (new_queue_row now) ks) = (if k \<in> set ks then Some (new_queue_row now k) else None)"
  by (induction ks) (auto simp: get_derive_dirty_def)

lemma get_sweep:
  "get_derive_dirty k (snd (sweep_derive_dirty now ks q)) =
     (case get_derive_dirty k q of None \<Rightarrow> if k \<in> set ks then Some (new_queue_row now k) else None
      | Some e \<Rightarrow> Some e)"
  by (simp add: sweep_derive_dirty_def Let_def get_append_row get_new_rows split: option.split)

lemma get_clear:
  assumes "queue_ok q"
  shows "get_derive_dirty k (snd (clear_derive_dirty e q)) =
     (case get_derive_dirty k q of None \<Rightarrow> None
      | Some r \<Rightarrow> if k = dq_key e \<and> dq_dirtied_at r = dq_dirtied_at e then None else Some r)"
  using assms
proof (induction q)
  case (Cons r q)
  then have "get_derive_dirty (dq_key r) q = None" and "queue_ok q"
    by (auto simp: queue_ok_def get_derive_dirty_None)
  with Cons.IH show ?case
    by (auto simp: get_derive_dirty_def clear_derive_dirty_def Let_def split: option.split)
qed (simp add: get_derive_dirty_def clear_derive_dirty_def)

lemma clear_hit:
  assumes "queue_ok q"
  shows "fst (clear_derive_dirty e q) \<longleftrightarrow> (\<exists>r. get_derive_dirty (dq_key e) q = Some r \<and> dq_dirtied_at r = dq_dirtied_at e)"
  using get_derive_dirty_Some [OF assms] by (auto simp: clear_derive_dirty_def Let_def list_ex_iff)

interpretation dq: dirty_queue queue_ok get_derive_dirty dq_dirtied_at dq_key
  mark_derive_dirty clear_derive_dirty sweep_derive_dirty
proof unfold_locales
  fix q :: "derive_queue_entry list" and k k' :: harness_key and t :: int
    and e :: derive_queue_entry and ks :: "harness_key list"
  show "get_derive_dirty k q = Some e \<Longrightarrow> dq_key e = k" by (simp add: get_derive_dirtyD)
  show "queue_ok q \<Longrightarrow> \<exists>e. get_derive_dirty k (mark_derive_dirty t k q) = Some e \<and> dq_dirtied_at e = t"
    by (auto simp: get_mark new_queue_row_def split: option.split)
  show "queue_ok q \<Longrightarrow> k' \<noteq> k \<Longrightarrow> get_derive_dirty k' (mark_derive_dirty t k q) = get_derive_dirty k' q"
    by (simp add: get_mark)
  show "queue_ok q \<Longrightarrow> get_derive_dirty k q = None \<Longrightarrow> get_derive_dirty k (snd (sweep_derive_dirty t ks q)) =
          (if k \<in> set ks then get_derive_dirty k (mark_derive_dirty t k q) else None)"
    by (simp add: get_sweep get_mark)
qed (auto simp: get_clear clear_hit get_sweep queue_ok_mark queue_ok_clear queue_ok_sweep
      split: option.split if_splits)

text \<open>A mark in the same instant as the one the worker read is not seen by the conditional clear:
  the guard compares the stamps, and \<open>CURRENT_TIMESTAMP\<close> has microseconds.\<close>

lemma same_instant_mark_cleared:
  assumes "queue_ok q" "get_derive_dirty k q = Some e"
  shows "get_derive_dirty k (snd (clear_derive_dirty e (mark_derive_dirty (dq_dirtied_at e) k q))) = None"
proof -
  have "dq_key e = k" using assms(2) by (simp add: get_derive_dirtyD)
  with assms show ?thesis by (simp add: get_clear queue_ok_mark get_mark)
qed

text \<open>The first mark survives re-marks, which bounds the wait of a session that never settles.\<close>

lemma first_mark_survives:
  "get_derive_dirty k q = Some e \<Longrightarrow>
   \<exists>r. get_derive_dirty k (mark_derive_dirty t k' q) = Some r \<and> dq_first_dirtied_at r = dq_first_dirtied_at e"
  by (cases "k = k'") (auto simp: get_mark)

lemma listed_iff_due:
  "e \<in> set (list_derive_dirty c l (int (length q)) q) \<longleftrightarrow>
     e \<in> set q \<and> (dq_dirtied_at e \<le> c \<or> dq_first_dirtied_at e \<le> l)"
proof -
  have "length (filter (\<lambda>e. dq_dirtied_at e \<le> c \<or> dq_first_dirtied_at e \<le> l) q) \<le> length q"
    by (rule length_filter_le)
  then show ?thesis unfolding list_derive_dirty_def by (simp add: take_all)
qed

lemma list_derive_dirty_sorted: "sorted (map dq_dirtied_at (list_derive_dirty c l n q))"
  unfolding list_derive_dirty_def by (simp add: sorted_wrt_take flip: take_map)

lemma list_derive_dirty_sub: "set (list_derive_dirty c l n q) \<subseteq> set q"
  unfolding list_derive_dirty_def using set_take_subset by fastforce

end
