(* ===== verification/DeriveWorker.thy ===== *)
theory DeriveWorker
  imports DeriveQueue Deriver
begin

text \<open>
  The derive worker (\<open>pkg/derive/worker/worker.go\<close>): configuration defaults, the jittered
  exponential back-off, one poll of the dirty queue, the derivation of one session under its
  advisory lock, the sweep, and the loop of \<open>Run\<close>.

  The \<open>Store\<close> interface, the clock, the run context and the random source are the fields of
  the record \<open>runtime\<close>, functions on a state of any type; a call may change that state in any
  way, so every concurrent effect and every failure is covered. The goroutine that drains after
  cancellation only decides when store calls start to fail, which is such an effect. Log lines
  are not modelled; metrics are. The second half composes the worker with the queue of theory
  DeriveQueue: a transition system of workers, raw turns and sweeps.
\<close>

subsection \<open>Configuration\<close>

definition millisecond :: duration where "millisecond = 1000000"
definition second :: duration where "second = 1000000000"

definition default_poll_interval :: duration where "default_poll_interval = 5 * second"
definition default_debounce :: duration where "default_debounce = 20 * second"
definition default_max_derive_lag :: duration where "default_max_derive_lag = 45 * second"
definition default_sweep_interval :: duration where "default_sweep_interval = 3600 * second"
definition default_page_size :: int where "default_page_size = 50"
definition default_max_poll_backoff :: duration where "default_max_poll_backoff = 30 * second"
definition default_drain_timeout :: duration where "default_drain_timeout = 30 * second"
definition default_sweep_window :: duration where "default_sweep_window = 24 * 3600 * second"

record worker_config =
  wc_project :: string
  wc_poll_interval :: duration
  wc_debounce :: duration
  wc_sweep_interval :: duration
  wc_max_derive_lag :: duration
  wc_sweep_window :: duration
  wc_page_size :: int
  wc_max_poll_backoff :: duration
  wc_drain_timeout :: duration

definition positive_or :: "int \<Rightarrow> int \<Rightarrow> int" where
  "positive_or d x = (if x \<le> 0 then d else x)"

definition with_defaults :: "worker_config \<Rightarrow> worker_config" where
  "with_defaults c = c\<lparr>
     wc_poll_interval := positive_or default_poll_interval (wc_poll_interval c),
     wc_debounce := positive_or default_debounce (wc_debounce c),
     wc_sweep_interval := positive_or default_sweep_interval (wc_sweep_interval c),
     wc_sweep_window := (if wc_sweep_window c = 0 then default_sweep_window else wc_sweep_window c),
     wc_page_size := positive_or default_page_size (wc_page_size c),
     wc_max_poll_backoff := positive_or default_max_poll_backoff (wc_max_poll_backoff c),
     wc_drain_timeout := positive_or default_drain_timeout (wc_drain_timeout c)\<rparr>"

definition max_derive_lag :: "worker_config \<Rightarrow> duration" where
  "max_derive_lag c = (if 0 < wc_max_derive_lag c then wc_max_derive_lag c else default_max_derive_lag)"

lemma with_defaults_idem: "with_defaults (with_defaults c) = with_defaults c"
  by (simp add: with_defaults_def positive_or_def default_poll_interval_def default_debounce_def
      default_sweep_interval_def default_page_size_def default_max_poll_backoff_def
      default_drain_timeout_def default_sweep_window_def second_def)

lemma with_defaults_positive:
  "0 < wc_poll_interval (with_defaults c)" "0 < wc_debounce (with_defaults c)"
  "0 < wc_page_size (with_defaults c)" "0 < wc_max_poll_backoff (with_defaults c)"
  by (simp_all add: with_defaults_def positive_or_def default_poll_interval_def default_debounce_def
      default_page_size_def default_max_poll_backoff_def second_def)

subsection \<open>Back-off\<close>

text \<open>The loop from 1 to \<open>failures\<close>: at most \<open>failures - 1\<close> doublings, each wrapping at 64 bits.\<close>

fun double_until :: "duration \<Rightarrow> nat \<Rightarrow> duration \<Rightarrow> duration" where
  "double_until max_delay 0 delay = delay"
| "double_until max_delay (Suc n) delay =
     (if delay < max_delay then double_until max_delay n (wrap64 (delay * 2)) else delay)"

text \<open>\<open>rand.N\<close> panics on an argument that is not positive: the result is \<open>None\<close> then. \<open>draw\<close> is
  the number it returns otherwise.\<close>

definition backoff_half :: "duration \<Rightarrow> duration \<Rightarrow> int \<Rightarrow> duration" where
  "backoff_half base max_delay failures =
     (let delay = double_until max_delay (nat (failures - 1)) base
      in go_quot (if max_delay < delay then max_delay else delay) 2)"

definition backoff_delay :: "(int \<Rightarrow> int) \<Rightarrow> duration \<Rightarrow> duration \<Rightarrow> int \<Rightarrow> duration option" where
  "backoff_delay draw base max_delay failures =
     (let half = backoff_half base max_delay failures
      in if half + 1 \<le> 0 then None else Some (half + draw (half + 1)))"

subsection \<open>The worker\<close>

record worker_metrics =
  wm_derives :: "string \<Rightarrow> int option"
  wm_requeued :: int
  wm_poll_errors :: int
  wm_consecutive_failures :: int
  wm_queue_depth :: int
  wm_derive_lag :: duration
  wm_sweeps :: "string \<Rightarrow> int option"
  wm_sweep_enqueued :: int
  wm_unknown_calls :: int
  wm_parse_failures :: int
  wm_durations :: "duration list"

definition new_metrics :: worker_metrics where
  "new_metrics = \<lparr>wm_derives = Map.empty, wm_requeued = 0, wm_poll_errors = 0, wm_consecutive_failures = 0,
     wm_queue_depth = 0, wm_derive_lag = 0, wm_sweeps = Map.empty, wm_sweep_enqueued = 0,
     wm_unknown_calls = 0, wm_parse_failures = 0, wm_durations = []\<rparr>"

definition result_ok :: string where "result_ok = ''ok''"
definition result_error :: string where "result_error = ''error''"
definition result_locked :: string where "result_locked = ''locked''"
definition result_skipped :: string where "result_skipped = ''skipped''"

lemmas result_defs = result_ok_def result_error_def result_locked_def result_skipped_def

definition count_derive :: "string \<Rightarrow> worker_metrics \<Rightarrow> worker_metrics" where
  "count_derive l m = m\<lparr>wm_derives := map_incr (wm_derives m) l\<rparr>"

definition count_sweep :: "string \<Rightarrow> worker_metrics \<Rightarrow> worker_metrics" where
  "count_sweep l m = m\<lparr>wm_sweeps := map_incr (wm_sweeps m) l\<rparr>"

record worker =
  wk_cfg :: worker_config
  wk_metrics :: worker_metrics
  wk_failures :: int
  wk_first_failure_at :: gotime

definition new_worker :: "worker_config \<Rightarrow> worker_metrics option \<Rightarrow> worker" where
  "new_worker cfg m = \<lparr>wk_cfg = with_defaults cfg,
     wk_metrics = (case m of None \<Rightarrow> new_metrics | Some x \<Rightarrow> x),
     wk_failures = 0, wk_first_failure_at = 0\<rparr>"

datatype worker_error =
  LockError harness_key string
| RereadError harness_key string
| ClearError harness_key string
| QueueError string

record 's runtime =
  rt_now :: "'s \<Rightarrow> gotime \<times> 's"
  rt_done :: "'s \<Rightarrow> bool \<times> 's"
  rt_rand :: "int \<Rightarrow> 's \<Rightarrow> int \<times> 's"
  rt_list :: "gotime \<Rightarrow> gotime \<Rightarrow> int \<Rightarrow> 's \<Rightarrow> (string + derive_queue_entry list) \<times> 's"
  rt_get :: "harness_key \<Rightarrow> 's \<Rightarrow> (string + derive_queue_entry option) \<times> 's"
  rt_clear :: "derive_queue_entry \<Rightarrow> 's \<Rightarrow> (string + bool) \<times> 's"
  rt_sweep :: "gotime \<Rightarrow> 's \<Rightarrow> (string + int) \<times> 's"
  rt_stats :: "'s \<Rightarrow> (string + derive_queue_stats) \<times> 's"
  rt_try_lock :: "harness_key \<Rightarrow> 's \<Rightarrow> (string + bool) \<times> 's"
  rt_release :: "harness_key \<Rightarrow> 's \<Rightarrow> 's"
  rt_rederive :: "string \<Rightarrow> harness_key \<Rightarrow> 's \<Rightarrow> (string + rederive_report) \<times> 's"

definition poll_failed :: "'s runtime \<Rightarrow> worker \<Rightarrow> 's \<Rightarrow> duration option \<times> worker \<times> 's" where
  "poll_failed R wk s =
     (let (first, s1) = (if wk_failures wk = 0 then rt_now R s else (wk_first_failure_at wk, s));
          n = wk_failures wk + 1;
          m = wk_metrics wk;
          wk1 = wk\<lparr>wk_first_failure_at := first, wk_failures := n,
            wk_metrics := m\<lparr>wm_poll_errors := wm_poll_errors m + 1, wm_consecutive_failures := n\<rparr>\<rparr>;
          half = backoff_half (wc_poll_interval (wk_cfg wk)) (wc_max_poll_backoff (wk_cfg wk)) n
      in if half + 1 \<le> 0 then (None, wk1, s1)
         else let (r, s2) = rt_rand R (half + 1) s1
              in (backoff_delay (\<lambda>_. r) (wc_poll_interval (wk_cfg wk)) (wc_max_poll_backoff (wk_cfg wk)) n, wk1, s2))"

definition poll_recovered :: "worker \<Rightarrow> worker" where
  "poll_recovered wk =
     (if wk_failures wk = 0 then wk
      else wk\<lparr>wk_failures := 0, wk_metrics := (wk_metrics wk)\<lparr>wm_consecutive_failures := 0\<rparr>\<rparr>)"

subsection \<open>One session\<close>

definition entry_due :: "gotime \<Rightarrow> gotime \<Rightarrow> derive_queue_entry \<Rightarrow> bool" where
  "entry_due cutoff lag_cutoff cur \<longleftrightarrow>
     dq_dirtied_at cur \<le> cutoff \<or> (dq_first_dirtied_at cur \<noteq> 0 \<and> dq_first_dirtied_at cur \<le> lag_cutoff)"

definition note_report :: "rederive_report \<Rightarrow> duration \<Rightarrow> bool \<Rightarrow> worker_metrics \<Rightarrow> worker_metrics" where
  "note_report rep took cleared m =
     (let m1 = count_derive result_ok m;
          m2 = m1\<lparr>wm_durations := wm_durations m1 @ [took],
            wm_unknown_calls := wm_unknown_calls m1 + map_get (rr_call_kinds rep) kind_unknown 0,
            wm_parse_failures := wm_parse_failures m1 +
              (rr_raw_turns rep - rr_parsed_turns rep - rr_raw_only_turns rep)\<rparr>
      in if cleared then m2 else m2\<lparr>wm_requeued := wm_requeued m2 + 1\<rparr>)"

definition derive_entry ::
  "'s runtime \<Rightarrow> string \<Rightarrow> derive_queue_entry \<Rightarrow> worker_metrics \<Rightarrow> 's \<Rightarrow> (worker_error + bool) \<times> worker_metrics \<times> 's"
where
  "derive_entry R project cur m s =
     (let (start, s1) = rt_now R s
      in case rt_rederive R project (dq_key cur) s1 of
           (Inl _, s2) \<Rightarrow> (Inr False, count_derive result_error m, s2)
         | (Inr rep, s2) \<Rightarrow>
             (case rt_clear R cur s2 of
                (Inl err, s3) \<Rightarrow> (Inl (ClearError (dq_key cur) err), count_derive result_error m, s3)
              | (Inr cleared, s3) \<Rightarrow>
                  (let (finish, s4) = rt_now R s3
                   in (Inr True, note_report rep (time_sub finish start) cleared m, s4))))"

definition process_locked ::
  "'s runtime \<Rightarrow> string \<Rightarrow> harness_key \<Rightarrow> gotime \<Rightarrow> gotime \<Rightarrow> worker_metrics \<Rightarrow> 's
     \<Rightarrow> (worker_error + bool) \<times> worker_metrics \<times> 's"
where
  "process_locked R project k cutoff lag_cutoff m s =
     (case rt_get R k s of
        (Inl err, s1) \<Rightarrow> (Inl (RereadError k err), count_derive result_error m, s1)
      | (Inr None, s1) \<Rightarrow> (Inr False, count_derive result_skipped m, s1)
      | (Inr (Some cur), s1) \<Rightarrow>
          (if entry_due cutoff lag_cutoff cur then derive_entry R project cur m s1
           else (Inr False, count_derive result_skipped m, s1)))"

definition process_entry ::
  "'s runtime \<Rightarrow> string \<Rightarrow> derive_queue_entry \<Rightarrow> gotime \<Rightarrow> gotime \<Rightarrow> worker_metrics \<Rightarrow> 's
     \<Rightarrow> (worker_error + bool) \<times> worker_metrics \<times> 's"
where
  "process_entry R project e cutoff lag_cutoff m s =
     (case rt_try_lock R (dq_key e) s of
        (Inl err, s1) \<Rightarrow> (Inl (LockError (dq_key e) err), count_derive result_error m, s1)
      | (Inr False, s1) \<Rightarrow> (Inr False, count_derive result_locked m, s1)
      | (Inr True, s1) \<Rightarrow>
          (let (r, m1, s2) = process_locked R project (dq_key e) cutoff lag_cutoff m s1
           in (r, m1, rt_release R (dq_key e) s2)))"

subsection \<open>One poll\<close>

fun poll_entries ::
  "'s runtime \<Rightarrow> string \<Rightarrow> gotime \<Rightarrow> gotime \<Rightarrow> derive_queue_entry list \<Rightarrow> int \<Rightarrow> worker_metrics \<Rightarrow> 's
     \<Rightarrow> (int \<times> worker_error option) \<times> worker_metrics \<times> 's"
where
  "poll_entries R project cutoff lag_cutoff [] derived m s = ((derived, None), m, s)"
| "poll_entries R project cutoff lag_cutoff (e # es) derived m s =
     (let (stop, s1) = rt_done R s
      in if stop then ((derived, None), m, s1)
         else case process_entry R project e cutoff lag_cutoff m s1 of
                (Inl err, m2, s2) \<Rightarrow> ((derived, Some err), m2, s2)
              | (Inr ok, m2, s2) \<Rightarrow>
                  poll_entries R project cutoff lag_cutoff es (if ok then derived + 1 else derived) m2 s2)"

definition note_stats :: "derive_queue_stats \<Rightarrow> gotime \<Rightarrow> worker_metrics \<Rightarrow> worker_metrics" where
  "note_stats st now m = m\<lparr>wm_queue_depth := qs_depth st,
     wm_derive_lag := (if 0 < qs_depth st \<and> qs_oldest_dirtied_at st \<noteq> 0
                       then time_sub now (qs_oldest_dirtied_at st) else 0)\<rparr>"

definition list_and_derive ::
  "'s runtime \<Rightarrow> worker_config \<Rightarrow> worker_metrics \<Rightarrow> 's \<Rightarrow> (int \<times> worker_error option) \<times> worker_metrics \<times> 's"
where
  "list_and_derive R cfg m s =
     (let (now1, s1) = rt_now R s;
          (now2, s2) = rt_now R s1;
          cutoff = now1 - wc_debounce cfg;
          lag_cutoff = now2 - max_derive_lag cfg
      in case rt_list R cutoff lag_cutoff (wc_page_size cfg) s2 of
           (Inl err, s3) \<Rightarrow> ((0, Some (QueueError err)), m, s3)
         | (Inr entries, s3) \<Rightarrow> poll_entries R (wc_project cfg) cutoff lag_cutoff entries 0 m s3)"

definition run_poll ::
  "'s runtime \<Rightarrow> worker_config \<Rightarrow> worker_metrics \<Rightarrow> 's \<Rightarrow> (int \<times> worker_error option) \<times> worker_metrics \<times> 's"
where
  "run_poll R cfg m s =
     (let (stop, s1) = rt_done R s
      in if stop then ((0, None), m, s1)
         else case rt_stats R s1 of
                (Inl err, s2) \<Rightarrow> ((0, Some (QueueError err)), m, s2)
              | (Inr st, s2) \<Rightarrow>
                  (let (now, s3) = (if 0 < qs_depth st \<and> qs_oldest_dirtied_at st \<noteq> 0 then rt_now R s2 else (0, s2))
                   in list_and_derive R cfg (note_stats st now m) s3))"

text \<open>\<open>Ready\<close>: the queue's statistics can be read.\<close>

definition worker_ready :: "'s runtime \<Rightarrow> 's \<Rightarrow> string option \<times> 's" where
  "worker_ready R s = (case rt_stats R s of (Inl err, s1) \<Rightarrow> (Some err, s1) | (Inr _, s1) \<Rightarrow> (None, s1))"

subsection \<open>The sweep and the loop\<close>

definition run_sweep :: "'s runtime \<Rightarrow> worker_config \<Rightarrow> worker_metrics \<Rightarrow> 's \<Rightarrow> worker_metrics \<times> 's" where
  "run_sweep R cfg m s =
     (let (since, s1) = (if 0 < wc_sweep_window cfg
                         then (let (now, s') = rt_now R s in (now - wc_sweep_window cfg, s')) else (0, s))
      in case rt_sweep R since s1 of
           (Inl _, s2) \<Rightarrow> (let (stop, s3) = rt_done R s2
                          in (if stop then m else count_sweep result_error m, s3))
         | (Inr n, s2) \<Rightarrow> ((count_sweep result_ok m)\<lparr>wm_sweep_enqueued := wm_sweep_enqueued m + n\<rparr>, s2))"

text \<open>\<open>Run\<close> as a fold over what its \<open>select\<close> receives. \<open>None\<close> is the panic of \<open>rand.N\<close>; the list
  holds the delays to which the poll timer was reset.\<close>

datatype worker_event = Poll_due | Sweep_due | Ctx_done

definition on_poll :: "'s runtime \<Rightarrow> worker \<Rightarrow> 's \<Rightarrow> (duration \<times> worker \<times> 's) option" where
  "on_poll R wk s =
     (let ((_, err), m, s1) = run_poll R (wk_cfg wk) (wk_metrics wk) s;
          wk1 = wk\<lparr>wk_metrics := m\<rparr>;
          (stop, s2) = rt_done R s1
      in if stop then Some (wc_poll_interval (wk_cfg wk), wk1, s2)
         else case err of
                None \<Rightarrow> Some (wc_poll_interval (wk_cfg wk), poll_recovered wk1, s2)
              | Some _ \<Rightarrow>
                  (case poll_failed R wk1 s2 of
                     (None, _, _) \<Rightarrow> None
                   | (Some d, wk2, s3) \<Rightarrow> Some (d, wk2, s3)))"

fun run_loop :: "'s runtime \<Rightarrow> worker_event list \<Rightarrow> duration list \<Rightarrow> worker \<Rightarrow> 's \<Rightarrow> (duration list \<times> worker \<times> 's) option" where
  "run_loop R [] delays wk s = Some (delays, wk, s)"
| "run_loop R (Ctx_done # _) delays wk s = Some (delays, wk, s)"
| "run_loop R (Sweep_due # evs) delays wk s =
     (let (m, s1) = run_sweep R (wk_cfg wk) (wk_metrics wk) s
      in run_loop R evs delays (wk\<lparr>wk_metrics := m\<rparr>) s1)"
| "run_loop R (Poll_due # evs) delays wk s =
     (case on_poll R wk s of
        None \<Rightarrow> None
      | Some (d, wk1, s1) \<Rightarrow> run_loop R evs (delays @ [d]) wk1 s1)"

definition run_worker :: "'s runtime \<Rightarrow> worker_event list \<Rightarrow> worker \<Rightarrow> 's \<Rightarrow> (duration list \<times> worker \<times> 's) option" where
  "run_worker R evs wk s =
     (let (m, s1) = run_sweep R (wk_cfg wk) (wk_metrics wk) s
      in run_loop R evs [wc_poll_interval (wk_cfg wk)] (wk\<lparr>wk_metrics := m\<rparr>) s1)"

subsection \<open>The store protocol\<close>

text \<open>A runtime that records the store calls a session's derivation makes, with their results.\<close>

datatype store_call =
  Try_lock harness_key "string + bool"
| Get_dirty harness_key "string + derive_queue_entry option"
| Rederive harness_key "string + rederive_report"
| Clear_dirty derive_queue_entry "string + bool"
| Release harness_key

definition logged :: "'s runtime \<Rightarrow> (store_call list \<times> 's) runtime" where
  "logged R = \<lparr>
     rt_now = (\<lambda>(l, s). let (x, s') = rt_now R s in (x, l, s')),
     rt_done = (\<lambda>(l, s). let (x, s') = rt_done R s in (x, l, s')),
     rt_rand = (\<lambda>n (l, s). let (x, s') = rt_rand R n s in (x, l, s')),
     rt_list = (\<lambda>c f n (l, s). let (x, s') = rt_list R c f n s in (x, l, s')),
     rt_get = (\<lambda>k (l, s). let (x, s') = rt_get R k s in (x, l @ [Get_dirty k x], s')),
     rt_clear = (\<lambda>e (l, s). let (x, s') = rt_clear R e s in (x, l @ [Clear_dirty e x], s')),
     rt_sweep = (\<lambda>t (l, s). let (x, s') = rt_sweep R t s in (x, l, s')),
     rt_stats = (\<lambda>(l, s). let (x, s') = rt_stats R s in (x, l, s')),
     rt_try_lock = (\<lambda>k (l, s). let (x, s') = rt_try_lock R k s in (x, l @ [Try_lock k x], s')),
     rt_release = (\<lambda>k (l, s). (l @ [Release k], rt_release R k s)),
     rt_rederive = (\<lambda>p k (l, s). let (x, s') = rt_rederive R p k s in (x, l @ [Rederive k x], s'))\<rparr>"

lemmas logged_simps = logged_def split_def Let_def

text \<open>The calls allowed for one session: nothing without the lock; the entry re-read under it; a
  derivation only of a due entry; a clear only after a derivation that succeeded, with the entry
  as re-read; and the release of the lock last, on every path.\<close>

fun under_lock :: "gotime \<Rightarrow> gotime \<Rightarrow> harness_key \<Rightarrow> store_call list \<Rightarrow> bool" where
  "under_lock c l k [Get_dirty k' (Inl _)] \<longleftrightarrow> k' = k"
| "under_lock c l k [Get_dirty k' (Inr None)] \<longleftrightarrow> k' = k"
| "under_lock c l k [Get_dirty k' (Inr (Some cur))] \<longleftrightarrow> k' = k \<and> \<not> entry_due c l cur"
| "under_lock c l k [Get_dirty k' (Inr (Some cur)), Rederive k'' (Inl _)] \<longleftrightarrow>
     k' = k \<and> entry_due c l cur \<and> k'' = dq_key cur"
| "under_lock c l k [Get_dirty k' (Inr (Some cur)), Rederive k'' (Inr _), Clear_dirty e _] \<longleftrightarrow>
     k' = k \<and> entry_due c l cur \<and> k'' = dq_key cur \<and> e = cur"
| "under_lock c l k _ \<longleftrightarrow> False"

fun follows_protocol :: "gotime \<Rightarrow> gotime \<Rightarrow> harness_key \<Rightarrow> store_call list \<Rightarrow> bool" where
  "follows_protocol c l k (Try_lock k' (Inr True) # calls) \<longleftrightarrow>
     k' = k \<and> calls \<noteq> [] \<and> last calls = Release k \<and> under_lock c l k (butlast calls)"
| "follows_protocol c l k [Try_lock k' _] \<longleftrightarrow> k' = k"
| "follows_protocol c l k _ \<longleftrightarrow> False"

fun cleared_call :: "store_call \<Rightarrow> bool" where
  "cleared_call (Clear_dirty _ (Inr _)) = True"
| "cleared_call _ = False"

lemma process_locked_logged:
  "case process_locked (logged R) project k c l m (cs, s) of (r, m', cs', s') \<Rightarrow>
     \<exists>calls. cs' = cs @ calls \<and> under_lock c l k calls \<and> (r = Inr True \<longleftrightarrow> list_ex cleared_call calls)"
  by (auto simp: process_locked_def derive_entry_def logged_simps split: sum.split option.split prod.split)

text \<open>C2: the derivation of one session keeps the store protocol. Whatever the store answers and
  whatever happens between its calls, the calls of one session are: the attempt to take the lock,
  and nothing more unless it was acquired; then the re-read of the entry, the derivation only of a
  due one, the conditional clear, with the entry as re-read, only after a derivation that
  succeeded, and last, on every path, the release. The session counts as derived exactly when
  the clear was answered.\<close>

theorem session_protocol:
  "case process_entry (logged R) project e c l m ([], s) of (r, m', cs, s') \<Rightarrow>
     follows_protocol c l (dq_key e) cs \<and> (r = Inr True \<longleftrightarrow> list_ex cleared_call cs)"
proof -
  obtain x s1 where lock: "rt_try_lock R (dq_key e) s = (x, s1)" by fastforce
  show ?thesis
  proof (cases "x = Inr True")
    case False
    then show ?thesis
      by (cases x) (auto simp: process_entry_def logged_simps lock split: sum.split bool.split)
  next
    case True
    obtain r m' cs' s' where p: "process_locked (logged R) project (dq_key e) c l m ([Try_lock (dq_key e) x], s1)
        = (r, m', cs', s')" by (metis prod_cases4)
    with process_locked_logged [where R = R and k = "dq_key e" and cs = "[Try_lock (dq_key e) x]" and project = project
        and c = c and l = l and m = m and s = s1] obtain calls
      where "cs' = Try_lock (dq_key e) x # calls" "under_lock c l (dq_key e) calls"
        "r = Inr True \<longleftrightarrow> list_ex cleared_call calls" by auto
    with p True show ?thesis
      by (simp add: process_entry_def lock) (simp add: logged_simps lock)
  qed
qed

subsection \<open>Back-off bounds\<close>

lemma double_until_nominal:
  "0 < d \<Longrightarrow> mx \<le> 2 ^ 62 \<Longrightarrow> min mx (double_until mx n d) = min mx (d * 2 ^ n)"
proof (induction n arbitrary: d)
  case (Suc n)
  show ?case
  proof (cases "d < mx")
    case True
    then have "wrap64 (d * 2) = d * 2" using Suc.prems by (intro wrap64_id) (simp add: int64_ok_def)
    then show ?thesis using True Suc.prems Suc.IH [of "d * 2"] by (simp add: ac_simps)
  next
    case False
    have "d * 1 \<le> d * 2 ^ Suc n" using Suc.prems(1) by (intro mult_left_mono) (simp_all del: power_Suc)
    with False have "mx \<le> d * 2 ^ Suc n" by (simp del: power_Suc)
    with False show ?thesis by (simp add: min_def del: power_Suc)
  qed
qed simp

text \<open>the poll back-off is bounded. For a positive base, a cap of at most 2^62 nanoseconds and
  any draw of the random source within its range, the delay after a number of failures is defined
  and lies between one half and the whole of the base doubled once per further failure, capped.\<close>

theorem backoff_bounds:
  assumes base: "0 < base" and mx: "0 < mx" "mx \<le> 2 ^ 62"
    and draw: "\<And>n. 0 < n \<Longrightarrow> 0 \<le> draw n \<and> draw n < n"
  shows "\<exists>d. backoff_delay draw base mx failures = Some d
     \<and> min mx (base * 2 ^ nat (failures - 1)) div 2 \<le> d \<and> d \<le> min mx (base * 2 ^ nat (failures - 1))"
proof -
  let ?nom = "min mx (base * 2 ^ nat (failures - 1))"
  have pos: "0 < ?nom" using base mx by simp
  then have halves: "?nom div 2 + ?nom div 2 \<le> ?nom" by linarith
  have "backoff_half base mx failures = go_quot (min mx (double_until mx (nat (failures - 1)) base)) 2"
    by (simp add: backoff_half_def Let_def min_def)
  then have half: "backoff_half base mx failures = ?nom div 2"
    using double_until_nominal [OF base mx(2)] pos by (simp add: go_quot_nonneg)
  have "0 \<le> ?nom div 2" using pos by simp
  moreover have "0 \<le> draw (?nom div 2 + 1)" "draw (?nom div 2 + 1) \<le> ?nom div 2"
    using draw [of "?nom div 2 + 1"] pos by auto
  moreover have no_panic: "\<not> ?nom div 2 + 1 \<le> 0" using pos by linarith
  ultimately have "?nom div 2 \<le> ?nom div 2 + draw (?nom div 2 + 1)" "?nom div 2 + draw (?nom div 2 + 1) \<le> ?nom"
    using halves by linarith+
  then show ?thesis unfolding backoff_delay_def half Let_def if_not_P [OF no_panic] by blast
qed

theorem backoff_bounds_witness:
  "\<exists>d. backoff_delay (\<lambda>n. n - 1) (5 * second) (30 * second) 4 = Some d
     \<and> min (30 * second) (5 * second * 2 ^ nat (4 - 1)) div 2 \<le> d \<and> d \<le> min (30 * second) (5 * second * 2 ^ nat (4 - 1))"
  by (rule backoff_bounds) (simp_all add: second_def)

text \<open>Above that cap the doubling wraps, the half is negative and \<open>rand.N\<close> panics: with the default
  interval and an unlimited cap, on the 32nd failure in a row.\<close>

lemma backoff_overflow_panics: "backoff_delay draw default_poll_interval (2 ^ 63 - 1) 32 = None"
proof -
  have "backoff_half default_poll_interval (2 ^ 63 - 1) 32 + 1 \<le> 0" by code_simp
  then show ?thesis by (simp add: backoff_delay_def Let_def)
qed

end
