(* ===== verification/DeriveLoop.thy ===== *)
theory DeriveLoop
  imports DeriveWorker
begin

text \<open>
  The worker composed with the queue. \<open>world\<close> holds the queue table, the number of raw turns
  captured and the number covered by the persisted derivation of every session, the advisory
  locks, and the program point of every worker inside \<open>processEntry\<close>. \<open>wstep\<close> interleaves
  captures (\<open>PutRawTurn\<close> inserts the turn and marks the session in one transaction), sweeps and
  workers; a worker may stop at any point, as it does on an error, a crash or an expired drain.
  Each marking transaction has its own \<open>CURRENT_TIMESTAMP\<close>.

  The worker's sequential code, run alone on this world, takes steps of the relation
  (\<open>process_entry_steps\<close>), so that what is proved of the reachable worlds holds of it.
\<close>

subsection \<open>The world\<close>

datatype pc =
  Idle
| Locked harness_key
| Reread derive_queue_entry
| Snapped derive_queue_entry nat
| Persisted derive_queue_entry nat

fun pc_key :: "pc \<Rightarrow> harness_key option" where
  "pc_key Idle = None"
| "pc_key (Locked k) = Some k"
| "pc_key (Reread e) = Some (dq_key e)"
| "pc_key (Snapped e n) = Some (dq_key e)"
| "pc_key (Persisted e n) = Some (dq_key e)"

fun pc_entry :: "pc \<Rightarrow> derive_queue_entry option" where
  "pc_entry (Reread e) = Some e"
| "pc_entry (Snapped e n) = Some e"
| "pc_entry (Persisted e n) = Some e"
| "pc_entry _ = None"

fun pc_snap :: "pc \<Rightarrow> (derive_queue_entry \<times> nat) option" where
  "pc_snap (Snapped e n) = Some (e, n)"
| "pc_snap (Persisted e n) = Some (e, n)"
| "pc_snap _ = None"

record world =
  wd_queue :: "derive_queue_entry list"
  wd_raws :: "harness_key \<Rightarrow> nat"
  wd_derived :: "harness_key \<Rightarrow> nat"
  wd_holder :: "int \<Rightarrow> nat option"
  wd_pc :: "nat \<Rightarrow> pc"
  wd_stamps :: "gotime list"

definition new_world :: world where
  "new_world = \<lparr>wd_queue = [], wd_raws = (\<lambda>_. 0), wd_derived = (\<lambda>_. 0), wd_holder = Map.empty,
     wd_pc = (\<lambda>_. Idle), wd_stamps = []\<rparr>"

definition lock_of :: "harness_key \<Rightarrow> int" where
  "lock_of k = derive_lock_key_raw (hk_org k) (hk_harness k) (hk_session k)"

definition set_pc :: "nat \<Rightarrow> pc \<Rightarrow> world \<Rightarrow> world" where
  "set_pc w p W = W\<lparr>wd_pc := (wd_pc W)(w := p)\<rparr>"

definition put_raw :: "gotime \<Rightarrow> harness_key \<Rightarrow> world \<Rightarrow> world" where
  "put_raw t k W = W\<lparr>wd_raws := (wd_raws W)(k := wd_raws W k + 1),
     wd_queue := mark_derive_dirty t k (wd_queue W), wd_stamps := t # wd_stamps W\<rparr>"

definition sweep_world :: "gotime \<Rightarrow> harness_key list \<Rightarrow> world \<Rightarrow> world" where
  "sweep_world t ks W = W\<lparr>wd_queue := snd (sweep_derive_dirty t ks (wd_queue W)), wd_stamps := t # wd_stamps W\<rparr>"

definition take_lock :: "nat \<Rightarrow> harness_key \<Rightarrow> world \<Rightarrow> world" where
  "take_lock w k W = (set_pc w (Locked k) W)\<lparr>wd_holder := (wd_holder W)(lock_of k \<mapsto> w)\<rparr>"

definition drop_lock :: "nat \<Rightarrow> harness_key \<Rightarrow> world \<Rightarrow> world" where
  "drop_lock w k W = (set_pc w Idle W)\<lparr>wd_holder := (wd_holder W)(lock_of k := None)\<rparr>"

definition persist :: "nat \<Rightarrow> derive_queue_entry \<Rightarrow> nat \<Rightarrow> world \<Rightarrow> world" where
  "persist w e n W = (set_pc w (Persisted e n) W)\<lparr>wd_derived := (wd_derived W)(dq_key e := n)\<rparr>"

definition clear_world :: "nat \<Rightarrow> derive_queue_entry \<Rightarrow> world \<Rightarrow> world" where
  "clear_world w e W = (set_pc w (Locked (dq_key e)) W)\<lparr>wd_queue := snd (clear_derive_dirty e (wd_queue W))\<rparr>"

lemmas world_ops = set_pc_def put_raw_def sweep_world_def take_lock_def drop_lock_def persist_def clear_world_def

inductive wstep :: "world \<Rightarrow> world \<Rightarrow> bool" where
  Put: "hk_session k \<noteq> [] \<Longrightarrow> t \<notin> set (wd_stamps W) \<Longrightarrow> wstep W (put_raw t k W)"
| Sweep: "t \<notin> set (wd_stamps W) \<Longrightarrow> wstep W (sweep_world t ks W)"
| Lock: "wd_pc W w = Idle \<Longrightarrow> wd_holder W (lock_of k) = None \<Longrightarrow> wstep W (take_lock w k W)"
| Read: "wd_pc W w = Locked k \<Longrightarrow> get_derive_dirty k (wd_queue W) = Some e \<Longrightarrow> wstep W (set_pc w (Reread e) W)"
| Snap: "wd_pc W w = Reread e \<Longrightarrow> wstep W (set_pc w (Snapped e (wd_raws W (dq_key e))) W)"
| Persist: "wd_pc W w = Snapped e n \<Longrightarrow> wstep W (persist w e n W)"
| Clear: "wd_pc W w = Persisted e n \<Longrightarrow> wstep W (clear_world w e W)"
| Stop: "pc_key (wd_pc W w) = Some k \<Longrightarrow> wstep W (drop_lock w k W)"

inductive reachable :: "world \<Rightarrow> bool" where
  Start: "reachable new_world"
| Step: "reachable W \<Longrightarrow> wstep W W' \<Longrightarrow> reachable W'"

subsection \<open>The invariant\<close>

definition stamps_inv :: "world \<Rightarrow> bool" where
  "stamps_inv W \<longleftrightarrow> queue_ok (wd_queue W)
     \<and> (\<forall>k e. get_derive_dirty k (wd_queue W) = Some e \<longrightarrow> dq_dirtied_at e \<in> set (wd_stamps W))
     \<and> (\<forall>w e. pc_entry (wd_pc W w) = Some e \<longrightarrow> dq_dirtied_at e \<in> set (wd_stamps W))"

definition locks_inv :: "world \<Rightarrow> bool" where
  "locks_inv W \<longleftrightarrow> (\<forall>w k. pc_key (wd_pc W w) = Some k \<longrightarrow> wd_holder W (lock_of k) = Some w)"

text \<open>A snapshot is current, or the row has been marked anew since the worker read it.\<close>

definition snap_current :: "world \<Rightarrow> derive_queue_entry \<Rightarrow> nat \<Rightarrow> bool" where
  "snap_current W e n \<longleftrightarrow> n = wd_raws W (dq_key e)
     \<or> (\<exists>r. get_derive_dirty (dq_key e) (wd_queue W) = Some r \<and> dq_dirtied_at r \<noteq> dq_dirtied_at e)"

definition snaps_inv :: "world \<Rightarrow> bool" where
  "snaps_inv W \<longleftrightarrow> (\<forall>w e n. pc_snap (wd_pc W w) = Some (e, n) \<longrightarrow> snap_current W e n)
     \<and> (\<forall>w e n. wd_pc W w = Persisted e n \<longrightarrow> wd_derived W (dq_key e) = n)"

definition pending_inv :: "world \<Rightarrow> bool" where
  "pending_inv W \<longleftrightarrow> (\<forall>k. wd_raws W k \<noteq> wd_derived W k \<longrightarrow> get_derive_dirty k (wd_queue W) \<noteq> None)"

definition winv :: "world \<Rightarrow> bool" where
  "winv W \<longleftrightarrow> stamps_inv W \<and> locks_inv W \<and> snaps_inv W \<and> pending_inv W"

lemmas winv_defs = winv_def stamps_inv_def locks_inv_def snaps_inv_def pending_inv_def

lemma winv_new: "winv new_world"
  by (simp add: winv_defs new_world_def queue_ok_def get_derive_dirty_def)

lemma pc_snap_entry: "pc_snap p = Some (e, n) \<Longrightarrow> pc_entry p = Some e"
  by (cases p) auto

lemma pc_entry_key: "pc_entry p = Some e \<Longrightarrow> pc_key p = Some (dq_key e)"
  by (cases p) auto

lemma winvD:
  assumes "winv W"
  shows "queue_ok (wd_queue W)"
    and "get_derive_dirty k (wd_queue W) = Some e \<Longrightarrow> dq_dirtied_at e \<in> set (wd_stamps W)"
    and "pc_entry (wd_pc W w) = Some e \<Longrightarrow> dq_dirtied_at e \<in> set (wd_stamps W)"
    and "pc_key (wd_pc W w) = Some k \<Longrightarrow> wd_holder W (lock_of k) = Some w"
    and "pc_snap (wd_pc W w) = Some (e, n) \<Longrightarrow> snap_current W e n"
    and "wd_pc W w = Persisted e n \<Longrightarrow> wd_derived W (dq_key e) = n"
    and "wd_raws W k \<noteq> wd_derived W k \<Longrightarrow> get_derive_dirty k (wd_queue W) \<noteq> None"
  using assms by (auto simp: winv_defs)

text \<open>Two workers never work on the same session.\<close>

lemma one_worker:
  assumes "winv W" "pc_key (wd_pc W w) = Some k" "pc_key (wd_pc W w') = Some k"
  shows "w = w'"
  using winvD(4) [OF assms(1,2)] winvD(4) [OF assms(1,3)] by simp

text \<open>A step that only moves worker \<open>w\<close> to a point with the same key.\<close>

lemma winv_set_pc:
  assumes inv: "winv W"
    and key: "pc_key p = pc_key (wd_pc W w)"
    and entry: "\<And>e. pc_entry p = Some e \<Longrightarrow> dq_dirtied_at e \<in> set (wd_stamps W)"
    and snap: "\<And>e n. pc_snap p = Some (e, n) \<Longrightarrow> snap_current W e n"
    and pers: "\<And>e n. p = Persisted e n \<Longrightarrow> wd_derived W (dq_key e) = n"
  shows "winv (set_pc w p W)"
  using assms unfolding winv_defs snap_current_def set_pc_def by simp

lemma put_raw_inv:
  assumes inv: "winv W" and fresh: "t \<notin> set (wd_stamps W)"
  shows "winv (put_raw t k W)"
proof -
  let ?q = "wd_queue W" and ?q' = "mark_derive_dirty t k (wd_queue W)"
  note ok = winvD(1) [OF inv]
  have stamps: "stamps_inv (put_raw t k W)"
    unfolding stamps_inv_def put_raw_def
    using winvD(1-3) [OF inv] dq.lookup_mark_cases [OF ok] dq.ok_mark [OF ok] by (simp, blast)
  have cur: "snap_current (put_raw t k W) e n" if snap: "pc_snap (wd_pc W w) = Some (e, n)" for w e n
  proof (cases "dq_key e = k")
    case True
    obtain r where "get_derive_dirty k ?q' = Some r" "dq_dirtied_at r = t" using dq.mark_self [OF ok] by blast
    moreover have "dq_dirtied_at e \<noteq> t"
      using winvD(3) [OF inv pc_snap_entry [OF snap]] fresh by blast
    ultimately show ?thesis using True by (simp add: snap_current_def put_raw_def)
  next
    case False
    then show ?thesis using winvD(5) [OF inv snap] dq.mark_other [OF ok False]
      by (simp add: snap_current_def put_raw_def)
  qed
  have pend: "pending_inv (put_raw t k W)"
    unfolding pending_inv_def
  proof (intro allI impI)
    fix k' assume "wd_raws (put_raw t k W) k' \<noteq> wd_derived (put_raw t k W) k'"
    then show "get_derive_dirty k' (wd_queue (put_raw t k W)) \<noteq> None"
      using dq.mark_self [OF ok, of k t] dq.mark_other [OF ok, of k' k t] winvD(7) [OF inv, of k']
      by (cases "k' = k") (auto simp: put_raw_def)
  qed
  show ?thesis using stamps pend cur inv
    by (simp add: winv_def locks_inv_def snaps_inv_def put_raw_def)
qed

lemma sweep_inv:
  assumes inv: "winv W" and fresh: "t \<notin> set (wd_stamps W)"
  shows "winv (sweep_world t ks W)"
proof -
  note ok = winvD(1) [OF inv]
  have stamps: "stamps_inv (sweep_world t ks W)"
    unfolding stamps_inv_def sweep_world_def
    using winvD(1-3) [OF inv] dq.lookup_sweep_cases [OF ok] dq.ok_sweep [OF ok] by (simp, blast)
  have cur: "snap_current (sweep_world t ks W) e n" if "snap_current W e n" for e n
    using that dq.sweep_queued [OF ok] unfolding snap_current_def sweep_world_def by fastforce
  have pend: "pending_inv (sweep_world t ks W)"
    using winvD(7) [OF inv] dq.sweep_queued [OF ok] by (fastforce simp: pending_inv_def sweep_world_def)
  show ?thesis using stamps pend cur inv
    by (simp add: winv_def locks_inv_def snaps_inv_def sweep_world_def)
qed

lemma take_lock_inv:
  assumes inv: "winv W" and idle: "wd_pc W w = Idle" and free: "wd_holder W (lock_of k) = None"
  shows "winv (take_lock w k W)"
proof -
  have "locks_inv (take_lock w k W)"
    unfolding locks_inv_def
  proof (intro allI impI)
    fix w' k' assume "pc_key (wd_pc (take_lock w k W) w') = Some k'"
    then show "wd_holder (take_lock w k W) (lock_of k') = Some w'"
      using winvD(4) [OF inv, of w' k'] free by (cases "w' = w") (auto simp: take_lock_def set_pc_def)
  qed
  with inv idle show ?thesis
    unfolding winv_def stamps_inv_def snaps_inv_def pending_inv_def snap_current_def
    by (simp add: take_lock_def set_pc_def)
qed

lemma drop_lock_inv:
  assumes inv: "winv W" and key: "pc_key (wd_pc W w) = Some k"
  shows "winv (drop_lock w k W)"
proof -
  have "w' \<noteq> w \<Longrightarrow> pc_key (wd_pc W w') = Some k' \<Longrightarrow> lock_of k' \<noteq> lock_of k" for k' w'
    using winvD(4) [OF inv, of w'] winvD(4) [OF inv key] by auto
  with inv show ?thesis
    unfolding winv_defs snap_current_def drop_lock_def set_pc_def by simp
qed

lemma persist_inv:
  assumes inv: "winv W" and pc: "wd_pc W w = Snapped e n"
  shows "winv (persist w e n W)"
proof -
  have snap: "pc_snap (wd_pc W w) = Some (e, n)" and key: "pc_key (wd_pc W w) = Some (dq_key e)"
    and entry: "pc_entry (wd_pc W w) = Some e" by (simp_all add: pc)
  have other: "dq_key e' \<noteq> dq_key e" if "wd_pc W w' = Persisted e' n'" "w' \<noteq> w" for w' e' n'
    using one_worker [OF inv key, of w'] that by auto
  have "pending_inv (persist w e n W)"
    using winvD(5) [OF inv snap] winvD(7) [OF inv]
    by (auto simp: pending_inv_def persist_def set_pc_def snap_current_def)
  moreover have "snaps_inv (persist w e n W)"
    using inv winvD(5) [OF inv snap] other
    by (auto simp: winv_def snaps_inv_def persist_def set_pc_def snap_current_def)
  ultimately show ?thesis
    using inv winvD(3) [OF inv entry] winvD(4) [OF inv key]
    by (simp add: winv_def stamps_inv_def locks_inv_def persist_def set_pc_def)
qed

lemma clear_inv:
  assumes inv: "winv W" and pc: "wd_pc W w = Persisted e n"
  shows "winv (clear_world w e W)"
proof -
  note ok = winvD(1) [OF inv]
  have snap: "pc_snap (wd_pc W w) = Some (e, n)" and key: "pc_key (wd_pc W w) = Some (dq_key e)"
    by (simp_all add: pc)
  have other: "dq_key e' \<noteq> dq_key e" if "pc_snap (wd_pc W w') = Some (e', n')" "w' \<noteq> w" for w' e' n'
    using one_worker [OF inv key, of w'] pc_entry_key [OF pc_snap_entry [OF that(1)]] that(2) by auto
  have "stamps_inv (clear_world w e W)"
    unfolding stamps_inv_def clear_world_def set_pc_def
    using winvD(2,3) [OF inv] dq.lookup_clear_cases [OF ok] dq.ok_clear [OF ok] by (simp, blast)
  moreover have "locks_inv (clear_world w e W)"
    using winvD(4) [OF inv] winvD(4) [OF inv key] by (simp add: locks_inv_def clear_world_def set_pc_def)
  moreover have "snaps_inv (clear_world w e W)"
    using inv other dq.clear_other [OF ok]
    by (auto simp: winv_def snaps_inv_def clear_world_def set_pc_def snap_current_def)
  moreover have "pending_inv (clear_world w e W)"
    unfolding pending_inv_def
  proof (intro allI impI)
    fix k assume ne: "wd_raws (clear_world w e W) k \<noteq> wd_derived (clear_world w e W) k"
    then have ne': "wd_raws W k \<noteq> wd_derived W k" by (simp add: clear_world_def set_pc_def)
    then obtain r where r: "get_derive_dirty k (wd_queue W) = Some r" using winvD(7) [OF inv] by blast
    show "get_derive_dirty k (wd_queue (clear_world w e W)) \<noteq> None"
    proof
      assume "get_derive_dirty k (wd_queue (clear_world w e W)) = None"
      then have "k = dq_key e" "dq_dirtied_at r = dq_dirtied_at e"
        using dq.lookup_clear_gone [OF ok r] by (simp_all add: clear_world_def set_pc_def)
      with winvD(5) [OF inv snap] winvD(6) [OF inv pc] ne' r show False by (simp add: snap_current_def)
    qed
  qed
  ultimately show ?thesis by (simp add: winv_def)
qed

lemma wstep_inv: "wstep W W' \<Longrightarrow> winv W \<Longrightarrow> winv W'"
proof (induction rule: wstep.induct)
  case (Read W w k e)
  then show ?case using get_derive_dirtyD [of k] by (intro winv_set_pc) (auto dest: winvD(2))
next
  case (Snap W w e)
  then show ?case by (intro winv_set_pc) (auto simp: snap_current_def intro: winvD(3) [where w = w])
qed (simp_all add: put_raw_inv sweep_inv take_lock_inv drop_lock_inv persist_inv clear_inv)

lemma reachable_inv: "reachable W \<Longrightarrow> winv W"
  by (induction rule: reachable.induct) (auto simp: winv_new intro: wstep_inv)

subsection \<open>The worker's code on the world\<close>

text \<open>The store of worker \<open>w\<close> at a fixed clock: each call is a step of the world, or leaves it
  unchanged when the worker is not at the program point that makes the call.\<close>

definition world_get :: "nat \<Rightarrow> harness_key \<Rightarrow> world \<Rightarrow> (string + derive_queue_entry option) \<times> world" where
  "world_get w k W = (case get_derive_dirty k (wd_queue W) of
     None \<Rightarrow> (Inr None, W)
   | Some e \<Rightarrow> (Inr (Some e), if wd_pc W w = Locked k then set_pc w (Reread e) W else W))"

definition world_rederive :: "nat \<Rightarrow> rederive_report \<Rightarrow> world \<Rightarrow> (string + rederive_report) \<times> world" where
  "world_rederive w rep W = (case wd_pc W w of
     Reread e \<Rightarrow> (let n = wd_raws W (dq_key e) in (Inr rep, persist w e n (set_pc w (Snapped e n) W)))
   | _ \<Rightarrow> (Inl ''rederive'', W))"

definition world_clear :: "nat \<Rightarrow> world \<Rightarrow> (string + bool) \<times> world" where
  "world_clear w W = (case wd_pc W w of
     Persisted e n \<Rightarrow> (Inr (fst (clear_derive_dirty e (wd_queue W))), clear_world w e W)
   | _ \<Rightarrow> (Inl ''clear'', W))"

definition world_try_lock :: "nat \<Rightarrow> harness_key \<Rightarrow> world \<Rightarrow> (string + bool) \<times> world" where
  "world_try_lock w k W =
     (if wd_pc W w = Idle \<and> wd_holder W (lock_of k) = None then (Inr True, take_lock w k W) else (Inr False, W))"

definition world_release :: "nat \<Rightarrow> harness_key \<Rightarrow> world \<Rightarrow> world" where
  "world_release w k W = (if pc_key (wd_pc W w) = Some k then drop_lock w k W else W)"

definition world_sweep :: "gotime \<Rightarrow> harness_key list \<Rightarrow> world \<Rightarrow> (string + int) \<times> world" where
  "world_sweep now active W =
     (if now \<in> set (wd_stamps W) then (Inl ''sweep'', W)
      else (Inr (fst (sweep_derive_dirty now active (wd_queue W))), sweep_world now active W))"

definition world_runtime :: "nat \<Rightarrow> gotime \<Rightarrow> harness_key list \<Rightarrow> (harness_key \<Rightarrow> rederive_report) \<Rightarrow> world runtime" where
  "world_runtime w now active rep = \<lparr>
     rt_now = Pair now, rt_done = Pair False, rt_rand = (\<lambda>n. Pair 0),
     rt_list = (\<lambda>c f n W. (Inr (list_derive_dirty c f n (wd_queue W)), W)),
     rt_get = world_get w, rt_clear = (\<lambda>e. world_clear w),
     rt_sweep = (\<lambda>since. world_sweep now active),
     rt_stats = (\<lambda>W. (Inr (queue_stats (wd_queue W)), W)),
     rt_try_lock = world_try_lock w, rt_release = world_release w,
     rt_rederive = (\<lambda>p k. world_rederive w (rep k))\<rparr>"

lemma world_runtime_simps [simp]:
  "rt_now (world_runtime w now active rep) W = (now, W)"
  "rt_done (world_runtime w now active rep) W = (False, W)"
  "rt_list (world_runtime w now active rep) c f n W = (Inr (list_derive_dirty c f n (wd_queue W)), W)"
  "rt_get (world_runtime w now active rep) = world_get w"
  "rt_clear (world_runtime w now active rep) e = world_clear w"
  "rt_stats (world_runtime w now active rep) W = (Inr (queue_stats (wd_queue W)), W)"
  "rt_try_lock (world_runtime w now active rep) = world_try_lock w"
  "rt_release (world_runtime w now active rep) = world_release w"
  "rt_rederive (world_runtime w now active rep) p k = world_rederive w (rep k)"
  by (simp_all add: world_runtime_def)

abbreviation wsteps :: "world \<Rightarrow> world \<Rightarrow> bool" where
  "wsteps \<equiv> wstep\<^sup>*\<^sup>*"

lemma world_get_step: "world_get w k W = (x, W') \<Longrightarrow> wsteps W W'"
  by (auto simp: world_get_def intro: r_into_rtranclp wstep.Read split: option.splits if_splits)

lemma world_rederive_step: "world_rederive w rep W = (x, W') \<Longrightarrow> wsteps W W'"
proof (cases "wd_pc W w")
  case (Reread e)
  moreover assume "world_rederive w rep W = (x, W')"
  ultimately have W': "W' = persist w e (wd_raws W (dq_key e)) (set_pc w (Snapped e (wd_raws W (dq_key e))) W)"
    by (simp add: world_rederive_def Let_def)
  have "wstep (set_pc w (Snapped e (wd_raws W (dq_key e))) W) W'"
    unfolding W' by (rule wstep.Persist) (simp add: set_pc_def)
  with wstep.Snap [OF Reread] show ?thesis by (meson r_into_rtranclp rtranclp_trans)
qed (simp_all add: world_rederive_def)

lemma world_clear_step: "world_clear w W = (x, W') \<Longrightarrow> wsteps W W'"
  by (auto simp: world_clear_def intro: r_into_rtranclp wstep.Clear split: pc.splits)

lemma world_try_lock_step: "world_try_lock w k W = (x, W') \<Longrightarrow> wsteps W W'"
  by (auto simp: world_try_lock_def intro: r_into_rtranclp wstep.Lock split: if_splits)

lemma world_release_step: "wsteps W (world_release w k W)"
  by (auto simp: world_release_def intro: r_into_rtranclp wstep.Stop)

lemmas world_call_steps = world_get_step world_rederive_step world_clear_step world_try_lock_step

lemma derive_entry_steps:
  "derive_entry (world_runtime w now active rep) project cur m W = (r, m', W') \<Longrightarrow> wsteps W W'"
  unfolding derive_entry_def
  by (auto simp: Let_def dest!: world_call_steps intro: rtranclp_trans split: prod.splits sum.splits)

lemma process_locked_steps:
  "process_locked (world_runtime w now active rep) project k c l m W = (r, m', W') \<Longrightarrow> wsteps W W'"
  unfolding process_locked_def
  by (auto dest!: world_call_steps derive_entry_steps intro: rtranclp_trans split: prod.splits sum.splits option.splits if_splits)

text \<open>The refinement: the sequential code of \<open>processEntry\<close>, on this store, takes steps of the world.\<close>

lemma process_entry_steps:
  "process_entry (world_runtime w now active rep) project e c l m W = (r, m', W') \<Longrightarrow> wsteps W W'"
  unfolding process_entry_def
  by (auto simp: Let_def dest!: world_call_steps process_locked_steps
      intro: rtranclp_trans world_release_step split: prod.splits sum.splits bool.splits)

lemma reachable_steps: "wsteps W W' \<Longrightarrow> reachable W \<Longrightarrow> reachable W'"
  by (induction rule: rtranclp_induct) (auto intro: reachable.Step)

lemma poll_entries_steps:
  "poll_entries (world_runtime w now active rep) project c l es n m W = (r, m', W') \<Longrightarrow> wsteps W W'"
proof (induction es arbitrary: n m W)
  case (Cons e es)
  then show ?case
    by (auto dest!: process_entry_steps intro: rtranclp_trans split: prod.splits sum.splits)
qed simp

lemma run_poll_steps:
  "run_poll (world_runtime w now active rep) cfg m W = (r, m', W') \<Longrightarrow> wsteps W W'"
  by (auto simp: run_poll_def list_and_derive_def Let_def intro: poll_entries_steps split: if_splits)

subsection \<open>A poll on a quiet system\<close>

definition quiet :: "nat \<Rightarrow> world \<Rightarrow> bool" where
  "quiet w W \<longleftrightarrow> queue_ok (wd_queue W) \<and> wd_pc W w = Idle \<and> wd_holder W = Map.empty"

definition settle :: "harness_key set \<Rightarrow> world \<Rightarrow> world" where
  "settle K W = W\<lparr>wd_queue := filter (\<lambda>e. dq_key e \<notin> K) (wd_queue W),
     wd_derived := (\<lambda>k. if k \<in> K then wd_raws W k else wd_derived W k)\<rparr>"

lemma settle_empty [simp]: "settle {} W = W"
  by (simp add: settle_def)

lemma settle_settle: "settle K (settle L W) = settle (K \<union> L) W"
  by (rule world.equality) (auto simp: settle_def fun_eq_iff intro: filter_cong)

lemma quiet_settle: "quiet w W \<Longrightarrow> quiet w (settle K W)"
  by (simp add: quiet_def settle_def queue_ok_def distinct_map_filter)

lemma clear_row:
  assumes "queue_ok q" "e \<in> set q"
  shows "clear_derive_dirty e q = (True, filter (\<lambda>r. dq_key r \<noteq> dq_key e) q)"
proof -
  have same: "r = e" if "r \<in> set q" "dq_key r = dq_key e" for r
    using assms that unfolding queue_ok_def distinct_map by (meson inj_onD)
  have "filter (\<lambda>r. \<not> (dq_key r = dq_key e \<and> dq_dirtied_at r = dq_dirtied_at e)) q = filter (\<lambda>r. dq_key r \<noteq> dq_key e) q"
    using same by (intro filter_cong) auto
  then show ?thesis using assms by (auto simp: clear_derive_dirty_def Let_def list_ex_iff)
qed

lemma process_entry_quiet:
  assumes q: "quiet w W" and e: "e \<in> set (wd_queue W)" and due: "entry_due c l e"
  shows "\<exists>m'. process_entry (world_runtime w now active rep) project e c l m W = (Inr True, m', settle {dq_key e} W)"
proof -
  from q have ok: "queue_ok (wd_queue W)" and idle: "wd_pc W w = Idle" and free: "wd_holder W = Map.empty"
    by (simp_all add: quiet_def)
  have row: "get_derive_dirty (dq_key e) (wd_queue W) = Some e" using get_derive_dirty_Some [OF ok] e by simp
  have "world_release w (dq_key e) (clear_world w e (persist w e (wd_raws W (dq_key e))
      (set_pc w (Snapped e (wd_raws W (dq_key e))) (set_pc w (Reread e) (take_lock w (dq_key e) W))))) = settle {dq_key e} W"
    by (rule world.equality)
      (auto simp: world_release_def world_ops settle_def clear_row [OF ok e] idle free fun_eq_iff)
  then show ?thesis
    by (simp add: process_entry_def process_locked_def derive_entry_def Let_def world_try_lock_def world_get_def
        world_rederive_def world_clear_def idle free due row clear_row [OF ok e] world_ops
        split del: if_split)
qed

lemma poll_entries_quiet:
  assumes "quiet w W" "distinct (map dq_key es)" "set es \<subseteq> set (wd_queue W)" "list_all (entry_due c l) es"
  shows "\<exists>m'. poll_entries (world_runtime w now active rep) project c l es n m W
      = ((n + int (length es), None), m', settle (dq_key ` set es) W)"
  using assms
proof (induction es arbitrary: n m W)
  case (Cons e es)
  obtain m1 where p: "process_entry (world_runtime w now active rep) project e c l m W = (Inr True, m1, settle {dq_key e} W)"
    using process_entry_quiet [of w W e c l now active rep project m] Cons.prems by auto
  have "dq_key x \<noteq> dq_key e" if "x \<in> set es" for x using Cons.prems(2) that by (auto simp: image_iff)
  then have "set es \<subseteq> set (wd_queue (settle {dq_key e} W))"
    using Cons.prems(3) by (auto simp: settle_def)
  then obtain m2 where "poll_entries (world_runtime w now active rep) project c l es (n + 1) m1 (settle {dq_key e} W)
      = ((n + 1 + int (length es), None), m2, settle (dq_key ` set es) (settle {dq_key e} W))"
    using Cons.IH [of "settle {dq_key e} W" "n + 1" m1] Cons.prems quiet_settle by auto
  with p show ?case by (simp add: settle_settle Un_commute insert_commute)
qed simp

subsection \<open>Properties\<close>


definition sample_key :: harness_key where
  "sample_key = HKey [] ''claude-code'' ''s1''"


text \<open>C3: a poll makes progress. With the locks free and no concurrent capture, a poll whose page
  holds the queue derives exactly the sessions that have settled or waited past the lag bound:
  they are covered and leave the queue, the others keep their rows, and their number is the
  poll's result, without an error.\<close>

theorem poll_drains_due:
  assumes "quiet w W" and "int (length (wd_queue W)) \<le> wc_page_size cfg"
    and "list_all (\<lambda>e. dq_first_dirtied_at e \<noteq> 0) (wd_queue W)"
  shows "case run_poll (world_runtime w now active rep) cfg m W of ((n, err), m', W') \<Rightarrow>
     err = None \<and> n = int (length (filter (entry_due (now - wc_debounce cfg) (now - max_derive_lag cfg)) (wd_queue W)))
     \<and> W' = settle (dq_key ` set (filter (entry_due (now - wc_debounce cfg) (now - max_derive_lag cfg)) (wd_queue W))) W"
proof -
  let ?c = "now - wc_debounce cfg" and ?l = "now - max_derive_lag cfg"
  let ?due = "filter (entry_due ?c ?l) (wd_queue W)"
  have "filter (\<lambda>e. dq_dirtied_at e \<le> ?c \<or> dq_first_dirtied_at e \<le> ?l) (wd_queue W) = ?due"
    using assms(3) by (intro filter_cong) (auto simp: entry_due_def list_all_iff)
  moreover have "length ?due \<le> nat (wc_page_size cfg)" using assms(2) length_filter_le [of _ "wd_queue W"]
    by (metis int_nat_eq le_trans nat_le_iff nat_mono nat_int)
  ultimately have listed: "list_derive_dirty ?c ?l (wc_page_size cfg) (wd_queue W) = sort_key dq_dirtied_at ?due"
    by (simp add: list_derive_dirty_def)
  have "distinct (map dq_key ?due)" using assms(1) by (simp add: quiet_def queue_ok_def distinct_map_filter)
  then have "distinct (map dq_key (sort_key dq_dirtied_at ?due))" by (simp add: distinct_map)
  then have "\<exists>m'. poll_entries (world_runtime w now active rep) (wc_project cfg) ?c ?l
      (sort_key dq_dirtied_at ?due) 0 m0 W = ((int (length ?due), None), m', settle (dq_key ` set ?due) W)" for m0
    using poll_entries_quiet [OF assms(1), of "sort_key dq_dirtied_at ?due" ?c ?l now active rep "wc_project cfg" 0 m0]
    by (simp add: list_all_iff)
  then have "\<exists>m'. list_and_derive (world_runtime w now active rep) cfg m0 W
      = ((int (length ?due), None), m', settle (dq_key ` set ?due) W)" for m0
    by (simp add: list_and_derive_def Let_def listed)
  then have "\<exists>m'. run_poll (world_runtime w now active rep) cfg m W
      = ((int (length ?due), None), m', settle (dq_key ` set ?due) W)"
    by (simp add: run_poll_def Let_def split: prod.split)
  then show ?thesis by auto
qed

definition sample_config :: worker_config where
  "sample_config = with_defaults \<lparr>wc_project = [], wc_poll_interval = 0, wc_debounce = 0, wc_sweep_interval = 0,
     wc_max_derive_lag = 0, wc_sweep_window = 0, wc_page_size = 0, wc_max_poll_backoff = 0, wc_drain_timeout = 0\<rparr>"

lemma poll_drains_due_witness:
  "case run_poll (world_runtime 0 (100 * second) [] (\<lambda>_. empty_report)) sample_config new_metrics
      (put_raw 7 sample_key new_world) of ((n, err), m', W') \<Rightarrow>
     err = None \<and> n = 1 \<and> wd_queue W' = [] \<and> wd_derived W' sample_key = 1"
proof -
  let ?W = "put_raw 7 sample_key new_world"
  have q: "wd_queue ?W = [new_queue_row 7 sample_key]"
    by (simp add: put_raw_def new_world_def mark_derive_dirty_def get_derive_dirty_def)
  have due: "entry_due (100 * second - wc_debounce sample_config) (100 * second - max_derive_lag sample_config)
      (new_queue_row 7 sample_key)" by code_simp
  have "quiet 0 ?W" by (simp add: quiet_def q queue_ok_def) (simp add: put_raw_def new_world_def)
  moreover have "int (length (wd_queue ?W)) \<le> wc_page_size sample_config" unfolding q by code_simp
  moreover have "list_all (\<lambda>e. dq_first_dirtied_at e \<noteq> 0) (wd_queue ?W)" unfolding q by code_simp
  ultimately show ?thesis
    using poll_drains_due [of 0 ?W sample_config "100 * second" "[]" "\<lambda>_. empty_report" new_metrics] due
    by (auto simp: q settle_def) (simp_all add: put_raw_def new_world_def)
qed

end
