(* ===== verification/Transcript.thy ===== *)
theory Transcript
  imports Deriver
begin

text \<open>
  \<open>pkg/derive/transcript.go\<close>: harness transcript files, their parsing, and the block
  signatures by which they are joined with the wire capture.

  JSON decoding, the canonical marshalling of a projected block and the digest of it are the
  record \<open>tx_externs\<close>; \<open>None\<close> is a decode error. A raw JSON message is its text. A
  \<open>*TranscriptFile\<close> is a value: the files are immutable once parsed.
\<close>

record transcript_usage =
  xu_input_tokens :: int
  xu_output_tokens :: int
  xu_cache_creation_input_tokens :: int
  xu_cache_read_input_tokens :: int

definition zero_transcript_usage :: transcript_usage where
  "zero_transcript_usage = \<lparr>xu_input_tokens = 0, xu_output_tokens = 0,
     xu_cache_creation_input_tokens = 0, xu_cache_read_input_tokens = 0\<rparr>"

record transcript_record =
  xr_uuid :: string
  xr_parent_uuid :: string
  xr_leaf_uuid :: string
  xr_type :: string
  xr_timestamp :: string
  xr_is_sidechain :: bool
  xr_is_meta :: bool
  xr_decoded :: bool
  xr_ai_title :: string
  xr_agent_name :: string
  xr_summary :: string
  xr_custom_title :: string
  xr_content :: string
  xr_hook_additional_context :: string
  xr_attachment :: string
  xr_payload_type :: string
  xr_payload_kind :: string
  xr_message_id :: string
  xr_role :: string
  xr_model :: string
  xr_message_content :: string
  xr_stop_reason :: string
  xr_usage :: transcript_usage

definition empty_record :: transcript_record where
  "empty_record = \<lparr>xr_uuid = [], xr_parent_uuid = [], xr_leaf_uuid = [], xr_type = [], xr_timestamp = [],
     xr_is_sidechain = False, xr_is_meta = False, xr_decoded = False, xr_ai_title = [], xr_agent_name = [],
     xr_summary = [], xr_custom_title = [], xr_content = [], xr_hook_additional_context = [], xr_attachment = [],
     xr_payload_type = [], xr_payload_kind = [], xr_message_id = [], xr_role = [], xr_model = [],
     xr_message_content = [], xr_stop_reason = [], xr_usage = zero_transcript_usage\<rparr>"

record transcript_block =
  xb_type :: string
  xb_text :: string
  xb_thinking :: string
  xb_name :: string
  xb_id :: string
  xb_input :: jobj
  xb_tool_use_id :: string
  xb_content :: string
  xb_is_error :: bool

record transcript_meta_fields =
  xm_transcript :: bool
  xm_agent_id :: string
  xm_agent_type :: string
  xm_description :: string
  xm_tool_use_id :: string
  xm_kind :: string

definition empty_transcript_meta :: transcript_meta_fields where
  "empty_transcript_meta = \<lparr>xm_transcript = False, xm_agent_id = [], xm_agent_type = [],
     xm_description = [], xm_tool_use_id = [], xm_kind = []\<rparr>"

record tx_externs =
  tx_ext :: externs
  tx_meta :: "string \<Rightarrow> transcript_meta_fields option"
  tx_list :: "string \<Rightarrow> string list option" \<comment> \<open>a JSON array of raw messages\<close>
  tx_record :: "string \<Rightarrow> transcript_record option"
  tx_head_type :: "string \<Rightarrow> string"
  tx_blocks :: "string \<Rightarrow> transcript_block list option"
  tx_parts :: "string \<Rightarrow> (string \<times> string) list option" \<comment> \<open>type and text\<close>
  tx_sign :: "content_block \<Rightarrow> string option" \<comment> \<open>digest of the canonical JSON\<close>
  tx_task_name :: "string \<Rightarrow> string option"
  tx_identity_digest :: "string \<times> string \<times> string \<times> bool \<times> string \<times> string \<Rightarrow> string"
  tx_record_digest :: "string \<times> string \<times> string \<times> string \<Rightarrow> string"

abbreviation tx_text :: "tx_externs \<Rightarrow> string \<Rightarrow> string option" where
  "tx_text tx \<equiv> ext_text (tx_ext tx)"

definition sub_agent_kind_started :: string where "sub_agent_kind_started = ''started''"

record transcript_file =
  tf_session :: session_key
  tf_agent_id :: string
  tf_agent_type :: string
  tf_description :: string
  tf_tool_use_id :: string
  tf_raw_turn_id :: int
  tf_kind :: string
  tf_signatures :: "string list"
  tf_records :: "transcript_record list"
  tf_received_at :: gotime

definition spawn_evidence :: "transcript_file \<Rightarrow> bool" where
  "spawn_evidence f \<longleftrightarrow> tf_kind f = [] \<or> tf_kind f = sub_agent_kind_started"

definition sub_agent_activity_kind :: "transcript_record \<Rightarrow> string" where
  "sub_agent_activity_kind r =
     (if xr_type r \<noteq> ''event_msg'' \<or> xr_payload_type r \<noteq> ''sub_agent_activity'' then []
      else xr_payload_kind r)"

definition is_transcript_meta :: "tx_externs \<Rightarrow> string \<Rightarrow> bool" where
  "is_transcript_meta tx meta \<longleftrightarrow>
     meta \<noteq> [] \<and> (case tx_meta tx meta of None \<Rightarrow> False | Some m \<Rightarrow> xm_transcript m)"

subsection \<open>Blocks\<close>

definition flatten_tool_result :: "tx_externs \<Rightarrow> string \<Rightarrow> string" where
  "flatten_tool_result tx content =
     (if content = [] then []
      else case tx_text tx content of
        Some s \<Rightarrow> s
      | None \<Rightarrow> (case tx_parts tx content of
          None \<Rightarrow> []
        | Some ps \<Rightarrow> go_join (map snd (filter (\<lambda>p. fst p = ''text'') ps)) [LF]))"

definition to_content_block :: "tx_externs \<Rightarrow> transcript_block \<Rightarrow> content_block" where
  "to_content_block tx b =
     (let cb = empty_block\<lparr>cb_type := xb_type b\<rparr>
      in if xb_type b = ''text'' \<or> xb_type b = [] then cb\<lparr>cb_type := ''text'', cb_text := xb_text b\<rparr>
         else if xb_type b = ''thinking'' then cb\<lparr>thinking := xb_thinking b\<rparr>
         else if xb_type b = ''tool_use'' \<or> xb_type b = ''server_tool_use'' then
           cb\<lparr>tool_use_id := xb_id b, tool_name := xb_name b, tool_input := xb_input b\<rparr>
         else if xb_type b = ''tool_result'' then
           cb\<lparr>tool_result_id := xb_tool_use_id b, tool_output := flatten_tool_result tx (xb_content b),
              is_error := xb_is_error b\<rparr>
         else if xb_type b = ''image'' then cb
         else cb\<lparr>cb_text := xb_text b\<rparr>)"

definition text_block :: "string \<Rightarrow> content_block" where
  "text_block s = empty_block\<lparr>cb_type := ''text'', cb_text := s\<rparr>"

definition transcript_blocks :: "tx_externs \<Rightarrow> string \<Rightarrow> content_block list" where
  "transcript_blocks tx content =
     (if content = [] then []
      else case tx_text tx content of
        Some s \<Rightarrow> [text_block s]
      | None \<Rightarrow> (case tx_blocks tx content of
          None \<Rightarrow> []
        | Some raw \<Rightarrow> map (to_content_block tx) raw))"

definition block_signature :: "tx_externs \<Rightarrow> content_block \<Rightarrow> string" where
  "block_signature tx b =
     (case project_content [b] of
        [] \<Rightarrow> []
      | p # _ \<Rightarrow> if cb_type p = ''thinking'' then []
                 else (case tx_sign tx p of None \<Rightarrow> [] | Some s \<Rightarrow> s))"

subsection \<open>Parsing a file\<close>

definition decode_record :: "tx_externs \<Rightarrow> string \<Rightarrow> transcript_record" where
  "decode_record tx raw = (case tx_record tx raw of
     Some r \<Rightarrow> r\<lparr>xr_decoded := True\<rparr>
   | None \<Rightarrow> empty_record\<lparr>xr_type := (if tx_head_type tx raw = [] then ''unknown'' else tx_head_type tx raw)\<rparr>)"

definition record_signatures :: "tx_externs \<Rightarrow> transcript_record \<Rightarrow> string list" where
  "record_signatures tx r =
     filter (\<lambda>s. s \<noteq> []) (map (block_signature tx) (transcript_blocks tx (xr_message_content r)))"

definition scan_record :: "tx_externs \<Rightarrow> transcript_record \<Rightarrow> transcript_file \<Rightarrow> transcript_file" where
  "scan_record tx r f =
     (if \<not> xr_decoded r then f
      else f\<lparr>tf_kind := (if tf_kind f = [] then sub_agent_activity_kind r else tf_kind f),
             tf_signatures := tf_signatures f @ record_signatures tx r\<rparr>)"

definition new_transcript_file ::
  "raw_turn_record \<Rightarrow> transcript_meta_fields \<Rightarrow> transcript_record list \<Rightarrow> transcript_file"
where
  "new_transcript_file rec m records =
     \<lparr>tf_session = \<lparr>harness_id = rt_harness_id rec, harness_session_id = rt_harness_session_id rec\<rparr>,
      tf_agent_id = xm_agent_id m, tf_agent_type = xm_agent_type m, tf_description = xm_description m,
      tf_tool_use_id = xm_tool_use_id m, tf_raw_turn_id = rt_id rec, tf_kind = xm_kind m,
      tf_signatures = [], tf_records = records, tf_received_at = rt_received_at rec\<rparr>"

definition parse_transcript_file :: "tx_externs \<Rightarrow> raw_turn_record \<Rightarrow> string + transcript_file" where
  "parse_transcript_file tx rec =
     (case (if rt_meta rec = [] then Some empty_transcript_meta else tx_meta tx (rt_meta rec)) of
        None \<Rightarrow> Inl ''decode meta''
      | Some m \<Rightarrow>
          (case tx_list tx (rt_raw_request rec) of
             None \<Rightarrow> Inl ''decode records''
           | Some raws \<Rightarrow>
               (let records = map (decode_record tx) raws
                in Inr (fold (scan_record tx) records (new_transcript_file rec m records)))))"

subsection \<open>Facts\<close>

lemma scan_record_frame [simp]:
  "tf_session (scan_record tx r f) = tf_session f" "tf_agent_id (scan_record tx r f) = tf_agent_id f"
  "tf_tool_use_id (scan_record tx r f) = tf_tool_use_id f" "tf_records (scan_record tx r f) = tf_records f"
  by (simp_all add: scan_record_def)

lemma scan_fold_frame [simp]:
  "tf_session (fold (scan_record tx) rs f) = tf_session f"
  "tf_agent_id (fold (scan_record tx) rs f) = tf_agent_id f"
  "tf_tool_use_id (fold (scan_record tx) rs f) = tf_tool_use_id f"
  "tf_records (fold (scan_record tx) rs f) = tf_records f"
  by (induction rs arbitrary: f) simp_all

text \<open>The kind is the marker of the row, else that of the first decoded record that carries one.\<close>

lemma scan_fold_kind:
  "tf_kind (fold (scan_record tx) rs f) =
     (if tf_kind f \<noteq> [] then tf_kind f
      else case find (\<lambda>k. k \<noteq> []) (map sub_agent_activity_kind (filter xr_decoded rs)) of
             None \<Rightarrow> [] | Some k \<Rightarrow> k)"
  by (induction rs arbitrary: f) (auto simp: scan_record_def split: option.split)

lemma scan_fold_signatures:
  "tf_signatures (fold (scan_record tx) rs f) =
     tf_signatures f @ concat (map (record_signatures tx) (filter xr_decoded rs))"
  by (induction rs arbitrary: f) (simp_all add: scan_record_def)

lemma signatures_nonempty:
  "parse_transcript_file tx rec = Inr f \<Longrightarrow> [] \<notin> set (tf_signatures f)"
  by (auto simp: parse_transcript_file_def Let_def scan_fold_signatures new_transcript_file_def record_signatures_def
      split: option.splits if_splits)

end
