(* ===== verification/Reconcile.thy ===== *)
theory Reconcile
  imports Transcript SpanReads
begin

text \<open>
  \<open>pkg/derive/reconcile.go\<close> and the spawn joins of \<open>codex.go\<close>: each wire conversation chain
  is assigned to the transcript file whose content it matches and its nodes get the fork edge of
  that file; every Codex thread call is anchored to the spawn that created its thread.

  Nodes and sources are heap indices, as in Deriver; the walk over a chain is the code's stack
  of nodes with the set of seen hashes. The candidates of a session keep their order, so that a
  file is its position among them.
\<close>

record reconcile_stats =
  rs_transcript_files :: int
  rs_subagent_forks :: int
  rs_forked_chains :: int
  rs_main_chains_joined :: int
  rs_conversation_joined :: int
  rs_conversation_total :: int
  rs_codex_threads_anchored :: int
  rs_codex_threads_unanchored :: int
  rs_codex_interacted_rows :: int

definition zero_reconcile_stats :: reconcile_stats where
  "zero_reconcile_stats = \<lparr>rs_transcript_files = 0, rs_subagent_forks = 0, rs_forked_chains = 0,
     rs_main_chains_joined = 0, rs_conversation_joined = 0, rs_conversation_total = 0,
     rs_codex_threads_anchored = 0, rs_codex_threads_unanchored = 0, rs_codex_interacted_rows = 0\<rparr>"

subsection \<open>The walk over a chain\<close>

definition main_node :: "derived_node \<Rightarrow> bool" where
  "main_node d \<longleftrightarrow> n_kind (dn_node d) = kind_main"

definition chain_children :: "derived_node list \<Rightarrow> string \<Rightarrow> nat list" where
  "chain_children ns h =
     filter (\<lambda>i. main_node (ns ! i) \<and> n_parent_hash (dn_node (ns ! i)) = Some h) [0..<length ns]"

definition chain_roots :: "derived_node list \<Rightarrow> nat list" where
  "chain_roots ns = filter (\<lambda>i. main_node (ns ! i) \<and> n_parent_hash (dn_node (ns ! i)) = None) [0..<length ns]"

record chain_walk =
  cw_seen :: "string list"
  cw_chain :: "nat list"
  cw_overlap :: "nat list"
  cw_joined :: int
  cw_total :: int

text \<open>One block against the candidates: the overlap counts, and whether a file holds it.\<close>

definition score_block ::
  "tx_externs \<Rightarrow> transcript_file list \<Rightarrow> content_block \<Rightarrow> nat list \<times> bool \<Rightarrow> nat list \<times> bool"
where
  "score_block tx cands b st =
     (let sig = block_signature tx b
      in if sig = [] then st
         else (map2 (\<lambda>f n. if sig \<in> set (tf_signatures f) then n + 1 else n) cands (fst st),
               snd st \<or> list_ex (\<lambda>f. sig \<in> set (tf_signatures f)) cands))"

definition visit_node :: "tx_externs \<Rightarrow> transcript_file list \<Rightarrow> derived_node list \<Rightarrow> nat \<Rightarrow> chain_walk \<Rightarrow> chain_walk" where
  "visit_node tx cands ns i w =
     (let (overlap, matched) = fold (score_block tx cands) (b_content (n_bucket (dn_node (ns ! i)))) (cw_overlap w, False)
      in w\<lparr>cw_seen := hash_at ns i # cw_seen w, cw_chain := cw_chain w @ [i], cw_overlap := overlap,
           cw_joined := (if matched then cw_joined w + 1 else cw_joined w), cw_total := cw_total w + 1\<rparr>)"

lemma visit_node_seen [simp]: "cw_seen (visit_node tx cands ns i w) = hash_at ns i # cw_seen w"
  by (simp add: visit_node_def split_def Let_def)

text \<open>The stack's last element is the list's head here. A pointer is always in range.\<close>

function walk_chain ::
  "tx_externs \<Rightarrow> transcript_file list \<Rightarrow> derived_node list \<Rightarrow> nat list \<Rightarrow> chain_walk \<Rightarrow> chain_walk"
where
  "walk_chain tx cands ns [] w = w"
| "walk_chain tx cands ns (i # stack) w =
     (if length ns \<le> i \<or> hash_at ns i \<in> set (cw_seen w) then walk_chain tx cands ns stack w
      else walk_chain tx cands ns (rev (chain_children ns (hash_at ns i)) @ stack) (visit_node tx cands ns i w))"
  by pat_completeness auto

definition unseen :: "derived_node list \<Rightarrow> chain_walk \<Rightarrow> nat" where
  "unseen ns w = length (filter (\<lambda>d. n_hash (dn_node d) \<notin> set (cw_seen w)) ns)"

lemma unseen_visit:
  assumes "i < length ns" "hash_at ns i \<notin> set (cw_seen w)"
  shows "unseen ns (visit_node tx cands ns i w) < unseen ns w"
proof -
  have "length (filter (\<lambda>d. n_hash (dn_node d) \<notin> set (cw_seen w) \<and> n_hash (dn_node d) \<noteq> hash_at ns i) ns)
      < length (filter (\<lambda>d. n_hash (dn_node d) \<notin> set (cw_seen w)) ns)"
  proof -
    have "filter (\<lambda>d. n_hash (dn_node d) \<notin> set (cw_seen w) \<and> n_hash (dn_node d) \<noteq> hash_at ns i) ns
        = filter (\<lambda>d. n_hash (dn_node d) \<noteq> hash_at ns i) (filter (\<lambda>d. n_hash (dn_node d) \<notin> set (cw_seen w)) ns)"
      by (simp add: conj_commute)
    moreover have "ns ! i \<in> set (filter (\<lambda>d. n_hash (dn_node d) \<notin> set (cw_seen w)) ns)"
      using assms by (simp add: hash_at_def)
    ultimately show ?thesis by (simp only:) (rule length_filter_less, auto simp: hash_at_def)
  qed
  then show ?thesis by (simp add: unseen_def ac_simps conj_commute)
qed

termination walk_chain
  by (relation "measures [\<lambda>(tx, cands, ns, stack, w). unseen ns w, \<lambda>(tx, cands, ns, stack, w). length stack]")
    (simp_all add: unseen_visit)

definition new_walk :: "transcript_file list \<Rightarrow> chain_walk" where
  "new_walk cands = \<lparr>cw_seen = [], cw_chain = [], cw_overlap = map (\<lambda>_. 0) cands, cw_joined = 0, cw_total = 0\<rparr>"

subsection \<open>The file of a chain\<close>

text \<open>The first candidate of the greatest overlap, if it is not zero.\<close>

fun best_overlap :: "(transcript_file \<times> nat) list \<Rightarrow> (transcript_file \<times> nat) option \<Rightarrow> (transcript_file \<times> nat) option" where
  "best_overlap [] best = best"
| "best_overlap ((f, n) # rest) best =
     best_overlap rest (case best of None \<Rightarrow> Some (f, n) | Some (g, m) \<Rightarrow> if m < n then Some (f, n) else best)"

definition best_file :: "transcript_file list \<Rightarrow> string \<Rightarrow> nat list \<Rightarrow> transcript_file option" where
  "best_file cands thread overlap =
     (case (if thread \<noteq> [] then find (\<lambda>f. tf_agent_id f = thread) cands else None) of
        Some f \<Rightarrow> Some f
      | None \<Rightarrow>
          (case best_overlap (zip cands overlap) None of
             None \<Rightarrow> None
           | Some (f, n) \<Rightarrow> if n = 0 then None else Some f))"

subsection \<open>Chains\<close>

definition stamp_fork :: "string \<Rightarrow> derived_node \<Rightarrow> derived_node" where
  "stamp_fork tid d =
     (if main_node d then d\<lparr>dn_node := (dn_node d)\<lparr>n_parent_tool_use_id := tid\<rparr>\<rparr> else d)"

definition stamp_chain :: "string \<Rightarrow> nat list \<Rightarrow> derived_node list \<Rightarrow> derived_node list" where
  "stamp_chain tid chain ns = fold (\<lambda>i ns. upd_at ns i (stamp_fork tid)) chain ns"

definition session_files :: "transcript_file list \<Rightarrow> session_key \<Rightarrow> transcript_file list" where
  "session_files files s = filter (\<lambda>f. tf_session f = s) (filter spawn_evidence files)"

text \<open>What a root's iteration finds: nothing when the root is not a candidate for the join, else the
  walk and the chosen file.\<close>

definition root_outcome ::
  "tx_externs \<Rightarrow> transcript_file list \<Rightarrow> (session_key \<Rightarrow> bool) \<Rightarrow> derived_node list \<Rightarrow> nat
     \<Rightarrow> (chain_walk \<times> transcript_file option) option"
where
  "root_outcome tx files authoritative ns r =
     (let d = ns ! r; cands = session_files files (dn_session d)
      in if \<not> authoritative (dn_session d) \<or> cands = [] then None
         else let w = walk_chain tx cands ns [r] (new_walk cands)
              in Some (w, best_file cands (n_thread_id (dn_node d)) (cw_overlap w)))"

definition join_root ::
  "tx_externs \<Rightarrow> transcript_file list \<Rightarrow> (session_key \<Rightarrow> bool) \<Rightarrow> nat
     \<Rightarrow> derived_node list \<times> reconcile_stats \<Rightarrow> derived_node list \<times> reconcile_stats"
where
  "join_root tx files authoritative r st =
     (let (ns, stats) = st
      in case root_outcome tx files authoritative ns r of
           None \<Rightarrow> st
         | Some (w, best) \<Rightarrow>
             (let stats1 = stats\<lparr>rs_conversation_total := rs_conversation_total stats + cw_total w,
                                rs_conversation_joined := rs_conversation_joined stats + cw_joined w\<rparr>
              in case best of
                   None \<Rightarrow> (ns, stats1)
                 | Some f \<Rightarrow>
                     if tf_agent_id f = [] then (ns, stats1\<lparr>rs_main_chains_joined := rs_main_chains_joined stats1 + 1\<rparr>)
                     else if tf_tool_use_id f = [] then (ns, stats1)
                     else (stamp_chain (tf_tool_use_id f) (cw_chain w) ns,
                           stats1\<lparr>rs_forked_chains := rs_forked_chains stats1 + 1\<rparr>)))"

definition reconcile_transcript_chains ::
  "tx_externs \<Rightarrow> transcript_file list \<Rightarrow> (session_key \<Rightarrow> bool) \<Rightarrow> bool
     \<Rightarrow> derived_set \<times> reconcile_stats \<Rightarrow> derived_set \<times> reconcile_stats"
where
  "reconcile_transcript_chains tx files authoritative none_authoritative st =
     (let (ds, stats) = st
      in if files = [] \<or> ds_nodes ds = [] \<or> none_authoritative then st
         else let (ns, stats1) = fold (join_root tx files authoritative) (chain_roots (ds_nodes ds)) (ds_nodes ds, stats)
              in (ds\<lparr>ds_nodes := ns\<rparr>, stats1))"

subsection \<open>Codex spawns\<close>

definition harness_codex :: string where "harness_codex = ''codex''"

definition spawn_task_name :: "tx_externs \<Rightarrow> string \<Rightarrow> string" where
  "spawn_task_name tx out = (case tx_task_name tx out of None \<Rightarrow> [] | Some n \<Rightarrow> n)"

definition trim_slashes :: "string \<Rightarrow> string" where
  "trim_slashes s = rev (dropWhile ((=) (CHR ''/'')) (rev (dropWhile ((=) (CHR ''/'')) s)))"

definition last_path_segment :: "string \<Rightarrow> string" where
  "last_path_segment path = last (go_split (trim_slashes path) ''/'')"

type_synonym thread_files = "session_key \<Rightarrow> string \<Rightarrow> transcript_file option"

definition anchor_file :: "transcript_file \<Rightarrow> bool" where
  "anchor_file f \<longleftrightarrow> harness_id (tf_session f) = harness_codex \<and> tf_agent_id f \<noteq> [] \<and> tf_tool_use_id f \<noteq> []"

definition note_anchor_file :: "transcript_file \<Rightarrow> thread_files \<times> int \<Rightarrow> thread_files \<times> int" where
  "note_anchor_file f st =
     (let (byt, interacted) = st
      in if \<not> anchor_file f then st
         else if \<not> spawn_evidence f then (byt, interacted + 1)
         else (byt(tf_session f := (byt (tf_session f))(tf_agent_id f \<mapsto> f)), interacted))"

record spawn_join =
  sj_by_path :: "string \<Rightarrow> string option"
  sj_ambiguous :: "string set"

definition empty_join :: spawn_join where
  "empty_join = \<lparr>sj_by_path = Map.empty, sj_ambiguous = {}\<rparr>"

definition codex_wire :: "span_source \<Rightarrow> bool" where
  "codex_wire src \<longleftrightarrow> ss_source src = source_wire \<and> harness_id (ss_session src) = harness_codex"

definition note_spawn_output :: "tx_externs \<Rightarrow> content_block \<Rightarrow> spawn_join \<Rightarrow> spawn_join" where
  "note_spawn_output tx b j =
     (if cb_type b \<noteq> ''tool_result'' \<or> tool_result_id b = [] then j
      else let name = spawn_task_name tx (tool_output b)
        in if name = [] then j
           else case sj_by_path j name of
                  Some prev \<Rightarrow> if prev \<noteq> tool_result_id b then j\<lparr>sj_ambiguous := insert name (sj_ambiguous j)\<rparr>
                               else j\<lparr>sj_by_path := (sj_by_path j)(name \<mapsto> tool_result_id b)\<rparr>
                | None \<Rightarrow> j\<lparr>sj_by_path := (sj_by_path j)(name \<mapsto> tool_result_id b)\<rparr>)"

definition source_blocks :: "derived_node list \<Rightarrow> span_source \<Rightarrow> content_block list" where
  "source_blocks ns src =
     concat (map (\<lambda>(i, new). if new then b_content (n_bucket (dn_node (ns ! i))) else []) (zip (ss_chain src) (ss_new src)))"

type_synonym spawn_joins = "session_key \<Rightarrow> spawn_join option"

definition note_spawns :: "tx_externs \<Rightarrow> derived_node list \<Rightarrow> span_source \<Rightarrow> spawn_joins \<Rightarrow> spawn_joins" where
  "note_spawns tx ns src js =
     (if \<not> codex_wire src then js
      else let j = (case js (ss_session src) of None \<Rightarrow> empty_join | Some j \<Rightarrow> j)
           in js(ss_session src \<mapsto> fold (note_spawn_output tx) (source_blocks ns src) j))"

definition no_label :: spawn_label where
  "no_label = \<lparr>sl_subagent_type = [], sl_description = []\<rparr>"

type_synonym codex_threads = "session_key \<Rightarrow> (string \<Rightarrow> codex_thread_meta option) option"

definition thread_meta_of :: "codex_threads \<Rightarrow> span_source \<Rightarrow> codex_thread_meta" where
  "thread_meta_of threads src =
     (case threads (ss_session src) of
        None \<Rightarrow> \<lparr>ctm_agent_path = [], ctm_nickname = []\<rparr>
      | Some ts \<Rightarrow> (case ts (ss_thread_id src) of
            None \<Rightarrow> \<lparr>ctm_agent_path = [], ctm_nickname = []\<rparr> | Some m \<Rightarrow> m))"

definition call_anchor :: "thread_files \<Rightarrow> spawn_joins \<Rightarrow> codex_thread_meta \<Rightarrow> span_source \<Rightarrow> string \<times> spawn_label" where
  "call_anchor byt js meta src =
     (case byt (ss_session src) (ss_thread_id src) of
        Some f \<Rightarrow> (tf_tool_use_id f, \<lparr>sl_subagent_type = tf_agent_type f, sl_description = tf_description f\<rparr>)
      | None \<Rightarrow>
          (case js (ss_session src) of
             None \<Rightarrow> ([], no_label)
           | Some j \<Rightarrow>
               if ctm_agent_path meta \<noteq> [] \<and> ctm_agent_path meta \<notin> sj_ambiguous j
               then (map_get (sj_by_path j) (ctm_agent_path meta) [], no_label) else ([], no_label)))"

definition refine_label :: "codex_thread_meta \<Rightarrow> spawn_label \<Rightarrow> spawn_label" where
  "refine_label meta l0 =
     (let l1 = (if ctm_nickname meta \<noteq> [] then l0\<lparr>sl_subagent_type := ctm_nickname meta\<rparr> else l0);
          l2 = (if sl_description l1 = [] then l1\<lparr>sl_description := ctm_agent_path meta\<rparr> else l1)
      in if sl_subagent_type l2 = [] \<and> ctm_agent_path meta \<noteq> []
         then l2\<lparr>sl_subagent_type := last_path_segment (ctm_agent_path meta)\<rparr> else l2)"

record codex_pass =
  cp_sources :: "span_source list"
  cp_labels :: "string \<Rightarrow> spawn_label option"
  cp_anchored :: "string set"
  cp_seen :: "string list"

definition codex_thread_key :: "span_source \<Rightarrow> string" where
  "codex_thread_key src =
     harness_id (ss_session src) @ ''|'' @ harness_session_id (ss_session src) @ ''|'' @ ss_thread_id src"

text \<open>What the loop finds for one call: its thread's key, its anchor and its label.\<close>

definition call_plan :: "codex_threads \<Rightarrow> thread_files \<Rightarrow> spawn_joins \<Rightarrow> span_source \<Rightarrow> (string \<times> string \<times> spawn_label) option" where
  "call_plan threads byt js src =
     (if \<not> codex_wire src \<or> ss_thread_id src = [] then None
      else let meta = thread_meta_of threads src;
               (anchor, l0) = call_anchor byt js meta src
           in Some (codex_thread_key src, anchor, refine_label meta l0))"

definition anchor_call :: "codex_threads \<Rightarrow> thread_files \<Rightarrow> spawn_joins \<Rightarrow> nat \<Rightarrow> codex_pass \<Rightarrow> codex_pass" where
  "anchor_call threads byt js i st =
     (let src = cp_sources st ! i
      in case call_plan threads byt js src of
           None \<Rightarrow> st
         | Some (key, anchor, label) \<Rightarrow>
             (let st1 = (if anchor = [] then st
                else st\<lparr>cp_sources := upd_at (cp_sources st) i (\<lambda>s. s\<lparr>ss_anchor := anchor\<rparr>),
                        cp_anchored := insert key (cp_anchored st),
                        cp_labels := (if label \<noteq> no_label
                          then (cp_labels st)(tool_key (ss_session src) anchor \<mapsto> label) else cp_labels st)\<rparr>)
              in st1\<lparr>cp_seen := List.insert key (cp_seen st1)\<rparr>))"

definition reconcile_codex_spawns ::
  "tx_externs \<Rightarrow> transcript_file list \<Rightarrow> derived_set \<times> reconcile_stats \<Rightarrow> derived_set \<times> reconcile_stats"
where
  "reconcile_codex_spawns tx files st =
     (let (ds, stats) = st;
          (byt, interacted) = fold note_anchor_file files (\<lambda>_. Map.empty, 0);
          js = fold (note_spawns tx (ds_nodes ds)) (ds_sources ds) Map.empty;
          pass = fold (anchor_call (ds_codex_threads ds) byt js) [0..<length (ds_sources ds)]
                   \<lparr>cp_sources = ds_sources ds, cp_labels = ds_spawn_labels ds, cp_anchored = {}, cp_seen = []\<rparr>;
          anchored = int (length (filter (\<lambda>k. k \<in> cp_anchored pass) (cp_seen pass)));
          unanchored = int (length (filter (\<lambda>k. k \<notin> cp_anchored pass) (cp_seen pass)))
      in (ds\<lparr>ds_sources := cp_sources pass, ds_spawn_labels := cp_labels pass\<rparr>,
          stats\<lparr>rs_codex_interacted_rows := rs_codex_interacted_rows stats + interacted,
                rs_codex_threads_anchored := rs_codex_threads_anchored stats + anchored,
                rs_codex_threads_unanchored := rs_codex_threads_unanchored stats + unanchored\<rparr>))"

subsection \<open>The whole pass\<close>

definition main_from :: "string \<Rightarrow> derived_set \<Rightarrow> session_key \<Rightarrow> bool" where
  "main_from source ds s \<longleftrightarrow>
     list_ex (\<lambda>src. ss_kind src = kind_main \<and> ss_source src = source \<and> ss_session src = s) (ds_sources ds)"

definition authoritative :: "derived_set \<Rightarrow> session_key \<Rightarrow> bool" where
  "authoritative ds s \<longleftrightarrow> main_from source_wire ds s \<and> \<not> main_from source_transcript ds s"

definition none_authoritative :: "derived_set \<Rightarrow> bool" where
  "none_authoritative ds \<longleftrightarrow> \<not> list_ex (\<lambda>src. authoritative ds (ss_session src)) (ds_sources ds)"

definition fork_ids :: "transcript_file list \<Rightarrow> string list" where
  "fork_ids files = remdups (map tf_tool_use_id
     (filter (\<lambda>f. spawn_evidence f \<and> tf_agent_id f \<noteq> [] \<and> tf_tool_use_id f \<noteq> []) files))"

definition reconcile_transcripts :: "tx_externs \<Rightarrow> derived_set \<Rightarrow> transcript_file list \<Rightarrow> derived_set \<times> reconcile_stats" where
  "reconcile_transcripts tx ds files =
     (let stats = zero_reconcile_stats\<lparr>rs_transcript_files := int (length files),
                    rs_subagent_forks := int (length (fork_ids files))\<rparr>
      in reconcile_codex_spawns tx files
           (reconcile_transcript_chains tx files (authoritative ds) (none_authoritative ds) (ds, stats)))"

subsection \<open>Rows that are no spawn evidence\<close>

lemma session_files_evidence: "session_files (filter spawn_evidence files) s = session_files files s"
  by (simp add: session_files_def)

lemma fork_ids_evidence: "fork_ids (filter spawn_evidence files) = fork_ids files"
  by (simp add: fork_ids_def conj_ac)

lemma join_root_evidence: "join_root tx (filter spawn_evidence files) = join_root tx files"
  by (intro ext) (simp add: join_root_def root_outcome_def session_files_evidence)

lemma join_root_no_evidence:
  assumes "filter spawn_evidence files = []"
  shows "join_root tx files a r st = st"
proof -
  have "session_files files s = []" for s using assms by (simp add: session_files_def)
  then show ?thesis by (simp add: join_root_def root_outcome_def split_def Let_def)
qed

definition relabel :: "int \<Rightarrow> int \<Rightarrow> reconcile_stats \<Rightarrow> reconcile_stats" where
  "relabel n m st = st\<lparr>rs_transcript_files := n, rs_codex_interacted_rows := m\<rparr>"

lemma join_root_relabel:
  "join_root tx files a r (ns, relabel n m st) = map_prod id (relabel n m) (join_root tx files a r (ns, st))"
  by (simp add: join_root_def relabel_def Let_def split: option.split prod.split)

lemma join_fold_relabel:
  "fold (join_root tx files a) rs (ns, relabel n m st) = map_prod id (relabel n m) (fold (join_root tx files a) rs (ns, st))"
proof (induction rs arbitrary: ns st)
  case (Cons r rs)
  obtain ns1 st1 where "join_root tx files a r (ns, st) = (ns1, st1)" by fastforce
  then show ?case using Cons.IH by (simp add: join_root_relabel)
qed simp

lemma chains_relabel:
  "reconcile_transcript_chains tx files a na (ds, relabel n m st)
     = map_prod id (relabel n m) (reconcile_transcript_chains tx files a na (ds, st))"
  unfolding reconcile_transcript_chains_def using join_fold_relabel [of tx files a _ _ n m st]
  by (simp add: Let_def split_def map_prod_def)

lemma chains_evidence:
  "reconcile_transcript_chains tx (filter spawn_evidence files) a na st = reconcile_transcript_chains tx files a na st"
proof (cases "filter spawn_evidence files = []")
  case True
  have "fold (join_root tx files a) rs x = x" for rs x
    by (induction rs) (simp_all add: join_root_no_evidence [OF True])
  then show ?thesis by (simp add: reconcile_transcript_chains_def True split_def Let_def)
next
  case False
  then have "files \<noteq> []" by auto
  with False show ?thesis
    unfolding reconcile_transcript_chains_def by (simp only: join_root_evidence simp_thms)
qed

lemma anchor_files_evidence:
  "fold note_anchor_file (filter spawn_evidence files) (byt, n) = (fst (fold note_anchor_file files (byt, m)), n)"
  by (induction files arbitrary: byt m) (auto simp: note_anchor_file_def)

lemma codex_evidence:
  "reconcile_codex_spawns tx (filter spawn_evidence files) (ds, relabel n 0 st)
     = map_prod id (relabel n 0) (reconcile_codex_spawns tx files (ds, st))"
proof -
  obtain byt m where f: "fold note_anchor_file files (\<lambda>_. Map.empty, 0) = (byt, m)" by fastforce
  then have g: "fold note_anchor_file (filter spawn_evidence files) (\<lambda>_. Map.empty, 0) = (byt, 0)"
    using anchor_files_evidence [of files "\<lambda>_. Map.empty" 0 0] by simp
  show ?thesis unfolding reconcile_codex_spawns_def by (simp add: f g Let_def relabel_def)
qed

subsection \<open>Running the pass again\<close>

text \<open>The walk and the choice of the file do not read the fork edges.\<close>

lemma forget_link_reads [simp]:
  "n_kind (dn_node (forget_link d)) = n_kind (dn_node d)" "n_hash (dn_node (forget_link d)) = n_hash (dn_node d)"
  "n_parent_hash (dn_node (forget_link d)) = n_parent_hash (dn_node d)"
  "n_bucket (dn_node (forget_link d)) = n_bucket (dn_node d)"
  "n_thread_id (dn_node (forget_link d)) = n_thread_id (dn_node d)"
  "dn_session (forget_link d) = dn_session d" "main_node (forget_link d) = main_node d"
  by (simp_all add: forget_link_def main_node_def)

lemma hash_at_forget: "i < length ns \<Longrightarrow> hash_at (map forget_link ns) i = hash_at ns i"
  by (simp add: hash_at_def)

lemma chain_children_forget: "chain_children (map forget_link ns) h = chain_children ns h"
  unfolding chain_children_def by (auto intro: filter_cong)

lemma chain_roots_forget: "chain_roots (map forget_link ns) = chain_roots ns"
  unfolding chain_roots_def by (auto intro: filter_cong)

lemma visit_node_forget: "i < length ns \<Longrightarrow> visit_node tx cands (map forget_link ns) i w = visit_node tx cands ns i w"
  by (simp add: visit_node_def hash_at_forget)

lemma walk_chain_forget: "walk_chain tx cands (map forget_link ns) stack w = walk_chain tx cands ns stack w"
proof (induction tx cands ns stack w rule: walk_chain.induct)
  case (2 tx cands ns i stack w)
  show ?case
  proof (cases "length ns \<le> i \<or> hash_at ns i \<in> set (cw_seen w)")
    case True
    then have "length ns \<le> i \<or> hash_at (map forget_link ns) i \<in> set (cw_seen w)"
      using hash_at_forget [of i ns] by (cases "length ns \<le> i") auto
    with True 2(1) show ?thesis by simp
  next
    case False
    with 2(2) show ?thesis by (simp add: hash_at_forget chain_children_forget visit_node_forget not_le)
  qed
qed simp

declare walk_chain.simps [simp del]

lemma root_outcome_forget:
  "r < length ns \<Longrightarrow> root_outcome tx files a (map forget_link ns) r = root_outcome tx files a ns r"
  by (simp add: root_outcome_def walk_chain_forget Let_def)

lemma root_outcome_same:
  assumes "map forget_link ns = map forget_link ns'" "r < length ns"
  shows "root_outcome tx files a ns r = root_outcome tx files a ns' r"
proof -
  have "length ns = length ns'" using assms(1) by (rule map_eq_imp_length_eq)
  with assms root_outcome_forget [of r ns tx files a] root_outcome_forget [of r ns' tx files a] show ?thesis by simp
qed

text \<open>Stamps, as a map from positions to fork edges: the last one wins.\<close>

definition put_links :: "(nat \<Rightarrow> string option) \<Rightarrow> derived_node list \<Rightarrow> derived_node list" where
  "put_links M ns = map (\<lambda>(i, d). case M i of None \<Rightarrow> d | Some tid \<Rightarrow> stamp_fork tid d) (zip [0..<length ns] ns)"

lemma length_put_links [simp]: "length (put_links M ns) = length ns"
  by (simp add: put_links_def)

lemma nth_put_links:
  "i < length ns \<Longrightarrow> put_links M ns ! i = (case M i of None \<Rightarrow> ns ! i | Some tid \<Rightarrow> stamp_fork tid (ns ! i))"
  by (simp add: put_links_def)

lemma stamp_fork_forget [simp]: "forget_link (stamp_fork tid d) = forget_link d"
  by (simp add: stamp_fork_def forget_link_def)

lemma stamp_fork_stamp [simp]: "stamp_fork tid (stamp_fork tid' d) = stamp_fork tid d"
  by (simp add: stamp_fork_def main_node_def)

lemma put_links_forget [simp]: "map forget_link (put_links M ns) = map forget_link ns"
  by (rule nth_equalityI) (simp_all add: nth_put_links split: option.split)

lemma put_links_empty [simp]: "put_links Map.empty ns = ns"
  by (rule nth_equalityI) (simp_all add: nth_put_links)

lemma put_links_put: "put_links M (put_links N ns) = put_links (N ++ M) ns"
  by (rule nth_equalityI) (simp_all add: nth_put_links map_add_def split: option.split)

lemma stamp_chain_links: "stamp_chain tid chain ns = put_links (\<lambda>i. if i \<in> set chain then Some tid else None) ns"
proof -
  have "length (stamp_chain tid chain ns) = length ns"
    unfolding stamp_chain_def by (induction chain arbitrary: ns) simp_all
  moreover have "i < length ns \<Longrightarrow> stamp_chain tid chain ns ! i = (if i \<in> set chain then stamp_fork tid (ns ! i) else ns ! i)" for i
    unfolding stamp_chain_def by (induction chain arbitrary: ns) auto
  ultimately show ?thesis by (intro nth_equalityI) (simp_all add: nth_put_links)
qed

text \<open>The stamps and the counts of one root, read off its outcome.\<close>

definition outcome_links :: "(chain_walk \<times> transcript_file option) option \<Rightarrow> nat \<Rightarrow> string option" where
  "outcome_links oc = (case oc of
     Some (w, Some f) \<Rightarrow> if tf_agent_id f \<noteq> [] \<and> tf_tool_use_id f \<noteq> []
       then (\<lambda>i. if i \<in> set (cw_chain w) then Some (tf_tool_use_id f) else None) else Map.empty
   | _ \<Rightarrow> Map.empty)"

definition outcome_stats :: "(chain_walk \<times> transcript_file option) option \<Rightarrow> reconcile_stats \<Rightarrow> reconcile_stats" where
  "outcome_stats oc stats = snd (case oc of
           None \<Rightarrow> ((), stats)
         | Some (w, best) \<Rightarrow>
             (let stats1 = stats\<lparr>rs_conversation_total := rs_conversation_total stats + cw_total w,
                                rs_conversation_joined := rs_conversation_joined stats + cw_joined w\<rparr>
              in case best of
                   None \<Rightarrow> ((), stats1)
                 | Some f \<Rightarrow>
                     if tf_agent_id f = [] then ((), stats1\<lparr>rs_main_chains_joined := rs_main_chains_joined stats1 + 1\<rparr>)
                     else if tf_tool_use_id f = [] then ((), stats1)
                     else ((), stats1\<lparr>rs_forked_chains := rs_forked_chains stats1 + 1\<rparr>)))"

lemma join_root_outcome:
  "join_root tx files a r (ns, stats) =
     (put_links (outcome_links (root_outcome tx files a ns r)) ns, outcome_stats (root_outcome tx files a ns r) stats)"
  by (simp add: join_root_def outcome_links_def outcome_stats_def stamp_chain_links Let_def split: option.split prod.split)

definition roots_links where
  "roots_links tx files a ns rs = foldl (++) Map.empty (map (\<lambda>r. outcome_links (root_outcome tx files a ns r)) rs)"

definition roots_stats where
  "roots_stats tx files a ns rs = fold (\<lambda>r. outcome_stats (root_outcome tx files a ns r)) rs"

lemma foldl_map_add: "foldl (++) M Ms = M ++ foldl (++) Map.empty Ms"
proof (induction Ms arbitrary: M)
  case (Cons N Ms)
  have "foldl (++) M (N # Ms) = (M ++ N) ++ foldl (++) Map.empty Ms" using Cons [of "M ++ N"] by simp
  also have "\<dots> = M ++ foldl (++) Map.empty (N # Ms)" using Cons [of N] by simp
  finally show ?case .
qed simp

lemma join_fold_closed:
  assumes "map forget_link ns = map forget_link ns0" "\<forall>r\<in>set rs. r < length ns0"
  shows "fold (join_root tx files a) rs (ns, stats) =
     (put_links (roots_links tx files a ns0 rs) ns, roots_stats tx files a ns0 rs stats)"
  using assms
proof (induction rs arbitrary: ns stats)
  case (Cons r rs)
  have len: "length ns = length ns0" using Cons.prems(1) by (rule map_eq_imp_length_eq)
  have "root_outcome tx files a ns r = root_outcome tx files a ns0 r"
    using Cons.prems len by (intro root_outcome_same) simp_all
  then show ?case
    using Cons.IH [of "put_links (outcome_links (root_outcome tx files a ns0 r)) ns"] Cons.prems
    by (simp add: join_root_outcome roots_links_def roots_stats_def put_links_put
        foldl_map_add [of "outcome_links (root_outcome tx files a ns0 r)"])
qed (simp add: roots_links_def roots_stats_def)

lemma roots_in_range: "\<forall>r\<in>set (chain_roots ns). r < length ns"
  by (simp add: chain_roots_def)

lemma chain_roots_same: "map forget_link ns = map forget_link ns' \<Longrightarrow> chain_roots ns = chain_roots ns'"
  by (metis chain_roots_forget)

lemma map_add_self: "(M ++ N) ++ N = M ++ N"
  by (simp add: map_add_def fun_eq_iff split: option.split)

text \<open>The chain join depends only on what it does not write, and a second run repeats the first.\<close>

lemma chains_nodes_only:
  "\<exists>M stats'. reconcile_transcript_chains tx files a na (ds, stats) = (ds\<lparr>ds_nodes := put_links M (ds_nodes ds)\<rparr>, stats')"
proof -
  have "ds = ds\<lparr>ds_nodes := put_links Map.empty (ds_nodes ds)\<rparr>" by simp
  then show ?thesis
    using join_fold_closed [OF refl roots_in_range, where tx = tx and files = files and a = a and stats = stats]
    unfolding reconcile_transcript_chains_def Let_def by (auto simp del: put_links_empty)
qed

lemma chains_again:
  assumes "reconcile_transcript_chains tx files a na (ds, stats) = (ds1, stats1)"
    and "ds_nodes ds2 = ds_nodes ds1"
  shows "reconcile_transcript_chains tx files a na (ds2, stats) = (ds2, stats1)"
proof (cases "files = [] \<or> ds_nodes ds = [] \<or> na")
  case True
  then show ?thesis using assms by (auto simp: reconcile_transcript_chains_def)
next
  case False
  let ?ns = "ds_nodes ds" and ?rs = "chain_roots (ds_nodes ds)"
  let ?M = "roots_links tx files a ?ns ?rs"
  have one: "ds_nodes ds1 = put_links ?M ?ns" "stats1 = roots_stats tx files a ?ns ?rs stats"
    using assms(1) False join_fold_closed [OF refl roots_in_range, where tx = tx and files = files and a = a and stats = stats]
    by (auto simp: reconcile_transcript_chains_def)
  have roots: "chain_roots (put_links ?M ?ns) = ?rs" by (rule chain_roots_same) simp
  have ne: "put_links ?M ?ns \<noteq> []" using False by (metis length_0_conv length_put_links)
  have "fold (join_root tx files a) ?rs (put_links ?M ?ns, stats) = (put_links ?M ?ns, stats1)"
    using join_fold_closed [OF put_links_forget [of ?M ?ns] roots_in_range, where tx = tx and files = files and a = a and stats = stats]
    using map_add_self [of Map.empty ?M] by (simp add: one put_links_put)
  then show ?thesis
    using False ne assms(2) one by (simp add: reconcile_transcript_chains_def roots)
qed

text \<open>The Codex pass, call by call. A call's plan does not read the anchor that the pass writes.\<close>

type_synonym call_planner = "span_source \<Rightarrow> (string \<times> string \<times> spawn_label) option"

definition planned_source :: "call_planner \<Rightarrow> span_source \<Rightarrow> span_source" where
  "planned_source P s = (case P s of Some (k, a, l) \<Rightarrow> if a = [] then s else s\<lparr>ss_anchor := a\<rparr> | None \<Rightarrow> s)"

definition planned_label :: "call_planner \<Rightarrow> span_source \<Rightarrow> string \<Rightarrow> spawn_label option" where
  "planned_label P s = (case P s of
     Some (k, a, l) \<Rightarrow> if a \<noteq> [] \<and> l \<noteq> no_label then [tool_key (ss_session s) a \<mapsto> l] else Map.empty
   | None \<Rightarrow> Map.empty)"

definition planned_anchored :: "call_planner \<Rightarrow> span_source list \<Rightarrow> string set" where
  "planned_anchored P srcs = {k. \<exists>s\<in>set srcs. \<exists>a l. P s = Some (k, a, l) \<and> a \<noteq> []}"

definition planned_seen :: "call_planner \<Rightarrow> span_source list \<Rightarrow> string list" where
  "planned_seen P srcs = fold (\<lambda>s ks. case P s of Some (k, a, l) \<Rightarrow> List.insert k ks | None \<Rightarrow> ks) srcs []"

definition planned_labels :: "call_planner \<Rightarrow> span_source list \<Rightarrow> string \<Rightarrow> spawn_label option" where
  "planned_labels P srcs = foldl (++) Map.empty (map (planned_label P) srcs)"

lemma anchor_reads [simp]:
  "codex_wire (s\<lparr>ss_anchor := a\<rparr>) = codex_wire s" "codex_thread_key (s\<lparr>ss_anchor := a\<rparr>) = codex_thread_key s"
  "thread_meta_of th (s\<lparr>ss_anchor := a\<rparr>) = thread_meta_of th s"
  "call_anchor byt js meta (s\<lparr>ss_anchor := a\<rparr>) = call_anchor byt js meta s"
  by (simp_all add: codex_wire_def codex_thread_key_def thread_meta_of_def call_anchor_def split: option.split)

lemma call_plan_anchor [simp]: "call_plan th byt js (s\<lparr>ss_anchor := a\<rparr>) = call_plan th byt js s"
  by (simp add: call_plan_def)

lemma planned_source_same:
  assumes "\<And>s a. P (s\<lparr>ss_anchor := a\<rparr>) = P s"
  shows "P (planned_source P s) = P s" "planned_source P (planned_source P s) = planned_source P s"
    "planned_label P (planned_source P s) = planned_label P s"
proof -
  show p: "P (planned_source P s) = P s" using assms by (simp add: planned_source_def split: option.split)
  have "ss_session (planned_source P s) = ss_session s" by (simp add: planned_source_def split: option.split)
  with p show "planned_label P (planned_source P s) = planned_label P s"
    by (simp add: planned_label_def split: option.split)
  show "planned_source P (planned_source P s) = planned_source P s"
    using p unfolding planned_source_def [of P "planned_source P s"]
    by (auto simp: planned_source_def split: option.split)
qed

lemma anchor_call_step:
  assumes "P = call_plan th byt js" "n = length xs"
  shows "anchor_call th byt js n \<lparr>cp_sources = xs @ s # ys, cp_labels = L, cp_anchored = A, cp_seen = K\<rparr>
     = \<lparr>cp_sources = xs @ planned_source P s # ys, cp_labels = L ++ planned_label P s,
        cp_anchored = A \<union> planned_anchored P [s],
        cp_seen = (case P s of Some (k, a, l) \<Rightarrow> List.insert k K | None \<Rightarrow> K)\<rparr>"
proof (cases "P s")
  case None
  then show ?thesis
    by (simp add: anchor_call_def assms planned_source_def planned_label_def planned_anchored_def)
next
  case (Some t)
  obtain k a l where t: "t = (k, a, l)" using prod_cases3 by blast
  have upd: "upd_at (xs @ s # ys) n g = xs @ g s # ys" for g
    by (simp add: assms upd_at_def)
  show ?thesis
    using Some by (simp add: t anchor_call_def assms upd [unfolded assms] planned_source_def planned_label_def planned_anchored_def)
qed

lemma codex_fold:
  "n \<le> length srcs \<Longrightarrow>
   fold (anchor_call th byt js) [0..<n] \<lparr>cp_sources = srcs, cp_labels = L, cp_anchored = {}, cp_seen = []\<rparr>
   = \<lparr>cp_sources = map (planned_source (call_plan th byt js)) (take n srcs) @ drop n srcs,
      cp_labels = L ++ planned_labels (call_plan th byt js) (take n srcs),
      cp_anchored = planned_anchored (call_plan th byt js) (take n srcs),
      cp_seen = planned_seen (call_plan th byt js) (take n srcs)\<rparr>"
proof (induction n)
  case (Suc n)
  let ?P = "call_plan th byt js"
  have n: "n < length srcs" using Suc.prems by simp
  have drop: "drop n srcs = srcs ! n # drop (Suc n) srcs" using n by (simp add: Cons_nth_drop_Suc)
  have take: "take (Suc n) srcs = take n srcs @ [srcs ! n]" using n by (simp add: take_Suc_conv_app_nth)
  have "planned_anchored ?P (take n srcs @ [srcs ! n]) = planned_anchored ?P (take n srcs) \<union> planned_anchored ?P [srcs ! n]"
    by (auto simp: planned_anchored_def)
  then show ?case
    using Suc anchor_call_step [OF refl, of n "map (planned_source ?P) (take n srcs)" th byt js "srcs ! n" "drop (Suc n) srcs"] n
    by (simp add: take drop planned_labels_def planned_seen_def)
qed (simp add: planned_labels_def planned_anchored_def planned_seen_def)

lemma codex_closed:
  assumes "js = fold (note_spawns tx (ds_nodes ds)) (ds_sources ds) Map.empty"
    and "P = call_plan (ds_codex_threads ds) (fst (fold note_anchor_file files (\<lambda>_. Map.empty, 0))) js"
  shows "reconcile_codex_spawns tx files (ds, stats) =
     (ds\<lparr>ds_sources := map (planned_source P) (ds_sources ds),
         ds_spawn_labels := ds_spawn_labels ds ++ planned_labels P (ds_sources ds)\<rparr>,
      stats\<lparr>rs_codex_interacted_rows := rs_codex_interacted_rows stats + snd (fold note_anchor_file files (\<lambda>_. Map.empty, 0)),
            rs_codex_threads_anchored := rs_codex_threads_anchored stats
              + int (length (filter (\<lambda>k. k \<in> planned_anchored P (ds_sources ds)) (planned_seen P (ds_sources ds)))),
            rs_codex_threads_unanchored := rs_codex_threads_unanchored stats
              + int (length (filter (\<lambda>k. k \<notin> planned_anchored P (ds_sources ds)) (planned_seen P (ds_sources ds))))\<rparr>)"
  unfolding reconcile_codex_spawns_def assms
  by (simp add: codex_fold [OF le_refl] Let_def split_def)

lemma note_spawns_anchor [simp]: "note_spawns tx ns (s\<lparr>ss_anchor := a\<rparr>) = note_spawns tx ns s"
  by (intro ext) (simp add: note_spawns_def codex_wire_def source_blocks_def)

lemma note_spawns_planned [simp]: "note_spawns tx ns (planned_source P s) = note_spawns tx ns s"
  by (simp add: planned_source_def split: option.split)

lemma fold_map_same: "(\<And>x. f (g x) = f x) \<Longrightarrow> fold f (map g xs) = fold f xs"
  by (induction xs) (simp_all add: fun_eq_iff)

lemma codex_again:
  assumes "reconcile_codex_spawns tx files (ds, stats) = (ds1, stats1)"
  shows "reconcile_codex_spawns tx files (ds1, stats) = (ds1, stats1)"
proof -
  define js where "js = fold (note_spawns tx (ds_nodes ds)) (ds_sources ds) Map.empty"
  define P where "P = call_plan (ds_codex_threads ds) (fst (fold note_anchor_file files (\<lambda>_. Map.empty, 0))) js"
  have anchor: "P (s\<lparr>ss_anchor := a\<rparr>) = P s" for s a by (simp add: P_def)
  note same = planned_source_same [OF anchor]
  have ds1: "ds1 = ds\<lparr>ds_sources := map (planned_source P) (ds_sources ds),
         ds_spawn_labels := ds_spawn_labels ds ++ planned_labels P (ds_sources ds)\<rparr>"
    using assms codex_closed [OF js_def P_def, of stats] by simp
  have js1: "js = fold (note_spawns tx (ds_nodes ds1)) (ds_sources ds1) Map.empty"
    by (simp add: js_def ds1 fold_map_same)
  have P1: "P = call_plan (ds_codex_threads ds1) (fst (fold note_anchor_file files (\<lambda>_. Map.empty, 0))) js"
    by (simp add: P_def ds1)
  have "planned_seen P (map (planned_source P) srcs) = planned_seen P srcs" for srcs
    unfolding planned_seen_def by (subst fold_map_same) (simp_all add: same)
  moreover have "planned_anchored P (map (planned_source P) srcs) = planned_anchored P srcs" for srcs
    by (simp add: planned_anchored_def same)
  moreover have "planned_labels P (map (planned_source P) srcs) = planned_labels P srcs" for srcs
    by (simp add: planned_labels_def same comp_def)
  ultimately show ?thesis
    using assms codex_closed [OF js_def P_def, of stats] codex_closed [OF js1 P1, of stats]
    by (simp add: ds1 same comp_def map_add_self)
qed

lemma main_from_planned: "list_ex (\<lambda>src. ss_kind src = k \<and> ss_source src = so \<and> ss_session src = s) (map (planned_source P) srcs)
    = list_ex (\<lambda>src. ss_kind src = k \<and> ss_source src = so \<and> ss_session src = s) srcs"
  by (induction srcs) (auto simp: planned_source_def split: option.splits)

lemma authoritative_codex:
  assumes "reconcile_codex_spawns tx files (ds, stats) = (ds1, stats1)"
  shows "authoritative ds1 = authoritative ds" "none_authoritative ds1 = none_authoritative ds"
proof -
  have "\<exists>P. ds_sources ds1 = map (planned_source P) (ds_sources ds)"
    unfolding codex_closed [OF refl refl, of tx files ds stats, unfolded assms, THEN arg_cong [where f = fst], simplified]
    by (simp del: map_eq_conv) (rule exI, rule refl)
  then obtain P where srcs: "ds_sources ds1 = map (planned_source P) (ds_sources ds)" by blast
  show a: "authoritative ds1 = authoritative ds"
    by (intro ext) (simp add: authoritative_def main_from_def srcs main_from_planned)
  have "ss_session (planned_source P s) = ss_session s" for s by (simp add: planned_source_def split: option.split)
  then show "none_authoritative ds1 = none_authoritative ds"
    by (simp add: none_authoritative_def a srcs list_ex_iff)
qed

subsection \<open>Properties\<close>

text \<open>rows that are no spawn evidence are inert. Dropping the interacted rows before
  reconciliation changes nothing in the derived set, no node, anchor or label, and none of the
  counters but the number of files and the count of the interacted rows itself.\<close>

theorem interacted_rows_inert:
  "reconcile_transcripts tx ds (filter spawn_evidence files) =
     map_prod id (relabel (int (length (filter spawn_evidence files))) 0) (reconcile_transcripts tx ds files)"
proof -
  let ?n = "int (length (filter spawn_evidence files))"
  let ?st = "zero_reconcile_stats\<lparr>rs_transcript_files := int (length files),
      rs_subagent_forks := int (length (fork_ids files))\<rparr>"
  have start: "zero_reconcile_stats\<lparr>rs_transcript_files := ?n, rs_subagent_forks := int (length (fork_ids files))\<rparr>
      = relabel ?n 0 ?st" by (simp add: relabel_def zero_reconcile_stats_def)
  obtain ds1 st1 where c: "reconcile_transcript_chains tx files (authoritative ds) (none_authoritative ds) (ds, ?st) = (ds1, st1)"
    by fastforce
  then have "reconcile_transcript_chains tx files (authoritative ds) (none_authoritative ds) (ds, relabel ?n 0 ?st) = (ds1, relabel ?n 0 st1)"
    by (simp add: chains_relabel)
  with c show ?thesis
    by (simp add: reconcile_transcripts_def Let_def chains_evidence fork_ids_evidence start codex_evidence)
qed

text \<open>Reconciliation is re-runnable. Reconciling a reconciled set with the same files changes
  nothing and reports the same counts.\<close>

theorem reconcile_idempotent:
  "reconcile_transcripts tx (fst (reconcile_transcripts tx ds files)) files = reconcile_transcripts tx ds files"
proof -
  let ?st = "zero_reconcile_stats\<lparr>rs_transcript_files := int (length files),
      rs_subagent_forks := int (length (fork_ids files))\<rparr>"
  obtain ds1 st1 where c: "reconcile_transcript_chains tx files (authoritative ds) (none_authoritative ds) (ds, ?st) = (ds1, st1)"
    by fastforce
  obtain ds2 st2 where d: "reconcile_codex_spawns tx files (ds1, st1) = (ds2, st2)" by fastforce
  have srcs: "ds_sources ds1 = ds_sources ds" using chains_nodes_only [of tx files _ _ ds ?st] c by (metis Pair_inject derived_set.select_convs(4) derived_set.surjective derived_set.update_convs(1))
  have "authoritative ds1 = authoritative ds" "none_authoritative ds1 = none_authoritative ds"
    by (simp_all add: fun_eq_iff authoritative_def main_from_def none_authoritative_def srcs)
  then have auth: "authoritative ds2 = authoritative ds" "none_authoritative ds2 = none_authoritative ds"
    using authoritative_codex [OF d] by simp_all
  have "ds_nodes ds2 = ds_nodes ds1" using d codex_closed [OF refl refl, of tx files ds1 st1] by auto
  from chains_again [OF c this] codex_again [OF d] c d show ?thesis
    by (simp add: reconcile_transcripts_def Let_def auth)
qed

end
