(* ===== verification/TranscriptProjection.thy ===== *)
theory TranscriptProjection
  imports Transcript "HOL-Library.AList" "HOL-Library.Product_Lexorder" "HOL-Library.List_Lexorder" "HOL-Library.Char_ord"
begin

text \<open>
  \<open>pkg/derive/transcript_projection.go\<close>: the fallback that turns transcript files into calls
  when the wire captured none. The append-only causal graph of a file is reduced to one active
  path; assistant fragments on it are coalesced into one response per message identity; each
  response becomes a call whose request is the whole normalised history.

  A set of record indices is a list. The maps keyed by identity are association lists or
  partial functions; none of the code's map iterations has an order that shows in its result.
  A \<open>nil\<close> file of the input list is one that is not in the list.
\<close>

subsection \<open>The causal graph\<close>

abbreviation rec_at :: "transcript_record list \<Rightarrow> nat \<Rightarrow> transcript_record" where
  "rec_at rs i \<equiv> rs ! i"

definition by_uuid :: "transcript_record list \<Rightarrow> string \<Rightarrow> nat option" where
  "by_uuid rs u = find (\<lambda>i. xr_decoded (rec_at rs i) \<and> xr_uuid (rec_at rs i) \<noteq> [] \<and> xr_uuid (rec_at rs i) = u) [0..<length rs]"

definition causal :: "transcript_record list \<Rightarrow> nat \<Rightarrow> bool" where
  "causal rs i \<longleftrightarrow> by_uuid rs (xr_uuid (rec_at rs i)) = Some i"

definition record_children :: "transcript_record list \<Rightarrow> nat \<Rightarrow> nat list" where
  "record_children rs p =
     filter (\<lambda>i. causal rs i \<and> by_uuid rs (xr_parent_uuid (rec_at rs i)) = Some p
                \<and> xr_uuid (rec_at rs i) \<noteq> xr_parent_uuid (rec_at rs i)) [0..<length rs]"

definition note_leaf :: "transcript_record list \<Rightarrow> transcript_record \<Rightarrow> nat option \<Rightarrow> nat option" where
  "note_leaf rs r ev =
     (if xr_decoded r \<and> xr_type r = ''last-prompt'' \<and> xr_leaf_uuid r \<noteq> []
      then (case by_uuid rs (xr_leaf_uuid r) of Some leaf \<Rightarrow> Some leaf | None \<Rightarrow> ev) else ev)"

definition leaf_evidence :: "transcript_record list \<Rightarrow> nat option" where
  "leaf_evidence rs = fold (note_leaf rs) rs None"

text \<open>The breadth-first closure: the queue and the set of descendants found so far. Indices out of
  range never arise; the guard makes the measure plain.\<close>

function descendants_from :: "transcript_record list \<Rightarrow> nat list \<Rightarrow> nat list \<Rightarrow> nat list" where
  "descendants_from rs [] found = found"
| "descendants_from rs (p # queue) found =
     (let new = filter (\<lambda>c. c \<notin> set found) (record_children rs p)
      in descendants_from rs (queue @ new) (found @ new))"
  by pat_completeness auto

lemma record_children_bound: "c \<in> set (record_children rs p) \<Longrightarrow> c < length rs"
  by (simp add: record_children_def)

lemma distinct_record_children [simp]: "distinct (record_children rs p)"
  by (simp add: record_children_def)

definition missing :: "transcript_record list \<Rightarrow> nat list \<Rightarrow> nat" where
  "missing rs found = length (filter (\<lambda>i. i \<notin> set found) [0..<length rs])"

lemma missing_new:
  "missing rs (found @ filter (\<lambda>c. c \<notin> set found) (record_children rs p))
     + length (filter (\<lambda>c. c \<notin> set found) (record_children rs p)) = missing rs found"
proof -
  let ?new = "filter (\<lambda>c. c \<notin> set found) (record_children rs p)"
  let ?A = "{i. i < length rs \<and> i \<notin> set found}"
  have card: "missing rs f = card {i. i < length rs \<and> i \<notin> set f}" for f
  proof -
    have "set (filter (\<lambda>i. i \<notin> set f) [0..<length rs]) = {i. i < length rs \<and> i \<notin> set f}" by auto
    then show ?thesis unfolding missing_def by (metis distinct_card distinct_filter distinct_upt)
  qed
  have "set ?new \<subseteq> ?A" using record_children_bound by auto
  moreover have "{i. i < length rs \<and> i \<notin> set (found @ ?new)} = ?A - set ?new" by auto
  moreover have "card (set ?new) = length ?new" by (intro distinct_card) simp
  moreover have "finite ?A" by simp
  ultimately show ?thesis unfolding card using card_mono [of ?A "set ?new"] by (simp add: card_Diff_subset)
qed

termination descendants_from
proof (relation "measure (\<lambda>(rs, queue, found). missing rs found + length queue)", simp)
  fix rs p queue found new
  assume "new = filter (\<lambda>c. c \<notin> set found) (record_children rs p)"
  then show "((rs, queue @ new, found @ new), rs, p # queue, found) \<in> measure (\<lambda>(rs, queue, found). missing rs found + length queue)"
    using missing_new [of rs found p] by simp
qed

definition leaf_candidates :: "transcript_record list \<Rightarrow> nat list" where
  "leaf_candidates rs = (case leaf_evidence rs of
     Some ev \<Rightarrow>
       (let ds = descendants_from rs [ev] [ev]
        in filter (\<lambda>i. \<not> list_ex (\<lambda>c. c \<in> set ds) (record_children rs i)) ds)
   | None \<Rightarrow> filter (\<lambda>i. causal rs i \<and> record_children rs i = []) [0..<length rs])"

definition active_leaf :: "transcript_file \<Rightarrow> nat option" where
  "active_leaf f =
     (let rs = tf_records f;
          cands = leaf_candidates rs;
          preferred = filter (\<lambda>i. xr_is_sidechain (rec_at rs i) = (tf_agent_id f \<noteq> [])) cands;
          chosen = (if preferred \<noteq> [] then preferred else cands)
      in if chosen = [] then None else Some (Max (set chosen)))"

function climb :: "transcript_record list \<Rightarrow> nat \<Rightarrow> nat list \<Rightarrow> nat list" where
  "climb rs i seen =
     (if i \<in> set seen \<or> length rs \<le> i then []
      else i # (case by_uuid rs (xr_parent_uuid (rec_at rs i)) of None \<Rightarrow> [] | Some p \<Rightarrow> climb rs p (i # seen)))"
  by pat_completeness auto

lemma missing_less: "i < length rs \<Longrightarrow> i \<notin> set seen \<Longrightarrow> missing rs (i # seen) < missing rs seen"
proof -
  assume i: "i < length rs" "i \<notin> set seen"
  have "filter (\<lambda>j. j \<notin> set (i # seen)) [0..<length rs] = filter (\<lambda>j. j \<noteq> i) (filter (\<lambda>j. j \<notin> set seen) [0..<length rs])"
    by (simp add: conj_commute)
  moreover have "i \<in> set (filter (\<lambda>j. j \<notin> set seen) [0..<length rs])" using i by simp
  ultimately show ?thesis unfolding missing_def by (simp only:) (rule length_filter_less, auto)
qed

termination climb
  by (relation "measure (\<lambda>(rs, i, seen). missing rs seen)") (auto simp: missing_less not_le)

declare climb.simps [simp del] descendants_from.simps [simp del]

text \<open>From the leaf to the root.\<close>

definition active_transcript_path :: "transcript_file \<Rightarrow> nat list" where
  "active_transcript_path f = (case active_leaf f of None \<Rightarrow> [] | Some leaf \<Rightarrow> climb (tf_records f) leaf [])"

subsection \<open>Identities\<close>

definition transcript_projection_identity :: "tx_externs \<Rightarrow> transcript_file \<Rightarrow> string \<Rightarrow> string \<Rightarrow> string" where
  "transcript_projection_identity tx f domain loc =
     ''tx'' @ domain @ ''_'' @ tx_identity_digest tx
       (harness_id (tf_session f), harness_session_id (tf_session f), domain, tf_agent_id f = [], tf_agent_id f, loc)"

definition transcript_tool_identity :: "tx_externs \<Rightarrow> transcript_file \<Rightarrow> string \<Rightarrow> string" where
  "transcript_tool_identity tx f raw = transcript_projection_identity tx f ''tool'' raw"

definition transcript_record_identity :: "tx_externs \<Rightarrow> transcript_record \<Rightarrow> string" where
  "transcript_record_identity tx r =
     (if xr_uuid r \<noteq> [] then xr_uuid r
      else if xr_message_id r \<noteq> [] then xr_message_id r
      else tx_record_digest tx (xr_type r, xr_timestamp r, xr_role r, xr_message_content r))"

definition assistant_identity :: "tx_externs \<Rightarrow> transcript_record \<Rightarrow> string" where
  "assistant_identity tx r = (if xr_message_id r \<noteq> [] then xr_message_id r else transcript_record_identity tx r)"

definition transcript_record_time :: "tx_externs \<Rightarrow> transcript_record \<Rightarrow> gotime \<Rightarrow> gotime" where
  "transcript_record_time tx r fallback =
     (if xr_timestamp r = [] then fallback
      else case ext_time (tx_ext tx) (xr_timestamp r) of Some t \<Rightarrow> t | None \<Rightarrow> fallback)"

definition record_type :: "transcript_record \<Rightarrow> string" where
  "record_type r = (if xr_type r \<noteq> [] then xr_type r
                    else if xr_role r \<noteq> [] then ''message:'' @ xr_role r else ''unknown'')"

subsection \<open>Blocks\<close>

definition transcript_blocks_for_projection :: "tx_externs \<Rightarrow> string \<Rightarrow> content_block list option" where
  "transcript_blocks_for_projection tx content =
     (if content = [] \<or> content = ''null'' then Some []
      else case tx_text tx content of
        Some s \<Rightarrow> Some [text_block s]
      | None \<Rightarrow> (case tx_blocks tx content of None \<Rightarrow> None | Some _ \<Rightarrow> Some (transcript_blocks tx content)))"

definition namespace_block :: "tx_externs \<Rightarrow> transcript_file \<Rightarrow> content_block \<Rightarrow> content_block" where
  "namespace_block tx f b =
     (if cb_type b = ''tool_use'' \<or> cb_type b = ''server_tool_use'' then
        (if tool_use_id b \<noteq> [] then b\<lparr>tool_use_id := transcript_tool_identity tx f (tool_use_id b)\<rparr> else b)
      else if cb_type b = ''tool_result'' then
        (let b1 = (if tool_result_id b \<noteq> [] then b\<lparr>tool_result_id := transcript_tool_identity tx f (tool_result_id b)\<rparr> else b)
         in if tool_use_id b1 \<noteq> [] then b1\<lparr>tool_use_id := transcript_tool_identity tx f (tool_use_id b1)\<rparr> else b1)
      else b)"

definition namespace_transcript_tool_ids :: "tx_externs \<Rightarrow> transcript_file \<Rightarrow> content_block list \<Rightarrow> content_block list" where
  "namespace_transcript_tool_ids tx f blocks = map (namespace_block tx f) blocks"

fun append_blocks :: "string list \<Rightarrow> content_block list \<Rightarrow> content_block list \<Rightarrow> content_block list" where
  "append_blocks ids dst [] = dst"
| "append_blocks ids dst (b # bs) =
     (if tool_use_id b = [] then append_blocks ids (dst @ [b]) bs
      else if tool_use_id b \<in> set ids then append_blocks ids dst bs
      else append_blocks (tool_use_id b # ids) (dst @ [b]) bs)"

definition append_assistant_blocks :: "content_block list \<Rightarrow> content_block list \<Rightarrow> content_block list" where
  "append_assistant_blocks dst blocks =
     append_blocks (filter (\<lambda>i. i \<noteq> []) (map tool_use_id dst)) dst blocks"

definition max_transcript_usage :: "transcript_usage \<Rightarrow> transcript_usage \<Rightarrow> transcript_usage" where
  "max_transcript_usage a b =
     \<lparr>xu_input_tokens = (if xu_input_tokens a < xu_input_tokens b then xu_input_tokens b else xu_input_tokens a),
      xu_output_tokens = (if xu_output_tokens a < xu_output_tokens b then xu_output_tokens b else xu_output_tokens a),
      xu_cache_creation_input_tokens = (if xu_cache_creation_input_tokens a < xu_cache_creation_input_tokens b
        then xu_cache_creation_input_tokens b else xu_cache_creation_input_tokens a),
      xu_cache_read_input_tokens = (if xu_cache_read_input_tokens a < xu_cache_read_input_tokens b
        then xu_cache_read_input_tokens b else xu_cache_read_input_tokens a)\<rparr>"

definition has_tool_result :: "content_block list \<Rightarrow> bool" where
  "has_tool_result blocks \<longleftrightarrow> list_ex (\<lambda>b. cb_type b = ''tool_result'') blocks"

subsection \<open>Context and titles\<close>

fun transcript_context_empty :: "jval \<Rightarrow> bool" where
  "transcript_context_empty JNull = True"
| "transcript_context_empty (JStr s) = (go_trim_space s = [])"
| "transcript_context_empty (JArr vs) = list_all transcript_context_empty vs"
| "transcript_context_empty (JObj m) = list_all (\<lambda>kv. transcript_context_empty (snd kv)) m"
| "transcript_context_empty (JBool b) = False"
| "transcript_context_empty (JNum n) = False"

text \<open>One of the three raw fields: the text it contributes, if any.\<close>

definition context_field :: "tx_externs \<Rightarrow> string \<Rightarrow> string option" where
  "context_field tx raw =
     (if raw = [] then None
      else case tx_text tx raw of
        Some s \<Rightarrow> if go_trim_space s \<noteq> [] then Some s else None
      | None \<Rightarrow> (case ext_json (tx_ext tx) raw of
          Some v \<Rightarrow> if transcript_context_empty v then None else Some raw
        | None \<Rightarrow> Some raw))"

definition transcript_context_text :: "tx_externs \<Rightarrow> transcript_record \<Rightarrow> string" where
  "transcript_context_text tx r =
     (case List.map_filter (context_field tx) [xr_content r, xr_attachment r, xr_hook_additional_context r] of
        [] \<Rightarrow> [] | t # _ \<Rightarrow> t)"

definition truncate_transcript_title :: "string \<Rightarrow> string" where
  "truncate_transcript_title title = cut_on_rune title max_folded_title_len"

definition transcript_title :: "transcript_record \<Rightarrow> string \<times> int" where
  "transcript_title r =
     (case filter (\<lambda>c. go_trim_space (fst c) \<noteq> [])
         [(xr_custom_title r, 4), (xr_ai_title r, 3), (xr_summary r, 2), (xr_agent_name r, 1)] of
        [] \<Rightarrow> ([], 0)
      | c # _ \<Rightarrow> (truncate_transcript_title (go_trim_space (fst c)), snd c))"

subsection \<open>Assistant groups\<close>

record assistant_group =
  ag_identity :: string
  ag_model :: string
  ag_stop_reason :: string
  ag_content :: "content_block list"
  ag_usage :: transcript_usage
  ag_started_at :: gotime
  ag_ended_at :: gotime
  ag_records :: int

definition new_group :: "string \<Rightarrow> assistant_group" where
  "new_group identity = \<lparr>ag_identity = identity, ag_model = [], ag_stop_reason = [], ag_content = [],
     ag_usage = zero_transcript_usage, ag_started_at = 0, ag_ended_at = 0, ag_records = 0\<rparr>"

definition is_assistant :: "transcript_record \<Rightarrow> bool" where
  "is_assistant r \<longleftrightarrow> xr_type r = ''assistant'' \<or> xr_role r = ''assistant''"

definition extend_group ::
  "tx_externs \<Rightarrow> transcript_file \<Rightarrow> transcript_record \<Rightarrow> content_block list \<Rightarrow> assistant_group \<Rightarrow> assistant_group"
where
  "extend_group tx f r blocks g =
     (let t = transcript_record_time tx r (tf_received_at f)
      in g\<lparr>ag_records := ag_records g + 1, ag_content := append_assistant_blocks (ag_content g) blocks,
           ag_model := (if xr_model r \<noteq> [] then xr_model r else ag_model g),
           ag_stop_reason := (if xr_stop_reason r \<noteq> [] then xr_stop_reason r else ag_stop_reason g),
           ag_usage := max_transcript_usage (ag_usage g) (xr_usage r),
           ag_started_at := (if ag_started_at g = 0 \<or> t < ag_started_at g then t else ag_started_at g),
           ag_ended_at := (if ag_ended_at g = 0 \<or> ag_ended_at g < t then t else ag_ended_at g)\<rparr>)"

text \<open>The first loop's state: the groups with the index of their first record, and the records that
  joined one.\<close>

record group_scan =
  gs_groups :: "string \<Rightarrow> (assistant_group \<times> nat) option"
  gs_valid :: "nat list"

definition group_record :: "tx_externs \<Rightarrow> transcript_file \<Rightarrow> nat list \<Rightarrow> nat \<Rightarrow> group_scan \<Rightarrow> group_scan" where
  "group_record tx f active i gs =
     (let r = rec_at (tf_records f) i
      in if i \<notin> set active \<or> \<not> xr_decoded r \<or> \<not> is_assistant r then gs
         else case transcript_blocks_for_projection tx (xr_message_content r) of
           None \<Rightarrow> gs
         | Some blocks \<Rightarrow>
             (let ident = assistant_identity tx r;
                  (g, first) = (case gs_groups gs ident of None \<Rightarrow> (new_group ident, i) | Some gf \<Rightarrow> gf);
                  g' = extend_group tx f r (namespace_transcript_tool_ids tx f blocks) g
              in gs\<lparr>gs_groups := (gs_groups gs)(ident \<mapsto> (g', first)), gs_valid := gs_valid gs @ [i]\<rparr>))"

definition scan_groups :: "tx_externs \<Rightarrow> transcript_file \<Rightarrow> nat list \<Rightarrow> group_scan" where
  "scan_groups tx f active =
     fold (group_record tx f active) [0..<length (tf_records f)] \<lparr>gs_groups = Map.empty, gs_valid = []\<rparr>"

subsection \<open>Calls\<close>

record transcript_message =
  xg_message :: message
  xg_kind :: string
  xg_captured_at :: gotime

definition earliest_transcript_time :: "transcript_message list \<Rightarrow> gotime \<Rightarrow> gotime" where
  "earliest_transcript_time ms fallback =
     (let e = fold (\<lambda>m e. if xg_captured_at m = 0 then e
                          else if e = 0 \<or> xg_captured_at m < e then xg_captured_at m else e) ms 0
      in if e = 0 then fallback else e)"

definition transcript_usage_of :: "assistant_group \<Rightarrow> gotime \<Rightarrow> gotime \<Rightarrow> usage option" where
  "transcript_usage_of g captured ended =
     (let u = zero_usage\<lparr>prompt_tokens := xu_input_tokens (ag_usage g), completion_tokens := xu_output_tokens (ag_usage g),
                cache_creation_input_tokens := xu_cache_creation_input_tokens (ag_usage g),
                cache_read_input_tokens := xu_cache_read_input_tokens (ag_usage g),
                total_duration_ns := (if captured < ended then time_sub ended captured else 0)\<rparr>
      in if u = zero_usage then None else Some u)"

definition normalize_transcript_turn ::
  "tx_externs \<Rightarrow> string \<Rightarrow> transcript_file \<Rightarrow> transcript_message list \<Rightarrow> transcript_message list
     \<Rightarrow> assistant_group \<Rightarrow> string \<Rightarrow> string \<Rightarrow> transcript_turn"
where
  "normalize_transcript_turn tx project f history pending g turn_ident anchor =
     (let response_at = (if ag_started_at g = 0 then tf_received_at f else ag_started_at g);
          captured = earliest_transcript_time pending response_at;
          ended = (if ag_ended_at g = 0 \<or> ag_ended_at g < response_at then response_at else ag_ended_at g);
          chain = turn_chain (tx_ext tx)
            \<lparr>cc_provider = source_transcript, cc_agent_name = harness_id (tf_session f),
             cc_thread_id = tf_agent_id f, cc_project = project\<rparr>
            (Some \<lparr>rq_model = [], rq_messages = map xg_message history, rq_stream = None, rq_system = [],
                   rq_max_tokens = None, rq_temperature = None, rq_tools = [], rq_extra = []\<rparr>)
            (Some \<lparr>rs_model = ag_model g, rs_message = \<lparr>msg_role = ''assistant'', msg_content = ag_content g\<rparr>,
                   rs_done = False, rs_stop_reason = ag_stop_reason g,
                   rs_usage = transcript_usage_of g captured ended, rs_extra = []\<rparr>)
            \<lparr>co_kind = kind_main, co_classify_injected = False, co_request = None,
             co_message_kinds = map xg_kind history, co_captured_at = map xg_captured_at history @ [response_at]\<rparr>
      in \<lparr>tt_chain = chain, tt_session = tf_session f, tt_raw_turn_id = tf_raw_turn_id f,
          tt_request_id = transcript_projection_identity tx f ''call'' (ag_identity g),
          tt_turn_identity = turn_ident, tt_captured_at = captured, tt_thread_id = tf_agent_id f, tt_anchor = anchor\<rparr>)"

subsection \<open>The second loop\<close>

record projection_stats =
  ps_files :: int
  ps_records :: int
  ps_projected_records :: int
  ps_omitted_records :: int
  ps_omitted_types :: "string \<Rightarrow> int option"
  ps_suppressed_by_wire :: bool

definition new_projection_stats :: projection_stats where
  "new_projection_stats = \<lparr>ps_files = 0, ps_records = 0, ps_projected_records = 0, ps_omitted_records = 0,
     ps_omitted_types = Map.empty, ps_suppressed_by_wire = False\<rparr>"

record projection_state =
  pj_stats :: projection_stats
  pj_history :: "transcript_message list"
  pj_pending :: "transcript_message list"
  pj_turns :: "transcript_turn list"
  pj_turn_identity :: string
  pj_title :: string
  pj_title_priority :: int

definition omit :: "string \<Rightarrow> projection_state \<Rightarrow> projection_state" where
  "omit kind st = st\<lparr>pj_stats := (pj_stats st)\<lparr>ps_omitted_records := ps_omitted_records (pj_stats st) + 1,
     ps_omitted_types := map_incr (ps_omitted_types (pj_stats st)) kind\<rparr>\<rparr>"

definition count_projected :: "int \<Rightarrow> projection_state \<Rightarrow> projection_state" where
  "count_projected n st = st\<lparr>pj_stats := (pj_stats st)\<lparr>ps_projected_records := ps_projected_records (pj_stats st) + n\<rparr>\<rparr>"

definition push_message :: "transcript_message \<Rightarrow> projection_state \<Rightarrow> projection_state" where
  "push_message m st = st\<lparr>pj_history := pj_history st @ [m], pj_pending := pj_pending st @ [m]\<rparr>"

definition project_assistant ::
  "tx_externs \<Rightarrow> string \<Rightarrow> transcript_file \<Rightarrow> string \<Rightarrow> group_scan \<Rightarrow> nat \<Rightarrow> projection_state \<Rightarrow> projection_state"
where
  "project_assistant tx project f anchor gs i st =
     (let r = rec_at (tf_records f) i
      in if i \<notin> set (gs_valid gs) then omit (''malformed:'' @ record_type r) st
         else case gs_groups gs (assistant_identity tx r) of
           None \<Rightarrow> st
         | Some (g, first) \<Rightarrow>
             if first \<noteq> i then st
             else
               let turn = normalize_transcript_turn tx project f (pj_history st) (pj_pending st) g (pj_turn_identity st) anchor;
                   m = \<lparr>xg_message = \<lparr>msg_role = ''assistant'', msg_content = ag_content g\<rparr>, xg_kind = kind_main,
                        xg_captured_at = (if ag_started_at g = 0 then tf_received_at f else ag_started_at g)\<rparr>
               in (count_projected (ag_records g) st)\<lparr>pj_turns := pj_turns st @ [turn], pj_history := pj_history st @ [m],
                    pj_pending := [], pj_turn_identity := []\<rparr>)"

definition project_user :: "tx_externs \<Rightarrow> transcript_file \<Rightarrow> nat \<Rightarrow> projection_state \<Rightarrow> projection_state" where
  "project_user tx f i st =
     (let r = rec_at (tf_records f) i
      in case transcript_blocks_for_projection tx (xr_message_content r) of
           None \<Rightarrow> omit (''malformed:'' @ record_type r) st
         | Some blocks0 \<Rightarrow>
             if blocks0 = [] then omit (record_type r) st
             else
               let blocks = namespace_transcript_tool_ids tx f blocks0;
                   role = (if xr_role r = [] then ''user'' else xr_role r);
                   injected = classify_injected \<lparr>msg_role = role, msg_content = blocks\<rparr>;
                   kind = (if injected \<noteq> [] then injected
                           else if xr_is_meta r then kind_injected_system_insert else kind_main);
                   m = \<lparr>xg_message = \<lparr>msg_role = role, msg_content = blocks\<rparr>, xg_kind = kind,
                        xg_captured_at = transcript_record_time tx r (tf_received_at f)\<rparr>;
                   st1 = count_projected 1 (push_message m st)
               in if pj_turn_identity st = [] \<and> kind = kind_main \<and> \<not> has_tool_result blocks
                  then st1\<lparr>pj_turn_identity := transcript_projection_identity tx f ''turn'' (transcript_record_identity tx r)\<rparr>
                  else st1)"

definition project_context :: "tx_externs \<Rightarrow> transcript_file \<Rightarrow> nat \<Rightarrow> projection_state \<Rightarrow> projection_state" where
  "project_context tx f i st =
     (let r = rec_at (tf_records f) i; txt = transcript_context_text tx r
      in if txt = [] then omit (record_type r) st
         else count_projected 1 (push_message
           \<lparr>xg_message = \<lparr>msg_role = ''system'', msg_content = [text_block txt]\<rparr>, xg_kind = kind_injected_system_insert,
            xg_captured_at = transcript_record_time tx r (tf_received_at f)\<rparr> st))"

definition project_title :: "transcript_file \<Rightarrow> nat \<Rightarrow> projection_state \<Rightarrow> projection_state" where
  "project_title f i st =
     (let r = rec_at (tf_records f) i; (title, priority) = transcript_title r
      in if tf_agent_id f = [] \<and> title \<noteq> []
         then count_projected 1 (if pj_title_priority st \<le> priority
                then st\<lparr>pj_title := title, pj_title_priority := priority\<rparr> else st)
         else omit (record_type r) st)"

definition is_title_record :: "transcript_record \<Rightarrow> bool" where
  "is_title_record r \<longleftrightarrow> xr_type r \<in> {''ai-title'', ''custom-title'', ''agent-name'', ''summary''}"

definition is_user_record :: "transcript_record \<Rightarrow> bool" where
  "is_user_record r \<longleftrightarrow> xr_type r = ''user'' \<or> xr_role r = ''user'' \<or> xr_role r = ''tool''"

definition is_context_record :: "transcript_record \<Rightarrow> bool" where
  "is_context_record r \<longleftrightarrow> xr_type r = ''system'' \<or> xr_role r = ''system'' \<or> xr_type r = ''attachment''"

definition project_record ::
  "tx_externs \<Rightarrow> string \<Rightarrow> transcript_file \<Rightarrow> string \<Rightarrow> nat list \<Rightarrow> group_scan \<Rightarrow> nat \<Rightarrow> projection_state \<Rightarrow> projection_state"
where
  "project_record tx project f anchor active gs i st =
     (let r = rec_at (tf_records f) i; on = (i \<in> set active)
      in if \<not> xr_decoded r then omit (''malformed:'' @ record_type r) st
         else if xr_uuid r \<noteq> [] \<and> \<not> on then omit ''inactive-branch'' st
         else if on \<and> is_assistant r then project_assistant tx project f anchor gs i st
         else if on \<and> is_user_record r then project_user tx f i st
         else if on \<and> is_context_record r then project_context tx f i st
         else if xr_uuid r = [] \<and> xr_type r = ''last-prompt'' then
           (if xr_leaf_uuid r = [] then omit ''malformed:last-prompt'' st else count_projected 1 st)
         else if xr_uuid r = [] \<and> is_title_record r then project_title f i st
         else omit (record_type r) st)"

definition new_projection :: "projection_stats \<Rightarrow> projection_state" where
  "new_projection stats = \<lparr>pj_stats = stats, pj_history = [], pj_pending = [], pj_turns = [],
     pj_turn_identity = [], pj_title = [], pj_title_priority = 0\<rparr>"

definition project_transcript_file ::
  "tx_externs \<Rightarrow> string \<Rightarrow> transcript_file \<Rightarrow> projection_stats \<Rightarrow> string \<Rightarrow> projection_state"
where
  "project_transcript_file tx project f stats anchor =
     (let active = active_transcript_path f; gs = scan_groups tx f active
      in fold (project_record tx project f anchor active gs) [0..<length (tf_records f)] (new_projection stats))"

subsection \<open>The fallback of a derive pass\<close>

type_synonym tool_owners = "session_key \<times> string \<Rightarrow> transcript_file option"

definition own_block :: "transcript_file \<Rightarrow> content_block \<Rightarrow> tool_owners \<Rightarrow> tool_owners" where
  "own_block f b owners =
     (if (cb_type b \<noteq> ''tool_use'' \<and> cb_type b \<noteq> ''server_tool_use'') \<or> tool_use_id b = [] then owners
      else let key = (tf_session f, tool_use_id b)
           in case owners key of
                None \<Rightarrow> owners(key \<mapsto> f)
              | Some g \<Rightarrow> if tf_agent_id g \<noteq> [] \<and> tf_agent_id f = [] then owners(key \<mapsto> f) else owners)"

definition own_record :: "tx_externs \<Rightarrow> transcript_file \<Rightarrow> nat list \<Rightarrow> nat \<Rightarrow> tool_owners \<Rightarrow> tool_owners" where
  "own_record tx f active i owners =
     (let r = rec_at (tf_records f) i
      in if i \<notin> set active \<or> \<not> xr_decoded r \<or> \<not> is_assistant r then owners
         else case transcript_blocks_for_projection tx (xr_message_content r) of
                None \<Rightarrow> owners
              | Some blocks \<Rightarrow> fold (own_block f) blocks owners)"

definition transcript_tool_owners :: "tx_externs \<Rightarrow> transcript_file list \<Rightarrow> tool_owners" where
  "transcript_tool_owners tx files =
     fold (\<lambda>f owners. if \<not> spawn_evidence f then owners
        else fold (own_record tx f (active_transcript_path f)) [0..<length (tf_records f)] owners) files Map.empty"

record prepared_projection =
  pp_turns :: "transcript_turn list"
  pp_stats :: projection_stats
  pp_titles :: "(session_key \<times> string) list"
  pp_files :: int
  pp_applied :: bool

definition set_title :: "session_key \<Rightarrow> string \<Rightarrow> (session_key \<times> string) list \<Rightarrow> (session_key \<times> string) list" where
  "set_title s title ts = AList.update s title ts"

definition file_anchor :: "tx_externs \<Rightarrow> tool_owners \<Rightarrow> transcript_file \<Rightarrow> string" where
  "file_anchor tx owners f =
     (if tf_tool_use_id f = [] then []
      else transcript_tool_identity tx
        (case owners (tf_session f, tf_tool_use_id f) of None \<Rightarrow> f\<lparr>tf_agent_id := []\<rparr> | Some g \<Rightarrow> g) (tf_tool_use_id f))"

definition prepare_file ::
  "tx_externs \<Rightarrow> deriver \<Rightarrow> tool_owners \<Rightarrow> transcript_file \<Rightarrow> prepared_projection \<Rightarrow> prepared_projection"
where
  "prepare_file tx dv owners f pp =
     (if \<not> spawn_evidence f then pp
      else if 0 < map_get (dv_wire_main_calls dv) (tf_session f) 0
        then pp\<lparr>pp_stats := (pp_stats pp)\<lparr>ps_suppressed_by_wire := True\<rparr>\<rparr>
      else let st = project_transcript_file tx (dv_project dv) f (pp_stats pp) (file_anchor tx owners f)
           in pp\<lparr>pp_turns := pp_turns pp @ pj_turns st, pp_stats := pj_stats st,
                 pp_titles := (if pj_title st \<noteq> [] then set_title (tf_session f) (pj_title st) (pp_titles pp)
                               else pp_titles pp)\<rparr>)"

definition file_order :: "transcript_file \<Rightarrow> string \<times> string \<times> bool \<times> string" where
  "file_order f = (harness_id (tf_session f), harness_session_id (tf_session f), tf_agent_id f \<noteq> [], tf_agent_id f)"

definition prepare_transcript_fallback :: "tx_externs \<Rightarrow> deriver \<Rightarrow> transcript_file list \<Rightarrow> prepared_projection" where
  "prepare_transcript_fallback tx dv files =
     (let ordered = sort_key file_order files;
          stats = new_projection_stats\<lparr>ps_files := int (length files),
                    ps_records := sum_list (map (\<lambda>f. int (length (tf_records f))) files)\<rparr>;
          pp = fold (prepare_file tx dv (transcript_tool_owners tx ordered)) ordered
                 \<lparr>pp_turns = [], pp_stats = stats, pp_titles = [], pp_files = int (length files), pp_applied = False\<rparr>
      in pp\<lparr>pp_turns := sort_key tt_captured_at (pp_turns pp)\<rparr>)"

definition apply_transcript_projection :: "prepared_projection \<Rightarrow> deriver \<Rightarrow> deriver \<times> prepared_projection" where
  "apply_transcript_projection pp dv =
     (if pp_applied pp then (dv, pp)
      else (fold (\<lambda>(key, title). set_session_title key title title_priority_transcript) (pp_titles pp)
              (upd_report (\<lambda>r. r\<lparr>rr_raw_turns := rr_raw_turns r + pp_files pp,
                                rr_parsed_turns := rr_parsed_turns r + pp_files pp\<rparr>) dv),
            pp\<lparr>pp_applied := True\<rparr>))"

definition project_transcript_fallback :: "tx_externs \<Rightarrow> transcript_file list \<Rightarrow> deriver \<Rightarrow> deriver \<times> projection_stats" where
  "project_transcript_fallback tx files dv =
     (let pp = prepare_transcript_fallback tx dv files; (dv1, pp1) = apply_transcript_projection pp dv
      in (fold add_transcript_turn (pp_turns pp1) dv1, pp_stats pp1))"

text \<open>The pure mixed-source constructor. A call is an input of the deriver; equal times keep wire
  calls before transcript calls, each in input order.\<close>

definition call_time :: "externs \<Rightarrow> derive_input \<Rightarrow> gotime" where
  "call_time ext c = (case c of Wire rec \<Rightarrow> captured_at ext rec | Transcript t \<Rightarrow> tt_captured_at t | Probe _ \<Rightarrow> 0)"

definition is_fallback :: "derive_input \<Rightarrow> bool" where
  "is_fallback c = (case c of Transcript _ \<Rightarrow> True | _ \<Rightarrow> False)"

definition ordered_calls :: "externs \<Rightarrow> raw_turn_record list \<Rightarrow> transcript_turn list \<Rightarrow> derive_input list" where
  "ordered_calls ext raws turns =
     sort_key (\<lambda>c. (call_time ext c, is_fallback c)) (map Wire raws @ map Transcript turns)"

definition probe_wire :: "externs \<Rightarrow> string \<Rightarrow> raw_turn_record list \<Rightarrow> deriver" where
  "probe_wire ext project raws = fold (\<lambda>rec. probe_turn ext (Some rec)) raws (new_deriver project)"

definition fold_calls :: "externs \<Rightarrow> prepared_projection \<Rightarrow> derive_input list \<Rightarrow> string \<Rightarrow> deriver" where
  "fold_calls ext pp calls project =
     fold (derive_step ext) calls (fst (apply_transcript_projection pp (new_deriver project)))"

end
