(* ===== verification/TranscriptFacts.thy ===== *)
theory TranscriptFacts
  imports TranscriptProjection "HOL-Library.Multiset"
begin

text \<open>
  What the transcript fallback guarantees: the active path is a path of the causal graph, every
  record of a projected file is accounted for exactly once, and a session with a wire
  conversation gets no fallback call.
\<close>

subsection \<open>The active path\<close>

lemma by_uuid_bound: "by_uuid rs u = Some i \<Longrightarrow> i < length rs \<and> xr_uuid (rs ! i) = u"
  by (auto simp: by_uuid_def find_Some_iff)

lemma by_uuid_causal: "by_uuid rs u = Some i \<Longrightarrow> causal rs i"
  using by_uuid_bound [of rs u i] by (simp add: causal_def)

definition parent_link :: "transcript_record list \<Rightarrow> nat \<Rightarrow> nat \<Rightarrow> bool" where
  "parent_link rs i j \<longleftrightarrow> by_uuid rs (xr_parent_uuid (rs ! i)) = Some j"

lemma climb_hd: "climb rs i seen = [] \<or> hd (climb rs i seen) = i"
  by (simp add: climb.simps [of rs i seen])

lemma climb_path:
  "causal rs i \<Longrightarrow>
   distinct (climb rs i seen) \<and> set (climb rs i seen) \<inter> set seen = {}
   \<and> list_all (causal rs) (climb rs i seen) \<and> successively (parent_link rs) (climb rs i seen)
   \<and> (climb rs i seen = [] \<or> (case by_uuid rs (xr_parent_uuid (rs ! last (climb rs i seen))) of
        None \<Rightarrow> True | Some j \<Rightarrow> j \<in> set (climb rs i seen) \<union> set seen))"
proof (induction rs i seen rule: climb.induct)
  case (1 rs i seen)
  show ?case
  proof (cases "i \<in> set seen \<or> length rs \<le> i")
    case True
    then show ?thesis by (simp add: climb.simps)
  next
    case stop: False
    show ?thesis
    proof (cases "by_uuid rs (xr_parent_uuid (rs ! i))")
      case None
      then show ?thesis using stop 1(2) by (subst (1 2 3 4 5 6 7) climb.simps) simp
    next
      case (Some p)
      let ?rest = "climb rs p (i # seen)"
      have step: "climb rs i seen = i # ?rest" using stop Some by (subst climb.simps) simp
      note ih = 1(1) [OF stop Some by_uuid_causal [OF Some]]
      have succ: "successively (parent_link rs) (i # ?rest)"
        using ih climb_hd [of rs p "i # seen"] Some by (auto simp: successively_Cons parent_link_def)
      have end_ok: "case by_uuid rs (xr_parent_uuid (rs ! last (i # ?rest))) of None \<Rightarrow> True
          | Some j \<Rightarrow> j \<in> set (i # ?rest) \<union> set seen"
      proof (cases "?rest = []")
        case True
        then have "p \<in> set (i # seen) \<or> length rs \<le> p"
          by (subst (asm) climb.simps) (simp split: if_splits)
        then have "p \<in> set (i # seen)" using by_uuid_bound [OF Some] by simp
        then show ?thesis using True Some by simp
      next
        case False
        then show ?thesis using ih by (simp split: option.splits)
      qed
      show ?thesis unfolding step using ih succ end_ok 1(2) stop by auto
    qed
  qed
qed

lemma record_children_causal: "c \<in> set (record_children rs p) \<Longrightarrow> causal rs c"
  by (simp add: record_children_def)

lemma descendants_causal:
  "\<forall>i\<in>set found. causal rs i \<Longrightarrow> \<forall>i\<in>set (descendants_from rs queue found). causal rs i"
proof (induction rs queue found rule: descendants_from.induct)
  case (2 rs p queue found)
  then show ?case using record_children_causal by (subst descendants_from.simps) (auto simp: Let_def)
qed (simp add: descendants_from.simps)

lemma note_leaf_causal: "note_leaf rs r ev = Some i \<Longrightarrow> ev = Some i \<or> causal rs i"
  by (auto simp: note_leaf_def dest: by_uuid_causal split: if_splits option.splits)

lemma leaf_evidence_causal: "leaf_evidence rs = Some ev \<Longrightarrow> causal rs ev"
proof -
  have "fold (note_leaf rs) xs e = Some ev \<Longrightarrow> e = Some ev \<or> causal rs ev" for xs e
    by (induction xs arbitrary: e) (simp, metis fold_simps(2) note_leaf_causal)
  then show "leaf_evidence rs = Some ev \<Longrightarrow> causal rs ev" unfolding leaf_evidence_def by blast
qed

lemma leaf_candidates_causal: "i \<in> set (leaf_candidates rs) \<Longrightarrow> causal rs i"
  using descendants_causal [of "[ev]" rs "[ev]" for ev] leaf_evidence_causal [of rs]
  by (auto simp: leaf_candidates_def Let_def split: option.splits)

lemma active_leaf_causal: "active_leaf f = Some i \<Longrightarrow> causal (tf_records f) i \<and> i \<in> set (leaf_candidates (tf_records f))"
proof -
  assume leaf: "active_leaf f = Some i"
  define chosen where "chosen = (let rs = tf_records f; cands = leaf_candidates rs;
          preferred = filter (\<lambda>i. xr_is_sidechain (rec_at rs i) = (tf_agent_id f \<noteq> [])) cands
      in if preferred \<noteq> [] then preferred else cands)"
  have "chosen \<noteq> []" "i = Max (set chosen)" using leaf by (auto simp: active_leaf_def chosen_def Let_def split: if_splits)
  then have "i \<in> set chosen" using Max_in [of "set chosen"] by simp
  then have "i \<in> set (leaf_candidates (tf_records f))" by (auto simp: chosen_def Let_def split: if_splits)
  then show ?thesis using leaf_candidates_causal by blast
qed

subsection \<open>Groups\<close>

definition ident_at :: "tx_externs \<Rightarrow> transcript_file \<Rightarrow> nat \<Rightarrow> string" where
  "ident_at tx f i = assistant_identity tx (tf_records f ! i)"

definition valid_ok :: "transcript_file \<Rightarrow> nat list \<Rightarrow> nat \<Rightarrow> nat list \<Rightarrow> bool" where
  "valid_ok f active n v \<longleftrightarrow> distinct v \<and>
     (\<forall>i\<in>set v. i < n \<and> i \<in> set active \<and> xr_decoded (tf_records f ! i) \<and> is_assistant (tf_records f ! i))"

abbreviation members :: "tx_externs \<Rightarrow> transcript_file \<Rightarrow> nat list \<Rightarrow> string \<Rightarrow> nat set" where
  "members tx f v k \<equiv> {i \<in> set v. ident_at tx f i = k}"

text \<open>An identity has a group exactly when it has members; the group counts them and its first
  record is one.\<close>

definition groups_ok :: "tx_externs \<Rightarrow> transcript_file \<Rightarrow> group_scan \<Rightarrow> bool" where
  "groups_ok tx f gs \<longleftrightarrow>
     (\<forall>k. case gs_groups gs k of
        None \<Rightarrow> members tx f (gs_valid gs) k = {}
      | Some (g, first) \<Rightarrow> first \<in> members tx f (gs_valid gs) k \<and> ag_records g = int (card (members tx f (gs_valid gs) k)))"

definition groups_inv :: "tx_externs \<Rightarrow> transcript_file \<Rightarrow> nat list \<Rightarrow> nat \<Rightarrow> group_scan \<Rightarrow> bool" where
  "groups_inv tx f active n gs \<longleftrightarrow> valid_ok f active n (gs_valid gs) \<and> groups_ok tx f gs"

lemma groups_invD:
  assumes "groups_inv tx f active n gs"
  shows "i \<in> set (gs_valid gs) \<Longrightarrow> i < n" "i \<in> set (gs_valid gs) \<Longrightarrow> i \<in> set active"
    "i \<in> set (gs_valid gs) \<Longrightarrow> xr_decoded (tf_records f ! i)" "i \<in> set (gs_valid gs) \<Longrightarrow> is_assistant (tf_records f ! i)"
    "gs_groups gs k = None \<Longrightarrow> members tx f (gs_valid gs) k = {}"
    "gs_groups gs k = Some (g, first) \<Longrightarrow> first \<in> members tx f (gs_valid gs) k"
    "gs_groups gs k = Some (g, first) \<Longrightarrow> ag_records g = int (card (members tx f (gs_valid gs) k))"
proof -
  have v: "valid_ok f active n (gs_valid gs)" and g: "groups_ok tx f gs" using assms by (simp_all add: groups_inv_def)
  from v show "i \<in> set (gs_valid gs) \<Longrightarrow> i < n" "i \<in> set (gs_valid gs) \<Longrightarrow> i \<in> set active"
    "i \<in> set (gs_valid gs) \<Longrightarrow> xr_decoded (tf_records f ! i)" "i \<in> set (gs_valid gs) \<Longrightarrow> is_assistant (tf_records f ! i)"
    by (simp_all add: valid_ok_def)
  have k: "case gs_groups gs k of None \<Rightarrow> members tx f (gs_valid gs) k = {}
      | Some (g, first) \<Rightarrow> first \<in> members tx f (gs_valid gs) k \<and> ag_records g = int (card (members tx f (gs_valid gs) k))"
    using g unfolding groups_ok_def by (rule spec)
  from k show "gs_groups gs k = None \<Longrightarrow> members tx f (gs_valid gs) k = {}" by simp
  from k show "gs_groups gs k = Some (g, first) \<Longrightarrow> first \<in> members tx f (gs_valid gs) k" by simp
  from k show "gs_groups gs k = Some (g, first) \<Longrightarrow> ag_records g = int (card (members tx f (gs_valid gs) k))" by simp
qed

lemma group_record_cases:
  "group_record tx f active n gs = gs
   \<or> (n \<in> set active \<and> xr_decoded (tf_records f ! n) \<and> is_assistant (tf_records f ! n)
      \<and> (\<exists>g g' first. (case gs_groups gs (ident_at tx f n) of None \<Rightarrow> (new_group (ident_at tx f n), n) | Some gf \<Rightarrow> gf) = (g, first)
           \<and> ag_records g' = ag_records g + 1
           \<and> group_record tx f active n gs =
               gs\<lparr>gs_groups := (gs_groups gs)(ident_at tx f n \<mapsto> (g', first)), gs_valid := gs_valid gs @ [n]\<rparr>))"
proof (cases "n \<notin> set active \<or> \<not> xr_decoded (tf_records f ! n) \<or> \<not> is_assistant (tf_records f ! n)")
  case True
  then show ?thesis by (auto simp: group_record_def Let_def)
next
  case False
  show ?thesis
  proof (cases "transcript_blocks_for_projection tx (xr_message_content (tf_records f ! n))")
    case None
    then show ?thesis by (simp add: group_record_def Let_def)
  next
    case (Some blocks)
    obtain g first where old: "(case gs_groups gs (ident_at tx f n) of None \<Rightarrow> (new_group (ident_at tx f n), n) | Some gf \<Rightarrow> gf) = (g, first)"
      by fastforce
    let ?g' = "extend_group tx f (tf_records f ! n) (namespace_transcript_tool_ids tx f blocks) g"
    have "ag_records ?g' = ag_records g + 1" by (simp add: extend_group_def Let_def)
    moreover have "group_record tx f active n gs =
        gs\<lparr>gs_groups := (gs_groups gs)(ident_at tx f n \<mapsto> (?g', first)), gs_valid := gs_valid gs @ [n]\<rparr>"
      using False Some by (simp add: group_record_def Let_def old [unfolded ident_at_def] ident_at_def)
    ultimately show ?thesis using False old by blast
  qed
qed

lemma group_record_inv:
  assumes inv: "groups_inv tx f active n gs"
  shows "groups_inv tx f active (Suc n) (group_record tx f active n gs)"
  using group_record_cases [of tx f active n gs]
proof (elim disjE conjE exE)
  assume "group_record tx f active n gs = gs"
  with inv show ?thesis by (auto simp: groups_inv_def valid_ok_def less_Suc_eq)
next
  let ?k = "ident_at tx f n" and ?v = "gs_valid gs"
  fix g g' first
  assume n: "n \<in> set active" "xr_decoded (tf_records f ! n)" "is_assistant (tf_records f ! n)"
    and old: "(case gs_groups gs ?k of None \<Rightarrow> (new_group ?k, n) | Some gf \<Rightarrow> gf) = (g, first)"
    and g': "ag_records g' = ag_records g + 1"
    and new: "group_record tx f active n gs = gs\<lparr>gs_groups := (gs_groups gs)(?k \<mapsto> (g', first)), gs_valid := ?v @ [n]\<rparr>"
  have fresh: "n \<notin> set ?v" using groups_invD(1) [OF inv, of n] by auto
  have same: "members tx f (?v @ [n]) ?k = insert n (members tx f ?v ?k)" by auto
  have other: "k \<noteq> ?k \<Longrightarrow> members tx f (?v @ [n]) k = members tx f ?v k" for k by auto
  have "card (members tx f (?v @ [n]) ?k) = Suc (card (members tx f ?v ?k))"
    unfolding same using fresh by (subst card_insert_disjoint) auto
  moreover have "ag_records g = int (card (members tx f ?v ?k)) \<and> first \<in> members tx f (?v @ [n]) ?k"
  proof (cases "gs_groups gs ?k")
    case None
    have "(new_group ?k, n) = (g, first)" using old unfolding None option.case .
    then have "g = new_group ?k" "first = n" by (blast dest: sym)+
    with groups_invD(5) [OF inv None] show ?thesis by (simp add: new_group_def)
  next
    case (Some gf)
    then have "gs_groups gs ?k = Some (g, first)" using old by simp
    from groups_invD(6,7) [OF inv this] show ?thesis by simp
  qed
  ultimately have at_k: "first \<in> members tx f (?v @ [n]) ?k \<and> ag_records g' = int (card (members tx f (?v @ [n]) ?k))"
    using g' by simp
  have "groups_ok tx f (group_record tx f active n gs)"
    unfolding groups_ok_def
  proof
    fix k
    show "case gs_groups (group_record tx f active n gs) k of
        None \<Rightarrow> members tx f (gs_valid (group_record tx f active n gs)) k = {}
      | Some (g, first) \<Rightarrow> first \<in> members tx f (gs_valid (group_record tx f active n gs)) k
          \<and> ag_records g = int (card (members tx f (gs_valid (group_record tx f active n gs)) k))"
    proof (cases "k = ?k")
      case True
      then show ?thesis using at_k by (simp add: new)
    next
      case False
      have "case gs_groups gs k of None \<Rightarrow> members tx f ?v k = {}
        | Some (g, first) \<Rightarrow> first \<in> members tx f ?v k \<and> ag_records g = int (card (members tx f ?v k))"
        using inv unfolding groups_inv_def groups_ok_def by blast
      moreover have "gs_groups (group_record tx f active n gs) k = gs_groups gs k" using False by (simp add: new)
      moreover have "members tx f (gs_valid (group_record tx f active n gs)) k = members tx f ?v k"
        using False by (auto simp: new)
      ultimately show ?thesis by (simp only:)
    qed
  qed
  moreover have "valid_ok f active (Suc n) (gs_valid (group_record tx f active n gs))"
    using inv fresh n by (auto simp: groups_inv_def valid_ok_def new less_Suc_eq)
  ultimately show ?thesis by (simp add: groups_inv_def)
qed

lemma scan_groups_inv: "groups_inv tx f active (length (tf_records f)) (scan_groups tx f active)"
proof -
  have "groups_inv tx f active n (fold (group_record tx f active) [0..<n] \<lparr>gs_groups = Map.empty, gs_valid = []\<rparr>)" for n
    by (induction n) (simp_all add: group_record_inv, simp add: groups_inv_def valid_ok_def groups_ok_def)
  then show ?thesis by (simp add: scan_groups_def)
qed

subsection \<open>Accounting\<close>

definition record_weight :: "tx_externs \<Rightarrow> transcript_file \<Rightarrow> group_scan \<Rightarrow> nat \<Rightarrow> int" where
  "record_weight tx f gs i =
     (if i \<notin> set (gs_valid gs) then 1
      else case gs_groups gs (ident_at tx f i) of
             None \<Rightarrow> 0 | Some (g, first) \<Rightarrow> if first = i then ag_records g else 0)"

definition accounted :: "projection_stats \<Rightarrow> int" where
  "accounted s = ps_projected_records s + ps_omitted_records s"

lemma accounted_step [simp]:
  "accounted (pj_stats (omit k st)) = accounted (pj_stats st) + 1"
  "accounted (pj_stats (count_projected n st)) = accounted (pj_stats st) + n"
  "pj_stats (push_message m st) = pj_stats st"
  by (simp_all add: accounted_def omit_def count_projected_def push_message_def)

lemma projected_one [simp]:
  "accounted (pj_stats (project_user tx f i st)) = accounted (pj_stats st) + 1"
  "accounted (pj_stats (project_context tx f i st)) = accounted (pj_stats st) + 1"
  "accounted (pj_stats (project_title f i st)) = accounted (pj_stats st) + 1"
  "i \<notin> set (gs_valid gs) \<Longrightarrow> accounted (pj_stats (project_assistant tx project f anchor gs i st)) = accounted (pj_stats st) + 1"
  unfolding project_user_def project_context_def project_title_def project_assistant_def Let_def
  by (simp_all split: option.split prod.split)

lemma project_record_accounts:
  assumes inv: "groups_inv tx f active (length (tf_records f)) gs"
  shows "accounted (pj_stats (project_record tx project f anchor active gs i st))
     = accounted (pj_stats st) + record_weight tx f gs i"
proof (cases "i \<in> set (gs_valid gs)")
  case True
  note i = groups_invD(2-4) [OF inv True]
  obtain g first where g: "gs_groups gs (ident_at tx f i) = Some (g, first)"
    using groups_invD(5) [OF inv, of "ident_at tx f i"] True by (cases "gs_groups gs (ident_at tx f i)") auto
  have "accounted (pj_stats (project_assistant tx project f anchor gs i st)) = accounted (pj_stats st) + record_weight tx f gs i"
    using True g by (simp add: project_assistant_def record_weight_def ident_at_def Let_def)
  with i show ?thesis by (simp add: project_record_def Let_def)
next
  case False
  then have "record_weight tx f gs i = 1" by (simp add: record_weight_def)
  with False show ?thesis unfolding project_record_def Let_def by simp
qed

lemma weights_total:
  assumes inv: "groups_inv tx f active n gs"
  shows "(\<Sum>i<n. record_weight tx f gs i) = int n"
proof -
  let ?V = "set (gs_valid gs)" and ?id = "ident_at tx f" and ?M = "members tx f (gs_valid gs)"
  let ?F = "{i \<in> ?V. \<exists>g. gs_groups gs (?id i) = Some (g, i)}"
  have V: "?V \<subseteq> {..<n}" using groups_invD(1) [OF inv] by auto
  have first: "\<exists>i\<in>?F. ?id i = ?id j" if j: "j \<in> ?V" for j
  proof (cases "gs_groups gs (?id j)")
    case None
    then show ?thesis using groups_invD(5) [OF inv None] j by blast
  next
    case (Some gf)
    then obtain g i where g: "gs_groups gs (?id j) = Some (g, i)" by (cases gf) simp
    have "i \<in> ?V" "?id i = ?id j" using groups_invD(6) [OF inv g] by simp_all
    with g show ?thesis by (intro bexI [of _ i]) simp_all
  qed
  have w: "record_weight tx f gs i = int (card (?M (?id i)))" if i: "i \<in> ?F" for i
  proof -
    from i obtain g where g: "gs_groups gs (?id i) = Some (g, i)" and v: "i \<in> ?V" by blast
    have "record_weight tx f gs i = ag_records g" by (simp add: record_weight_def v g)
    with groups_invD(7) [OF inv g] show ?thesis by simp
  qed
  have zero: "record_weight tx f gs i = 0" if i: "i \<in> ?V - ?F" for i
    using i by (simp add: record_weight_def split: option.split prod.split)
  have disj: "?M (?id i) \<inter> ?M (?id j) = {}" if "i \<in> ?F" "j \<in> ?F" "i \<noteq> j" for i j
  proof -
    have "?id i \<noteq> ?id j" using that by auto
    then show ?thesis by auto
  qed
  have "(\<Sum>i\<in>?V. record_weight tx f gs i) = (\<Sum>i\<in>?F. record_weight tx f gs i)"
    using zero by (intro sum.mono_neutral_right) auto
  also have "\<dots> = (\<Sum>i\<in>?F. int (card (?M (?id i))))" by (rule sum.cong [OF refl w])
  also have "\<dots> = int (card (\<Union>i\<in>?F. ?M (?id i)))"
    using disj by (subst card_UN_disjoint) auto
  also have "(\<Union>i\<in>?F. ?M (?id i)) = ?V"
  proof
    show "?V \<subseteq> (\<Union>i\<in>?F. ?M (?id i))"
    proof
      fix j assume j: "j \<in> ?V"
      then obtain i where "i \<in> ?F" "?id i = ?id j" using first by blast
      with j show "j \<in> (\<Union>i\<in>?F. ?M (?id i))" by (intro UN_I [of i]) simp_all
    qed
  qed blast
  finally have valid: "(\<Sum>i\<in>?V. record_weight tx f gs i) = int (card ?V)" .
  have "(\<Sum>i\<in>{..<n} - ?V. record_weight tx f gs i) = (\<Sum>i\<in>{..<n} - ?V. 1)"
    by (rule sum.cong) (simp_all add: record_weight_def)
  then have rest: "(\<Sum>i\<in>{..<n} - ?V. record_weight tx f gs i) = int (card ({..<n} - ?V))" by simp
  have "(\<Sum>i<n. record_weight tx f gs i) = (\<Sum>i\<in>{..<n} - ?V. record_weight tx f gs i) + (\<Sum>i\<in>?V. record_weight tx f gs i)"
    using V by (intro sum.subset_diff) simp_all
  moreover have "card {..<n} = card ({..<n} - ?V) + card ?V"
    using card_Diff_subset [of ?V "{..<n}"] V card_mono [OF _ V] by simp
  ultimately show ?thesis using valid rest by simp
qed

lemma file_accounts:
  "accounted (pj_stats (project_transcript_file tx project f stats anchor)) = accounted stats + int (length (tf_records f))"
proof -
  let ?a = "active_transcript_path f"
  let ?gs = "scan_groups tx f ?a"
  have "accounted (pj_stats (fold (project_record tx project f anchor ?a ?gs) [0..<n] (new_projection stats)))
      = accounted stats + (\<Sum>i<n. record_weight tx f ?gs i)" for n
  proof (induction n)
    case (Suc n)
    then show ?case by (simp add: project_record_accounts [OF scan_groups_inv])
  qed (simp add: new_projection_def)
  then show ?thesis by (simp add: project_transcript_file_def Let_def weights_total [OF scan_groups_inv])
qed

definition projectable :: "deriver \<Rightarrow> transcript_file \<Rightarrow> bool" where
  "projectable dv f \<longleftrightarrow> spawn_evidence f \<and> map_get (dv_wire_main_calls dv) (tf_session f) 0 \<le> 0"

lemma accounted_suppressed [simp]: "accounted (s\<lparr>ps_suppressed_by_wire := b\<rparr>) = accounted s"
  by (simp add: accounted_def)

lemma prepare_file_accounts:
  "accounted (pp_stats (prepare_file tx dv owners f pp)) = accounted (pp_stats pp)
     + (if projectable dv f then int (length (tf_records f)) else 0)"
  by (simp add: prepare_file_def projectable_def file_accounts Let_def)

lemma prepare_fold_accounts:
  "accounted (pp_stats (fold (prepare_file tx dv owners) files pp)) = accounted (pp_stats pp)
     + sum_list (map (\<lambda>f. int (length (tf_records f))) (filter (projectable dv) files))"
  by (induction files arbitrary: pp) (simp_all add: prepare_file_accounts)

lemma sort_key_sum: "sum_list (map g (filter P (sort_key k xs))) = sum_list (map (g :: 'a \<Rightarrow> int) (filter P xs))"
proof -
  have "mset (map g (filter P (sort_key k xs))) = mset (map g (filter P xs))"
    by (simp add: mset_filter)
  then show ?thesis by (metis sum_mset_sum_list)
qed

subsection \<open>Suppression\<close>

lemma list_all_sort: "list_all P (sort_key k xs) = list_all P xs"
  by (simp add: list_all_iff)

lemma turns_kept [simp]:
  "pj_turns (omit k st) = pj_turns st" "pj_turns (count_projected n st) = pj_turns st"
  "pj_turns (push_message m st) = pj_turns st"
  by (simp_all add: omit_def count_projected_def push_message_def)

lemma projected_turns [simp]:
  "pj_turns (project_user tx f i st) = pj_turns st" "pj_turns (project_context tx f i st) = pj_turns st"
  "pj_turns (project_title f i st) = pj_turns st"
  unfolding project_user_def project_context_def project_title_def Let_def
  by (simp_all split: option.split prod.split)

lemma normalized_session [simp]: "tt_session (normalize_transcript_turn tx project f h p g ti a) = tf_session f"
  by (simp add: normalize_transcript_turn_def Let_def)

lemma project_assistant_sessions:
  "list_all (\<lambda>t. tt_session t = tf_session f) (pj_turns st) \<Longrightarrow>
   list_all (\<lambda>t. tt_session t = tf_session f) (pj_turns (project_assistant tx project f anchor gs i st))"
  unfolding project_assistant_def Let_def by (simp split: option.split prod.split)

lemma project_record_sessions:
  "list_all (\<lambda>t. tt_session t = tf_session f) (pj_turns st) \<Longrightarrow>
   list_all (\<lambda>t. tt_session t = tf_session f) (pj_turns (project_record tx project f anchor active gs i st))"
  unfolding project_record_def Let_def by (simp add: project_assistant_sessions)

lemma project_file_sessions:
  "list_all (\<lambda>t. tt_session t = tf_session f) (pj_turns (project_transcript_file tx project f stats anchor))"
proof -
  have "list_all (\<lambda>t. tt_session t = tf_session f) (pj_turns st) \<Longrightarrow>
     list_all (\<lambda>t. tt_session t = tf_session f) (pj_turns (fold (project_record tx project f anchor active gs) is st))"
    for active gs "is" st by (induction "is" arbitrary: st) (simp_all add: project_record_sessions)
  then show ?thesis by (simp add: project_transcript_file_def Let_def new_projection_def)
qed

definition fallback_session :: "deriver \<Rightarrow> session_key \<Rightarrow> bool" where
  "fallback_session dv s \<longleftrightarrow> map_get (dv_wire_main_calls dv) s 0 \<le> 0"

lemma prepare_file_sessions:
  "list_all (\<lambda>t. fallback_session dv (tt_session t)) (pp_turns pp) \<Longrightarrow>
   list_all (\<lambda>t. fallback_session dv (tt_session t)) (pp_turns (prepare_file tx dv owners f pp))"
  using project_file_sessions [of f tx "dv_project dv" "pp_stats pp" "file_anchor tx owners f"]
  by (auto simp: prepare_file_def fallback_session_def Let_def list_all_iff)

lemma prepare_fold_sessions:
  "list_all (\<lambda>t. fallback_session dv (tt_session t)) (pp_turns pp) \<Longrightarrow>
   list_all (\<lambda>t. fallback_session dv (tt_session t)) (pp_turns (fold (prepare_file tx dv owners) files pp))"
  by (induction files arbitrary: pp) (simp_all add: prepare_file_sessions)

subsection \<open>Properties\<close>


text \<open>The fallback accounts for every record. Over a derive pass, the projected and the omitted
  records together are the records of the files that are spawn evidence and whose session has no
  wire conversation, each counted once, whatever the records hold.\<close>

theorem projection_accounts:
  "ps_projected_records (pp_stats (prepare_transcript_fallback tx dv files))
     + ps_omitted_records (pp_stats (prepare_transcript_fallback tx dv files))
   = sum_list (map (\<lambda>f. int (length (tf_records f))) (filter (projectable dv) files))"
proof -
  have "accounted (pp_stats (prepare_transcript_fallback tx dv files))
      = sum_list (map (\<lambda>f. int (length (tf_records f))) (filter (projectable dv) files))"
    unfolding prepare_transcript_fallback_def Let_def
    by (simp add: prepare_fold_accounts sort_key_sum) (simp add: accounted_def new_projection_stats_def)
  then show ?thesis by (simp add: accounted_def)
qed

text \<open>The wire is authoritative. A session in which the wire captured a conversation call gets no
  call from its transcripts, and the calls of the others come in order of their start.\<close>

theorem fallback_suppressed:
  "list_all (\<lambda>t. fallback_session dv (tt_session t)) (pp_turns (prepare_transcript_fallback tx dv files))
   \<and> sorted (map tt_captured_at (pp_turns (prepare_transcript_fallback tx dv files)))"
  using prepare_fold_sessions [of dv "\<lparr>pp_turns = [], pp_stats = s, pp_titles = [], pp_files = n, pp_applied = False\<rparr>" for s n]
  by (simp add: prepare_transcript_fallback_def Let_def list_all_sort)

end
