(* ===== verification/ExtprocHeaders.thy ===== *)
theory ExtprocHeaders
  imports SessionFolds
begin

text \<open>
  Headers of a captured request (\<open>extproc/headers/headers.go\<close>, \<open>envelope.go\<close>): lookup, the session
  envelope, the sub-thread id and the keys to strip before the request goes upstream.

  Header names are ASCII tokens, where \<open>strings.EqualFold\<close> and \<open>strings.ToLower\<close> are the ASCII ones.
  The metadata header (base64url of a JSON object) is decoded by a parameter.
\<close>

subsection \<open>Lookup\<close>

record header =
  hd_key :: string
  hd_value :: string
  hd_raw_value :: string

definition equal_fold :: "string \<Rightarrow> string \<Rightarrow> bool" where
  "equal_fold a b \<longleftrightarrow> go_to_lower a = go_to_lower b"

fun header_get :: "header list \<Rightarrow> string \<Rightarrow> string" where
  "header_get [] name = []"
| "header_get (h # hs) name =
     (if equal_fold (hd_key h) name then (if hd_raw_value h \<noteq> [] then hd_raw_value h else hd_value h)
      else header_get hs name)"

definition digits_value :: "string \<Rightarrow> int" where
  "digits_value ds = foldl (\<lambda>n c. n * 10 + (int (of_char c) - 48)) 0 ds"

text \<open>\<open>strconv.Atoi\<close> with its error dropped: 0 for a malformed text, the nearest end of the range for one
  out of range.\<close>

definition atoi_or_zero :: "string \<Rightarrow> int" where
  "atoi_or_zero s =
     (let (neg, ds) = (case s of [] \<Rightarrow> (False, []) | c # cs \<Rightarrow>
            if c = CHR ''-'' then (True, cs) else if c = CHR ''+'' then (False, cs) else (False, s))
      in if ds = [] \<or> \<not> list_all is_digit ds then 0
         else if neg then max (- (2 ^ 63)) (- digits_value ds) else min (2 ^ 63 - 1) (digits_value ds))"

definition header_status_code :: "header list \<Rightarrow> int" where
  "header_status_code hs = atoi_or_zero (header_get hs '':status'')"

subsection \<open>The sub-thread\<close>

definition harness_thread_id_headers :: "string list" where
  "harness_thread_id_headers = [''x-claude-code-agent-id'']"

definition header_thread_id :: "header list \<Rightarrow> string" where
  "header_thread_id hs =
     (case find (\<lambda>v. v \<noteq> []) (map (header_get hs) harness_thread_id_headers) of
        Some v \<Rightarrow> v
      | None \<Rightarrow>
          (let tid = header_get hs ''thread-id''; sid = header_get hs ''session-id''
           in if tid \<noteq> [] \<and> sid \<noteq> [] \<and> tid \<noteq> sid then tid else []))"

subsection \<open>The session envelope\<close>

record session_headers =
  sh_present :: bool
  sh_harness_id :: string
  sh_harness_session_id :: string
  sh_harness_version :: string
  sh_cwd :: string
  sh_name :: string
  sh_parent_harness_session_id :: string
  sh_harness_metadata :: "jobj option"
  sh_metadata_malformed :: bool

definition absent_session :: session_headers where
  "absent_session = \<lparr>sh_present = False, sh_harness_id = [], sh_harness_session_id = [], sh_harness_version = [],
     sh_cwd = [], sh_name = [], sh_parent_harness_session_id = [], sh_harness_metadata = None,
     sh_metadata_malformed = False\<rparr>"

definition tapes_envelope_prefix :: string where
  "tapes_envelope_prefix = ''x-tapes-''"

definition is_envelope_key :: "string \<Rightarrow> bool" where
  "is_envelope_key k \<longleftrightarrow> has_prefix (go_to_lower k) tapes_envelope_prefix"

definition hex_value :: "char \<Rightarrow> nat option" where
  "hex_value c =
     (let n = (of_char c :: nat)
      in if 48 \<le> n \<and> n \<le> 57 then Some (n - 48)
         else if 97 \<le> n \<and> n \<le> 102 then Some (n - 87)
         else if 65 \<le> n \<and> n \<le> 70 then Some (n - 55) else None)"

text \<open>\<open>url.PathUnescape\<close>.\<close>

fun path_unescape :: "string \<Rightarrow> string option" where
  "path_unescape [] = Some []"
| "path_unescape (c # s) =
     (if c = CHR ''%''
      then (case s of
              h # l # rest \<Rightarrow>
                (case (hex_value h, hex_value l) of
                   (Some a, Some b) \<Rightarrow> map_option (\<lambda>r. char_of (16 * a + b) # r) (path_unescape rest)
                 | _ \<Rightarrow> None)
            | _ \<Rightarrow> None)
      else map_option (\<lambda>r. c # r) (path_unescape s))"

text \<open>The bytes of a longer code point are never below 0x80.\<close>

definition has_control_rune :: "string \<Rightarrow> bool" where
  "has_control_rune s = list_ex (\<lambda>c. (of_char c :: nat) < 32 \<or> (of_char c :: nat) = 127) s"

definition decode_envelope_header_value :: "string \<Rightarrow> string" where
  "decode_envelope_header_value raw =
     (let v = (case path_unescape raw of Some d \<Rightarrow> d | None \<Rightarrow> raw) in if has_control_rune v then [] else v)"

definition parse_session_envelope :: "(string \<Rightarrow> jobj option) \<Rightarrow> header list \<Rightarrow> session_headers" where
  "parse_session_envelope decode_metadata hs =
     (if \<not> list_ex (\<lambda>h. is_envelope_key (hd_key h)) hs then absent_session
      else let get = header_get hs;
               decoded = (\<lambda>raw. if raw = [] then [] else decode_envelope_header_value raw);
               md = get ''x-tapes-harness-metadata''
           in \<lparr>sh_present = True,
               sh_harness_id = (if get ''x-tapes-harness-id'' = [] then ''unknown'' else get ''x-tapes-harness-id''),
               sh_harness_session_id = get ''x-tapes-harness-session-id'',
               sh_harness_version = get ''x-tapes-harness-version'',
               sh_cwd = decoded (get ''x-tapes-cwd''), sh_name = decoded (get ''x-tapes-session-name''),
               sh_parent_harness_session_id = get ''x-tapes-parent-harness-session-id'',
               sh_harness_metadata = (if md = [] then None else decode_metadata md),
               sh_metadata_malformed = (md \<noteq> [] \<and> decode_metadata md = None)\<rparr>)"

definition envelope_header_keys :: "header list \<Rightarrow> string list" where
  "envelope_header_keys hs = filter is_envelope_key (map hd_key hs)"

subsection \<open>Facts\<close>

text \<open>A proxy removes a header by its name, in any case.\<close>

definition strip_headers :: "string list \<Rightarrow> header list \<Rightarrow> header list" where
  "strip_headers ks hs = filter (\<lambda>h. \<not> list_ex (equal_fold (hd_key h)) ks) hs"

lemma equal_fold_refl [simp]: "equal_fold a a"
  by (simp add: equal_fold_def)

lemma equal_fold_envelope: "equal_fold a b \<Longrightarrow> is_envelope_key a = is_envelope_key b"
  by (simp add: equal_fold_def is_envelope_key_def)

text \<open>What is removed is exactly the envelope.\<close>

lemma strip_envelope: "strip_headers (envelope_header_keys hs) hs = filter (\<lambda>h. \<not> is_envelope_key (hd_key h)) hs"
proof -
  have "list_ex (equal_fold (hd_key h)) (envelope_header_keys hs) = is_envelope_key (hd_key h)" if "h \<in> set hs" for h
    using that equal_fold_envelope by (fastforce simp: envelope_header_keys_def list_ex_iff)
  then show ?thesis unfolding strip_headers_def by (intro filter_cong) simp_all
qed

lemma header_get_strip:
  "\<not> is_envelope_key name \<Longrightarrow> header_get (filter (\<lambda>h. \<not> is_envelope_key (hd_key h)) hs) name = header_get hs name"
  by (induction hs) (auto dest: equal_fold_envelope)

text \<open>Escaping with \<open>url.PathEscape\<close>, as the clients do, is undone.\<close>

definition path_safe :: "char \<Rightarrow> bool" where
  "path_safe c \<longleftrightarrow> c \<noteq> CHR ''%''"

lemma path_unescape_plain: "list_all path_safe s \<Longrightarrow> path_unescape s = Some s"
  by (induction s) (auto simp: path_safe_def)

lemma decoded_no_control: "\<not> has_control_rune (decode_envelope_header_value raw)"
  by (simp add: decode_envelope_header_value_def Let_def has_control_rune_def)

end
