(* ===== verification/Results.thy ===== *)
theory Results
  imports Prelude
begin

text \<open>
  Results of Go calls that return a value and an error, as sums: a left value is the error, and a
  sequence of calls stops at the first one.
\<close>

definition and_then :: "'e + 'a \<Rightarrow> ('a \<Rightarrow> 'e + 'b) \<Rightarrow> 'e + 'b" where
  "and_then r k = (case r of Inl e \<Rightarrow> Inl e | Inr x \<Rightarrow> k x)"

lemma and_then_simps [simp]: "and_then (Inl e) k = Inl e" "and_then (Inr x) k = k x"
  by (simp_all add: and_then_def)

lemma and_then_Inr: "and_then r k = Inr y \<longleftrightarrow> (\<exists>x. r = Inr x \<and> k x = Inr y)"
  by (simp add: and_then_def split: sum.split)

text \<open>Wrapping an error, as \<open>fmt.Errorf\<close> with a verb of its own.\<close>

definition wrap_err :: "('e \<Rightarrow> 'f) \<Rightarrow> 'e + 'a \<Rightarrow> 'f + 'a" where
  "wrap_err w r = (case r of Inl e \<Rightarrow> Inl (w e) | Inr x \<Rightarrow> Inr x)"

lemma wrap_err_simps [simp]: "wrap_err w (Inl e) = Inl (w e)" "wrap_err w (Inr x) = Inr x"
  by (simp_all add: wrap_err_def)

lemma wrap_err_Inr [simp]: "wrap_err w r = Inr x \<longleftrightarrow> r = Inr x"
  by (simp add: wrap_err_def split: sum.split)

text \<open>A loop that applies a fallible step to every element, or folds one.\<close>

fun each :: "('a \<Rightarrow> 'e + 'b) \<Rightarrow> 'a list \<Rightarrow> 'e + 'b list" where
  "each f [] = Inr []"
| "each f (x # xs) = and_then (f x) (\<lambda>y. and_then (each f xs) (\<lambda>ys. Inr (y # ys)))"

fun fold_res :: "('a \<Rightarrow> 's \<Rightarrow> 'e + 's) \<Rightarrow> 'a list \<Rightarrow> 's \<Rightarrow> 'e + 's" where
  "fold_res f [] s = Inr s"
| "fold_res f (x # xs) s = and_then (f x s) (fold_res f xs)"

lemma each_ok: "list_all (\<lambda>x. f x = Inr (g x)) xs \<Longrightarrow> each f xs = Inr (map g xs)"
  by (induction xs) simp_all

lemma each_Inr_iff: "each f xs = Inr ys \<longleftrightarrow> list_all2 (\<lambda>x y. f x = Inr y) xs ys"
  by (induction xs arbitrary: ys) (auto simp: and_then_Inr list_all2_Cons1)

lemma fold_res_ok: "list_all (\<lambda>x. \<forall>s. f x s = Inr (g x s)) xs \<Longrightarrow> fold_res f xs s = Inr (fold g xs s)"
  by (induction xs arbitrary: s) simp_all

lemma fold_res_append: "fold_res f (xs @ ys) s = and_then (fold_res f xs s) (fold_res f ys)"
  by (induction xs arbitrary: s) (simp_all add: and_then_def split: sum.split)

end
