(* ===== verification/Rederive.thy ===== *)
theory Rederive
  imports TranscriptFacts Reconcile DeriveQueue Results
begin

text \<open>
  Rebuilding a session from its raw turns (\<open>pkg/storage/postgres/derive.go\<close>,
  \<open>recover_reduction.go\<close>): the index scan, the choice of transcript versions, the merge of wire and
  transcript calls in order of their start, reconciliation, and the reports of a whole-store pass.

  The store's reads are functions that answer an error or rows; the reducers and the stored encodings
  are parameters of the recovery of a failed reduction. A Go map of groups is read in the order
  of first appearance: the selected ids are sorted afterwards, and only which of several failing
  rows is reported depends on that order.
\<close>

subsection \<open>What the store answers\<close>

record index_row =
  ix_id :: int
  ix_source :: string
  ix_meta :: string
  ix_received_at :: gotime

record stored_turn = raw_turn_record +
  su_raw_response :: string
  su_raw_response_encoding :: string

abbreviation raw_of :: "stored_turn \<Rightarrow> raw_turn_record" where
  "raw_of r \<equiv> raw_turn_record.truncate r"

datatype rederive_failure =
    BadOrg string
  | IndexFailed string
  | FetchFailed int string
  | ParseFailed int string
  | LockFailed string
  | ListFailed string

record rederive_store =
  rd_parse_org :: "string \<Rightarrow> string option"
  rd_render_org :: "string \<Rightarrow> string"
  rd_index :: "pg_uuid \<Rightarrow> session_key \<Rightarrow> string + index_row list"
  rd_turn :: "int \<Rightarrow> string + stored_turn"
  rd_lock :: "string \<Rightarrow> session_key \<Rightarrow> string + unit"
  rd_sessions :: "string + (pg_uuid \<times> session_key) list"
  rd_group_meta :: "string \<Rightarrow> string \<times> string" \<comment> \<open>\<open>agent_id\<close> and \<open>kind\<close>, as far as they decode\<close>
  rd_reducers :: "string \<Rightarrow> (string \<Rightarrow> string \<Rightarrow> string \<Rightarrow> chat_response option) option"
  rd_decode :: "string \<Rightarrow> string \<Rightarrow> string option" \<comment> \<open>body and content encoding\<close>
  rd_content_type :: "string \<Rightarrow> string option"
  rd_marshal :: "chat_response \<Rightarrow> string option"

subsection \<open>Recovering a failed reduction\<close>

definition reduced_response_unusable :: "externs \<Rightarrow> string \<Rightarrow> bool" where
  "reduced_response_unusable ext raw =
     (raw = [] \<or>
      (case ext_response ext raw of
         Inl _ \<Rightarrow> True
       | Inr resp \<Rightarrow> msg_role (rs_message resp) = [] \<or> msg_content (rs_message resp) = []))"

definition content_type_from_meta :: "rederive_store \<Rightarrow> string \<Rightarrow> string" where
  "content_type_from_meta st meta =
     (if meta = [] then [] else case rd_content_type st meta of None \<Rightarrow> [] | Some ct \<Rightarrow> ct)"

definition recovered_response :: "rederive_store \<Rightarrow> stored_turn \<Rightarrow> string option" where
  "recovered_response st rec =
     (case rd_reducers st (rt_provider rec) of
        None \<Rightarrow> None
      | Some reduce \<Rightarrow>
          (case rd_decode st (su_raw_response rec) (su_raw_response_encoding rec) of
             None \<Rightarrow> None
           | Some body \<Rightarrow>
               (case reduce (rt_raw_request rec) body (content_type_from_meta st (rt_meta rec)) of
                  None \<Rightarrow> None
                | Some resp \<Rightarrow> rd_marshal st resp)))"

definition recover_reduction :: "externs \<Rightarrow> rederive_store \<Rightarrow> stored_turn \<Rightarrow> stored_turn" where
  "recover_reduction ext st rec =
     (if su_raw_response rec = [] \<or> \<not> reduced_response_unusable ext (rt_response rec) then rec
      else case recovered_response st rec of
             None \<Rightarrow> rec
           | Some out \<Rightarrow> if reduced_response_unusable ext out then rec else rec\<lparr>rt_response := out\<rparr>)"

subsection \<open>Versions of a transcript\<close>

record transcript_group =
  tg_main :: bool
  tg_agent :: string
  tg_spawn :: bool
  tg_kind :: string

definition transcript_group_of :: "rederive_store \<Rightarrow> string \<Rightarrow> transcript_group" where
  "transcript_group_of st meta =
     (let (agent, kind) = rd_group_meta st meta; spawn = (kind = [] \<or> kind = sub_agent_kind_started)
      in \<lparr>tg_main = (agent = []), tg_agent = agent, tg_spawn = spawn, tg_kind = (if spawn then [] else kind)\<rparr>)"

text \<open>The rows of a group, newest first; the walk keeps the newest file that is spawn evidence and
  the newest straggler before it that is not.\<close>

definition group_ids :: "rederive_store \<Rightarrow> index_row list \<Rightarrow> transcript_group \<Rightarrow> int list" where
  "group_ids st rows g =
     sort_key uminus (map ix_id (filter (\<lambda>r. transcript_group_of st (ix_meta r) = g) rows))"

fun walk_versions :: "(int \<Rightarrow> 'e + transcript_file) \<Rightarrow> bool \<Rightarrow> int list \<Rightarrow> 'e + int list" where
  "walk_versions load kept [] = Inr []"
| "walk_versions load kept (i # ids) =
     and_then (load i) (\<lambda>file.
       if spawn_evidence file then Inr [i]
       else if kept then walk_versions load True ids
       else and_then (walk_versions load True ids) (\<lambda>rest. Inr (i # rest)))"

definition select_versions ::
  "rederive_store \<Rightarrow> (int \<Rightarrow> 'e + transcript_file) \<Rightarrow> index_row list \<Rightarrow> transcript_group \<Rightarrow> 'e + int list"
where
  "select_versions st load rows g =
     (let ids = group_ids st rows g
      in if tg_spawn g then walk_versions load False ids else Inr [hd ids])"

definition transcript_groups :: "rederive_store \<Rightarrow> index_row list \<Rightarrow> transcript_group list" where
  "transcript_groups st rows = remdups (map (\<lambda>r. transcript_group_of st (ix_meta r)) rows)"

definition load_file :: "tx_externs \<Rightarrow> rederive_store \<Rightarrow> int \<Rightarrow> rederive_failure + transcript_file" where
  "load_file tx st i =
     and_then (wrap_err (FetchFailed i) (rd_turn st i)) (\<lambda>row.
       wrap_err (ParseFailed i) (parse_transcript_file tx (raw_of row)))"

definition session_transcripts ::
  "tx_externs \<Rightarrow> rederive_store \<Rightarrow> index_row list \<Rightarrow> rederive_failure + transcript_file list"
where
  "session_transcripts tx st index =
     (let rows = filter (\<lambda>r. ix_source r = source_transcript) index
      in and_then (each (select_versions st (load_file tx st) rows) (transcript_groups st rows)) (\<lambda>idss.
           each (load_file tx st) (sort (concat idss))))"

subsection \<open>The merge\<close>

record wire_entry =
  we_id :: int
  we_captured_at :: gotime

definition index_entry :: "externs \<Rightarrow> index_row \<Rightarrow> wire_entry" where
  "index_entry ext row =
     \<lparr>we_id = ix_id row,
      we_captured_at = captured_at ext
        \<lparr>rt_id = ix_id row, rt_source = [], rt_provider = [], rt_agent_name = [], rt_harness_id = [],
         rt_harness_session_id = [], rt_request_id = [], rt_raw_request = [], rt_response = [],
         rt_meta = ix_meta row, rt_session_envelope = [], rt_received_at = ix_received_at row\<rparr>\<rparr>"

definition wire_entries :: "externs \<Rightarrow> index_row list \<Rightarrow> wire_entry list" where
  "wire_entries ext index =
     sort_key we_captured_at (map (index_entry ext) (filter (\<lambda>r. ix_source r \<noteq> source_transcript) index))"

definition load_wire :: "externs \<Rightarrow> rederive_store \<Rightarrow> wire_entry \<Rightarrow> rederive_failure + raw_turn_record" where
  "load_wire ext st we =
     and_then (wrap_err (FetchFailed (we_id we)) (rd_turn st (we_id we))) (\<lambda>row.
       Inr (raw_of (recover_reduction ext st row)))"

fun merge_calls ::
  "externs \<Rightarrow> (wire_entry \<Rightarrow> 'e + raw_turn_record) \<Rightarrow> wire_entry list \<Rightarrow> transcript_turn list \<Rightarrow> deriver \<Rightarrow> 'e + deriver"
where
  "merge_calls ext load [] [] dv = Inr dv"
| "merge_calls ext load [] (t # ts) dv = merge_calls ext load [] ts (add_transcript_turn t dv)"
| "merge_calls ext load (w # ws) [] dv =
     and_then (load w) (\<lambda>rec. merge_calls ext load ws [] (add_turn ext rec dv))"
| "merge_calls ext load (w # ws) (t # ts) dv =
     (if tt_captured_at t < we_captured_at w
      then merge_calls ext load (w # ws) ts (add_transcript_turn t dv)
      else and_then (load w) (\<lambda>rec. merge_calls ext load ws (t # ts) (add_turn ext rec dv)))"

subsection \<open>One session\<close>

record session_report = rederive_report +
  sr_reconcile :: "reconcile_stats option"
  sr_projection :: "projection_stats option"

definition full_report :: "rederive_report \<Rightarrow> reconcile_stats option \<Rightarrow> projection_stats option \<Rightarrow> session_report" where
  "full_report r reconcile projection =
     rederive_report.extend r \<lparr>sr_reconcile = reconcile, sr_projection = projection\<rparr>"

definition cover_session :: "session_key \<Rightarrow> derived_set \<Rightarrow> derived_set" where
  "cover_session key ds =
     (if key \<in> set (ds_sessions ds) then ds else ds\<lparr>ds_sessions := ds_sessions ds @ [key]\<rparr>)"

definition probe_session ::
  "externs \<Rightarrow> rederive_store \<Rightarrow> string \<Rightarrow> transcript_file list \<Rightarrow> wire_entry list \<Rightarrow> rederive_failure + deriver"
where
  "probe_session ext st project files wire =
     (if files = [] then Inr (new_deriver project)
      else fold_res (\<lambda>we probe.
             and_then (load_wire ext st we) (\<lambda>rec. Inr (probe_turn ext (Some rec) probe)))
           wire (new_deriver project))"

definition derive_session ::
  "tx_externs \<Rightarrow> rederive_store \<Rightarrow> string \<Rightarrow> transcript_file list \<Rightarrow> wire_entry list
   \<Rightarrow> rederive_failure + derived_set \<times> projection_stats"
where
  "derive_session tx st project files wire =
     (let ext = tx_ext tx
      in and_then (probe_session ext st project files wire) (\<lambda>probe.
           let pp = prepare_transcript_fallback tx probe files;
               dv = fst (apply_transcript_projection pp (new_deriver project))
           in and_then (merge_calls ext (load_wire ext st) wire (pp_turns pp) dv) (\<lambda>dv'.
                Inr (finish_deriver dv', pp_stats pp))))"

definition rederive_session ::
  "tx_externs \<Rightarrow> rederive_store \<Rightarrow> string \<Rightarrow> string \<Rightarrow> session_key \<Rightarrow> rederive_failure + derived_set \<times> session_report"
where
  "rederive_session tx st project org key =
     and_then (wrap_err BadOrg (org_id_from_string (rd_parse_org st) (org_key_for_lookup org))) (\<lambda>org_id.
     and_then (wrap_err IndexFailed (rd_index st org_id key)) (\<lambda>index.
     and_then (session_transcripts tx st index) (\<lambda>files.
     and_then (derive_session tx st project files (wire_entries (tx_ext tx) index)) (\<lambda>(ds, projection).
       let (ds', stats) = reconcile_transcripts tx (cover_session key ds) files
       in Inr (ds', full_report (ds_report ds') (Some stats) (Some projection))))))"

definition rederive_session_locked ::
  "tx_externs \<Rightarrow> rederive_store \<Rightarrow> string \<Rightarrow> string \<Rightarrow> session_key \<Rightarrow> rederive_failure + derived_set \<times> session_report"
where
  "rederive_session_locked tx st project org key =
     and_then (wrap_err LockFailed (rd_lock st org key)) (\<lambda>_. rederive_session tx st project org key)"

subsection \<open>A pass over the whole store\<close>

definition rederive_diagnostic_limit :: nat where
  "rederive_diagnostic_limit = 20"

definition append_bounded :: "'a list \<Rightarrow> 'a list \<Rightarrow> nat \<Rightarrow> 'a list" where
  "append_bounded dst src limit =
     (if limit \<le> length dst then dst
      else dst @ (if limit - length dst < length src then take (limit - length dst) src else src))"

definition new_rederive_report :: session_report where
  "new_rederive_report = full_report (empty_report\<lparr>rr_call_kinds := Map.empty, rr_node_kinds := Map.empty\<rparr>) None None"

text \<open>Adding the counts of a map to those of another.\<close>

definition add_counts :: "('k \<Rightarrow> int option) \<Rightarrow> ('k \<Rightarrow> int option) \<Rightarrow> 'k \<Rightarrow> int option" where
  "add_counts dst src k = (case src k of None \<Rightarrow> dst k | Some c \<Rightarrow> Some (map_get dst k 0 + c))"

definition merge_reconcile :: "reconcile_stats option \<Rightarrow> reconcile_stats option \<Rightarrow> reconcile_stats option" where
  "merge_reconcile dst src =
     (case src of
        None \<Rightarrow> dst
      | Some s \<Rightarrow>
          (let d = (case dst of None \<Rightarrow> zero_reconcile_stats | Some d \<Rightarrow> d)
           in Some (d\<lparr>rs_transcript_files := rs_transcript_files d + rs_transcript_files s,
                      rs_subagent_forks := rs_subagent_forks d + rs_subagent_forks s,
                      rs_forked_chains := rs_forked_chains d + rs_forked_chains s,
                      rs_main_chains_joined := rs_main_chains_joined d + rs_main_chains_joined s,
                      rs_conversation_joined := rs_conversation_joined d + rs_conversation_joined s,
                      rs_conversation_total := rs_conversation_total d + rs_conversation_total s\<rparr>)))"

definition merge_projection :: "projection_stats option \<Rightarrow> projection_stats option \<Rightarrow> projection_stats option" where
  "merge_projection dst src =
     (case src of
        None \<Rightarrow> dst
      | Some s \<Rightarrow>
          (let d = (case dst of None \<Rightarrow> new_projection_stats | Some d \<Rightarrow> d)
           in Some (d\<lparr>ps_files := ps_files d + ps_files s,
                      ps_records := ps_records d + ps_records s,
                      ps_projected_records := ps_projected_records d + ps_projected_records s,
                      ps_omitted_records := ps_omitted_records d + ps_omitted_records s,
                      ps_omitted_types := add_counts (ps_omitted_types d) (ps_omitted_types s),
                      ps_suppressed_by_wire := ps_suppressed_by_wire d \<or> ps_suppressed_by_wire s\<rparr>)))"

definition merge_rederive_report :: "session_report \<Rightarrow> session_report \<Rightarrow> session_report" where
  "merge_rederive_report dst src = dst
     \<lparr>rr_raw_turns := rr_raw_turns dst + rr_raw_turns src,
      rr_parsed_turns := rr_parsed_turns dst + rr_parsed_turns src,
      rr_raw_only_turns := rr_raw_only_turns dst + rr_raw_only_turns src,
      rr_nodes := rr_nodes dst + rr_nodes src,
      rr_judged_actions := rr_judged_actions dst + rr_judged_actions src,
      rr_attached_verdicts := rr_attached_verdicts dst + rr_attached_verdicts src,
      rr_web_summary_attached := rr_web_summary_attached dst + rr_web_summary_attached src,
      rr_plans_attached := rr_plans_attached dst + rr_plans_attached src,
      rr_parse_failures := append_bounded (rr_parse_failures dst) (rr_parse_failures src) rederive_diagnostic_limit,
      rr_unattached_actions :=
        append_bounded (rr_unattached_actions dst) (rr_unattached_actions src) rederive_diagnostic_limit,
      rr_call_kinds := add_counts (rr_call_kinds dst) (rr_call_kinds src),
      rr_node_kinds := add_counts (rr_node_kinds dst) (rr_node_kinds src),
      sr_reconcile := merge_reconcile (sr_reconcile dst) (sr_reconcile src),
      sr_projection := merge_projection (sr_projection dst) (sr_projection src)\<rparr>"

definition note_session_report ::
  "string \<Rightarrow> session_report \<Rightarrow> (string \<Rightarrow> session_report option) \<Rightarrow> string \<Rightarrow> session_report option"
where
  "note_session_report org report reports =
     reports(org \<mapsto> merge_rederive_report (map_get reports org new_rederive_report) report)"

definition rederive_step ::
  "tx_externs \<Rightarrow> rederive_store \<Rightarrow> string \<Rightarrow> pg_uuid \<times> session_key
   \<Rightarrow> (string \<Rightarrow> session_report option) \<Rightarrow> rederive_failure + (string \<Rightarrow> session_report option)"
where
  "rederive_step tx st project key reports =
     (let org = uuid_string (rd_render_org st) (fst key)
      in and_then (rederive_session_locked tx st project org (snd key)) (\<lambda>(_, report).
           Inr (note_session_report (org_display_key org) report reports)))"

definition rederive_from_raw ::
  "tx_externs \<Rightarrow> rederive_store \<Rightarrow> string \<Rightarrow> rederive_failure + (string \<Rightarrow> session_report option)"
where
  "rederive_from_raw tx st project =
     and_then (wrap_err ListFailed (rd_sessions st)) (\<lambda>keys.
       fold_res (rederive_step tx st project) keys Map.empty)"

end
