(* ===== verification/RawStore.thy ===== *)
theory RawStore
  imports Rederive SessionFolds
begin

text \<open>
  The raw layer and the session identities behind it: \<open>pkg/storage/postgres/raw_turns.go\<close>,
  \<open>session_ingest.go\<close>, \<open>sanitize.go\<close>, the interfaces of \<open>pkg/storage/raw_turn.go\<close> and
  \<open>session_ingester.go\<close>, and the statements of \<open>queries/raw_turns.sql\<close> and \<open>queries/sessions.sql\<close>
  that they run.

  A table is the list of its rows; an operation is one transaction, which answers an error and
  leaves the tables alone, or answers a value with the new tables. The JSON and UUID libraries, the
  JSONB operator \<open>||\<close> and the server's checks of a payload are parameters.
\<close>

subsection \<open>Scrubbing JSON payloads\<close>

text \<open>A token of a JSON text: a string with its decoded value, or any other.\<close>

datatype json_token = TokString string | TokOther string

record json_text =
  jt_read :: "string \<Rightarrow> json_token list option" \<comment> \<open>the decoder's tokens, unless it fails\<close>
  jt_write :: "json_token list \<Rightarrow> string option" \<comment> \<open>the encoder's text, unless it refuses a token\<close>
  jt_valid_utf8 :: "string \<Rightarrow> bool"
  jt_to_valid_utf8 :: "string \<Rightarrow> string \<Rightarrow> string"

definition nul_char :: char where "nul_char = CHR 0x00"
definition esc_nul_seq :: string where "esc_nul_seq = [CHR 0x5C, CHR 0x75, CHR 0x30, CHR 0x30, CHR 0x30, CHR 0x30]"
definition esc_surr_up :: string where "esc_surr_up = [CHR 0x5C, CHR 0x75, CHR 0x44]"
definition esc_surr_low :: string where "esc_surr_low = [CHR 0x5C, CHR 0x75, CHR 0x64]"
definition replacement_bytes :: string where "replacement_bytes = [CHR 0xEF, CHR 0xBF, CHR 0xBD]"

definition scrub_string :: "json_text \<Rightarrow> string \<Rightarrow> string" where
  "scrub_string jt s =
     (if nul_char \<notin> set s \<and> jt_valid_utf8 jt s then s
      else let s1 = go_replace_all s [nul_char] replacement_bytes
           in if jt_valid_utf8 jt s1 then s1 else jt_to_valid_utf8 jt s1 replacement_bytes)"

definition scrub_token :: "json_text \<Rightarrow> json_token \<Rightarrow> json_token" where
  "scrub_token jt t = (case t of TokString s \<Rightarrow> TokString (scrub_string jt s) | TokOther s \<Rightarrow> TokOther s)"

definition has_escape :: "string \<Rightarrow> bool" where
  "has_escape s \<longleftrightarrow> go_contains s esc_nul_seq \<or> go_contains s esc_surr_up \<or> go_contains s esc_surr_low"

definition trim_newlines :: "string \<Rightarrow> string" where
  "trim_newlines s = rev (dropWhile (\<lambda>c. c = CHR 0x0A) (rev s))"

definition sanitize_jsonb :: "json_text \<Rightarrow> string \<Rightarrow> string" where
  "sanitize_jsonb jt s =
     (if s = [] then s
      else let has_nul = nul_char \<in> set s; esc = has_escape s
           in if \<not> has_nul \<and> \<not> esc then s
              else let b = (if has_nul then go_replace_all s [nul_char] replacement_bytes else s)
                   in if \<not> esc then b
                      else case jt_read jt b of
                             None \<Rightarrow> b
                           | Some toks \<Rightarrow>
                               (case jt_write jt (map (scrub_token jt) toks) of
                                  None \<Rightarrow> b
                                | Some out \<Rightarrow> trim_newlines out))"

text \<open>A Postgres error, by its SQLSTATE, and what the boundary makes of it.\<close>

datatype pg_error = PgError (pg_code: string) (pg_message: string)

datatype store_failure =
    InvalidContent string
  | StoreFault string

definition as_content_error :: "pg_error \<Rightarrow> store_failure" where
  "as_content_error e =
     (if pg_code e = ''22P05'' \<or> pg_code e = ''22021''
      then InvalidContent (pg_message e @ '' (SQLSTATE '' @ pg_code e @ '')'') else StoreFault (pg_message e))"

subsection \<open>The tables\<close>

record raw_put = stored_turn +
  rp_org_id :: string
  rp_raw_response_dropped :: bool

record raw_row =
  rw_id :: int
  rw_org :: pg_uuid
  rw_put :: raw_put

record session_row =
  sr_id :: pg_uuid
  sr_org :: pg_uuid
  sr_harness_id :: string
  sr_harness_session_id :: string
  sr_auth_subject :: string
  sr_name :: "string option"
  sr_cwd :: "string option"
  sr_harness_version :: "string option"
  sr_parent :: "pg_uuid option"
  sr_started_at :: gotime
  sr_last_seen_at :: gotime
  sr_metadata :: string
  sr_derived_title :: "string option"

datatype session_key = SKey (sk_org: pg_uuid) (sk_harness: string) (sk_session: string)

definition session_key_of :: "session_row \<Rightarrow> session_key" where
  "session_key_of s = SKey (sr_org s) (sr_harness_id s) (sr_harness_session_id s)"

record raw_db =
  db_turns :: "raw_row list"
  db_sessions :: "session_row list"
  db_queue :: "derive_queue_entry list"
  db_minted :: nat \<comment> \<open>UUIDs handed out so far\<close>

record store_env =
  se_json :: json_text
  se_parse_uuid :: "string \<Rightarrow> string option"
  se_render_uuid :: "string \<Rightarrow> string"
  se_mint :: "nat \<Rightarrow> pg_uuid option" \<comment> \<open>\<open>uuid.NewV7\<close>, which may fail\<close>
  se_refuses :: "raw_put \<Rightarrow> pg_error option" \<comment> \<open>the server's answer to the row\<close>
  se_envelope :: "string \<Rightarrow> ingest_envelope option"
  se_merge :: "string \<Rightarrow> string \<Rightarrow> string" \<comment> \<open>\<open>||\<close> on JSONB objects\<close>
  se_records :: "string \<Rightarrow> string list option"
  se_record :: "string \<Rightarrow> (string \<times> string) option" \<comment> \<open>timestamp and payload of a record\<close>
  se_timestamp :: "string \<Rightarrow> gotime option" \<comment> \<open>a JSON string that parses as RFC 3339\<close>
  se_payload :: "string \<Rightarrow> string option" \<comment> \<open>\<open>occurred_at_ms\<close> of a payload\<close>
  se_int64 :: "string \<Rightarrow> int option"

subsection \<open>Session rows\<close>

definition find_session :: "session_key \<Rightarrow> session_row list \<Rightarrow> session_row option" where
  "find_session k ss = find (\<lambda>s. session_key_of s = k) ss"

definition new_app_uuid :: "store_env \<Rightarrow> raw_db \<Rightarrow> store_failure + (pg_uuid \<times> raw_db)" where
  "new_app_uuid env db =
     (case se_mint env (db_minted db) of
        None \<Rightarrow> Inl (StoreFault ''mint uuid'')
      | Some u \<Rightarrow> Inr (u, db\<lparr>db_minted := Suc (db_minted db)\<rparr>))"

definition null_string :: "string \<Rightarrow> string option" where
  "null_string s = (if go_trim_space s = [] then None else Some s)"

definition coalesce :: "'a option \<Rightarrow> 'a option \<Rightarrow> 'a option" where
  "coalesce a b = (case a of Some x \<Rightarrow> Some x | None \<Rightarrow> b)"

definition metadata_or_empty :: "string \<Rightarrow> string" where
  "metadata_or_empty m = (if m = [] then ''{}'' else m)"

text \<open>A row as an upsert would insert it.\<close>

definition envelope_session :: "pg_uuid \<Rightarrow> pg_uuid \<Rightarrow> ingest_envelope \<Rightarrow> string \<Rightarrow> pg_uuid option \<Rightarrow> gotime \<Rightarrow> gotime \<Rightarrow> session_row"
where
  "envelope_session u org en sid parent started seen =
     \<lparr>sr_id = u, sr_org = org, sr_harness_id = harness_id_or_unknown (Some en), sr_harness_session_id = sid,
      sr_auth_subject = en_auth_subject en, sr_name = null_string (en_name en), sr_cwd = null_string (en_cwd en),
      sr_harness_version = null_string (en_harness_version en), sr_parent = parent,
      sr_started_at = started, sr_last_seen_at = seen,
      sr_metadata = metadata_or_empty (en_harness_metadata en), sr_derived_title = None\<rparr>"

text \<open>\<open>INSERT \<dots> ON CONFLICT DO UPDATE\<close>: the new row, or the existing one merged with it.\<close>

definition upsert_row ::
  "(session_row \<Rightarrow> session_row \<Rightarrow> session_row) \<Rightarrow> session_row \<Rightarrow> session_row list \<Rightarrow> session_row list"
where
  "upsert_row merge new ss =
     (if find_session (session_key_of new) ss = None then ss @ [new]
      else map (\<lambda>s. if session_key_of s = session_key_of new then merge s new else s) ss)"

definition merge_session :: "store_env \<Rightarrow> session_row \<Rightarrow> session_row \<Rightarrow> session_row" where
  "merge_session env s new =
     s\<lparr>sr_last_seen_at := sr_last_seen_at new, sr_auth_subject := sr_auth_subject new,
       sr_metadata := se_merge env (sr_metadata s) (sr_metadata new),
       sr_name := coalesce (sr_name new) (sr_name s), sr_cwd := coalesce (sr_cwd new) (sr_cwd s),
       sr_harness_version := coalesce (sr_harness_version new) (sr_harness_version s),
       sr_parent := coalesce (sr_parent new) (sr_parent s)\<rparr>"

definition merge_transcript_session :: "store_env \<Rightarrow> session_row \<Rightarrow> session_row \<Rightarrow> session_row" where
  "merge_transcript_session env s new =
     s\<lparr>sr_auth_subject := (if sr_auth_subject new = [] then sr_auth_subject s else sr_auth_subject new),
       sr_started_at := min (sr_started_at s) (sr_started_at new),
       sr_last_seen_at := max (sr_last_seen_at s) (sr_last_seen_at new),
       sr_metadata := se_merge env (sr_metadata s) (sr_metadata new),
       sr_name := coalesce (sr_name new) (sr_name s), sr_cwd := coalesce (sr_cwd new) (sr_cwd s),
       sr_harness_version := coalesce (sr_harness_version new) (sr_harness_version s),
       sr_parent := coalesce (sr_parent new) (sr_parent s)\<rparr>"

definition placeholder_session :: "pg_uuid \<Rightarrow> pg_uuid \<Rightarrow> ingest_envelope \<Rightarrow> string \<Rightarrow> gotime \<Rightarrow> session_row" where
  "placeholder_session u org en parent_key now =
     \<lparr>sr_id = u, sr_org = org, sr_harness_id = harness_id_or_unknown (Some en), sr_harness_session_id = parent_key,
      sr_auth_subject = en_auth_subject en, sr_name = None, sr_cwd = None, sr_harness_version = None,
      sr_parent = None, sr_started_at = now, sr_last_seen_at = now, sr_metadata = ''{}'', sr_derived_title = None\<rparr>"

definition resolve_parent_session_id ::
  "store_env \<Rightarrow> ingest_envelope \<Rightarrow> pg_uuid \<Rightarrow> gotime \<Rightarrow> raw_db \<Rightarrow> store_failure + (pg_uuid option \<times> raw_db)"
where
  "resolve_parent_session_id env en org now db =
     (case en_parent_harness_session_id en of
        None \<Rightarrow> Inr (None, db)
      | Some pk \<Rightarrow>
          (case find_session (SKey org (harness_id_or_unknown (Some en)) pk) (db_sessions db) of
             Some s \<Rightarrow> Inr (Some (sr_id s), db)
           | None \<Rightarrow>
               and_then (new_app_uuid env db) (\<lambda>(u, db1).
                 Inr (Some u, db1\<lparr>db_sessions := db_sessions db1 @ [placeholder_session u org en pk now]\<rparr>))))"

definition set_derived_title :: "pg_uuid \<Rightarrow> string \<Rightarrow> session_row list \<Rightarrow> session_row list" where
  "set_derived_title u title ss = map (\<lambda>s. if sr_id s = u then s\<lparr>sr_derived_title := null_string title\<rparr> else s) ss"

definition parse_org :: "store_env \<Rightarrow> string \<Rightarrow> store_failure + pg_uuid" where
  "parse_org env org = wrap_err StoreFault (org_id_from_string (se_parse_uuid env) org)"

subsection \<open>Recording a turn's session\<close>

record ingest_turn_request =
  iq_session :: "ingest_envelope option"
  iq_nodes :: "node list"
  iq_derived_title :: string

definition resolve_root ::
  "ingest_envelope option \<Rightarrow> string \<Rightarrow> store_failure + (ingest_envelope \<times> string)"
where
  "resolve_root en hash =
     (case resolve_harness_session_id en hash of
        Inl _ \<Rightarrow> Inl (StoreFault ''resolve harness_session_id'') | Inr x \<Rightarrow> Inr x)"

definition ingest_turn ::
  "store_env \<Rightarrow> gotime \<Rightarrow> ingest_turn_request \<Rightarrow> raw_db \<Rightarrow> store_failure + (pg_uuid \<times> raw_db)"
where
  "ingest_turn env now rq db =
     (if iq_nodes rq = [] then Inl (StoreFault ''ingest turn: no nodes supplied'')
      else if (case iq_session rq of None \<Rightarrow> True | Some en \<Rightarrow> en_harness_session_id en = [])
              \<and> n_parent_hash (hd (iq_nodes rq)) \<notin> {None, Some []}
      then Inl (StoreFault ''ingest turn: nodes[0] must be the conversation root'')
      else and_then (resolve_root (iq_session rq) (n_hash (hd (iq_nodes rq)))) (\<lambda>(en, sid).
           and_then (parse_org env (en_org_id en)) (\<lambda>org.
           and_then (resolve_parent_session_id env en org now db) (\<lambda>(parent, db1).
           and_then (new_app_uuid env db1) (\<lambda>(u, db2).
             let new = envelope_session u org en sid parent now now;
                 ss = upsert_row (merge_session env) new (db_sessions db2)
             in case find_session (session_key_of new) ss of
                  None \<Rightarrow> Inl (StoreFault ''upsert session'')
                | Some row \<Rightarrow>
                    Inr (sr_id row,
                         db2\<lparr>db_sessions := (if iq_derived_title rq = [] then ss
                                            else set_derived_title (sr_id row) (iq_derived_title rq) ss)\<rparr>))))))"

subsection \<open>The observed range of a transcript\<close>

definition widen :: "(gotime \<times> gotime) \<Rightarrow> gotime \<Rightarrow> gotime \<times> gotime" where
  "widen r t =
     (case r of (earliest, latest) \<Rightarrow>
        if t = 0 then r
        else (if earliest = 0 \<or> t < earliest then t else earliest, if latest = 0 \<or> latest < t then t else latest))"

text \<open>The instants a record names, in the order they are read.\<close>

definition record_instants :: "store_env \<Rightarrow> string \<Rightarrow> gotime list" where
  "record_instants env raw =
     (case se_record env raw of
        None \<Rightarrow> []
      | Some (ts, payload) \<Rightarrow>
          (case se_timestamp env ts of None \<Rightarrow> [] | Some t \<Rightarrow> [t])
          @ (case se_payload env payload of
               None \<Rightarrow> []
             | Some occurred \<Rightarrow>
                 (case se_int64 env occurred of
                    None \<Rightarrow> []
                  | Some ms \<Rightarrow> if 0 < ms then [ms * 1000000] else [])))"

definition transcript_time_range :: "store_env \<Rightarrow> string \<Rightarrow> gotime \<Rightarrow> gotime \<times> gotime" where
  "transcript_time_range env records fallback =
     (case se_records env records of
        None \<Rightarrow> (fallback, fallback)
      | Some rows \<Rightarrow>
          (case foldl widen (0, 0) (concat (map (record_instants env) rows)) of
             (earliest, latest) \<Rightarrow> if earliest = 0 then (fallback, fallback) else (earliest, latest)))"

definition upsert_transcript_session ::
  "store_env \<Rightarrow> gotime \<Rightarrow> pg_uuid \<Rightarrow> raw_put \<Rightarrow> raw_db \<Rightarrow> store_failure + raw_db"
where
  "upsert_transcript_session env now org put db =
     (if rt_session_envelope put = [] then Inl (StoreFault ''missing session envelope'')
      else case se_envelope env (rt_session_envelope put) of
             None \<Rightarrow> Inl (StoreFault ''decode transcript session envelope'')
           | Some en \<Rightarrow>
               (case transcript_time_range env (rt_raw_request put) now of (started, seen) \<Rightarrow>
                  and_then (resolve_parent_session_id env en org seen db) (\<lambda>(parent, db1).
                  and_then (new_app_uuid env db1) (\<lambda>(u, db2).
                    Inr (db2\<lparr>db_sessions := upsert_row (merge_transcript_session env)
                               (envelope_session u org en (rt_harness_session_id put) parent started seen)
                               (db_sessions db2)\<rparr>)))))"

subsection \<open>Appending a turn\<close>

definition meta_or_empty_object :: "string \<Rightarrow> string" where
  "meta_or_empty_object m = (if m = [] then ''{}'' else m)"

definition scrubbed :: "store_env \<Rightarrow> raw_put \<Rightarrow> raw_put" where
  "scrubbed env put =
     (let clean = sanitize_jsonb (se_json env)
      in put\<lparr>rt_source := (if rt_source put = [] then source_wire else rt_source put),
             rt_raw_request := clean (rt_raw_request put), rt_response := clean (rt_response put),
             rt_meta := clean (meta_or_empty_object (rt_meta put)),
             rt_session_envelope := clean (rt_session_envelope put)\<rparr>)"

text \<open>The partial unique index on (org, request id): a conflict inserts nothing.\<close>

definition request_taken :: "pg_uuid \<Rightarrow> string \<Rightarrow> raw_row list \<Rightarrow> bool" where
  "request_taken org rid rows \<longleftrightarrow> rid \<noteq> [] \<and> list_ex (\<lambda>r. rw_org r = org \<and> rt_request_id (rw_put r) = rid) rows"

definition insert_raw_turn :: "gotime \<Rightarrow> pg_uuid \<Rightarrow> raw_put \<Rightarrow> raw_db \<Rightarrow> bool \<times> raw_db" where
  "insert_raw_turn now org put db =
     (if request_taken org (rt_request_id put) (db_turns db) then (False, db)
      else (True, db\<lparr>db_turns := db_turns db @
              [\<lparr>rw_id = int (length (db_turns db)) + 1, rw_org = org,
                 rw_put = put\<lparr>rt_received_at := now\<rparr>\<rparr>]\<rparr>))"

definition queue_key :: "store_env \<Rightarrow> pg_uuid \<Rightarrow> raw_put \<Rightarrow> harness_key" where
  "queue_key env org put =
     HKey (uuid_string (se_render_uuid env) org) (rt_harness_id put) (rt_harness_session_id put)"

definition put_raw_turn :: "store_env \<Rightarrow> gotime \<Rightarrow> raw_put \<Rightarrow> raw_db \<Rightarrow> store_failure + (bool \<times> raw_db)" where
  "put_raw_turn env now put db =
     and_then (parse_org env (rp_org_id put)) (\<lambda>org.
       let row = scrubbed env put
       in case se_refuses env row of
            Some e \<Rightarrow> Inl (as_content_error e)
          | None \<Rightarrow>
              (case insert_raw_turn now org row db of (inserted, db1) \<Rightarrow>
                 and_then (if rt_source row = source_transcript \<and> rt_harness_session_id put \<noteq> []
                           then upsert_transcript_session env now org put db1 else Inr db1) (\<lambda>db2.
                   Inr (inserted,
                        if rt_harness_session_id put = [] then db2
                        else db2\<lparr>db_queue := mark_derive_dirty now (queue_key env org put) (db_queue db2)\<rparr>))))"

subsection \<open>Reading the raw layer\<close>

text \<open>The rows as captured: attribution corrections, which only the repair operation writes, are not
  part of this model.\<close>

definition list_raw_turns :: "int \<Rightarrow> nat \<Rightarrow> raw_db \<Rightarrow> raw_row list" where
  "list_raw_turns after_id page_size db = take page_size (sort_key rw_id (filter (\<lambda>r. after_id < rw_id r) (db_turns db)))"

definition count_raw_turns :: "raw_db \<Rightarrow> nat" where
  "count_raw_turns db = length (db_turns db)"

subsection \<open>Payloads without escapes\<close>

lemma replace_all_Cons:
  "go_replace_all (x # s) [c] new = (if x = c then new @ go_replace_all s [c] new else x # go_replace_all s [c] new)"
  by (subst go_replace_all.simps, subst (3) go_replace_all.simps)
    (auto simp: has_prefix_def split: option.split)

lemma replace_all_single: "go_replace_all s [c] new = concat (map (\<lambda>x. if x = c then new else [x]) s)"
proof (induction s)
  case Nil
  show ?case by (subst go_replace_all.simps) simp
next
  case (Cons x s)
  then show ?case by (simp add: replace_all_Cons)
qed

lemma nul_not_replacement [simp]: "nul_char \<notin> set replacement_bytes"
  by (simp add: nul_char_def replacement_bytes_def)

lemma replace_nul_free: "nul_char \<notin> set (go_replace_all s [nul_char] replacement_bytes)"
  by (auto simp: replace_all_single)

lemma sanitize_plain:
  "\<not> has_escape s \<Longrightarrow> sanitize_jsonb jt s = concat (map (\<lambda>x. if x = nul_char then replacement_bytes else [x]) s)"
proof -
  assume e: "\<not> has_escape s"
  have "nul_char \<notin> set s \<Longrightarrow> concat (map (\<lambda>x. if x = nul_char then replacement_bytes else [x]) s) = s"
    by (induction s) auto
  with e show ?thesis by (auto simp: sanitize_jsonb_def Let_def replace_all_single)
qed

lemma sanitize_clean: "nul_char \<notin> set s \<Longrightarrow> \<not> has_escape s \<Longrightarrow> sanitize_jsonb jt s = s"
  by (simp add: sanitize_jsonb_def)

lemma scrub_string_nul_free:
  "(\<And>s r. nul_char \<notin> set s \<Longrightarrow> nul_char \<notin> set r \<Longrightarrow> nul_char \<notin> set (jt_to_valid_utf8 jt s r)) \<Longrightarrow>
   nul_char \<notin> set (scrub_string jt s)"
  using replace_nul_free by (auto simp: scrub_string_def Let_def)

subsection \<open>The tables' invariant\<close>

definition known_id :: "store_env \<Rightarrow> nat \<Rightarrow> pg_uuid \<Rightarrow> bool" where
  "known_id env n u \<longleftrightarrow> (\<exists>i<n. se_mint env i = Some u)"

definition fresh_mint :: "store_env \<Rightarrow> bool" where
  "fresh_mint env \<longleftrightarrow> (\<forall>i j u. se_mint env i = Some u \<longrightarrow> se_mint env j = Some u \<longrightarrow> i = j)"

definition sessions_ok :: "store_env \<Rightarrow> nat \<Rightarrow> session_row list \<Rightarrow> bool" where
  "sessions_ok env n ss \<longleftrightarrow>
     distinct (map session_key_of ss) \<and> distinct (map sr_id ss)
   \<and> (\<forall>s\<in>set ss. known_id env n (sr_id s))
   \<and> (\<forall>s\<in>set ss. \<forall>p. sr_parent s = Some p \<longrightarrow> p \<in> sr_id ` set ss)"

definition request_key :: "raw_row \<Rightarrow> pg_uuid \<times> string" where
  "request_key r = (rw_org r, rt_request_id (rw_put r))"

definition turns_ok :: "raw_row list \<Rightarrow> bool" where
  "turns_ok rows \<longleftrightarrow> distinct (map request_key (filter (\<lambda>r. rt_request_id (rw_put r) \<noteq> []) rows))"

definition db_ok :: "store_env \<Rightarrow> raw_db \<Rightarrow> bool" where
  "db_ok env db \<longleftrightarrow>
     sessions_ok env (db_minted db) (db_sessions db) \<and> turns_ok (db_turns db) \<and> queue_ok (db_queue db)"

lemma find_session_None: "find_session k ss = None \<longleftrightarrow> k \<notin> session_key_of ` set ss"
  by (auto simp: find_session_def find_None_iff)

lemma find_session_Some: "find_session k ss = Some s \<Longrightarrow> s \<in> set ss \<and> session_key_of s = k"
  by (auto simp: find_session_def find_Some_iff)

lemma known_id_Suc: "known_id env n u \<Longrightarrow> known_id env (Suc n) u"
  by (auto simp: known_id_def less_Suc_eq)

lemma mint_not_known: "fresh_mint env \<Longrightarrow> se_mint env n = Some u \<Longrightarrow> \<not> known_id env n u"
  by (auto simp: fresh_mint_def known_id_def)

lemma sessions_ok_Suc: "sessions_ok env n ss \<Longrightarrow> sessions_ok env (Suc n) ss"
  by (auto simp: sessions_ok_def intro: known_id_Suc)

lemma sessions_ok_append:
  assumes "sessions_ok env n ss" "fresh_mint env" "se_mint env n = Some (sr_id new)"
    "find_session (session_key_of new) ss = None" "\<And>p. sr_parent new = Some p \<Longrightarrow> p \<in> sr_id ` set ss"
  shows "sessions_ok env (Suc n) (ss @ [new])"
proof -
  have "sr_id new \<notin> sr_id ` set ss"
    using assms(1) mint_not_known [OF assms(2,3)] by (auto simp: sessions_ok_def)
  moreover have "known_id env (Suc n) (sr_id new)"
    using assms(3) by (auto simp: known_id_def)
  ultimately show ?thesis
    using assms(1,4,5) by (auto simp: sessions_ok_def find_session_None intro: known_id_Suc)
qed

text \<open>A merge keeps the identity of the row and takes its parent from one of the two.\<close>

definition keeps_identity :: "(session_row \<Rightarrow> session_row \<Rightarrow> session_row) \<Rightarrow> bool" where
  "keeps_identity merge \<longleftrightarrow>
     (\<forall>s new. sr_id (merge s new) = sr_id s \<and> session_key_of (merge s new) = session_key_of s
            \<and> (sr_parent (merge s new) = sr_parent s \<or> sr_parent (merge s new) = sr_parent new))"

lemma keeps_identityD:
  "keeps_identity merge \<Longrightarrow> sr_id (merge s new) = sr_id s"
  "keeps_identity merge \<Longrightarrow> session_key_of (merge s new) = session_key_of s"
  "keeps_identity merge \<Longrightarrow> sr_parent (merge s new) = sr_parent s \<or> sr_parent (merge s new) = sr_parent new"
  by (auto simp: keeps_identity_def)

lemma merge_keeps_identity [simp]:
  "keeps_identity (merge_session env)" "keeps_identity (merge_transcript_session env)"
  by (auto simp: keeps_identity_def merge_session_def merge_transcript_session_def session_key_of_def coalesce_def
      split: option.split)

lemma sessions_ok_map:
  assumes "sessions_ok env n ss" "\<And>s. sr_id (f s) = sr_id s" "\<And>s. session_key_of (f s) = session_key_of s"
    "\<And>s p. s \<in> set ss \<Longrightarrow> sr_parent (f s) = Some p \<Longrightarrow> p \<in> sr_id ` set ss"
  shows "sessions_ok env n (map f ss)"
proof -
  have "map session_key_of (map f ss) = map session_key_of ss" "map sr_id (map f ss) = map sr_id ss"
    using assms(2,3) by simp_all
  moreover have "sr_id ` set (map f ss) = sr_id ` set ss" using assms(2) by (simp add: image_image)
  ultimately show ?thesis
    using assms(1,2,4) unfolding sessions_ok_def by (auto simp del: map_map)
qed

lemma upsert_ok:
  assumes ok: "sessions_ok env n ss" and m: "fresh_mint env" "se_mint env n = Some (sr_id new)"
    and p: "\<And>p. sr_parent new = Some p \<Longrightarrow> p \<in> sr_id ` set ss" and k: "keeps_identity merge"
  shows "sessions_ok env (Suc n) (upsert_row merge new ss)"
proof (cases "find_session (session_key_of new) ss")
  case None
  with sessions_ok_append [OF ok m None p] show ?thesis by (simp add: upsert_row_def)
next
  case (Some s)
  have "sessions_ok env n (map (\<lambda>s. if session_key_of s = session_key_of new then merge s new else s) ss)"
  proof (rule sessions_ok_map [OF ok])
    fix s q
    assume "s \<in> set ss" "sr_parent (if session_key_of s = session_key_of new then merge s new else s) = Some q"
    then show "q \<in> sr_id ` set ss"
      using keeps_identityD(3) [OF k, of s new] ok p by (auto simp: sessions_ok_def split: if_splits)
  qed (simp_all add: keeps_identityD [OF k])
  with Some show ?thesis by (simp add: upsert_row_def sessions_ok_Suc)
qed

lemma set_title_ok: "sessions_ok env n ss \<Longrightarrow> sessions_ok env n (set_derived_title u title ss)"
  unfolding set_derived_title_def
  by (rule sessions_ok_map) (auto simp: session_key_of_def sessions_ok_def split: if_splits)

end
