(* ===== verification/RawStoreFacts.thy ===== *)
theory RawStoreFacts
  imports RawStore
begin

text \<open>
  What the raw layer promises: the tables' invariant along every run of its operations, what an
  append does to the queue, that a session keeps its identity, and the range of a transcript.
\<close>

subsection \<open>Each operation keeps the invariant\<close>

lemma db_okD:
  "db_ok env db \<Longrightarrow> sessions_ok env (db_minted db) (db_sessions db)"
  "db_ok env db \<Longrightarrow> turns_ok (db_turns db)" "db_ok env db \<Longrightarrow> queue_ok (db_queue db)"
  by (simp_all add: db_ok_def)

lemma new_uuid_Inr:
  "new_app_uuid env db = Inr (u, db') \<longleftrightarrow> se_mint env (db_minted db) = Some u \<and> db' = db\<lparr>db_minted := Suc (db_minted db)\<rparr>"
  by (auto simp: new_app_uuid_def split: option.split)

text \<open>Resolving a parent may insert its placeholder and mints at most one id.\<close>

lemma resolve_parent_cases:
  assumes "resolve_parent_session_id env en org now db = Inr (parent, db')"
  obtains (none) "parent = None" "db' = db"
  | (found) pk s where "en_parent_harness_session_id en = Some pk" "s \<in> set (db_sessions db)" "parent = Some (sr_id s)" "db' = db"
  | (placed) pk u where "en_parent_harness_session_id en = Some pk" "se_mint env (db_minted db) = Some u" "parent = Some u"
      "find_session (session_key_of (placeholder_session u org en pk now)) (db_sessions db) = None"
      "db' = db\<lparr>db_minted := Suc (db_minted db), db_sessions := db_sessions db @ [placeholder_session u org en pk now]\<rparr>"
proof (cases "en_parent_harness_session_id en")
  case None
  with assms none show ?thesis by (simp add: resolve_parent_session_id_def)
next
  case (Some pk)
  note pk = Some
  show ?thesis
  proof (cases "find_session (SKey org (harness_id_or_unknown (Some en)) pk) (db_sessions db)")
    case None
    with assms pk placed show ?thesis
      by (auto simp: resolve_parent_session_id_def and_then_Inr new_uuid_Inr placeholder_session_def session_key_of_def)
  next
    case (Some s)
    have "parent = Some (sr_id s)" "db' = db"
      using assms pk Some by (simp_all add: resolve_parent_session_id_def)
    with find_session_Some [OF Some] pk show ?thesis by (intro found) simp_all
  qed
qed

lemma resolve_parent_ok:
  assumes "resolve_parent_session_id env en org now db = Inr (parent, db')"
    "sessions_ok env (db_minted db) (db_sessions db)" "fresh_mint env"
  shows "sessions_ok env (db_minted db') (db_sessions db')
    \<and> (\<forall>p. parent = Some p \<longrightarrow> p \<in> sr_id ` set (db_sessions db'))
    \<and> db_turns db' = db_turns db \<and> db_queue db' = db_queue db"
  using assms(1)
proof (cases rule: resolve_parent_cases)
  case (placed pk u)
  have "sessions_ok env (Suc (db_minted db)) (db_sessions db @ [placeholder_session u org en pk now])"
    by (rule sessions_ok_append [OF assms(2,3) _ placed(4)]) (simp_all add: placed(2) placeholder_session_def)
  then show ?thesis by (simp add: placed(3,5) placeholder_session_def)
qed (use assms(2) in auto)

lemma envelope_session_simps [simp]:
  "sr_id (envelope_session u org en sid parent a b) = u" "sr_parent (envelope_session u org en sid parent a b) = parent"
  "sr_started_at (envelope_session u org en sid parent a b) = a" "sr_last_seen_at (envelope_session u org en sid parent a b) = b"
  "session_key_of (envelope_session u org en sid parent a b) = SKey org (harness_id_or_unknown (Some en)) sid"
  by (simp_all add: envelope_session_def session_key_of_def)

lemma ingest_turn_cases:
  assumes "ingest_turn env now rq db = Inr (u, db')"
  obtains en sid org parent db1 fresh row where
    "resolve_harness_session_id (iq_session rq) (n_hash (hd (iq_nodes rq))) = Inr (en, sid)"
    "parse_org env (en_org_id en) = Inr org"
    "resolve_parent_session_id env en org now db = Inr (parent, db1)"
    "se_mint env (db_minted db1) = Some fresh"
    "find_session (SKey org (harness_id_or_unknown (Some en)) sid)
       (upsert_row (merge_session env) (envelope_session fresh org en sid parent now now) (db_sessions db1)) = Some row"
    "u = sr_id row"
    "db' = db1\<lparr>db_minted := Suc (db_minted db1), db_sessions :=
       (let ss = upsert_row (merge_session env) (envelope_session fresh org en sid parent now now) (db_sessions db1)
        in if iq_derived_title rq = [] then ss else set_derived_title (sr_id row) (iq_derived_title rq) ss)\<rparr>"
  using assms
  by (auto simp: ingest_turn_def resolve_root_def and_then_Inr new_uuid_Inr Let_def split: if_splits sum.splits option.splits)

lemma ingest_turn_ok:
  assumes "ingest_turn env now rq db = Inr (u, db')" "db_ok env db" "fresh_mint env"
  shows "db_ok env db'"
  using assms(1)
proof (cases rule: ingest_turn_cases)
  case (1 en sid org parent db1 fresh row)
  note p = resolve_parent_ok [OF 1(3) db_okD(1) [OF assms(2)] assms(3)]
  let ?new = "envelope_session fresh org en sid parent now now"
  have "sessions_ok env (Suc (db_minted db1)) (upsert_row (merge_session env) ?new (db_sessions db1))"
    using p 1(4) by (intro upsert_ok [OF _ assms(3)]) simp_all
  then show ?thesis using p db_okD [OF assms(2)] unfolding 1(7) by (simp add: db_ok_def Let_def set_title_ok)
qed

lemma insert_ok: "turns_ok (db_turns db) \<Longrightarrow> turns_ok (db_turns (snd (insert_raw_turn now org put db)))"
  by (auto simp: insert_raw_turn_def turns_ok_def request_taken_def request_key_def list_ex_iff)

lemma insert_frame [simp]:
  "db_sessions (snd (insert_raw_turn now org put db)) = db_sessions db"
  "db_queue (snd (insert_raw_turn now org put db)) = db_queue db"
  "db_minted (snd (insert_raw_turn now org put db)) = db_minted db"
  by (simp_all add: insert_raw_turn_def)

lemma upsert_transcript_ok:
  assumes "upsert_transcript_session env now org put db = Inr db'" "sessions_ok env (db_minted db) (db_sessions db)"
    "fresh_mint env"
  shows "sessions_ok env (db_minted db') (db_sessions db') \<and> db_turns db' = db_turns db \<and> db_queue db' = db_queue db"
proof -
  obtain started seen where r: "transcript_time_range env (rt_raw_request put) now = (started, seen)" by fastforce
  obtain en parent db1 fresh where d: "resolve_parent_session_id env en org seen db = Inr (parent, db1)"
      "se_mint env (db_minted db1) = Some fresh"
      "db' = db1\<lparr>db_minted := Suc (db_minted db1), db_sessions := upsert_row (merge_transcript_session env)
          (envelope_session fresh org en (rt_harness_session_id put) parent started seen) (db_sessions db1)\<rparr>"
    using assms(1) r by (auto simp: upsert_transcript_session_def and_then_Inr new_uuid_Inr split: if_splits option.splits)
  note p = resolve_parent_ok [OF d(1) assms(2,3)]
  have "sessions_ok env (Suc (db_minted db1)) (upsert_row (merge_transcript_session env)
      (envelope_session fresh org en (rt_harness_session_id put) parent started seen) (db_sessions db1))"
    using p d(2) by (intro upsert_ok [OF _ assms(3)]) simp_all
  with p d(3) show ?thesis by simp
qed

text \<open>The four stages of an append that succeeds.\<close>

lemma put_raw_turn_cases:
  assumes "put_raw_turn env now put db = Inr (inserted, db')"
  obtains org db2 where
    "parse_org env (rp_org_id put) = Inr org" "se_refuses env (scrubbed env put) = None"
    "inserted = fst (insert_raw_turn now org (scrubbed env put) db)"
    "(if rt_source (scrubbed env put) = source_transcript \<and> rt_harness_session_id put \<noteq> []
      then upsert_transcript_session env now org put (snd (insert_raw_turn now org (scrubbed env put) db))
      else Inr (snd (insert_raw_turn now org (scrubbed env put) db))) = Inr db2"
    "db' = (if rt_harness_session_id put = [] then db2
            else db2\<lparr>db_queue := mark_derive_dirty now (queue_key env org put) (db_queue db2)\<rparr>)"
proof -
  obtain org where o: "parse_org env (rp_org_id put) = Inr org"
    using assms by (auto simp: put_raw_turn_def and_then_Inr)
  have r: "se_refuses env (scrubbed env put) = None"
    using assms o by (simp add: put_raw_turn_def Let_def split: option.splits)
  let ?ins = "insert_raw_turn now org (scrubbed env put) db"
  obtain b db1 where i: "?ins = (b, db1)" by fastforce
  obtain db2 where "(if rt_source (scrubbed env put) = source_transcript \<and> rt_harness_session_id put \<noteq> []
        then upsert_transcript_session env now org put db1 else Inr db1) = Inr db2"
      "b = inserted" "db' = (if rt_harness_session_id put = [] then db2
        else db2\<lparr>db_queue := mark_derive_dirty now (queue_key env org put) (db_queue db2)\<rparr>)"
    using assms by (auto simp: put_raw_turn_def o r i Let_def and_then_Inr cong: if_cong)
  with i show thesis by (intro that [OF o r, where ?db2.0 = db2]) (auto split: if_splits)
qed

lemma put_raw_turn_ok:
  assumes "put_raw_turn env now put db = Inr (inserted, db')" "db_ok env db" "fresh_mint env"
  shows "db_ok env db'"
  using assms(1)
proof (cases rule: put_raw_turn_cases)
  case (1 org db2)
  let ?db1 = "snd (insert_raw_turn now org (scrubbed env put) db)"
  have d1: "sessions_ok env (db_minted ?db1) (db_sessions ?db1)" "turns_ok (db_turns ?db1)" "queue_ok (db_queue ?db1)"
    using assms(2) by (simp_all add: db_ok_def insert_ok)
  have "db_ok env db2"
    using 1(4) upsert_transcript_ok [OF _ d1(1) assms(3)] d1 by (auto simp: db_ok_def split: if_splits)
  then show ?thesis unfolding 1(5) by (auto simp: db_ok_def queue_ok_mark)
qed

subsection \<open>Runs\<close>

inductive store_reachable :: "store_env \<Rightarrow> raw_db \<Rightarrow> bool" for env where
  store_empty: "store_reachable env \<lparr>db_turns = [], db_sessions = [], db_queue = [], db_minted = 0\<rparr>"
| store_put: "store_reachable env db \<Longrightarrow> put_raw_turn env now put db = Inr (ins, db') \<Longrightarrow> store_reachable env db'"
| store_ingest: "store_reachable env db \<Longrightarrow> ingest_turn env now rq db = Inr (u, db') \<Longrightarrow> store_reachable env db'"

lemma store_reachable_ok: "store_reachable env db \<Longrightarrow> fresh_mint env \<Longrightarrow> db_ok env db"
proof (induction rule: store_reachable.induct)
  case store_empty
  show ?case by (simp add: db_ok_def sessions_ok_def turns_ok_def queue_ok_def)
qed (auto intro: put_raw_turn_ok ingest_turn_ok)

subsection \<open>Append and queue\<close>

lemma insert_turns:
  "db_turns (snd (insert_raw_turn now org put db)) =
     db_turns db @ (if fst (insert_raw_turn now org put db)
                    then [\<lparr>rw_id = int (length (db_turns db)) + 1, rw_org = org, rw_put = put\<lparr>rt_received_at := now\<rparr>\<rparr>]
                    else [])"
  by (simp add: insert_raw_turn_def)

lemma insert_fst: "fst (insert_raw_turn now org put db) \<longleftrightarrow> \<not> request_taken org (rt_request_id put) (db_turns db)"
  by (simp add: insert_raw_turn_def)

lemma find_bump:
  "find (\<lambda>e. dq_key e = k') (map (\<lambda>e. if dq_key e = k then e\<lparr>dq_dirtied_at := now\<rparr> else e) q) =
   (if k' = k then map_option (\<lambda>e. e\<lparr>dq_dirtied_at := now\<rparr>) (find (\<lambda>e. dq_key e = k') q) else find (\<lambda>e. dq_key e = k') q)"
  by (induction q) auto

lemma find_append_one: "find P (xs @ [y]) = (case find P xs of None \<Rightarrow> if P y then Some y else None | Some x \<Rightarrow> Some x)"
  by (induction xs) auto

lemma mark_lookup:
  "get_derive_dirty k' (mark_derive_dirty now k q) =
     (if k' = k then Some (case get_derive_dirty k q of None \<Rightarrow> new_queue_row now k | Some e \<Rightarrow> e\<lparr>dq_dirtied_at := now\<rparr>)
      else get_derive_dirty k' q)"
  by (auto simp: mark_derive_dirty_def get_derive_dirty_def find_bump find_append_one split: option.split)

lemma mark_stamp: "map_option dq_dirtied_at (get_derive_dirty k (mark_derive_dirty now k q)) = Some now"
  by (simp add: mark_lookup new_queue_row_def split: option.split)

lemma upsert_transcript_frame:
  assumes "upsert_transcript_session env now org put db = Inr db'"
  shows "db_turns db' = db_turns db \<and> db_queue db' = db_queue db"
proof -
  have "db_turns db1 = db_turns db0 \<and> db_queue db1 = db_queue db0"
    if "resolve_parent_session_id env en org seen db0 = Inr (parent, db1)" for en seen parent db0 db1
    using that by (cases rule: resolve_parent_cases) simp_all
  then show ?thesis
    using assms by (fastforce simp: upsert_transcript_session_def and_then_Inr new_uuid_Inr split: if_splits option.splits prod.splits)
qed

subsection \<open>A session keeps its row\<close>

lemma find_upsert:
  assumes "keeps_identity merge"
  shows "find_session k (upsert_row merge new ss) =
    (if k = session_key_of new
     then Some (case find_session k ss of None \<Rightarrow> new | Some s \<Rightarrow> merge s new) else find_session k ss)"
proof (cases "find_session (session_key_of new) ss")
  case None
  then show ?thesis
    by (auto simp: upsert_row_def find_session_def find_append_one split: option.split)
next
  case (Some s)
  have "find_session k (map (\<lambda>s. if session_key_of s = session_key_of new then merge s new else s) ss) =
     (if k = session_key_of new then map_option (\<lambda>s. merge s new) (find_session k ss) else find_session k ss)"
    unfolding find_session_def by (induction ss) (auto simp: keeps_identityD [OF assms])
  with Some show ?thesis by (auto simp: upsert_row_def)
qed

lemma find_set_title: "map_option sr_id (find_session k (set_derived_title u title ss)) = map_option sr_id (find_session k ss)"
  unfolding find_session_def set_derived_title_def by (induction ss) (auto simp: session_key_of_def)

lemma resolve_parent_frame:
  assumes "resolve_parent_session_id env en org now db = Inr (parent, db')"
  shows "db_turns db' = db_turns db \<and> db_queue db' = db_queue db
    \<and> (case find_session k (db_sessions db) of None \<Rightarrow> True | Some s \<Rightarrow> find_session k (db_sessions db') = Some s)"
  using assms
  by (cases rule: resolve_parent_cases) (auto simp: find_session_def find_append_one split: option.split)

subsection \<open>The observed range\<close>

definition range_ok :: "gotime list \<Rightarrow> gotime \<times> gotime \<Rightarrow> bool" where
  "range_ok ts r \<longleftrightarrow>
     (case r of (a, b) \<Rightarrow> if a = 0 then b = 0 \<and> (\<forall>t\<in>set ts. t = 0)
        else a \<in> set ts \<and> b \<in> set ts \<and> b \<noteq> 0 \<and> (\<forall>t\<in>set ts. t = 0 \<or> a \<le> t \<and> t \<le> b))"

lemma range_widen: "range_ok ts r \<Longrightarrow> range_ok (ts @ [t]) (widen r t)"
proof -
  assume ok: "range_ok ts r"
  obtain a b where r: "r = (a, b)" by (cases r)
  show ?thesis
  proof (cases "t = 0 \<or> a = 0")
    case True
    with ok show ?thesis by (auto simp: r range_ok_def widen_def split: if_splits)
  next
    case False
    then have a: "a \<in> set ts" "b \<in> set ts" "b \<noteq> 0" "\<And>u. u \<in> set ts \<Longrightarrow> u = 0 \<or> a \<le> u \<and> u \<le> b"
      using ok by (auto simp: r range_ok_def)
    have w: "widen r t = (min a t, max b t)" using False a(3) by (simp add: r widen_def min_def max_def)
    have in_set: "min a t \<in> set (ts @ [t])" "max b t \<in> set (ts @ [t])" using a(1,2) by (auto simp: min_def max_def)
    have nz: "min a t \<noteq> 0" "max b t \<noteq> 0" using False a(3) by (auto simp: min_def max_def)
    have "u = 0 \<or> min a t \<le> u \<and> u \<le> max b t" if "u \<in> set (ts @ [t])" for u
      using that a(4) [of u] by (auto simp: min.coboundedI1 max.coboundedI1)
    then show ?thesis unfolding w range_ok_def using in_set nz by simp
  qed
qed

lemma range_fold: "range_ok ts r \<Longrightarrow> range_ok (ts @ us) (foldl widen r us)"
proof (induction us arbitrary: ts r)
  case (Cons u us)
  from Cons.IH [OF range_widen [OF Cons.prems]] show ?case by simp
qed simp

lemma range_start: "range_ok us (foldl widen (0, 0) us)"
  using range_fold [of "[]" "(0, 0)" us] by (simp add: range_ok_def)

subsection \<open>Properties\<close>

text \<open>C17: Along every run of appends and session writes from the empty store, no two sessions share a
  natural key or an id, every parent reference points at a session that exists, no two raw turns of
  an organisation share a request id, and the derive queue has one row per session.\<close>

theorem store_invariant:
  assumes "store_reachable env db" "fresh_mint env"
  shows "distinct (map session_key_of (db_sessions db)) \<and> distinct (map sr_id (db_sessions db))
    \<and> list_all (\<lambda>s. case sr_parent s of None \<Rightarrow> True | Some p \<Rightarrow> p \<in> sr_id ` set (db_sessions db)) (db_sessions db)
    \<and> distinct (map request_key (filter (\<lambda>r. rt_request_id (rw_put r) \<noteq> []) (db_turns db)))
    \<and> distinct (map dq_key (db_queue db))"
  using store_reachable_ok [OF assms]
  by (auto simp: db_ok_def sessions_ok_def turns_ok_def queue_ok_def list_all_iff split: option.split)

text \<open>What an append does. The raw layer only grows: by the scrubbed row, stamped with the arrival
  time, unless its request id is taken in its organisation. A turn that names a session leaves that
  session marked dirty now, a repeated one too; one that names none leaves the queue as it was. A
  failed append changes nothing, and an organisation that does not parse always fails.\<close>

theorem append_effect:
  "case (parse_org env (rp_org_id put), put_raw_turn env now put db) of
     (Inl _, r) \<Rightarrow> \<exists>e. r = Inl e
   | (Inr _, Inl _) \<Rightarrow> True
   | (Inr org, Inr (inserted, db')) \<Rightarrow>
       inserted = (\<not> request_taken org (rt_request_id put) (db_turns db))
     \<and> db_turns db' = db_turns db @ (if inserted then [\<lparr>rw_id = int (length (db_turns db)) + 1, rw_org = org,
                                                       rw_put = (scrubbed env put)\<lparr>rt_received_at := now\<rparr>\<rparr>] else [])
     \<and> (if rt_harness_session_id put = [] then db_queue db' = db_queue db
        else map_option dq_dirtied_at (get_derive_dirty (queue_key env org put) (db_queue db')) = Some now
           \<and> (\<forall>k. k = queue_key env org put \<or> get_derive_dirty k (db_queue db') = get_derive_dirty k (db_queue db)))"
proof (cases "parse_org env (rp_org_id put)")
  case (Inl e)
  then show ?thesis by (simp add: put_raw_turn_def)
next
  case (Inr org)
  note o = Inr
  show ?thesis
  proof (cases "put_raw_turn env now put db")
    case (Inl e)
    with o show ?thesis by simp
  next
    case (Inr x)
    obtain inserted db' where x: "x = (inserted, db')" by (cases x)
    from Inr [unfolded x] show ?thesis
    proof (cases rule: put_raw_turn_cases)
      case (1 org' db2)
      let ?row = "scrubbed env put" let ?ins = "insert_raw_turn now org (scrubbed env put) db"
      have [simp]: "org' = org" using 1(1) o by simp
      have rid: "rt_request_id ?row = rt_request_id put" by (simp add: scrubbed_def Let_def)
      have f: "db_turns db2 = db_turns (snd ?ins)" "db_queue db2 = db_queue db"
        using 1(4) by (auto dest: upsert_transcript_frame split: if_splits)
      have t: "db_turns db' = db_turns (snd ?ins)" unfolding 1(5) using f by simp
      have q: "db_queue db' = (if rt_harness_session_id put = [] then db_queue db
          else mark_derive_dirty now (queue_key env org put) (db_queue db))"
        unfolding 1(5) using f by simp
      show ?thesis
        using o Inr x 1(3) rid by (auto simp: t q insert_turns insert_fst mark_stamp) (auto simp: mark_lookup split: if_splits)
    qed
  qed
qed

text \<open>A session keeps its row. A turn that is recorded lands on the row of its natural key - the
  organisation, the harness and the id it resolves to - and answers that row's id, which is the id the
  row had before if there was one; neither the raw layer nor the queue changes.\<close>

theorem session_identity_stable:
  "case (resolve_harness_session_id (iq_session rq) (n_hash (hd (iq_nodes rq))), ingest_turn env now rq db) of
     (Inr (en, sid), Inr (u, db')) \<Rightarrow>
       (case parse_org env (en_org_id en) of
          Inl _ \<Rightarrow> False
        | Inr org \<Rightarrow>
            (let k = SKey org (harness_id_or_unknown (Some en)) sid
             in map_option sr_id (find_session k (db_sessions db')) = Some u
              \<and> (case find_session k (db_sessions db) of None \<Rightarrow> True | Some s \<Rightarrow> sr_id s = u))
          \<and> db_turns db' = db_turns db \<and> db_queue db' = db_queue db)
   | (Inl _, Inr _) \<Rightarrow> False
   | (_, Inl _) \<Rightarrow> True"
proof (cases "ingest_turn env now rq db")
  case (Inl e)
  then show ?thesis by (auto split: sum.split)
next
  case (Inr x)
  obtain u db' where x: "x = (u, db')" by (cases x)
  from Inr [unfolded x] show ?thesis
  proof (cases rule: ingest_turn_cases)
    case (1 en sid org parent db1 fresh row)
    let ?k = "SKey org (harness_id_or_unknown (Some en)) sid"
    let ?ss = "upsert_row (merge_session env) (envelope_session fresh org en sid parent now now) (db_sessions db1)"
    note fr = resolve_parent_frame [OF 1(3), where k = ?k]
    have "map_option sr_id (find_session ?k (db_sessions db')) = Some u"
      unfolding 1(7) using 1(5,6) find_set_title [of ?k "sr_id row" "iq_derived_title rq" ?ss] by (simp add: Let_def)
    moreover have "sr_id s = u" if "find_session ?k (db_sessions db) = Some s" for s
    proof -
      have "find_session ?k (db_sessions db1) = Some s" using fr that by simp
      then have "row = merge_session env s (envelope_session fresh org en sid parent now now)"
        using 1(5) by (simp add: find_upsert)
      then show ?thesis using 1(6) by (simp add: merge_session_def)
    qed
    ultimately show ?thesis
      using Inr x 1(1,2) fr unfolding 1(7) by (auto simp: Let_def split: option.split)
  qed
qed

text \<open>The observed range of a transcript. It is the fallback at both ends when no record names an
  instant; otherwise both ends are instants of the records and every instant lies between them.\<close>

theorem observed_range:
  "(let ts = filter (\<lambda>t. t \<noteq> 0) (case se_records env records of
                 None \<Rightarrow> [] | Some rows \<Rightarrow> concat (map (record_instants env) rows))
    in case transcript_time_range env records fallback of
         (a, b) \<Rightarrow> if ts = [] then a = fallback \<and> b = fallback
                  else a \<in> set ts \<and> b \<in> set ts \<and> list_all (\<lambda>t. a \<le> t \<and> t \<le> b) ts)"
proof (cases "se_records env records")
  case None
  then show ?thesis by (simp add: transcript_time_range_def)
next
  case (Some rows)
  let ?us = "concat (map (record_instants env) rows)"
  obtain a b where r: "foldl widen (0, 0) ?us = (a, b)" by fastforce
  have ok: "range_ok ?us (a, b)" using range_start [of ?us] r by simp
  show ?thesis
  proof (cases "a = 0")
    case True
    then have "filter (\<lambda>t. t \<noteq> 0) ?us = []" using ok by (simp add: range_ok_def filter_empty_conv)
    then show ?thesis unfolding Let_def Some option.case using r True
      by (simp add: transcript_time_range_def Some)
  next
    case False
    then have "a \<in> set (filter (\<lambda>t. t \<noteq> 0) ?us)" "b \<in> set (filter (\<lambda>t. t \<noteq> 0) ?us)"
      "list_all (\<lambda>t. a \<le> t \<and> t \<le> b) (filter (\<lambda>t. t \<noteq> 0) ?us)"
      using ok by (auto simp: range_ok_def list_all_iff simp del: set_concat set_map)
    moreover have "filter (\<lambda>t. t \<noteq> 0) ?us \<noteq> []" using calculation(1) by (metis empty_iff empty_set)
    moreover have "transcript_time_range env records fallback = (a, b)"
      using r False by (simp add: transcript_time_range_def Some)
    ultimately show ?thesis unfolding Let_def Some option.case by simp
  qed
qed

definition wit_uuid :: "nat \<Rightarrow> pg_uuid" where
  "wit_uuid n = \<lparr>uuid_bytes = replicate n (CHR ''u''), uuid_valid = True\<rparr>"

definition wit_store :: store_env where
  "wit_store = \<lparr>se_json = \<lparr>jt_read = (\<lambda>_. None), jt_write = (\<lambda>_. None), jt_valid_utf8 = (\<lambda>_. True),
       jt_to_valid_utf8 = (\<lambda>s _. s)\<rparr>, se_parse_uuid = (\<lambda>_. None), se_render_uuid = id,
     se_mint = (\<lambda>n. Some (wit_uuid n)), se_refuses = (\<lambda>_. None), se_envelope = (\<lambda>_. None), se_merge = (\<lambda>a _. a),
     se_records = (\<lambda>_. None), se_record = (\<lambda>_. None), se_timestamp = (\<lambda>_. None), se_payload = (\<lambda>_. None),
     se_int64 = (\<lambda>_. None)\<rparr>"

definition wit_root :: node where
  "wit_root = \<lparr>n_hash = ''cafe'', n_parent_hash = None,
     n_bucket = \<lparr>b_type = [], b_role = [], b_content = [], b_model = [], b_provider = [], b_agent_name = []\<rparr>,
     n_stop_reason = [], n_usage = None, n_project = [], n_kind = [], n_thread_id = [], n_parent_tool_use_id = [],
     n_request = None, n_created_at = 0\<rparr>"

definition wit_envelope :: "string \<Rightarrow> string \<Rightarrow> ingest_envelope" where
  "wit_envelope sid parent = empty_envelope\<lparr>en_harness_id := ''cc'', en_harness_session_id := sid,
     en_parent_harness_session_id := Some parent\<rparr>"

definition empty_db :: raw_db where
  "empty_db = \<lparr>db_turns = [], db_sessions = [], db_queue = [], db_minted = 0\<rparr>"

definition wit_ingest :: "string \<Rightarrow> string \<Rightarrow> store_failure + (pg_uuid \<times> raw_db)" where
  "wit_ingest sid parent = ingest_turn wit_store 5
     \<lparr>iq_session = Some (wit_envelope sid parent), iq_nodes = [wit_root], iq_derived_title = []\<rparr> empty_db"

lemma wit_ingest_child: "wit_ingest ''s'' ''p'' \<noteq> Inl e"
  by code_simp

definition wit_db :: raw_db where
  "wit_db = (case wit_ingest ''s'' ''p'' of Inl _ \<Rightarrow> empty_db | Inr (_, db) \<Rightarrow> db)"

lemma wit_fresh: "fresh_mint wit_store"
  by (auto simp: fresh_mint_def wit_store_def wit_uuid_def dest: arg_cong [where f = length])

lemma wit_db_reachable: "store_reachable wit_store wit_db"
proof -
  obtain u db where r: "wit_ingest ''s'' ''p'' = Inr (u, db)"
    using wit_ingest_child by (cases "wit_ingest ''s'' ''p''") auto
  then have "store_reachable wit_store db"
    unfolding wit_ingest_def empty_db_def by (rule store_ingest [OF store_empty])
  with r show ?thesis by (simp add: wit_db_def)
qed

theorem store_invariant_witness:
  "length (db_sessions wit_db) = 2 \<and> distinct (map session_key_of (db_sessions wit_db))
   \<and> distinct (map sr_id (db_sessions wit_db))"
proof -
  have "length (db_sessions wit_db) = 2" by code_simp
  with store_invariant [OF wit_db_reachable wit_fresh] show ?thesis by simp
qed

text \<open>An envelope that names its own session as its parent is accepted, and the session it creates
  becomes its own parent.\<close>

lemma self_parent_accepted:
  "validate_envelope (\<lambda>_. True) (\<lambda>_. True) (Some (wit_envelope ''s'' ''s'')) = None
   \<and> (case wit_ingest ''s'' ''s'' of
        Inl _ \<Rightarrow> False | Inr (u, db) \<Rightarrow> map (\<lambda>s. (sr_id s, sr_parent s)) (db_sessions db) = [(u, Some u)])"
  by code_simp

end
