(* ===== verification/WorkerPool.thy ===== *)
theory WorkerPool
  imports RawStoreFacts "HOL-Library.Multiset"
begin

text \<open>
  The capture worker pool (\<open>proxy/worker/pool.go\<close>): admission against a byte budget and a bounded
  queue, the workers, shutdown, and what a job writes.

  The pool is a record; goroutines are the steps of a transition system over it. Each of reserve,
  release and the channel operations is atomic in the code (a mutex, a channel), so every interleaving
  is a sequence of these steps. \<open>int64\<close> arithmetic wraps.
\<close>

subsection \<open>Jobs and the pool\<close>

record job =
  jb_provider :: string
  jb_agent_name :: string
  jb_thread_id :: string
  jb_request_id :: string
  jb_upstream_request_id :: string
  jb_req :: chat_request
  jb_resp :: chat_response
  jb_weight :: int
  jb_raw_request :: string
  jb_session :: "ingest_envelope option"

datatype reject_reason = RejectNone | RejectQueueFull | RejectByteBudget

record pool_config =
  pc_num_workers :: nat
  pc_queue_size :: nat
  pc_queue_byte_budget :: int
  pc_project :: string

definition default_num_workers :: nat where "default_num_workers = 3"
definition default_job_queue_size :: nat where "default_job_queue_size = 256"
definition default_job_queue_byte_budget :: int where "default_job_queue_byte_budget = 256 * 2 ^ 20"

record pool =
  pl_config :: pool_config
  pl_queue :: "job list"
  pl_running :: "job list"
  pl_in_flight :: int
  pl_closed :: bool

definition max_int :: nat where "max_int = 2 ^ 63 - 1"

definition with_pool_defaults :: "pool_config \<Rightarrow> pool_config" where
  "with_pool_defaults c = c
     \<lparr>pc_num_workers := (if pc_num_workers c = 0 then default_num_workers else pc_num_workers c),
      pc_queue_size := (if pc_queue_size c = 0 then default_job_queue_size else pc_queue_size c),
      pc_queue_byte_budget := (if pc_queue_byte_budget c = 0 then default_job_queue_byte_budget
                               else pc_queue_byte_budget c)\<rparr>"

definition new_pool :: "pool_config \<Rightarrow> string + pool" where
  "new_pool c =
     (let c' = with_pool_defaults c
      in if max_int < pc_num_workers c' then Inl ''NumWorkers exceeds max int''
         else Inr \<lparr>pl_config = c', pl_queue = [], pl_running = [], pl_in_flight = 0, pl_closed = False\<rparr>)"

subsection \<open>Admission\<close>

definition reserve :: "int \<Rightarrow> pool \<Rightarrow> pool \<times> bool" where
  "reserve weight p =
     (if weight \<le> 0 then (p, True)
      else if pc_queue_byte_budget (pl_config p) < wrap64 (pl_in_flight p + weight) then (p, False)
      else (p\<lparr>pl_in_flight := wrap64 (pl_in_flight p + weight)\<rparr>, True))"

definition release_weight :: "int \<Rightarrow> pool \<Rightarrow> pool" where
  "release_weight weight p =
     (if weight \<le> 0 then p else p\<lparr>pl_in_flight := wrap64 (pl_in_flight p - weight)\<rparr>)"

text \<open>A send on a closed channel panics, also in a \<open>select\<close>: no value.\<close>

definition offer :: "job \<Rightarrow> pool \<Rightarrow> pool \<times> reject_reason option" where
  "offer job p =
     (if pl_closed p then (p, None)
      else if length (pl_queue p) < pc_queue_size (pl_config p)
      then (p\<lparr>pl_queue := pl_queue p @ [job]\<rparr>, Some RejectNone)
      else (release_weight (jb_weight job) p, Some RejectQueueFull))"

definition admit :: "job \<Rightarrow> pool \<Rightarrow> pool \<times> reject_reason option" where
  "admit job p =
     (case reserve (jb_weight job) p of
        (p1, False) \<Rightarrow> (p1, Some RejectByteBudget)
      | (p1, True) \<Rightarrow> offer job p1)"

definition enqueue :: "job \<Rightarrow> pool \<Rightarrow> pool \<times> bool" where
  "enqueue job p = (case admit job p of (p', r) \<Rightarrow> (p', r = Some RejectNone))"

definition pool_len :: "pool \<Rightarrow> nat" where
  "pool_len p = length (pl_queue p)"

subsection \<open>The workers\<close>

text \<open>A worker takes the oldest job, processes it, and gives its weight back; closing the queue lets
  the workers drain it.\<close>

definition take_job :: "pool \<Rightarrow> pool" where
  "take_job p = p\<lparr>pl_queue := tl (pl_queue p), pl_running := pl_running p @ [hd (pl_queue p)]\<rparr>"

definition drop_at :: "nat \<Rightarrow> 'a list \<Rightarrow> 'a list" where
  "drop_at i xs = take i xs @ drop (Suc i) xs"

definition finish_job :: "nat \<Rightarrow> pool \<Rightarrow> pool" where
  "finish_job i p =
     release_weight (jb_weight (pl_running p ! i)) (p\<lparr>pl_running := drop_at i (pl_running p)\<rparr>)"

definition close_pool :: "pool \<Rightarrow> pool" where
  "close_pool p = p\<lparr>pl_closed := True\<rparr>"

text \<open>
  The pool with what it has seen: the jobs that hold a reservation and are not yet sent (one per
  goroutine inside \<open>Admit\<close>), and the jobs admitted, started and done, in order. Reserving and
  sending are two steps, so reservations of concurrent callers interleave with the workers. The pool
  is closed once, after the last \<open>Admit\<close> has returned, as \<open>Close\<close> demands of its caller.
\<close>

record pool_world =
  pw_pool :: pool
  pw_pending :: "job list"
  pw_admitted :: "job list"
  pw_started :: "job list"
  pw_done :: "job list"

definition max_job_weight :: int where
  "max_job_weight = 2 ^ 62" \<comment> \<open>a weight is the length of a request body\<close>

definition note_reserve :: "job \<Rightarrow> pool_world \<Rightarrow> pool_world" where
  "note_reserve job w =
     (case reserve (jb_weight job) (pw_pool w) of
        (p, ok) \<Rightarrow> w\<lparr>pw_pool := p, pw_pending := (if ok then pw_pending w @ [job] else pw_pending w)\<rparr>)"

definition note_send :: "nat \<Rightarrow> pool_world \<Rightarrow> pool_world" where
  "note_send i w =
     (let job = pw_pending w ! i
      in case offer job (pw_pool w) of
        (p, r) \<Rightarrow> w\<lparr>pw_pool := p, pw_pending := drop_at i (pw_pending w),
                    pw_admitted := (if r = Some RejectNone then pw_admitted w @ [job] else pw_admitted w)\<rparr>)"

inductive pool_step :: "pool_world \<Rightarrow> pool_world \<Rightarrow> bool" where
  step_reserve: "\<not> pl_closed (pw_pool w) \<Longrightarrow> jb_weight job < max_job_weight \<Longrightarrow> pool_step w (note_reserve job w)"
| step_send: "i < length (pw_pending w) \<Longrightarrow> pool_step w (note_send i w)"
| step_take: "pl_queue (pw_pool w) = job # rest \<Longrightarrow>
     length (pl_running (pw_pool w)) < pc_num_workers (pl_config (pw_pool w)) \<Longrightarrow>
     pool_step w (w\<lparr>pw_pool := take_job (pw_pool w), pw_started := pw_started w @ [job]\<rparr>)"
| step_finish: "i < length (pl_running (pw_pool w)) \<Longrightarrow>
     pool_step w (w\<lparr>pw_pool := finish_job i (pw_pool w), pw_done := pw_done w @ [pl_running (pw_pool w) ! i]\<rparr>)"
| step_close: "pw_pending w = [] \<Longrightarrow> \<not> pl_closed (pw_pool w) \<Longrightarrow>
     pool_step w (w\<lparr>pw_pool := close_pool (pw_pool w)\<rparr>)"

inductive_cases pool_stepE: "pool_step w w'"

definition start_world :: "pool \<Rightarrow> pool_world" where
  "start_world p = \<lparr>pw_pool = p, pw_pending = [], pw_admitted = [], pw_started = [], pw_done = []\<rparr>"

inductive pool_reachable :: "pool_config \<Rightarrow> pool_world \<Rightarrow> bool" for c where
  reach_new: "new_pool c = Inr p \<Longrightarrow> pool_reachable c (start_world p)"
| reach_step: "pool_reachable c w \<Longrightarrow> pool_step w w' \<Longrightarrow> pool_reachable c w'"

subsection \<open>What a job writes\<close>

record worker_marshal =
  wm_response :: "chat_response \<Rightarrow> string"
  wm_meta :: "string \<times> string \<times> string \<Rightarrow> string" \<comment> \<open>thread, request and upstream request ids\<close>
  wm_envelope :: "ingest_envelope \<Rightarrow> string"

definition build_turn_chain :: "externs \<Rightarrow> job \<Rightarrow> string \<Rightarrow> node list" where
  "build_turn_chain ext job project =
     turn_chain_wire ext
       \<lparr>cc_provider = jb_provider job, cc_agent_name = jb_agent_name job, cc_thread_id = jb_thread_id job,
        cc_project = project\<rparr> (Some (jb_req job)) (Some (jb_resp job))"

text \<open>The row for the raw layer and the request for the session row, each when the code writes one.\<close>

definition pool_persist_raw_turn :: "worker_marshal \<Rightarrow> job \<Rightarrow> node list \<Rightarrow> raw_put option" where
  "pool_persist_raw_turn wm job chain =
     (if jb_raw_request job = [] then None
      else case resolve_harness_session_id (jb_session job) (n_hash (hd chain)) of
        Inl _ \<Rightarrow> None
      | Inr (envelope, session_id) \<Rightarrow> Some
          \<lparr>rt_id = 0, rt_source = source_wire, rt_provider = jb_provider job, rt_agent_name = jb_agent_name job,
           rt_harness_id = harness_id_or_unknown (Some envelope), rt_harness_session_id = session_id,
           rt_request_id = (if jb_request_id job = [] then n_hash (last chain) else jb_request_id job),
           rt_raw_request = jb_raw_request job, rt_response = wm_response wm (jb_resp job),
           rt_meta = wm_meta wm (jb_thread_id job, jb_request_id job, jb_upstream_request_id job),
           rt_session_envelope = wm_envelope wm envelope, rt_received_at = 0,
           su_raw_response = [], su_raw_response_encoding = [],
           rp_org_id = en_org_id envelope, rp_raw_response_dropped = False\<rparr>)"

definition pool_ingest_session :: "externs \<Rightarrow> job \<Rightarrow> node list \<Rightarrow> ingest_turn_request option" where
  "pool_ingest_session ext job chain =
     (case jb_session job of
        None \<Rightarrow> None
      | Some s \<Rightarrow> Some \<lparr>iq_session = Some s, iq_nodes = chain,
          iq_derived_title = session_title (ext_title ext) (n_kind (last chain)) (Some (jb_resp job))\<rparr>)"

definition process_job ::
  "externs \<Rightarrow> worker_marshal \<Rightarrow> string \<Rightarrow> job \<Rightarrow> raw_put option \<times> ingest_turn_request option"
where
  "process_job ext wm project job =
     (let chain = build_turn_chain ext job project
      in if chain = [] then (None, None)
         else (pool_persist_raw_turn wm job chain, pool_ingest_session ext job chain))"

text \<open>A failed write is logged and the next one goes ahead.\<close>

definition or_unchanged :: "raw_db \<Rightarrow> 'e + ('a \<times> raw_db) \<Rightarrow> raw_db" where
  "or_unchanged db r = (case r of Inl _ \<Rightarrow> db | Inr (_, db') \<Rightarrow> db')"

definition run_job ::
  "externs \<Rightarrow> worker_marshal \<Rightarrow> store_env \<Rightarrow> gotime \<Rightarrow> string \<Rightarrow> job \<Rightarrow> raw_db \<Rightarrow> raw_db"
where
  "run_job ext wm env now project job db =
     (case process_job ext wm project job of (put, rq) \<Rightarrow>
        let db1 = (case put of None \<Rightarrow> db | Some p \<Rightarrow> or_unchanged db (put_raw_turn env now p db))
        in case rq of None \<Rightarrow> db1 | Some q \<Rightarrow> or_unchanged db1 (ingest_turn env now q db1))"

subsection \<open>Properties\<close>

definition held :: "job list \<Rightarrow> int" where
  "held js = (\<Sum>j\<leftarrow>js. max 0 (jb_weight j))"

lemma held_simps [simp]:
  "held [] = 0" "held (j # js) = max 0 (jb_weight j) + held js" "held (js @ ks) = held js + held ks"
  by (simp_all add: held_def)

lemma held_nonneg [simp]: "0 \<le> held js"
  by (induction js) auto

lemma split_nth: "i < length xs \<Longrightarrow> \<exists>ys zs. xs = ys @ xs ! i # zs \<and> drop_at i xs = ys @ zs"
  by (metis drop_at_def id_take_nth_drop)

lemma held_drop_at:
  "i < length js \<Longrightarrow> held (drop_at i js) = held js - max 0 (jb_weight (js ! i))"
  using split_nth [of i js] by (metis add.commute add_diff_cancel_right' diff_add_eq held_simps(2,3))

lemma mset_drop_at: "i < length xs \<Longrightarrow> add_mset (xs ! i) (mset (drop_at i xs)) = mset xs"
  using split_nth [of i xs] by (metis mset_append mset.simps(2) union_mset_add_mset_right)

lemma length_drop_at [simp]: "i < length xs \<Longrightarrow> length (drop_at i xs) = length xs - 1"
  by (simp add: drop_at_def)

definition pool_ok :: "pool_config \<Rightarrow> pool_world \<Rightarrow> bool" where
  "pool_ok c w =
     (let p = pw_pool w
      in pl_config p = with_pool_defaults c
       \<and> pl_in_flight p = held (pw_pending w) + held (pl_queue p) + held (pl_running p)
       \<and> pl_in_flight p \<le> max 0 (pc_queue_byte_budget (pl_config p))
       \<and> length (pl_queue p) \<le> pc_queue_size (pl_config p)
       \<and> length (pl_running p) \<le> pc_num_workers (pl_config p)
       \<and> (pl_closed p \<longrightarrow> pw_pending w = [])
       \<and> pw_admitted w = pw_started w @ pl_queue p
       \<and> mset (pw_started w) = mset (pl_running p) + mset (pw_done w))"

definition sane_budget :: "pool_config \<Rightarrow> bool" where
  "sane_budget c = (pc_queue_byte_budget (with_pool_defaults c) \<le> 2 ^ 62)"

lemma release_held:
  "\<lbrakk>pl_in_flight p = max 0 x + rest; 0 \<le> rest; pl_in_flight p \<le> 2 ^ 62\<rbrakk> \<Longrightarrow>
   release_weight x p = p\<lparr>pl_in_flight := rest\<rparr>"
  by (cases "x \<le> 0") (auto simp: release_weight_def int64_ok_def)

lemma reserve_held:
  "\<lbrakk>reserve x p = (p', ok); 0 \<le> pl_in_flight p; pl_in_flight p \<le> 2 ^ 62; x < max_job_weight\<rbrakk> \<Longrightarrow>
   p' = (if ok then p\<lparr>pl_in_flight := pl_in_flight p + max 0 x\<rparr> else p)
   \<and> (ok \<longrightarrow> x \<le> 0 \<or> pl_in_flight p + x \<le> pc_queue_byte_budget (pl_config p))"
  by (auto simp: reserve_def max_job_weight_def int64_ok_def split: if_splits)

lemma pool_ok_bound: "pool_ok c w \<Longrightarrow> sane_budget c \<Longrightarrow> pl_in_flight (pw_pool w) \<le> 2 ^ 62"
  by (auto simp: pool_ok_def sane_budget_def Let_def)

lemma pool_ok_nonneg: "pool_ok c w \<Longrightarrow> 0 \<le> pl_in_flight (pw_pool w)"
  by (auto simp: pool_ok_def Let_def)

lemma new_pool_ok: "new_pool c = Inr p \<Longrightarrow> pool_ok c (start_world p)"
  by (auto simp: new_pool_def pool_ok_def start_world_def Let_def split: if_splits)

lemma note_reserve_ok:
  assumes "pool_ok c w" "sane_budget c" "\<not> pl_closed (pw_pool w)" "jb_weight job < max_job_weight"
  shows "pool_ok c (note_reserve job w)"
proof -
  obtain p ok where r: "reserve (jb_weight job) (pw_pool w) = (p, ok)" by fastforce
  show ?thesis
    using reserve_held [OF r pool_ok_nonneg [OF assms(1)] pool_ok_bound [OF assms(1,2)] assms(4)] assms(1,3)
    by (cases ok) (auto simp: note_reserve_def r pool_ok_def Let_def)
qed

lemma offer_cases:
  "\<not> pl_closed p \<Longrightarrow> offer job p =
     (if length (pl_queue p) < pc_queue_size (pl_config p)
      then (p\<lparr>pl_queue := pl_queue p @ [job]\<rparr>, Some RejectNone)
      else (release_weight (jb_weight job) p, Some RejectQueueFull))"
  by (simp add: offer_def)

lemma note_send_ok:
  assumes ok: "pool_ok c w" and b: "sane_budget c" and i: "i < length (pw_pending w)"
  shows "pool_ok c (note_send i w)"
proof -
  let ?p = "pw_pool w" and ?job = "pw_pending w ! i"
  have o: "\<not> pl_closed ?p" using ok i by (auto simp: pool_ok_def Let_def)
  have h: "held (drop_at i (pw_pending w)) = held (pw_pending w) - max 0 (jb_weight ?job)"
    by (rule held_drop_at [OF i])
  then have f: "pl_in_flight ?p = max 0 (jb_weight ?job)
      + (held (drop_at i (pw_pending w)) + held (pl_queue ?p) + held (pl_running ?p))"
    using ok by (simp add: pool_ok_def Let_def)
  show ?thesis
  proof (cases "length (pl_queue ?p) < pc_queue_size (pl_config ?p)")
    case True
    then show ?thesis using ok o h by (auto simp: note_send_def offer_cases pool_ok_def Let_def)
  next
    case False
    have "release_weight (jb_weight ?job) ?p =
       ?p\<lparr>pl_in_flight := held (drop_at i (pw_pending w)) + held (pl_queue ?p) + held (pl_running ?p)\<rparr>"
      using f pool_ok_bound [OF ok b] by (intro release_held) auto
    then show ?thesis using False ok o h by (auto simp: note_send_def offer_cases pool_ok_def Let_def)
  qed
qed

lemma take_job_ok:
  "\<lbrakk>pool_ok c w; pl_queue (pw_pool w) = job # rest;
    length (pl_running (pw_pool w)) < pc_num_workers (pl_config (pw_pool w))\<rbrakk> \<Longrightarrow>
   pool_ok c (w\<lparr>pw_pool := take_job (pw_pool w), pw_started := pw_started w @ [job]\<rparr>)"
  by (auto simp: pool_ok_def take_job_def Let_def)

lemma finish_job_ok:
  assumes ok: "pool_ok c w" and b: "sane_budget c" and i: "i < length (pl_running (pw_pool w))"
  shows "pool_ok c (w\<lparr>pw_pool := finish_job i (pw_pool w), pw_done := pw_done w @ [pl_running (pw_pool w) ! i]\<rparr>)"
proof -
  let ?p = "pw_pool w" let ?job = "pl_running ?p ! i"
  have h: "held (drop_at i (pl_running ?p)) = held (pl_running ?p) - max 0 (jb_weight ?job)"
    by (rule held_drop_at [OF i])
  let ?rest = "held (pw_pending w) + held (pl_queue ?p) + held (drop_at i (pl_running ?p))"
  have f: "pl_in_flight ?p = max 0 (jb_weight ?job) + ?rest"
    using ok h by (simp add: pool_ok_def Let_def)
  have "finish_job i ?p = ?p\<lparr>pl_running := drop_at i (pl_running ?p), pl_in_flight := ?rest\<rparr>"
    unfolding finish_job_def using f pool_ok_bound [OF ok b] by (subst release_held [where rest = ?rest]) auto
  then show ?thesis
    using ok i h mset_drop_at [OF i] by (auto simp: pool_ok_def Let_def)
qed

lemma pool_step_ok:
  assumes "pool_step w w'" "pool_ok c w" "sane_budget c"
  shows "pool_ok c w'"
  using assms(1)
proof (cases rule: pool_step.cases)
  case (step_close)
  then show ?thesis using assms(2) by (auto simp: pool_ok_def close_pool_def Let_def)
qed (use assms(2,3) note_reserve_ok note_send_ok take_job_ok finish_job_ok in auto)

lemma reachable_ok: "pool_reachable c w \<Longrightarrow> sane_budget c \<Longrightarrow> pool_ok c w"
  by (induction rule: pool_reachable.induct) (auto intro: new_pool_ok pool_step_ok)

text \<open>\<open>Admit\<close> is a reservation followed by a send of the caller's own job.\<close>

lemma admit_steps:
  assumes "\<not> pl_closed (pw_pool w)" "pw_pending w = []"
  shows "pw_pool (if snd (reserve (jb_weight job) (pw_pool w)) then note_send 0 (note_reserve job w)
                  else note_reserve job w) = fst (admit job (pw_pool w))"
  using assms
  by (cases "reserve (jb_weight job) (pw_pool w)")
    (auto simp: note_reserve_def note_send_def admit_def Let_def split: prod.splits bool.splits)

lemma admit_closed_panics: "jb_weight job \<le> 0 \<Longrightarrow> snd (admit job (close_pool p)) = None"
  by (simp add: admit_def reserve_def offer_def close_pool_def)

text \<open>C18: The pool's accounting holds in every interleaving of callers, workers and shutdown: the
  in-flight bytes are exactly the weights of the jobs reserved, queued or running, they never pass the
  byte budget, the queue and the workers never pass their caps, every admitted job is queued, running
  or done exactly once, and jobs start in the order they were admitted.\<close>

theorem pool_accounting:
  assumes "pool_reachable c w" "sane_budget c"
  shows "pl_in_flight (pw_pool w) = held (pw_pending w @ pl_queue (pw_pool w) @ pl_running (pw_pool w))
       \<and> pl_in_flight (pw_pool w) \<le> max 0 (pc_queue_byte_budget (with_pool_defaults c))
       \<and> length (pl_queue (pw_pool w)) \<le> pc_queue_size (with_pool_defaults c)
       \<and> length (pl_running (pw_pool w)) \<le> pc_num_workers (with_pool_defaults c)
       \<and> mset (pw_admitted w) = mset (pl_queue (pw_pool w)) + mset (pl_running (pw_pool w)) + mset (pw_done w)
       \<and> pw_admitted w = pw_started w @ pl_queue (pw_pool w)"
  using reachable_ok [OF assms] by (auto simp: pool_ok_def Let_def ac_simps)

definition wit_pool_config :: pool_config where
  "wit_pool_config = \<lparr>pc_num_workers = 1, pc_queue_size = 2, pc_queue_byte_budget = 10, pc_project = []\<rparr>"

definition wit_chat_request :: chat_request where
  "wit_chat_request = \<lparr>rq_model = [], rq_messages = [], rq_stream = None, rq_system = [], rq_max_tokens = None,
     rq_temperature = None, rq_tools = [], rq_extra = []\<rparr>"

definition wit_chat_response :: chat_response where
  "wit_chat_response = \<lparr>rs_model = [], rs_message = \<lparr>msg_role = [], msg_content = []\<rparr>, rs_done = False,
     rs_stop_reason = [], rs_usage = None, rs_extra = []\<rparr>"

definition wit_pool_job :: "int \<Rightarrow> job" where
  "wit_pool_job x = \<lparr>jb_provider = [], jb_agent_name = [], jb_thread_id = [], jb_request_id = [],
     jb_upstream_request_id = [], jb_req = wit_chat_request, jb_resp = wit_chat_response,
     jb_weight = x, jb_raw_request = [], jb_session = None\<rparr>"

definition wit_pool :: pool where
  "wit_pool = \<lparr>pl_config = wit_pool_config, pl_queue = [], pl_running = [], pl_in_flight = 0, pl_closed = False\<rparr>"

text \<open>A job of seven bytes is sent; one of five no longer fits.\<close>

definition wit_pool_world :: pool_world where
  "wit_pool_world = note_reserve (wit_pool_job 5) (note_send 0 (note_reserve (wit_pool_job 7) (start_world wit_pool)))"

lemmas wit_pool_defs = wit_pool_world_def wit_pool_def wit_pool_config_def wit_pool_job_def start_world_def
  note_reserve_def note_send_def reserve_def offer_def drop_at_def max_job_weight_def wrap64_def

lemma wit_pool_reachable: "pool_reachable wit_pool_config wit_pool_world"
proof -
  have n: "new_pool wit_pool_config = Inr wit_pool"
    by (simp add: new_pool_def with_pool_defaults_def wit_pool_def wit_pool_config_def max_int_def Let_def)
  show ?thesis
    unfolding wit_pool_world_def
    by (intro reach_step [OF _ step_reserve] reach_step [OF _ step_send] reach_new [OF n])
      (simp_all add: wit_pool_defs Let_def)
qed

theorem pool_accounting_witness:
  "pl_in_flight (pw_pool wit_pool_world) = 7 \<and> length (pw_admitted wit_pool_world) = 1
   \<and> pl_in_flight (pw_pool wit_pool_world) \<le> max 0 (pc_queue_byte_budget (with_pool_defaults wit_pool_config))"
proof -
  have "sane_budget wit_pool_config"
    by (simp add: sane_budget_def with_pool_defaults_def wit_pool_config_def)
  from pool_accounting [OF wit_pool_reachable this] show ?thesis
    by (simp add: wit_pool_defs Let_def)
qed

end
