(* ===== verification/AnthropicReducer.thy ===== *)
theory AnthropicReducer
  imports LlmTypes SseReader Results
begin

text \<open>
  The Anthropic turn reducer (\<open>pkg/capture/anthropic.go\<close>, \<open>anthropic_state.go\<close>,
  \<open>anthropic_events.go\<close>): the state machine over the events of a streamed answer, the mapping of a
  one-shot body, and the choice between them.

  Decoding a JSON text into one of the wire structs is a parameter: a function of the text that
  answers an error or the struct. The stream is read by the tee reader of \<open>SseReader\<close> with a
  discarding sink. \<open>ctx\<close> says, for each turn of the loop, whether the context has failed. The time of
  creation and the raw copy of a one-shot body are not part of \<open>chat_response\<close>.
\<close>

subsection \<open>Wire shapes\<close>

record anthropic_usage =
  au_input_tokens :: int
  au_output_tokens :: int
  au_cache_creation :: int
  au_cache_read :: int

record anthropic_message_start =
  ams_id :: string
  ams_role :: string
  ams_model :: string
  ams_usage :: "anthropic_usage option"

record anthropic_block =
  ab_type :: string
  ab_text :: string
  ab_id :: string
  ab_name :: string
  ab_input :: jobj
  ab_thinking :: string
  ab_signature :: string
  ab_tool_use_id :: string
  ab_content :: string

record anthropic_block_start =
  abs_index :: int
  abs_block :: anthropic_block

record anthropic_delta =
  ad_type :: string
  ad_text :: string
  ad_partial_json :: string
  ad_thinking :: string
  ad_signature :: string

record anthropic_block_delta =
  abd_index :: int
  abd_delta :: anthropic_delta

record anthropic_message_delta =
  amd_stop_reason :: string
  amd_stop_sequence :: "string option"
  amd_usage :: "anthropic_usage option"

record anthropic_error =
  ae_type :: string
  ae_message :: string

record oneshot_response =
  os_id :: string
  os_type :: string
  os_role :: string
  os_content :: "anthropic_block list"
  os_model :: string
  os_stop_reason :: string
  os_stop_sequence :: "string option"
  os_usage :: "anthropic_usage option"

record anthropic_decoders =
  ax_type :: "string \<Rightarrow> string option" \<comment> \<open>the discriminator of a frame without an event line\<close>
  ax_message_start :: "string \<Rightarrow> string + anthropic_message_start"
  ax_block_start :: "string \<Rightarrow> string + anthropic_block_start"
  ax_block_delta :: "string \<Rightarrow> string + anthropic_block_delta"
  ax_block_stop :: "string \<Rightarrow> string + int"
  ax_message_delta :: "string \<Rightarrow> string + anthropic_message_delta"
  ax_error :: "string \<Rightarrow> string + anthropic_error"
  ax_object :: "string \<Rightarrow> string + jobj"
  ax_oneshot :: "string \<Rightarrow> string + oneshot_response"

definition unmarshal_strict :: "string \<Rightarrow> string + 'a \<Rightarrow> string + 'a" where
  "unmarshal_strict event_type = wrap_err (\<lambda>e. ''anthropic reducer: parse '' @ event_type @ '': '' @ e)"

lemma unmarshal_strict_Inr [simp]: "unmarshal_strict ty (Inr x) = Inr x"
  by (simp add: unmarshal_strict_def)

definition default_string :: "string \<Rightarrow> string \<Rightarrow> string" where
  "default_string got fallback = (if got = [] then fallback else got)"

subsection \<open>The state of a turn\<close>

record block_state =
  bst_kind :: string
  bst_text :: string
  bst_thinking :: string
  bst_signature :: string
  bst_tool_id :: string
  bst_tool_name :: string
  bst_tool_input :: jobj
  bst_tool_use_id :: string
  bst_content :: string

definition empty_block_state :: "string \<Rightarrow> block_state" where
  "empty_block_state kind = \<lparr>bst_kind = kind, bst_text = [], bst_thinking = [], bst_signature = [],
     bst_tool_id = [], bst_tool_name = [], bst_tool_input = [], bst_tool_use_id = [], bst_content = []\<rparr>"

record turn_state =
  trn_id :: string
  trn_model :: string
  trn_role :: string
  trn_stop_reason :: string
  trn_stop_sequence :: "string option"
  trn_blocks :: "int \<Rightarrow> block_state option"
  trn_max_index :: int
  trn_fragments :: "int \<Rightarrow> string option"
  trn_usage :: usage
  trn_error_type :: string
  trn_error_message :: string
  trn_tool_input_errors :: "jval list"
  trn_seen_message_stop :: bool

definition new_turn_state :: turn_state where
  "new_turn_state = \<lparr>trn_id = [], trn_model = [], trn_role = [], trn_stop_reason = [], trn_stop_sequence = None,
     trn_blocks = Map.empty, trn_max_index = 0, trn_fragments = Map.empty, trn_usage = zero_usage,
     trn_error_type = [], trn_error_message = [], trn_tool_input_errors = [], trn_seen_message_stop = False\<rparr>"

definition put_block :: "int \<Rightarrow> block_state \<Rightarrow> turn_state \<Rightarrow> turn_state" where
  "put_block i b s = s\<lparr>trn_blocks := (trn_blocks s)(i \<mapsto> b),
     trn_max_index := (if trn_max_index s < i then i else trn_max_index s)\<rparr>"

subsection \<open>The events\<close>

definition note_message_start :: "anthropic_message_start \<Rightarrow> turn_state \<Rightarrow> turn_state" where
  "note_message_start ev s =
     (let s1 = s\<lparr>trn_id := ams_id ev, trn_model := ams_model ev, trn_role := ams_role ev\<rparr>
      in case ams_usage ev of
           None \<Rightarrow> s1
         | Some u \<Rightarrow> s1\<lparr>trn_usage := (trn_usage s)
             \<lparr>prompt_tokens := au_input_tokens u + au_cache_creation u + au_cache_read u,
              cache_creation_input_tokens := au_cache_creation u,
              cache_read_input_tokens := au_cache_read u\<rparr>\<rparr>)"

definition open_block :: "anthropic_block \<Rightarrow> block_state" where
  "open_block c =
     (let b = empty_block_state (ab_type c) in
      if ab_type c = ''text'' then b\<lparr>bst_text := ab_text c\<rparr>
      else if ab_type c = ''tool_use'' \<or> ab_type c = ''server_tool_use''
        then b\<lparr>bst_tool_id := ab_id c, bst_tool_name := ab_name c, bst_tool_input := ab_input c\<rparr>
      else if ab_type c = ''thinking''
        then b\<lparr>bst_thinking := ab_thinking c, bst_signature := ab_signature c\<rparr>
      else if ab_type c = ''web_search_tool_result''
        then b\<lparr>bst_tool_use_id := ab_tool_use_id c, bst_content := ab_content c\<rparr>
      else b)"

definition note_block_start :: "anthropic_block_start \<Rightarrow> turn_state \<Rightarrow> turn_state" where
  "note_block_start ev s = put_block (abs_index ev) (open_block (abs_block ev)) s"

text \<open>A delta for a block that was never opened opens a text block.\<close>

definition ensure_block :: "int \<Rightarrow> turn_state \<Rightarrow> turn_state" where
  "ensure_block i s =
     (case trn_blocks s i of Some _ \<Rightarrow> s | None \<Rightarrow> put_block i (empty_block_state ''text'') s)"

definition upd_block :: "int \<Rightarrow> (block_state \<Rightarrow> block_state) \<Rightarrow> turn_state \<Rightarrow> turn_state" where
  "upd_block i f s = s\<lparr>trn_blocks := (trn_blocks s)(i := map_option f (trn_blocks s i))\<rparr>"

definition note_block_delta :: "anthropic_block_delta \<Rightarrow> turn_state \<Rightarrow> turn_state" where
  "note_block_delta ev s =
     (let i = abd_index ev; d = abd_delta ev; s1 = ensure_block i s in
      if ad_type d = ''text_delta'' then upd_block i (\<lambda>b. b\<lparr>bst_text := bst_text b @ ad_text d\<rparr>) s1
      else if ad_type d = ''input_json_delta''
        then s1\<lparr>trn_fragments := (trn_fragments s1)(i \<mapsto> map_get (trn_fragments s1) i [] @ ad_partial_json d)\<rparr>
      else if ad_type d = ''thinking_delta''
        then upd_block i (\<lambda>b. b\<lparr>bst_thinking := bst_thinking b @ ad_thinking d\<rparr>) s1
      else if ad_type d = ''signature_delta''
        then upd_block i (\<lambda>b. b\<lparr>bst_signature := bst_signature b @ ad_signature d\<rparr>) s1
      else s1)"

definition record_tool_input_error :: "string \<Rightarrow> string \<Rightarrow> string \<Rightarrow> turn_state \<Rightarrow> turn_state" where
  "record_tool_input_error tool_id raw err s = s\<lparr>trn_tool_input_errors := trn_tool_input_errors s @
     [JObj [(''tool_use_id'', JStr tool_id), (''raw'', JStr raw), (''error'', JStr err)]]\<rparr>"

definition is_tool_kind :: "string \<Rightarrow> bool" where
  "is_tool_kind k \<longleftrightarrow> k = ''tool_use'' \<or> k = ''server_tool_use''"

definition parse_fragments :: "anthropic_decoders \<Rightarrow> int \<Rightarrow> block_state \<Rightarrow> string \<Rightarrow> turn_state \<Rightarrow> turn_state" where
  "parse_fragments ax i b raw s =
     (if raw = [] then s
      else case ax_object ax raw of
             Inr parsed \<Rightarrow> upd_block i (\<lambda>b. b\<lparr>bst_tool_input := parsed\<rparr>) s
           | Inl err \<Rightarrow> record_tool_input_error (bst_tool_id b) raw err s)"

definition note_block_stop :: "anthropic_decoders \<Rightarrow> int \<Rightarrow> turn_state \<Rightarrow> turn_state" where
  "note_block_stop ax i s =
     (case trn_blocks s i of
        None \<Rightarrow> s
      | Some b \<Rightarrow>
          (case trn_fragments s i of
             None \<Rightarrow> s
           | Some raw \<Rightarrow>
               if is_tool_kind (bst_kind b)
               then (parse_fragments ax i b raw s)\<lparr>trn_fragments := (trn_fragments s)(i := None)\<rparr>
               else s))"

definition note_message_delta :: "anthropic_message_delta \<Rightarrow> turn_state \<Rightarrow> turn_state" where
  "note_message_delta ev s =
     s\<lparr>trn_stop_reason := (if amd_stop_reason ev \<noteq> [] then amd_stop_reason ev else trn_stop_reason s),
       trn_stop_sequence := (case amd_stop_sequence ev of None \<Rightarrow> trn_stop_sequence s | Some q \<Rightarrow> Some q),
       trn_usage := (case amd_usage ev of
           None \<Rightarrow> trn_usage s | Some u \<Rightarrow> (trn_usage s)\<lparr>completion_tokens := au_output_tokens u\<rparr>)\<rparr>"

definition note_error :: "anthropic_error \<Rightarrow> turn_state \<Rightarrow> turn_state" where
  "note_error ev s =
     s\<lparr>trn_error_type := ae_type ev, trn_error_message := ae_message ev,
       trn_stop_reason := (if trn_stop_reason s = [] then ''error'' else trn_stop_reason s)\<rparr>"

definition event_type :: "anthropic_decoders \<Rightarrow> sse_event \<Rightarrow> string" where
  "event_type ax ev =
     (if ev_type ev \<noteq> [] then ev_type ev
      else case ax_type ax (ev_data ev) of None \<Rightarrow> [] | Some ty \<Rightarrow> ty)"

definition dispatch_stream_event :: "anthropic_decoders \<Rightarrow> sse_event \<Rightarrow> turn_state \<Rightarrow> string + turn_state" where
  "dispatch_stream_event ax ev s =
     (let ty = event_type ax ev; data = ev_data ev in
      if ty = ''message_start''
        then and_then (unmarshal_strict ty (ax_message_start ax data)) (\<lambda>e. Inr (note_message_start e s))
      else if ty = ''content_block_start''
        then and_then (unmarshal_strict ty (ax_block_start ax data)) (\<lambda>e. Inr (note_block_start e s))
      else if ty = ''content_block_delta''
        then and_then (unmarshal_strict ty (ax_block_delta ax data)) (\<lambda>e. Inr (note_block_delta e s))
      else if ty = ''content_block_stop''
        then and_then (unmarshal_strict ty (ax_block_stop ax data)) (\<lambda>i. Inr (note_block_stop ax i s))
      else if ty = ''message_delta''
        then and_then (unmarshal_strict ty (ax_message_delta ax data)) (\<lambda>e. Inr (note_message_delta e s))
      else if ty = ''message_stop'' then Inr (s\<lparr>trn_seen_message_stop := True\<rparr>)
      else if ty = ''error''
        then and_then (unmarshal_strict ty (ax_error ax data)) (\<lambda>e. Inr (note_error e s))
      else Inr s)"

text \<open>A malformed event is noted once and skipped.\<close>

definition note_event :: "anthropic_decoders \<Rightarrow> sse_event \<Rightarrow> turn_state \<Rightarrow> turn_state" where
  "note_event ax ev s =
     (case dispatch_stream_event ax ev s of
        Inr s' \<Rightarrow> s'
      | Inl err \<Rightarrow> if trn_error_message s = []
                   then s\<lparr>trn_error_message := err, trn_error_type := ''reducer_parse_error''\<rparr> else s)"

subsection \<open>The response\<close>

definition final_block :: "block_state \<Rightarrow> content_block" where
  "final_block b =
     (let cb = empty_block\<lparr>cb_type := bst_kind b\<rparr> in
      if bst_kind b = ''text'' then cb\<lparr>cb_text := bst_text b\<rparr>
      else if is_tool_kind (bst_kind b)
        then cb\<lparr>tool_use_id := bst_tool_id b, tool_name := bst_tool_name b, tool_input := bst_tool_input b\<rparr>
      else if bst_kind b = ''thinking''
        then cb\<lparr>thinking := bst_thinking b, thinking_signature := bst_signature b\<rparr>
      else if bst_kind b = ''web_search_tool_result''
        then cb\<lparr>tool_result_id := bst_tool_use_id b, raw_content := bst_content b\<rparr>
      else cb)"

definition final_content :: "turn_state \<Rightarrow> content_block list" where
  "final_content s = map final_block (List.map_filter (trn_blocks s) [0..trn_max_index s])"

definition unfinished :: "turn_state \<Rightarrow> bool" where
  "unfinished s \<longleftrightarrow> \<not> trn_seen_message_stop s \<and> trn_error_type s = []"

definition final_extra :: "turn_state \<Rightarrow> jobj" where
  "final_extra s =
     [(''id'', JStr (trn_id s)), (''type'', JStr ''message'')]
     @ (case trn_stop_sequence s of None \<Rightarrow> [] | Some q \<Rightarrow> [(''stop_sequence'', JStr q)])
     @ (if trn_tool_input_errors s = [] then []
        else [(''tool_input_parse_errors'', JArr (trn_tool_input_errors s))])
     @ (if trn_error_type s = [] then []
        else [(''error'', JObj [(''type'', JStr (trn_error_type s)), (''message'', JStr (trn_error_message s))])])
     @ (if unfinished s then [(''incomplete'', JBool True)] else [])"

definition finalize :: "turn_state \<Rightarrow> chat_response" where
  "finalize s =
     \<lparr>rs_model = trn_model s,
      rs_message = \<lparr>msg_role = default_string (trn_role s) ''assistant'', msg_content = final_content s\<rparr>,
      rs_done = trn_seen_message_stop s,
      rs_stop_reason = (if unfinished s \<and> trn_stop_reason s = [] then ''incomplete'' else trn_stop_reason s),
      rs_usage = Some ((trn_usage s)
        \<lparr>total_tokens := prompt_tokens (trn_usage s) + completion_tokens (trn_usage s)\<rparr>),
      rs_extra = final_extra s\<rparr>"

subsection \<open>Reducing a body\<close>

definition oneshot_block :: "anthropic_block \<Rightarrow> content_block" where
  "oneshot_block c =
     (let cb = empty_block\<lparr>cb_type := ab_type c\<rparr> in
      if ab_type c = ''text'' then cb\<lparr>cb_text := ab_text c\<rparr>
      else if is_tool_kind (ab_type c)
        then cb\<lparr>tool_use_id := ab_id c, tool_name := ab_name c, tool_input := ab_input c\<rparr>
      else if ab_type c = ''thinking''
        then cb\<lparr>thinking := ab_thinking c, thinking_signature := ab_signature c\<rparr>
      else if ab_type c = ''web_search_tool_result''
        then cb\<lparr>tool_result_id := ab_tool_use_id c, raw_content := ab_content c\<rparr>
      else cb)"

definition oneshot_usage :: "anthropic_usage option \<Rightarrow> usage" where
  "oneshot_usage ou =
     (case ou of
        None \<Rightarrow> zero_usage
      | Some u \<Rightarrow>
          (let total_input = au_input_tokens u + au_cache_creation u + au_cache_read u
           in zero_usage\<lparr>prompt_tokens := total_input, completion_tokens := au_output_tokens u,
                total_tokens := total_input + au_output_tokens u,
                cache_creation_input_tokens := au_cache_creation u, cache_read_input_tokens := au_cache_read u\<rparr>))"

definition reduce_oneshot :: "anthropic_decoders \<Rightarrow> string \<Rightarrow> string + chat_response" where
  "reduce_oneshot ax body =
     and_then (wrap_err (\<lambda>e. ''anthropic reducer: parse oneshot body: '' @ e) (ax_oneshot ax body)) (\<lambda>resp.
       Inr \<lparr>rs_model = os_model resp,
            rs_message = \<lparr>msg_role = default_string (os_role resp) ''assistant'',
                          msg_content = map oneshot_block (os_content resp)\<rparr>,
            rs_done = True, rs_stop_reason = os_stop_reason resp,
            rs_usage = Some (oneshot_usage (os_usage resp)),
            rs_extra = [(''id'', JStr (os_id resp)), (''type'', JStr (default_string (os_type resp) ''message''))]\<rparr>)"

text \<open>The loop over the reader; \<open>n\<close> counts its turns.\<close>

function stream_loop ::
  "anthropic_decoders \<Rightarrow> (nat \<Rightarrow> string option) \<Rightarrow> nat \<Rightarrow> unit tee_reader \<Rightarrow> turn_state
   \<Rightarrow> string + turn_state \<times> string option"
where
  "stream_loop ax ctx n r s =
     (case ctx n of
        Some e \<Rightarrow> Inl e
      | None \<Rightarrow>
          (case tee_next discard_write max_line r of
             (r', NextErr e) \<Rightarrow> Inr (s, Some e)
           | (r', NextEnd) \<Rightarrow> Inr (s, None)
           | (r', NextEvent ev) \<Rightarrow> stream_loop ax ctx (Suc n) r' (note_event ax ev s)))"
  by pat_completeness auto
termination
  by (relation "measure (\<lambda>(ax, ctx, n, r, s). reader_measure r)")
    (auto dest!: sym [of "tee_next _ _ _"] tee_next_event_decreases sym [of "(_, _)"])

declare stream_loop.simps [simp del]

definition reduce_stream ::
  "anthropic_decoders \<Rightarrow> (nat \<Rightarrow> string option) \<Rightarrow> string \<Rightarrow> string option \<Rightarrow> string + chat_response"
where
  "reduce_stream ax ctx body src_err =
     and_then (stream_loop ax ctx 0 (new_tee_reader body src_err ()) new_turn_state) (\<lambda>(s, err).
       Inr (case err of
              None \<Rightarrow> finalize s
            | Some e \<Rightarrow> (finalize s)\<lparr>rs_extra := rs_extra (finalize s) @ [(''reducer_error'', JStr e)]\<rparr>))"

definition streaming_type :: "string \<Rightarrow> bool" where
  "streaming_type content_type \<longleftrightarrow>
     go_contains (go_to_lower content_type) ''event-stream'' \<or> go_contains (go_to_lower content_type) ''ndjson''"

definition anthropic_reduce ::
  "anthropic_decoders \<Rightarrow> (nat \<Rightarrow> string option) \<Rightarrow> string option \<Rightarrow> string \<Rightarrow> string + chat_response"
where
  "anthropic_reduce ax ctx body content_type =
     (case body of
        None \<Rightarrow> Inl ''anthropic reducer: nil response body''
      | Some b \<Rightarrow> if streaming_type content_type then reduce_stream ax ctx b None else reduce_oneshot ax b)"

end
