(* ===== verification/AnthropicFacts.thy ===== *)
theory AnthropicFacts
  imports AnthropicReducer
begin

text \<open>
  Facts on the Anthropic reducer: however a message is cut into deltas, the reduced stream is the
  reduced one-shot body; a partial capture is an answer with a mark, never an error.
\<close>

subsection \<open>Events of a stream\<close>

text \<open>What a frame means once decoded.\<close>

datatype a_event =
    AStart anthropic_message_start
  | ABlockStart anthropic_block_start
  | ADelta anthropic_block_delta
  | AStop int
  | AMessageDelta anthropic_message_delta
  | AMessageStop
  | APing

fun carries :: "anthropic_decoders \<Rightarrow> sse_event \<Rightarrow> a_event \<Rightarrow> bool" where
  "carries ax f (AStart m) \<longleftrightarrow> event_type ax f = ''message_start'' \<and> ax_message_start ax (ev_data f) = Inr m"
| "carries ax f (ABlockStart b) \<longleftrightarrow>
     event_type ax f = ''content_block_start'' \<and> ax_block_start ax (ev_data f) = Inr b"
| "carries ax f (ADelta d) \<longleftrightarrow> event_type ax f = ''content_block_delta'' \<and> ax_block_delta ax (ev_data f) = Inr d"
| "carries ax f (AStop i) \<longleftrightarrow> event_type ax f = ''content_block_stop'' \<and> ax_block_stop ax (ev_data f) = Inr i"
| "carries ax f (AMessageDelta d) \<longleftrightarrow> event_type ax f = ''message_delta'' \<and> ax_message_delta ax (ev_data f) = Inr d"
| "carries ax f AMessageStop \<longleftrightarrow> event_type ax f = ''message_stop''"
| "carries ax f APing \<longleftrightarrow> event_type ax f = ''ping''"

fun apply_event :: "anthropic_decoders \<Rightarrow> a_event \<Rightarrow> turn_state \<Rightarrow> turn_state" where
  "apply_event ax (AStart m) s = note_message_start m s"
| "apply_event ax (ABlockStart b) s = note_block_start b s"
| "apply_event ax (ADelta d) s = note_block_delta d s"
| "apply_event ax (AStop i) s = note_block_stop ax i s"
| "apply_event ax (AMessageDelta d) s = note_message_delta d s"
| "apply_event ax AMessageStop s = s\<lparr>trn_seen_message_stop := True\<rparr>"
| "apply_event ax APing s = s"

lemma carries_note: "carries ax f a \<Longrightarrow> note_event ax f s = apply_event ax a s"
  by (cases a) (simp_all add: note_event_def dispatch_stream_event_def Let_def)

lemma carries_fold:
  "list_all2 (carries ax) fs evs \<Longrightarrow> fold (note_event ax) fs s = fold (apply_event ax) evs s"
  by (induction fs evs arbitrary: s rule: list_all2_induct) (simp_all add: carries_note)

lemma fold_skip_ping:
  "fold (apply_event ax) evs s = fold (apply_event ax) (filter (\<lambda>a. a \<noteq> APing) evs) s"
  by (induction evs arbitrary: s) auto

text \<open>How a block may be streamed: its start, deltas that add up to it, its stop.\<close>

definition delta_texts :: "string \<Rightarrow> (anthropic_delta \<Rightarrow> string) \<Rightarrow> anthropic_delta list \<Rightarrow> string" where
  "delta_texts ty f ds = concat (map f (filter (\<lambda>d. ad_type d = ty) ds))"

definition streams_block :: "anthropic_decoders \<Rightarrow> anthropic_block \<Rightarrow> anthropic_block \<times> anthropic_delta list \<Rightarrow> bool" where
  "streams_block ax c p =
     (let (c0, ds) = p; raw = delta_texts ''input_json_delta'' ad_partial_json ds in
      ab_type c0 = ab_type c \<and>
      (if ab_type c = ''text'' then ab_text c0 @ delta_texts ''text_delta'' ad_text ds = ab_text c
       else if is_tool_kind (ab_type c)
         then ab_id c0 = ab_id c \<and> ab_name c0 = ab_name c \<and>
              (if raw = [] then ab_input c0 = ab_input c else ax_object ax raw = Inr (ab_input c))
       else if ab_type c = ''thinking''
         then ab_thinking c0 @ delta_texts ''thinking_delta'' ad_thinking ds = ab_thinking c \<and>
              ab_signature c0 @ delta_texts ''signature_delta'' ad_signature ds = ab_signature c
       else if ab_type c = ''web_search_tool_result''
         then ab_tool_use_id c0 = ab_tool_use_id c \<and> ab_content c0 = ab_content c
       else True))"

definition block_events :: "nat \<Rightarrow> anthropic_block \<times> anthropic_delta list \<Rightarrow> a_event list" where
  "block_events i p =
     ABlockStart \<lparr>abs_index = int i, abs_block = fst p\<rparr>
     # map (\<lambda>d. ADelta \<lparr>abd_index = int i, abd_delta = d\<rparr>) (snd p) @ [AStop (int i)]"

fun body_events :: "nat \<Rightarrow> (anthropic_block \<times> anthropic_delta list) list \<Rightarrow> a_event list" where
  "body_events i [] = []"
| "body_events i (p # ps) = block_events i p @ body_events (Suc i) ps"

definition starts_response :: "oneshot_response \<Rightarrow> anthropic_message_start \<Rightarrow> anthropic_message_delta \<Rightarrow> bool" where
  "starts_response resp m d \<longleftrightarrow>
     ams_id m = os_id resp \<and> ams_role m = os_role resp \<and> ams_model m = os_model resp \<and>
     amd_stop_reason d = os_stop_reason resp \<and>
     (case os_usage resp of
        None \<Rightarrow> ams_usage m = None \<and> amd_usage d = None
      | Some u \<Rightarrow>
          (case (ams_usage m, amd_usage d) of
             (Some v, Some w) \<Rightarrow>
               au_input_tokens v = au_input_tokens u \<and> au_cache_creation v = au_cache_creation u \<and>
               au_cache_read v = au_cache_read u \<and> au_output_tokens w = au_output_tokens u
           | _ \<Rightarrow> False))"

definition streams_response ::
  "anthropic_decoders \<Rightarrow> oneshot_response \<Rightarrow> anthropic_message_start
   \<Rightarrow> (anthropic_block \<times> anthropic_delta list) list \<Rightarrow> anthropic_message_delta \<Rightarrow> a_event list \<Rightarrow> bool"
where
  "streams_response ax resp m ps d evs \<longleftrightarrow>
     starts_response resp m d \<and> list_all2 (streams_block ax) (os_content resp) ps \<and>
     filter (\<lambda>a. a \<noteq> APing) evs = AStart m # body_events 0 ps @ [AMessageDelta d, AMessageStop]"

subsection \<open>One block\<close>

definition delta_block :: "anthropic_delta \<Rightarrow> block_state \<Rightarrow> block_state" where
  "delta_block d b =
     (if ad_type d = ''text_delta'' then b\<lparr>bst_text := bst_text b @ ad_text d\<rparr>
      else if ad_type d = ''thinking_delta'' then b\<lparr>bst_thinking := bst_thinking b @ ad_thinking d\<rparr>
      else if ad_type d = ''signature_delta'' then b\<lparr>bst_signature := bst_signature b @ ad_signature d\<rparr>
      else b)"

definition delta_fragment :: "anthropic_delta \<Rightarrow> string option \<Rightarrow> string option" where
  "delta_fragment d fo =
     (if ad_type d = ''input_json_delta'' then Some ((case fo of None \<Rightarrow> [] | Some x \<Rightarrow> x) @ ad_partial_json d) else fo)"

lemma note_block_delta_at:
  "trn_blocks s i = Some b \<Longrightarrow>
   note_block_delta \<lparr>abd_index = i, abd_delta = d\<rparr> s =
     s\<lparr>trn_blocks := (trn_blocks s)(i \<mapsto> delta_block d b),
       trn_fragments := (trn_fragments s)(i := delta_fragment d (trn_fragments s i))\<rparr>"
  by (auto simp: note_block_delta_def ensure_block_def upd_block_def delta_block_def delta_fragment_def map_get_def
      fun_upd_idem split: option.split)

lemma deltas_fold:
  "trn_blocks s i = Some b \<Longrightarrow>
   fold (apply_event ax) (map (\<lambda>d. ADelta \<lparr>abd_index = i, abd_delta = d\<rparr>) ds) s =
     s\<lparr>trn_blocks := (trn_blocks s)(i \<mapsto> fold delta_block ds b),
       trn_fragments := (trn_fragments s)(i := fold delta_fragment ds (trn_fragments s i))\<rparr>"
proof (induction ds arbitrary: s b)
  case Nil
  then show ?case by (simp add: fun_upd_idem)
next
  case (Cons d ds)
  then show ?case by (simp add: note_block_delta_at cong: if_cong)
qed

lemma delta_block_fields [simp]:
  "bst_kind (fold delta_block ds b) = bst_kind b"
  "bst_tool_id (fold delta_block ds b) = bst_tool_id b" "bst_tool_name (fold delta_block ds b) = bst_tool_name b"
  "bst_tool_input (fold delta_block ds b) = bst_tool_input b"
  "bst_tool_use_id (fold delta_block ds b) = bst_tool_use_id b" "bst_content (fold delta_block ds b) = bst_content b"
  "bst_text (fold delta_block ds b) = bst_text b @ delta_texts ''text_delta'' ad_text ds"
  "bst_thinking (fold delta_block ds b) = bst_thinking b @ delta_texts ''thinking_delta'' ad_thinking ds"
  "bst_signature (fold delta_block ds b) = bst_signature b @ delta_texts ''signature_delta'' ad_signature ds"
  by (induction ds arbitrary: b) (simp_all add: delta_block_def delta_texts_def)

lemma delta_fragment_fold:
  "(case fold delta_fragment ds fo of None \<Rightarrow> [] | Some raw \<Rightarrow> raw) =
     (case fo of None \<Rightarrow> [] | Some raw \<Rightarrow> raw) @ delta_texts ''input_json_delta'' ad_partial_json ds"
  by (induction ds arbitrary: fo) (simp_all add: delta_fragment_def delta_texts_def)

text \<open>What a stop makes of a block.\<close>

definition stopped_block :: "anthropic_decoders \<Rightarrow> block_state \<Rightarrow> string option \<Rightarrow> block_state" where
  "stopped_block ax b fo =
     (case fo of
        None \<Rightarrow> b
      | Some raw \<Rightarrow>
          if is_tool_kind (bst_kind b) \<and> raw \<noteq> []
          then (case ax_object ax raw of Inr parsed \<Rightarrow> b\<lparr>bst_tool_input := parsed\<rparr> | Inl _ \<Rightarrow> b) else b)"

text \<open>Everything of a state but its blocks and open fragments.\<close>

definition turn_core :: "turn_state \<Rightarrow> turn_state" where
  "turn_core s = s\<lparr>trn_blocks := Map.empty, trn_max_index := 0, trn_fragments := Map.empty\<rparr>"

lemma block_stop_core:
  assumes "trn_blocks s i = Some b"
    and "is_tool_kind (bst_kind b) \<Longrightarrow> \<not> isl (ax_object ax raw) \<or> raw = []"
    and "(case trn_fragments s i of None \<Rightarrow> [] | Some r \<Rightarrow> r) = raw"
  shows "turn_core (note_block_stop ax i s) = turn_core s"
    and "trn_blocks (note_block_stop ax i s) = (trn_blocks s)(i \<mapsto> stopped_block ax b (trn_fragments s i))"
    and "trn_max_index (note_block_stop ax i s) = trn_max_index s"
    and "\<And>j. j \<noteq> i \<Longrightarrow> trn_fragments (note_block_stop ax i s) j = trn_fragments s j"
  using assms
  by (auto simp: note_block_stop_def turn_core_def stopped_block_def parse_fragments_def upd_block_def fun_upd_idem
      split: option.splits sum.splits)

lemma tool_kind_other: "is_tool_kind k \<Longrightarrow> k \<noteq> ''text'' \<and> k \<noteq> ''thinking'' \<and> k \<noteq> ''web_search_tool_result''"
  by (auto simp: is_tool_kind_def)

lemma open_block_kind [simp]: "bst_kind (open_block c) = ab_type c"
  by (simp add: open_block_def Let_def empty_block_state_def)

lemma tool_block:
  "is_tool_kind (bst_kind b) \<Longrightarrow> final_block b = empty_block\<lparr>cb_type := bst_kind b, tool_use_id := bst_tool_id b,
     tool_name := bst_tool_name b, tool_input := bst_tool_input b\<rparr>"
  "is_tool_kind (ab_type c) \<Longrightarrow> oneshot_block c = empty_block\<lparr>cb_type := ab_type c, tool_use_id := ab_id c,
     tool_name := ab_name c, tool_input := ab_input c\<rparr>"
  "is_tool_kind (ab_type c) \<Longrightarrow> bst_tool_id (open_block c) = ab_id c"
  "is_tool_kind (ab_type c) \<Longrightarrow> bst_tool_name (open_block c) = ab_name c"
  "is_tool_kind (ab_type c) \<Longrightarrow> bst_tool_input (open_block c) = ab_input c"
  using tool_kind_other [of "bst_kind b"] tool_kind_other [of "ab_type c"]
  by (simp_all add: final_block_def oneshot_block_def open_block_def Let_def is_tool_kind_def)

lemma streams_toolD:
  assumes "streams_block ax c (c0, ds)" and "is_tool_kind (ab_type c)"
  shows "ab_type c0 = ab_type c" and "ab_id c0 = ab_id c" and "ab_name c0 = ab_name c"
    and "if delta_texts ''input_json_delta'' ad_partial_json ds = [] then ab_input c0 = ab_input c
         else ax_object ax (delta_texts ''input_json_delta'' ad_partial_json ds) = Inr (ab_input c)"
  using assms tool_kind_other [OF assms(2)] by (simp_all add: streams_block_def Let_def)

lemma stopped_parses:
  assumes "streams_block ax c (c0, ds)" and "is_tool_kind (ab_type c0)"
  shows "\<not> isl (ax_object ax (delta_texts ''input_json_delta'' ad_partial_json ds))
         \<or> delta_texts ''input_json_delta'' ad_partial_json ds = []"
proof -
  have "ab_type c0 = ab_type c" using assms(1) by (simp add: streams_block_def Let_def)
  with streams_toolD(4) [OF assms(1)] assms(2) show ?thesis by (auto split: if_splits)
qed

lemma stopped_tool:
  assumes p: "streams_block ax c (c0, ds)" and tool: "is_tool_kind (ab_type c)"
  shows "final_block (stopped_block ax (fold delta_block ds (open_block c0)) (fold delta_fragment ds None)) = oneshot_block c"
proof -
  let ?raw = "delta_texts ''input_json_delta'' ad_partial_json ds" and ?b = "fold delta_block ds (open_block c0)"
  note c = streams_toolD [OF p tool]
  have raw: "(case fold delta_fragment ds None of None \<Rightarrow> [] | Some r \<Rightarrow> r) = ?raw"
    using delta_fragment_fold [of ds None] by simp
  have tool0: "is_tool_kind (ab_type c0)" using tool c(1) by simp
  have "stopped_block ax ?b (fold delta_fragment ds None)
      = (if ?raw = [] then ?b else ?b\<lparr>bst_tool_input := ab_input c\<rparr>)"
  proof (cases "fold delta_fragment ds None")
    case None
    with raw show ?thesis by (simp add: stopped_block_def)
  next
    case (Some r)
    with raw c(4) tool0 show ?thesis by (simp add: stopped_block_def)
  qed
  then show ?thesis using c tool tool0 by (auto simp: tool_block)
qed

lemma stopped_plain:
  assumes p: "streams_block ax c (c0, ds)" and plain: "\<not> is_tool_kind (ab_type c)"
  shows "final_block (stopped_block ax (fold delta_block ds (open_block c0)) (fold delta_fragment ds None)) = oneshot_block c"
proof -
  have kind: "ab_type c0 = ab_type c" using p by (simp add: streams_block_def Let_def)
  then have "stopped_block ax (fold delta_block ds (open_block c0)) (fold delta_fragment ds None)
      = fold delta_block ds (open_block c0)"
    using plain by (simp add: stopped_block_def split: option.split)
  moreover have "final_block (fold delta_block ds (open_block c0)) = oneshot_block c"
  proof -
    consider "ab_type c = ''text''" | "ab_type c = ''thinking''" | "ab_type c = ''web_search_tool_result''"
      | "ab_type c \<noteq> ''text''" "ab_type c \<noteq> ''thinking''" "ab_type c \<noteq> ''web_search_tool_result''" by blast
    then show ?thesis
    proof cases
      case 4
      with plain kind show ?thesis by (simp add: final_block_def oneshot_block_def Let_def)
    qed (use p plain kind in \<open>simp_all add: streams_block_def final_block_def oneshot_block_def open_block_def
          empty_block_state_def Let_def is_tool_kind_def\<close>)
  qed
  ultimately show ?thesis by simp
qed

lemma stopped_final:
  "streams_block ax c (c0, ds) \<Longrightarrow>
   final_block (stopped_block ax (fold delta_block ds (open_block c0)) (fold delta_fragment ds None)) = oneshot_block c"
  using stopped_tool stopped_plain by blast

subsection \<open>All the blocks\<close>

text \<open>After the first blocks: they stand at the indices from zero on, and no later index has open
  fragments.\<close>

definition holds_blocks :: "block_state list \<Rightarrow> turn_state \<Rightarrow> bool" where
  "holds_blocks bs s \<longleftrightarrow>
     trn_blocks s = (\<lambda>j. if 0 \<le> j \<and> j < int (length bs) then Some (bs ! nat j) else None) \<and>
     trn_max_index s = (if bs = [] then 0 else int (length bs) - 1) \<and>
     (\<forall>j. int (length bs) \<le> j \<longrightarrow> trn_fragments s j = None)"

lemma holds_content: "holds_blocks bs s \<Longrightarrow> final_content s = map final_block bs"
proof -
  assume h: "holds_blocks bs s"
  have upto: "[0..int n - 1] = map int [0..<n]" for n
    by (induction n) (simp_all add: upto_rec2)
  have "List.map_filter (trn_blocks s) [0..trn_max_index s] = bs"
  proof (cases "bs = []")
    case True
    with h show ?thesis by (simp add: holds_blocks_def List.map_filter_def)
  next
    case False
    then have "List.map_filter (trn_blocks s) [0..trn_max_index s] = map (\<lambda>i. bs ! i) [0..<length bs]"
      using h by (simp add: holds_blocks_def upto List.map_filter_def filter_map o_def)
    then show ?thesis by (simp add: map_nth)
  qed
  then show ?thesis by (simp add: final_content_def)
qed

lemma block_events_holds:
  assumes h: "holds_blocks bs s" and p: "streams_block ax c (c0, ds)"
  shows "\<exists>b. final_block b = oneshot_block c
      \<and> holds_blocks (bs @ [b]) (fold (apply_event ax) (block_events (length bs) (c0, ds)) s)
      \<and> turn_core (fold (apply_event ax) (block_events (length bs) (c0, ds)) s) = turn_core s"
proof -
  let ?i = "int (length bs)" and ?b = "fold delta_block ds (open_block c0)" and ?fo = "fold delta_fragment ds None"
  let ?s1 = "put_block ?i (open_block c0) s"
  let ?s2 = "?s1\<lparr>trn_blocks := (trn_blocks ?s1)(?i \<mapsto> ?b), trn_fragments := (trn_fragments ?s1)(?i := ?fo)\<rparr>"
  have none: "trn_fragments s ?i = None" using h by (simp add: holds_blocks_def)
  have "fold (apply_event ax) (block_events (length bs) (c0, ds)) s = note_block_stop ax ?i ?s2"
    using deltas_fold [of ?s1 ?i "open_block c0" ax ds] none
    by (simp add: block_events_def note_block_start_def put_block_def)
  moreover note stop = block_stop_core [of ?s2 ?i ?b ax "delta_texts ''input_json_delta'' ad_partial_json ds"]
  have facts: "turn_core (note_block_stop ax ?i ?s2) = turn_core ?s2"
      "trn_blocks (note_block_stop ax ?i ?s2) = (trn_blocks ?s2)(?i \<mapsto> stopped_block ax ?b (trn_fragments ?s2 ?i))"
      "trn_max_index (note_block_stop ax ?i ?s2) = trn_max_index ?s2"
      "\<And>j. j \<noteq> ?i \<Longrightarrow> trn_fragments (note_block_stop ax ?i ?s2) j = trn_fragments ?s2 j"
    using stop stopped_parses [OF p] delta_fragment_fold [of ds None] by simp_all
  ultimately have "turn_core (fold (apply_event ax) (block_events (length bs) (c0, ds)) s) = turn_core s"
      and "holds_blocks (bs @ [stopped_block ax ?b ?fo]) (fold (apply_event ax) (block_events (length bs) (c0, ds)) s)"
    using h by (auto simp: turn_core_def put_block_def holds_blocks_def nth_append fun_eq_iff)
  with stopped_final [OF p] show ?thesis by blast
qed

lemma body_events_holds:
  assumes "list_all2 (streams_block ax) cs ps" and "holds_blocks bs s"
  shows "\<exists>bs'. map final_block bs' = map oneshot_block cs
      \<and> holds_blocks (bs @ bs') (fold (apply_event ax) (body_events (length bs) ps) s)
      \<and> turn_core (fold (apply_event ax) (body_events (length bs) ps) s) = turn_core s"
  using assms
proof (induction cs ps arbitrary: bs s rule: list_all2_induct)
  case Nil
  then show ?case by (intro exI [of _ "[]"]) simp
next
  case (Cons c cs p ps)
  obtain c0 ds where p: "p = (c0, ds)" by (cases p)
  let ?s' = "fold (apply_event ax) (block_events (length bs) p) s"
  obtain b where b: "final_block b = oneshot_block c" "holds_blocks (bs @ [b]) ?s'" "turn_core ?s' = turn_core s"
    using block_events_holds [OF Cons.prems, of ax c c0 ds] Cons.hyps(1) p by auto
  from Cons.IH [OF b(2)] obtain bs' where "map final_block bs' = map oneshot_block cs"
      "holds_blocks (bs @ b # bs') (fold (apply_event ax) (body_events (Suc (length bs)) ps) ?s')"
      "turn_core (fold (apply_event ax) (body_events (Suc (length bs)) ps) ?s') = turn_core ?s'"
    by auto
  with b show ?case by (intro exI [of _ "b # bs'"]) simp
qed

subsection \<open>The loop\<close>

lemma stream_loop_run:
  "(\<And>k. ctx k = None) \<Longrightarrow>
   stream_loop ax ctx n r s =
     (case tee_run discard_write max_line r of (es, r', err) \<Rightarrow> Inr (fold (note_event ax) es s, err))"
proof (induction ax ctx n r s rule: stream_loop.induct)
  case (1 ax ctx n r s)
  note ctx = "1.prems"
  obtain r' res where next': "tee_next discard_write max_line r = (r', res)" by force
  show ?case
  proof (cases res)
    case (NextEvent ev)
    have "stream_loop ax ctx n r s = stream_loop ax ctx (Suc n) r' (note_event ax ev s)"
      by (subst stream_loop.simps) (simp add: ctx next' NextEvent)
    moreover obtain es r2 err where "tee_run discard_write max_line r' = (es, r2, err)" by (cases "tee_run discard_write max_line r'")
    ultimately show ?thesis using "1.IH" [OF ctx next' [symmetric] NextEvent ctx]
      by (subst tee_run.simps) (simp add: next' NextEvent)
  next
    case NextEnd
    show ?thesis by (subst stream_loop.simps, subst tee_run.simps) (simp add: ctx next' NextEnd)
  next
    case (NextErr e)
    show ?thesis by (subst stream_loop.simps, subst tee_run.simps) (simp add: ctx next' NextErr)
  qed
qed

text \<open>A cancelled context is the only error of the loop.\<close>

lemma stream_loop_error: "stream_loop ax ctx n r s = Inl e \<Longrightarrow> \<exists>k. ctx k = Some e"
proof (induction ax ctx n r s rule: stream_loop.induct)
  case (1 ax ctx n r s)
  show ?case
  proof (cases "ctx n")
    case None
    obtain r' res where next': "tee_next discard_write max_line r = (r', res)" by force
    show ?thesis
    proof (cases res)
      case (NextEvent ev)
      with "1.prems" None next' have "stream_loop ax ctx (Suc n) r' (note_event ax ev s) = Inl e"
        by (subst (asm) stream_loop.simps) simp
      with "1.IH" [OF None next' [symmetric] NextEvent] show ?thesis by blast
    qed (use "1.prems" None next' in \<open>subst (asm) stream_loop.simps, simp\<close>)+
  next
    case (Some e')
    with "1.prems" show ?thesis by (subst (asm) stream_loop.simps) auto
  qed
qed

lemma run_rendered:
  assumes "\<forall>e\<in>set es. wf_event max_line e"
  shows "\<exists>r. tee_run discard_write max_line (new_tee_reader (render_events es) None ()) = (es, r, None)"
proof -
  let ?r = "new_tee_reader (render_events es) None ()"
  have "scan_all max_line (tr_rest ?r) = (concat (map event_lines es), False)"
    using scan_all_render [OF assms] by (simp add: new_tee_reader_def)
  from tee_run_lines [OF never_fails_discard _ this] sse_fold_events [OF assms] show ?thesis
    by (simp add: new_tee_reader_def)
qed

lemma reduce_rendered:
  assumes "\<forall>e\<in>set frames. wf_event max_line e"
  shows "reduce_stream ax (\<lambda>_. None) (render_events frames) None
       = Inr (finalize (fold (note_event ax) frames new_turn_state))"
  using run_rendered [OF assms] stream_loop_run [of "\<lambda>_. None" ax 0 "new_tee_reader (render_events frames) None ()" new_turn_state]
  by (auto simp: reduce_stream_def)

lemma core_views:
  assumes "turn_core s = turn_core s'"
  shows "trn_id s = trn_id s'" "trn_model s = trn_model s'" "trn_role s = trn_role s'"
    "trn_stop_reason s = trn_stop_reason s'" "trn_usage s = trn_usage s'" "trn_error_type s = trn_error_type s'"
  using arg_cong [OF assms, of trn_id] arg_cong [OF assms, of trn_model] arg_cong [OF assms, of trn_role]
    arg_cong [OF assms, of trn_stop_reason] arg_cong [OF assms, of trn_usage] arg_cong [OF assms, of trn_error_type]
  by (simp_all add: turn_core_def)

lemma message_start_views [simp]:
  "trn_id (note_message_start m s) = ams_id m" "trn_model (note_message_start m s) = ams_model m"
  "trn_role (note_message_start m s) = ams_role m"
  "trn_blocks (note_message_start m s) = trn_blocks s" "trn_max_index (note_message_start m s) = trn_max_index s"
  "trn_fragments (note_message_start m s) = trn_fragments s"
  "trn_stop_reason (note_message_start m s) = trn_stop_reason s"
  "trn_error_type (note_message_start m s) = trn_error_type s"
  by (simp_all add: note_message_start_def Let_def split: option.split)

lemma new_turn_views [simp]:
  "trn_stop_reason new_turn_state = []" "trn_error_type new_turn_state = []" "trn_usage new_turn_state = zero_usage"
  by (simp_all add: new_turn_state_def)

text \<open>The response of a complete stream.\<close>

lemma streamed_response:
  assumes st: "streams_response ax resp m ps d evs"
  defines "r \<equiv> finalize (fold (apply_event ax) evs new_turn_state)"
  shows "rs_model r = os_model resp" "rs_done r" "rs_stop_reason r = os_stop_reason resp"
    "rs_message r = \<lparr>msg_role = default_string (os_role resp) ''assistant'',
                     msg_content = map oneshot_block (os_content resp)\<rparr>"
    "rs_usage r = Some (oneshot_usage (os_usage resp))"
proof -
  let ?s0 = "note_message_start m new_turn_state"
  let ?s1 = "fold (apply_event ax) (body_events 0 ps) ?s0"
  let ?s2 = "(note_message_delta d ?s1)\<lparr>trn_seen_message_stop := True\<rparr>"
  from st have start: "starts_response resp m d" and blocks: "list_all2 (streams_block ax) (os_content resp) ps"
    and evs: "filter (\<lambda>a. a \<noteq> APing) evs = AStart m # body_events 0 ps @ [AMessageDelta d, AMessageStop]"
    by (simp_all add: streams_response_def)
  have "holds_blocks [] ?s0" by (auto simp: holds_blocks_def new_turn_state_def fun_eq_iff)
  from body_events_holds [OF blocks this] obtain bs where bs: "map final_block bs = map oneshot_block (os_content resp)"
      "holds_blocks bs ?s1" "turn_core ?s1 = turn_core ?s0"
    by auto
  note core = core_views [OF bs(3)]
  have fin: "fold (apply_event ax) evs new_turn_state = ?s2"
    by (subst fold_skip_ping) (simp add: evs)
  have "holds_blocks bs ?s2" using bs(2) by (simp add: holds_blocks_def note_message_delta_def)
  from holds_content [OF this] bs(1) have content: "final_content ?s2 = map oneshot_block (os_content resp)" by simp
  have views: "trn_model ?s2 = ams_model m" "trn_role ?s2 = ams_role m"
    by (simp_all add: note_message_delta_def core)
  show "rs_model r = os_model resp" "rs_done r" "rs_stop_reason r = os_stop_reason resp"
    using start core by (simp_all add: r_def fin finalize_def unfinished_def starts_response_def note_message_delta_def)
  show "rs_message r = \<lparr>msg_role = default_string (os_role resp) ''assistant'',
                     msg_content = map oneshot_block (os_content resp)\<rparr>"
    using start content views by (simp add: r_def fin finalize_def starts_response_def)
  show "rs_usage r = Some (oneshot_usage (os_usage resp))"
    using start core(5)
    by (auto simp: r_def fin finalize_def starts_response_def note_message_delta_def note_message_start_def
        oneshot_usage_def zero_usage_def Let_def split: option.splits)
qed

definition marked :: "chat_response \<Rightarrow> bool" where
  "marked r \<longleftrightarrow> list_ex (\<lambda>kv. fst kv \<in> {''incomplete'', ''error''}) (rs_extra r)"

subsection \<open>Properties\<close>

text \<open>C12: a streamed answer and its one-shot body reduce to the same turn. However the text, thinking
  and tool input of the blocks are cut into deltas, and wherever pings fall, reading the stream gives
  the model, message, stop reason and usage that the one-shot body gives, complete in both cases; so
  the two captures hash alike.\<close>

theorem stream_equals_oneshot:
  assumes "ax_oneshot ax body = Inr resp"
    and "\<forall>f\<in>set frames. wf_event max_line f"
    and "list_all2 (carries ax) frames evs"
    and "streams_response ax resp m ps d evs"
  shows "\<exists>r1 r2. anthropic_reduce ax (\<lambda>_. None) (Some (render_events frames)) ''text/event-stream'' = Inr r1
     \<and> anthropic_reduce ax (\<lambda>_. None) (Some body) ''application/json'' = Inr r2
     \<and> rs_model r1 = rs_model r2 \<and> rs_message r1 = rs_message r2 \<and> rs_stop_reason r1 = rs_stop_reason r2
     \<and> rs_usage r1 = rs_usage r2 \<and> rs_done r1 \<and> rs_done r2"
proof -
  have stream: "streaming_type ''text/event-stream''" and json: "\<not> streaming_type ''application/json''"
    by code_simp+
  note r = streamed_response [OF assms(4)] and folded = carries_fold [OF assms(3)]
  show ?thesis
    using assms(1) r by (simp add: anthropic_reduce_def stream json reduce_rendered [OF assms(2)] folded reduce_oneshot_def)
qed

text \<open>A turn with a text in two deltas around a ping, and a tool use whose input comes in one fragment.\<close>

definition sample_usage :: anthropic_usage where
  "sample_usage = \<lparr>au_input_tokens = 3, au_output_tokens = 5, au_cache_creation = 1, au_cache_read = 2\<rparr>"

definition sample_start :: anthropic_message_start where
  "sample_start = \<lparr>ams_id = ''i'', ams_role = ''assistant'', ams_model = ''claude'', ams_usage = Some sample_usage\<rparr>"

definition text_of :: "string \<Rightarrow> anthropic_block" where
  "text_of t = \<lparr>ab_type = ''text'', ab_text = t, ab_id = [], ab_name = [], ab_input = [], ab_thinking = [],
     ab_signature = [], ab_tool_use_id = [], ab_content = []\<rparr>"

definition tool_of :: "jobj \<Rightarrow> anthropic_block" where
  "tool_of i = \<lparr>ab_type = ''tool_use'', ab_text = [], ab_id = ''t'', ab_name = ''Bash'', ab_input = i, ab_thinking = [],
     ab_signature = [], ab_tool_use_id = [], ab_content = []\<rparr>"

definition delta_of :: "string \<Rightarrow> string \<Rightarrow> string \<Rightarrow> anthropic_delta" where
  "delta_of ty t j = \<lparr>ad_type = ty, ad_text = t, ad_partial_json = j, ad_thinking = [], ad_signature = []\<rparr>"

definition sample_ps :: "(anthropic_block \<times> anthropic_delta list) list" where
  "sample_ps = [(text_of [], [delta_of ''text_delta'' ''h'' [], delta_of ''text_delta'' ''i'' []]),
                (tool_of [], [delta_of ''input_json_delta'' [] ''j''])]"

definition sample_end :: anthropic_message_delta where
  "sample_end = \<lparr>amd_stop_reason = ''tool_use'', amd_stop_sequence = None, amd_usage = Some sample_usage\<rparr>"

definition sample_oneshot :: oneshot_response where
  "sample_oneshot = \<lparr>os_id = ''i'', os_type = ''message'', os_role = ''assistant'',
     os_content = [text_of ''hi'', tool_of [(''a'', JNull)]], os_model = ''claude'', os_stop_reason = ''tool_use'',
     os_stop_sequence = None, os_usage = Some sample_usage\<rparr>"

definition stream_events :: "a_event list" where
  "stream_events = [AStart sample_start, ABlockStart \<lparr>abs_index = 0, abs_block = text_of []\<rparr>,
     ADelta \<lparr>abd_index = 0, abd_delta = delta_of ''text_delta'' ''h'' []\<rparr>, APing,
     ADelta \<lparr>abd_index = 0, abd_delta = delta_of ''text_delta'' ''i'' []\<rparr>, AStop 0,
     ABlockStart \<lparr>abs_index = 1, abs_block = tool_of []\<rparr>,
     ADelta \<lparr>abd_index = 1, abd_delta = delta_of ''input_json_delta'' [] ''j''\<rparr>, AStop 1,
     AMessageDelta sample_end, AMessageStop]"

definition sample_decoders :: anthropic_decoders where
  "sample_decoders = \<lparr>ax_type = (\<lambda>_. None), ax_message_start = (\<lambda>_. Inr sample_start),
     ax_block_start = (\<lambda>d. Inr (if d = ''0'' then \<lparr>abs_index = 0, abs_block = text_of []\<rparr>
                               else \<lparr>abs_index = 1, abs_block = tool_of []\<rparr>)),
     ax_block_delta = (\<lambda>d. Inr (if d = ''h'' then \<lparr>abd_index = 0, abd_delta = delta_of ''text_delta'' ''h'' []\<rparr>
                               else if d = ''i'' then \<lparr>abd_index = 0, abd_delta = delta_of ''text_delta'' ''i'' []\<rparr>
                               else \<lparr>abd_index = 1, abd_delta = delta_of ''input_json_delta'' [] ''j''\<rparr>)),
     ax_block_stop = (\<lambda>d. Inr (if d = ''0'' then 0 else 1)), ax_message_delta = (\<lambda>_. Inr sample_end),
     ax_error = (\<lambda>_. Inl []), ax_object = (\<lambda>_. Inr [(''a'', JNull)]), ax_oneshot = (\<lambda>_. Inr sample_oneshot)\<rparr>"

definition sample_frames :: "sse_event list" where
  "sample_frames = map (\<lambda>(t, d). \<lparr>ev_type = t, ev_data = d, ev_id = []\<rparr>)
     [(''message_start'', ''m''), (''content_block_start'', ''0''), (''content_block_delta'', ''h''), (''ping'', ''p''),
      (''content_block_delta'', ''i''), (''content_block_stop'', ''0''), (''content_block_start'', ''1''),
      (''content_block_delta'', ''j''), (''content_block_stop'', ''1''), (''message_delta'', ''e''), (''message_stop'', ''z'')]"

lemma stream_equals_oneshot_witness:
  "\<exists>r1 r2. anthropic_reduce sample_decoders (\<lambda>_. None) (Some (render_events sample_frames)) ''text/event-stream'' = Inr r1
     \<and> anthropic_reduce sample_decoders (\<lambda>_. None) (Some ''body'') ''application/json'' = Inr r2
     \<and> rs_model r1 = rs_model r2 \<and> rs_message r1 = rs_message r2 \<and> rs_stop_reason r1 = rs_stop_reason r2
     \<and> rs_usage r1 = rs_usage r2 \<and> rs_done r1 \<and> rs_done r2"
proof (rule stream_equals_oneshot)
  show "ax_oneshot sample_decoders ''body'' = Inr sample_oneshot" by (simp add: sample_decoders_def)
  show "\<forall>f\<in>set sample_frames. wf_event max_line f"
    by (simp add: sample_frames_def wf_event_def event_lines_def plain_line_def max_line_def
        go_split.simps data_line_def type_line_def id_line_def has_prefix_def)
  show "list_all2 (carries sample_decoders) sample_frames stream_events" by code_simp
  show "streams_response sample_decoders sample_oneshot sample_start sample_ps sample_end stream_events" by code_simp
qed

text \<open>A partial capture is kept and marked. Reducing a stream fails only when its context does;
  otherwise the answer is complete or carries an incomplete or error mark, and its total of tokens is
  the sum of prompt and completion.\<close>

theorem partial_stream_marked:
  "case reduce_stream ax ctx body src_err of
     Inl e \<Rightarrow> (\<exists>n. ctx n = Some e)
   | Inr r \<Rightarrow> (rs_done r \<or> marked r)
       \<and> (case rs_usage r of None \<Rightarrow> False
          | Some u \<Rightarrow> total_tokens u = prompt_tokens u + completion_tokens u)"
proof -
  have fin: "rs_done (finalize s) \<or> marked (finalize s)" for s
    by (auto simp: finalize_def final_extra_def unfinished_def marked_def split: option.split)
  have fin_err: "rs_done r \<or> marked r \<Longrightarrow> rs_done (r\<lparr>rs_extra := rs_extra r @ xs\<rparr>) \<or> marked (r\<lparr>rs_extra := rs_extra r @ xs\<rparr>)"
    for r :: chat_response and xs by (auto simp: marked_def)
  show ?thesis
  proof (cases "stream_loop ax ctx 0 (new_tee_reader body src_err ()) new_turn_state")
    case (Inl e)
    with stream_loop_error [OF Inl] show ?thesis by (simp add: reduce_stream_def)
  next
    case (Inr x)
    obtain s err where x: "x = (s, err)" by (cases x)
    show ?thesis
      using fin [of s] fin_err [OF fin [of s]]
      by (cases err) (simp_all add: reduce_stream_def Inr x, simp_all add: finalize_def)
  qed
qed

end
