(* ===== verification/ResponsesReducer.thy ===== *)
theory ResponsesReducer
  imports AnthropicFacts
begin

text \<open>
  The OpenAI Responses reducer (\<open>pkg/capture/openai_responses.go\<close>): the terminal event of a stream
  carries the whole response and is mapped like a one-shot body; completed items and text deltas are
  kept for streams that end early. A body without a content type is sniffed.

  Decoding JSON is a parameter, as in \<open>AnthropicReducer\<close>; creation times are not part of
  \<open>chat_response\<close>.
\<close>

subsection \<open>Wire shapes\<close>

record responses_usage =
  ru_input_tokens :: int
  ru_output_tokens :: int
  ru_total_tokens :: int
  ru_cached_tokens :: "int option"

record responses_object =
  ro_id :: string
  ro_object :: string
  ro_status :: string
  ro_model :: string
  ro_output :: "string list"
  ro_usage :: "responses_usage option"
  ro_incomplete_reason :: "string option"

record stream_envelope =
  se_type :: string
  se_response :: "responses_object option"
  se_delta :: string
  se_item :: string

record output_part =
  op_type :: string
  op_text :: string
  op_refusal :: string

record responses_output_item =
  oi_type :: string
  oi_content :: "output_part list"
  oi_call_id :: string
  oi_name :: string
  oi_arguments :: string
  oi_summary :: "string list" \<comment> \<open>the texts of the summary parts\<close>
  oi_encrypted_content :: string

record responses_decoders =
  ox_object :: "string \<Rightarrow> string + responses_object"
  ox_envelope :: "string \<Rightarrow> stream_envelope option"
  ox_item :: "string \<Rightarrow> responses_output_item option"
  ox_arguments :: "string \<Rightarrow> jobj option"

subsection \<open>Output items as content blocks\<close>

definition message_part :: "output_part \<Rightarrow> content_block" where
  "message_part p =
     (if op_type p = ''output_text'' then empty_block\<lparr>cb_type := ''text'', cb_text := op_text p\<rparr>
      else if op_type p = ''refusal'' then empty_block\<lparr>cb_type := ''refusal'', cb_text := op_refusal p\<rparr>
      else empty_block\<lparr>cb_type := op_type p, cb_text := op_text p\<rparr>)"

definition function_call_block :: "responses_decoders \<Rightarrow> string \<Rightarrow> responses_output_item \<Rightarrow> content_block" where
  "function_call_block ox raw item =
     (let cb = empty_block\<lparr>cb_type := ''tool_use'', tool_use_id := oi_call_id item, tool_name := oi_name item\<rparr> in
      if oi_arguments item = [] then cb
      else case ox_arguments ox (oi_arguments item) of
             Some input \<Rightarrow> cb\<lparr>tool_input := input\<rparr>
           | None \<Rightarrow> cb\<lparr>raw_content := raw\<rparr>)"

definition reasoning_text :: "string list \<Rightarrow> string" where
  "reasoning_text parts = fold (\<lambda>t b. (if b \<noteq> [] \<and> t \<noteq> [] then b @ [LF] else b) @ t) parts []"

definition item_blocks :: "responses_decoders \<Rightarrow> string \<Rightarrow> content_block list" where
  "item_blocks ox raw =
     (case ox_item ox raw of
        None \<Rightarrow> [empty_block\<lparr>cb_type := ''unparsed'', raw_content := raw\<rparr>]
      | Some item \<Rightarrow>
          if oi_type item = ''message'' then map message_part (oi_content item)
          else if oi_type item = ''function_call'' then [function_call_block ox raw item]
          else if oi_type item = ''reasoning''
            then [empty_block\<lparr>cb_type := ''thinking'', thinking := reasoning_text (oi_summary item),
                              thinking_signature := oi_encrypted_content item\<rparr>]
          else [empty_block\<lparr>cb_type := oi_type item, raw_content := raw\<rparr>])"

definition responses_output_content :: "responses_decoders \<Rightarrow> string list \<Rightarrow> content_block list" where
  "responses_output_content ox output = concat (map (item_blocks ox) output)"

definition responses_stop_reason :: "responses_object \<Rightarrow> string" where
  "responses_stop_reason resp =
     (if ro_status resp = ''completed'' then ''stop''
      else if ro_status resp = ''incomplete''
        then (case ro_incomplete_reason resp of
                Some reason \<Rightarrow> if reason \<noteq> [] then reason else ''incomplete''
              | None \<Rightarrow> ''incomplete'')
      else ro_status resp)"

definition responses_usage_of :: "responses_usage \<Rightarrow> usage" where
  "responses_usage_of u = zero_usage
     \<lparr>prompt_tokens := ru_input_tokens u, completion_tokens := ru_output_tokens u,
      total_tokens := ru_total_tokens u,
      cache_read_input_tokens := (case ru_cached_tokens u of None \<Rightarrow> 0 | Some c \<Rightarrow> c)\<rparr>"

definition responses_object_to_chat :: "responses_decoders \<Rightarrow> responses_object \<Rightarrow> chat_response" where
  "responses_object_to_chat ox resp =
     \<lparr>rs_model = ro_model resp,
      rs_message = \<lparr>msg_role = ''assistant'', msg_content = responses_output_content ox (ro_output resp)\<rparr>,
      rs_done = True, rs_stop_reason = responses_stop_reason resp,
      rs_usage = map_option responses_usage_of (ro_usage resp),
      rs_extra = [(''id'', JStr (ro_id resp)), (''object'', JStr (ro_object resp)), (''status'', JStr (ro_status resp))]\<rparr>"

definition partial_response ::
  "responses_decoders \<Rightarrow> responses_object option \<Rightarrow> string list \<Rightarrow> string \<Rightarrow> string \<Rightarrow> chat_response"
where
  "partial_response ox created items txt reason =
     (let content = responses_output_content ox items
      in \<lparr>rs_model = (case created of None \<Rightarrow> [] | Some c \<Rightarrow> ro_model c),
          rs_message = \<lparr>msg_role = ''assistant'',
                        msg_content = (if content = [] \<and> txt \<noteq> []
                                       then [empty_block\<lparr>cb_type := ''text'', cb_text := txt\<rparr>] else content)\<rparr>,
          rs_done = False, rs_stop_reason = [], rs_usage = None,
          rs_extra = [(''partial'', JBool True), (''reducer_error'', JStr reason)]\<rparr>)"

subsection \<open>The loop\<close>

record responses_state =
  rst_items :: "string list"
  rst_text :: string
  rst_created :: "responses_object option"

definition terminal_type :: "string \<Rightarrow> bool" where
  "terminal_type ty \<longleftrightarrow> ty \<in> {''response.completed'', ''response.incomplete'', ''response.failed''}"

definition note_envelope :: "stream_envelope \<Rightarrow> responses_state \<Rightarrow> responses_state" where
  "note_envelope env s =
     (if se_type env = ''response.created'' then s\<lparr>rst_created := se_response env\<rparr>
      else if se_type env = ''response.output_item.done''
        then (if se_item env \<noteq> [] then s\<lparr>rst_items := rst_items s @ [se_item env]\<rparr> else s)
      else if se_type env = ''response.output_text.delta'' then s\<lparr>rst_text := rst_text s @ se_delta env\<rparr>
      else s)"

definition finish_partial :: "responses_decoders \<Rightarrow> responses_state \<Rightarrow> string \<Rightarrow> chat_response" where
  "finish_partial ox s reason = partial_response ox (rst_created s) (rst_items s) (rst_text s) reason"

definition finish_terminal :: "responses_decoders \<Rightarrow> responses_state \<Rightarrow> stream_envelope \<Rightarrow> chat_response" where
  "finish_terminal ox s env =
     (case se_response env of
        None \<Rightarrow> finish_partial ox s (''terminal event '' @ se_type env @ '' carried no response object'')
      | Some resp \<Rightarrow> responses_object_to_chat ox
          (if ro_output resp = [] then resp\<lparr>ro_output := rst_items s\<rparr> else resp))"

text \<open>What one frame does: an answer, or the state to go on with.\<close>

definition responses_event :: "responses_decoders \<Rightarrow> sse_event \<Rightarrow> responses_state \<Rightarrow> chat_response + responses_state" where
  "responses_event ox ev s =
     (case ox_envelope ox (ev_data ev) of
        None \<Rightarrow> Inr s
      | Some env \<Rightarrow> if terminal_type (se_type env) then Inl (finish_terminal ox s env) else Inr (note_envelope env s))"

definition new_responses_state :: responses_state where
  "new_responses_state = \<lparr>rst_items = [], rst_text = [], rst_created = None\<rparr>"

function responses_loop ::
  "responses_decoders \<Rightarrow> (nat \<Rightarrow> string option) \<Rightarrow> nat \<Rightarrow> unit tee_reader \<Rightarrow> responses_state
   \<Rightarrow> string + chat_response"
where
  "responses_loop ox ctx n r s =
     (case ctx n of
        Some e \<Rightarrow> Inl e
      | None \<Rightarrow>
          (case tee_next discard_write max_line r of
             (r', NextErr e) \<Rightarrow> Inr (finish_partial ox s e)
           | (r', NextEnd) \<Rightarrow> Inr (finish_partial ox s ''stream ended before terminal response event'')
           | (r', NextEvent ev) \<Rightarrow>
               (case responses_event ox ev s of
                  Inl answer \<Rightarrow> Inr answer
                | Inr s' \<Rightarrow> responses_loop ox ctx (Suc n) r' s')))"
  by pat_completeness auto
termination
  by (relation "measure (\<lambda>(ox, ctx, n, r, s). reader_measure r)")
    (auto dest!: sym [of "tee_next _ _ _"] tee_next_event_decreases sym [of "(_, _)"])

declare responses_loop.simps [simp del]

definition responses_stream :: "responses_decoders \<Rightarrow> (nat \<Rightarrow> string option) \<Rightarrow> string \<Rightarrow> string + chat_response" where
  "responses_stream ox ctx body = responses_loop ox ctx 0 (new_tee_reader body None ()) new_responses_state"

definition responses_oneshot :: "responses_decoders \<Rightarrow> string \<Rightarrow> string + chat_response" where
  "responses_oneshot ox body =
     and_then (wrap_err (\<lambda>e. ''openai responses reducer: parse oneshot body: '' @ e) (ox_object ox body)) (\<lambda>resp.
       if ro_object resp \<noteq> ''response''
       then Inl (''openai responses reducer: unexpected object '' @ ro_object resp)
       else Inr (responses_object_to_chat ox resp))"

definition sse_sniff_len :: nat where
  "sse_sniff_len = 16"

definition looks_like_sse :: "string \<Rightarrow> bool" where
  "looks_like_sse start =
     (let trimmed = dropWhile (\<lambda>c. c \<in> {SP, TAB, CR, LF}) start
      in has_prefix trimmed ''event:'' \<or> has_prefix trimmed ''data:'')"

definition openai_reduce ::
  "responses_decoders \<Rightarrow> (nat \<Rightarrow> string option) \<Rightarrow> string option \<Rightarrow> string \<Rightarrow> string + chat_response"
where
  "openai_reduce ox ctx body content_type =
     (case body of
        None \<Rightarrow> Inl ''openai responses reducer: nil response body''
      | Some b \<Rightarrow>
          if streaming_type content_type then responses_stream ox ctx b
          else if go_contains (go_to_lower content_type) ''json'' then responses_oneshot ox b
          else if looks_like_sse (take sse_sniff_len b) then responses_stream ox ctx b
          else responses_oneshot ox b)"

subsection \<open>Facts\<close>

fun responses_run :: "responses_decoders \<Rightarrow> sse_event list \<Rightarrow> string option \<Rightarrow> responses_state \<Rightarrow> chat_response" where
  "responses_run ox [] err s = finish_partial ox s
     (case err of None \<Rightarrow> ''stream ended before terminal response event'' | Some e \<Rightarrow> e)"
| "responses_run ox (ev # evs) err s =
     (case responses_event ox ev s of Inl answer \<Rightarrow> answer | Inr s' \<Rightarrow> responses_run ox evs err s')"

lemma responses_loop_run:
  "(\<And>k. ctx k = None) \<Longrightarrow>
   responses_loop ox ctx n r s =
     (case tee_run discard_write max_line r of (es, r', err) \<Rightarrow> Inr (responses_run ox es err s))"
proof (induction ox ctx n r s rule: responses_loop.induct)
  case (1 ox ctx n r s)
  note ctx = "1.prems"
  obtain r' res where next': "tee_next discard_write max_line r = (r', res)" by force
  show ?case
  proof (cases res)
    case (NextEvent ev)
    obtain es r2 err where run: "tee_run discard_write max_line r' = (es, r2, err)"
      by (cases "tee_run discard_write max_line r'")
    show ?thesis
    proof (cases "responses_event ox ev s")
      case (Inl a)
      show ?thesis by (subst responses_loop.simps, subst tee_run.simps) (simp add: ctx next' NextEvent Inl run)
    next
      case (Inr s')
      have "responses_loop ox ctx n r s = responses_loop ox ctx (Suc n) r' s'"
        by (subst responses_loop.simps) (simp add: ctx next' NextEvent Inr)
      also have "\<dots> = Inr (responses_run ox es err s')"
        using "1.IH" [OF ctx next' [symmetric] NextEvent Inr ctx] unfolding run prod.case .
      finally show ?thesis by (subst tee_run.simps) (simp add: next' NextEvent Inr run)
    qed
  next
    case NextEnd
    show ?thesis by (subst responses_loop.simps, subst tee_run.simps) (simp add: ctx next' NextEnd)
  next
    case (NextErr e)
    show ?thesis by (subst responses_loop.simps, subst tee_run.simps) (simp add: ctx next' NextErr)
  qed
qed

lemma stream_rendered:
  assumes "\<forall>f\<in>set frames. wf_event max_line f"
  shows "responses_stream ox (\<lambda>_. None) (render_events frames) = Inr (responses_run ox frames None new_responses_state)"
  using run_rendered [OF assms]
    responses_loop_run [of "\<lambda>_. None" ox 0 "new_tee_reader (render_events frames) None ()" new_responses_state]
  by (auto simp: responses_stream_def)

definition non_terminal :: "responses_decoders \<Rightarrow> sse_event \<Rightarrow> bool" where
  "non_terminal ox f \<longleftrightarrow>
     (case ox_envelope ox (ev_data f) of None \<Rightarrow> True | Some env \<Rightarrow> \<not> terminal_type (se_type env))"

definition frame_items :: "responses_decoders \<Rightarrow> sse_event \<Rightarrow> string list" where
  "frame_items ox f =
     (case ox_envelope ox (ev_data f) of
        None \<Rightarrow> []
      | Some env \<Rightarrow> if se_type env = ''response.output_item.done'' \<and> se_item env \<noteq> [] then [se_item env] else [])"

lemma run_prefix:
  "list_all (non_terminal ox) pre \<Longrightarrow>
   \<exists>s'. responses_run ox (pre @ fs) err s = responses_run ox fs err s'
      \<and> rst_items s' = rst_items s @ concat (map (frame_items ox) pre)"
proof (induction pre arbitrary: s)
  case (Cons f pre)
  show ?case
  proof (cases "ox_envelope ox (ev_data f)")
    case None
    then have "responses_event ox f s = Inr s" by (simp add: responses_event_def)
    with Cons show ?thesis by (simp add: frame_items_def None)
  next
    case (Some env)
    let ?s = "note_envelope env s"
    have "responses_event ox f s = Inr ?s" using Cons.prems by (simp add: responses_event_def Some non_terminal_def)
    moreover have "rst_items ?s = rst_items s @ frame_items ox f" by (simp add: note_envelope_def frame_items_def Some)
    moreover obtain s' where "responses_run ox (pre @ fs) err ?s = responses_run ox fs err s'"
        "rst_items s' = rst_items ?s @ concat (map (frame_items ox) pre)"
      using Cons.IH [of ?s] Cons.prems by auto
    ultimately show ?thesis by (intro exI [of _ s']) simp
  qed
qed auto

lemma run_terminal:
  assumes "ox_envelope ox (ev_data f) = Some env" "terminal_type (se_type env)" "se_response env = Some resp"
  shows "responses_run ox (f # post) err s = responses_object_to_chat ox
     (if ro_output resp = [] then resp\<lparr>ro_output := rst_items s\<rparr> else resp)"
  using assms by (simp add: responses_event_def finish_terminal_def)

lemma run_open:
  "list_all (non_terminal ox) fs \<Longrightarrow> \<exists>s' e. responses_run ox fs err s = finish_partial ox s' e
      \<and> rst_items s' = rst_items s @ concat (map (frame_items ox) fs)"
  using run_prefix [of ox fs "[]" err s] by auto

text \<open>A frame that opens with an event line and a colon needs no content type.\<close>

lemma rendered_start:
  "frames \<noteq> [] \<Longrightarrow> ev_type (hd frames) \<noteq> [] \<Longrightarrow> \<exists>rest. render_events frames = ''event: '' @ rest"
  by (cases frames) (simp_all add: render_events_def event_lines_def type_line_def)

lemma event_start_sniffed: "looks_like_sse (take sse_sniff_len (''event: '' @ rest))"
  by (simp add: looks_like_sse_def sse_sniff_len_def has_prefix_def)

subsection \<open>Properties\<close>

text \<open>The terminal event decides. Whatever frames come before it that are not terminal, malformed
  ones included, and whatever follows, a stream whose terminal event carries the response object
  reduces to that object, with the completed items of the stream in place of an empty output, as the
  backend that echoes nothing sends it; an object with output is reduced as its one-shot body is.\<close>

theorem terminal_event_decides:
  assumes "\<forall>f\<in>set (pre @ t # post). wf_event max_line f"
    and "list_all (non_terminal ox) pre"
    and "ox_envelope ox (ev_data t) = Some env" "terminal_type (se_type env)" "se_response env = Some resp"
    and "ox_object ox body = Inr resp" "ro_object resp = ''response''"
  shows "openai_reduce ox (\<lambda>_. None) (Some (render_events (pre @ t # post))) ''text/event-stream''
      = Inr (responses_object_to_chat ox
          (if ro_output resp = [] then resp\<lparr>ro_output := concat (map (frame_items ox) pre)\<rparr> else resp))
   \<and> openai_reduce ox (\<lambda>_. None) (Some body) ''application/json'' = Inr (responses_object_to_chat ox resp)"
proof -
  have ct: "streaming_type ''text/event-stream''" "\<not> streaming_type ''application/json''"
      "go_contains (go_to_lower ''application/json'') ''json''"
    by code_simp+
  obtain s' where "responses_run ox (pre @ t # post) None new_responses_state = responses_run ox (t # post) None s'"
      "rst_items s' = concat (map (frame_items ox) pre)"
    using run_prefix [OF assms(2), of "t # post" None new_responses_state] by (auto simp: new_responses_state_def)
  then show ?thesis
    using assms(6,7) by (simp add: openai_reduce_def ct stream_rendered [OF assms(1)] run_terminal [OF assms(3-5)]
        responses_oneshot_def del: responses_run.simps)
qed

definition sample_responses :: responses_object where
  "sample_responses = \<lparr>ro_id = ''r'', ro_object = ''response'', ro_status = ''completed'', ro_model = ''gpt'',
     ro_output = [], ro_usage = None, ro_incomplete_reason = None\<rparr>"

definition sample_envelope :: "string \<Rightarrow> stream_envelope" where
  "sample_envelope ty = \<lparr>se_type = ty, se_response = (if terminal_type ty then Some sample_responses else None),
     se_delta = [], se_item = ''item''\<rparr>"

text \<open>The data of a frame is its type; the item is a message of one part.\<close>

definition sample_rx :: responses_decoders where
  "sample_rx = \<lparr>ox_object = (\<lambda>_. Inr sample_responses), ox_envelope = (\<lambda>d. Some (sample_envelope d)),
     ox_item = (\<lambda>_. Some \<lparr>oi_type = ''message'',
        oi_content = [\<lparr>op_type = ''output_text'', op_text = ''hi'', op_refusal = []\<rparr>], oi_call_id = [], oi_name = [],
        oi_arguments = [], oi_summary = [], oi_encrypted_content = []\<rparr>), ox_arguments = (\<lambda>_. None)\<rparr>"

definition typed_frame :: "string \<Rightarrow> sse_event" where
  "typed_frame ty = \<lparr>ev_type = ty, ev_data = ty, ev_id = []\<rparr>"

lemma terminal_event_decides_witness:
  "openai_reduce sample_rx (\<lambda>_. None)
       (Some (render_events ([typed_frame ''response.output_item.done''] @ typed_frame ''response.completed'' # []))) ''text/event-stream''
      = Inr (responses_object_to_chat sample_rx
          (if ro_output sample_responses = []
           then sample_responses\<lparr>ro_output := concat (map (frame_items sample_rx) [typed_frame ''response.output_item.done''])\<rparr>
           else sample_responses))
   \<and> openai_reduce sample_rx (\<lambda>_. None) (Some ''body'') ''application/json'' = Inr (responses_object_to_chat sample_rx sample_responses)"
proof (rule terminal_event_decides)
  show "\<forall>f\<in>set ([typed_frame ''response.output_item.done''] @ typed_frame ''response.completed'' # []). wf_event max_line f"
    by (simp add: typed_frame_def wf_event_def event_lines_def plain_line_def max_line_def
        go_split.simps data_line_def type_line_def id_line_def has_prefix_def)
  show "ox_envelope sample_rx (ev_data (typed_frame ''response.completed'')) = Some (sample_envelope ''response.completed'')"
    by (simp add: sample_rx_def typed_frame_def)
qed (simp_all add: sample_rx_def non_terminal_def sample_envelope_def terminal_type_def typed_frame_def sample_responses_def)

text \<open>A stream that ends before its terminal event keeps its completed items and is marked
  partial, never complete; and a stream whose first frame names its event is recognised without a
  content type.\<close>

theorem truncated_responses_stream:
  assumes "\<forall>f\<in>set frames. wf_event max_line f" and "list_all (non_terminal ox) frames"
    and "frames \<noteq> []" "ev_type (hd frames) \<noteq> []"
  shows "case openai_reduce ox (\<lambda>_. None) (Some (render_events frames)) [] of
     Inl _ \<Rightarrow> False
   | Inr r \<Rightarrow> \<not> rs_done r \<and> map_of (rs_extra r) ''partial'' = Some (JBool True)
       \<and> take (length (responses_output_content ox (concat (map (frame_items ox) frames)))) (msg_content (rs_message r))
           = responses_output_content ox (concat (map (frame_items ox) frames))"
proof -
  have empty: "\<not> streaming_type []" "\<not> go_contains (go_to_lower []) ''json''" by code_simp+
  obtain rest where rest: "render_events frames = ''event: '' @ rest" using rendered_start [OF assms(3,4)] by blast
  obtain s' e where run: "responses_run ox frames None new_responses_state = finish_partial ox s' e"
      "rst_items s' = concat (map (frame_items ox) frames)"
    using run_open [OF assms(2), of None new_responses_state] by (auto simp: new_responses_state_def)
  have "openai_reduce ox (\<lambda>_. None) (Some (render_events frames)) [] = Inr (finish_partial ox s' e)"
    using stream_rendered [OF assms(1), of ox] event_start_sniffed [of rest] run(1)
    by (simp add: openai_reduce_def empty rest del: append.simps)
  then show ?thesis using run(2) by (simp add: finish_partial_def partial_response_def Let_def)
qed

lemma truncated_responses_stream_witness:
  "case openai_reduce sample_rx (\<lambda>_. None) (Some (render_events [typed_frame ''response.output_item.done''])) [] of
     Inl _ \<Rightarrow> False
   | Inr r \<Rightarrow> \<not> rs_done r \<and> map_of (rs_extra r) ''partial'' = Some (JBool True)
       \<and> take (length (responses_output_content sample_rx (concat (map (frame_items sample_rx) [typed_frame ''response.output_item.done'']))))
            (msg_content (rs_message r))
           = responses_output_content sample_rx (concat (map (frame_items sample_rx) [typed_frame ''response.output_item.done'']))"
proof (rule truncated_responses_stream)
  show "\<forall>f\<in>set [typed_frame ''response.output_item.done'']. wf_event max_line f"
    by (simp add: typed_frame_def wf_event_def event_lines_def plain_line_def max_line_def
        go_split.simps data_line_def type_line_def id_line_def has_prefix_def)
qed (simp_all add: sample_rx_def non_terminal_def sample_envelope_def terminal_type_def typed_frame_def)

end
