(* ===== verification/ContentEncoding.thy ===== *)
theory ContentEncoding
  imports Results
begin

text \<open>
  Decoding a captured body's Content-Encoding (\<open>pkg/capture/contentencoding.go\<close>).

  A decompressor is a parameter: opening it on a body fails, or yields the whole of its output and how
  the output ends. The loop reads at most one byte past the cap of it.
\<close>

definition max_decompressed_bytes :: nat where
  "max_decompressed_bytes = 48 * 2 ^ 20"

datatype stream_end = CleanEnd | EarlyEnd | FailedEnd string

text \<open>\<open>kind\<close> is the name of the coding, as the code passes it to its reader.\<close>

type_synonym codecs = "string \<Rightarrow> string \<Rightarrow> string + string \<times> stream_end"

record decode_stats =
  dst_truncated :: bool

definition refuse_empty :: "string \<Rightarrow> string \<Rightarrow> string + unit" where
  "refuse_empty body kind =
     (if body \<noteq> [] then Inr () else Inl (kind @ '': empty body under a claimed content-coding''))"

definition read_capped :: "string \<times> stream_end \<Rightarrow> string \<Rightarrow> string + string \<times> decode_stats" where
  "read_capped r kind =
     (let (out, fin) = r; decoded = take (max_decompressed_bytes + 1) out
      in if max_decompressed_bytes < length decoded then Inl (kind @ '' decoded body exceeds the cap'')
         else case fin of
           CleanEnd \<Rightarrow> Inr (decoded, \<lparr>dst_truncated = False\<rparr>)
         | EarlyEnd \<Rightarrow> if decoded \<noteq> [] then Inr (decoded, \<lparr>dst_truncated = True\<rparr>)
                       else Inl (kind @ '' read: unexpected EOF'')
         | FailedEnd e \<Rightarrow> Inl (kind @ '' read: '' @ e))"

definition open_coding :: "codecs \<Rightarrow> string \<Rightarrow> string \<Rightarrow> string + string \<times> decode_stats" where
  "open_coding cx kind body =
     and_then (refuse_empty body kind) (\<lambda>_.
     and_then (wrap_err (\<lambda>e. kind @ '' reader init: '' @ e) (cx kind body)) (\<lambda>r. read_capped r kind))"

definition decode_one_layer :: "codecs \<Rightarrow> string \<Rightarrow> string \<Rightarrow> string + string \<times> decode_stats" where
  "decode_one_layer cx body encoding =
     (if encoding = ''gzip'' \<or> encoding = ''x-gzip'' then open_coding cx ''gzip'' body
      else if encoding = ''zstd'' then open_coding cx ''zstd'' body
      else if encoding = ''br'' then open_coding cx ''br'' body
      else Inl (''unsupported encoding '' @ encoding))"

definition split_content_encoding :: "string \<Rightarrow> string list" where
  "split_content_encoding ce =
     filter (\<lambda>p. p \<noteq> [] \<and> p \<noteq> ''identity'') (map go_trim_space (go_split ce '',''))"

definition decode_layer_step ::
  "codecs \<Rightarrow> string \<Rightarrow> string \<Rightarrow> string \<times> decode_stats \<Rightarrow> string + string \<times> decode_stats"
where
  "decode_layer_step cx encoding layer st =
     and_then (wrap_err (\<lambda>e. ''content-encoding '' @ encoding @ '': '' @ e) (decode_one_layer cx (fst st) layer))
       (\<lambda>(decoded, stats). Inr (decoded, \<lparr>dst_truncated = dst_truncated (snd st) \<or> dst_truncated stats\<rparr>))"

definition decode_content_encoding :: "codecs \<Rightarrow> string \<Rightarrow> string \<Rightarrow> string + string \<times> decode_stats" where
  "decode_content_encoding cx body encoding =
     (let ce = go_trim_space (go_to_lower encoding) in
      if ce = [] \<or> ce = ''identity'' then Inr (body, \<lparr>dst_truncated = False\<rparr>)
      else fold_res (decode_layer_step cx encoding) (rev (split_content_encoding ce)) (body, \<lparr>dst_truncated = False\<rparr>))"

subsection \<open>Facts\<close>

abbreviation within_cap :: "string \<Rightarrow> bool" where
  "within_cap b \<equiv> length b \<le> max_decompressed_bytes"

lemma read_capped_bound: "read_capped r kind = Inr (out, st) \<Longrightarrow> within_cap out"
  by (auto simp: read_capped_def Let_def split: prod.splits if_splits stream_end.splits)

lemma decode_layer_bound: "decode_one_layer cx body layer = Inr (out, st) \<Longrightarrow> within_cap out"
  by (auto simp: decode_one_layer_def open_coding_def and_then_Inr dest: read_capped_bound split: if_splits)

lemma decode_layer_empty: "decode_one_layer cx [] layer = Inr r \<Longrightarrow> False"
  by (simp add: decode_one_layer_def open_coding_def refuse_empty_def split: if_splits)

lemma fold_layers_bound:
  "fold_res (decode_layer_step cx encoding) layers st = Inr (out, st') \<Longrightarrow> out = fst st \<or> within_cap out"
proof (induction layers arbitrary: st)
  case (Cons l layers)
  then obtain mid where mid: "decode_layer_step cx encoding l st = Inr mid"
      "fold_res (decode_layer_step cx encoding) layers mid = Inr (out, st')"
    by (auto simp: and_then_Inr)
  then have "within_cap (fst mid)"
    by (auto simp: decode_layer_step_def and_then_Inr dest!: decode_layer_bound split: prod.splits)
  with Cons.IH [OF mid(2)] show ?case by auto
qed auto

text \<open>Undoing layers in the reverse of the order they were applied, with codecs that invert.\<close>

definition coding_kind :: "string \<Rightarrow> string option" where
  "coding_kind layer =
     (if layer = ''gzip'' \<or> layer = ''x-gzip'' then Some ''gzip''
      else if layer = ''zstd'' then Some ''zstd'' else if layer = ''br'' then Some ''br'' else None)"

fun inverts :: "codecs \<Rightarrow> (string \<Rightarrow> string \<Rightarrow> string) \<Rightarrow> string list \<Rightarrow> string \<Rightarrow> bool" where
  "inverts cx enc [] body = True"
| "inverts cx enc (l # ls) body =
     (case coding_kind l of
        None \<Rightarrow> False
      | Some kind \<Rightarrow> enc l body \<noteq> [] \<and> within_cap body \<and> cx kind (enc l body) = Inr (body, CleanEnd)
                     \<and> inverts cx enc ls (enc l body))"

lemma decode_layer_inverts:
  assumes "coding_kind layer = Some kind" "after \<noteq> []" "within_cap before" "cx kind after = Inr (before, CleanEnd)"
  shows "decode_one_layer cx after layer = Inr (before, \<lparr>dst_truncated = False\<rparr>)"
  using assms
  by (auto simp: coding_kind_def decode_one_layer_def open_coding_def refuse_empty_def read_capped_def Let_def
      split: if_splits)

lemma fold_layers_inverts:
  "inverts cx enc layers body \<Longrightarrow>
   fold_res (decode_layer_step cx encoding) (rev layers) (fold enc layers body, \<lparr>dst_truncated = False\<rparr>)
     = Inr (body, \<lparr>dst_truncated = False\<rparr>)"
proof (induction layers arbitrary: body)
  case (Cons l ls)
  then obtain kind where kind: "coding_kind l = Some kind" "enc l body \<noteq> []" "within_cap body"
      "cx kind (enc l body) = Inr (body, CleanEnd)" and rest: "inverts cx enc ls (enc l body)"
    by (auto split: option.splits)
  from Cons.IH [OF rest] show ?case
    using decode_layer_inverts [of l kind "enc l body" body cx] kind
    by (simp add: fold_res_append decode_layer_step_def)
qed simp

subsection \<open>Properties\<close>

text \<open>A decoded body is bounded. What comes out of a decode is the body itself, when no coding was
  claimed, or is within the cap on decompressed bytes, whatever the decompressors yield.\<close>

theorem decode_bounded:
  "case decode_content_encoding cx body encoding of
     Inl _ \<Rightarrow> True
   | Inr (out, _) \<Rightarrow> out = body \<or> length out \<le> 48 * 2 ^ 20"
  using fold_layers_bound [of cx encoding "rev (split_content_encoding (go_trim_space (go_to_lower encoding)))"
      "(body, \<lparr>dst_truncated = False\<rparr>)"]
  by (auto simp: decode_content_encoding_def Let_def max_decompressed_bytes_def split: sum.split)

text \<open>Encodings come off in the reverse of the order they were put on. When the decompressors
  invert what the sender did at each layer, decoding under the header's list returns the
  original body, not truncated.\<close>

theorem decode_roundtrip:
  assumes "split_content_encoding (go_trim_space (go_to_lower encoding)) = layers"
    and "inverts cx enc layers body"
  shows "decode_content_encoding cx (fold enc layers body) encoding = Inr (body, \<lparr>dst_truncated = False\<rparr>)"
proof (cases "go_trim_space (go_to_lower encoding) = [] \<or> go_trim_space (go_to_lower encoding) = ''identity''")
  case True
  then have "layers = []" using assms(1) by (auto simp: split_content_encoding_def go_split.simps) code_simp+
  with True show ?thesis by (auto simp: decode_content_encoding_def)
next
  case False
  with fold_layers_inverts [OF assms(2)] show ?thesis by (simp add: decode_content_encoding_def Let_def assms(1))
qed

definition sample_codecs :: codecs where
  "sample_codecs kind body = (if hd body = hd kind then Inr (tl body, CleanEnd) else Inl ''bad magic'')"

definition sample_encode :: "string \<Rightarrow> string \<Rightarrow> string" where
  "sample_encode layer body = hd layer # body"

lemma decode_roundtrip_witness:
  "decode_content_encoding sample_codecs (fold sample_encode [''gzip'', ''zstd''] ''hi'') ''GZIP, zstd''
     = Inr (''hi'', \<lparr>dst_truncated = False\<rparr>)"
proof (rule decode_roundtrip)
  show "split_content_encoding (go_trim_space (go_to_lower ''GZIP, zstd'')) = [''gzip'', ''zstd'']" by code_simp
  show "inverts sample_codecs sample_encode [''gzip'', ''zstd''] ''hi''"
    by (simp add: coding_kind_def sample_codecs_def sample_encode_def max_decompressed_bytes_def)
qed

end
