(* ===== verification/RederiveFacts.thy ===== *)
theory RederiveFacts
  imports Rederive "HOL-Library.Multiset"
begin

text \<open>
  Facts on rebuilding a session: the two-pointer merge over the store is the pure mixed-source
  constructor, the walk over versions of a transcript picks a declared set of rows, the recovery of a
  reduction only improves a row, and merged reports are sums.
\<close>

subsection \<open>The merge is a stable sort\<close>

fun interleave :: "externs \<Rightarrow> raw_turn_record list \<Rightarrow> transcript_turn list \<Rightarrow> derive_input list" where
  "interleave ext [] ts = map Transcript ts"
| "interleave ext (w # ws) [] = map Wire (w # ws)"
| "interleave ext (w # ws) (t # ts) =
     (if tt_captured_at t < captured_at ext w then Transcript t # interleave ext (w # ws) ts
      else Wire w # interleave ext ws (t # ts))"

lemma interleave_Nil [simp]: "interleave ext ws [] = map Wire ws"
  by (cases ws) simp_all

abbreviation call_key :: "externs \<Rightarrow> derive_input \<Rightarrow> gotime \<times> bool" where
  "call_key ext c \<equiv> (call_time ext c, is_fallback c)"

lemma call_views [simp]:
  "call_time ext (Wire r) = captured_at ext r" "call_time ext (Transcript t) = tt_captured_at t"
  "is_fallback (Wire r) = False" "is_fallback (Transcript t) = True"
  by (simp_all add: call_time_def is_fallback_def)

lemma interleave_mset: "mset (interleave ext ws ts) = mset (map Wire ws @ map Transcript ts)"
  by (induction ext ws ts rule: interleave.induct) auto

lemma interleave_set: "set (interleave ext ws ts) = Wire ` set ws \<union> Transcript ` set ts"
  by (induction ext ws ts rule: interleave.induct) auto

lemma interleave_sorted:
  "sorted (map (captured_at ext) ws) \<Longrightarrow> sorted (map tt_captured_at ts) \<Longrightarrow>
   sorted (map (call_key ext) (interleave ext ws ts))"
proof (induction ext ws ts rule: interleave.induct)
  case (1 ext ts)
  then show ?case by (auto simp: sorted_wrt_map less_eq_prod_def elim: sorted_wrt_mono_rel [rotated])
next
  case (2 ext w ws)
  then show ?case by (auto simp: sorted_wrt_map less_eq_prod_def elim: sorted_wrt_mono_rel [rotated])
next
  case (3 ext w ws t ts)
  show ?case
  proof (cases "tt_captured_at t < captured_at ext w")
    case True
    then have "list_all (\<lambda>c. tt_captured_at t < call_time ext c \<or> is_fallback c \<and> tt_captured_at t \<le> call_time ext c)
        (interleave ext (w # ws) ts)"
      using 3(3,4) by (auto simp: list_all_iff interleave_set simp del: interleave.simps)
    with True 3 show ?thesis by (auto simp: list_all_iff less_eq_prod_def)
  next
    case False
    then have "list_all (\<lambda>c. captured_at ext w \<le> call_time ext c) (interleave ext ws (t # ts))"
      using 3(3,4) by (auto simp: list_all_iff interleave_set simp del: interleave.simps)
    with False 3 show ?thesis by (auto simp: list_all_iff less_eq_prod_def)
  qed
qed

lemma interleave_wire: "filter (\<lambda>c. \<not> is_fallback c \<and> P c) (interleave ext ws ts) = filter P (map Wire ws)"
  by (induction ext ws ts rule: interleave.induct) (auto simp: filter_map o_def)

lemma interleave_transcript: "filter (\<lambda>c. is_fallback c \<and> P c) (interleave ext ws ts) = filter P (map Transcript ts)"
  by (induction ext ws ts rule: interleave.induct) (auto simp: filter_map o_def)

text \<open>Equal times keep their order, so the inputs may be sorted before the merge or by it.\<close>

lemma filter_sort_same: "filter (\<lambda>x. f x = k) (sort_key f xs) = filter (\<lambda>x. f x = k) xs"
proof -
  have "sort_key f (filter (\<lambda>x. f x = k) xs) = filter (\<lambda>x. f x = k) xs"
    by (rule properties_for_sort_key) (simp_all add: sorted_map_same [of f "\<lambda>_. k"])
  then show ?thesis by (simp add: filter_sort)
qed

lemma ordered_calls_interleave:
  assumes "sorted (map tt_captured_at ts)"
  shows "ordered_calls ext raws ts = interleave ext (sort_key (captured_at ext) raws) ts"
  unfolding ordered_calls_def
proof (rule properties_for_sort_key)
  show "mset (interleave ext (sort_key (captured_at ext) raws) ts) = mset (map Wire raws @ map Transcript ts)"
    by (simp add: interleave_mset)
  show "sorted (map (call_key ext) (interleave ext (sort_key (captured_at ext) raws) ts))"
    using assms by (simp add: interleave_sorted)
next
  fix c
  let ?l = "interleave ext (sort_key (captured_at ext) raws) ts"
  show "filter (\<lambda>x. call_key ext c = call_key ext x) ?l
      = filter (\<lambda>x. call_key ext c = call_key ext x) (map Wire raws @ map Transcript ts)"
  proof (cases "is_fallback c")
    case True
    then have "filter (\<lambda>x. call_key ext c = call_key ext x) ?l
        = filter (\<lambda>x. is_fallback x \<and> call_time ext c = call_time ext x) ?l"
      by (intro filter_cong) auto
    with True show ?thesis by (simp add: interleave_transcript filter_map o_def)
  next
    case False
    then have "filter (\<lambda>x. call_key ext c = call_key ext x) ?l
        = filter (\<lambda>x. \<not> is_fallback x \<and> call_time ext c = call_time ext x) ?l"
      by (intro filter_cong) auto
    with False show ?thesis
      using filter_sort_same [of "captured_at ext" "call_time ext c" raws]
      by (simp add: interleave_wire filter_map o_def eq_commute)
  qed
qed

lemma merge_calls_interleave:
  "list_all2 (\<lambda>w r. load w = Inr r \<and> we_captured_at w = captured_at ext r) ws rs \<Longrightarrow>
   merge_calls ext load ws ts dv = Inr (fold (derive_step ext) (interleave ext rs ts) dv)"
proof (induction ext load ws ts dv arbitrary: rs rule: merge_calls.induct)
  case (3 ext load w ws dv)
  then show ?case by (cases rs) auto
next
  case (4 ext load w ws t ts dv)
  then show ?case by (cases rs) auto
qed auto

subsection \<open>The pure constructor\<close>

text \<open>\<open>BuildDerivedSetWithTranscriptFallback\<close>, which the tests of the code use as the reference.\<close>

definition build_derived_set ::
  "tx_externs \<Rightarrow> raw_turn_record list \<Rightarrow> transcript_file list \<Rightarrow> string \<Rightarrow> derived_set \<times> projection_stats"
where
  "build_derived_set tx raws files project =
     (let ext = tx_ext tx; pp = prepare_transcript_fallback tx (probe_wire ext project raws) files
      in (finish_deriver (fold_calls ext pp (ordered_calls ext raws (pp_turns pp)) project), pp_stats pp))"

text \<open>A probe only counts, so probes commute.\<close>

definition probed_session :: "externs \<Rightarrow> string \<Rightarrow> raw_turn_record \<Rightarrow> session_key option" where
  "probed_session ext project rec =
     (if rt_source rec = source_transcript then None
      else case rederive_chain ext rec project of
        Rederived chain \<Rightarrow>
          if n_kind (last chain) \<noteq> kind_main then None
          else Some \<lparr>harness_id = rt_harness_id rec, harness_session_id = rt_harness_session_id rec\<rparr>
      | _ \<Rightarrow> None)"

definition count_main :: "session_key option \<Rightarrow> deriver \<Rightarrow> deriver" where
  "count_main k dv = (case k of None \<Rightarrow> dv | Some s \<Rightarrow> dv\<lparr>dv_wire_main_calls := map_incr (dv_wire_main_calls dv) s\<rparr>)"

lemma probe_turn_count: "probe_turn ext (Some rec) dv = count_main (probed_session ext (dv_project dv) rec) dv"
  by (simp add: probe_turn_def probed_session_def count_main_def split: rederive_result.split)

lemma count_main_project [simp]: "dv_project (count_main k dv) = dv_project dv"
  by (simp add: count_main_def split: option.split)

lemma map_incr_commute: "map_incr (map_incr m a) b = map_incr (map_incr m b) a"
  by (simp add: map_incr_def fun_eq_iff map_get_def)

lemma count_main_commute: "count_main a (count_main b dv) = count_main b (count_main a dv)"
  by (simp add: count_main_def map_incr_commute split: option.split)

lemma probe_turn_commute:
  "probe_turn ext (Some a) (probe_turn ext (Some b) dv) = probe_turn ext (Some b) (probe_turn ext (Some a) dv)"
  unfolding probe_turn_count count_main_project by (rule count_main_commute)

lemma probe_order: "mset raws = mset raws' \<Longrightarrow> probe_wire ext project raws = probe_wire ext project raws'"
  unfolding probe_wire_def
  by (rule fun_cong [OF fold_multiset_equiv]) (simp_all add: fun_eq_iff probe_turn_commute)

lemma prepare_no_files: "prepare_transcript_fallback tx dv [] = prepare_transcript_fallback tx dv' []"
  by (simp add: prepare_transcript_fallback_def Let_def)

lemma prepared_turns_sorted: "sorted (map tt_captured_at (pp_turns (prepare_transcript_fallback tx dv files)))"
  by (simp add: prepare_transcript_fallback_def Let_def)

subsection \<open>Coherent reads\<close>

lemma captured_at_cong:
  "rt_meta a = rt_meta b \<Longrightarrow> rt_received_at a = rt_received_at b \<Longrightarrow> captured_at ext a = captured_at ext b"
  by (simp only: captured_at_def)

lemma raw_of_views [simp]:
  "rt_meta (raw_of r) = rt_meta r" "rt_received_at (raw_of r) = rt_received_at r"
  "rt_response (raw_of r) = rt_response r" "rt_provider (raw_of r) = rt_provider r"
  by (simp_all add: raw_turn_record.truncate_def)

lemma recovered_views [simp]:
  "rt_meta (recover_reduction ext st row) = rt_meta row"
  "rt_received_at (recover_reduction ext st row) = rt_received_at row"
  by (simp_all add: recover_reduction_def split: option.split)

lemma recovered_time [simp]:
  "captured_at ext (raw_of (recover_reduction ext st row)) = captured_at ext (raw_of row)"
  by (rule captured_at_cong) simp_all

definition loaded_wire :: "externs \<Rightarrow> rederive_store \<Rightarrow> index_row \<Rightarrow> raw_turn_record" where
  "loaded_wire ext st r = raw_of (recover_reduction ext st (projr (rd_turn st (ix_id r))))"

definition wire_rows :: "index_row list \<Rightarrow> index_row list" where
  "wire_rows index = filter (\<lambda>r. ix_source r \<noteq> source_transcript) index"

text \<open>Every wire row of the index can be fetched, and the index holds its time.\<close>

definition coherent_index :: "externs \<Rightarrow> rederive_store \<Rightarrow> index_row list \<Rightarrow> bool" where
  "coherent_index ext st index \<longleftrightarrow>
     list_all (\<lambda>r. \<not> isl (rd_turn st (ix_id r))
        \<and> captured_at ext (raw_of (projr (rd_turn st (ix_id r)))) = we_captured_at (index_entry ext r))
       (wire_rows index)"

lemma coherent_load:
  assumes "coherent_index ext st index" and "r \<in> set (wire_rows index)"
  shows "load_wire ext st (index_entry ext r) = Inr (loaded_wire ext st r)"
    and "we_captured_at (index_entry ext r) = captured_at ext (loaded_wire ext st r)"
proof -
  from assms have "\<not> isl (rd_turn st (ix_id r))"
    and at: "captured_at ext (raw_of (projr (rd_turn st (ix_id r)))) = we_captured_at (index_entry ext r)"
    by (auto simp: coherent_index_def list_all_iff)
  then obtain row where row: "rd_turn st (ix_id r) = Inr row" by (cases "rd_turn st (ix_id r)") auto
  have "we_id (index_entry ext r) = ix_id r" by (simp add: index_entry_def)
  with row show "load_wire ext st (index_entry ext r) = Inr (loaded_wire ext st r)"
    by (simp add: load_wire_def loaded_wire_def)
  from at show "we_captured_at (index_entry ext r) = captured_at ext (loaded_wire ext st r)"
    by (simp add: loaded_wire_def row)
qed

lemma insort_key_map:
  "(\<And>y. y \<in> insert x (set xs) \<Longrightarrow> g (h y) = f y) \<Longrightarrow> insort_key g (h x) (map h xs) = map h (insort_key f x xs)"
  by (induction xs) auto

lemma sort_key_map:
  "(\<And>y. y \<in> set xs \<Longrightarrow> g (h y) = f y) \<Longrightarrow> sort_key g (map h xs) = map h (sort_key f xs)"
proof (induction xs)
  case (Cons x xs)
  then show ?case using insort_key_map [of x "sort_key f xs" g h f] by simp
qed simp

abbreviation session_wire :: "externs \<Rightarrow> rederive_store \<Rightarrow> index_row list \<Rightarrow> raw_turn_record list" where
  "session_wire ext st index \<equiv> map (loaded_wire ext st) (wire_rows index)"

lemma entries_load:
  assumes "coherent_index ext st index"
  shows "list_all2 (\<lambda>w r. load_wire ext st w = Inr r \<and> we_captured_at w = captured_at ext r)
           (wire_entries ext index) (sort_key (captured_at ext) (session_wire ext st index))"
proof -
  let ?T = "\<lambda>r. we_captured_at (index_entry ext r)"
  have "wire_entries ext index = map (index_entry ext) (sort_key ?T (wire_rows index))"
    unfolding wire_entries_def wire_rows_def [symmetric] by (rule sort_key_map) (rule refl)
  moreover have "sort_key (captured_at ext) (session_wire ext st index)
      = map (loaded_wire ext st) (sort_key ?T (wire_rows index))"
    using coherent_load(2) [OF assms] by (intro sort_key_map) simp
  ultimately show ?thesis
    using coherent_load [OF assms] by (auto simp: list_all2_map1 list_all2_map2 intro!: list.rel_refl_strong)
qed

lemma fold_probe_load:
  "list_all2 (\<lambda>w r. load w = Inr r) ws rs \<Longrightarrow>
   fold_res (\<lambda>w probe. and_then (load w) (\<lambda>rec. Inr (probe_turn ext (Some rec) probe))) ws dv
     = Inr (fold (\<lambda>rec. probe_turn ext (Some rec)) rs dv)"
  by (induction ws rs arbitrary: dv rule: list_all2_induct) simp_all

lemma derive_session_constructor:
  assumes "coherent_index (tx_ext tx) st index"
  shows "derive_session tx st project files (wire_entries (tx_ext tx) index)
       = Inr (build_derived_set tx (session_wire (tx_ext tx) st index) files project)"
proof -
  let ?ext = "tx_ext tx" and ?raws = "session_wire (tx_ext tx) st index"
  let ?rs = "sort_key (captured_at ?ext) ?raws" and ?ws = "wire_entries ?ext index"
  from entries_load [OF assms] have all: "list_all2 (\<lambda>w r. load_wire ?ext st w = Inr r) ?ws ?rs"
    by (rule list_all2_mono) simp
  obtain probe where probe: "probe_session ?ext st project files ?ws = Inr probe"
      "prepare_transcript_fallback tx probe files
       = prepare_transcript_fallback tx (probe_wire ?ext project ?raws) files"
  proof (cases "files = []")
    case True
    then show thesis using that [of "new_deriver project"] prepare_no_files
      by (simp add: probe_session_def)
  next
    case False
    have "probe_wire ?ext project ?rs = probe_wire ?ext project ?raws" by (rule probe_order) simp
    with False show thesis using that [of "probe_wire ?ext project ?rs"] fold_probe_load [OF all]
      by (simp add: probe_session_def probe_wire_def)
  qed
  then show ?thesis
    by (simp add: derive_session_def build_derived_set_def Let_def fold_calls_def
        ordered_calls_interleave [OF prepared_turns_sorted] merge_calls_interleave [OF entries_load [OF assms]])
qed

subsection \<open>Versions\<close>

lemma walk_kept: "walk_versions (\<lambda>i. Inr (file i)) True ids
   = Inr (take 1 (dropWhile (\<lambda>i. \<not> spawn_evidence (file i)) ids))"
  by (induction ids) simp_all

lemma walk_fresh: "walk_versions (\<lambda>i. Inr (file i)) False ids
   = Inr (take 1 (takeWhile (\<lambda>i. \<not> spawn_evidence (file i)) ids)
        @ take 1 (dropWhile (\<lambda>i. \<not> spawn_evidence (file i)) ids))"
  by (cases ids) (simp_all add: walk_kept)

text \<open>In a list sorted newest first, the first element with a property is the newest one.\<close>

lemma newest_first:
  fixes ids :: "int list"
  assumes "sorted_wrt (\<ge>) ids"
  shows "set (take 1 (dropWhile (\<lambda>i. \<not> P i) ids)) = {i \<in> set ids. P i \<and> i = Max (set (filter P ids))}"
  using assms
proof (induction ids)
  case (Cons a ids)
  show ?case
  proof (cases "P a")
    case True
    then have "Max (set (filter P (a # ids))) = a" using Cons.prems by (intro Max_eqI) auto
    with True show ?thesis by auto
  next
    case False
    then show ?thesis using Cons by auto
  qed
qed simp

lemma straggler_first:
  fixes ids :: "int list"
  assumes "sorted_wrt (\<ge>) ids"
  shows "set (take 1 (takeWhile (\<lambda>i. \<not> P i) ids)) = {i \<in> set ids. \<not> P i \<and> i = Max (set ids)}"
proof (cases ids)
  case (Cons a rest)
  have "Max (set ids) = a" unfolding Cons using assms Cons by (intro Max_eqI) auto
  then show ?thesis by (auto simp: Cons)
qed simp

lemma group_ids_sorted: "sorted_wrt (\<ge>) (group_ids st rows g)"
proof -
  have "sorted (map uminus (group_ids st rows g))" by (simp add: group_ids_def)
  then show ?thesis by (simp add: sorted_wrt_map)
qed

lemma group_ids_nonempty: "g \<in> set (transcript_groups st rows) \<Longrightarrow> group_ids st rows g \<noteq> []"
  by (auto simp: transcript_groups_def group_ids_def filter_empty_conv simp flip: length_greater_0_conv)

lemma newest_hd:
  fixes ids :: "int list"
  assumes "sorted_wrt (\<ge>) ids" "ids \<noteq> []"
  shows "hd ids = Max (set ids)"
  using assms by (cases ids) (auto intro!: Max_eqI [symmetric])

subsection \<open>Reports\<close>

lemma append_bounded_take: "append_bounded (take n xs) ys n = take n (xs @ ys)"
  by (auto simp: append_bounded_def min_def)

abbreviation merge_reports :: "session_report list \<Rightarrow> session_report" where
  "merge_reports rs \<equiv> fold (\<lambda>r d. merge_rederive_report d r) rs new_rederive_report"

definition reconcile_sum :: "(reconcile_stats \<Rightarrow> int) \<Rightarrow> reconcile_stats option \<Rightarrow> int" where
  "reconcile_sum f o' = (case o' of None \<Rightarrow> 0 | Some s \<Rightarrow> f s)"

lemma fold_sum:
  "(\<And>r d. f (merge_rederive_report d r) = f d + g r) \<Longrightarrow>
   (f (fold (\<lambda>r d. merge_rederive_report d r) rs d) :: int) = f d + sum_list (map g rs)"
  by (induction rs arbitrary: d) simp_all

lemma fold_bounded:
  "(\<And>r d. f (merge_rederive_report d r) = append_bounded (f d) (f r) n) \<Longrightarrow> f d = take n xs \<Longrightarrow>
   f (fold (\<lambda>r d. merge_rederive_report d r) rs d) = take n (xs @ concat (map f rs))"
proof (induction rs arbitrary: d xs)
  case (Cons r rs)
  have "f (merge_rederive_report d r) = take n (xs @ f r)"
    by (simp only: Cons.prems append_bounded_take)
  from Cons.IH [OF Cons.prems(1) this] show ?case by simp
qed simp

lemma merge_views [simp]:
  "rr_raw_turns (merge_rederive_report d r) = rr_raw_turns d + rr_raw_turns r"
  "rr_parsed_turns (merge_rederive_report d r) = rr_parsed_turns d + rr_parsed_turns r"
  "rr_nodes (merge_rederive_report d r) = rr_nodes d + rr_nodes r"
  "rr_attached_verdicts (merge_rederive_report d r) = rr_attached_verdicts d + rr_attached_verdicts r"
  "rr_parse_failures (merge_rederive_report d r) =
     append_bounded (rr_parse_failures d) (rr_parse_failures r) rederive_diagnostic_limit"
  "sr_reconcile (merge_rederive_report d r) = merge_reconcile (sr_reconcile d) (sr_reconcile r)"
  by (simp_all add: merge_rederive_report_def)

lemma new_report_views [simp]:
  "rr_raw_turns new_rederive_report = 0" "rr_parsed_turns new_rederive_report = 0"
  "rr_nodes new_rederive_report = 0" "rr_attached_verdicts new_rederive_report = 0"
  "rr_parse_failures new_rederive_report = []" "sr_reconcile new_rederive_report = None"
  by (simp_all add: new_rederive_report_def full_report_def empty_report_def rederive_report.extend_def)

abbreviation forked_count :: "session_report \<Rightarrow> int" where
  "forked_count r \<equiv> reconcile_sum rs_forked_chains (sr_reconcile r)"

abbreviation anchored_count :: "session_report \<Rightarrow> int" where
  "anchored_count r \<equiv> reconcile_sum rs_codex_threads_anchored (sr_reconcile r)"

lemma forked_merge: "forked_count (merge_rederive_report d r) = forked_count d + forked_count r"
  by (simp add: merge_reconcile_def reconcile_sum_def zero_reconcile_stats_def Let_def split: option.split)

lemma anchored_merge: "anchored_count (merge_rederive_report d r) = anchored_count d"
  by (simp add: merge_reconcile_def reconcile_sum_def zero_reconcile_stats_def Let_def split: option.split)

text \<open>The per-organisation report loses the Codex anchoring counters: however many threads the session
  reports anchored, the merged report says none.\<close>

lemma merged_report_loses_codex: "anchored_count (merge_reports rs) = 0"
proof -
  have "anchored_count (fold (\<lambda>r d. merge_rederive_report d r) rs d) = anchored_count d" for d
    by (induction rs arbitrary: d) (simp_all add: anchored_merge del: merge_views)
  then show ?thesis by (simp add: reconcile_sum_def)
qed

subsection \<open>Recovery\<close>

lemma recover_reduction_cases:
  "recover_reduction ext st row = row
   \<or> reduced_response_unusable ext (rt_response row)
     \<and> \<not> reduced_response_unusable ext (rt_response (recover_reduction ext st row))"
  by (auto simp: recover_reduction_def split: option.split)

lemma usable_if_rederived:
  "rederive_chain ext rec project = Rederived chain \<Longrightarrow> \<not> reduced_response_unusable ext (rt_response rec)"
  by (auto simp: rederive_chain_def reduced_response_unusable_def Let_def split: if_splits sum.splits)

lemma recovery_keeps_derived_turns:
  assumes "rederive_chain ext (raw_of row) project = Rederived chain"
  shows "recover_reduction ext st row = row"
  using recover_reduction_cases [of ext st row] usable_if_rederived [OF assms] by simp

lemma recover_reduction_idem:
  "recover_reduction ext st (recover_reduction ext st row) = recover_reduction ext st row"
  using recover_reduction_cases [of ext st row] by (auto simp: recover_reduction_def split: option.splits if_splits)

subsection \<open>Properties\<close>

text \<open>C11: the store path computes what the pure constructor computes. When the index and the rows of a
  session can be read and agree on times, rebuilding the session returns the set that
  BuildDerivedSetWithTranscriptFallback builds from its wire rows in index order and the selected
  transcript files, with the session covered and reconciled, and a report of that set: the
  two-pointer merge, the streamed rows and the skipped probe change nothing.\<close>

theorem rederive_is_constructor:
  assumes "org_id_from_string (rd_parse_org st) (org_key_for_lookup org) = Inr org_id"
    and "rd_index st org_id key = Inr index"
    and "session_transcripts tx st index = Inr files"
    and "coherent_index (tx_ext tx) st index"
  shows "rederive_session tx st project org key =
    (let (ds, projection) = build_derived_set tx (session_wire (tx_ext tx) st index) files project;
         (ds', stats) = reconcile_transcripts tx (cover_session key ds) files
     in Inr (ds', full_report (ds_report ds') (Some stats) (Some projection)))"
  using assms
  by (simp add: rederive_session_def derive_session_constructor Let_def split: prod.split)

definition sample_tx :: tx_externs where
  "sample_tx = \<lparr>tx_ext = replay_externs, tx_meta = (\<lambda>_. None), tx_list = (\<lambda>_. None), tx_record = (\<lambda>_. None),
     tx_head_type = (\<lambda>_. []), tx_blocks = (\<lambda>_. None), tx_parts = (\<lambda>_. None), tx_sign = (\<lambda>_. None),
     tx_task_name = (\<lambda>_. None), tx_identity_digest = (\<lambda>_. []), tx_record_digest = (\<lambda>_. [])\<rparr>"

definition sample_row :: index_row where
  "sample_row = \<lparr>ix_id = 7, ix_source = source_wire, ix_meta = [], ix_received_at = 5\<rparr>"

definition sample_store :: rederive_store where
  "sample_store =
     \<lparr>rd_parse_org = (\<lambda>_. None), rd_render_org = (\<lambda>b. b), rd_index = (\<lambda>_ _. Inr [sample_row]),
      rd_turn = (\<lambda>i. if i = 7 then Inr (raw_turn_record.extend (sample_raw\<lparr>rt_meta := [], rt_received_at := 5\<rparr>)
                                       \<lparr>su_raw_response = [], su_raw_response_encoding = []\<rparr>)
                      else Inl ''no row''),
      rd_lock = (\<lambda>_ _. Inr ()), rd_sessions = Inr [], rd_group_meta = (\<lambda>_. ([], [])),
      rd_reducers = (\<lambda>_. None), rd_decode = (\<lambda>_ _. None), rd_content_type = (\<lambda>_. None), rd_marshal = (\<lambda>_. None)\<rparr>"

lemma rederive_is_constructor_witness:
  "rederive_session sample_tx sample_store ''tapes'' [] \<lparr>harness_id = ''claude'', harness_session_id = ''s''\<rparr> =
    (let (ds, projection) = build_derived_set sample_tx (session_wire (tx_ext sample_tx) sample_store [sample_row]) [] ''tapes'';
         (ds', stats) = reconcile_transcripts sample_tx (cover_session \<lparr>harness_id = ''claude'', harness_session_id = ''s''\<rparr> ds) []
     in Inr (ds', full_report (ds_report ds') (Some stats) (Some projection)))"
proof (rule rederive_is_constructor)
  show "org_id_from_string (rd_parse_org sample_store) (org_key_for_lookup []) = Inr nil_org_id"
    by (simp add: org_id_from_string_def org_key_for_lookup_def nil_uuid_text_def)
  show "rd_index sample_store nil_org_id \<lparr>harness_id = ''claude'', harness_session_id = ''s''\<rparr> = Inr [sample_row]"
    by (simp add: sample_store_def)
  show "session_transcripts sample_tx sample_store [sample_row] = Inr []"
    by (simp add: session_transcripts_def transcript_groups_def sample_row_def source_wire_def source_transcript_def)
  show "coherent_index (tx_ext sample_tx) sample_store [sample_row]"
    by code_simp
qed

text \<open>Which versions of a transcript count. Of the rows of one file that are or may be spawn
  evidence, the newest file whose content is spawn evidence is kept, and the newest row of all when
  it is not evidence; of the other rows of an agent and kind, the newest.\<close>

theorem version_selection:
  "list_all (\<lambda>g. case select_versions st (\<lambda>i. Inr (file i)) rows g of
       Inl _ \<Rightarrow> False
     | Inr ids \<Rightarrow> set ids =
         (if tg_spawn g
          then {i \<in> set (group_ids st rows g).
                  i = Max (if spawn_evidence (file i)
                           then set (filter (\<lambda>j. spawn_evidence (file j)) (group_ids st rows g))
                           else set (group_ids st rows g))}
          else {Max (set (group_ids st rows g))}))
   (transcript_groups st rows)"
proof -
  have "case select_versions st (\<lambda>i. Inr (file i)) rows g of
       Inl _ \<Rightarrow> False
     | Inr ids \<Rightarrow> set ids =
         (if tg_spawn g
          then {i \<in> set (group_ids st rows g).
                  i = Max (if spawn_evidence (file i)
                           then set (filter (\<lambda>j. spawn_evidence (file j)) (group_ids st rows g))
                           else set (group_ids st rows g))}
          else {Max (set (group_ids st rows g))})"
    if "g \<in> set (transcript_groups st rows)" for g
    using newest_first [OF group_ids_sorted [of st rows g], of "\<lambda>i. spawn_evidence (file i)"]
      straggler_first [OF group_ids_sorted [of st rows g], of "\<lambda>i. spawn_evidence (file i)"]
      newest_hd [OF group_ids_sorted group_ids_nonempty [OF that]]
    by (auto simp: select_versions_def Let_def walk_fresh)
  then show ?thesis by (simp only: list_all_iff) blast
qed

text \<open>The report of an organisation is the sum of its sessions' reports: turns, nodes, attached
  verdicts and forked chains add up, and of the failures the first twenty are kept.\<close>

theorem merged_report_sums:
  "rr_raw_turns (merge_reports rs) = sum_list (map rr_raw_turns rs)
   \<and> rr_parsed_turns (merge_reports rs) = sum_list (map rr_parsed_turns rs)
   \<and> rr_nodes (merge_reports rs) = sum_list (map rr_nodes rs)
   \<and> rr_attached_verdicts (merge_reports rs) = sum_list (map rr_attached_verdicts rs)
   \<and> forked_count (merge_reports rs) = sum_list (map (\<lambda>r. reconcile_sum rs_forked_chains (sr_reconcile r)) rs)
   \<and> rr_parse_failures (merge_reports rs) = take rederive_diagnostic_limit (concat (map rr_parse_failures rs))"
proof (intro conjI)
  show "forked_count (merge_reports rs) = sum_list (map (\<lambda>r. reconcile_sum rs_forked_chains (sr_reconcile r)) rs)"
    by (subst fold_sum [OF forked_merge]) (simp add: reconcile_sum_def)
  show "rr_parse_failures (merge_reports rs) = take rederive_diagnostic_limit (concat (map rr_parse_failures rs))"
    using fold_bounded [of rr_parse_failures rederive_diagnostic_limit new_rederive_report "[]" rs] by simp
qed (subst fold_sum, simp_all)+

end
