(* ===== verification/RawReduce.thy ===== *)
theory RawReduce
  imports ResponsesReducer ContentEncoding RederiveFacts
begin

text \<open>
  Reducing a stored turn from its verbatim bytes: at ingest (\<open>ingest/rawreduce.go\<close>) and when a
  session is rebuilt (\<open>recover_reduction.go\<close>), both over the reducers of \<open>pkg/capture\<close> and the same
  content decoding.

  A created-at stamp is kept beside the response, \<open>None\<close> where the reducer's own value stands; floats
  are rationals rounded by a parameter, and an elapsed time that is not a number or infinite is absent.
\<close>

subsection \<open>The table of reducers\<close>

record reducer_env =
  re_anthropic :: anthropic_decoders
  re_openai :: responses_decoders
  re_codecs :: codecs
  re_ctx :: "nat \<Rightarrow> string option"
  re_time :: "string \<Rightarrow> gotime option" \<comment> \<open>\<open>time.Parse(time.RFC3339Nano, _)\<close>\<close>
  re_round :: "rat \<Rightarrow> rat"

type_synonym reducer = "string \<Rightarrow> string \<Rightarrow> string \<Rightarrow> string + chat_response" \<comment> \<open>request, body, content type\<close>

definition raw_reducers :: "reducer_env \<Rightarrow> string \<Rightarrow> reducer option" where
  "raw_reducers env provider =
     (if provider = ''anthropic''
      then Some (\<lambda>_ body ct. anthropic_reduce (re_anthropic env) (re_ctx env) (Some body) ct)
      else if provider = ''openai''
      then Some (\<lambda>_ body ct. openai_reduce (re_openai env) (re_ctx env) (Some body) ct)
      else None)"

subsection \<open>Stamps\<close>

record turn_meta =
  tm_request_id :: string
  tm_upstream_request_id :: string
  tm_content_type :: string
  tm_thread_id :: string
  tm_elapsed_seconds :: "rat option"
  tm_ts_request :: string
  tm_captured_at :: string

datatype stamp_source = StampElapsed | StampCapturedAt | StampTsRequest | StampFallback

definition max_elapsed_seconds :: rat where
  "max_elapsed_seconds = 7 * 24 * 60 * 60"

definition usable_elapsed :: "rat option \<Rightarrow> bool" where
  "usable_elapsed e = (case e of None \<Rightarrow> False | Some x \<Rightarrow> 0 < x \<and> x \<le> max_elapsed_seconds)"

definition elapsed_ns :: "reducer_env \<Rightarrow> turn_meta \<Rightarrow> int" where
  "elapsed_ns env m = \<lfloor>re_round env (the (tm_elapsed_seconds m) * 1000000000)\<rfloor>"

definition stamp_duration :: "reducer_env \<Rightarrow> turn_meta \<Rightarrow> chat_response \<Rightarrow> chat_response \<times> stamp_source" where
  "stamp_duration env m resp =
     (if \<not> usable_elapsed (tm_elapsed_seconds m) then (resp, StampFallback)
      else let u = (case rs_usage resp of None \<Rightarrow> zero_usage | Some u \<Rightarrow> u)
           in (resp\<lparr>rs_usage := Some (u\<lparr>total_duration_ns := elapsed_ns env m\<rparr>)\<rparr>, StampElapsed))"

datatype capture_stamp = NoStamp | BadStamp | Stamp gotime

definition parse_capture_stamp :: "reducer_env \<Rightarrow> string \<Rightarrow> capture_stamp" where
  "parse_capture_stamp env v =
     (let raw = go_trim_space v
      in if raw = [] then NoStamp else case re_time env raw of None \<Rightarrow> BadStamp | Some t \<Rightarrow> Stamp t)"

definition malformed :: "string \<Rightarrow> string \<Rightarrow> capture_stamp \<Rightarrow> (string \<times> string) list" where
  "malformed field v s = (case s of BadStamp \<Rightarrow> [(field, v)] | _ \<Rightarrow> [])"

text \<open>The instant, where it came from, and the stamps that did not parse.\<close>

definition stamp_capture_time :: "reducer_env \<Rightarrow> turn_meta \<Rightarrow> gotime option \<times> stamp_source \<times> (string \<times> string) list" where
  "stamp_capture_time env m =
     (let c = parse_capture_stamp env (tm_captured_at m); bad = malformed ''captured_at'' (tm_captured_at m) c
      in case c of
           Stamp t \<Rightarrow> (Some t, StampCapturedAt, bad)
         | _ \<Rightarrow>
             (let r = parse_capture_stamp env (tm_ts_request m);
                  bad' = bad @ malformed ''ts_request'' (tm_ts_request m) r
              in case r of
                   Stamp t \<Rightarrow> (Some (if usable_elapsed (tm_elapsed_seconds m) then t + elapsed_ns env m else t),
                               StampTsRequest, bad')
                 | _ \<Rightarrow> (None, StampFallback, bad')))"

subsection \<open>The reduction\<close>

record stored_raw_turn =
  sw_provider :: string
  sw_raw_request :: string
  sw_raw_response :: string
  sw_raw_response_encoding :: string
  sw_meta :: turn_meta

record raw_reduction =
  rw_response :: chat_response
  rw_created_at :: "gotime option"
  rw_truncated :: bool
  rw_duration_source :: stamp_source
  rw_created_at_source :: stamp_source
  rw_malformed_stamps :: "(string \<times> string) list"

datatype reduction_failure = NoReducer string | DecodeFailure string | ReduceFailure string

definition reduce_stored_raw_turn :: "reducer_env \<Rightarrow> stored_raw_turn \<Rightarrow> reduction_failure + raw_reduction" where
  "reduce_stored_raw_turn env t =
     (case raw_reducers env (sw_provider t) of
        None \<Rightarrow> Inl (NoReducer (sw_provider t))
      | Some reduce \<Rightarrow>
          and_then (wrap_err DecodeFailure
            (decode_content_encoding (re_codecs env) (sw_raw_response t) (sw_raw_response_encoding t))) (\<lambda>(body, stats).
          and_then (wrap_err ReduceFailure (reduce (sw_raw_request t) body (tm_content_type (sw_meta t)))) (\<lambda>resp.
            let (resp', dsrc) = stamp_duration env (sw_meta t) resp;
                (at_time, csrc, bad) = stamp_capture_time env (sw_meta t)
            in Inr \<lparr>rw_response = resp', rw_created_at = at_time, rw_truncated = dst_truncated stats,
                    rw_duration_source = dsrc, rw_created_at_source = csrc, rw_malformed_stamps = bad\<rparr>)))"

definition reduced_response_absent :: "chat_response \<Rightarrow> bool" where
  "reduced_response_absent r \<longleftrightarrow>
     rs_model r = [] \<and> msg_role (rs_message r) = [] \<and> msg_content (rs_message r) = [] \<and> \<not> rs_done r
     \<and> rs_stop_reason r = [] \<and> rs_usage r = None"

subsection \<open>The reducers of a rebuild\<close>

text \<open>The store a rebuild reads, with the reducers and the decoding of \<open>pkg/capture\<close>.\<close>

definition recovery_reducers ::
  "reducer_env \<Rightarrow> string \<Rightarrow> (string \<Rightarrow> string \<Rightarrow> string \<Rightarrow> chat_response option) option"
where
  "recovery_reducers env provider =
     map_option (\<lambda>f req body ct. case f req body ct of Inl _ \<Rightarrow> None | Inr r \<Rightarrow> Some r) (raw_reducers env provider)"

definition decode_stored_encoding :: "codecs \<Rightarrow> string \<Rightarrow> string \<Rightarrow> string option" where
  "decode_stored_encoding cx body encoding =
     (case decode_content_encoding cx body encoding of Inl _ \<Rightarrow> None | Inr (out, _) \<Rightarrow> Some out)"

definition with_recovery :: "reducer_env \<Rightarrow> rederive_store \<Rightarrow> rederive_store" where
  "with_recovery env st =
     st\<lparr>rd_reducers := recovery_reducers env, rd_decode := decode_stored_encoding (re_codecs env)\<rparr>"

subsection \<open>Facts\<close>

lemma stamp_duration_same:
  "rs_model (fst (stamp_duration env m r)) = rs_model r" "rs_message (fst (stamp_duration env m r)) = rs_message r"
  "rs_stop_reason (fst (stamp_duration env m r)) = rs_stop_reason r" "rs_done (fst (stamp_duration env m r)) = rs_done r"
  by (simp_all add: stamp_duration_def Let_def)

lemma with_recovery_views [simp]:
  "rd_content_type (with_recovery env st) = rd_content_type st" "rd_marshal (with_recovery env st) = rd_marshal st"
  "rd_reducers (with_recovery env st) = recovery_reducers env"
  "rd_decode (with_recovery env st) = decode_stored_encoding (re_codecs env)"
  by (simp_all add: with_recovery_def)

lemma content_type_recovery [simp]: "content_type_from_meta (with_recovery env st) meta = content_type_from_meta st meta"
  by (simp add: content_type_from_meta_def)

text \<open>Both paths are: find the reducer, decode, reduce.\<close>

definition reduced_bytes :: "reducer_env \<Rightarrow> stored_raw_turn \<Rightarrow> (chat_response \<times> decode_stats) option" where
  "reduced_bytes env t =
     (case raw_reducers env (sw_provider t) of
        None \<Rightarrow> None
      | Some reduce \<Rightarrow>
          (case decode_content_encoding (re_codecs env) (sw_raw_response t) (sw_raw_response_encoding t) of
             Inl _ \<Rightarrow> None
           | Inr (body, stats) \<Rightarrow>
               (case reduce (sw_raw_request t) body (tm_content_type (sw_meta t)) of
                  Inl _ \<Rightarrow> None | Inr r \<Rightarrow> Some (r, stats))))"

definition as_stored :: "rederive_store \<Rightarrow> turn_meta \<Rightarrow> stored_turn \<Rightarrow> stored_raw_turn" where
  "as_stored st m row =
     \<lparr>sw_provider = rt_provider row, sw_raw_request = rt_raw_request row, sw_raw_response = su_raw_response row,
      sw_raw_response_encoding = su_raw_response_encoding row,
      sw_meta = m\<lparr>tm_content_type := content_type_from_meta st (rt_meta row)\<rparr>\<rparr>"

lemma recovered_bytes:
  "recovered_response (with_recovery env st) row =
     (case reduced_bytes env (as_stored st m row) of None \<Rightarrow> None | Some (r, _) \<Rightarrow> rd_marshal st r)"
  by (simp add: recovered_response_def reduced_bytes_def as_stored_def recovery_reducers_def decode_stored_encoding_def
      split: option.split sum.split)

lemma ingest_bytes_None: "reduced_bytes env t = None \<Longrightarrow> \<exists>e. reduce_stored_raw_turn env t = Inl e"
  by (auto simp: reduced_bytes_def reduce_stored_raw_turn_def split: option.splits sum.splits)

lemma ingest_bytes_Some:
  "reduced_bytes env t = Some (r, stats) \<Longrightarrow>
   \<exists>red. reduce_stored_raw_turn env t = Inr red \<and> rw_response red = fst (stamp_duration env (sw_meta t) r)
       \<and> rw_truncated red = dst_truncated stats"
  by (auto simp: reduced_bytes_def reduce_stored_raw_turn_def Let_def split: option.splits sum.splits prod.split)

subsection \<open>Properties\<close>

text \<open>Ingest and rebuild reduce alike. When ingest would reduce the stored bytes of a turn to a
  response, the recovery of a rebuild reads the same model, message and stop reason out of the same
  bytes, and when ingest would fail the recovery leaves the row alone.\<close>

theorem recovery_agrees_with_ingest:
  "case reduce_stored_raw_turn env (as_stored st m row) of
     Inl _ \<Rightarrow> recover_reduction ext (with_recovery env st) row = row
   | Inr red \<Rightarrow> (\<exists>r. recovered_response (with_recovery env st) row = rd_marshal st r
           \<and> rs_model r = rs_model (rw_response red) \<and> rs_message r = rs_message (rw_response red)
           \<and> rs_stop_reason r = rs_stop_reason (rw_response red))"
proof (cases "reduced_bytes env (as_stored st m row)")
  case None
  from ingest_bytes_None [OF None] recovered_bytes [of env st row m] None show ?thesis
    by (auto simp: recover_reduction_def)
next
  case (Some x)
  obtain r stats where x: "x = (r, stats)" by (cases x)
  from ingest_bytes_Some [OF Some [unfolded x]] obtain red
    where red: "reduce_stored_raw_turn env (as_stored st m row) = Inr red"
      "rw_response red = fst (stamp_duration env (sw_meta (as_stored st m row)) r)" by blast
  moreover have "recovered_response (with_recovery env st) row = rd_marshal st r"
    using recovered_bytes [of env st row m] Some x by simp
  ultimately show ?thesis by (auto simp: stamp_duration_same)
qed

end
