(* ===== verification/Ingest.thy ===== *)
theory Ingest
  imports WorkerPool RawReduce
begin

text \<open>
  The ingest server (\<open>ingest/ingest.go\<close>, \<open>errorhandler.go\<close>, the counters of \<open>metrics.go\<close>): the
  handler of a completed turn, from the bytes of the body to the HTTP status, and of a transcript file.

  A handler maps the server's state - the raw store, the worker pool and the counters - to a reply and
  the state after it. Decoding a body and parsing a provider's request are parameters; a panic of the
  pool is no reply. A counter is the list of its increments.
\<close>

subsection \<open>Limits\<close>

definition max_raw_response_bytes :: nat where "max_raw_response_bytes = 8 * 2 ^ 20"
definition max_decoded_request_bytes :: nat where "max_decoded_request_bytes = 32 * 2 ^ 20"

definition max_ingest_body_bytes :: nat where
  "max_ingest_body_bytes = max_decoded_request_bytes + max_raw_response_bytes * 4 div 3 + 4 * 2 ^ 20"

definition max_worker_correlation_bytes :: nat where "max_worker_correlation_bytes = 256"

subsection \<open>Bodies\<close>

text \<open>An absent field of a body is the empty string.\<close>

record ingest_body =
  ib_provider :: string
  ib_agent_name :: string
  ib_raw_request :: string
  ib_response :: string
  ib_raw_response :: string
  ib_raw_response_encoding :: string
  ib_raw_response_withheld :: bool
  ib_meta :: string
  ib_session :: string

record turn_payload =
  tp_provider :: string
  tp_agent_name :: string
  tp_raw_request :: string
  tp_response :: chat_response
  tp_raw_response :: string
  tp_raw_response_encoding :: string
  tp_raw_response_withheld :: bool
  tp_meta :: turn_meta
  tp_session :: "ingest_envelope option"

record raw_envelope =
  rv_request :: string
  rv_response :: string
  rv_meta :: string
  rv_session :: string

record transcript_payload =
  tpl_session :: "ingest_envelope option"
  tpl_agent_id :: string
  tpl_agent_type :: string
  tpl_description :: string
  tpl_tool_use_id :: string
  tpl_kind :: string
  tpl_records :: string

record transcript_row_meta =
  trm_agent_id :: string
  trm_agent_type :: string
  trm_description :: string
  trm_tool_use_id :: string
  trm_kind :: string
  trm_records :: nat

text \<open>What identifies a version of a transcript file.\<close>

record transcript_identity =
  tid_harness_id :: string
  tid_harness_session_id :: string
  tid_spawn_lifecycle :: bool
  tid_lifecycle_kind :: string
  tid_main :: bool
  tid_agent_id :: string
  tid_records_hash :: string

record ingest_env =
  ie_body :: "string \<Rightarrow> string + ingest_body"
  ie_response :: "string \<Rightarrow> string + chat_response"
  ie_meta :: "string \<Rightarrow> string + turn_meta"
  ie_session :: "string \<Rightarrow> string + ingest_envelope option"
  ie_transcript :: "string \<Rightarrow> string + transcript_payload"
  ie_records :: "string \<Rightarrow> string + string list"
  ie_is_uuid :: "string \<Rightarrow> bool"
  ie_is_object :: "string \<Rightarrow> bool"
  ie_parse_request :: "string \<Rightarrow> string \<Rightarrow> string + chat_request"
  ie_encode_response :: "chat_response \<Rightarrow> string option"
  ie_encode_row_meta :: "transcript_row_meta \<Rightarrow> string"
  ie_encode_envelope :: "ingest_envelope \<Rightarrow> string"
  ie_encode_identity :: "transcript_identity \<Rightarrow> string"
  ie_sha256 :: "string \<Rightarrow> string" \<comment> \<open>in hexadecimal\<close>
  ie_reducers :: reducer_env
  ie_store :: store_env

definition supported_providers :: "string list" where
  "supported_providers = [''anthropic'', ''openai'', ''ollama'']"

definition zero_response :: chat_response where
  "zero_response = \<lparr>rs_model = [], rs_message = \<lparr>msg_role = [], msg_content = []\<rparr>, rs_done = False,
     rs_stop_reason = [], rs_usage = None, rs_extra = []\<rparr>"

definition zero_meta :: turn_meta where
  "zero_meta = \<lparr>tm_request_id = [], tm_upstream_request_id = [], tm_content_type = [], tm_thread_id = [],
     tm_elapsed_seconds = None, tm_ts_request = [], tm_captured_at = []\<rparr>"

definition decode_envelope_field :: "(string \<Rightarrow> string + 'a) \<Rightarrow> 'a \<Rightarrow> string \<Rightarrow> string + 'a" where
  "decode_envelope_field dec zero raw = (if raw = [] then Inr zero else dec raw)"

subsection \<open>Outcomes\<close>

datatype ingest_result =
    ResultAccepted | ResultRejectEnv | ResultRejectParse | ResultUnknownProv | ResultQueueFull
  | ResultDownstreamErr | ResultQueueByteBudget | ResultInternalErr | ResultRejectOversize

datatype ingest_error =
    ErrEnvelope string
  | ErrUnprocessable string
  | ErrDownstream string
  | ErrWorkerByteBudget

datatype ingest_reply = Reply (reply_status: nat) (reply_deduped: bool)

record ingest_metrics =
  im_writes :: "(string \<times> ingest_result) list"
  im_body_bytes :: "(string \<times> nat) list"
  im_stamps :: "(string \<times> stamp_source \<times> stamp_source) list" \<comment> \<open>duration and created-at\<close>
  im_queue_depth :: nat

record ingest_server =
  sv_db :: raw_db
  sv_pool :: pool
  sv_metrics :: ingest_metrics

definition provider_label :: "string \<Rightarrow> string" where
  "provider_label p = (if p = [] then ''unknown'' else p)"

definition observe_write :: "string \<Rightarrow> ingest_result \<Rightarrow> nat \<Rightarrow> ingest_server \<Rightarrow> ingest_server" where
  "observe_write p r n s =
     (let m = sv_metrics s in s\<lparr>sv_metrics := m
        \<lparr>im_writes := im_writes m @ [(provider_label p, r)],
         im_body_bytes := (if r = ResultAccepted \<and> 0 < n then im_body_bytes m @ [(provider_label p, n)]
                           else im_body_bytes m)\<rparr>\<rparr>)"

definition set_queue_depth :: "ingest_server \<Rightarrow> ingest_server" where
  "set_queue_depth s = s\<lparr>sv_metrics := (sv_metrics s)\<lparr>im_queue_depth := pool_len (sv_pool s)\<rparr>\<rparr>"

definition observe_stamps :: "string \<Rightarrow> raw_reduction \<Rightarrow> ingest_server \<Rightarrow> ingest_server" where
  "observe_stamps p red s =
     (let m = sv_metrics s in s\<lparr>sv_metrics := m
        \<lparr>im_stamps := im_stamps m @ [(provider_label p, rw_duration_source red, rw_created_at_source red)]\<rparr>\<rparr>)"

subsection \<open>Processing a turn\<close>

fun first_untyped :: "content_block list \<Rightarrow> nat \<Rightarrow> nat option" where
  "first_untyped [] i = None"
| "first_untyped (b # bs) i = (if cb_type b = [] then Some i else first_untyped bs (Suc i))"

definition validate_reduced_response :: "chat_response \<Rightarrow> string option" where
  "validate_reduced_response r =
     (if msg_role (rs_message r) = [] then Some ''missing response.message.role''
      else if msg_content (rs_message r) = [] then Some ''missing response.message.content''
      else case first_untyped (msg_content (rs_message r)) 0 of
             Some _ \<Rightarrow> Some ''missing response.message.content[].type''
           | None \<Rightarrow> None)"

definition bounded_worker_correlation :: "string \<Rightarrow> string" where
  "bounded_worker_correlation v = (if max_worker_correlation_bytes < length v then [] else v)"

definition turn_job :: "turn_payload \<Rightarrow> chat_request \<Rightarrow> nat \<Rightarrow> job" where
  "turn_job t req weight =
     \<lparr>jb_provider = tp_provider t, jb_agent_name = tp_agent_name t, jb_thread_id = tm_thread_id (tp_meta t),
      jb_request_id = bounded_worker_correlation (tm_request_id (tp_meta t)),
      jb_upstream_request_id = bounded_worker_correlation (tm_upstream_request_id (tp_meta t)),
      jb_req = req, jb_resp = tp_response t, jb_weight = int weight, jb_raw_request = [], jb_session = tp_session t\<rparr>"

text \<open>\<open>None\<close> is the panic of a closed pool.\<close>

definition process_turn :: "ingest_env \<Rightarrow> turn_payload \<Rightarrow> nat \<Rightarrow> ingest_server \<Rightarrow> (ingest_error option \<times> ingest_server) option" where
  "process_turn env t weight s =
     (if tp_provider t \<notin> set supported_providers then Some (Some (ErrUnprocessable ''unsupported provider''), s)
      else case ie_parse_request env (tp_provider t) (tp_raw_request t) of
             Inl e \<Rightarrow> Some (Some (ErrUnprocessable (''cannot parse request: '' @ e)), s)
           | Inr req \<Rightarrow>
               (case validate_reduced_response (tp_response t) of
                  Some e \<Rightarrow> Some (Some (ErrUnprocessable (''invalid reduced response: '' @ e)), s)
                | None \<Rightarrow>
                    (case admit (turn_job t req weight) (sv_pool s) of
                       (p, None) \<Rightarrow> None
                     | (p, Some reason) \<Rightarrow>
                         (let s1 = set_queue_depth (s\<lparr>sv_pool := p\<rparr>)
                          in Some (case reason of
                                     RejectNone \<Rightarrow> None
                                   | RejectByteBudget \<Rightarrow> Some ErrWorkerByteBudget
                                   | RejectQueueFull \<Rightarrow> Some (ErrDownstream ''worker queue full''), s1)))))"

definition process_error_result :: "string \<Rightarrow> ingest_error \<Rightarrow> ingest_result" where
  "process_error_result provider e =
     (case e of
        ErrEnvelope _ \<Rightarrow> ResultRejectEnv
      | ErrWorkerByteBudget \<Rightarrow> ResultQueueByteBudget
      | ErrDownstream _ \<Rightarrow> ResultDownstreamErr
      | ErrUnprocessable _ \<Rightarrow> if provider \<notin> set supported_providers then ResultUnknownProv else ResultRejectParse)"

definition process_error_status :: "ingest_error \<Rightarrow> nat" where
  "process_error_status e =
     (case e of ErrEnvelope _ \<Rightarrow> 400 | ErrDownstream _ \<Rightarrow> 502 | ErrWorkerByteBudget \<Rightarrow> 502 | ErrUnprocessable _ \<Rightarrow> 422)"

subsection \<open>The raw layer\<close>

text \<open>Reduce a payload that carries bytes and no reduction.\<close>

definition reduce_raw_only :: "ingest_env \<Rightarrow> turn_payload \<Rightarrow> ingest_server \<Rightarrow> string \<times> turn_payload \<times> ingest_server" where
  "reduce_raw_only env t s =
     (if tp_raw_response t = [] \<or> \<not> reduced_response_absent (tp_response t) then ([], t, s)
      else case reduce_stored_raw_turn (ie_reducers env)
                  \<lparr>sw_provider = tp_provider t, sw_raw_request = tp_raw_request t, sw_raw_response = tp_raw_response t,
                   sw_raw_response_encoding = tp_raw_response_encoding t, sw_meta = tp_meta t\<rparr> of
             Inl _ \<Rightarrow> ([], t, s)
           | Inr red \<Rightarrow>
               (let s1 = observe_stamps (tp_provider t) red s
                in case ie_encode_response env (rw_response red) of
                     None \<Rightarrow> ([], t, s1)
                   | Some j \<Rightarrow> (j, t\<lparr>tp_response := rw_response red\<rparr>, s1)))"

definition raw_turn_put :: "turn_payload \<Rightarrow> raw_envelope \<Rightarrow> raw_put" where
  "raw_turn_put t raw =
     (let over = max_raw_response_bytes < length (tp_raw_response t);
          bytes = (if over then [] else tp_raw_response t);
          dropped = over \<or> tp_raw_response_withheld t \<and> bytes = []
      in \<lparr>rt_id = 0, rt_source = source_wire, rt_provider = tp_provider t, rt_agent_name = tp_agent_name t,
          rt_harness_id = (if tp_session t = None then [] else harness_id_or_unknown (tp_session t)),
          rt_harness_session_id = (case tp_session t of None \<Rightarrow> [] | Some en \<Rightarrow> en_harness_session_id en),
          rt_request_id = tm_request_id (tp_meta t), rt_raw_request = rv_request raw, rt_response = rv_response raw,
          rt_meta = rv_meta raw, rt_session_envelope = rv_session raw, rt_received_at = 0,
          su_raw_response = bytes, su_raw_response_encoding = tp_raw_response_encoding t,
          rp_org_id = (case tp_session t of None \<Rightarrow> [] | Some en \<Rightarrow> en_org_id en),
          rp_raw_response_dropped = dropped\<rparr>)"

definition persist_raw_turn :: "ingest_env \<Rightarrow> gotime \<Rightarrow> turn_payload \<Rightarrow> raw_envelope \<Rightarrow> ingest_server \<Rightarrow> ingest_server" where
  "persist_raw_turn env now t raw s =
     s\<lparr>sv_db := or_unchanged (sv_db s) (put_raw_turn (ie_store env) now (raw_turn_put t raw) (sv_db s))\<rparr>"

subsection \<open>The handler of a turn\<close>

definition decode_payload :: "ingest_env \<Rightarrow> string \<Rightarrow> string + ingest_body \<times> turn_payload" where
  "decode_payload env body =
     and_then (ie_body env body) (\<lambda>b.
     and_then (decode_envelope_field (ie_response env) zero_response (ib_response b)) (\<lambda>resp.
     and_then (decode_envelope_field (ie_meta env) zero_meta (ib_meta b)) (\<lambda>meta.
     and_then (decode_envelope_field (ie_session env) None (ib_session b)) (\<lambda>session.
       let session' = map_option (\<lambda>en. en\<lparr>en_org_id := []\<rparr>) session
       in case validate_envelope (ie_is_uuid env) (ie_is_object env) session' of
            Some _ \<Rightarrow> Inl ''session''
          | None \<Rightarrow> Inr (b,
              \<lparr>tp_provider = ib_provider b, tp_agent_name = ib_agent_name b, tp_raw_request = ib_raw_request b,
               tp_response = resp, tp_raw_response = ib_raw_response b,
               tp_raw_response_encoding = ib_raw_response_encoding b,
               tp_raw_response_withheld = ib_raw_response_withheld b, tp_meta = meta, tp_session = session'\<rparr>)))))"

definition handle_ingest :: "ingest_env \<Rightarrow> gotime \<Rightarrow> string \<Rightarrow> ingest_server \<Rightarrow> (ingest_reply \<times> ingest_server) option" where
  "handle_ingest env now body s =
     (case decode_payload env body of
        Inl _ \<Rightarrow> Some (Reply 400 False, observe_write [] ResultRejectEnv (length body) s)
      | Inr (b, t) \<Rightarrow>
          (case reduce_raw_only env t s of (reduced, t1, s1) \<Rightarrow>
             let raw = \<lparr>rv_request = ib_raw_request b, rv_response = (if reduced \<noteq> [] then reduced else ib_response b),
                        rv_meta = ib_meta b, rv_session = ib_session b\<rparr>;
                 s2 = persist_raw_turn env now t1 raw s1
             in case process_turn env t1 (length body) s2 of
                  None \<Rightarrow> None
                | Some (Some e, s3) \<Rightarrow>
                    Some (Reply (process_error_status e) False,
                          observe_write (tp_provider t1) (process_error_result (tp_provider t1) e) (length body) s3)
                | Some (None, s3) \<Rightarrow>
                    Some (Reply 202 False, observe_write (tp_provider t1) ResultAccepted (length body) s3)))"

subsection \<open>The handler of a transcript\<close>

definition resolve_gateway_identity :: "string \<Rightarrow> ingest_envelope option \<Rightarrow> ingest_envelope option" where
  "resolve_gateway_identity subject session =
     map_option (\<lambda>en. let en1 = en\<lparr>en_org_id := []\<rparr>
                      in if subject = [] then en1 else en1\<lparr>en_auth_subject := subject\<rparr>) session"

definition transcript_identity_of :: "ingest_env \<Rightarrow> ingest_envelope \<Rightarrow> transcript_payload \<Rightarrow> transcript_identity" where
  "transcript_identity_of env en p =
     (let spawn = (tpl_kind p = [] \<or> tpl_kind p = ''started'')
      in \<lparr>tid_harness_id = harness_id_or_unknown (Some en), tid_harness_session_id = en_harness_session_id en,
          tid_spawn_lifecycle = spawn, tid_lifecycle_kind = (if spawn then [] else tpl_kind p),
          tid_main = (tpl_agent_id p = []), tid_agent_id = tpl_agent_id p,
          tid_records_hash = ie_sha256 env (tpl_records p)\<rparr>)"

definition transcript_request_id :: "ingest_env \<Rightarrow> ingest_envelope \<Rightarrow> transcript_payload \<Rightarrow> string" where
  "transcript_request_id env en p =
     ''transcript:v2:'' @ ie_sha256 env (ie_encode_identity env (transcript_identity_of env en p))"

definition transcript_put :: "ingest_env \<Rightarrow> ingest_envelope \<Rightarrow> transcript_payload \<Rightarrow> nat \<Rightarrow> raw_put" where
  "transcript_put env en p n =
     \<lparr>rt_id = 0, rt_source = source_transcript, rt_provider = [], rt_agent_name = [],
      rt_harness_id = harness_id_or_unknown (Some en), rt_harness_session_id = en_harness_session_id en,
      rt_request_id = transcript_request_id env en p, rt_raw_request = tpl_records p, rt_response = [],
      rt_meta = ie_encode_row_meta env \<lparr>trm_agent_id = tpl_agent_id p, trm_agent_type = tpl_agent_type p,
        trm_description = tpl_description p, trm_tool_use_id = tpl_tool_use_id p, trm_kind = tpl_kind p, trm_records = n\<rparr>,
      rt_session_envelope = ie_encode_envelope env en, rt_received_at = 0,
      su_raw_response = [], su_raw_response_encoding = [], rp_org_id = en_org_id en, rp_raw_response_dropped = False\<rparr>"

definition decode_transcript :: "ingest_env \<Rightarrow> string \<Rightarrow> string \<Rightarrow> string + ingest_envelope \<times> transcript_payload \<times> nat" where
  "decode_transcript env subject body =
     and_then (ie_transcript env body) (\<lambda>p.
       let session = resolve_gateway_identity subject (tpl_session p)
       in case validate_envelope (ie_is_uuid env) (ie_is_object env) session of
            Some _ \<Rightarrow> Inl ''session''
          | None \<Rightarrow>
              (case session of
                 None \<Rightarrow> Inl ''transcript ingest requires session.harness_session_id''
               | Some en \<Rightarrow>
                   if en_harness_session_id en = [] then Inl ''transcript ingest requires session.harness_session_id''
                   else and_then (ie_records env (tpl_records p)) (\<lambda>rs.
                     Inr (en, p\<lparr>tpl_session := session\<rparr>, length rs))))"

definition handle_transcript_ingest ::
  "ingest_env \<Rightarrow> gotime \<Rightarrow> string \<Rightarrow> string \<Rightarrow> ingest_server \<Rightarrow> ingest_reply \<times> ingest_server"
where
  "handle_transcript_ingest env now subject body s =
     (let observe = (\<lambda>r. observe_write ''transcript'' r (length body)) in
      case decode_transcript env subject body of
        Inl _ \<Rightarrow> (Reply 400 False, observe ResultRejectEnv s)
      | Inr (en, p, n) \<Rightarrow>
          (case put_raw_turn (ie_store env) now (transcript_put env en p n) (sv_db s) of
             Inl (InvalidContent _) \<Rightarrow> (Reply 422 False, observe ResultRejectParse s)
           | Inl (StoreFault _) \<Rightarrow> (Reply 502 False, observe ResultDownstreamErr s)
           | Inr (inserted, db) \<Rightarrow> (Reply 202 (\<not> inserted), observe ResultAccepted (s\<lparr>sv_db := db\<rparr>))))"

text \<open>The limit on a body is enforced before a handler runs.\<close>

definition over_body_limit :: "ingest_server \<Rightarrow> ingest_reply \<times> ingest_server" where
  "over_body_limit s = (Reply 413 False, observe_write [] ResultRejectOversize 0 s)"

definition serve_ingest :: "ingest_env \<Rightarrow> gotime \<Rightarrow> string \<Rightarrow> ingest_server \<Rightarrow> (ingest_reply \<times> ingest_server) option" where
  "serve_ingest env now body s =
     (if max_ingest_body_bytes < length body then Some (over_body_limit s) else handle_ingest env now body s)"

end
