(* ===== verification/Extproc.thy ===== *)
theory Extproc
  imports ExtprocHeaders Ingest
begin

text \<open>
  The ext_proc sidecar: the per-stream state machine of \<open>extproc/processor.go\<close>, the raw lane of
  \<open>rawlane.go\<close> and the drop reasons of \<open>dispatcher.go\<close> and \<open>pkg/capture/dropreason.go\<close>.

  A stream is the list of messages the proxy delivers before it ends, in order or in error; each
  message is answered and may end the turn, and the end of the stream may too. A turn ends in a drop
  with its reason or in an envelope handed to the dispatcher. Elapsed times and the synthetic request
  id are inputs; the reducers are those of \<open>pkg/capture\<close>. Metrics and logs are left out.
\<close>

subsection \<open>Paths and request metadata\<close>

definition path_has_clean_suffix :: "string \<Rightarrow> string \<Rightarrow> bool" where
  "path_has_clean_suffix path sfx =
     (let p = takeWhile (\<lambda>c. c \<noteq> CHR ''?'') path;
          q = rev (dropWhile (\<lambda>c. c = CHR ''/'') (rev p))
      in has_suffix q sfx)"

definition resolve_provider :: "(string \<Rightarrow> string option) \<Rightarrow> header list \<Rightarrow> string" where
  "resolve_provider providers hs =
     (case providers (header_get hs ''x-ai-eg-selected-backend'') of
        Some p \<Rightarrow> p
      | None \<Rightarrow>
          (let path = header_get hs '':path'' in
           if path_has_clean_suffix path ''/v1/chat/completions'' then ''openai''
           else if path_has_clean_suffix path ''/v1/responses'' \<or> path_has_clean_suffix path ''/codex/responses'' then ''openai''
           else if path_has_clean_suffix path ''/v1/messages/count_tokens'' then ''anthropic''
           else if path_has_clean_suffix path ''/v1/messages'' then ''anthropic''
           else if path_has_clean_suffix path ''/api/chat'' then ''ollama''
           else ''anthropic''))"

definition is_capturable_upstream_status :: "int \<Rightarrow> bool" where
  "is_capturable_upstream_status status \<longleftrightarrow> status = 200"

definition is_turn_request_path :: "string \<Rightarrow> bool" where
  "is_turn_request_path path \<longleftrightarrow>
     path_has_clean_suffix path ''/v1/chat/completions'' \<or> path_has_clean_suffix path ''/v1/responses''
     \<or> path_has_clean_suffix path ''/codex/responses'' \<or> path_has_clean_suffix path ''/v1/messages''
     \<or> path_has_clean_suffix path ''/api/chat''"

definition is_capturable_turn_request :: "string \<Rightarrow> string \<Rightarrow> bool" where
  "is_capturable_turn_request method path \<longleftrightarrow>
     is_turn_request_path path \<and> (method = [] \<or> equal_fold method ''POST'')"

definition classify_endpoint :: "string \<Rightarrow> string" where
  "classify_endpoint path =
     (if path_has_clean_suffix path ''/v1/messages/count_tokens'' then ''messages_count_tokens''
      else if path_has_clean_suffix path ''/v1/messages'' then ''messages''
      else if path_has_clean_suffix path ''/v1/chat/completions'' then ''chat_completions''
      else if path_has_clean_suffix path ''/v1/responses'' \<or> path_has_clean_suffix path ''/codex/responses'' then ''responses''
      else if path_has_clean_suffix path ''/api/chat'' then ''ollama_chat''
      else ''other'')"

definition safe_model :: "string \<Rightarrow> string" where
  "safe_model model = take 128 (go_trim_space model)"

definition model_family :: "string \<Rightarrow> string" where
  "model_family model =
     (let m = go_to_lower (go_trim_space model) in
      case find (has_prefix m) [''claude-fable-5'', ''claude-opus-4'', ''claude-sonnet-5'', ''claude-sonnet-4'',
             ''claude-haiku-4-5'', ''claude-3-7-sonnet'', ''claude-3-5-sonnet'', ''gpt-5''] of
        Some f \<Rightarrow> f
      | None \<Rightarrow> if m = [] then ''unknown'' else ''other'')"

record request_meta =
  rm_streaming :: bool
  rm_stream_label :: string
  rm_model :: string
  rm_model_family :: string

definition no_request_meta :: request_meta where
  "no_request_meta = \<lparr>rm_streaming = False, rm_stream_label = ''unknown'', rm_model = [], rm_model_family = ''unknown''\<rparr>"

text \<open>The probe decodes \<open>stream\<close> and \<open>model\<close> of a body.\<close>

definition parse_request_meta :: "(string \<Rightarrow> (bool option \<times> string) option) \<Rightarrow> string \<Rightarrow> string \<Rightarrow> request_meta" where
  "parse_request_meta probe provider body =
     (if body = [] \<or> provider \<notin> {''anthropic'', ''openai'', ''ollama''} then no_request_meta
      else case probe body of
             None \<Rightarrow> no_request_meta
           | Some (stream, model) \<Rightarrow>
               \<lparr>rm_streaming = (stream = Some True), rm_stream_label = (if stream = Some True then ''true'' else ''false''),
                rm_model = safe_model model, rm_model_family = model_family model\<rparr>)"

definition status_class :: "int \<Rightarrow> string" where
  "status_class st =
     (if st \<le> 0 then ''unknown'' else if st < 200 then ''1xx'' else if st < 300 then ''2xx'' else if st < 400 then ''3xx''
      else if st < 500 then ''4xx'' else if st < 600 then ''5xx'' else ''unknown'')"

subsection \<open>The raw lane\<close>

datatype raw_response_mode = RawResponseOff | RawResponseDual | RawResponseRaw

definition parse_raw_response_mode :: "string \<Rightarrow> string + raw_response_mode" where
  "parse_raw_response_mode s =
     (let m = go_to_lower (go_trim_space s) in
      if m = [] \<or> m = ''off'' then Inr RawResponseOff
      else if m = ''dual'' then Inr RawResponseDual
      else if m = ''raw'' then Inr RawResponseRaw
      else Inl ''unknown raw response mode'')"

definition sends_raw_bytes :: "raw_response_mode \<Rightarrow> bool" where
  "sends_raw_bytes m \<longleftrightarrow> m = RawResponseDual \<or> m = RawResponseRaw"

definition raw_lane_envelope_reserve :: nat where "raw_lane_envelope_reserve = 2 ^ 20"

definition request_capture_budget :: nat where
  "request_capture_budget = max_ingest_body_bytes - raw_lane_envelope_reserve"

definition base64_len :: "nat \<Rightarrow> nat" where
  "base64_len n = (n + 2) div 3 * 4"

definition raw_response_fits :: "nat \<Rightarrow> nat \<Rightarrow> bool" where
  "raw_response_fits raw_len req_len =
     (let budget = int max_ingest_body_bytes - int req_len - int raw_lane_envelope_reserve
      in 0 < budget \<and> int (base64_len raw_len) \<le> budget)"

datatype raw_skip = TransportBudget | OversizeStripped
datatype raw_fallback = EncodingNotDecodable

record raw_lane_decision =
  rl_attach_raw :: bool
  rl_omit_reduction :: bool
  rl_skip_reason :: "raw_skip option"
  rl_fallback_reason :: "raw_fallback option"

definition no_raw_lane :: raw_lane_decision where
  "no_raw_lane = \<lparr>rl_attach_raw = False, rl_omit_reduction = False, rl_skip_reason = None, rl_fallback_reason = None\<rparr>"

definition decide_raw_lane :: "raw_response_mode \<Rightarrow> nat \<Rightarrow> nat \<Rightarrow> bool \<Rightarrow> raw_lane_decision" where
  "decide_raw_lane mode raw_len req_len can_decode =
     (if \<not> sends_raw_bytes mode then no_raw_lane
      else if \<not> raw_response_fits raw_len req_len then no_raw_lane\<lparr>rl_skip_reason := Some TransportBudget\<rparr>
      else let d = no_raw_lane\<lparr>rl_attach_raw := True\<rparr>
           in if mode \<noteq> RawResponseRaw then d
              else if \<not> can_decode then d\<lparr>rl_fallback_reason := Some EncodingNotDecodable\<rparr>
              else d\<lparr>rl_omit_reduction := True\<rparr>)"

subsection \<open>Outcomes of a turn\<close>

datatype drop_reason =
    DropUpstreamStatus | DropNonTurnRequest | DropRequestDecode | DropEmptyResponse | DropUnknownProvider
  | DropResponseDecode | DropReducerError
  | DropMarshalError | DropIngestReject | DropIngestTimeout | DropSemFull | DropClientDisconnect
  | DropUpstreamNoResponse | DropMissingStatus | DropRequestOverBudget

record ext_turn_meta =
  xm_request_id :: string
  xm_content_type :: string
  xm_thread_id :: string
  xm_method :: string
  xm_path :: string
  xm_endpoint :: string
  xm_model :: string
  xm_model_family :: string
  xm_stream :: string
  xm_content_encoding :: string
  xm_upstream_status :: int
  xm_upstream_status_class :: string
  xm_request_bytes :: nat
  xm_response_bytes :: nat
  xm_elapsed_seconds :: rat

record dispatched_session =
  ds_org_id :: string
  ds_auth_subject :: string
  ds_harness_id :: string
  ds_harness_session_id :: string
  ds_harness_version :: string
  ds_cwd :: string
  ds_name :: string
  ds_parent_harness_session_id :: string
  ds_harness_metadata :: "jobj option"

record turn_envelope =
  te_provider :: string
  te_agent_name :: string
  te_request :: string
  te_response :: "chat_response option"
  te_raw_response :: string
  te_raw_response_encoding :: string
  te_raw_response_withheld :: bool
  te_meta :: ext_turn_meta
  te_session :: "dispatched_session option"
  te_reduced_fallback :: "chat_response option"

datatype turn_outcome = Dropped drop_reason | Dispatched turn_envelope

subsection \<open>The state of a stream\<close>

record processor_env =
  pe_provider_map :: "string \<Rightarrow> string option"
  pe_mode :: raw_response_mode
  pe_reducers :: reducer_env
  pe_probe :: "string \<Rightarrow> (bool option \<times> string) option"
  pe_metadata :: "string \<Rightarrow> jobj option"
  pe_synthetic_id :: string \<comment> \<open>\<open>randHex(8)\<close>\<close>
  pe_elapsed_ns :: int \<comment> \<open>from the headers to the end of the turn\<close>

record stream_state =
  xs_provider :: string
  xs_agent_name :: string
  xs_thread_id :: string
  xs_content_type :: string
  xs_content_encoding :: string
  xs_request_content_encoding :: string
  xs_request_decode_err :: "string option"
  xs_status_code :: int
  xs_streaming :: bool
  xs_stream_label :: string
  xs_request_id :: string
  xs_path :: string
  xs_method :: string
  xs_endpoint :: string
  xs_model :: string
  xs_model_family :: string
  xs_started :: bool
  xs_session :: session_headers
  xs_org_id :: string
  xs_auth_subject :: string
  xs_req_buf :: string
  xs_decoded_req :: string
  xs_resp_buf :: string
  xs_req_over_budget :: bool
  xs_req_eos :: bool
  xs_resp_eos :: bool

definition new_stream_state :: stream_state where
  "new_stream_state = \<lparr>xs_provider = [], xs_agent_name = [], xs_thread_id = [], xs_content_type = [],
     xs_content_encoding = [], xs_request_content_encoding = [], xs_request_decode_err = None, xs_status_code = 0,
     xs_streaming = False, xs_stream_label = [], xs_request_id = [], xs_path = [], xs_method = [], xs_endpoint = [],
     xs_model = [], xs_model_family = [], xs_started = False, xs_session = absent_session, xs_org_id = [],
     xs_auth_subject = [], xs_req_buf = [], xs_decoded_req = [], xs_resp_buf = [], xs_req_over_budget = False,
     xs_req_eos = False, xs_resp_eos = False\<rparr>"

definition processor_reducers :: "reducer_env \<Rightarrow> string \<Rightarrow> reducer option" where
  "processor_reducers re provider =
     (if provider = ''anthropic''
      then Some (\<lambda>_ body ct. anthropic_reduce (re_anthropic re) (\<lambda>_. None) (Some body) ct)
      else if provider = ''openai''
      then Some (\<lambda>_ body ct. openai_reduce (re_openai re) (\<lambda>_. None) (Some body) ct)
      else None)"

definition reducer_handles_endpoint :: "string \<Rightarrow> string \<Rightarrow> bool" where
  "reducer_handles_endpoint provider endpoint =
     (if provider = ''anthropic'' then endpoint = ''messages''
      else if provider = ''openai'' then endpoint = ''responses'' else False)"

definition reducer_for :: "reducer_env \<Rightarrow> string \<Rightarrow> string \<Rightarrow> reducer option" where
  "reducer_for re provider endpoint =
     (if \<not> reducer_handles_endpoint provider endpoint then None else processor_reducers re provider)"

subsection \<open>Headers and request body\<close>

definition note_request_headers :: "processor_env \<Rightarrow> header list \<Rightarrow> stream_state \<Rightarrow> stream_state" where
  "note_request_headers env hs st =
     st\<lparr>xs_started := True, xs_provider := resolve_provider (pe_provider_map env) hs,
        xs_agent_name := header_get hs ''x-tapes-agent-name'', xs_thread_id := header_thread_id hs,
        xs_path := header_get hs '':path'', xs_method := header_get hs '':method'',
        xs_endpoint := classify_endpoint (header_get hs '':path''),
        xs_request_content_encoding := header_get hs ''content-encoding'',
        xs_stream_label := ''unknown'', xs_model_family := ''unknown'',
        xs_request_id := (if header_get hs ''x-request-id'' = [] then ''extproc-'' @ pe_synthetic_id env
                          else header_get hs ''x-request-id''),
        xs_session := parse_session_envelope (pe_metadata env) hs,
        xs_org_id := header_get hs ''x-paper-auth-org-id'', xs_auth_subject := header_get hs ''x-paper-auth-subject''\<rparr>"

definition decode_request_body :: "codecs \<Rightarrow> string \<Rightarrow> string \<Rightarrow> string + string" where
  "decode_request_body cx body encoding =
     and_then (decode_content_encoding cx body encoding) (\<lambda>(decoded, stats).
       if dst_truncated stats then Inl ''truncated compressed request body'' else Inr decoded)"

definition decode_request :: "processor_env \<Rightarrow> stream_state \<Rightarrow> stream_state" where
  "decode_request env st =
     (case decode_request_body (re_codecs (pe_reducers env)) (xs_req_buf st) (xs_request_content_encoding st) of
        Inl e \<Rightarrow> st\<lparr>xs_decoded_req := [], xs_request_decode_err := Some e\<rparr>
      | Inr d \<Rightarrow>
          if request_capture_budget < length d
          then st\<lparr>xs_request_decode_err := None, xs_req_over_budget := True, xs_decoded_req := []\<rparr>
          else let m = parse_request_meta (pe_probe env) (xs_provider st) d
               in st\<lparr>xs_request_decode_err := None, xs_decoded_req := d, xs_streaming := rm_streaming m,
                     xs_stream_label := rm_stream_label m, xs_model := rm_model m, xs_model_family := rm_model_family m\<rparr>)"

text \<open>The new state, and whether the response is switched to streaming.\<close>

definition note_request_body :: "processor_env \<Rightarrow> string \<Rightarrow> bool \<Rightarrow> stream_state \<Rightarrow> stream_state \<times> bool" where
  "note_request_body env chunk eos st =
     (let st1 = (if xs_req_over_budget st \<or> request_capture_budget < length (xs_req_buf st) + length chunk
                 then st\<lparr>xs_req_over_budget := True\<rparr> else st\<lparr>xs_req_buf := xs_req_buf st @ chunk\<rparr>)
      in if \<not> eos then (st1, False)
         else let st2 = st1\<lparr>xs_req_eos := True\<rparr>;
                  st3 = (if xs_req_over_budget st2 then st2 else decode_request env st2)
              in (st3, reducer_for (pe_reducers env) (xs_provider st3) (xs_endpoint st3) \<noteq> None
                       \<and> (xs_streaming st3 \<or> xs_req_over_budget st3)))"

subsection \<open>Dispatching a turn\<close>

definition build_session_envelope :: "stream_state \<Rightarrow> dispatched_session option" where
  "build_session_envelope st =
     (let s = xs_session st
      in if \<not> sh_present s then None
         else Some \<lparr>ds_org_id = xs_org_id st, ds_auth_subject = xs_auth_subject st, ds_harness_id = sh_harness_id s,
                ds_harness_session_id = sh_harness_session_id s, ds_harness_version = sh_harness_version s,
                ds_cwd = sh_cwd s, ds_name = sh_name s, ds_parent_harness_session_id = sh_parent_harness_session_id s,
                ds_harness_metadata = sh_harness_metadata s\<rparr>)"

definition elapsed_nanos :: "processor_env \<Rightarrow> stream_state \<Rightarrow> int" where
  "elapsed_nanos env st = (if xs_started st then pe_elapsed_ns env else 0)"

definition stamp_wall_clock :: "int \<Rightarrow> chat_response \<Rightarrow> chat_response" where
  "stamp_wall_clock ns r =
     (let u = (case rs_usage r of None \<Rightarrow> zero_usage | Some u \<Rightarrow> u) in r\<lparr>rs_usage := Some (u\<lparr>total_duration_ns := ns\<rparr>)\<rparr>)"

definition turn_meta_of :: "processor_env \<Rightarrow> stream_state \<Rightarrow> ext_turn_meta" where
  "turn_meta_of env st =
     \<lparr>xm_request_id = xs_request_id st, xm_content_type = xs_content_type st, xm_thread_id = xs_thread_id st,
      xm_method = xs_method st, xm_path = xs_path st, xm_endpoint = xs_endpoint st, xm_model = xs_model st,
      xm_model_family = xs_model_family st, xm_stream = xs_stream_label st,
      xm_content_encoding = xs_content_encoding st, xm_upstream_status = xs_status_code st,
      xm_upstream_status_class = status_class (xs_status_code st), xm_request_bytes = length (xs_req_buf st),
      xm_response_bytes = length (xs_resp_buf st), xm_elapsed_seconds = rat_of_int (elapsed_nanos env st) / 1000000000\<rparr>"

definition turn_envelope_of :: "processor_env \<Rightarrow> stream_state \<Rightarrow> chat_response \<Rightarrow> turn_envelope" where
  "turn_envelope_of env st resp =
     (let d = decide_raw_lane (pe_mode env) (length (xs_resp_buf st)) (length (xs_decoded_req st)) True
      in \<lparr>te_provider = xs_provider st, te_agent_name = xs_agent_name st, te_request = xs_decoded_req st,
          te_response = (if rl_omit_reduction d then None else Some resp),
          te_raw_response = (if rl_attach_raw d then xs_resp_buf st else []),
          te_raw_response_encoding = (if rl_attach_raw d then xs_content_encoding st else []),
          te_raw_response_withheld = (rl_skip_reason d \<noteq> None), te_meta = turn_meta_of env st,
          te_session = build_session_envelope st,
          te_reduced_fallback = (if rl_omit_reduction d then Some resp else None)\<rparr>)"

definition dispatch_turn :: "processor_env \<Rightarrow> stream_state \<Rightarrow> turn_outcome" where
  "dispatch_turn env st =
     (if xs_req_over_budget st then Dropped DropRequestOverBudget
      else if \<not> is_capturable_turn_request (xs_method st) (xs_path st) then Dropped DropNonTurnRequest
      else if xs_request_decode_err st \<noteq> None then Dropped DropRequestDecode
      else if xs_resp_buf st = [] then Dropped DropEmptyResponse
      else case reducer_for (pe_reducers env) (xs_provider st) (xs_endpoint st) of
             None \<Rightarrow> Dropped DropUnknownProvider
           | Some reduce \<Rightarrow>
               (case decode_content_encoding (re_codecs (pe_reducers env)) (xs_resp_buf st) (xs_content_encoding st) of
                  Inl _ \<Rightarrow> Dropped DropResponseDecode
                | Inr (decoded, _) \<Rightarrow>
                    (case reduce (xs_decoded_req st) decoded (xs_content_type st) of
                       Inl _ \<Rightarrow> Dropped DropReducerError
                     | Inr resp \<Rightarrow>
                         Dispatched (turn_envelope_of env st (stamp_wall_clock (elapsed_nanos env st) resp)))))"

text \<open>What the output of a reducer lacks, which is only logged.\<close>

definition reducer_empty_reason :: "chat_response option \<Rightarrow> string option" where
  "reducer_empty_reason r =
     (case r of
        None \<Rightarrow> Some ''nil_response''
      | Some x \<Rightarrow> if msg_role (rs_message x) = [] then Some ''missing_role''
                  else if msg_content (rs_message x) = [] then Some ''empty_content''
                  else if list_ex (\<lambda>b. cb_type b = []) (msg_content (rs_message x)) then Some ''missing_block_type''
                  else None)"

subsection \<open>The stream\<close>

datatype ext_message =
    RequestHeaders "header list"
  | RequestBody string bool
  | ResponseHeaders "header list"
  | ResponseBody string bool
  | OtherMessage

datatype ext_reply =
    RequestHeadersReply "string list" \<comment> \<open>the headers to remove\<close>
  | RequestBodyReply bool \<comment> \<open>whether the response body is to be streamed\<close>
  | ResponseHeadersReply
  | ResponseBodyReply

record stream_run =
  sx_state :: stream_state
  sx_turn_done :: bool
  sx_outcomes :: "turn_outcome list"
  sx_replies :: "ext_reply list"

definition end_of_response :: "processor_env \<Rightarrow> stream_state \<Rightarrow> turn_outcome" where
  "end_of_response env st =
     (if xs_status_code st = 0 then Dropped DropMissingStatus
      else if is_capturable_upstream_status (xs_status_code st) then dispatch_turn env st
      else Dropped DropUpstreamStatus)"

fun process_message :: "processor_env \<Rightarrow> ext_message \<Rightarrow> stream_run \<Rightarrow> stream_run" where
  "process_message env (RequestHeaders hs) r =
     r\<lparr>sx_state := note_request_headers env hs (sx_state r),
       sx_replies := sx_replies r @ [RequestHeadersReply (envelope_header_keys hs)]\<rparr>"
| "process_message env (RequestBody chunk eos) r =
     (case note_request_body env chunk eos (sx_state r) of (st, stream) \<Rightarrow>
        r\<lparr>sx_state := st, sx_replies := sx_replies r @ [RequestBodyReply stream]\<rparr>)"
| "process_message env (ResponseHeaders hs) r =
     r\<lparr>sx_state := (sx_state r)\<lparr>xs_status_code := header_status_code hs, xs_content_type := header_get hs ''content-type'',
          xs_content_encoding := header_get hs ''content-encoding''\<rparr>,
       sx_replies := sx_replies r @ [ResponseHeadersReply]\<rparr>"
| "process_message env (ResponseBody chunk eos) r =
     (let st = (sx_state r)\<lparr>xs_resp_buf := xs_resp_buf (sx_state r) @ chunk\<rparr>
      in if \<not> eos then r\<lparr>sx_state := st, sx_replies := sx_replies r @ [ResponseBodyReply]\<rparr>
         else let st1 = st\<lparr>xs_resp_eos := True\<rparr>
              in \<lparr>sx_state = st1, sx_turn_done = True, sx_outcomes = sx_outcomes r @ [end_of_response env st1],
                  sx_replies = sx_replies r @ [ResponseBodyReply]\<rparr>)"
| "process_message env OtherMessage r = r"

definition new_stream_run :: stream_run where
  "new_stream_run = \<lparr>sx_state = new_stream_state, sx_turn_done = False, sx_outcomes = [], sx_replies = []\<rparr>"

text \<open>The deferred classification of a stream that closed before its turn ended.\<close>

definition late_outcome :: "processor_env \<Rightarrow> stream_state \<Rightarrow> turn_outcome list" where
  "late_outcome env st =
     (if xs_req_eos st \<and> \<not> xs_resp_eos st \<and> xs_resp_buf st = [] then [Dropped DropUpstreamNoResponse]
      else if xs_req_eos st \<and> \<not> xs_resp_eos st \<and> xs_status_code st = 200 \<and> xs_resp_buf st \<noteq> [] then [dispatch_turn env st]
      else if xs_resp_buf st \<noteq> [] \<or> xs_req_eos st then [Dropped DropClientDisconnect]
      else [])"

definition process_stream :: "processor_env \<Rightarrow> ext_message list \<Rightarrow> stream_run" where
  "process_stream env msgs =
     (let r = fold (process_message env) msgs new_stream_run
      in if sx_turn_done r then r else r\<lparr>sx_outcomes := sx_outcomes r @ late_outcome env (sx_state r)\<rparr>)"

end
