(* ===== verification/IngestFacts.thy ===== *)
theory IngestFacts
  imports Ingest
begin

text \<open>
  What the ingest server promises: no accepted envelope is lost before its turn is parsed, which status
  each outcome has, what the marker of dropped bytes says, and under which key a turn's row, its
  session and its queue entry are found - at ingest and in the local proxy.
\<close>

subsection \<open>Frames\<close>

lemma observe_frame [simp]:
  "sv_db (observe_write p r n s) = sv_db s" "sv_pool (observe_write p r n s) = sv_pool s"
  "sv_db (set_queue_depth s) = sv_db s" "sv_pool (set_queue_depth s) = sv_pool s"
  "sv_db (observe_stamps p red s) = sv_db s" "sv_pool (observe_stamps p red s) = sv_pool s"
  by (simp_all add: observe_write_def set_queue_depth_def observe_stamps_def Let_def)

lemma observe_writes [simp]:
  "im_writes (sv_metrics (observe_write p r n s)) = im_writes (sv_metrics s) @ [(provider_label p, r)]"
  "im_writes (sv_metrics (set_queue_depth s)) = im_writes (sv_metrics s)"
  "im_writes (sv_metrics (observe_stamps p red s)) = im_writes (sv_metrics s)"
  by (simp_all add: observe_write_def set_queue_depth_def observe_stamps_def Let_def)

lemma persist_frame [simp]:
  "sv_pool (persist_raw_turn env now t raw s) = sv_pool s"
  "sv_metrics (persist_raw_turn env now t raw s) = sv_metrics s"
  by (simp_all add: persist_raw_turn_def)

lemma reduce_raw_only_frame:
  assumes "reduce_raw_only env t s = (reduced, t1, s1)"
  shows "sv_db s1 = sv_db s \<and> sv_pool s1 = sv_pool s \<and> im_writes (sv_metrics s1) = im_writes (sv_metrics s)
    \<and> (\<exists>r. t1 = t\<lparr>tp_response := r\<rparr>)"
proof -
  have "t = t\<lparr>tp_response := tp_response t\<rparr>" by simp
  then have "\<exists>r. t = t\<lparr>tp_response := r\<rparr>" by blast
  with assms show ?thesis
    by (auto simp: reduce_raw_only_def Let_def split: if_splits sum.splits option.splits)
qed

lemma process_turn_frame:
  "process_turn env t w s = Some (e, s') \<Longrightarrow> sv_db s' = sv_db s \<and> im_writes (sv_metrics s') = im_writes (sv_metrics s)"
  by (auto simp: process_turn_def Let_def split: if_splits sum.splits option.splits prod.splits)

lemma process_turn_errors: "process_turn env t w s = Some (Some e, s') \<Longrightarrow> case e of ErrEnvelope _ \<Rightarrow> False | _ \<Rightarrow> True"
  by (auto simp: process_turn_def Let_def split: if_splits sum.splits option.splits prod.splits reject_reason.splits)

text \<open>The reduction touches the response only; the row of a turn does not read it.\<close>

lemma raw_turn_put_response [simp]: "raw_turn_put (t\<lparr>tp_response := r\<rparr>) raw = raw_turn_put t raw"
  by (simp add: raw_turn_put_def Let_def)

definition stored_envelope :: "string \<Rightarrow> ingest_body \<Rightarrow> raw_envelope" where
  "stored_envelope reduced b =
     \<lparr>rv_request = ib_raw_request b, rv_response = (if reduced \<noteq> [] then reduced else ib_response b),
      rv_meta = ib_meta b, rv_session = ib_session b\<rparr>"

lemma handle_ingest_decoded:
  assumes "decode_payload env body = Inr (b, t)" "reduce_raw_only env t s = (reduced, t1, s1)"
  shows "handle_ingest env now body s =
    (case process_turn env t1 (length body) (persist_raw_turn env now t1 (stored_envelope reduced b) s1) of
       None \<Rightarrow> None
     | Some (Some e, s3) \<Rightarrow>
         Some (Reply (process_error_status e) False,
               observe_write (tp_provider t1) (process_error_result (tp_provider t1) e) (length body) s3)
     | Some (None, s3) \<Rightarrow> Some (Reply 202 False, observe_write (tp_provider t1) ResultAccepted (length body) s3))"
  by (simp add: handle_ingest_def assms stored_envelope_def Let_def)

lemma handle_ingest_db:
  assumes "decode_payload env body = Inr (b, t)" "handle_ingest env now body s = Some (reply, s')"
  shows "sv_db s' = or_unchanged (sv_db s) (put_raw_turn (ie_store env) now
           (raw_turn_put t (stored_envelope (fst (reduce_raw_only env t s)) b)) (sv_db s))"
proof -
  obtain reduced t1 s1 where r: "reduce_raw_only env t s = (reduced, t1, s1)" by (cases "reduce_raw_only env t s")
  note f = reduce_raw_only_frame [OF r]
  then obtain q where t1: "t1 = t\<lparr>tp_response := q\<rparr>" by blast
  obtain e s3 where p: "process_turn env t1 (length body) (persist_raw_turn env now t1 (stored_envelope reduced b) s1) = Some (e, s3)"
      "sv_db s' = sv_db s3"
    using assms(2) by (auto simp: handle_ingest_decoded [OF assms(1) r] split: option.splits)
  show ?thesis using process_turn_frame [OF p(1)] p(2) f by (simp add: r t1 persist_raw_turn_def)
qed

subsection \<open>Properties\<close>

text \<open>C19: Capture before parsing. An envelope that does not decode or validate is answered 400 and
  writes nothing. Every other one has its row appended, whatever becomes of the turn - an unknown
  provider, a request that does not parse, a response that is not valid, a queue that is full - and is
  answered 202, 422 or 502, never 400.\<close>

theorem capture_before_parse:
  "case handle_ingest env now body s of
     None \<Rightarrow> True
   | Some (reply, s') \<Rightarrow>
       (case decode_payload env body of
          Inl _ \<Rightarrow> reply_status reply = 400 \<and> sv_db s' = sv_db s \<and> sv_pool s' = sv_pool s
        | Inr (b, t) \<Rightarrow>
            reply_status reply \<in> {202, 422, 502}
          \<and> sv_db s' = or_unchanged (sv_db s) (put_raw_turn (ie_store env) now
              (raw_turn_put t (stored_envelope (fst (reduce_raw_only env t s)) b)) (sv_db s)))"
proof (cases "decode_payload env body")
  case (Inl e)
  then show ?thesis by (simp add: handle_ingest_def)
next
  case (Inr x)
  obtain b t where x: "x = (b, t)" by (cases x)
  note d = Inr [unfolded x]
  obtain reduced t1 s1 where r: "reduce_raw_only env t s = (reduced, t1, s1)" by (cases "reduce_raw_only env t s")
  have st: "reply_status reply \<in> {202, 422, 502}" if "handle_ingest env now body s = Some (reply, s')" for reply s'
    using that unfolding handle_ingest_decoded [OF d r]
    by (auto simp: process_error_status_def dest!: process_turn_errors split: option.splits ingest_error.splits)
  show ?thesis
    using st handle_ingest_db [OF d] by (simp add: d split: option.split)
qed

text \<open>The outcome counted for a reply, by status.\<close>

definition counted_as :: "nat \<Rightarrow> ingest_result set" where
  "counted_as st =
     (if st = 202 then {ResultAccepted} else if st = 400 then {ResultRejectEnv}
      else if st = 413 then {ResultRejectOversize} else if st = 422 then {ResultRejectParse, ResultUnknownProv}
      else if st = 502 then {ResultDownstreamErr, ResultQueueByteBudget} else {})"

lemma process_error_counted: "case e of ErrEnvelope _ \<Rightarrow> False | _ \<Rightarrow> True \<Longrightarrow>
  process_error_result p e \<in> counted_as (process_error_status e)"
  by (cases e) (auto simp: process_error_result_def process_error_status_def counted_as_def)

lemma handle_ingest_writes:
  assumes "handle_ingest env now body s = Some (reply, s')"
  shows "\<exists>p r. im_writes (sv_metrics s') = im_writes (sv_metrics s) @ [(p, r)] \<and> r \<in> counted_as (reply_status reply)"
proof (cases "decode_payload env body")
  case (Inl e)
  with assms show ?thesis by (auto simp: handle_ingest_def counted_as_def)
next
  case (Inr x)
  obtain b t where x: "x = (b, t)" by (cases x)
  note d = Inr [unfolded x]
  obtain reduced t1 s1 where r: "reduce_raw_only env t s = (reduced, t1, s1)" by (cases "reduce_raw_only env t s")
  obtain e s3 where p: "process_turn env t1 (length body) (persist_raw_turn env now t1 (stored_envelope reduced b) s1) = Some (e, s3)"
    using assms by (auto simp: handle_ingest_decoded [OF d r] split: option.splits)
  have w: "im_writes (sv_metrics s3) = im_writes (sv_metrics s)"
    using process_turn_frame [OF p] reduce_raw_only_frame [OF r] by simp
  show ?thesis
  proof (cases e)
    case None
    with assms p w show ?thesis by (auto simp: handle_ingest_decoded [OF d r] counted_as_def)
  next
    case (Some err)
    with assms p w process_error_counted [OF process_turn_errors] show ?thesis
      by (auto simp: handle_ingest_decoded [OF d r])
  qed
qed

text \<open>C20: One outcome per reply. A request of either kind that is answered is counted exactly once, under
  an outcome of its status: accepted for 202, a rejected envelope for 400, an oversize body for 413, an
  unparseable turn or unknown provider for 422, a downstream failure or an exhausted byte budget for
  502. The outcome of a full queue is therefore never counted as such.\<close>

theorem one_outcome_per_reply:
  "(case serve_ingest env now body s of
      None \<Rightarrow> True
    | Some (reply, s') \<Rightarrow> \<exists>p r. im_writes (sv_metrics s') = im_writes (sv_metrics s) @ [(p, r)]
                           \<and> r \<in> counted_as (reply_status reply) \<and> r \<noteq> ResultQueueFull)
   \<and> (case handle_transcript_ingest env now subject body s of
        (reply, s') \<Rightarrow> \<exists>r. im_writes (sv_metrics s') = im_writes (sv_metrics s) @ [(''transcript'', r)]
                         \<and> r \<in> counted_as (reply_status reply))"
proof
  have "r \<in> counted_as st \<Longrightarrow> r \<noteq> ResultQueueFull" for r st
    by (auto simp: counted_as_def split: if_splits)
  then show "case serve_ingest env now body s of
      None \<Rightarrow> True
    | Some (reply, s') \<Rightarrow> \<exists>p r. im_writes (sv_metrics s') = im_writes (sv_metrics s) @ [(p, r)]
                           \<and> r \<in> counted_as (reply_status reply) \<and> r \<noteq> ResultQueueFull"
    by (auto simp: serve_ingest_def over_body_limit_def counted_as_def [of 413] split: option.split dest!: handle_ingest_writes)
  show "case handle_transcript_ingest env now subject body s of
        (reply, s') \<Rightarrow> \<exists>r. im_writes (sv_metrics s') = im_writes (sv_metrics s) @ [(''transcript'', r)]
                         \<and> r \<in> counted_as (reply_status reply)"
    by (auto simp: handle_transcript_ingest_def Let_def counted_as_def provider_label_def
        split: sum.split store_failure.split prod.split)
qed

text \<open>The marker of dropped bytes. The row of a turn keeps the upstream bytes whole when they fit the
  cap and not at all otherwise, and it is marked exactly when bytes existed - they arrived, or their
  producer said it withheld them - and the row holds none.\<close>

theorem dropped_marker:
  "(let row = raw_turn_put t raw; bytes = tp_raw_response t
    in su_raw_response row = (if length bytes \<le> max_raw_response_bytes then bytes else [])
     \<and> rp_raw_response_dropped row = (su_raw_response row = [] \<and> (bytes \<noteq> [] \<or> tp_raw_response_withheld t)))"
  by (auto simp: raw_turn_put_def Let_def max_raw_response_bytes_def)

lemma resolved_session_nonempty:
  "resolve_harness_session_id given h = Inr (en, sid) \<Longrightarrow> sid \<noteq> []"
  by (cases "needs_synthetic_harness_session_id given"; cases given)
    (auto simp: resolve_harness_session_id_def needs_synthetic_harness_session_id_def Let_def split: if_splits)

text \<open>When a turn's row and its session meet. The row is keyed by the envelope as it came, the
  session by the identity it resolves to; the two keys agree exactly when the envelope needs no
  synthetic id, or happens to carry it. A turn without an envelope never meets its session: its row
  has no session id, so it is never queued.\<close>

theorem ingest_keys_agree:
  "case resolve_harness_session_id (tp_session t) root_hash of
     Inl _ \<Rightarrow> root_hash = []
   | Inr (en, sid) \<Rightarrow>
       (let row = raw_turn_put t raw
        in (rt_harness_id row = harness_id_or_unknown (Some en) \<and> rt_harness_session_id row = sid) =
             (case tp_session t of
                None \<Rightarrow> False
              | Some given \<Rightarrow> if needs_synthetic_harness_session_id (Some given)
                              then en_harness_session_id given = take 16 root_hash else True)
         \<and> (case tp_session t of None \<Rightarrow> rt_harness_session_id row = [] | Some _ \<Rightarrow> True))"
proof -
  have syn: "synthetic_harness_session_id h = take 16 h" for h
    by (simp add: synthetic_harness_session_id_def synthetic_harness_session_id_prefix_len_def)
  have unk: "harness_id_unknown \<noteq> []" "[] \<noteq> harness_id_unknown" by (simp_all add: harness_id_unknown_def)
  show ?thesis
  proof (cases "tp_session t")
    case None
    then show ?thesis
      by (simp add: resolve_harness_session_id_def needs_synthetic_harness_session_id_def raw_turn_put_def
          harness_id_or_unknown_def empty_envelope_def syn unk Let_def)
  next
    case (Some given)
    note s = Some
    have hid: "harness_id_or_unknown (Some (given\<lparr>en_harness_id := h, en_harness_session_id := x\<rparr>))
        = (if h = [] then harness_id_unknown else h)" for h x
      by (simp add: harness_id_or_unknown_def)
    show ?thesis
    proof (cases "needs_synthetic_harness_session_id (Some given)")
      case True
      then show ?thesis
        by (simp add: s resolve_harness_session_id_def raw_turn_put_def syn unk Let_def)
          (simp add: harness_id_or_unknown_def unk)
    next
      case False
      then show ?thesis by (simp add: s resolve_harness_session_id_def raw_turn_put_def Let_def)
    qed
  qed
qed

text \<open>In the local proxy they always meet. The row a captured job appends and the session it records
  carry the same organisation, harness and session id, and when the append succeeds that session is
  marked dirty at that moment.\<close>

theorem proxy_turn_derivable:
  "case process_job ext wm project job of
     (Some row, Some rq) \<Rightarrow>
       (case resolve_harness_session_id (iq_session rq) (n_hash (hd (iq_nodes rq))) of
          Inl _ \<Rightarrow> False
        | Inr (en, sid) \<Rightarrow>
            rp_org_id row = en_org_id en \<and> rt_harness_id row = harness_id_or_unknown (Some en)
          \<and> rt_harness_session_id row = sid \<and> sid \<noteq> [])
     \<and> (case (parse_org env (rp_org_id row), put_raw_turn env now row db) of
          (Inr org, Inr (_, db')) \<Rightarrow>
            map_option dq_dirtied_at (get_derive_dirty (queue_key env org row) (db_queue db')) = Some now
        | _ \<Rightarrow> True)
   | _ \<Rightarrow> True"
proof (cases "process_job ext wm project job")
  case (Pair row rq)
  show ?thesis
  proof (cases "\<exists>r q. row = Some r \<and> rq = Some q")
    case False
    then show ?thesis by (auto simp: Pair split: option.split)
  next
    case True
    then obtain r q where rq: "row = Some r" "rq = Some q" by blast
    let ?chain = "build_turn_chain ext job project"
    have p: "pool_persist_raw_turn wm job ?chain = Some r" "pool_ingest_session ext job ?chain = Some q"
      using Pair rq by (auto simp: process_job_def Let_def split: if_splits)
    have q: "iq_session q = jb_session job" "iq_nodes q = ?chain"
      using p(2) by (auto simp: pool_ingest_session_def split: option.splits)
    obtain en sid where e: "resolve_harness_session_id (jb_session job) (n_hash (hd ?chain)) = Inr (en, sid)"
        "rp_org_id r = en_org_id en" "rt_harness_id r = harness_id_or_unknown (Some en)" "rt_harness_session_id r = sid"
      using p(1) by (auto simp: pool_persist_raw_turn_def split: if_splits sum.splits prod.splits)
    have sid: "sid \<noteq> []"
      using e(1) by (rule resolved_session_nonempty)
    have "map_option dq_dirtied_at (get_derive_dirty (queue_key env org r) (db_queue db')) = Some now"
      if "parse_org env (rp_org_id r) = Inr org" "put_raw_turn env now r db = Inr (ins, db')" for org ins db'
      using that(2)
    proof (cases rule: put_raw_turn_cases)
      case (1 org' db2)
      with that(1) sid e(4) show ?thesis by (simp add: mark_stamp)
    qed
    then show ?thesis using e sid by (auto simp: Pair rq q split: sum.split)
  qed
qed

definition spawn_kind :: "transcript_payload \<Rightarrow> bool" where
  "spawn_kind p \<longleftrightarrow> tpl_kind p = [] \<or> tpl_kind p = ''started''"

text \<open>What a transcript version is. With a digest and an encoder that do not collide, two uploads
  have the same request id exactly when they name the same harness session, the same agent, the same
  lifecycle - spawn, however it is spelt, or the same other kind - and the same bytes of records.\<close>

theorem transcript_version_identity:
  assumes "inj (ie_sha256 env)" "inj (ie_encode_identity env)"
  shows "transcript_request_id env en p = transcript_request_id env en' p' \<longleftrightarrow>
    harness_id_or_unknown (Some en) = harness_id_or_unknown (Some en')
    \<and> en_harness_session_id en = en_harness_session_id en' \<and> tpl_agent_id p = tpl_agent_id p'
    \<and> tpl_records p = tpl_records p' \<and> (if spawn_kind p then spawn_kind p' else tpl_kind p = tpl_kind p')"
proof -
  have "transcript_request_id env en p = transcript_request_id env en' p' \<longleftrightarrow>
     transcript_identity_of env en p = transcript_identity_of env en' p'"
    by (simp add: transcript_request_id_def inj_eq [OF assms(1)] inj_eq [OF assms(2)])
  also have "\<dots> \<longleftrightarrow> harness_id_or_unknown (Some en) = harness_id_or_unknown (Some en')
    \<and> en_harness_session_id en = en_harness_session_id en' \<and> tpl_agent_id p = tpl_agent_id p'
    \<and> tpl_records p = tpl_records p' \<and> (spawn_kind p = spawn_kind p' \<and> (spawn_kind p \<or> tpl_kind p = tpl_kind p'))"
    by (cases "spawn_kind p"; cases "spawn_kind p'")
      (auto simp: transcript_identity_of_def inj_eq [OF assms(1)] simp flip: spawn_kind_def)
  also have "(spawn_kind p = spawn_kind p' \<and> (spawn_kind p \<or> tpl_kind p = tpl_kind p'))
    \<longleftrightarrow> (if spawn_kind p then spawn_kind p' else tpl_kind p = tpl_kind p')"
    by (auto simp: spawn_kind_def)
  finally show ?thesis .
qed

fun quoted :: "string \<Rightarrow> string" where
  "quoted [] = ''.''"
| "quoted (c # s) = CHR ''-'' # c # quoted s"

lemma quoted_split: "quoted s @ x = quoted s' @ y \<Longrightarrow> s = s' \<and> x = y"
proof (induction s arbitrary: s')
  case Nil
  then show ?case by (cases s') auto
next
  case (Cons c s)
  then show ?case by (cases s') auto
qed

lemma quoted_eq [simp]: "quoted s = quoted s' \<longleftrightarrow> s = s'"
  using quoted_split [of s "[]" s' "[]"] by auto

definition wit_encode_identity :: "transcript_identity \<Rightarrow> string" where
  "wit_encode_identity i =
     quoted (tid_harness_id i) @ quoted (tid_harness_session_id i) @ quoted (if tid_spawn_lifecycle i then ''s'' else [])
     @ quoted (tid_lifecycle_kind i) @ quoted (if tid_main i then ''m'' else []) @ quoted (tid_agent_id i)
     @ quoted (tid_records_hash i) @ []"

lemma wit_encode_inj: "inj wit_encode_identity"
proof (rule injI)
  fix i j
  assume "wit_encode_identity i = wit_encode_identity j"
  then show "i = j"
    unfolding wit_encode_identity_def
    by (cases i; cases j) (auto dest!: quoted_split split: if_splits)
qed

definition wit_ingest_env :: ingest_env where
  "wit_ingest_env =
     \<lparr>ie_body = (\<lambda>_. Inl []), ie_response = (\<lambda>_. Inl []), ie_meta = (\<lambda>_. Inl []), ie_session = (\<lambda>_. Inl []),
      ie_transcript = (\<lambda>_. Inl []), ie_records = (\<lambda>_. Inl []), ie_is_uuid = (\<lambda>_. True), ie_is_object = (\<lambda>_. True),
      ie_parse_request = (\<lambda>_ _. Inl []), ie_encode_response = (\<lambda>_. None), ie_encode_row_meta = (\<lambda>_. []),
      ie_encode_envelope = (\<lambda>_. []), ie_encode_identity = wit_encode_identity, ie_sha256 = (\<lambda>s. s),
      ie_reducers = \<lparr>re_anthropic = sample_decoders, re_openai = sample_rx, re_codecs = sample_codecs, re_ctx = (\<lambda>_. None),
        re_time = (\<lambda>_. None), re_round = (\<lambda>r. r)\<rparr>, ie_store = wit_store\<rparr>"

definition wit_transcript :: "string \<Rightarrow> transcript_payload" where
  "wit_transcript kind = \<lparr>tpl_session = None, tpl_agent_id = ''a'', tpl_agent_type = [], tpl_description = [],
     tpl_tool_use_id = [], tpl_kind = kind, tpl_records = ''[]''\<rparr>"

theorem transcript_version_identity_witness:
  "transcript_request_id wit_ingest_env empty_envelope (wit_transcript [])
     = transcript_request_id wit_ingest_env empty_envelope (wit_transcript ''started'')
   \<and> transcript_request_id wit_ingest_env empty_envelope (wit_transcript [])
     \<noteq> transcript_request_id wit_ingest_env empty_envelope (wit_transcript ''interacted'')"
proof -
  have i: "inj (ie_sha256 wit_ingest_env)" "inj (ie_encode_identity wit_ingest_env)"
    by (simp add: wit_ingest_env_def inj_def, simp add: wit_ingest_env_def wit_encode_inj)
  show ?thesis
    unfolding transcript_version_identity [OF i] by (simp add: wit_transcript_def spawn_kind_def)
qed

lemma scrubbed_request_id [simp]: "rt_request_id (scrubbed env put) = rt_request_id put"
  by (simp add: scrubbed_def Let_def)

lemma put_turns:
  assumes "put_raw_turn env now put db = Inr (ins, db')" "parse_org env (rp_org_id put) = Inr org"
  shows "db_turns db' = db_turns (snd (insert_raw_turn now org (scrubbed env put) db))
    \<and> ins = fst (insert_raw_turn now org (scrubbed env put) db)"
  using assms(1)
proof (cases rule: put_raw_turn_cases)
  case (1 org' db2)
  have [simp]: "org' = org" using 1(1) assms(2) by simp
  have "db_turns db2 = db_turns (snd (insert_raw_turn now org (scrubbed env put) db))"
    using 1(4) by (auto dest: upsert_transcript_frame split: if_splits)
  with 1(3) show ?thesis unfolding 1(5) by simp
qed

lemma put_taken:
  assumes "put_raw_turn env now put db = Inr (ins, db')" "parse_org env (rp_org_id put) = Inr org" "rt_request_id put \<noteq> []"
  shows "request_taken org (rt_request_id put) (db_turns db')"
  using put_turns [OF assms(1,2)] assms(3) by (auto simp: insert_raw_turn_def request_taken_def)

lemma put_when_taken:
  assumes "put_raw_turn env now put db = Inr (ins, db')"
    "\<And>org. parse_org env (rp_org_id put) = Inr org \<Longrightarrow> request_taken org (rt_request_id put) (db_turns db)"
  shows "db_turns db' = db_turns db \<and> \<not> ins"
  using assms(1)
proof (cases rule: put_raw_turn_cases)
  case (1 org db2)
  from put_turns [OF assms(1) 1(1)] assms(2) [OF 1(1)] show ?thesis by (simp add: insert_raw_turn_def)
qed

text \<open>Re-uploading a transcript is inert. After an upload that was accepted, the same body sent again
  appends nothing, and if it is accepted too it is reported as a duplicate.\<close>

theorem transcript_reupload_inert:
  "case handle_transcript_ingest env now subject body s of
     (Reply st _, s1) \<Rightarrow>
       if st = 202
       then (case handle_transcript_ingest env later subject body s1 of
               (Reply st' dup, s2) \<Rightarrow> db_turns (sv_db s2) = db_turns (sv_db s1) \<and> (st' = 202) = dup)
       else db_turns (sv_db s1) = db_turns (sv_db s)"
proof (cases "decode_transcript env subject body")
  case (Inl e)
  then show ?thesis by (simp add: handle_transcript_ingest_def Let_def)
next
  case (Inr x)
  obtain en p n where x: "x = (en, p, n)" by (cases x)
  note d = Inr [unfolded x]
  let ?put = "transcript_put env en p n"
  show ?thesis
  proof (cases "put_raw_turn (ie_store env) now ?put (sv_db s)")
    case (Inl e)
    then show ?thesis by (cases e) (simp_all add: handle_transcript_ingest_def d Let_def)
  next
    case (Inr y)
    obtain ins db where y: "y = (ins, db)" by (cases y)
    note first = Inr [unfolded y]
    have taken: "request_taken org (rt_request_id ?put) (db_turns db)"
      if "parse_org (ie_store env) (rp_org_id ?put) = Inr org" for org
      using first that by (rule put_taken) (simp add: transcript_put_def transcript_request_id_def)
    have second: "db_turns db' = db_turns db \<and> \<not> ins'"
      if "put_raw_turn (ie_store env) later ?put db = Inr (ins', db')" for ins' db'
      using that taken by (rule put_when_taken)
    define s1 where "s1 = observe_write ''transcript'' ResultAccepted (length body) (s\<lparr>sv_db := db\<rparr>)"
    have h: "handle_transcript_ingest env now subject body s = (Reply 202 (\<not> ins), s1)"
      by (simp add: handle_transcript_ingest_def d first Let_def s1_def)
    have s1: "sv_db s1 = db" by (simp add: s1_def)
    show ?thesis
    proof (cases "put_raw_turn (ie_store env) later ?put db")
      case (Inl e)
      then show ?thesis by (cases e) (simp_all add: h s1 handle_transcript_ingest_def [where s = s1] d Let_def)
    next
      case (Inr z)
      obtain ins' db' where z: "z = (ins', db')" by (cases z)
      from second [OF Inr [unfolded z]] show ?thesis
        by (simp add: h s1 handle_transcript_ingest_def [where s = s1] d Inr z Let_def)
    qed
  qed
qed

end
