(* ===== verification/ExtprocFacts.thy ===== *)
theory ExtprocFacts
  imports Extproc IngestFacts
begin

text \<open>
  What the sidecar guarantees of a stream: one outcome, gates passed before a turn is dispatched, the
  raw lane within the limit of ingest, the session envelope stripped from what goes upstream, and a
  raw-only turn reduced by ingest as the sidecar reduced it.
\<close>

subsection \<open>Counting outcomes\<close>

definition ends_response :: "ext_message \<Rightarrow> bool" where
  "ends_response m = (case m of ResponseBody _ eos \<Rightarrow> eos | _ \<Rightarrow> False)"

definition ends_request :: "ext_message \<Rightarrow> bool" where
  "ends_request m = (case m of RequestBody _ eos \<Rightarrow> eos | _ \<Rightarrow> False)"

definition response_bytes :: "ext_message \<Rightarrow> string" where
  "response_bytes m = (case m of ResponseBody chunk _ \<Rightarrow> chunk | _ \<Rightarrow> [])"

lemmas message_kinds = ends_response_def ends_request_def response_bytes_def

lemma note_headers_frame [simp]:
  "xs_req_eos (note_request_headers env hs st) = xs_req_eos st"
  "xs_resp_eos (note_request_headers env hs st) = xs_resp_eos st"
  "xs_resp_buf (note_request_headers env hs st) = xs_resp_buf st"
  "xs_req_over_budget (note_request_headers env hs st) = xs_req_over_budget st"
  "xs_decoded_req (note_request_headers env hs st) = xs_decoded_req st"
  by (simp_all add: note_request_headers_def)

lemma decode_request_frame [simp]:
  "xs_req_eos (decode_request env st) = xs_req_eos st"
  "xs_resp_eos (decode_request env st) = xs_resp_eos st"
  "xs_resp_buf (decode_request env st) = xs_resp_buf st"
  by (simp_all add: decode_request_def Let_def split: sum.split)

lemma note_body_frame [simp]:
  "xs_req_eos (fst (note_request_body env chunk eos st)) = (xs_req_eos st \<or> eos)"
  "xs_resp_eos (fst (note_request_body env chunk eos st)) = xs_resp_eos st"
  "xs_resp_buf (fst (note_request_body env chunk eos st)) = xs_resp_buf st"
  by (simp_all add: note_request_body_def Let_def)

text \<open>What the messages so far leave in a run.\<close>

lemma run_counts:
  fixes env msgs
  defines "r \<equiv> fold (process_message env) msgs new_stream_run"
  shows "length (sx_outcomes r) = length (filter ends_response msgs)"
    and "sx_turn_done r = list_ex ends_response msgs"
    and "xs_resp_eos (sx_state r) = list_ex ends_response msgs"
    and "xs_req_eos (sx_state r) = list_ex ends_request msgs"
    and "xs_resp_buf (sx_state r) = concat (map response_bytes msgs)"
proof -
  have "length (sx_outcomes r) = length (filter ends_response msgs) \<and> sx_turn_done r = list_ex ends_response msgs
    \<and> xs_resp_eos (sx_state r) = list_ex ends_response msgs \<and> xs_req_eos (sx_state r) = list_ex ends_request msgs
    \<and> xs_resp_buf (sx_state r) = concat (map response_bytes msgs)"
    unfolding r_def
  proof (induction msgs rule: rev_induct)
    case Nil
    show ?case by (simp add: new_stream_run_def new_stream_state_def)
  next
    case (snoc m ms)
    then show ?case by (cases m) (auto simp: message_kinds Let_def split_beta)
  qed
  then show "length (sx_outcomes r) = length (filter ends_response msgs)"
    and "sx_turn_done r = list_ex ends_response msgs"
    and "xs_resp_eos (sx_state r) = list_ex ends_response msgs"
    and "xs_req_eos (sx_state r) = list_ex ends_request msgs"
    and "xs_resp_buf (sx_state r) = concat (map response_bytes msgs)"
    by blast+
qed

lemma late_outcome_length:
  "length (late_outcome env st) = (if xs_req_eos st \<or> xs_resp_buf st \<noteq> [] then 1 else 0)"
  by (auto simp: late_outcome_def)

subsection \<open>What a dispatched turn went through\<close>

definition stream_sane :: "stream_state \<Rightarrow> bool" where
  "stream_sane st \<longleftrightarrow>
     (xs_req_over_budget st \<or> length (xs_decoded_req st) \<le> request_capture_budget) \<and>
     (xs_path st = [] \<or> xs_request_id st \<noteq> [])"

lemma note_headers_sane: "stream_sane st \<Longrightarrow> stream_sane (note_request_headers env hs st)"
  by (auto simp: stream_sane_def note_request_headers_def)

lemma decode_request_sane: "stream_sane st \<Longrightarrow> stream_sane (decode_request env st)"
  by (auto simp: stream_sane_def decode_request_def Let_def split: sum.split)

lemma note_body_sane: "stream_sane st \<Longrightarrow> stream_sane (fst (note_request_body env chunk eos st))"
  by (auto simp: note_request_body_def Let_def intro!: decode_request_sane) (auto simp: stream_sane_def)

text \<open>A dispatched turn comes from a sane state with status 200.\<close>

definition dispatched_all :: "(turn_envelope \<Rightarrow> bool) \<Rightarrow> turn_outcome list \<Rightarrow> bool" where
  "dispatched_all P os = list_all (\<lambda>x. case x of Dropped _ \<Rightarrow> True | Dispatched e \<Rightarrow> P e) os"

lemma dispatched_all_append [simp]: "dispatched_all P (xs @ ys) = (dispatched_all P xs \<and> dispatched_all P ys)"
  by (simp add: dispatched_all_def)

lemma dispatched_all_drop [simp]: "dispatched_all P []" "dispatched_all P [Dropped d]"
  by (simp_all add: dispatched_all_def)

lemma dispatched_all_stream:
  assumes P: "\<And>st. stream_sane st \<Longrightarrow> xs_status_code st = 200 \<Longrightarrow> dispatched_all P [dispatch_turn env st]"
  shows "dispatched_all P (sx_outcomes (process_stream env msgs))"
proof -
  have "stream_sane (sx_state (fold (process_message env) msgs new_stream_run))
      \<and> dispatched_all P (sx_outcomes (fold (process_message env) msgs new_stream_run))"
  proof (induction msgs rule: rev_induct)
    case Nil
    show ?case by (simp add: new_stream_run_def new_stream_state_def stream_sane_def)
  next
    case (snoc m ms)
    have end_ok: "dispatched_all P [end_of_response env st]" if "stream_sane st" for st
      using that P by (simp add: end_of_response_def is_capturable_upstream_status_def)
    have same: "stream_sane (st\<lparr>xs_resp_buf := b\<rparr>) = stream_sane st" "stream_sane (st\<lparr>xs_resp_eos := e\<rparr>) = stream_sane st"
      "stream_sane (st\<lparr>xs_status_code := c, xs_content_type := t, xs_content_encoding := n\<rparr>) = stream_sane st" for st b e c t n
      by (simp_all add: stream_sane_def)
    show ?case
      using snoc by (cases m) (auto simp: Let_def split_beta note_headers_sane note_body_sane same end_ok)
  qed
  then show ?thesis
    using P by (auto simp: process_stream_def Let_def late_outcome_def)
qed

lemma dispatch_turn_cases:
  assumes "dispatch_turn env st = Dispatched e"
  obtains reduce decoded stats resp where
    "\<not> xs_req_over_budget st" "is_capturable_turn_request (xs_method st) (xs_path st)" "xs_resp_buf st \<noteq> []"
    "reducer_for (pe_reducers env) (xs_provider st) (xs_endpoint st) = Some reduce"
    "decode_content_encoding (re_codecs (pe_reducers env)) (xs_resp_buf st) (xs_content_encoding st) = Inr (decoded, stats)"
    "reduce (xs_decoded_req st) decoded (xs_content_type st) = Inr resp"
    "e = turn_envelope_of env st (stamp_wall_clock (elapsed_nanos env st) resp)"
  using assms by (auto simp: dispatch_turn_def split: if_splits option.splits sum.splits prod.splits)

lemma dispatched_single: "(\<And>e. x = Dispatched e \<Longrightarrow> P e) \<Longrightarrow> dispatched_all P [x]"
  by (cases x) (auto simp: dispatched_all_def)

lemma capturable_path: "is_capturable_turn_request m p \<Longrightarrow> p \<noteq> []"
  by (auto simp: is_capturable_turn_request_def is_turn_request_path_def path_has_clean_suffix_def has_suffix_iff
      Let_def)

lemma reducer_for_endpoints:
  "reducer_for re p ep = Some f \<Longrightarrow> (p, ep) \<in> {(''anthropic'', ''messages''), (''openai'', ''responses'')}"
  by (auto simp: reducer_for_def reducer_handles_endpoint_def split: if_splits)


subsection \<open>Properties\<close>

text \<open>C22: one outcome per stream. A turn whose response ends gets its outcome there - one per end of
  a response, and a stream has one - and a stream that closes before gets exactly one when its request
  had ended or a response byte had arrived; nothing else leaves an outcome.\<close>

theorem one_outcome_per_stream:
  "length (sx_outcomes (process_stream env msgs)) =
     (if list_ex ends_response msgs then length (filter ends_response msgs)
      else if \<not> list_ex ends_request msgs \<and> concat (map response_bytes msgs) = [] then 0 else 1)"
  by (simp add: process_stream_def Let_def run_counts late_outcome_length list_ex_iff filter_empty_conv)


text \<open>The raw lane never costs a turn its delivery. The bytes on an envelope fit, in base64, beside
  the request and the reserve for everything else, into the limit ingest sets on a body; they are the
  bytes of the response, whole. The withheld marker is set exactly when the mode asks for bytes and the
  envelope has none, and the reduction is left out exactly in raw mode with bytes attached, with the
  fallback kept for the dispatcher.\<close>

theorem raw_lane_within_limit:
  "dispatched_all (\<lambda>e.
      (te_raw_response e = []
       \<or> base64_len (length (te_raw_response e)) + length (te_request e) + raw_lane_envelope_reserve \<le> max_ingest_body_bytes
         \<and> length (te_raw_response e) = xm_response_bytes (te_meta e))
      \<and> te_raw_response_withheld e = (pe_mode env \<noteq> RawResponseOff \<and> te_raw_response e = [])
      \<and> (te_response e = None) = (pe_mode env = RawResponseRaw \<and> te_raw_response e \<noteq> [])
      \<and> (te_reduced_fallback e = None) = (te_response e \<noteq> None))
     (sx_outcomes (process_stream env msgs))"
proof (intro dispatched_all_stream dispatched_single)
  fix st e
  assume "dispatch_turn env st = Dispatched e"
  then show "(te_raw_response e = []
       \<or> base64_len (length (te_raw_response e)) + length (te_request e) + raw_lane_envelope_reserve \<le> max_ingest_body_bytes
         \<and> length (te_raw_response e) = xm_response_bytes (te_meta e))
      \<and> te_raw_response_withheld e = (pe_mode env \<noteq> RawResponseOff \<and> te_raw_response e = [])
      \<and> (te_response e = None) = (pe_mode env = RawResponseRaw \<and> te_raw_response e \<noteq> [])
      \<and> (te_reduced_fallback e = None) = (te_response e \<noteq> None)"
  proof (rule dispatch_turn_cases)
    fix resp
    assume "xs_resp_buf st \<noteq> []" "e = turn_envelope_of env st (stamp_wall_clock (elapsed_nanos env st) resp)"
    then show ?thesis
      by (cases "pe_mode env") (auto simp: turn_envelope_of_def turn_meta_of_def decide_raw_lane_def no_raw_lane_def
          sends_raw_bytes_def raw_response_fits_def Let_def)
  qed
qed

text \<open>What ingest is handed of an envelope, with the other stamps of its metadata.\<close>

definition as_ingested :: "turn_meta \<Rightarrow> turn_envelope \<Rightarrow> stored_raw_turn" where
  "as_ingested m e =
     \<lparr>sw_provider = te_provider e, sw_raw_request = te_request e, sw_raw_response = te_raw_response e,
      sw_raw_response_encoding = te_raw_response_encoding e,
      sw_meta = m\<lparr>tm_content_type := xm_content_type (te_meta e)\<rparr>\<rparr>"

lemma reducer_for_raw:
  "reducer_for re p ep = Some f \<Longrightarrow> raw_reducers (re\<lparr>re_ctx := \<lambda>_. None\<rparr>) p = Some f"
  by (auto simp: reducer_for_def reducer_handles_endpoint_def processor_reducers_def raw_reducers_def split: if_splits)

text \<open>A raw-only turn loses nothing. When the sidecar leaves its reduction out of an envelope, ingest's
  own reduction of the bytes it is sent succeeds and gives the model, message, stop reason and
  completion the sidecar had computed.\<close>

theorem raw_only_reduced_alike:
  "dispatched_all (\<lambda>e. case te_reduced_fallback e of
        None \<Rightarrow> True
      | Some own \<Rightarrow>
          (case reduce_stored_raw_turn ((pe_reducers env)\<lparr>re_ctx := \<lambda>_. None\<rparr>) (as_ingested m e) of
             Inl _ \<Rightarrow> False
           | Inr red \<Rightarrow> rs_model (rw_response red) = rs_model own \<and> rs_message (rw_response red) = rs_message own
               \<and> rs_stop_reason (rw_response red) = rs_stop_reason own \<and> rs_done (rw_response red) = rs_done own))
     (sx_outcomes (process_stream env msgs))"
proof (intro dispatched_all_stream dispatched_single)
  fix st e
  let ?re = "(pe_reducers env)\<lparr>re_ctx := \<lambda>_. None\<rparr>"
  assume "dispatch_turn env st = Dispatched e"
  then show "case te_reduced_fallback e of
        None \<Rightarrow> True
      | Some own \<Rightarrow>
          (case reduce_stored_raw_turn ?re (as_ingested m e) of
             Inl _ \<Rightarrow> False
           | Inr red \<Rightarrow> rs_model (rw_response red) = rs_model own \<and> rs_message (rw_response red) = rs_message own
               \<and> rs_stop_reason (rw_response red) = rs_stop_reason own \<and> rs_done (rw_response red) = rs_done own)"
  proof (rule dispatch_turn_cases)
    fix reduce decoded stats resp
    assume r: "reducer_for (pe_reducers env) (xs_provider st) (xs_endpoint st) = Some reduce"
      and d: "decode_content_encoding (re_codecs (pe_reducers env)) (xs_resp_buf st) (xs_content_encoding st) = Inr (decoded, stats)"
      and a: "reduce (xs_decoded_req st) decoded (xs_content_type st) = Inr resp"
      and e: "e = turn_envelope_of env st (stamp_wall_clock (elapsed_nanos env st) resp)"
    show ?thesis
    proof (cases "rl_omit_reduction (decide_raw_lane (pe_mode env) (length (xs_resp_buf st)) (length (xs_decoded_req st)) True)")
      case False
      then show ?thesis by (simp add: e turn_envelope_of_def Let_def)
    next
      case True
      then have "rl_attach_raw (decide_raw_lane (pe_mode env) (length (xs_resp_buf st)) (length (xs_decoded_req st)) True)"
        by (auto simp: decide_raw_lane_def no_raw_lane_def Let_def split: if_splits)
      with True have v: "te_reduced_fallback e = Some (stamp_wall_clock (elapsed_nanos env st) resp)"
        "reduced_bytes ?re (as_ingested m e) = Some (resp, stats)"
        by (simp_all add: e turn_envelope_of_def turn_meta_of_def as_ingested_def reduced_bytes_def Let_def
            reducer_for_raw [OF r] d a)
      from ingest_bytes_Some [OF v(2)] show ?thesis
        by (auto simp: v(1) stamp_duration_same stamp_wall_clock_def Let_def)
    qed
  qed
qed

text \<open>The replies to request headers, and the request headers of a stream.\<close>

definition removals :: "ext_reply list \<Rightarrow> string list list" where
  "removals rs = concat (map (\<lambda>r. case r of RequestHeadersReply ks \<Rightarrow> [ks] | _ \<Rightarrow> []) rs)"

definition request_headers :: "ext_message list \<Rightarrow> header list list" where
  "request_headers msgs = concat (map (\<lambda>m. case m of RequestHeaders hs \<Rightarrow> [hs] | _ \<Rightarrow> []) msgs)"

lemma run_replies:
  "length (sx_replies (fold (process_message env) msgs new_stream_run)) = length (filter (\<lambda>m. m \<noteq> OtherMessage) msgs)
   \<and> removals (sx_replies (fold (process_message env) msgs new_stream_run)) = map envelope_header_keys (request_headers msgs)"
proof (induction msgs rule: rev_induct)
  case Nil
  show ?case by (simp add: new_stream_run_def removals_def request_headers_def)
next
  case (snoc m ms)
  then show ?case by (cases m) (auto simp: removals_def request_headers_def Let_def split_beta)
qed

text \<open>The proxy is always answered and the envelope never leaves. Every message of a kind the sidecar
  handles is replied to, whatever becomes of the capture, and the reply to request headers removes
  exactly the session envelope's headers: none of them is left, no other header is touched and every
  other name still reads the same value.\<close>

theorem envelope_never_forwarded:
  "length (sx_replies (process_stream env msgs)) = length (filter (\<lambda>m. m \<noteq> OtherMessage) msgs)
   \<and> removals (sx_replies (process_stream env msgs)) = map envelope_header_keys (request_headers msgs)
   \<and> strip_headers (envelope_header_keys hs) hs = filter (\<lambda>h. \<not> is_envelope_key (hd_key h)) hs
   \<and> (is_envelope_key name \<or> header_get (strip_headers (envelope_header_keys hs) hs) name = header_get hs name)"
  using run_replies [of env msgs] header_get_strip [of name hs]
  by (cases "is_envelope_key name") (simp_all add: process_stream_def Let_def strip_envelope)

end
