(* ===== verification/Dispatcher.thy ===== *)
theory Dispatcher
  imports ExtprocFacts
begin

text \<open>
  The dispatcher of the sidecar (\<open>extproc/dispatcher.go\<close>): admission of a turn by count and by bytes,
  the limit on a body, and the post with its retries.

  Every stream dispatches on its own goroutine and every admitted turn posts on another, so the
  dispatcher is a transition system whose steps are the atomic actions of those goroutines: taking a
  slot, charging the bytes, ending the post, giving the bytes back, giving the slot back. The byte
  semaphore (\<open>golang.org/x/sync/semaphore\<close>) is a parameter. Each turn is known by a number, so that
  two equal turns are told apart. The gauges and the latency are left out.
\<close>

subsection \<open>The limit on a body\<close>

text \<open>The payload, the envelope it encodes, and whether the bytes were stripped.\<close>

definition stripped_envelope :: "turn_envelope \<Rightarrow> turn_envelope" where
  "stripped_envelope e =
     e\<lparr>te_raw_response := [], te_raw_response_encoding := [], te_raw_response_withheld := True,
       te_response := (if te_response e = None then te_reduced_fallback e else te_response e)\<rparr>"

definition enforce_body_limit ::
  "(turn_envelope \<Rightarrow> string option) \<Rightarrow> turn_envelope \<Rightarrow> string \<Rightarrow> string \<times> turn_envelope \<times> bool"
where
  "enforce_body_limit marshal e payload =
     (if length payload \<le> max_ingest_body_bytes \<or> te_raw_response e = [] then (payload, e, False)
      else case marshal (stripped_envelope e) of
             None \<Rightarrow> (payload, e, False)
           | Some repacked \<Rightarrow> (repacked, stripped_envelope e, True))"

datatype raw_shape = ShapeDual | ShapeRawOnly

definition attached_shape :: "turn_envelope \<Rightarrow> raw_shape option" where
  "attached_shape e =
     (if te_raw_response e = [] then None
      else Some (if te_response e = None then ShapeRawOnly else ShapeDual))"

subsection \<open>The post\<close>

text \<open>What an attempt meets: a context that is over, a request that cannot be built, no answer or the
  status of one, and whether the sleep after it ran to its end.\<close>

record post_attempt =
  pa_ctx_over :: bool
  pa_request_error :: bool
  pa_answer :: "int option"
  pa_slept :: bool

datatype post_outcome = PostAccepted | PostDropped drop_reason

record post_run =
  po_outcomes :: "post_outcome list"
  po_posts :: "int option list" \<comment> \<open>the answers, in order\<close>
  po_sleeps :: "int list" \<comment> \<open>in nanoseconds\<close>

definition max_attempts :: nat where "max_attempts = 3"
definition first_post_backoff :: int where "first_post_backoff = 500000000"

definition post_done :: "post_outcome \<Rightarrow> post_run \<Rightarrow> post_run" where
  "post_done x r = r\<lparr>po_outcomes := po_outcomes r @ [x]\<rparr>"

function post_attempts :: "(nat \<Rightarrow> post_attempt) \<Rightarrow> nat \<Rightarrow> int \<Rightarrow> post_run \<Rightarrow> post_run" where
  "post_attempts w attempt backoff r =
     (if max_attempts < attempt then r
      else if pa_ctx_over (w attempt) \<or> pa_request_error (w attempt) then post_done (PostDropped DropIngestTimeout) r
      else let ans = pa_answer (w attempt);
               r1 = r\<lparr>po_posts := po_posts r @ [ans]\<rparr>;
               retry = (if attempt = max_attempts then post_done (PostDropped DropIngestTimeout) r1
                        else let r2 = r1\<lparr>po_sleeps := po_sleeps r1 @ [backoff]\<rparr>
                             in if \<not> pa_slept (w attempt) then post_done (PostDropped DropIngestTimeout) r2
                                else post_attempts w (attempt + 1) (backoff * 2) r2)
           in case ans of
                None \<Rightarrow> retry
              | Some st \<Rightarrow>
                  if st = 202 \<or> st = 200 then post_done PostAccepted r1
                  else if 500 \<le> st then retry
                  else post_done (PostDropped DropIngestReject) r1)"
  by pat_completeness auto
termination
  by (relation "measure (\<lambda>(w, attempt, backoff, r). Suc max_attempts - attempt)") auto

declare post_attempts.simps [simp del]

definition post_with_retry :: "(nat \<Rightarrow> post_attempt) \<Rightarrow> post_run" where
  "post_with_retry w = post_attempts w 1 first_post_backoff \<lparr>po_outcomes = [], po_posts = [], po_sleeps = []\<rparr>"

subsection \<open>Admission\<close>

record 's weighted =
  sm_try :: "'s \<Rightarrow> int \<Rightarrow> 's option"
  sm_release :: "'s \<Rightarrow> int \<Rightarrow> 's"

text \<open>A turn under way: its number, its payload's length and its envelope's provider and request id.\<close>

record flight =
  fl_turn :: nat
  fl_weight :: int
  fl_provider :: string
  fl_request_id :: string

datatype dispatch_event =
    OnAccepted (ev_turn: nat)
  | OnDrop (ev_turn: nat) (ev_reason: drop_reason)

datatype raw_lane_event =
    RawAttached raw_shape
  | RawSkipped raw_skip

record 's dispatcher =
  di_max :: nat
  di_slots :: nat
  di_bytes :: 's
  di_dispatched :: nat
  di_marshalling :: "(nat \<times> turn_envelope) list"
  di_flights :: "flight list"
  di_posted :: "flight list" \<comment> \<open>posted, bytes still held\<close>
  di_released :: nat \<comment> \<open>posted, slot still held\<close>
  di_events :: "dispatch_event list"
  di_raw_lane :: "raw_lane_event list"

definition default_max_inflight :: nat where "default_max_inflight = 100"

definition new_dispatcher :: "(int \<Rightarrow> 's) \<Rightarrow> int \<Rightarrow> int \<Rightarrow> 's dispatcher" where
  "new_dispatcher new_weighted max_inflight byte_budget =
     \<lparr>di_max = (if max_inflight \<le> 0 then default_max_inflight else nat max_inflight), di_slots = 0,
      di_bytes = new_weighted (if byte_budget \<le> 0 then 256 * 2 ^ 20 else byte_budget),
      di_dispatched = 0, di_marshalling = [], di_flights = [], di_posted = [], di_released = 0,
      di_events = [], di_raw_lane = []\<rparr>"

definition note_event :: "dispatch_event \<Rightarrow> 's dispatcher \<Rightarrow> 's dispatcher" where
  "note_event ev d = d\<lparr>di_events := di_events d @ [ev]\<rparr>"

definition free_slot :: "'s dispatcher \<Rightarrow> 's dispatcher" where
  "free_slot d = d\<lparr>di_slots := di_slots d - 1\<rparr>"

text \<open>\<open>Dispatch\<close> up to the slot.\<close>

definition dispatch_enter :: "turn_envelope \<Rightarrow> 's dispatcher \<Rightarrow> 's dispatcher" where
  "dispatch_enter e d =
     (let n = di_dispatched d; d1 = d\<lparr>di_dispatched := n + 1\<rparr>
      in if di_slots d < di_max d
         then d1\<lparr>di_slots := di_slots d + 1, di_marshalling := di_marshalling d @ [(n, e)]\<rparr>
         else note_event (OnDrop n DropSemFull) d1)"

text \<open>The rest of \<open>Dispatch\<close>, for the turn at a position of those that hold a slot only.\<close>

definition dispatch_charge ::
  "'s weighted \<Rightarrow> (turn_envelope \<Rightarrow> string option) \<Rightarrow> nat \<Rightarrow> 's dispatcher \<Rightarrow> 's dispatcher"
where
  "dispatch_charge sm marshal i d =
     (case di_marshalling d ! i of (n, env0) \<Rightarrow>
        let d1 = d\<lparr>di_marshalling := drop_at i (di_marshalling d)\<rparr>
        in case marshal env0 of
             None \<Rightarrow> note_event (OnDrop n DropMarshalError) (free_slot d1)
           | Some payload0 \<Rightarrow>
               (case enforce_body_limit marshal env0 payload0 of (payload, e, stripped) \<Rightarrow>
                  let d2 = (if stripped then d1\<lparr>di_raw_lane := di_raw_lane d1 @ [RawSkipped OversizeStripped]\<rparr> else d1);
                      weight = int (length payload)
                  in case sm_try sm (di_bytes d2) weight of
                       None \<Rightarrow> note_event (OnDrop n DropSemFull) (free_slot d2)
                     | Some b \<Rightarrow>
                         d2\<lparr>di_bytes := b,
                            di_raw_lane := di_raw_lane d2 @ (case attached_shape e of None \<Rightarrow> [] | Some s \<Rightarrow> [RawAttached s]),
                            di_flights := di_flights d2 @
                              [\<lparr>fl_turn = n, fl_weight = weight, fl_provider = te_provider e,
                                fl_request_id = xm_request_id (te_meta e)\<rparr>]\<rparr>))"

text \<open>The goroutine of an admitted turn: the post, then the deferred releases.\<close>

definition post_events :: "nat \<Rightarrow> post_outcome list \<Rightarrow> dispatch_event list" where
  "post_events n = map (\<lambda>x. case x of PostAccepted \<Rightarrow> OnAccepted n | PostDropped r \<Rightarrow> OnDrop n r)"

definition dispatch_post :: "(nat \<Rightarrow> post_attempt) \<Rightarrow> nat \<Rightarrow> 's dispatcher \<Rightarrow> 's dispatcher" where
  "dispatch_post w i d =
     (let f = di_flights d ! i
      in d\<lparr>di_flights := drop_at i (di_flights d), di_posted := di_posted d @ [f],
           di_events := di_events d @ post_events (fl_turn f) (po_outcomes (post_with_retry w))\<rparr>)"

definition dispatch_release :: "'s weighted \<Rightarrow> nat \<Rightarrow> 's dispatcher \<Rightarrow> 's dispatcher" where
  "dispatch_release sm i d =
     d\<lparr>di_bytes := sm_release sm (di_bytes d) (fl_weight (di_posted d ! i)),
       di_posted := drop_at i (di_posted d), di_released := di_released d + 1\<rparr>"

definition dispatch_leave :: "'s dispatcher \<Rightarrow> 's dispatcher" where
  "dispatch_leave d = (free_slot d)\<lparr>di_released := di_released d - 1\<rparr>"

inductive dispatch_step :: "'s weighted \<Rightarrow> (turn_envelope \<Rightarrow> string option) \<Rightarrow> 's dispatcher \<Rightarrow> 's dispatcher \<Rightarrow> bool"
  for sm marshal
where
  step_enter: "dispatch_step sm marshal d (dispatch_enter e d)"
| step_charge: "i < length (di_marshalling d) \<Longrightarrow> dispatch_step sm marshal d (dispatch_charge sm marshal i d)"
| step_post: "i < length (di_flights d) \<Longrightarrow> dispatch_step sm marshal d (dispatch_post w i d)"
| step_release: "i < length (di_posted d) \<Longrightarrow> dispatch_step sm marshal d (dispatch_release sm i d)"
| step_leave: "0 < di_released d \<Longrightarrow> dispatch_step sm marshal d (dispatch_leave d)"

inductive dispatch_reachable ::
  "'s weighted \<Rightarrow> (turn_envelope \<Rightarrow> string option) \<Rightarrow> 's dispatcher \<Rightarrow> 's dispatcher \<Rightarrow> bool"
  for sm marshal start
where
  reach_start: "dispatch_reachable sm marshal start start"
| reach_step: "dispatch_reachable sm marshal start d \<Longrightarrow> dispatch_step sm marshal d d' \<Longrightarrow>
    dispatch_reachable sm marshal start d'"

end
