(* ===== verification/DispatcherFacts.thy ===== *)
theory DispatcherFacts
  imports Dispatcher
begin

text \<open>
  The dispatcher's guarantees: one outcome for every turn in every interleaving, its two budgets, the
  classification of a post, what an envelope still carries once the limit is enforced, and retries that
  append once.
\<close>

subsection \<open>The dispatcher's account\<close>

text \<open>What the dispatcher relies on of the semaphore: an acquisition charges its weight within the budget
  or leaves it alone, a release gives the weight back.\<close>

definition weighted_law :: "'s weighted \<Rightarrow> ('s \<Rightarrow> int) \<Rightarrow> int \<Rightarrow> bool" where
  "weighted_law sm cur budget \<longleftrightarrow>
     (\<forall>s n s'. sm_try sm s n = Some s' \<longrightarrow> cur s' = cur s + n \<and> cur s' \<le> budget) \<and>
     (\<forall>s n. cur (sm_release sm s n) = cur s - n)"

lemma weighted_try: "weighted_law sm cur b \<Longrightarrow> sm_try sm s n = Some s' \<Longrightarrow> cur s' = cur s + n \<and> cur s' \<le> b"
  unfolding weighted_law_def by blast

lemma weighted_release: "weighted_law sm cur b \<Longrightarrow> cur (sm_release sm s n) = cur s - n"
  by (simp add: weighted_law_def)

definition flight_bytes :: "flight list \<Rightarrow> int" where
  "flight_bytes fs = (\<Sum>f\<leftarrow>fs. fl_weight f)"

definition turn_account :: "'s dispatcher \<Rightarrow> nat multiset" where
  "turn_account d = mset (map ev_turn (di_events d)) + mset (map fst (di_marshalling d)) + mset (map fl_turn (di_flights d))"

definition dispatcher_ok :: "('s \<Rightarrow> int) \<Rightarrow> int \<Rightarrow> 's dispatcher \<Rightarrow> bool" where
  "dispatcher_ok cur budget d \<longleftrightarrow>
     di_slots d = length (di_marshalling d) + length (di_flights d) + length (di_posted d) + di_released d \<and>
     di_slots d \<le> di_max d \<and>
     cur (di_bytes d) = flight_bytes (di_flights d) + flight_bytes (di_posted d) \<and>
     cur (di_bytes d) \<le> budget \<and>
     list_all (\<lambda>f. 0 \<le> fl_weight f) (di_flights d @ di_posted d) \<and>
     turn_account d = mset [0..<di_dispatched d]"

lemma flight_bytes_simps [simp]:
  "flight_bytes [] = 0" "flight_bytes (f # fs) = fl_weight f + flight_bytes fs"
  "flight_bytes (fs @ gs) = flight_bytes fs + flight_bytes gs"
  by (simp_all add: flight_bytes_def)

lemma flight_bytes_drop: "i < length fs \<Longrightarrow> flight_bytes (drop_at i fs) = flight_bytes fs - fl_weight (fs ! i)"
  by (drule split_nth) (metis add_diff_cancel_left' flight_bytes_simps(2,3) group_cancel.add2)

lemma map_drop_at: "map f (drop_at i xs) = drop_at i (map f xs)"
  by (simp add: drop_at_def take_map drop_map)

lemma mset_map_drop_at: "i < length xs \<Longrightarrow> mset (map f xs) = add_mset (f (xs ! i)) (mset (map f (drop_at i xs)))"
  using mset_drop_at [of i "map f xs"] by (simp only: map_drop_at length_map nth_map)

lemma list_all_drop_at: "list_all P xs \<Longrightarrow> list_all P (drop_at i xs)"
  by (auto simp: drop_at_def list_all_iff dest: in_set_takeD in_set_dropD)

text \<open>A post ends in exactly one outcome.\<close>

lemma post_attempts_one:
  "0 < attempt \<Longrightarrow> attempt \<le> max_attempts \<Longrightarrow> \<exists>x. po_outcomes (post_attempts w attempt backoff r) = po_outcomes r @ [x]"
proof (induction w attempt backoff r rule: post_attempts.induct)
  case (1 w attempt backoff r)
  show ?case
    using 1 by (subst post_attempts.simps) (auto simp: post_done_def Let_def max_attempts_def split: option.split)
qed

lemma post_once: "\<exists>x. po_outcomes (post_with_retry w) = [x]"
  using post_attempts_one [of 1 w first_post_backoff "\<lparr>po_outcomes = [], po_posts = [], po_sleeps = []\<rparr>"]
  by (simp add: post_with_retry_def max_attempts_def)

lemma post_events_one: "\<exists>ev. post_events n (po_outcomes (post_with_retry w)) = [ev] \<and> ev_turn ev = n"
  using post_once [of w] by (auto simp: post_events_def split: post_outcome.split)

subsection \<open>Every step keeps it\<close>

lemma enter_ok: "dispatcher_ok cur b d \<Longrightarrow> dispatcher_ok cur b (dispatch_enter e d)"
  by (auto simp: dispatcher_ok_def dispatch_enter_def note_event_def turn_account_def Let_def simp del: mset_upt)

text \<open>Leaving early gives the slot back with the event.\<close>

lemma early_drop_ok:
  assumes "dispatcher_ok cur b d" "i < length (di_marshalling d)" "di_marshalling d ! i = (n, e)"
  shows "dispatcher_ok cur b (note_event (OnDrop n r) (free_slot (d\<lparr>di_marshalling := drop_at i (di_marshalling d), di_raw_lane := l\<rparr>)))"
  using assms mset_map_drop_at [OF assms(2), of fst]
  by (auto simp: dispatcher_ok_def note_event_def free_slot_def turn_account_def)

lemma charge_ok:
  assumes law: "weighted_law sm cur b" and ok: "dispatcher_ok cur b d" and i: "i < length (di_marshalling d)"
  shows "dispatcher_ok cur b (dispatch_charge sm marshal i d)"
proof -
  obtain n e where ne: "di_marshalling d ! i = (n, e)" by (cases "di_marshalling d ! i")
  note early = early_drop_ok [OF ok i ne]
  have same: "d\<lparr>di_marshalling := m\<rparr> = d\<lparr>di_marshalling := m, di_raw_lane := di_raw_lane d\<rparr>" for m by simp
  show ?thesis
  proof (cases "marshal e")
    case None
    with early [of DropMarshalError "di_raw_lane d"] show ?thesis by (simp add: dispatch_charge_def ne)
  next
    case (Some p0)
    obtain p e' stripped where l: "enforce_body_limit marshal e p0 = (p, e', stripped)"
      by (cases "enforce_body_limit marshal e p0") auto
    show ?thesis
    proof (cases "sm_try sm (di_bytes d) (int (length p))")
      case None
      with Some l early [of DropSemFull "di_raw_lane d"] early [of DropSemFull "di_raw_lane d @ [RawSkipped OversizeStripped]"]
      show ?thesis by (simp add: dispatch_charge_def ne Let_def)
    next
      case (Some s')
      from weighted_try [OF law this] \<open>marshal e = Some p0\<close> Some l ok i mset_map_drop_at [OF i, of fst] show ?thesis
        by (auto simp: dispatch_charge_def ne Let_def dispatcher_ok_def turn_account_def)
    qed
  qed
qed

lemma post_ok:
  assumes ok: "dispatcher_ok cur b d" and i: "i < length (di_flights d)"
  shows "dispatcher_ok cur b (dispatch_post w i d)"
proof -
  obtain ev where ev: "post_events (fl_turn (di_flights d ! i)) (po_outcomes (post_with_retry w)) = [ev]"
    "ev_turn ev = fl_turn (di_flights d ! i)" using post_events_one by blast
  have "0 \<le> fl_weight (di_flights d ! i)" using ok i by (simp add: dispatcher_ok_def list_all_iff)
  with ok i ev mset_map_drop_at [OF i, of fl_turn] flight_bytes_drop [OF i] show ?thesis
    by (auto simp: dispatch_post_def Let_def dispatcher_ok_def turn_account_def list_all_drop_at)
qed

lemma release_ok:
  assumes law: "weighted_law sm cur b" and ok: "dispatcher_ok cur b d" and i: "i < length (di_posted d)"
  shows "dispatcher_ok cur b (dispatch_release sm i d)"
proof -
  have "0 \<le> fl_weight (di_posted d ! i)" using ok i by (simp add: dispatcher_ok_def list_all_iff)
  with ok i weighted_release [OF law] flight_bytes_drop [OF i] show ?thesis
    by (auto simp: dispatch_release_def dispatcher_ok_def turn_account_def list_all_drop_at)
qed

lemma leave_ok: "dispatcher_ok cur b d \<Longrightarrow> 0 < di_released d \<Longrightarrow> dispatcher_ok cur b (dispatch_leave d)"
  by (auto simp: dispatch_leave_def free_slot_def dispatcher_ok_def turn_account_def)

lemma dispatch_step_ok:
  assumes "weighted_law sm cur b" "dispatch_step sm marshal d d'" "dispatcher_ok cur b d"
  shows "dispatcher_ok cur b d'"
  using assms(2,3)
  by cases (auto intro: enter_ok charge_ok [OF assms(1)] post_ok release_ok [OF assms(1)] leave_ok)

lemma dispatch_reachable_ok:
  assumes "weighted_law sm cur b"
  shows "dispatch_reachable sm marshal start d \<Longrightarrow> dispatcher_ok cur b start \<Longrightarrow> dispatcher_ok cur b d"
  by (induction rule: dispatch_reachable.induct) (auto intro: dispatch_step_ok [OF assms])

text \<open>The maximum is set once.\<close>

lemma dispatch_max: "dispatch_reachable sm marshal start d \<Longrightarrow> di_max d = di_max start"
proof (induction rule: dispatch_reachable.induct)
  case (reach_step d d')
  from reach_step(2) have "di_max d' = di_max d"
    by cases (auto simp: dispatch_enter_def dispatch_charge_def dispatch_post_def dispatch_release_def dispatch_leave_def
        free_slot_def note_event_def Let_def split: prod.split option.split)
  with reach_step(3) show ?case by simp
qed simp

subsection \<open>Properties\<close>

text \<open>C21: one outcome per dispatched turn. In every interleaving of dispatches, posts and releases, over
  any encoder and any answers of ingest, each turn handed to the dispatcher is accepted or dropped exactly
  once or still under way; never more than the configured number hold a slot, the slots held are those
  of the turns under way, and the bytes charged are those of the payloads under way, within the
  budget.\<close>

theorem dispatch_accounting:
  assumes law: "weighted_law sm cur budget" "0 \<le> budget"
    and start: "start = new_dispatcher new_weighted max_inflight byte_budget" "cur (di_bytes start) = 0"
    and d: "dispatch_reachable sm marshal start d"
  shows "mset (map ev_turn (di_events d)) + mset (map fst (di_marshalling d)) + mset (map fl_turn (di_flights d))
           = mset [0..<di_dispatched d]
    \<and> di_slots d = length (di_marshalling d) + length (di_flights d) + length (di_posted d) + di_released d
    \<and> int (di_slots d) \<le> (if max_inflight \<le> 0 then 100 else max_inflight)
    \<and> cur (di_bytes d) = flight_bytes (di_flights d) + flight_bytes (di_posted d) \<and> cur (di_bytes d) \<le> budget"
proof -
  have "dispatcher_ok cur budget start"
    using start law by (simp add: dispatcher_ok_def new_dispatcher_def turn_account_def)
  note ok = dispatch_reachable_ok [OF law(1) d this]
  moreover have "int (di_max d) = (if max_inflight \<le> 0 then 100 else max_inflight)"
    unfolding dispatch_max [OF d] by (simp add: start(1) new_dispatcher_def default_max_inflight_def)
  moreover have "int (di_slots d) \<le> int (di_max d)" using ok by (simp add: dispatcher_ok_def)
  ultimately show ?thesis by (simp add: dispatcher_ok_def turn_account_def del: mset_map mset_upt)
qed

text \<open>A turn is dispatched and charged on a dispatcher of one slot, a second finds it taken.\<close>

definition wit_weighted :: "int weighted" where
  "wit_weighted = \<lparr>sm_try = (\<lambda>s n. if s + n \<le> 10 then Some (s + n) else None), sm_release = (\<lambda>s n. s - n)\<rparr>"

definition wit_turn_envelope :: turn_envelope where
  "wit_turn_envelope = \<lparr>te_provider = ''anthropic'', te_agent_name = [], te_request = ''{}'', te_response = None,
     te_raw_response = ''x'', te_raw_response_encoding = [], te_raw_response_withheld = False,
     te_meta = \<lparr>xm_request_id = ''r'', xm_content_type = [], xm_thread_id = [], xm_method = [], xm_path = [], xm_endpoint = [],
       xm_model = [], xm_model_family = [], xm_stream = [], xm_content_encoding = [], xm_upstream_status = 200,
       xm_upstream_status_class = [], xm_request_bytes = 2, xm_response_bytes = 1, xm_elapsed_seconds = 0\<rparr>,
      te_session = None, te_reduced_fallback = None\<rparr>"

definition wit_dispatcher :: "int dispatcher" where
  "wit_dispatcher = dispatch_enter wit_turn_envelope
     (dispatch_charge wit_weighted (\<lambda>_. Some ''{}'') 0 (dispatch_enter wit_turn_envelope (new_dispatcher (\<lambda>_. 0) 1 10)))"

lemma wit_dispatch_reachable:
  "dispatch_reachable wit_weighted (\<lambda>_. Some ''{}'') (new_dispatcher (\<lambda>_. 0) 1 10) wit_dispatcher"
proof -
  have "0 < length (di_marshalling (dispatch_enter wit_turn_envelope (new_dispatcher (\<lambda>_. 0 :: int) 1 10)))"
    by (simp add: dispatch_enter_def new_dispatcher_def)
  from step_charge [OF this] show ?thesis
    unfolding wit_dispatcher_def by (rule reach_step [OF reach_step [OF reach_step [OF reach_start step_enter]] step_enter])
qed

lemma dispatch_accounting_witness:
  "di_events wit_dispatcher = [OnDrop 1 DropSemFull] \<and> di_dispatched wit_dispatcher = 2
   \<and> mset (map ev_turn (di_events wit_dispatcher)) + mset (map fst (di_marshalling wit_dispatcher))
       + mset (map fl_turn (di_flights wit_dispatcher)) = mset [0..<di_dispatched wit_dispatcher]"
proof -
  have law: "weighted_law wit_weighted (\<lambda>s. s) 10" by (auto simp: weighted_law_def wit_weighted_def split: if_splits)
  have "di_events wit_dispatcher = [OnDrop 1 DropSemFull]" "di_dispatched wit_dispatcher = 2"
    by (simp_all add: wit_dispatcher_def dispatch_enter_def dispatch_charge_def new_dispatcher_def note_event_def
        wit_weighted_def wit_turn_envelope_def enforce_body_limit_def attached_shape_def drop_at_def Let_def)
  moreover have "di_bytes (new_dispatcher (\<lambda>_. 0) 1 10) = (0 :: int)" by (simp add: new_dispatcher_def)
  note dispatch_accounting [OF law _ refl this wit_dispatch_reachable, THEN conjunct1]
  ultimately show ?thesis by simp
qed

text \<open>The outcome of a post whose last answer is given, and the answers after which it may go on.\<close>

definition answered :: "int option \<Rightarrow> post_outcome" where
  "answered ans =
     (case ans of
        Some st \<Rightarrow> if st = 200 \<or> st = 202 then PostAccepted
                   else if st < 500 then PostDropped DropIngestReject else PostDropped DropIngestTimeout
      | None \<Rightarrow> PostDropped DropIngestTimeout)"

definition retryable :: "int option \<Rightarrow> bool" where
  "retryable ans = (case ans of None \<Rightarrow> True | Some st \<Rightarrow> 500 \<le> st)"

lemma retryable_answered: "retryable a \<Longrightarrow> answered a = PostDropped DropIngestTimeout"
  by (auto simp: retryable_def answered_def split: option.splits)

lemma answered_None: "answered None = PostDropped DropIngestTimeout"
  by (simp add: answered_def)

text \<open>One attempt.\<close>

lemma post_attempts_step:
  assumes "attempt \<le> max_attempts"
  shows "post_attempts w attempt b r =
    (let a = pa_answer (w attempt); r1 = r\<lparr>po_posts := po_posts r @ [a]\<rparr>; r2 = r1\<lparr>po_sleeps := po_sleeps r @ [b]\<rparr>
     in if pa_ctx_over (w attempt) \<or> pa_request_error (w attempt) then post_done (PostDropped DropIngestTimeout) r
        else if \<not> retryable a \<or> attempt = max_attempts then post_done (answered a) r1
        else if \<not> pa_slept (w attempt) then post_done (answered a) r2
        else post_attempts w (attempt + 1) (b * 2) r2)"
  using assms by (subst post_attempts.simps) (auto simp: retryable_def answered_def Let_def split: option.splits)

text \<open>C40: a post is classified by its last answer. It posts at most three times, waits half a second and
  then a second, and ends in exactly one outcome: accepted when the last answer is 200 or 202, a
  rejection when it is another status below 500, a timeout in every other case; and it never posts
  again after an answer that is neither missing nor a server error.\<close>

theorem post_classified:
  "let r = post_with_retry w
   in length (po_posts r) \<le> 3 \<and> length (po_posts r) \<le> length (po_sleeps r) + 1
     \<and> po_sleeps r = take (length (po_sleeps r)) [500000000, 1000000000]
     \<and> list_all retryable (butlast (po_posts r))
     \<and> po_outcomes r = [answered (last (None # po_posts r))]"
proof -
  have s1: "post_attempts w 1 b r =
      (let a = pa_answer (w 1); r1 = r\<lparr>po_posts := po_posts r @ [a]\<rparr>; r2 = r1\<lparr>po_sleeps := po_sleeps r @ [b]\<rparr>
       in if pa_ctx_over (w 1) \<or> pa_request_error (w 1) then post_done (PostDropped DropIngestTimeout) r
          else if \<not> retryable a then post_done (answered a) r1
          else if \<not> pa_slept (w 1) then post_done (answered a) r2 else post_attempts w 2 (b * 2) r2)" for b r
    by (subst post_attempts_step) (simp_all add: max_attempts_def Let_def del: One_nat_def)
  have s2: "post_attempts w 2 b r =
      (let a = pa_answer (w 2); r1 = r\<lparr>po_posts := po_posts r @ [a]\<rparr>; r2 = r1\<lparr>po_sleeps := po_sleeps r @ [b]\<rparr>
       in if pa_ctx_over (w 2) \<or> pa_request_error (w 2) then post_done (PostDropped DropIngestTimeout) r
          else if \<not> retryable a then post_done (answered a) r1
          else if \<not> pa_slept (w 2) then post_done (answered a) r2 else post_attempts w 3 (b * 2) r2)" for b r
    by (subst post_attempts_step) (simp_all add: max_attempts_def Let_def del: One_nat_def)
  have s3: "post_attempts w 3 b r =
      (let a = pa_answer (w 3); r1 = r\<lparr>po_posts := po_posts r @ [a]\<rparr>
       in if pa_ctx_over (w 3) \<or> pa_request_error (w 3) then post_done (PostDropped DropIngestTimeout) r
          else post_done (answered a) r1)" for b r
    by (subst post_attempts_step) (simp_all add: max_attempts_def Let_def del: One_nat_def)
  show ?thesis
    unfolding post_with_retry_def s1 s2 s3
    by (auto simp: Let_def post_done_def first_post_backoff_def retryable_answered answered_None)
qed

text \<open>C24: enforcing the limit keeps the turn. Whatever a stream dispatches and whatever encodes it, what
  goes to ingest is the encoding of an envelope of the same provider, request, metadata and session; it
  has a reduction or the bytes to make one of; it is marked withheld exactly when the mode asks for
  bytes and it has none; and it is over the limit only when it has no bytes left to give up, or the
  stripped envelope does not encode.\<close>

theorem enforced_turn_complete:
  "dispatched_all (\<lambda>e. case marshal e of
        None \<Rightarrow> True
      | Some p \<Rightarrow>
          (case enforce_body_limit marshal e p of (payload, sent, stripped) \<Rightarrow>
             marshal sent = Some payload
             \<and> te_provider sent = te_provider e \<and> te_request sent = te_request e \<and> te_meta sent = te_meta e
             \<and> te_session sent = te_session e
             \<and> (if te_response sent = None then te_raw_response sent \<noteq> [] else True)
             \<and> te_raw_response_withheld sent = (pe_mode env \<noteq> RawResponseOff \<and> te_raw_response sent = [])
             \<and> (length payload \<le> max_ingest_body_bytes \<or> te_raw_response sent = [] \<or> marshal (stripped_envelope e) = None)))
     (sx_outcomes (process_stream env msgs))"
proof (intro dispatched_all_stream dispatched_single)
  fix st e
  assume "dispatch_turn env st = Dispatched e"
  then show "case marshal e of
        None \<Rightarrow> True
      | Some p \<Rightarrow>
          (case enforce_body_limit marshal e p of (payload, sent, stripped) \<Rightarrow>
             marshal sent = Some payload
             \<and> te_provider sent = te_provider e \<and> te_request sent = te_request e \<and> te_meta sent = te_meta e
             \<and> te_session sent = te_session e
             \<and> (if te_response sent = None then te_raw_response sent \<noteq> [] else True)
             \<and> te_raw_response_withheld sent = (pe_mode env \<noteq> RawResponseOff \<and> te_raw_response sent = [])
             \<and> (length payload \<le> max_ingest_body_bytes \<or> te_raw_response sent = [] \<or> marshal (stripped_envelope e) = None))"
  proof (rule dispatch_turn_cases)
    fix resp
    assume "xs_resp_buf st \<noteq> []" "e = turn_envelope_of env st (stamp_wall_clock (elapsed_nanos env st) resp)"
    then have "te_raw_response_withheld e = (pe_mode env \<noteq> RawResponseOff \<and> te_raw_response e = [])"
      and "te_response e \<noteq> None \<or> te_raw_response e \<noteq> [] \<and> te_reduced_fallback e \<noteq> None"
      and "te_raw_response e = [] \<or> pe_mode env \<noteq> RawResponseOff"
      by (cases "pe_mode env"; auto simp: turn_envelope_of_def decide_raw_lane_def no_raw_lane_def
          sends_raw_bytes_def Let_def)+
    then show ?thesis
      by (auto simp: enforce_body_limit_def stripped_envelope_def split: option.split)
  qed
qed

subsection \<open>Retries\<close>

text \<open>A body that reaches ingest at each of the given times, one attempt after the other; a panic of the
  server ends it.\<close>

fun redeliver :: "ingest_env \<Rightarrow> gotime list \<Rightarrow> string \<Rightarrow> ingest_server \<Rightarrow> ingest_server" where
  "redeliver env [] body s = s"
| "redeliver env (now # later) body s =
     (case handle_ingest env now body s of None \<Rightarrow> s | Some (_, s') \<Rightarrow> redeliver env later body s')"

lemma insert_grows:
  "length (db_turns (snd (insert_raw_turn now org put db))) \<le> Suc (length (db_turns db))"
  by (simp add: insert_raw_turn_def)

text \<open>Whether the request id of a turn is taken in the organisation of its row.\<close>

definition turn_taken :: "ingest_env \<Rightarrow> turn_payload \<Rightarrow> raw_row list \<Rightarrow> bool" where
  "turn_taken env t rows \<longleftrightarrow>
     (\<forall>org. parse_org (ie_store env) (case tp_session t of None \<Rightarrow> [] | Some en \<Rightarrow> en_org_id en) = Inr org \<longrightarrow>
            request_taken org (tm_request_id (tp_meta t)) rows)"

text \<open>An attempt appends nothing, or one row that takes the request id; with the id taken, nothing.\<close>

lemma attempt_rows:
  assumes "decode_payload env body = Inr (b, t)" "handle_ingest env now body s = Some (reply, s')"
    "tm_request_id (tp_meta t) \<noteq> []"
  shows "db_turns (sv_db s') = db_turns (sv_db s)
    \<or> \<not> turn_taken env t (db_turns (sv_db s)) \<and> turn_taken env t (db_turns (sv_db s'))
      \<and> length (db_turns (sv_db s')) \<le> Suc (length (db_turns (sv_db s)))"
proof -
  define put where "put = raw_turn_put t (stored_envelope (fst (reduce_raw_only env t s)) b)"
  have put: "rt_request_id put = tm_request_id (tp_meta t)"
    "rp_org_id put = (case tp_session t of None \<Rightarrow> [] | Some en \<Rightarrow> en_org_id en)"
    by (simp_all add: put_def raw_turn_put_def Let_def)
  have db: "sv_db s' = or_unchanged (sv_db s) (put_raw_turn (ie_store env) now put (sv_db s))"
    unfolding put_def by (rule handle_ingest_db [OF assms(1,2)])
  show ?thesis
  proof (cases "put_raw_turn (ie_store env) now put (sv_db s)")
    case (Inl e)
    with db show ?thesis by (simp add: or_unchanged_def)
  next
    case (Inr y)
    obtain ins db' where y: "y = (ins, db')" by (cases y)
    note p = Inr [unfolded y]
    from db p have s': "sv_db s' = db'" by (simp add: or_unchanged_def)
    show ?thesis
    proof (cases "turn_taken env t (db_turns (sv_db s))")
      case True
      then have "db_turns db' = db_turns (sv_db s)"
        using put_when_taken [OF p] by (simp add: turn_taken_def put)
      then show ?thesis by (simp add: s')
    next
      case False
      moreover have "turn_taken env t (db_turns db')"
        using put_taken [OF p] assms(3) by (simp add: turn_taken_def put)
      moreover obtain org where "parse_org (ie_store env) (rp_org_id put) = Inr org"
        using False by (auto simp: turn_taken_def put)
      then have "length (db_turns db') \<le> Suc (length (db_turns (sv_db s)))"
        using put_turns [OF p] insert_grows by simp
      ultimately show ?thesis by (simp add: s')
    qed
  qed
qed

lemma redeliver_rows:
  assumes d: "decode_payload env body = Inr (b, t)" and rid: "tm_request_id (tp_meta t) \<noteq> []"
  shows "length (db_turns (sv_db (redeliver env ts body s)))
    \<le> (if turn_taken env t (db_turns (sv_db s)) then 0 else 1) + length (db_turns (sv_db s))"
proof (induction ts arbitrary: s)
  case (Cons now later)
  show ?case
  proof (cases "handle_ingest env now body s")
    case (Some y)
    obtain reply s' where y: "y = (reply, s')" by (cases y)
    show ?thesis using attempt_rows [OF d Some [unfolded y] rid] Cons.IH [of s'] Some y by (auto split: if_splits)
  qed simp
qed simp

text \<open>Retries append once. However often the body of a turn with a request id reaches ingest - every
  turn the sidecar dispatches has one - and whatever each attempt is answered, at most one row is
  appended to the raw layer, and none when the request id was recorded before.\<close>

theorem retries_append_once:
  "case decode_payload env body of
     Inl _ \<Rightarrow> db_turns (sv_db (redeliver env ts body s)) = db_turns (sv_db s)
   | Inr (_, t) \<Rightarrow>
       if tm_request_id (tp_meta t) = [] then True
       else length (db_turns (sv_db (redeliver env ts body s)))
              \<le> (if turn_taken env t (db_turns (sv_db s)) then 0 else 1) + length (db_turns (sv_db s))"
proof (cases "decode_payload env body")
  case (Inl e)
  have "db_turns (sv_db (redeliver env ts body s)) = db_turns (sv_db s)"
    by (induction ts arbitrary: s) (simp_all add: handle_ingest_def Inl)
  then show ?thesis by (simp add: Inl)
next
  case (Inr x)
  obtain b t where x: "x = (b, t)" by (cases x)
  show ?thesis using redeliver_rows [OF Inr [unfolded x]] by (simp add: Inr x)
qed

end
