(* ===== verification/SpanStore.thy ===== *)
theory SpanStore
  imports RawStore SpanEmit
begin

text \<open>
  Persisting the span projection: \<open>pkg/storage/postgres/spans.go\<close>, \<open>change_feed.go\<close>, the tail of
  \<open>derive.go\<close>, and the statements of \<open>gensqlc/spans.sql.go\<close> they run.

  A table is the list of its rows. A write is one transaction: it answers an error and nothing is
  kept, or the new tables. JSON encoding, the SHA-256 digest and the parser of a decimal are
  parameters; the limits of a column's type and the connection's own errors are left out. A JSONB
  column is the text it was given, NULL the empty text.
\<close>

subsection \<open>Rows\<close>

record numeric =
  nm_valid :: bool
  nm_nan :: bool
  nm_exp :: int
  nm_int :: "int option"

definition zero_numeric :: numeric where
  "zero_numeric = \<lparr>nm_valid = True, nm_nan = False, nm_exp = 0, nm_int = Some 0\<rparr>"

definition numeric_value :: "numeric \<Rightarrow> rat" where
  "numeric_value n = (case nm_int n of None \<Rightarrow> 0
     | Some m \<Rightarrow> if 0 \<le> nm_exp n then of_int m * 10 ^ nat (nm_exp n) else of_int m / 10 ^ nat (- nm_exp n))"

text \<open>What a row says beside its key and its session.\<close>

record turn_content =
  tc_user_prompt :: string
  tc_response_preview :: string
  tc_synthetic :: string
  tc_status :: string
  tc_started_at :: gotime
  tc_ended_at :: "gotime option"
  tc_duration_ns :: int
  tc_total_input :: int
  tc_total_output :: int
  tc_main_input :: int
  tc_main_output :: int
  tc_cache_read :: int
  tc_cache_creation :: int
  tc_cost :: numeric
  tc_tool_calls :: int
  tc_source :: string
  tc_fidelity :: string

record span_content =
  sc_parent :: string
  sc_kind :: string
  sc_name :: string
  sc_status :: string
  sc_call_kind :: string
  sc_thread_id :: string
  sc_model :: string
  sc_stop_reason :: string
  sc_started_at :: gotime
  sc_duration_ns :: int
  sc_seq :: int
  sc_input :: string
  sc_output :: string
  sc_usage :: string
  sc_verdict :: string
  sc_raw_turn :: "int option"
  sc_node_hash :: string
  sc_fidelity :: string

record turn_row =
  tw_org :: pg_uuid
  tw_trace :: string
  tw_session :: pg_uuid
  tw_content :: turn_content
  tw_hash :: string
  tw_seq :: int

record span_row =
  pw_org :: pg_uuid
  pw_trace :: string
  pw_span :: string
  pw_session :: pg_uuid
  pw_content :: span_content
  pw_hash :: string
  pw_seq :: int

record link_row =
  lw_org :: pg_uuid
  lw_link :: span_link
  lw_session :: pg_uuid

text \<open>The columns of a session the deriver owns.\<close>

record session_rollup =
  ro_cost :: rat
  ro_input_tokens :: int
  ro_output_tokens :: int
  ro_turn_count :: nat
  ro_model_usage :: "string option"
  ro_title :: "string option"
  ro_tasks :: "string option"
  ro_kind_counts :: "string option"
  ro_git_activity :: bool
  ro_tool_results :: int
  ro_tool_errors :: int
  ro_status :: string
  ro_model :: string

record span_db =
  sb_turns :: "turn_row list"
  sb_spans :: "span_row list"
  sb_links :: "link_row list"
  sb_rollups :: "pg_uuid \<Rightarrow> session_rollup"

subsection \<open>Fidelity\<close>

definition fidelity_unbacked :: string where "fidelity_unbacked = []"
definition fidelity_raw :: string where "fidelity_raw = ''raw''"
definition fidelity_reduced :: string where "fidelity_reduced = ''reduced''"
definition fidelity_degraded :: string where "fidelity_degraded = ''degraded''"

lemmas fidelity_defs = fidelity_unbacked_def fidelity_raw_def fidelity_reduced_def fidelity_degraded_def

text \<open>A missing key of the map has rank 0.\<close>

definition fidelity_rank :: "string \<Rightarrow> nat" where
  "fidelity_rank t =
     (if t = fidelity_degraded then 0 else if t = fidelity_reduced then 1 else if t = fidelity_raw then 2
      else if t = fidelity_unbacked then 3 else 0)"

text \<open>The raw turns a set refers to, by first occurrence.\<close>

definition spans_of :: "span_set \<Rightarrow> span_turn \<Rightarrow> span list" where
  "spans_of ss t = map ((!) (so_spans ss)) (tn_spans t)"

definition referenced_raw_turns :: "span_set \<Rightarrow> int list" where
  "referenced_raw_turns ss =
     rev (remdups (rev (filter (\<lambda>i. i \<noteq> 0) (concat (map (\<lambda>t. map sp_raw_turn_id (spans_of ss t)) (so_turns ss))))))"

definition row_fidelity :: "raw_row \<Rightarrow> string" where
  "row_fidelity r =
     (if rp_raw_response_dropped (rw_put r) then fidelity_degraded
      else if su_raw_response (rw_put r) \<noteq> [] then fidelity_raw else fidelity_reduced)"

definition resolve_fidelity :: "raw_row list \<Rightarrow> span_set \<Rightarrow> int \<Rightarrow> string option" where
  "resolve_fidelity raws ss i =
     (if i \<in> set (referenced_raw_turns ss)
      then map_option row_fidelity (find (\<lambda>r. rw_id r = i) raws) else None)"

definition span_fidelity :: "(int \<Rightarrow> string option) \<Rightarrow> int \<Rightarrow> string" where
  "span_fidelity tiers i =
     (if i = 0 then fidelity_unbacked else case tiers i of Some t \<Rightarrow> t | None \<Rightarrow> fidelity_unbacked)"

definition rollup_fidelity :: "string list \<Rightarrow> string" where
  "rollup_fidelity tiers =
     foldl (\<lambda>worst t. if fidelity_rank t < fidelity_rank worst then t else worst) fidelity_unbacked tiers"

subsection \<open>Content hashes\<close>

text \<open>Big-endian bytes of a 64-bit pattern, and of the magnitude of a number, without leading zeros.\<close>

definition be64 :: "int \<Rightarrow> string" where
  "be64 v = map (\<lambda>k. char_of (nat (v div 2 ^ (8 * k) mod 256))) [7, 6, 5, 4, 3, 2, 1, 0]"

fun magnitude_bytes :: "nat \<Rightarrow> string" where
  "magnitude_bytes n = (if n = 0 then [] else magnitude_bytes (n div 256) @ [char_of (n mod 256)])"

declare magnitude_bytes.simps [simp del]

definition frame_bytes :: "string \<Rightarrow> string" where
  "frame_bytes b = be64 (int (length b)) @ b"

definition frame_i64 :: "int \<Rightarrow> string" where
  "frame_i64 v = frame_bytes (be64 v)"

definition frame_bool :: "bool \<Rightarrow> string" where
  "frame_bool b = frame_bytes [if b then CHR 0x01 else CHR 0x00]"

definition frame_time :: "gotime option \<Rightarrow> string" where
  "frame_time t = (case t of None \<Rightarrow> frame_bytes [] | Some v \<Rightarrow> frame_i64 v)"

definition frame_numeric :: "numeric \<Rightarrow> string" where
  "frame_numeric n = frame_bool (nm_valid n) @ frame_bool (nm_nan n) @ frame_i64 (nm_exp n)
     @ frame_bytes (case nm_int n of None \<Rightarrow> [] | Some m \<Rightarrow> magnitude_bytes (nat \<bar>m\<bar>))"

definition span_hash_input :: "span_content \<Rightarrow> string" where
  "span_hash_input c =
     frame_bytes (sc_parent c) @ frame_bytes (sc_kind c) @ frame_bytes (sc_name c) @ frame_bytes (sc_status c)
     @ frame_bytes (sc_call_kind c) @ frame_bytes (sc_thread_id c) @ frame_bytes (sc_model c) @ frame_bytes (sc_stop_reason c)
     @ frame_time (Some (sc_started_at c)) @ frame_i64 (sc_duration_ns c) @ frame_i64 (sc_seq c)
     @ frame_bytes (sc_input c) @ frame_bytes (sc_output c) @ frame_bytes (sc_usage c) @ frame_bytes (sc_verdict c)
     @ frame_i64 (case sc_raw_turn c of None \<Rightarrow> 0 | Some i \<Rightarrow> i) @ frame_bool (sc_raw_turn c \<noteq> None)
     @ frame_bytes (sc_node_hash c) @ frame_bytes (sc_fidelity c)"

definition turn_hash_input :: "turn_content \<Rightarrow> string" where
  "turn_hash_input c =
     frame_bytes (tc_user_prompt c) @ frame_bytes (tc_response_preview c) @ frame_bytes (tc_synthetic c) @ frame_bytes (tc_status c)
     @ frame_time (Some (tc_started_at c)) @ frame_time (tc_ended_at c) @ frame_i64 (tc_duration_ns c)
     @ frame_i64 (tc_total_input c) @ frame_i64 (tc_total_output c) @ frame_i64 (tc_main_input c) @ frame_i64 (tc_main_output c)
     @ frame_i64 (tc_cache_read c) @ frame_i64 (tc_cache_creation c) @ frame_numeric (tc_cost c) @ frame_i64 (tc_tool_calls c)
     @ frame_bytes (tc_source c) @ frame_bytes (tc_fidelity c)"

subsection \<open>Statements\<close>

text \<open>The session of a row stays; its cursor moves only when the hash does.\<close>

definition coalesce_uuid :: "pg_uuid \<Rightarrow> pg_uuid \<Rightarrow> pg_uuid" where
  "coalesce_uuid a b = (if uuid_valid a then a else b)"

definition merge_turn :: "turn_row \<Rightarrow> turn_row \<Rightarrow> turn_row" where
  "merge_turn new old =
     new\<lparr>tw_session := coalesce_uuid (tw_session old) (tw_session new),
         tw_seq := (if tw_hash old \<noteq> tw_hash new then tw_seq new else tw_seq old)\<rparr>"

definition merge_span :: "span_row \<Rightarrow> span_row \<Rightarrow> span_row" where
  "merge_span new old =
     new\<lparr>pw_session := coalesce_uuid (pw_session old) (pw_session new),
         pw_seq := (if pw_hash old \<noteq> pw_hash new then pw_seq new else pw_seq old)\<rparr>"

definition merge_link :: "link_row \<Rightarrow> link_row \<Rightarrow> link_row" where
  "merge_link new old = new\<lparr>lw_session := coalesce_uuid (lw_session old) (lw_session new)\<rparr>"

text \<open>\<open>INSERT ... ON CONFLICT (key) DO UPDATE\<close>.\<close>

fun upsert_by :: "('r \<Rightarrow> 'k) \<Rightarrow> ('r \<Rightarrow> 'r \<Rightarrow> 'r) \<Rightarrow> 'r \<Rightarrow> 'r list \<Rightarrow> 'r list" where
  "upsert_by key merge r [] = [r]"
| "upsert_by key merge r (x # xs) = (if key x = key r then merge r x # xs else x # upsert_by key merge r xs)"

datatype turn_key = TurnKey (tk_org: pg_uuid) (tk_trace: string)
datatype span_row_key = SpanKey (pk_org: pg_uuid) (pk_trace: string) (pk_span: string)
datatype link_key = LinkKey pg_uuid string string string string string string

definition turn_row_key :: "turn_row \<Rightarrow> turn_key" where
  "turn_row_key r = TurnKey (tw_org r) (tw_trace r)"

definition span_key_of :: "span_row \<Rightarrow> span_row_key" where
  "span_key_of r = SpanKey (pw_org r) (pw_trace r) (pw_span r)"

definition link_key_of :: "link_row \<Rightarrow> link_key" where
  "link_key_of r = (let l = lw_link r in
     LinkKey (lw_org r) (ln_from_trace l) (ln_from_span l) (ln_to_trace l) (ln_to_span l) (ln_from_io l) (ln_to_io l))"

definition upsert_turn :: "turn_row \<Rightarrow> span_db \<Rightarrow> span_db" where
  "upsert_turn r db = db\<lparr>sb_turns := upsert_by turn_row_key merge_turn r (sb_turns db)\<rparr>"

definition upsert_span :: "span_row \<Rightarrow> span_db \<Rightarrow> span_db" where
  "upsert_span r db = db\<lparr>sb_spans := upsert_by span_key_of merge_span r (sb_spans db)\<rparr>"

definition upsert_link :: "link_row \<Rightarrow> span_db \<Rightarrow> span_db" where
  "upsert_link r db = db\<lparr>sb_links := upsert_by link_key_of merge_link r (sb_links db)\<rparr>"

definition prune_links :: "pg_uuid \<Rightarrow> pg_uuid list \<Rightarrow> link_key list \<Rightarrow> span_db \<Rightarrow> span_db" where
  "prune_links org sids keep db =
     db\<lparr>sb_links := filter (\<lambda>r. \<not> (lw_org r = org \<and> lw_session r \<in> set sids \<and> link_key_of r \<notin> set keep)) (sb_links db)\<rparr>"

definition prune_spans :: "pg_uuid \<Rightarrow> pg_uuid list \<Rightarrow> span_row_key list \<Rightarrow> span_db \<Rightarrow> span_db" where
  "prune_spans org sids keep db =
     db\<lparr>sb_spans := filter (\<lambda>r. \<not> (pw_org r = org \<and> pw_session r \<in> set sids \<and> span_key_of r \<notin> set keep)) (sb_spans db)\<rparr>"

text \<open>The spans of a deleted trace go with it.\<close>

definition prune_turns :: "pg_uuid \<Rightarrow> pg_uuid list \<Rightarrow> turn_key list \<Rightarrow> span_db \<Rightarrow> span_db" where
  "prune_turns org sids keep db =
     (let doomed = (\<lambda>r. tw_org r = org \<and> tw_session r \<in> set sids \<and> turn_row_key r \<notin> set keep);
          gone = map turn_row_key (filter doomed (sb_turns db))
      in db\<lparr>sb_turns := filter (\<lambda>r. \<not> doomed r) (sb_turns db),
            sb_spans := filter (\<lambda>s. TurnKey (pw_org s) (pw_trace s) \<notin> set gone) (sb_spans db)\<rparr>)"

subsection \<open>Numbers and payloads\<close>

record span_codec =
  sv_scan :: "string \<Rightarrow> string + numeric" \<comment> \<open>\<open>Numeric.Scan\<close>\<close>
  sv_digest :: "string \<Rightarrow> string" \<comment> \<open>SHA-256 in hexadecimal\<close>
  sv_blocks :: "content_block list \<Rightarrow> string + string"
  sv_usage :: "usage \<Rightarrow> string + string"
  sv_verdict :: "verdict \<Rightarrow> string + string"
  sv_model_usage :: "model_usage list \<Rightarrow> string + string"
  sv_tasks :: "task list \<Rightarrow> string + string"
  sv_kind_counts :: "(string \<Rightarrow> int option) \<Rightarrow> string + string"
  sv_collate :: "string \<Rightarrow> rat" \<comment> \<open>the rank of a text in the collation of the database\<close>

text \<open>\<open>strconv.FormatFloat(v, 'f', 4, 64)\<close>: the nearest multiple of 0.0001, the even one of two.\<close>

definition nearest_even :: "rat \<Rightarrow> int" where
  "nearest_even x =
     (let f = \<lfloor>x\<rfloor>; d = x - of_int f
      in if d < 1 / 2 then f else if d > 1 / 2 then f + 1 else if even f then f else f + 1)"

definition format_fixed4 :: "rat \<Rightarrow> string" where
  "format_fixed4 v =
     (let m = nat \<bar>nearest_even (v * 10000)\<bar>; frac = dec_nat (m mod 10000)
      in (if v < 0 then ''-'' else []) @ dec_nat (m div 10000) @ ''.'' @ replicate (4 - length frac) (CHR ''0'') @ frac)"

definition numeric_from_float :: "span_codec \<Rightarrow> rat \<Rightarrow> string + numeric" where
  "numeric_from_float cx v = (if v = 0 then Inr zero_numeric else sv_scan cx (format_fixed4 v))"

definition content_json :: "span_codec \<Rightarrow> content_block list \<Rightarrow> string + string" where
  "content_json cx bs = (if bs = [] then Inr [] else sv_blocks cx bs)"

definition optional_json :: "('a \<Rightarrow> string + string) \<Rightarrow> 'a option \<Rightarrow> string + string" where
  "optional_json enc x = (case x of None \<Rightarrow> Inr [] | Some v \<Rightarrow> enc v)"

definition int32_count :: "int \<Rightarrow> int" where
  "int32_count n = (if n < 0 then 0 else if 2 ^ 31 - 1 < n then 2 ^ 31 - 1 else n)"

subsection \<open>Writing a span set\<close>

record span_write =
  ws_db :: span_db
  ws_turn_session :: "string \<Rightarrow> pg_uuid option"
  ws_keep_turns :: "turn_key list"
  ws_keep_spans :: "span_row_key list"
  ws_keep_links :: "link_key list"

definition turn_content_of :: "span_turn \<Rightarrow> numeric \<Rightarrow> string list \<Rightarrow> turn_content" where
  "turn_content_of t cost tiers =
     \<lparr>tc_user_prompt = tn_user_prompt t, tc_response_preview = tn_response_preview t, tc_synthetic = tn_synthetic t,
      tc_status = ''ok'', tc_started_at = tn_started_at t,
      tc_ended_at = (if tn_ended_at t = 0 then None else Some (tn_ended_at t)),
      tc_duration_ns = time_sub (tn_ended_at t) (tn_started_at t),
      tc_total_input = tn_total_input_tokens t, tc_total_output = tn_total_output_tokens t,
      tc_main_input = tn_main_input_tokens t, tc_main_output = tn_main_output_tokens t,
      tc_cache_read = tn_cache_read_tokens t, tc_cache_creation = tn_cache_creation_tokens t,
      tc_cost = cost, tc_tool_calls = tn_tool_calls t, tc_source = tn_source t, tc_fidelity = rollup_fidelity tiers\<rparr>"

definition turn_row_of :: "span_codec \<Rightarrow> pg_uuid \<Rightarrow> pg_uuid \<Rightarrow> int \<Rightarrow> string \<Rightarrow> turn_content \<Rightarrow> turn_row" where
  "turn_row_of cx org sid seq trace c =
     \<lparr>tw_org = org, tw_trace = trace, tw_session = sid, tw_content = c, tw_hash = sv_digest cx (turn_hash_input c), tw_seq = seq\<rparr>"

definition span_content_of :: "span_codec \<Rightarrow> span \<Rightarrow> string \<Rightarrow> string + span_content" where
  "span_content_of cx s tier =
     and_then (content_json cx (sp_input s)) (\<lambda>inp.
     and_then (content_json cx (sp_output s)) (\<lambda>outp.
     and_then (optional_json (sv_usage cx) (sp_usage s)) (\<lambda>us.
     and_then (optional_json (sv_verdict cx) (sp_verdict s)) (\<lambda>vd.
       Inr \<lparr>sc_parent = sp_parent s, sc_kind = sp_kind s, sc_name = sp_name s, sc_status = sp_status s,
            sc_call_kind = sp_call_kind s, sc_thread_id = sp_thread_id s, sc_model = sp_model s,
            sc_stop_reason = sp_stop_reason s, sc_started_at = sp_started_at s, sc_duration_ns = sp_duration_ns s,
            sc_seq = sp_seq s, sc_input = inp, sc_output = outp, sc_usage = us, sc_verdict = vd,
            sc_raw_turn = (if sp_raw_turn_id s = 0 then None else Some (sp_raw_turn_id s)),
            sc_node_hash = sp_node_hash s, sc_fidelity = tier\<rparr>))))"

definition span_row_of :: "span_codec \<Rightarrow> pg_uuid \<Rightarrow> pg_uuid \<Rightarrow> int \<Rightarrow> string \<Rightarrow> string \<Rightarrow> span_content \<Rightarrow> span_row" where
  "span_row_of cx org sid seq trace i c =
     \<lparr>pw_org = org, pw_trace = trace, pw_span = i, pw_session = sid, pw_content = c,
      pw_hash = sv_digest cx (span_hash_input c), pw_seq = seq\<rparr>"

definition write_span ::
  "span_codec \<Rightarrow> pg_uuid \<Rightarrow> pg_uuid \<Rightarrow> int \<Rightarrow> string \<Rightarrow> (int \<Rightarrow> string option) \<Rightarrow> span \<Rightarrow> span_write \<Rightarrow> string + span_write"
where
  "write_span cx org sid seq trace tiers s w =
     and_then (span_content_of cx s (span_fidelity tiers (sp_raw_turn_id s))) (\<lambda>c.
       Inr (w\<lparr>ws_db := upsert_span (span_row_of cx org sid seq trace (sp_id s) c) (ws_db w),
              ws_keep_spans := ws_keep_spans w @ [SpanKey org trace (sp_id s)]\<rparr>))"

definition write_turn ::
  "span_codec \<Rightarrow> pg_uuid \<Rightarrow> int \<Rightarrow> (Deriver.session_key \<Rightarrow> pg_uuid option) \<Rightarrow> (int \<Rightarrow> string option) \<Rightarrow> span_set \<Rightarrow>
   span_turn \<Rightarrow> span_write \<Rightarrow> string + span_write"
where
  "write_turn cx org seq sids tiers ss t w =
     (case sids (tn_session t) of
        None \<Rightarrow> Inr w
      | Some sid \<Rightarrow>
          and_then (numeric_from_float cx (tn_total_cost t)) (\<lambda>cost.
            let spans = spans_of ss t;
                c = turn_content_of t cost (map (\<lambda>s. span_fidelity tiers (sp_raw_turn_id s)) spans);
                w1 = w\<lparr>ws_turn_session := (ws_turn_session w)(tn_trace_id t \<mapsto> sid),
                       ws_keep_turns := ws_keep_turns w @ [TurnKey org (tn_trace_id t)],
                       ws_db := upsert_turn (turn_row_of cx org sid seq (tn_trace_id t) c) (ws_db w)\<rparr>
            in fold_res (write_span cx org sid seq (tn_trace_id t) tiers) spans w1))"

definition write_link :: "pg_uuid \<Rightarrow> span_link \<Rightarrow> span_write \<Rightarrow> span_write" where
  "write_link org l w =
     (case ws_turn_session w (ln_from_trace l) of
        None \<Rightarrow> w
      | Some sid \<Rightarrow>
          let r = \<lparr>lw_org = org, lw_link = l, lw_session = sid\<rparr>
          in w\<lparr>ws_db := upsert_link r (ws_db w), ws_keep_links := ws_keep_links w @ [link_key_of r]\<rparr>)"

text \<open>\<open>FoldSessionRollupsFromSpans\<close>: the sums over the session's traces, the dominant model of its
  main thread, every other column reset.\<close>

definition main_models :: "pg_uuid \<Rightarrow> span_db \<Rightarrow> string list" where
  "main_models sid db =
     map (\<lambda>r. sc_model (pw_content r))
       (filter (\<lambda>r. pw_session r = sid \<and> sc_kind (pw_content r) = ''llm'' \<and> sc_call_kind (pw_content r) = ''main''
                    \<and> sc_model (pw_content r) \<noteq> [] \<and> sc_thread_id (pw_content r) = []) (sb_spans db))"

definition dominant_model :: "(string \<Rightarrow> rat) \<Rightarrow> string list \<Rightarrow> string" where
  "dominant_model collate ms =
     (case sort_key (\<lambda>m. - int (count_list ms m)) (sort_key collate (remdups ms)) of [] \<Rightarrow> [] | m # _ \<Rightarrow> m)"

definition folded_rollup :: "span_codec \<Rightarrow> pg_uuid \<Rightarrow> span_db \<Rightarrow> session_rollup" where
  "folded_rollup cx sid db =
     (let rows = map tw_content (filter (\<lambda>r. tw_session r = sid) (sb_turns db))
      in \<lparr>ro_cost = (\<Sum>c\<leftarrow>rows. numeric_value (tc_cost c)), ro_input_tokens = (\<Sum>c\<leftarrow>rows. tc_total_input c),
          ro_output_tokens = (\<Sum>c\<leftarrow>rows. tc_total_output c), ro_turn_count = length rows,
          ro_model_usage = None, ro_title = None, ro_tasks = None, ro_kind_counts = None,
          ro_git_activity = False, ro_tool_results = 0, ro_tool_errors = 0, ro_status = ''unknown'',
          ro_model = dominant_model (sv_collate cx) (main_models sid db)\<rparr>)"

definition fold_session_rollups :: "span_codec \<Rightarrow> pg_uuid list \<Rightarrow> span_db \<Rightarrow> span_db" where
  "fold_session_rollups cx sids db =
     db\<lparr>sb_rollups := (\<lambda>i. if i \<in> set sids then folded_rollup cx i db else sb_rollups db i)\<rparr>"

definition set_rollup :: "pg_uuid \<Rightarrow> (session_rollup \<Rightarrow> session_rollup) \<Rightarrow> span_db \<Rightarrow> span_db" where
  "set_rollup sid f db = db\<lparr>sb_rollups := (sb_rollups db)(sid := f (sb_rollups db sid))\<rparr>"

text \<open>The folds the deriver made in Go, for one session each; a Go map has no order.\<close>

definition write_fold ::
  "(Deriver.session_key \<Rightarrow> pg_uuid option) \<Rightarrow> (Deriver.session_key \<Rightarrow> 'a option) \<Rightarrow>
   ('a \<Rightarrow> string + (session_rollup \<Rightarrow> session_rollup)) \<Rightarrow> Deriver.session_key \<Rightarrow> span_db \<Rightarrow> string + span_db"
where
  "write_fold sids m f k db =
     (case (m k, sids k) of
        (Some x, Some sid) \<Rightarrow> if uuid_valid sid then and_then (f x) (\<lambda>g. Inr (set_rollup sid g db)) else Inr db
      | _ \<Rightarrow> Inr db)"

definition write_folds ::
  "span_codec \<Rightarrow> (Deriver.session_key \<Rightarrow> pg_uuid option) \<Rightarrow> Deriver.session_key list \<Rightarrow> span_set \<Rightarrow> span_db \<Rightarrow> string + span_db"
where
  "write_folds cx sids ks ss db =
     and_then (fold_res (write_fold sids (so_model_usage ss)
       (\<lambda>x. and_then (sv_model_usage cx x) (\<lambda>j. Inr (\<lambda>r. r\<lparr>ro_model_usage := Some j\<rparr>)))) ks db) (\<lambda>db1.
     and_then (fold_res (write_fold sids (so_tasks ss)
       (\<lambda>x. and_then (sv_tasks cx x) (\<lambda>j. Inr (\<lambda>r. r\<lparr>ro_tasks := Some j\<rparr>)))) ks db1) (\<lambda>db2.
     and_then (fold_res (write_fold sids (so_kind_counts ss)
       (\<lambda>x. and_then (sv_kind_counts cx x) (\<lambda>j. Inr (\<lambda>r. r\<lparr>ro_kind_counts := Some j\<rparr>)))) ks db2) (\<lambda>db3.
       fold_res (write_fold sids (so_status ss)
         (\<lambda>x. Inr (\<lambda>r. r\<lparr>ro_git_activity := st_has_git_activity x, ro_tool_results := int32_count (st_tool_result_count x),
            ro_tool_errors := int32_count (st_tool_error_count x), ro_status := st_derived_status x\<rparr>))) ks db3)))"

definition write_span_set ::
  "span_codec \<Rightarrow> pg_uuid \<Rightarrow> (Deriver.session_key \<Rightarrow> pg_uuid option) \<Rightarrow> Deriver.session_key list \<Rightarrow> pg_uuid list \<Rightarrow>
   int \<Rightarrow> raw_row list \<Rightarrow> span_set \<Rightarrow> span_db \<Rightarrow> string + span_db"
where
  "write_span_set cx org sids ks covered seq raws ss db =
     (let tiers = resolve_fidelity raws ss;
          start = \<lparr>ws_db = db, ws_turn_session = Map.empty, ws_keep_turns = [], ws_keep_spans = [], ws_keep_links = []\<rparr>
      in and_then (fold_res (write_turn cx org seq sids tiers ss) (so_turns ss) start) (\<lambda>w.
           let w1 = fold (write_link org) (concat (map tn_links (so_turns ss)) @ so_links ss) w
           in if covered = [] then Inr (ws_db w1)
              else let db1 = prune_links org covered (ws_keep_links w1) (ws_db w1);
                       db2 = prune_spans org covered (ws_keep_spans w1) db1;
                       db3 = prune_turns org covered (ws_keep_turns w1) db2
                   in write_folds cx sids ks ss (fold_session_rollups cx covered db3)))"

subsection \<open>Writing a derived set\<close>

text \<open>The sessions of a set that have a row.\<close>

definition session_id_by_key :: "session_row list \<Rightarrow> pg_uuid \<Rightarrow> Deriver.session_key \<Rightarrow> pg_uuid option" where
  "session_id_by_key rows org k =
     map_option sr_id (find_session (SKey org (harness_id k) (harness_session_id k)) rows)"

definition resolved_sessions :: "session_row list \<Rightarrow> pg_uuid \<Rightarrow> derived_set \<Rightarrow> Deriver.session_key \<Rightarrow> pg_uuid option" where
  "resolved_sessions rows org ds k = (if k \<in> set (ds_sessions ds) then session_id_by_key rows org k else None)"

definition write_derived_set ::
  "span_codec \<Rightarrow> (span_identity \<Rightarrow> string) \<Rightarrow> (rat \<Rightarrow> rat) \<Rightarrow> pg_uuid \<Rightarrow> int \<Rightarrow> raw_db \<Rightarrow> derived_set \<Rightarrow> span_db \<Rightarrow>
   string + span_db"
where
  "write_derived_set cx tx rnd org seq rdb ds db =
     (let sids = resolved_sessions (db_sessions rdb) org ds;
          covered = List.map_filter sids (ds_sessions ds)
      in and_then (write_span_set cx org sids (ds_sessions ds) covered seq (db_turns rdb) (emit_spans tx rnd ds) db) (\<lambda>db1.
           Inr (fold (\<lambda>k db. case (ds_session_titles ds k, sids k) of
                    (Some t, Some sid) \<Rightarrow> set_rollup sid (\<lambda>r. r\<lparr>ro_title := (if go_trim_space t = [] then None else Some t)\<rparr>) db
                  | _ \<Rightarrow> db) (ds_sessions ds) db1)))"

end
