(* ===== verification/SpanQueries.thy ===== *)
theory SpanQueries
  imports SpanStore
begin

text \<open>
  Reading the span projection back: the reads of \<open>pkg/storage/postgres/spans.go\<close> with their records of
  \<open>pkg/storage/span_model.go\<close>, the totals behind \<open>/v1/stats\<close>, and the change feed of
  \<open>gensqlc/spans.sql.go\<close>.

  A timestamp column keeps microseconds. Texts are ordered by the collation of the database.
\<close>

subsection \<open>Records\<close>

definition pg_time :: "gotime \<Rightarrow> gotime" where
  "pg_time t = t div 1000 * 1000"

record span_turn_record =
  tr_trace_id :: string
  tr_session_id :: string
  tr_user_prompt :: string
  tr_response_preview :: string
  tr_synthetic :: string
  tr_status :: string
  tr_source :: string
  tr_started_at :: gotime
  tr_ended_at :: "gotime option"
  tr_duration_ns :: int
  tr_total_input :: int
  tr_total_output :: int
  tr_main_input :: int
  tr_main_output :: int
  tr_cache_read :: int
  tr_cache_creation :: int
  tr_total_cost :: rat

record span_record =
  pr_trace_id :: string
  pr_span_id :: string
  pr_content :: span_content

text \<open>A cost goes through a float on its way out.\<close>

definition span_turn_record_from_columns :: "(string \<Rightarrow> string) \<Rightarrow> (rat \<Rightarrow> rat) \<Rightarrow> turn_row \<Rightarrow> span_turn_record" where
  "span_turn_record_from_columns render rnd r =
     (let c = tw_content r in
      \<lparr>tr_trace_id = tw_trace r, tr_session_id = uuid_string render (tw_session r), tr_user_prompt = tc_user_prompt c,
       tr_response_preview = tc_response_preview c, tr_synthetic = tc_synthetic c, tr_status = tc_status c,
       tr_source = tc_source c, tr_started_at = pg_time (tc_started_at c), tr_ended_at = map_option pg_time (tc_ended_at c),
       tr_duration_ns = tc_duration_ns c, tr_total_input = tc_total_input c, tr_total_output = tc_total_output c,
       tr_main_input = tc_main_input c, tr_main_output = tc_main_output c, tr_cache_read = tc_cache_read c,
       tr_cache_creation = tc_cache_creation c,
       tr_total_cost = (if nm_valid (tc_cost c) then rnd (numeric_value (tc_cost c)) else 0)\<rparr>)"

definition span_record_from_row :: "span_row \<Rightarrow> span_record" where
  "span_record_from_row r =
     \<lparr>pr_trace_id = pw_trace r, pr_span_id = pw_span r,
      pr_content = (pw_content r)\<lparr>sc_started_at := pg_time (sc_started_at (pw_content r)),
        sc_raw_turn := Some (case sc_raw_turn (pw_content r) of None \<Rightarrow> 0 | Some i \<Rightarrow> i)\<rparr>\<rparr>"

subsection \<open>Reads of a session and of a trace\<close>

definition turn_order :: "(string \<Rightarrow> rat) \<Rightarrow> turn_row list \<Rightarrow> turn_row list" where
  "turn_order collate rows = sort_key (\<lambda>r. pg_time (tc_started_at (tw_content r))) (sort_key (\<lambda>r. collate (tw_trace r)) rows)"

definition span_order :: "(string \<Rightarrow> rat) \<Rightarrow> span_row list \<Rightarrow> span_row list" where
  "span_order collate rows =
     sort_key (\<lambda>r. sc_seq (pw_content r))
       (sort_key (\<lambda>r. pg_time (sc_started_at (pw_content r))) (sort_key (\<lambda>r. collate (pw_span r)) rows))"

definition list_span_turns_by_session :: "(string \<Rightarrow> rat) \<Rightarrow> pg_uuid \<Rightarrow> span_db \<Rightarrow> turn_row list" where
  "list_span_turns_by_session collate sid db = turn_order collate (filter (\<lambda>r. tw_session r = sid) (sb_turns db))"

definition list_spans_by_session :: "(string \<Rightarrow> rat) \<Rightarrow> pg_uuid \<Rightarrow> span_db \<Rightarrow> span_row list" where
  "list_spans_by_session collate sid db =
     sort_key (\<lambda>r. collate (pw_trace r)) (span_order collate (filter (\<lambda>r. pw_session r = sid) (sb_spans db)))"

definition list_span_links_by_session :: "(string \<Rightarrow> rat) \<Rightarrow> pg_uuid \<Rightarrow> span_db \<Rightarrow> span_link list" where
  "list_span_links_by_session collate sid db =
     fold (\<lambda>col. sort_key (collate \<circ> col))
       [ln_to_io, ln_from_io, ln_to_span, ln_to_trace, ln_from_span, ln_from_trace]
       (map lw_link (filter (\<lambda>r. lw_session r = sid) (sb_links db)))"

definition list_spans_by_trace :: "(string \<Rightarrow> rat) \<Rightarrow> pg_uuid \<Rightarrow> string \<Rightarrow> span_db \<Rightarrow> span_row list" where
  "list_spans_by_trace collate org trace db =
     span_order collate (filter (\<lambda>r. pw_org r = org \<and> pw_trace r = trace) (sb_spans db))"

definition list_span_links_by_trace :: "pg_uuid \<Rightarrow> string \<Rightarrow> span_db \<Rightarrow> span_link list" where
  "list_span_links_by_trace org trace db =
     map lw_link (filter (\<lambda>r. lw_org r = org \<and> (ln_from_trace (lw_link r) = trace \<or> ln_to_trace (lw_link r) = trace)) (sb_links db))"

text \<open>The driver's reads; an id that does not parse is an error.\<close>

record read_env =
  rv_parse_uuid :: "string \<Rightarrow> string option"
  rv_render_uuid :: "string \<Rightarrow> string"
  rv_round :: "rat \<Rightarrow> rat"
  rv_collate :: "string \<Rightarrow> rat"

definition parse_session_id :: "read_env \<Rightarrow> string \<Rightarrow> string + pg_uuid" where
  "parse_session_id env s =
     (case rv_parse_uuid env s of
        None \<Rightarrow> Inl ''parse session id'' | Some b \<Rightarrow> Inr \<lparr>uuid_bytes = b, uuid_valid = True\<rparr>)"

definition read_org :: "read_env \<Rightarrow> string \<Rightarrow> string + pg_uuid" where
  "read_org env org = org_id_from_string (rv_parse_uuid env) (org_key_for_lookup org)"

definition list_session_span_model ::
  "read_env \<Rightarrow> string \<Rightarrow> span_db \<Rightarrow> string + span_turn_record list \<times> span_record list \<times> span_link list"
where
  "list_session_span_model env sid db =
     and_then (parse_session_id env sid) (\<lambda>s.
       Inr (map (span_turn_record_from_columns (rv_render_uuid env) (rv_round env)) (list_span_turns_by_session (rv_collate env) s db),
            map span_record_from_row (list_spans_by_session (rv_collate env) s db),
            list_span_links_by_session (rv_collate env) s db))"

text \<open>Turn headers with the number of spans of the trace.\<close>

definition list_trace_summaries :: "read_env \<Rightarrow> string \<Rightarrow> span_db \<Rightarrow> string + (span_turn_record \<times> nat) list" where
  "list_trace_summaries env sid db =
     and_then (parse_session_id env sid) (\<lambda>s.
       Inr (map (\<lambda>r. (span_turn_record_from_columns (rv_render_uuid env) (rv_round env) r,
                      length (filter (\<lambda>p. pw_org p = tw_org r \<and> pw_trace p = tw_trace r) (sb_spans db))))
             (list_span_turns_by_session (rv_collate env) s db)))"

definition list_session_links :: "read_env \<Rightarrow> string \<Rightarrow> span_db \<Rightarrow> string + span_link list" where
  "list_session_links env sid db =
     and_then (parse_session_id env sid) (\<lambda>s. Inr (list_span_links_by_session (rv_collate env) s db))"

definition list_trace_spans :: "read_env \<Rightarrow> string \<Rightarrow> string \<Rightarrow> span_db \<Rightarrow> string + span_record list" where
  "list_trace_spans env org trace db =
     and_then (read_org env org) (\<lambda>o'. Inr (map span_record_from_row (list_spans_by_trace (rv_collate env) o' trace db)))"

definition get_trace_detail ::
  "read_env \<Rightarrow> string \<Rightarrow> string \<Rightarrow> span_db \<Rightarrow> string + (span_turn_record \<times> span_record list \<times> span_link list) option"
where
  "get_trace_detail env org trace db =
     and_then (read_org env org) (\<lambda>o'. Inr
       (case find (\<lambda>r. tw_org r = o' \<and> tw_trace r = trace) (sb_turns db) of
          None \<Rightarrow> None
        | Some r \<Rightarrow> Some (span_turn_record_from_columns (rv_render_uuid env) (rv_round env) r,
            map span_record_from_row (list_spans_by_trace (rv_collate env) o' trace db),
            list_span_links_by_trace o' trace db)))"

definition get_span_record :: "read_env \<Rightarrow> string \<Rightarrow> string \<Rightarrow> string \<Rightarrow> span_db \<Rightarrow> string + span_record option" where
  "get_span_record env org trace i db =
     and_then (read_org env org) (\<lambda>o'. Inr (map_option span_record_from_row
       (find (\<lambda>r. pw_org r = o' \<and> pw_trace r = trace \<and> pw_span r = i) (sb_spans db))))"

subsection \<open>Totals\<close>

record span_stats =
  ss_turn_count :: nat
  ss_session_count :: nat
  ss_completed_count :: nat
  ss_input_tokens :: int
  ss_output_tokens :: int
  ss_cache_creation_tokens :: int
  ss_cache_read_tokens :: int
  ss_total_duration_ns :: int
  ss_total_cost :: rat
  ss_tool_calls :: int

text \<open>The traces of a window and of a subject; a trace whose session is gone has no subject.\<close>

definition in_window :: "gotime option \<Rightarrow> gotime option \<Rightarrow> gotime \<Rightarrow> bool" where
  "in_window since until t \<longleftrightarrow>
     (case since of None \<Rightarrow> True | Some s \<Rightarrow> pg_time s \<le> t) \<and> (case until of None \<Rightarrow> True | Some u \<Rightarrow> t < pg_time u)"

definition session_by_id :: "session_row list \<Rightarrow> pg_uuid \<Rightarrow> session_row option" where
  "session_by_id rows i = find (\<lambda>s. sr_id s = i) rows"

definition matched_turns ::
  "session_row list \<Rightarrow> pg_uuid \<Rightarrow> gotime option \<Rightarrow> gotime option \<Rightarrow> string \<Rightarrow> span_db \<Rightarrow> turn_row list"
where
  "matched_turns rows org since until subject db =
     filter (\<lambda>r. tw_org r = org \<and> in_window since until (pg_time (tc_started_at (tw_content r)))
                 \<and> (subject = [] \<or> map_option sr_auth_subject (session_by_id rows (tw_session r)) = Some subject)) (sb_turns db)"

definition aggregate_span_stats ::
  "read_env \<Rightarrow> session_row list \<Rightarrow> string \<Rightarrow> gotime option \<Rightarrow> gotime option \<Rightarrow> string \<Rightarrow> span_db \<Rightarrow> string + span_stats"
where
  "aggregate_span_stats env rows org since until subject db =
     and_then (read_org env org) (\<lambda>o'.
       let m = matched_turns rows o' since until subject db; cs = map tw_content m; sids = remdups (map tw_session m)
       in Inr \<lparr>ss_turn_count = length m, ss_session_count = length sids,
            ss_completed_count = length (filter (\<lambda>i. session_by_id rows i \<noteq> None
              \<and> ro_status (sb_rollups db i) = ''completed'') sids),
            ss_input_tokens = (\<Sum>c\<leftarrow>cs. tc_total_input c), ss_output_tokens = (\<Sum>c\<leftarrow>cs. tc_total_output c),
            ss_cache_creation_tokens = (\<Sum>c\<leftarrow>cs. tc_cache_creation c), ss_cache_read_tokens = (\<Sum>c\<leftarrow>cs. tc_cache_read c),
            ss_total_duration_ns = (\<Sum>c\<leftarrow>cs. tc_duration_ns c),
            ss_total_cost = rv_round env (\<Sum>c\<leftarrow>cs. numeric_value (tc_cost c)),
            ss_tool_calls = (\<Sum>c\<leftarrow>cs. tc_tool_calls c)\<rparr>)"

subsection \<open>The change feed\<close>

text \<open>The rows past a cursor whose pass is known to be over, in the order of the cursor.\<close>

definition list_changed_span_turns :: "(string \<Rightarrow> rat) \<Rightarrow> pg_uuid \<Rightarrow> int \<Rightarrow> int \<Rightarrow> nat \<Rightarrow> turn_row list \<Rightarrow> turn_row list" where
  "list_changed_span_turns collate org after xmin page rows =
     take page (sort_key tw_seq (sort_key (\<lambda>r. collate (tw_trace r))
       (filter (\<lambda>r. tw_org r = org \<and> after < tw_seq r \<and> tw_seq r < xmin) rows)))"

definition list_changed_spans :: "(string \<Rightarrow> rat) \<Rightarrow> pg_uuid \<Rightarrow> int \<Rightarrow> int \<Rightarrow> nat \<Rightarrow> span_row list \<Rightarrow> span_row list" where
  "list_changed_spans collate org after xmin page rows =
     take page (sort_key pw_seq (sort_key (\<lambda>r. collate (pw_trace r)) (sort_key (\<lambda>r. collate (pw_span r))
       (filter (\<lambda>r. pw_org r = org \<and> after < pw_seq r \<and> pw_seq r < xmin) rows))))"

end
