(* ===== verification/SpanStoreFacts.thy ===== *)
theory SpanStoreFacts
  imports SpanQueries
begin

text \<open>
  What a write of the span projection leaves in the tables: exactly the keys the emitter produced for
  the covered sessions, rows that a second write of the same set does not touch, and cursors that move
  only with the content.
\<close>

subsection \<open>Upserts\<close>

text \<open>Tables with the same rows outside some keys.\<close>

definition same_outside :: "('r \<Rightarrow> 'k) \<Rightarrow> 'k set \<Rightarrow> 'r list \<Rightarrow> 'r list \<Rightarrow> bool" where
  "same_outside key K xs ys \<longleftrightarrow> filter (\<lambda>r. key r \<notin> K) xs = filter (\<lambda>r. key r \<notin> K) ys"

lemma same_outside_refl [simp]: "same_outside key K xs xs"
  by (simp add: same_outside_def)

lemma same_outside_mono:
  assumes "same_outside key K xs ys" "K \<subseteq> K'"
  shows "same_outside key K' xs ys"
proof -
  have "filter (\<lambda>r. key r \<notin> K') zs = filter (\<lambda>r. key r \<notin> K') (filter (\<lambda>r. key r \<notin> K) zs)" for zs
    using assms(2) by (auto intro: filter_cong)
  then show ?thesis using assms(1) unfolding same_outside_def by metis
qed

lemma same_outside_trans:
  "same_outside key K xs ys \<Longrightarrow> same_outside key K' ys zs \<Longrightarrow> same_outside key (K \<union> K') xs zs"
  using same_outside_mono [of key K xs ys "K \<union> K'"] same_outside_mono [of key K' ys zs "K \<union> K'"]
  by (simp add: same_outside_def)

lemma same_outside_row: "same_outside key K xs ys \<Longrightarrow> key r \<notin> K \<Longrightarrow> r \<in> set xs \<longleftrightarrow> r \<in> set ys"
  unfolding same_outside_def by (metis (mono_tags, lifting) mem_Collect_eq set_filter)

text \<open>A table with a key that merging keeps.\<close>

locale keyed_table =
  fixes key :: "'r \<Rightarrow> 'k" and merge :: "'r \<Rightarrow> 'r \<Rightarrow> 'r"
  assumes key_merge: "key (merge r x) = key r"
begin

lemma upsert_keys: "map key (upsert_by key merge r xs) = map key xs @ (if key r \<in> key ` set xs then [] else [key r])"
  by (induction xs) (auto simp: key_merge)

lemma upsert_key_set: "key ` set (upsert_by key merge r xs) = insert (key r) (key ` set xs)"
proof -
  have "set (map key (upsert_by key merge r xs)) = insert (key r) (key ` set xs)"
    unfolding upsert_keys by auto
  then show ?thesis by simp
qed

lemma upsert_distinct: "distinct (map key xs) \<Longrightarrow> distinct (map key (upsert_by key merge r xs))"
  by (simp add: upsert_keys)

text \<open>The row of a key.\<close>

definition row_at :: "'k \<Rightarrow> 'r list \<Rightarrow> 'r option" where
  "row_at k xs = find (\<lambda>x. key x = k) xs"

lemma row_at_None: "row_at k xs = None \<longleftrightarrow> k \<notin> key ` set xs"
  by (auto simp: row_at_def find_None_iff)

lemma row_at_Some_in: "row_at k xs = Some x \<Longrightarrow> x \<in> set xs \<and> key x = k"
  by (auto simp: row_at_def find_Some_iff)

lemma row_at_row: "distinct (map key xs) \<Longrightarrow> x \<in> set xs \<Longrightarrow> row_at (key x) xs = Some x"
  by (induction xs) (auto simp: row_at_def image_iff)

lemma row_at_upsert: "row_at k (upsert_by key merge r xs) =
    (if k = key r then Some (case row_at k xs of None \<Rightarrow> r | Some x \<Rightarrow> merge r x) else row_at k xs)"
  by (induction xs) (auto simp: row_at_def key_merge)

lemma upsert_same: "row_at (key r) xs = Some x \<Longrightarrow> merge r x = x \<Longrightarrow> upsert_by key merge r xs = xs"
  by (induction xs) (auto simp: row_at_def split: if_splits)

lemma upsert_outside: "same_outside key {key r} xs (upsert_by key merge r xs)"
  by (induction xs) (auto simp: key_merge same_outside_def)

end

text \<open>A table whose rows carry a cursor: writing a row again under a later cursor keeps the one stored.\<close>

locale cursor_table = keyed_table key merge
  for key :: "'r \<Rightarrow> 'k" and merge :: "'r \<Rightarrow> 'r \<Rightarrow> 'r" +
  fixes stamp :: "int \<Rightarrow> 'r \<Rightarrow> 'r"
  assumes key_stamp [simp]: "key (stamp q r) = key r"
    and stamp_stamp [simp]: "stamp q (stamp q' r) = stamp q r"
    and merge_again: "merge (stamp q r) r = r" "merge (stamp q r) (merge r x) = merge r x"
begin

definition settled :: "'r \<Rightarrow> 'r list \<Rightarrow> bool" where
  "settled r xs \<longleftrightarrow> (\<exists>x. row_at (key r) xs = Some x \<and> (\<forall>q. merge (stamp q r) x = x))"

lemma settled_upsert: "settled r (upsert_by key merge (stamp q r) xs)"
  unfolding settled_def row_at_upsert
  using merge_again [where r = "stamp q r"] by (simp split: option.split)

lemma settled_other: "settled r xs \<Longrightarrow> key r' \<noteq> key r \<Longrightarrow> settled r (upsert_by key merge r' xs)"
  by (auto simp: settled_def row_at_upsert)

lemma settled_same: "settled r xs \<Longrightarrow> upsert_by key merge (stamp q r) xs = xs"
  unfolding settled_def using upsert_same [where r = "stamp q r"] by auto

lemma settled_filter: "(\<And>x. key x = key r \<Longrightarrow> P x) \<Longrightarrow> settled r (filter P xs) = settled r xs"
proof -
  assume "\<And>x. key x = key r \<Longrightarrow> P x"
  then have "row_at (key r) (filter P xs) = row_at (key r) xs"
    by (induction xs) (auto simp: row_at_def)
  then show ?thesis by (simp add: settled_def)
qed

definition upserts :: "int \<Rightarrow> 'r list \<Rightarrow> 'r list \<Rightarrow> 'r list" where
  "upserts q rs xs = fold (\<lambda>r. upsert_by key merge (stamp q r)) rs xs"

lemma upserts_simps [simp]:
  "upserts q [] xs = xs" "upserts q (r # rs) xs = upserts q rs (upsert_by key merge (stamp q r) xs)"
  "upserts q (rs @ rs') xs = upserts q rs' (upserts q rs xs)"
  by (simp_all add: upserts_def)

lemma settled_upserts: "settled r xs \<Longrightarrow> key r \<notin> key ` set rs \<Longrightarrow> settled r (upserts q rs xs)"
  by (induction rs arbitrary: xs) (auto simp: settled_other)

lemma upserts_settle: "distinct (map key rs) \<Longrightarrow> r \<in> set rs \<Longrightarrow> settled r (upserts q rs xs)"
proof (induction rs arbitrary: xs)
  case (Cons r' rs)
  show ?case
  proof (cases "r = r'")
    case True
    with Cons.prems show ?thesis by (auto intro!: settled_upserts settled_upsert)
  qed (use Cons in auto)
qed simp

lemma upserts_settled: "(\<And>r. r \<in> set rs \<Longrightarrow> settled r xs) \<Longrightarrow> upserts q rs xs = xs"
  by (induction rs) (auto simp: settled_same)

end

definition stamp_turn :: "int \<Rightarrow> turn_row \<Rightarrow> turn_row" where "stamp_turn q r = r\<lparr>tw_seq := q\<rparr>"
definition stamp_span :: "int \<Rightarrow> span_row \<Rightarrow> span_row" where "stamp_span q r = r\<lparr>pw_seq := q\<rparr>"

interpretation tt: cursor_table turn_row_key merge_turn stamp_turn
  by unfold_locales (simp_all add: turn_row_key_def merge_turn_def stamp_turn_def coalesce_uuid_def)

interpretation st: cursor_table span_key_of merge_span stamp_span
  by unfold_locales (simp_all add: span_key_of_def merge_span_def stamp_span_def coalesce_uuid_def)

interpretation lt: keyed_table link_key_of merge_link
  by unfold_locales (simp add: link_key_of_def merge_link_def Let_def)

lemma written_keys [simp]:
  "turn_row_key (turn_row_of cx org sid seq trace c) = TurnKey org trace"
  "span_key_of (span_row_of cx org sid seq trace i d) = SpanKey org trace i"
  by (simp_all add: turn_row_key_def turn_row_of_def span_key_of_def span_row_of_def)

subsection \<open>What a set emits\<close>

definition resolved_turns :: "(Deriver.session_key \<Rightarrow> pg_uuid option) \<Rightarrow> span_set \<Rightarrow> span_turn list" where
  "resolved_turns sids ss = filter (\<lambda>t. sids (tn_session t) \<noteq> None) (so_turns ss)"

definition emitted_turn_keys :: "pg_uuid \<Rightarrow> (Deriver.session_key \<Rightarrow> pg_uuid option) \<Rightarrow> span_set \<Rightarrow> turn_key list" where
  "emitted_turn_keys org sids ss = map (\<lambda>t. TurnKey org (tn_trace_id t)) (resolved_turns sids ss)"

definition turn_span_keys :: "pg_uuid \<Rightarrow> span_set \<Rightarrow> span_turn \<Rightarrow> span_row_key list" where
  "turn_span_keys org ss t = map (\<lambda>s. SpanKey org (tn_trace_id t) (sp_id s)) (spans_of ss t)"

definition emitted_span_keys :: "pg_uuid \<Rightarrow> (Deriver.session_key \<Rightarrow> pg_uuid option) \<Rightarrow> span_set \<Rightarrow> span_row_key list" where
  "emitted_span_keys org sids ss = concat (map (turn_span_keys org ss) (resolved_turns sids ss))"

definition emitted_links :: "(Deriver.session_key \<Rightarrow> pg_uuid option) \<Rightarrow> span_set \<Rightarrow> span_link list" where
  "emitted_links sids ss =
     filter (\<lambda>l. ln_from_trace l \<in> tn_trace_id ` set (resolved_turns sids ss)) (concat (map tn_links (so_turns ss)) @ so_links ss)"

definition link_key_in :: "pg_uuid \<Rightarrow> span_link \<Rightarrow> link_key" where
  "link_key_in org l =
     LinkKey org (ln_from_trace l) (ln_from_span l) (ln_to_trace l) (ln_to_span l) (ln_from_io l) (ln_to_io l)"

definition covered_row :: "pg_uuid \<Rightarrow> pg_uuid list \<Rightarrow> pg_uuid \<Rightarrow> pg_uuid \<Rightarrow> bool" where
  "covered_row org covered o' sid \<longleftrightarrow> o' = org \<and> sid \<in> set covered"

subsection \<open>The fold over traces\<close>

text \<open>What writing the spans of a trace leaves alone and adds.\<close>

definition adds_spans :: "span_row_key list \<Rightarrow> span_write \<Rightarrow> span_write \<Rightarrow> bool" where
  "adds_spans ks w w' \<longleftrightarrow>
     ws_turn_session w' = ws_turn_session w \<and> ws_keep_turns w' = ws_keep_turns w \<and> ws_keep_links w' = ws_keep_links w
     \<and> ws_keep_spans w' = ws_keep_spans w @ ks
     \<and> sb_turns (ws_db w') = sb_turns (ws_db w) \<and> sb_links (ws_db w') = sb_links (ws_db w)
     \<and> sb_rollups (ws_db w') = sb_rollups (ws_db w)
     \<and> span_key_of ` set (sb_spans (ws_db w')) = span_key_of ` set (sb_spans (ws_db w)) \<union> set ks
     \<and> same_outside span_key_of (set ks) (sb_spans (ws_db w)) (sb_spans (ws_db w'))"

lemma adds_spans_refl: "adds_spans [] w w"
  by (simp add: adds_spans_def)

lemma adds_spans_trans: "adds_spans ks w w' \<Longrightarrow> adds_spans ks' w' w'' \<Longrightarrow> adds_spans (ks @ ks') w w''"
  using same_outside_trans [of span_key_of "set ks" "sb_spans (ws_db w)" "sb_spans (ws_db w')" "set ks'" "sb_spans (ws_db w'')"]
  by (auto simp: adds_spans_def)

lemma write_span_adds:
  assumes "write_span cx org sid seq trace tiers s w = Inr w'"
  shows "adds_spans [SpanKey org trace (sp_id s)] w w'"
proof -
  obtain c where w': "w' = w\<lparr>ws_db := upsert_span (span_row_of cx org sid seq trace (sp_id s) c) (ws_db w),
              ws_keep_spans := ws_keep_spans w @ [SpanKey org trace (sp_id s)]\<rparr>"
    using assms by (auto simp: write_span_def and_then_Inr)
  show ?thesis
    using st.upsert_outside [of "span_row_of cx org sid seq trace (sp_id s) c" "sb_spans (ws_db w)"]
    unfolding w' adds_spans_def upsert_span_def by (simp add: st.upsert_key_set)
qed

lemma write_spans_adds:
  "fold_res (write_span cx org sid seq trace tiers) ss w = Inr w' \<Longrightarrow>
   adds_spans (map (\<lambda>s. SpanKey org trace (sp_id s)) ss) w w'"
proof (induction ss arbitrary: w)
  case Nil
  then show ?case by (simp add: adds_spans_refl)
next
  case (Cons s ss)
  then obtain w1 where "write_span cx org sid seq trace tiers s w = Inr w1"
    "fold_res (write_span cx org sid seq trace tiers) ss w1 = Inr w'" by (auto simp: and_then_Inr)
  from adds_spans_trans [OF write_span_adds [OF this(1)] Cons.IH [OF this(2)]] show ?case by simp
qed

text \<open>What writing traces adds.\<close>

definition adds_turns :: "string list \<Rightarrow> turn_key list \<Rightarrow> span_row_key list \<Rightarrow> span_write \<Rightarrow> span_write \<Rightarrow> bool" where
  "adds_turns traces tks sks w w' \<longleftrightarrow>
     dom (ws_turn_session w') = dom (ws_turn_session w) \<union> set traces
     \<and> ws_keep_turns w' = ws_keep_turns w @ tks \<and> ws_keep_spans w' = ws_keep_spans w @ sks \<and> ws_keep_links w' = ws_keep_links w
     \<and> sb_links (ws_db w') = sb_links (ws_db w) \<and> sb_rollups (ws_db w') = sb_rollups (ws_db w)
     \<and> turn_row_key ` set (sb_turns (ws_db w')) = turn_row_key ` set (sb_turns (ws_db w)) \<union> set tks
     \<and> span_key_of ` set (sb_spans (ws_db w')) = span_key_of ` set (sb_spans (ws_db w)) \<union> set sks
     \<and> same_outside turn_row_key (set tks) (sb_turns (ws_db w)) (sb_turns (ws_db w'))
     \<and> same_outside span_key_of (set sks) (sb_spans (ws_db w)) (sb_spans (ws_db w'))"

lemma adds_turns_refl: "adds_turns [] [] [] w w"
  by (simp add: adds_turns_def)

lemma adds_turns_trans:
  "adds_turns a b c w w' \<Longrightarrow> adds_turns a' b' c' w' w'' \<Longrightarrow> adds_turns (a @ a') (b @ b') (c @ c') w w''"
  using same_outside_trans [of turn_row_key "set b" "sb_turns (ws_db w)" "sb_turns (ws_db w')" "set b'" "sb_turns (ws_db w'')"]
    same_outside_trans [of span_key_of "set c" "sb_spans (ws_db w)" "sb_spans (ws_db w')" "set c'" "sb_spans (ws_db w'')"]
  by (auto simp: adds_turns_def)

lemma write_turn_adds:
  assumes "write_turn cx org seq sids tiers ss t w = Inr w'" "sids (tn_session t) = Some sid"
  shows "adds_turns [tn_trace_id t] [TurnKey org (tn_trace_id t)] (turn_span_keys org ss t) w w'"
proof -
  obtain cost where "numeric_from_float cx (tn_total_cost t) = Inr cost"
    and f: "fold_res (write_span cx org sid seq (tn_trace_id t) tiers) (spans_of ss t)
      (w\<lparr>ws_turn_session := (ws_turn_session w)(tn_trace_id t \<mapsto> sid),
         ws_keep_turns := ws_keep_turns w @ [TurnKey org (tn_trace_id t)],
         ws_db := upsert_turn (turn_row_of cx org sid seq (tn_trace_id t)
           (turn_content_of t cost (map (\<lambda>s. span_fidelity tiers (sp_raw_turn_id s)) (spans_of ss t)))) (ws_db w)\<rparr>) = Inr w'"
    using assms by (auto simp: write_turn_def and_then_Inr Let_def)
  note a = write_spans_adds [OF f]
  let ?row = "turn_row_of cx org sid seq (tn_trace_id t)
    (turn_content_of t cost (map (\<lambda>s. span_fidelity tiers (sp_raw_turn_id s)) (spans_of ss t)))"
  have turns: "sb_turns (ws_db w') = upsert_by turn_row_key merge_turn ?row (sb_turns (ws_db w))"
    using a by (simp add: adds_spans_def upsert_turn_def)
  have "turn_row_key ` set (sb_turns (ws_db w')) = insert (TurnKey org (tn_trace_id t)) (turn_row_key ` set (sb_turns (ws_db w)))"
    unfolding turns tt.upsert_key_set by simp
  moreover have "same_outside turn_row_key {TurnKey org (tn_trace_id t)} (sb_turns (ws_db w)) (sb_turns (ws_db w'))"
    unfolding turns using tt.upsert_outside [of ?row] by simp
  ultimately show ?thesis
    using a by (simp add: adds_turns_def adds_spans_def turn_span_keys_def upsert_turn_def)
qed

lemma write_turns_adds:
  "fold_res (write_turn cx org seq sids tiers ss) ts w = Inr w' \<Longrightarrow>
   adds_turns (map tn_trace_id (filter (\<lambda>t. sids (tn_session t) \<noteq> None) ts))
     (map (\<lambda>t. TurnKey org (tn_trace_id t)) (filter (\<lambda>t. sids (tn_session t) \<noteq> None) ts))
     (concat (map (turn_span_keys org ss) (filter (\<lambda>t. sids (tn_session t) \<noteq> None) ts))) w w'"
proof (induction ts arbitrary: w)
  case Nil
  then show ?case by (simp add: adds_turns_refl)
next
  case (Cons t ts)
  then obtain w1 where w1: "write_turn cx org seq sids tiers ss t w = Inr w1"
    "fold_res (write_turn cx org seq sids tiers ss) ts w1 = Inr w'" by (auto simp: and_then_Inr)
  show ?case
  proof (cases "sids (tn_session t)")
    case None
    then have "w1 = w" using w1(1) by (simp add: write_turn_def)
    with Cons.IH [OF w1(2)] None show ?thesis by simp
  next
    case (Some sid)
    from adds_turns_trans [OF write_turn_adds [OF w1(1) Some] Cons.IH [OF w1(2)]] Some show ?thesis by simp
  qed
qed

text \<open>Links need the session of their first end.\<close>

lemma write_links_adds:
  fixes org w ls
  defines "w' \<equiv> fold (write_link org) ls w"
  shows "ws_turn_session w' = ws_turn_session w" "ws_keep_turns w' = ws_keep_turns w" "ws_keep_spans w' = ws_keep_spans w"
    "sb_turns (ws_db w') = sb_turns (ws_db w)" "sb_spans (ws_db w') = sb_spans (ws_db w)"
    "sb_rollups (ws_db w') = sb_rollups (ws_db w)"
    "ws_keep_links w' = ws_keep_links w @ map (link_key_in org) (filter (\<lambda>l. ln_from_trace l \<in> dom (ws_turn_session w)) ls)"
    "link_key_of ` set (sb_links (ws_db w')) =
       link_key_of ` set (sb_links (ws_db w)) \<union> link_key_in org ` set (filter (\<lambda>l. ln_from_trace l \<in> dom (ws_turn_session w)) ls)"
    "same_outside link_key_of (link_key_in org ` set (filter (\<lambda>l. ln_from_trace l \<in> dom (ws_turn_session w)) ls))
       (sb_links (ws_db w)) (sb_links (ws_db w'))"
proof -
  have key: "link_key_of \<lparr>lw_org = org, lw_link = l, lw_session = s\<rparr> = link_key_in org l" for l s
    by (simp add: link_key_of_def link_key_in_def Let_def)
  have "ws_turn_session w' = ws_turn_session w \<and> ws_keep_turns w' = ws_keep_turns w \<and> ws_keep_spans w' = ws_keep_spans w
    \<and> sb_turns (ws_db w') = sb_turns (ws_db w) \<and> sb_spans (ws_db w') = sb_spans (ws_db w)
    \<and> sb_rollups (ws_db w') = sb_rollups (ws_db w)
    \<and> ws_keep_links w' = ws_keep_links w @ map (link_key_in org) (filter (\<lambda>l. ln_from_trace l \<in> dom (ws_turn_session w)) ls)
    \<and> link_key_of ` set (sb_links (ws_db w')) =
       link_key_of ` set (sb_links (ws_db w)) \<union> link_key_in org ` set (filter (\<lambda>l. ln_from_trace l \<in> dom (ws_turn_session w)) ls)
    \<and> same_outside link_key_of (link_key_in org ` set (filter (\<lambda>l. ln_from_trace l \<in> dom (ws_turn_session w)) ls))
       (sb_links (ws_db w)) (sb_links (ws_db w'))"
    unfolding w'_def
  proof (induction ls arbitrary: w)
    case (Cons l ls)
    show ?case
    proof (cases "ws_turn_session w (ln_from_trace l)")
      case None
      then have "write_link org l w = w" by (simp add: write_link_def)
      with None Cons [of w] show ?thesis by (auto simp: dom_def)
    next
      case (Some sid)
      then have "write_link org l w = w\<lparr>ws_db := upsert_link \<lparr>lw_org = org, lw_link = l, lw_session = sid\<rparr> (ws_db w),
          ws_keep_links := ws_keep_links w @ [link_key_in org l]\<rparr>" by (simp add: write_link_def key)
      moreover have "same_outside link_key_of {link_key_in org l} (sb_links (ws_db w))
          (upsert_by link_key_of merge_link \<lparr>lw_org = org, lw_link = l, lw_session = sid\<rparr> (sb_links (ws_db w)))"
        using lt.upsert_outside [of "\<lparr>lw_org = org, lw_link = l, lw_session = sid\<rparr>"] by (simp add: key)
      ultimately show ?thesis
        using Some Cons [of "write_link org l w"]
        by (auto simp: upsert_link_def lt.upsert_key_set key dom_def dest: same_outside_trans)
    qed
  qed simp
  then show "ws_turn_session w' = ws_turn_session w" "ws_keep_turns w' = ws_keep_turns w" "ws_keep_spans w' = ws_keep_spans w"
    "sb_turns (ws_db w') = sb_turns (ws_db w)" "sb_spans (ws_db w') = sb_spans (ws_db w)"
    "sb_rollups (ws_db w') = sb_rollups (ws_db w)"
    "ws_keep_links w' = ws_keep_links w @ map (link_key_in org) (filter (\<lambda>l. ln_from_trace l \<in> dom (ws_turn_session w)) ls)"
    "link_key_of ` set (sb_links (ws_db w')) =
       link_key_of ` set (sb_links (ws_db w)) \<union> link_key_in org ` set (filter (\<lambda>l. ln_from_trace l \<in> dom (ws_turn_session w)) ls)"
    "same_outside link_key_of (link_key_in org ` set (filter (\<lambda>l. ln_from_trace l \<in> dom (ws_turn_session w)) ls))
       (sb_links (ws_db w)) (sb_links (ws_db w'))"
    by blast+
qed

subsection \<open>A whole write\<close>

lemma set_rollup_tables [simp]:
  "sb_turns (set_rollup i f db) = sb_turns db" "sb_spans (set_rollup i f db) = sb_spans db" "sb_links (set_rollup i f db) = sb_links db"
  by (simp_all add: set_rollup_def)

definition same_tables :: "span_db \<Rightarrow> span_db \<Rightarrow> bool" where
  "same_tables db db' \<longleftrightarrow> sb_turns db' = sb_turns db \<and> sb_spans db' = sb_spans db \<and> sb_links db' = sb_links db"

lemma write_fold_tables: "write_fold sids m f k db = Inr db' \<Longrightarrow> same_tables db db'"
  by (auto simp: write_fold_def same_tables_def and_then_Inr split: option.splits if_splits)

lemma write_fold_list_tables: "fold_res (write_fold sids m f) ks db = Inr db' \<Longrightarrow> same_tables db db'"
proof (induction ks arbitrary: db)
  case (Cons k ks)
  then show ?case by (auto simp: and_then_Inr same_tables_def dest!: write_fold_tables)
qed (simp add: same_tables_def)

lemma write_folds_tables: "write_folds cx sids ks ss db = Inr db' \<Longrightarrow> same_tables db db'"
  by (auto simp: write_folds_def and_then_Inr same_tables_def dest!: write_fold_list_tables)

lemma fold_rollups_tables [simp]:
  "sb_turns (fold_session_rollups cx sids db) = sb_turns db" "sb_spans (fold_session_rollups cx sids db) = sb_spans db"
  "sb_links (fold_session_rollups cx sids db) = sb_links db"
  by (simp_all add: fold_session_rollups_def)

lemma prune_tables [simp]:
  "sb_turns (prune_links org sids lk db) = sb_turns db" "sb_spans (prune_links org sids lk db) = sb_spans db"
  "sb_turns (prune_spans org sids sk db) = sb_turns db" "sb_links (prune_spans org sids sk db) = sb_links db"
  "sb_links (prune_turns org sids tk db) = sb_links db"
  by (simp_all add: prune_links_def prune_spans_def prune_turns_def Let_def)

text \<open>The tables after all upserts, before the prunes.\<close>

lemma write_span_set_cases:
  assumes "write_span_set cx org sids ks covered seq raws ss db = Inr db'" "covered \<noteq> []"
  obtains up where
    "turn_row_key ` set (sb_turns up) = turn_row_key ` set (sb_turns db) \<union> set (emitted_turn_keys org sids ss)"
    "same_outside turn_row_key (set (emitted_turn_keys org sids ss)) (sb_turns db) (sb_turns up)"
    "span_key_of ` set (sb_spans up) = span_key_of ` set (sb_spans db) \<union> set (emitted_span_keys org sids ss)"
    "same_outside span_key_of (set (emitted_span_keys org sids ss)) (sb_spans db) (sb_spans up)"
    "link_key_of ` set (sb_links up) = link_key_of ` set (sb_links db) \<union> link_key_in org ` set (emitted_links sids ss)"
    "same_outside link_key_of (link_key_in org ` set (emitted_links sids ss)) (sb_links db) (sb_links up)"
    "same_tables (prune_turns org covered (emitted_turn_keys org sids ss)
       (prune_spans org covered (emitted_span_keys org sids ss)
         (prune_links org covered (map (link_key_in org) (emitted_links sids ss)) up))) db'"
proof -
  let ?start = "\<lparr>ws_db = db, ws_turn_session = Map.empty, ws_keep_turns = [], ws_keep_spans = [], ws_keep_links = []\<rparr>"
  let ?ls = "concat (map tn_links (so_turns ss)) @ so_links ss"
  obtain w where w: "fold_res (write_turn cx org seq sids (resolve_fidelity raws ss) ss) (so_turns ss) ?start = Inr w"
    and db'': "write_folds cx sids ks ss (fold_session_rollups cx covered
        (prune_turns org covered (ws_keep_turns (fold (write_link org) ?ls w))
          (prune_spans org covered (ws_keep_spans (fold (write_link org) ?ls w))
            (prune_links org covered (ws_keep_links (fold (write_link org) ?ls w)) (ws_db (fold (write_link org) ?ls w)))))) = Inr db'"
    using assms by (auto simp: write_span_set_def and_then_Inr Let_def)
  define w1 where "w1 = fold (write_link org) ?ls w"
  note a = write_turns_adds [OF w, folded resolved_turns_def, folded emitted_turn_keys_def, folded emitted_span_keys_def]
  have dom: "dom (ws_turn_session w) = tn_trace_id ` set (resolved_turns sids ss)"
    using a by (simp add: adds_turns_def)
  note l = write_links_adds [where org = org and ls = ?ls and w = w, unfolded dom, folded emitted_links_def w1_def]
  note db' = db'' [folded w1_def]
  show thesis
  proof (rule that [of "ws_db w1"])
    show "same_tables (prune_turns org covered (emitted_turn_keys org sids ss)
       (prune_spans org covered (emitted_span_keys org sids ss)
         (prune_links org covered (map (link_key_in org) (emitted_links sids ss)) (ws_db w1)))) db'"
      using write_folds_tables [OF db'] a by (simp add: l adds_turns_def same_tables_def)
  qed (use a l(9) in \<open>simp_all add: l adds_turns_def\<close>)
qed

text \<open>Keys after a prune: those kept and those of rows the prune does not reach.\<close>

lemma pruned_keys:
  assumes keys: "key ` set up = key ` set xs \<union> K" and same: "same_outside key K xs up"
  shows "key ` set (filter (\<lambda>r. \<not> (cov r \<and> key r \<notin> K)) up) = K \<union> key ` {r \<in> set xs. \<not> cov r}"
proof -
  have "k \<in> key ` set (filter (\<lambda>r. \<not> (cov r \<and> key r \<notin> K)) up) \<longleftrightarrow> k \<in> K \<union> key ` {r \<in> set xs. \<not> cov r}" for k
  proof (cases "k \<in> K")
    case True
    then have "k \<in> key ` set up" using keys by blast
    with True show ?thesis by auto
  next
    case False
    with same_outside_row [OF same] show ?thesis by (auto simp: image_iff)
  qed
  then show ?thesis by blast
qed

lemma pruned_cascade:
  assumes keys: "key ` set up = key ` set xs \<union> K" and same: "same_outside key K xs up" and kept: "g ` K \<inter> G = {}"
  shows "key ` set (filter (\<lambda>r. g (key r) \<notin> G) (filter (\<lambda>r. \<not> (cov r \<and> key r \<notin> K)) up)) =
    K \<union> key ` {r \<in> set xs. \<not> cov r \<and> g (key r) \<notin> G}"
proof -
  let ?rs = "filter (\<lambda>r. \<not> (cov r \<and> key r \<notin> K)) up"
  have "key ` set (filter (\<lambda>r. g (key r) \<notin> G) ?rs) = {k \<in> key ` set ?rs. g k \<notin> G}" by auto
  also have "\<dots> = {k \<in> K \<union> key ` {r \<in> set xs. \<not> cov r}. g k \<notin> G}"
    by (simp only: pruned_keys [OF keys same])
  also have "\<dots> = K \<union> key ` {r \<in> set xs. \<not> cov r \<and> g (key r) \<notin> G}"
    using kept by auto
  finally show ?thesis .
qed

lemma gone_keys:
  assumes "same_outside key K xs up"
  shows "key ` set (filter (\<lambda>r. cov r \<and> key r \<notin> K) up) = key ` {r \<in> set xs. cov r} - K"
proof -
  have "set (filter (\<lambda>r. cov r \<and> key r \<notin> K) up) = {r \<in> set xs. cov r \<and> key r \<notin> K}"
    using same_outside_row [OF assms] by auto
  then show ?thesis by auto
qed

definition trace_of_key :: "span_row_key \<Rightarrow> turn_key" where
  "trace_of_key k = TurnKey (pk_org k) (pk_trace k)"

lemma trace_of_emitted: "trace_of_key ` set (emitted_span_keys org sids ss) \<subseteq> set (emitted_turn_keys org sids ss)"
  by (auto simp: emitted_span_keys_def emitted_turn_keys_def turn_span_keys_def trace_of_key_def)

lemma trace_of_row: "trace_of_key (span_key_of r) = TurnKey (pw_org r) (pw_trace r)"
  by (simp add: trace_of_key_def span_key_of_def)

subsection \<open>Writing again\<close>

text \<open>A write is the upsert of rows that depend on neither the cursor nor the tables.\<close>

definition writes_rows :: "int \<Rightarrow> turn_row list \<Rightarrow> span_row list \<Rightarrow> span_write \<Rightarrow> span_write \<Rightarrow> bool" where
  "writes_rows q trs srs w w' \<longleftrightarrow>
     sb_turns (ws_db w') = tt.upserts q trs (sb_turns (ws_db w)) \<and> sb_spans (ws_db w') = st.upserts q srs (sb_spans (ws_db w))"

lemma writes_rows_refl: "writes_rows q [] [] w w"
  by (simp add: writes_rows_def)

lemma writes_rows_trans: "writes_rows q a b w w' \<Longrightarrow> writes_rows q a' b' w' w'' \<Longrightarrow> writes_rows q (a @ a') (b @ b') w w''"
  by (simp add: writes_rows_def)

text \<open>A step that answers with every cursor and from every state, and writes those rows.\<close>

definition row_step :: "(int \<Rightarrow> span_write \<Rightarrow> string + span_write) \<Rightarrow> turn_row list \<Rightarrow> span_row list \<Rightarrow> bool" where
  "row_step f trs srs \<longleftrightarrow> (\<forall>q w. \<exists>w'. f q w = Inr w' \<and> writes_rows q trs srs w w')"

lemma row_step_skip: "row_step (\<lambda>q. Inr) [] []"
  by (simp add: row_step_def writes_rows_refl)

lemma row_step_then:
  assumes "row_step f a b" "row_step g a' b'"
  shows "row_step (\<lambda>q w. and_then (f q w) (g q)) (a @ a') (b @ b')"
  unfolding row_step_def
proof (intro allI)
  fix q w
  obtain w1 where "f q w = Inr w1" "writes_rows q a b w w1" using assms(1) unfolding row_step_def by blast
  moreover obtain w2 where "g q w1 = Inr w2" "writes_rows q a' b' w1 w2" using assms(2) unfolding row_step_def by blast
  ultimately show "\<exists>w'. and_then (f q w) (g q) = Inr w' \<and> writes_rows q (a @ a') (b @ b') w w'"
    using writes_rows_trans by fastforce
qed

lemma write_span_rows:
  assumes "write_span cx org sid seq trace tiers s w = Inr w'"
  obtains r where "row_step (\<lambda>q. write_span cx org sid q trace tiers s) [] [r]" "span_key_of r = SpanKey org trace (sp_id s)"
proof -
  obtain c where c: "span_content_of cx s (span_fidelity tiers (sp_raw_turn_id s)) = Inr c"
    using assms by (auto simp: write_span_def and_then_Inr)
  show thesis
  proof (rule that)
    show "row_step (\<lambda>q. write_span cx org sid q trace tiers s) [] [span_row_of cx org sid 0 trace (sp_id s) c]"
      by (simp add: row_step_def writes_rows_def write_span_def c upsert_span_def stamp_span_def span_row_of_def)
  qed simp
qed

lemma write_spans_rows:
  assumes "fold_res (write_span cx org sid seq trace tiers) ss w = Inr w'"
  shows "\<exists>rs. row_step (\<lambda>q. fold_res (write_span cx org sid q trace tiers) ss) [] rs
    \<and> map span_key_of rs = map (\<lambda>s. SpanKey org trace (sp_id s)) ss"
  using assms
proof (induction ss arbitrary: w)
  case Nil
  then show ?case using row_step_skip by (intro exI [of _ "[]"]) (simp add: fun_eq_iff row_step_def)
next
  case (Cons s ss)
  then obtain w1 where w1: "write_span cx org sid seq trace tiers s w = Inr w1"
    "fold_res (write_span cx org sid seq trace tiers) ss w1 = Inr w'" by (auto simp: and_then_Inr)
  obtain r where r: "row_step (\<lambda>q. write_span cx org sid q trace tiers s) [] [r]" "span_key_of r = SpanKey org trace (sp_id s)"
    using write_span_rows [OF w1(1)] .
  obtain rs where rs: "row_step (\<lambda>q. fold_res (write_span cx org sid q trace tiers) ss) [] rs"
    "map span_key_of rs = map (\<lambda>s. SpanKey org trace (sp_id s)) ss" using Cons.IH [OF w1(2)] by blast
  from row_step_then [OF r(1) rs(1)] show ?case using r(2) rs(2) by (intro exI [of _ "r # rs"]) simp
qed

lemma write_turn_rows:
  assumes "write_turn cx org seq sids tiers ss t w = Inr w'"
  shows "\<exists>trs srs. row_step (\<lambda>q. write_turn cx org q sids tiers ss t) trs srs
    \<and> map turn_row_key trs = (if sids (tn_session t) = None then [] else [TurnKey org (tn_trace_id t)])
    \<and> map span_key_of srs = (if sids (tn_session t) = None then [] else turn_span_keys org ss t)"
proof (cases "sids (tn_session t)")
  case None
  then have "(\<lambda>q. write_turn cx org q sids tiers ss t) = (\<lambda>q. Inr)" by (simp add: write_turn_def fun_eq_iff)
  with None row_step_skip show ?thesis by auto
next
  case (Some sid)
  obtain cost w1 where cost: "numeric_from_float cx (tn_total_cost t) = Inr cost"
    and f: "fold_res (write_span cx org sid seq (tn_trace_id t) tiers) (spans_of ss t) w1 = Inr w'"
    using assms Some by (auto simp: write_turn_def and_then_Inr Let_def)
  obtain rs where rs: "row_step (\<lambda>q. fold_res (write_span cx org sid q (tn_trace_id t) tiers) (spans_of ss t)) [] rs"
    "map span_key_of rs = map (\<lambda>s. SpanKey org (tn_trace_id t) (sp_id s)) (spans_of ss t)" using write_spans_rows [OF f] by blast
  let ?row = "\<lambda>q. turn_row_of cx org sid q (tn_trace_id t)
      (turn_content_of t cost (map (\<lambda>s. span_fidelity tiers (sp_raw_turn_id s)) (spans_of ss t)))"
  let ?set = "\<lambda>q w. w\<lparr>ws_turn_session := (ws_turn_session w)(tn_trace_id t \<mapsto> sid),
         ws_keep_turns := ws_keep_turns w @ [TurnKey org (tn_trace_id t)], ws_db := upsert_turn (?row q) (ws_db w)\<rparr>"
  have "stamp_turn q (?row 0) = ?row q" for q by (simp add: stamp_turn_def turn_row_of_def)
  then have "row_step (\<lambda>q w. Inr (?set q w)) [?row 0] []"
    by (simp add: row_step_def writes_rows_def upsert_turn_def)
  from row_step_then [OF this rs(1)]
  have "row_step (\<lambda>q. write_turn cx org q sids tiers ss t) [?row 0] rs"
    by (simp add: row_step_def write_turn_def Some cost Let_def)
  then show ?thesis using Some rs(2) by (intro exI [of _ "[?row 0]"] exI [of _ rs]) (simp add: turn_span_keys_def)
qed

lemma write_turns_rows:
  assumes "fold_res (write_turn cx org seq sids tiers ss) ts w = Inr w'"
  shows "\<exists>trs srs. row_step (\<lambda>q. fold_res (write_turn cx org q sids tiers ss) ts) trs srs
    \<and> map turn_row_key trs = map (\<lambda>t. TurnKey org (tn_trace_id t)) (filter (\<lambda>t. sids (tn_session t) \<noteq> None) ts)
    \<and> map span_key_of srs = concat (map (turn_span_keys org ss) (filter (\<lambda>t. sids (tn_session t) \<noteq> None) ts))"
  using assms
proof (induction ts arbitrary: w)
  case Nil
  then show ?case using row_step_skip by (intro exI [of _ "[]"]) (simp add: fun_eq_iff row_step_def)
next
  case (Cons t ts)
  then obtain w1 where w1: "write_turn cx org seq sids tiers ss t w = Inr w1"
    "fold_res (write_turn cx org seq sids tiers ss) ts w1 = Inr w'" by (auto simp: and_then_Inr)
  obtain a b where r: "row_step (\<lambda>q. write_turn cx org q sids tiers ss t) a b"
    "map turn_row_key a = (if sids (tn_session t) = None then [] else [TurnKey org (tn_trace_id t)])"
    "map span_key_of b = (if sids (tn_session t) = None then [] else turn_span_keys org ss t)"
    using write_turn_rows [OF w1(1)] by blast
  obtain a' b' where rs: "row_step (\<lambda>q. fold_res (write_turn cx org q sids tiers ss) ts) a' b'"
    "map turn_row_key a' = map (\<lambda>t. TurnKey org (tn_trace_id t)) (filter (\<lambda>t. sids (tn_session t) \<noteq> None) ts)"
    "map span_key_of b' = concat (map (turn_span_keys org ss) (filter (\<lambda>t. sids (tn_session t) \<noteq> None) ts))"
    using Cons.IH [OF w1(2)] by blast
  from row_step_then [OF r(1) rs(1)] show ?case
    using r(2,3) rs(2,3) by (intro exI [of _ "a @ a'"] exI [of _ "b @ b'"]) simp
qed

text \<open>The tables after the prunes.\<close>

definition kept_turn :: "pg_uuid \<Rightarrow> pg_uuid list \<Rightarrow> turn_key list \<Rightarrow> turn_row \<Rightarrow> bool" where
  "kept_turn org covered keep r \<longleftrightarrow> \<not> (covered_row org covered (tw_org r) (tw_session r) \<and> turn_row_key r \<notin> set keep)"

definition kept_span :: "pg_uuid \<Rightarrow> pg_uuid list \<Rightarrow> span_row_key list \<Rightarrow> span_row \<Rightarrow> bool" where
  "kept_span org covered keep r \<longleftrightarrow> \<not> (covered_row org covered (pw_org r) (pw_session r) \<and> span_key_of r \<notin> set keep)"

definition pruned :: "pg_uuid \<Rightarrow> pg_uuid list \<Rightarrow> turn_key list \<Rightarrow> span_row_key list \<Rightarrow> span_db \<Rightarrow> span_db \<Rightarrow> bool" where
  "pruned org covered tk sk up db' \<longleftrightarrow>
     sb_turns db' = filter (kept_turn org covered tk) (sb_turns up)
     \<and> sb_spans db' = filter (\<lambda>r. trace_of_key (span_key_of r) \<notin> turn_row_key ` {t \<in> set (sb_turns up). \<not> kept_turn org covered tk t})
                       (filter (kept_span org covered sk) (sb_spans up))"

lemma prunes_pruned:
  "pruned org covered tk sk up (prune_turns org covered tk (prune_spans org covered sk (prune_links org covered lk up)))"
proof -
  have "{t \<in> set ts. \<not> kept_turn org covered tk t} = set (filter (\<lambda>t. tw_org t = org \<and> tw_session t \<in> set covered \<and> turn_row_key t \<notin> set tk) ts)" for ts
    by (auto simp: kept_turn_def covered_row_def)
  moreover have "(\<lambda>r. \<not> (pw_org r = org \<and> pw_session r \<in> set covered \<and> span_key_of r \<notin> set sk)) = kept_span org covered sk"
    "(\<lambda>r. \<not> (tw_org r = org \<and> tw_session r \<in> set covered \<and> turn_row_key r \<notin> set tk)) = kept_turn org covered tk"
    by (auto simp: kept_span_def kept_turn_def covered_row_def)
  ultimately show ?thesis
    unfolding pruned_def prune_turns_def prune_spans_def Let_def by (simp add: prune_links_def trace_of_row)
qed

lemma pruned_again:
  assumes "pruned org covered tk sk up db1" "sb_turns up' = sb_turns db1" "sb_spans up' = sb_spans db1" "pruned org covered tk sk up' db2"
  shows "sb_turns db2 = sb_turns db1" "sb_spans db2 = sb_spans db1"
proof -
  show turns: "sb_turns db2 = sb_turns db1" using assms by (simp add: pruned_def)
  have "{t \<in> set (sb_turns db1). \<not> kept_turn org covered tk t} = {}" using assms(1) by (auto simp: pruned_def)
  moreover have "filter (kept_span org covered sk) (sb_spans db1) = sb_spans db1"
    using assms(1) by (simp add: pruned_def) (rule filter_cong, auto)
  ultimately show "sb_spans db2 = sb_spans db1" using assms(2-4) by (auto simp: pruned_def filter_id_conv)
qed

lemma pruned_settled:
  assumes p: "pruned org covered tk sk up db'" and sub: "trace_of_key ` set sk \<subseteq> set tk"
  shows "turn_row_key r \<in> set tk \<Longrightarrow> tt.settled r (sb_turns db') = tt.settled r (sb_turns up)"
    "span_key_of s \<in> set sk \<Longrightarrow> st.settled s (sb_spans db') = st.settled s (sb_spans up)"
proof -
  show "turn_row_key r \<in> set tk \<Longrightarrow> tt.settled r (sb_turns db') = tt.settled r (sb_turns up)"
    using p by (auto simp: pruned_def kept_turn_def intro!: tt.settled_filter)
  assume s: "span_key_of s \<in> set sk"
  then have "trace_of_key (span_key_of s) \<in> set tk" using sub by blast
  then have "trace_of_key (span_key_of s) \<notin> turn_row_key ` {t \<in> set (sb_turns up). \<not> kept_turn org covered tk t}"
    by (auto simp: kept_turn_def)
  then have "st.settled s (sb_spans db') = st.settled s (filter (kept_span org covered sk) (sb_spans up))"
    using p unfolding pruned_def by (simp only:) (rule st.settled_filter, simp)
  also have "\<dots> = st.settled s (sb_spans up)"
    using s by (intro st.settled_filter) (simp add: kept_span_def)
  finally show "st.settled s (sb_spans db') = st.settled s (sb_spans up)" .
qed

text \<open>The folds answer whatever the tables hold.\<close>

lemma write_fold_answers:
  "fold_res (write_fold sids m f) ks db = Inr db1 \<Longrightarrow> \<exists>db1'. fold_res (write_fold sids m f) ks db' = Inr db1'"
proof (induction ks arbitrary: db db')
  case (Cons k ks)
  then obtain d where d: "write_fold sids m f k db = Inr d" "fold_res (write_fold sids m f) ks d = Inr db1"
    by (auto simp: and_then_Inr)
  from d(1) have "\<exists>d'. write_fold sids m f k db' = Inr d'"
    by (auto simp: write_fold_def and_then_Inr split: option.splits if_splits)
  then obtain d' where "write_fold sids m f k db' = Inr d'" ..
  with Cons.IH [OF d(2), of d'] show ?case by simp
qed simp

lemma write_folds_answers: "write_folds cx sids ks ss db = Inr db1 \<Longrightarrow> \<exists>db1'. write_folds cx sids ks ss db' = Inr db1'"
  unfolding write_folds_def and_then_Inr by (meson write_fold_answers)

definition empty_write :: "span_db \<Rightarrow> span_write" where
  "empty_write db = \<lparr>ws_db = db, ws_turn_session = Map.empty, ws_keep_turns = [], ws_keep_spans = [], ws_keep_links = []\<rparr>"

definition prune_all :: "pg_uuid \<Rightarrow> pg_uuid list \<Rightarrow> (Deriver.session_key \<Rightarrow> pg_uuid option) \<Rightarrow> span_set \<Rightarrow> span_db \<Rightarrow> span_db" where
  "prune_all org covered sids ss up =
     prune_turns org covered (emitted_turn_keys org sids ss)
       (prune_spans org covered (emitted_span_keys org sids ss)
         (prune_links org covered (map (link_key_in org) (emitted_links sids ss)) up))"

lemma write_span_set_steps:
  assumes "fold_res (write_turn cx org seq sids (resolve_fidelity raws ss) ss) (so_turns ss) (empty_write db) = Inr w" "covered \<noteq> []"
  shows "\<exists>up. sb_turns up = sb_turns (ws_db w) \<and> sb_spans up = sb_spans (ws_db w)
    \<and> write_span_set cx org sids ks covered seq raws ss db =
        write_folds cx sids ks ss (fold_session_rollups cx covered (prune_all org covered sids ss up))"
proof -
  let ?ls = "concat (map tn_links (so_turns ss)) @ so_links ss"
  note a = write_turns_adds [OF assms(1), folded resolved_turns_def, folded emitted_turn_keys_def, folded emitted_span_keys_def]
  have dom: "dom (ws_turn_session w) = tn_trace_id ` set (resolved_turns sids ss)"
    using a by (simp add: adds_turns_def empty_write_def)
  note l = write_links_adds [where org = org and ls = ?ls and w = w, unfolded dom, folded emitted_links_def]
  have keep: "ws_keep_turns w = emitted_turn_keys org sids ss" "ws_keep_spans w = emitted_span_keys org sids ss" "ws_keep_links w = []"
    using a by (simp_all add: adds_turns_def empty_write_def)
  show ?thesis
    using assms l(2,3,7)
    by (intro exI [of _ "ws_db (fold (write_link org) ?ls w)"])
      (simp add: write_span_set_def prune_all_def keep empty_write_def l(4,5) Let_def del: fold_append)
qed

subsection \<open>Properties\<close>

text \<open>C15: a write makes the projection of the covered sessions exactly what the emitter produced. After a
  successful write, the traces in the tables are those emitted for sessions that have a row, and those
  of other organisations or sessions the write does not cover; the same holds of the spans, but for
  those that go with a pruned trace, and of the links, each of which needs the trace it starts from to
  be written. No covered row the emitter stopped producing is left and none it produced is missing.\<close>

theorem projection_write_exact:
  "case write_span_set cx org sids ks covered seq raws ss db of
     Inl _ \<Rightarrow> True
   | Inr db' \<Rightarrow>
       if covered = [] then True
       else turn_row_key ` set (sb_turns db') =
              set (emitted_turn_keys org sids ss)
              \<union> turn_row_key ` {r \<in> set (sb_turns db). \<not> covered_row org covered (tw_org r) (tw_session r)}
          \<and> span_key_of ` set (sb_spans db') =
              set (emitted_span_keys org sids ss)
              \<union> span_key_of ` {r \<in> set (sb_spans db). \<not> covered_row org covered (pw_org r) (pw_session r)
                   \<and> TurnKey (pw_org r) (pw_trace r) \<notin>
                       turn_row_key ` {t \<in> set (sb_turns db). covered_row org covered (tw_org t) (tw_session t)}
                       - set (emitted_turn_keys org sids ss)}
          \<and> link_key_of ` set (sb_links db') =
              link_key_in org ` set (emitted_links sids ss)
              \<union> link_key_of ` {r \<in> set (sb_links db). \<not> covered_row org covered (lw_org r) (lw_session r)}"
proof (cases "write_span_set cx org sids ks covered seq raws ss db")
  case (Inr db')
  show ?thesis
  proof (cases "covered = []")
    case False
    let ?T = "set (emitted_turn_keys org sids ss)" and ?S = "set (emitted_span_keys org sids ss)"
      and ?L = "link_key_in org ` set (emitted_links sids ss)"
    from Inr False obtain up where up:
      "turn_row_key ` set (sb_turns up) = turn_row_key ` set (sb_turns db) \<union> ?T" "same_outside turn_row_key ?T (sb_turns db) (sb_turns up)"
      "span_key_of ` set (sb_spans up) = span_key_of ` set (sb_spans db) \<union> ?S" "same_outside span_key_of ?S (sb_spans db) (sb_spans up)"
      "link_key_of ` set (sb_links up) = link_key_of ` set (sb_links db) \<union> ?L" "same_outside link_key_of ?L (sb_links db) (sb_links up)"
      "same_tables (prune_turns org covered (emitted_turn_keys org sids ss)
         (prune_spans org covered (emitted_span_keys org sids ss)
           (prune_links org covered (map (link_key_in org) (emitted_links sids ss)) up))) db'"
      by (rule write_span_set_cases)
    have t: "sb_turns db' = filter (\<lambda>r. \<not> (covered_row org covered (tw_org r) (tw_session r) \<and> turn_row_key r \<notin> ?T)) (sb_turns up)"
      using up(7) by (simp add: same_tables_def prune_turns_def covered_row_def Let_def)
    have l: "sb_links db' = filter (\<lambda>r. \<not> (covered_row org covered (lw_org r) (lw_session r) \<and> link_key_of r \<notin> ?L)) (sb_links up)"
      using up(7) by (simp add: same_tables_def prune_links_def covered_row_def)
    let ?G = "turn_row_key ` {t \<in> set (sb_turns db). covered_row org covered (tw_org t) (tw_session t)} - ?T"
    have g: "turn_row_key ` set (filter (\<lambda>r. tw_org r = org \<and> tw_session r \<in> set covered \<and> turn_row_key r \<notin> ?T) (sb_turns up)) = ?G"
      using gone_keys [OF up(2), of "\<lambda>r. covered_row org covered (tw_org r) (tw_session r)"] by (simp add: covered_row_def)
    have s: "sb_spans db' = filter (\<lambda>r. trace_of_key (span_key_of r) \<notin> ?G)
        (filter (\<lambda>r. \<not> (covered_row org covered (pw_org r) (pw_session r) \<and> span_key_of r \<notin> ?S)) (sb_spans up))"
      using up(7) g by (simp add: same_tables_def prune_turns_def prune_spans_def covered_row_def Let_def trace_of_row)
    have "trace_of_key ` ?S \<inter> ?G = {}" using trace_of_emitted by blast
    from pruned_cascade [OF up(3,4) this, of "\<lambda>r. covered_row org covered (pw_org r) (pw_session r)"] show ?thesis
      using pruned_keys [OF up(1,2)] pruned_keys [OF up(5,6)] False
      by (simp add: Inr t l s trace_of_row)
  qed (simp split: sum.split)
qed simp

end
