(* ===== verification/ChangeFeed.thy ===== *)
theory ChangeFeed
  imports SpanStoreFacts
begin

text \<open>
  The change feed: a row's cursor moves exactly when what the row says does, a page of the feed keeps
  the order of the cursors, and what a reader that checkpoints on the largest cursor can miss.
\<close>

subsection \<open>Framing\<close>

definition fits64 :: "int \<Rightarrow> bool" where
  "fits64 v \<longleftrightarrow> - (2 ^ 63) \<le> v \<and> v < 2 ^ 63"

definition fits_bytes :: "string \<Rightarrow> bool" where
  "fits_bytes b \<longleftrightarrow> length b < 2 ^ 63"

lemma length_be64 [simp]: "length (be64 v) = 8"
  by (simp add: be64_def)

lemma low_bytes_eq:
  fixes v v' :: int
  shows "(\<And>j. j < k \<Longrightarrow> v div 2 ^ (8 * j) mod 256 = v' div 2 ^ (8 * j) mod 256) \<Longrightarrow> v mod 2 ^ (8 * k) = v' mod 2 ^ (8 * k)"
proof (induction k)
  case (Suc k)
  have "x mod 2 ^ (8 * Suc k) = 2 ^ (8 * k) * (x div 2 ^ (8 * k) mod 256) + x mod 2 ^ (8 * k)" for x :: int
    using zmod_zmult2_eq [of "256 :: int" x "2 ^ (8 * k)"] by (simp add: power_add mult.commute)
  then show ?case using Suc.IH [OF Suc.prems] Suc.prems [of k] by simp
qed simp

lemma mod_prod_div: "0 < a \<Longrightarrow> 0 < b \<Longrightarrow> (v mod (a * b)) div a = v div a mod b" for a b v :: int
  by (simp add: zmod_zmult2_eq)

lemma be64_eq: "be64 v = be64 v' \<longleftrightarrow> v mod 2 ^ 64 = v' mod 2 ^ 64"
proof
  assume "be64 v = be64 v'"
  then have b: "(char_of (nat (v div 2 ^ (8 * k) mod 256)) :: char) = char_of (nat (v' div 2 ^ (8 * k) mod 256))"
    if "k \<in> {0, 1, 2, 3, 4, 5, 6, 7}" for k
    using that unfolding be64_def by (auto simp only: list.map list.inject insert_iff empty_iff)
  have "v div 2 ^ (8 * k) mod 256 = v' div 2 ^ (8 * k) mod 256" if "k < 8" for k :: nat
  proof -
    have that: "k \<in> {0, 1, 2, 3, 4, 5, 6, 7}" using that by auto
    have n: "nat (x mod 256) mod 256 = nat (x mod 256)" for x :: int by (simp add: nat_less_iff)
    have "nat (v div 2 ^ (8 * k) mod 256) = nat (v' div 2 ^ (8 * k) mod 256)"
      using arg_cong [where f = "of_char :: char \<Rightarrow> nat", OF b [OF that]] by (simp add: n)
    then show ?thesis by simp
  qed
  then show "v mod 2 ^ 64 = v' mod 2 ^ 64" using low_bytes_eq [of 8 v v'] by simp
next
  have *: "v div 2 ^ (8 * k) mod 256 = (v mod 2 ^ 64) div 2 ^ (8 * k) mod 256" if "k < 8" for v :: int and k :: nat
  proof -
    have h: "(2::int) ^ 64 = 2 ^ (8 * k) * (256 * 2 ^ (56 - 8 * k))"
    proof -
      have "256 = (2::int) ^ 8" by simp
      moreover have "8 * k + (8 + (56 - 8 * k)) = 64" using that by simp
      ultimately show ?thesis by (metis power_add)
    qed
    have "(v mod 2 ^ 64) div 2 ^ (8 * k) = v div 2 ^ (8 * k) mod (256 * 2 ^ (56 - 8 * k))"
      unfolding h by (rule mod_prod_div) simp_all
    then show ?thesis by (simp add: mod_mod_cancel)
  qed
  assume "v mod 2 ^ 64 = v' mod 2 ^ 64"
  then have "v div 2 ^ (8 * k) mod 256 = v' div 2 ^ (8 * k) mod 256" if "k < 8" for k :: nat
    using * [OF that] by metis
  then show "be64 v = be64 v'" unfolding be64_def by (intro map_cong refl) (auto simp only: set_simps insert_iff)
qed

lemma be64_inj: "fits64 v \<Longrightarrow> fits64 v' \<Longrightarrow> be64 v = be64 v' \<longleftrightarrow> v = v'"
proof
  assume f: "fits64 v" "fits64 v'" and "be64 v = be64 v'"
  then have "2 ^ 64 dvd v - v'" by (simp add: be64_eq mod_eq_dvd_iff)
  then obtain d where d: "v - v' = 2 ^ 64 * d" ..
  moreover from f have "- (2 ^ 64) < v - v'" "v - v' < 2 ^ 64" by (simp_all add: fits64_def)
  ultimately have "d = 0" by simp
  with d show "v = v'" by simp
qed simp

lemma frame_bytes_eq:
  "fits_bytes a \<Longrightarrow> fits_bytes b \<Longrightarrow> frame_bytes a @ r = frame_bytes b @ s \<longleftrightarrow> a = b \<and> r = s"
proof
  assume f: "fits_bytes a" "fits_bytes b" and "frame_bytes a @ r = frame_bytes b @ s"
  then have h: "be64 (int (length a)) = be64 (int (length b))" "a @ r = b @ s" by (simp_all add: frame_bytes_def)
  moreover have "fits64 (int (length a))" "fits64 (int (length b))"
    using f by (simp_all add: fits64_def fits_bytes_def)
  ultimately have "length a = length b" by (simp add: be64_inj)
  with h(2) show "a = b \<and> r = s" by simp
qed simp

lemma frame_bytes_last: "fits_bytes a \<Longrightarrow> fits_bytes b \<Longrightarrow> frame_bytes a = frame_bytes b \<longleftrightarrow> a = b"
  using frame_bytes_eq [of a b "[]" "[]"] by simp

lemma fits_short [simp]: "fits_bytes (be64 v)" "fits_bytes []" "fits_bytes [c]"
  by (simp_all add: fits_bytes_def)

lemma frame_i64_eq: "fits64 v \<Longrightarrow> fits64 v' \<Longrightarrow> frame_i64 v @ r = frame_i64 v' @ s \<longleftrightarrow> v = v' \<and> r = s"
  by (simp add: frame_i64_def frame_bytes_eq be64_inj)

lemma frame_bool_eq: "frame_bool b @ r = frame_bool b' @ s \<longleftrightarrow> b = b' \<and> r = s"
  by (simp add: frame_bool_def frame_bytes_eq)

lemma frame_time_eq:
  "pred_option fits64 t \<Longrightarrow> pred_option fits64 t' \<Longrightarrow> frame_time t @ r = frame_time t' @ s \<longleftrightarrow> t = t' \<and> r = s"
proof -
  have "be64 v \<noteq> []" "[] \<noteq> be64 v" for v by (metis length_be64 list.size(3) zero_neq_numeral)+
  then show "pred_option fits64 t \<Longrightarrow> pred_option fits64 t' \<Longrightarrow> ?thesis"
    by (auto simp: frame_time_def frame_i64_def frame_bytes_eq be64_inj split: option.splits)
qed

lemma magnitude_value: "foldl (\<lambda>a c. a * 256 + of_char c) 0 (magnitude_bytes n) = n"
proof (induction n rule: magnitude_bytes.induct)
  case (1 n)
  then show ?case by (subst magnitude_bytes.simps) (simp add: div_mult_mod_eq)
qed

lemma magnitude_inj: "magnitude_bytes m = magnitude_bytes n \<longleftrightarrow> m = n"
  by (metis magnitude_value)

lemma frame_numeric_eq:
  assumes "fits64 (nm_exp n)" "fits64 (nm_exp n')" "nm_int n = Some m" "nm_int n' = Some m'" "0 \<le> m" "0 \<le> m'"
    "fits_bytes (magnitude_bytes (nat m))" "fits_bytes (magnitude_bytes (nat m'))"
  shows "frame_numeric n @ r = frame_numeric n' @ s \<longleftrightarrow> n = n' \<and> r = s"
  using assms by (cases n, cases n') (auto simp: frame_numeric_def frame_bool_eq frame_i64_eq frame_bytes_eq magnitude_inj)

definition sized_span :: "span_content \<Rightarrow> bool" where
  "sized_span c \<longleftrightarrow>
     list_all fits_bytes [sc_parent c, sc_kind c, sc_name c, sc_status c, sc_call_kind c, sc_thread_id c, sc_model c,
       sc_stop_reason c, sc_input c, sc_output c, sc_usage c, sc_verdict c, sc_node_hash c, sc_fidelity c]
     \<and> list_all fits64 [sc_started_at c, sc_duration_ns c, sc_seq c] \<and> pred_option fits64 (sc_raw_turn c)"

definition sized_cost :: "numeric \<Rightarrow> bool" where
  "sized_cost n \<longleftrightarrow> fits64 (nm_exp n) \<and> (case nm_int n of None \<Rightarrow> False | Some m \<Rightarrow> 0 \<le> m \<and> fits_bytes (magnitude_bytes (nat m)))"

definition sized_turn :: "turn_content \<Rightarrow> bool" where
  "sized_turn c \<longleftrightarrow>
     list_all fits_bytes [tc_user_prompt c, tc_response_preview c, tc_synthetic c, tc_status c, tc_source c, tc_fidelity c]
     \<and> list_all fits64 [tc_started_at c, tc_duration_ns c, tc_total_input c, tc_total_output c, tc_main_input c,
          tc_main_output c, tc_cache_read c, tc_cache_creation c, tc_tool_calls c]
     \<and> pred_option fits64 (tc_ended_at c) \<and> sized_cost (tc_cost c)"

lemma fits64_0 [simp]: "fits64 0" by (simp add: fits64_def)

lemma span_hash_input_eq: "sized_span c \<Longrightarrow> sized_span c' \<Longrightarrow> span_hash_input c = span_hash_input c' \<longleftrightarrow> c = c'"
  by (cases c, cases c') (auto simp: sized_span_def span_hash_input_def frame_bytes_eq frame_bytes_last frame_i64_eq
    frame_bool_eq frame_time_eq split: option.splits)

lemma turn_hash_input_eq:
  assumes "sized_turn c" "sized_turn c'"
  shows "turn_hash_input c = turn_hash_input c' \<longleftrightarrow> c = c'"
proof -
  obtain m where "fits64 (nm_exp (tc_cost c))" "nm_int (tc_cost c) = Some m" "0 \<le> m" "fits_bytes (magnitude_bytes (nat m))"
    using assms(1) by (auto simp: sized_turn_def sized_cost_def split: option.splits)
  moreover obtain m' where "fits64 (nm_exp (tc_cost c'))" "nm_int (tc_cost c') = Some m'" "0 \<le> m'" "fits_bytes (magnitude_bytes (nat m'))"
    using assms(2) by (auto simp: sized_turn_def sized_cost_def split: option.splits)
  ultimately show ?thesis
    using assms by (cases c, cases c')
      (auto simp: sized_turn_def turn_hash_input_def frame_bytes_eq frame_bytes_last frame_i64_eq frame_numeric_eq frame_time_eq)
qed

subsection \<open>Pages\<close>

text \<open>A reader's next cursor: the largest it has processed.\<close>

definition checkpoint :: "int \<Rightarrow> turn_row list \<Rightarrow> int" where
  "checkpoint after page = (if page = [] then after else tw_seq (last page))"

definition visible_turns :: "pg_uuid \<Rightarrow> int \<Rightarrow> int \<Rightarrow> turn_row list \<Rightarrow> turn_row list" where
  "visible_turns org after xmin rows = filter (\<lambda>r. tw_org r = org \<and> after < tw_seq r \<and> tw_seq r < xmin) rows"

lemma take_sorted_prefix:
  assumes "sorted (map f xs)" "x \<in> set xs" "take n xs \<noteq> []" "f x < f (last (take n xs))"
  shows "x \<in> set (take n xs)"
proof (rule ccontr)
  assume "x \<notin> set (take n xs)"
  then have d: "x \<in> set (drop n xs)" using assms(2) by (metis Un_iff append_take_drop_id set_append)
  have "sorted (map f (take n xs @ drop n xs))" using assms(1) by simp
  then have "f (last (take n xs)) \<le> f x"
    using d last_in_set [OF assms(3)] by (auto simp: sorted_append simp del: append_take_drop_id)
  then show False using assms(4) by simp
qed

lemma feed_sorted:
  "list_changed_span_turns collate org after xmin page rows =
     take page (sort_key tw_seq (sort_key (\<lambda>r. collate (tw_trace r)) (visible_turns org after xmin rows)))"
  by (simp add: list_changed_span_turns_def visible_turns_def)

subsection \<open>A trace that moved\<close>

text \<open>A stored trace keeps the session it was first written for. When the session it moved to is derived
  first, the later pass over the session it left deletes it.\<close>

lemma moved_trace_lost:
  assumes x: "tt.row_at (turn_row_key r) (sb_turns db) = Some x" "distinct (map turn_row_key (sb_turns db))"
    and old: "uuid_valid (tw_session x)" "tw_session x \<noteq> tw_session r" and keep: "turn_row_key r \<notin> set keep"
  shows "turn_row_key r \<notin> turn_row_key ` set (sb_turns (prune_turns (tw_org r) [tw_session x] keep (upsert_turn r db)))"
proof
  let ?rows = "upsert_by turn_row_key merge_turn r (sb_turns db)"
  assume "turn_row_key r \<in> turn_row_key ` set (sb_turns (prune_turns (tw_org r) [tw_session x] keep (upsert_turn r db)))"
  then obtain y where y: "y \<in> set ?rows" "turn_row_key y = turn_row_key r"
    "\<not> (tw_org y = tw_org r \<and> tw_session y = tw_session x \<and> turn_row_key y \<notin> set keep)"
    by (auto simp: prune_turns_def upsert_turn_def Let_def)
  have "tt.row_at (turn_row_key r) ?rows = Some y"
    using tt.row_at_row [OF tt.upsert_distinct [OF x(2)] y(1)] y(2) by simp
  then have "y = merge_turn r x" using x(1) by (simp add: tt.row_at_upsert)
  then show False
    using y(3) old(1) keep by (simp add: merge_turn_def coalesce_uuid_def turn_row_key_def)
qed

subsection \<open>Samples\<close>

definition sample_codec :: "(string \<Rightarrow> string) \<Rightarrow> span_codec" where
  "sample_codec digest = \<lparr>sv_scan = (\<lambda>_. Inr zero_numeric), sv_digest = digest, sv_blocks = (\<lambda>_. Inr ''b''), sv_usage = (\<lambda>_. Inr ''u''),
     sv_verdict = (\<lambda>_. Inr ''v''), sv_model_usage = (\<lambda>_. Inr ''m''), sv_tasks = (\<lambda>_. Inr ''t''),
     sv_kind_counts = (\<lambda>_. Inr ''k''), sv_collate = (\<lambda>_. 0)\<rparr>"

definition sample_uuid :: "string \<Rightarrow> pg_uuid" where
  "sample_uuid b = \<lparr>uuid_bytes = b, uuid_valid = True\<rparr>"

definition sample_key :: "string \<Rightarrow> Deriver.session_key" where
  "sample_key s = \<lparr>harness_id = ''h'', harness_session_id = s\<rparr>"

definition sample_sids :: "Deriver.session_key \<Rightarrow> pg_uuid option" where
  "sample_sids k = Some (sample_uuid (harness_session_id k))"

definition sample_turn :: "string \<Rightarrow> string \<Rightarrow> nat list \<Rightarrow> span_turn" where
  "sample_turn s trace is =
     \<lparr>tn_trace_id = trace, tn_session = sample_key s, tn_user_prompt = ''hi'', tn_response_preview = [], tn_synthetic = [], tn_source = [],
      tn_started_at = 5, tn_ended_at = 9, tn_total_input_tokens = 1, tn_total_output_tokens = 2, tn_main_input_tokens = 1,
      tn_main_output_tokens = 2, tn_cache_read_tokens = 0, tn_cache_creation_tokens = 0, tn_total_cost = 0, tn_tool_calls = 0,
      tn_spans = is, tn_links = []\<rparr>"

definition sample_spans :: "span_turn list \<Rightarrow> span_set" where
  "sample_spans ts =
     \<lparr>so_spans = [empty_span\<lparr>sp_id := ''s0''\<rparr>, empty_span\<lparr>sp_id := ''s1''\<rparr>], so_turns = ts, so_links = [], so_model_usage = Map.empty,
      so_tasks = Map.empty, so_kind_counts = Map.empty, so_status = Map.empty,
      so_report = \<lparr>rp_traces = 0, rp_spans = 0, rp_span_kinds = Map.empty, rp_call_kinds = Map.empty, rp_link_kinds = Map.empty,
        rp_synthetic = 0, rp_orphan_shadow = 0\<rparr>\<rparr>"

definition empty_span_db :: span_db where
  "empty_span_db = \<lparr>sb_turns = [], sb_spans = [], sb_links = [],
     sb_rollups = (\<lambda>_. \<lparr>ro_cost = 0, ro_input_tokens = 0, ro_output_tokens = 0, ro_turn_count = 0, ro_model_usage = None, ro_title = None,
       ro_tasks = None, ro_kind_counts = None, ro_git_activity = False, ro_tool_results = 0, ro_tool_errors = 0,
       ro_status = [], ro_model = []\<rparr>)\<rparr>"

text \<open>One pass over a session: the traces emitted for it.\<close>

definition sample_pass :: "string \<Rightarrow> int \<Rightarrow> span_turn list \<Rightarrow> span_db \<Rightarrow> string + span_db" where
  "sample_pass s seq ts db =
     write_span_set (sample_codec (\<lambda>_. ''d'')) (sample_uuid ''o'') sample_sids [sample_key s] [sample_uuid s] seq [] (sample_spans ts) db"

lemmas run_write_defs = and_then_def write_span_set_def write_turn_def write_span_def write_link_def write_folds_def write_fold_def
  fold_session_rollups_def numeric_from_float_def zero_numeric_def span_content_of_def content_json_def optional_json_def upsert_turn_def
  upsert_span_def prune_links_def prune_spans_def prune_turns_def turn_row_of_def span_row_of_def turn_row_key_def span_key_of_def
  merge_turn_def merge_span_def coalesce_uuid_def spans_of_def

lemmas sample_defs = sample_pass_def sample_codec_def sample_sids_def sample_key_def sample_uuid_def sample_turn_def sample_spans_def
  empty_span_db_def empty_span_def

lemma sample_written: "\<not> isl (sample_pass ''a'' 1 [sample_turn ''a'' ''t'' [0, 1]] empty_span_db)"
  by (simp add: sample_defs run_write_defs Let_def)

definition feed_row :: "string \<Rightarrow> int \<Rightarrow> turn_row" where
  "feed_row trace q = turn_row_of (sample_codec (\<lambda>_. ''d'')) (sample_uuid ''o'') (sample_uuid ''a'') q trace (turn_content_of (sample_turn ''a'' trace []) zero_numeric [])"

text \<open>A page that ends inside a pass: the reader's checkpoint is past the rest of the pass.\<close>

lemma cut_pass_lost:
  "let rows = [feed_row ''t'' 5, feed_row ''u'' 5];
       read = (\<lambda>after. list_changed_span_turns (\<lambda>_. 0) (sample_uuid ''o'') after 10 1 rows);
       page = read 0
   in map tw_trace page = [''t''] \<and> read (checkpoint 0 page) = [] \<and> visible_turns (sample_uuid ''o'') 0 10 rows = rows"
  by code_simp

subsection \<open>Properties\<close>

text \<open>C16: writing a set again is inert. When a write succeeded and the same set is written once more, with
  whatever cursor its pass was given, the second write succeeds too and leaves every row of the traces
  and of the spans as it was, its cursor included: a re-derivation that changed nothing shows nothing to
  the readers of the change feed. The emitted traces and spans must have distinct keys.\<close>

theorem rewrite_inert:
  assumes first: "write_span_set cx org sids ks covered seq raws ss db = Inr db1" "covered \<noteq> []"
    and keys: "distinct (emitted_turn_keys org sids ss)" "distinct (emitted_span_keys org sids ss)"
  shows "case write_span_set cx org sids ks covered seq' raws ss db1 of
     Inl _ \<Rightarrow> False | Inr db2 \<Rightarrow> sb_turns db2 = sb_turns db1 \<and> sb_spans db2 = sb_spans db1"
proof -
  let ?tk = "emitted_turn_keys org sids ss" and ?sk = "emitted_span_keys org sids ss"
  let ?run = "\<lambda>q. fold_res (write_turn cx org q sids (resolve_fidelity raws ss) ss) (so_turns ss)"
  obtain w where w: "?run seq (empty_write db) = Inr w"
    using first by (auto simp: write_span_set_def empty_write_def and_then_Inr Let_def)
  obtain trs srs where rows: "row_step ?run trs srs" "map turn_row_key trs = ?tk" "map span_key_of srs = ?sk"
    using write_turns_rows [OF w] by (auto simp: emitted_turn_keys_def emitted_span_keys_def resolved_turns_def)
  obtain w2 where w2: "?run seq' (empty_write db1) = Inr w2" "writes_rows seq' trs srs (empty_write db1) w2"
    using rows(1) unfolding row_step_def by blast
  have r1: "writes_rows seq trs srs (empty_write db) w"
    using rows(1) w unfolding row_step_def by (metis sum.inject(2))
  obtain up where up: "sb_turns up = sb_turns (ws_db w)" "sb_spans up = sb_spans (ws_db w)"
    "write_folds cx sids ks ss (fold_session_rollups cx covered (prune_all org covered sids ss up)) = Inr db1"
    using write_span_set_steps [OF w first(2)] first(1) by metis
  obtain up2 where up2: "sb_turns up2 = sb_turns (ws_db w2)" "sb_spans up2 = sb_spans (ws_db w2)"
    "write_span_set cx org sids ks covered seq' raws ss db1 =
       write_folds cx sids ks ss (fold_session_rollups cx covered (prune_all org covered sids ss up2))"
    using write_span_set_steps [OF w2(1) first(2)] by metis
  have pruned1: "pruned org covered ?tk ?sk up db1"
    using prunes_pruned write_folds_tables [OF up(3)] by (simp add: pruned_def same_tables_def prune_all_def)
  note keep = pruned_settled [OF pruned1 trace_of_emitted]
  have "tt.settled r (sb_turns db1)" if "r \<in> set trs" for r
  proof -
    have "turn_row_key r \<in> set ?tk" using that rows(2) by (metis image_eqI set_map)
    moreover have "tt.settled r (sb_turns up)"
      using r1 that keys(1) rows(2) by (simp add: writes_rows_def up tt.upserts_settle)
    ultimately show ?thesis using keep(1) by simp
  qed
  moreover have "st.settled r (sb_spans db1)" if "r \<in> set srs" for r
  proof -
    have "span_key_of r \<in> set ?sk" using that rows(3) by (metis image_eqI set_map)
    moreover have "st.settled r (sb_spans up)"
      using r1 that keys(2) rows(3) by (simp add: writes_rows_def up st.upserts_settle)
    ultimately show ?thesis using keep(2) by simp
  qed
  ultimately have same: "sb_turns up2 = sb_turns db1" "sb_spans up2 = sb_spans db1"
    using w2(2) by (simp_all add: writes_rows_def up2 empty_write_def tt.upserts_settled st.upserts_settled)
  obtain db2 where db2: "write_folds cx sids ks ss (fold_session_rollups cx covered (prune_all org covered sids ss up2)) = Inr db2"
    using write_folds_answers [OF up(3)] by blast
  have "pruned org covered ?tk ?sk up2 db2"
    using prunes_pruned write_folds_tables [OF db2] by (simp add: pruned_def same_tables_def prune_all_def)
  from pruned_again [OF pruned1 same this] show ?thesis by (simp add: up2(3) db2)
qed

theorem rewrite_inert_witness:
  "case sample_pass ''a'' 1 [sample_turn ''a'' ''t'' [0, 1]] empty_span_db of Inl _ \<Rightarrow> False
   | Inr db1 \<Rightarrow> (case sample_pass ''a'' 2 [sample_turn ''a'' ''t'' [0, 1]] db1 of Inl _ \<Rightarrow> False
       | Inr db2 \<Rightarrow> sb_turns db2 = sb_turns db1 \<and> sb_spans db2 = sb_spans db1)"
proof -
  obtain db1 where db1: "sample_pass ''a'' 1 [sample_turn ''a'' ''t'' [0, 1]] empty_span_db = Inr db1"
    using sample_written that by (cases "sample_pass ''a'' 1 [sample_turn ''a'' ''t'' [0, 1]] empty_span_db") simp_all
  have "distinct (emitted_turn_keys (sample_uuid ''o'') sample_sids (sample_spans [sample_turn ''a'' ''t'' [0, 1]]))"
    by (simp add: emitted_turn_keys_def resolved_turns_def sample_spans_def sample_sids_def)
  moreover have "distinct (emitted_span_keys (sample_uuid ''o'') sample_sids (sample_spans [sample_turn ''a'' ''t'' [0, 1]]))"
    by (simp add: emitted_span_keys_def turn_span_keys_def resolved_turns_def spans_of_def sample_spans_def sample_sids_def sample_turn_def)
  ultimately show ?thesis
    using rewrite_inert [OF db1 [unfolded sample_pass_def], of 2] db1 by (simp add: sample_pass_def)
qed

text \<open>The cursor of a row moves exactly when what the row says does. When a pass writes a span or a
  trace over the row an earlier pass wrote for it, the row shows the new pass's cursor if any of its
  columns differs and keeps the old cursor if none does, whatever the session it is written for. It rests
  on the framing of the hash input, which is injective for texts and numbers in range, and on a digest
  without collisions.\<close>

theorem cursor_moves_iff_changed:
  assumes "inj (sv_digest cx)" "sized_span c" "sized_span c'" "sized_turn d" "sized_turn d'"
  shows "pw_seq (merge_span (span_row_of cx org sid q trace i c) (span_row_of cx org sid' q' trace i c')) = (if c = c' then q' else q)
    \<and> tw_seq (merge_turn (turn_row_of cx org sid q trace d) (turn_row_of cx org sid' q' trace d')) = (if d = d' then q' else q)"
proof -
  have "pw_hash (span_row_of cx org sid' q' trace i c') = pw_hash (span_row_of cx org sid q trace i c) \<longleftrightarrow> c = c'"
    using assms(1) span_hash_input_eq [OF assms(2,3)] by (auto simp: span_row_of_def inj_eq)
  moreover have "tw_hash (turn_row_of cx org sid' q' trace d') = tw_hash (turn_row_of cx org sid q trace d) \<longleftrightarrow> d = d'"
    using assms(1) turn_hash_input_eq [OF assms(4,5)] by (auto simp: turn_row_of_def inj_eq)
  ultimately show ?thesis
    by (simp add: merge_span_def merge_turn_def) (simp add: span_row_of_def turn_row_of_def)
qed

definition sample_content :: "string \<Rightarrow> span_content" where
  "sample_content m =
     \<lparr>sc_parent = [], sc_kind = ''llm'', sc_name = ''n'', sc_status = ''ok'', sc_call_kind = ''main'', sc_thread_id = [], sc_model = m,
      sc_stop_reason = [], sc_started_at = 5, sc_duration_ns = 4, sc_seq = 0, sc_input = [], sc_output = [], sc_usage = [],
      sc_verdict = [], sc_raw_turn = Some 7, sc_node_hash = [], sc_fidelity = ''raw''\<rparr>"

theorem cursor_moves_iff_changed_witness:
  "pw_seq (merge_span (span_row_of (sample_codec id) (sample_uuid ''o'') (sample_uuid ''a'') 9 ''t'' ''i'' (sample_content ''x''))
                      (span_row_of (sample_codec id) (sample_uuid ''o'') (sample_uuid ''b'') 4 ''t'' ''i'' (sample_content ''y''))) = 9
   \<and> tw_seq (merge_turn (turn_row_of (sample_codec id) (sample_uuid ''o'') (sample_uuid ''a'') 9 ''t'' (turn_content_of (sample_turn ''a'' ''t'' []) zero_numeric []))
                      (turn_row_of (sample_codec id) (sample_uuid ''o'') (sample_uuid ''b'') 4 ''t'' (turn_content_of (sample_turn ''a'' ''t'' []) zero_numeric []))) = 4"
proof -
  have "sized_span (sample_content ''x'')" "sized_span (sample_content ''y'')"
    by (simp_all add: sized_span_def sample_content_def fits_bytes_def fits64_def)
  moreover have "sized_turn (turn_content_of (sample_turn ''a'' ''t'' []) zero_numeric [])"
    by (simp add: sized_turn_def sized_cost_def turn_content_of_def sample_turn_def zero_numeric_def fits_bytes_def fits64_def
      rollup_fidelity_def fidelity_unbacked_def time_sub_def magnitude_bytes.simps)
  moreover have "inj (sv_digest (sample_codec id))" by (simp add: sample_codec_def inj_def)
  ultimately show ?thesis
    using cursor_moves_iff_changed [of "sample_codec id" "sample_content ''x''" "sample_content ''y''"
      "turn_content_of (sample_turn ''a'' ''t'' []) zero_numeric []" "turn_content_of (sample_turn ''a'' ''t'' []) zero_numeric []"]
    by (simp add: sample_content_def)
qed

text \<open>A page of the change feed skips no pass. A page holds only rows past the reader's cursor whose
  pass is known to be over, in the order of their cursors; the next cursor stays below the bound, so
  a pass that commits later is not passed over; every visible row of a pass before the last one on
  the page is on the page; and a page that is not full holds every visible row. Only the rows of the
  pass the page's end cuts can be missed.\<close>

theorem feed_page_in_order:
  "let page = list_changed_span_turns collate org after xmin n rows; next = checkpoint after page
   in sorted (map tw_seq page)
      \<and> set page \<subseteq> set (visible_turns org after xmin rows)
      \<and> (if after < xmin then after \<le> next \<and> next < xmin else next = after)
      \<and> {r \<in> set (visible_turns org after xmin rows). tw_seq r < next} \<subseteq> set page
      \<and> (if length page < n then set (visible_turns org after xmin rows) = set page else True)"
proof -
  define vs where "vs = sort_key tw_seq (sort_key (\<lambda>r. collate (tw_trace r)) (visible_turns org after xmin rows))"
  define page where "page = take n vs"
  have s: "sorted (map tw_seq vs)" by (simp add: vs_def)
  have v: "set vs = set (visible_turns org after xmin rows)" by (simp add: vs_def)
  have p: "set page \<subseteq> set vs" by (simp add: page_def set_take_subset)
  have bounds: "after < tw_seq r" "tw_seq r < xmin" if "r \<in> set page" for r
    using that p v by (auto simp: visible_turns_def)
  have 1: "sorted (map tw_seq page)" using s by (simp add: page_def take_map [symmetric] sorted_wrt_take)
  have 2: "if after < xmin then after \<le> checkpoint after page \<and> checkpoint after page < xmin else checkpoint after page = after"
    using bounds [OF last_in_set [of page]] bounds [of "hd page"] by (cases "page = []") (auto simp: checkpoint_def)
  have 3: "{r \<in> set vs. tw_seq r < checkpoint after page} \<subseteq> set page"
  proof
    fix r
    assume r: "r \<in> {r \<in> set vs. tw_seq r < checkpoint after page}"
    show "r \<in> set page"
    proof (cases "page = []")
      case True
      with r v show ?thesis by (auto simp: checkpoint_def visible_turns_def)
    next
      case False
      with r take_sorted_prefix [OF s, of r n] show ?thesis by (simp add: page_def checkpoint_def)
    qed
  qed
  have 4: "if length page < n then set vs = set page else True"
    by (simp add: page_def min_def)
  show ?thesis
    unfolding Let_def feed_sorted vs_def [symmetric] page_def [symmetric]
    using 1 2 3 4 p unfolding v by blast
qed

end
