(* ===== verification/SessionReads.thy ===== *)
theory SessionReads
  imports SpanQueries
begin

text \<open>
  The reads, the rename and the deletion of sessions: \<open>pkg/storage/postgres/session_reads.go\<close>, the records and
  the sort allowlist of \<open>pkg/storage/session_record.go\<close>, and the statements they run.

  A session is the row ingest keeps of it, with the columns only these operations use; what the deriver
  owns of it is found in the projection under its id. The text form of a column and its cast back, the
  UUID and JSON libraries and the collation of the database are parameters.
\<close>

subsection \<open>Rows and columns\<close>

record stored_session = session_row +
  sd_ended_at :: "gotime option"
  sd_display_name :: "string option"

record session_db =
  sd_rows :: "stored_session list"
  sd_spans :: span_db

record sort_column =
  co_col :: string
  co_cast :: string

text \<open>The allowlist of sort fields; every column is \<open>NOT NULL\<close>.\<close>

definition sort_last_active :: string where "sort_last_active = ''last_active''"
definition sort_asc :: string where "sort_asc = ''asc''"
definition sort_desc :: string where "sort_desc = ''desc''"

definition session_sort_column :: "string \<Rightarrow> sort_column option" where
  "session_sort_column f =
     map_of [(sort_last_active, \<lparr>co_col = ''last_seen_at'', co_cast = ''timestamptz''\<rparr>),
             (''started_at'', \<lparr>co_col = ''started_at'', co_cast = ''timestamptz''\<rparr>),
             (''turn_count'', \<lparr>co_col = ''turn_count'', co_cast = ''bigint''\<rparr>),
             (''total_cost_usd'', \<lparr>co_col = ''total_cost_usd'', co_cast = ''numeric''\<rparr>),
             (''total_tokens'', \<lparr>co_col = ''total_tokens'', co_cast = ''bigint''\<rparr>),
             (''duration_ns'', \<lparr>co_col = ''duration_ns'', co_cast = ''bigint''\<rparr>),
             (''derived_status'', \<lparr>co_col = ''derived_status'', co_cast = ''text''\<rparr>),
             (''auth_subject'', \<lparr>co_col = ''auth_subject'', co_cast = ''text''\<rparr>)] f"

definition parse_session_sort_field :: "string \<Rightarrow> string option" where
  "parse_session_sort_field raw =
     (if raw = [] then Some sort_last_active else if session_sort_column raw \<noteq> None then Some raw else None)"

definition parse_sort_direction :: "string \<Rightarrow> string option" where
  "parse_sort_direction raw =
     (if raw = [] \<or> raw = sort_desc then Some sort_desc else if raw = sort_asc then Some sort_asc else None)"

datatype column_value = ColTime gotime | ColInt int | ColNum rat | ColText string

text \<open>The columns of the allowlist; two of them are generated from others.\<close>

definition column_of :: "string \<Rightarrow> session_rollup \<Rightarrow> stored_session \<Rightarrow> column_value" where
  "column_of col ro r =
     (if col = ''last_seen_at'' then ColTime (pg_time (sr_last_seen_at r))
      else if col = ''started_at'' then ColTime (pg_time (sr_started_at r))
      else if col = ''turn_count'' then ColInt (int (ro_turn_count ro))
      else if col = ''total_cost_usd'' then ColNum (ro_cost ro)
      else if col = ''total_tokens'' then ColInt (ro_input_tokens ro + ro_output_tokens ro)
      else if col = ''duration_ns'' then ColInt (pg_time (sr_last_seen_at r) - pg_time (sr_started_at r))
      else if col = ''derived_status'' then ColText (ro_status ro)
      else ColText (sr_auth_subject r))"

definition column_rank :: "(string \<Rightarrow> rat) \<Rightarrow> column_value \<Rightarrow> rat" where
  "column_rank collate v =
     (case v of ColTime t \<Rightarrow> of_int t | ColInt i \<Rightarrow> of_int i | ColNum q \<Rightarrow> q | ColText s \<Rightarrow> collate s)"

text \<open>UUIDs are ordered by their bytes.\<close>

definition uuid_rank :: "pg_uuid \<Rightarrow> rat" where
  "uuid_rank u = of_nat (foldl (\<lambda>n c. n * 256 + of_char c) 0 (uuid_bytes u))"

subsection \<open>Records\<close>

record session_record =
  se_id :: string
  se_harness_id :: string
  se_harness_session_id :: string
  se_name :: string
  se_display_name :: string
  se_derived_title :: string
  se_cwd :: string
  se_harness_version :: string
  se_parent_session_id :: string
  se_started_at :: gotime
  se_last_seen_at :: gotime
  se_ended_at :: "gotime option"
  se_harness_metadata :: "(string \<times> jval) list"
  se_input_tokens :: int
  se_output_tokens :: int
  se_total_cost :: rat
  se_turn_count :: nat
  se_derived_status :: string
  se_model :: string
  se_model_usage :: "model_usage list"
  se_tasks :: string
  se_kind_counts :: string
  se_preview :: string
  se_preview_is_json :: bool
  se_auth_subject :: string
  se_sort_val :: string

record session_env = read_env +
  rv_metadata :: "string \<Rightarrow> (string \<times> jval) list option" \<comment> \<open>a JSON object\<close>
  rv_model_usage :: "string \<Rightarrow> model_usage list option"
  rv_json_valid :: "string \<Rightarrow> bool"
  rv_column_text :: "column_value \<Rightarrow> string" \<comment> \<open>\<open>::text\<close>\<close>
  rv_cast :: "string \<Rightarrow> string \<Rightarrow> column_value option" \<comment> \<open>the cast of a text to a type\<close>
  rv_cast_uuid :: "string \<Rightarrow> string option"

definition opt_text :: "string option \<Rightarrow> string" where
  "opt_text t = (case t of None \<Rightarrow> [] | Some s \<Rightarrow> s)"

definition session_record_from_row :: "('e) session_env_scheme \<Rightarrow> session_rollup \<Rightarrow> stored_session \<Rightarrow> session_record" where
  "session_record_from_row env ro r =
     \<lparr>se_id = uuid_string (rv_render_uuid env) (sr_id r), se_harness_id = sr_harness_id r,
      se_harness_session_id = sr_harness_session_id r,
      se_name = (if opt_text (sr_name r) \<noteq> [] then opt_text (sr_name r) else opt_text (ro_title ro)),
      se_display_name = opt_text (sd_display_name r), se_derived_title = opt_text (ro_title ro),
      se_cwd = opt_text (sr_cwd r), se_harness_version = opt_text (sr_harness_version r),
      se_parent_session_id = (case sr_parent r of None \<Rightarrow> [] | Some p \<Rightarrow> uuid_string (rv_render_uuid env) p),
      se_started_at = pg_time (sr_started_at r), se_last_seen_at = pg_time (sr_last_seen_at r),
      se_ended_at = map_option pg_time (sd_ended_at r),
      se_harness_metadata = (if sr_metadata r = [] then [] else case rv_metadata env (sr_metadata r) of None \<Rightarrow> [] | Some m \<Rightarrow> m),
      se_input_tokens = ro_input_tokens ro, se_output_tokens = ro_output_tokens ro,
      se_total_cost = rv_round env (ro_cost ro), se_turn_count = ro_turn_count ro, se_derived_status = ro_status ro,
      se_model = ro_model ro,
      se_model_usage = (case rv_model_usage env (opt_text (ro_model_usage ro)) of None \<Rightarrow> []
        | Some mu \<Rightarrow> if opt_text (ro_model_usage ro) = [] then [] else mu),
      se_tasks = opt_text (ro_tasks ro), se_kind_counts = opt_text (ro_kind_counts ro),
      se_preview = [], se_preview_is_json = False, se_auth_subject = sr_auth_subject r, se_sort_val = []\<rparr>"

subsection \<open>Previews\<close>

definition session_preview_max_runes :: nat where "session_preview_max_runes = 120"

text \<open>The bytes of the first \<open>n\<close> runes of a valid text, and the number of its runes.\<close>

fun take_runes :: "nat \<Rightarrow> string \<Rightarrow> string" where
  "take_runes n [] = []"
| "take_runes n (c # cs) =
     (if rune_start c then (case n of 0 \<Rightarrow> [] | Suc m \<Rightarrow> c # take_runes m cs) else c # take_runes n cs)"

definition rune_count :: "string \<Rightarrow> nat" where
  "rune_count s = length (filter rune_start s)"

definition sql_trim :: "string \<Rightarrow> string" where
  "sql_trim s = rev (dropWhile (\<lambda>c. c = SP) (rev (dropWhile (\<lambda>c. c = SP) s)))"

definition genuine_turn :: "turn_row \<Rightarrow> bool" where
  "genuine_turn r \<longleftrightarrow> tc_synthetic (tw_content r) = [] \<and> sql_trim (tc_user_prompt (tw_content r)) \<noteq> []"

text \<open>\<open>DISTINCT ON (session_id)\<close>: the first row of the session in the order of the query.\<close>

definition session_preview :: "('e) session_env_scheme \<Rightarrow> pg_uuid \<Rightarrow> turn_row list \<Rightarrow> string \<times> bool" where
  "session_preview env sid rows =
     (case sort_key (\<lambda>r. if genuine_turn r then (0::int) else 1)
             (sort_key (\<lambda>r. pg_time (tc_started_at (tw_content r))) (filter (\<lambda>r. tw_session r = sid) rows)) of
        [] \<Rightarrow> ([], False)
      | r # _ \<Rightarrow>
          let text = go_trim_space (tc_user_prompt (tw_content r))
          in (if session_preview_max_runes < rune_count text then take_runes session_preview_max_runes text else text,
              rv_json_valid env text))"

definition attach_preview :: "('e) session_env_scheme \<Rightarrow> span_db \<Rightarrow> pg_uuid \<Rightarrow> session_record \<Rightarrow> session_record" where
  "attach_preview env spans sid rec =
     (let (text, json) = session_preview env sid (sb_turns spans)
      in rec\<lparr>se_preview := text, se_preview_is_json := json\<rparr>)"

definition full_record :: "('e) session_env_scheme \<Rightarrow> span_db \<Rightarrow> stored_session \<Rightarrow> session_record" where
  "full_record env spans r = attach_preview env spans (sr_id r) (session_record_from_row env (sb_rollups spans (sr_id r)) r)"

subsection \<open>Pages\<close>

definition default_list_limit :: int where "default_list_limit = 50"

record session_list_opts =
  lo_limit :: int
  lo_sort :: string
  lo_dir :: string
  lo_cursor :: "(string \<times> string) option" \<comment> \<open>text of the sort column and id of the last row\<close>
  lo_since :: "gotime option"
  lo_until :: "gotime option"
  lo_auth_subject :: string

definition active_in_window :: "pg_uuid \<Rightarrow> gotime option \<Rightarrow> gotime option \<Rightarrow> span_db \<Rightarrow> stored_session \<Rightarrow> bool" where
  "active_in_window org since until spans r \<longleftrightarrow>
     since = None \<and> until = None
     \<or> list_ex (\<lambda>t. tw_session t = sr_id r \<and> tw_org t = org \<and> in_window since until (pg_time (tc_started_at (tw_content t)))) (sb_turns spans)"

definition list_filter :: "pg_uuid \<Rightarrow> session_list_opts \<Rightarrow> span_db \<Rightarrow> stored_session \<Rightarrow> bool" where
  "list_filter org opts spans r \<longleftrightarrow>
     sr_org r = org \<and> active_in_window org (lo_since opts) (lo_until opts) spans r
     \<and> (lo_auth_subject opts = [] \<or> sr_auth_subject r = lo_auth_subject opts)"

text \<open>A rank in the direction of the listing, so that rows ascend in it.\<close>

definition directed :: "string \<Rightarrow> rat \<Rightarrow> rat" where
  "directed dir x = (if dir = sort_asc then x else - x)"

definition row_rank :: "('e) session_env_scheme \<Rightarrow> sort_column \<Rightarrow> string \<Rightarrow> span_db \<Rightarrow> stored_session \<Rightarrow> rat" where
  "row_rank env col dir spans r =
     directed dir (column_rank (rv_collate env) (column_of (co_col col) (sb_rollups spans (sr_id r)) r))"

definition id_rank :: "string \<Rightarrow> stored_session \<Rightarrow> rat" where
  "id_rank dir r = directed dir (uuid_rank (sr_id r))"

text \<open>The keyset predicate: strictly behind the cursor in the order of the listing.\<close>

definition behind :: "rat \<times> rat \<Rightarrow> rat \<Rightarrow> rat \<Rightarrow> bool" where
  "behind c v i \<longleftrightarrow> fst c < v \<or> fst c = v \<and> snd c < i"

definition cursor_rank :: "('e) session_env_scheme \<Rightarrow> sort_column \<Rightarrow> string \<Rightarrow> string \<times> string \<Rightarrow> (rat \<times> rat) option" where
  "cursor_rank env col dir c =
     (case (rv_cast env (co_cast col) (fst c), rv_cast_uuid env (snd c)) of
        (Some v, Some b) \<Rightarrow> Some (directed dir (column_rank (rv_collate env) v), directed dir (uuid_rank \<lparr>uuid_bytes = b, uuid_valid = True\<rparr>))
      | _ \<Rightarrow> None)"

definition list_order :: "('e) session_env_scheme \<Rightarrow> sort_column \<Rightarrow> string \<Rightarrow> span_db \<Rightarrow> stored_session list \<Rightarrow> stored_session list" where
  "list_order env col dir spans rows = sort_key (row_rank env col dir spans) (sort_key (id_rank dir) rows)"

definition with_sort_val :: "('e) session_env_scheme \<Rightarrow> sort_column \<Rightarrow> span_db \<Rightarrow> stored_session \<Rightarrow> session_record" where
  "with_sort_val env col spans r =
     (full_record env spans r)\<lparr>se_sort_val := rv_column_text env (column_of (co_col col) (sb_rollups spans (sr_id r)) r)\<rparr>"

definition list_session_records :: "('e) session_env_scheme \<Rightarrow> string \<Rightarrow> session_list_opts \<Rightarrow> session_db \<Rightarrow> string + session_record list" where
  "list_session_records env org opts db =
     and_then (org_id_from_string (rv_parse_uuid env) org) (\<lambda>oid.
       let limit = (if lo_limit opts \<le> 0 then default_list_limit else lo_limit opts);
           srt = (if lo_sort opts = [] then sort_last_active else lo_sort opts);
           dir = (if lo_dir opts = [] then sort_desc else lo_dir opts)
       in case session_sort_column srt of
            None \<Rightarrow> Inl ''invalid sort field''
          | Some col \<Rightarrow>
              let rows = filter (list_filter oid opts (sd_spans db)) (sd_rows db);
                  page = (\<lambda>rs. Inr (map (with_sort_val env col (sd_spans db)) (take (nat limit) (list_order env col dir (sd_spans db) rs))))
              in case lo_cursor opts of
                   None \<Rightarrow> page rows
                 | Some c \<Rightarrow>
                     (case cursor_rank env col dir c of
                        None \<Rightarrow> Inl ''invalid cursor value''
                      | Some cr \<Rightarrow> page (filter (\<lambda>r. behind cr (row_rank env col dir (sd_spans db) r) (id_rank dir r)) rows)))"

subsection \<open>Single sessions\<close>

definition parsed_id :: "('e) session_env_scheme \<Rightarrow> string \<Rightarrow> pg_uuid option" where
  "parsed_id env s = map_option (\<lambda>b. \<lparr>uuid_bytes = b, uuid_valid = True\<rparr>) (rv_parse_uuid env s)"

definition get_session_record :: "('e) session_env_scheme \<Rightarrow> string \<Rightarrow> string \<Rightarrow> session_db \<Rightarrow> string + session_record option" where
  "get_session_record env org i db =
     and_then (org_id_from_string (rv_parse_uuid env) org) (\<lambda>oid.
       case parsed_id env i of
         None \<Rightarrow> Inl ''invalid id''
       | Some sid \<Rightarrow> Inr (map_option (full_record env (sd_spans db)) (find (\<lambda>r. sr_org r = oid \<and> sr_id r = sid) (sd_rows db))))"

definition get_session_record_by_harness ::
  "('e) session_env_scheme \<Rightarrow> string \<Rightarrow> string \<Rightarrow> string \<Rightarrow> session_db \<Rightarrow> string + session_record option"
where
  "get_session_record_by_harness env org h s db =
     and_then (org_id_from_string (rv_parse_uuid env) org) (\<lambda>oid.
       Inr (map_option (full_record env (sd_spans db))
         (find (\<lambda>r. sr_org r = oid \<and> sr_harness_id r = h \<and> sr_harness_session_id r = s) (sd_rows db))))"

definition list_session_records_by_harness_session_id ::
  "('e) session_env_scheme \<Rightarrow> string \<Rightarrow> string \<Rightarrow> session_db \<Rightarrow> string + session_record list"
where
  "list_session_records_by_harness_session_id env org s db =
     and_then (org_id_from_string (rv_parse_uuid env) org) (\<lambda>oid.
       Inr (map (full_record env (sd_spans db))
         (sort_key (\<lambda>r. rv_collate env (sr_harness_id r))
           (filter (\<lambda>r. sr_org r = oid \<and> sr_harness_session_id r = s) (sd_rows db)))))"

text \<open>The rename: the number of rows it changed.\<close>

definition update_session_display_name ::
  "('e) session_env_scheme \<Rightarrow> string \<Rightarrow> string \<Rightarrow> string option \<Rightarrow> session_db \<Rightarrow> string + nat \<times> session_db"
where
  "update_session_display_name env org i name db =
     and_then (org_id_from_string (rv_parse_uuid env) org) (\<lambda>oid.
       case parsed_id env i of
         None \<Rightarrow> Inl ''invalid id''
       | Some sid \<Rightarrow>
           let hit = (\<lambda>r. sr_id r = sid \<and> sr_org r = oid)
           in Inr (length (filter hit (sd_rows db)),
                   db\<lparr>sd_rows := map (\<lambda>r. if hit r then r\<lparr>sd_display_name := name\<rparr> else r) (sd_rows db)\<rparr>))"

text \<open>\<open>ON DELETE CASCADE\<close>: the children of a deleted session and theirs, then all their spans.\<close>

definition with_children :: "stored_session list \<Rightarrow> pg_uuid list \<Rightarrow> pg_uuid list" where
  "with_children rows ids =
     map sr_id (filter (\<lambda>r. sr_id r \<in> set ids \<or> (case sr_parent r of None \<Rightarrow> False | Some p \<Rightarrow> p \<in> set ids)) rows)"

fun cascade_ids :: "nat \<Rightarrow> stored_session list \<Rightarrow> pg_uuid list \<Rightarrow> pg_uuid list" where
  "cascade_ids 0 rows ids = ids"
| "cascade_ids (Suc n) rows ids = cascade_ids n rows (with_children rows ids)"

definition without_sessions :: "pg_uuid list \<Rightarrow> span_db \<Rightarrow> span_db" where
  "without_sessions ids db =
     (let gone = map turn_row_key (filter (\<lambda>r. tw_session r \<in> set ids) (sb_turns db))
      in db\<lparr>sb_turns := filter (\<lambda>r. tw_session r \<notin> set ids) (sb_turns db),
            sb_spans := filter (\<lambda>r. pw_session r \<notin> set ids \<and> TurnKey (pw_org r) (pw_trace r) \<notin> set gone) (sb_spans db),
            sb_links := filter (\<lambda>r. lw_session r \<notin> set ids) (sb_links db)\<rparr>)"

definition delete_session :: "('e) session_env_scheme \<Rightarrow> string \<Rightarrow> string \<Rightarrow> session_db \<Rightarrow> string + bool \<times> session_db" where
  "delete_session env org i db =
     and_then (org_id_from_string (rv_parse_uuid env) org) (\<lambda>oid.
       case parsed_id env i of
         None \<Rightarrow> Inr (False, db)
       | Some sid \<Rightarrow>
           let ids = map sr_id (filter (\<lambda>r. sr_org r = oid \<and> sr_id r = sid) (sd_rows db));
               doomed = cascade_ids (length (sd_rows db)) (sd_rows db) ids
           in Inr (ids \<noteq> [],
                   db\<lparr>sd_rows := filter (\<lambda>r. sr_id r \<notin> set doomed) (sd_rows db), sd_spans := without_sessions doomed (sd_spans db)\<rparr>))"

end
