(* ===== verification/SessionApi.thy ===== *)
theory SessionApi
  imports SessionReads
begin

text \<open>
  The session handlers of \<open>api/sessions_handlers.go\<close> over the driver's reads: query parameters to a reply.

  A reply is a status with a body. The JSON of a request body, the cursor's token (base64url of JSON) and
  RFC 3339 times are parameters; \<open>now\<close> is the reading of the clock while the request is served.
\<close>

subsection \<open>Items\<close>

record session_item =
  it_record :: session_record \<comment> \<open>the fields copied from the record\<close>
  it_display_title :: string
  it_live :: bool
  it_tasks :: "task list"
  it_kind_counts :: "(string \<times> int) list"

record api_env = session_env +
  av_encode_cursor :: "string \<times> string \<times> string \<times> string \<Rightarrow> string" \<comment> \<open>sort, direction, value, id\<close>
  av_decode_cursor :: "string \<Rightarrow> (string \<times> string \<times> string \<times> string) option"
  av_parse_rfc3339 :: "string \<Rightarrow> gotime option"
  av_tasks :: "string \<Rightarrow> task list"
  av_kind_counts :: "string \<Rightarrow> (string \<times> int) list"
  av_body :: "string \<Rightarrow> (string \<times> jval) list option" \<comment> \<open>a request body that is an object\<close>

definition looks_like_json_preview :: "('e) api_env_scheme \<Rightarrow> string \<Rightarrow> bool" where
  "looks_like_json_preview env s =
     (let t = dropWhile (\<lambda>c. c \<in> {SP, CHR 0x09, CHR 0x0D, LF}) s
      in (has_prefix t ''{'' \<or> has_prefix t ''['') \<and> rv_json_valid env t)"

definition short_harness_session_id :: "string \<Rightarrow> string" where
  "short_harness_session_id i = (if length i \<le> 12 then i else take 12 i)"

definition resolve_session_display_title :: "('e) api_env_scheme \<Rightarrow> session_record \<Rightarrow> string" where
  "resolve_session_display_title env s =
     (if go_trim_space (se_display_name s) \<noteq> [] then go_trim_space (se_display_name s)
      else if go_trim_space (se_derived_title s) \<noteq> [] then go_trim_space (se_derived_title s)
      else if go_trim_space (se_preview s) \<noteq> [] \<and> \<not> se_preview_is_json s
              \<and> \<not> looks_like_json_preview env (go_trim_space (se_preview s)) then go_trim_space (se_preview s)
      else if go_trim_space (se_name s) \<noteq> [] then go_trim_space (se_name s)
      else if short_harness_session_id (se_harness_session_id s) \<noteq> [] then short_harness_session_id (se_harness_session_id s)
      else se_id s)"

definition session_live_window :: duration where "session_live_window = 5 * 60 * 1000000000"

definition session_item_from_storage :: "('e) api_env_scheme \<Rightarrow> gotime \<Rightarrow> session_record \<Rightarrow> session_item" where
  "session_item_from_storage env now s =
     \<lparr>it_record = s, it_display_title = resolve_session_display_title env s,
      it_live = (se_ended_at s = None \<and> time_sub now (se_last_seen_at s) < session_live_window),
      it_tasks = (if se_tasks s = [] then [] else av_tasks env (se_tasks s)),
      it_kind_counts = (if se_kind_counts s = [] then [] else av_kind_counts env (se_kind_counts s))\<rparr>"

subsection \<open>Replies\<close>

datatype api_body =
    ApiError string
  | SessionList "session_item list" string \<comment> \<open>items and the next cursor\<close>
  | SessionDetail session_item
  | NoContent

type_synonym api_reply = "nat \<times> api_body"

definition api_error :: "nat \<Rightarrow> string \<Rightarrow> api_reply" where
  "api_error status msg = (status, ApiError msg)"

text \<open>A chain of checks: the first that fails is the reply.\<close>

definition check :: "bool \<Rightarrow> string \<Rightarrow> api_reply \<Rightarrow> api_reply" where
  "check ok msg rest = (if ok then rest else api_error 400 msg)"

definition require :: "'a option \<Rightarrow> string \<Rightarrow> ('a \<Rightarrow> api_reply) \<Rightarrow> api_reply" where
  "require x msg f = (case x of None \<Rightarrow> api_error 400 msg | Some v \<Rightarrow> f v)"

definition served :: "string + 'a \<Rightarrow> string \<Rightarrow> ('a \<Rightarrow> api_reply) \<Rightarrow> api_reply" where
  "served r msg f = (case r of Inl _ \<Rightarrow> api_error 500 msg | Inr v \<Rightarrow> f v)"

subsection \<open>Listing\<close>

definition default_sessions_limit :: int where "default_sessions_limit = 50"
definition max_sessions_limit :: int where "max_sessions_limit = 200"
definition max_session_name_length :: nat where "max_session_name_length = 200"
definition single_tenant_org_id :: string where "single_tenant_org_id = ''00000000-0000-0000-0000-000000000000''"

record list_query =
  lq_limit :: string
  lq_sort :: string
  lq_direction :: string
  lq_cursor :: string
  lq_since :: string
  lq_until :: string
  lq_auth_subject :: string
  lq_harness_id :: string
  lq_harness_session_id :: string

text \<open>\<open>strconv.Atoi\<close>: an optional sign and digits, within 64 bits.\<close>

definition parse_int :: "string \<Rightarrow> int option" where
  "parse_int s =
     (let (sg, ds) = (case s of [] \<Rightarrow> (1, []) | c # cs \<Rightarrow>
            if c = CHR ''-'' then (-1, cs) else if c = CHR ''+'' then (1, cs) else (1, s));
          v = sg * foldl (\<lambda>n c. n * 10 + (int (of_char c) - 48)) 0 ds
      in if ds = [] \<or> \<not> list_all is_digit ds \<or> \<not> int64_ok v then None else Some v)"

definition query_limit :: "string \<Rightarrow> int option" where
  "query_limit raw =
     (if raw = [] then Some default_sessions_limit
      else case parse_int raw of None \<Rightarrow> None
           | Some v \<Rightarrow> if v \<le> 0 then None else Some (min v max_sessions_limit))"

definition query_time :: "('e) api_env_scheme \<Rightarrow> string \<Rightarrow> gotime option option" where
  "query_time env raw = (if raw = [] then Some None else map_option Some (av_parse_rfc3339 env raw))"

definition decode_sessions_cursor :: "('e) api_env_scheme \<Rightarrow> string \<Rightarrow> (string \<times> string \<times> string \<times> string) option" where
  "decode_sessions_cursor env token =
     (case av_decode_cursor env token of
        None \<Rightarrow> None
      | Some (srt, dir, val, i) \<Rightarrow> if i = [] \<or> srt = [] \<or> dir = [] then None else Some (srt, dir, val, i))"

text \<open>The boundary a cursor stands for, under the sort of the request.\<close>

definition query_cursor ::
  "('e) api_env_scheme \<Rightarrow> string \<Rightarrow> string \<Rightarrow> string \<Rightarrow> ((string \<times> string) option \<Rightarrow> api_reply) \<Rightarrow> api_reply"
where
  "query_cursor env srt dir raw f =
     (if raw = [] then f None
      else require (decode_sessions_cursor env raw) ''invalid cursor'' (\<lambda>(csrt, cdir, val, i).
        check (csrt = srt \<and> cdir = dir) ''cursor does not match sort/direction''
          (check (\<not> (map_option co_cast (session_sort_column srt) \<noteq> Some ''text'' \<and> val = []))
             ''invalid cursor: empty boundary value'' (f (Some (val, i))))))"

definition list_page_reply :: "('e) api_env_scheme \<Rightarrow> gotime \<Rightarrow> nat \<Rightarrow> string \<Rightarrow> string \<Rightarrow> session_record list \<Rightarrow> api_reply" where
  "list_page_reply env now limit srt dir recs =
     (let page = take limit recs;
          token = (if limit < length recs
                   then av_encode_cursor env (srt, dir, se_sort_val (last page), se_id (last page)) else [])
      in (200, SessionList (map (session_item_from_storage env now) page) token))"

definition list_sessions_by_harness :: "('e) api_env_scheme \<Rightarrow> gotime \<Rightarrow> list_query \<Rightarrow> session_db \<Rightarrow> api_reply" where
  "list_sessions_by_harness env now q db =
     check (lq_harness_session_id q \<noteq> []) ''harness_id requires harness_session_id''
     (check (lq_cursor q = []) ''cursor cannot be combined with the harness filter''
     (let unsupported = map fst (filter (\<lambda>(_, v). v \<noteq> [])
            [(''sort'', lq_sort q), (''direction'', lq_direction q), (''since'', lq_since q), (''until'', lq_until q)])
      in check (unsupported = []) (go_join unsupported '', '' @ '' cannot be combined with the harness filter'')
         (if lq_harness_id q = []
          then served (list_session_records_by_harness_session_id env single_tenant_org_id (lq_harness_session_id q) db)
                 ''failed to list sessions'' (\<lambda>recs. (200, SessionList (map (session_item_from_storage env now) recs) []))
          else served (get_session_record_by_harness env single_tenant_org_id (lq_harness_id q) (lq_harness_session_id q) db)
                 ''failed to list sessions''
                 (\<lambda>r. (200, SessionList (case r of None \<Rightarrow> [] | Some rec \<Rightarrow> [session_item_from_storage env now rec]) [])))))"

definition handle_list_sessions :: "('e) api_env_scheme \<Rightarrow> gotime \<Rightarrow> list_query \<Rightarrow> session_db \<Rightarrow> api_reply" where
  "handle_list_sessions env now q db =
     (if lq_harness_id q \<noteq> [] \<or> lq_harness_session_id q \<noteq> [] then list_sessions_by_harness env now q db
      else require (query_limit (lq_limit q)) ''limit must be a positive integer'' (\<lambda>limit.
        require (parse_session_sort_field (lq_sort q)) ''invalid sort field'' (\<lambda>srt.
        require (parse_sort_direction (lq_direction q)) ''invalid direction'' (\<lambda>dir.
        query_cursor env srt dir (lq_cursor q) (\<lambda>cursor.
        require (query_time env (lq_since q)) ''since must be an RFC3339 timestamp'' (\<lambda>since.
        require (query_time env (lq_until q)) ''until must be an RFC3339 timestamp'' (\<lambda>until.
        served (list_session_records env single_tenant_org_id
                  \<lparr>lo_limit = limit + 1, lo_sort = srt, lo_dir = dir, lo_cursor = cursor, lo_since = since,
                   lo_until = until, lo_auth_subject = lq_auth_subject q\<rparr> db)
          ''failed to list sessions'' (list_page_reply env now (nat limit) srt dir))))))))"

subsection \<open>One session\<close>

definition with_session_id :: "('e) api_env_scheme \<Rightarrow> string \<Rightarrow> (unit \<Rightarrow> 'a) \<Rightarrow> (api_reply \<Rightarrow> 'a) \<Rightarrow> 'a" where
  "with_session_id env i f g =
     (if i = [] then g (api_error 400 ''id parameter required'')
      else if rv_parse_uuid env i = None then g (api_error 400 ''id must be a valid UUID'') else f ())"

definition session_detail :: "('e) api_env_scheme \<Rightarrow> gotime \<Rightarrow> string \<Rightarrow> string + session_record option \<Rightarrow> api_reply" where
  "session_detail env now msg r =
     served r msg (\<lambda>s. case s of None \<Rightarrow> api_error 404 ''session not found''
                       | Some rec \<Rightarrow> (200, SessionDetail (session_item_from_storage env now rec)))"

definition handle_get_session :: "('e) api_env_scheme \<Rightarrow> gotime \<Rightarrow> string \<Rightarrow> session_db \<Rightarrow> api_reply" where
  "handle_get_session env now i db =
     with_session_id env i
       (\<lambda>_. session_detail env now ''failed to load session'' (get_session_record env single_tenant_org_id i db)) id"

definition handle_delete_session :: "('e) api_env_scheme \<Rightarrow> string \<Rightarrow> session_db \<Rightarrow> api_reply \<times> session_db" where
  "handle_delete_session env i db =
     with_session_id env i
       (\<lambda>_. case delete_session env single_tenant_org_id i db of
              Inl _ \<Rightarrow> (api_error 500 ''failed to delete session'', db)
            | Inr (deleted, db') \<Rightarrow>
                (if deleted then (204, NoContent) else api_error 404 ''session not found'', db'))
       (\<lambda>r. (r, db))"

text \<open>The new title of a rename, none to clear it.\<close>

definition normalized_name :: "jval \<Rightarrow> (nat \<times> string) + string option" where
  "normalized_name v =
     (case v of
        JNull \<Rightarrow> Inr None
      | JStr s \<Rightarrow>
          (let t = go_trim_space s
           in if t = [] then Inr None
              else if max_session_name_length < rune_count t then Inl (400, ''display_name must be at most 200 characters'')
              else Inr (Some t))
      | _ \<Rightarrow> Inl (400, ''display_name must be a string or null''))"

definition handle_update_session :: "('e) api_env_scheme \<Rightarrow> gotime \<Rightarrow> string \<Rightarrow> string \<Rightarrow> session_db \<Rightarrow> api_reply \<times> session_db" where
  "handle_update_session env now i body db =
     with_session_id env i
       (\<lambda>_. case av_body env body of
              None \<Rightarrow> (api_error 400 ''invalid request body'', db)
            | Some obj \<Rightarrow>
                (case map_of obj ''display_name'' of
                   None \<Rightarrow> (api_error 400 ''display_name is required'', db)
                 | Some v \<Rightarrow>
                     (case normalized_name v of
                        Inl (st, msg) \<Rightarrow> (api_error st msg, db)
                      | Inr name \<Rightarrow>
                          (case update_session_display_name env single_tenant_org_id i name db of
                             Inl _ \<Rightarrow> (api_error 500 ''failed to update session'', db)
                           | Inr (n, db') \<Rightarrow>
                               if n = 0 then (api_error 404 ''session not found'', db')
                               else (session_detail env now ''failed to update session''
                                       (get_session_record env single_tenant_org_id i db'), db')))))
       (\<lambda>r. (r, db))"

end
