(* ===== verification/AttributionRepair.thy ===== *)
theory AttributionRepair
  imports RawStore
begin

text \<open>
  Correcting the session of a captured turn: \<open>pkg/storage/postgres/raw_turn_attribution_repair.go\<close>, the
  requests and results of \<open>pkg/storage/raw_turn.go\<close>, the statements it runs, and the handler of
  \<open>api/admin_handlers.go\<close>.

  A correction is appended beside the immutable turn; the last one of a turn is its effective attribution.
  The repair reads the attribution, takes the locks of both sessions, reads it again under them and
  starts over when it has changed, so it works on a sequence of states that other transactions
  leave it. Rebuilding a projection, the clean-up and the second mark may each fail: whether they do is
  an argument.
\<close>

subsection \<open>Requests and results\<close>

record attribution =
  at_raw_turn :: int
  at_harness :: string
  at_session :: string
  at_thread :: string
  at_parent :: "string option"

record repair_request =
  rq_org_id :: string
  rq_raw_turn :: int
  rq_proxy_request :: string
  rq_harness :: string
  rq_session :: string
  rq_thread :: string
  rq_parent :: "string option"
  rq_reason :: string

type_synonym repair_key = "string \<times> string" \<comment> \<open>harness and session\<close>

record repair_result =
  re_recorded :: bool
  re_previous :: attribution
  re_effective :: attribution
  re_pending :: "repair_key list"
  re_cleanup_pending :: bool

datatype repair_failure =
    RepairInvalid string
  | RepairNotFound
  | RepairAmbiguous
  | RepairFault string

record correction =
  cr_org :: pg_uuid
  cr_raw_turn :: int
  cr_harness :: string
  cr_session :: string
  cr_thread :: string
  cr_parent :: "string option"
  cr_reason :: string

record repair_db =
  rd_raw :: raw_db
  rd_corrections :: "correction list"

text \<open>Reads of stored JSON: a thread, a parent, a proxy request id.\<close>

record repair_env = store_env +
  ae_thread :: "string \<Rightarrow> string option"
  ae_parent :: "string \<Rightarrow> string option"
  ae_proxy_request :: "string \<Rightarrow> string option"

abbreviation store_of :: "repair_env \<Rightarrow> store_env" where
  "store_of env \<equiv> store_env.truncate env"

subsection \<open>Effective attribution\<close>

definition latest_correction :: "pg_uuid \<Rightarrow> int \<Rightarrow> correction list \<Rightarrow> correction option" where
  "latest_correction org i cs = find_last (\<lambda>c. cr_org c = org \<and> cr_raw_turn c = i) cs"

definition find_raw :: "pg_uuid \<Rightarrow> int \<Rightarrow> raw_row list \<Rightarrow> raw_row option" where
  "find_raw org i rows = find (\<lambda>r. rw_org r = org \<and> rw_id r = i) rows"

definition pointer_value :: "string option \<Rightarrow> string" where
  "pointer_value p = (case p of None \<Rightarrow> [] | Some s \<Rightarrow> s)"

definition pointer_from_string :: "string \<Rightarrow> string option" where
  "pointer_from_string s = (if s = [] then None else Some s)"

text \<open>\<open>GetRawTurnAttributionForUpdate\<close> with \<open>attributionFromRow\<close>.\<close>

definition effective_attribution :: "repair_env \<Rightarrow> correction list \<Rightarrow> raw_row \<Rightarrow> attribution" where
  "effective_attribution env cs r =
     (let put = rw_put r in
      case latest_correction (rw_org r) (rw_id r) cs of
        None \<Rightarrow> \<lparr>at_raw_turn = rw_id r, at_harness = rt_harness_id put, at_session = rt_harness_session_id put,
                 at_thread = (case ae_thread env (rt_meta put) of None \<Rightarrow> [] | Some t \<Rightarrow> t),
                 at_parent = pointer_from_string (pointer_value (ae_parent env (rt_session_envelope put)))\<rparr>
      | Some c \<Rightarrow> \<lparr>at_raw_turn = rw_id r, at_harness = cr_harness c, at_session = cr_session c, at_thread = cr_thread c,
                  at_parent = pointer_from_string (pointer_value (cr_parent c))\<rparr>)"

definition same_attribution :: "attribution \<Rightarrow> attribution \<Rightarrow> bool" where
  "same_attribution a b \<longleftrightarrow>
     at_harness a = at_harness b \<and> at_session a = at_session b \<and> at_thread a = at_thread b
     \<and> pointer_value (at_parent a) = pointer_value (at_parent b)"

definition requested_attribution :: "repair_request \<Rightarrow> int \<Rightarrow> attribution" where
  "requested_attribution rq i =
     \<lparr>at_raw_turn = i, at_harness = rq_harness rq, at_session = rq_session rq, at_thread = rq_thread rq, at_parent = rq_parent rq\<rparr>"

subsection \<open>Selecting the turn\<close>

definition validate_attribution_repair :: "repair_request \<Rightarrow> repair_failure option" where
  "validate_attribution_repair rq =
     (if (0 < rq_raw_turn rq) = (go_trim_space (rq_proxy_request rq) \<noteq> [])
      then Some (RepairInvalid ''exactly one of raw_turn_id or paper_proxy_request_id is required'')
      else if rq_harness rq = [] then Some (RepairInvalid ''harness_id is required'')
      else if rq_session rq = [] then Some (RepairInvalid ''harness_session_id is required'')
      else if rq_parent rq = Some [] then Some (RepairInvalid ''parent_harness_session_id must be omitted instead of empty'')
      else if rq_parent rq = Some (rq_session rq) then Some (RepairInvalid ''a session cannot parent itself'')
      else if go_trim_space (rq_reason rq) = [] then Some (RepairInvalid ''reason is required'')
      else None)"

definition raw_turn_ids_by_proxy_request :: "repair_env \<Rightarrow> pg_uuid \<Rightarrow> string \<Rightarrow> raw_row list \<Rightarrow> int list" where
  "raw_turn_ids_by_proxy_request env org p rows =
     take 2 (sort (map rw_id (filter (\<lambda>r. rw_org r = org \<and> ae_proxy_request env (rt_session_envelope (rw_put r)) = Some p) rows)))"

definition resolve_repair_raw_turn_id :: "repair_env \<Rightarrow> pg_uuid \<Rightarrow> repair_request \<Rightarrow> repair_db \<Rightarrow> repair_failure + int" where
  "resolve_repair_raw_turn_id env org rq db =
     (if 0 < rq_raw_turn rq then Inr (rq_raw_turn rq)
      else case raw_turn_ids_by_proxy_request env org (rq_proxy_request rq) (db_turns (rd_raw db)) of
             [] \<Rightarrow> Inl RepairNotFound | [i] \<Rightarrow> Inr i | _ \<Rightarrow> Inl RepairAmbiguous)"

subsection \<open>Locks\<close>

text \<open>The keys of the locks, each once, in the order of \<open>harness NUL session\<close>.\<close>

definition repair_key_text :: "repair_key \<Rightarrow> string" where
  "repair_key_text k = fst k @ [CHR 0x00] @ snd k"

definition byte_values :: "string \<Rightarrow> nat list" where
  "byte_values s = map of_char s"

definition repair_lock_order :: "repair_key \<Rightarrow> repair_key \<Rightarrow> repair_key list" where
  "repair_lock_order a b =
     (if a = b then [a]
      else if (repair_key_text b, repair_key_text a) \<in> lexord {(x, y). (of_char x :: nat) < of_char y} then [b, a] else [a, b])"

text \<open>Acquiring them one after the other; the \<open>n\<close>-th may fail, then those taken are released in reverse.\<close>

datatype lock_event = LockTaken repair_key | LockReleased repair_key

definition release_all :: "repair_key list \<Rightarrow> lock_event list" where
  "release_all taken = map LockReleased (rev taken)"

fun acquire_repair_locks :: "(repair_key \<Rightarrow> bool) \<Rightarrow> repair_key list \<Rightarrow> repair_key list \<Rightarrow> lock_event list \<times> bool" where
  "acquire_repair_locks ok [] taken = ([], True)"
| "acquire_repair_locks ok (k # ks) taken =
     (if ok k then (let (es, b) = acquire_repair_locks ok ks (taken @ [k]) in (LockTaken k # es, b))
      else (release_all taken, False))"

subsection \<open>Recording a correction\<close>

definition set_session_parent :: "pg_uuid option \<Rightarrow> pg_uuid \<Rightarrow> session_row list \<Rightarrow> session_row list" where
  "set_session_parent parent i ss = map (\<lambda>s. if sr_id s = i then s\<lparr>sr_parent := parent\<rparr> else s) ss"

definition repair_queue_key :: "repair_env \<Rightarrow> pg_uuid \<Rightarrow> repair_key \<Rightarrow> harness_key" where
  "repair_queue_key env org k = HKey (uuid_string (se_render_uuid env) org) (fst k) (snd k)"

definition repaired_envelope :: "repair_request \<Rightarrow> ingest_envelope \<Rightarrow> ingest_envelope" where
  "repaired_envelope rq en =
     en\<lparr>en_org_id := rq_org_id rq, en_harness_id := rq_harness rq, en_harness_session_id := rq_session rq,
        en_parent_harness_session_id := rq_parent rq\<rparr>"

text \<open>The transaction: nothing when the turn's session is not the one whose lock is held.\<close>

definition record_attribution_repair ::
  "repair_env \<Rightarrow> gotime \<Rightarrow> pg_uuid \<Rightarrow> int \<Rightarrow> repair_request \<Rightarrow> repair_key \<Rightarrow> repair_db \<Rightarrow>
   repair_failure + (repair_result \<times> repair_db) option"
where
  "record_attribution_repair env now org i rq locked db =
     (case find_raw org i (db_turns (rd_raw db)) of
        None \<Rightarrow> Inl RepairNotFound
      | Some row \<Rightarrow>
          let previous = effective_attribution env (rd_corrections db) row; effective = requested_attribution rq i
          in if (at_harness previous, at_session previous) \<noteq> locked then Inr None
             else case (if rt_session_envelope (rw_put row) = [] then Some empty_envelope
                        else se_envelope env (rt_session_envelope (rw_put row))) of
                    None \<Rightarrow> Inl (RepairFault ''decode raw session envelope'')
                  | Some en0 \<Rightarrow>
                      let en = repaired_envelope rq en0; captured = rt_received_at (rw_put row)
                      in case and_then (resolve_parent_session_id (store_of env) en org captured (rd_raw db)) (\<lambda>(parent, db1).
                                and_then (new_app_uuid (store_of env) db1) (\<lambda>(u, db2). Inr (parent, u, db2))) of
                           Inl _ \<Rightarrow> Inl (RepairFault ''resolve repaired session'')
                         | Inr (parent, u, db2) \<Rightarrow>
                             let new = envelope_session u org en (rq_session rq) parent captured captured;
                                 ss = upsert_row (merge_transcript_session (store_of env)) new (db_sessions db2);
                                 ss1 = (case find_session (session_key_of new) ss of
                                          None \<Rightarrow> ss | Some target \<Rightarrow> set_session_parent parent (sr_id target) ss);
                                 recorded = (\<not> same_attribution previous effective);
                                 queue = fold (\<lambda>k. mark_derive_dirty now (repair_queue_key env org k))
                                           [locked, (rq_harness rq, rq_session rq)] (db_queue db2)
                             in Inr (Some
                                  (\<lparr>re_recorded = recorded, re_previous = previous, re_effective = effective,
                                    re_pending = [], re_cleanup_pending = False\<rparr>,
                                   db\<lparr>rd_raw := db2\<lparr>db_sessions := ss1, db_queue := queue\<rparr>,
                                      rd_corrections := (if recorded
                                        then rd_corrections db @ [\<lparr>cr_org = org, cr_raw_turn = i, cr_harness = rq_harness rq,
                                               cr_session = rq_session rq, cr_thread = rq_thread rq, cr_parent = rq_parent rq,
                                               cr_reason = rq_reason rq\<rparr>]
                                        else rd_corrections db)\<rparr>)))"

subsection \<open>After the correction\<close>

text \<open>\<open>DeleteEmptyUnreferencedSession\<close>: no turn is effectively in the session and no session has it as parent.\<close>

definition effective_key :: "repair_env \<Rightarrow> correction list \<Rightarrow> raw_row \<Rightarrow> repair_key" where
  "effective_key env cs r = (let a = effective_attribution env cs r in (at_harness a, at_session a))"

definition delete_empty_unreferenced :: "repair_env \<Rightarrow> pg_uuid \<Rightarrow> repair_key \<Rightarrow> repair_db \<Rightarrow> repair_db" where
  "delete_empty_unreferenced env org k db =
     (let raw = rd_raw db;
          gone = (\<lambda>s. sr_org s = org \<and> (sr_harness_id s, sr_harness_session_id s) = k
                      \<and> \<not> list_ex (\<lambda>r. rw_org r = org \<and> effective_key env (rd_corrections db) r = k) (db_turns raw)
                      \<and> \<not> list_ex (\<lambda>c. sr_parent c = Some (sr_id s)) (db_sessions raw))
      in db\<lparr>rd_raw := raw\<lparr>db_sessions := filter (\<lambda>s. \<not> gone s) (db_sessions raw)\<rparr>\<rparr>)"

record repair_luck =
  lu_lock :: "repair_key \<Rightarrow> bool"
  lu_rederive :: "repair_key \<Rightarrow> bool"
  lu_cleanup :: bool
  lu_mark :: "repair_key \<Rightarrow> bool"

definition settle_repair ::
  "repair_env \<Rightarrow> gotime \<Rightarrow> pg_uuid \<Rightarrow> repair_luck \<Rightarrow> repair_key \<Rightarrow> repair_key \<Rightarrow> repair_result \<times> repair_db \<Rightarrow> repair_result \<times> repair_db"
where
  "settle_repair env now org lu old new rd =
     (let (res, db) = rd;
          clean = lu_rederive lu old \<and> old \<noteq> new;
          db1 = (if clean \<and> lu_cleanup lu then delete_empty_unreferenced env org old db else db);
          pending = (if lu_rederive lu old then [] else [old]) @ (if old = new \<or> lu_rederive lu new then [] else [new]);
          marked = filter (lu_mark lu) pending
      in (res\<lparr>re_pending := pending, re_cleanup_pending := (clean \<and> \<not> lu_cleanup lu)\<rparr>,
          db1\<lparr>rd_raw := (rd_raw db1)\<lparr>db_queue := fold (\<lambda>k. mark_derive_dirty now (repair_queue_key env org k)) marked (db_queue (rd_raw db1))\<rparr>\<rparr>))"

text \<open>A round: the state the attribution is read in, and the state the transaction finds under the locks. None
  when the last of the rounds still has to be repeated.\<close>

fun repair_rounds ::
  "repair_env \<Rightarrow> gotime \<Rightarrow> pg_uuid \<Rightarrow> int \<Rightarrow> repair_request \<Rightarrow> repair_luck \<Rightarrow> (repair_db \<times> repair_db) list \<Rightarrow>
   (repair_failure + repair_result \<times> repair_db) option"
where
  "repair_rounds env now org i rq lu [] = None"
| "repair_rounds env now org i rq lu ((seen, db) # rest) =
     (case find_raw org i (db_turns (rd_raw seen)) of
        None \<Rightarrow> Some (Inl RepairNotFound)
      | Some row \<Rightarrow>
          let old = effective_key env (rd_corrections seen) row; new = (rq_harness rq, rq_session rq)
          in if \<not> snd (acquire_repair_locks (lu_lock lu) (repair_lock_order old new) [])
             then Some (Inl (RepairFault ''acquire repair session lock''))
             else case record_attribution_repair env now org i rq old db of
                    Inl e \<Rightarrow> Some (Inl e)
                  | Inr None \<Rightarrow> repair_rounds env now org i rq lu rest
                  | Inr (Some rd) \<Rightarrow> Some (Inr (settle_repair env now org lu old new rd)))"

definition repair_raw_turn_attribution ::
  "repair_env \<Rightarrow> gotime \<Rightarrow> repair_request \<Rightarrow> repair_luck \<Rightarrow> repair_db \<Rightarrow> (repair_db \<times> repair_db) list \<Rightarrow>
   (repair_failure + repair_result \<times> repair_db) option"
where
  "repair_raw_turn_attribution env now rq lu db rounds =
     (case validate_attribution_repair rq of
        Some e \<Rightarrow> Some (Inl e)
      | None \<Rightarrow>
          (case org_id_from_string (se_parse_uuid env) (org_key_for_lookup (rq_org_id rq)) of
             Inl _ \<Rightarrow> Some (Inl (RepairFault ''decode org_id''))
           | Inr org \<Rightarrow>
               (case resolve_repair_raw_turn_id env org rq db of
                  Inl e \<Rightarrow> Some (Inl e)
                | Inr i \<Rightarrow> repair_rounds env now org i rq lu rounds)))"

subsection \<open>The handler\<close>

definition nil_org_text :: string where
  "nil_org_text = ''00000000-0000-0000-0000-000000000000''"

definition repair_reply :: "repair_failure + repair_result \<times> repair_db \<Rightarrow> nat \<times> repair_result option" where
  "repair_reply r =
     (case r of
        Inl RepairNotFound \<Rightarrow> (404, None)
      | Inl RepairAmbiguous \<Rightarrow> (409, None)
      | Inl _ \<Rightarrow> (500, None)
      | Inr (res, _) \<Rightarrow> ((if re_pending res = [] then 200 else 202), Some res))"

definition handle_attribution_repair ::
  "repair_env \<Rightarrow> gotime \<Rightarrow> repair_request option \<Rightarrow> repair_luck \<Rightarrow> repair_db \<Rightarrow> (repair_db \<times> repair_db) list \<Rightarrow> (nat \<times> repair_result option) option"
where
  "handle_attribution_repair env now body lu db rounds =
     (case body of
        None \<Rightarrow> Some (400, None)
      | Some rq \<Rightarrow>
          if validate_attribution_repair rq \<noteq> None then Some (400, None)
          else map_option repair_reply (repair_raw_turn_attribution env now (rq\<lparr>rq_org_id := nil_org_text\<rparr>) lu db rounds))"

end
