(* ===== verification/TraceApi.thy ===== *)
theory TraceApi
  imports SessionApi AttributionRepair
begin

text \<open>
  The handlers of traces, spans, the wire log and the totals: \<open>api/traces_handlers.go\<close>,
  \<open>api/trace_browse_handlers.go\<close>, \<open>api/v1_handlers.go\<close>, over the reads of \<open>SpanQueries\<close>, with the driver's
  \<open>ListRawTurnHeaders\<close>.

  The driver is the one of PostgreSQL, which has all
  the reader interfaces. A payload is raw JSON, a text; decoding it into content blocks and encoding them again are parameters. Decoded
  strings are well-formed UTF-8, so a rune is a start byte with the bytes up to the next one.
\<close>

subsection \<open>Items\<close>

datatype payload_mode = PayloadFull | PayloadPreview

definition payload_mode_from_query :: "string \<Rightarrow> payload_mode" where
  "payload_mode_from_query v = (if v = ''preview'' then PayloadPreview else PayloadFull)"

record trace_usage =
  tu_input_tokens :: int
  tu_output_tokens :: int
  tu_cache_read_tokens :: int
  tu_cache_creation_tokens :: int
  tu_cost_usd :: rat

record main_usage =
  mu_input_tokens :: int
  mu_output_tokens :: int

record trace_item =
  ti_trace_id :: string
  ti_user_prompt :: string
  ti_response_preview :: string
  ti_status :: string
  ti_source :: string
  ti_started_at :: gotime
  ti_ended_at :: "gotime option"
  ti_duration_ns :: int
  ti_span_count :: nat
  ti_usage :: trace_usage
  ti_main_usage :: main_usage
  ti_synthetic :: string

definition trace_item_from_turn :: "span_turn_record \<Rightarrow> nat \<Rightarrow> trace_item" where
  "trace_item_from_turn t n =
     \<lparr>ti_trace_id = tr_trace_id t, ti_user_prompt = tr_user_prompt t, ti_response_preview = tr_response_preview t,
      ti_status = tr_status t, ti_source = tr_source t, ti_started_at = tr_started_at t, ti_ended_at = tr_ended_at t,
      ti_duration_ns = tr_duration_ns t, ti_span_count = n,
      ti_usage = \<lparr>tu_input_tokens = tr_total_input t, tu_output_tokens = tr_total_output t,
        tu_cache_read_tokens = tr_cache_read t, tu_cache_creation_tokens = tr_cache_creation t,
        tu_cost_usd = tr_total_cost t\<rparr>,
      ti_main_usage = \<lparr>mu_input_tokens = tr_main_input t, mu_output_tokens = tr_main_output t\<rparr>,
      ti_synthetic = tr_synthetic t\<rparr>"

record span_item =
  si_trace_id :: string
  si_span_id :: string
  si_content :: span_content \<comment> \<open>the copied columns\<close>
  si_input :: string
  si_output :: string
  si_usage :: string
  si_payload :: string

record payload_codec =
  pl_decode :: "string \<Rightarrow> content_block list option"
  pl_encode :: "content_block list \<Rightarrow> string option"

definition preview_payload_runes :: nat where "preview_payload_runes = 512"

definition ellipsis :: string where "ellipsis = [CHR 0xE2, CHR 0x80, CHR 0xA6]"

fun take_runes :: "nat \<Rightarrow> string \<Rightarrow> string" where
  "take_runes n [] = []"
| "take_runes n (c # cs) =
     (if rune_start c then (case n of 0 \<Rightarrow> [] | Suc m \<Rightarrow> c # take_runes m cs) else c # take_runes n cs)"

definition preview_string :: "string \<Rightarrow> string" where
  "preview_string s =
     (if rune_count s \<le> preview_payload_runes then s else take_runes preview_payload_runes s @ ellipsis)"

fun preview_value :: "jval \<Rightarrow> jval" where
  "preview_value (JStr s) = JStr (preview_string s)"
| "preview_value (JObj m) = JObj (map (\<lambda>(k, v). (k, preview_value v)) m)"
| "preview_value (JArr xs) = JArr (map preview_value xs)"
| "preview_value v = v"

definition preview_block :: "content_block \<Rightarrow> content_block" where
  "preview_block b = b
     \<lparr>cb_text := preview_string (cb_text b), thinking := preview_string (thinking b),
      tool_output := preview_string (tool_output b), image_base64 := [],
      tool_input := map (\<lambda>(k, v). (k, preview_value v)) (tool_input b)\<rparr>"

text \<open>What does not decode to at least an empty list passes whole, and so does what cannot be encoded.\<close>

definition content_array :: "payload_codec \<Rightarrow> string \<Rightarrow> payload_mode \<Rightarrow> string" where
  "content_array px raw mode =
     (if raw = [] \<or> raw = ''null'' then ''[]''
      else if mode = PayloadFull then raw
      else case pl_decode px raw of
             None \<Rightarrow> raw
           | Some blocks \<Rightarrow> (case pl_encode px (map preview_block blocks) of None \<Rightarrow> raw | Some s \<Rightarrow> s))"

definition empty_object_if_nil :: "string \<Rightarrow> string" where
  "empty_object_if_nil raw = (if raw = [] \<or> raw = ''null'' then ''{}'' else raw)"

definition span_item_from_record :: "payload_codec \<Rightarrow> span_record \<Rightarrow> payload_mode \<Rightarrow> span_item" where
  "span_item_from_record px r mode =
     (let c = pr_content r
      in \<lparr>si_trace_id = pr_trace_id r, si_span_id = pr_span_id r, si_content = c,
          si_input = content_array px (sc_input c) mode, si_output = content_array px (sc_output c) mode,
          si_usage = empty_object_if_nil (sc_usage c),
          si_payload = (if mode = PayloadPreview then ''preview'' else [])\<rparr>)"

subsection \<open>Replies\<close>

record trace_detail =
  td_schema :: string
  td_trace :: trace_item
  td_spans :: "span_item list"
  td_links :: "span_link list"

record session_traces =
  sx_schema :: string
  sx_session :: session_item
  sx_traces :: "trace_detail list"
  sx_links :: "span_link list"

definition projection_schema :: string where "projection_schema = ''2026-06-15''"

definition build_session_traces ::
  "payload_codec \<Rightarrow> session_item \<Rightarrow> span_turn_record list \<Rightarrow> span_record list \<Rightarrow> span_link list \<Rightarrow> payload_mode \<Rightarrow> session_traces"
where
  "build_session_traces px session turns spans links mode =
     (let of_trace = (\<lambda>t. filter (\<lambda>s. pr_trace_id s = tr_trace_id t) spans)
      in \<lparr>sx_schema = projection_schema, sx_session = session,
          sx_traces = map (\<lambda>t. \<lparr>td_schema = [], td_trace = trace_item_from_turn t (length (of_trace t)),
            td_spans = map (\<lambda>s. span_item_from_record px s mode) (of_trace t), td_links = []\<rparr>) turns,
          sx_links = links\<rparr>)"

definition build_trace_detail ::
  "payload_codec \<Rightarrow> span_turn_record \<Rightarrow> span_record list \<Rightarrow> span_link list \<Rightarrow> payload_mode \<Rightarrow> trace_detail"
where
  "build_trace_detail px turn spans links mode =
     \<lparr>td_schema = projection_schema, td_trace = trace_item_from_turn turn (length spans),
      td_spans = map (\<lambda>s. span_item_from_record px s mode) spans, td_links = links\<rparr>"

definition build_trace_list :: "(span_turn_record \<times> nat) list \<Rightarrow> string \<times> trace_item list" where
  "build_trace_list rows = (projection_schema, map (\<lambda>(t, n). trace_item_from_turn t n) rows)"

record raw_turn_header =
  rh_id :: int
  rh_source :: string
  rh_provider :: string
  rh_agent_name :: string
  rh_request_id :: string
  rh_received_at :: gotime
  rh_meta :: string
  rh_request_bytes :: nat
  rh_response_bytes :: nat

record stats_response =
  st_session_count :: nat
  st_turn_count :: nat
  st_completed_count :: nat
  st_total_cost :: rat
  st_input_tokens :: int
  st_output_tokens :: int
  st_total_duration_ms :: int
  st_tool_calls :: int

datatype trace_body =
    TraceError string
  | SessionTraces session_traces
  | TraceList "string \<times> trace_item list"
  | TraceDetail trace_detail
  | SpanDetail span_item
  | RawTurnList "raw_turn_header list"
  | Stats stats_response

type_synonym trace_reply = "nat \<times> trace_body"

definition refuse :: "nat \<Rightarrow> string \<Rightarrow> trace_reply" where
  "refuse status msg = (status, TraceError msg)"

definition answer :: "string + 'a \<Rightarrow> string \<Rightarrow> ('a \<Rightarrow> trace_reply) \<Rightarrow> trace_reply" where
  "answer r msg f = (case r of Inl _ \<Rightarrow> refuse 500 msg | Inr v \<Rightarrow> f v)"

abbreviation reads_of :: "api_env \<Rightarrow> read_env" where
  "reads_of env \<equiv> read_env.truncate env"

text \<open>The session of an id in the path or the query.\<close>

definition on_session ::
  "api_env \<Rightarrow> string \<Rightarrow> string \<Rightarrow> session_db \<Rightarrow> (session_record \<Rightarrow> trace_reply) \<Rightarrow> trace_reply"
where
  "on_session env param i db f =
     (if rv_parse_uuid env i = None then refuse 400 (param @ '' must be a valid UUID'')
      else answer (get_session_record env single_tenant_org_id i db) ''failed to load session''
             (\<lambda>s. case s of None \<Rightarrow> refuse 404 ''session not found'' | Some rec \<Rightarrow> f rec))"

definition handle_get_session_traces ::
  "api_env \<Rightarrow> payload_codec \<Rightarrow> gotime \<Rightarrow> string \<Rightarrow> string \<Rightarrow> session_db \<Rightarrow> trace_reply"
where
  "handle_get_session_traces env px now i payload db =
     (if i = [] then refuse 400 ''id parameter required''
      else on_session env ''id'' i db (\<lambda>rec.
        answer (list_session_span_model (reads_of env) i (sd_spans db)) ''failed to load session traces'' (\<lambda>(turns, spans, links).
          (200, SessionTraces (build_session_traces px (session_item_from_storage env now rec) turns spans links
                                 (payload_mode_from_query payload))))))"

definition handle_list_trace_summaries :: "api_env \<Rightarrow> string \<Rightarrow> session_db \<Rightarrow> trace_reply" where
  "handle_list_trace_summaries env i db =
     (if i = [] then refuse 400 ''session_id parameter required''
      else on_session env ''session_id'' i db (\<lambda>_.
        answer (list_trace_summaries (reads_of env) i (sd_spans db)) ''failed to list traces''
          (\<lambda>rows. (200, TraceList (build_trace_list rows)))))"

definition handle_get_trace :: "api_env \<Rightarrow> payload_codec \<Rightarrow> string \<Rightarrow> string \<Rightarrow> session_db \<Rightarrow> trace_reply" where
  "handle_get_trace env px trace payload db =
     answer (get_trace_detail (reads_of env) single_tenant_org_id trace (sd_spans db)) ''failed to get trace'' (\<lambda>r.
       case r of
         None \<Rightarrow> refuse 404 ''trace not found''
       | Some (turn, spans, links) \<Rightarrow>
           (200, TraceDetail (build_trace_detail px turn spans links (payload_mode_from_query payload))))"

definition handle_get_span :: "api_env \<Rightarrow> payload_codec \<Rightarrow> string \<Rightarrow> string \<Rightarrow> session_db \<Rightarrow> trace_reply" where
  "handle_get_span env px trace i db =
     answer (get_span_record (reads_of env) single_tenant_org_id trace i (sd_spans db)) ''failed to get span'' (\<lambda>r.
       case r of
         None \<Rightarrow> refuse 404 ''span not found''
       | Some rec \<Rightarrow> (200, SpanDetail (span_item_from_record px rec PayloadFull)))"

subsection \<open>The wire log\<close>

text \<open>The turns effectively in a session, by id; a corrected turn shows the thread of its correction. The sizes are
  those of the stored texts.\<close>

definition header_meta :: "(string \<Rightarrow> string \<Rightarrow> string) \<Rightarrow> correction list \<Rightarrow> raw_row \<Rightarrow> string" where
  "header_meta set_thread cs r =
     (case latest_correction (rw_org r) (rw_id r) cs of
        None \<Rightarrow> rt_meta (rw_put r) | Some c \<Rightarrow> set_thread (cr_thread c) (rt_meta (rw_put r)))"

definition corrected_key :: "correction list \<Rightarrow> raw_row \<Rightarrow> repair_key" where
  "corrected_key cs r =
     (case latest_correction (rw_org r) (rw_id r) cs of
        None \<Rightarrow> (rt_harness_id (rw_put r), rt_harness_session_id (rw_put r))
      | Some c \<Rightarrow> (cr_harness c, cr_session c))"

definition list_raw_turn_headers ::
  "read_env \<Rightarrow> (string \<Rightarrow> string \<Rightarrow> string) \<Rightarrow> string \<Rightarrow> repair_key \<Rightarrow> repair_db \<Rightarrow> string + raw_turn_header list"
where
  "list_raw_turn_headers env set_thread org k db =
     and_then (read_org env org) (\<lambda>o'. Inr (map
       (\<lambda>r. \<lparr>rh_id = rw_id r, rh_source = rt_source (rw_put r), rh_provider = rt_provider (rw_put r),
             rh_agent_name = rt_agent_name (rw_put r), rh_request_id = rt_request_id (rw_put r),
             rh_received_at = rt_received_at (rw_put r), rh_meta = header_meta set_thread (rd_corrections db) r,
             rh_request_bytes = rune_count (rt_raw_request (rw_put r)), rh_response_bytes = rune_count (rt_response (rw_put r))\<rparr>)
       (sort_key rw_id (filter (\<lambda>r. rw_org r = o' \<and> corrected_key (rd_corrections db) r = k) (db_turns (rd_raw db))))))"

definition handle_list_session_raw_turns ::
  "api_env \<Rightarrow> (string \<Rightarrow> string \<Rightarrow> string) \<Rightarrow> string \<Rightarrow> session_db \<Rightarrow> repair_db \<Rightarrow> trace_reply"
where
  "handle_list_session_raw_turns env set_thread i db raw =
     on_session env ''id'' i db (\<lambda>rec.
       answer (list_raw_turn_headers (reads_of env) set_thread single_tenant_org_id (se_harness_id rec, se_harness_session_id rec) raw)
         ''failed to list raw turns'' (\<lambda>rows. (200, RawTurnList rows)))"

subsection \<open>Totals\<close>

definition stats_bound :: "api_env \<Rightarrow> string \<Rightarrow> string \<Rightarrow> string + gotime option" where
  "stats_bound env name raw =
     (if raw = [] then Inr None
      else case av_parse_rfc3339 env raw of
             None \<Rightarrow> Inl (name @ '' must be an RFC3339 timestamp'') | Some t \<Rightarrow> Inr (Some t))"

definition parse_stats_window :: "api_env \<Rightarrow> string \<Rightarrow> string \<Rightarrow> string + gotime option \<times> gotime option" where
  "parse_stats_window env since until =
     and_then (stats_bound env ''since'' since) (\<lambda>s.
     and_then (stats_bound env ''until'' until) (\<lambda>u. Inr (s, u)))"

definition handle_stats :: "api_env \<Rightarrow> string \<Rightarrow> string \<Rightarrow> string \<Rightarrow> session_row list \<Rightarrow> span_db \<Rightarrow> trace_reply" where
  "handle_stats env since until subject rows db =
     (case parse_stats_window env since until of
        Inl msg \<Rightarrow> refuse 400 msg
      | Inr (s, u) \<Rightarrow>
          answer (aggregate_span_stats (reads_of env) rows single_tenant_org_id s u subject db) ''failed to compute stats'' (\<lambda>x.
            (200, Stats \<lparr>st_session_count = ss_session_count x, st_turn_count = ss_turn_count x,
               st_completed_count = ss_completed_count x, st_total_cost = ss_total_cost x,
               st_input_tokens = ss_input_tokens x, st_output_tokens = ss_output_tokens x,
               st_total_duration_ms = go_quot (ss_total_duration_ns x) 1000000, st_tool_calls = ss_tool_calls x\<rparr>)))"

end
