(* ===== verification/RepairFacts.thy ===== *)
theory RepairFacts
  imports AttributionRepair RawStoreFacts
begin

text \<open>
  What a repair of a turn's attribution promises: the turn is moved and nothing else, no repair works on a
  session whose lock it does not hold, what could not be rebuilt is queued, and the tables stay sound.
\<close>

subsection \<open>The transaction\<close>

lemma record_repair_cases:
  assumes "record_attribution_repair env now org i rq locked db = Inr (Some (res, db'))"
  obtains row en parent db1 u where
    "find_raw org i (db_turns (rd_raw db)) = Some row"
    "effective_key env (rd_corrections db) row = locked"
    "resolve_parent_session_id (store_of env) (repaired_envelope rq en) org (rt_received_at (rw_put row)) (rd_raw db) = Inr (parent, db1)"
    "se_mint (store_of env) (db_minted db1) = Some u"
    "res = \<lparr>re_recorded = (\<not> same_attribution (effective_attribution env (rd_corrections db) row) (requested_attribution rq i)),
            re_previous = effective_attribution env (rd_corrections db) row, re_effective = requested_attribution rq i,
            re_pending = [], re_cleanup_pending = False\<rparr>"
    "rd_corrections db' = rd_corrections db @
       (if re_recorded res then [\<lparr>cr_org = org, cr_raw_turn = i, cr_harness = rq_harness rq, cr_session = rq_session rq,
          cr_thread = rq_thread rq, cr_parent = rq_parent rq, cr_reason = rq_reason rq\<rparr>] else [])"
    "rd_raw db' = db1\<lparr>db_minted := Suc (db_minted db1),
       db_sessions :=
         (let new = envelope_session u org (repaired_envelope rq en) (rq_session rq) parent (rt_received_at (rw_put row)) (rt_received_at (rw_put row));
              ss = upsert_row (merge_transcript_session (store_of env)) new (db_sessions db1)
          in case find_session (session_key_of new) ss of None \<Rightarrow> ss | Some target \<Rightarrow> set_session_parent parent (sr_id target) ss),
       db_queue := mark_derive_dirty now (repair_queue_key env org (rq_harness rq, rq_session rq))
         (mark_derive_dirty now (repair_queue_key env org locked) (db_queue db1))\<rparr>"
proof -
  obtain row where row: "find_raw org i (db_turns (rd_raw db)) = Some row"
    using assms by (auto simp: record_attribution_repair_def split: option.splits)
  then obtain en where en: "(if rt_session_envelope (rw_put row) = [] then Some empty_envelope
                        else se_envelope env (rt_session_envelope (rw_put row))) = Some en"
    and key: "effective_key env (rd_corrections db) row = locked"
    using assms by (auto simp: record_attribution_repair_def effective_key_def Let_def split: option.splits if_splits)
  note s = assms [unfolded record_attribution_repair_def row option.case Let_def en]
  obtain parent db1 where p: "resolve_parent_session_id (store_of env) (repaired_envelope rq en) org (rt_received_at (rw_put row)) (rd_raw db) = Inr (parent, db1)"
    using s key by (auto simp: effective_key_def Let_def and_then_Inr split: sum.splits)
  obtain u where u: "se_mint (store_of env) (db_minted db1) = Some u"
    using s key p by (auto simp: effective_key_def Let_def new_app_uuid_def split: sum.splits option.splits)
  show thesis
    by (rule that [OF row key p u]) (use s key p u in \<open>auto simp: effective_key_def Let_def new_app_uuid_def split: option.splits\<close>)
qed

lemma find_raw_Some: "find_raw org i rows = Some r \<Longrightarrow> r \<in> set rows \<and> rw_org r = org \<and> rw_id r = i"
  by (auto simp: find_raw_def find_Some_iff)

lemma pointer_roundtrip [simp]: "pointer_value (pointer_from_string s) = s"
  by (simp add: pointer_value_def pointer_from_string_def)

lemma effective_after:
  "effective_attribution env (cs @ [c]) r =
     (if cr_org c = rw_org r \<and> cr_raw_turn c = rw_id r
      then \<lparr>at_raw_turn = rw_id r, at_harness = cr_harness c, at_session = cr_session c, at_thread = cr_thread c,
            at_parent = pointer_from_string (pointer_value (cr_parent c))\<rparr>
      else effective_attribution env cs r)"
  by (simp add: effective_attribution_def latest_correction_def Let_def)

text \<open>What a committed correction leaves: the turns as they were, the attribution of this turn alone changed,
  both sessions queued.\<close>

lemma record_repair_effect:
  assumes "record_attribution_repair env now org i rq locked db = Inr (Some (res, db'))"
  shows "db_turns (rd_raw db') = db_turns (rd_raw db)"
    "effective_attribution env (rd_corrections db') =
       (\<lambda>r. if re_recorded res \<and> rw_org r = org \<and> rw_id r = i
            then (requested_attribution rq i)\<lparr>at_parent := pointer_from_string (pointer_value (rq_parent rq))\<rparr>
            else effective_attribution env (rd_corrections db) r)"
    "get_derive_dirty (repair_queue_key env org locked) (db_queue (rd_raw db')) \<noteq> None"
    "get_derive_dirty (repair_queue_key env org (rq_harness rq, rq_session rq)) (db_queue (rd_raw db')) \<noteq> None"
proof -
  have "\<exists>en parent db1 c.
      resolve_parent_session_id (store_of env) en org c (rd_raw db) = Inr (parent, db1)
    \<and> db_turns (rd_raw db') = db_turns db1 \<and> db_queue (rd_raw db') =
        mark_derive_dirty now (repair_queue_key env org (rq_harness rq, rq_session rq))
         (mark_derive_dirty now (repair_queue_key env org locked) (db_queue db1))"
    by (rule record_repair_cases [OF assms], rule exI, rule exI, rule exI, rule exI, rule conjI, assumption) simp
  then obtain en parent db1 c where
    p: "resolve_parent_session_id (store_of env) en org c (rd_raw db) = Inr (parent, db1)"
    and d: "db_turns (rd_raw db') = db_turns db1" "db_queue (rd_raw db') =
        mark_derive_dirty now (repair_queue_key env org (rq_harness rq, rq_session rq))
         (mark_derive_dirty now (repair_queue_key env org locked) (db_queue db1))" by blast
  have c: "rd_corrections db' = rd_corrections db @
       (if re_recorded res then [\<lparr>cr_org = org, cr_raw_turn = i, cr_harness = rq_harness rq, cr_session = rq_session rq,
          cr_thread = rq_thread rq, cr_parent = rq_parent rq, cr_reason = rq_reason rq\<rparr>] else [])"
    by (rule record_repair_cases [OF assms])
  show "db_turns (rd_raw db') = db_turns (rd_raw db)"
    using resolve_parent_frame [OF p, of undefined] d by simp
  show "effective_attribution env (rd_corrections db') =
       (\<lambda>r. if re_recorded res \<and> rw_org r = org \<and> rw_id r = i
            then (requested_attribution rq i)\<lparr>at_parent := pointer_from_string (pointer_value (rq_parent rq))\<rparr>
            else effective_attribution env (rd_corrections db) r)"
    by (auto simp: c effective_after requested_attribution_def fun_eq_iff)
  show "get_derive_dirty (repair_queue_key env org locked) (db_queue (rd_raw db')) \<noteq> None"
    "get_derive_dirty (repair_queue_key env org (rq_harness rq, rq_session rq)) (db_queue (rd_raw db')) \<noteq> None"
    by (auto simp: d mark_lookup split: option.split)
qed

subsection \<open>The tables stay sound\<close>

lemma set_parent_ok:
  assumes "sessions_ok env n ss" "\<And>p. parent = Some p \<Longrightarrow> p \<in> sr_id ` set ss"
  shows "sessions_ok env n (set_session_parent parent i ss)"
  unfolding set_session_parent_def using assms
  by (intro sessions_ok_map) (auto simp: session_key_of_def sessions_ok_def split: if_splits)

lemma upsert_ids: "sr_id ` set ss \<subseteq> sr_id ` set (upsert_row (merge_transcript_session env) new ss)"
proof (cases "find_session (session_key_of new) ss")
  case (Some s)
  have "map sr_id (upsert_row (merge_transcript_session env) new ss) = map sr_id ss"
    using Some by (simp add: upsert_row_def keeps_identityD(1) [OF merge_keeps_identity(2)])
  then have "set (map sr_id (upsert_row (merge_transcript_session env) new ss)) = set (map sr_id ss)" by simp
  then show ?thesis by simp
qed (auto simp: upsert_row_def)

lemma record_repair_ok:
  assumes "record_attribution_repair env now org i rq locked db = Inr (Some (res, db'))"
    "db_ok (store_of env) (rd_raw db)" "fresh_mint (store_of env)"
  shows "db_ok (store_of env) (rd_raw db')"
  using assms(1)
proof (cases rule: record_repair_cases)
  case (1 row en parent db1 u)
  note p = resolve_parent_ok [OF 1(3) db_okD(1) [OF assms(2)] assms(3)]
  let ?new = "envelope_session u org (repaired_envelope rq en) (rq_session rq) parent (rt_received_at (rw_put row)) (rt_received_at (rw_put row))"
  let ?ss = "upsert_row (merge_transcript_session (store_of env)) ?new (db_sessions db1)"
  have ss: "sessions_ok (store_of env) (Suc (db_minted db1)) ?ss"
    using p 1(4) by (intro upsert_ok [OF _ assms(3)]) simp_all
  have "\<And>q. parent = Some q \<Longrightarrow> q \<in> sr_id ` set ?ss"
    using p upsert_ids by blast
  then show ?thesis
    using p ss db_okD [OF assms(2)] unfolding 1(7)
    by (auto simp: db_ok_def Let_def queue_ok_mark intro: set_parent_ok split: option.split)
qed

lemma sessions_ok_filter:
  assumes "sessions_ok env n ss" "\<And>s c. s \<in> set ss \<Longrightarrow> \<not> P s \<Longrightarrow> c \<in> set ss \<Longrightarrow> sr_parent c \<noteq> Some (sr_id s)"
  shows "sessions_ok env n (filter P ss)"
proof -
  have "p \<in> sr_id ` set (filter P ss)" if "c \<in> set ss" "sr_parent c = Some p" for c p
  proof -
    have "p \<in> sr_id ` set ss" using assms(1) that by (auto simp: sessions_ok_def)
    then obtain s where "s \<in> set ss" "sr_id s = p" by blast
    then show ?thesis using assms(2) that by force
  qed
  then show ?thesis using assms(1) by (auto simp: sessions_ok_def distinct_map_filter)
qed

lemma delete_empty_ok:
  assumes "db_ok env (rd_raw db)"
  shows "db_ok env (rd_raw (delete_empty_unreferenced renv org k db))"
  using assms
  by (auto simp: delete_empty_unreferenced_def Let_def db_ok_def list_ex_iff intro!: sessions_ok_filter)

lemma queue_ok_marks: "queue_ok q \<Longrightarrow> queue_ok (fold (\<lambda>k. mark_derive_dirty now (f k)) ks q)"
  by (induction ks arbitrary: q) (simp_all add: queue_ok_mark)

lemma settle_ok:
  assumes "db_ok (store_of env) (rd_raw (snd rd))"
  shows "db_ok (store_of env) (rd_raw (snd (settle_repair env now org lu old new rd)))"
  using assms delete_empty_ok [OF assms, of env org old]
  by (auto simp: settle_repair_def Let_def db_ok_def queue_ok_mark split: prod.split)

subsection \<open>The rounds\<close>

lemma repair_rounds_commit:
  assumes "repair_rounds env now org i rq lu rounds = Some (Inr out)"
  obtains seen db row rd where
    "(seen, db) \<in> set rounds" "find_raw org i (db_turns (rd_raw seen)) = Some row"
    "snd (acquire_repair_locks (lu_lock lu) (repair_lock_order (effective_key env (rd_corrections seen) row) (rq_harness rq, rq_session rq)) [])"
    "record_attribution_repair env now org i rq (effective_key env (rd_corrections seen) row) db = Inr (Some rd)"
    "out = settle_repair env now org lu (effective_key env (rd_corrections seen) row) (rq_harness rq, rq_session rq) rd"
  using assms
proof (induction rounds arbitrary: thesis)
  case (Cons r rounds)
  obtain seen db where r: "r = (seen, db)" by (cases r)
  from Cons.prems(2) obtain row where row: "find_raw org i (db_turns (rd_raw seen)) = Some row"
    by (auto simp: r split: option.splits)
  note s = Cons.prems(2) [unfolded r repair_rounds.simps row option.case Let_def]
  then have lock: "snd (acquire_repair_locks (lu_lock lu) (repair_lock_order (effective_key env (rd_corrections seen) row) (rq_harness rq, rq_session rq)) [])"
    by (auto split: if_splits)
  show ?case
  proof (cases "record_attribution_repair env now org i rq (effective_key env (rd_corrections seen) row) db")
    case (Inr o1)
    show ?thesis
    proof (cases o1)
      case None
      then have "repair_rounds env now org i rq lu rounds = Some (Inr out)" using s lock Inr by simp
      then show ?thesis by (rule Cons.IH [rotated]) (rule Cons.prems(1), auto)
    next
      case (Some rd)
      show ?thesis
        by (rule Cons.prems(1) [of seen db row rd]) (use s lock Inr Some row in \<open>auto simp: r\<close>)
    qed
  qed (use s lock in auto)
qed simp

lemma record_agrees:
  assumes "find_raw org i (db_turns (rd_raw db)) = Some row"
  shows "record_attribution_repair env now org i rq (effective_key env (rd_corrections db) row) db \<noteq> Inr None"
  using assms by (auto simp: record_attribution_repair_def effective_key_def Let_def split: sum.split option.split)

text \<open>A round in which no other transaction comes between the two reads is the last.\<close>

lemma quiet_round_returns:
  assumes "(db, db) \<in> set rounds"
  shows "repair_rounds env now org i rq lu rounds \<noteq> None"
  using assms
proof (induction rounds)
  case (Cons r rounds)
  obtain seen db1 where r: "r = (seen, db1)" by (cases r)
  show ?case
    using Cons by (auto simp: r Let_def record_agrees split: option.split sum.split)
qed simp

subsection \<open>What a repair leaves\<close>

lemma settle_repair_simps:
  "re_recorded (fst (settle_repair env now org lu old new rd)) = re_recorded (fst rd)"
  "re_previous (fst (settle_repair env now org lu old new rd)) = re_previous (fst rd)"
  "re_pending (fst (settle_repair env now org lu old new rd)) = filter (\<lambda>k. \<not> lu_rederive lu k) (remdups [old, new])"
  "rd_corrections (snd (settle_repair env now org lu old new rd)) = rd_corrections (snd rd)"
  "db_turns (rd_raw (snd (settle_repair env now org lu old new rd))) = db_turns (rd_raw (snd rd))"
  by (auto simp: settle_repair_def Let_def delete_empty_unreferenced_def split: prod.split)

lemma marks_keep: "get_derive_dirty k q \<noteq> None \<Longrightarrow> get_derive_dirty k (fold (\<lambda>j. mark_derive_dirty now (f j)) js q) \<noteq> None"
  by (induction js arbitrary: q) (simp_all add: mark_lookup split: option.split)

lemma settle_queue:
  "\<exists>js. db_queue (rd_raw (snd (settle_repair env now org lu old new rd))) =
        fold (\<lambda>k. mark_derive_dirty now (repair_queue_key env org k)) js (db_queue (rd_raw (snd rd)))"
proof (rule exI)
  show "db_queue (rd_raw (snd (settle_repair env now org lu old new rd))) =
    fold (\<lambda>k. mark_derive_dirty now (repair_queue_key env org k))
      (filter (lu_mark lu) ((if lu_rederive lu old then [] else [old]) @ (if old = new \<or> lu_rederive lu new then [] else [new])))
      (db_queue (rd_raw (snd rd)))"
    by (cases rd) (simp add: settle_repair_def Let_def delete_empty_unreferenced_def)
qed

lemma settle_keeps_queued:
  "get_derive_dirty k (db_queue (rd_raw (snd rd))) \<noteq> None \<Longrightarrow>
   get_derive_dirty k (db_queue (rd_raw (snd (settle_repair env now org lu old new rd)))) \<noteq> None"
  using settle_queue [of env now org lu old new rd] marks_keep by metis

text \<open>C28: a repair answered with a result worked on a state the turn was in with the session whose lock was
  held. There it left every captured turn as it is and changed the effective attribution of the one turn only, to the
  requested one and only when it differed; both sessions are in the derive queue, the pending ones are those whose rebuild failed,
  and the reply is 200 exactly when there are none.\<close>

theorem repair_effective:
  "case repair_rounds env now org i rq lu rounds of
     Some (Inr (res, db')) \<Rightarrow>
       \<exists>seen db row old new.
         (seen, db) \<in> set rounds \<and> find_raw org i (db_turns (rd_raw db)) = Some row
       \<and> old = effective_key env (rd_corrections db) row \<and> new = (rq_harness rq, rq_session rq)
       \<and> snd (acquire_repair_locks (lu_lock lu) (repair_lock_order old new) [])
       \<and> db_turns (rd_raw db') = db_turns (rd_raw db)
       \<and> re_recorded res = (\<not> same_attribution (effective_attribution env (rd_corrections db) row) (requested_attribution rq i))
       \<and> re_previous res = effective_attribution env (rd_corrections db) row
       \<and> effective_attribution env (rd_corrections db') =
           (\<lambda>r. if re_recorded res \<and> rw_org r = org \<and> rw_id r = i
                then (requested_attribution rq i)\<lparr>at_parent := pointer_from_string (pointer_value (rq_parent rq))\<rparr>
                else effective_attribution env (rd_corrections db) r)
       \<and> get_derive_dirty (repair_queue_key env org old) (db_queue (rd_raw db')) \<noteq> None
       \<and> get_derive_dirty (repair_queue_key env org new) (db_queue (rd_raw db')) \<noteq> None
       \<and> re_pending res = filter (\<lambda>k. \<not> lu_rederive lu k) (remdups [old, new])
       \<and> fst (repair_reply (Inr (res, db'))) = (if lu_rederive lu old \<and> lu_rederive lu new then 200 else 202)
   | _ \<Rightarrow> True"
proof (cases "repair_rounds env now org i rq lu rounds")
  case (Some r)
  show ?thesis
  proof (cases r)
    case (Inr out)
    obtain res db' where o: "out = (res, db')" by (cases out)
    with Some Inr have "repair_rounds env now org i rq lu rounds = Some (Inr (res, db'))" by simp
    then obtain seen db row0 rd where m: "(seen, db) \<in> set rounds"
      and l: "snd (acquire_repair_locks (lu_lock lu) (repair_lock_order (effective_key env (rd_corrections seen) row0) (rq_harness rq, rq_session rq)) [])"
      and r: "record_attribution_repair env now org i rq (effective_key env (rd_corrections seen) row0) db = Inr (Some rd)"
      and e: "(res, db') = settle_repair env now org lu (effective_key env (rd_corrections seen) row0) (rq_harness rq, rq_session rq) rd"
      by (rule repair_rounds_commit)
    obtain res1 db1 where rd: "rd = (res1, db1)" by (cases rd)
    note r = r [unfolded rd]
    obtain row where row: "find_raw org i (db_turns (rd_raw db)) = Some row"
      and key: "effective_key env (rd_corrections seen) row0 = effective_key env (rd_corrections db) row"
      and res1: "re_recorded res1 = (\<not> same_attribution (effective_attribution env (rd_corrections db) row) (requested_attribution rq i))"
        "re_previous res1 = effective_attribution env (rd_corrections db) row"
      by (cases rule: record_repair_cases [OF r]) auto
    note st = settle_repair_simps [of env now org lu "effective_key env (rd_corrections db) row" "(rq_harness rq, rq_session rq)" rd,
        folded e [unfolded key], unfolded rd, simplified]
    note q = settle_keeps_queued [of _ rd env now org lu "effective_key env (rd_corrections db) row" "(rq_harness rq, rq_session rq)",
        folded e [unfolded key], unfolded rd, simplified]
    note f = record_repair_effect [OF r, unfolded key]
    show ?thesis
      unfolding Some Inr o option.case sum.case prod.case
      apply (rule exI [of _ seen], rule exI [of _ db], rule exI [of _ row], rule exI, rule exI)
      apply (intro conjI, rule m, rule row, rule refl, rule refl)
      using l f st res1 q by (auto simp: key repair_reply_def)
  qed (simp add: Some)
qed simp

text \<open>C29: a repair keeps the tables well formed: keys and ids stay distinct, a session's parent stays in the table, the
  queue holds a key once.\<close>

theorem repair_keeps_tables:
  assumes "fresh_mint (store_of env)" "list_all (\<lambda>(seen, db). db_ok (store_of env) (rd_raw db)) rounds"
  shows "case repair_raw_turn_attribution env now rq lu db0 rounds of
     Some (Inr (res, db')) \<Rightarrow> db_ok (store_of env) (rd_raw db') | _ \<Rightarrow> True"
proof -
  have "db_ok (store_of env) (rd_raw (snd out))" if "repair_rounds env now org i rq lu rounds = Some (Inr out)" for org i out
    using that
  proof (rule repair_rounds_commit)
    fix seen db row rd
    assume m: "(seen, db) \<in> set rounds"
      and r: "record_attribution_repair env now org i rq (effective_key env (rd_corrections seen) row) db = Inr (Some rd)"
      and e: "out = settle_repair env now org lu (effective_key env (rd_corrections seen) row) (rq_harness rq, rq_session rq) rd"
    obtain res1 db1 where rd: "rd = (res1, db1)" by (cases rd)
    have "db_ok (store_of env) (rd_raw db1)"
      using record_repair_ok [OF r [unfolded rd]] m assms by (auto simp: list_all_iff)
    then show ?thesis unfolding e by (intro settle_ok) (simp add: rd)
  qed
  then show ?thesis
    by (auto simp: repair_raw_turn_attribution_def split: option.split sum.split)
qed

text \<open>A turn captured under the wrong session, moved to the right one, the rebuild of the latter failing.\<close>

definition wit_repair_env :: repair_env where
  "wit_repair_env = store_env.extend wit_store
     \<lparr>ae_thread = (\<lambda>_. None), ae_parent = (\<lambda>_. None), ae_proxy_request = (\<lambda>_. None)\<rparr>"

definition wit_raw_db :: raw_db where
  "wit_raw_db = wit_db\<lparr>db_turns := [\<lparr>rw_id = 1, rw_org = nil_org_id, rw_put =
     \<lparr>rt_id = 0, rt_source = source_wire, rt_provider = ''anthropic'', rt_agent_name = ''claude'', rt_harness_id = ''cc'',
      rt_harness_session_id = ''s'', rt_request_id = [], rt_raw_request = [], rt_response = [], rt_meta = [],
      rt_session_envelope = [], rt_received_at = 4, su_raw_response = [], su_raw_response_encoding = [],
      rp_org_id = [], rp_raw_response_dropped = False\<rparr>\<rparr>]\<rparr>"

definition wit_repair_request :: repair_request where
  "wit_repair_request = \<lparr>rq_org_id = [], rq_raw_turn = 1, rq_proxy_request = [], rq_harness = ''cc'', rq_session = ''t'',
     rq_thread = [], rq_parent = Some ''p'', rq_reason = ''r''\<rparr>"

definition wit_luck :: repair_luck where
  "wit_luck = \<lparr>lu_lock = (\<lambda>_. True), lu_rederive = (\<lambda>k. snd k = ''s''), lu_cleanup = True, lu_mark = (\<lambda>_. True)\<rparr>"

definition wit_repair_db :: repair_db where
  "wit_repair_db = \<lparr>rd_raw = wit_raw_db, rd_corrections = []\<rparr>"

lemma wit_store_of [simp]: "store_of wit_repair_env = wit_store"
  by (simp add: wit_repair_env_def store_env.defs)

lemma wit_repair_ok: "db_ok wit_store (rd_raw wit_repair_db)"
  using store_reachable_ok [OF wit_db_reachable wit_fresh]
  by (simp add: db_ok_def wit_repair_db_def wit_raw_db_def turns_ok_def)

lemma wit_repair_runs:
  "case repair_raw_turn_attribution wit_repair_env 7 wit_repair_request wit_luck wit_repair_db [(wit_repair_db, wit_repair_db)] of
     Some (Inr (res, db')) \<Rightarrow> re_recorded res \<and> re_pending res = [(''cc'', ''t'')] \<and> length (db_sessions (rd_raw db')) = 2
   | _ \<Rightarrow> False"
  by code_simp

theorem repair_keeps_tables_witness:
  "case repair_raw_turn_attribution wit_repair_env 7 wit_repair_request wit_luck wit_repair_db [(wit_repair_db, wit_repair_db)] of
     Some (Inr (res, db')) \<Rightarrow> re_recorded res \<and> db_ok (store_of wit_repair_env) (rd_raw db') | _ \<Rightarrow> False"
  using repair_keeps_tables [of wit_repair_env "[(wit_repair_db, wit_repair_db)]" 7 wit_repair_request wit_luck wit_repair_db]
    wit_repair_runs wit_repair_ok wit_fresh
  by (auto split: option.splits sum.splits)

end
