(* ===== verification/SessionPages.thy ===== *)
theory SessionPages
  imports SessionApi
begin

text \<open>
  What the session API promises: following the cursors of a listing visits every matching session once,
  in order; a deletion takes a session with everything under it and leaves nothing that refers to it; a
  rename touches one column of one row; and a title is never empty.
\<close>

subsection \<open>Order\<close>

lemma sorted_by_two:
  fixes f :: "'a \<Rightarrow> 'b::linorder" and g :: "'a \<Rightarrow> 'c::linorder"
  assumes "sorted (map f xs)" "\<And>k. sorted (map g (filter (\<lambda>x. f x = k) xs))"
  shows "sorted_wrt (\<lambda>a b. f a < f b \<or> f a = f b \<and> g a \<le> g b) xs"
  using assms
proof (induction xs)
  case (Cons x xs)
  have "f x < f y \<or> f x = f y \<and> g x \<le> g y" if "y \<in> set xs" for y
  proof (cases "f x = f y")
    case True
    with Cons.prems(2) [of "f x"] that show ?thesis by auto
  next
    case False
    with Cons.prems(1) that show ?thesis by auto
  qed
  moreover have "sorted (map g (filter (\<lambda>x. f x = k) xs))" for k
    using Cons.prems(2) [of k] by (auto split: if_splits)
  ultimately show ?case using Cons.IH Cons.prems(1) by auto
qed simp

lemma sort_key_two_sorted:
  fixes f :: "'a \<Rightarrow> 'b::linorder" and g :: "'a \<Rightarrow> 'c::linorder"
  shows "sorted_wrt (\<lambda>a b. f a < f b \<or> f a = f b \<and> g a \<le> g b) (sort_key f (sort_key g xs))"
proof (rule sorted_by_two)
  fix k
  have "filter (\<lambda>x. f x = k) (sort_key f (sort_key g xs)) = sort_key g (filter (\<lambda>x. f x = k) xs)"
    by (subst sort_key_stable) (rule filter_sort)
  then show "sorted (map g (filter (\<lambda>x. f x = k) (sort_key f (sort_key g xs))))" by simp
qed simp

lemma sorted_wrt_distinct: "sorted_wrt R xs \<Longrightarrow> distinct xs \<Longrightarrow> sorted_wrt (\<lambda>a b. R a b \<and> a \<noteq> b) xs"
  by (induction xs) auto

lemma behind_asym: "behind (a, b) c d \<Longrightarrow> \<not> behind (c, d) a b"
  by (auto simp: behind_def)

lemma behind_irrefl: "\<not> behind (a, b) a b"
  by (simp add: behind_def)

text \<open>Behind one of its rows, a strictly ordered list goes on with the rows after it.\<close>

lemma filter_behind:
  assumes "sorted_wrt (\<lambda>a b. behind (f a, g a) (f b) (g b)) (xs @ x # ys)"
  shows "filter (\<lambda>y. behind (f x, g x) (f y) (g y)) (xs @ x # ys) = ys"
proof -
  have "filter (\<lambda>y. behind (f x, g x) (f y) (g y)) xs = []"
    using assms behind_asym by (simp add: sorted_wrt_append filter_empty_conv)
  moreover have "filter (\<lambda>y. behind (f x, g x) (f y) (g y)) ys = ys"
    using assms by (simp add: sorted_wrt_append filter_id_conv)
  ultimately show ?thesis by (simp add: behind_irrefl)
qed

subsection \<open>A listing\<close>

definition listing :: "('e) session_env_scheme \<Rightarrow> pg_uuid \<Rightarrow> sort_column \<Rightarrow> session_list_opts \<Rightarrow> session_db \<Rightarrow> stored_session list" where
  "listing env oid col opts db =
     list_order env col (lo_dir opts) (sd_spans db) (filter (list_filter oid opts (sd_spans db)) (sd_rows db))"

lemma listing_strict:
  assumes "inj_on (\<lambda>r. uuid_rank (sr_id r)) (set (sd_rows db))" "distinct (sd_rows db)"
  shows "sorted_wrt (\<lambda>a b. behind (row_rank env col (lo_dir opts) (sd_spans db) a, id_rank (lo_dir opts) a)
      (row_rank env col (lo_dir opts) (sd_spans db) b) (id_rank (lo_dir opts) b)) (listing env oid col opts db)"
proof -
  let ?f = "row_rank env col (lo_dir opts) (sd_spans db)" and ?g = "id_rank (lo_dir opts)"
  have s: "sorted_wrt (\<lambda>a b. ?f a < ?f b \<or> ?f a = ?f b \<and> ?g a \<le> ?g b) (listing env oid col opts db)"
    unfolding listing_def list_order_def by (rule sort_key_two_sorted)
  have "distinct (listing env oid col opts db)" using assms(2) by (simp add: listing_def list_order_def)
  from sorted_wrt_distinct [OF s this] show ?thesis
  proof (rule sorted_wrt_mono_rel [rotated])
    fix a b
    assume ab: "a \<in> set (listing env oid col opts db)" "b \<in> set (listing env oid col opts db)"
      "(?f a < ?f b \<or> ?f a = ?f b \<and> ?g a \<le> ?g b) \<and> a \<noteq> b"
    then have "a \<in> set (sd_rows db)" "b \<in> set (sd_rows db)" by (auto simp: listing_def list_order_def)
    then have "uuid_rank (sr_id a) \<noteq> uuid_rank (sr_id b)" using ab(3) assms(1) by (auto simp: inj_on_def)
    then have "?g a \<noteq> ?g b" by (simp add: id_rank_def directed_def)
    with ab(3) show "behind (?f a, ?g a) (?f b) (?g b)" by (auto simp: behind_def)
  qed
qed

subsection \<open>Following the cursors\<close>

text \<open>What the listing relies on: texts of columns and ids read back, tokens decode to what they encode, and
  no two rows share an id.\<close>

definition listing_laws :: "('e) api_env_scheme \<Rightarrow> sort_column \<Rightarrow> session_db \<Rightarrow> bool" where
  "listing_laws env col db \<longleftrightarrow>
     (\<forall>c. av_decode_cursor env (av_encode_cursor env c) = Some c \<and> av_encode_cursor env c \<noteq> [])
     \<and> (\<forall>r \<in> set (sd_rows db).
          let v = column_of (co_col col) (sb_rollups (sd_spans db) (sr_id r)) r
          in rv_cast env (co_cast col) (rv_column_text env v) = Some v
             \<and> (co_cast col = ''text'' \<or> rv_column_text env v \<noteq> [])
             \<and> uuid_valid (sr_id r) \<and> rv_cast_uuid env (rv_render_uuid env (uuid_bytes (sr_id r))) = Some (uuid_bytes (sr_id r))
             \<and> rv_render_uuid env (uuid_bytes (sr_id r)) \<noteq> [])
     \<and> distinct (map (\<lambda>r. uuid_rank (sr_id r)) (sd_rows db))"

text \<open>A reader that asks for the next page until there is none, with at most \<open>n\<close> requests.\<close>

fun walk_pages :: "('e) api_env_scheme \<Rightarrow> gotime \<Rightarrow> list_query \<Rightarrow> session_db \<Rightarrow> nat \<Rightarrow> string \<Rightarrow> session_item list option" where
  "walk_pages env now q db 0 token = None"
| "walk_pages env now q db (Suc n) token =
     (case handle_list_sessions env now (q\<lparr>lq_cursor := token\<rparr>) db of
        (st, SessionList items nxt) \<Rightarrow>
          if nxt = [] then Some items else map_option (\<lambda>rest. items @ rest) (walk_pages env now q db n nxt)
      | _ \<Rightarrow> None)"

text \<open>The token of a row, none at the start.\<close>

definition row_token :: "('e) api_env_scheme \<Rightarrow> string \<Rightarrow> sort_column \<Rightarrow> string \<Rightarrow> session_db \<Rightarrow> stored_session list \<Rightarrow> string" where
  "row_token env srt col dir db done_rows =
     (if done_rows = [] then []
      else let r = last done_rows
           in av_encode_cursor env (srt, dir, rv_column_text env (column_of (co_col col) (sb_rollups (sd_spans db) (sr_id r)) r),
                uuid_string (rv_render_uuid env) (sr_id r)))"

lemma with_sort_val_fields:
  "se_id (with_sort_val env col spans r) = uuid_string (rv_render_uuid env) (sr_id r)"
  "se_sort_val (with_sort_val env col spans r) = rv_column_text env (column_of (co_col col) (sb_rollups spans (sr_id r)) r)"
  by (simp_all add: with_sort_val_def full_record_def attach_preview_def session_record_from_row_def split: prod.split)

lemma cursor_rank_of_row:
  assumes "listing_laws env col db" "r \<in> set (sd_rows db)"
  shows "cursor_rank env col dir (rv_column_text env (column_of (co_col col) (sb_rollups (sd_spans db) (sr_id r)) r),
      uuid_string (rv_render_uuid env) (sr_id r)) = Some (row_rank env col dir (sd_spans db) r, id_rank dir r)"
proof -
  have "uuid_rank \<lparr>uuid_bytes = uuid_bytes (sr_id r), uuid_valid = True\<rparr> = uuid_rank (sr_id r)"
    by (simp add: uuid_rank_def)
  then show ?thesis
    using assms by (simp add: listing_laws_def Let_def cursor_rank_def uuid_string_def row_rank_def id_rank_def)
qed

text \<open>The request of a listing, and the options it makes of it.\<close>

definition list_request ::
  "('e) api_env_scheme \<Rightarrow> list_query \<Rightarrow> int \<Rightarrow> string \<Rightarrow> string \<Rightarrow> gotime option \<Rightarrow> gotime option \<Rightarrow> bool"
where
  "list_request env q limit srt dir since until \<longleftrightarrow>
     lq_harness_id q = [] \<and> lq_harness_session_id q = [] \<and> query_limit (lq_limit q) = Some limit
     \<and> parse_session_sort_field (lq_sort q) = Some srt \<and> parse_sort_direction (lq_direction q) = Some dir
     \<and> query_time env (lq_since q) = Some since \<and> query_time env (lq_until q) = Some until"

definition request_opts :: "list_query \<Rightarrow> int \<Rightarrow> string \<Rightarrow> string \<Rightarrow> gotime option \<Rightarrow> gotime option \<Rightarrow> (string \<times> string) option \<Rightarrow> session_list_opts" where
  "request_opts q limit srt dir since until c =
     \<lparr>lo_limit = limit + 1, lo_sort = srt, lo_dir = dir, lo_cursor = c, lo_since = since, lo_until = until,
      lo_auth_subject = lq_auth_subject q\<rparr>"

lemma parsed_sort_nonempty: "parse_session_sort_field raw = Some srt \<Longrightarrow> srt \<noteq> []"
  by (auto simp: parse_session_sort_field_def session_sort_column_def sort_last_active_def split: if_splits)

lemma parsed_dir_nonempty: "parse_sort_direction raw = Some dir \<Longrightarrow> dir \<noteq> []"
  by (auto simp: parse_sort_direction_def sort_asc_def sort_desc_def split: if_splits)

lemma query_limit_pos: "query_limit raw = Some limit \<Longrightarrow> 0 < limit"
  by (auto simp: query_limit_def default_sessions_limit_def max_sessions_limit_def split: if_splits option.splits)

lemma list_records_page:
  assumes laws: "listing_laws env col db" and col: "session_sort_column srt = Some col" and org: "org_id_from_string (rv_parse_uuid env) org = Inr oid"
    and ne: "srt \<noteq> []" "dir \<noteq> []" "0 < limit"
    and split: "listing env oid col (request_opts q limit srt dir since until None) db = xs @ ys"
  shows "list_session_records env org (request_opts q limit srt dir since until
      (if xs = [] then None else Some (rv_column_text env (column_of (co_col col) (sb_rollups (sd_spans db) (sr_id (last xs))) (last xs)),
         uuid_string (rv_render_uuid env) (sr_id (last xs))))) db =
    Inr (map (with_sort_val env col (sd_spans db)) (take (nat (limit + 1)) ys))"
proof -
  let ?opts = "request_opts q limit srt dir since until"
  let ?rows = "filter (list_filter oid (?opts None) (sd_spans db)) (sd_rows db)"
  have filt: "list_filter oid (?opts (Some c)) = list_filter oid (?opts None)" for c
    by (simp add: fun_eq_iff list_filter_def request_opts_def)
  have lst: "list_order env col dir (sd_spans db) ?rows = xs @ ys"
    using split by (simp add: listing_def request_opts_def)
  show ?thesis
  proof (cases "xs = []")
    case True
    with lst show ?thesis
      using col org ne by (simp add: list_session_records_def request_opts_def Let_def)
  next
    case False
    then obtain ws x where xs: "xs = ws @ [x]" by (cases xs rule: rev_cases) auto
    have "x \<in> set (list_order env col dir (sd_spans db) ?rows)" by (simp add: lst xs)
    then have x: "x \<in> set (sd_rows db)" by (simp add: list_order_def)
    let ?b = "\<lambda>r. behind (row_rank env col dir (sd_spans db) x, id_rank dir x) (row_rank env col dir (sd_spans db) r) (id_rank dir r)"
    have "sorted_wrt (\<lambda>a b. behind (row_rank env col dir (sd_spans db) a, id_rank dir a)
      (row_rank env col dir (sd_spans db) b) (id_rank dir b)) (ws @ x # ys)"
      using listing_strict [of db env col "?opts None" oid] laws split xs
      by (simp add: listing_laws_def request_opts_def distinct_map inj_on_def)
    from filter_behind [OF this] have "filter ?b (list_order env col dir (sd_spans db) ?rows) = ys"
      by (simp add: lst xs)
    then have "list_order env col dir (sd_spans db) (filter ?b ?rows) = ys"
      by (simp only: list_order_def filter_sort)
    then show ?thesis
      using cursor_rank_of_row [OF laws x] col org ne xs
      by (simp add: list_session_records_def request_opts_def filt [unfolded request_opts_def] Let_def)
  qed
qed

text \<open>The reply to the request for the rows after \<open>xs\<close>.\<close>

lemma list_reply:
  assumes laws: "listing_laws env col db" and req: "list_request env q limit srt dir since until"
    and col: "session_sort_column srt = Some col" and org: "org_id_from_string (rv_parse_uuid env) single_tenant_org_id = Inr oid"
    and split: "listing env oid col (request_opts q limit srt dir since until None) db = xs @ ys"
  shows "handle_list_sessions env now (q\<lparr>lq_cursor := row_token env srt col dir db xs\<rparr>) db =
    (200, SessionList (map (\<lambda>r. session_item_from_storage env now (with_sort_val env col (sd_spans db) r)) (take (nat limit) ys))
       (if nat limit < length ys then row_token env srt col dir db (xs @ take (nat limit) ys) else []))"
proof -
  let ?w = "with_sort_val env col (sd_spans db)" and ?n = "nat limit"
  note r = req [unfolded list_request_def]
  have pos: "0 < limit" using r query_limit_pos by blast
  have ne: "srt \<noteq> []" "dir \<noteq> []" using r parsed_sort_nonempty parsed_dir_nonempty by blast+
  define c where "c = (if xs = [] then None else Some (rv_column_text env (column_of (co_col col) (sb_rollups (sd_spans db) (sr_id (last xs))) (last xs)),
         uuid_string (rv_render_uuid env) (sr_id (last xs))))"
  have cur: "query_cursor env srt dir (row_token env srt col dir db xs) f = f c" for f
  proof (cases "xs = []")
    case False
    then have "last xs \<in> set (listing env oid col (request_opts q limit srt dir since until None) db)" by (simp add: split)
    then have "last xs \<in> set (sd_rows db)" by (simp add: listing_def list_order_def)
    with laws False ne col show ?thesis
      by (auto simp: query_cursor_def row_token_def c_def listing_laws_def Let_def decode_sessions_cursor_def uuid_string_def
        require_def check_def)
  qed (simp add: query_cursor_def row_token_def c_def)
  have recs: "list_session_records env single_tenant_org_id (request_opts q limit srt dir since until c) db =
      Inr (map ?w (take (nat (limit + 1)) ys))"
    unfolding c_def by (rule list_records_page [OF laws col org ne pos split])
  have n: "nat (limit + 1) = Suc ?n" using pos by simp
  have reply: "handle_list_sessions env now (q\<lparr>lq_cursor := row_token env srt col dir db xs\<rparr>) db =
      list_page_reply env now ?n srt dir (map ?w (take (Suc ?n) ys))"
    using r recs [unfolded request_opts_def] by (simp add: handle_list_sessions_def require_def cur served_def n)
  have page: "take ?n (take (Suc ?n) ys) = take ?n ys" by (simp add: min_def)
  show ?thesis
  proof (cases "?n < length ys")
    case True
    then have "take ?n ys \<noteq> []" using pos by auto
    with True show ?thesis
      unfolding reply by (simp add: list_page_reply_def take_map page last_map with_sort_val_fields row_token_def Let_def comp_def)
  qed (simp add: reply list_page_reply_def take_map page comp_def)
qed

lemma walk_from:
  assumes laws: "listing_laws env col db" and req: "list_request env q limit srt dir since until"
    and col: "session_sort_column srt = Some col" and org: "org_id_from_string (rv_parse_uuid env) single_tenant_org_id = Inr oid"
  shows "listing env oid col (request_opts q limit srt dir since until None) db = xs @ ys \<Longrightarrow> length ys < n \<Longrightarrow>
    walk_pages env now q db n (row_token env srt col dir db xs) =
      Some (map (\<lambda>r. session_item_from_storage env now (with_sort_val env col (sd_spans db) r)) ys)"
proof (induction n arbitrary: xs ys)
  case (Suc n)
  have pos: "0 < nat limit" using req query_limit_pos by (auto simp: list_request_def)
  note reply = list_reply [OF laws req col org Suc.prems(1), of now]
  show ?case
  proof (cases "nat limit < length ys")
    case True
    then have "xs @ take (nat limit) ys \<noteq> []" using pos by auto
    then have tok: "row_token env srt col dir db (xs @ take (nat limit) ys) \<noteq> []"
      using laws by (auto simp: row_token_def listing_laws_def Let_def)
    have "listing env oid col (request_opts q limit srt dir since until None) db = (xs @ take (nat limit) ys) @ drop (nat limit) ys"
      using Suc.prems(1) by simp
    from Suc.IH [OF this] have "walk_pages env now q db n (row_token env srt col dir db (xs @ take (nat limit) ys)) =
      Some (map (\<lambda>r. session_item_from_storage env now (with_sort_val env col (sd_spans db) r)) (drop (nat limit) ys))"
      using Suc.prems(2) True pos by simp
    then show ?thesis
      using True tok by (simp add: reply) (metis append_take_drop_id map_append)
  qed (simp add: reply)
qed simp

subsection \<open>Deletion\<close>

text \<open>A session under \<open>root\<close>: the root's own row, or one whose parent is under it.\<close>

inductive descends :: "stored_session list \<Rightarrow> pg_uuid \<Rightarrow> pg_uuid \<Rightarrow> pg_uuid \<Rightarrow> bool" for rows :: "stored_session list" and org root :: pg_uuid where
  descends_root: "r \<in> set rows \<Longrightarrow> sr_org r = org \<Longrightarrow> sr_id r = root \<Longrightarrow> descends rows org root (sr_id r)"
| descends_child: "r \<in> set rows \<Longrightarrow> sr_parent r = Some p \<Longrightarrow> descends rows org root p \<Longrightarrow> descends rows org root (sr_id r)"

lemma cascade_Suc: "cascade_ids (Suc n) rows ids = with_children rows (cascade_ids n rows ids)"
  by (induction n arbitrary: ids) simp_all

lemma with_children_grows: "set ids \<subseteq> sr_id ` set rows \<Longrightarrow> set ids \<subseteq> set (with_children rows ids)"
  by (auto simp: with_children_def)

lemma with_children_rows: "set (with_children rows ids) \<subseteq> sr_id ` set rows"
  by (auto simp: with_children_def)

lemma cascade_rows: "set ids \<subseteq> sr_id ` set rows \<Longrightarrow> set (cascade_ids n rows ids) \<subseteq> sr_id ` set rows"
  by (induction n arbitrary: ids) (simp_all add: with_children_rows)

lemma with_children_cong: "set ids = set ids' \<Longrightarrow> with_children rows ids = with_children rows ids'"
  by (simp add: with_children_def cong: option.case_cong)

text \<open>A cascade grows until it is closed, and it cannot outgrow the table.\<close>

lemma cascade_grows_or_closed:
  assumes "set ids \<subseteq> sr_id ` set rows"
  shows "n \<le> card (set (cascade_ids n rows ids)) \<or> set (with_children rows (cascade_ids n rows ids)) = set (cascade_ids n rows ids)"
proof (induction n)
  case (Suc n)
  let ?A = "cascade_ids n rows ids"
  have sub: "set ?A \<subseteq> set (with_children rows ?A)" by (intro with_children_grows cascade_rows assms)
  show ?case
  proof (cases "set (with_children rows ?A) = set ?A")
    case True
    have "with_children rows (with_children rows ?A) = with_children rows ?A" by (rule with_children_cong [OF True])
    then show ?thesis by (simp add: cascade_Suc del: cascade_ids.simps)
  next
    case False
    with sub have "card (set ?A) < card (set (with_children rows ?A))" by (intro psubset_card_mono) auto
    with Suc False show ?thesis by (simp add: cascade_Suc del: cascade_ids.simps)
  qed
qed simp

lemma cascade_closed:
  assumes "set ids \<subseteq> sr_id ` set rows"
  shows "set (with_children rows (cascade_ids (length rows) rows ids)) = set (cascade_ids (length rows) rows ids)"
proof -
  let ?A = "cascade_ids (length rows) rows ids"
  have sub: "set ?A \<subseteq> sr_id ` set rows" "set ?A \<subseteq> set (with_children rows ?A)"
    by (intro with_children_grows cascade_rows assms)+
  consider "length rows \<le> card (set ?A)" | "set (with_children rows ?A) = set ?A"
    using cascade_grows_or_closed [OF assms] by blast
  then show ?thesis
  proof cases
    case 1
    have "card (sr_id ` set rows) \<le> length rows" by (metis card_length card_image_le finite_set le_trans)
    with 1 sub(1) have "set ?A = sr_id ` set rows" by (intro card_seteq) auto
    with sub(2) with_children_rows show ?thesis by blast
  qed
qed

lemma cascade_descends:
  fixes rows org root
  defines "ids \<equiv> map sr_id (filter (\<lambda>r. sr_org r = org \<and> sr_id r = root) rows)"
  shows "set (cascade_ids (length rows) rows ids) = {i. descends rows org root i}"
proof
  have "set (cascade_ids n rows js) \<subseteq> {i. descends rows org root i}" if "set js \<subseteq> {i. descends rows org root i}" for n js
    using that
  proof (induction n arbitrary: js)
    case (Suc n)
    have "set (with_children rows js) \<subseteq> {i. descends rows org root i}"
      using Suc.prems by (auto simp: with_children_def split: option.splits dest!: subsetD [OF Suc.prems] intro: descends_child)
    with Suc.IH show ?case by simp
  qed simp
  moreover have "set ids \<subseteq> {i. descends rows org root i}" by (auto simp: ids_def intro: descends_root)
  ultimately show "set (cascade_ids (length rows) rows ids) \<subseteq> {i. descends rows org root i}" .
next
  have sub: "set ids \<subseteq> sr_id ` set rows" by (auto simp: ids_def)
  have grow: "set ids \<subseteq> set (cascade_ids n rows ids)" for n
  proof (induction n)
    case (Suc n)
    with with_children_grows [OF cascade_rows [OF sub, of n]] show ?case by (auto simp only: cascade_Suc)
  qed simp
  show "{i. descends rows org root i} \<subseteq> set (cascade_ids (length rows) rows ids)"
  proof
    fix i
    assume "i \<in> {i. descends rows org root i}"
    then have "descends rows org root i" by simp
    then show "i \<in> set (cascade_ids (length rows) rows ids)"
    proof induction
      case (descends_root r)
      then show ?case using grow by (auto simp: ids_def)
    next
      case (descends_child r p)
      then have "sr_id r \<in> set (with_children rows (cascade_ids (length rows) rows ids))"
        by (auto simp: with_children_def)
      then show ?case by (simp only: cascade_closed [OF sub])
    qed
  qed
qed

subsection \<open>Samples\<close>

text \<open>A token: its four parts, each character escaped and each part ended.\<close>

definition escape_part :: "string \<Rightarrow> string" where
  "escape_part s = concat (map (\<lambda>c. [CHR ''a'', c]) s) @ ''b''"

fun unescape_part :: "string \<Rightarrow> string \<times> string" where
  "unescape_part (x # c # r) = (if x = CHR ''a'' then (let (s, r') = unescape_part r in (c # s, r')) else ([], c # r))"
| "unescape_part (x # []) = ([], [])"
| "unescape_part [] = ([], [])"

lemma unescape_escape: "unescape_part (escape_part s @ r) = (s, r)"
proof (induction s)
  case Nil
  then show ?case by (cases r) (simp_all add: escape_part_def)
qed (simp add: escape_part_def)

definition sample_encode :: "string \<times> string \<times> string \<times> string \<Rightarrow> string" where
  "sample_encode = (\<lambda>(a, b, c, d). escape_part a @ escape_part b @ escape_part c @ escape_part d)"

definition sample_decode :: "string \<Rightarrow> (string \<times> string \<times> string \<times> string) option" where
  "sample_decode t =
     (let (a, r1) = unescape_part t; (b, r2) = unescape_part r1; (c, r3) = unescape_part r2; (d, _) = unescape_part r3
      in Some (a, b, c, d))"

lemma sample_decode_encode: "sample_decode (sample_encode c) = Some c" "sample_encode c \<noteq> []"
proof -
  obtain a b d e where c: "c = (a, b, d, e)" by (cases c)
  show "sample_decode (sample_encode c) = Some c"
    using unescape_escape [of e "[]"] by (simp add: c sample_decode_def sample_encode_def unescape_escape)
  show "sample_encode c \<noteq> []" by (simp add: c sample_encode_def escape_part_def)
qed

definition sample_api_env :: api_env where
  "sample_api_env =
     \<lparr>rv_parse_uuid = Some, rv_render_uuid = (\<lambda>b. b), rv_round = (\<lambda>x. x),
      rv_collate = (\<lambda>s. of_nat (foldl (\<lambda>n c. n * 256 + of_char c) 0 s)), rv_metadata = (\<lambda>_. None), rv_model_usage = (\<lambda>_. None),
      rv_json_valid = (\<lambda>_. False), rv_column_text = (\<lambda>v. case v of ColText s \<Rightarrow> s | _ \<Rightarrow> []),
      rv_cast = (\<lambda>ty s. Some (ColText s)), rv_cast_uuid = Some, av_encode_cursor = sample_encode, av_decode_cursor = sample_decode,
      av_parse_rfc3339 = (\<lambda>_. None), av_tasks = (\<lambda>_. []), av_kind_counts = (\<lambda>_. []), av_body = (\<lambda>_. None)\<rparr>"

definition sample_stored :: "string \<Rightarrow> string \<Rightarrow> stored_session" where
  "sample_stored i subject =
     \<lparr>sr_id = \<lparr>uuid_bytes = i, uuid_valid = True\<rparr>, sr_org = \<lparr>uuid_bytes = single_tenant_org_id, uuid_valid = True\<rparr>,
      sr_harness_id = ''h'', sr_harness_session_id = i, sr_auth_subject = subject, sr_name = None, sr_cwd = None,
      sr_harness_version = None, sr_parent = None, sr_started_at = 1000, sr_last_seen_at = 2000, sr_metadata = [],
      sr_derived_title = None, sd_ended_at = None, sd_display_name = None\<rparr>"

definition sample_session_db :: session_db where
  "sample_session_db =
     \<lparr>sd_rows = [sample_stored ''1'' ''u'', sample_stored ''2'' ''v'', sample_stored ''3'' ''u''],
      sd_spans = \<lparr>sb_turns = [], sb_spans = [], sb_links = [],
        sb_rollups = (\<lambda>_. \<lparr>ro_cost = 0, ro_input_tokens = 0, ro_output_tokens = 0, ro_turn_count = 0, ro_model_usage = None,
          ro_title = None, ro_tasks = None, ro_kind_counts = None, ro_git_activity = False, ro_tool_results = 0,
          ro_tool_errors = 0, ro_status = [], ro_model = []\<rparr>)\<rparr>\<rparr>"

definition sample_query :: list_query where
  "sample_query = \<lparr>lq_limit = ''1'', lq_sort = ''auth_subject'', lq_direction = ''asc'', lq_cursor = [], lq_since = [], lq_until = [],
     lq_auth_subject = [], lq_harness_id = [], lq_harness_session_id = []\<rparr>"

definition subject_column :: sort_column where
  "subject_column = \<lparr>co_col = ''auth_subject'', co_cast = ''text''\<rparr>"

lemma sample_laws: "listing_laws sample_api_env subject_column sample_session_db"
proof -
  have col: "column_of ''auth_subject'' ro r = ColText (sr_auth_subject r)" for ro r
    by (simp add: column_of_def)
  have "distinct (map (\<lambda>r. uuid_rank (sr_id r)) (sd_rows sample_session_db))"
    by (simp add: sample_session_db_def sample_stored_def uuid_rank_def)
  then show ?thesis
    using sample_decode_encode
    by (auto simp: listing_laws_def sample_api_env_def subject_column_def sample_session_db_def sample_stored_def col)
qed

lemma sample_request: "list_request sample_api_env sample_query 1 ''auth_subject'' ''asc'' None None"
  by (simp add: list_request_def sample_query_def query_limit_def parse_int_def is_digit_def int64_ok_def max_sessions_limit_def
    parse_session_sort_field_def session_sort_column_def parse_sort_direction_def sort_asc_def sort_desc_def sort_last_active_def
    query_time_def)

subsection \<open>Properties\<close>

text \<open>C13: following the cursors of a session listing visits every matching session exactly once. A reader
  that starts without a cursor and asks for the next page until none is offered gets, whatever the sort
  field, the direction, the limit and the filters, the items of all sessions that match, in the order of
  the listing, and is done after at most one request more than there are sessions. It rests on texts
  of columns and ids that read back and on distinct ids; the table must not change meanwhile.\<close>

theorem pages_list_each_session_once:
  assumes "listing_laws env col db" "list_request env q limit srt dir since until"
    "session_sort_column srt = Some col" "org_id_from_string (rv_parse_uuid env) single_tenant_org_id = Inr oid"
  shows "walk_pages env now q db (Suc (length (sd_rows db))) [] =
    Some (map (\<lambda>r. session_item_from_storage env now (with_sort_val env col (sd_spans db) r))
           (list_order env col dir (sd_spans db)
             (filter (\<lambda>r. sr_org r = oid \<and> active_in_window oid since until (sd_spans db) r
                          \<and> (lq_auth_subject q = [] \<or> sr_auth_subject r = lq_auth_subject q)) (sd_rows db))))"
proof -
  let ?L = "listing env oid col (request_opts q limit srt dir since until None) db"
  have "length ?L \<le> length (sd_rows db)" by (simp add: listing_def list_order_def)
  then have "walk_pages env now q db (Suc (length (sd_rows db))) (row_token env srt col dir db []) =
      Some (map (\<lambda>r. session_item_from_storage env now (with_sort_val env col (sd_spans db) r)) ?L)"
    by (intro walk_from [OF assms]) simp_all
  moreover have "list_filter oid (request_opts q limit srt dir since until None) (sd_spans db) =
      (\<lambda>r. sr_org r = oid \<and> active_in_window oid since until (sd_spans db) r
            \<and> (lq_auth_subject q = [] \<or> sr_auth_subject r = lq_auth_subject q))"
    by (simp add: fun_eq_iff list_filter_def request_opts_def)
  ultimately show ?thesis
    by (simp add: row_token_def listing_def) (simp add: request_opts_def)
qed

theorem pages_list_each_session_once_witness:
  "case walk_pages sample_api_env 5000 sample_query sample_session_db 4 [] of
     None \<Rightarrow> False
   | Some items \<Rightarrow> map (\<lambda>it. se_id (it_record it)) items = [''1'', ''3'', ''2'']"
proof -
  let ?org = "\<lparr>uuid_bytes = single_tenant_org_id, uuid_valid = True\<rparr>"
  let ?item = "\<lambda>r. session_item_from_storage sample_api_env 5000 (with_sort_val sample_api_env subject_column (sd_spans sample_session_db) r)"
  let ?L = "list_order sample_api_env subject_column ''asc'' (sd_spans sample_session_db) (sd_rows sample_session_db)"
  have rows: "Suc (length (sd_rows sample_session_db)) = 4" by (simp add: sample_session_db_def)
  have col: "session_sort_column ''auth_subject'' = Some subject_column"
    by (simp add: session_sort_column_def subject_column_def sort_last_active_def)
  have org: "org_id_from_string (rv_parse_uuid sample_api_env) single_tenant_org_id = Inr ?org"
    by (simp add: org_id_from_string_def sample_api_env_def single_tenant_org_id_def)
  have all: "filter (\<lambda>r. sr_org r = ?org) (sd_rows sample_session_db) = sd_rows sample_session_db"
    by (simp add: sample_session_db_def sample_stored_def)
  have walk: "walk_pages sample_api_env 5000 sample_query sample_session_db 4 [] = Some (map ?item ?L)"
    using pages_list_each_session_once [OF sample_laws sample_request col org, of 5000] all
    by (simp add: rows active_in_window_def sample_query_def)
  have ids: "map (\<lambda>r. uuid_bytes (sr_id r)) ?L = [''1'', ''3'', ''2'']" by code_simp
  have "se_id (it_record (?item r)) = uuid_bytes (sr_id r)" if "r \<in> set ?L" for r
  proof -
    have "r \<in> set (sd_rows sample_session_db)" using that by (simp add: list_order_def)
    then have "uuid_valid (sr_id r)" by (auto simp: sample_session_db_def sample_stored_def)
    then show ?thesis by (simp add: session_item_from_storage_def with_sort_val_fields uuid_string_def sample_api_env_def)
  qed
  then have "map (\<lambda>it. se_id (it_record it)) (map ?item ?L) = map (\<lambda>r. uuid_bytes (sr_id r)) ?L"
    by (simp add: comp_def)
  then show ?thesis by (simp add: walk ids)
qed

text \<open>C14: deleting a session tears down its whole subtree and nothing else. The rows that go are those of
  the session, of its children and of theirs, however deep; the traces, spans and links that go are
  those of these sessions, and the spans of their traces; every other row stays as it was, and no row
  that stays has a parent that went. An id that is not one or that the organisation does not have
  deletes nothing.\<close>

theorem delete_takes_subtree:
  "case (org_id_from_string (rv_parse_uuid env) org, parsed_id env i, delete_session env org i db) of
     (Inr oid, Some sid, Inr (deleted, db')) \<Rightarrow>
       (let gone = {j. descends (sd_rows db) oid sid j}
        in deleted = (gone \<noteq> {})
           \<and> sd_rows db' = filter (\<lambda>r. sr_id r \<notin> gone) (sd_rows db)
           \<and> {r \<in> set (sd_rows db'). sr_parent r \<in> Some ` gone} = {}
           \<and> sb_turns (sd_spans db') = filter (\<lambda>t. tw_session t \<notin> gone) (sb_turns (sd_spans db))
           \<and> sb_links (sd_spans db') = filter (\<lambda>l. lw_session l \<notin> gone) (sb_links (sd_spans db))
           \<and> set (sb_spans (sd_spans db')) =
               {s \<in> set (sb_spans (sd_spans db)). pw_session s \<notin> gone
                  \<and> TurnKey (pw_org s) (pw_trace s) \<notin> turn_row_key ` {t \<in> set (sb_turns (sd_spans db)). tw_session t \<in> gone}})
   | (Inr _, None, Inr (deleted, db')) \<Rightarrow> \<not> deleted \<and> db' = db
   | (Inl _, _, r) \<Rightarrow> isl r
   | _ \<Rightarrow> False"
proof (cases "org_id_from_string (rv_parse_uuid env) org")
  case (Inl e)
  then show ?thesis by (simp add: delete_session_def and_then_def)
next
  case oid: (Inr oid)
  show ?thesis
  proof (cases "parsed_id env i")
    case None
    with oid show ?thesis by (simp add: delete_session_def)
  next
    case (Some sid)
    define ids where "ids = map sr_id (filter (\<lambda>r. sr_org r = oid \<and> sr_id r = sid) (sd_rows db))"
    define gone where "gone = {j. descends (sd_rows db) oid sid j}"
    have set: "set (cascade_ids (length (sd_rows db)) (sd_rows db) ids) = gone"
      unfolding ids_def gone_def by (rule cascade_descends)
    have none: "gone = {} \<longleftrightarrow> ids = []"
    proof
      assume "gone = {}"
      then show "ids = []" by (auto simp: gone_def ids_def filter_empty_conv intro: descends_root)
    next
      assume none: "ids = []"
      have "\<not> descends (sd_rows db) oid sid j" for j
      proof
        assume "descends (sd_rows db) oid sid j"
        then show False by induction (use none in \<open>auto simp: ids_def filter_empty_conv\<close>)
      qed
      then show "gone = {}" by (simp add: gone_def)
    qed
    have root: "filter (\<lambda>r. sr_org r = oid \<and> sr_id r = sid) (sd_rows db) = [] \<longleftrightarrow> gone = {}"
      unfolding none by (simp add: ids_def)
    have "{r. r \<in> set (sd_rows db) \<and> sr_id r \<notin> gone \<and> sr_parent r \<in> Some ` gone} = {}"
      by (auto simp: gone_def intro: descends_child)
    then show ?thesis
      using oid Some
      by (simp add: delete_session_def root ids_def [symmetric] gone_def [symmetric] set without_sessions_def Let_def) auto
  qed
qed

end
