(* ===== verification/TraceViews.thy ===== *)
theory TraceViews
  imports TraceApi RepairFacts SessionPages
begin

text \<open>
  What the readers of traces may rely on: the three views of a trace say the same, a preview is bounded and keeps the
  structure, and the wire log follows a repair.
\<close>

subsection \<open>Views of a trace\<close>

text \<open>The tables as a projection leaves them for one tenant: a trace once, a span in the session of its trace.\<close>

definition spans_sound :: "pg_uuid \<Rightarrow> span_db \<Rightarrow> bool" where
  "spans_sound org db \<longleftrightarrow>
     distinct (map tw_trace (sb_turns db)) \<and> list_all (\<lambda>r. tw_org r = org) (sb_turns db)
   \<and> list_all (\<lambda>p. pw_org p = org
        \<and> list_all (\<lambda>r. if tw_trace r = pw_trace p then tw_session r = pw_session p else True) (sb_turns db)) (sb_spans db)"

lemma sort_key_constant: "\<forall>x\<in>set xs. f x = c \<Longrightarrow> sort_key f xs = xs"
  by (intro sort_key_id_if_sorted) (induction xs, simp_all)

lemma filter_span_order: "filter P (span_order collate xs) = span_order collate (filter P xs)"
  by (simp add: span_order_def filter_sort)

lemma spans_of_trace:
  assumes "spans_sound org db" "r \<in> set (sb_turns db)" "tw_session r = s"
  shows "filter (\<lambda>p. pw_trace p = tw_trace r) (list_spans_by_session collate s db) = list_spans_by_trace collate org (tw_trace r) db"
proof -
  have "(pw_session p = s \<and> pw_trace p = tw_trace r) = (pw_org p = org \<and> pw_trace p = tw_trace r)" if "p \<in> set (sb_spans db)" for p
  proof -
    have "pw_org p = org" "if tw_trace r = pw_trace p then tw_session r = pw_session p else True"
      using assms(1,2) that by (auto simp: spans_sound_def list_all_iff simp del: if_True)
    then show ?thesis using assms(3) by (auto split: if_splits)
  qed
  then have "filter (\<lambda>p. pw_session p = s \<and> pw_trace p = tw_trace r) (sb_spans db) =
      filter (\<lambda>p. pw_org p = org \<and> pw_trace p = tw_trace r) (sb_spans db)"
    by (rule filter_cong [OF refl])
  then have "filter (\<lambda>p. pw_trace p = tw_trace r) (list_spans_by_session collate s db) =
      sort_key (\<lambda>p. collate (pw_trace p)) (list_spans_by_trace collate org (tw_trace r) db)"
    by (simp add: list_spans_by_session_def list_spans_by_trace_def filter_sort filter_span_order)
  also have "\<dots> = list_spans_by_trace collate org (tw_trace r) db"
    by (rule sort_key_constant [of _ _ "collate (tw_trace r)"]) (simp add: list_spans_by_trace_def span_order_def)
  finally show ?thesis .
qed

lemma find_trace:
  assumes "spans_sound org db" "r \<in> set (sb_turns db)"
  shows "find (\<lambda>x. tw_org x = org \<and> tw_trace x = tw_trace r) (sb_turns db) = Some r"
proof -
  have "distinct (map tw_trace rows) \<Longrightarrow> list_all (\<lambda>r. tw_org r = org) rows \<Longrightarrow> r \<in> set rows \<Longrightarrow>
      find (\<lambda>x. tw_org x = org \<and> tw_trace x = tw_trace r) rows = Some r" for rows
    by (induction rows) (auto simp: image_iff)
  with assms show ?thesis by (simp add: spans_sound_def)
qed

lemma read_single_tenant [simp]: "read_org env single_tenant_org_id = Inr nil_org_id"
proof -
  have "org_key_for_lookup single_tenant_org_id = []" by code_simp
  then show ?thesis by (simp add: read_org_def org_id_from_string_def)
qed

lemma span_record_ids [simp]: "pr_trace_id (span_record_from_row p) = pw_trace p"
  by (simp add: span_record_from_row_def)

lemma turn_record_ids [simp]: "tr_trace_id (span_turn_record_from_columns f g r) = tw_trace r"
  by (simp add: span_turn_record_from_columns_def Let_def)

lemma reads_fields [simp]: "rv_parse_uuid (reads_of env) = rv_parse_uuid env"
  by (simp add: read_env.truncate_def)

lemma turn_of_session: "r \<in> set (list_span_turns_by_session collate s db) \<Longrightarrow> r \<in> set (sb_turns db) \<and> tw_session r = s"
  by (simp add: list_span_turns_by_session_def turn_order_def)

text \<open>C30: The views of a session's traces agree. The session's composite and its summary list are answered with the same
  status, show the same traces in the same order with the same headers and span counts, and a trace read on its own
  has the header and the spans the composite shows.\<close>

theorem trace_views_agree:
  assumes "spans_sound nil_org_id (sd_spans db)"
  shows "case (handle_get_session_traces env px now i payload db, handle_list_trace_summaries env i db) of
     ((status, SessionTraces st), reply) \<Rightarrow>
        status = 200 \<and> reply = (200, TraceList (projection_schema, map td_trace (sx_traces st)))
      \<and> list_all (\<lambda>td. case handle_get_trace env px (ti_trace_id (td_trace td)) payload db of
            (status, TraceDetail d) \<Rightarrow> status = 200 \<and> d\<lparr>td_schema := [], td_links := []\<rparr> = td | _ \<Rightarrow> False) (sx_traces st)
   | (a, b) \<Rightarrow> fst a = fst b \<and> fst a \<noteq> 200"
proof (cases "i = [] \<or> rv_parse_uuid env i = None")
  case True
  then show ?thesis
    by (auto simp: handle_get_session_traces_def handle_list_trace_summaries_def on_session_def refuse_def)
next
  case False
  then obtain b where b: "rv_parse_uuid env i = Some b" "i \<noteq> []" by auto
  let ?e = "reads_of env" and ?s = "\<lparr>uuid_bytes = b, uuid_valid = True\<rparr>" and ?db = "sd_spans db"
  let ?rec = "span_turn_record_from_columns (rv_render_uuid ?e) (rv_round ?e)"
  let ?rows = "list_span_turns_by_session (rv_collate ?e) ?s ?db"
  let ?mode = "payload_mode_from_query payload"
  have sid: "parse_session_id ?e i = Inr ?s" by (simp add: parse_session_id_def b)
  have n: "length (filter (\<lambda>p. pw_org p = tw_org r \<and> pw_trace p = tw_trace r) (sb_spans ?db)) =
      length (list_spans_by_trace (rv_collate ?e) nil_org_id (tw_trace r) ?db)" if "r \<in> set ?rows" for r
    using turn_of_session [OF that] assms by (simp add: list_spans_by_trace_def span_order_def spans_sound_def list_all_iff)
  have f: "filter (\<lambda>p. pw_trace p = tw_trace r) (list_spans_by_session (rv_collate ?e) ?s ?db) =
      list_spans_by_trace (rv_collate ?e) nil_org_id (tw_trace r) ?db" if "r \<in> set ?rows" for r
    using spans_of_trace [OF assms] turn_of_session [OF that] by blast
  have detail: "handle_get_trace env px (tw_trace r) payload db =
      (200, TraceDetail (build_trace_detail px (?rec r) (map span_record_from_row (list_spans_by_trace (rv_collate ?e) nil_org_id (tw_trace r) ?db))
         (list_span_links_by_trace nil_org_id (tw_trace r) ?db) ?mode))" if "r \<in> set ?rows" for r
    using find_trace [OF assms] turn_of_session [OF that]
    by (simp add: handle_get_trace_def get_trace_detail_def answer_def)
  show ?thesis
  proof (cases "get_session_record env single_tenant_org_id i db")
    case (Inl e)
    then show ?thesis
      by (simp add: handle_get_session_traces_def handle_list_trace_summaries_def on_session_def b answer_def refuse_def)
  next
    case (Inr s)
    show ?thesis
    proof (cases s)
      case None
      with Inr show ?thesis
        by (simp add: handle_get_session_traces_def handle_list_trace_summaries_def on_session_def b answer_def refuse_def)
    next
      case (Some rec)
      have ti: "ti_trace_id (trace_item_from_turn (?rec r) k) = tw_trace r" for r k by (simp add: trace_item_from_turn_def)
      show ?thesis
        using Inr Some
        by (auto simp: f n filter_map o_def
            handle_get_session_traces_def handle_list_trace_summaries_def on_session_def b answer_def sid
            list_session_span_model_def list_trace_summaries_def build_session_traces_def build_trace_list_def Let_def
            list_all_iff ti detail build_trace_detail_def o_def)
    qed
  qed
qed

definition wit_turn_row :: turn_row where
  "wit_turn_row = \<lparr>tw_org = nil_org_id, tw_trace = ''t'', tw_session = \<lparr>uuid_bytes = ''1'', uuid_valid = True\<rparr>,
     tw_content = \<lparr>tc_user_prompt = ''hi'', tc_response_preview = [], tc_synthetic = [], tc_status = ''completed'', tc_started_at = 7000,
       tc_ended_at = None, tc_duration_ns = 5, tc_total_input = 1, tc_total_output = 2, tc_main_input = 1, tc_main_output = 2,
       tc_cache_read = 0, tc_cache_creation = 0, tc_cost = zero_numeric, tc_tool_calls = 0, tc_source = ''wire'', tc_fidelity = []\<rparr>,
     tw_hash = [], tw_seq = 1\<rparr>"

definition wit_span_row :: span_row where
  "wit_span_row = \<lparr>pw_org = nil_org_id, pw_trace = ''t'', pw_span = ''s'', pw_session = \<lparr>uuid_bytes = ''1'', uuid_valid = True\<rparr>,
     pw_content = \<lparr>sc_parent = [], sc_kind = ''agent'', sc_name = [], sc_status = ''ok'', sc_call_kind = [], sc_thread_id = [],
       sc_model = [], sc_stop_reason = [], sc_started_at = 7000, sc_duration_ns = 5, sc_seq = 0, sc_input = [], sc_output = ''null'',
       sc_usage = [], sc_verdict = [], sc_raw_turn = None, sc_node_hash = [], sc_fidelity = []\<rparr>,
     pw_hash = [], pw_seq = 1\<rparr>"

definition wit_traced_db :: session_db where
  "wit_traced_db = sample_session_db\<lparr>sd_spans := (sd_spans sample_session_db)\<lparr>sb_turns := [wit_turn_row], sb_spans := [wit_span_row]\<rparr>\<rparr>"

definition wit_codec :: payload_codec where
  "wit_codec = \<lparr>pl_decode = (\<lambda>_. None), pl_encode = (\<lambda>_. None)\<rparr>"

lemma wit_traced_sound: "spans_sound nil_org_id (sd_spans wit_traced_db)"
  by (simp add: spans_sound_def wit_traced_db_def wit_turn_row_def wit_span_row_def)

lemma wit_traced_read:
  "case handle_get_session_traces sample_api_env wit_codec 0 ''1'' ''preview'' wit_traced_db of
     (status, SessionTraces st) \<Rightarrow> map (\<lambda>td. length (td_spans td)) (sx_traces st) = [1] | _ \<Rightarrow> False"
proof -
  have "\<exists>rec. get_session_record sample_api_env single_tenant_org_id ''1'' wit_traced_db = Inr (Some rec)"
    by (simp add: get_session_record_def org_id_from_string_def parsed_id_def sample_api_env_def wit_traced_db_def
        sample_session_db_def sample_stored_def single_tenant_org_id_def)
  moreover have "list_session_span_model (reads_of sample_api_env) ''1'' (sd_spans wit_traced_db) =
      Inr ([span_turn_record_from_columns (\<lambda>b. b) (\<lambda>x. x) wit_turn_row], [span_record_from_row wit_span_row], [])"
    by (simp add: list_session_span_model_def parse_session_id_def read_env.truncate_def sample_api_env_def wit_traced_db_def
        list_span_turns_by_session_def turn_order_def list_spans_by_session_def span_order_def list_span_links_by_session_def
        sample_session_db_def wit_turn_row_def wit_span_row_def)
  moreover have "rv_parse_uuid sample_api_env = Some" by (simp add: sample_api_env_def)
  ultimately show ?thesis
    by (auto simp: handle_get_session_traces_def on_session_def answer_def build_session_traces_def Let_def
        wit_turn_row_def wit_span_row_def)
qed

theorem trace_views_agree_witness:
  "case handle_get_session_traces sample_api_env wit_codec 0 ''1'' ''preview'' wit_traced_db of
     (status, SessionTraces st) \<Rightarrow>
        map (\<lambda>td. length (td_spans td)) (sx_traces st) = [1]
      \<and> handle_list_trace_summaries sample_api_env ''1'' wit_traced_db = (200, TraceList (projection_schema, map td_trace (sx_traces st)))
   | _ \<Rightarrow> False"
  using trace_views_agree [OF wit_traced_sound, where env = sample_api_env and px = wit_codec and now = 0 and i = "''1''" and payload = "''preview''"]
    wit_traced_read
  by (auto split: prod.splits trace_body.splits)

subsection \<open>Previews\<close>

fun texts_in :: "jval \<Rightarrow> string list" where
  "texts_in (JStr s) = [s]"
| "texts_in (JObj m) = concat (map (\<lambda>(k, v). texts_in v) m)"
| "texts_in (JArr xs) = concat (map texts_in xs)"
| "texts_in v = []"

fun shape_of :: "jval \<Rightarrow> jval" where
  "shape_of (JStr s) = JStr []"
| "shape_of (JObj m) = JObj (map (\<lambda>(k, v). (k, shape_of v)) m)"
| "shape_of (JArr xs) = JArr (map shape_of xs)"
| "shape_of v = v"

lemma rune_count_simps [simp]:
  "rune_count [] = 0" "rune_count (c # s) = (if rune_start c then 1 else 0) + rune_count s" "rune_count (s @ t) = rune_count s + rune_count t"
  by (simp_all add: rune_count_def)

lemma rune_count_take: "rune_count (take_runes n s) = min n (rune_count s)"
  by (induction n s rule: take_runes.induct) (auto split: nat.split)

lemma take_runes_prefix: "\<exists>r. s = take_runes n s @ r"
proof (induction n s rule: take_runes.induct)
  case (2 n c cs)
  then show ?case by (cases n) auto
qed simp

lemma preview_string_bounded: "rune_count (preview_string s) \<le> Suc preview_payload_runes"
proof -
  have "rune_count ellipsis = 1" by code_simp
  then show ?thesis by (simp add: preview_string_def rune_count_take)
qed

lemma preview_value_texts: "texts_in (preview_value v) = map preview_string (texts_in v)"
proof (induction v)
  case (JArr xs)
  then show ?case by (simp add: map_concat o_def cong: map_cong)
next
  case (JObj m)
  then have "map (\<lambda>x. texts_in (preview_value (snd x))) m = map (\<lambda>x. map preview_string (texts_in (snd x))) m"
    by (intro map_cong) (auto simp: prod_set_simps intro: snds.intros)
  then have "concat (map (\<lambda>x. texts_in (preview_value (snd x))) m) = concat (map (\<lambda>x. map preview_string (texts_in (snd x))) m)"
    by (rule arg_cong)
  then show ?case by (simp add: map_concat o_def case_prod_unfold del: map_eq_conv)
qed simp_all

lemma preview_value_shape: "shape_of (preview_value v) = shape_of v"
proof (induction v)
  case (JObj m)
  then show ?case by (auto intro!: map_cong)
qed (auto cong: map_cong)


subsection \<open>The wire log after a repair\<close>

lemma corrected_key_effective: "corrected_key cs r = effective_key env cs r"
  by (simp add: corrected_key_def effective_key_def effective_attribution_def Let_def split: option.split)

text \<open>A turn that was moved is in the wire log of the session it was moved to, and of no other.\<close>

lemma repaired_turn_relisted:
  assumes "record_attribution_repair env now nil_org_id i rq old db = Inr (Some (res, db'))"
    and "distinct (map rw_id (db_turns (rd_raw db)))"
  shows "case list_raw_turn_headers renv set_thread single_tenant_org_id k db' of
     Inr hs \<Rightarrow> i \<in> rh_id ` set hs \<longleftrightarrow> k = (rq_harness rq, rq_session rq) | Inl _ \<Rightarrow> False"
proof -
  note e = record_repair_effect [OF assms(1)]
  obtain row where row: "find_raw nil_org_id i (db_turns (rd_raw db)) = Some row"
    and r: "re_recorded res = (\<not> same_attribution (effective_attribution env (rd_corrections db) row) (requested_attribution rq i))"
    by (cases rule: record_repair_cases [OF assms(1)]) auto
  note f = find_raw_Some [OF row]
  have key: "effective_key env (rd_corrections db') row = (rq_harness rq, rq_session rq)"
    using f r by (auto simp: effective_key_def e(2) requested_attribution_def same_attribution_def Let_def)
  have only: "x = row" if "x \<in> set (db_turns (rd_raw db))" "rw_id x = i" for x
    using assms(2) f that by (auto simp: distinct_map inj_on_def)
  have "i \<in> rw_id ` {x \<in> set (db_turns (rd_raw db)). rw_org x = nil_org_id \<and> corrected_key (rd_corrections db') x = k}
      \<longleftrightarrow> corrected_key (rd_corrections db') row = k"
    using f only by auto
  then show ?thesis
    by (simp add: list_raw_turn_headers_def e(1) image_image key corrected_key_effective [of _ _ env]) auto
qed

end
