(* ===== verification/Providers.thy ===== *)
theory Providers
  imports TurnChain AnthropicReducer ResponsesReducer
begin

text \<open>
  The provider packages (\<open>pkg/llm/provider\<close>): the parsers of requests and responses of Anthropic, OpenAI
  (Chat Completions and Responses) and Ollama, their default streaming, and the choice by name.

  Decoding a JSON text into a wire struct is a parameter, one function per struct; a field of Go type \<open>any\<close> is a
  \<open>jval\<close>, \<open>JNull\<close> when absent. The raw copy of the payload and the time of creation are not part of
  the results; \<open>provider_request\<close> adds to \<open>chat_request\<close> the sampling parameters only the parsers see.
\<close>

subsection \<open>Requests and wire structs\<close>

record provider_request = chat_request +
  pq_top_p :: "rat option"
  pq_top_k :: "int option"
  pq_stop :: "string list"
  pq_seed :: "int option"

abbreviation request_of :: "provider_request \<Rightarrow> chat_request" where
  "request_of q \<equiv> chat_request.truncate q"

record anthropic_message =
  am_role :: string
  am_content :: jval

record anthropic_request =
  aq_model :: string
  aq_messages :: "anthropic_message list"
  aq_system :: jval
  aq_max_tokens :: int
  aq_temperature :: "rat option"
  aq_top_p :: "rat option"
  aq_top_k :: "int option"
  aq_stop :: "string list"
  aq_stream :: "bool option"
  aq_tools :: "string list"

record openai_tool_call =
  ot_id :: string
  ot_name :: string
  ot_arguments :: string

record openai_message =
  om_role :: string
  om_content :: jval
  om_tool_call_id :: string
  om_tool_calls :: "openai_tool_call list"

record openai_request =
  oq_model :: string
  oq_messages :: "openai_message list"
  oq_max_tokens :: "int option"
  oq_temperature :: "rat option"
  oq_top_p :: "rat option"
  oq_stop :: jval
  oq_seed :: "int option"
  oq_stream :: "bool option"
  oq_frequency_penalty :: "rat option"
  oq_presence_penalty :: "rat option"
  oq_response_format :: "jobj option"
  oq_tools :: "string list"

record openai_usage =
  ou_prompt_tokens :: int
  ou_completion_tokens :: int
  ou_total_tokens :: int
  ou_cached_tokens :: "int option"

record openai_response =
  or_id :: string
  or_object :: string
  or_model :: string
  or_choices :: "(openai_message \<times> string) list" \<comment> \<open>message and finish reason\<close>
  or_usage :: "openai_usage option"

record ollama_tool_call =
  lt_id :: string
  lt_name :: string
  lt_arguments :: jobj

record ollama_message =
  lm_role :: string
  lm_content :: string
  lm_images :: "string list"
  lm_tool_calls :: "ollama_tool_call list"

record ollama_options =
  lo_temperature :: "rat option"
  lo_top_p :: "rat option"
  lo_top_k :: "int option"
  lo_seed :: "int option"
  lo_num_predict :: "int option"
  lo_num_ctx :: "int option"
  lo_repeat_penalty :: "rat option"
  lo_repeat_last_n :: "int option"
  lo_stop :: "string list"

record ollama_request =
  lq_model :: string
  lq_messages :: "ollama_message list"
  lq_stream :: "bool option"
  lq_format :: string
  lq_keep_alive :: string
  lq_options :: "ollama_options option"
  lq_tools :: "string list"

record ollama_response =
  lr_model :: string
  lr_message :: ollama_message
  lr_done :: bool
  lr_done_reason :: string
  lr_context :: "jval list option"
  lr_total_duration :: int
  lr_load_duration :: int
  lr_prompt_eval_count :: int
  lr_prompt_eval_duration :: int
  lr_eval_count :: int
  lr_eval_duration :: int

text \<open>A Responses request; a missing raw field is the empty text.\<close>

record responses_request =
  qr_model :: string
  qr_input :: string
  qr_instructions :: string
  qr_max_output_tokens :: "int option"
  qr_temperature :: "rat option"
  qr_top_p :: "rat option"
  qr_stream :: "bool option"
  qr_tools :: "string list"
  qr_tool_choice :: string
  qr_reasoning :: jobj
  qr_previous_id :: string

record input_item =
  ii_type :: string
  ii_role :: string
  ii_content :: string
  ii_call_id :: string
  ii_name :: string
  ii_arguments :: string
  ii_input :: string
  ii_output :: string
  ii_summary :: "string list" \<comment> \<open>the texts of the summary parts\<close>
  ii_encrypted_content :: string

record input_part =
  ip_type :: string
  ip_text :: string
  ip_refusal :: string
  ip_image_url :: string

record provider_decoders =
  pd_ext :: externs
  pd_anthropic_request :: "string \<Rightarrow> string + anthropic_request"
  pd_anthropic_response :: "string \<Rightarrow> string + oneshot_response"
  pd_openai_request :: "string \<Rightarrow> string + openai_request"
  pd_openai_response :: "string \<Rightarrow> string + openai_response"
  pd_ollama_request :: "string \<Rightarrow> string + ollama_request"
  pd_ollama_response :: "string \<Rightarrow> string + ollama_response"
  pd_probe :: "string \<Rightarrow> (string \<times> string) option" \<comment> \<open>raw \<open>messages\<close> and \<open>input\<close>\<close>
  pd_responses_request :: "string \<Rightarrow> string + responses_request"
  pd_items :: "string \<Rightarrow> string + string list"
  pd_item :: "string \<Rightarrow> input_item option"
  pd_parts :: "string \<Rightarrow> input_part list option"
  pd_object :: "string \<Rightarrow> jobj option"
  pd_marshal :: "jval \<Rightarrow> string option"

subsection \<open>Anthropic\<close>

text \<open>A checked type assertion on a value of a decoded object.\<close>

definition jget_object :: "jobj \<Rightarrow> string \<Rightarrow> jobj" where
  "jget_object m k = (case map_of m k of Some (JObj o') \<Rightarrow> o' | _ \<Rightarrow> [])"

definition jget_bool :: "jobj \<Rightarrow> string \<Rightarrow> bool" where
  "jget_bool m k = (case map_of m k of Some (JBool b) \<Rightarrow> b | _ \<Rightarrow> False)"

fun text_parts :: "jval list \<Rightarrow> string list" where
  "text_parts [] = []"
| "text_parts (JObj p # xs) = (case map_of p ''text'' of Some (JStr t) \<Rightarrow> t # text_parts xs | _ \<Rightarrow> text_parts xs)"
| "text_parts (_ # xs) = text_parts xs"

definition tool_result_text :: "jobj \<Rightarrow> string" where
  "tool_result_text block =
     (case map_of block ''content'' of
        Some (JStr s) \<Rightarrow> s
      | Some (JArr xs) \<Rightarrow> go_join (text_parts xs) [LF]
      | _ \<Rightarrow> [])"

definition anthropic_request_block :: "provider_decoders \<Rightarrow> jobj \<Rightarrow> content_block" where
  "anthropic_request_block pd block =
     (let ty = jget_string block ''type''; source = jget_object block ''source'';
          cb = empty_block\<lparr>cb_type := ty, cb_text := jget_string block ''text'',
                 media_type := jget_string source ''media_type'', image_base64 := jget_string source ''data''\<rparr>
      in if ty = ''thinking''
         then cb\<lparr>thinking := jget_string block ''thinking'', thinking_signature := jget_string block ''signature''\<rparr>
         else if is_tool_kind ty
         then cb\<lparr>tool_use_id := jget_string block ''id'', tool_name := jget_string block ''name'',
                 tool_input := jget_object block ''input''\<rparr>
         else if ty = ''tool_result''
         then cb\<lparr>tool_result_id := jget_string block ''tool_use_id'', is_error := jget_bool block ''is_error'',
                 tool_output := tool_result_text block\<rparr>
         else if ty = ''web_search_tool_result''
         then cb\<lparr>tool_result_id := jget_string block ''tool_use_id'',
                 raw_content := (case map_of block ''content'' of
                                   None \<Rightarrow> []
                                 | Some raw \<Rightarrow> (case pd_marshal pd raw of None \<Rightarrow> [] | Some s \<Rightarrow> s))\<rparr>
         else cb)"

fun anthropic_request_blocks :: "provider_decoders \<Rightarrow> jval list \<Rightarrow> content_block list" where
  "anthropic_request_blocks pd [] = []"
| "anthropic_request_blocks pd (JObj b # xs) = anthropic_request_block pd b # anthropic_request_blocks pd xs"
| "anthropic_request_blocks pd (_ # xs) = anthropic_request_blocks pd xs"

definition anthropic_request_message :: "provider_decoders \<Rightarrow> anthropic_message \<Rightarrow> message" where
  "anthropic_request_message pd m =
     \<lparr>msg_role = am_role m,
      msg_content = (case am_content m of
          JStr s \<Rightarrow> [empty_block\<lparr>cb_type := ''text'', cb_text := s\<rparr>]
        | JArr xs \<Rightarrow> anthropic_request_blocks pd xs
        | _ \<Rightarrow> [])\<rparr>"

fun system_text :: "jval list \<Rightarrow> string \<Rightarrow> string" where
  "system_text [] acc = acc"
| "system_text (JObj b # xs) acc =
     (let t = jget_string b ''text''
      in system_text xs (if jget_string b ''type'' = ''text'' \<and> t \<noteq> []
                         then (if acc \<noteq> [] then acc @ [LF] else acc) @ t else acc))"
| "system_text (_ # xs) acc = system_text xs acc"

definition parse_anthropic_system :: "jval \<Rightarrow> string" where
  "parse_anthropic_system v = (case v of JStr s \<Rightarrow> s | JArr xs \<Rightarrow> system_text xs [] | _ \<Rightarrow> [])"

definition anthropic_parse_request :: "provider_decoders \<Rightarrow> string \<Rightarrow> string + provider_request" where
  "anthropic_parse_request pd payload =
     and_then (pd_anthropic_request pd payload) (\<lambda>req.
       Inr \<lparr>rq_model = aq_model req, rq_messages = map (anthropic_request_message pd) (aq_messages req),
            rq_stream = aq_stream req, rq_system = parse_anthropic_system (aq_system req),
            rq_max_tokens = Some (aq_max_tokens req), rq_temperature = aq_temperature req,
            rq_tools = aq_tools req, rq_extra = [], pq_top_p = aq_top_p req, pq_top_k = aq_top_k req,
            pq_stop = aq_stop req, pq_seed = None\<rparr>)"

definition anthropic_response_block :: "anthropic_block \<Rightarrow> content_block" where
  "anthropic_response_block b =
     (let cb = empty_block\<lparr>cb_type := ab_type b\<rparr>
      in if ab_type b = ''text'' then cb\<lparr>cb_text := ab_text b\<rparr>
         else if ab_type b = ''tool_use''
         then cb\<lparr>tool_use_id := ab_id b, tool_name := ab_name b, tool_input := ab_input b\<rparr>
         else if ab_type b = ''thinking''
         then cb\<lparr>thinking := ab_thinking b, thinking_signature := ab_signature b\<rparr>
         else if ab_type b = ''server_tool_use''
         then cb\<lparr>tool_use_id := ab_id b, tool_name := ab_name b, tool_input := ab_input b\<rparr>
         else if ab_type b = ''web_search_tool_result''
         then cb\<lparr>tool_result_id := ab_tool_use_id b, raw_content := ab_content b\<rparr>
         else cb)"

definition anthropic_response_usage :: "anthropic_usage \<Rightarrow> usage" where
  "anthropic_response_usage u =
     (let total_input = au_input_tokens u + au_cache_creation u + au_cache_read u
      in zero_usage\<lparr>prompt_tokens := total_input, completion_tokens := au_output_tokens u,
           total_tokens := total_input + au_output_tokens u,
           cache_creation_input_tokens := au_cache_creation u, cache_read_input_tokens := au_cache_read u\<rparr>)"

definition anthropic_parse_response :: "provider_decoders \<Rightarrow> string \<Rightarrow> string + chat_response" where
  "anthropic_parse_response pd payload =
     and_then (pd_anthropic_response pd payload) (\<lambda>resp.
       Inr \<lparr>rs_model = os_model resp,
            rs_message = \<lparr>msg_role = os_role resp, msg_content = map anthropic_response_block (os_content resp)\<rparr>,
            rs_done = True, rs_stop_reason = os_stop_reason resp,
            rs_usage = map_option anthropic_response_usage (os_usage resp),
            rs_extra = [(''id'', JStr (os_id resp)), (''type'', JStr (os_type resp))]\<rparr>)"

subsection \<open>OpenAI, Chat Completions\<close>

definition openai_request_part :: "jobj \<Rightarrow> content_block" where
  "openai_request_part part =
     (let cb = empty_block\<lparr>cb_type := jget_string part ''type'', cb_text := jget_string part ''text''\<rparr>
      in case map_of part ''image_url'' of
           Some (JObj u) \<Rightarrow> cb\<lparr>cb_type := ''image'', image_url := jget_string u ''url''\<rparr>
         | _ \<Rightarrow> cb)"

fun objects :: "jval list \<Rightarrow> jobj list" where
  "objects [] = []"
| "objects (JObj m # xs) = m # objects xs"
| "objects (_ # xs) = objects xs"

fun strings :: "jval list \<Rightarrow> string list" where
  "strings [] = []"
| "strings (JStr s # xs) = s # strings xs"
| "strings (_ # xs) = strings xs"

definition openai_tool_blocks :: "provider_decoders \<Rightarrow> openai_tool_call list \<Rightarrow> content_block list" where
  "openai_tool_blocks pd calls =
     List.map_filter (\<lambda>tc. map_option (\<lambda>input. empty_block\<lparr>cb_type := ''tool_use'', tool_use_id := ot_id tc,
        tool_name := ot_name tc, tool_input := input\<rparr>) (pd_object pd (ot_arguments tc))) calls"

definition openai_request_message :: "provider_decoders \<Rightarrow> openai_message \<Rightarrow> message" where
  "openai_request_message pd m =
     (let content = (case om_content m of
          JStr s \<Rightarrow> [empty_block\<lparr>cb_type := ''text'', cb_text := s\<rparr>]
        | JArr xs \<Rightarrow> map openai_request_part (objects xs)
        | _ \<Rightarrow> []) @ openai_tool_blocks pd (om_tool_calls m)
      in \<lparr>msg_role = om_role m,
          msg_content = (if om_role m = ''tool'' \<and> om_tool_call_id m \<noteq> []
            then [empty_block\<lparr>cb_type := ''tool_result'', tool_result_id := om_tool_call_id m,
                    tool_output := (case om_content m of JStr s \<Rightarrow> s | _ \<Rightarrow> [])\<rparr>]
            else content)\<rparr>)"

definition openai_stop :: "jval \<Rightarrow> string list" where
  "openai_stop v = (case v of JStr s \<Rightarrow> [s] | JArr xs \<Rightarrow> strings xs | _ \<Rightarrow> [])"

definition openai_chat_request :: "provider_decoders \<Rightarrow> string \<Rightarrow> string + provider_request" where
  "openai_chat_request pd payload =
     and_then (pd_openai_request pd payload) (\<lambda>req.
       Inr \<lparr>rq_model = oq_model req, rq_messages = map (openai_request_message pd) (oq_messages req),
            rq_stream = oq_stream req, rq_system = [], rq_max_tokens = oq_max_tokens req,
            rq_temperature = oq_temperature req, rq_tools = oq_tools req,
            rq_extra =
              (case oq_frequency_penalty req of None \<Rightarrow> [] | Some x \<Rightarrow> [(''frequency_penalty'', JNum x)])
              @ (case oq_presence_penalty req of None \<Rightarrow> [] | Some x \<Rightarrow> [(''presence_penalty'', JNum x)])
              @ (case oq_response_format req of None \<Rightarrow> [] | Some x \<Rightarrow> [(''response_format'', JObj x)]),
            pq_top_p = oq_top_p req, pq_top_k = None, pq_stop = openai_stop (oq_stop req), pq_seed = oq_seed req\<rparr>)"

definition openai_response_part :: "jobj \<Rightarrow> content_block" where
  "openai_response_part part =
     empty_block\<lparr>cb_type := jget_string part ''type'', cb_text := jget_string part ''text''\<rparr>"

definition openai_usage_of :: "openai_usage \<Rightarrow> usage" where
  "openai_usage_of u = zero_usage
     \<lparr>prompt_tokens := ou_prompt_tokens u, completion_tokens := ou_completion_tokens u,
      total_tokens := ou_total_tokens u,
      cache_read_input_tokens := (case ou_cached_tokens u of None \<Rightarrow> 0 | Some c \<Rightarrow> c)\<rparr>"

definition openai_parse_response :: "provider_decoders \<Rightarrow> string \<Rightarrow> string + chat_response" where
  "openai_parse_response pd payload =
     and_then (pd_openai_response pd payload) (\<lambda>resp.
       case or_choices resp of
         [] \<Rightarrow> Inr \<lparr>rs_model = or_model resp, rs_message = \<lparr>msg_role = [], msg_content = []\<rparr>, rs_done = True,
                  rs_stop_reason = [], rs_usage = None, rs_extra = []\<rparr>
       | (msg, finish) # _ \<Rightarrow>
           Inr \<lparr>rs_model = or_model resp,
                rs_message = \<lparr>msg_role = om_role msg,
                  msg_content = (case om_content msg of
                      JStr s \<Rightarrow> [empty_block\<lparr>cb_type := ''text'', cb_text := s\<rparr>]
                    | JArr xs \<Rightarrow> map openai_response_part (objects xs)
                    | _ \<Rightarrow> []) @ openai_tool_blocks pd (om_tool_calls msg)\<rparr>,
                rs_done = True, rs_stop_reason = finish, rs_usage = map_option openai_usage_of (or_usage resp),
                rs_extra = [(''id'', JStr (or_id resp)), (''object'', JStr (or_object resp))]\<rparr>)"

subsection \<open>OpenAI, Responses\<close>

definition json_field_present :: "string \<Rightarrow> bool" where
  "json_field_present raw \<longleftrightarrow> raw \<noteq> [] \<and> raw \<noteq> ''null''"

definition is_responses_request :: "provider_decoders \<Rightarrow> string \<Rightarrow> bool" where
  "is_responses_request pd payload =
     (case pd_probe pd payload of
        None \<Rightarrow> False
      | Some (messages, input) \<Rightarrow> json_field_present input \<and> \<not> json_field_present messages)"

definition input_part_block :: "input_part \<Rightarrow> content_block" where
  "input_part_block p =
     (if ip_type p \<in> {''input_text'', ''output_text'', ''summary_text''}
      then empty_block\<lparr>cb_type := ''text'', cb_text := ip_text p\<rparr>
      else if ip_type p = ''refusal'' then empty_block\<lparr>cb_type := ''refusal'', cb_text := ip_refusal p\<rparr>
      else if ip_type p = ''input_image'' then empty_block\<lparr>cb_type := ''image'', image_url := ip_image_url p\<rparr>
      else empty_block\<lparr>cb_type := ip_type p, cb_text := ip_text p\<rparr>)"

definition responses_content_blocks :: "provider_decoders \<Rightarrow> string \<Rightarrow> content_block list" where
  "responses_content_blocks pd raw =
     (if raw = [] then []
      else case ext_text (pd_ext pd) raw of
             Some t \<Rightarrow> [empty_block\<lparr>cb_type := ''text'', cb_text := t\<rparr>]
           | None \<Rightarrow> (case pd_parts pd raw of
                 None \<Rightarrow> [empty_block\<lparr>cb_type := ''text'', raw_content := raw\<rparr>]
               | Some parts \<Rightarrow> map input_part_block parts))"

definition input_call_block :: "provider_decoders \<Rightarrow> input_item \<Rightarrow> string \<Rightarrow> content_block" where
  "input_call_block pd item raw =
     (let cb = empty_block\<lparr>cb_type := ''tool_use'', tool_use_id := ii_call_id item, tool_name := ii_name item\<rparr>
      in if ii_arguments item = [] then cb
         else case pd_object pd (ii_arguments item) of
                Some input \<Rightarrow> cb\<lparr>tool_input := input\<rparr>
              | None \<Rightarrow> cb\<lparr>raw_content := raw\<rparr>)"

definition custom_item :: "input_item \<Rightarrow> responses_item" where
  "custom_item i = \<lparr>ri_call_id = ii_call_id i, ri_name = ii_name i, ri_input = ii_input i, ri_output = ii_output i\<rparr>"

definition reasoning_block :: "input_item \<Rightarrow> content_block" where
  "reasoning_block i = empty_block\<lparr>cb_type := ''thinking'', thinking := reasoning_text (ii_summary i),
     thinking_signature := ii_encrypted_content i\<rparr>"

definition raw_to_text :: "provider_decoders \<Rightarrow> string \<Rightarrow> string" where
  "raw_to_text pd raw =
     (if raw = [] then [] else case ext_text (pd_ext pd) raw of Some s \<Rightarrow> s | None \<Rightarrow> raw)"

definition responses_item_to_message :: "provider_decoders \<Rightarrow> string \<Rightarrow> message option" where
  "responses_item_to_message pd raw =
     map_option (\<lambda>i.
       if ii_type i = ''message'' \<or> ii_type i = [] \<and> ii_role i \<noteq> []
       then \<lparr>msg_role = ii_role i, msg_content = responses_content_blocks pd (ii_content i)\<rparr>
       else if ii_type i = ''function_call''
       then \<lparr>msg_role = ''assistant'', msg_content = [input_call_block pd i raw]\<rparr>
       else if ii_type i = ''function_call_output''
       then \<lparr>msg_role = ''tool'', msg_content = [empty_block\<lparr>cb_type := ''tool_result'',
               tool_result_id := ii_call_id i, tool_output := raw_to_text pd (ii_output i)\<rparr>]\<rparr>
       else if ii_type i = ''custom_tool_call''
       then \<lparr>msg_role = ''assistant'', msg_content = [custom_tool_call_block (custom_item i)]\<rparr>
       else if ii_type i = ''custom_tool_call_output''
       then \<lparr>msg_role = ''tool'', msg_content = [custom_tool_call_output_block (pd_ext pd) (custom_item i)]\<rparr>
       else if ii_type i = ''reasoning''
       then \<lparr>msg_role = ''assistant'', msg_content = [reasoning_block i]\<rparr>
       else \<lparr>msg_role = ''assistant'', msg_content = [empty_block\<lparr>cb_type := ii_type i, raw_content := raw\<rparr>]\<rparr>)
     (pd_item pd raw)"

definition responses_messages :: "provider_decoders \<Rightarrow> string \<Rightarrow> string + message list" where
  "responses_messages pd input =
     (if input = [] then Inr []
      else case ext_text (pd_ext pd) input of
             Some t \<Rightarrow> Inr [new_text_message ''user'' t]
           | None \<Rightarrow> and_then
               (wrap_err (\<lambda>e. ''responses input is neither string nor item array: '' @ e) (pd_items pd input))
               (\<lambda>items. Inr (List.map_filter (responses_item_to_message pd) items)))"

definition parse_responses_request :: "provider_decoders \<Rightarrow> string \<Rightarrow> string + provider_request" where
  "parse_responses_request pd payload =
     and_then (pd_responses_request pd payload) (\<lambda>req.
     and_then (responses_messages pd (qr_input req)) (\<lambda>messages.
       Inr \<lparr>rq_model = qr_model req, rq_messages = messages, rq_stream = qr_stream req,
            rq_system = qr_instructions req, rq_max_tokens = qr_max_output_tokens req,
            rq_temperature = qr_temperature req, rq_tools = qr_tools req,
            rq_extra = [(''endpoint'', JStr ''responses'')]
              @ (if qr_reasoning req = [] then [] else [(''reasoning'', JObj (qr_reasoning req))])
              @ (if qr_previous_id req = [] then [] else [(''previous_response_id'', JStr (qr_previous_id req))])
              @ (if json_field_present (qr_tool_choice req) then [(''tool_choice'', JStr (qr_tool_choice req))] else []),
            pq_top_p = qr_top_p req, pq_top_k = None, pq_stop = [], pq_seed = None\<rparr>))"

definition openai_parse_request :: "provider_decoders \<Rightarrow> string \<Rightarrow> string + provider_request" where
  "openai_parse_request pd payload =
     (if is_responses_request pd payload then parse_responses_request pd payload
      else openai_chat_request pd payload)"

subsection \<open>Ollama\<close>

definition ollama_content :: "ollama_message \<Rightarrow> content_block list" where
  "ollama_content m =
     (if lm_content m = [] then [] else [empty_block\<lparr>cb_type := ''text'', cb_text := lm_content m\<rparr>])
     @ map (\<lambda>img. empty_block\<lparr>cb_type := ''image'', image_base64 := img\<rparr>) (lm_images m)
     @ map (\<lambda>tc. empty_block\<lparr>cb_type := ''tool_use'', tool_use_id := lt_id tc, tool_name := lt_name tc,
                   tool_input := lt_arguments tc\<rparr>) (lm_tool_calls m)"

definition ollama_extra :: "ollama_request \<Rightarrow> jobj" where
  "ollama_extra req =
     (case lq_options req of
        None \<Rightarrow> []
      | Some opts \<Rightarrow>
          (case lo_num_ctx opts of None \<Rightarrow> [] | Some n \<Rightarrow> [(''num_ctx'', JNum (of_int n))])
          @ (case lo_repeat_penalty opts of None \<Rightarrow> [] | Some x \<Rightarrow> [(''repeat_penalty'', JNum x)])
          @ (case lo_repeat_last_n opts of None \<Rightarrow> [] | Some n \<Rightarrow> [(''repeat_last_n'', JNum (of_int n))]))
     @ (if lq_format req = [] then [] else [(''format'', JStr (lq_format req))])
     @ (if lq_keep_alive req = [] then [] else [(''keep_alive'', JStr (lq_keep_alive req))])"

definition ollama_parse_request :: "provider_decoders \<Rightarrow> string \<Rightarrow> string + provider_request" where
  "ollama_parse_request pd payload =
     and_then (pd_ollama_request pd payload) (\<lambda>req.
       Inr \<lparr>rq_model = lq_model req,
            rq_messages = map (\<lambda>m. \<lparr>msg_role = lm_role m, msg_content = ollama_content m\<rparr>) (lq_messages req),
            rq_stream = lq_stream req, rq_system = [],
            rq_max_tokens = Option.bind (lq_options req) lo_num_predict,
            rq_temperature = Option.bind (lq_options req) lo_temperature,
            rq_tools = lq_tools req, rq_extra = ollama_extra req,
            pq_top_p = Option.bind (lq_options req) lo_top_p, pq_top_k = Option.bind (lq_options req) lo_top_k,
            pq_stop = (case lq_options req of None \<Rightarrow> [] | Some opts \<Rightarrow> lo_stop opts),
            pq_seed = Option.bind (lq_options req) lo_seed\<rparr>)"

definition ollama_usage :: "ollama_response \<Rightarrow> usage option" where
  "ollama_usage resp =
     (if 0 < lr_prompt_eval_count resp \<or> 0 < lr_eval_count resp \<or> 0 < lr_total_duration resp
      then Some (zero_usage\<lparr>prompt_tokens := lr_prompt_eval_count resp, completion_tokens := lr_eval_count resp,
             total_tokens := lr_prompt_eval_count resp + lr_eval_count resp,
             total_duration_ns := lr_total_duration resp, prompt_duration_ns := lr_prompt_eval_duration resp\<rparr>)
      else None)"

definition ollama_parse_response :: "provider_decoders \<Rightarrow> string \<Rightarrow> string + chat_response" where
  "ollama_parse_response pd payload =
     and_then (pd_ollama_response pd payload) (\<lambda>resp.
       Inr \<lparr>rs_model = lr_model resp,
            rs_message = \<lparr>msg_role = lm_role (lr_message resp), msg_content = ollama_content (lr_message resp)\<rparr>,
            rs_done = lr_done resp,
            rs_stop_reason = (if lr_done_reason resp = [] \<and> lr_done resp then ''stop'' else lr_done_reason resp),
            rs_usage = ollama_usage resp,
            rs_extra = (case lr_context resp of
                None \<Rightarrow> []
              | Some context \<Rightarrow> [(''context'', JArr context), (''load_duration'', JNum (of_int (lr_load_duration resp))),
                                (''eval_duration'', JNum (of_int (lr_eval_duration resp)))])\<rparr>)"

subsection \<open>By name\<close>

datatype provider = Anthropic | OpenAI | Ollama

definition provider_name :: "provider \<Rightarrow> string" where
  "provider_name p = (case p of Anthropic \<Rightarrow> ''anthropic'' | OpenAI \<Rightarrow> ''openai'' | Ollama \<Rightarrow> ''ollama'')"

definition new_provider :: "string \<Rightarrow> provider option" where
  "new_provider ty =
     (if ty = ''anthropic'' then Some Anthropic else if ty = ''openai'' then Some OpenAI
      else if ty = ''ollama'' then Some Ollama else None)"

definition default_streaming :: "provider \<Rightarrow> bool" where
  "default_streaming p = (case p of Anthropic \<Rightarrow> False | OpenAI \<Rightarrow> False | Ollama \<Rightarrow> True)"

definition parse_request :: "provider_decoders \<Rightarrow> provider \<Rightarrow> string \<Rightarrow> string + provider_request" where
  "parse_request pd p payload =
     (case p of Anthropic \<Rightarrow> anthropic_parse_request pd payload
      | OpenAI \<Rightarrow> openai_parse_request pd payload
      | Ollama \<Rightarrow> ollama_parse_request pd payload)"

definition parse_response :: "provider_decoders \<Rightarrow> provider \<Rightarrow> string \<Rightarrow> string + chat_response" where
  "parse_response pd p payload =
     (case p of Anthropic \<Rightarrow> anthropic_parse_response pd payload
      | OpenAI \<Rightarrow> openai_parse_response pd payload
      | Ollama \<Rightarrow> ollama_parse_response pd payload)"

lemma new_provider_name: "new_provider ty = Some p \<longleftrightarrow> ty = provider_name p"
  by (cases p) (auto simp: new_provider_def provider_name_def)

end
