(* ===== verification/Proxy.thy ===== *)
theory Proxy
  imports Providers WorkerPool Ingest
begin

text \<open>
  The capturing proxy (\<open>proxy/proxy.go\<close>, \<open>proxy/config.go\<close>, \<open>proxy/header\<close>): the choice of agent, provider and
  upstream, the headers passed on, the limits on a request, the plain and the streamed answer, and the job
  each hands to the worker pool.

  Parameters: the providers' decoders, a decoder of a JSON object and of its \<open>stream\<close> field, the size of a
  marshalled response, and what the upstream answers. A request's header is a function of the name (Fiber's lookup ignores
  case). The client of a streamed answer is a writer that may fail, as in \<open>SseReader\<close>; the bytes a
  reducer reads through \<open>io.TeeReader\<close> reach it in chunks of unspecified sizes, an argument.
\<close>

subsection \<open>Configuration\<close>

record agent_route =
  ag_provider_type :: string
  ag_upstream_url :: string

record proxy_config =
  pxc_upstream_url :: string
  pxc_provider_type :: string
  pxc_agent_routes :: "(string \<times> agent_route) list" \<comment> \<open>in the order the loop of \<open>New\<close> meets them\<close>
  pxc_provider_upstreams :: "string \<Rightarrow> string option"
  pxc_project :: string
  pxc_queue_byte_budget :: int

record proxy =
  px_config :: proxy_config
  px_pool :: pool
  px_providers :: "string \<Rightarrow> provider option"
  px_default :: provider

fun add_route_providers :: "(string \<times> agent_route) list \<Rightarrow> (string \<Rightarrow> provider option) \<Rightarrow> string + (string \<Rightarrow> provider option)" where
  "add_route_providers [] ps = Inr ps"
| "add_route_providers ((_, route) # routes) ps =
     (let ty = ag_provider_type route
      in if ty = [] \<or> ps ty \<noteq> None then add_route_providers routes ps
         else case new_provider ty of
                None \<Rightarrow> Inl (''could not create provider '' @ ty)
              | Some p \<Rightarrow> add_route_providers routes (ps(ty \<mapsto> p)))"

definition new_proxy :: "proxy_config \<Rightarrow> string + proxy" where
  "new_proxy c =
     (let ty = pxc_provider_type c
      in if ty = [] then Inl ''provider type is required''
         else case new_provider ty of
                None \<Rightarrow> Inl ''could not create new provider''
              | Some d \<Rightarrow>
                  and_then (add_route_providers (pxc_agent_routes c) [ty \<mapsto> d]) (\<lambda>ps.
                  and_then (new_pool \<lparr>pc_num_workers = 0, pc_queue_size = 0,
                              pc_queue_byte_budget = pxc_queue_byte_budget c, pc_project = pxc_project c\<rparr>) (\<lambda>pool.
                    Inr \<lparr>px_config = c, px_pool = pool, px_providers = ps, px_default = d\<rparr>)))"

subsection \<open>Agent, provider and upstream\<close>

definition agent_path_prefix :: string where "agent_path_prefix = ''/agents/''"
definition provider_path_prefix :: string where "provider_path_prefix = ''/providers/''"

text \<open>\<open>strings.SplitN(s, "/", 2)\<close> is a cut: the part before the first slash, and the rest if there is one.\<close>

definition resolve_provider_override :: "string \<Rightarrow> string \<times> string" where
  "resolve_provider_override path =
     (if \<not> has_prefix path provider_path_prefix then ([], path)
      else let remainder = trim_prefix path provider_path_prefix
           in if remainder = [] then ([], path)
              else case go_cut remainder ''/'' of
                     (first, rest, found) \<Rightarrow>
                       let name = go_trim_space first
                       in if name = [] then ([], path)
                          else (name, if found then ''/'' @ rest else ''/''))"

definition resolve_agent :: "string \<Rightarrow> string \<Rightarrow> string \<times> string \<times> string" where
  "resolve_agent path header =
     (let agent = go_trim_space header
      in if agent \<noteq> [] then (agent, [], path)
         else if \<not> has_prefix path agent_path_prefix then ([], [], path)
         else let remainder = trim_prefix path agent_path_prefix
              in if remainder = [] then ([], [], path)
                 else case go_cut remainder ''/'' of
                        (first, rest, found) \<Rightarrow>
                          let agent = go_trim_space first
                          in if agent = [] then ([], [], path)
                             else if \<not> found then (agent, [], ''/'')
                             else (case resolve_provider_override (''/'' @ rest) of
                                     (provider, trimmed) \<Rightarrow> (agent, provider, trimmed)))"

definition is_openai_auth_path :: "string \<Rightarrow> bool" where
  "is_openai_auth_path path =
     (let lower = go_to_lower path
      in list_ex (has_prefix lower)
           [''/oauth'', ''/v1/oauth'', ''/auth'', ''/v1/auth'', ''/api/oauth'', ''/api/auth'', ''/oauth2'', ''/v1/oauth2''])"

definition resolve_openai_auth_upstream :: "string \<Rightarrow> string \<Rightarrow> string \<Rightarrow> string \<Rightarrow> string" where
  "resolve_openai_auth_upstream agent provider path upstream =
     (if provider = ''openai'' \<and> agent = ''codex'' \<and> is_openai_auth_path path then ''https://auth.openai.com'' else upstream)"

definition provider_upstream :: "proxy_config \<Rightarrow> string \<Rightarrow> string \<Rightarrow> string" where
  "provider_upstream c provider fallback =
     (let upstream = go_trim_space (case pxc_provider_upstreams c provider of None \<Rightarrow> [] | Some u \<Rightarrow> u)
      in if upstream \<noteq> [] then upstream else fallback)"

definition provider_by_name :: "proxy \<Rightarrow> string \<Rightarrow> string \<Rightarrow> string \<Rightarrow> provider \<times> string" where
  "provider_by_name px name agent path =
     (let c = px_config px
      in case px_providers px name of
           Some p \<Rightarrow>
             if name = ''openai''
             then (p, resolve_openai_auth_upstream agent name path (provider_upstream c name ''https://api.openai.com/v1''))
             else if name = ''anthropic'' then (p, provider_upstream c name ''https://api.anthropic.com'')
             else if name = ''ollama'' then (p, provider_upstream c name (pxc_upstream_url c))
             else (p, pxc_upstream_url c)
         | None \<Rightarrow> (px_default px, pxc_upstream_url c))"

definition resolve_provider :: "proxy \<Rightarrow> string \<Rightarrow> string \<Rightarrow> string \<Rightarrow> provider \<times> string" where
  "resolve_provider px agent name path =
     (let c = px_config px; default = (px_default px, pxc_upstream_url c)
      in if name \<noteq> [] then provider_by_name px name agent path
         else if agent = [] then default
         else case map_of (pxc_agent_routes c) agent of
                None \<Rightarrow> default
              | Some route \<Rightarrow>
                  (case px_providers px (ag_provider_type route) of
                     None \<Rightarrow> default
                   | Some p \<Rightarrow>
                       (p, resolve_openai_auth_upstream agent (ag_provider_type route) path
                             (if ag_upstream_url route = [] then pxc_upstream_url c else ag_upstream_url route))))"

subsection \<open>Headers\<close>

definition agent_name_header :: string where "agent_name_header = ''X-Tapes-Agent-Name''"

definition thread_id_headers :: "string list" where
  "thread_id_headers = [''x-claude-code-agent-id'']"

fun first_header :: "(string \<Rightarrow> string) \<Rightarrow> string list \<Rightarrow> string" where
  "first_header get [] = []"
| "first_header get (n # ns) = (let v = go_trim_space (get n) in if v \<noteq> [] then v else first_header get ns)"

definition thread_id :: "(string \<Rightarrow> string) \<Rightarrow> string" where
  "thread_id get =
     (let v = first_header get thread_id_headers; tid = go_trim_space (get ''thread-id''); sid = go_trim_space (get ''session-id'')
      in if v \<noteq> [] then v else if tid \<noteq> [] \<and> sid \<noteq> [] \<and> tid \<noteq> sid then tid else [])"

definition skip_request :: "string list" where
  "skip_request = [''Connection'', ''Host'', ''Accept-Encoding'', agent_name_header]"

definition skip_response :: "string list" where
  "skip_response = [''Connection'', ''Transfer-Encoding'', ''Content-Encoding'', ''Content-Length'']"

text \<open>\<open>Header.Set\<close> replaces the values of the name.\<close>

definition set_header :: "string \<Rightarrow> string \<Rightarrow> (string \<times> string) list \<Rightarrow> (string \<times> string) list" where
  "set_header k v hs = filter (\<lambda>h. fst h \<noteq> k) hs @ [(k, v)]"

definition upstream_request_headers :: "(string \<times> string) list \<Rightarrow> (string \<times> string) list" where
  "upstream_request_headers hs =
     fold (\<lambda>(k, v) out. if k \<in> set skip_request then out else set_header k v out) hs []"

definition client_response_headers :: "(string \<times> string list) list \<Rightarrow> (string \<times> string) list" where
  "client_response_headers hs =
     fold (\<lambda>(k, vs) out. if k \<in> set skip_response then out else set_header k (go_join vs '', '') out) hs []"

subsection \<open>The job of a turn\<close>

definition local_capture_session :: ingest_envelope where
  "local_capture_session = empty_envelope"

definition capture_weight :: "nat \<Rightarrow> nat \<Rightarrow> int" where
  "capture_weight request_len response_bytes = 2 * int request_len + int response_bytes"

definition stamp_duration :: "int \<Rightarrow> chat_response \<Rightarrow> chat_response" where
  "stamp_duration elapsed resp =
     resp\<lparr>rs_usage := Some ((case rs_usage resp of None \<Rightarrow> zero_usage | Some u \<Rightarrow> u)\<lparr>total_duration_ns := elapsed\<rparr>)\<rparr>"

text \<open>What every handler of a turn carries.\<close>

record turn_context =
  tc_provider :: provider
  tc_agent_name :: string
  tc_thread_id :: string
  tc_raw_request :: string
  tc_request :: "chat_request option"
  tc_elapsed :: int \<comment> \<open>nanoseconds from the start of the request to the stamp\<close>

definition turn_job :: "turn_context \<Rightarrow> chat_request \<Rightarrow> chat_response \<Rightarrow> nat \<Rightarrow> job" where
  "turn_job tc req resp response_bytes =
     \<lparr>jb_provider = provider_name (tc_provider tc), jb_agent_name = tc_agent_name tc, jb_thread_id = tc_thread_id tc,
      jb_request_id = [], jb_upstream_request_id = [], jb_req = req, jb_resp = stamp_duration (tc_elapsed tc) resp,
      jb_weight = capture_weight (length (tc_raw_request tc)) response_bytes, jb_raw_request = tc_raw_request tc,
      jb_session = Some local_capture_session\<rparr>"

definition default_model :: "chat_request \<Rightarrow> chat_response \<Rightarrow> chat_response" where
  "default_model req resp = (if rs_model resp = [] \<and> rq_model req \<noteq> [] then resp\<lparr>rs_model := rq_model req\<rparr> else resp)"

subsection \<open>Reading a stream's chunks\<close>

record stream_totals =
  tot_content :: string
  tot_prompt :: int
  tot_completion :: int

text \<open>\<open>int(v)\<close> of a float drops the fraction.\<close>

definition json_int :: "jobj \<Rightarrow> string \<Rightarrow> int" where
  "json_int m k = (case map_of m k of Some (JNum x) \<Rightarrow> (if 0 \<le> x then \<lfloor>x\<rfloor> else \<lceil>x\<rceil>) | _ \<Rightarrow> 0)"

definition chunk_text :: "provider \<Rightarrow> jobj \<Rightarrow> string" where
  "chunk_text p m =
     (case p of
        Ollama \<Rightarrow> (case map_of m ''message'' of Some (JObj msg) \<Rightarrow> jget_string msg ''content'' | _ \<Rightarrow> [])
      | OpenAI \<Rightarrow>
          (case map_of m ''choices'' of
             Some (JArr (JObj choice # _)) \<Rightarrow>
               (case map_of choice ''delta'' of Some (JObj delta) \<Rightarrow> jget_string delta ''content'' | _ \<Rightarrow> [])
           | _ \<Rightarrow> [])
      | Anthropic \<Rightarrow> [])"

definition chunk_usage :: "provider \<Rightarrow> jobj \<Rightarrow> (int \<times> int) option" where
  "chunk_usage p m =
     (case p of
        OpenAI \<Rightarrow>
          (case map_of m ''usage'' of
             Some (JObj u) \<Rightarrow> Some (json_int u ''prompt_tokens'', json_int u ''completion_tokens'') | _ \<Rightarrow> None)
      | Ollama \<Rightarrow>
          (if jget_bool m ''done'' then Some (json_int m ''prompt_eval_count'', json_int m ''eval_count'') else None)
      | Anthropic \<Rightarrow> None)"

definition extract_content :: "(string \<Rightarrow> jobj option) \<Rightarrow> provider \<Rightarrow> string \<Rightarrow> stream_totals \<Rightarrow> stream_totals" where
  "extract_content json p data t =
     (case json data of None \<Rightarrow> t | Some m \<Rightarrow> t\<lparr>tot_content := tot_content t @ chunk_text p m\<rparr>)"

definition extract_usage :: "(string \<Rightarrow> jobj option) \<Rightarrow> provider \<Rightarrow> string \<Rightarrow> stream_totals \<Rightarrow> stream_totals" where
  "extract_usage json p data t =
     (case json data of
        None \<Rightarrow> t
      | Some m \<Rightarrow> (case chunk_usage p m of
                     None \<Rightarrow> t | Some (a, b) \<Rightarrow> t\<lparr>tot_prompt := a, tot_completion := b\<rparr>))"

definition note_chunk :: "(string \<Rightarrow> jobj option) \<Rightarrow> provider \<Rightarrow> string \<Rightarrow> stream_totals \<Rightarrow> stream_totals" where
  "note_chunk json p data t = extract_usage json p data (extract_content json p data t)"

definition no_totals :: stream_totals where
  "no_totals = \<lparr>tot_content = [], tot_prompt = 0, tot_completion = 0\<rparr>"

subsection \<open>The response of a streamed answer\<close>

definition collect_block :: "content_block \<Rightarrow> content_block list \<times> string set \<Rightarrow> content_block list \<times> string set" where
  "collect_block b acc =
     (case acc of (out, seen) \<Rightarrow>
        if cb_type b \<noteq> ''tool_use'' then acc
        else if tool_use_id b = [] then (out @ [b], seen)
        else if tool_use_id b \<in> seen then acc
        else (out @ [b], insert (tool_use_id b) seen))"

definition collect_streamed_tool_use :: "(string \<Rightarrow> string + chat_response) \<Rightarrow> string list \<Rightarrow> content_block list" where
  "collect_streamed_tool_use parse chunks =
     fst (fold (\<lambda>chunk acc. case parse chunk of
                  Inl _ \<Rightarrow> acc
                | Inr resp \<Rightarrow> fold collect_block (msg_content (rs_message resp)) acc) chunks ([], {}))"

definition tool_ids :: "content_block list \<Rightarrow> string set" where
  "tool_ids bs = {tool_use_id b |b. b \<in> set bs \<and> cb_type b = ''tool_use'' \<and> tool_use_id b \<noteq> []}"

definition merge_tool_use :: "content_block list \<Rightarrow> content_block list \<Rightarrow> content_block list" where
  "merge_tool_use content tools =
     (let existing = set (map tool_use_id (filter (\<lambda>b. cb_type b = ''tool_use'' \<and> tool_use_id b \<noteq> []) content))
      in content @ filter (\<lambda>t. \<not> (tool_use_id t \<noteq> [] \<and> tool_use_id t \<in> existing)) tools)"

definition stream_usage :: "stream_totals \<Rightarrow> usage option" where
  "stream_usage t =
     (if 0 < tot_prompt t \<or> 0 < tot_completion t
      then Some (zero_usage\<lparr>prompt_tokens := tot_prompt t, completion_tokens := tot_completion t,
             total_tokens := tot_prompt t + tot_completion t\<rparr>)
      else None)"

definition prefer_usage :: "stream_totals \<Rightarrow> chat_response \<Rightarrow> chat_response" where
  "prefer_usage t resp = (case stream_usage t of None \<Rightarrow> resp | Some u \<Rightarrow> resp\<lparr>rs_usage := Some u\<rparr>)"

text \<open>The response made from the last chunk, and the one made from what was collected.\<close>

definition last_chunk_response :: "stream_totals \<Rightarrow> content_block list \<Rightarrow> chat_response \<Rightarrow> chat_response" where
  "last_chunk_response t tools resp =
     (let msg = (if get_text (rs_message resp) = [] \<and> tot_content t \<noteq> []
                 then new_text_message ''assistant'' (tot_content t) else rs_message resp)
      in prefer_usage t (resp\<lparr>rs_message := msg\<lparr>msg_content := merge_tool_use (msg_content msg) tools\<rparr>\<rparr>))"

definition collected_response :: "stream_totals \<Rightarrow> content_block list \<Rightarrow> chat_response option" where
  "collected_response t tools =
     (if tot_content t = [] \<and> tools = [] then None
      else Some (prefer_usage t
        \<lparr>rs_model = [],
         rs_message = \<lparr>msg_role = ''assistant'',
           msg_content = (if tot_content t = [] then [] else [empty_block\<lparr>cb_type := ''text'', cb_text := tot_content t\<rparr>]) @ tools\<rparr>,
         rs_done = True, rs_stop_reason = [], rs_usage = None, rs_extra = []\<rparr>))"

definition reconstruct_streamed_response :: "(string \<Rightarrow> string + chat_response) \<Rightarrow> string list \<Rightarrow> stream_totals \<Rightarrow> chat_response option" where
  "reconstruct_streamed_response parse chunks t =
     (let tools = collect_streamed_tool_use parse chunks
      in if chunks = [] then collected_response t tools
         else case parse (last chunks) of
                Inr resp \<Rightarrow> Some (last_chunk_response t tools resp)
              | Inl _ \<Rightarrow> collected_response t tools)"

definition enqueue_streamed_response ::
  "(string \<Rightarrow> string + chat_response) \<Rightarrow> turn_context \<Rightarrow> string list \<Rightarrow> stream_totals \<Rightarrow> job option"
where
  "enqueue_streamed_response parse tc chunks t =
     (case tc_request tc of
        None \<Rightarrow> None
      | Some req \<Rightarrow>
          if chunks = [] then None
          else map_option (\<lambda>resp. turn_job tc req (default_model req resp) (sum_list (map length chunks)))
                 (reconstruct_streamed_response parse chunks t))"

subsection \<open>The lanes of a streamed answer\<close>

text \<open>Through the capture reducer: \<open>body\<close> is what it reads, \<open>err\<close> the error the reading ends with, the client's
  included.\<close>

definition sse_capture_lane ::
  "anthropic_decoders \<Rightarrow> (chat_response \<Rightarrow> nat) \<Rightarrow> turn_context \<Rightarrow> string \<Rightarrow> string option \<Rightarrow> job option"
where
  "sse_capture_lane ax response_weight tc body err =
     (case (reduce_stream ax (\<lambda>_. None) body err, tc_request tc) of
        (Inr resp, Some req) \<Rightarrow>
          let resp1 = default_model req resp
          in Some (turn_job tc req resp1 (response_weight (stamp_duration (tc_elapsed tc) resp1)))
      | _ \<Rightarrow> None)"

definition client_copy :: "('w \<Rightarrow> string \<Rightarrow> 'w \<times> string option) \<Rightarrow> string list \<Rightarrow> 'w \<Rightarrow> 'w" where
  "client_copy w chunks d = fold (\<lambda>c d. fst (w d c)) chunks d"

text \<open>The older lane for server-sent events: None when the reading or the client fails.\<close>

function sse_legacy_loop ::
  "(string \<Rightarrow> jobj option) \<Rightarrow> provider \<Rightarrow> ('w \<Rightarrow> string \<Rightarrow> 'w \<times> string option) \<Rightarrow> 'w tee_reader \<Rightarrow>
   string list \<Rightarrow> stream_totals \<Rightarrow> 'w \<times> (string list \<times> stream_totals) option"
where
  "sse_legacy_loop json p w r chunks t =
     (case tee_next w max_line r of
        (r', NextErr e) \<Rightarrow> (tr_dest r', None)
      | (r', NextEnd) \<Rightarrow> (tr_dest r', Some (chunks, t))
      | (r', NextEvent ev) \<Rightarrow>
          if ev_data ev = ''[DONE]'' then sse_legacy_loop json p w r' chunks t
          else sse_legacy_loop json p w r' (chunks @ [ev_data ev]) (note_chunk json p (ev_data ev) t))"
  by pat_completeness auto
termination
  by (relation "measure (\<lambda>(json, p, w, r, chunks, t). reader_measure r)")
    (auto dest!: sym [of "tee_next _ _ _"] tee_next_event_decreases sym [of "(_, _)"])

declare sse_legacy_loop.simps [simp del]

definition sse_legacy_lane ::
  "(string \<Rightarrow> jobj option) \<Rightarrow> (string \<Rightarrow> string + chat_response) \<Rightarrow> ('w \<Rightarrow> string \<Rightarrow> 'w \<times> string option) \<Rightarrow>
   turn_context \<Rightarrow> string \<Rightarrow> string option \<Rightarrow> 'w \<Rightarrow> 'w \<times> job option"
where
  "sse_legacy_lane json parse w tc body err d =
     (case sse_legacy_loop json (tc_provider tc) w (new_tee_reader body err d) [] no_totals of
        (d', None) \<Rightarrow> (d', None)
      | (d', Some (chunks, t)) \<Rightarrow> (d', enqueue_streamed_response parse tc chunks t))"

text \<open>Lines of JSON: an empty line is dropped; the loop ends at the end, at a read error or at a line that is too
  long, all of which still hand over what was read; a failed write ends it without.\<close>

function ndjson_loop ::
  "(string \<Rightarrow> jobj option) \<Rightarrow> provider \<Rightarrow> ('w \<Rightarrow> string \<Rightarrow> 'w \<times> string option) \<Rightarrow> string \<Rightarrow> 'w \<Rightarrow>
   string list \<Rightarrow> stream_totals \<Rightarrow> 'w \<times> (string list \<times> stream_totals) option"
where
  "ndjson_loop json p w s d chunks t =
     (case scan max_line s of
        ScanEnd \<Rightarrow> (d, Some (chunks, t))
      | ScanTooLong \<Rightarrow> (d, Some (chunks, t))
      | ScanLine l rest \<Rightarrow>
          if l = [] then ndjson_loop json p w rest d chunks t
          else (case w d l of
                  (d1, Some e) \<Rightarrow> (d1, None)
                | (d1, None) \<Rightarrow>
                    (case w d1 [LF] of
                       (d2, Some e) \<Rightarrow> (d2, None)
                     | (d2, None) \<Rightarrow> ndjson_loop json p w rest d2 (chunks @ [l]) (note_chunk json p l t))))"
  by pat_completeness auto
termination
  by (relation "measure (\<lambda>(json, p, w, s, d, chunks, t). length s)") (auto dest!: scan_decreases)

declare ndjson_loop.simps [simp del]

definition ndjson_lane ::
  "(string \<Rightarrow> jobj option) \<Rightarrow> (string \<Rightarrow> string + chat_response) \<Rightarrow> ('w \<Rightarrow> string \<Rightarrow> 'w \<times> string option) \<Rightarrow>
   turn_context \<Rightarrow> string \<Rightarrow> 'w \<Rightarrow> 'w \<times> job option"
where
  "ndjson_lane json parse w tc body d =
     (case ndjson_loop json (tc_provider tc) w body d [] no_totals of
        (d', None) \<Rightarrow> (d', None)
      | (d', Some (chunks, t)) \<Rightarrow> (d', enqueue_streamed_response parse tc chunks t))"

subsection \<open>The handler\<close>

record inbound =
  hq_method :: string
  hq_path :: string
  hq_header :: "string \<Rightarrow> string"
  hq_content_length :: int
  hq_body :: string

record upstream_answer =
  ua_status :: nat
  ua_content_type :: string
  ua_body :: string
  ua_read_error :: "string option"

datatype upstream_result = RequestInvalid | RequestFailed | Answered upstream_answer

record 'w proxy_env =
  pe_decoders :: provider_decoders
  pe_anthropic :: anthropic_decoders
  pe_json :: "string \<Rightarrow> jobj option"
  pe_stream_field :: "string \<Rightarrow> bool option" \<comment> \<open>the \<open>stream\<close> field of a body, when it decodes and is set\<close>
  pe_response_weight :: "chat_response \<Rightarrow> nat"
  pe_upstream :: "string \<Rightarrow> string \<Rightarrow> string \<Rightarrow> upstream_result" \<comment> \<open>method, URL and body\<close>
  pe_elapsed :: int
  pe_write :: "'w \<Rightarrow> string \<Rightarrow> 'w \<times> string option"
  pe_chunks :: "string \<Rightarrow> string list"

datatype 'w proxy_reply =
    Whole nat string \<comment> \<open>status and body\<close>
  | Streamed 'w

definition is_chat_request :: "inbound \<Rightarrow> bool" where
  "is_chat_request hq \<longleftrightarrow> hq_method hq = ''POST'' \<and> hq_body hq \<noteq> []"

definition parsed_request :: "'w proxy_env \<Rightarrow> provider \<Rightarrow> inbound \<Rightarrow> chat_request option" where
  "parsed_request pe p hq =
     (if \<not> is_chat_request hq then None
      else case parse_request (pe_decoders pe) p (hq_body hq) of Inl _ \<Rightarrow> None | Inr q \<Rightarrow> Some (request_of q))"

definition wants_stream :: "'w proxy_env \<Rightarrow> provider \<Rightarrow> inbound \<Rightarrow> bool" where
  "wants_stream pe p hq =
     (case Option.bind (parsed_request pe p hq) rq_stream of
        Some b \<Rightarrow> b
      | None \<Rightarrow> if \<not> is_chat_request hq then False
                else (case pe_stream_field pe (hq_body hq) of Some b \<Rightarrow> b | None \<Rightarrow> default_streaming p))"

definition turn_context_of :: "'w proxy_env \<Rightarrow> provider \<Rightarrow> string \<Rightarrow> inbound \<Rightarrow> turn_context" where
  "turn_context_of pe p agent hq =
     \<lparr>tc_provider = p, tc_agent_name = agent, tc_thread_id = thread_id (hq_header hq), tc_raw_request = hq_body hq,
      tc_request = parsed_request pe p hq, tc_elapsed = pe_elapsed pe\<rparr>"

definition plain_answer :: "'w proxy_env \<Rightarrow> turn_context \<Rightarrow> string \<Rightarrow> string \<Rightarrow> 'w proxy_reply \<times> job option" where
  "plain_answer pe tc method url =
     (case pe_upstream pe method url (tc_raw_request tc) of
        RequestInvalid \<Rightarrow> (Whole 500 ''internal error'', None)
      | RequestFailed \<Rightarrow> (Whole 502 ''upstream request failed'', None)
      | Answered ua \<Rightarrow>
          if ua_read_error ua \<noteq> None then (Whole 502 ''failed to read upstream response'', None)
          else (Whole (ua_status ua) (ua_body ua),
                case tc_request tc of
                  None \<Rightarrow> None
                | Some req \<Rightarrow>
                    if ua_status ua \<noteq> 200 then None
                    else (case parse_response (pe_decoders pe) (tc_provider tc) (ua_body ua) of
                            Inl _ \<Rightarrow> None
                          | Inr resp \<Rightarrow> Some (turn_job tc req resp (length (ua_body ua))))))"

definition stream_lane :: "'w proxy_env \<Rightarrow> turn_context \<Rightarrow> upstream_answer \<Rightarrow> 'w \<Rightarrow> 'w \<times> job option" where
  "stream_lane pe tc ua d =
     (let parse = parse_response (pe_decoders pe) (tc_provider tc)
      in if has_prefix (ua_content_type ua) ''text/event-stream''
         then if tc_provider tc = Anthropic
              then (client_copy (pe_write pe) (pe_chunks pe (ua_body ua)) d,
                    sse_capture_lane (pe_anthropic pe) (pe_response_weight pe) tc (ua_body ua) (ua_read_error ua))
              else sse_legacy_lane (pe_json pe) parse (pe_write pe) tc (ua_body ua) (ua_read_error ua) d
         else ndjson_lane (pe_json pe) parse (pe_write pe) tc (ua_body ua) d)"

definition streamed_answer :: "'w proxy_env \<Rightarrow> turn_context \<Rightarrow> string \<Rightarrow> 'w \<Rightarrow> 'w proxy_reply \<times> job option" where
  "streamed_answer pe tc url d =
     (case pe_upstream pe ''POST'' url (tc_raw_request tc) of
        RequestInvalid \<Rightarrow> (Whole 500 ''internal error'', None)
      | RequestFailed \<Rightarrow> (Whole 502 ''upstream request failed'', None)
      | Answered ua \<Rightarrow>
          if ua_status ua \<noteq> 200 then (Whole (ua_status ua) (ua_body ua), None)
          else (case stream_lane pe tc ua d of (d', j) \<Rightarrow> (Streamed d', j)))"

definition handle_proxy :: "'w proxy_env \<Rightarrow> proxy \<Rightarrow> inbound \<Rightarrow> 'w \<Rightarrow> 'w proxy_reply \<times> job option" where
  "handle_proxy pe px hq d =
     (case resolve_agent (hq_path hq) (hq_header hq agent_name_header) of
        (agent, name, path) \<Rightarrow>
          (case resolve_provider px agent name path of
             (p, upstream) \<Rightarrow>
               if int max_ingest_body_bytes < hq_content_length hq \<or> max_ingest_body_bytes < length (hq_body hq)
               then (Whole 413 ''Request Entity Too Large'', None)
               else let tc = turn_context_of pe p agent hq
                    in if wants_stream pe p hq \<and> is_chat_request hq then streamed_answer pe tc (upstream @ path) d
                       else plain_answer pe tc (hq_method hq) (upstream @ path)))"

text \<open>The job goes into the pool; whether there was room does not change the reply.\<close>

definition proxy_request :: "'w proxy_env \<Rightarrow> proxy \<Rightarrow> inbound \<Rightarrow> 'w \<Rightarrow> 'w proxy_reply \<times> proxy" where
  "proxy_request pe px hq d =
     (case handle_proxy pe px hq d of
        (reply, None) \<Rightarrow> (reply, px)
      | (reply, Some j) \<Rightarrow> (reply, px\<lparr>px_pool := fst (enqueue j (px_pool px))\<rparr>))"

end
