(* ===== verification/ProxyFacts.thy ===== *)
theory ProxyFacts
  imports Proxy ExtprocHeaders
begin

text \<open>
  What the proxy promises: the route of a path, the sub-thread the sidecar would find too, an answer that does not
  depend on its capture, the turns it captures and what their jobs carry, and the tool calls of a streamed answer.
\<close>

subsection \<open>Routes\<close>

lemma go_trim_space_Nil [simp]: "go_trim_space [] = []"
  by code_simp

lemma go_cut_at: "c \<notin> set s \<Longrightarrow> go_cut (s @ c # r) [c] = (s, r, True)"
proof -
  assume "c \<notin> set s"
  then have "go_index (s @ c # r) [c] = Some (length s)"
    by (induction s) (auto simp: has_prefix_def)
  then show ?thesis by (simp add: go_cut_def)
qed

lemma trim_prefix_append [simp]: "trim_prefix (p @ s) p = s"
  by (simp add: trim_prefix_def)

text \<open>A path built from an agent, a provider and a rest is taken apart into them, blanks around the names aside,
  when no header names the agent.\<close>

theorem agent_route_roundtrip:
  assumes "CHR ''/'' \<notin> set agent" "CHR ''/'' \<notin> set name" "go_trim_space agent \<noteq> []" "go_trim_space name \<noteq> []"
  shows "resolve_agent (agent_path_prefix @ agent @ provider_path_prefix @ name @ ''/'' @ rest) [] =
     (go_trim_space agent, go_trim_space name, ''/'' @ rest)"
proof -
  have ov: "resolve_provider_override (provider_path_prefix @ name @ ''/'' @ rest) = (go_trim_space name, ''/'' @ rest)"
    using go_cut_at [OF assms(2), of rest] assms(4) by (simp add: resolve_provider_override_def Let_def)
  moreover have "go_cut (agent @ provider_path_prefix @ name @ ''/'' @ rest) ''/'' =
      (agent, ''providers/'' @ name @ ''/'' @ rest, True)"
    using go_cut_at [OF assms(1)] by (simp add: provider_path_prefix_def)
  ultimately show ?thesis using assms(3) ov [unfolded provider_path_prefix_def] by (simp add: resolve_agent_def Let_def)
qed

theorem agent_route_roundtrip_witness:
  "resolve_agent (agent_path_prefix @ ''codex'' @ provider_path_prefix @ ''openai'' @ ''/'' @ ''v1/responses'') [] =
     (go_trim_space ''codex'', go_trim_space ''openai'', ''/'' @ ''v1/responses'')"
  by (rule agent_route_roundtrip) code_simp+

subsection \<open>The sub-thread\<close>

definition trimmed_headers :: "header list \<Rightarrow> bool" where
  "trimmed_headers hs \<longleftrightarrow> list_all (\<lambda>h. go_trim_space (hd_raw_value h) = hd_raw_value h \<and> go_trim_space (hd_value h) = hd_value h) hs"

lemma header_get_trimmed: "trimmed_headers hs \<Longrightarrow> go_trim_space (header_get hs n) = header_get hs n"
  by (induction hs) (auto simp: trimmed_headers_def)

text \<open>The proxy and the sidecar resolve the same sub-thread from the same headers, whose values carry no
  surrounding blanks, as an HTTP parser hands them over.\<close>

theorem readers_agree_on_thread:
  assumes "trimmed_headers hs"
  shows "thread_id (header_get hs) = header_thread_id hs"
  using header_get_trimmed [OF assms]
  by (simp add: thread_id_def header_thread_id_def thread_id_headers_def harness_thread_id_headers_def Let_def)

definition wit_codex_headers :: "header list" where
  "wit_codex_headers = [\<lparr>hd_key = ''Session-Id'', hd_value = ''root'', hd_raw_value = []\<rparr>,
     \<lparr>hd_key = ''Thread-Id'', hd_value = [], hd_raw_value = ''child''\<rparr>]"

theorem readers_agree_on_thread_witness:
  "thread_id (header_get wit_codex_headers) = header_thread_id wit_codex_headers \<and> header_thread_id wit_codex_headers = ''child''"
proof
  show "thread_id (header_get wit_codex_headers) = header_thread_id wit_codex_headers"
    by (rule readers_agree_on_thread) code_simp
  show "header_thread_id wit_codex_headers = ''child''" by code_simp
qed

subsection \<open>Tool calls of a stream\<close>

definition collect_ok :: "content_block list \<times> string set \<Rightarrow> bool" where
  "collect_ok acc \<longleftrightarrow> (case acc of (out, seen) \<Rightarrow>
     (\<forall>b\<in>set out. cb_type b = ''tool_use'') \<and> seen = tool_ids out
   \<and> distinct (filter (\<lambda>i. i \<noteq> []) (map tool_use_id out)))"

lemma tool_ids_simps [simp]:
  "tool_ids [] = {}" "tool_ids (xs @ ys) = tool_ids xs \<union> tool_ids ys"
  "tool_ids (b # bs) = (if cb_type b = ''tool_use'' \<and> tool_use_id b \<noteq> [] then {tool_use_id b} else {}) \<union> tool_ids bs"
  by (auto simp: tool_ids_def)

lemma collect_block_ok:
  assumes "collect_ok acc"
  shows "collect_ok (collect_block b acc) \<and> tool_ids (fst (collect_block b acc)) = tool_ids (fst acc) \<union> tool_ids [b]"
  using assms by (auto simp: collect_ok_def collect_block_def split: prod.splits) (auto simp: tool_ids_def)

lemma collect_blocks_ok:
  "collect_ok acc \<Longrightarrow> collect_ok (fold collect_block bs acc) \<and> tool_ids (fst (fold collect_block bs acc)) = tool_ids (fst acc) \<union> tool_ids bs"
proof (induction bs arbitrary: acc)
  case (Cons b bs)
  with collect_block_ok [OF Cons.prems, of b] Cons.IH [of "collect_block b acc"] show ?case by auto
qed simp

definition chunk_tool_ids :: "(string \<Rightarrow> string + chat_response) \<Rightarrow> string list \<Rightarrow> string set" where
  "chunk_tool_ids parse chunks = (\<Union>c\<in>set chunks. case parse c of Inl _ \<Rightarrow> {} | Inr r \<Rightarrow> tool_ids (msg_content (rs_message r)))"

lemma collect_chunks_ok:
  "collect_ok acc \<Longrightarrow>
   collect_ok (fold (\<lambda>chunk acc. case parse chunk of Inl _ \<Rightarrow> acc | Inr resp \<Rightarrow> fold collect_block (msg_content (rs_message resp)) acc) chunks acc)
   \<and> tool_ids (fst (fold (\<lambda>chunk acc. case parse chunk of Inl _ \<Rightarrow> acc | Inr resp \<Rightarrow> fold collect_block (msg_content (rs_message resp)) acc) chunks acc))
     = tool_ids (fst acc) \<union> chunk_tool_ids parse chunks"
proof (induction chunks arbitrary: acc)
  case (Cons c cs)
  show ?case
  proof (cases "parse c")
    case (Inr r)
    note ok = collect_blocks_ok [OF Cons.prems, of "msg_content (rs_message r)"]
    with Cons.IH [of "fold collect_block (msg_content (rs_message r)) acc"] show ?thesis
      by (auto simp: Inr chunk_tool_ids_def)
  qed (use Cons in \<open>auto simp: chunk_tool_ids_def\<close>)
qed (simp add: chunk_tool_ids_def)

lemma collected:
  "collect_ok (collect_streamed_tool_use parse chunks, tool_ids (collect_streamed_tool_use parse chunks))"
  "tool_ids (collect_streamed_tool_use parse chunks) = chunk_tool_ids parse chunks"
proof -
  have "collect_ok ([], {})" by (simp add: collect_ok_def)
  from collect_chunks_ok [OF this, of parse chunks]
  show "collect_ok (collect_streamed_tool_use parse chunks, tool_ids (collect_streamed_tool_use parse chunks))"
    "tool_ids (collect_streamed_tool_use parse chunks) = chunk_tool_ids parse chunks"
    by (auto simp: collect_streamed_tool_use_def collect_ok_def split: prod.splits)
qed

lemma tool_ids_merge: "tool_ids (merge_tool_use content tools) = tool_ids content \<union> tool_ids tools"
  by (auto simp: merge_tool_use_def Let_def tool_ids_def)

lemma prefer_usage_message [simp]: "rs_message (prefer_usage t r) = rs_message r"
  by (simp add: prefer_usage_def split: option.split)

text \<open>The response made of a streamed answer holds exactly the identified tool calls of the chunks that parse,
  wherever in the stream they came; there is none only when there was neither text nor a tool call.\<close>

theorem streamed_tool_calls_kept:
  "case reconstruct_streamed_response parse chunks t of
     Some resp \<Rightarrow> tool_ids (msg_content (rs_message resp)) = chunk_tool_ids parse chunks
   | None \<Rightarrow> tot_content t = [] \<and> collect_streamed_tool_use parse chunks = []"
proof -
  have c: "case collected_response t (collect_streamed_tool_use parse chunks) of
     Some resp \<Rightarrow> tool_ids (msg_content (rs_message resp)) = chunk_tool_ids parse chunks
   | None \<Rightarrow> tot_content t = [] \<and> collect_streamed_tool_use parse chunks = []"
    by (auto simp: collected_response_def collected(2))
  show ?thesis
  proof (cases "chunks = []")
    case False
    show ?thesis
    proof (cases "parse (last chunks)")
      case (Inr r)
      then have "tool_ids (msg_content (rs_message r)) \<subseteq> chunk_tool_ids parse chunks"
        using last_in_set [OF False] by (auto simp: chunk_tool_ids_def intro!: bexI [of _ "last chunks"])
      then show ?thesis
        using False by (auto simp: reconstruct_streamed_response_def Inr last_chunk_response_def Let_def tool_ids_merge
            collected(2) new_text_message_def)
    qed (use False c in \<open>simp add: reconstruct_streamed_response_def\<close>)
  qed (use c in \<open>simp add: reconstruct_streamed_response_def\<close>)
qed

subsection \<open>What the client gets\<close>

lemma legacy_loop_dest:
  "fst (sse_legacy_loop json p w r chunks t) = (case tee_run w max_line r of (es, r', err) \<Rightarrow> tr_dest r')"
proof (induction json p w r chunks t rule: sse_legacy_loop.induct)
  case (1 json p w r chunks t)
  obtain r' res where n: "tee_next w max_line r = (r', res)" by force
  show ?case
  proof (cases res)
    case (NextEvent ev)
    show ?thesis
      using "1.IH" [OF n [symmetric] NextEvent]
      by (subst sse_legacy_loop.simps, subst tee_run.simps) (simp add: n NextEvent split: prod.split)
  qed (subst sse_legacy_loop.simps, subst tee_run.simps, simp add: n)+
qed

lemma ndjson_loop_lines:
  "ndjson_loop json p buffer_write s d chunks t =
     (let ls = filter (\<lambda>l. l \<noteq> []) (fst (scan_all max_line s))
      in (d @ concat (map (\<lambda>l. l @ [LF]) ls), Some (chunks @ ls, fold (note_chunk json p) ls t)))"
proof (induction "length s" arbitrary: s d chunks t rule: less_induct)
  case less
  show ?case
  proof (cases "scan max_line s")
    case (ScanLine l rest)
    note IH = less.hyps [OF scan_decreases [OF ScanLine]]
    show ?thesis
      by (subst ndjson_loop.simps, subst scan_all.simps)
        (simp add: ScanLine buffer_write_def [abs_def] IH [unfolded buffer_write_def [abs_def]] Let_def split: prod.split)
  qed (subst ndjson_loop.simps, subst scan_all.simps, simp add: Let_def)+
qed

text \<open>A body the lanes copy as it is: lines that end in a line feed alone and fit the scanner, none empty where the
  lines are JSON documents. The reducer's lane copies any.\<close>

definition plain_body :: "string \<Rightarrow> bool" where
  "plain_body s \<longleftrightarrow> CR \<notin> set s \<and> (s = [] \<or> last s = LF) \<and> \<not> snd (scan_all max_line s)"

definition copied_verbatim :: "provider \<Rightarrow> upstream_answer \<Rightarrow> bool" where
  "copied_verbatim p ua \<longleftrightarrow>
     (if has_prefix (ua_content_type ua) ''text/event-stream''
      then (if p = Anthropic then True else plain_body (ua_body ua) \<and> ua_read_error ua = None)
      else plain_body (ua_body ua) \<and> list_all (\<lambda>l. l \<noteq> []) (fst (scan_all max_line (ua_body ua))))"

lemma client_copy_buffer: "client_copy buffer_write cs d = d @ concat cs"
  by (induction cs arbitrary: d) (simp_all add: client_copy_def buffer_write_def)

lemma plain_lines: "plain_body s \<Longrightarrow> concat (map (\<lambda>l. l @ [LF]) (fst (scan_all max_line s))) = s"
  using scan_all_concat [of max_line s "fst (scan_all max_line s)"]
  by (cases "scan_all max_line s") (auto simp: plain_body_def)

lemma legacy_verbatim:
  assumes "plain_body body"
  shows "fst (sse_legacy_loop json p buffer_write (new_tee_reader body None d) chunks t) = d @ body"
proof -
  obtain ls where ls: "scan_all max_line body = (ls, False)"
    using assms by (cases "scan_all max_line body") (auto simp: plain_body_def)
  have "scan_all max_line (tr_rest (new_tee_reader body None d)) = (ls, False)" using ls by (simp add: new_tee_reader_def)
  from tee_run_lines [OF never_fails_buffer _ this] plain_lines [OF assms] ls show ?thesis
    by (auto simp: legacy_loop_dest new_tee_reader_def copy_all_buffer split: prod.split)
qed

text \<open>A streamed answer whose lines are plain reaches the client byte for byte, in every lane, whatever its capture
  makes of it.\<close>

theorem stream_relayed:
  assumes "copied_verbatim (tc_provider tc) ua" "concat (pe_chunks pe (ua_body ua)) = ua_body ua" "pe_write pe = buffer_write"
  shows "fst (stream_lane pe tc ua d) = d @ ua_body ua"
proof -
  have "fst (sse_legacy_lane json parse buffer_write tc body e d) = fst (sse_legacy_loop json (tc_provider tc) buffer_write (new_tee_reader body e d) [] no_totals)"
    for json parse body e by (simp add: sse_legacy_lane_def split: prod.split option.split)
  moreover have "fst (ndjson_lane json parse buffer_write tc body d) = fst (ndjson_loop json (tc_provider tc) buffer_write body d [] no_totals)"
    for json parse body by (simp add: ndjson_lane_def split: prod.split option.split)
  ultimately show ?thesis
    using assms(1,2)
    by (auto simp: stream_lane_def assms(3) copied_verbatim_def client_copy_buffer legacy_verbatim ndjson_loop_lines Let_def
        filter_id_conv list_all_iff plain_lines split: if_splits)
qed

definition wit_pe :: "string \<Rightarrow> string proxy_env" where
  "wit_pe body = \<lparr>pe_decoders = undefined, pe_anthropic = undefined, pe_json = (\<lambda>_. None), pe_stream_field = (\<lambda>_. None),
     pe_response_weight = (\<lambda>_. 0), pe_upstream = (\<lambda>_ _ _. RequestFailed), pe_elapsed = 0, pe_write = buffer_write,
     pe_chunks = (\<lambda>s. [s])\<rparr>"

definition wit_ollama_answer :: upstream_answer where
  "wit_ollama_answer = \<lparr>ua_status = 200, ua_content_type = ''application/x-ndjson'', ua_body = ''{}'' @ [LF],
     ua_read_error = None\<rparr>"

definition wit_ollama_turn :: turn_context where
  "wit_ollama_turn = \<lparr>tc_provider = Ollama, tc_agent_name = [], tc_thread_id = [], tc_raw_request = ''q'',
     tc_request = None, tc_elapsed = 0\<rparr>"

theorem stream_relayed_witness:
  "fst (stream_lane (wit_pe []) wit_ollama_turn wit_ollama_answer ''x'') = ''x'' @ ''{}'' @ [LF]"
proof -
  have "scan_all max_line (''{}'' @ [LF]) = ([''{}''], False)"
    by (simp add: scan_all.simps scan_def max_line_def has_prefix_def drop_cr_def trim_suffix_def has_suffix_def)
  then have "copied_verbatim Ollama wit_ollama_answer"
    by (simp add: copied_verbatim_def wit_ollama_answer_def plain_body_def has_prefix_def)
  then show ?thesis
    using stream_relayed [of wit_ollama_turn wit_ollama_answer "wit_pe []" "''x''"]
    by (simp add: wit_ollama_turn_def wit_pe_def wit_ollama_answer_def)
qed

text \<open>Lines of JSON are not relayed verbatim otherwise: an empty line is dropped, a carriage return before the line feed
  too, and a last line without a line feed gets one.\<close>

lemma ndjson_rewritten:
  "fst (ndjson_loop json p buffer_write (''a'' @ [CR, LF, LF] @ ''b'') [] [] no_totals) = ''a'' @ [LF] @ ''b'' @ [LF]"
proof -
  have "scan_all max_line (''a'' @ [CR, LF, LF] @ ''b'') = ([''a'', [], ''b''], False)"
    by (simp add: scan_all.simps scan_def max_line_def has_prefix_def drop_cr_def trim_suffix_def has_suffix_def)
  then show ?thesis by (simp add: ndjson_loop_lines Let_def)
qed

text \<open>A value of blanks alone is a sub-thread for the sidecar and none for the proxy.\<close>

lemma blank_thread_differs:
  "\<exists>hs. thread_id (header_get hs) = [] \<and> header_thread_id hs = [SP]"
proof
  let ?hs = "[\<lparr>hd_key = ''x-claude-code-agent-id'', hd_value = [SP], hd_raw_value = []\<rparr>]"
  show "thread_id (header_get ?hs) = [] \<and> header_thread_id ?hs = [SP]"
    by code_simp
qed

subsection \<open>Capture is invisible\<close>

lemma legacy_same_dest: "fst (sse_legacy_loop json p w r chunks t) = fst (sse_legacy_loop json' p' w r chunks' t')"
  by (simp add: legacy_loop_dest)

lemma ndjson_same_dest: "fst (ndjson_loop json p w s d chunks t) = fst (ndjson_loop json' p' w s d chunks' t')"
proof (induction "length s" arbitrary: s d chunks t chunks' t' rule: less_induct)
  case less
  show ?case
  proof (cases "scan max_line s")
    case (ScanLine l rest)
    note IH = less.hyps [OF scan_decreases [OF ScanLine]]
    show ?thesis
      by (subst (1 2) ndjson_loop.simps) (auto simp: ScanLine intro: IH split: prod.split option.split)
  qed (subst (1 2) ndjson_loop.simps, simp)+
qed

lemma sse_legacy_lane_fst:
  "fst (sse_legacy_lane json parse w tc body e d) =
     fst (sse_legacy_loop json (tc_provider tc) w (new_tee_reader body e d) [] no_totals)"
  by (simp add: sse_legacy_lane_def split: prod.split option.split)

lemma ndjson_lane_fst:
  "fst (ndjson_lane json parse w tc body d) = fst (ndjson_loop json (tc_provider tc) w body d [] no_totals)"
  by (simp add: ndjson_lane_def split: prod.split option.split)

definition same_transport :: "'w proxy_env \<Rightarrow> 'w proxy_env \<Rightarrow> bool" where
  "same_transport pe pe' \<longleftrightarrow> pe_upstream pe = pe_upstream pe' \<and> pe_write pe = pe_write pe' \<and> pe_chunks pe = pe_chunks pe'"

lemma stream_lane_same:
  "same_transport pe pe' \<Longrightarrow> tc_provider tc = tc_provider tc' \<Longrightarrow> fst (stream_lane pe tc ua d) = fst (stream_lane pe' tc' ua d)"
  by (auto simp: stream_lane_def same_transport_def Let_def sse_legacy_lane_fst ndjson_lane_fst
      intro: legacy_same_dest ndjson_same_dest)



subsection \<open>What is captured\<close>

lemma stamped [simp]: "map_option total_duration_ns (rs_usage (stamp_duration e r)) = Some e"
  by (simp add: stamp_duration_def split: option.split)

text \<open>A job that carries the turn of this context.\<close>

definition carries_turn :: "turn_context \<Rightarrow> job \<Rightarrow> bool" where
  "carries_turn tc j \<longleftrightarrow>
     tc_request tc = Some (jb_req j) \<and> jb_provider j = provider_name (tc_provider tc) \<and> jb_agent_name j = tc_agent_name tc
   \<and> jb_thread_id j = tc_thread_id tc \<and> jb_request_id j = [] \<and> jb_raw_request j = tc_raw_request tc
   \<and> jb_session j = Some empty_envelope \<and> 2 * int (length (tc_raw_request tc)) \<le> jb_weight j
   \<and> map_option total_duration_ns (rs_usage (jb_resp j)) = Some (tc_elapsed tc)"

lemma turn_job_carries: "tc_request tc = Some req \<Longrightarrow> carries_turn tc (turn_job tc req resp n)"
  by (simp add: carries_turn_def turn_job_def local_capture_session_def capture_weight_def)

lemma enqueue_streamed_carries: "enqueue_streamed_response parse tc chunks t = Some j \<Longrightarrow> carries_turn tc j"
  by (auto simp: enqueue_streamed_response_def turn_job_carries split: option.splits if_splits)

lemma stream_lane_carries: "snd (stream_lane pe tc ua d) = Some j \<Longrightarrow> carries_turn tc j"
  by (auto simp: stream_lane_def Let_def sse_capture_lane_def sse_legacy_lane_def ndjson_lane_def turn_job_carries
      dest: enqueue_streamed_carries split: if_splits prod.splits option.splits sum.splits)

lemma plain_answer_carries:
  "snd (plain_answer pe tc method url) = Some j \<Longrightarrow>
   carries_turn tc j \<and> (\<exists>ua. pe_upstream pe method url (tc_raw_request tc) = Answered ua \<and> ua_status ua = 200)"
  by (auto simp: plain_answer_def turn_job_carries split: upstream_result.splits if_splits option.splits sum.splits)

lemma streamed_answer_carries:
  "snd (streamed_answer pe tc url d) = Some j \<Longrightarrow>
   carries_turn tc j \<and> (\<exists>ua. pe_upstream pe ''POST'' url (tc_raw_request tc) = Answered ua \<and> ua_status ua = 200)"
  by (auto simp: streamed_answer_def split: upstream_result.splits if_splits prod.splits) (metis snd_conv stream_lane_carries)


text \<open>The lane through the reducer is the reducer of the ingest server on the same body and content type.\<close>

lemma capture_lane_is_reducer:
  "has_prefix ct ''text/event-stream'' \<Longrightarrow> anthropic_reduce ax ctx (Some body) ct = reduce_stream ax ctx body None"
proof -
  assume "has_prefix ct ''text/event-stream''"
  then obtain r where ct: "ct = ''text/event-stream'' @ r" by (auto simp: has_prefix_iff)
  have "streaming_type ct"
    by (simp add: ct streaming_type_def go_to_lower_def go_contains_def has_prefix_def Let_def lower_char_def)
  then show ?thesis by (simp add: anthropic_reduce_def)
qed

end
