(* ===== verification/ProviderFacts.thy ===== *)
theory ProviderFacts
  imports Providers
begin

text \<open>
  What the parsers of the providers promise: a response and its echo in the next request's history give the same
  blocks, so that they meet in one node of the chain; and the parser of a response and the reducer of the same body
  read it alike.
\<close>

subsection \<open>The echo of a response's block\<close>

text \<open>A block as the wire carries it, empty fields left out; \<open>dec\<close> reads the raw content.\<close>

definition unless_empty :: "string \<Rightarrow> string \<Rightarrow> jobj" where
  "unless_empty k s = (if s = [] then [] else [(k, JStr s)])"

definition echo_block :: "(string \<Rightarrow> jval) \<Rightarrow> anthropic_block \<Rightarrow> jobj" where
  "echo_block dec b =
     (''type'', JStr (ab_type b)) # unless_empty ''text'' (ab_text b) @ unless_empty ''id'' (ab_id b)
     @ unless_empty ''name'' (ab_name b) @ (if ab_input b = [] then [] else [(''input'', JObj (ab_input b))])
     @ unless_empty ''thinking'' (ab_thinking b) @ unless_empty ''signature'' (ab_signature b)
     @ unless_empty ''tool_use_id'' (ab_tool_use_id b)
     @ (if ab_content b = [] then [] else [(''content'', dec (ab_content b))])"

definition response_types :: "string list" where
  "response_types = [''text'', ''tool_use'', ''thinking'', ''server_tool_use'', ''web_search_tool_result'']"

text \<open>A block of a type the parser knows, with text only when it is a text block.\<close>

definition known_block :: "anthropic_block \<Rightarrow> bool" where
  "known_block b \<longleftrightarrow> ab_type b \<in> set response_types \<and> (if ab_type b = ''text'' then True else ab_text b = [])"

lemma map_of_unless [simp]: "map_of (unless_empty k s) j = (if s \<noteq> [] \<and> j = k then Some (JStr s) else None)"
  by (simp add: unless_empty_def)

lemma map_of_when [simp]: "map_of (if P then [] else [(k, v)]) j = (if P \<or> j \<noteq> k then None else Some v)"
  by simp

lemma echo_get:
  "map_of (echo_block dec b) ''type'' = Some (JStr (ab_type b))"
  "jget_string (echo_block dec b) ''type'' = ab_type b" "jget_string (echo_block dec b) ''text'' = ab_text b"
  "jget_string (echo_block dec b) ''id'' = ab_id b" "jget_string (echo_block dec b) ''name'' = ab_name b"
  "jget_string (echo_block dec b) ''thinking'' = ab_thinking b"
  "jget_string (echo_block dec b) ''signature'' = ab_signature b"
  "jget_string (echo_block dec b) ''tool_use_id'' = ab_tool_use_id b"
  "jget_object (echo_block dec b) ''input'' = ab_input b" "jget_object (echo_block dec b) ''source'' = []"
  "map_of (echo_block dec b) ''content'' = (if ab_content b = [] then None else Some (dec (ab_content b)))"
  by (simp_all add: echo_block_def jget_string_def jget_object_def map_add_def split: option.split)

lemma jget_nil [simp]: "jget_string [] k = []"
  by (simp add: jget_string_def)

lemma known_block_cases:
  assumes "known_block b"
  obtains "ab_type b = ''text''" | "ab_type b = ''tool_use''" "ab_text b = []" | "ab_type b = ''thinking''" "ab_text b = []"
    | "ab_type b = ''server_tool_use''" "ab_text b = []" | "ab_type b = ''web_search_tool_result''" "ab_text b = []"
  using assms by (auto simp: known_block_def response_types_def split: if_splits)

lemma echo_same_block:
  assumes "known_block b" "ab_content b = [] \<or> pd_marshal pd (dec (ab_content b)) = Some (ab_content b)"
  shows "anthropic_request_block pd (echo_block dec b) = anthropic_response_block b"
  using assms(1)
  by (cases rule: known_block_cases)
    (use assms(2) in \<open>auto simp: anthropic_request_block_def anthropic_response_block_def echo_get is_tool_kind_def Let_def empty_block_def\<close>)

lemma request_blocks_objects: "anthropic_request_blocks pd (map (\<lambda>b. JObj (f b)) bs) = map (\<lambda>b. anthropic_request_block pd (f b)) bs"
  by (induction bs) simp_all

subsection \<open>Properties\<close>

text \<open>C25: A response of known blocks and its echo as a message of the next request have the same role and the same
  blocks, hence the same projection into the hash, provided that re-encoding the decoded raw content of a search
  result gives its bytes back.\<close>

theorem response_echo_same_message:
  assumes "list_all known_block (os_content resp)"
    and "list_all (\<lambda>b. ab_content b = [] \<or> pd_marshal pd (dec (ab_content b)) = Some (ab_content b)) (os_content resp)"
    and "pd_anthropic_response pd body = Inr resp"
    and "pd_anthropic_request pd next_body = Inr req"
    and "aq_messages req = before @ \<lparr>am_role = os_role resp, am_content = JArr (map (\<lambda>b. JObj (echo_block dec b)) (os_content resp))\<rparr> # after"
  shows "case (anthropic_parse_response pd body, anthropic_parse_request pd next_body) of
      (Inr r, Inr q) \<Rightarrow> rq_messages q ! length before = rs_message r
         \<and> length (rq_messages q) = length before + 1 + length after
         \<and> project_content (msg_content (rq_messages q ! length before)) = project_content (msg_content (rs_message r))
    | _ \<Rightarrow> False"
proof -
  have "map (\<lambda>b. anthropic_request_block pd (echo_block dec b)) (os_content resp) = map anthropic_response_block (os_content resp)"
    using assms(1,2) by (auto simp: list_all_iff intro!: echo_same_block)
  then show ?thesis
    using assms(3-5)
    by (simp add: anthropic_parse_response_def anthropic_parse_request_def anthropic_request_message_def
        request_blocks_objects nth_append del: map_eq_conv)
qed

text \<open>The reducer of ingest and the parser of the proxy read a one-shot Anthropic body alike: the same error, or
  the same response up to the defaults the reducer fills in for a missing role, type and usage.\<close>

definition with_reducer_defaults :: "chat_response \<Rightarrow> chat_response" where
  "with_reducer_defaults r = r
     \<lparr>rs_message := (rs_message r)\<lparr>msg_role := default_string (msg_role (rs_message r)) ''assistant''\<rparr>,
      rs_usage := Some (case rs_usage r of None \<Rightarrow> zero_usage | Some u \<Rightarrow> u),
      rs_extra := [(''id'', JStr (jget_string (rs_extra r) ''id'')),
                   (''type'', JStr (default_string (jget_string (rs_extra r) ''type'') ''message''))]\<rparr>"

theorem parser_agrees_with_reducer:
  "reduce_oneshot ax body =
     map_sum (\<lambda>e. ''anthropic reducer: parse oneshot body: '' @ e) with_reducer_defaults
       (anthropic_parse_response (pd\<lparr>pd_anthropic_response := ax_oneshot ax\<rparr>) body)"
proof -
  have b: "anthropic_response_block = oneshot_block"
    by (auto simp: fun_eq_iff anthropic_response_block_def oneshot_block_def is_tool_kind_def Let_def)
  show ?thesis
  proof (cases "ax_oneshot ax body")
    case (Inl e)
    then show ?thesis by (simp add: reduce_oneshot_def anthropic_parse_response_def wrap_err_def)
  next
    case (Inr r)
    then show ?thesis
      by (simp add: reduce_oneshot_def anthropic_parse_response_def wrap_err_def with_reducer_defaults_def b
          oneshot_usage_def anthropic_response_usage_def Let_def jget_string_def split: option.split)
  qed
qed

subsection \<open>Responses items\<close>

text \<open>The output item of a response with the fields of the input item that echoes it.\<close>

definition output_item :: "output_part list \<Rightarrow> input_item \<Rightarrow> responses_output_item" where
  "output_item parts i = \<lparr>oi_type = ii_type i, oi_content = parts, oi_call_id = ii_call_id i, oi_name = ii_name i,
     oi_arguments = ii_arguments i, oi_summary = ii_summary i, oi_encrypted_content = ii_encrypted_content i\<rparr>"

lemma output_item_simps [simp]:
  "oi_type (output_item parts i) = ii_type i" "oi_call_id (output_item parts i) = ii_call_id i"
  "oi_name (output_item parts i) = ii_name i" "oi_arguments (output_item parts i) = ii_arguments i"
  "oi_summary (output_item parts i) = ii_summary i" "oi_encrypted_content (output_item parts i) = ii_encrypted_content i"
  by (simp_all add: output_item_def)

lemma normalize_tool_block: "cb_type b = ''tool_use'' \<or> cb_type b = ''thinking'' \<Longrightarrow> normalize_responses_block ext b = b"
  by (auto simp: normalize_responses_block_def)

definition echoed_type :: "input_item \<Rightarrow> bool" where
  "echoed_type i \<longleftrightarrow> ii_type i \<notin> {[], ''message'', ''function_call_output''}"

definition custom_type :: "string \<Rightarrow> bool" where
  "custom_type ty \<longleftrightarrow> ty = ''custom_tool_call'' \<or> ty = ''custom_tool_call_output''"

text \<open>An output item of a Responses answer and its echo in the input of the next request give the same blocks: the
  reducer keeps a custom tool's item raw, the chain's normalisation turns it into the block the request's parser
  makes of the echo; calls, reasoning and unknown items are mapped alike.\<close>

theorem output_item_echo:
  assumes "pd_item pd raw = Some i" "ox_item ox raw = Some (output_item parts i)" "ox_arguments ox = pd_object pd"
    and "ext_item (pd_ext pd) raw = Some (custom_item i)"
    and "raw \<noteq> []" "echoed_type i" "custom_type (ii_type i) \<longrightarrow> ii_call_id i \<noteq> []"
  shows "map_option msg_content (responses_item_to_message pd raw) =
     Some (normalize_responses_content (pd_ext pd) (item_blocks ox raw))"
proof -
  have f: "function_call_block ox raw (output_item parts i) = input_call_block pd i raw"
    by (simp add: function_call_block_def input_call_block_def assms(3) Let_def)
  have t: "cb_type (input_call_block pd i raw) = ''tool_use''"
    by (simp add: input_call_block_def Let_def split: option.split)
  have n: "ii_type i \<noteq> []" "ii_type i \<noteq> ''message''" "ii_type i \<noteq> ''function_call_output''"
    using assms(6) by (auto simp: echoed_type_def)
  consider (call) "ii_type i = ''function_call''" | (reason) "ii_type i = ''reasoning''" | (custom) "custom_type (ii_type i)"
    | (other) "ii_type i \<noteq> ''function_call''" "ii_type i \<noteq> ''reasoning''" "\<not> custom_type (ii_type i)" by blast
  then show ?thesis
  proof cases
    case call
    then have "item_blocks ox raw = [input_call_block pd i raw]"
      by (simp add: item_blocks_def assms(2) f)
    then show ?thesis
      using call by (simp add: responses_item_to_message_def assms(1) normalize_responses_content_def normalize_tool_block t)
  next
    case reason
    then have "item_blocks ox raw = [reasoning_block i]"
      by (simp add: item_blocks_def assms(2) reasoning_block_def)
    then show ?thesis
      using reason by (simp add: responses_item_to_message_def assms(1) normalize_responses_content_def normalize_tool_block
          reasoning_block_def)
  next
    case custom
    then have b: "item_blocks ox raw = [empty_block\<lparr>cb_type := ii_type i, raw_content := raw\<rparr>]"
      by (auto simp: item_blocks_def assms(2) custom_type_def)
    from custom show ?thesis
      using assms(5,7) unfolding custom_type_def
      by (elim disjE) (simp_all add: b responses_item_to_message_def assms(1,4) normalize_responses_content_def
          normalize_responses_block_def custom_item_def)
  next
    case other
    then have "item_blocks ox raw = [empty_block\<lparr>cb_type := ii_type i, raw_content := raw\<rparr>]"
      using n by (simp add: item_blocks_def assms(2))
    then show ?thesis
      using n other by (simp add: responses_item_to_message_def assms(1) normalize_responses_content_def
          normalize_responses_block_def custom_type_def)
  qed
qed

subsection \<open>Witnesses\<close>

definition wit_search :: anthropic_block where
  "wit_search = \<lparr>ab_type = ''web_search_tool_result'', ab_text = [], ab_id = [], ab_name = [], ab_input = [],
     ab_thinking = [], ab_signature = [], ab_tool_use_id = ''srv'', ab_content = ''[]''\<rparr>"

definition wit_oneshot :: oneshot_response where
  "wit_oneshot = \<lparr>os_id = ''m'', os_type = ''message'', os_role = ''assistant'',
     os_content = [wit_search\<lparr>ab_type := ''thinking'', ab_signature := ''sig'', ab_content := [], ab_tool_use_id := []\<rparr>, wit_search],
     os_model = ''opus'', os_stop_reason = ''end_turn'', os_stop_sequence = None, os_usage = None\<rparr>"

definition wit_next_request :: anthropic_request where
  "wit_next_request = \<lparr>aq_model = ''opus'',
     aq_messages = [\<lparr>am_role = ''user'', am_content = JStr ''hi''\<rparr>]
       @ \<lparr>am_role = os_role wit_oneshot,
          am_content = JArr (map (\<lambda>b. JObj (echo_block (\<lambda>_. JArr []) b)) (os_content wit_oneshot))\<rparr> # [],
     aq_system = JNull, aq_max_tokens = 9, aq_temperature = None, aq_top_p = None, aq_top_k = None, aq_stop = [],
     aq_stream = None, aq_tools = []\<rparr>"

definition wit_custom :: input_item where
  "wit_custom = \<lparr>ii_type = ''custom_tool_call'', ii_role = [], ii_content = [], ii_call_id = ''c'', ii_name = ''exec'',
     ii_arguments = [], ii_input = ''ls'', ii_output = [], ii_summary = [], ii_encrypted_content = []\<rparr>"

definition wit_providers :: provider_decoders where
  "wit_providers = \<lparr>pd_ext = sample_externs\<lparr>ext_item := (\<lambda>_. Some (custom_item wit_custom))\<rparr>,
     pd_anthropic_request = (\<lambda>_. Inr wit_next_request), pd_anthropic_response = (\<lambda>_. Inr wit_oneshot),
     pd_openai_request = (\<lambda>_. Inl []), pd_openai_response = (\<lambda>_. Inl []), pd_ollama_request = (\<lambda>_. Inl []),
     pd_ollama_response = (\<lambda>_. Inl []), pd_probe = (\<lambda>_. None), pd_responses_request = (\<lambda>_. Inl []),
     pd_items = (\<lambda>_. Inl []), pd_item = (\<lambda>_. Some wit_custom), pd_parts = (\<lambda>_. None), pd_object = (\<lambda>_. None),
     pd_marshal = (\<lambda>v. if v = JArr [] then Some ''[]'' else None)\<rparr>"

theorem response_echo_same_message_witness:
  "case (anthropic_parse_response wit_providers ''r'', anthropic_parse_request wit_providers ''q'') of
      (Inr r, Inr q) \<Rightarrow> rq_messages q ! 1 = rs_message r
    | _ \<Rightarrow> False"
proof -
  note c = response_echo_same_message [of wit_oneshot wit_providers "\<lambda>_. JArr []" "''r''" "''q''" wit_next_request
      "[\<lparr>am_role = ''user'', am_content = JStr ''hi''\<rparr>]" "[]"]
  have "list_all known_block (os_content wit_oneshot)"
    "list_all (\<lambda>b. ab_content b = [] \<or> pd_marshal wit_providers (JArr []) = Some (ab_content b)) (os_content wit_oneshot)"
    by code_simp+
  then show ?thesis
    using c by (simp add: wit_providers_def wit_next_request_def split: sum.splits)
qed

theorem output_item_echo_witness:
  "map_option msg_content (responses_item_to_message wit_providers ''raw'') =
     Some (normalize_responses_content (pd_ext wit_providers)
       (item_blocks (sample_rx\<lparr>ox_item := \<lambda>_. Some (output_item [] wit_custom)\<rparr>) ''raw''))"
  by (rule output_item_echo [of wit_providers "''raw''" wit_custom _ "[]"])
    (simp_all add: wit_providers_def sample_rx_def wit_custom_def echoed_type_def custom_type_def custom_item_def)

text \<open>The raw content of a search result is kept byte for byte by the parser of responses, and decoded and encoded
  again by the parser of requests: where the encoder orders the keys of an object otherwise than the
  provider did, the echo is another block.\<close>

lemma echoed_search_differs:
  assumes "pd_marshal pd (dec (ab_content b)) = Some s" "s \<noteq> ab_content b" "ab_content b \<noteq> []"
    "ab_type b = ''web_search_tool_result''"
  shows "anthropic_request_block pd (echo_block dec b) \<noteq> anthropic_response_block b"
  using assms
  by (auto simp: anthropic_request_block_def anthropic_response_block_def echo_get is_tool_kind_def Let_def
      dest!: arg_cong [where f = raw_content])

end
