(* ===== verification/CassetteManifest.thy ===== *)
theory CassetteManifest
  imports LlmTypes Results "HOL-Library.List_Lexorder" "HOL-Library.Char_ord"
begin

text \<open>
  What a cassette declares of itself: \<open>pkg/cassette/name.go\<close>, \<open>problem.go\<close>, \<open>pkg/cassette/v1alpha1\<close>,
  \<open>pkg/cassette/manifest/manifest.go\<close> and the check of the configured sources in \<open>pkg/config/cassettes.go\<close>.

  Names, validation with every problem in the order it is found, defaults, the canonical form and its digest, the
  grants, and parsing. The standard library's URL parsers, quoting, duration parser, JSON checks and decoders and
  SHA-256 are parameters. The JSON of a document is read twice: as a value with its duplicate keys, and by the strict
  decoder into the struct.
\<close>

subsection \<open>Names and problems\<close>

record go_url =
  gu_scheme :: string
  gu_user :: bool \<comment> \<open>has userinfo\<close>
  gu_host :: string
  gu_hostname :: string
  gu_path :: string
  gu_query :: string
  gu_fragment :: string

record cas_env =
  ce_quote :: "string \<Rightarrow> string" \<comment> \<open>\<open>%q\<close>\<close>
  ce_url :: "string \<Rightarrow> go_url option"
  ce_request_uri :: "string \<Rightarrow> go_url option"
  ce_duration_ok :: "string \<Rightarrow> bool"
  ce_json_valid :: "string \<Rightarrow> bool"

definition is_lower :: "char \<Rightarrow> bool" where
  "is_lower c \<longleftrightarrow> 97 \<le> (of_char c :: nat) \<and> of_char c \<le> (122 :: nat)"

definition is_hex :: "char \<Rightarrow> bool" where
  "is_hex c \<longleftrightarrow> is_digit c \<or> c \<in> set ''abcdef''"

text \<open>\<open>strconv.Itoa\<close>.\<close>

function itoa :: "nat \<Rightarrow> string" where
  "itoa n = (if n < 10 then [char_of (48 + n)] else itoa (n div 10) @ [char_of (48 + n mod 10)])"
  by pat_completeness auto
termination by (relation "measure id") auto

definition int_text :: "int \<Rightarrow> string" where
  "int_text i = (if i < 0 then ''-'' @ itoa (nat (- i)) else itoa (nat i))"

definition indexed :: "string \<Rightarrow> nat \<Rightarrow> string \<Rightarrow> string" where
  "indexed pre i post = pre @ ''['' @ itoa i @ '']'' @ post"

definition name_pattern :: "string \<Rightarrow> bool" where
  "name_pattern s \<longleftrightarrow> 2 \<le> length s \<and> length s \<le> 32 \<and> is_lower (hd s)
     \<and> list_all (\<lambda>c. is_lower c \<or> is_digit c \<or> c = CHR ''-'') (butlast (tl s)) \<and> (is_lower (last s) \<or> is_digit (last s))"

definition reserved_names :: "(string \<times> string) list" where
  "reserved_names =
     [(''public'', ''the Postgres schema core''@[CHR 0x27]@''s own tables live in''),
      (''tapes'', ''core''@[CHR 0x27]@''s schema and role prefix'')]"

definition parse_name :: "cas_env \<Rightarrow> string \<Rightarrow> string + string" where
  "parse_name env v =
     (case map_of reserved_names v of
        Some reason \<Rightarrow> Inl (''cassette name '' @ ce_quote env v @ '' is reserved for '' @ reason)
      | None \<Rightarrow>
          if has_prefix v ''pg_'' then Inl (''cassette name '' @ ce_quote env v @ '' uses the Postgres-reserved pg_ prefix'')
          else if \<not> name_pattern v then Inl (''cassette name '' @ ce_quote env v @ '' must match ^[a-z][a-z0-9-]{0,30}[a-z0-9]$'')
          else Inr v)"

definition schema_name :: "string \<Rightarrow> string" where "schema_name n = n"

definition role_name :: "string \<Rightarrow> string" where "role_name n = ''cassette_'' @ n"

record problem =
  pb_field :: string
  pb_message :: string

definition problem_of :: "string \<Rightarrow> string \<Rightarrow> problem" where
  "problem_of f m = \<lparr>pb_field = f, pb_message = m\<rparr>"

record validation_error =
  ve_subject :: string
  ve_problems :: "problem list"

definition validation_text :: "validation_error \<Rightarrow> string" where
  "validation_text e =
     (if ve_problems e = [] then ''cassette manifest validation failed''
      else (if ve_subject e = [] then ''cassette manifest'' else ve_subject e) @ '' validation failed'' @
        concat (map (\<lambda>p. [LF] @ ''- '' @ pb_field p @ '': '' @ pb_message p) (ve_problems e)))"

subsection \<open>The manifest\<close>

text \<open>A declared default: what the decoder leaves of JSON, a number as its text, and what a caller may put there.\<close>

datatype setting_value = VText string | VNumber string | VBool bool | VInt int | VFloat rat | VJson jval

record setting =
  sg_key :: string
  sg_type :: string
  sg_required :: bool
  sg_default :: "setting_value option"
  sg_secret :: bool
  sg_description :: string
  sg_enum :: "string list"
  sg_min :: "int option"
  sg_max :: "int option"

record identity =
  id_name :: string
  id_version :: string
  id_display_name :: string
  id_description :: string
  id_license :: string
  id_homepage :: string
  id_image :: string
  id_port :: int
  id_audience :: "string list"

record manifest =
  mf_kind :: string
  mf_cassette :: identity
  mf_core :: string
  mf_views :: "string list"
  mf_health :: string
  mf_openapi :: string
  mf_prefix :: string
  mf_tables :: "string list"
  mf_config :: "setting list"
  mf_source_digest :: string

record anchors =
  an_health :: string
  an_openapi :: string
  an_prefix :: string

definition manifest_kind :: string where "manifest_kind = ''cassette/v1alpha1''"

definition default_prefix_path :: string where "default_prefix_path = ''api''"

definition trim_slashes :: "string \<Rightarrow> string" where
  "trim_slashes s = rev (dropWhile (\<lambda>c. c = CHR ''/'') (rev (dropWhile (\<lambda>c. c = CHR ''/'') s)))"

definition manifest_anchors :: "manifest \<Rightarrow> anchors" where
  "manifest_anchors m = \<lparr>an_health = mf_health m, an_openapi = mf_openapi m, an_prefix = trim_slashes (mf_prefix m)\<rparr>"

definition serves_audience :: "identity \<Rightarrow> string \<Rightarrow> bool" where
  "serves_audience i client \<longleftrightarrow> id_audience i = [] \<or> client \<in> set (id_audience i)"

definition apply_defaults :: "manifest \<Rightarrow> manifest" where
  "apply_defaults m = m
     \<lparr>mf_health := (if mf_health m = [] then ''/ping'' else mf_health m),
      mf_openapi := (if mf_openapi m = [] then ''/openapi'' else mf_openapi m),
      mf_prefix := (if mf_prefix m = [] then default_prefix_path else mf_prefix m)\<rparr>"

definition upper_char :: "char \<Rightarrow> char" where
  "upper_char c = (if is_lower c then char_of ((of_char c :: nat) - 32) else c)"

text \<open>A key with a byte outside ASCII has failed its pattern; here such bytes stay as they are.\<close>

definition env_var :: "setting \<Rightarrow> string" where
  "env_var s = ''CASSETTE_'' @ map (\<lambda>c. upper_char (if c = CHR ''.'' \<or> c = CHR ''-'' then CHR ''_'' else c)) (sg_key s)"

record grant_plan =
  gp_role :: string
  gp_schema :: string
  gp_own_schema :: bool
  gp_selects :: "string list"
  gp_tables :: "string list"

definition grant_plan_of :: "manifest \<Rightarrow> grant_plan" where
  "grant_plan_of m =
     \<lparr>gp_role = role_name (id_name (mf_cassette m)), gp_schema = schema_name (id_name (mf_cassette m)), gp_own_schema = True,
      gp_selects = sort (map (\<lambda>v. (''tapes_'' @ mf_core m) @ ''.'' @ v) (mf_views m)), gp_tables = sort (mf_tables m)\<rparr>"

subsection \<open>Validation\<close>

definition snake_char :: "char \<Rightarrow> bool" where
  "snake_char c \<longleftrightarrow> is_lower c \<or> is_digit c \<or> c = CHR ''_''"

definition contract_version_pattern :: "string \<Rightarrow> bool" where
  "contract_version_pattern s =
     (case s of c # d # ds \<Rightarrow> c = CHR ''v'' \<and> is_digit d \<and> d \<noteq> CHR ''0'' \<and> list_all is_digit ds | _ \<Rightarrow> False)"

definition identifier_pattern :: "string \<Rightarrow> bool" where
  "identifier_pattern s = (case s of c # cs \<Rightarrow> is_lower c \<and> list_all snake_char cs \<and> length cs \<le> 62 | [] \<Rightarrow> False)"

definition setting_key_pattern :: "string \<Rightarrow> bool" where
  "setting_key_pattern s =
     list_all (\<lambda>p. case p of c # cs \<Rightarrow> is_lower c \<and> list_all snake_char cs | [] \<Rightarrow> False) (go_split s ''.'')"

definition prefix_segment_pattern :: "string \<Rightarrow> bool" where
  "prefix_segment_pattern s =
     (case s of c # cs \<Rightarrow> (is_lower c \<or> is_digit c) \<and> list_all (\<lambda>c. snake_char c \<or> c = CHR ''-'') cs | [] \<Rightarrow> False)"

definition digest_pattern :: "string \<Rightarrow> bool" where
  "digest_pattern s \<longleftrightarrow> has_prefix s ''sha256:'' \<and> length s = 71 \<and> list_all is_hex (drop 7 s)"

definition audience_pattern :: "string \<Rightarrow> bool" where
  "audience_pattern s =
     (case s of c # cs \<Rightarrow> is_lower c \<and> list_all (\<lambda>c. snake_char c \<or> c = CHR ''-'') cs \<and> length cs \<le> 62 | [] \<Rightarrow> False)"

text \<open>The map of what was seen: the first position of an equal element before this one.\<close>

definition seen_at :: "'a list \<Rightarrow> nat \<Rightarrow> nat option" where
  "seen_at xs i = find (\<lambda>j. xs ! j = xs ! i) [0..<i]"

definition repeated :: "(nat \<Rightarrow> string) \<Rightarrow> string \<Rightarrow> 'a list \<Rightarrow> nat \<Rightarrow> problem list" where
  "repeated field words xs i =
     (case seen_at xs i of None \<Rightarrow> [] | Some j \<Rightarrow> [problem_of (field i) (words @ field j)])"

definition complain :: "bool \<Rightarrow> string \<Rightarrow> string \<Rightarrow> problem list" where
  "complain bad field msg = (if bad then [problem_of field msg] else [])"

definition validate_api_path :: "cas_env \<Rightarrow> string \<Rightarrow> string \<Rightarrow> problem list" where
  "validate_api_path env field v =
     (if v = [] then [problem_of field ''must not be empty'']
      else case ce_request_uri env v of
             None \<Rightarrow> [problem_of field ''must be an absolute path without a host, query, or fragment'']
           | Some u \<Rightarrow>
               if gu_path u \<noteq> v \<or> \<not> has_prefix v ''/'' \<or> has_prefix v ''//''
               then [problem_of field ''must be an absolute path without a host, query, or fragment'']
               else complain (list_ex (\<lambda>s. s = ''.'' \<or> s = ''..'') (go_split (gu_path u) ''/'')) field ''must not contain dot path segments'')"

definition validate_prefix_path :: "string \<Rightarrow> problem list" where
  "validate_prefix_path v =
     (if trim_slashes v \<noteq> []
      then complain (\<not> list_all prefix_segment_pattern (go_split (trim_slashes v) ''/'')) ''api.prefix_path''
             ''must be slash-separated segments of lowercase letters, digits, dashes, and underscores''
      else complain (v \<noteq> ''/'') ''api.prefix_path''
             (''must not be empty; omit the field for the \"api\" default, or set \"/\" for no prefix''))"

definition validate_packaging :: "identity \<Rightarrow> problem list" where
  "validate_packaging i =
     complain (id_image i \<noteq> [] \<and> go_trim_space (id_image i) \<noteq> id_image i) ''cassette.image''
       ''must not have leading or trailing whitespace''
   @ complain (id_image i \<noteq> [] \<and> id_port i = 0) ''cassette.port'' ''is required when cassette.image is set''
   @ complain (id_port i \<noteq> 0 \<and> (id_port i < 1 \<or> 65535 < id_port i)) ''cassette.port'' ''must be between 1 and 65535''
   @ complain (id_port i \<noteq> 0 \<and> id_image i = []) ''cassette.image'' ''is required when cassette.port is set''"

definition setting_type_names :: "string list" where
  "setting_type_names = [''string'', ''int'', ''bool'', ''duration'', ''json'']"

definition parse_digits :: "string \<Rightarrow> nat option" where
  "parse_digits ds =
     (if ds = [] \<or> \<not> list_all is_digit ds then None else Some (foldl (\<lambda>n c. 10 * n + (of_char c - 48)) 0 ds))"

text \<open>\<open>strconv.ParseInt(s, 10, 64)\<close>.\<close>

definition parse_int64 :: "string \<Rightarrow> int option" where
  "parse_int64 s =
     (let signed = (\<lambda>sg ds. case parse_digits ds of
            None \<Rightarrow> None | Some n \<Rightarrow> if int64_ok (sg * int n) then Some (sg * int n) else None)
      in case s of c # ds \<Rightarrow> if c = CHR ''-'' then signed (- 1) ds else if c = CHR ''+'' then signed 1 ds else signed 1 s
         | [] \<Rightarrow> None)"

text \<open>A float is finite here; its upper bound is exclusive.\<close>

definition integer_value :: "setting_value \<Rightarrow> int option" where
  "integer_value v =
     (case v of
        VInt i \<Rightarrow> if 2 ^ 63 - 1 < i then None else Some i
      | VFloat q \<Rightarrow>
          if q \<noteq> of_int \<lfloor>q\<rfloor> \<or> q < - (2 ^ 63) \<or> 2 ^ 63 \<le> q then None else Some \<lfloor>q\<rfloor>
      | VNumber s \<Rightarrow> parse_int64 s
      | _ \<Rightarrow> None)"

definition validate_typed_value :: "cas_env \<Rightarrow> setting \<Rightarrow> setting_value \<Rightarrow> string" where
  "validate_typed_value env s v =
     (if sg_type s = ''string'' then
        (case v of
           VText t \<Rightarrow> if sg_enum s \<noteq> [] \<and> t \<notin> set (sg_enum s) then ''must be one of the declared enum values'' else []
         | _ \<Rightarrow> ''must be a string'')
      else if sg_type s = ''int'' then
        (case integer_value v of
           None \<Rightarrow> ''must be an integer''
         | Some i \<Rightarrow>
             (case sg_min s of
                Some lo \<Rightarrow> if i < lo then ''must be at least '' @ int_text lo
                  else (case sg_max s of Some hi \<Rightarrow> if hi < i then ''must be at most '' @ int_text hi else [] | None \<Rightarrow> [])
              | None \<Rightarrow> (case sg_max s of Some hi \<Rightarrow> if hi < i then ''must be at most '' @ int_text hi else [] | None \<Rightarrow> [])))
      else if sg_type s = ''bool'' then (case v of VBool _ \<Rightarrow> [] | _ \<Rightarrow> ''must be a boolean'')
      else if sg_type s = ''duration'' then
        (case v of VText t \<Rightarrow> if ce_duration_ok env t then [] else ''must be a valid Go duration''
         | _ \<Rightarrow> ''must be a duration string'')
      else if sg_type s = ''json'' then
        (case v of VText t \<Rightarrow> if ce_json_valid env t then [] else ''must contain valid JSON'' | _ \<Rightarrow> ''must be a JSON string'')
      else [])"

definition validate_setting :: "cas_env \<Rightarrow> setting \<Rightarrow> string \<Rightarrow> problem list" where
  "validate_setting env s pre =
     complain (sg_type s \<notin> set setting_type_names) (pre @ ''.type'') (''must be one of '' @ go_join setting_type_names '', '')
   @ complain (sg_secret s \<and> sg_default s \<noteq> None) (pre @ ''.default'') ''secret settings must not declare a default''
   @ complain (sg_enum s \<noteq> [] \<and> sg_type s \<noteq> ''string'') (pre @ ''.enum'') ''is only valid for string settings''
   @ concat (map (repeated (\<lambda>i. indexed (pre @ ''.enum'') i []) ''duplicates '' (sg_enum s)) [0..<length (sg_enum s)])
   @ complain (sg_min s \<noteq> None \<and> sg_type s \<noteq> ''int'') (pre @ ''.min'') ''is only valid for int settings''
   @ complain (sg_max s \<noteq> None \<and> sg_type s \<noteq> ''int'') (pre @ ''.max'') ''is only valid for int settings''
   @ complain (case (sg_min s, sg_max s) of (Some lo, Some hi) \<Rightarrow> hi < lo | _ \<Rightarrow> False) (pre @ ''.min'')
       ''must be less than or equal to max''
   @ (case sg_default s of
        Some v \<Rightarrow>
          if sg_type s \<in> set setting_type_names
          then complain (validate_typed_value env s v \<noteq> []) (pre @ ''.default'') (validate_typed_value env s v)
          else []
      | None \<Rightarrow> [])"

definition identity_problems :: "cas_env \<Rightarrow> manifest \<Rightarrow> problem list" where
  "identity_problems env m =
     (let i = mf_cassette m
      in complain (mf_kind m \<noteq> manifest_kind) ''kind'' (''must be '' @ ce_quote env manifest_kind)
       @ (case parse_name env (id_name i) of Inl e \<Rightarrow> [problem_of ''cassette.name'' e] | Inr _ \<Rightarrow> [])
       @ complain (go_trim_space (id_version i) = []) ''cassette.version'' ''must not be empty''
       @ complain (id_homepage i \<noteq> [] \<and> (case ce_url env (id_homepage i) of
             None \<Rightarrow> True | Some u \<Rightarrow> gu_hostname u = [] \<or> (gu_scheme u \<noteq> ''http'' \<and> gu_scheme u \<noteq> ''https'')))
           ''cassette.homepage'' ''must be an absolute http or https URL''
       @ complain (mf_source_digest m \<noteq> [] \<and> \<not> digest_pattern (mf_source_digest m)) ''x-source-digest''
           ''must be sha256 followed by 64 lowercase hexadecimal characters'')"

definition core_problems :: "cas_env \<Rightarrow> string list \<Rightarrow> manifest \<Rightarrow> problem list" where
  "core_problems env supported m =
     (if \<not> contract_version_pattern (mf_core m) then [problem_of ''depends.core'' ''must match v<positive integer>'']
      else complain (mf_core m \<notin> set supported) ''depends.core''
             (''contract version '' @ ce_quote env (mf_core m) @ '' is not supported''))"

definition view_problems :: "string list \<Rightarrow> nat \<Rightarrow> problem list" where
  "view_problems views i =
     (let field = (\<lambda>i. indexed ''depends.views'' i [])
      in complain (\<not> identifier_pattern (views ! i)) (field i) ''must be a lower-snake Postgres identifier of at most 63 bytes''
       @ complain (views ! i = ''raw_turns'') (field i) ''raw_turns is not a contract view and may never be granted''
       @ repeated field ''duplicates '' views i)"

definition audience_problems :: "string list \<Rightarrow> nat \<Rightarrow> problem list" where
  "audience_problems clients i =
     (let field = (\<lambda>i. indexed ''cassette.audience'' i [])
      in complain (\<not> audience_pattern (clients ! i)) (field i) ''must be a lowercase client name of at most 63 bytes''
       @ repeated field ''duplicates '' clients i)"

definition table_problems :: "string list \<Rightarrow> nat \<Rightarrow> problem list" where
  "table_problems tables i =
     (let field = (\<lambda>i. indexed ''table'' i ''.name'')
      in complain (\<not> identifier_pattern (tables ! i)) (field i) ''must be a lower-snake Postgres identifier of at most 63 bytes''
       @ repeated field ''duplicates '' tables i)"

definition setting_problems :: "cas_env \<Rightarrow> setting list \<Rightarrow> nat \<Rightarrow> problem list" where
  "setting_problems env ss i =
     (let field = (\<lambda>i. indexed ''config'' i ''.key'')
      in complain (\<not> setting_key_pattern (sg_key (ss ! i))) (field i) ''must contain dotted lower-snake segments''
       @ repeated field ''duplicates '' (map sg_key ss) i
       @ repeated field ''projects to the same environment variable as '' (map env_var ss) i
       @ validate_setting env (ss ! i) (indexed ''config'' i []))"

definition manifest_problems :: "cas_env \<Rightarrow> string list \<Rightarrow> manifest \<Rightarrow> problem list" where
  "manifest_problems env supported m =
     identity_problems env m @ core_problems env supported m
   @ concat (map (view_problems (mf_views m)) [0..<length (mf_views m)])
   @ concat (map (audience_problems (id_audience (mf_cassette m))) [0..<length (id_audience (mf_cassette m))])
   @ validate_api_path env ''api.health'' (mf_health m)
   @ validate_api_path env ''api.openapi'' (mf_openapi m)
   @ validate_prefix_path (mf_prefix m)
   @ validate_packaging (mf_cassette m)
   @ concat (map (table_problems (mf_tables m)) [0..<length (mf_tables m)])
   @ concat (map (setting_problems env (mf_config m)) [0..<length (mf_config m)])"

definition validate_manifest :: "cas_env \<Rightarrow> string list \<Rightarrow> manifest \<Rightarrow> validation_error option" where
  "validate_manifest env supported m =
     (let ps = manifest_problems env supported m in if ps = [] then None else Some \<lparr>ve_subject = [], ve_problems = ps\<rparr>)"

subsection \<open>Canonical form, digest and redaction\<close>

text \<open>The JSON value of a manifest. Maps are encoded in the order of their keys, which is the order here; a declared
  default is encoded as it was decoded, but an integer by its value.\<close>

datatype canon =
    CText string
  | CInt int
  | CFlag bool
  | CValue setting_value
  | CList "canon list"
  | CObject "(string \<times> canon) list"

definition put_string :: "string \<Rightarrow> string \<Rightarrow> (string \<times> canon) list" where
  "put_string key v = (if v = [] then [] else [(key, CText v)])"

definition put_strings :: "string \<Rightarrow> string list \<Rightarrow> (string \<times> canon) list" where
  "put_strings key vs = (if vs = [] then [] else [(key, CList (map CText (sort vs)))])"

definition put_int :: "string \<Rightarrow> int option \<Rightarrow> (string \<times> canon) list" where
  "put_int key v = (case v of None \<Rightarrow> [] | Some i \<Rightarrow> [(key, CInt i)])"

definition canonical_identity :: "identity \<Rightarrow> canon" where
  "canonical_identity i = CObject
     (put_strings ''audience'' (id_audience i) @ put_string ''description'' (id_description i)
    @ put_string ''display_name'' (id_display_name i) @ put_string ''homepage'' (id_homepage i)
    @ put_string ''image'' (id_image i) @ put_string ''license'' (id_license i) @ [(''name'', CText (id_name i))]
    @ put_int ''port'' (if id_port i = 0 then None else Some (id_port i)) @ [(''version'', CText (id_version i))])"

definition canonical_depends :: "manifest \<Rightarrow> canon" where
  "canonical_depends m = CObject ([(''core'', CText (mf_core m))] @ put_strings ''views'' (mf_views m))"

definition canonical_default :: "setting \<Rightarrow> setting_value \<Rightarrow> canon" where
  "canonical_default s v =
     (case (if sg_type s = ''int'' then integer_value v else None) of Some i \<Rightarrow> CInt i | None \<Rightarrow> CValue v)"

definition canonical_setting :: "setting \<Rightarrow> canon" where
  "canonical_setting s = CObject
     ((case sg_default s of None \<Rightarrow> [] | Some v \<Rightarrow> [(''default'', canonical_default s v)])
    @ put_string ''description'' (sg_description s) @ put_strings ''enum'' (sg_enum s) @ [(''key'', CText (sg_key s))]
    @ put_int ''max'' (sg_max s) @ put_int ''min'' (sg_min s) @ (if sg_required s then [(''required'', CFlag True)] else [])
    @ (if sg_secret s then [(''secret'', CFlag True)] else []) @ [(''type'', CText (sg_type s))])"

definition canonical_form :: "manifest \<Rightarrow> canon" where
  "canonical_form m0 =
     (let m = apply_defaults m0
      in CObject
        ([(''api'', CObject [(''health'', CText (mf_health m)), (''openapi'', CText (mf_openapi m)), (''prefix_path'', CText (mf_prefix m))]),
          (''cassette'', canonical_identity (mf_cassette m))]
       @ (if mf_config m = [] then [] else [(''config'', CList (map canonical_setting (sort_key sg_key (mf_config m))))])
       @ [(''depends'', canonical_depends m), (''kind'', CText (mf_kind m))]
       @ (if mf_tables m = [] then [] else [(''tables'', CList (map (\<lambda>n. CObject [(''name'', CText n)]) (sort (mf_tables m))))])
       @ put_string ''x-source-digest'' (mf_source_digest m)))"

definition marshal_canonical :: "(canon \<Rightarrow> string option) \<Rightarrow> manifest \<Rightarrow> string + string" where
  "marshal_canonical encode m =
     (case encode (canonical_form m) of None \<Rightarrow> Inl ''marshal canonical cassette manifest'' | Some s \<Rightarrow> Inr s)"

definition manifest_digest :: "(string \<Rightarrow> string) \<Rightarrow> (canon \<Rightarrow> string option) \<Rightarrow> manifest \<Rightarrow> string + string" where
  "manifest_digest sha encode m = and_then (marshal_canonical encode m) (\<lambda>s. Inr (''sha256:'' @ sha s))"

definition redact :: "manifest \<Rightarrow> manifest" where
  "redact m = m\<lparr>mf_config := map (\<lambda>s. if sg_secret s then s\<lparr>sg_default := None\<rparr> else s) (mf_config m)\<rparr>"

subsection \<open>Parsing\<close>

datatype metadata_error =
    NotJson
  | DuplicateKey string
  | BadHeader
  | MissingKind
  | UnsupportedKind string
  | NotObject string
  | UnknownField string
  | StrictDecode

text \<open>An object is a list with the duplicates it has. The first key found twice, in the order of the text.\<close>

fun duplicate_key :: "jval \<Rightarrow> string option"
and duplicate_field :: "string list \<Rightarrow> (string \<times> jval) list \<Rightarrow> string option"
and duplicate_item :: "jval list \<Rightarrow> string option" where
  "duplicate_key (JObj m) = duplicate_field [] m"
| "duplicate_key (JArr xs) = duplicate_item xs"
| "duplicate_key v = None"
| "duplicate_field seen [] = None"
| "duplicate_field seen ((k, v) # m) =
     (if k \<in> set seen then Some k
      else case duplicate_key v of Some d \<Rightarrow> Some d | None \<Rightarrow> duplicate_field (k # seen) m)"
| "duplicate_item [] = None"
| "duplicate_item (x # xs) = (case duplicate_key x of Some d \<Rightarrow> Some d | None \<Rightarrow> duplicate_item xs)"

definition metadata_kind :: "jval \<Rightarrow> metadata_error + string" where
  "metadata_kind v =
     (case v of
        JNull \<Rightarrow> Inr []
      | JObj m \<Rightarrow> (case map_of (rev m) ''kind'' of
          None \<Rightarrow> Inr [] | Some JNull \<Rightarrow> Inr [] | Some (JStr s) \<Rightarrow> Inr s | Some _ \<Rightarrow> Inl BadHeader)
      | _ \<Rightarrow> Inl BadHeader)"

definition check_object_keys :: "string \<Rightarrow> string list \<Rightarrow> jobj \<Rightarrow> metadata_error option" where
  "check_object_keys path allowed m =
     (case find (\<lambda>k. k \<notin> set allowed) (sort (map fst m)) of
        None \<Rightarrow> None | Some k \<Rightarrow> Some (UnknownField (if path = [] then k else path @ ''.'' @ k)))"

definition check_nested_object :: "string \<Rightarrow> string list \<Rightarrow> jval option \<Rightarrow> metadata_error option" where
  "check_nested_object path allowed v =
     (case v of None \<Rightarrow> None | Some JNull \<Rightarrow> None
      | Some (JObj m) \<Rightarrow> check_object_keys path allowed m | Some _ \<Rightarrow> Some (NotObject path))"

fun check_items :: "string \<Rightarrow> string list \<Rightarrow> nat \<Rightarrow> jval list \<Rightarrow> metadata_error option" where
  "check_items path allowed i [] = None"
| "check_items path allowed i (x # xs) =
     (case check_nested_object (indexed path i []) allowed (Some x) of
        Some e \<Rightarrow> Some e | None \<Rightarrow> check_items path allowed (Suc i) xs)"

definition check_array_objects :: "string \<Rightarrow> string list \<Rightarrow> jval option \<Rightarrow> metadata_error option" where
  "check_array_objects path allowed v =
     (case v of None \<Rightarrow> None | Some JNull \<Rightarrow> None
      | Some (JArr xs) \<Rightarrow> check_items path allowed 0 xs | Some _ \<Rightarrow> Some (NotObject path))"

definition first_error :: "'e option list \<Rightarrow> 'e option" where
  "first_error es = (case filter (\<lambda>e. e \<noteq> None) es of [] \<Rightarrow> None | e # _ \<Rightarrow> e)"

definition validate_metadata_keys :: "jval \<Rightarrow> metadata_error option" where
  "validate_metadata_keys v =
     (let keys = (\<lambda>m. first_error
        [check_object_keys [] [''kind'', ''cassette'', ''depends'', ''api'', ''tables'', ''config'', ''x-source-digest''] m,
         check_nested_object ''cassette'' [''name'', ''version'', ''display_name'', ''description'', ''license'', ''homepage'',
           ''image'', ''port'', ''audience''] (map_of m ''cassette''),
         check_nested_object ''depends'' [''core'', ''views''] (map_of m ''depends''),
         check_nested_object ''api'' [''health'', ''openapi'', ''prefix_path''] (map_of m ''api''),
         check_array_objects ''tables'' [''name''] (map_of m ''tables''),
         check_array_objects ''config'' [''key'', ''type'', ''required'', ''default'', ''secret'', ''description'', ''enum'',
           ''min'', ''max''] (map_of m ''config'')])
      in case v of JObj m \<Rightarrow> keys m | JNull \<Rightarrow> keys [] | _ \<Rightarrow> Some (NotObject []))"

text \<open>One text, read as a value and by the strict decoder into the struct. A key that differs from a field only in
  case, which the decoder would take, is refused as unknown.\<close>

record metadata_codec =
  mc_value :: "string \<Rightarrow> jval option"
  mc_strict :: "string \<Rightarrow> manifest option"

definition parse_v1alpha1 :: "metadata_codec \<Rightarrow> string \<Rightarrow> metadata_error + manifest" where
  "parse_v1alpha1 mc data =
     (case mc_value mc data of
        None \<Rightarrow> Inl NotJson
      | Some v \<Rightarrow>
          (case duplicate_key v of
             Some k \<Rightarrow> Inl (DuplicateKey k)
           | None \<Rightarrow> and_then (metadata_kind v) (\<lambda>kind.
               if kind \<noteq> manifest_kind then Inl (UnsupportedKind kind)
               else case validate_metadata_keys v of
                      Some e \<Rightarrow> Inl e
                    | None \<Rightarrow> (case mc_strict mc data of
                        None \<Rightarrow> Inl StrictDecode | Some m \<Rightarrow> Inr (apply_defaults m)))))"

definition parse_manifest :: "metadata_codec \<Rightarrow> string \<Rightarrow> metadata_error + manifest" where
  "parse_manifest mc data =
     (case mc_value mc data of
        None \<Rightarrow> Inl NotJson
      | Some v \<Rightarrow> and_then (metadata_kind v) (\<lambda>kind.
          if kind = manifest_kind then parse_v1alpha1 mc data
          else if kind = [] then Inl MissingKind else Inl (UnsupportedKind kind)))"

subsection \<open>Configured sources\<close>

definition validate_cassette_url :: "cas_env \<Rightarrow> string \<Rightarrow> string" where
  "validate_cassette_url env source =
     (case ce_url env source of
        None \<Rightarrow> ''must be a valid URL''
      | Some u \<Rightarrow>
          if gu_scheme u \<noteq> ''http'' \<and> gu_scheme u \<noteq> ''https'' then ''must use the http or https scheme''
          else if gu_hostname u = [] then ''must include a host''
          else if gu_user u then ''must not include URL userinfo''
          else if gu_fragment u \<noteq> [] then ''must not carry a fragment''
          else [])"

definition validate_cassette_sources :: "cas_env \<Rightarrow> string list \<Rightarrow> validation_error option" where
  "validate_cassette_sources env sources =
     (let field = (\<lambda>i. indexed ''cassettes'' i []);
          ps = concat (map (\<lambda>i. complain (validate_cassette_url env (sources ! i) \<noteq> []) (field i) (validate_cassette_url env (sources ! i))
            @ repeated field ''duplicates '' sources i) [0..<length sources])
      in if ps = [] then None else Some \<lparr>ve_subject = ''tapes config'', ve_problems = ps\<rparr>)"

end
