(* ===== verification/CassetteRunner.thy ===== *)
theory CassetteRunner
  imports CassetteManifest
begin

text \<open>
  The cassettes an API server publishes: \<open>api/cassetterunner\<close> (\<open>registry.go\<close>, \<open>instance.go\<close>, \<open>cache.go\<close>, \<open>fetch.go\<close>,
  \<open>runner.go\<close>), the tree operations of \<open>pkg/tapesoapi/document.go\<close> and the handlers of \<open>api/cassettes.go\<close> and
  \<open>api/cassette_discovery.go\<close>.

  The runner is a registry, a cache of documents and the configured sources; a refresh pass folds over the sources
  with the answers of the network as an argument. Passes and changes of the sources hold one lock, so they are steps
  of a run. An error is a value; what the code writes of it into messages and logs is not kept. Whether a document
  compiles (\<open>publishable\<close>), its MCP tools, JSON encoding, SHA-256 and the redacted form of a URL are parameters.
\<close>

subsection \<open>Documents\<close>

type_synonym oas_document = jobj

definition segment_prefix :: "string \<Rightarrow> string \<Rightarrow> bool" where
  "segment_prefix pre path \<longleftrightarrow> path = pre \<or> has_prefix path (trim_suffix pre ''/'' @ ''/'')"

definition declared_paths :: "oas_document \<Rightarrow> jobj option" where
  "declared_paths tree = (case map_of tree ''paths'' of Some (JObj m) \<Rightarrow> Some m | _ \<Rightarrow> None)"

definition document_paths :: "oas_document \<Rightarrow> string list option" where
  "document_paths tree = map_option (\<lambda>m. sort (map fst m)) (declared_paths tree)"

definition without_servers :: "jobj \<Rightarrow> jobj" where
  "without_servers m = filter (\<lambda>(k, _). k \<noteq> ''servers'') m"

definition strip_nested_servers :: "jval \<Rightarrow> jval" where
  "strip_nested_servers v =
     (case v of
        JObj item \<Rightarrow> JObj (map (\<lambda>(k, e). (k, case e of JObj op \<Rightarrow> JObj (without_servers op) | _ \<Rightarrow> e)) (without_servers item))
      | _ \<Rightarrow> v)"

datatype run_error =
    BadSource
  | FetchFailed
  | AnsweredStatus nat
  | ReadFailed
  | TooLarge
  | BadDocument metadata_error
  | NotPublished
  | MissingExtension
  | BadExtension
  | BadManifest metadata_error
  | Refused validation_error
  | NameChanged string string
  | OwnedEarlier string string
  | NoDigest string
  | NoPaths
  | OutsidePrefix string string
  | Unpublishable string
  | BadTools string

text \<open>The keys of a document keep the order of the text. Paths are moved in their stable order, so the first one outside
  is the one that is named.\<close>

definition moved :: "string \<Rightarrow> string \<Rightarrow> string \<times> jval \<Rightarrow> string \<times> jval" where
  "moved source target = (\<lambda>(p, item). (target @ trim_prefix p source, strip_nested_servers item))"

definition rewrite_entry :: "jobj \<Rightarrow> string \<times> jval \<Rightarrow> string \<times> jval" where
  "rewrite_entry paths = (\<lambda>(k, v).
     (k, if k = ''paths'' then JObj paths
         else if k = ''webhooks''
         then (case v of JObj hooks \<Rightarrow> JObj (map (\<lambda>(n, h). (n, strip_nested_servers h)) hooks) | _ \<Rightarrow> v)
         else v))"

definition rewrite_prefix :: "string \<Rightarrow> string \<Rightarrow> oas_document \<Rightarrow> run_error + oas_document" where
  "rewrite_prefix source target tree =
     (case declared_paths tree of
        None \<Rightarrow> Inl NoPaths
      | Some m \<Rightarrow>
          (case find (\<lambda>p. \<not> segment_prefix source p) (sort (map fst m)) of
             Some p \<Rightarrow> Inl (OutsidePrefix p source)
           | None \<Rightarrow> Inr (map (rewrite_entry (map (moved source target) m)) (without_servers tree))))"

subsection \<open>Instances and the registry\<close>

record mcp_tool =
  mt_name :: string
  mt_title :: string
  mt_description :: string
  mt_method :: string
  mt_path :: string
  mt_input_schema :: jobj

record cas_instance =
  in_name :: string
  in_manifest :: manifest
  in_digest :: string
  in_url :: string
  in_anchors :: anchors
  in_source :: string
  in_tools :: "mcp_tool list"

definition public_namespace :: string where "public_namespace = ''/v1/cassettes''"

definition public_prefix :: "string \<Rightarrow> string" where
  "public_prefix name = public_namespace @ ''/'' @ name"

definition instance_prefix :: "cas_instance \<Rightarrow> string" where
  "instance_prefix i = public_prefix (in_name i)"

definition local_prefix :: "cas_instance \<Rightarrow> string" where
  "local_prefix i =
     (if an_prefix (in_anchors i) = [] then ''/'' @ in_name i else ''/'' @ an_prefix (in_anchors i) @ ''/'' @ in_name i)"

definition to_local :: "cas_instance \<Rightarrow> string \<Rightarrow> string" where
  "to_local i path = local_prefix i @ trim_prefix path (instance_prefix i)"

definition to_public :: "cas_instance \<Rightarrow> string \<Rightarrow> string" where
  "to_public i path = instance_prefix i @ trim_prefix path (local_prefix i)"

record rejection =
  rj_subject :: string
  rj_reason :: run_error

record cas_registry =
  rg_instances :: "string \<Rightarrow> cas_instance option"
  rg_order :: "string list"
  rg_rejections :: "rejection list"

definition new_registry :: cas_registry where
  "new_registry = \<lparr>rg_instances = Map.empty, rg_order = [], rg_rejections = []\<rparr>"

definition validate_url :: "cas_env \<Rightarrow> string \<Rightarrow> string" where
  "validate_url env endpoint =
     (if endpoint = [] then ''is required''
      else case ce_url env endpoint of
             None \<Rightarrow> ''must be a valid URL''
           | Some u \<Rightarrow>
               if gu_scheme u \<noteq> ''http'' \<and> gu_scheme u \<noteq> ''https'' then ''must use the http or https scheme''
               else if gu_hostname u = [] then ''must include a host''
               else if gu_query u \<noteq> [] \<or> gu_fragment u \<noteq> [] then ''must not carry a query or fragment''
               else [])"

definition registry_check :: "cas_env \<Rightarrow> cas_instance \<Rightarrow> validation_error option" where
  "registry_check env i =
     (let ps = (case parse_name env (in_name i) of Inl e \<Rightarrow> [problem_of ''name'' e] | Inr _ \<Rightarrow> [])
             @ complain (validate_url env (in_url i) \<noteq> []) ''url'' (validate_url env (in_url i))
      in if ps = [] then None
         else Some \<lparr>ve_subject = ''cassette '' @ (if in_name i = [] then in_source i else in_name i), ve_problems = ps\<rparr>)"

definition registry_put :: "cas_env \<Rightarrow> cas_instance \<Rightarrow> cas_registry \<Rightarrow> validation_error + cas_registry" where
  "registry_put env i g =
     (case registry_check env i of
        Some e \<Rightarrow> Inl e
      | None \<Rightarrow> Inr (g\<lparr>rg_order := (if rg_instances g (in_name i) = None then rg_order g @ [in_name i] else rg_order g),
                      rg_instances := (rg_instances g)(in_name i \<mapsto> i)\<rparr>))"

definition registry_remove :: "string \<Rightarrow> string \<Rightarrow> cas_registry \<Rightarrow> cas_registry" where
  "registry_remove name source g =
     (case rg_instances g name of
        None \<Rightarrow> g
      | Some i \<Rightarrow>
          if in_source i \<noteq> source then g
          else g\<lparr>rg_instances := (rg_instances g)(name := None), rg_order := remove1 name (rg_order g)\<rparr>)"

fun put_rejection :: "string \<Rightarrow> run_error \<Rightarrow> rejection list \<Rightarrow> rejection list" where
  "put_rejection subject e [] = [\<lparr>rj_subject = subject, rj_reason = e\<rparr>]"
| "put_rejection subject e (r # rs) =
     (if rj_subject r = subject then r\<lparr>rj_reason := e\<rparr> # rs else r # put_rejection subject e rs)"

fun drop_rejection :: "string \<Rightarrow> rejection list \<Rightarrow> rejection list" where
  "drop_rejection subject [] = []"
| "drop_rejection subject (r # rs) = (if rj_subject r = subject then rs else r # drop_rejection subject rs)"

definition set_rejection :: "string \<Rightarrow> run_error \<Rightarrow> cas_registry \<Rightarrow> cas_registry" where
  "set_rejection subject e g = g\<lparr>rg_rejections := put_rejection subject e (rg_rejections g)\<rparr>"

definition clear_rejection :: "string \<Rightarrow> cas_registry \<Rightarrow> cas_registry" where
  "clear_rejection subject g = g\<lparr>rg_rejections := drop_rejection subject (rg_rejections g)\<rparr>"

definition instances_in_order :: "cas_registry \<Rightarrow> cas_instance list" where
  "instances_in_order g = sort_key in_name (List.map_filter (rg_instances g) (rg_order g))"

definition registry_lookup :: "string \<Rightarrow> cas_registry \<Rightarrow> (cas_instance \<times> string) option" where
  "registry_lookup path g =
     (case find (\<lambda>i. segment_prefix (instance_prefix i) path \<and> rg_instances g (in_name i) \<noteq> None) (instances_in_order g) of
        None \<Rightarrow> None
      | Some j \<Rightarrow> (case rg_instances g (in_name j) of None \<Rightarrow> None | Some i \<Rightarrow> Some (i, to_local i path)))"

subsection \<open>The cache of documents\<close>

datatype doc_status = Fresh | Stale | Missing

record spec_entry =
  sc_document :: "string option"
  sc_parsed :: oas_document
  sc_digest :: string
  sc_source :: string
  sc_status :: doc_status
  sc_problem :: "run_error option"

type_synonym spec_cache = "string \<Rightarrow> spec_entry option"

record publication =
  pn_document :: string
  pn_parsed :: oas_document
  pn_digest :: string
  pn_tools :: "mcp_tool list"

definition cache_publish :: "string \<Rightarrow> publication \<Rightarrow> string \<Rightarrow> spec_cache \<Rightarrow> spec_cache" where
  "cache_publish name p source c = c(name \<mapsto>
     \<lparr>sc_document = Some (pn_document p), sc_parsed = pn_parsed p, sc_digest = pn_digest p, sc_source = source,
      sc_status = Fresh, sc_problem = None\<rparr>)"

definition cache_evict :: "string \<Rightarrow> spec_cache \<Rightarrow> spec_cache" where
  "cache_evict name c = c(name := None)"

definition cache_evict_source :: "string \<Rightarrow> string \<Rightarrow> spec_cache \<Rightarrow> spec_cache" where
  "cache_evict_source name source c =
     (case c name of Some e \<Rightarrow> if sc_source e = source then c(name := None) else c | None \<Rightarrow> c)"

definition cache_mark_fresh :: "string \<Rightarrow> string \<Rightarrow> spec_cache \<Rightarrow> spec_cache" where
  "cache_mark_fresh name source c =
     (case c name of
        Some e \<Rightarrow> if sc_source e \<noteq> source then c else c(name \<mapsto> e\<lparr>sc_status := Fresh, sc_problem := None\<rparr>)
      | None \<Rightarrow> c)"

definition cache_mark_stale :: "string \<Rightarrow> string \<Rightarrow> run_error \<Rightarrow> spec_cache \<Rightarrow> spec_cache" where
  "cache_mark_stale name source problem c =
     (case c name of
        Some e \<Rightarrow> if sc_document e = None \<or> sc_source e \<noteq> source then c
                  else c(name \<mapsto> e\<lparr>sc_status := Stale, sc_problem := Some problem\<rparr>)
      | None \<Rightarrow> c)"

definition cache_has_source :: "string \<Rightarrow> string \<Rightarrow> spec_cache \<Rightarrow> bool" where
  "cache_has_source name source c =
     (case c name of Some e \<Rightarrow> sc_document e \<noteq> None \<and> sc_source e = source | None \<Rightarrow> False)"

definition cache_status :: "string \<Rightarrow> spec_cache \<Rightarrow> doc_status" where
  "cache_status name c =
     (case c name of Some e \<Rightarrow> if sc_document e = None then Missing else sc_status e | None \<Rightarrow> Missing)"

definition cache_spec :: "string \<Rightarrow> spec_cache \<Rightarrow> (string \<times> string) option" where
  "cache_spec name c =
     (case c name of Some e \<Rightarrow> map_option (\<lambda>d. (d, sc_digest e)) (sc_document e) | None \<Rightarrow> None)"

definition cache_problem :: "string \<Rightarrow> spec_cache \<Rightarrow> run_error option" where
  "cache_problem name c = (case c name of Some e \<Rightarrow> sc_problem e | None \<Rightarrow> None)"

subsection \<open>Fetching and republishing\<close>

record run_env = cas_env +
  re_contracts :: "string list"
  re_codec :: metadata_codec
  re_value_text :: "jval \<Rightarrow> string option"
  re_canon_text :: "canon \<Rightarrow> string option"
  re_document_text :: "oas_document \<Rightarrow> string option"
  re_sha :: "string \<Rightarrow> string" \<comment> \<open>in hexadecimal\<close>
  re_publishable :: "oas_document \<Rightarrow> string \<Rightarrow> string option" \<comment> \<open>why not\<close>
  re_tools :: "oas_document \<Rightarrow> string \<Rightarrow> string + mcp_tool list"
  re_redacted :: "string \<Rightarrow> string" \<comment> \<open>a URL with its userinfo redacted\<close>

abbreviation base_env :: "run_env \<Rightarrow> cas_env" where
  "base_env env \<equiv> cas_env.truncate env"

definition max_spec_bytes :: int where "max_spec_bytes = 8388608"

text \<open>An answer of the network to a conditional GET; the body is \<open>None\<close> where reading it fails.\<close>

datatype http_answer = NoAnswer | Answer nat string "string option"

record fetched =
  ft_document :: "oas_document option"
  ft_etag :: string
  ft_not_modified :: bool

definition parse_document :: "metadata_codec \<Rightarrow> string \<Rightarrow> metadata_error + oas_document" where
  "parse_document mc data =
     (case mc_value mc data of
        None \<Rightarrow> Inl NotJson
      | Some v \<Rightarrow> (case duplicate_key v of
          Some k \<Rightarrow> Inl (DuplicateKey k)
        | None \<Rightarrow> (case v of JObj m \<Rightarrow> Inr m | _ \<Rightarrow> Inl (NotObject []))))"

definition fetch_source :: "run_env \<Rightarrow> http_answer \<Rightarrow> string \<Rightarrow> run_error + fetched" where
  "fetch_source env answer etag =
     (case answer of
        NoAnswer \<Rightarrow> Inl FetchFailed
      | Answer status validator body \<Rightarrow>
          if status = 304 then Inr \<lparr>ft_document = None, ft_etag = etag, ft_not_modified = True\<rparr>
          else if status \<noteq> 200 then Inl (AnsweredStatus status)
          else case body of
                 None \<Rightarrow> Inl ReadFailed
               | Some b \<Rightarrow>
                   if max_spec_bytes < int (length b) then Inl TooLarge
                   else and_then (wrap_err BadDocument (parse_document (re_codec env) b)) (\<lambda>d.
                     Inr \<lparr>ft_document = Some d, ft_etag = validator, ft_not_modified = False\<rparr>))"

definition source_origin :: "cas_env \<Rightarrow> string \<Rightarrow> run_error + string" where
  "source_origin env source =
     (case ce_url env source of
        None \<Rightarrow> Inl BadSource
      | Some u \<Rightarrow>
          if (gu_scheme u \<noteq> ''http'' \<and> gu_scheme u \<noteq> ''https'') \<or> gu_hostname u = [] \<or> gu_fragment u \<noteq> [] \<or> gu_user u
          then Inl BadSource else Inr (gu_scheme u @ ''://'' @ gu_host u))"

definition safe_source :: "run_env \<Rightarrow> string \<Rightarrow> string" where
  "safe_source env source =
     (case ce_url env source of
        None \<Rightarrow> ''<invalid URL>'' | Some u \<Rightarrow> if \<not> gu_user u then source else re_redacted env source)"

definition manifest_extension :: string where "manifest_extension = ''x-tapes-cassette''"

definition manifest_from_document :: "run_env \<Rightarrow> oas_document \<Rightarrow> run_error + manifest option" where
  "manifest_from_document env d =
     (case map_of d manifest_extension of
        None \<Rightarrow> Inr None
      | Some v \<Rightarrow> (case re_value_text env v of
          None \<Rightarrow> Inl BadExtension
        | Some s \<Rightarrow> and_then (wrap_err BadManifest (parse_manifest (re_codec env) s)) (\<lambda>m. Inr (Some m))))"

definition admit :: "run_env \<Rightarrow> oas_document \<Rightarrow> run_error + manifest" where
  "admit env d =
     and_then (manifest_from_document env d) (\<lambda>r. case r of
       None \<Rightarrow> Inl MissingExtension
     | Some m \<Rightarrow> (case validate_manifest (base_env env) (re_contracts env) m of Some e \<Rightarrow> Inl (Refused e) | None \<Rightarrow> Inr m))"

definition republish :: "run_env \<Rightarrow> oas_document \<Rightarrow> cas_instance \<Rightarrow> run_error + publication" where
  "republish env d i =
     and_then (rewrite_prefix (local_prefix i) (instance_prefix i) d) (\<lambda>d'.
       case re_publishable env d' (in_name i) of
         Some why \<Rightarrow> Inl (Unpublishable why)
       | None \<Rightarrow> (case re_document_text env d' of
           None \<Rightarrow> Inl (Unpublishable [])
         | Some text' \<Rightarrow> and_then (wrap_err BadTools (re_tools env d' (in_name i))) (\<lambda>tools.
             Inr \<lparr>pn_document = text', pn_parsed = d', pn_digest = ''sha256:'' @ re_sha env text', pn_tools = tools\<rparr>)))"

subsection \<open>The runner\<close>

record source_state =
  src_url :: string
  src_name :: string
  src_etag :: string
  src_resolved :: bool
  src_problem :: "run_error option"

record cas_runner =
  rn_registry :: cas_registry
  rn_specs :: spec_cache
  rn_sources :: "source_state list"

definition new_runner :: cas_runner where
  "new_runner = \<lparr>rn_registry = new_registry, rn_specs = Map.empty, rn_sources = []\<rparr>"

definition fresh_source :: "string \<Rightarrow> source_state" where
  "fresh_source url = \<lparr>src_url = url, src_name = [], src_etag = [], src_resolved = False, src_problem = None\<rparr>"

text \<open>A configured URL keeps the first state with it that no earlier one kept; what nobody kept is left over.\<close>

fun keep_state :: "string \<Rightarrow> source_state list \<Rightarrow> source_state \<times> source_state list" where
  "keep_state url [] = (fresh_source url, [])"
| "keep_state url (s # ss) =
     (if src_url s = url then (s, ss) else (let (x, left) = keep_state url ss in (x, s # left)))"

fun next_states :: "string list \<Rightarrow> source_state list \<Rightarrow> source_state list \<times> source_state list" where
  "next_states [] left = ([], left)"
| "next_states (url # urls) left =
     (let (x, left') = keep_state url left; (xs, left'') = next_states urls left' in (x # xs, left''))"

definition withdraw_source :: "run_env \<Rightarrow> source_state \<Rightarrow> cas_runner \<Rightarrow> cas_runner" where
  "withdraw_source env s r =
     (let r1 = r\<lparr>rn_registry := clear_rejection (safe_source env (src_url s)) (rn_registry r)\<rparr>
      in if src_name s = [] then r1
         else r1\<lparr>rn_registry := registry_remove (src_name s) (src_url s) (rn_registry r1),
                 rn_specs := cache_evict_source (src_name s) (src_url s) (rn_specs r1)\<rparr>)"

definition set_sources :: "run_env \<Rightarrow> string list \<Rightarrow> cas_runner \<Rightarrow> cas_runner" where
  "set_sources env urls r =
     (let (kept, left) = next_states urls (rn_sources r)
      in fold (withdraw_source env) (filter (\<lambda>s. src_url s \<notin> set urls) left) (r\<lparr>rn_sources := kept\<rparr>))"

definition source_index :: "string \<Rightarrow> cas_runner \<Rightarrow> nat option" where
  "source_index url r = find (\<lambda>i. src_url (rn_sources r ! i) = url) [0..<length (rn_sources r)]"

text \<open>A source outside the configuration counts as earlier.\<close>

definition check_priority :: "string \<Rightarrow> string \<Rightarrow> nat \<Rightarrow> cas_runner \<Rightarrow> run_error option" where
  "check_priority name source i r =
     (case rg_instances (rn_registry r) name of
        None \<Rightarrow> None
      | Some e \<Rightarrow>
          if in_source e = source then None
          else (case source_index (in_source e) r of
                  Some j \<Rightarrow> if i \<le> j then None else Some (OwnedEarlier name (in_source e))
                | None \<Rightarrow> Some (OwnedEarlier name (in_source e))))"

definition upd_source :: "nat \<Rightarrow> (source_state \<Rightarrow> source_state) \<Rightarrow> cas_runner \<Rightarrow> cas_runner" where
  "upd_source i f r = r\<lparr>rn_sources := upd_at (rn_sources r) i f\<rparr>"

definition fail_source :: "run_env \<Rightarrow> nat \<Rightarrow> run_error \<Rightarrow> cas_runner \<Rightarrow> cas_runner" where
  "fail_source env i e r =
     (let s = rn_sources r ! i;
          specs = (if src_name s = [] then rn_specs r else cache_mark_stale (src_name s) (src_url s) e (rn_specs r))
      in upd_source i (\<lambda>s. s\<lparr>src_problem := Some e\<rparr>)
           (r\<lparr>rn_specs := specs, rn_registry := set_rejection (safe_source env (src_url s)) e (rn_registry r)\<rparr>))"

definition mark_source_fresh :: "run_env \<Rightarrow> nat \<Rightarrow> cas_runner \<Rightarrow> cas_runner" where
  "mark_source_fresh env i r =
     (let s = rn_sources r ! i
      in upd_source i (\<lambda>s. s\<lparr>src_problem := None\<rparr>)
           (r\<lparr>rn_specs := cache_mark_fresh (src_name s) (src_url s) (rn_specs r),
              rn_registry := clear_rejection (safe_source env (src_url s)) (rn_registry r)\<rparr>))"

definition resolve_source :: "nat \<Rightarrow> string \<Rightarrow> string \<Rightarrow> cas_runner \<Rightarrow> cas_runner" where
  "resolve_source i name etag =
     upd_source i (\<lambda>s. s\<lparr>src_name := name, src_etag := etag, src_resolved := True, src_problem := None\<rparr>)"

definition currently_published :: "source_state \<Rightarrow> cas_runner \<Rightarrow> bool" where
  "currently_published s r \<longleftrightarrow>
     src_resolved s
   \<and> (case rg_instances (rn_registry r) (src_name s) of Some i \<Rightarrow> in_source i = src_url s | None \<Rightarrow> False)
   \<and> cache_has_source (src_name s) (src_url s) (rn_specs r)"

definition validator_for :: "source_state \<Rightarrow> cas_runner \<Rightarrow> string" where
  "validator_for s r = (if src_resolved s \<and> \<not> currently_published s r then [] else src_etag s)"

text \<open>From a full document to the instance and the publication, or why not.\<close>

definition candidate :: "run_env \<Rightarrow> string \<Rightarrow> nat \<Rightarrow> oas_document \<Rightarrow> cas_runner \<Rightarrow> run_error + cas_instance \<times> publication" where
  "candidate env origin i d r =
     (let s = rn_sources r ! i
      in and_then (admit env d) (\<lambda>m.
         let name = id_name (mf_cassette m)
         in if src_resolved s \<and> src_name s \<noteq> name then Inl (NameChanged (src_name s) name)
            else case check_priority name (src_url s) i r of
                   Some e \<Rightarrow> Inl e
                 | None \<Rightarrow> and_then (wrap_err NoDigest (manifest_digest (re_sha env) (re_canon_text env) m)) (\<lambda>digest.
                     let inst = \<lparr>in_name = name, in_manifest = m, in_digest = digest, in_url = origin,
                                 in_anchors = manifest_anchors m, in_source = src_url s, in_tools = []\<rparr>
                     in and_then (republish env d inst) (\<lambda>p. Inr (inst\<lparr>in_tools := pn_tools p\<rparr>, p)))))"

text \<open>The document is cached before the instance is registered.\<close>

definition publish_instance :: "run_env \<Rightarrow> nat \<Rightarrow> string \<Rightarrow> cas_instance \<Rightarrow> publication \<Rightarrow> cas_runner \<Rightarrow> cas_runner \<times> run_error option" where
  "publish_instance env i etag inst p r =
     (let r1 = r\<lparr>rn_specs := cache_publish (in_name inst) p (in_source inst) (rn_specs r)\<rparr>
      in case registry_put (base_env env) inst (rn_registry r1) of
           Inl e \<Rightarrow> (fail_source env i (Refused e) (r1\<lparr>rn_specs := cache_evict (in_name inst) (rn_specs r1)\<rparr>), Some (Refused e))
         | Inr g \<Rightarrow>
             let r2 = resolve_source i (in_name inst) etag (r1\<lparr>rn_registry := g\<rparr>)
             in (r2\<lparr>rn_registry := clear_rejection (in_source inst) (rn_registry r2)\<rparr>, None))"

type_synonym network = "string \<Rightarrow> string \<Rightarrow> http_answer" \<comment> \<open>of a URL and the validator sent\<close>

definition refresh_source :: "run_env \<Rightarrow> network \<Rightarrow> nat \<Rightarrow> cas_runner \<Rightarrow> cas_runner \<times> run_error option" where
  "refresh_source env net i r =
     (let s = rn_sources r ! i;
          failed = (\<lambda>e. (fail_source env i e r, Some e));
          etag = validator_for s r
      in case source_origin (base_env env) (src_url s) of
           Inl e \<Rightarrow> failed e
         | Inr origin \<Rightarrow>
             (case fetch_source env (net (src_url s) etag) etag of
                Inl e \<Rightarrow> failed e
              | Inr f \<Rightarrow>
                  if ft_not_modified f \<and> currently_published s r then (mark_source_fresh env i r, None)
                  else (case ft_document f of
                          None \<Rightarrow> failed NotPublished
                        | Some d \<Rightarrow> (case candidate env origin i d r of
                            Inl e \<Rightarrow> failed e
                          | Inr (inst, p) \<Rightarrow> publish_instance env i (ft_etag f) inst p r))))"

fun refresh_from :: "run_env \<Rightarrow> network \<Rightarrow> nat list \<Rightarrow> cas_runner \<Rightarrow> cas_runner \<times> run_error list" where
  "refresh_from env net [] r = (r, [])"
| "refresh_from env net (i # is) r =
     (let (r1, e) = refresh_source env net i r; (r2, es) = refresh_from env net is r1
      in (r2, (case e of None \<Rightarrow> es | Some x \<Rightarrow> x # es)))"

definition refresh :: "run_env \<Rightarrow> network \<Rightarrow> cas_runner \<Rightarrow> cas_runner \<times> run_error list" where
  "refresh env net r = refresh_from env net [0..<length (rn_sources r)] r"

text \<open>A run: the sources are validated as distinct before they are installed.\<close>

inductive runner_step :: "run_env \<Rightarrow> cas_runner \<Rightarrow> cas_runner \<Rightarrow> bool" for env where
  configure: "validate_cassette_sources (base_env env) urls = None \<Longrightarrow> runner_step env r (set_sources env urls r)"
| pass: "runner_step env r (fst (refresh env net r))"

definition runner_reached :: "run_env \<Rightarrow> cas_runner \<Rightarrow> bool" where
  "runner_reached env r \<longleftrightarrow> (runner_step env)\<^sup>*\<^sup>* new_runner r"

subsection \<open>What the server answers\<close>

datatype cassette_reply =
    Problem nat string
  | NotModified string
  | Document string string \<comment> \<open>validator and bytes\<close>
  | Forward string string \<comment> \<open>endpoint and path\<close>

definition handle_cassette_spec :: "cas_env \<Rightarrow> string \<Rightarrow> string \<Rightarrow> cas_runner \<Rightarrow> cassette_reply" where
  "handle_cassette_spec env name if_none_match r =
     (case parse_name env name of
        Inl _ \<Rightarrow> Problem 404 ''unknown_cassette''
      | Inr n \<Rightarrow>
          if rg_instances (rn_registry r) n = None then Problem 404 ''unknown_cassette''
          else case cache_spec n (rn_specs r) of
                 None \<Rightarrow> Problem 503 ''spec_unavailable''
               | Some (d, digest) \<Rightarrow>
                   let etag = [CHR 0x22] @ digest @ [CHR 0x22]
                   in if if_none_match = etag then NotModified etag else Document etag d)"

definition handle_cassette_proxy :: "cas_env \<Rightarrow> string \<Rightarrow> cas_runner \<Rightarrow> cassette_reply" where
  "handle_cassette_proxy env path r =
     (case registry_lookup path (rn_registry r) of
        None \<Rightarrow> Problem 404 ''unknown_cassette''
      | Some (i, forwarded) \<Rightarrow>
          if ce_url env (in_url i) = None then Problem 502 ''bad_target'' else Forward (in_url i) forwarded)"

record discovery_entry =
  de_name :: string
  de_version :: string
  de_display_name :: string
  de_description :: string
  de_audience :: "string list"
  de_route_prefix :: string
  de_core :: string
  de_views :: "string list"
  de_tables :: "string list"
  de_config :: "setting list"
  de_openapi_path :: string
  de_openapi_status :: doc_status
  de_manifest_digest :: string

definition cassette_spec_path :: "string \<Rightarrow> string" where
  "cassette_spec_path name = ''/v1/cassettes/'' @ name @ ''/openapi.json''"

text \<open>A published setting has no enumeration and no bounds.\<close>

definition discovery_setting :: "setting \<Rightarrow> setting" where
  "discovery_setting s = s\<lparr>sg_default := (if sg_secret s then None else sg_default s), sg_enum := [], sg_min := None, sg_max := None\<rparr>"

definition discovery_entry_of :: "cas_instance \<Rightarrow> doc_status \<Rightarrow> discovery_entry" where
  "discovery_entry_of i status =
     (let m = in_manifest i; plan = grant_plan_of m
      in \<lparr>de_name = in_name i, de_version = id_version (mf_cassette m), de_display_name = id_display_name (mf_cassette m),
          de_description = id_description (mf_cassette m), de_audience = id_audience (mf_cassette m),
          de_route_prefix = instance_prefix i, de_core = mf_core m, de_views = mf_views m,
          de_tables = map (\<lambda>t. gp_schema plan @ ''.'' @ t) (gp_tables plan),
          de_config = map discovery_setting (mf_config m), de_openapi_path = cassette_spec_path (in_name i),
          de_openapi_status = status, de_manifest_digest = in_digest i\<rparr>)"

text \<open>The newest contract by its number.\<close>

definition contract_major :: "string \<Rightarrow> int option" where
  "contract_major v =
     (if \<not> has_prefix v ''v'' then None
      else case parse_int64 (drop 1 v) of None \<Rightarrow> None | Some n \<Rightarrow> if n < 1 then None else Some n)"

definition current_contract_version :: "string list \<Rightarrow> string" where
  "current_contract_version vs = snd (foldl (\<lambda>(highest, current) v.
     case contract_major v of None \<Rightarrow> (highest, current) | Some n \<Rightarrow> if n \<le> highest then (highest, current) else (n, v))
     (0, []) vs)"

record discovery =
  dc_contract_version :: string
  dc_cassettes :: "discovery_entry list"
  dc_problems :: "rejection list"

definition build_cassette_discovery :: "string \<Rightarrow> cas_runner \<Rightarrow> discovery" where
  "build_cassette_discovery contract r =
     \<lparr>dc_contract_version = contract,
      dc_cassettes = map (\<lambda>i. discovery_entry_of i (cache_status (in_name i) (rn_specs r))) (instances_in_order (rn_registry r)),
      dc_problems = sort_key rj_subject (rg_rejections (rn_registry r))\<rparr>"

end
