(* ===== verification/ManifestFacts.thy ===== *)
theory ManifestFacts
  imports CassetteManifest "HOL-Library.Multiset"
begin

text \<open>
  What an accepted manifest declares and what its digest identifies.
\<close>

subsection \<open>The canonical form\<close>

lemma map_of_put_string: "map_of (put_string k v @ r) j = (if j = k \<and> v \<noteq> [] then Some (CText v) else map_of r j)"
  by (simp add: put_string_def)

lemma map_of_put_strings:
  "map_of (put_strings k v @ r) j = (if j = k \<and> v \<noteq> [] then Some (CList (map CText (sort v))) else map_of r j)"
  by (simp add: put_strings_def)

lemma map_of_put_int: "map_of (put_int k v @ r) j = (case v of Some i \<Rightarrow> if j = k then Some (CInt i) else map_of r j | None \<Rightarrow> map_of r j)"
  by (simp add: put_int_def split: option.split)

lemmas map_of_put = map_of_put_string map_of_put_strings map_of_put_int
  map_of_put_string [of _ _ "[]", simplified] map_of_put_strings [of _ _ "[]", simplified]

lemma text_list_eq [simp]: "map CText xs = map CText ys \<longleftrightarrow> xs = ys"
  by (simp add: inj_map_eq_map inj_def)

lemma sort_empty [simp]: "sort xs = [] \<longleftrightarrow> xs = []"
  by (metis mset_sort mset_zero_iff)

lemma sort_eq_iff: "sort xs = sort ys \<longleftrightarrow> mset xs = mset ys"
  by (metis mset_sort properties_for_sort sorted_sort)

definition normal_default :: "string \<Rightarrow> setting_value \<Rightarrow> setting_value" where
  "normal_default ty v = (case (if ty = ''int'' then integer_value v else None) of Some i \<Rightarrow> VInt i | None \<Rightarrow> v)"

text \<open>A setting up to the order of its enumeration and the way its integer default is written.\<close>

definition normal_setting :: "setting \<Rightarrow> setting" where
  "normal_setting s = s\<lparr>sg_enum := sort (sg_enum s), sg_default := map_option (normal_default (sg_type s)) (sg_default s)\<rparr>"

lemma integer_value_bound: "integer_value v = Some i \<Longrightarrow> i \<le> 2 ^ 63 - 1"
proof (cases v)
  case (VNumber s)
  assume "integer_value v = Some i"
  then have "parse_int64 s = Some i" by (simp add: integer_value_def VNumber)
  then have "int64_ok i" by (auto simp: parse_int64_def Let_def split: list.splits if_splits option.splits)
  then show ?thesis by (simp add: int64_ok_def)
next
  case (VFloat q)
  assume "integer_value v = Some i"
  then have "q < 2 ^ 63" "i = \<lfloor>q\<rfloor>" by (auto simp: integer_value_def VFloat split: if_splits)
  then have "i < 2 ^ 63" by (simp add: floor_less_iff)
  then show ?thesis by simp
qed (auto simp: integer_value_def split: if_splits)

lemma canonical_default_eq:
  "sg_type s = sg_type s' \<Longrightarrow> canonical_default s v = canonical_default s' v' \<longleftrightarrow> normal_default (sg_type s) v = normal_default (sg_type s') v'"
proof -
  assume ty: "sg_type s = sg_type s'"
  have "VInt i \<noteq> v" if "integer_value v = None" "integer_value w = Some i" for v w i
    using integer_value_bound [OF that(2)] that(1) by (auto simp: integer_value_def split: if_splits)
  then show ?thesis using ty by (auto simp: canonical_default_def normal_default_def split: option.splits)
qed

text \<open>Objects with the same fields.\<close>

lemma object_at: "CObject m = CObject m' \<Longrightarrow> map_of m k = map_of m' k"
  by simp

lemma map_of_default: "map_of ((case d of None \<Rightarrow> [] | Some v \<Rightarrow> [(''default'', f v)]) @ r) j =
    (case d of Some v \<Rightarrow> if j = ''default'' then Some (f v) else map_of r j | None \<Rightarrow> map_of r j)"
  by (simp split: option.split)

lemma map_of_flag: "map_of ((if b then [(k, CFlag True)] else []) @ r) j = (if b \<and> j = k then Some (CFlag True) else map_of r j)"
  by simp

lemma setting_at:
  assumes "canonical_setting s = canonical_setting s'"
  shows "sg_key s = sg_key s'" "sg_type s = sg_type s'" "sg_description s = sg_description s'" "sort (sg_enum s) = sort (sg_enum s')"
    "sg_max s = sg_max s'" "sg_min s = sg_min s'" "sg_required s = sg_required s'" "sg_secret s = sg_secret s'"
    "map_option (canonical_default s) (sg_default s) = map_option (canonical_default s') (sg_default s')"
proof -
  note at = object_at [OF assms [unfolded canonical_setting_def]]
  note field = map_of_put map_of_default map_of_flag map_of.simps append_Cons append_Nil map_of_put_int [of _ _ "[]", simplified]
  show "sg_key s = sg_key s'" using at [of "''key''"] by (simp add: field del: map_of_append split: option.splits if_splits)
  show "sg_type s = sg_type s'" using at [of "''type''"] by (simp add: field del: map_of_append split: option.splits if_splits)
  show "sg_description s = sg_description s'"
    using at [of "''description''"] by (simp add: field del: map_of_append split: option.splits if_splits)
  show "sort (sg_enum s) = sort (sg_enum s')"
    using at [of "''enum''"] by (auto simp add: field simp del: map_of_append split: option.splits if_splits)
  show "sg_max s = sg_max s'" using at [of "''max''"] by (simp add: field del: map_of_append split: option.splits if_splits)
  show "sg_min s = sg_min s'" using at [of "''min''"] by (simp add: field del: map_of_append split: option.splits if_splits)
  show "sg_required s = sg_required s'" using at [of "''required''"] by (simp add: field del: map_of_append split: option.splits if_splits)
  show "sg_secret s = sg_secret s'" using at [of "''secret''"] by (simp add: field del: map_of_append split: option.splits if_splits)
  show "map_option (canonical_default s) (sg_default s) = map_option (canonical_default s') (sg_default s')"
    using at [of "''default''"] by (simp add: field del: map_of_append split: option.splits if_splits)
qed

lemma canonical_setting_eq: "canonical_setting s = canonical_setting s' \<longleftrightarrow> normal_setting s = normal_setting s'"
proof
  assume eq: "canonical_setting s = canonical_setting s'"
  note at = setting_at [OF eq]
  have "map_option (normal_default (sg_type s)) (sg_default s) = map_option (normal_default (sg_type s')) (sg_default s')"
    using at(9) canonical_default_eq [OF at(2)] by (cases "sg_default s"; cases "sg_default s'") simp_all
  then show "normal_setting s = normal_setting s'" using at by (simp add: normal_setting_def)
next
  assume "normal_setting s = normal_setting s'"
  then have f: "sg_key s = sg_key s'" "sg_type s = sg_type s'" "sg_description s = sg_description s'" "sort (sg_enum s) = sort (sg_enum s')"
    "sg_max s = sg_max s'" "sg_min s = sg_min s'" "sg_required s = sg_required s'" "sg_secret s = sg_secret s'"
    "map_option (normal_default (sg_type s)) (sg_default s) = map_option (normal_default (sg_type s')) (sg_default s')"
    by (cases s; cases s'; simp add: normal_setting_def)+
  have "put_strings ''enum'' (sg_enum s) = put_strings ''enum'' (sg_enum s')"
    using f(4) by (metis put_strings_def sort_empty)
  moreover have "(case sg_default s of None \<Rightarrow> [] | Some v \<Rightarrow> [(''default'', canonical_default s v)]) =
      (case sg_default s' of None \<Rightarrow> [] | Some v \<Rightarrow> [(''default'', canonical_default s' v)])"
    using f(9) canonical_default_eq [OF f(2)] by (cases "sg_default s"; cases "sg_default s'") simp_all
  ultimately show "canonical_setting s = canonical_setting s'" by (simp add: canonical_setting_def f)
qed

lemma put_strings_eq: "put_strings k xs = put_strings k ys \<longleftrightarrow> sort xs = sort ys"
  by (auto simp: put_strings_def) (metis sort_empty)+

lemma put_string_eq: "put_string k v = put_string k w \<longleftrightarrow> v = w"
  by (simp add: put_string_def)

lemma identity_at:
  assumes "canonical_identity i = canonical_identity j"
  shows "i\<lparr>id_audience := sort (id_audience i)\<rparr> = j\<lparr>id_audience := sort (id_audience j)\<rparr>"
proof -
  note at = object_at [OF assms [unfolded canonical_identity_def]]
  note field = map_of_put map_of.simps append_Cons append_Nil map_of_put_int [of _ _ "[]", simplified]
  have "sort (id_audience i) = sort (id_audience j)"
    using at [of "''audience''"] by (auto simp add: field simp del: map_of_append split: option.splits if_splits)
  moreover have "id_name i = id_name j" using at [of "''name''"] by (simp add: field del: map_of_append split: option.splits if_splits)
  moreover have "id_version i = id_version j" using at [of "''version''"] by (simp add: field del: map_of_append split: option.splits if_splits)
  moreover have "id_display_name i = id_display_name j"
    using at [of "''display_name''"] by (simp add: field del: map_of_append split: option.splits if_splits)
  moreover have "id_description i = id_description j"
    using at [of "''description''"] by (simp add: field del: map_of_append split: option.splits if_splits)
  moreover have "id_license i = id_license j" using at [of "''license''"] by (simp add: field del: map_of_append split: option.splits if_splits)
  moreover have "id_homepage i = id_homepage j" using at [of "''homepage''"] by (simp add: field del: map_of_append split: option.splits if_splits)
  moreover have "id_image i = id_image j" using at [of "''image''"] by (simp add: field del: map_of_append split: option.splits if_splits)
  moreover have "id_port i = id_port j" using at [of "''port''"] by (simp add: field del: map_of_append split: option.splits if_splits)
  ultimately show ?thesis by simp
qed

lemma canonical_identity_eq:
  "canonical_identity i = canonical_identity j \<longleftrightarrow> i\<lparr>id_audience := sort (id_audience i)\<rparr> = j\<lparr>id_audience := sort (id_audience j)\<rparr>"
proof
  assume "i\<lparr>id_audience := sort (id_audience i)\<rparr> = j\<lparr>id_audience := sort (id_audience j)\<rparr>"
  then show "canonical_identity i = canonical_identity j"
    by (cases i; cases j) (simp add: canonical_identity_def put_strings_eq [of "''audience''", symmetric])
qed (rule identity_at)

subsection \<open>Repetitions\<close>

lemma seen_nowhere: "\<forall>i<length xs. seen_at xs i = None \<Longrightarrow> distinct xs"
  unfolding distinct_conv_nth
proof (intro allI impI)
  fix i j assume a: "\<forall>i<length xs. seen_at xs i = None" "i < length xs" "j < length xs" "i \<noteq> j"
  have "xs ! k \<noteq> xs ! m" if "k < m" "m < length xs" for k m
    using a(1) that by (auto simp: seen_at_def find_None_iff)
  then show "xs ! i \<noteq> xs ! j" using a by (metis nat_neq_iff)
qed

lemma repeated_nowhere: "\<forall>i<length xs. repeated field words xs i = [] \<Longrightarrow> distinct xs"
  by (intro seen_nowhere) (auto simp: repeated_def split: option.splits)

subsection \<open>Order does not matter\<close>

text \<open>Two manifests declare the same when they agree up to defaults, the order of lists, and how integers are written.\<close>

definition same_declaration :: "manifest \<Rightarrow> manifest \<Rightarrow> bool" where
  "same_declaration m0 m0' \<longleftrightarrow>
     (let m = apply_defaults m0; m' = apply_defaults m0'; i = mf_cassette m; i' = mf_cassette m'
      in mf_kind m = mf_kind m' \<and> mf_core m = mf_core m' \<and> mf_health m = mf_health m' \<and> mf_openapi m = mf_openapi m'
       \<and> mf_prefix m = mf_prefix m' \<and> mf_source_digest m = mf_source_digest m'
       \<and> i\<lparr>id_audience := []\<rparr> = i'\<lparr>id_audience := []\<rparr> \<and> mset (id_audience i) = mset (id_audience i')
       \<and> mset (mf_views m) = mset (mf_views m') \<and> mset (mf_tables m) = mset (mf_tables m')
       \<and> mset (map normal_setting (mf_config m)) = mset (map normal_setting (mf_config m')))"

lemma audience_eq:
  "i\<lparr>id_audience := sort (id_audience i)\<rparr> = j\<lparr>id_audience := sort (id_audience j)\<rparr> \<longleftrightarrow>
   i\<lparr>id_audience := []\<rparr> = j\<lparr>id_audience := []\<rparr> \<and> mset (id_audience i) = mset (id_audience j)"
  by (cases i; cases j) (auto simp: sort_eq_iff)

lemma map_eq_map_iff: "(\<And>x y. f x = f y \<longleftrightarrow> g x = g y) \<Longrightarrow> map f xs = map f ys \<longleftrightarrow> map g xs = map g ys"
proof (induction xs arbitrary: ys)
  case (Cons x xs)
  then show ?case by (cases ys) simp_all
qed auto

lemma normal_setting_key [simp]: "sg_key (normal_setting s) = sg_key s"
  by (simp add: normal_setting_def)

lemma map_sort_key: "(\<And>x. k (f x) = k x) \<Longrightarrow> map f (sort_key k xs) = sort_key k (map f xs)"
proof (induction xs)
  case (Cons x xs)
  have "map f (insort_key k x ys) = insort_key k (f x) (map f ys)" for ys
    using Cons.prems by (induction ys) simp_all
  then show ?case using Cons by simp
qed simp

lemma settings_eq:
  assumes "distinct (map sg_key ss)" "distinct (map sg_key ts)"
  shows "map canonical_setting (sort_key sg_key ss) = map canonical_setting (sort_key sg_key ts)
    \<longleftrightarrow> mset (map normal_setting ss) = mset (map normal_setting ts)"
proof -
  have "map canonical_setting (sort_key sg_key ss) = map canonical_setting (sort_key sg_key ts)
      \<longleftrightarrow> map normal_setting (sort_key sg_key ss) = map normal_setting (sort_key sg_key ts)"
    by (rule map_eq_map_iff) (rule canonical_setting_eq)
  also have "\<dots> \<longleftrightarrow> sort_key sg_key (map normal_setting ss) = sort_key sg_key (map normal_setting ts)"
    by (simp add: map_sort_key)
  also have "\<dots> \<longleftrightarrow> mset (map normal_setting ss) = mset (map normal_setting ts)"
  proof
    assume "mset (map normal_setting ss) = mset (map normal_setting ts)"
    moreover have "inj_on sg_key (set (map normal_setting ss))"
      using assms(1) by (auto simp: distinct_map inj_on_def)
    ultimately show "sort_key sg_key (map normal_setting ss) = sort_key sg_key (map normal_setting ts)"
      by (intro sort_key_inj_key_eq) simp_all
  qed (metis mset_sort)
  finally show ?thesis .
qed

definition form_fields :: "manifest \<Rightarrow> (string \<times> canon) list" where
  "form_fields m =
     [(''api'', CObject [(''health'', CText (mf_health m)), (''openapi'', CText (mf_openapi m)), (''prefix_path'', CText (mf_prefix m))]),
      (''cassette'', canonical_identity (mf_cassette m))]
   @ (if mf_config m = [] then [] else [(''config'', CList (map canonical_setting (sort_key sg_key (mf_config m))))])
   @ [(''depends'', canonical_depends m), (''kind'', CText (mf_kind m))]
   @ (if mf_tables m = [] then [] else [(''tables'', CList (map (\<lambda>n. CObject [(''name'', CText n)]) (sort (mf_tables m))))])
   @ put_string ''x-source-digest'' (mf_source_digest m)"

lemma canonical_form_fields: "canonical_form m = CObject (form_fields (apply_defaults m))"
  by (simp add: canonical_form_def form_fields_def Let_def)

lemma sort_key_empty [simp]: "sort_key f xs = [] \<longleftrightarrow> xs = []"
  by (metis mset_sort mset_zero_iff)

lemma form_at:
  assumes "form_fields m = form_fields m'"
  shows "mf_health m = mf_health m' \<and> mf_openapi m = mf_openapi m' \<and> mf_prefix m = mf_prefix m' \<and> mf_kind m = mf_kind m'
    \<and> mf_source_digest m = mf_source_digest m'"
    and "canonical_identity (mf_cassette m) = canonical_identity (mf_cassette m')" "canonical_depends m = canonical_depends m'"
    and "map canonical_setting (sort_key sg_key (mf_config m)) = map canonical_setting (sort_key sg_key (mf_config m'))"
    and "sort (mf_tables m) = sort (mf_tables m')"
proof -
  have at: "map_of (form_fields m) k = map_of (form_fields m') k" for k using assms by simp
  note field = form_fields_def map_of_put map_of.simps append_Cons append_Nil
  have opt: "map_of ((if b then [] else [(k, v)]) @ r) j = (if \<not> b \<and> j = k then Some v else map_of r j)" for b k and v :: canon and r j
    by simp
  have "mf_health m = mf_health m' \<and> mf_openapi m = mf_openapi m' \<and> mf_prefix m = mf_prefix m'"
    using at [of "''api''"] by (simp add: field opt del: map_of_append)
  moreover have "mf_kind m = mf_kind m'" using at [of "''kind''"] by (simp add: field opt del: map_of_append)
  moreover have "mf_source_digest m = mf_source_digest m'"
    using at [of "''x-source-digest''"] by (simp add: field opt del: map_of_append split: if_splits)
  ultimately show "mf_health m = mf_health m' \<and> mf_openapi m = mf_openapi m' \<and> mf_prefix m = mf_prefix m' \<and> mf_kind m = mf_kind m'
    \<and> mf_source_digest m = mf_source_digest m'" by simp
  show "canonical_identity (mf_cassette m) = canonical_identity (mf_cassette m')"
    using at [of "''cassette''"] by (simp add: field opt del: map_of_append)
  show "canonical_depends m = canonical_depends m'" using at [of "''depends''"] by (simp add: field opt del: map_of_append)
  show "map canonical_setting (sort_key sg_key (mf_config m)) = map canonical_setting (sort_key sg_key (mf_config m'))"
    using at [of "''config''"] by (simp add: field opt del: map_of_append split: if_splits)
  have "map (\<lambda>n. CObject [(''name'', CText n)]) (sort (mf_tables m)) = map (\<lambda>n. CObject [(''name'', CText n)]) (sort (mf_tables m'))"
    using at [of "''tables''"] by (simp add: field opt del: map_of_append split: if_splits)
  then show "sort (mf_tables m) = sort (mf_tables m')" by (simp add: inj_map_eq_map inj_def)
qed

lemma canonical_depends_eq:
  "canonical_depends m = canonical_depends m' \<longleftrightarrow> mf_core m = mf_core m' \<and> mset (mf_views m) = mset (mf_views m')"
  by (simp add: canonical_depends_def put_strings_eq sort_eq_iff)

lemma validated_keys:
  assumes "validate_manifest env supported m = None"
  shows "distinct (map sg_key (mf_config m))"
proof -
  have "concat (map (setting_problems env (mf_config m)) [0..<length (mf_config m)]) = []"
    using assms by (simp add: validate_manifest_def manifest_problems_def Let_def split: if_splits)
  then have "repeated (\<lambda>i. indexed ''config'' i ''.key'') ''duplicates '' (map sg_key (mf_config m)) i = []" if "i < length (mf_config m)" for i
    using that by (auto simp: setting_problems_def Let_def)
  then show ?thesis using repeated_nowhere [of "map sg_key (mf_config m)" "\<lambda>i. indexed ''config'' i ''.key''" "''duplicates ''"] by simp
qed

text \<open>C35: The canonical form, over which the digest of a manifest is taken, identifies what the manifest declares: two
  valid manifests have the same form exactly when they agree up to absent defaults, the order of views, tables,
  settings, enumerations and audiences, and the way an integer default is written.\<close>

theorem canonical_identifies:
  assumes "validate_manifest env supported m = None" "validate_manifest env supported m' = None"
  shows "canonical_form m = canonical_form m' \<longleftrightarrow> same_declaration m m'"
proof -
  let ?m = "apply_defaults m" and ?m' = "apply_defaults m'"
  have d: "distinct (map sg_key (mf_config ?m))" "distinct (map sg_key (mf_config ?m'))"
    using validated_keys [OF assms(1)] validated_keys [OF assms(2)] by (simp_all add: apply_defaults_def)
  note eqs = settings_eq [OF d] sort_eq_iff canonical_depends_eq canonical_identity_eq audience_eq
  show ?thesis
  proof
    assume "canonical_form m = canonical_form m'"
    then have f: "form_fields ?m = form_fields ?m'" by (simp add: canonical_form_fields)
    show "same_declaration m m'" using form_at [OF f] unfolding same_declaration_def Let_def eqs by blast
  next
    assume s: "same_declaration m m'"
    then have "canonical_identity (mf_cassette ?m) = canonical_identity (mf_cassette ?m')" "canonical_depends ?m = canonical_depends ?m'"
      "map canonical_setting (sort_key sg_key (mf_config ?m)) = map canonical_setting (sort_key sg_key (mf_config ?m'))"
      "sort (mf_tables ?m) = sort (mf_tables ?m')"
      unfolding same_declaration_def Let_def eqs by blast+
    moreover from this(3) have "mf_config ?m = [] \<longleftrightarrow> mf_config ?m' = []" by (metis map_is_Nil_conv sort_key_empty)
    moreover from calculation(4) have "mf_tables ?m = [] \<longleftrightarrow> mf_tables ?m' = []" by (metis sort_empty)
    ultimately have "form_fields ?m = form_fields ?m'"
      using s unfolding same_declaration_def Let_def form_fields_def by simp
    then show "canonical_form m = canonical_form m'" by (simp add: canonical_form_fields)
  qed
qed

definition sample_env :: cas_env where
  "sample_env = \<lparr>ce_quote = (\<lambda>s. s), ce_url = (\<lambda>_. None),
     ce_request_uri = (\<lambda>v. Some \<lparr>gu_scheme = [], gu_user = False, gu_host = [], gu_hostname = [], gu_path = v, gu_query = [], gu_fragment = []\<rparr>),
     ce_duration_ok = (\<lambda>_. True), ce_json_valid = (\<lambda>_. True)\<rparr>"

definition sample_setting :: "string \<Rightarrow> setting_value \<Rightarrow> setting" where
  "sample_setting k v = \<lparr>sg_key = k, sg_type = ''int'', sg_required = False, sg_default = Some v, sg_secret = False, sg_description = [],
     sg_enum = [], sg_min = None, sg_max = None\<rparr>"

definition sample_manifest :: "string list \<Rightarrow> setting list \<Rightarrow> manifest" where
  "sample_manifest views ss = apply_defaults \<lparr>mf_kind = manifest_kind,
     mf_cassette = \<lparr>id_name = ''demo'', id_version = ''1'', id_display_name = [], id_description = [], id_license = [], id_homepage = [],
       id_image = [], id_port = 0, id_audience = []\<rparr>,
     mf_core = ''v1'', mf_views = views, mf_health = [], mf_openapi = [], mf_prefix = [], mf_tables = [], mf_config = ss,
     mf_source_digest = []\<rparr>"

theorem canonical_identifies_witness:
  "canonical_form (sample_manifest [''spans'', ''turns''] [sample_setting ''a'' (VNumber ''7''), sample_setting ''b'' (VInt 1)])
   = canonical_form (sample_manifest [''turns'', ''spans''] [sample_setting ''b'' (VInt 1), sample_setting ''a'' (VInt 7)])
   \<and> canonical_form (sample_manifest [''spans'', ''turns''] []) \<noteq> canonical_form (sample_manifest [''spans''] [])"
proof -
  let ?a = "sample_manifest [''spans'', ''turns''] [sample_setting ''a'' (VNumber ''7''), sample_setting ''b'' (VInt 1)]"
  let ?b = "sample_manifest [''turns'', ''spans''] [sample_setting ''b'' (VInt 1), sample_setting ''a'' (VInt 7)]"
  let ?c = "sample_manifest [''spans'', ''turns''] []" and ?d = "sample_manifest [''spans''] []"
  have "validate_manifest sample_env [''v1''] ?a = None" "validate_manifest sample_env [''v1''] ?b = None"
    "validate_manifest sample_env [''v1''] ?c = None" "validate_manifest sample_env [''v1''] ?d = None"
    by code_simp+
  note iff = canonical_identifies [OF this(1,2)] canonical_identifies [OF this(3,4)]
  have "integer_value (VNumber ''7'') = Some 7" "integer_value (VInt 7) = Some 7" "integer_value (VInt 1) = Some 1" by code_simp+
  then show ?thesis unfolding iff
    by (simp add: same_declaration_def sample_manifest_def sample_setting_def apply_defaults_def normal_setting_def normal_default_def Let_def)
qed

subsection \<open>What is granted\<close>

lemma concat_nowhere: "concat (map f [0..<n]) = [] \<Longrightarrow> i < n \<Longrightarrow> f i = []"
  by auto

lemma complain_none [simp]: "complain b f m = [] \<longleftrightarrow> \<not> b"
  by (simp add: complain_def)

text \<open>A valid manifest is granted views of the contract it depends on and never the raw turns, in a schema and a role that
  are not core's, and it publishes no secret.\<close>

lemma accepted_grants:
  assumes "validate_manifest env supported m = None"
  shows "mf_core m \<in> set supported
    \<and> list_all (\<lambda>s. \<exists>v\<in>set (mf_views m). s = ''tapes_'' @ mf_core m @ ''.'' @ v \<and> identifier_pattern v \<and> v \<noteq> ''raw_turns'')
        (gp_selects (grant_plan_of m))
    \<and> gp_schema (grant_plan_of m) \<notin> {''public'', ''tapes''} \<and> gp_role (grant_plan_of m) = ''cassette_'' @ id_name (mf_cassette m)"
    and "redact m = m"
proof -
  note all = assms [unfolded validate_manifest_def Let_def manifest_problems_def]
  have core: "core_problems env supported m = []" and ident: "identity_problems env m = []"
    and views: "concat (map (view_problems (mf_views m)) [0..<length (mf_views m)]) = []"
    and config: "concat (map (setting_problems env (mf_config m)) [0..<length (mf_config m)]) = []"
    using all by (simp_all split: if_splits)
  have c: "mf_core m \<in> set supported" using core by (simp add: core_problems_def split: if_splits)
  have v: "identifier_pattern v \<and> v \<noteq> ''raw_turns''" if v: "v \<in> set (mf_views m)" for v
  proof -
    obtain i where i: "i < length (mf_views m)" "v = mf_views m ! i" using v by (auto simp: in_set_conv_nth)
    then show ?thesis using concat_nowhere [OF views i(1)] by (simp add: view_problems_def Let_def)
  qed
  have "\<exists>n. parse_name env (id_name (mf_cassette m)) = Inr n"
    using ident by (auto simp: identity_problems_def Let_def split: sum.splits)
  then have n: "id_name (mf_cassette m) \<notin> {''public'', ''tapes''}"
    by (auto simp: parse_name_def reserved_names_def)
  show "mf_core m \<in> set supported
    \<and> list_all (\<lambda>s. \<exists>v\<in>set (mf_views m). s = ''tapes_'' @ mf_core m @ ''.'' @ v \<and> identifier_pattern v \<and> v \<noteq> ''raw_turns'')
        (gp_selects (grant_plan_of m))
    \<and> gp_schema (grant_plan_of m) \<notin> {''public'', ''tapes''} \<and> gp_role (grant_plan_of m) = ''cassette_'' @ id_name (mf_cassette m)"
    using c v n by (auto simp: grant_plan_of_def schema_name_def role_name_def list_all_iff)
  have "(if sg_secret s then s\<lparr>sg_default := None\<rparr> else s) = s" if s: "s \<in> set (mf_config m)" for s
  proof -
    obtain i where i: "i < length (mf_config m)" "s = mf_config m ! i" using s by (auto simp: in_set_conv_nth)
    then have "\<not> (sg_secret s \<and> sg_default s \<noteq> None)"
      using concat_nowhere [OF config i(1)] by (simp add: setting_problems_def validate_setting_def Let_def)
    then show ?thesis by (cases s) auto
  qed
  then have "map (\<lambda>s. if sg_secret s then s\<lparr>sg_default := None\<rparr> else s) (mf_config m) = mf_config m" by (rule map_idI)
  then show "redact m = m" by (simp add: redact_def)
qed

end
