(* ===== verification/CassetteFleet.thy ===== *)
theory CassetteFleet
  imports CassetteRunner ManifestFacts
begin

text \<open>
  The invariant of the cassettes a server publishes, whatever the network answers and however the sources change: the
  registry, the cache of documents and the configured sources agree on who owns a name.
\<close>

subsection \<open>Names and prefixes\<close>

lemma name_chars:
  assumes "name_pattern s" "c \<in> set s"
  shows "is_lower c \<or> is_digit c \<or> c = CHR ''-''"
proof -
  obtain a m b where s: "s = a # m @ [b]"
    using assms(1) by (cases s; cases "tl s" rule: rev_cases) (auto simp: name_pattern_def)
  show ?thesis using assms by (auto simp: s name_pattern_def list_all_iff)
qed

lemma name_no_slash: "name_pattern s \<Longrightarrow> CHR ''/'' \<notin> set s"
  using name_chars [of s "CHR ''/''"] by (auto simp: is_lower_def is_digit_def)

lemma parse_name_Inr: "parse_name env v = Inr n \<Longrightarrow> n = v \<and> name_pattern v"
  by (auto simp: parse_name_def split: option.splits if_splits)

lemma name_nonempty: "name_pattern s \<Longrightarrow> s \<noteq> []"
  by (auto simp: name_pattern_def)

lemma last_public_prefix: "name_pattern n \<Longrightarrow> last (public_prefix n) \<noteq> CHR ''/''"
  by (cases n rule: rev_cases) (use name_no_slash [of n] name_nonempty [of n] in \<open>auto simp: public_prefix_def\<close>)

lemma trim_suffix_last: "last p \<noteq> c \<Longrightarrow> trim_suffix p [c] = p"
  by (auto simp: trim_suffix_def has_suffix_iff)

lemma public_prefix_plain: "name_pattern n \<Longrightarrow> trim_suffix (public_prefix n) ''/'' = public_prefix n"
  by (simp add: trim_suffix_last last_public_prefix)

text \<open>Two cassettes never share a path.\<close>

lemma slash_split_unique:
  assumes "a @ x = b @ y" "CHR ''/'' \<notin> set a" "CHR ''/'' \<notin> set b"
    "x = [] \<or> hd x = CHR ''/''" "y = [] \<or> hd y = CHR ''/''"
  shows "a = b"
  using assms
proof (induction a arbitrary: b)
  case Nil
  then show ?case by (cases b) auto
next
  case (Cons c a)
  then show ?case by (cases b) auto
qed

lemma covering_prefix_unique:
  assumes "segment_prefix (public_prefix m) p" "segment_prefix (public_prefix n) p" "name_pattern m" "name_pattern n"
  shows "m = n"
proof -
  have ex: "\<exists>r. p = public_namespace @ ''/'' @ k @ r \<and> (r = [] \<or> hd r = CHR ''/'')"
    if "segment_prefix (public_prefix k) p" "name_pattern k" for k
    using that by (auto simp: segment_prefix_def public_prefix_plain has_prefix_iff) (auto simp: public_prefix_def)
  obtain r where r: "p = public_namespace @ ''/'' @ m @ r" "r = [] \<or> hd r = CHR ''/''"
    using ex [OF assms(1,3)] by blast
  obtain q where q: "p = public_namespace @ ''/'' @ n @ q" "q = [] \<or> hd q = CHR ''/''"
    using ex [OF assms(2,4)] by blast
  show ?thesis
    by (rule slash_split_unique [of m r n q]) (use r q assms(3,4) name_no_slash in auto)
qed

subsection \<open>Republished documents\<close>

lemma trim_own_prefix [simp]: "trim_prefix (p @ r) p = r"
  by (simp add: trim_prefix_def)

lemma segment_prefix_split: "segment_prefix pre p \<Longrightarrow> last pre \<noteq> CHR ''/'' \<Longrightarrow> \<exists>r. p = pre @ r \<and> (r = [] \<or> hd r = CHR ''/'')"
  by (auto simp: segment_prefix_def has_prefix_iff trim_suffix_def has_suffix_iff)

lemma segment_prefix_join:
  "last pre \<noteq> CHR ''/'' \<Longrightarrow> r = [] \<or> hd r = CHR ''/'' \<Longrightarrow> segment_prefix pre (pre @ r)"
  by (cases r) (auto simp: segment_prefix_def has_prefix_iff trim_suffix_def has_suffix_iff)

lemma map_of_rewrite_paths: "map_of (map (rewrite_entry c) xs) ''paths'' = map_option (\<lambda>_. JObj c) (map_of xs ''paths'')"
  by (induction xs) (auto simp: rewrite_entry_def)

lemma map_of_without_servers: "map_of (without_servers m) k = (if k = ''servers'' then None else map_of m k)"
  by (induction m) (auto simp: without_servers_def)

text \<open>A path moves from the cassette's own prefix to the public one and nothing else does.\<close>

lemma rewrite_paths:
  assumes "rewrite_prefix source target d = Inr d'" "last source \<noteq> CHR ''/''"
  obtains m where "declared_paths d = Some m" "declared_paths d' = Some (map (moved source target) m)"
    "list_all (\<lambda>(p, _). \<exists>r. p = source @ r \<and> (r = [] \<or> hd r = CHR ''/'')) m"
proof -
  obtain m where m: "declared_paths d = Some m" and ok: "find (\<lambda>p. \<not> segment_prefix source p) (sort (map fst m)) = None"
    and d': "d' = map (rewrite_entry (map (moved source target) m)) (without_servers d)"
    using assms(1) by (auto simp: rewrite_prefix_def split: option.splits)
  have "map_of d' ''paths'' = Some (JObj (map (moved source target) m))"
    using m unfolding d' map_of_rewrite_paths by (auto simp: map_of_without_servers declared_paths_def split: option.splits jval.splits)
  moreover have "\<exists>r. p = source @ r \<and> (r = [] \<or> hd r = CHR ''/'')" if "(p, x) \<in> set m" for p x
    by (rule segment_prefix_split [OF _ assms(2)]) (use ok that in \<open>force simp: find_None_iff\<close>)
  ultimately show ?thesis using that [OF m] by (simp add: declared_paths_def list_all_iff) blast
qed

subsection \<open>The fleet\<close>

text \<open>A table whose entries have owners, from which an owner's entries are withdrawn: the registry and the cache alike.\<close>

locale owned_table =
  fixes look :: "'s \<Rightarrow> string \<Rightarrow> 'v option"
    and owned_by :: "'v \<Rightarrow> string"
    and withdraw :: "'x \<Rightarrow> 's \<Rightarrow> 's"
    and takes :: "'x \<Rightarrow> string \<Rightarrow> string \<Rightarrow> bool"
  assumes look_withdraw: "look (withdraw x s) n =
    (case look s n of None \<Rightarrow> None | Some v \<Rightarrow> if takes x n (owned_by v) then None else Some v)"
begin

lemma look_fold: "look (fold withdraw xs s) n =
    (case look s n of None \<Rightarrow> None | Some v \<Rightarrow> if \<exists>x\<in>set xs. takes x n (owned_by v) then None else Some v)"
  by (induction xs arbitrary: s) (auto simp: look_withdraw split: option.splits)

end

definition withdraws :: "source_state \<Rightarrow> string \<Rightarrow> string \<Rightarrow> bool" where
  "withdraws s n u \<longleftrightarrow> src_name s \<noteq> [] \<and> src_name s = n \<and> src_url s = u"

interpretation registered: owned_table "\<lambda>r. rg_instances (rn_registry r)" in_source "withdraw_source env" withdraws
  by unfold_locales
    (auto simp: withdraw_source_def Let_def registry_remove_def clear_rejection_def withdraws_def split: option.splits)

interpretation documented: owned_table rn_specs sc_source "withdraw_source env" withdraws
  by unfold_locales
    (auto simp: withdraw_source_def Let_def cache_evict_source_def withdraws_def split: option.splits)

definition owner :: "cas_runner \<Rightarrow> string \<Rightarrow> string option" where
  "owner r n = map_option in_source (rg_instances (rn_registry r) n)"

definition doc_owner :: "cas_runner \<Rightarrow> string \<Rightarrow> string option" where
  "doc_owner r n = map_option sc_source (rn_specs r n)"

definition entry_ok :: "run_env \<Rightarrow> string \<Rightarrow> spec_entry \<Rightarrow> bool" where
  "entry_ok env n e \<longleftrightarrow>
     (case sc_document e of None \<Rightarrow> False | Some d \<Rightarrow> sc_digest e = ''sha256:'' @ re_sha env d)
   \<and> (case document_paths (sc_parsed e) of None \<Rightarrow> False | Some ps \<Rightarrow> list_all (segment_prefix (public_prefix n)) ps)"

definition instance_ok :: "run_env \<Rightarrow> string \<Rightarrow> cas_instance \<Rightarrow> bool" where
  "instance_ok env n i \<longleftrightarrow> in_name i = n \<and> name_pattern n \<and> registry_check (base_env env) i = None"

definition order_ok :: "cas_registry \<Rightarrow> bool" where
  "order_ok g \<longleftrightarrow> distinct (rg_order g) \<and> set (rg_order g) = dom (rg_instances g) \<and> distinct (map rj_subject (rg_rejections g))"

definition sources_ok :: "source_state list \<Rightarrow> bool" where
  "sources_ok ss \<longleftrightarrow> distinct (map src_url ss) \<and> list_all (\<lambda>s. src_resolved s = (src_name s \<noteq> []) \<and> (src_resolved s \<or> src_etag s = [])) ss"

text \<open>The same source owns the registered instance and the document of a name, it is configured, and it is pinned to
  that name.\<close>

definition fleet_ok :: "run_env \<Rightarrow> cas_runner \<Rightarrow> bool" where
  "fleet_ok env r \<longleftrightarrow>
     order_ok (rn_registry r) \<and> sources_ok (rn_sources r)
   \<and> (\<forall>n. owner r n = doc_owner r n)
   \<and> (\<forall>n i. rg_instances (rn_registry r) n = Some i \<longrightarrow> instance_ok env n i)
   \<and> (\<forall>n e. rn_specs r n = Some e \<longrightarrow> entry_ok env n e)
   \<and> (\<forall>n u. owner r n = Some u \<longrightarrow> (\<exists>s\<in>set (rn_sources r). src_url s = u \<and> src_name s = n))"

text \<open>What the registry accepts of an origin.\<close>

definition origins_accepted :: "run_env \<Rightarrow> bool" where
  "origins_accepted env \<longleftrightarrow>
     (\<forall>u. case source_origin (base_env env) u of Inr origin \<Rightarrow> validate_url (base_env env) origin = [] | Inl _ \<Rightarrow> True)"

lemma fleet_new: "fleet_ok env new_runner"
  by (simp add: fleet_ok_def new_runner_def new_registry_def order_ok_def sources_ok_def owner_def doc_owner_def)

subsection \<open>Rejections\<close>

lemma put_rejection_subjects:
  "map rj_subject (put_rejection u e rs) = map rj_subject rs @ (if u \<in> rj_subject ` set rs then [] else [u])"
  by (induction rs) auto

lemma drop_rejection_subset: "rj_subject ` set (drop_rejection u rs) \<subseteq> rj_subject ` set rs"
  by (induction rs) auto

lemma drop_rejection_distinct: "distinct (map rj_subject rs) \<Longrightarrow> distinct (map rj_subject (drop_rejection u rs))"
proof (induction rs)
  case (Cons r rs)
  then show ?case using drop_rejection_subset [of u rs] by auto
qed simp

lemma order_set_rejection [simp]: "order_ok g \<Longrightarrow> order_ok (set_rejection u e g)"
  by (simp add: order_ok_def set_rejection_def put_rejection_subjects)

lemma order_clear_rejection [simp]: "order_ok g \<Longrightarrow> order_ok (clear_rejection u g)"
  by (simp add: order_ok_def clear_rejection_def drop_rejection_distinct)

lemma rejection_instances [simp]:
  "rg_instances (set_rejection u e g) = rg_instances g" "rg_instances (clear_rejection u g) = rg_instances g"
  by (simp_all add: set_rejection_def clear_rejection_def)

lemma order_remove: "order_ok g \<Longrightarrow> order_ok (registry_remove n u g)"
  by (auto simp: order_ok_def registry_remove_def distinct_remove1 set_remove1_eq split: option.splits)

lemma order_put: "order_ok g \<Longrightarrow> registry_put env i g = Inr g' \<Longrightarrow> order_ok g'"
  by (auto simp: order_ok_def registry_put_def split: option.splits if_splits)

subsection \<open>A pass keeps the fleet\<close>

text \<open>What failing and revalidating leave: owners, instances, the bytes served and the identity of every source.\<close>

definition served :: "spec_entry \<Rightarrow> string option \<times> oas_document \<times> string \<times> string" where
  "served e = (sc_document e, sc_parsed e, sc_digest e, sc_source e)"

definition pinned :: "source_state \<Rightarrow> string \<times> string \<times> bool \<times> string" where
  "pinned s = (src_url s, src_name s, src_resolved s, src_etag s)"

lemma sources_ok_pinned:
  "sources_ok ss = (distinct (map fst (map pinned ss)) \<and> list_all (\<lambda>(_, n, b, t). b = (n \<noteq> []) \<and> (b \<or> t = [])) (map pinned ss))"
  by (simp add: sources_ok_def comp_def list.pred_map pinned_def)

definition same_fleet :: "cas_runner \<Rightarrow> cas_runner \<Rightarrow> bool" where
  "same_fleet r r' \<longleftrightarrow>
     rg_instances (rn_registry r') = rg_instances (rn_registry r) \<and> rg_order (rn_registry r') = rg_order (rn_registry r)
   \<and> (\<forall>n. map_option served (rn_specs r' n) = map_option served (rn_specs r n))
   \<and> map pinned (rn_sources r') = map pinned (rn_sources r)"

lemma fail_source_same: "i < length (rn_sources r) \<Longrightarrow> same_fleet r (fail_source env i e r)"
  by (auto simp: same_fleet_def served_def pinned_def fail_source_def Let_def upd_source_def map_upd_at cache_mark_stale_def set_rejection_def split: option.splits)

lemma mark_source_fresh_same: "same_fleet r (mark_source_fresh env i r)"
  by (auto simp: same_fleet_def served_def pinned_def mark_source_fresh_def Let_def upd_source_def map_upd_at cache_mark_fresh_def clear_rejection_def
      split: option.splits)

lemma same_fleet_urls: "same_fleet r r' \<Longrightarrow> map src_url (rn_sources r') = map src_url (rn_sources r)"
proof -
  assume "same_fleet r r'"
  then have "map fst (map pinned (rn_sources r')) = map fst (map pinned (rn_sources r))" unfolding same_fleet_def by argo
  then show ?thesis by (simp add: comp_def pinned_def)
qed

lemma same_fleet_sources:
  assumes "same_fleet r r'" "s' \<in> set (rn_sources r')"
  shows "\<exists>s\<in>set (rn_sources r). src_url s = src_url s' \<and> src_name s = src_name s' \<and> src_resolved s = src_resolved s'"
proof -
  have "pinned s' \<in> set (map pinned (rn_sources r))" using assms unfolding same_fleet_def by (metis image_eqI list.set_map)
  then show ?thesis by (auto simp: pinned_def)
qed

lemma same_fleet_sym: "same_fleet r r' \<Longrightarrow> same_fleet r' r"
  by (simp add: same_fleet_def)

lemma same_fleet_owner: "same_fleet r r' \<Longrightarrow> owner r' n = owner r n \<and> doc_owner r' n = doc_owner r n"
proof -
  assume s: "same_fleet r r'"
  have "map_option (\<lambda>(a, b, c, d). d) (map_option served (rn_specs r' n)) = map_option (\<lambda>(a, b, c, d). d) (map_option served (rn_specs r n))"
    using s by (simp add: same_fleet_def)
  then have "doc_owner r' n = doc_owner r n" by (simp add: doc_owner_def option.map_comp comp_def served_def)
  then show ?thesis using s by (simp add: same_fleet_def owner_def)
qed

lemma same_fleet_ok:
  assumes "same_fleet r r'" "fleet_ok env r" "distinct (map rj_subject (rg_rejections (rn_registry r')))"
  shows "fleet_ok env r'"
  unfolding fleet_ok_def
proof (intro conjI allI impI)
  show "order_ok (rn_registry r')" using assms by (simp add: fleet_ok_def order_ok_def same_fleet_def)
  show "sources_ok (rn_sources r')"
    using assms(1,2) by (simp only: fleet_ok_def sources_ok_pinned same_fleet_def)
  show "owner r' n = doc_owner r' n" for n using assms(2) same_fleet_owner [OF assms(1)] by (simp add: fleet_ok_def)
  show "instance_ok env n i" if "rg_instances (rn_registry r') n = Some i" for n i
    using assms(1,2) that by (simp add: fleet_ok_def same_fleet_def)
  show "entry_ok env n e" if "rn_specs r' n = Some e" for n e
  proof -
    have "map_option served (rn_specs r n) = map_option served (rn_specs r' n)" using assms(1) by (simp add: same_fleet_def)
    then have "map_option served (rn_specs r n) = Some (served e)" by (simp add: that)
    then obtain e0 where "rn_specs r n = Some e0" "sc_document e0 = sc_document e" "sc_parsed e0 = sc_parsed e" "sc_digest e0 = sc_digest e"
      by (auto simp: served_def)
    moreover from this(1) have "entry_ok env n e0" using assms(2) unfolding fleet_ok_def by blast
    ultimately show ?thesis by (auto simp: entry_ok_def split: option.splits)
  qed
  show "\<exists>s\<in>set (rn_sources r'). src_url s = u \<and> src_name s = n" if "owner r' n = Some u" for n u
  proof -
    have "owner r n = Some u" using that same_fleet_owner [OF assms(1)] by simp
    then obtain s where "s \<in> set (rn_sources r)" "src_url s = u" "src_name s = n" using assms(2) unfolding fleet_ok_def by blast
    then show ?thesis using same_fleet_sources [OF same_fleet_sym [OF assms(1)]] by metis
  qed
qed

lemma fail_source_ok: "fleet_ok env r \<Longrightarrow> i < length (rn_sources r) \<Longrightarrow> fleet_ok env (fail_source env i e r)"
  by (rule same_fleet_ok [OF fail_source_same])
    (auto simp: fail_source_def Let_def upd_source_def set_rejection_def put_rejection_subjects fleet_ok_def order_ok_def)

lemma mark_source_fresh_ok: "fleet_ok env r \<Longrightarrow> fleet_ok env (mark_source_fresh env i r)"
  by (rule same_fleet_ok [OF mark_source_fresh_same])
    (auto simp: mark_source_fresh_def Let_def upd_source_def clear_rejection_def drop_rejection_distinct fleet_ok_def order_ok_def)

lemma list_all_update: "list_all P xs \<Longrightarrow> P y \<Longrightarrow> list_all P (xs[i := y])"
  using set_update_subset_insert [of xs i y] by (auto simp: list_all_iff)

text \<open>What an admitted document gives.\<close>

lemma admit_name: "admit env d = Inr m \<Longrightarrow> name_pattern (id_name (mf_cassette m)) \<and> parse_name (base_env env) (id_name (mf_cassette m)) = Inr (id_name (mf_cassette m))"
proof -
  assume "admit env d = Inr m"
  then have "validate_manifest (base_env env) (re_contracts env) m = None"
    by (auto simp: admit_def and_then_Inr split: option.splits)
  then have "identity_problems (base_env env) m = []"
    by (auto simp: validate_manifest_def manifest_problems_def Let_def split: if_splits)
  then have "\<exists>n. parse_name (base_env env) (id_name (mf_cassette m)) = Inr n"
    by (auto simp: identity_problems_def Let_def split: sum.splits)
  then show ?thesis using parse_name_Inr by blast
qed

lemma last_local_prefix: "name_pattern (in_name i) \<Longrightarrow> last (local_prefix i) \<noteq> CHR ''/''"
  by (cases "in_name i" rule: rev_cases)
    (use name_no_slash [of "in_name i"] name_nonempty [of "in_name i"] in \<open>auto simp: local_prefix_def\<close>)

definition publication_ok :: "run_env \<Rightarrow> string \<Rightarrow> publication \<Rightarrow> bool" where
  "publication_ok env n p \<longleftrightarrow>
     pn_digest p = ''sha256:'' @ re_sha env (pn_document p)
   \<and> (case document_paths (pn_parsed p) of None \<Rightarrow> False | Some ps \<Rightarrow> list_all (segment_prefix (public_prefix n)) ps)"

lemma republish_ok:
  assumes "republish env d i = Inr p" "name_pattern (in_name i)"
  shows "publication_ok env (in_name i) p"
proof -
  have r: "rewrite_prefix (local_prefix i) (instance_prefix i) d = Inr (pn_parsed p)" and
    dg: "pn_digest p = ''sha256:'' @ re_sha env (pn_document p)"
    using assms(1) by (auto simp: republish_def and_then_Inr split: option.splits)
  obtain m where dp: "declared_paths (pn_parsed p) = Some (map (moved (local_prefix i) (instance_prefix i)) m)"
    and m: "list_all (\<lambda>(q, _). \<exists>r. q = local_prefix i @ r \<and> (r = [] \<or> hd r = CHR ''/'')) m"
    using rewrite_paths [OF r last_local_prefix [OF assms(2)]] by blast
  have "segment_prefix (public_prefix (in_name i)) (fst (moved (local_prefix i) (instance_prefix i) x))" if "x \<in> set m" for x
  proof -
    obtain q v where x: "x = (q, v)" by (cases x)
    with m that obtain r where "q = local_prefix i @ r" "r = [] \<or> hd r = CHR ''/''" by (auto simp: list_all_iff)
    then show ?thesis
      using segment_prefix_join [OF last_public_prefix [OF assms(2)]] by (simp add: x moved_def instance_prefix_def)
  qed
  then show ?thesis by (simp add: publication_ok_def dg document_paths_def dp list_all_iff)
qed

lemma candidate_Inr:
  assumes "candidate env origin i d r = Inr (inst, p)"
  shows "name_pattern (in_name inst) \<and> parse_name (base_env env) (in_name inst) = Inr (in_name inst)
    \<and> in_source inst = src_url (rn_sources r ! i) \<and> in_url inst = origin
    \<and> (src_resolved (rn_sources r ! i) \<longrightarrow> src_name (rn_sources r ! i) = in_name inst)
    \<and> check_priority (in_name inst) (in_source inst) i r = None \<and> publication_ok env (in_name inst) p"
proof -
  let ?s = "rn_sources r ! i"
  obtain m where m: "admit env d = Inr m"
    and rest: "(let name = id_name (mf_cassette m)
         in if src_resolved ?s \<and> src_name ?s \<noteq> name then Inl (NameChanged (src_name ?s) name)
            else case check_priority name (src_url ?s) i r of
                   Some e \<Rightarrow> Inl e
                 | None \<Rightarrow> and_then (wrap_err NoDigest (manifest_digest (re_sha env) (re_canon_text env) m)) (\<lambda>digest.
                     let inst = \<lparr>in_name = name, in_manifest = m, in_digest = digest, in_url = origin,
                                 in_anchors = manifest_anchors m, in_source = src_url ?s, in_tools = []\<rparr>
                     in and_then (republish env d inst) (\<lambda>p. Inr (inst\<lparr>in_tools := pn_tools p\<rparr>, p)))) = Inr (inst, p)"
    using assms by (cases "admit env d") (simp_all add: candidate_def Let_def)
  have nc: "\<not> (src_resolved ?s \<and> src_name ?s \<noteq> id_name (mf_cassette m))"
  proof
    assume c: "src_resolved ?s \<and> src_name ?s \<noteq> id_name (mf_cassette m)"
    from rest show False by (simp add: c Let_def)
  qed
  have pr: "check_priority (id_name (mf_cassette m)) (src_url ?s) i r = None"
    using rest nc by (cases "check_priority (id_name (mf_cassette m)) (src_url ?s) i r") (simp_all add: Let_def)
  obtain inst0 where rp: "republish env d inst0 = Inr p" and i0: "in_name inst0 = id_name (mf_cassette m)"
    and i: "inst = inst0\<lparr>in_tools := pn_tools p\<rparr>" "in_source inst0 = src_url ?s" "in_url inst0 = origin"
    using rest nc pr by (auto simp: Let_def and_then_Inr)
  have "name_pattern (in_name inst0)" using admit_name [OF m] i0 by simp
  from republish_ok [OF rp this] show ?thesis using admit_name [OF m] i i0 nc pr by auto
qed

lemma publish_ok:
  assumes f: "fleet_ok env r" and k: "i < length (rn_sources r)" and u: "in_source inst = src_url (rn_sources r ! i)"
    and n: "name_pattern (in_name inst)" "registry_check (base_env env) inst = None"
    and pin: "src_resolved (rn_sources r ! i) \<longrightarrow> src_name (rn_sources r ! i) = in_name inst"
    and p: "publication_ok env (in_name inst) p"
  shows "fleet_ok env (fst (publish_instance env i etag inst p r))"
    and "owner (fst (publish_instance env i etag inst p r)) m = (if m = in_name inst then Some (in_source inst) else owner r m)"
    and "snd (publish_instance env i etag inst p r) = None"
    and "map pinned (rn_sources (fst (publish_instance env i etag inst p r))) = (map pinned (rn_sources r))[i := (in_source inst, in_name inst, True, etag)]"
proof -
  obtain g where g: "registry_put (base_env env) inst (rn_registry r) = Inr g"
    and gi: "rg_instances g = (rg_instances (rn_registry r))(in_name inst \<mapsto> inst)"
    using n(2) by (simp add: registry_put_def)
  let ?r = "fst (publish_instance env i etag inst p r)"
  have r: "?r = upd_source i (\<lambda>s. s\<lparr>src_name := in_name inst, src_etag := etag, src_resolved := True, src_problem := None\<rparr>)
      (r\<lparr>rn_specs := cache_publish (in_name inst) p (in_source inst) (rn_specs r), rn_registry := clear_rejection (in_source inst) g\<rparr>)"
    and e: "snd (publish_instance env i etag inst p r) = None"
    by (simp_all add: publish_instance_def g resolve_source_def upd_source_def Let_def)
  show "snd (publish_instance env i etag inst p r) = None" by (rule e)
  have own: "owner ?r m = (if m = in_name inst then Some (in_source inst) else owner r m)" for m
    by (simp add: r owner_def upd_source_def gi)
  then show "owner ?r m = (if m = in_name inst then Some (in_source inst) else owner r m)" .
  have down: "doc_owner ?r m = (if m = in_name inst then Some (in_source inst) else doc_owner r m)" for m
    by (simp add: r doc_owner_def upd_source_def cache_publish_def)
  have pins: "map pinned (rn_sources ?r) = (map pinned (rn_sources r))[i := (in_source inst, in_name inst, True, etag)]"
    using k by (simp add: r upd_source_def upd_at_def map_update pinned_def u)
  then show "map pinned (rn_sources ?r) = (map pinned (rn_sources r))[i := (in_source inst, in_name inst, True, etag)]" .
  have len: "length (rn_sources ?r) = length (rn_sources r)" using arg_cong [OF pins, of length] by simp
  have at_i: "pinned (rn_sources ?r ! i) = (in_source inst, in_name inst, True, etag)"
    and at_j: "j \<noteq> i \<Longrightarrow> j < length (rn_sources r) \<Longrightarrow> pinned (rn_sources ?r ! j) = pinned (rn_sources r ! j)" for j
    using arg_cong [OF pins, of "\<lambda>l. l ! i"] arg_cong [OF pins, of "\<lambda>l. l ! j"] k len by simp_all
  have ss: "sources_ok (rn_sources r)" using f by (simp add: fleet_ok_def)
  show "fleet_ok env ?r" unfolding fleet_ok_def
  proof (intro conjI allI impI)
    show "order_ok (rn_registry ?r)"
      using order_put [OF _ g] f by (simp add: r upd_source_def fleet_ok_def)
    have "map fst ((map pinned (rn_sources r))[i := (in_source inst, in_name inst, True, etag)]) = map fst (map pinned (rn_sources r))"
      using k by (simp add: map_update u pinned_def list_update_same_conv)
    moreover have "list_all (\<lambda>(_, n, b, t). b = (n \<noteq> []) \<and> (b \<or> t = [])) ((map pinned (rn_sources r))[i := (in_source inst, in_name inst, True, etag)])"
      using ss name_nonempty [OF n(1)] by (intro list_all_update) (simp_all add: sources_ok_pinned)
    ultimately show "sources_ok (rn_sources ?r)" using ss unfolding sources_ok_pinned pins by argo
    show "owner ?r m = doc_owner ?r m" for m using f own down by (simp add: fleet_ok_def)
    show "instance_ok env m x" if "rg_instances (rn_registry ?r) m = Some x" for m x
      using f n that by (auto simp: fleet_ok_def r upd_source_def gi instance_ok_def split: if_splits)
    show "entry_ok env m x" if "rn_specs ?r m = Some x" for m x
      using f p that by (auto simp: fleet_ok_def r upd_source_def cache_publish_def entry_ok_def publication_ok_def split: if_splits)
    show "\<exists>s\<in>set (rn_sources ?r). src_url s = w \<and> src_name s = m" if "owner ?r m = Some w" for m w
    proof (cases "m = in_name inst")
      case True
      then have "w = in_source inst" using that own by simp
      then show ?thesis using True at_i k len by (intro bexI [of _ "rn_sources ?r ! i"]) (auto simp: pinned_def)
    next
      case False
      then have "owner r m = Some w" using that own by simp
      then obtain s where s: "s \<in> set (rn_sources r)" "src_url s = w" "src_name s = m" using f unfolding fleet_ok_def by blast
      then obtain j where j: "j < length (rn_sources r)" "s = rn_sources r ! j" by (auto simp: in_set_conv_nth)
      obtain x where "rg_instances (rn_registry r) m = Some x" using \<open>owner r m = Some w\<close> by (auto simp: owner_def)
      then have "instance_ok env m x" using f unfolding fleet_ok_def by blast
      then have "name_pattern m" by (simp add: instance_ok_def)
      then have "src_resolved s" using ss s name_nonempty by (auto simp: sources_ok_def list_all_iff)
      then have "j \<noteq> i" using pin False s j by auto
      then show ?thesis using at_j [of j] j s len by (intro bexI [of _ "rn_sources ?r ! j"]) (auto simp: pinned_def)
    qed
  qed
qed

lemma origin_checked:
  assumes "origins_accepted env" "source_origin (base_env env) u = Inr origin" "parse_name (base_env env) (in_name i) = Inr (in_name i)"
    "in_url i = origin"
  shows "registry_check (base_env env) i = None"
proof -
  have "validate_url (base_env env) origin = []" using spec [OF assms(1) [unfolded origins_accepted_def], of u] assms(2) by simp
  then show ?thesis using assms(3,4) by (simp add: registry_check_def complain_def)
qed

text \<open>A source of a pass fails, is revalidated, or publishes.\<close>

lemma refresh_source_cases [consumes 1]:
  assumes "origins_accepted env"
  obtains (failed) e where "refresh_source env net i r = (fail_source env i e r, Some e)"
  | (valid) "currently_published (rn_sources r ! i) r" "refresh_source env net i r = (mark_source_fresh env i r, None)"
  | (published) inst p etag d origin where "candidate env origin i d r = Inr (inst, p)"
      "registry_check (base_env env) inst = None" "refresh_source env net i r = publish_instance env i etag inst p r"
proof (cases "source_origin (base_env env) (src_url (rn_sources r ! i))")
  case (Inl e)
  then show ?thesis using failed by (simp add: refresh_source_def Let_def)
next
  case (Inr origin)
  let ?s = "rn_sources r ! i"
  let ?tag = "validator_for ?s r"
  let ?f = "fetch_source env (net (src_url ?s) ?tag) ?tag"
  show ?thesis
  proof (cases ?f)
    case (Inl e)
    then show ?thesis using failed Inr by (simp add: refresh_source_def Let_def)
  next
    case f: (Inr f)
    consider "ft_not_modified f \<and> currently_published ?s r"
      | "\<not> (ft_not_modified f \<and> currently_published ?s r)" "ft_document f = None"
      | d e where "\<not> (ft_not_modified f \<and> currently_published ?s r)" "ft_document f = Some d" "candidate env origin i d r = Inl e"
      | d inst p where "\<not> (ft_not_modified f \<and> currently_published ?s r)" "ft_document f = Some d" "candidate env origin i d r = Inr (inst, p)"
      by (metis not_None_eq old.sum.exhaust surj_pair)
    then show ?thesis
    proof cases
      case 1
      then show ?thesis using valid Inr f by (simp add: refresh_source_def Let_def)
    next
      case 2
      then show ?thesis using failed Inr f by (simp add: refresh_source_def Let_def)
    next
      case 3
      then show ?thesis using failed Inr f by (simp add: refresh_source_def Let_def)
    next
      case (4 d inst p)
      have "registry_check (base_env env) inst = None"
        using origin_checked [OF assms Inr] candidate_Inr [OF 4(3)] by blast
      moreover have "refresh_source env net i r = publish_instance env i (ft_etag f) inst p r"
        using 4 Inr f by (auto simp: refresh_source_def Let_def)
      ultimately show ?thesis using published [OF 4(3)] by blast
    qed
  qed
qed

lemma refresh_source_ok:
  assumes "origins_accepted env" "fleet_ok env r" "i < length (rn_sources r)"
  shows "fleet_ok env (fst (refresh_source env net i r))
    \<and> map src_url (rn_sources (fst (refresh_source env net i r))) = map src_url (rn_sources r)"
  using assms(1)
proof (cases rule: refresh_source_cases [where net = net and i = i and r = r])
  case (failed e)
  then show ?thesis using fail_source_ok [OF assms(2,3)] same_fleet_urls [OF fail_source_same [OF assms(3)]] by simp
next
  case valid
  then show ?thesis using mark_source_fresh_ok [OF assms(2)] same_fleet_urls [OF mark_source_fresh_same] by simp
next
  case (published inst p etag d origin)
  note c = candidate_Inr [OF published(1)]
  let ?r = "fst (publish_instance env i etag inst p r)"
  have ok: "fleet_ok env ?r" and pins: "map pinned (rn_sources ?r) = (map pinned (rn_sources r))[i := (in_source inst, in_name inst, True, etag)]"
    by (rule publish_ok; use assms c published in blast)+
  have "map fst (map pinned (rn_sources ?r)) = map fst (map pinned (rn_sources r))"
    unfolding pins using assms(3) c by (simp add: map_update pinned_def list_update_same_conv)
  then have "map src_url (rn_sources ?r) = map src_url (rn_sources r)" by (simp add: comp_def pinned_def)
  then show ?thesis using ok published(3) by simp
qed

lemma refresh_from_ok:
  assumes "origins_accepted env"
  shows "fleet_ok env r \<Longrightarrow> \<forall>i\<in>set is. i < length (rn_sources r) \<Longrightarrow> fleet_ok env (fst (refresh_from env net is r))
    \<and> map src_url (rn_sources (fst (refresh_from env net is r))) = map src_url (rn_sources r)"
proof (induction "is" arbitrary: r)
  case (Cons i "is")
  let ?r = "fst (refresh_source env net i r)"
  have r: "fleet_ok env ?r" "map src_url (rn_sources ?r) = map src_url (rn_sources r)"
    using refresh_source_ok [OF assms Cons.prems(1)] Cons.prems(2) by auto
  then have "length (rn_sources ?r) = length (rn_sources r)" by (metis length_map)
  then show ?case using Cons.IH [OF r(1)] Cons.prems(2) r(2) by (simp add: Let_def split_beta)
qed simp

lemma refresh_ok: "origins_accepted env \<Longrightarrow> fleet_ok env r \<Longrightarrow> fleet_ok env (fst (refresh env net r))"
  using refresh_from_ok [of env r "[0..<length (rn_sources r)]" net] by (simp add: refresh_def)

subsection \<open>A change of the sources keeps the fleet\<close>

definition state_of :: "string \<Rightarrow> source_state list \<Rightarrow> source_state" where
  "state_of url ss = (case find (\<lambda>s. src_url s = url) ss of None \<Rightarrow> fresh_source url | Some s \<Rightarrow> s)"

lemma state_of_url [simp]: "src_url (state_of u ss) = u"
  by (auto simp: state_of_def fresh_source_def find_Some_iff split: option.splits)

lemma keep_state_distinct:
  "distinct (map src_url ss) \<Longrightarrow> keep_state u ss = (state_of u ss, filter (\<lambda>s. src_url s \<noteq> u) ss)"
proof (induction ss)
  case (Cons s ss)
  show ?case
  proof (cases "src_url s = u")
    case True
    then have "filter (\<lambda>x. src_url x \<noteq> u) ss = ss" using Cons.prems
      by (intro filter_True ballI notI) (metis distinct.simps(2) image_eqI list.set_map list.simps(9))
    then show ?thesis using True by (simp add: state_of_def)
  next
    case False
    then show ?thesis using Cons by (simp add: state_of_def)
  qed
qed (simp add: state_of_def)

lemma state_of_filter: "u \<noteq> v \<Longrightarrow> state_of u (filter (\<lambda>s. src_url s \<noteq> v) ss) = state_of u ss"
proof -
  assume "u \<noteq> v"
  then have "find (\<lambda>s. src_url s = u) (filter (\<lambda>s. src_url s \<noteq> v) ss) = find (\<lambda>s. src_url s = u) ss" by (induction ss) auto
  then show ?thesis by (simp add: state_of_def)
qed

lemma next_states_distinct:
  "distinct urls \<Longrightarrow> distinct (map src_url ss) \<Longrightarrow>
    next_states urls ss = (map (\<lambda>u. state_of u ss) urls, filter (\<lambda>s. src_url s \<notin> set urls) ss)"
proof (induction urls arbitrary: ss)
  case (Cons u urls)
  let ?ss = "filter (\<lambda>s. src_url s \<noteq> u) ss"
  have "next_states urls ?ss = (map (\<lambda>u. state_of u ?ss) urls, filter (\<lambda>s. src_url s \<notin> set urls) ?ss)"
    using Cons.prems by (intro Cons.IH) (auto intro: distinct_map_filter)
  moreover have "map (\<lambda>u. state_of u ?ss) urls = map (\<lambda>u. state_of u ss) urls"
    using Cons.prems(1) by (intro map_cong [OF refl] state_of_filter) auto
  moreover have "filter (\<lambda>s. src_url s \<notin> set urls) ?ss = filter (\<lambda>s. src_url s \<notin> set (u # urls)) ss"
    by (simp add: filter_filter conj_commute)
  ultimately show ?case using keep_state_distinct [OF Cons.prems(2)] by simp
qed simp

lemma withdraw_rest:
  "rn_sources (withdraw_source env s r) = rn_sources r"
  "order_ok (rn_registry r) \<Longrightarrow> order_ok (rn_registry (withdraw_source env s r))"
  by (simp_all add: withdraw_source_def Let_def order_remove)

lemma withdraw_fold_rest:
  "rn_sources (fold (withdraw_source env) ss r) = rn_sources r"
  "order_ok (rn_registry r) \<Longrightarrow> order_ok (rn_registry (fold (withdraw_source env) ss r))"
  by (induction ss arbitrary: r) (simp_all add: withdraw_rest)

lemma withdrawn_owner:
  assumes "taken = (\<lambda>n u. \<exists>s\<in>set ss. withdraws s n u)"
  shows "owner (fold (withdraw_source env) ss r) n = (case owner r n of None \<Rightarrow> None | Some u \<Rightarrow> if taken n u then None else Some u)"
    and "doc_owner (fold (withdraw_source env) ss r) n = (case doc_owner r n of None \<Rightarrow> None | Some u \<Rightarrow> if taken n u then None else Some u)"
  using assms by (auto simp: owner_def doc_owner_def registered.look_fold documented.look_fold split: option.splits)

lemma configured_distinct: "validate_cassette_sources env urls = None \<Longrightarrow> distinct urls"
  by (rule repeated_nowhere [of _ "\<lambda>i. indexed ''cassettes'' i []" "''duplicates ''"])
    (auto simp: validate_cassette_sources_def Let_def split: if_splits)

lemma set_sources_ok:
  assumes f: "fleet_ok env r" and d: "distinct urls"
  shows "fleet_ok env (set_sources env urls r)"
proof -
  let ?ss = "rn_sources r"
  let ?kept = "map (\<lambda>u. state_of u ?ss) urls"
  let ?gone = "filter (\<lambda>s. src_url s \<notin> set urls) ?ss"
  let ?r1 = "r\<lparr>rn_sources := ?kept\<rparr>"
  let ?r = "set_sources env urls r"
  let ?taken = "\<lambda>n u. \<exists>s\<in>set ?gone. withdraws s n u"
  have ss: "sources_ok ?ss" using f by (simp add: fleet_ok_def)
  then have r: "?r = fold (withdraw_source env) ?gone ?r1"
    using next_states_distinct [OF d] by (simp add: set_sources_def sources_ok_def filter_filter)
  have src: "rn_sources ?r = ?kept" by (simp add: r withdraw_fold_rest)
  have own: "owner ?r n = (case owner r n of None \<Rightarrow> None | Some u \<Rightarrow> if ?taken n u then None else Some u)"
    and down: "doc_owner ?r n = (case doc_owner r n of None \<Rightarrow> None | Some u \<Rightarrow> if ?taken n u then None else Some u)" for n
    unfolding r using withdrawn_owner [OF refl, where ss = ?gone and env = env and r = ?r1 and n = n] by (simp_all add: owner_def doc_owner_def)
  show ?thesis unfolding fleet_ok_def
  proof (intro conjI allI impI)
    show "order_ok (rn_registry ?r)" unfolding r using f by (intro withdraw_fold_rest) (simp add: fleet_ok_def)
    have "src_resolved (state_of u ?ss) = (src_name (state_of u ?ss) \<noteq> []) \<and> (src_resolved (state_of u ?ss) \<or> src_etag (state_of u ?ss) = [])" for u
      using ss by (auto simp: state_of_def fresh_source_def sources_ok_def list_all_iff find_Some_iff split: option.splits)
    then show "sources_ok (rn_sources ?r)" using d unfolding src sources_ok_def by (simp add: list_all_iff comp_def) blast
    show "owner ?r n = doc_owner ?r n" for n unfolding own down using f by (simp add: fleet_ok_def)
    show "instance_ok env n i" if "rg_instances (rn_registry ?r) n = Some i" for n i
    proof -
      have "rg_instances (rn_registry r) n = Some i"
        using that unfolding r registered.look_fold by (auto split: option.splits if_splits)
      then show ?thesis using f unfolding fleet_ok_def by blast
    qed
    show "entry_ok env n e" if "rn_specs ?r n = Some e" for n e
    proof -
      have "rn_specs r n = Some e" using that unfolding r documented.look_fold by (auto split: option.splits if_splits)
      then show ?thesis using f unfolding fleet_ok_def by blast
    qed
    show "\<exists>s\<in>set (rn_sources ?r). src_url s = u \<and> src_name s = n" if "owner ?r n = Some u" for n u
    proof -
      have o: "owner r n = Some u" "\<not> ?taken n u" using that by (auto simp: own split: option.splits if_splits)
      then obtain s where s: "s \<in> set ?ss" "src_url s = u" "src_name s = n" using f unfolding fleet_ok_def by blast
      obtain i where "rg_instances (rn_registry r) n = Some i" using o(1) by (auto simp: owner_def)
      then have "instance_ok env n i" using f unfolding fleet_ok_def by blast
      then have "n \<noteq> []" using name_nonempty by (simp add: instance_ok_def)
      then have "u \<in> set urls" using o(2) s by (auto simp: withdraws_def)
      moreover have "state_of u ?ss = s"
      proof -
        have "find (\<lambda>s. src_url s = u) ?ss = Some s"
          using ss s by (auto simp: find_Some_iff in_set_conv_nth sources_ok_def distinct_conv_nth)
        then show ?thesis by (simp add: state_of_def)
      qed
      ultimately show ?thesis unfolding src using s by force
    qed
  qed
qed

lemma reached_ok:
  assumes "origins_accepted env" "runner_reached env r"
  shows "fleet_ok env r"
  using assms(2) unfolding runner_reached_def
proof (induction rule: rtranclp_induct)
  case base
  then show ?case by (rule fleet_new)
next
  case (step r r')
  from step(2,3) show ?case
    by (cases rule: runner_step.cases) (auto intro: refresh_ok assms(1) set_sources_ok configured_distinct)
qed

end
