(* ===== verification/CassettePriority.thy ===== *)
theory CassettePriority
  imports CassetteFleet
begin

text \<open>
  One pass over sources that answer steadily decides every name by the order of the configuration.
\<close>

subsection \<open>Steady sources\<close>

text \<open>What a source with this body offers, whoever else offers it.\<close>

definition offer :: "run_env \<Rightarrow> string \<Rightarrow> string \<Rightarrow> (cas_instance \<times> publication) option" where
  "offer env body u =
     (case source_origin (base_env env) u of
        Inl _ \<Rightarrow> None
      | Inr origin \<Rightarrow>
          (case (if max_spec_bytes < int (length body) then Inl NotJson else parse_document (re_codec env) body) of
             Inl _ \<Rightarrow> None
           | Inr d \<Rightarrow>
               (case admit env d of
                  Inl _ \<Rightarrow> None
                | Inr m \<Rightarrow>
                    (case manifest_digest (re_sha env) (re_canon_text env) m of
                       Inl _ \<Rightarrow> None
                     | Inr digest \<Rightarrow>
                         (let inst = \<lparr>in_name = id_name (mf_cassette m), in_manifest = m, in_digest = digest, in_url = origin,
                                      in_anchors = manifest_anchors m, in_source = u, in_tools = []\<rparr>
                          in case republish env d inst of Inl _ \<Rightarrow> None | Inr p \<Rightarrow> Some (inst\<lparr>in_tools := pn_tools p\<rparr>, p))))))"

text \<open>Every source has one document and its validator.\<close>

type_synonym web = "string \<Rightarrow> string \<times> string"

definition steady_network :: "web \<Rightarrow> network" where
  "steady_network web u tag =
     (if tag \<noteq> [] \<and> tag = snd (web u) then Answer 304 tag None else Answer 200 (snd (web u)) (Some (fst (web u))))"

definition offered_name :: "run_env \<Rightarrow> web \<Rightarrow> string \<Rightarrow> string option" where
  "offered_name env web u = map_option (\<lambda>(i, _). in_name i) (offer env (fst (web u)) u)"

definition steady :: "run_env \<Rightarrow> web \<Rightarrow> source_state \<Rightarrow> bool" where
  "steady env web s =
     (case offered_name env web (src_url s) of None \<Rightarrow> False | Some n \<Rightarrow> if src_resolved s then src_name s = n else True)"

lemma offer_steps:
  assumes "offer env body u = Some (inst, p)"
  obtains origin d where "source_origin (base_env env) u = Inr origin" "int (length body) \<le> max_spec_bytes"
    "parse_document (re_codec env) body = Inr d"
    "\<forall>i r. src_url (rn_sources r ! i) = u \<longrightarrow>
        (src_resolved (rn_sources r ! i) \<longrightarrow> src_name (rn_sources r ! i) = in_name inst) \<longrightarrow>
        candidate env origin i d r = (case check_priority (in_name inst) u i r of Some e \<Rightarrow> Inl e | None \<Rightarrow> Inr (inst, p))"
proof -
  obtain origin d m dg where o: "source_origin (base_env env) u = Inr origin" and l: "int (length body) \<le> max_spec_bytes"
    and d: "parse_document (re_codec env) body = Inr d" and m: "admit env d = Inr m"
    and dg: "manifest_digest (re_sha env) (re_canon_text env) m = Inr dg"
    using assms by (auto simp: offer_def split: sum.splits if_splits)
  let ?inst = "\<lparr>in_name = id_name (mf_cassette m), in_manifest = m, in_digest = dg, in_url = origin,
      in_anchors = manifest_anchors m, in_source = u, in_tools = []\<rparr>"
  have rp: "republish env d ?inst = Inr p" and i: "inst = ?inst\<lparr>in_tools := pn_tools p\<rparr>"
    using assms l by (auto simp: offer_def o d m dg Let_def split: sum.splits)
  have "candidate env origin k d r = (case check_priority (in_name inst) u k r of Some e \<Rightarrow> Inl e | None \<Rightarrow> Inr (inst, p))"
    if "src_url (rn_sources r ! k) = u" "src_resolved (rn_sources r ! k) \<longrightarrow> src_name (rn_sources r ! k) = in_name inst" for k r
    using that by (auto simp: candidate_def m dg rp i Let_def split: option.splits)
  then show ?thesis using that [OF o l d] by blast
qed

lemma offer_source: "offer env body u = Some (inst, p) \<Longrightarrow> in_source inst = u"
  by (auto simp: offer_def Let_def split: sum.splits if_splits)

text \<open>A step of the pass: the source is revalidated, refused for an earlier one, or takes the name.\<close>

lemma refresh_steady_cases [consumes 4]:
  assumes f: "fleet_ok env r" and k: "i < length (rn_sources r)" and st: "steady env web (rn_sources r ! i)"
    and n: "offered_name env web (src_url (rn_sources r ! i)) = Some n"
  obtains (valid) "currently_published (rn_sources r ! i) r"
      "refresh_source env (steady_network web) i r = (mark_source_fresh env i r, None)"
  | (refused) e where "check_priority n (src_url (rn_sources r ! i)) i r = Some e"
      "refresh_source env (steady_network web) i r = (fail_source env i e r, Some e)"
  | (taken) inst p origin d where "check_priority n (src_url (rn_sources r ! i)) i r = None" "in_name inst = n"
      "candidate env origin i d r = Inr (inst, p)" "source_origin (base_env env) (src_url (rn_sources r ! i)) = Inr origin"
      "refresh_source env (steady_network web) i r = publish_instance env i (snd (web (src_url (rn_sources r ! i)))) inst p r"
proof -
  let ?s = "rn_sources r ! i"
  let ?u = "src_url ?s"
  let ?tag = "validator_for ?s r"
  obtain inst p where o: "offer env (fst (web ?u)) ?u = Some (inst, p)" and inst: "in_name inst = n"
    using n by (auto simp: offered_name_def)
  obtain origin d where org: "source_origin (base_env env) ?u = Inr origin" and len: "int (length (fst (web ?u))) \<le> max_spec_bytes"
    and d: "parse_document (re_codec env) (fst (web ?u)) = Inr d"
    and cand: "\<forall>i r. src_url (rn_sources r ! i) = ?u \<longrightarrow>
        (src_resolved (rn_sources r ! i) \<longrightarrow> src_name (rn_sources r ! i) = in_name inst) \<longrightarrow>
        candidate env origin i d r = (case check_priority (in_name inst) ?u i r of Some e \<Rightarrow> Inl e | None \<Rightarrow> Inr (inst, p))"
    by (rule offer_steps [OF o])
  have pin: "src_resolved ?s \<longrightarrow> src_name ?s = in_name inst" using st n inst by (auto simp: steady_def split: if_splits)
  have c: "candidate env origin i d r = (case check_priority n ?u i r of Some e \<Rightarrow> Inl e | None \<Rightarrow> Inr (inst, p))"
    using cand [rule_format, of r i] pin inst by simp
  show ?thesis
  proof (cases "?tag \<noteq> [] \<and> ?tag = snd (web ?u)")
    case True
    have "src_resolved ?s \<or> src_etag ?s = []" using f k by (auto simp: fleet_ok_def sources_ok_def list_all_length)
    then have "currently_published ?s r" using True by (auto simp: validator_for_def split: if_splits)
    moreover have "steady_network web ?u ?tag = Answer 304 ?tag None" unfolding steady_network_def using True by argo
    ultimately have "refresh_source env (steady_network web) i r = (mark_source_fresh env i r, None)"
      by (simp add: refresh_source_def Let_def org fetch_source_def)
    with \<open>currently_published ?s r\<close> show ?thesis by (rule valid)
  next
    case False
    have "fetch_source env (steady_network web ?u ?tag) ?tag =
        Inr \<lparr>ft_document = Some d, ft_etag = snd (web ?u), ft_not_modified = False\<rparr>"
      using False len by (simp add: steady_network_def fetch_source_def d)
    then have r: "refresh_source env (steady_network web) i r =
        (case candidate env origin i d r of Inl e \<Rightarrow> (fail_source env i e r, Some e)
         | Inr (inst, p) \<Rightarrow> publish_instance env i (snd (web ?u)) inst p r)"
      by (simp add: refresh_source_def Let_def org split: sum.split)
    show ?thesis
    proof (cases "check_priority n ?u i r")
      case None
      then show ?thesis using taken [OF None inst _ org] r c by simp
    next
      case (Some e)
      then show ?thesis using refused [OF Some] r c by simp
    qed
  qed
qed

lemma steady_pinned: "pinned s = pinned s' \<Longrightarrow> steady env web s = steady env web s'"
  by (auto simp: steady_def pinned_def split: option.splits)

lemma same_fleet_pinned: "same_fleet r r' \<Longrightarrow> map pinned (rn_sources r') = map pinned (rn_sources r)"
  by (simp add: same_fleet_def)

lemma list_all_steady_pinned:
  "map pinned ss = map pinned ss' \<Longrightarrow> list_all (steady env web) ss = list_all (steady env web) ss'"
proof (induction ss arbitrary: ss')
  case (Cons s ss)
  then obtain s' rest where "ss' = s' # rest" "pinned s = pinned s'" "map pinned ss = map pinned rest" by (cases ss') auto
  then show ?case using Cons.IH [of rest] steady_pinned [of s s'] by simp
qed simp

subsection \<open>The pass\<close>

lemma owner_pinned:
  assumes "fleet_ok env r" "owner r n = Some u"
  obtains j where "j < length (rn_sources r)" "src_url (rn_sources r ! j) = u" "src_name (rn_sources r ! j) = n"
    "src_resolved (rn_sources r ! j)"
proof -
  obtain s where s: "s \<in> set (rn_sources r)" "src_url s = u" "src_name s = n" using assms unfolding fleet_ok_def by blast
  obtain x where "rg_instances (rn_registry r) n = Some x" using assms(2) by (auto simp: owner_def)
  then have "instance_ok env n x" using assms(1) unfolding fleet_ok_def by blast
  then have "n \<noteq> []" using name_nonempty by (simp add: instance_ok_def)
  then have "src_resolved s" using assms(1) s by (auto simp: fleet_ok_def sources_ok_def list_all_iff)
  then show ?thesis using that s by (auto simp: in_set_conv_nth)
qed

lemma source_index_at:
  assumes "sources_ok (rn_sources r)" "j < length (rn_sources r)"
  shows "source_index (src_url (rn_sources r ! j)) r = Some j"
  unfolding source_index_def find_Some_iff
  using assms by (intro exI [of _ j]) (auto simp: sources_ok_def distinct_conv_nth)

text \<open>Who refuses a source: an owner that is configured earlier.\<close>

lemma check_priority_owner:
  assumes f: "fleet_ok env r" and i: "i < length (rn_sources r)"
  shows "check_priority n (src_url (rn_sources r ! i)) i r = None \<longleftrightarrow>
    (case owner r n of None \<Rightarrow> True | Some w \<Rightarrow> w \<notin> set (take i (map src_url (rn_sources r))))"
proof (cases "rg_instances (rn_registry r) n")
  case None
  then show ?thesis by (simp add: check_priority_def owner_def)
next
  case (Some x)
  then have o: "owner r n = Some (in_source x)" by (simp add: owner_def)
  obtain j where j: "j < length (rn_sources r)" "src_url (rn_sources r ! j) = in_source x" by (rule owner_pinned [OF f o])
  have ss: "sources_ok (rn_sources r)" using f by (simp add: fleet_ok_def)
  have d: "distinct (map src_url (rn_sources r))" using ss by (simp add: sources_ok_def)
  have "source_index (in_source x) r = Some j" using source_index_at [OF ss j(1)] j(2) by simp
  moreover have "in_source x = src_url (rn_sources r ! i) \<longleftrightarrow> j = i"
    using d i j by (metis length_map nth_eq_iff_index_eq nth_map)
  moreover have "in_source x \<in> set (take i (map src_url (rn_sources r))) \<longleftrightarrow> j < i"
  proof
    assume "in_source x \<in> set (take i (map src_url (rn_sources r)))"
    then obtain k where "k < i" "map src_url (rn_sources r) ! k = in_source x" "k < length (rn_sources r)"
      by (auto simp: in_set_conv_nth)
    then show "j < i" using d j by (metis length_map nth_eq_iff_index_eq nth_map)
  next
    assume "j < i"
    then have "take i (map src_url (rn_sources r)) ! j = in_source x" "j < length (take i (map src_url (rn_sources r)))"
      using i j by simp_all
    then show "in_source x \<in> set (take i (map src_url (rn_sources r)))" by (metis nth_mem)
  qed
  ultimately show ?thesis using Some o by (auto simp: check_priority_def)
qed

lemma refresh_steady:
  assumes oa: "origins_accepted env" and f: "fleet_ok env r" and i: "i < length (rn_sources r)"
    and st: "list_all (steady env web) (rn_sources r)" and n: "offered_name env web (src_url (rn_sources r ! i)) = Some n"
  defines "r' \<equiv> fst (refresh_source env (steady_network web) i r)"
  shows "owner r' m = (if m = n \<and> check_priority n (src_url (rn_sources r ! i)) i r = None
      then Some (src_url (rn_sources r ! i)) else owner r m) \<and> list_all (steady env web) (rn_sources r')"
proof -
  let ?s = "rn_sources r ! i"
  have si: "steady env web ?s" using st i by (simp add: list_all_length)
  show ?thesis
    using f i si n
  proof (cases rule: refresh_steady_cases)
    case valid
    have "src_resolved ?s" "owner r (src_name ?s) = Some (src_url ?s)"
      using valid(1) by (auto simp: currently_published_def owner_def split: option.splits)
    moreover from this(1) have "src_name ?s = n" using si n by (simp add: steady_def)
    ultimately have o: "owner r n = Some (src_url ?s)" by simp
    have r': "r' = mark_source_fresh env i r" by (simp add: r'_def valid(2))
    show ?thesis
      using o same_fleet_owner [OF mark_source_fresh_same [of r env i], of m] st
        list_all_steady_pinned [OF same_fleet_pinned [OF mark_source_fresh_same [of r env i]], of env web]
      by (simp add: r')
  next
    case (refused e)
    have r': "r' = fail_source env i e r" by (simp add: r'_def refused(2))
    show ?thesis
      using refused(1) same_fleet_owner [OF fail_source_same [OF i, of env e], of m] st
        list_all_steady_pinned [OF same_fleet_pinned [OF fail_source_same [OF i, of env e]], of env web]
      by (simp add: r')
  next
    case (taken inst p origin d)
    note c = candidate_Inr [OF taken(3)]
    have chk: "registry_check (base_env env) inst = None" using origin_checked [OF oa taken(4)] c by blast
    let ?tag = "snd (web (src_url ?s))"
    have r': "r' = fst (publish_instance env i ?tag inst p r)" by (simp add: r'_def taken(5))
    have o: "owner r' m = (if m = in_name inst then Some (in_source inst) else owner r m)"
      and pins: "map pinned (rn_sources r') = (map pinned (rn_sources r))[i := (in_source inst, in_name inst, True, ?tag)]"
      unfolding r' by (rule publish_ok; use f i c chk in blast)+
    have "map pinned (rn_sources r') =
        map pinned ((rn_sources r)[i := ?s\<lparr>src_name := n, src_resolved := True, src_etag := ?tag\<rparr>])"
      unfolding pins using c taken(2) by (simp add: map_update pinned_def)
    moreover have "list_all (steady env web) ((rn_sources r)[i := ?s\<lparr>src_name := n, src_resolved := True, src_etag := ?tag\<rparr>])"
      using st n by (intro list_all_update) (simp_all add: steady_def)
    ultimately have "list_all (steady env web) (rn_sources r')" using list_all_steady_pinned by metis
    then show ?thesis
      using o c taken(1,2) by simp
  qed
qed

lemma refresh_from_append:
  "fst (refresh_from env net (is @ js) r) = fst (refresh_from env net js (fst (refresh_from env net is r)))"
  by (induction "is" arbitrary: r) (simp_all add: Let_def split_beta)

lemma find_take_Suc:
  "k < length xs \<Longrightarrow> find P (take (Suc k) xs) =
    (case find P (take k xs) of Some x \<Rightarrow> Some x | None \<Rightarrow> if P (xs ! k) then Some (xs ! k) else None)"
proof -
  assume "k < length xs"
  then have "take (Suc k) xs = take k xs @ [xs ! k]" by (rule take_Suc_conv_app_nth)
  moreover have "find P (ys @ [y]) = (case find P ys of Some x \<Rightarrow> Some x | None \<Rightarrow> if P y then Some y else None)" for ys y
    by (induction ys) auto
  ultimately show ?thesis by simp
qed

lemma refresh_prefix:
  assumes oa: "origins_accepted env" and f: "fleet_ok env r" and st: "list_all (steady env web) (rn_sources r)"
    and k: "k \<le> length (rn_sources r)"
  defines "us \<equiv> map src_url (rn_sources r)"
  defines "rs \<equiv> \<lambda>k. fst (refresh_from env (steady_network web) [0..<k] r)"
  shows "fleet_ok env (rs k) \<and> map src_url (rn_sources (rs k)) = us \<and> list_all (steady env web) (rn_sources (rs k))
    \<and> owner (rs k) n = (case find (\<lambda>u. offered_name env web u = Some n) (take k us) of Some u \<Rightarrow> Some u | None \<Rightarrow> owner r n)"
  using k
proof (induction k)
  case 0
  then show ?case using f st by (simp add: rs_def us_def)
next
  case (Suc k)
  let ?r = "rs k"
  let ?P = "\<lambda>u. offered_name env web u = Some n"
  have IH: "fleet_ok env ?r" "map src_url (rn_sources ?r) = us" "list_all (steady env web) (rn_sources ?r)"
    "owner ?r n = (case find ?P (take k us) of Some u \<Rightarrow> Some u | None \<Rightarrow> owner r n)"
    using Suc by simp_all
  have len: "length (rn_sources ?r) = length (rn_sources r)" using arg_cong [OF IH(2), of length] by (simp add: us_def)
  have k: "k < length (rn_sources ?r)" "k < length us" using Suc.prems len by (simp_all add: us_def)
  have uk: "src_url (rn_sources ?r ! k) = us ! k" using k(1) IH(2) by (metis nth_map)
  have step: "rs (Suc k) = fst (refresh_source env (steady_network web) k ?r)"
    by (simp add: rs_def refresh_from_append Let_def split_beta)
  obtain m where m: "offered_name env web (us ! k) = Some m"
    using IH(3) k(1) uk by (auto simp: list_all_length steady_def split: option.splits)
  have own: "owner (rs (Suc k)) n = (if n = m \<and> check_priority m (us ! k) k ?r = None then Some (us ! k) else owner ?r n)"
    and st': "list_all (steady env web) (rn_sources (rs (Suc k)))"
    unfolding step using refresh_steady [OF oa IH(1) k(1) IH(3), of m n] m uk by simp_all
  have ok: "fleet_ok env (rs (Suc k))" "map src_url (rn_sources (rs (Suc k))) = us"
    unfolding step using refresh_source_ok [OF oa IH(1) k(1)] IH(2) by auto
  have prio: "check_priority m (us ! k) k ?r = None \<longleftrightarrow> (case owner ?r m of None \<Rightarrow> True | Some w \<Rightarrow> w \<notin> set (take k us))"
    using check_priority_owner [OF IH(1) k(1), of m] unfolding uk IH(2) .
  have earlier: "find ?P (take k us) \<noteq> None" if o: "owner ?r n = Some w" and w: "w \<in> set (take k us)" for w
  proof -
    obtain j where j: "j < length (rn_sources ?r)" "src_url (rn_sources ?r ! j) = w" "src_name (rn_sources ?r ! j) = n"
      "src_resolved (rn_sources ?r ! j)"
      by (rule owner_pinned [OF IH(1) o])
    then have "?P w" using IH(3) by (auto simp: list_all_length steady_def split: option.splits)
    then show ?thesis using w by (auto simp: find_None_iff)
  qed
  have "owner (rs (Suc k)) n = (case find ?P (take (Suc k) us) of Some u \<Rightarrow> Some u | None \<Rightarrow> owner r n)"
  proof (cases "find ?P (take k us)")
    case (Some w)
    then have o: "owner ?r n = Some w" using IH(4) by simp
    have "w \<in> set (take k us)" using Some by (metis find_Some_iff nth_mem)
    then have "n = m \<Longrightarrow> check_priority m (us ! k) k ?r \<noteq> None" using prio o by simp
    then show ?thesis using own o Some find_take_Suc [OF k(2), of ?P] by auto
  next
    case None
    then have fr: "w \<notin> set (take k us)" if "owner ?r n = Some w" for w using earlier that by blast
    then have "n = m \<Longrightarrow> check_priority m (us ! k) k ?r = None" using prio by (auto split: option.splits)
    then show ?thesis using own None IH(4) m find_take_Suc [OF k(2), of ?P] by auto
  qed
  then show ?case using ok st' by blast
qed

end
