(* ===== verification/CassetteDemo.thy ===== *)
theory CassetteDemo
  imports CassettePriority
begin

text \<open>
  A fleet to evaluate on: two sources that offer a cassette of one name.
\<close>

definition demo_url :: "string \<Rightarrow> go_url option" where
  "demo_url u = (if u = ''http://a'' \<or> u = ''http://b''
     then Some \<lparr>gu_scheme = ''http'', gu_user = False, gu_host = drop 7 u, gu_hostname = drop 7 u, gu_path = [], gu_query = [],
       gu_fragment = []\<rparr> else None)"

definition demo_manifest :: manifest where
  "demo_manifest = \<lparr>mf_kind = manifest_kind,
     mf_cassette = \<lparr>id_name = ''demo'', id_version = ''1'', id_display_name = [], id_description = [], id_license = [], id_homepage = [],
       id_image = [], id_port = 0, id_audience = []\<rparr>,
     mf_core = ''v1'', mf_views = [''sessions''], mf_health = [], mf_openapi = [], mf_prefix = [], mf_tables = [], mf_config = [],
     mf_source_digest = []\<rparr>"

definition demo_document :: oas_document where
  "demo_document = [(''x-tapes-cassette'', JStr ''M''), (''paths'', JObj [(''/api/demo/x'', JObj [])])]"

definition demo_env :: run_env where
  "demo_env = \<lparr>ce_quote = (\<lambda>s. s), ce_url = demo_url,
     ce_request_uri = (\<lambda>v. Some \<lparr>gu_scheme = [], gu_user = False, gu_host = [], gu_hostname = [], gu_path = v, gu_query = [], gu_fragment = []\<rparr>),
     ce_duration_ok = (\<lambda>_. True), ce_json_valid = (\<lambda>_. True), re_contracts = [''v1''],
     re_codec = \<lparr>mc_value = (\<lambda>s. Some (if s = ''M'' then JObj [(''kind'', JStr manifest_kind)] else JObj demo_document)),
       mc_strict = (\<lambda>_. Some demo_manifest)\<rparr>,
     re_value_text = (\<lambda>v. case v of JStr s \<Rightarrow> Some s | _ \<Rightarrow> None), re_canon_text = (\<lambda>_. Some ''m''),
     re_document_text = (\<lambda>_. Some ''d''), re_sha = (\<lambda>s. s), re_publishable = (\<lambda>_ _. None), re_tools = (\<lambda>_ _. Inr []),
     re_redacted = (\<lambda>s. s)\<rparr>"

definition demo_web :: web where
  "demo_web u = (''D'', u)"

definition demo_runner :: cas_runner where
  "demo_runner = set_sources demo_env [''http://a'', ''http://b'']
     (fst (refresh demo_env (steady_network demo_web) (set_sources demo_env [''http://b''] new_runner)))"

lemma demo_origins: "origins_accepted demo_env"
  by (auto simp: origins_accepted_def source_origin_def demo_env_def demo_url_def validate_url_def cas_env.defs)

lemma demo_validated: "validate_manifest (base_env demo_env) [''v1''] (apply_defaults demo_manifest) = None" by code_simp

lemma demo_configured:
  "validate_cassette_sources (base_env demo_env) [''http://b''] = None"
  "validate_cassette_sources (base_env demo_env) [''http://a'', ''http://b''] = None"
  by code_simp+

lemma demo_reached: "runner_reached demo_env demo_runner"
  unfolding runner_reached_def demo_runner_def
  by (rule rtranclp.rtrancl_into_rtrancl, rule rtranclp.rtrancl_into_rtrancl, rule rtranclp.rtrancl_into_rtrancl, rule rtranclp.rtrancl_refl)
    (rule configure demo_configured pass)+

lemma demo_offered: "offered_name demo_env demo_web ''http://a'' = Some ''demo''" "offered_name demo_env demo_web ''http://b'' = Some ''demo''"
  by code_simp+

lemma demo_owner: "owner demo_runner ''demo'' = Some ''http://b''" by code_simp

lemma demo_sources: "map src_url (rn_sources demo_runner) = [''http://a'', ''http://b'']" "list_all (steady demo_env demo_web) (rn_sources demo_runner)"
  by code_simp+
end
