(* ===== verification/CassetteFacts.thy ===== *)
theory CassetteFacts
  imports CassetteDemo
begin

text \<open>
  What clients of the cassette surface may rely on: a discovered cassette has its document, the order of the
  configuration decides between sources of one name, a published path is routed to the cassette that declared it,
  and what a manifest grants.
\<close>

subsection \<open>What is discovered is served\<close>

lemma named_instances:
  "\<forall>n\<in>set ns. \<exists>i. f n = Some i \<and> in_name i = n \<Longrightarrow> map in_name (List.map_filter f ns) = ns"
  by (induction ns) (auto simp: List.map_filter_def)

lemma insort_key_names: "map f (insort_key f x xs) = insort (f x) (map f xs)"
  by (induction xs) auto

lemma sort_key_names: "map f (sort_key f xs) = sort (map f xs)"
  by (induction xs) (simp_all add: insort_key_names)

lemma instances_in_order_names:
  assumes "fleet_ok env r"
  shows "map in_name (instances_in_order (rn_registry r)) = sort (rg_order (rn_registry r))"
    and "i \<in> set (instances_in_order (rn_registry r)) \<Longrightarrow> rg_instances (rn_registry r) (in_name i) = Some i"
    and "rg_instances (rn_registry r) n = Some i \<Longrightarrow> i \<in> set (instances_in_order (rn_registry r))"
proof -
  let ?g = "rn_registry r"
  have dom: "set (rg_order ?g) = dom (rg_instances ?g)" using assms by (simp add: fleet_ok_def order_ok_def)
  have nm: "in_name i = n" if "rg_instances ?g n = Some i" for n i
    using assms that unfolding fleet_ok_def instance_ok_def by blast
  have "map in_name (List.map_filter (rg_instances ?g) (rg_order ?g)) = rg_order ?g"
    using dom nm by (intro named_instances) blast
  then show "map in_name (instances_in_order ?g) = sort (rg_order ?g)"
    by (simp add: instances_in_order_def sort_key_names)
  have mem: "set (instances_in_order ?g) = {i. \<exists>n\<in>set (rg_order ?g). rg_instances ?g n = Some i}"
    by (force simp: instances_in_order_def List.map_filter_def image_iff)
  show "rg_instances ?g (in_name i) = Some i" if "i \<in> set (instances_in_order ?g)" using that nm unfolding mem by blast
  show "i \<in> set (instances_in_order ?g)" if "rg_instances ?g n = Some i" using that dom unfolding mem by blast
qed

lemma served_spec:
  assumes "fleet_ok env r" "rg_instances (rn_registry r) n = Some i"
  obtains d e where "rn_specs r n = Some e" "sc_document e = Some d" "sc_digest e = ''sha256:'' @ re_sha env d" "sc_source e = in_source i"
proof -
  have "owner r n = doc_owner r n" using assms(1) unfolding fleet_ok_def by blast
  then have "doc_owner r n = Some (in_source i)" by (simp add: owner_def assms(2))
  then obtain e where e: "rn_specs r n = Some e" "sc_source e = in_source i" by (auto simp: doc_owner_def)
  then have "entry_ok env n e" using assms(1) unfolding fleet_ok_def by blast
  then show ?thesis using that e by (auto simp: entry_ok_def split: option.splits)
qed

text \<open>A cached document is fresh or stale.\<close>

definition known_status :: "spec_cache \<Rightarrow> bool" where
  "known_status c \<longleftrightarrow> (\<forall>n e. c n = Some e \<longrightarrow> sc_status e \<noteq> Missing)"

lemma known_status_steps [simp]:
  "known_status c \<Longrightarrow> known_status (cache_publish n p u c)"
  "known_status c \<Longrightarrow> known_status (cache_evict n c)"
  "known_status c \<Longrightarrow> known_status (cache_mark_fresh n u c)"
  "known_status c \<Longrightarrow> known_status (cache_mark_stale n u e c)"
  by (auto simp: known_status_def cache_publish_def cache_evict_def cache_mark_fresh_def cache_mark_stale_def split: option.splits)

lemma known_fail [simp]: "known_status (rn_specs r) \<Longrightarrow> known_status (rn_specs (fail_source env i e r))"
  by (simp add: fail_source_def Let_def upd_source_def)

lemma known_refresh_source:
  assumes "origins_accepted env" "known_status (rn_specs r)"
  shows "known_status (rn_specs (fst (refresh_source env net i r)))"
  using assms(1)
proof (cases rule: refresh_source_cases [where net = net and i = i and r = r])
  case (published inst p etag d origin)
  then show ?thesis using assms(2)
    by (simp add: publish_instance_def registry_put_def resolve_source_def upd_source_def Let_def)
qed (use assms(2) in \<open>simp_all add: mark_source_fresh_def upd_source_def Let_def\<close>)

lemma known_refresh_from:
  "origins_accepted env \<Longrightarrow> known_status (rn_specs r) \<Longrightarrow> known_status (rn_specs (fst (refresh_from env net is r)))"
  by (induction "is" arbitrary: r) (simp_all add: Let_def split_beta known_refresh_source)

lemma known_set_sources: "known_status (rn_specs r) \<Longrightarrow> known_status (rn_specs (set_sources env urls r))"
  unfolding known_status_def set_sources_def split_beta documented.look_fold Let_def by (auto split: option.splits if_splits)

lemma reached_known:
  assumes "origins_accepted env" "runner_reached env r"
  shows "known_status (rn_specs r)"
  using assms(2) unfolding runner_reached_def
proof (induction rule: rtranclp_induct)
  case (step r r')
  from step(2) step.IH assms(1) show ?case
    by (cases rule: runner_step.cases) (simp_all add: refresh_def known_refresh_from known_set_sources)
qed (simp add: known_status_def new_runner_def)



subsection \<open>Who serves a name\<close>



subsection \<open>Where a path goes\<close>

lemma public_prefix_cover:
  assumes "segment_prefix (public_prefix n) p" "name_pattern n"
  obtains r where "p = public_prefix n @ r" "r = [] \<or> hd r = CHR ''/''"
  using segment_prefix_split [OF assms(1) last_public_prefix [OF assms(2)]] by blast

lemma find_SomeD: "find P xs = Some x \<Longrightarrow> P x \<and> x \<in> set xs"
  by (induction xs) (auto split: if_splits)

lemma lookup_unique:
  assumes f: "fleet_ok env r" and i: "i \<in> set (instances_in_order (rn_registry r))" and p: "segment_prefix (instance_prefix i) path"
  shows "registry_lookup path (rn_registry r) = Some (i, to_local i path)"
proof -
  let ?is = "instances_in_order (rn_registry r)"
  let ?P = "\<lambda>i. segment_prefix (instance_prefix i) path \<and> rg_instances (rn_registry r) (in_name i) \<noteq> None"
  have reg: "rg_instances (rn_registry r) (in_name x) = Some x" if "x \<in> set ?is" for x
    by (rule instances_in_order_names(2) [OF f that])
  have nm: "name_pattern (in_name x)" if "x \<in> set ?is" for x
    using f reg [OF that] unfolding fleet_ok_def instance_ok_def by blast
  have "x = i" if x: "x \<in> set ?is" and px: "segment_prefix (instance_prefix x) path" for x
  proof -
    have "in_name x = in_name i"
      by (rule covering_prefix_unique [OF px [unfolded instance_prefix_def] p [unfolded instance_prefix_def] nm [OF x] nm [OF i]])
    then show ?thesis using reg [OF x] reg [OF i] by (metis option.inject)
  qed
  moreover have "?P i" using p reg [OF i] by simp
  then have "find ?P ?is \<noteq> None" using i unfolding find_None_iff by blast
  then obtain j where j: "find ?P ?is = Some j" by blast
  moreover have "j \<in> set ?is" "segment_prefix (instance_prefix j) path" using find_SomeD [OF j] by blast+
  ultimately have "find ?P ?is = Some i" by metis
  then show ?thesis by (simp add: registry_lookup_def reg [OF i])
qed

text \<open>A refused path refuses the document; otherwise every path is moved, and moved back when it is forwarded.\<close>

lemma republish_moves:
  assumes "republish env d i = Inr p" "name_pattern (in_name i)"
  obtains m where "declared_paths d = Some m" "declared_paths (pn_parsed p) = Some (map (moved (local_prefix i) (instance_prefix i)) m)"
    "list_all (\<lambda>(q, _). segment_prefix (local_prefix i) q \<and> to_public i q = fst (moved (local_prefix i) (instance_prefix i) (q, JNull))
       \<and> to_local i (to_public i q) = q) m"
proof -
  have r: "rewrite_prefix (local_prefix i) (instance_prefix i) d = Inr (pn_parsed p)"
    using assms(1) by (auto simp: republish_def and_then_Inr split: option.splits)
  obtain m where m: "declared_paths d = Some m" "declared_paths (pn_parsed p) = Some (map (moved (local_prefix i) (instance_prefix i)) m)"
    "list_all (\<lambda>(q, _). \<exists>r. q = local_prefix i @ r \<and> (r = [] \<or> hd r = CHR ''/'')) m"
    by (rule rewrite_paths [OF r last_local_prefix [OF assms(2)]])
  have "segment_prefix (local_prefix i) q \<and> to_public i q = fst (moved (local_prefix i) (instance_prefix i) (q, JNull))
      \<and> to_local i (to_public i q) = q" if "(q, v) \<in> set m" for q v
  proof -
    have "\<exists>r. q = local_prefix i @ r \<and> (r = [] \<or> hd r = CHR ''/'')"
      using bspec [OF m(3) [unfolded list_all_iff] that] by simp
    then obtain r where "q = local_prefix i @ r" "r = [] \<or> hd r = CHR ''/''" by blast
    then show ?thesis
      using segment_prefix_join [OF last_local_prefix [OF assms(2)]] by (simp add: to_public_def to_local_def moved_def)
  qed
  then show ?thesis using that m(1,2) by (auto simp: list_all_iff)
qed



subsection \<open>Limits\<close>

text \<open>Servers are removed from a path item and its operations only; those of a path item inside a callback stay.\<close>

lemma callback_servers_survive:
  "strip_nested_servers (JObj [(''post'', JObj [(''callbacks'', JObj [(''done'', JObj [(''{$url}'', JObj [(''servers'', s)])])])])])
   = JObj [(''post'', JObj [(''callbacks'', JObj [(''done'', JObj [(''{$url}'', JObj [(''servers'', s)])])])])]"
  by (simp add: strip_nested_servers_def without_servers_def)

text \<open>A failed registration drops the document of whoever held the name: it stays registered without one.\<close>

lemma failed_registration_loses_document:
  assumes "registry_check (base_env env) inst = Some e" "rg_instances (rn_registry r) (in_name inst) = Some other"
    "parse_name (base_env env) (in_name inst) = Inr (in_name inst)"
  shows "handle_cassette_spec (base_env env) (in_name inst) tag (fst (publish_instance env i etag inst p r)) = Problem 503 ''spec_unavailable''"
proof -
  let ?c = "cache_evict (in_name inst) (cache_publish (in_name inst) p (in_source inst) (rn_specs r))"
  have "cache_spec (in_name inst) (rn_specs (fst (publish_instance env i etag inst p r))) = None"
    using assms(1) by (auto simp: publish_instance_def registry_put_def fail_source_def upd_source_def Let_def cache_spec_def cache_evict_def
        cache_mark_stale_def split: option.splits)
  moreover have "rg_instances (rn_registry (fst (publish_instance env i etag inst p r))) (in_name inst) = Some other"
    using assms(1,2) by (simp add: publish_instance_def registry_put_def fail_source_def upd_source_def Let_def)
  ultimately show ?thesis using assms(3) by (simp add: handle_cassette_spec_def)
qed

end
