(* ===== verification/RawEquiv.thy ===== *)
theory RawEquiv
  imports RawReduce CassetteManifest
begin

text \<open>
  The proof that stored bytes reduce to the stored reduction: \<open>pkg/rawequiv\<close>, over the server-side reduction of
  \<open>RawReduce\<close>.

  The tolerated fields and their pruning, the bounded structural difference of two decoded trees and its rendering,
  the verdict of a row, and the report. A decoded object is an association list read by \<open>map_of\<close>. The JSON
  encoder and decoders, quoting, the digest and the shortest form of a float are parameters.
\<close>

record equiv_env =
  qe_reducers :: reducer_env
  qe_marshal :: "chat_response \<Rightarrow> gotime option \<Rightarrow> string + string" \<comment> \<open>the error text, or the bytes\<close>
  qe_decode :: "string \<Rightarrow> string + jval" \<comment> \<open>into \<open>any\<close>\<close>
  qe_response :: "string \<Rightarrow> string + chat_response" \<comment> \<open>into a \<open>ChatResponse\<close>\<close>
  qe_quote :: "string \<Rightarrow> string"
  qe_sha4 :: "string \<Rightarrow> string" \<comment> \<open>the first four bytes of the SHA-256, in hexadecimal\<close>
  qe_float :: "rat \<Rightarrow> string"
  qe_error :: "reduction_failure \<Rightarrow> string"

subsection \<open>The tolerated fields\<close>

definition tolerable_fields :: "string list list" where
  "tolerable_fields = [[''created_at''], [''usage'', ''total_duration_ns'']]"

definition without_key :: "string \<Rightarrow> jobj \<Rightarrow> jobj" where
  "without_key k m = filter (\<lambda>(k', _). k' \<noteq> k) m"

fun prune :: "string list \<Rightarrow> jval \<Rightarrow> jval" where
  "prune [] v = v"
| "prune [k] (JObj m) = JObj (without_key k m)"
| "prune (k # ks) (JObj m) = JObj (map (\<lambda>(k', v). (k', if k' = k then prune ks v else v)) m)"
| "prune ks v = v"

definition drop_empty_object :: "string \<Rightarrow> jval \<Rightarrow> jval" where
  "drop_empty_object k v =
     (case v of
        JObj m \<Rightarrow> (case map_of m k of Some (JObj []) \<Rightarrow> JObj (without_key k m) | _ \<Rightarrow> v)
      | _ \<Rightarrow> v)"

text \<open>What \<open>compare\<close> keeps of a tree.\<close>

definition comparable :: "jval \<Rightarrow> jval" where
  "comparable v = drop_empty_object ''usage'' (fold prune tolerable_fields v)"

subsection \<open>Rendering\<close>

datatype diff_kind = MissingInRecomputed | MissingInStored | TypeMismatch | ValueMismatch | LengthMismatch

record field_diff =
  fd_path :: string
  fd_kind :: diff_kind
  fd_stored :: string
  fd_recomputed :: string

definition safe_paths :: "string list" where
  "safe_paths =
     [''model'', ''stop_reason'', ''done'', ''message.role'', ''message.content[].type'', ''extra.type'',
      ''extra.status'', ''extra.object'', ''extra.id'', ''extra.incomplete'', ''extra.partial'',
      ''message.content[].name'', ''message.content[].tool_use_id'']"

function normalize_path :: "string \<Rightarrow> string" where
  "normalize_path [] = []"
| "normalize_path (c # cs) =
     (if c \<noteq> CHR ''['' then c # normalize_path cs
      else if CHR '']'' \<notin> set cs then c # normalize_path cs
      else ''[]'' @ normalize_path (tl (dropWhile (\<lambda>d. d \<noteq> CHR '']'') cs)))"
  by pat_completeness auto
termination
  by (relation "measure length") (auto simp: less_Suc_eq_le intro: le_trans [OF diff_le_self length_dropWhile_le])

definition object_keys :: "jobj \<Rightarrow> string list" where
  "object_keys m = sort (remdups (map fst m))"

definition render :: "equiv_env \<Rightarrow> string \<Rightarrow> jval \<Rightarrow> string" where
  "render env path v =
     (case v of
        JNull \<Rightarrow> ''null''
      | JBool b \<Rightarrow> (if b then ''true'' else ''false'')
      | JNum x \<Rightarrow> (if x = of_int \<lfloor>x\<rfloor> \<and> \<bar>x\<bar> < 10 ^ 15 then int_text \<lfloor>x\<rfloor> else qe_float env x)
      | JStr s \<Rightarrow>
          (if normalize_path path \<in> set safe_paths then qe_quote env s
           else ''string(len='' @ itoa (length s) @ '',sha256='' @ qe_sha4 env s @ '')'')
      | JArr xs \<Rightarrow> ''array(len='' @ itoa (length xs) @ '')''
      | JObj m \<Rightarrow> ''object(keys=['' @ go_join (object_keys m) '' '' @ ''])'')"

definition json_type :: "jval \<Rightarrow> string" where
  "json_type v =
     (case v of JNull \<Rightarrow> ''null'' | JBool _ \<Rightarrow> ''bool'' | JNum _ \<Rightarrow> ''number'' | JStr _ \<Rightarrow> ''string''
      | JArr _ \<Rightarrow> ''array'' | JObj _ \<Rightarrow> ''object'')"

subsection \<open>The differ\<close>

definition child_path :: "string \<Rightarrow> string \<Rightarrow> string" where
  "child_path path k = (if path \<noteq> [] then path @ ''.'' @ k else k)"

lemma size_map_of: "map_of m k = Some v \<Longrightarrow> size v \<le> size_list (size_prod (\<lambda>_. 0) size) m"
  by (induction m) (auto split: if_splits)

lemma size_mem: "x \<in> set xs \<Longrightarrow> size x \<le> size_list size xs"
  by (induction xs) auto

lemma size_nth: "i < length xs \<Longrightarrow> size (xs ! i) \<le> size_list size xs"
  by (simp add: size_mem)

function diff_values ::
  "equiv_env \<Rightarrow> nat \<Rightarrow> string \<Rightarrow> jval \<Rightarrow> jval \<Rightarrow> field_diff list \<Rightarrow> field_diff list"
where
  "diff_values env limit path s r out =
     (if limit \<le> length out then out
      else if json_type s \<noteq> json_type r
      then out @ [\<lparr>fd_path = path, fd_kind = TypeMismatch, fd_stored = json_type s, fd_recomputed = json_type r\<rparr>]
      else case (s, r) of
        (JObj m, JObj m') \<Rightarrow>
          fold (\<lambda>k out. if limit \<le> length out then out else
              case map_of m k of
                Some sv \<Rightarrow>
                  (case map_of m' k of
                     None \<Rightarrow> out @ [\<lparr>fd_path = child_path path k, fd_kind = MissingInRecomputed,
                       fd_stored = render env (child_path path k) sv, fd_recomputed = []\<rparr>]
                   | Some rv \<Rightarrow> diff_values env limit (child_path path k) sv rv out)
              | None \<Rightarrow>
                  (case map_of m' k of
                     Some rv \<Rightarrow> out @ [\<lparr>fd_path = child_path path k, fd_kind = MissingInStored,
                       fd_stored = [], fd_recomputed = render env (child_path path k) rv\<rparr>]
                   | None \<Rightarrow> out))
            (object_keys (m @ m')) out
      | (JArr xs, JArr ys) \<Rightarrow>
          fold (\<lambda>i out. if limit \<le> length out then out
              else diff_values env limit (indexed path i []) (xs ! i) (ys ! i) out)
            [0..<min (length xs) (length ys)]
            (if length xs \<noteq> length ys
             then out @ [\<lparr>fd_path = path, fd_kind = LengthMismatch, fd_stored = itoa (length xs),
                          fd_recomputed = itoa (length ys)\<rparr>]
             else out)
      | _ \<Rightarrow>
          (if s \<noteq> r
           then out @ [\<lparr>fd_path = path, fd_kind = ValueMismatch, fd_stored = render env path s,
                        fd_recomputed = render env path r\<rparr>]
           else out))"
  by pat_completeness auto
termination
  by (relation "measure (\<lambda>(_, _, _, s, _, _). size s)")
     (auto simp: size_map_of size_nth less_Suc_eq_le)

declare diff_values.simps [simp del]

text \<open>\<open>compare\<close>; the stored side is absent where its column is empty.\<close>

definition decode_canonical :: "equiv_env \<Rightarrow> string \<Rightarrow> string + jval" where
  "decode_canonical env data = (if data = [] then Inr JNull else qe_decode env data)"

definition compare_reductions ::
  "equiv_env \<Rightarrow> string \<Rightarrow> raw_reduction \<Rightarrow> nat \<Rightarrow> string + (field_diff list \<times> bool)"
where
  "compare_reductions env stored_json recomputed max_diffs =
     and_then (qe_marshal env (rw_response recomputed) (rw_created_at recomputed)) (\<lambda>recomputed_json.
     and_then (decode_canonical env stored_json) (\<lambda>stored.
     and_then (decode_canonical env recomputed_json) (\<lambda>again.
       let ds = diff_values env max_diffs [] (comparable stored) (comparable again) []
       in Inr (ds, max_diffs \<le> length ds))))"

subsection \<open>The verdict of a row\<close>

datatype equiv_class =
    Equivalent | Divergent | Undecodable | Unreducible | NoReducerClass
  | SkippedNoRaw | SkippedDropped | SkippedNoReduction

fun blocking :: "equiv_class \<Rightarrow> bool" where
  "blocking Divergent = True"
| "blocking Undecodable = True"
| "blocking Unreducible = True"
| "blocking NoReducerClass = True"
| "blocking Equivalent = False"
| "blocking SkippedNoRaw = False"
| "blocking SkippedDropped = False"
| "blocking SkippedNoReduction = False"

record equiv_row =
  qr_id :: int
  qr_request_id :: string
  qr_provider :: string
  qr_harness_id :: string
  qr_harness_session_id :: string
  qr_model :: string
  qr_raw_response :: string
  qr_raw_response_encoding :: string
  qr_raw_response_dropped :: bool
  qr_stored_reduction :: string
  qr_meta :: turn_meta
  qr_meta_model :: string \<comment> \<open>\<open>Meta.Model\<close>\<close>

record stamp_coverage =
  cov_duration :: stamp_source
  cov_created_at :: stamp_source

record outcome =
  oc_id :: int
  oc_request_id :: string
  oc_provider :: string
  oc_harness_id :: string
  oc_harness_session_id :: string
  oc_model :: string
  oc_class :: equiv_class
  oc_reason :: string
  oc_diffs :: "field_diff list"
  oc_diffs_truncated :: bool
  oc_truncated :: bool
  oc_stamps :: "stamp_coverage option"

definition default_max_diffs :: nat where
  "default_max_diffs = 10"

definition row_diff_limit :: "int \<Rightarrow> nat" where
  "row_diff_limit option_max = (if option_max \<le> 0 then default_max_diffs else nat option_max)"

definition empty_outcome :: "equiv_row \<Rightarrow> outcome" where
  "empty_outcome row =
     \<lparr>oc_id = qr_id row, oc_request_id = qr_request_id row, oc_provider = qr_provider row,
      oc_harness_id = qr_harness_id row, oc_harness_session_id = qr_harness_session_id row,
      oc_model = (if qr_model row = [] then qr_meta_model row else qr_model row), oc_class = SkippedNoRaw,
      oc_reason = [], oc_diffs = [], oc_diffs_truncated = False, oc_truncated = False, oc_stamps = None\<rparr>"

definition failure_class :: "reduction_failure \<Rightarrow> equiv_class" where
  "failure_class e = (case e of NoReducer _ \<Rightarrow> NoReducerClass | DecodeFailure _ \<Rightarrow> Undecodable | ReduceFailure _ \<Rightarrow> Unreducible)"

definition absent_response :: chat_response where
  "absent_response =
     \<lparr>rs_model = [], rs_message = \<lparr>msg_role = [], msg_content = []\<rparr>, rs_done = False, rs_stop_reason = [],
      rs_usage = None, rs_extra = []\<rparr>"

definition stored_response :: "equiv_env \<Rightarrow> string \<Rightarrow> string + chat_response" where
  "stored_response env stored = (if stored = [] then Inr absent_response else qe_response env stored)"

definition row_turn :: "equiv_row \<Rightarrow> stored_raw_turn" where
  "row_turn row =
     \<lparr>sw_provider = qr_provider row, sw_raw_request = [], sw_raw_response = qr_raw_response row,
      sw_raw_response_encoding = qr_raw_response_encoding row, sw_meta = qr_meta row\<rparr>"

definition compared_outcome :: "equiv_env \<Rightarrow> equiv_row \<Rightarrow> nat \<Rightarrow> raw_reduction \<Rightarrow> outcome" where
  "compared_outcome env row max_diffs red =
     (let out = (empty_outcome row)\<lparr>oc_truncated := rw_truncated red,
            oc_stamps := Some \<lparr>cov_duration = rw_duration_source red, cov_created_at = rw_created_at_source red\<rparr>\<rparr>
      in case compare_reductions env (qr_stored_reduction row) red max_diffs of
           Inl e \<Rightarrow> out\<lparr>oc_class := Unreducible, oc_reason := e\<rparr>
         | Inr (ds, truncated) \<Rightarrow>
             out\<lparr>oc_diffs := ds, oc_diffs_truncated := truncated,
                 oc_class := (if ds = [] then Equivalent else Divergent)\<rparr>)"

definition check_row :: "equiv_env \<Rightarrow> equiv_row \<Rightarrow> int \<Rightarrow> outcome" where
  "check_row env row option_max =
     (let out = empty_outcome row in
      if qr_raw_response_dropped row then out\<lparr>oc_class := SkippedDropped\<rparr>
      else if qr_raw_response row = [] then out\<lparr>oc_class := SkippedNoRaw\<rparr>
      else case stored_response env (qr_stored_reduction row) of
        Inl e \<Rightarrow> out\<lparr>oc_class := SkippedNoReduction, oc_reason := ''stored reduction is not a ChatResponse: '' @ e\<rparr>
      | Inr stored \<Rightarrow>
          if reduced_response_absent stored then out\<lparr>oc_class := SkippedNoReduction\<rparr>
          else case reduce_stored_raw_turn (qe_reducers env) (row_turn row) of
            Inl e \<Rightarrow> out\<lparr>oc_class := failure_class e, oc_reason := qe_error env e\<rparr>
          | Inr red \<Rightarrow> compared_outcome env row (row_diff_limit option_max) red)"

subsection \<open>The report\<close>

record window =
  wn_since :: string
  wn_limit :: int
  wn_session :: string

record stamp_coverage_report =
  cr_reduced :: nat
  cr_duration :: "stamp_source \<Rightarrow> nat"
  cr_created_at :: "stamp_source \<Rightarrow> nat"

record equiv_report =
  er_window :: window
  er_counts :: "equiv_class \<Rightarrow> nat" \<comment> \<open>a class that is not a key has none\<close>
  er_total :: nat
  er_divergences :: "outcome list"
  er_divergences_truncated :: bool
  er_stamps :: stamp_coverage_report
  er_tolerated :: "string list"
  er_max_reported :: int

definition new_report :: "window \<Rightarrow> int \<Rightarrow> equiv_report" where
  "new_report w max_reported =
     \<lparr>er_window = w, er_counts = (\<lambda>_. 0), er_total = 0, er_divergences = [], er_divergences_truncated = False,
      er_stamps = \<lparr>cr_reduced = 0, cr_duration = (\<lambda>_. 0), cr_created_at = (\<lambda>_. 0)\<rparr>,
      er_tolerated = map (\<lambda>f. go_join f ''.'') tolerable_fields, er_max_reported = max_reported\<rparr>"

definition count_stamps :: "stamp_coverage option \<Rightarrow> stamp_coverage_report \<Rightarrow> stamp_coverage_report" where
  "count_stamps st c =
     (case st of
        None \<Rightarrow> c
      | Some s \<Rightarrow>
          c\<lparr>cr_reduced := Suc (cr_reduced c),
            cr_duration := (cr_duration c)(cov_duration s := Suc (cr_duration c (cov_duration s))),
            cr_created_at := (cr_created_at c)(cov_created_at s := Suc (cr_created_at c (cov_created_at s)))\<rparr>)"

definition add_outcome :: "outcome \<Rightarrow> equiv_report \<Rightarrow> equiv_report" where
  "add_outcome o' r =
     (let r1 = r\<lparr>er_total := Suc (er_total r),
                 er_counts := (er_counts r)(oc_class o' := Suc (er_counts r (oc_class o'))),
                 er_stamps := count_stamps (oc_stamps o') (er_stamps r)\<rparr>
      in if \<not> blocking (oc_class o') then r1
         else if int (length (er_divergences r1)) < er_max_reported r1
         then r1\<lparr>er_divergences := er_divergences r1 @ [o']\<rparr>
         else r1\<lparr>er_divergences_truncated := True\<rparr>)"

definition class_order :: "equiv_class list" where
  "class_order =
     [Equivalent, Divergent, Undecodable, Unreducible, NoReducerClass, SkippedNoRaw, SkippedDropped, SkippedNoReduction]"

text \<open>The sum over the keys of the map, each class counted once.\<close>

definition blocking_count :: "equiv_report \<Rightarrow> nat" where
  "blocking_count r = sum_list (map (er_counts r) (filter blocking class_order))"

subsection \<open>The text of the report\<close>

fun class_name :: "equiv_class \<Rightarrow> string" where
  "class_name Equivalent = ''equivalent''"
| "class_name Divergent = ''divergent''"
| "class_name Undecodable = ''undecodable''"
| "class_name Unreducible = ''unreducible''"
| "class_name NoReducerClass = ''no_reducer''"
| "class_name SkippedNoRaw = ''skipped_no_raw''"
| "class_name SkippedDropped = ''skipped_dropped''"
| "class_name SkippedNoReduction = ''skipped_no_reduction''"

fun diff_kind_name :: "diff_kind \<Rightarrow> string" where
  "diff_kind_name MissingInRecomputed = ''missing_in_recomputed''"
| "diff_kind_name MissingInStored = ''missing_in_stored''"
| "diff_kind_name TypeMismatch = ''type_mismatch''"
| "diff_kind_name ValueMismatch = ''value_mismatch''"
| "diff_kind_name LengthMismatch = ''length_mismatch''"

text \<open>The values of \<open>StampSource\<close>, sorted.\<close>

definition stamp_names :: "(stamp_source \<times> string) list" where
  "stamp_names =
     [(StampCapturedAt, ''captured_at''), (StampElapsed, ''elapsed_seconds''), (StampFallback, ''fallback''),
      (StampTsRequest, ''ts_request'')]"

definition or_none :: "string \<Rightarrow> string" where
  "or_none s = (if s = [] then ''-'' else s)"

definition pad_right :: "nat \<Rightarrow> string \<Rightarrow> string" where
  "pad_right n s = s @ replicate (n - length s) (CHR '' '')"

definition describe_diff :: "field_diff \<Rightarrow> string" where
  "describe_diff d =
     diff_kind_name (fd_kind d)
     @ (case fd_kind d of
          MissingInRecomputed \<Rightarrow> '' (stored '' @ fd_stored d @ '', absent server-side)''
        | MissingInStored \<Rightarrow> '' (server-side '' @ fd_recomputed d @ '', absent in stored)''
        | _ \<Rightarrow> '' stored='' @ fd_stored d @ '' server-side='' @ fd_recomputed d)"

definition render_sources :: "(stamp_source \<Rightarrow> nat) \<Rightarrow> string" where
  "render_sources m =
     (let parts = map (\<lambda>(s, n). n @ ''='' @ itoa (m s)) (filter (\<lambda>(s, _). 0 < m s) stamp_names)
      in if parts = [] then ''none'' else go_join parts '' '')"

definition class_lines :: "equiv_report \<Rightarrow> string list" where
  "class_lines r =
     map (\<lambda>c. ''  '' @ pad_right 22 (class_name c) @ '' '' @ itoa (er_counts r c))
       (filter (\<lambda>c. 0 < er_counts r c) class_order)"

definition window_lines :: "window \<Rightarrow> string list" where
  "window_lines w =
     (if wn_since w \<noteq> [] \<or> wn_session w \<noteq> [] \<or> 0 < wn_limit w
      then [''  window: since='' @ or_none (wn_since w) @ '' limit='' @ int_text (wn_limit w)
            @ '' session='' @ or_none (wn_session w)]
      else [])"

definition stamp_lines :: "stamp_coverage_report \<Rightarrow> string list" where
  "stamp_lines c =
     (if 0 < cr_reduced c
      then [''capture-side stamps mode=raw could restore ('' @ itoa (cr_reduced c) @ '' re-reduced turn(s)):'',
            ''  usage.total_duration_ns  '' @ render_sources (cr_duration c),
            ''  created_at               '' @ render_sources (cr_created_at c)]
           @ (if 0 < cr_duration c StampFallback
              then [''  note: '' @ itoa (cr_duration c StampFallback)
                    @ '' turn(s) carry no usable meta.elapsed_seconds; under mode=raw'',
                    ''        their duration would land empty and the derived span duration NULL.'']
              else [])
           @ [[]]
      else [])"

definition outcome_lines :: "outcome \<Rightarrow> string list" where
  "outcome_lines o' =
     [[], ''  raw_turn '' @ int_text (oc_id o') @ ''  class='' @ class_name (oc_class o') @ '' provider=''
          @ or_none (oc_provider o') @ '' harness='' @ or_none (oc_harness_id o') @ '' model='' @ or_none (oc_model o')]
     @ (if oc_request_id o' \<noteq> [] then [''    request_id: '' @ oc_request_id o'] else [])
     @ (if oc_harness_session_id o' \<noteq> [] then [''    session:    '' @ oc_harness_session_id o'] else [])
     @ (if oc_truncated o'
        then [''    note:       stored body was truncated and salvaged; the adapter saw the whole stream live''] else [])
     @ (if oc_reason o' \<noteq> [] then [''    reason:     '' @ oc_reason o'] else [])
     @ map (\<lambda>d. ''    '' @ pad_right 28 (fd_path d) @ '' '' @ describe_diff d) (oc_diffs o')
     @ (if oc_diffs_truncated o' then [''    (further differences omitted)''] else [])"

definition divergence_lines :: "equiv_report \<Rightarrow> string list" where
  "divergence_lines r =
     (if er_divergences r = [] then []
      else [''blocking rows:''] @ concat (map outcome_lines (er_divergences r))
           @ (if er_divergences_truncated r
              then [[], ''  ('' @ itoa (blocking_count r - length (er_divergences r))
                        @ '' further blocking row(s) omitted; counts above are exact)'']
              else [])
           @ [[]])"

definition verdict_line :: "equiv_report \<Rightarrow> string" where
  "verdict_line r =
     (if 0 < blocking_count r
      then ''VERDICT: '' @ itoa (blocking_count r) @ '' row(s) would not survive mode=raw. Do not ratchet.''
      else if er_counts r Equivalent = 0
      then ''VERDICT: no comparable turns in this window. Nothing was proven.''
      else ''VERDICT: '' @ itoa (er_counts r Equivalent)
           @ '' turn(s) re-reduce identically. This window supports the ratchet.'')"

definition write_text :: "equiv_report \<Rightarrow> string list" where
  "write_text r =
     [''raw-response equivalence over '' @ itoa (er_total r) @ '' wire turn(s)'']
     @ window_lines (er_window r) @ [[]] @ class_lines r @ [[]] @ stamp_lines (er_stamps r) @ divergence_lines r
     @ [''equivalence excludes, by design:''] @ map (\<lambda>t. ''  '' @ t) (er_tolerated r) @ [[], verdict_line r]"

end
