(* ===== verification/RawEquivFacts.thy ===== *)
theory RawEquivFacts
  imports RawEquiv
begin

text \<open>
  What a comparison, a verdict and a report mean.

  A tree is read by paths; two trees are the same when every path reads the same in both. The bounded differ keeps
  the first of the differences a walk without a bound finds, and finds none exactly when the trees are the same.
\<close>

subsection \<open>Reading a tree\<close>

datatype tree_step = Member string | Element nat

datatype tree_shape = Leaf jval | ArrayNode nat | ObjectNode

fun shape_of :: "jval \<Rightarrow> tree_shape" where
  "shape_of (JArr xs) = ArrayNode (length xs)"
| "shape_of (JObj m) = ObjectNode"
| "shape_of v = Leaf v"

fun look :: "jval \<Rightarrow> tree_step list \<Rightarrow> tree_shape option" where
  "look v [] = Some (shape_of v)"
| "look (JObj m) (Member k # p) = (case map_of m k of None \<Rightarrow> None | Some v \<Rightarrow> look v p)"
| "look (JArr xs) (Element i # p) = (if i < length xs then look (xs ! i) p else None)"
| "look v p = None"

definition same_tree :: "jval \<Rightarrow> jval \<Rightarrow> bool" where
  "same_tree s r \<longleftrightarrow> (\<forall>p. look s p = look r p)"

definition same_option :: "jval option \<Rightarrow> jval option \<Rightarrow> bool" where
  "same_option ov ow \<longleftrightarrow> (case (ov, ow) of (Some v, Some w) \<Rightarrow> same_tree v w | (None, None) \<Rightarrow> True | _ \<Rightarrow> False)"

definition look_option :: "jval option \<Rightarrow> tree_step list \<Rightarrow> tree_shape option" where
  "look_option ov p = (case ov of None \<Rightarrow> None | Some v \<Rightarrow> look v p)"

lemma set_object_keys [simp]: "set (object_keys m) = fst ` set m"
  by (simp add: object_keys_def)

lemma map_of_outside: "k \<notin> fst ` set m \<Longrightarrow> map_of m k = None"
  by (simp add: map_of_eq_None_iff)

lemma look_Nil: "look v [] = look w [] \<longleftrightarrow> shape_of v = shape_of w"
  by simp

lemma same_shape: "same_tree s r \<Longrightarrow> shape_of s = shape_of r"
  unfolding same_tree_def look_Nil [symmetric] by blast

lemma same_missing: "same_option None ov \<longleftrightarrow> ov = None" "same_option ov None \<longleftrightarrow> ov = None"
  by (simp_all add: same_option_def split: option.split)

lemma same_option_look: "same_option ov ow \<longleftrightarrow> (\<forall>p. look_option ov p = look_option ow p)"
proof (cases "ov = None \<or> ow = None")
  case True
  then show ?thesis by (auto simp: same_missing look_option_def split: option.splits dest!: spec [of _ "[]"])
next
  case False
  then show ?thesis by (auto simp: same_option_def same_tree_def look_option_def)
qed

lemma same_objects: "same_tree (JObj m) (JObj m') \<longleftrightarrow> (\<forall>k. same_option (map_of m k) (map_of m' k))"
proof -
  have "look (JObj m) p = look (JObj m') p \<longleftrightarrow>
      (case p of Member k # q \<Rightarrow> look_option (map_of m k) q = look_option (map_of m' k) q | _ \<Rightarrow> True)" for p
    by (cases p) (auto simp: look_option_def split: tree_step.split)
  then show ?thesis
    by (auto simp: same_tree_def same_option_look split: list.splits tree_step.splits)
qed

lemma same_arrays:
  "same_tree (JArr xs) (JArr ys) \<longleftrightarrow> length xs = length ys \<and> (\<forall>i<length xs. same_tree (xs ! i) (ys ! i))"
proof (cases "length xs = length ys")
  case True
  then have "look (JArr xs) p = look (JArr ys) p \<longleftrightarrow>
      (case p of Element i # q \<Rightarrow> i < length xs \<longrightarrow> look (xs ! i) q = look (ys ! i) q | _ \<Rightarrow> True)" for p
    by (cases p) (auto split: tree_step.split)
  with True show ?thesis by (auto simp: same_tree_def split: list.splits tree_step.splits)
qed (use same_shape in fastforce)

lemma json_type_simps [simp]:
  "json_type JNull = ''null''" "json_type (JBool b) = ''bool''" "json_type (JNum x) = ''number''"
  "json_type (JStr s) = ''string''" "json_type (JArr xs) = ''array''" "json_type (JObj m) = ''object''"
  by (simp_all add: json_type_def)

lemma same_type: "same_tree s r \<Longrightarrow> json_type s = json_type r"
  by (drule same_shape) (cases s; cases r; simp add: json_type_def)

lemma same_leaf: "shape_of s = Leaf s \<Longrightarrow> same_tree s r \<longleftrightarrow> s = r"
proof
  assume "shape_of s = Leaf s" "same_tree s r"
  then have "shape_of r = Leaf s" using same_shape by metis
  then show "s = r" by (cases r) simp_all
qed (simp add: same_tree_def)

subsection \<open>The differences without a bound\<close>

function differences :: "equiv_env \<Rightarrow> string \<Rightarrow> jval \<Rightarrow> jval \<Rightarrow> field_diff list" where
  "differences env path s r =
     (if json_type s \<noteq> json_type r
      then [\<lparr>fd_path = path, fd_kind = TypeMismatch, fd_stored = json_type s, fd_recomputed = json_type r\<rparr>]
      else case (s, r) of
        (JObj m, JObj m') \<Rightarrow>
          concat (map (\<lambda>k. case map_of m k of
              Some sv \<Rightarrow>
                (case map_of m' k of
                   None \<Rightarrow> [\<lparr>fd_path = child_path path k, fd_kind = MissingInRecomputed,
                            fd_stored = render env (child_path path k) sv, fd_recomputed = []\<rparr>]
                 | Some rv \<Rightarrow> differences env (child_path path k) sv rv)
            | None \<Rightarrow>
                (case map_of m' k of
                   Some rv \<Rightarrow> [\<lparr>fd_path = child_path path k, fd_kind = MissingInStored,
                               fd_stored = [], fd_recomputed = render env (child_path path k) rv\<rparr>]
                 | None \<Rightarrow> []))
            (object_keys (m @ m')))
      | (JArr xs, JArr ys) \<Rightarrow>
          (if length xs \<noteq> length ys
           then [\<lparr>fd_path = path, fd_kind = LengthMismatch, fd_stored = itoa (length xs), fd_recomputed = itoa (length ys)\<rparr>]
           else [])
          @ concat (map (\<lambda>i. differences env (indexed path i []) (xs ! i) (ys ! i)) [0..<min (length xs) (length ys)])
      | _ \<Rightarrow>
          (if s \<noteq> r
           then [\<lparr>fd_path = path, fd_kind = ValueMismatch, fd_stored = render env path s, fd_recomputed = render env path r\<rparr>]
           else []))"
  by pat_completeness auto
termination
  by (relation "measure (\<lambda>(_, _, s, _). size s)") (auto simp: size_map_of size_nth less_Suc_eq_le)

declare differences.simps [simp del] itoa.simps [simp del]

text \<open>Appending while there is room keeps the first of what is appended.\<close>

definition room :: "nat \<Rightarrow> 'a list \<Rightarrow> 'a list \<Rightarrow> 'a list" where
  "room n out new = out @ take (n - length out) new"

lemma room_Nil [simp]: "room n out [] = out"
  by (simp add: room_def)

lemma room_full: "n \<le> length out \<Longrightarrow> room n out new = out"
  by (simp add: room_def)

lemma room_Cons: "\<not> n \<le> length out \<Longrightarrow> room n out (x # xs) = room n (out @ [x]) xs"
  by (simp add: room_def take_Cons' Suc_diff_Suc [symmetric])

lemma room_append: "room n (room n out xs) ys = room n out (xs @ ys)"
  by (simp add: room_def min_def)

lemma fold_room:
  assumes "\<And>x out. x \<in> set xs \<Longrightarrow> f x out = room n out (g x)"
  shows "fold f xs out = room n out (concat (map g xs))"
  using assms by (induction xs arbitrary: out) (simp_all add: room_append)

lemma room_guard [simp]: "(if n \<le> length out then out else room n out xs) = room n out xs"
  by (simp add: room_full)

lemma room_body:
  assumes "\<not> n \<le> length out \<Longrightarrow> x = room n out new"
  shows "(if n \<le> length out then out else x) = room n out new"
  using assms by (auto simp: room_full)

lemma diff_values_room: "diff_values env limit path s r out = room limit out (differences env path s r)"
proof (induction s arbitrary: path r out)
  case (JArr xs)
  show ?case
  proof (cases "\<exists>ys. r = JArr ys")
    case True
    then obtain ys where r: "r = JArr ys" by blast
    have body: "(if limit \<le> length out then out
           else diff_values env limit (indexed path i []) (xs ! i) (ys ! i) out)
         = room limit out (differences env (indexed path i []) (xs ! i) (ys ! i))"
      if "i \<in> set [0..<min (length xs) (length ys)]" for i out
      using JArr.IH [of "xs ! i"] that by (simp add: room_full)
    have loop: "fold (\<lambda>i out. if limit \<le> length out then out
              else diff_values env limit (indexed path i []) (xs ! i) (ys ! i) out) [0..<min (length xs) (length ys)] out
        = room limit out (concat (map (\<lambda>i. differences env (indexed path i []) (xs ! i) (ys ! i))
            [0..<min (length xs) (length ys)]))" for out
      by (rule fold_room) (rule body)
    show ?thesis
      unfolding r diff_values.simps [of _ _ _ "JArr xs"] differences.simps [of _ _ "JArr xs"]
      by (simp add: loop room_full room_Cons)
  qed (cases r; simp add: diff_values.simps differences.simps room_full room_Cons)
next
  case (JObj m)
  show ?case
  proof (cases "\<exists>m'. r = JObj m'")
    case True
    then obtain m' where r: "r = JObj m'" by blast
    have sub: "diff_values env limit path v w out = room limit out (differences env path v w)"
      if "map_of m k = Some v" for k v path w out
      using JObj.IH [OF map_of_SomeD [OF that]] by simp
    have body: "(if limit \<le> length out then out else
              case map_of m k of
                Some sv \<Rightarrow>
                  (case map_of m' k of
                     None \<Rightarrow> out @ [\<lparr>fd_path = child_path path k, fd_kind = MissingInRecomputed,
                       fd_stored = render env (child_path path k) sv, fd_recomputed = []\<rparr>]
                   | Some rv \<Rightarrow> diff_values env limit (child_path path k) sv rv out)
              | None \<Rightarrow>
                  (case map_of m' k of
                     Some rv \<Rightarrow> out @ [\<lparr>fd_path = child_path path k, fd_kind = MissingInStored,
                       fd_stored = [], fd_recomputed = render env (child_path path k) rv\<rparr>]
                   | None \<Rightarrow> out))
         = room limit out (case map_of m k of
              Some sv \<Rightarrow>
                (case map_of m' k of
                   None \<Rightarrow> [\<lparr>fd_path = child_path path k, fd_kind = MissingInRecomputed,
                            fd_stored = render env (child_path path k) sv, fd_recomputed = []\<rparr>]
                 | Some rv \<Rightarrow> differences env (child_path path k) sv rv)
            | None \<Rightarrow>
                (case map_of m' k of
                   Some rv \<Rightarrow> [\<lparr>fd_path = child_path path k, fd_kind = MissingInStored,
                               fd_stored = [], fd_recomputed = render env (child_path path k) rv\<rparr>]
                 | None \<Rightarrow> []))" for k out
      by (rule room_body) (simp add: sub room_Cons split: option.split)
    show ?thesis
      unfolding r diff_values.simps [of _ _ _ "JObj m"] differences.simps [of _ _ "JObj m"]
      by (simp add: fold_room [OF body] room_full)
  qed (cases r; simp add: diff_values.simps differences.simps room_full room_Cons)
qed (cases r; simp add: diff_values.simps differences.simps room_full room_Cons)+

subsection \<open>No difference, the same tree\<close>

lemma differences_iff: "differences env path s r = [] \<longleftrightarrow> same_tree s r"
proof (induction s arbitrary: path r)
  case (JArr xs)
  show ?case
  proof (cases "\<exists>ys. r = JArr ys")
    case True
    then obtain ys where r: "r = JArr ys" by blast
    show ?thesis
      unfolding r same_arrays differences.simps [of _ _ "JArr xs"]
      by (auto simp: JArr.IH)
  next
    case False
    then show ?thesis
      using same_type [of "JArr xs" r] by (cases r) (auto simp: differences.simps)
  qed
next
  case (JObj m)
  show ?case
  proof (cases "\<exists>m'. r = JObj m'")
    case True
    then obtain m' where r: "r = JObj m'" by blast
    have sub: "differences env path v w = [] \<longleftrightarrow> same_tree v w" if "map_of m k = Some v" for k v path w
      using JObj.IH [OF map_of_SomeD [OF that]] by simp
    have each: "(case map_of m k of
              Some sv \<Rightarrow>
                (case map_of m' k of
                   None \<Rightarrow> [\<lparr>fd_path = child_path path k, fd_kind = MissingInRecomputed,
                            fd_stored = render env (child_path path k) sv, fd_recomputed = []\<rparr>]
                 | Some rv \<Rightarrow> differences env (child_path path k) sv rv)
            | None \<Rightarrow>
                (case map_of m' k of
                   Some rv \<Rightarrow> [\<lparr>fd_path = child_path path k, fd_kind = MissingInStored,
                               fd_stored = [], fd_recomputed = render env (child_path path k) rv\<rparr>]
                 | None \<Rightarrow> [])) = [] \<longleftrightarrow> same_option (map_of m k) (map_of m' k)" for k
      by (simp add: same_option_def sub split: option.split)
    have out: "same_option (map_of m k) (map_of m' k)" if "k \<notin> set (object_keys (m @ m'))" for k
      using that by (simp add: same_option_def map_of_outside image_Un)
    have "differences env path (JObj m) r = []
        \<longleftrightarrow> (\<forall>k\<in>set (object_keys (m @ m')). same_option (map_of m k) (map_of m' k))"
      unfolding r differences.simps [of _ _ "JObj m"] by (simp add: each)
    then show ?thesis unfolding r same_objects using out by blast
  next
    case False
    then show ?thesis
      using same_type [of "JObj m" r] by (cases r) (auto simp: differences.simps)
  qed
qed (case_tac [!] r, auto simp: differences.simps same_leaf)

subsection \<open>What a comparison keeps\<close>

text \<open>The paths the comparison leaves out, and a usage object that held nothing else.\<close>

definition tolerated :: "tree_step list \<Rightarrow> bool" where
  "tolerated p \<longleftrightarrow> take 1 p = [Member ''created_at''] \<or> take 2 p = [Member ''usage'', Member ''total_duration_ns'']"

definition only_duration :: "jval \<Rightarrow> bool" where
  "only_duration v \<longleftrightarrow>
     (case v of
        JObj m \<Rightarrow> (case map_of m ''usage'' of
          Some (JObj u) \<Rightarrow> list_all (\<lambda>(k, _). k = ''total_duration_ns'') u | _ \<Rightarrow> False)
      | _ \<Rightarrow> False)"

definition visible :: "jval \<Rightarrow> tree_step list \<Rightarrow> tree_shape option" where
  "visible v p = (if tolerated p \<or> only_duration v \<and> take 1 p = [Member ''usage''] then None else look v p)"

lemma map_of_without_key: "map_of (without_key k m) k' = (if k' = k then None else map_of m k')"
  by (induction m) (auto simp: without_key_def)

lemma map_of_pruned_member:
  "map_of (map (\<lambda>(k', v). (k', if k' = k then f v else v)) m) k' = map_option (if k' = k then f else id) (map_of m k')"
  by (induction m) auto

lemma comparable_obj:
  "comparable (JObj m) = drop_empty_object ''usage'' (JObj (map (\<lambda>(k', v). (k', if k' = ''usage'' then prune [''total_duration_ns''] v else v))
     (without_key ''created_at'' m)))"
  by (simp add: comparable_def tolerable_fields_def)

lemma comparable_other: "json_type v \<noteq> ''object'' \<Longrightarrow> comparable v = v"
  by (cases v) (simp_all add: comparable_def tolerable_fields_def drop_empty_object_def)

lemma prune_one_empty: "prune [k] v = JObj [] \<longleftrightarrow> (case v of JObj u \<Rightarrow> list_all (\<lambda>(k', _). k' = k) u | _ \<Rightarrow> False)"
  by (cases v) (auto simp: without_key_def filter_empty_conv list_all_iff)

lemma look_prune_one: "look (prune [k] v) p = (if take 1 p = [Member k] then None else look v p)"
proof (cases v)
  case (JObj m)
  then show ?thesis
    by (cases p; cases "hd p") (simp_all add: map_of_without_key)
next
  case (JArr xs)
  then show ?thesis by (cases p; cases "hd p") simp_all
qed (cases p; simp)+

lemma shape_prune_one [simp]: "shape_of (prune [k] v) = shape_of v"
  by (cases v) simp_all

lemma map_of_comparable:
  obtains m' where "comparable (JObj m) = JObj m'"
    "\<And>k. map_of m' k = (if k = ''created_at'' \<or> k = ''usage'' \<and> only_duration (JObj m) then None
            else if k = ''usage'' then map_option (prune [''total_duration_ns'']) (map_of m k) else map_of m k)"
proof -
  let ?m = "map (\<lambda>(k', v). (k', if k' = ''usage'' then prune [''total_duration_ns''] v else v)) (without_key ''created_at'' m)"
  have m: "map_of ?m k = (if k = ''created_at'' then None
      else if k = ''usage'' then map_option (prune [''total_duration_ns'']) (map_of m k) else map_of m k)" for k
    by (simp add: map_of_pruned_member map_of_without_key option.map_id0)
  have e: "map_of ?m ''usage'' = Some (JObj []) \<longleftrightarrow> only_duration (JObj m)"
    unfolding m by (simp add: prune_one_empty only_duration_def split: option.split jval.split)
  show thesis
  proof (cases "only_duration (JObj m)")
    case True
    with e have "comparable (JObj m) = JObj (without_key ''usage'' ?m)"
      by (simp add: comparable_obj drop_empty_object_def)
    then show thesis by (rule that) (simp only: map_of_without_key m True, simp)
  next
    case False
    with e have "comparable (JObj m) = JObj ?m"
      by (simp add: comparable_obj drop_empty_object_def split: option.split jval.split list.split)
    then show thesis by (rule that) (simp only: m False, simp)
  qed
qed

lemma look_comparable: "look (comparable v) p = visible v p"
proof (cases "json_type v = ''object''")
  case True
  then obtain m where v: "v = JObj m" by (cases v) simp_all
  obtain m' where m': "comparable (JObj m) = JObj m'"
    "\<And>k. map_of m' k = (if k = ''created_at'' \<or> k = ''usage'' \<and> only_duration (JObj m) then None
            else if k = ''usage'' then map_option (prune [''total_duration_ns'']) (map_of m k) else map_of m k)"
    by (rule map_of_comparable) blast
  show ?thesis
  proof (cases p)
    case (Cons x q)
    show ?thesis
    proof (cases x)
      case (Member k)
      then show ?thesis
        by (cases q; cases "map_of m k") (auto simp: v m' Cons visible_def tolerated_def look_prune_one)
    qed (simp add: v m' Cons visible_def tolerated_def)
  qed (simp add: v m' visible_def tolerated_def)
next
  case False
  then show ?thesis
    by (cases v; cases p; cases "hd p") (simp_all add: comparable_other visible_def tolerated_def)
qed

lemma same_comparable: "same_tree (comparable s) (comparable r) \<longleftrightarrow> (\<forall>p. visible s p = visible r p)"
  by (simp add: same_tree_def look_comparable)

lemma row_diff_limit_pos: "0 < row_diff_limit n"
  by (simp add: row_diff_limit_def default_max_diffs_def)

lemma no_diffs: "0 < n \<Longrightarrow> diff_values env n path s r [] = [] \<longleftrightarrow> same_tree s r"
  by (simp add: diff_values_room room_def differences_iff)

subsection \<open>Renderings\<close>

lemma itoa_no_bracket: "CHR '']'' \<notin> set (itoa n)" "CHR ''['' \<notin> set (itoa n)"
proof -
  have "\<forall>c\<in>set (itoa n). 48 \<le> (of_char c :: nat) \<and> (of_char c :: nat) < 58"
  proof (induction n rule: itoa.induct)
    case (1 n)
    have digit: "48 \<le> (of_char (char_of (48 + d :: nat)) :: nat) \<and> (of_char (char_of (48 + d :: nat)) :: nat) < 58"
      if "d < 10" for d
      using that by simp
    show ?case using 1 digit [of n] digit [of "n mod 10"] by (subst itoa.simps) auto
  qed
  then show "CHR '']'' \<notin> set (itoa n)" "CHR ''['' \<notin> set (itoa n)" by fastforce+
qed

lemma normalize_path_plain: "CHR ''['' \<notin> set s \<Longrightarrow> normalize_path (s @ t) = s @ normalize_path t"
  by (induction s) auto

lemma to_bracket: "CHR '']'' \<notin> set s \<Longrightarrow> dropWhile (\<lambda>d. d \<noteq> CHR '']'') (s @ CHR '']'' # t) = CHR '']'' # t"
  by (induction s) auto

lemma normalize_index: "normalize_path (CHR ''['' # itoa i @ CHR '']'' # t) = ''[]'' @ normalize_path t"
  by (simp add: to_bracket itoa_no_bracket)

lemma member_path_normal:
  "normalize_path (''message.content['' @ itoa i @ ''].'' @ t) = ''message.content[].'' @ normalize_path t"
  by (simp add: to_bracket itoa_no_bracket)

lemma hidden_field:
  assumes "CHR ''['' \<notin> set f" "list_all (\<lambda>q. take (length f) q \<noteq> f) [''type'', ''name'', ''tool_use_id'']"
  shows "normalize_path (''message.content['' @ itoa i @ ''].'' @ f @ rest) \<notin> set safe_paths"
proof -
  obtain y where y: "normalize_path (f @ rest) = y" by blast
  then have "take (length f) y = f" using normalize_path_plain [OF assms(1), of rest] by auto
  then have "y \<noteq> ''type''" "y \<noteq> ''name''" "y \<noteq> ''tool_use_id''" using assms(2) by auto
  then show ?thesis unfolding member_path_normal y safe_paths_def by simp
qed

lemma render_hidden:
  "normalize_path path \<notin> set safe_paths \<Longrightarrow>
   render env path (JStr s) = ''string(len='' @ itoa (length s) @ '',sha256='' @ qe_sha4 env s @ '')''"
  by (simp add: render_def)

subsection \<open>Properties\<close>

text \<open>C36: The verdict is the question the tool asks. A row is equivalent exactly when it carries its bytes, its
  stored reduction is there and decodes, the server-side path reduces the bytes, and the two reductions read the same
  at every path but the creation time, the call duration, and a usage object that holds nothing but that
  duration.\<close>

theorem equivalent_iff_reproduced:
  "oc_class (check_row env row option_max) = Equivalent \<longleftrightarrow>
     \<not> qr_raw_response_dropped row \<and> qr_raw_response row \<noteq> []
     \<and> (case (stored_response env (qr_stored_reduction row), reduce_stored_raw_turn (qe_reducers env) (row_turn row)) of
          (Inr stored, Inr red) \<Rightarrow>
            \<not> reduced_response_absent stored
            \<and> (case qe_marshal env (rw_response red) (rw_created_at red) of
                 Inl _ \<Rightarrow> False
               | Inr json \<Rightarrow>
                   (case (decode_canonical env (qr_stored_reduction row), decode_canonical env json) of
                      (Inr s, Inr r) \<Rightarrow> \<forall>p. visible s p = visible r p
                    | _ \<Rightarrow> False))
        | _ \<Rightarrow> False)"
  by (auto simp: check_row_def compared_outcome_def compare_reductions_def Let_def failure_class_def and_then_def
      no_diffs row_diff_limit_pos same_comparable
      split: sum.split sum.split_asm prod.split reduction_failure.split reduction_failure.split_asm if_splits)

text \<open>C37: The bounded walk keeps the first differences. With any bound it reports exactly the first that many of
  the differences an unbounded walk lists, in its order, and that walk lists none exactly when the two trees read the
  same at every path.\<close>

theorem bounded_walk_exact:
  "diff_values env n path s r [] = take n (differences env path s r)
   \<and> (differences env path s r = [] \<longleftrightarrow> (\<forall>p. look s p = look r p))"
  by (simp add: diff_values_room room_def differences_iff same_tree_def)

lemma keeps_all_yet_truncated:
  "diff_values env 1 [] (JObj [(''done'', JBool True)]) (JObj [(''done'', JBool False)]) []
   = differences env [] (JObj [(''done'', JBool True)]) (JObj [(''done'', JBool False)])"
  "1 \<le> length (diff_values env 1 [] (JObj [(''done'', JBool True)]) (JObj [(''done'', JBool False)]) [])"
  by (simp_all add: diff_values_room differences.simps room_def object_keys_def)

text \<open>What a message says is not printed. A string anywhere below a content block's text, thinking, tool
  input, tool output or image renders as its length and the head of its digest, whatever the index of the block and
  the keys below it.\<close>

lemma content_strings_hidden:
  "list_all (\<lambda>field. render env (''message.content['' @ itoa i @ ''].'' @ field @ rest) (JStr s)
        = ''string(len='' @ itoa (length s) @ '',sha256='' @ qe_sha4 env s @ '')'')
     [''text'', ''thinking'', ''tool_input'', ''tool_output'', ''image_url'', ''image_base64'', ''media_type'']"
  unfolding list.pred_inject
  by (intro conjI TrueI render_hidden hidden_field) simp_all

text \<open>The keys of an object are printed as they are.\<close>

lemma keys_are_printed: "render env path (JObj [(k, v)]) = ''object(keys=['' @ k @ ''])''"
  by (simp add: render_def object_keys_def)

lemma new_report_fields:
  "er_total (new_report w n) = 0" "er_counts (new_report w n) = (\<lambda>_. 0)" "er_max_reported (new_report w n) = n"
  "er_divergences (new_report w n) = []" "\<not> er_divergences_truncated (new_report w n)"
  by (simp_all add: new_report_def)

lemma report_fold:
  "er_total (fold add_outcome os r) = er_total r + length os"
  "er_counts (fold add_outcome os r) c = er_counts r c + length (filter (\<lambda>x. oc_class x = c) os)"
  "er_max_reported (fold add_outcome os r) = er_max_reported r"
  by (induction os arbitrary: r) (auto simp: add_outcome_def Let_def)

lemma report_kept:
  assumes "er_divergences r = take (nat (er_max_reported r)) seen"
    "er_divergences_truncated r \<longleftrightarrow> nat (er_max_reported r) < length seen"
  shows "er_divergences (fold add_outcome os r) = take (nat (er_max_reported r)) (seen @ filter (\<lambda>x. blocking (oc_class x)) os)
     \<and> (er_divergences_truncated (fold add_outcome os r)
        \<longleftrightarrow> nat (er_max_reported r) < length (seen @ filter (\<lambda>x. blocking (oc_class x)) os))"
  using assms
proof (induction os arbitrary: r seen)
  case (Cons x os)
  show ?case
  proof (cases "blocking (oc_class x)")
    case True
    have "er_max_reported (add_outcome x r) = er_max_reported r"
      "er_divergences (add_outcome x r) = take (nat (er_max_reported r)) (seen @ [x])"
      "er_divergences_truncated (add_outcome x r) \<longleftrightarrow> nat (er_max_reported r) < length (seen @ [x])"
      using Cons.prems True by (auto simp: add_outcome_def Let_def min_def)
    with Cons.IH [of "add_outcome x r" "seen @ [x]"] True show ?thesis by simp
  next
    case False
    with Cons.IH [of "add_outcome x r" seen] Cons.prems show ?thesis by (simp add: add_outcome_def Let_def)
  qed
qed simp

lemma blocking_classes: "sum_list (map (\<lambda>c. length (filter (\<lambda>x. oc_class x = c) os)) (filter blocking class_order))
    = length (filter (\<lambda>x. blocking (oc_class x)) os)"
proof (induction os)
  case (Cons x os)
  then show ?case by (cases "oc_class x") (simp_all add: class_order_def)
qed (simp add: class_order_def)

text \<open>A report is exact whatever it lists. Every row is counted once, each class by the rows that landed in it,
  the blocking rows by the classes that block, and the rows listed are the first blocking ones up to the bound, with
  the truncation reported exactly when one was left out.\<close>

theorem report_exact:
  "let r = fold add_outcome os (new_report w n); stopped = filter (\<lambda>x. blocking (oc_class x)) os in
     er_total r = length os \<and> sum_list (map (er_counts r) class_order) = length os
     \<and> er_counts r c = length (filter (\<lambda>x. oc_class x = c) os)
     \<and> blocking_count r = length stopped \<and> er_divergences r = take (nat n) stopped
     \<and> (er_divergences_truncated r \<longleftrightarrow> nat n < length stopped)"
proof -
  have classes: "sum_list (map (\<lambda>c. length (filter (\<lambda>x. oc_class x = c) os)) class_order) = length os"
  proof (induction os)
    case (Cons x os)
    then show ?case by (cases "oc_class x") (simp_all add: class_order_def)
  qed (simp add: class_order_def)
  have counts: "er_counts (fold add_outcome os (new_report w n)) = (\<lambda>c. length (filter (\<lambda>x. oc_class x = c) os))"
    by (rule ext) (simp add: report_fold new_report_fields)
  show ?thesis
    using report_kept [of "new_report w n" "[]" os] classes
    by (simp add: Let_def blocking_count_def counts blocking_classes report_fold(1) new_report_fields)
qed

end
