(* ===== verification/Backfill.thy ===== *)
theory Backfill
  imports ExtprocHeaders AnthropicReducer CassetteManifest
begin

text \<open>
  Replaying captures through the ingest server: \<open>pkg/backfill\<close>.

  A captures directory is the list of its entries, each with the files of its bundle; the ingest server is a state
  and a step that answers a posted body. The JSON codecs, the URL parser, base64 and gzip are parameters, and so is
  the reducer's decoding. Log lines are left out.
\<close>

subsection \<open>Bundles and envelopes\<close>

datatype file_read = FileMissing | FileUnreadable string | FileBytes string

record wire_bundle =
  bu_request :: file_read
  bu_meta :: file_read
  bu_response :: file_read

record dir_entry =
  de_name :: string
  de_is_dir :: bool
  de_bundle :: wire_bundle

record wire_request =
  wq_method :: string
  wq_url :: string
  wq_headers :: "(string \<times> string) list"
  wq_body_b64 :: string
  wq_body_truncated :: bool
  wq_timestamp :: string

record wire_meta =
  wm_status :: int
  wm_content_type :: string
  wm_content_encoding :: string
  wm_response_bytes :: int
  wm_duration_ms :: rat

definition zero_wire_meta :: wire_meta where
  "zero_wire_meta =
     \<lparr>wm_status = 0, wm_content_type = [], wm_content_encoding = [], wm_response_bytes = 0, wm_duration_ms = 0\<rparr>"

record wire_meta_block =
  wb_request_id :: string
  wb_content_type :: string
  wb_thread_id :: string
  wb_method :: string
  wb_path :: string
  wb_endpoint :: string
  wb_model :: string
  wb_stream :: string
  wb_content_encoding :: string
  wb_upstream_status :: int
  wb_request_bytes :: nat
  wb_response_bytes :: int
  wb_elapsed_seconds :: rat
  wb_backfill_source :: string
  wb_ts_request :: string

record wire_envelope =
  wv_provider :: string
  wv_agent_name :: string
  wv_request :: string
  wv_response :: "chat_response option"
  wv_meta :: wire_meta_block
  wv_session :: "ingest_envelope option"

record wire_url =
  wu_path :: string
  wu_request_uri :: string

record backfill_env =
  bf_request :: "string \<Rightarrow> string + wire_request"
  bf_meta :: "string \<Rightarrow> wire_meta" \<comment> \<open>what was decoded when an error is dropped\<close>
  bf_url :: "string \<Rightarrow> string + wire_url"
  bf_base64 :: "string \<Rightarrow> string + string"
  bf_base64url :: "string \<Rightarrow> string option"
  bf_json_valid :: "string \<Rightarrow> bool"
  bf_gunzip :: "string \<Rightarrow> string option"
  bf_probe :: "string \<Rightarrow> string \<times> bool option" \<comment> \<open>the model and the stream flag of a request\<close>
  bf_reduce :: "string \<Rightarrow> string \<Rightarrow> string + chat_response" \<comment> \<open>body and content type\<close>
  bf_marshal :: "wire_envelope \<Rightarrow> string option"
  bf_div :: "rat \<Rightarrow> rat" \<comment> \<open>rounding\<close>

subsection \<open>Headers\<close>

fun captured_header :: "(string \<times> string) list \<Rightarrow> string \<Rightarrow> string" where
  "captured_header [] name = []"
| "captured_header ((k, v) # hs) name = (if equal_fold k name then v else captured_header hs name)"

definition claude_thread_id_headers :: "string list" where
  "claude_thread_id_headers = [''x-claude-code-agent-id'']"

definition thread_id_from_headers :: "(string \<Rightarrow> string) \<Rightarrow> string" where
  "thread_id_from_headers get =
     (case find (\<lambda>v. v \<noteq> []) (map get claude_thread_id_headers) of
        Some v \<Rightarrow> v
      | None \<Rightarrow>
          if get ''thread-id'' \<noteq> [] \<and> get ''session-id'' \<noteq> [] \<and> get ''thread-id'' \<noteq> get ''session-id''
          then get ''thread-id'' else [])"

definition captured_metadata :: "backfill_env \<Rightarrow> string \<Rightarrow> string" where
  "captured_metadata env raw =
     (if raw = [] then []
      else case bf_base64url env raw of
        None \<Rightarrow> [] | Some d \<Rightarrow> if bf_json_valid env d then d else [])"

definition decoded_header :: "string \<Rightarrow> string" where
  "decoded_header raw = (if raw = [] then [] else decode_envelope_header_value raw)"

definition session_envelope_from_headers :: "backfill_env \<Rightarrow> (string \<Rightarrow> string) \<Rightarrow> ingest_envelope option" where
  "session_envelope_from_headers env get =
     (if get ''x-tapes-harness-session-id'' = [] \<and> get ''x-tapes-harness-id'' = [] then None
      else Some (empty_envelope
        \<lparr>en_harness_id := get ''x-tapes-harness-id'', en_harness_session_id := get ''x-tapes-harness-session-id'',
         en_harness_version := get ''x-tapes-harness-version'',
         en_cwd := decoded_header (get ''x-tapes-cwd''), en_name := decoded_header (get ''x-tapes-session-name''),
         en_parent_harness_session_id :=
           (if get ''x-tapes-parent-harness-session-id'' = [] then None else Some (get ''x-tapes-parent-harness-session-id'')),
         en_harness_metadata := captured_metadata env (get ''x-tapes-harness-metadata'')\<rparr>))"

subsection \<open>From a bundle to an envelope\<close>

fun segment_before_v1 :: "string list \<Rightarrow> string" where
  "segment_before_v1 (p # s # rest) =
     (if s = ''v1'' \<and> p \<in> {''anthropic'', ''openai'', ''ollama''} then p else segment_before_v1 (s # rest))"
| "segment_before_v1 _ = []"

definition provider_from_path :: "string \<Rightarrow> string" where
  "provider_from_path path = segment_before_v1 (go_split (trim_slashes path) ''/'')"

text \<open>An envelope, a reason to skip the bundle, or an error.\<close>

datatype bundle_reading = Replay wire_envelope | SkipBundle string | BundleError string

definition contains :: "string \<Rightarrow> string \<Rightarrow> bool" where
  "contains s sub \<longleftrightarrow> list_ex (\<lambda>t. has_prefix t sub) (map (\<lambda>i. drop i s) [0..<Suc (length s)])"

definition response_bytes :: "backfill_env \<Rightarrow> wire_meta \<Rightarrow> string \<Rightarrow> string" where
  "response_bytes env meta raw =
     (if contains (go_to_lower (wm_content_encoding meta)) ''gzip''
      then (case bf_gunzip env raw of None \<Rightarrow> raw | Some d \<Rightarrow> d) else raw)"

definition stream_label :: "bool option \<Rightarrow> string" where
  "stream_label s = (case s of None \<Rightarrow> ''absent'' | Some True \<Rightarrow> ''true'' | Some False \<Rightarrow> ''false'')"

definition bundle_envelope ::
  "backfill_env \<Rightarrow> string \<Rightarrow> wire_request \<Rightarrow> wire_url \<Rightarrow> string \<Rightarrow> string \<Rightarrow> wire_meta \<Rightarrow> string \<Rightarrow> wire_envelope"
where
  "bundle_envelope env turn_dir req url provider body meta resp =
     (let get = captured_header (wq_headers req); (model, stream) = bf_probe env body
      in \<lparr>wv_provider = provider, wv_agent_name = get ''x-tapes-agent-name'', wv_request = body,
          wv_response = (case bf_reduce env (response_bytes env meta resp) (wm_content_type meta) of
             Inl _ \<Rightarrow> None | Inr r \<Rightarrow> Some r),
          wv_meta = \<lparr>wb_request_id = turn_dir, wb_content_type = wm_content_type meta,
            wb_thread_id = thread_id_from_headers get, wb_method = wq_method req, wb_path = wu_request_uri url,
            wb_endpoint = ''messages'', wb_model = model, wb_stream = stream_label stream,
            wb_content_encoding = wm_content_encoding meta, wb_upstream_status = wm_status meta,
            wb_request_bytes = length body, wb_response_bytes = wm_response_bytes meta,
            wb_elapsed_seconds = bf_div env (wm_duration_ms meta / 1000), wb_backfill_source = ''paperd-wire-trace'',
            wb_ts_request = wq_timestamp req\<rparr>,
          wv_session = session_envelope_from_headers env get\<rparr>)"

definition build_wire_trace_envelope :: "backfill_env \<Rightarrow> string \<Rightarrow> wire_bundle \<Rightarrow> bundle_reading" where
  "build_wire_trace_envelope env turn_dir b =
     (case bu_request b of
        FileMissing \<Rightarrow> BundleError ''read request.json''
      | FileUnreadable e \<Rightarrow> BundleError (''read request.json: '' @ e)
      | FileBytes raw \<Rightarrow>
     (case bf_request env raw of
        Inl e \<Rightarrow> BundleError (''decode request.json: '' @ e)
      | Inr req \<Rightarrow>
     (case bf_url env (wq_url req) of
        Inl e \<Rightarrow> BundleError (''parse url: '' @ e)
      | Inr url \<Rightarrow>
          if \<not> has_suffix (wu_path url) ''/v1/messages'' then SkipBundle (''not a /v1/messages call: '' @ wu_path url)
          else let provider = provider_from_path (wu_path url) in
          if provider = [] then SkipBundle (''no provider segment in path: '' @ wu_path url)
          else if wq_body_truncated req then BundleError ''request body truncated at capture; raw replay would be lossy''
          else (case bf_base64 env (wq_body_b64 req) of
             Inl e \<Rightarrow> BundleError (''decode body_b64: '' @ e)
           | Inr body \<Rightarrow>
               if body = [] then SkipBundle ''empty request body''
               else let meta = (case bu_meta b of FileBytes m \<Rightarrow> bf_meta env m | _ \<Rightarrow> zero_wire_meta) in
               (case bu_response b of
                  FileUnreadable e \<Rightarrow> BundleError (''read response.sse: '' @ e)
                | FileMissing \<Rightarrow> Replay (bundle_envelope env turn_dir req url provider body meta [])
                | FileBytes resp \<Rightarrow> Replay (bundle_envelope env turn_dir req url provider body meta resp))))))"

subsection \<open>The replay\<close>

record replay_options =
  ro_session_ids :: "string list"
  ro_dry_run :: bool

record replay_result =
  rr_scanned :: nat
  rr_posted :: nat
  rr_raw_only :: nat
  rr_skipped :: nat
  rr_failed :: nat
  rr_failures :: "string list"

definition empty_replay :: replay_result where
  "empty_replay = \<lparr>rr_scanned = 0, rr_posted = 0, rr_raw_only = 0, rr_skipped = 0, rr_failed = 0, rr_failures = []\<rparr>"

text \<open>The server answers a body with a status and the start of its reply, or the connection fails.\<close>

datatype client_answer = NoAnswer string | Answer nat string

type_synonym 's client = "string \<Rightarrow> 's \<Rightarrow> client_answer \<times> 's"

text \<open>A status, and the error when there is one.\<close>

definition marshal_envelope :: "backfill_env \<Rightarrow> wire_envelope \<Rightarrow> string option" where
  "marshal_envelope env e =
     (case bf_marshal env e of Some p \<Rightarrow> Some p | None \<Rightarrow> bf_marshal env (e\<lparr>wv_response := None\<rparr>))"

definition answer_status :: "client_answer \<Rightarrow> nat \<times> string option" where
  "answer_status a =
     (case a of
        NoAnswer e \<Rightarrow> (0, Some e)
      | Answer st body \<Rightarrow>
          (st, if 300 \<le> st then Some (''ingest returned '' @ itoa st @ '': '' @ go_trim_space body) else None))"

definition post_wire_trace_envelope ::
  "backfill_env \<Rightarrow> 's client \<Rightarrow> wire_envelope \<Rightarrow> 's \<Rightarrow> (nat \<times> string option) \<times> 's"
where
  "post_wire_trace_envelope env client e s =
     (case marshal_envelope env e of
        None \<Rightarrow> ((0, Some ''marshal envelope''), s)
      | Some payload \<Rightarrow> (case client payload s of (a, s') \<Rightarrow> (answer_status a, s')))"

definition note_failure :: "string \<Rightarrow> replay_result \<Rightarrow> replay_result" where
  "note_failure text' r =
     r\<lparr>rr_failed := Suc (rr_failed r),
       rr_failures := (if length (rr_failures r) < 25 then rr_failures r @ [text'] else rr_failures r)\<rparr>"

definition outside_sessions :: "string list \<Rightarrow> wire_envelope \<Rightarrow> bool" where
  "outside_sessions want e \<longleftrightarrow>
     want \<noteq> [] \<and> (case wv_session e of None \<Rightarrow> True | Some en \<Rightarrow> en_harness_session_id en \<notin> set want)"

definition replay_bundle ::
  "backfill_env \<Rightarrow> 's client \<Rightarrow> replay_options \<Rightarrow> dir_entry \<Rightarrow> replay_result \<times> 's \<Rightarrow> replay_result \<times> 's"
where
  "replay_bundle env client opts d rs =
     (case rs of (r0, s) \<Rightarrow>
      let r = r0\<lparr>rr_scanned := Suc (rr_scanned r0)\<rparr> in
      case build_wire_trace_envelope env (de_name d) (de_bundle d) of
        BundleError e \<Rightarrow> (note_failure (de_name d @ '': '' @ e) r, s)
      | SkipBundle _ \<Rightarrow> (r\<lparr>rr_skipped := Suc (rr_skipped r)\<rparr>, s)
      | Replay e \<Rightarrow>
          if outside_sessions (ro_session_ids opts) e then (r\<lparr>rr_skipped := Suc (rr_skipped r)\<rparr>, s)
          else if ro_dry_run opts then (r\<lparr>rr_posted := Suc (rr_posted r)\<rparr>, s)
          else (case post_wire_trace_envelope env client e s of
             ((_, None), s') \<Rightarrow> (r\<lparr>rr_posted := Suc (rr_posted r)\<rparr>, s')
           | ((st, Some err), s') \<Rightarrow>
               if st = 422 then (r\<lparr>rr_raw_only := Suc (rr_raw_only r)\<rparr>, s')
               else (note_failure (de_name d @ '': '' @ err) r, s')))"

definition turn_dirs :: "dir_entry list \<Rightarrow> dir_entry list" where
  "turn_dirs es = sort_key de_name (filter (\<lambda>d. de_is_dir d \<and> has_prefix (de_name d) ''turn-'') es)"

definition wire_trace ::
  "backfill_env \<Rightarrow> 's client \<Rightarrow> replay_options \<Rightarrow> dir_entry list option \<Rightarrow> 's \<Rightarrow> string + replay_result \<times> 's"
where
  "wire_trace env client opts dir s =
     (case dir of
        None \<Rightarrow> Inl ''read captures dir''
      | Some es \<Rightarrow> Inr (fold (replay_bundle env client opts) (turn_dirs es) (empty_replay, s)))"

subsection \<open>Uploading transcripts\<close>

record transcript_post =
  tc_session :: ingest_envelope
  tc_agent_id :: string
  tc_agent_type :: string
  tc_description :: string
  tc_tool_use_id :: string
  tc_records :: string

record subagent_meta =
  sm_tool_use_id :: string
  sm_agent_type :: string
  sm_description :: string

definition zero_subagent_meta :: subagent_meta where
  "zero_subagent_meta = \<lparr>sm_tool_use_id = [], sm_agent_type = [], sm_description = []\<rparr>"

record project_file =
  pf_name :: string
  pf_is_dir :: bool
  pf_content :: file_read

text \<open>A project directory: its entries, the entries of a session's \<open>subagents\<close> directory when there is one, and
  the metadata file of an agent.\<close>

record project_dir =
  pd_entries :: "project_file list option"
  pd_subagents :: "string \<Rightarrow> project_file list option"
  pd_agent_meta :: "string \<Rightarrow> string \<Rightarrow> file_read"

record upload_env =
  uv_json_valid :: "string \<Rightarrow> bool"
  uv_compact :: "string \<Rightarrow> string"
  uv_meta :: "string \<Rightarrow> subagent_meta"
  uv_marshal :: "transcript_post \<Rightarrow> string option"
  uv_deduped :: "string \<Rightarrow> bool" \<comment> \<open>the flag in a reply\<close>

record upload_options =
  uo_session_ids :: "string list"
  uo_harness_id :: string

record upload_result =
  ur_sessions :: nat
  ur_files :: nat
  ur_uploaded :: nat
  ur_deduped :: nat
  ur_failed :: nat
  ur_failures :: "string list"

definition empty_upload :: upload_result where
  "empty_upload = \<lparr>ur_sessions = 0, ur_files = 0, ur_uploaded = 0, ur_deduped = 0, ur_failed = 0, ur_failures = []\<rparr>"

text \<open>A nil slice is marshalled as \<open>null\<close>.\<close>

definition marshal_records :: "upload_env \<Rightarrow> string list \<Rightarrow> string" where
  "marshal_records env rs = (if rs = [] then ''null'' else ''['' @ go_join (map (uv_compact env) rs) '','' @ '']'')"

definition jsonl_records :: "upload_env \<Rightarrow> string \<Rightarrow> string list" where
  "jsonl_records env raw = filter (\<lambda>l. l \<noteq> [] \<and> uv_json_valid env l) (map go_trim_space (go_split raw [CHR 0x0A]))"

definition jsonl_to_array :: "upload_env \<Rightarrow> file_read \<Rightarrow> string + string" where
  "jsonl_to_array env f =
     (case f of
        FileMissing \<Rightarrow> Inl ''no such file''
      | FileUnreadable e \<Rightarrow> Inl e
      | FileBytes raw \<Rightarrow> Inr (marshal_records env (jsonl_records env raw)))"

definition post_transcript :: "upload_env \<Rightarrow> 's client \<Rightarrow> transcript_post \<Rightarrow> 's \<Rightarrow> (string + bool) \<times> 's" where
  "post_transcript env client p s =
     (case uv_marshal env p of
        None \<Rightarrow> (Inl ''marshal'', s)
      | Some body \<Rightarrow>
          (case client body s of
             (NoAnswer e, s') \<Rightarrow> (Inl e, s')
           | (Answer st reply, s') \<Rightarrow>
               (if 300 \<le> st then Inl (''ingest returned '' @ itoa st @ '': '' @ go_trim_space reply)
                else Inr (uv_deduped env reply), s')))"

definition upload ::
  "upload_env \<Rightarrow> 's client \<Rightarrow> transcript_post \<Rightarrow> string \<Rightarrow> upload_result \<times> 's \<Rightarrow> upload_result \<times> 's"
where
  "upload env client p label rs =
     (case rs of (r0, s) \<Rightarrow>
      let r = r0\<lparr>ur_files := Suc (ur_files r0)\<rparr> in
      case post_transcript env client p s of
        (Inl e, s') \<Rightarrow>
          (r\<lparr>ur_failed := Suc (ur_failed r),
             ur_failures := (if length (ur_failures r) < 25 then ur_failures r @ [label @ '': '' @ e] else ur_failures r)\<rparr>, s')
      | (Inr True, s') \<Rightarrow> (r\<lparr>ur_deduped := Suc (ur_deduped r)\<rparr>, s')
      | (Inr False, s') \<Rightarrow> (r\<lparr>ur_uploaded := Suc (ur_uploaded r)\<rparr>, s'))"

text \<open>A file that cannot be read is a failure without the bound of the others.\<close>

definition unread :: "string \<Rightarrow> upload_result \<times> 's \<Rightarrow> upload_result \<times> 's" where
  "unread text' rs =
     (case rs of (r, s) \<Rightarrow> (r\<lparr>ur_failed := Suc (ur_failed r), ur_failures := ur_failures r @ [text']\<rparr>, s))"

definition session_post :: "ingest_envelope \<Rightarrow> string \<Rightarrow> transcript_post" where
  "session_post en records =
     \<lparr>tc_session = en, tc_agent_id = [], tc_agent_type = [], tc_description = [], tc_tool_use_id = [], tc_records = records\<rparr>"

definition subagent_id :: "string \<Rightarrow> string" where
  "subagent_id name = trim_suffix (trim_prefix name ''agent-'') ''.jsonl''"

definition is_subagent_file :: "string \<Rightarrow> bool" where
  "is_subagent_file name \<longleftrightarrow> has_suffix name ''.jsonl'' \<and> has_prefix name ''agent-''"

definition agent_meta :: "upload_env \<Rightarrow> project_dir \<Rightarrow> string \<Rightarrow> string \<Rightarrow> subagent_meta" where
  "agent_meta env dir sid aid =
     (case pd_agent_meta dir sid aid of FileBytes raw \<Rightarrow> uv_meta env raw | _ \<Rightarrow> zero_subagent_meta)"

definition upload_subagent ::
  "upload_env \<Rightarrow> 's client \<Rightarrow> project_dir \<Rightarrow> ingest_envelope \<Rightarrow> string \<Rightarrow> project_file
   \<Rightarrow> upload_result \<times> 's \<Rightarrow> upload_result \<times> 's"
where
  "upload_subagent env client dir en sid f rs =
     (if \<not> is_subagent_file (pf_name f) then rs
      else let aid = subagent_id (pf_name f); m = agent_meta env dir sid aid in
      case jsonl_to_array env (pf_content f) of
        Inl e \<Rightarrow> unread (sid @ ''/'' @ aid @ '': '' @ e) rs
      | Inr records \<Rightarrow>
          upload env client
            ((session_post en records)\<lparr>tc_agent_id := aid, tc_agent_type := sm_agent_type m,
              tc_description := sm_description m, tc_tool_use_id := sm_tool_use_id m\<rparr>)
            (sid @ ''/agent-'' @ aid) rs)"

definition upload_session ::
  "upload_env \<Rightarrow> 's client \<Rightarrow> string \<Rightarrow> project_dir \<Rightarrow> project_file \<Rightarrow> upload_result \<times> 's \<Rightarrow> upload_result \<times> 's"
where
  "upload_session env client harness dir f rs =
     (case rs of (r, s) \<Rightarrow>
      let sid = trim_suffix (pf_name f) ''.jsonl'';
          en = empty_envelope\<lparr>en_harness_id := harness, en_harness_session_id := sid\<rparr>;
          rs1 = (r\<lparr>ur_sessions := Suc (ur_sessions r)\<rparr>, s) in
      case jsonl_to_array env (pf_content f) of
        Inl e \<Rightarrow> unread (sid @ '': '' @ e) rs1
      | Inr records \<Rightarrow>
          (let rs2 = upload env client (session_post en records) (sid @ ''/main'') rs1 in
           case pd_subagents dir sid of
             None \<Rightarrow> rs2
           | Some fs \<Rightarrow> fold (upload_subagent env client dir en sid) fs rs2))"

definition session_files :: "string list \<Rightarrow> project_file list \<Rightarrow> project_file list" where
  "session_files want es =
     filter (\<lambda>f. \<not> pf_is_dir f \<and> has_suffix (pf_name f) ''.jsonl''
              \<and> (want = [] \<or> trim_suffix (pf_name f) ''.jsonl'' \<in> set want)) es"

definition upload_transcripts ::
  "upload_env \<Rightarrow> 's client \<Rightarrow> upload_options \<Rightarrow> project_dir \<Rightarrow> 's \<Rightarrow> string + upload_result \<times> 's"
where
  "upload_transcripts env client opts dir s =
     (let harness = (if uo_harness_id opts = [] then ''claude'' else uo_harness_id opts) in
      case pd_entries dir of
        None \<Rightarrow> Inl ''read project dir''
      | Some es \<Rightarrow>
          Inr (fold (upload_session env client harness dir) (session_files (uo_session_ids opts) es) (empty_upload, s)))"

end
