(* ===== verification/BackfillFacts.thy ===== *)
theory BackfillFacts
  imports Backfill
begin

text \<open>
  What a replay counts and sends, and that a replayed turn has the session and the thread the sidecar would have
  given it.
\<close>

subsection \<open>Headers\<close>

text \<open>The same headers as the sidecar sees them.\<close>

definition live_headers :: "(string \<times> string) list \<Rightarrow> header list" where
  "live_headers hs = map (\<lambda>(k, v). \<lparr>hd_key = k, hd_value = [], hd_raw_value = v\<rparr>) hs"

lemma header_get_live [simp]: "header_get (live_headers hs) name = captured_header hs name"
  by (induction hs) (auto simp: live_headers_def)

lemma thread_live: "header_thread_id (live_headers hs) = thread_id_from_headers (captured_header hs)"
  by (simp add: header_thread_id_def thread_id_from_headers_def harness_thread_id_headers_def
      claude_thread_id_headers_def Let_def)

lemma envelope_key_seen:
  "captured_header hs name \<noteq> [] \<Longrightarrow> is_envelope_key name \<Longrightarrow> list_ex (\<lambda>h. is_envelope_key (hd_key h)) (live_headers hs)"
  by (induction hs) (auto simp: live_headers_def dest: equal_fold_envelope split: if_splits)

definition live_metadata :: "backfill_env \<Rightarrow> (string \<Rightarrow> jobj option) \<Rightarrow> string \<Rightarrow> jobj option" where
  "live_metadata env decode_object raw = (case bf_base64url env raw of None \<Rightarrow> None | Some d \<Rightarrow> decode_object d)"

lemma live_present:
  "captured_header hs ''x-tapes-harness-session-id'' \<noteq> [] \<or> captured_header hs ''x-tapes-harness-id'' \<noteq> [] \<Longrightarrow>
   list_ex (\<lambda>h. is_envelope_key (hd_key h)) (live_headers hs)"
proof -
  have "is_envelope_key ''x-tapes-harness-session-id''" "is_envelope_key ''x-tapes-harness-id''"
    by code_simp+
  then show "captured_header hs ''x-tapes-harness-session-id'' \<noteq> [] \<or> captured_header hs ''x-tapes-harness-id'' \<noteq> [] \<Longrightarrow>
      list_ex (\<lambda>h. is_envelope_key (hd_key h)) (live_headers hs)"
    using envelope_key_seen by blast
qed

subsection \<open>The session of a replayed turn\<close>

text \<open>The session the sidecar dispatches for the headers, in the form of the envelope.\<close>

definition live_session :: "backfill_env \<Rightarrow> (string \<Rightarrow> jobj option) \<Rightarrow> (string \<times> string) list \<Rightarrow> session_headers" where
  "live_session env decode_object hs = parse_session_envelope (live_metadata env decode_object) (live_headers hs)"

lemma metadata_live:
  assumes "\<And>d. decode_object d \<noteq> None \<Longrightarrow> bf_json_valid env d \<and> d \<noteq> []"
  shows "(if raw = [] then None else live_metadata env decode_object raw)
       = (if captured_metadata env raw = [] then None else decode_object (captured_metadata env raw))"
proof -
  have none: "decode_object d = None" if "\<not> bf_json_valid env d \<or> d = []" for d
    using assms [of d] that by blast
  show ?thesis
    by (auto simp: captured_metadata_def live_metadata_def none split: option.split)
qed

text \<open>C38: A replayed turn is attributed as the live one. From the same headers the replay and the sidecar resolve the
  same sub-thread; a replay without a session is a turn whose live session has no id of its own, and every other one
  names the same harness, session, version, directory, name and parent, with the metadata wherever it is an
  object.\<close>

theorem replayed_session_agrees:
  assumes "\<And>d. decode_object d \<noteq> None \<Longrightarrow> bf_json_valid env d \<and> d \<noteq> []"
  shows "let get = captured_header hs; live = live_session env decode_object hs in
     thread_id_from_headers get = header_thread_id (live_headers hs)
     \<and> (case session_envelope_from_headers env get of
          None \<Rightarrow> sh_harness_session_id live = [] \<and> sh_harness_id live \<in> {[], harness_id_unknown}
        | Some en \<Rightarrow>
            sh_present live \<and> sh_harness_id live = harness_id_or_unknown (Some en)
            \<and> sh_harness_session_id live = en_harness_session_id en \<and> sh_harness_version live = en_harness_version en
            \<and> sh_cwd live = en_cwd en \<and> sh_name live = en_name en
            \<and> sh_parent_harness_session_id live = (case en_parent_harness_session_id en of None \<Rightarrow> [] | Some p \<Rightarrow> p)
            \<and> sh_harness_metadata live
              = (if en_harness_metadata en = [] then None else decode_object (en_harness_metadata en)))"
proof (cases "captured_header hs ''x-tapes-harness-session-id'' = [] \<and> captured_header hs ''x-tapes-harness-id'' = []")
  case True
  then show ?thesis
    by (simp add: Let_def thread_live live_session_def session_envelope_from_headers_def parse_session_envelope_def
        absent_session_def harness_id_unknown_def)
next
  case False
  then have "list_ex (\<lambda>h. is_envelope_key (hd_key h)) (live_headers hs)" by (intro live_present) blast
  with False metadata_live [OF assms] show ?thesis
    by (simp add: Let_def thread_live live_session_def session_envelope_from_headers_def parse_session_envelope_def
        harness_id_or_unknown_def harness_id_unknown_def decoded_header_def empty_envelope_def)
qed

definition wit_backfill :: backfill_env where
  "wit_backfill =
     \<lparr>bf_request = (\<lambda>_. Inl []), bf_meta = (\<lambda>_. zero_wire_meta), bf_url = (\<lambda>_. Inl []), bf_base64 = (\<lambda>_. Inl []),
      bf_base64url = Some, bf_json_valid = (\<lambda>d. d \<noteq> []), bf_gunzip = (\<lambda>_. None), bf_probe = (\<lambda>_. ([], None)),
      bf_reduce = (\<lambda>_ _. Inl []), bf_marshal = (\<lambda>_. None), bf_div = (\<lambda>x. x)\<rparr>"

definition wit_object :: "string \<Rightarrow> jobj option" where
  "wit_object d = (if d = ''{}'' then Some [] else None)"

definition wit_captured :: "(string \<times> string) list" where
  "wit_captured =
     [(''X-Tapes-Harness-Session-Id'', ''s1''), (''X-Tapes-Cwd'', ''/a%20b''), (''x-tapes-harness-metadata'', ''{}''),
      (''session-id'', ''r''), (''Thread-Id'', ''t'')]"

lemma replayed_session_agrees_witness:
  "header_thread_id (live_headers wit_captured) = ''t''
   \<and> sh_cwd (live_session wit_backfill wit_object wit_captured) = ''/a b''
   \<and> sh_harness_id (live_session wit_backfill wit_object wit_captured) = ''unknown''
   \<and> sh_harness_metadata (live_session wit_backfill wit_object wit_captured) = Some []"
proof -
  have ok: "wit_object d \<noteq> None \<Longrightarrow> bf_json_valid wit_backfill d \<and> d \<noteq> []" for d
    by (simp add: wit_object_def wit_backfill_def split: if_splits)
  have t: "thread_id_from_headers (captured_header wit_captured) = ''t''" by code_simp
  obtain en where e: "session_envelope_from_headers wit_backfill (captured_header wit_captured) = Some en"
    and f: "en_cwd en = ''/a b''" "en_harness_id en = []" "en_harness_metadata en = ''{}''"
  proof -
    have "(case session_envelope_from_headers wit_backfill (captured_header wit_captured) of
             None \<Rightarrow> False
           | Some en \<Rightarrow> en_cwd en = ''/a b'' \<and> en_harness_id en = [] \<and> en_harness_metadata en = ''{}'')" by code_simp
    then show thesis by (auto intro: that split: option.splits)
  qed
  show ?thesis
    using replayed_session_agrees [of wit_object wit_backfill wit_captured, OF ok]
    by (simp add: Let_def t e f harness_id_or_unknown_def harness_id_unknown_def wit_object_def)
qed

text \<open>Metadata that is JSON but no object: the sidecar drops it, the replayed envelope is refused.\<close>

lemma replayed_metadata_refused:
  assumes "captured_header hs ''x-tapes-harness-metadata'' = raw" "raw \<noteq> []" "bf_base64url env raw = Some d" "d \<noteq> []"
    and "bf_json_valid env d" "\<not> is_object d" "decode_object d = None"
    and "session_envelope_from_headers env (captured_header hs) = Some en"
  shows "validate_envelope is_uuid is_object (Some en) = Some MetadataNotObject"
    "sh_harness_metadata (live_session env decode_object hs) = None"
proof -
  have e: "en_harness_metadata en = d" "en_org_id en = []" "en_parent_harness_session_id en \<noteq> Some []"
    using assms by (auto simp: session_envelope_from_headers_def captured_metadata_def empty_envelope_def split: if_splits)
  then show "validate_envelope is_uuid is_object (Some en) = Some MetadataNotObject"
    using assms(4,6) by (simp add: validate_envelope_def)
  show "sh_harness_metadata (live_session env decode_object hs) = None"
    using assms(1,2,3,7)
    by (simp add: live_session_def parse_session_envelope_def absent_session_def live_metadata_def Let_def)
qed

subsection \<open>The counts of a replay\<close>

text \<open>A client that notes what it is given to post.\<close>

definition noting :: "'s client \<Rightarrow> ('s \<times> string list) client" where
  "noting client p s = (case s of (s', posts) \<Rightarrow> (case client p s' of (a, s'') \<Rightarrow> (a, (s'', posts @ [p]))))"

definition bundle_payload :: "backfill_env \<Rightarrow> replay_options \<Rightarrow> dir_entry \<Rightarrow> string option" where
  "bundle_payload env opts d =
     (case build_wire_trace_envelope env (de_name d) (de_bundle d) of
        Replay e \<Rightarrow> if outside_sessions (ro_session_ids opts) e \<or> ro_dry_run opts then None else marshal_envelope env e
      | _ \<Rightarrow> None)"

definition replay_ok :: "nat \<Rightarrow> replay_result \<Rightarrow> bool" where
  "replay_ok n r \<longleftrightarrow> rr_scanned r = n \<and> rr_posted r + rr_raw_only r + rr_skipped r + rr_failed r = n
     \<and> length (rr_failures r) = min 25 (rr_failed r)"

lemma note_failure_ok:
  "replay_ok n r \<Longrightarrow> replay_ok (Suc n) (note_failure e (r\<lparr>rr_scanned := Suc (rr_scanned r)\<rparr>))"
  by (auto simp: replay_ok_def note_failure_def)

lemma replay_bundle_step:
  assumes "replay_ok n r" "replay_bundle env (noting client) opts d (r, s, posts) = (r', s', posts')"
  shows "replay_ok (Suc n) r' \<and> posts' = posts @ (case bundle_payload env opts d of None \<Rightarrow> [] | Some p \<Rightarrow> [p])"
proof (cases "build_wire_trace_envelope env (de_name d) (de_bundle d)")
  case (Replay e)
  show ?thesis
  proof (cases "outside_sessions (ro_session_ids opts) e \<or> ro_dry_run opts")
    case True
    with assms Replay show ?thesis
      by (auto simp: replay_bundle_def replay_ok_def bundle_payload_def Let_def split: if_splits)
  next
    case False
    obtain st err s1 posts1 where p: "post_wire_trace_envelope env (noting client) e (s, posts) = ((st, err), s1, posts1)"
      by (cases "post_wire_trace_envelope env (noting client) e (s, posts)") (auto elim: prod.exhaust)
    then have "posts1 = posts @ (case bundle_payload env opts d of None \<Rightarrow> [] | Some p \<Rightarrow> [p])"
      using False Replay
      by (auto simp: post_wire_trace_envelope_def noting_def bundle_payload_def split: option.splits prod.splits)
    with assms Replay False p note_failure_ok [OF assms(1)] show ?thesis
      by (cases err) (auto simp: replay_bundle_def replay_ok_def Let_def split: if_splits)
  qed
qed (use assms note_failure_ok in \<open>auto simp: replay_bundle_def bundle_payload_def replay_ok_def Let_def note_failure_def\<close>)

lemma replay_fold:
  assumes "replay_ok n r" "fold (replay_bundle env (noting client) opts) ds (r, s, posts) = (r', s', posts')"
  shows "replay_ok (n + length ds) r' \<and> posts' = posts @ List.map_filter (bundle_payload env opts) ds"
  using assms
proof (induction ds arbitrary: n r s posts)
  case (Cons d ds)
  obtain r1 s1 posts1 where b: "replay_bundle env (noting client) opts d (r, s, posts) = (r1, s1, posts1)"
    by (cases "replay_bundle env (noting client) opts d (r, s, posts)") (auto elim: prod.exhaust)
  from replay_bundle_step [OF Cons.prems(1) b] Cons.IH [of "Suc n" r1 s1 posts1] Cons.prems(2) b show ?case
    by (auto simp: List.map_filter_simps split: option.splits)
qed (simp add: List.map_filter_simps)

lemma replay_exact:
  "case wire_trace env (noting client) opts (Some es) (s, []) of
     Inl _ \<Rightarrow> False
   | Inr (r, _, posts) \<Rightarrow>
       rr_scanned r = length (turn_dirs es)
       \<and> rr_posted r + rr_raw_only r + rr_skipped r + rr_failed r = rr_scanned r
       \<and> length (rr_failures r) = min 25 (rr_failed r)
       \<and> posts = List.map_filter (bundle_payload env opts) (turn_dirs es)"
proof -
  obtain r s' posts where f: "fold (replay_bundle env (noting client) opts) (turn_dirs es) (empty_replay, s, []) = (r, s', posts)"
    by (cases "fold (replay_bundle env (noting client) opts) (turn_dirs es) (empty_replay, s, [])") (auto elim: prod.exhaust)
  have "replay_ok 0 empty_replay" by (simp add: replay_ok_def empty_replay_def)
  from replay_fold [OF this f] f show ?thesis by (simp add: wire_trace_def replay_ok_def)
qed

text \<open>A transcript without a record is sent as \<open>null\<close>, not as an empty array.\<close>

lemma empty_transcript_is_null: "jsonl_to_array env (FileBytes []) = Inr ''null''"
proof -
  have "map go_trim_space (go_split [] [CHR 0x0A]) = [[]]" by code_simp
  then show ?thesis by (simp add: jsonl_to_array_def jsonl_records_def marshal_records_def)
qed

end
