(* ===== verification/OpenApiMerge.thy ===== *)
theory OpenApiMerge
  imports CassetteManifest
begin

text \<open>
  The aggregate document of a server: the parser that collects fragments, the merge, the operation ids and the lint of
  \<open>pkg/tapesoapi\<close> (\<open>tapesoapi.go\<close>, \<open>fragment.go\<close>, \<open>merge.go\<close>, \<open>ingest.go\<close>, \<open>operationid.go\<close>, \<open>validate.go\<close>) and its use for
  core and cassettes in \<open>api/cassetterunner/aggregate.go\<close>.

  A map is an association list read by \<open>map_of\<close>. What a description holds beside the fields that decide something here
  is kept as its JSON. The hash of a value's encoding, the decomposition of a document, the rewriting of references and
  the checks of structure, versions and references are parameters. Fragments are copied when they are added and when
  they are read, so the merge works on values of its own.
\<close>

subsection \<open>Fragments\<close>

record provenance =
  pv_kind :: string
  pv_name :: string
  pv_detail :: string

definition provenance_text :: "provenance \<Rightarrow> string" where
  "provenance_text p =
     (if pv_kind p = [] \<and> pv_name p = [] then ''<unknown source>''
      else if pv_detail p \<noteq> [] then pv_kind p @ '' '' @ pv_name p @ '' ('' @ pv_detail p @ '')''
      else if pv_kind p = [] then pv_name p
      else pv_kind p @ '' '' @ pv_name p)"

definition provenance_sort_key :: "provenance \<Rightarrow> string" where
  "provenance_sort_key p = pv_kind p @ [CHR 0x00] @ pv_name p @ [CHR 0x00] @ pv_detail p"

type_synonym requirement = "(string \<times> string list) list"

record oas_info =
  oi_title :: string
  oi_version :: string
  oi_rest :: jval

record oas_server =
  os_url :: string
  os_rest :: jval

record oas_tag =
  ot_name :: string
  ot_description :: string
  ot_docs :: jval

record operation =
  op_id :: string
  op_statuses :: "string list" \<comment> \<open>the keys of the responses\<close>
  op_security :: "requirement list"
  op_rest :: jval
  op_provenance :: provenance

record path_item =
  pi_summary :: string
  pi_description :: string
  pi_servers :: "oas_server list"
  pi_parameters :: "jval list"
  pi_operations :: "(string \<times> operation) list" \<comment> \<open>by method, in upper case\<close>
  pi_extensions :: jobj

type_synonym path_items = "(string \<times> path_item) list"

datatype component_section = Schemas | Responses | Parameters | RequestBodies | Headers | Examples | SecuritySchemes

definition component_sections :: "component_section list" where
  "component_sections = [Schemas, Responses, Parameters, RequestBodies, Headers, Examples, SecuritySchemes]"

fun section_name :: "component_section \<Rightarrow> string" where
  "section_name Schemas = ''schemas''"
| "section_name Responses = ''responses''"
| "section_name Parameters = ''parameters''"
| "section_name RequestBodies = ''requestBodies''"
| "section_name Headers = ''headers''"
| "section_name Examples = ''examples''"
| "section_name SecuritySchemes = ''securitySchemes''"

type_synonym components = "component_section \<Rightarrow> jobj"

record fragment =
  fr_provenance :: provenance
  fr_version :: string
  fr_info :: "oas_info option"
  fr_servers :: "oas_server list"
  fr_tags :: "oas_tag list"
  fr_security :: "requirement list"
  fr_paths :: path_items
  fr_webhooks :: path_items
  fr_components :: components
  fr_authoritative :: bool
  fr_extensions :: jobj

subsection \<open>Structural identity\<close>

text \<open>The encoding leaves the provenance of an operation out; the provenance of a fragment is part of it.\<close>

datatype hashed = HashOperation operation | HashInfo oas_info | HashComponent jval | HashRequirement requirement
  | HashFragment fragment

definition no_provenance :: provenance where
  "no_provenance = \<lparr>pv_kind = [], pv_name = [], pv_detail = []\<rparr>"

definition unprovenanced :: "operation \<Rightarrow> operation" where
  "unprovenanced x = x\<lparr>op_provenance := no_provenance\<rparr>"

definition unprovenanced_paths :: "path_items \<Rightarrow> path_items" where
  "unprovenanced_paths ps =
     map (\<lambda>(p, i). (p, i\<lparr>pi_operations := map (\<lambda>(k, x). (k, unprovenanced x)) (pi_operations i)\<rparr>)) ps"

type_synonym structural_hash = "hashed \<Rightarrow> string"

definition operation_hash :: "structural_hash \<Rightarrow> operation \<Rightarrow> string" where
  "operation_hash H x = H (HashOperation (unprovenanced x))"

definition fragment_hash :: "structural_hash \<Rightarrow> fragment \<Rightarrow> string" where
  "fragment_hash H f =
     H (HashFragment (f\<lparr>fr_paths := unprovenanced_paths (fr_paths f), fr_webhooks := unprovenanced_paths (fr_webhooks f)\<rparr>))"

subsection \<open>The merge\<close>

datatype conflict_policy = PolicyError | PolicyFirstWins | PolicyLastWins

record conflict =
  cf_kind :: string
  cf_key :: string
  cf_sources :: "provenance list"

record component_owner =
  ow_provenance :: provenance
  ow_hash :: string

record merged =
  mg_info :: "oas_info option"
  mg_info_source :: provenance
  mg_servers :: "oas_server list"
  mg_tags :: "oas_tag list"
  mg_security :: "requirement list"
  mg_paths :: path_items
  mg_webhooks :: path_items
  mg_components :: components
  mg_extensions :: jobj
  mg_versions :: "string \<Rightarrow> provenance list"
  mg_owners :: "(string \<times> component_owner) list"
  mg_conflicts :: "conflict list"
  mg_warnings :: "string list"
  mg_policy :: conflict_policy

definition new_merged :: "conflict_policy \<Rightarrow> merged" where
  "new_merged pol =
     \<lparr>mg_info = None, mg_info_source = no_provenance, mg_servers = [], mg_tags = [], mg_security = [], mg_paths = [],
      mg_webhooks = [], mg_components = (\<lambda>_. []), mg_extensions = [], mg_versions = (\<lambda>_. []), mg_owners = [],
      mg_conflicts = [], mg_warnings = [], mg_policy = pol\<rparr>"

definition note_conflict :: "string \<Rightarrow> string \<Rightarrow> provenance \<Rightarrow> provenance \<Rightarrow> merged \<Rightarrow> merged" where
  "note_conflict kind k a b m = m\<lparr>mg_conflicts := mg_conflicts m @ [\<lparr>cf_kind = kind, cf_key = k, cf_sources = [a, b]\<rparr>]\<rparr>"

definition note_warning :: "string \<Rightarrow> string \<Rightarrow> provenance \<Rightarrow> provenance \<Rightarrow> string \<Rightarrow> merged \<Rightarrow> merged" where
  "note_warning kind k a b how m =
     m\<lparr>mg_warnings := mg_warnings m
       @ [kind @ '' '' @ k @ '' defined by '' @ provenance_text a @ '' and '' @ provenance_text b @ ''; '' @ how]\<rparr>"

text \<open>Setting a key of a map, and its keys in order.\<close>

fun put_key :: "string \<Rightarrow> 'v \<Rightarrow> (string \<times> 'v) list \<Rightarrow> (string \<times> 'v) list" where
  "put_key k v [] = [(k, v)]"
| "put_key k v ((k', v') # m) = (if k' = k then (k, v) # m else (k', v') # put_key k v m)"

definition sorted_keys :: "(string \<times> 'v) list \<Rightarrow> string list" where
  "sorted_keys m = sort (remdups (map fst m))"

definition absorb_info :: "structural_hash \<Rightarrow> fragment \<Rightarrow> merged \<Rightarrow> merged" where
  "absorb_info H f m =
     (case fr_info f of
        None \<Rightarrow> m
      | Some i \<Rightarrow>
          (case mg_info m of
             None \<Rightarrow> m\<lparr>mg_info := Some i, mg_info_source := fr_provenance f\<rparr>
           | Some j \<Rightarrow>
               if fr_authoritative f then m\<lparr>mg_info := Some i, mg_info_source := fr_provenance f\<rparr>
               else if H (HashInfo j) = H (HashInfo i) then m
               else note_conflict ''info'' ''info'' (mg_info_source m) (fr_provenance f) m))"

definition merge_extensions :: "jobj \<Rightarrow> jobj \<Rightarrow> jobj" where
  "merge_extensions into from = into @ filter (\<lambda>(k, _). map_of into k = None) from"

definition merge_path_metadata :: "path_item \<Rightarrow> path_item \<Rightarrow> path_item" where
  "merge_path_metadata into from =
     into\<lparr>pi_summary := (if pi_summary into = [] then pi_summary from else pi_summary into),
          pi_description := (if pi_description into = [] then pi_description from else pi_description into),
          pi_servers := (if pi_servers into = [] then pi_servers from else pi_servers into),
          pi_parameters := pi_parameters into @ pi_parameters from,
          pi_extensions := merge_extensions (pi_extensions into) (pi_extensions from)\<rparr>"

text \<open>The two sections of paths are reached by a reader and a writer.\<close>

datatype path_section = PathSection | WebhookSection

definition section_paths :: "path_section \<Rightarrow> merged \<Rightarrow> path_items" where
  "section_paths sec m = (case sec of PathSection \<Rightarrow> mg_paths m | WebhookSection \<Rightarrow> mg_webhooks m)"

definition put_path :: "path_section \<Rightarrow> string \<Rightarrow> path_item \<Rightarrow> merged \<Rightarrow> merged" where
  "put_path sec p i m =
     (case sec of
        PathSection \<Rightarrow> m\<lparr>mg_paths := put_key p i (mg_paths m)\<rparr>
      | WebhookSection \<Rightarrow> m\<lparr>mg_webhooks := put_key p i (mg_webhooks m)\<rparr>)"

definition path_kind :: "path_section \<Rightarrow> string" where
  "path_kind sec = (case sec of PathSection \<Rightarrow> ''path'' | WebhookSection \<Rightarrow> ''webhook'')"

definition put_operation :: "path_section \<Rightarrow> string \<Rightarrow> string \<Rightarrow> operation \<Rightarrow> merged \<Rightarrow> merged" where
  "put_operation sec p k x m =
     (case map_of (section_paths sec m) p of
        None \<Rightarrow> m
      | Some i \<Rightarrow> put_path sec p (i\<lparr>pi_operations := put_key k x (pi_operations i)\<rparr>) m)"

definition absorb_operation ::
  "structural_hash \<Rightarrow> path_section \<Rightarrow> string \<Rightarrow> path_item \<Rightarrow> string \<Rightarrow> merged \<Rightarrow> merged"
where
  "absorb_operation H sec p item k m =
     (case (map_of (pi_operations item) k, map_of (section_paths sec m) p) of
        (Some incoming, Some existing) \<Rightarrow>
          (case map_of (pi_operations existing) k of
             None \<Rightarrow> put_operation sec p k incoming m
           | Some current \<Rightarrow>
               if operation_hash H current = operation_hash H incoming then m
               else (case mg_policy m of
                  PolicyFirstWins \<Rightarrow> note_warning (path_kind sec) (k @ '' '' @ p) (op_provenance current)
                    (op_provenance incoming) ''kept the first'' m
                | PolicyLastWins \<Rightarrow> note_warning (path_kind sec) (k @ '' '' @ p) (op_provenance current)
                    (op_provenance incoming) ''kept the last'' (put_operation sec p k incoming m)
                | PolicyError \<Rightarrow> note_conflict (path_kind sec) (k @ '' '' @ p) (op_provenance current)
                    (op_provenance incoming) m))
      | _ \<Rightarrow> m)"

definition absorb_path :: "structural_hash \<Rightarrow> path_section \<Rightarrow> path_items \<Rightarrow> string \<Rightarrow> merged \<Rightarrow> merged" where
  "absorb_path H sec ps p m =
     (case map_of ps p of
        None \<Rightarrow> m
      | Some item \<Rightarrow>
          (case map_of (section_paths sec m) p of
             None \<Rightarrow> put_path sec p item m
           | Some existing \<Rightarrow>
               fold (absorb_operation H sec p item) (sorted_keys (pi_operations item))
                 (put_path sec p (merge_path_metadata existing item) m)))"

definition absorb_paths :: "structural_hash \<Rightarrow> path_section \<Rightarrow> path_items \<Rightarrow> merged \<Rightarrow> merged" where
  "absorb_paths H sec ps m = fold (absorb_path H sec ps) (sorted_keys ps) m"

definition absorb_component ::
  "structural_hash \<Rightarrow> provenance \<Rightarrow> component_section \<Rightarrow> jobj \<Rightarrow> string \<Rightarrow> merged \<Rightarrow> merged"
where
  "absorb_component H src sec entries n m =
     (case map_of entries n of
        None \<Rightarrow> m
      | Some v \<Rightarrow>
          (let k = section_name sec @ ''/'' @ n; h = H (HashComponent v);
               store = (\<lambda>m. m\<lparr>mg_components := (mg_components m)(sec := put_key n v (mg_components m sec)),
                               mg_owners := put_key k \<lparr>ow_provenance = src, ow_hash = h\<rparr> (mg_owners m)\<rparr>)
           in case map_of (mg_owners m) k of
                None \<Rightarrow> store m
              | Some owner \<Rightarrow>
                  if ow_hash owner = h then m
                  else (case mg_policy m of
                     PolicyFirstWins \<Rightarrow> note_warning ''component'' k (ow_provenance owner) src ''kept the first'' m
                   | PolicyLastWins \<Rightarrow> note_warning ''component'' k (ow_provenance owner) src ''kept the last'' (store m)
                   | PolicyError \<Rightarrow> note_conflict ''component'' k (ow_provenance owner) src m)))"

definition absorb_components :: "structural_hash \<Rightarrow> fragment \<Rightarrow> merged \<Rightarrow> merged" where
  "absorb_components H f m =
     fold (\<lambda>sec. fold (absorb_component H (fr_provenance f) sec (fr_components f sec)) (sorted_keys (fr_components f sec)))
       component_sections m"

definition absorb :: "structural_hash \<Rightarrow> fragment \<Rightarrow> merged \<Rightarrow> merged" where
  "absorb H f m =
     (let m1 = (if fr_version f = [] then m
                else m\<lparr>mg_versions := (mg_versions m)(fr_version f := mg_versions m (fr_version f) @ [fr_provenance f])\<rparr>);
          m2 = absorb_info H f m1;
          m3 = m2\<lparr>mg_servers := mg_servers m2 @ fr_servers f, mg_tags := mg_tags m2 @ fr_tags f,
                  mg_security := mg_security m2 @ fr_security f,
                  mg_extensions := fold (\<lambda>(k, v). put_key k v) (fr_extensions f) (mg_extensions m2)\<rparr>
      in absorb_components H f
          (absorb_paths H WebhookSection (fr_webhooks f) (absorb_paths H PathSection (fr_paths f) m3)))"

subsection \<open>The end of a merge\<close>

fun dedupe_by :: "('a \<Rightarrow> string) \<Rightarrow> string list \<Rightarrow> 'a list \<Rightarrow> 'a list" where
  "dedupe_by key seen [] = []"
| "dedupe_by key seen (x # xs) =
     (if key x \<in> set seen then dedupe_by key seen xs else x # dedupe_by key (key x # seen) xs)"

definition tag_description :: "oas_tag list \<Rightarrow> string \<Rightarrow> string" where
  "tag_description ts n =
     (case find (\<lambda>t. ot_name t = n \<and> ot_description t \<noteq> []) ts of None \<Rightarrow> [] | Some t \<Rightarrow> ot_description t)"

definition dedupe_tags :: "oas_tag list \<Rightarrow> oas_tag list" where
  "dedupe_tags ts =
     sort_key ot_name (map (\<lambda>t. t\<lparr>ot_description := tag_description ts (ot_name t)\<rparr>) (dedupe_by ot_name [] ts))"

definition finalize :: "structural_hash \<Rightarrow> merged \<Rightarrow> merged" where
  "finalize H m =
     m\<lparr>mg_servers := dedupe_by os_url [] (mg_servers m), mg_tags := dedupe_tags (mg_tags m),
       mg_security := dedupe_by (\<lambda>r. H (HashRequirement r)) [] (mg_security m), mg_warnings := sort (mg_warnings m)\<rparr>"

definition fragment_key :: "structural_hash \<Rightarrow> fragment \<Rightarrow> string" where
  "fragment_key H f = provenance_sort_key (fr_provenance f) @ [CHR 0x00] @ fragment_hash H f"

definition merge_fragments :: "structural_hash \<Rightarrow> fragment list \<Rightarrow> conflict_policy \<Rightarrow> conflict list + merged" where
  "merge_fragments H fs pol =
     (let out = finalize H (fold (absorb H) (sort_key (fragment_key H) fs) (new_merged pol))
      in if mg_conflicts out \<noteq> [] then Inl (mg_conflicts out) else Inr out)"

subsection \<open>Operation ids\<close>

definition upper_first :: "string \<Rightarrow> string" where
  "upper_first s = (case s of [] \<Rightarrow> [] | c # cs \<Rightarrow> (if 97 \<le> (of_char c :: nat) \<and> of_char c \<le> (122 :: nat)
      then char_of ((of_char c :: nat) - 32) else c) # cs)"

definition clean_segment :: "string \<Rightarrow> string" where
  "clean_segment s = filter (\<lambda>c. c \<notin> set ''{}.-_'') s"

definition synthesize_operation_id :: "string \<Rightarrow> string \<Rightarrow> string" where
  "synthesize_operation_id meth path = go_to_lower meth @ concat (map (upper_first \<circ> clean_segment) (go_split path ''/''))"

definition prefixed_id :: "string \<Rightarrow> string \<Rightarrow> string \<Rightarrow> operation \<Rightarrow> string" where
  "prefixed_id pre meth path x =
     (let i = go_trim_space (op_id x) in pre @ (if i = [] then synthesize_operation_id meth path else i))"

definition prefix_operation_ids :: "string \<Rightarrow> fragment \<Rightarrow> fragment" where
  "prefix_operation_ids pre f =
     f\<lparr>fr_paths := map (\<lambda>(p, i). (p, i\<lparr>pi_operations :=
         map (\<lambda>(k, x). (k, x\<lparr>op_id := prefixed_id pre k p x\<rparr>)) (pi_operations i)\<rparr>)) (fr_paths f)\<rparr>"

subsection \<open>Ingesting a document\<close>

record doc_options =
  do_provenance :: provenance
  do_namespace :: string
  do_operation_id_prefix :: string
  do_drop_servers :: bool
  do_drop_info :: bool
  do_drop_extensions :: bool

text \<open>The keys of the components with the namespace, and the rewrites of the references to them.\<close>

definition rename_keys :: "string \<Rightarrow> (string \<times> 'v) list \<Rightarrow> (string \<times> 'v) list" where
  "rename_keys ns m = map (\<lambda>(k, v). (ns @ k, v)) m"

definition component_ref :: "component_section \<Rightarrow> string \<Rightarrow> string" where
  "component_ref sec n = ''#/components/'' @ section_name sec @ ''/'' @ n"

definition ref_rewrites :: "string \<Rightarrow> components \<Rightarrow> (string \<times> string) list" where
  "ref_rewrites ns c =
     concat (map (\<lambda>sec. map (\<lambda>n. (component_ref sec n, component_ref sec (ns @ n))) (sorted_keys (c sec))) component_sections)"

text \<open>The loop that renames the schemes of a requirement deletes and inserts keys of the map it ranges over. The language
  leaves it open whether an inserted key is visited: a run picks an unvisited key, moves it, and the new key may or may
  not come up again. A state is the keys still to come and the map.\<close>

inductive scheme_step ::
  "string \<Rightarrow> string list \<times> requirement \<Rightarrow> string list \<times> requirement \<Rightarrow> bool" for ns :: string
where
  not_visited: "k \<in> set pending \<Longrightarrow> map_of r k = Some scopes \<Longrightarrow>
     scheme_step ns (pending, r) (removeAll k pending, put_key (ns @ k) scopes (filter (\<lambda>(k', _). k' \<noteq> k) r))"
| visited: "k \<in> set pending \<Longrightarrow> map_of r k = Some scopes \<Longrightarrow>
     scheme_step ns (pending, r) ((ns @ k) # removeAll k pending, put_key (ns @ k) scopes (filter (\<lambda>(k', _). k' \<noteq> k) r))"

definition renamed_requirement :: "string \<Rightarrow> requirement \<Rightarrow> requirement \<Rightarrow> bool" where
  "renamed_requirement ns r r' \<longleftrightarrow> (scheme_step ns)\<^sup>*\<^sup>* (map fst r, r) ([], r')"

record merge_env =
  me_hash :: structural_hash
  me_quote :: "string \<Rightarrow> string" \<comment> \<open>\<open>%q\<close>\<close>
  me_fragment :: "string \<Rightarrow> provenance \<Rightarrow> string + fragment" \<comment> \<open>a document as a fragment\<close>
  me_rewrite_refs :: "(string \<times> string) list \<Rightarrow> fragment \<Rightarrow> fragment"
  me_rename_schemes :: "string \<Rightarrow> requirement \<Rightarrow> requirement" \<comment> \<open>one run of the loop\<close>
  me_versions_ok :: "merged \<Rightarrow> string option"
  me_references_ok :: "merged \<Rightarrow> string option"
  me_structure_ok :: "merged \<Rightarrow> string option"

definition rename_security_schemes :: "merge_env \<Rightarrow> string \<Rightarrow> fragment \<Rightarrow> fragment" where
  "rename_security_schemes env ns f =
     f\<lparr>fr_security := map (me_rename_schemes env ns) (fr_security f),
       fr_paths := map (\<lambda>(p, i). (p, i\<lparr>pi_operations :=
         map (\<lambda>(k, x). (k, x\<lparr>op_security := map (me_rename_schemes env ns) (op_security x)\<rparr>)) (pi_operations i)\<rparr>)) (fr_paths f)\<rparr>"

definition namespace_components :: "merge_env \<Rightarrow> string \<Rightarrow> fragment \<Rightarrow> fragment" where
  "namespace_components env ns f =
     rename_security_schemes env ns
       (me_rewrite_refs env (ref_rewrites ns (fr_components f))
         (f\<lparr>fr_components := (\<lambda>sec. rename_keys ns (fr_components f sec))\<rparr>))"

definition apply_doc_options :: "merge_env \<Rightarrow> doc_options \<Rightarrow> fragment \<Rightarrow> fragment" where
  "apply_doc_options env opts f =
     (let f1 = f\<lparr>fr_authoritative := False,
                 fr_servers := (if do_drop_servers opts then [] else fr_servers f),
                 fr_info := (if do_drop_info opts then None else fr_info f),
                 fr_extensions := (if do_drop_extensions opts then [] else fr_extensions f)\<rparr>;
          f2 = (if do_namespace opts = [] then f1 else namespace_components env (do_namespace opts) f1)
      in if do_operation_id_prefix opts = [] then f2 else prefix_operation_ids (do_operation_id_prefix opts) f2)"

subsection \<open>The parser\<close>

record oas_parser =
  ps_fragments :: "fragment list"
  ps_frozen :: bool
  ps_policy :: conflict_policy
  ps_info :: "oas_info option"
  ps_servers :: "oas_server list"
  ps_schemas :: jobj \<comment> \<open>the registry of the reflector\<close>

definition new_parser :: oas_parser where
  "new_parser = \<lparr>ps_fragments = [], ps_frozen = False, ps_policy = PolicyError, ps_info = None, ps_servers = [], ps_schemas = []\<rparr>"

definition add_fragment :: "fragment \<Rightarrow> oas_parser \<Rightarrow> string + oas_parser" where
  "add_fragment f p =
     (if ps_frozen p
      then Inl (''adding fragment from '' @ provenance_text (fr_provenance f)
                @ '': parser is frozen; no further contributions accepted'')
      else Inr (p\<lparr>ps_fragments := ps_fragments p @ [f]\<rparr>))"

definition resolve_provenance :: "doc_options \<Rightarrow> provenance" where
  "resolve_provenance opts =
     (let p = do_provenance opts in if pv_kind p = [] then p\<lparr>pv_kind := ''document''\<rparr> else p)"

definition add_parsed_document :: "merge_env \<Rightarrow> string \<Rightarrow> doc_options \<Rightarrow> oas_parser \<Rightarrow> string + oas_parser" where
  "add_parsed_document env document opts p =
     and_then (me_fragment env document (resolve_provenance opts)) (\<lambda>f. add_fragment (apply_doc_options env opts f) p)"

subsection \<open>Lint\<close>

datatype lint_rule = OperationIdPresent | OperationIdUnique | ResponsesDeclared

fun lint_name :: "lint_rule \<Rightarrow> string" where
  "lint_name OperationIdPresent = ''operation-id-present''"
| "lint_name OperationIdUnique = ''operation-id-unique''"
| "lint_name ResponsesDeclared = ''responses-declared''"

definition each_operation :: "path_items \<Rightarrow> (string \<times> string \<times> operation) list" where
  "each_operation ps =
     concat (map (\<lambda>p. case map_of ps p of
         None \<Rightarrow> []
       | Some i \<Rightarrow> List.map_filter (\<lambda>k. map_option (\<lambda>x. (k, p, x)) (map_of (pi_operations i) k)) (sorted_keys (pi_operations i)))
       (sorted_keys ps))"

text \<open>\<open>strconv.Atoi\<close>, without the bounds of an \<open>int\<close>, which the range of statuses excludes.\<close>

definition signed_number :: "string \<Rightarrow> int option" where
  "signed_number s =
     (let ds = (case s of [] \<Rightarrow> [] | c # cs \<Rightarrow> if c = CHR ''-'' \<or> c = CHR ''+'' then cs else s);
          n = foldl (\<lambda>n c. n * 10 + (int (of_char c) - 48)) 0 ds
      in if ds = [] \<or> \<not> list_all is_digit ds then None else Some (if hd s = CHR ''-'' then - n else n))"

definition status_declared :: "string \<Rightarrow> bool" where
  "status_declared st \<longleftrightarrow>
     st = ''default'' \<or> has_suffix st ''XX'' \<or> (case signed_number st of None \<Rightarrow> False | Some c \<Rightarrow> 100 \<le> c \<and> c \<le> 599)"

definition lint_operation :: "(string \<Rightarrow> string) \<Rightarrow> lint_rule \<Rightarrow> string \<times> string \<times> operation \<Rightarrow> string list" where
  "lint_operation quote rule kpx =
     (case kpx of (k, p, x) \<Rightarrow>
        (case rule of
           OperationIdPresent \<Rightarrow>
             (if go_trim_space (op_id x) = []
              then [k @ '' '' @ p @ '' has no operationId (from '' @ provenance_text (op_provenance x) @ '')''] else [])
         | OperationIdUnique \<Rightarrow> []
         | ResponsesDeclared \<Rightarrow>
             (if op_statuses x = []
              then [k @ '' '' @ p @ '' documents no responses (from '' @ provenance_text (op_provenance x) @ '')'']
              else map (\<lambda>st. k @ '' '' @ p @ '' declares response key '' @ quote st @ '', which is not a status code'')
                     (filter (\<lambda>st. \<not> status_declared st) (sort (op_statuses x))))))"

definition operation_uses :: "path_items \<Rightarrow> string \<Rightarrow> string list" where
  "operation_uses ps i =
     List.map_filter (\<lambda>(k, p, x). if op_id x = i
         then Some (k @ '' '' @ p @ '' (from '' @ provenance_text (op_provenance x) @ '')'') else None) (each_operation ps)"

definition operation_ids :: "path_items \<Rightarrow> string list" where
  "operation_ids ps = filter (\<lambda>i. i \<noteq> []) (map (\<lambda>(_, _, x). op_id x) (each_operation ps))"

definition check_lint :: "(string \<Rightarrow> string) \<Rightarrow> path_items \<Rightarrow> lint_rule \<Rightarrow> string list" where
  "check_lint quote ps rule =
     (if rule = OperationIdUnique
      then List.map_filter (\<lambda>i. if length (operation_uses ps i) < 2 then None
             else Some (''operationId '' @ quote i @ '' is used by '' @ go_join (operation_uses ps i) '' and ''))
             (sort (remdups (operation_ids ps)))
      else concat (map (lint_operation quote rule) (each_operation ps)))"

definition run_lint :: "(string \<Rightarrow> string) \<Rightarrow> merged \<Rightarrow> lint_rule list \<Rightarrow> string list" where
  "run_lint quote m rules = sort (concat (map (\<lambda>r. map (\<lambda>t. lint_name r @ '': '' @ t) (check_lint quote (mg_paths m) r)) rules))"

subsection \<open>Compiling\<close>

datatype compile_error = MergeConflicts "conflict list" | VersionProblem string | DanglingReference string
  | StructureProblem string | LintFindings "string list"

definition apply_parser_defaults :: "oas_parser \<Rightarrow> merged \<Rightarrow> merged" where
  "apply_parser_defaults p m =
     (let m1 = (case ps_info p of
                  None \<Rightarrow> m
                | Some i \<Rightarrow> m\<lparr>mg_info := Some i, mg_info_source := \<lparr>pv_kind = ''manual'', pv_name = ''parser'', pv_detail = []\<rparr>\<rparr>);
          m2 = (if ps_servers p = [] then m1 else m1\<lparr>mg_servers := dedupe_by os_url [] (ps_servers p @ mg_servers m1)\<rparr>);
          i = (case mg_info m2 of None \<Rightarrow> \<lparr>oi_title = ''API'', oi_version = ''0.0.0'', oi_rest = JNull\<rparr> | Some i \<Rightarrow> i)
      in m2\<lparr>mg_info := Some (i\<lparr>oi_version := (if oi_version i = [] then ''0.0.0'' else oi_version i),
                               oi_title := (if oi_title i = [] then ''API'' else oi_title i)\<rparr>)\<rparr>)"

definition reflected_fragment :: "jobj \<Rightarrow> fragment" where
  "reflected_fragment schemas =
     \<lparr>fr_provenance = \<lparr>pv_kind = ''reflect'', pv_name = ''go types'', pv_detail = []\<rparr>, fr_version = [], fr_info = None,
      fr_servers = [], fr_tags = [], fr_security = [], fr_paths = [], fr_webhooks = [],
      fr_components = (\<lambda>sec. if sec = Schemas then schemas else []), fr_authoritative = False, fr_extensions = []\<rparr>"

definition problem :: "('a \<Rightarrow> compile_error) \<Rightarrow> 'a option \<Rightarrow> compile_error + unit" where
  "problem w r = (case r of None \<Rightarrow> Inr () | Some e \<Rightarrow> Inl (w e))"

definition compile_document :: "merge_env \<Rightarrow> lint_rule list \<Rightarrow> oas_parser \<Rightarrow> compile_error + merged" where
  "compile_document env rules p =
     (let fs = ps_fragments p @ (if ps_schemas p = [] then [] else [reflected_fragment (ps_schemas p)]) in
      and_then (wrap_err MergeConflicts (merge_fragments (me_hash env) fs (ps_policy p))) (\<lambda>m0.
        let m = apply_parser_defaults p m0; findings = run_lint (me_quote env) m rules in
        and_then (problem VersionProblem (me_versions_ok env m)) (\<lambda>_.
        and_then (problem DanglingReference (me_references_ok env m)) (\<lambda>_.
        and_then (problem StructureProblem (me_structure_ok env m)) (\<lambda>_.
          if findings = [] then Inr m else Inl (LintFindings findings))))))"

subsection \<open>The aggregate and the check before publishing\<close>

definition component_namespace :: "string \<Rightarrow> string" where
  "component_namespace name = map (\<lambda>c. if c = CHR ''-'' then CHR ''_'' else c) name @ ''_''"

definition cassette_provenance :: "string \<Rightarrow> provenance" where
  "cassette_provenance name = \<lparr>pv_kind = ''document'', pv_name = ''cassette '' @ name, pv_detail = []\<rparr>"

definition aggregate_options :: "string \<Rightarrow> doc_options" where
  "aggregate_options name =
     \<lparr>do_provenance = cassette_provenance name, do_namespace = component_namespace name,
      do_operation_id_prefix = component_namespace name, do_drop_servers = True, do_drop_info = True,
      do_drop_extensions = True\<rparr>"

definition publishable_options :: "string \<Rightarrow> doc_options" where
  "publishable_options name = (aggregate_options name)\<lparr>do_namespace := [], do_operation_id_prefix := []\<rparr>"

text \<open>The title and version of the aggregate, core's parser when there is one, and the documents of the cassettes.\<close>

definition aggregate_parser :: "oas_info \<Rightarrow> oas_parser option \<Rightarrow> oas_parser" where
  "aggregate_parser info base =
     new_parser\<lparr>ps_info := Some info, ps_policy := PolicyLastWins,
                ps_schemas := (case base of None \<Rightarrow> [] | Some b \<Rightarrow> ps_schemas b)\<rparr>"

datatype aggregate_error = CoreSurface string | CassetteDocument string string | CompileFailed compile_error

definition aggregate_document ::
  "merge_env \<Rightarrow> oas_info \<Rightarrow> oas_parser option \<Rightarrow> (string \<times> string) list \<Rightarrow> aggregate_error + merged"
where
  "aggregate_document env info base documents =
     and_then (wrap_err CoreSurface
       (fold_res add_fragment (case base of None \<Rightarrow> [] | Some b \<Rightarrow> ps_fragments b) (aggregate_parser info base))) (\<lambda>p.
     and_then (fold_res (\<lambda>n p. case map_of documents n of
           None \<Rightarrow> Inr p
         | Some d \<Rightarrow> wrap_err (CassetteDocument n) (add_parsed_document env d (aggregate_options n) p)) (sorted_keys documents) p) (\<lambda>p'.
     wrap_err CompileFailed (compile_document env [OperationIdPresent, OperationIdUnique, ResponsesDeclared] p')))"

definition publishable :: "merge_env \<Rightarrow> string \<Rightarrow> string \<Rightarrow> (string + compile_error) option" where
  "publishable env name document =
     (case add_parsed_document env document (publishable_options name) new_parser of
        Inl e \<Rightarrow> Some (Inl e)
      | Inr p \<Rightarrow> (case compile_document env [OperationIdUnique, ResponsesDeclared] p of
          Inl e \<Rightarrow> Some (Inr e) | Inr _ \<Rightarrow> None))"

end
