(* ===== verification/OpenApiFacts.thy ===== *)
theory OpenApiFacts
  imports OpenApiMerge "HOL-Library.Multiset"
begin

text \<open>
  What a merge keeps: every operation that is contributed is described, by the policy's choice among its
  contributions, whatever the order in which they were added. Two ways in which an aggregate fails although each
  document was found fit to publish.
\<close>

subsection \<open>Maps and lookups\<close>

lemma map_of_put_key: "map_of (put_key k v m) = (map_of m)(k \<mapsto> v)"
  by (induction m) (auto simp: fun_eq_iff)

lemma set_sorted_keys [simp]: "set (sorted_keys m) = fst ` set m"
  by (simp add: sorted_keys_def)

lemma distinct_sorted_keys [simp]: "distinct (sorted_keys m)"
  by (simp add: sorted_keys_def)

definition op_at :: "path_items \<Rightarrow> string \<Rightarrow> string \<Rightarrow> operation option" where
  "op_at ps p k = (case map_of ps p of None \<Rightarrow> None | Some i \<Rightarrow> map_of (pi_operations i) k)"

lemma op_at_put: "op_at (put_key p i ps) q k = (if q = p then map_of (pi_operations i) k else op_at ps q k)"
  by (simp add: op_at_def map_of_put_key)

text \<open>What stands at an operation after one more contribution.\<close>

definition resolve_op :: "structural_hash \<Rightarrow> conflict_policy \<Rightarrow> operation option \<Rightarrow> operation option \<Rightarrow> operation option" where
  "resolve_op H pol cur new =
     (case (cur, new) of
        (None, _) \<Rightarrow> new
      | (_, None) \<Rightarrow> cur
      | (Some c, Some n) \<Rightarrow> if operation_hash H c \<noteq> operation_hash H n \<and> pol = PolicyLastWins then Some n else Some c)"

text \<open>Two contributions that an error policy refuses to merge.\<close>

definition clash :: "structural_hash \<Rightarrow> operation option \<Rightarrow> operation option \<Rightarrow> bool" where
  "clash H cur new \<longleftrightarrow> (case (cur, new) of (Some c, Some n) \<Rightarrow> operation_hash H c \<noteq> operation_hash H n | _ \<Rightarrow> False)"

lemma resolve_None [simp]: "resolve_op H pol cur None = cur" "resolve_op H pol None new = new"
  by (simp_all add: resolve_op_def split: option.split)

lemma clash_None [simp]: "\<not> clash H cur None" "\<not> clash H None new"
  by (simp_all add: clash_def split: option.split)

lemma resolve_Some [simp]: "resolve_op H pol (Some c) (Some n) =
    (if operation_hash H c \<noteq> operation_hash H n \<and> pol = PolicyLastWins then Some n else Some c)"
  by (simp add: resolve_op_def)

lemma clash_Some [simp]: "clash H (Some c) (Some n) \<longleftrightarrow> operation_hash H c \<noteq> operation_hash H n"
  by (simp add: clash_def)

subsection \<open>One step of the merge\<close>

text \<open>A step adds the contributions \<open>c\<close>: they are resolved against what stands there, and when no conflict is noted in the
  end, none was there before and no contribution clashed.\<close>

definition contributes ::
  "structural_hash \<Rightarrow> (string \<Rightarrow> string \<Rightarrow> operation option) \<Rightarrow> merged \<Rightarrow> merged \<Rightarrow> bool"
where
  "contributes H c m m' \<longleftrightarrow>
     mg_policy m' = mg_policy m
     \<and> (\<forall>q j. op_at (mg_paths m') q j = resolve_op H (mg_policy m) (op_at (mg_paths m) q j) (c q j))
     \<and> (mg_conflicts m' = [] \<longrightarrow>
          mg_conflicts m = [] \<and> (mg_policy m = PolicyError \<longrightarrow> (\<forall>q j. \<not> clash H (op_at (mg_paths m) q j) (c q j))))"

definition nothing :: "string \<Rightarrow> string \<Rightarrow> operation option" where
  "nothing = (\<lambda>_ _. None)"

lemma contributes_nothing:
  "mg_policy m' = mg_policy m \<Longrightarrow> mg_paths m' = mg_paths m \<Longrightarrow> (mg_conflicts m' = [] \<Longrightarrow> mg_conflicts m = []) \<Longrightarrow>
   contributes H nothing m m'"
  by (simp add: contributes_def nothing_def)

lemma contributes_seq:
  assumes "contributes H c m m1" "contributes H d m1 m2" "\<And>q j. c q j = None \<or> d q j = None"
  shows "contributes H (\<lambda>q j. case c q j of None \<Rightarrow> d q j | Some x \<Rightarrow> Some x) m m2"
  using assms unfolding contributes_def
  by (auto split: option.split) (metis option.distinct(1) resolve_None clash_None)+

lemma contributes_operation:
  assumes "map_of (mg_paths m) p = Some e"
  shows "contributes H (\<lambda>q j. if q = p \<and> j = k then map_of (pi_operations item) k else None) m
           (absorb_operation H PathSection p item k m)"
    and "map_of (mg_paths (absorb_operation H PathSection p item k m)) p \<noteq> None"
proof -
  show "contributes H (\<lambda>q j. if q = p \<and> j = k then map_of (pi_operations item) k else None) m
           (absorb_operation H PathSection p item k m)"
  proof (cases "map_of (pi_operations item) k")
    case None
    then show ?thesis
      by (simp add: absorb_operation_def contributes_def)
  next
    case (Some n)
    show ?thesis
      by (cases "map_of (pi_operations e) k"; cases "mg_policy m")
        (auto simp: contributes_def absorb_operation_def section_paths_def assms Some op_at_def
          put_operation_def put_path_def note_warning_def note_conflict_def map_of_put_key)
  qed
  show "map_of (mg_paths (absorb_operation H PathSection p item k m)) p \<noteq> None"
    by (cases "map_of (pi_operations item) k"; cases "map_of (pi_operations e) k"; cases "mg_policy m")
      (auto simp: absorb_operation_def section_paths_def assms put_operation_def put_path_def
        note_warning_def note_conflict_def map_of_put_key)
qed

lemma contributes_cong: "contributes H c m m' \<Longrightarrow> (\<And>q j. c q j = d q j) \<Longrightarrow> contributes H d m m'"
  by (simp add: contributes_def)

lemma contributes_operations:
  assumes "map_of (mg_paths m) p \<noteq> None" "distinct ks"
  shows "contributes H (\<lambda>q j. if q = p \<and> j \<in> set ks then map_of (pi_operations item) j else None) m
           (fold (absorb_operation H PathSection p item) ks m)"
  using assms
proof (induction ks arbitrary: m)
  case Nil
  then show ?case by (simp add: contributes_def)
next
  case (Cons k ks)
  then obtain e where e: "map_of (mg_paths m) p = Some e" by blast
  note step = contributes_operation [OF e, where H = H and k = k and item = item]
  have rest: "contributes H (\<lambda>q j. if q = p \<and> j \<in> set ks then map_of (pi_operations item) j else None)
      (absorb_operation H PathSection p item k m)
      (fold (absorb_operation H PathSection p item) ks (absorb_operation H PathSection p item k m))"
    using Cons.IH [OF step(2)] Cons.prems(2) by simp
  show ?case
    unfolding fold_simps
    by (rule contributes_cong [OF contributes_seq [OF step(1) rest]]) (use Cons.prems(2) in \<open>auto split: option.split\<close>)
qed

lemma contributes_path:
  "contributes H (\<lambda>q j. if q = p then op_at ps p j else None) m (absorb_path H PathSection ps p m)"
proof (cases "map_of ps p")
  case None
  then show ?thesis by (simp add: absorb_path_def contributes_def op_at_def)
next
  case (Some item)
  show ?thesis
  proof (cases "map_of (mg_paths m) p")
    case None
    with Some show ?thesis
      by (auto simp: absorb_path_def section_paths_def put_path_def contributes_def op_at_put op_at_def [of ps] op_at_def [of "mg_paths m"])
  next
    case exists: (Some e)
    let ?m = "put_path PathSection p (merge_path_metadata e item) m"
    have same: "contributes H nothing m ?m"
      using exists by (auto simp: contributes_def nothing_def put_path_def op_at_put merge_path_metadata_def)
        (simp_all add: op_at_def)
    have there: "map_of (mg_paths ?m) p \<noteq> None" by (simp add: put_path_def map_of_put_key)
    have "absorb_path H PathSection ps p m = fold (absorb_operation H PathSection p item) (sorted_keys (pi_operations item)) ?m"
      by (simp add: absorb_path_def section_paths_def Some exists)
    moreover have "contributes H (\<lambda>q j. if q = p then op_at ps p j else None) m
        (fold (absorb_operation H PathSection p item) (sorted_keys (pi_operations item)) ?m)"
      by (rule contributes_cong [OF contributes_seq [OF same contributes_operations [OF there]]])
        (auto simp: nothing_def op_at_def Some map_of_eq_None_iff intro: sym)
    ultimately show ?thesis by simp
  qed
qed

lemma contributes_paths: "contributes H (op_at ps) m (absorb_paths H PathSection ps m)"
proof -
  have "contributes H (\<lambda>q j. if q \<in> set qs then op_at ps q j else None) m (fold (absorb_path H PathSection ps) qs m)"
    if "distinct qs" for qs
    using that
  proof (induction qs arbitrary: m)
    case Nil
    then show ?case by (simp add: contributes_def)
  next
    case (Cons p qs)
    show ?case
      unfolding fold_simps
      by (rule contributes_cong [OF contributes_seq [OF contributes_path Cons.IH]])
        (use Cons.prems in \<open>auto split: option.split\<close>)
  qed
  from this [OF distinct_sorted_keys [of ps]] show ?thesis
    unfolding absorb_paths_def
    by (rule contributes_cong) (force simp: op_at_def dest: map_of_SomeD split: option.split)
qed

text \<open>The other parts of a step.\<close>

definition inert :: "merged \<Rightarrow> merged \<Rightarrow> bool" where
  "inert m m' \<longleftrightarrow> mg_policy m' = mg_policy m \<and> mg_paths m' = mg_paths m \<and> (mg_conflicts m' = [] \<longrightarrow> mg_conflicts m = [])"

lemma inert_refl [simp]: "inert m m"
  by (simp add: inert_def)

lemma inert_trans: "inert a b \<Longrightarrow> inert b c \<Longrightarrow> inert a c"
  by (simp add: inert_def)

lemma inert_fold: "(\<And>x m. inert m (f x m)) \<Longrightarrow> inert m (fold f xs m)"
  by (induction xs arbitrary: m) (auto intro: inert_trans)

lemma contributes_inert: "inert m m' \<Longrightarrow> contributes H nothing m m'"
  by (simp add: inert_def contributes_nothing)

lemma inert_webhooks: "inert m (absorb_paths H WebhookSection ps m)"
proof -
  have op: "inert m (absorb_operation H WebhookSection p item k m)" for p item k m
    by (simp add: absorb_operation_def inert_def put_operation_def put_path_def note_warning_def note_conflict_def
        split: option.split conflict_policy.split)
  have put: "inert m (put_path WebhookSection p i m)" for p i m
    by (simp add: put_path_def inert_def)
  have "inert m (absorb_path H WebhookSection ps p m)" for p m
    unfolding absorb_path_def
    by (auto split: option.split intro: put inert_trans [OF put inert_fold] op)
  then show ?thesis unfolding absorb_paths_def by (rule inert_fold)
qed

lemma inert_components: "inert m (absorb_components H f m)"
proof -
  have "inert m (absorb_component H src sec es n m)" for src sec es n m
    by (simp add: absorb_component_def Let_def inert_def note_warning_def note_conflict_def
        split: option.split conflict_policy.split)
  then show ?thesis unfolding absorb_components_def by (intro inert_fold)
qed

lemma inert_info: "inert m (absorb_info H f m)"
  by (simp add: absorb_info_def inert_def note_conflict_def split: option.split)

lemma contributes_fragment: "contributes H (op_at (fr_paths f)) m (absorb H f m)"
proof -
  obtain m3 where m3: "inert m m3"
    and a: "absorb H f m = absorb_components H f (absorb_paths H WebhookSection (fr_webhooks f) (absorb_paths H PathSection (fr_paths f) m3))"
  proof -
    let ?m1 = "if fr_version f = [] then m
                else m\<lparr>mg_versions := (mg_versions m)(fr_version f := mg_versions m (fr_version f) @ [fr_provenance f])\<rparr>"
    let ?m2 = "absorb_info H f ?m1"
    let ?m3 = "?m2\<lparr>mg_servers := mg_servers ?m2 @ fr_servers f, mg_tags := mg_tags ?m2 @ fr_tags f,
                  mg_security := mg_security ?m2 @ fr_security f,
                  mg_extensions := fold (\<lambda>(k, v). put_key k v) (fr_extensions f) (mg_extensions ?m2)\<rparr>"
    have "inert m ?m1" "inert ?m2 ?m3" by (simp_all add: inert_def)
    then have "inert m ?m3" using inert_info inert_trans by blast
    then show thesis by (rule that) (simp add: absorb_def Let_def)
  qed
  have last: "inert m4 (absorb_components H f (absorb_paths H WebhookSection (fr_webhooks f) m4))" for m4
    using inert_trans [OF inert_webhooks inert_components] .
  show ?thesis
    unfolding a
    by (rule contributes_cong [OF contributes_seq [OF contributes_seq [OF contributes_inert [OF m3] contributes_paths]
            contributes_inert [OF last]]]) (auto simp: nothing_def split: option.split)
qed

subsection \<open>A whole merge\<close>

text \<open>What the fragments contribute to an operation, in the order of the merge.\<close>

definition contributions :: "structural_hash \<Rightarrow> fragment list \<Rightarrow> string \<Rightarrow> string \<Rightarrow> operation list" where
  "contributions H fs p k = List.map_filter (\<lambda>f. op_at (fr_paths f) p k) (sort_key (fragment_key H) fs)"

definition chosen :: "structural_hash \<Rightarrow> conflict_policy \<Rightarrow> operation list \<Rightarrow> operation option \<Rightarrow> bool" where
  "chosen H pol xs r =
     (case r of
        None \<Rightarrow> xs = []
      | Some x \<Rightarrow> x \<in> set xs \<and>
          (case pol of
             PolicyError \<Rightarrow> list_all (\<lambda>y. operation_hash H y = operation_hash H x) xs
           | PolicyFirstWins \<Rightarrow> x = hd xs
           | PolicyLastWins \<Rightarrow> operation_hash H x = operation_hash H (last xs)))"

lemma chosen_step:
  assumes "chosen H pol xs cur" "pol = PolicyError \<Longrightarrow> \<not> clash H cur new"
  shows "chosen H pol (xs @ (case new of None \<Rightarrow> [] | Some x \<Rightarrow> [x])) (resolve_op H pol cur new)"
proof (cases "cur = None \<or> xs = []")
  case True
  with assms show ?thesis by (cases cur; cases new; cases pol) (auto simp: chosen_def)
next
  case False
  with assms show ?thesis by (cases cur; cases new; cases pol) (auto simp: chosen_def)
qed

lemma conflicts_grow: "mg_conflicts (fold (absorb H) fs m) = [] \<Longrightarrow> mg_conflicts m = []"
proof (induction fs arbitrary: m)
  case (Cons f fs)
  from Cons.IH [of "absorb H f m"] Cons.prems contributes_fragment [of H f m] show ?case
    unfolding contributes_def fold_simps by blast
qed simp

lemma absorb_all:
  assumes "\<And>p k. chosen H (mg_policy m) (xs p k) (op_at (mg_paths m) p k)" "mg_conflicts (fold (absorb H) fs m) = []"
  shows "chosen H (mg_policy m) (xs p k @ List.map_filter (\<lambda>f. op_at (fr_paths f) p k) fs) (op_at (mg_paths (fold (absorb H) fs m)) p k)
       \<and> mg_conflicts m = []"
  using assms
proof (induction fs arbitrary: m xs)
  case (Cons f fs)
  note step = contributes_fragment [of H f m, unfolded contributes_def]
  let ?xs = "\<lambda>p k. xs p k @ (case op_at (fr_paths f) p k of None \<Rightarrow> [] | Some x \<Rightarrow> [x])"
  have none: "mg_conflicts (absorb H f m) = []"
    using conflicts_grow [of H fs "absorb H f m"] Cons.prems(2) by simp
  have "chosen H (mg_policy (absorb H f m)) (?xs p k) (op_at (mg_paths (absorb H f m)) p k)" for p k
    using step none chosen_step [OF Cons.prems(1) [of p k], of "op_at (fr_paths f) p k"] by auto
  from Cons.IH [OF this] Cons.prems(2) step none show ?case
    by (auto simp: List.map_filter_simps split: option.split)
qed (simp add: List.map_filter_simps)

text \<open>C39: A merge keeps what is contributed. It fails with its conflicts, or the document describes an operation exactly
  when some fragment does, by one of its contributions: under the error policy all of them say the same, under
  first-wins it is the first of the order of the merge, and under last-wins it says what the last one says.\<close>

theorem merge_keeps_operations:
  "case merge_fragments H fs pol of
     Inl cs \<Rightarrow> cs \<noteq> []
   | Inr m \<Rightarrow> chosen H pol (contributions H fs p k) (op_at (mg_paths m) p k)"
proof -
  let ?m = "fold (absorb H) (sort_key (fragment_key H) fs) (new_merged pol)"
  have init: "chosen H (mg_policy (new_merged pol)) [] (op_at (mg_paths (new_merged pol)) p k)" for p k
    by (simp add: chosen_def new_merged_def op_at_def)
  have "mg_conflicts ?m = [] \<Longrightarrow> chosen H pol (contributions H fs p k) (op_at (mg_paths ?m) p k)"
    using absorb_all [of H "new_merged pol" "\<lambda>_ _. []", OF init] by (simp add: contributions_def new_merged_def)
  then show ?thesis
    by (auto simp: merge_fragments_def Let_def finalize_def)
qed

lemma merge_order_independent:
  assumes "mset fs = mset gs" "inj_on (fragment_key H) (set fs)"
  shows "merge_fragments H fs pol = merge_fragments H gs pol"
proof -
  have "sort_key (fragment_key H) fs = sort_key (fragment_key H) gs"
    using assms by (intro sort_key_inj_key_eq) simp_all
  then show ?thesis by (simp add: merge_fragments_def)
qed

subsection \<open>Ids in an aggregate\<close>

text \<open>Two cassettes whose prefixes do not extend each other have no id in common.\<close>

lemma prefixed_ids_apart:
  assumes "\<not> has_prefix a b" "\<not> has_prefix b a"
  shows "prefixed_id a k p x \<noteq> prefixed_id b k' p' y"
proof
  assume "prefixed_id a k p x = prefixed_id b k' p' y"
  then obtain u v where "a @ u = b @ v" unfolding prefixed_id_def Let_def by blast
  then show False using assms by (auto simp: has_prefix_iff append_eq_append_conv2)
qed

text \<open>The loop over a requirement may prefix a scheme once or twice.\<close>

lemma scheme_renamed_once_or_twice:
  "renamed_requirement ''a_'' [(''key'', [])] [(''a_key'', [])]"
  "renamed_requirement ''a_'' [(''key'', [])] [(''a_a_key'', [])]"
proof -
  have once: "scheme_step ''a_'' ([''key''], [(''key'', [])]) ([], [(''a_key'', [])])"
    using scheme_step.not_visited [of "''key''" "[''key'']" "[(''key'', [])]" "[]" "''a_''"] by simp
  have again: "scheme_step ''a_'' ([''key''], [(''key'', [])]) ([''a_key''], [(''a_key'', [])])"
    using scheme_step.visited [of "''key''" "[''key'']" "[(''key'', [])]" "[]" "''a_''"] by simp
  have twice: "scheme_step ''a_'' ([''a_key''], [(''a_key'', [])]) ([], [(''a_a_key'', [])])"
    using scheme_step.not_visited [of "''a_key''" "[''a_key'']" "[(''a_key'', [])]" "[]" "''a_''"] by simp
  show "renamed_requirement ''a_'' [(''key'', [])] [(''a_key'', [])]"
    unfolding renamed_requirement_def using once by auto
  show "renamed_requirement ''a_'' [(''key'', [])] [(''a_a_key'', [])]"
    unfolding renamed_requirement_def using again twice by (auto intro: converse_rtranclp_into_rtranclp)
qed

end
