(* ===== verification/OpenApiDemo.thy ===== *)
theory OpenApiDemo
  imports OpenApiMerge
begin

text \<open>
  Two aggregates that cannot be compiled although each document was found fit to publish.
\<close>

text \<open>Documents that are fit to publish and whose aggregate fails: one with two anonymous operations at paths that
  differ in a hyphen, and two of cassettes of which one's name is the start of the other's.\<close>

definition demo_fragment :: "(string \<times> string) list \<Rightarrow> provenance \<Rightarrow> fragment" where
  "demo_fragment ops src =
     (reflected_fragment [])\<lparr>fr_provenance := src,
       fr_paths := map (\<lambda>(p, i). (p, \<lparr>pi_summary = [], pi_description = [], pi_servers = [], pi_parameters = [],
         pi_operations = [(''GET'', \<lparr>op_id = i, op_statuses = [''200''], op_security = [], op_rest = JNull,
           op_provenance = src\<rparr>)], pi_extensions = []\<rparr>)) ops\<rparr>"

definition demo_merge :: merge_env where
  "demo_merge =
     \<lparr>me_hash = (\<lambda>h. case h of HashOperation x \<Rightarrow> op_id x | HashFragment f \<Rightarrow> [] | _ \<Rightarrow> []), me_quote = (\<lambda>s. s),
      me_fragment = (\<lambda>d src. Inr (demo_fragment
         (if d = ''anonymous'' then [(''/api/demo/ab'', []), (''/api/demo/a-b'', [])]
          else if d = ''short'' then [(''/api/hello/x'', ''world_read'')]
          else [(''/api/hello-world/x'', ''read'')]) src)),
      me_rewrite_refs = (\<lambda>_ f. f), me_rename_schemes = rename_keys,
      me_versions_ok = (\<lambda>_. None), me_references_ok = (\<lambda>_. None), me_structure_ok = (\<lambda>_. None)\<rparr>"

definition demo_info :: oas_info where
  "demo_info = \<lparr>oi_title = ''tapes'', oi_version = ''v1'', oi_rest = JNull\<rparr>"

definition lint_findings :: "aggregate_error + merged \<Rightarrow> string list" where
  "lint_findings r = (case r of Inl (CompileFailed (LintFindings fs)) \<Rightarrow> fs | _ \<Rightarrow> [])"

lemma anonymous_operations_fail_aggregate:
  "publishable demo_merge ''demo'' ''anonymous'' = None"
  "lint_findings (aggregate_document demo_merge demo_info None [(''demo'', ''anonymous'')]) \<noteq> []"
  by code_simp+

lemma extended_name_fails_aggregate:
  "publishable demo_merge ''hello'' ''short'' = None"
  "publishable demo_merge ''hello-world'' ''long'' = None"
  "lint_findings (aggregate_document demo_merge demo_info None [(''hello'', ''short'')]) = []"
  "lint_findings (aggregate_document demo_merge demo_info None [(''hello-world'', ''long'')]) = []"
  "lint_findings (aggregate_document demo_merge demo_info None [(''hello'', ''short''), (''hello-world'', ''long'')]) \<noteq> []"
  by code_simp+

end
