(* ===== verification/Spec2Isabelle.thy ===== *)
theory Spec2Isabelle
  imports SseReader SpanFinish DeriveLoop Reconcile TranscriptFacts DispatcherFacts ChangeFeed TraceViews ProxyFacts ProviderFacts CassetteFacts RawEquivFacts BackfillFacts OpenApiFacts OpenApiDemo
begin

section \<open>Tapes: capture and derivation of agent sessions\<close>

text \<open>
  Tapes records what coding agents exchange with language models and derives from the recording, for
  every session, a projection of traces and spans. This development models the way of a turn through
  the program, from the bytes a proxy sees to the rows a reader gets, and proves what keeps it correct.

  \<^bold>\<open>The program.\<close> A turn is captured by the ext_proc sidecar (\<open>extproc/\<close>) or by the local proxy
  (\<open>proxy/\<close>). The sidecar reduces the response (\<open>pkg/capture\<close>) and posts an envelope to the ingest
  server (\<open>ingest/\<close>), which appends it to the raw layer (\<open>pkg/storage/postgres\<close>) before it tries to
  parse it, and hands the parsed turn to a worker pool (\<open>proxy/worker\<close>) that records the session. An append
  marks the session dirty; the derive worker (\<open>pkg/derive/worker\<close>) takes dirty sessions from the queue and
  rebuilds each from its raw turns (\<open>pkg/storage/postgres/derive.go\<close>): calls become content-addressed
  chains (\<open>pkg/merkle\<close>, \<open>pkg/derive\<close>), transcripts are reconciled with them, side calls are attached, and
  the span emitter turns the result into traces, spans and links, which replace the session's projection
  in one transaction. Reads and a change feed serve the projection.

  \<^bold>\<open>Theories, in the order of that path.\<close>
    \<^item> \<open>Prelude\<close>, \<open>Results\<close>, \<open>LlmTypes\<close>: byte strings, times, 64-bit wrap, update at an index, lookups; errors as
      sums with their folds; the data of \<open>pkg/llm\<close>.
    \<^item> \<open>SseReader\<close> (\<open>pkg/sse\<close>), \<open>ContentEncoding\<close>, \<open>AnthropicReducer\<close>, \<open>ResponsesReducer\<close> (\<open>pkg/capture\<close>): the bytes
      of a response to a reduced response. \<open>AnthropicFacts\<close>: a stream reduces as its one-shot body.
    \<^item> \<open>ExtprocHeaders\<close>, \<open>Extproc\<close>, \<open>Dispatcher\<close> (\<open>extproc/\<close>): the state machine of one stream, the raw lane, and
      admission, body limit and retries of a post as a transition system. \<open>ExtprocFacts\<close>, \<open>DispatcherFacts\<close>:
      one outcome per stream and per turn, budgets, what is captured and what is sent.
    \<^item> \<open>RawReduce\<close>, \<open>Ingest\<close>, \<open>WorkerPool\<close>: reduction of stored bytes, the two ingest handlers, the pool as a
      transition system. \<open>IngestFacts\<close>: capture comes before parsing, one counted outcome per reply.
    \<^item> \<open>RawStore\<close>: raw turns and session rows. \<open>RawStoreFacts\<close>: the invariant of the tables along every run.
    \<^item> \<open>DeriveQueue\<close>, \<open>DeriveWorker\<close>, \<open>DeriveLoop\<close>: the queue's table, the worker over any store, and both
      together with captures, sweeps and other workers as a transition system in which no dirty session is lost.
    \<^item> \<open>Projection\<close>, \<open>MerkleNode\<close>, \<open>Classify\<close>, \<open>TurnChain\<close>, \<open>Deriver\<close>, \<open>ActionText\<close>, \<open>AttachPass\<close>, \<open>SessionFolds\<close>:
      hashing of content, call kinds, chains, the deduplicating fold and the passes over its result.
    \<^item> \<open>Transcript\<close>, \<open>Reconcile\<close>, \<open>TranscriptProjection\<close>, \<open>TranscriptFacts\<close>: transcript files, their match with
      wire chains, and the fallback for sessions without wire turns.
    \<^item> \<open>Rederive\<close>, \<open>RederiveFacts\<close>: the rebuild of a session over the store, equal to the in-memory constructor.
    \<^item> \<open>SpanReads\<close>, \<open>SpanEmit\<close>, \<open>SpanWalk\<close>, \<open>SpanFinish\<close>: the span emitter over a heap of spans, the invariant of
      its walk, and the shape of what it emits.
    \<^item> \<open>SpanStore\<close>, \<open>SpanQueries\<close>, \<open>SpanStoreFacts\<close>, \<open>ChangeFeed\<close>: the write of a projection, its reads, and
      what a write changes and shows to the readers of the change feed.
    \<^item> \<open>SessionReads\<close>, \<open>SessionApi\<close>, \<open>SessionPages\<close>: the reads, rename and deletion of sessions, the handlers of the
      sessions API, and what a reader that follows the cursors of a listing gets.
    \<^item> \<open>AttributionRepair\<close>, \<open>RepairFacts\<close>: correcting the session of a captured turn, what a completed repair
      leaves, and that the tables stay well formed.
    \<^item> \<open>Providers\<close>, \<open>ProviderFacts\<close> (\<open>pkg/llm/provider\<close>): the parsers of requests and responses, and that a response
      and its echo in the next request give the same blocks. \<open>Proxy\<close>, \<open>ProxyFacts\<close> (\<open>proxy/\<close>): the local proxy from a
      request to its reply and the job of the turn, and that the reply does not depend on the capture.
    \<^item> \<open>TraceApi\<close>, \<open>TraceViews\<close> (\<open>api/\<close>): the handlers of traces, spans, the wire log and the totals; the views of a
      trace agree, and a preview is bounded.
    \<^item> \<open>CassetteManifest\<close>, \<open>ManifestFacts\<close> (\<open>pkg/cassette\<close>), \<open>CassetteRunner\<close>, \<open>CassetteFleet\<close>, \<open>CassettePriority\<close>,
      \<open>CassetteDemo\<close>, \<open>CassetteFacts\<close> (\<open>api/cassetterunner\<close>, \<open>api/cassettes.go\<close>): the extensions a server publishes, from
      manifest to route; what a digest identifies, the invariant of the fleet, who serves a name, where a path goes.
    \<^item> \<open>RawEquiv\<close>, \<open>RawEquivFacts\<close> (\<open>pkg/rawequiv\<close>): whether stored bytes reduce to the stored reduction; the bounded
      differ finds nothing exactly when two trees read the same at every path, and the report counts exactly.
    \<^item> \<open>Backfill\<close>, \<open>BackfillFacts\<close> (\<open>pkg/backfill\<close>): replaying captured bundles and uploading transcripts; a replayed
      turn gets the session and the thread of a live one.

  \<^bold>\<open>How code is read.\<close> A Go string is the list of its bytes; a \<open>time.Time\<close> is a number of nanoseconds with 0 the
  zero time; \<open>int\<close> and \<open>int64\<close> are integers, and where a sum can overflow the wrap is written out; a
  \<open>float64\<close> is a rational with a rounding parameter after each operation. A struct is a record, an error a left
  value, a Go map a partial function or, where its order shows, a list. Pointers that are shared are indices
  into a heap. A statement of the database is its effect on a list of rows, a transaction answers the new
  tables or an error and the old ones. Goroutines, connections and other processes are interleavings of a
  step relation, over which invariants are proved by rule induction.

  \<^bold>\<open>Parameters.\<close> JSON encoding and decoding, SHA-256, the decompressors, the UUID parser, the random jitter, the
  weighted semaphore, the collation of the database, the parsers of URLs and durations and the compiler of a
  cassette's document are arguments of the definitions; what a theorem needs of one of them is a hypothesis that names it, with an instance in its
  witness. The store a worker or a rebuild talks to is a record of its operations.

  \<^bold>\<open>Interfaces.\<close> Locales state what a component relies on: the laws of a byte budget, of the queue and of a table with
  a key (\<open>keyed_table\<close>, \<open>cursor_table\<close>), of a table whose rows have an owner (\<open>owned_table\<close>, for the registry and the
  document cache) among them; each is interpreted on the definitions that model the code.

  \<^bold>\<open>Bounds and fuel.\<close> Every definition is total. Loops are structural, or end by a measure: the spine walk by the
  calls left, the climb of a transcript by the records not yet seen (a cycle ends it), the merge of calls by
  the rows left. Only what has no end of its own takes a number of rounds: the derive loop, a
  repair that starts over while others move its turn, and a reader that follows cursors.

  \<^bold>\<open>Not modelled.\<close> Log lines, metrics registries and tracing; connections, timeouts and the errors of the network and
  the database beyond their being errors; the construction of the HTTP server, its generated documents and
  the streaming of the cassette proxy, the compiler of OpenAPI documents (reflection and rendering), the command
  line, the deck, seeding, configuration files, credentials and updates, all of which present or transport what is
  modelled here; the chain store in memory and \<open>merkle.Dag\<close>, which only tests use. The deriver and ingest take the
  parser of a request as a parameter; \<open>Providers\<close> models the ones the program has.
\<close>

end
